(* ===== verification/Prelude.thy ===== *)
theory Prelude
  imports Main "HOL-Library.Word"
begin

text \<open>
  The prelude of the development: the error values of the domains, results, the
  state-and-result computations in which the stateful handlers are written, and the
  generic lemmas on lists that several components share.

  A Rust \<open>AlienResult<T>\<close> is a value of \<^typ>\<open>'a + 'b\<close> over \<open>fault\<close>: \<open>Inl (Errno e)\<close> is
  \<open>Err(e)\<close>, \<open>Inl Panic\<close> is a panic (an \<open>unwrap\<close> of nothing, a failed \<open>assert\<close>, an index out
  of range), \<open>Inr x\<close> is \<open>Ok(x)\<close>.
\<close>

unbundle bit_operations_syntax

section \<open>Machine integers and bytes\<close>

type_synonym u8 = "8 word"
type_synonym u32 = "32 word"
type_synonym i32 = "32 word"
type_synonym u64 = "64 word"
type_synonym usize = "64 word"

section \<open>Errors and results\<close>

datatype errno =
    EPERM | ESRCH | EIO | ENOEXEC | EBADF | ECHILD | EAGAIN | ENOMEM | EACCES | EFAULT
  | ENOTDIR | EINVAL | ENOSPC | ESPIPE | ERANGE | ENOSYS | DOMAINCRASH | Eother nat

datatype fault = Errno errno | Panic

type_synonym 'a res = "fault + 'a"

abbreviation Ok :: "'a \<Rightarrow> 'a res" where "Ok x \<equiv> Inr x"
abbreviation Err :: "errno \<Rightarrow> 'a res" where "Err e \<equiv> Inl (Errno e)"
abbreviation panic :: "'a res" where "panic \<equiv> Inl Panic"

text \<open>\<open>Option::ok_or\<close> and \<open>Option::unwrap\<close>.\<close>

definition ok_or :: "'a option \<Rightarrow> errno \<Rightarrow> 'a res" where
  "ok_or x e = (case x of None \<Rightarrow> Err e | Some v \<Rightarrow> Ok v)"

definition unwrap :: "'a option \<Rightarrow> 'a res" where
  "unwrap x = (case x of None \<Rightarrow> panic | Some v \<Rightarrow> Ok v)"

lemma ok_or_simps [simp]:
  "ok_or None e = Err e" "ok_or (Some v) e = Ok v"
  by (simp_all add: ok_or_def)

lemma unwrap_simps [simp]:
  "unwrap None = panic" "unwrap (Some v) = Ok v"
  by (simp_all add: unwrap_def)

section \<open>State-and-result computations\<close>

text \<open>
  A handler that reads and writes the state of its domain and may fail. A failing step keeps
  the writes made before it, as the Rust code does (there is no rollback).
\<close>

type_synonym ('s, 'a) act = "'s \<Rightarrow> 'a res \<times> 's"

definition ret :: "'a \<Rightarrow> ('s, 'a) act" where
  "ret x = (\<lambda>s. (Ok x, s))"

definition fail :: "errno \<Rightarrow> ('s, 'a) act" where
  "fail e = (\<lambda>s. (Err e, s))"

definition abort :: "('s, 'a) act" where
  "abort = (\<lambda>s. (panic, s))"

definition lift :: "'a res \<Rightarrow> ('s, 'a) act" where
  "lift r = (\<lambda>s. (r, s))"

definition bind :: "('s, 'a) act \<Rightarrow> ('a \<Rightarrow> ('s, 'b) act) \<Rightarrow> ('s, 'b) act" where
  "bind m f = (\<lambda>s. case m s of (Inl e, s') \<Rightarrow> (Inl e, s') | (Inr x, s') \<Rightarrow> f x s')"

definition get_state :: "('s, 's) act" where
  "get_state = (\<lambda>s. (Ok s, s))"

definition modify_state :: "('s \<Rightarrow> 's) \<Rightarrow> ('s, unit) act" where
  "modify_state f = (\<lambda>s. (Ok (), f s))"

definition assert_that :: "bool \<Rightarrow> ('s, unit) act" where
  "assert_that b = (if b then ret () else abort)"

text \<open>\<open>attempt m\<close> runs \<open>m\<close> and hands its \<open>Result\<close> to the caller, who matches on it
  (a panic is not a \<open>Result\<close> and goes on).\<close>

definition attempt :: "('s, 'a) act \<Rightarrow> ('s, errno + 'a) act" where
  "attempt m = (\<lambda>s. case m s of
       (Inl (Errno e), s') \<Rightarrow> (Ok (Inl e), s')
     | (Inl Panic, s') \<Rightarrow> (panic, s')
     | (Inr x, s') \<Rightarrow> (Ok (Inr x), s'))"

text \<open>\<open>must m\<close> is \<open>m().unwrap()\<close>: an \<open>Err\<close> is a panic.\<close>

definition must :: "('s, 'a) act \<Rightarrow> ('s, 'a) act" where
  "must m = (\<lambda>s. case m s of (Inl e, s') \<Rightarrow> (panic, s') | (Inr x, s') \<Rightarrow> (Ok x, s'))"

text \<open>A computation on a part of the state.\<close>

definition zoom :: "('s \<Rightarrow> 't) \<Rightarrow> ('t \<Rightarrow> 's \<Rightarrow> 's) \<Rightarrow> ('t, 'a) act \<Rightarrow> ('s, 'a) act" where
  "zoom get put m = (\<lambda>s. case m (get s) of (r, t) \<Rightarrow> (r, put t s))"

named_theorems act_simps \<open>the equations that run a computation on a state\<close>

lemma act_basics [act_simps]:
  "ret x s = (Ok x, s)" "fail e s = (Err e, s)" "abort s = (panic, s)" "lift r s = (r, s)"
  "get_state s = (Ok s, s)" "modify_state f s = (Ok (), f s)"
  by (simp_all add: ret_def fail_def abort_def lift_def get_state_def modify_state_def)

lemma bind_run [act_simps]:
  "bind m f s = (case m s of (Inl e, s') \<Rightarrow> (Inl e, s') | (Inr x, s') \<Rightarrow> f x s')"
  by (simp add: bind_def)

lemma attempt_run [act_simps]:
  "attempt m s = (case m s of
       (Inl (Errno e), s') \<Rightarrow> (Ok (Inl e), s')
     | (Inl Panic, s') \<Rightarrow> (panic, s')
     | (Inr x, s') \<Rightarrow> (Ok (Inr x), s'))"
  by (simp add: attempt_def)

lemma assert_that_run [act_simps]:
  "assert_that b s = (if b then (Ok (), s) else (panic, s))"
  by (simp add: assert_that_def act_simps)

lemma must_run [act_simps]:
  "must m s = (case m s of (Inl e, s') \<Rightarrow> (panic, s') | (Inr x, s') \<Rightarrow> (Ok x, s'))"
  by (simp add: must_def)

lemma zoom_run [act_simps]: "zoom get put m s = (case m (get s) of (r, t) \<Rightarrow> (r, put t s))"
  by (simp add: zoom_def)

text \<open>\<open>map_err\<close>: a failure is answered with another error.\<close>

definition map_err :: "errno \<Rightarrow> ('s, 'a) act \<Rightarrow> ('s, 'a) act" where
  "map_err e m = bind (attempt m) (\<lambda>r. case r of Inl _ \<Rightarrow> fail e | Inr x \<Rightarrow> ret x)"

lemma map_err_run [act_simps]:
  "map_err e m s = (case m s of (Inl (Errno _), s') \<Rightarrow> (Err e, s') | (Inl Panic, s') \<Rightarrow> (panic, s') | (Inr x, s') \<Rightarrow> (Ok x, s'))"
  by (simp add: map_err_def act_simps split: prod.split sum.split fault.split)

lemma bind_Ok_iff:
  "bind m f s = (Inr y, t) \<longleftrightarrow> (\<exists>x s'. m s = (Inr x, s') \<and> f x s' = (Inr y, t))"
  by (auto simp: bind_def split: prod.splits sum.splits)

lemma bind_assoc: "bind (bind m f) g = bind m (\<lambda>x. bind (f x) g)"
  by (rule ext) (simp add: bind_def split: prod.splits sum.splits)

lemma bind_ret [simp]: "bind (ret x) f = f x"
  by (rule ext) (simp add: bind_def ret_def)

text \<open>A property of the state that a computation keeps, whatever its result.\<close>

definition keeps :: "('s \<Rightarrow> bool) \<Rightarrow> ('s, 'a) act \<Rightarrow> bool" where
  "keeps P m \<longleftrightarrow> (\<forall>s. P s \<longrightarrow> P (snd (m s)))"

lemma keepsI: "(\<And>s. P s \<Longrightarrow> P (snd (m s))) \<Longrightarrow> keeps P m"
  by (simp add: keeps_def)

lemma keepsD: "keeps P m \<Longrightarrow> P s \<Longrightarrow> P (snd (m s))"
  by (simp add: keeps_def)

lemma keeps_basics [intro]:
  "keeps P (ret x)" "keeps P (fail e)" "keeps P abort" "keeps P (lift r)"
  "keeps P get_state" "keeps P (assert_that b)"
  by (simp_all add: keeps_def act_simps)

lemma keeps_bind [intro]:
  assumes "keeps P m" and "\<And>x. keeps P (f x)"
  shows "keeps P (bind m f)"
proof (rule keepsI)
  fix s assume "P s"
  with assms(1) have m: "P (snd (m s))" by (rule keepsD)
  show "P (snd (bind m f s))"
  proof (cases "m s")
    case (Pair r t)
    with m have "P t" by simp
    with assms(2) Pair show ?thesis
      by (cases r) (auto simp: bind_def dest: keepsD)
  qed
qed

lemma keeps_attempt [intro]: "keeps P m \<Longrightarrow> keeps P (attempt m)"
  by (auto simp: keeps_def attempt_def split: prod.splits sum.splits fault.splits)

lemma keeps_must [intro]: "keeps P m \<Longrightarrow> keeps P (must m)"
  by (auto simp: keeps_def must_def split: prod.splits sum.splits)

lemma keeps_zoom [intro]:
  "(\<And>s. P s \<Longrightarrow> P (put (snd (m (get s))) s)) \<Longrightarrow> keeps P (zoom get put m)"
  by (simp add: keeps_def zoom_def split_beta)

lemma keeps_modify [intro]: "(\<And>s. P s \<Longrightarrow> P (f s)) \<Longrightarrow> keeps P (modify_state f)"
  by (simp add: keeps_def act_simps)

text \<open>From \<open>Q\<close>, a computation ends in \<open>P\<close>, whatever its result.\<close>

definition leads :: "('s \<Rightarrow> bool) \<Rightarrow> ('s \<Rightarrow> bool) \<Rightarrow> ('s, 'a) act \<Rightarrow> bool" where
  "leads Q P m \<longleftrightarrow> (\<forall>s. Q s \<longrightarrow> P (snd (m s)))"

lemma leadsI: "(\<And>s. Q s \<Longrightarrow> P (snd (m s))) \<Longrightarrow> leads Q P m"
  by (simp add: leads_def)

lemma leadsD: "leads Q P m \<Longrightarrow> Q s \<Longrightarrow> P (snd (m s))"
  by (simp add: leads_def)

lemma leads_keeps: "keeps Q m \<Longrightarrow> (\<And>s. Q s \<Longrightarrow> P s) \<Longrightarrow> leads Q P m"
  by (simp add: leads_def keeps_def)

lemma leads_bind:
  assumes "keeps Q m" and "\<And>s. Q s \<Longrightarrow> P s" and "\<And>x. leads Q P (f x)"
  shows "leads Q P (bind m f)"
proof (rule leadsI)
  fix s assume "Q s"
  with assms(1) have m: "Q (snd (m s))" by (rule keepsD)
  show "P (snd (bind m f s))"
  proof (cases "m s")
    case (Pair r t)
    with m have "Q t" by simp
    with assms Pair show ?thesis by (cases r) (auto simp: bind_def dest: leadsD)
  qed
qed

text \<open>
  A handler that may give up the processor (\<open>basic::wait_now\<close>, \<open>basic::yield_now\<close>) is
  modelled up to that point: \<open>Block\<close> is a task that sleeps in the kernel, \<open>Done\<close> a task that
  returns to its caller.
\<close>

datatype 'a progress = Done 'a | Block

section \<open>Lists\<close>

text \<open>Writing a block into a list (\<open>dst[i..i+n].copy_from_slice(src)\<close>).\<close>

definition splice :: "nat \<Rightarrow> 'a list \<Rightarrow> 'a list \<Rightarrow> 'a list" where
  "splice i src dst = take i dst @ src @ drop (i + length src) dst"

lemma length_splice [simp]:
  "i + length src \<le> length dst \<Longrightarrow> length (splice i src dst) = length dst"
  by (simp add: splice_def)

lemma nth_splice:
  "i + length src \<le> length dst \<Longrightarrow> j < length dst \<Longrightarrow>
   splice i src dst ! j = (if i \<le> j \<and> j < i + length src then src ! (j - i) else dst ! j)"
  by (auto simp: splice_def nth_append min_def)

text \<open>Reading a block (\<open>&src[i..i+n]\<close>).\<close>

definition slice :: "nat \<Rightarrow> nat \<Rightarrow> 'a list \<Rightarrow> 'a list" where
  "slice i n xs = take n (drop i xs)"

lemma length_slice [simp]: "i + n \<le> length xs \<Longrightarrow> length (slice i n xs) = n"
  by (simp add: slice_def)

lemma nth_slice: "i + n \<le> length xs \<Longrightarrow> j < n \<Longrightarrow> slice i n xs ! j = xs ! (i + j)"
  by (simp add: slice_def)

lemma slice_splice_same:
  "i + length src \<le> length dst \<Longrightarrow> slice i (length src) (splice i src dst) = src"
  by (simp add: slice_def splice_def)

lemma take_splice_0: "take (length bs) (splice 0 bs buf) = bs"
  by (simp add: splice_def)

text \<open>\<open>dst[i..i+src.len()].copy_from_slice(src)\<close>, which panics when the range is out of bounds.\<close>

definition copy_into :: "nat \<Rightarrow> 'a list \<Rightarrow> 'a list \<Rightarrow> 'a list res" where
  "copy_into i src dst = (if i + length src \<le> length dst then Ok (splice i src dst) else panic)"

lemma slice_add: "slice a (n + m) xs = slice a n xs @ slice (a + n) m xs"
  by (simp add: slice_def take_add) (simp add: add.commute)

text \<open>\<open>&buf.as_slice()[..n]\<close>: a panic beyond the end.\<close>

definition slice_to :: "nat \<Rightarrow> u8 list \<Rightarrow> u8 list res" where
  "slice_to n buf = (if n \<le> length buf then Ok (take n buf) else panic)"

lemma splice_Nil [simp]: "splice a [] xs = xs"
  by (simp add: splice_def)

lemma splice_append:
  assumes "a + length xs + length ys \<le> length zs"
  shows "splice a (xs @ ys) zs = splice (a + length xs) ys (splice a xs zs)"
  using assms by (simp add: splice_def ac_simps)

text \<open>Lists of blocks of one length.\<close>

definition uniform :: "nat \<Rightarrow> 'a list list \<Rightarrow> bool" where
  "uniform k bs \<longleftrightarrow> (\<forall>b \<in> set bs. length b = k)"

lemma uniform_simps [simp]: "uniform k []" "uniform k (b # bs) \<longleftrightarrow> length b = k \<and> uniform k bs"
  by (simp_all add: uniform_def)

lemma uniform_nth: "uniform k bs \<Longrightarrow> i < length bs \<Longrightarrow> length (bs ! i) = k"
  by (simp add: uniform_def)

lemma uniform_update: "uniform k bs \<Longrightarrow> length b = k \<Longrightarrow> uniform k (bs[i := b])"
  unfolding uniform_def by (metis in_set_conv_nth length_list_update nth_list_update nth_list_update_neq)

lemma length_concat_uniform: "uniform k bs \<Longrightarrow> length (concat bs) = length bs * k"
  by (induction bs) simp_all

lemma concat_split:
  "i < length bs \<Longrightarrow> concat bs = concat (take i bs) @ bs ! i @ concat (drop (Suc i) bs)"
  by (metis concat.simps(2) concat_append id_take_nth_drop)

lemma uniform_take: "uniform k bs \<Longrightarrow> uniform k (take i bs)"
  by (auto simp: uniform_def dest: in_set_takeD)

lemma slice_concat:
  assumes "uniform k bs" and "i < length bs" and "j + n \<le> k"
  shows "slice (i * k + j) n (concat bs) = slice j n (bs ! i)"
proof -
  have "length (concat (take i bs)) = i * k"
    using assms(2) length_concat_uniform [OF uniform_take [OF assms(1)], of i] by simp
  moreover have "length (bs ! i) = k" using assms by (simp add: uniform_nth)
  ultimately show ?thesis
    using assms(3) by (subst concat_split [OF assms(2)]) (simp add: slice_def)
qed

lemma concat_update:
  assumes "uniform k bs" and "i < length bs" and "j + length c \<le> k"
  shows "concat (bs[i := splice j c (bs ! i)]) = splice (i * k + j) c (concat bs)"
proof -
  have 1: "length (concat (take i bs)) = i * k"
    using assms(2) length_concat_uniform [OF uniform_take [OF assms(1)], of i] by simp
  have 2: "length (bs ! i) = k" using assms by (simp add: uniform_nth)
  have "concat (bs[i := splice j c (bs ! i)])
      = concat (take i bs) @ splice j c (bs ! i) @ concat (drop (Suc i) bs)"
    using assms(2) by (subst concat_split [of i]) simp_all
  also have "\<dots> = splice (i * k + j) c (concat (take i bs) @ bs ! i @ concat (drop (Suc i) bs))"
    using assms(3) 1 2 by (simp add: splice_def)
  finally show ?thesis using concat_split [OF assms(2)] by simp
qed

lemma concat_slices:
  "a \<le> b \<Longrightarrow> concat (map (\<lambda>i. slice (i * k) k xs) [a..<b]) = slice (a * k) ((b - a) * k) xs"
proof (induction b)
  case (Suc b)
  show ?case
  proof (cases "a = Suc b")
    case True
    then show ?thesis by (simp add: slice_def)
  next
    case False
    with Suc.prems have ab: "a \<le> b" by simp
    then have "(Suc b - a) * k = (b - a) * k + k" "a * k + (b - a) * k = b * k"
      by (simp_all add: Suc_diff_le flip: add_mult_distrib)
    with Suc.IH [OF ab] ab show ?thesis by (simp add: slice_add)
  qed
qed (simp add: slice_def)

lemma slice_splice_disjoint:
  assumes "a + n \<le> i \<or> i + length src \<le> a" and "i + length src \<le> length xs" and "a + n \<le> length xs"
  shows "slice a n (splice i src xs) = slice a n xs"
  by (rule nth_equalityI) (use assms in \<open>auto simp: nth_slice nth_splice\<close>)

text \<open>The first position that satisfies a predicate (\<open>iter().position\<close>).\<close>

fun position :: "('a \<Rightarrow> bool) \<Rightarrow> 'a list \<Rightarrow> nat option" where
  "position p [] = None"
| "position p (x # xs) = (if p x then Some 0 else map_option Suc (position p xs))"

lemma position_Some_iff:
  "position p xs = Some i \<longleftrightarrow> i < length xs \<and> p (xs ! i) \<and> (\<forall>j < i. \<not> p (xs ! j))"
proof (induction xs arbitrary: i)
  case Nil
  then show ?case by simp
next
  case (Cons x xs)
  show ?case
  proof (cases i)
    case 0
    then show ?thesis by auto
  next
    case (Suc k)
    with Cons show ?thesis by (auto simp: less_Suc_eq_0_disj)
  qed
qed

lemma position_None_iff: "position p xs = None \<longleftrightarrow> (\<forall>x \<in> set xs. \<not> p x)"
  by (induction xs) auto

lemma position_less: "position p xs = Some i \<Longrightarrow> i < length xs"
  by (simp add: position_Some_iff)

text \<open>Removing one element (\<open>Vec::remove\<close>, \<open>VecDeque::remove\<close>).\<close>

definition remove_nth :: "nat \<Rightarrow> 'a list \<Rightarrow> 'a list" where
  "remove_nth i xs = take i xs @ drop (Suc i) xs"

lemma remove_nth_simps [simp]:
  "remove_nth i [] = []"
  "remove_nth 0 (x # xs) = xs"
  "remove_nth (Suc i) (x # xs) = x # remove_nth i xs"
  by (simp_all add: remove_nth_def)

lemma length_remove_nth [simp]:
  "i < length xs \<Longrightarrow> length (remove_nth i xs) = length xs - 1"
  by (simp add: remove_nth_def min_def)

lemma set_remove_nth_subset: "set (remove_nth i xs) \<subseteq> set xs"
  by (auto simp: remove_nth_def dest: in_set_takeD in_set_dropD)

lemma set_remove_nth: "i < length xs \<Longrightarrow> insert (xs ! i) (set (remove_nth i xs)) = set xs"
proof -
  assume "i < length xs"
  then have "xs = take i xs @ xs ! i # drop (Suc i) xs" by (rule id_take_nth_drop)
  then have "set xs = set (take i xs @ xs ! i # drop (Suc i) xs)" by simp
  then show ?thesis by (auto simp: remove_nth_def)
qed

end
