(* ===== verification/BTree.thy ===== *)
theory BTree
  imports Prelude
begin

text \<open>
  \<open>alloc::collections::BTreeMap\<close>, as far as the domains use it: a finite map whose
  iteration is in the order of the keys. It is kept as the list of its entries in ascending
  key order, so that \<open>values()\<close>, \<open>iter()\<close> and \<open>find\<close> are the list's. The locale
  \<open>ordered_map\<close> is the contract the components rely on; it is interpreted on these
  operations at the end.
\<close>

type_synonym ('k, 'v) btree = "('k \<times> 'v) list"

definition bt_empty :: "('k, 'v) btree" where
  "bt_empty = []"

definition bt_get :: "('k, 'v) btree \<Rightarrow> 'k \<Rightarrow> 'v option" where
  "bt_get m k = map_of m k"

fun bt_insert :: "'k::linorder \<Rightarrow> 'v \<Rightarrow> ('k, 'v) btree \<Rightarrow> ('k, 'v) btree" where
  "bt_insert k v [] = [(k, v)]"
| "bt_insert k v ((k', v') # m) =
     (if k < k' then (k, v) # (k', v') # m
      else if k = k' then (k, v) # m
      else (k', v') # bt_insert k v m)"

definition bt_remove :: "'k \<Rightarrow> ('k, 'v) btree \<Rightarrow> ('k, 'v) btree" where
  "bt_remove k m = filter (\<lambda>(k', _). k' \<noteq> k) m"

definition bt_keys :: "('k, 'v) btree \<Rightarrow> 'k list" where
  "bt_keys m = map fst m"

definition bt_values :: "('k, 'v) btree \<Rightarrow> 'v list" where
  "bt_values m = map snd m"

definition bt_wf :: "('k::linorder, 'v) btree \<Rightarrow> bool" where
  "bt_wf m \<longleftrightarrow> sorted_wrt (<) (map fst m)"

text \<open>Inserting a list of entries one after the other.\<close>

definition bt_extend :: "('k::linorder \<times> 'v) list \<Rightarrow> ('k, 'v) btree \<Rightarrow> ('k, 'v) btree" where
  "bt_extend es m = fold (\<lambda>(k, v). bt_insert k v) es m"

section \<open>The contract\<close>

locale ordered_map =
  fixes empty :: "'m"
    and insert :: "'k::linorder \<Rightarrow> 'v \<Rightarrow> 'm \<Rightarrow> 'm"
    and remove :: "'k \<Rightarrow> 'm \<Rightarrow> 'm"
    and get :: "'m \<Rightarrow> 'k \<Rightarrow> 'v option"
    and entries :: "'m \<Rightarrow> ('k \<times> 'v) list"
    and wf :: "'m \<Rightarrow> bool"
  assumes get_empty: "get empty k = None"
    and get_insert: "get (insert k v m) k' = (if k' = k then Some v else get m k')"
    and get_remove: "get (remove k m) k' = (if k' = k then None else get m k')"
    and entries_get: "wf m \<Longrightarrow> set (entries m) = {(k, v). get m k = Some v}"
    and entries_sorted: "wf m \<Longrightarrow> sorted_wrt (<) (map fst (entries m))"
    and wf_empty: "wf empty"
    and wf_insert: "wf m \<Longrightarrow> wf (insert k v m)"
    and wf_remove: "wf m \<Longrightarrow> wf (remove k m)"
begin

lemma get_insert_same: "get (insert k v m) k = Some v"
  by (simp add: get_insert)

lemma get_insert_other: "k' \<noteq> k \<Longrightarrow> get (insert k v m) k' = get m k'"
  by (simp add: get_insert)

lemma get_fold_insert:
  "get (fold (\<lambda>(k, v). insert k v) es m) k =
   (case map_of (rev es) k of None \<Rightarrow> get m k | Some v \<Rightarrow> Some v)"
  by (induction es arbitrary: m) (auto simp: get_insert map_add_def split: option.splits)

lemma wf_fold_insert: "wf m \<Longrightarrow> wf (fold (\<lambda>(k, v). insert k v) es m)"
  by (induction es arbitrary: m) (auto intro: wf_insert)

lemma in_values: "wf m \<Longrightarrow> v \<in> set (map snd (entries m)) \<longleftrightarrow> (\<exists>k. get m k = Some v)"
  by (force simp: entries_get)

end

section \<open>The list of entries meets it\<close>

lemma map_of_bt_insert: "map_of (bt_insert k v m) k' = (if k' = k then Some v else map_of m k')"
  by (induction m) auto

lemma map_of_filter_key: "map_of (filter (\<lambda>(k', _). k' \<noteq> k) m) k' = (if k' = k then None else map_of m k')"
  by (induction m) auto

lemma set_bt_insert: "set (bt_insert k v m) \<subseteq> Set.insert (k, v) (set m)"
  by (induction m) (auto split: if_splits)

lemma bt_wf_insert: "bt_wf m \<Longrightarrow> bt_wf (bt_insert k v m)"
proof (induction m)
  case (Cons e m)
  obtain k' v' where e: "e = (k', v')" by (cases e)
  have "fst x \<in> Set.insert k (fst ` set m)" if "x \<in> set (bt_insert k v m)" for x
    using that set_bt_insert [of k v m] by force
  with Cons e show ?case by (fastforce simp: bt_wf_def)
qed (simp add: bt_wf_def)

lemma bt_wf_distinct: "bt_wf m \<Longrightarrow> distinct (map fst m)"
  by (simp add: bt_wf_def strict_sorted_iff)

lemma bt_wf_remove: "bt_wf m \<Longrightarrow> bt_wf (bt_remove k m)"
  unfolding bt_wf_def bt_remove_def by (simp add: sorted_wrt_filter sorted_wrt_map)

interpretation bt: ordered_map bt_empty bt_insert bt_remove bt_get "\<lambda>m. m" bt_wf
proof
  fix m :: "('a, 'b) btree" assume "bt_wf m"
  then show "set m = {(k, v). bt_get m k = Some v}"
    by (auto simp: bt_get_def bt_wf_distinct)
  from \<open>bt_wf m\<close> show "sorted_wrt (<) (map fst m)" by (simp add: bt_wf_def)
qed (auto simp: bt_empty_def bt_get_def bt_remove_def map_of_bt_insert map_of_filter_key
    bt_wf_def [of "[]"] bt_wf_insert intro: bt_wf_remove [unfolded bt_remove_def])

lemmas bt_simps [simp] =
  bt.get_empty bt.get_insert bt.get_remove bt.wf_empty

lemmas bt_wf_intros [intro] = bt.wf_insert bt.wf_remove

lemma bt_wf_Nil [simp]: "bt_wf []" by (simp add: bt_wf_def)

lemma bt_get_Nil [simp]: "bt_get [] k = None" by (simp add: bt_get_def)

lemma bt_get_Cons [simp]:
  "bt_get ((k, v) # m) k' = (if k = k' then Some v else bt_get m k')"
  by (simp add: bt_get_def)

lemma bt_get_insert_fun: "bt_get (bt_insert k v m) = (bt_get m)(k := Some v)"
  by (rule ext) simp

lemma bt_get_remove_fun: "bt_get (bt_remove k m) = (bt_get m)(k := None)" for k :: "'k::linorder"
  by (rule ext) simp

lemma bt_keys_get: "bt_wf m \<Longrightarrow> k \<in> set (bt_keys m) \<longleftrightarrow> bt_get m k \<noteq> None"
  by (force simp: bt_keys_def bt_get_def map_of_eq_None_iff)

lemma in_bt_values: "bt_wf m \<Longrightarrow> v \<in> set (bt_values m) \<longleftrightarrow> (\<exists>k. bt_get m k = Some v)"
  unfolding bt_values_def by (rule bt.in_values)

lemma bt_get_extend:
  "bt_get (bt_extend es m) k = (case map_of (rev es) k of None \<Rightarrow> bt_get m k | Some v \<Rightarrow> Some v)"
  unfolding bt_extend_def by (rule bt.get_fold_insert)

lemma bt_wf_extend [intro]: "bt_wf m \<Longrightarrow> bt_wf (bt_extend es m)"
  unfolding bt_extend_def by (rule bt.wf_fold_insert)

text \<open>A map's values are the images of its keys, so updating one key keeps a fact of all values.\<close>

lemma bt_values_insert:
  "bt_wf m \<Longrightarrow> set (bt_values (bt_insert k v m)) \<subseteq> Set.insert v (set (bt_values m))"
  by (auto simp: in_bt_values bt_wf_insert split: if_splits)

lemma map_of_rev_entries:
  "bt_wf m \<Longrightarrow> map_of (rev m) k = bt_get m k"
  unfolding bt_get_def by (metis bt_wf_distinct distinct_map map_of_inject_set set_rev distinct_rev rev_map)

text \<open>A sum over the values: what inserting and removing do to it.\<close>

definition bt_sum :: "('v \<Rightarrow> 'a::comm_monoid_add) \<Rightarrow> ('k, 'v) btree \<Rightarrow> 'a" where
  "bt_sum f m = sum_list (map (\<lambda>(_, v). f v) m)"

lemma bt_sum_Nil [simp]: "bt_sum f [] = 0" "bt_sum f bt_empty = 0"
  by (simp_all add: bt_sum_def bt_empty_def)

lemma bt_sum_insert:
  "bt_wf m \<Longrightarrow> bt_sum f (bt_insert k v m) + (case bt_get m k of None \<Rightarrow> 0 | Some u \<Rightarrow> f u)
     = bt_sum f m + f v"
proof (induction m)
  case (Cons e m)
  obtain k' v' where e: "e = (k', v')" by (cases e)
  have wf: "bt_wf m" and less: "\<forall>x \<in> fst ` set m. k' < x"
    using Cons.prems e by (auto simp: bt_wf_def)
  have none: "bt_get m k = None" if "k \<le> k'"
    using that less by (force simp: bt_get_def map_of_eq_None_iff)
  show ?case
    using Cons.IH [OF wf] none e
    by (cases "k < k'"; cases "k = k'")
      (auto simp: bt_sum_def bt_get_def algebra_simps)
qed (simp add: bt_sum_def)

lemma bt_sum_remove:
  "bt_wf m \<Longrightarrow> bt_sum f (bt_remove k m) + (case bt_get m k of None \<Rightarrow> 0 | Some u \<Rightarrow> f u) = bt_sum f m"
proof (induction m)
  case (Cons e m)
  obtain k' v' where e: "e = (k', v')" by (cases e)
  have wf: "bt_wf m" and less: "\<forall>x \<in> fst ` set m. k' < x"
    using Cons.prems e by (auto simp: bt_wf_def)
  have none: "bt_get m k = None" if "k = k'"
    using that less by (force simp: bt_get_def map_of_eq_None_iff)
  show ?case
    using Cons.IH [OF wf] none e
    by (cases "k = k'") (auto simp: bt_sum_def bt_get_def bt_remove_def algebra_simps)
qed (simp add: bt_sum_def bt_remove_def)

end
