(* ===== verification/Externals.thy ===== *)
theory Externals
  imports BTree
begin

text \<open>
  What the domains take from crates that are not in the repository: the flag constants of
  \<open>basic::constants\<close> and \<open>vfscore::utils\<close> and the sizes of \<open>basic::config\<close>. They are fields of
  records, arguments of every definition that uses them; nothing is assumed about their
  values except where a lemma says so. \<open>linux_abi\<close> and \<open>sample_config\<close> are concrete
  instances (the values Linux documents) on which the witnesses compute.

  A \<open>bitflags\<close> type is a word: \<open>contains\<close> is its method, \<open>from_bits_truncate\<close> masks with the
  union of the declared flags.
\<close>

definition contains :: "'a::len word \<Rightarrow> 'a word \<Rightarrow> bool" where
  "contains f c \<longleftrightarrow> f AND c = c"

definition from_bits_truncate :: "'a::len word \<Rightarrow> 'a word \<Rightarrow> 'a word" where
  "from_bits_truncate all b = b AND all"

lemma contains_zero [simp]: "contains f 0"
  by (simp add: contains_def)

lemma contains_refl [simp]: "contains f f"
  by (simp add: contains_def)

lemma contains_bit: "contains f c \<longleftrightarrow> (\<forall>n. bit c n \<longrightarrow> bit f n)"
proof
  assume "contains f c"
  then show "\<forall>n. bit c n \<longrightarrow> bit f n" by (metis contains_def bit_and_iff)
next
  assume "\<forall>n. bit c n \<longrightarrow> bit f n"
  then have "f AND c = c" by (intro bit_word_eqI) (auto simp: bit_and_iff)
  then show "contains f c" by (simp add: contains_def)
qed

lemma contains_or [simp]: "contains f (c OR d) \<longleftrightarrow> contains f c \<and> contains f d"
  by (auto simp: contains_bit bit_or_iff)

lemma contains_or_left [simp]: "contains (f OR c) c"
  by (simp add: contains_def bit.conj_disj_distrib2)

record abi =
  O_RDONLY :: usize
  O_WRONLY :: usize
  O_RDWR :: usize
  O_CREAT :: usize
  O_APPEND :: usize
  O_CLOEXEC :: usize
  O_DIRECTORY :: usize
  O_NOFOLLOW :: usize
  O_ALL :: usize
  VP_IN :: "16 word"
  VP_OUT :: "16 word"
  VP_ERR :: "16 word"
  VP_HUP :: "16 word"
  VP_ALL :: "16 word"
  EPOLLIN :: u32
  EPOLLOUT :: u32
  EPOLLERR :: u32
  EPOLLHUP :: u32
  EPOLL_ALL :: u32
  EFD_SEMAPHORE :: u32
  EFD_NONBLOCK :: u32
  EFD_ALL :: u32

definition linux_abi :: abi where
  "linux_abi = \<lparr> O_RDONLY = 0, O_WRONLY = 1, O_RDWR = 2, O_CREAT = 0x40, O_APPEND = 0x400,
     O_CLOEXEC = 0x80000, O_DIRECTORY = 0x10000, O_NOFOLLOW = 0x20000, O_ALL = 0xFFFFF,
     VP_IN = 1, VP_OUT = 4, VP_ERR = 8, VP_HUP = 0x10, VP_ALL = 0x1F,
     EPOLLIN = 1, EPOLLOUT = 4, EPOLLERR = 8, EPOLLHUP = 0x10, EPOLL_ALL = 0x1F,
     EFD_SEMAPHORE = 1, EFD_NONBLOCK = 0x800, EFD_ALL = 0x80801 \<rparr>"


lemma linux_abi_simps [simp]:
  "O_RDONLY linux_abi = 0" "O_WRONLY linux_abi = 1" "O_RDWR linux_abi = 2" "O_CREAT linux_abi = 0x40"
  "O_APPEND linux_abi = 0x400" "O_CLOEXEC linux_abi = 0x80000" "O_DIRECTORY linux_abi = 0x10000"
  "O_NOFOLLOW linux_abi = 0x20000" "O_ALL linux_abi = 0xFFFFF"
  "VP_IN linux_abi = 1" "VP_OUT linux_abi = 4" "VP_ERR linux_abi = 8" "VP_HUP linux_abi = 0x10"
  "VP_ALL linux_abi = 0x1F" "EPOLLIN linux_abi = 1" "EPOLLOUT linux_abi = 4" "EPOLLERR linux_abi = 8"
  "EPOLLHUP linux_abi = 0x10" "EPOLL_ALL linux_abi = 0x1F" "EFD_SEMAPHORE linux_abi = 1"
  "EFD_NONBLOCK linux_abi = 0x800" "EFD_ALL linux_abi = 0x80801"
  by (simp_all add: linux_abi_def)

text \<open>
  The calls into the kernel that put the current task to sleep and wake another one up. Each may
  fail; what it does to the scheduler is outside the domain.
\<close>

record kernel =
  k_current_tid :: "nat option res"
  k_wait_now :: "unit res"
  k_wake_up :: "nat \<Rightarrow> unit res"

definition kernel_of :: "nat \<Rightarrow> kernel" where
  "kernel_of tid = \<lparr> k_current_tid = Ok (Some tid), k_wait_now = Ok (), k_wake_up = (\<lambda>_. Ok ()) \<rparr>"

section \<open>Offsets\<close>

text \<open>\<open>u64::checked_add_signed\<close>.\<close>

definition checked_add_signed :: "u64 \<Rightarrow> 64 word \<Rightarrow> u64 option" where
  "checked_add_signed a off =
     (let r = uint a + sint off in if 0 \<le> r \<and> r < 2 ^ 64 then Some (word_of_int r) else None)"

lemma uint_word_of_int_64: "0 \<le> r \<Longrightarrow> r < 2 ^ 64 \<Longrightarrow> uint (word_of_int r :: u64) = r"
  by (simp add: unsigned_of_int take_bit_int_eq_self)

lemma checked_add_signed_Some:
  "checked_add_signed a off = Some b \<longleftrightarrow> uint b = uint a + sint off"
proof
  assume *: "checked_add_signed a off = Some b"
  then have "b = word_of_int (uint a + sint off)" "0 \<le> uint a + sint off" "uint a + sint off < 2 ^ 64"
    by (simp_all only: checked_add_signed_def Let_def option.inject split: if_splits) blast+
  then show "uint b = uint a + sint off" using uint_word_of_int_64 by blast
next
  assume *: "uint b = uint a + sint off"
  have "0 \<le> uint b" "uint b < 2 ^ 64" using unsigned_less [of b, where ?'a = int] by simp_all
  moreover have "word_of_int (uint a + sint off) = b" using * by (metis word_of_int_uint)
  ultimately show "checked_add_signed a off = Some b"
    using * by (simp add: checked_add_signed_def Let_def)
qed

lemma checked_add_signed_None:
  "checked_add_signed a off = None \<longleftrightarrow> \<not> (0 \<le> uint a + sint off \<and> uint a + sint off < 2 ^ 64)"
  by (simp only: checked_add_signed_def Let_def split: if_splits) simp

lemma checked_add_signed_cases:
  obtains q where "checked_add_signed a off = Some q" "uint q = uint a + sint off"
      "0 \<le> uint a + sint off \<and> uint a + sint off < 2 ^ 64"
  | "checked_add_signed a off = None" "\<not> (0 \<le> uint a + sint off \<and> uint a + sint off < 2 ^ 64)"
proof (cases "checked_add_signed a off")
  case None
  then show ?thesis using that(2) checked_add_signed_None by blast
next
  case (Some q)
  then have "uint q = uint a + sint off" by (simp add: checked_add_signed_Some)
  then show ?thesis using that(1) [OF Some] unsigned_less [of q, where ?'a = int] unsigned_greater_eq [of q]
    by (metis len_of_numeral_defs(2) Some checked_add_signed_None option.distinct(1))
qed

datatype seek_from = SeekStart u64 | SeekEnd "64 word" | SeekCurrent "64 word"

lemma unat_ucast_32_64: "unat (ucast (v::u32) :: u64) = unat v"
  by (simp add: unsigned_ucast_eq take_bit_nat_eq_self_iff order_less_trans [OF unsigned_less])

section \<open>Values that cross domains\<close>

record epoll_event =
  ee_events :: u32
  ee_data :: u64

text \<open>\<open>VfsFsStat\<close> of \<open>vfscore\<close>.\<close>

record vfs_fs_stat =
  vfs_f_type :: u64
  vfs_f_bsize :: u64
  vfs_f_blocks :: u64
  vfs_f_bfree :: u64
  vfs_f_bavail :: u64
  vfs_f_files :: u64
  vfs_f_ffree :: u64
  vfs_f_fsid :: u64
  vfs_f_namelen :: u64
  vfs_f_frsize :: u64
  vfs_f_flags :: u64
  vfs_f_spare :: "u64 list"

definition sample_fs_stat :: vfs_fs_stat where
  "sample_fs_stat = \<lparr> vfs_f_type = 0, vfs_f_bsize = 4096, vfs_f_blocks = 0, vfs_f_bfree = 0, vfs_f_bavail = 0, vfs_f_files = 0, vfs_f_ffree = 0, vfs_f_fsid = 0, vfs_f_namelen = 0, vfs_f_frsize = 0, vfs_f_flags = 0, vfs_f_spare = [0, 0, 0, 0] \<rparr>"

section \<open>Bytes of a 64-bit integer\<close>

text \<open>\<open>to_ne_bytes\<close> and \<open>from_ne_bytes\<close>; both targets (riscv64, x86_64) are little endian.\<close>

definition to_ne_bytes :: "u64 \<Rightarrow> u8 list" where
  "to_ne_bytes v = map (\<lambda>i. ucast (drop_bit (8 * i) v)) [0..<8]"

fun from_ne_bytes :: "u8 list \<Rightarrow> u64" where
  "from_ne_bytes [] = 0"
| "from_ne_bytes (b # bs) = ucast b OR push_bit 8 (from_ne_bytes bs)"

lemma length_to_ne_bytes [simp]: "length (to_ne_bytes v) = 8"
  by (simp add: to_ne_bytes_def)

lemma bit_from_ne_bytes:
  "bit (from_ne_bytes bs) n \<longleftrightarrow> n < 64 \<and> n div 8 < length bs \<and> bit (bs ! (n div 8)) (n mod 8)"
proof (induction bs arbitrary: n)
  case (Cons b bs)
  show ?case
  proof (cases "n < 8")
    case True
    then show ?thesis by (auto simp: bit_or_iff bit_push_bit_iff bit_ucast_iff)
  next
    case False
    then have "n div 8 = Suc ((n - 8) div 8)" "n mod 8 = (n - 8) mod 8"
      by (simp_all add: le_div_geq le_mod_geq)
    moreover have "\<not> bit b n" using False bit_imp_le_length [of b n] by auto
    ultimately show ?thesis
      using False Cons.IH [of "n - 8"] by (auto simp: bit_or_iff bit_push_bit_iff bit_ucast_iff)
  qed
qed simp

lemma from_to_ne_bytes [simp]: "from_ne_bytes (to_ne_bytes v) = v"
proof (rule bit_word_eqI)
  fix n assume "n < LENGTH(64)"
  then have "n div 8 < 8" "8 * (n div 8) + n mod 8 = n" by simp_all
  with \<open>n < LENGTH(64)\<close> show "bit (from_ne_bytes (to_ne_bytes v)) n = bit v n"
    by (auto simp: bit_from_ne_bytes to_ne_bytes_def bit_ucast_iff bit_drop_bit_eq)
qed

end
