(* ===== verification/SysEnv.thy ===== *)
theory SysEnv
  imports Externals
begin

text \<open>
  What the system-call domain (\<open>common/syscall/syscall\<close>) is given: the task domain and the VFS
  domain as trait objects (\<open>Arc<dyn TaskDomain>\<close>, \<open>Arc<dyn VfsDomain>\<close>), and the layouts and flag
  values of the crates \<open>basic\<close>, \<open>pconst\<close> and \<open>vfscore\<close>. A trait object is a record of operations
  on the state \<open>'s\<close> of the whole system, so the system calls can be instantiated with the
  models of the two domains. A call that may put the caller to sleep returns \<open>Block\<close>.

  \<open>bindp\<close> sequences such calls: the caller of a sleeping operation sleeps.
\<close>

definition bindp :: "('s, 'a progress) act \<Rightarrow> ('a \<Rightarrow> ('s, 'b progress) act) \<Rightarrow> ('s, 'b progress) act" where
  "bindp m f = bind m (\<lambda>p. case p of Block \<Rightarrow> ret Block | Done x \<Rightarrow> f x)"

definition finish :: "'a \<Rightarrow> ('s, 'a progress) act" where
  "finish x = ret (Done x)"

lemma finish_run [act_simps]: "finish x s = (Ok (Done x), s)"
  by (simp add: finish_def act_simps)

lemma bindp_Done_iff:
  "bindp m f s = (Inr (Done y), t) \<longleftrightarrow> (\<exists>x s'. m s = (Inr (Done x), s') \<and> f x s' = (Inr (Done y), t))"
  by (auto simp: bindp_def bind_def act_simps split: prod.splits sum.splits progress.splits)

lemma bindp_Done: "m s = (Inr (Done x), s') \<Longrightarrow> bindp m f s = f x s'"
  by (simp add: bindp_def bind_def)

lemma bind_Ok: "m s = (Inr x, s') \<Longrightarrow> bind m f s = f x s'"
  by (simp add: bind_def)

section \<open>The traits\<close>

text \<open>\<open>FsStat\<close> of \<open>basic\<close>, what \<open>statfs\<close> gives to the user.\<close>

record fs_stat =
  f_type :: u64
  f_bsize :: u64
  f_blocks :: u64
  f_bfree :: u64
  f_bavail :: u64
  f_files :: u64
  f_ffree :: u64
  f_fsid :: u64
  f_namelen :: u64
  f_frsize :: u64
  f_flags :: u64
  f_spare :: "u64 list"

text \<open>\<open>TaskDomain\<close>, the methods that the file system calls use.\<close>

record 's task_trait =
  td_read_string :: "usize \<Rightarrow> u8 list \<Rightarrow> ('s, u8 list \<times> nat) act"
  td_copy_from_user :: "usize \<Rightarrow> nat \<Rightarrow> ('s, u8 list) act"
  td_copy_to_user :: "usize \<Rightarrow> u8 list \<Rightarrow> ('s, unit) act"
  td_read_u64 :: "usize \<Rightarrow> ('s, u64) act"                       \<comment> \<open>\<open>read_val_from_user::<u64>\<close>\<close>
  td_write_u64 :: "usize \<Rightarrow> u64 \<Rightarrow> ('s, unit) act"
  td_read_epoll :: "usize \<Rightarrow> ('s, epoll_event) act"           \<comment> \<open>\<open>read_val_from_user::<EpollEventTmp>\<close>\<close>
  td_read_timespec :: "usize \<Rightarrow> ('s, usize \<times> usize) act"
  td_get_fd :: "nat \<Rightarrow> ('s, u64) act"
  td_add_fd :: "u64 \<Rightarrow> ('s, nat) act"
  td_remove_fd :: "nat \<Rightarrow> ('s, u64) act"
  td_fs_info :: "('s, u64 \<times> u64) act"
  td_set_cwd :: "u64 \<Rightarrow> ('s, unit) act"
  td_do_fcntl :: "nat \<Rightarrow> usize \<Rightarrow> ('s, u64 \<times> nat) act"
  td_do_dup :: "nat \<Rightarrow> nat option \<Rightarrow> ('s, nat) act"
  td_do_pipe2 :: "u64 \<Rightarrow> u64 \<Rightarrow> usize \<Rightarrow> ('s, nat) act"

text \<open>\<open>VfsDomain\<close>: its methods on the data of an open file, on open files as such, and on paths.\<close>

record 's data_trait =
  vd_read :: "u64 \<Rightarrow> u8 list \<Rightarrow> ('s, (u8 list \<times> nat) progress) act"
  vd_write :: "u64 \<Rightarrow> u8 list \<Rightarrow> nat \<Rightarrow> ('s, nat progress) act"
  vd_read_at :: "u64 \<Rightarrow> u64 \<Rightarrow> u8 list \<Rightarrow> ('s, (u8 list \<times> nat) progress) act"
  vd_write_at :: "u64 \<Rightarrow> u64 \<Rightarrow> u8 list \<Rightarrow> nat \<Rightarrow> ('s, nat progress) act"
  vd_ftruncate :: "u64 \<Rightarrow> u64 \<Rightarrow> ('s, unit) act"
  vd_fsync :: "u64 \<Rightarrow> ('s, unit) act"
  vd_lseek :: "u64 \<Rightarrow> seek_from \<Rightarrow> ('s, u64) act"
  vd_readdir :: "u64 \<Rightarrow> u8 list \<Rightarrow> ('s, (u8 list \<times> nat) progress) act"

record ('s, 'st) file_trait =
  vd_open :: "u64 \<Rightarrow> u8 list \<Rightarrow> nat \<Rightarrow> u32 \<Rightarrow> usize \<Rightarrow> ('s, u64) act"
  vd_close :: "u64 \<Rightarrow> ('s, unit) act"
  vd_getattr :: "u64 \<Rightarrow> ('s, 'st) act"
  vd_statfs :: "u64 \<Rightarrow> ('s, vfs_fs_stat) act"
  vd_get_path :: "u64 \<Rightarrow> u8 list \<Rightarrow> ('s, u8 list \<times> nat) act"
  vd_is_dir :: "u64 \<Rightarrow> ('s, bool) act"                           \<comment> \<open>\<open>vfs_inode_type(..)?.is_dir()\<close>\<close>
  vd_poll :: "u64 \<Rightarrow> 16 word \<Rightarrow> ('s, 16 word) act"
  vd_ioctl :: "u64 \<Rightarrow> u32 \<Rightarrow> usize \<Rightarrow> ('s, nat) act"
  vd_do_fcntl :: "u64 \<Rightarrow> usize \<Rightarrow> usize \<Rightarrow> ('s, u64) act"

record 's path_trait =
  vd_update_atime :: "u64 \<Rightarrow> u64 \<Rightarrow> u64 \<Rightarrow> ('s, unit) act"
  vd_update_mtime :: "u64 \<Rightarrow> u64 \<Rightarrow> u64 \<Rightarrow> ('s, unit) act"
  vd_rename :: "u64 \<Rightarrow> u64 \<Rightarrow> u8 list \<Rightarrow> nat \<Rightarrow> u8 list \<Rightarrow> nat \<Rightarrow> u64 \<times> u64 \<Rightarrow> u32 \<Rightarrow> ('s, unit) act"
  vd_unlink :: "u64 \<Rightarrow> u8 list \<Rightarrow> nat \<Rightarrow> u32 \<Rightarrow> ('s, unit) act"
  vd_linkat :: "u64 \<Rightarrow> u8 list \<Rightarrow> nat \<Rightarrow> u64 \<Rightarrow> u8 list \<Rightarrow> nat \<Rightarrow> u32 \<Rightarrow> ('s, unit) act"
  vd_symlinkat :: "u8 list \<Rightarrow> nat \<Rightarrow> u64 \<Rightarrow> u8 list \<Rightarrow> nat \<Rightarrow> ('s, unit) act"
  vd_readlinkat :: "u64 \<Rightarrow> u8 list \<Rightarrow> nat \<Rightarrow> u8 list \<Rightarrow> ('s, u8 list \<times> nat) act"
  vd_do_pipe2 :: "usize \<Rightarrow> ('s, u64 \<times> u64) act"
  vd_do_poll_create :: "usize \<Rightarrow> ('s, u64) act"
  vd_do_poll_ctl :: "u64 \<Rightarrow> u32 \<Rightarrow> nat \<Rightarrow> epoll_event \<Rightarrow> ('s, unit) act"
  vd_do_eventfd :: "u32 \<Rightarrow> u32 \<Rightarrow> ('s, u64) act"

datatype fcntl64 =
  C_DUPFD | C_DUPFD_CLOEXEC | C_GETFD | C_SETFD | C_GETFL | C_SETFL | C_GETLK | C_SETLK | C_SETLKW | C_OTHER

record pollfd =
  pfd_fd :: usize                        \<comment> \<open>\<open>fd as usize\<close>: a negative number is a huge one\<close>
  pfd_events :: u32
  pfd_revents :: u32

text \<open>Constants: \<open>basic::config\<close>, \<open>basic::constants\<close>, \<open>pconst\<close> and the sizes of the \<open>repr(C)\<close> structs.\<close>

record sys_consts =
  VFS_ROOT_ID :: u64
  AT_FDCWD :: usize
  MAX_FD_NUM :: nat
  IOVEC_SIZE :: nat
  POLLFD_SIZE :: nat
  TIMESPEC_SIZE :: usize
  PPOLL_FROM_POLL_SIGMASK :: usize
  F_SETFD_NUM :: usize
  PE_ALL :: u32
  PE_ERR :: u32

record path_consts =
  STAT_ALL :: u32
  AT_SYMLINK_NOFOLLOW :: u32
  INODE_MODE_ALL :: u32
  INODE_DIR :: u32
  UNLINKAT_ALL :: u32
  RENAMEAT_ALL :: u32
  RENAME_EXCHANGE :: u32
  RENAME_NOREPLACE :: u32
  RENAME_WHITEOUT :: u32
  LINKFLAGS_ALL :: u32
  LINK_EMPTY_PATH :: u32

text \<open>Decoders and encoders of user structs and numbers.\<close>

record 'st sys_layout =
  se_seek_from :: "usize \<Rightarrow> usize \<Rightarrow> seek_from option" \<comment> \<open>\<open>SeekFrom::try_from((whence, offset))\<close>\<close>
  se_fcntl_of :: "u32 \<Rightarrow> fcntl64 option"
  se_tty_ok :: "u32 \<Rightarrow> bool"                         \<comment> \<open>\<open>TeletypeCommand::try_from\<close> succeeds\<close>
  se_iovec :: "u8 list \<Rightarrow> usize \<times> usize"            \<comment> \<open>\<open>base\<close> and \<open>len\<close> of an \<open>IoVec\<close>\<close>
  se_pollfd_of :: "u8 list \<Rightarrow> pollfd"
  se_pollfd_bytes :: "pollfd \<Rightarrow> u8 list"
  se_stat_bytes :: "'st \<Rightarrow> u8 list"                  \<comment> \<open>\<open>FileStat::from(stat).as_bytes()\<close>\<close>
  se_fs_stat_bytes :: "fs_stat \<Rightarrow> u8 list"

section \<open>The environment of a system call\<close>

record ('s, 'st) sys_env =
  se_task :: "'s task_trait"
  se_data :: "'s data_trait"
  se_file :: "('s, 'st) file_trait"
  se_paths :: "'s path_trait"
  se_uninit :: "nat \<Rightarrow> u8 list"                     \<comment> \<open>\<open>DVec::new_uninit\<close>\<close>
  se_utf8 :: "u8 list \<Rightarrow> bool"
  se_abi :: abi
  se_now :: "('s, usize \<times> usize) act"                \<comment> \<open>\<open>TimeSpec::now()\<close>\<close>
  se_to_clock :: "usize \<times> usize \<Rightarrow> nat"
  se_yield :: "('s, unit) act"                        \<comment> \<open>\<open>basic::yield_now\<close>\<close>
  se_layout :: "'st sys_layout"
  se_consts :: sys_consts
  se_path_consts :: path_consts

text \<open>\<open>core::str::from_utf8(&buf[..len]).unwrap()\<close>.\<close>

definition user_str :: "('s, 'st) sys_env \<Rightarrow> u8 list \<Rightarrow> nat \<Rightarrow> u8 list res" where
  "user_str E buf len =
     (if len \<le> length buf \<and> se_utf8 E (take len buf) then Ok (take len buf) else panic)"

text \<open>\<open>user_path_at\<close>: where a path starts.\<close>

definition user_path_at :: "('s, 'st) sys_env \<Rightarrow> usize \<Rightarrow> u8 list \<Rightarrow> ('s, u64 \<times> u64) act" where
  "user_path_at E fd path =
     (if \<not> (path \<noteq> [] \<and> hd path = 47) then
        (if fd = AT_FDCWD (se_consts E) then
           bind (td_fs_info (se_task E)) (\<lambda>fs_context. ret (VFS_ROOT_ID (se_consts E), snd fs_context))
         else bind (td_get_fd (se_task E) (unat fd)) (\<lambda>file. ret (VFS_ROOT_ID (se_consts E), file)))
      else ret (VFS_ROOT_ID (se_consts E), VFS_ROOT_ID (se_consts E)))"

text \<open>The three steps with which most path calls begin: the path is read into a buffer of \<open>n\<close>
  bytes, checked, and its start looked up.\<close>

definition read_path :: "('s, 'st) sys_env \<Rightarrow> nat \<Rightarrow> usize \<Rightarrow> ('s, u8 list \<times> nat \<times> u8 list) act" where
  "read_path E n ptr =
     bind (td_read_string (se_task E) ptr (se_uninit E n)) (\<lambda>(tmp_buf, len).
     bind (lift (user_str E tmp_buf len)) (\<lambda>path. ret (tmp_buf, len, path)))"

definition path_start :: "('s, 'st) sys_env \<Rightarrow> usize \<Rightarrow> nat \<Rightarrow> usize \<Rightarrow> ('s, u8 list \<times> nat \<times> u64) act" where
  "path_start E dirfd n ptr =
     bind (read_path E n ptr) (\<lambda>(tmp_buf, len, path).
     bind (user_path_at E dirfd path) (\<lambda>(_, current_root). ret (tmp_buf, len, current_root)))"

section \<open>User memory\<close>

text \<open>The bytes at an address, for statements about calls that read user memory.\<close>

definition user_bytes :: "(usize \<Rightarrow> u8) \<Rightarrow> usize \<Rightarrow> nat \<Rightarrow> u8 list" where
  "user_bytes mem p n = map (\<lambda>i. mem (p + of_nat i)) [0..<n]"

lemma length_user_bytes [simp]: "length (user_bytes mem p n) = n"
  by (simp add: user_bytes_def)

text \<open>A memory given by its first bytes.\<close>

definition memory_of :: "u8 list \<Rightarrow> usize \<Rightarrow> u8" where
  "memory_of bs p = (if unat p < length bs then bs ! unat p else 0)"

lemma user_bytes_memory_of:
  assumes "unat p + n \<le> length bs" and "length bs < 2 ^ 64"
  shows "user_bytes (memory_of bs) p n = slice (unat p) n bs"
proof (rule nth_equalityI)
  fix i assume "i < length (user_bytes (memory_of bs) p n)"
  then have i: "i < n" by simp
  with assms have i': "unat (of_nat i :: usize) = i" by (simp add: unat_of_nat)
  have "unat (p + of_nat i) = unat p + i"
    using assms i i' by (subst unat_add_lem [THEN iffD1]) simp_all
  with i assms show "user_bytes (memory_of bs) p n ! i = slice (unat p) n bs ! i"
    by (simp add: user_bytes_def memory_of_def slice_def)
qed (use assms in \<open>simp add: slice_def\<close>)

section \<open>An environment in which every call fails\<close>

text \<open>The witnesses replace the calls they need.\<close>

definition quiet_task :: "'s task_trait" where
  "quiet_task = \<lparr> td_read_string = (\<lambda>_ _. fail EFAULT), td_copy_from_user = (\<lambda>_ _. fail EFAULT),
     td_copy_to_user = (\<lambda>_ _. fail EFAULT), td_read_u64 = (\<lambda>_. fail EFAULT), td_write_u64 = (\<lambda>_ _. fail EFAULT),
     td_read_epoll = (\<lambda>_. fail EFAULT), td_read_timespec = (\<lambda>_. fail EFAULT), td_get_fd = (\<lambda>_. fail EBADF),
     td_add_fd = (\<lambda>_. fail EINVAL), td_remove_fd = (\<lambda>_. fail EBADF), td_fs_info = fail EINVAL,
     td_set_cwd = (\<lambda>_. fail EINVAL), td_do_fcntl = (\<lambda>_ _. fail EBADF), td_do_dup = (\<lambda>_ _. fail EBADF),
     td_do_pipe2 = (\<lambda>_ _ _. fail EINVAL) \<rparr>"

definition quiet_data :: "'s data_trait" where
  "quiet_data = \<lparr> vd_read = (\<lambda>_ _. fail EBADF), vd_write = (\<lambda>_ _ _. fail EBADF), vd_read_at = (\<lambda>_ _ _. fail EBADF),
     vd_write_at = (\<lambda>_ _ _ _. fail EBADF), vd_ftruncate = (\<lambda>_ _. fail EBADF), vd_fsync = (\<lambda>_. fail EBADF),
     vd_lseek = (\<lambda>_ _. fail EBADF), vd_readdir = (\<lambda>_ _. fail EBADF) \<rparr>"

definition quiet_file :: "('s, 'st) file_trait" where
  "quiet_file = \<lparr> vd_open = (\<lambda>_ _ _ _ _. fail ENOSYS), vd_close = (\<lambda>_. fail EBADF), vd_getattr = (\<lambda>_. fail EBADF),
     vd_statfs = (\<lambda>_. fail EBADF), vd_get_path = (\<lambda>_ _. fail EBADF), vd_is_dir = (\<lambda>_. fail EBADF),
     vd_poll = (\<lambda>_ _. fail EBADF), vd_ioctl = (\<lambda>_ _ _. fail EBADF), vd_do_fcntl = (\<lambda>_ _ _. fail EBADF) \<rparr>"

definition quiet_paths :: "'s path_trait" where
  "quiet_paths = \<lparr> vd_update_atime = (\<lambda>_ _ _. fail EBADF), vd_update_mtime = (\<lambda>_ _ _. fail EBADF),
     vd_rename = (\<lambda>_ _ _ _ _ _ _ _. fail ENOSYS), vd_unlink = (\<lambda>_ _ _ _. fail ENOSYS),
     vd_linkat = (\<lambda>_ _ _ _ _ _ _. fail ENOSYS), vd_symlinkat = (\<lambda>_ _ _ _ _. fail ENOSYS),
     vd_readlinkat = (\<lambda>_ _ _ _. fail ENOSYS), vd_do_pipe2 = (\<lambda>_. fail ENOSYS), vd_do_poll_create = (\<lambda>_. fail ENOSYS),
     vd_do_poll_ctl = (\<lambda>_ _ _ _. fail ENOSYS), vd_do_eventfd = (\<lambda>_ _. fail ENOSYS) \<rparr>"

text \<open>An \<open>IoVec\<close> is two machine words, little endian.\<close>

definition linux_layout :: "'st sys_layout" where
  "linux_layout = \<lparr>
     se_seek_from = (\<lambda>whence off. if whence = 0 then Some (SeekStart off)
        else if whence = 1 then Some (SeekCurrent off) else if whence = 2 then Some (SeekEnd off) else None),
     se_fcntl_of = (\<lambda>c. map_of [(0, C_DUPFD), (1, C_GETFD), (2, C_SETFD), (3, C_GETFL), (4, C_SETFL), (1030, C_DUPFD_CLOEXEC)] c),
     se_tty_ok = (\<lambda>c. c = 0x5413),
     se_iovec = (\<lambda>bs. (from_ne_bytes (take 8 bs), from_ne_bytes (take 8 (drop 8 bs)))),
     se_pollfd_of = (\<lambda>bs. \<lparr> pfd_fd = ucast (hd bs), pfd_events = ucast (bs ! 4), pfd_revents = ucast (bs ! 6) \<rparr>),
     se_pollfd_bytes = (\<lambda>p. [ucast (pfd_fd p), 0, 0, 0, ucast (pfd_events p), 0, ucast (pfd_revents p), 0]),
     se_stat_bytes = (\<lambda>_. []), se_fs_stat_bytes = (\<lambda>st. to_ne_bytes (f_type st)) \<rparr>"

definition linux_consts :: sys_consts where
  "linux_consts = \<lparr> VFS_ROOT_ID = 0, AT_FDCWD = - 100, MAX_FD_NUM = 1024, IOVEC_SIZE = 16, POLLFD_SIZE = 8,
     TIMESPEC_SIZE = 16, PPOLL_FROM_POLL_SIGMASK = - 1, F_SETFD_NUM = 2, PE_ALL = 0x1F, PE_ERR = 8 \<rparr>"

definition linux_path_consts :: path_consts where
  "linux_path_consts = \<lparr> STAT_ALL = 0x1900, AT_SYMLINK_NOFOLLOW = 0x100, INODE_MODE_ALL = 0xFFFF, INODE_DIR = 0x4000,
     UNLINKAT_ALL = 0x200, RENAMEAT_ALL = 7, RENAME_EXCHANGE = 2, RENAME_NOREPLACE = 1, RENAME_WHITEOUT = 4,
     LINKFLAGS_ALL = 0x1400, LINK_EMPTY_PATH = 0x1000 \<rparr>"

definition quiet_env :: "('s, 'st) sys_env" where
  "quiet_env = \<lparr> se_task = quiet_task, se_data = quiet_data, se_file = quiet_file, se_paths = quiet_paths,
     se_uninit = (\<lambda>n. replicate n 0), se_utf8 = (\<lambda>_. True), se_abi = linux_abi, se_now = ret (0, 0),
     se_to_clock = (\<lambda>t. unat (fst t)), se_yield = ret (), se_layout = linux_layout, se_consts = linux_consts,
     se_path_consts = linux_path_consts \<rparr>"

lemma quiet_env_simps [simp]:
  "se_task quiet_env = quiet_task" "se_data quiet_env = quiet_data" "se_file quiet_env = quiet_file"
  "se_paths quiet_env = quiet_paths" "se_uninit quiet_env n = replicate n 0" "se_utf8 quiet_env bs"
  "se_abi quiet_env = linux_abi" "se_now quiet_env = ret (0, 0)" "se_to_clock quiet_env t = unat (fst t)"
  "se_yield quiet_env = ret ()" "se_layout quiet_env = linux_layout" "se_consts quiet_env = linux_consts"
  "se_path_consts quiet_env = linux_path_consts"
  by (simp_all add: quiet_env_def)

lemma linux_consts_simps [simp]:
  "VFS_ROOT_ID linux_consts = 0" "AT_FDCWD linux_consts = - 100" "MAX_FD_NUM linux_consts = 1024"
  "IOVEC_SIZE linux_consts = 16" "POLLFD_SIZE linux_consts = 8" "TIMESPEC_SIZE linux_consts = 16"
  "PPOLL_FROM_POLL_SIGMASK linux_consts = - 1" "F_SETFD_NUM linux_consts = 2" "PE_ALL linux_consts = 0x1F"
  "PE_ERR linux_consts = 8"
  by (simp_all add: linux_consts_def)


end
