(* ===== verification/SysFs.thy ===== *)
theory SysFs
  imports SysEnv
begin

text \<open>
  The file system calls of \<open>common/syscall/syscall/src/fs\<close> (\<open>basic.rs\<close>, \<open>control.rs\<close>,
  \<open>poll.rs\<close>): thin handlers between the user, the task domain (descriptors, user memory) and the
  VFS domain (files). One definition per handler; descriptors, counts and lengths are naturals,
  addresses and flags words. \<open>path_start\<close> stands for the three steps with which the path calls
  begin (read the path, check it, find where it starts).
\<close>

unbundle bit_operations_syntax

section \<open>Reading and writing\<close>

definition sys_openat :: "('s, 'st) sys_env \<Rightarrow> usize \<Rightarrow> usize \<Rightarrow> usize \<Rightarrow> usize \<Rightarrow> ('s, nat) act" where
  "sys_openat E dirfd path flags mode =
     (if path = 0 then fail EFAULT
      else bind (path_start E dirfd 256 path) (\<lambda>(tmp_buf, len, current_root).
        bind (vd_open (se_file E) current_root tmp_buf len (ucast mode) flags) (\<lambda>f.
        td_add_fd (se_task E) f)))"

definition sys_close :: "('s, 'st) sys_env \<Rightarrow> nat \<Rightarrow> ('s, nat) act" where
  "sys_close E fd = bind (td_remove_fd (se_task E) fd) (\<lambda>_. ret 0)"

text \<open>The handler answers \<open>len\<close> whatever number of bytes the VFS domain reports.\<close>

definition sys_write :: "('s, 'st) sys_env \<Rightarrow> nat \<Rightarrow> usize \<Rightarrow> nat \<Rightarrow> ('s, nat progress) act" where
  "sys_write E fd buf len =
     bind (td_get_fd (se_task E) fd) (\<lambda>f.
     if len = 0 then finish 0
     else bind (td_copy_from_user (se_task E) buf len) (\<lambda>tmp_buf.
          bindp (vd_write (se_data E) f tmp_buf len) (\<lambda>_. finish len)))"

definition sys_read :: "('s, 'st) sys_env \<Rightarrow> nat \<Rightarrow> usize \<Rightarrow> nat \<Rightarrow> ('s, nat progress) act" where
  "sys_read E fd buf len =
     bind (td_get_fd (se_task E) fd) (\<lambda>f.
     if len = 0 then finish 0
     else bindp (vd_read (se_data E) f (se_uninit E len)) (\<lambda>(tmp_buf, r).
          bind (lift (slice_to r tmp_buf)) (\<lambda>bytes.
          bind (td_copy_to_user (se_task E) buf bytes) (\<lambda>_. finish r))))"

text \<open>The \<open>i\<close>-th \<open>IoVec\<close> of the array.\<close>

definition read_iovec :: "('s, 'st) sys_env \<Rightarrow> usize \<Rightarrow> nat \<Rightarrow> ('s, usize \<times> usize) act" where
  "read_iovec E iov i =
     bind (td_copy_from_user (se_task E) (iov + of_nat i * of_nat (IOVEC_SIZE (se_consts E)))
            (IOVEC_SIZE (se_consts E))) (\<lambda>bs. ret (se_iovec (se_layout E) bs))"

fun readv_loop :: "('s, 'st) sys_env \<Rightarrow> u64 \<Rightarrow> usize \<Rightarrow> nat list \<Rightarrow> nat \<Rightarrow> ('s, nat progress) act" where
  "readv_loop E f iov [] cnt = finish cnt"
| "readv_loop E f iov (i # is) cnt =
     bind (read_iovec E iov i) (\<lambda>(base, len).
     if base = 0 \<or> len = 0 then readv_loop E f iov is cnt
     else bindp (vd_read (se_data E) f (se_uninit E (unat len))) (\<lambda>(tmp_buf, r).
          bind (lift (slice_to r tmp_buf)) (\<lambda>bytes.
          bind (td_copy_to_user (se_task E) base bytes) (\<lambda>_.
          readv_loop E f iov is (cnt + r)))))"

definition sys_readv :: "('s, 'st) sys_env \<Rightarrow> nat \<Rightarrow> usize \<Rightarrow> nat \<Rightarrow> ('s, nat progress) act" where
  "sys_readv E fd iov iovcnt =
     bind (td_get_fd (se_task E) fd) (\<lambda>f. readv_loop E f iov [0..<iovcnt] 0)"

text \<open>The buffers of a \<open>writev\<close> to a standard descriptor are gathered and written at once.\<close>

fun gather_loop :: "('s, 'st) sys_env \<Rightarrow> usize \<Rightarrow> nat list \<Rightarrow> u8 list option \<Rightarrow> nat
    \<Rightarrow> ('s, u8 list option \<times> nat) act" where
  "gather_loop E iov [] out_bytes cnt = ret (out_bytes, cnt)"
| "gather_loop E iov (i # is) out_bytes cnt =
     bind (read_iovec E iov i) (\<lambda>(base, len).
     if base = 0 \<or> len = 0 then gather_loop E iov is out_bytes cnt
     else bind (td_copy_from_user (se_task E) base (unat len)) (\<lambda>tmp_buf.
          gather_loop E iov is
            (Some ((case out_bytes of None \<Rightarrow> [] | Some b \<Rightarrow> b) @ tmp_buf)) (cnt + unat len)))"

fun writev_loop :: "('s, 'st) sys_env \<Rightarrow> u64 \<Rightarrow> usize \<Rightarrow> nat list \<Rightarrow> nat \<Rightarrow> ('s, nat progress) act" where
  "writev_loop E f iov [] cnt = finish cnt"
| "writev_loop E f iov (i # is) cnt =
     bind (read_iovec E iov i) (\<lambda>(base, len).
     if base = 0 \<or> len = 0 then writev_loop E f iov is cnt
     else bind (td_copy_from_user (se_task E) base (unat len)) (\<lambda>tmp_buf.
          bindp (vd_write (se_data E) f tmp_buf (unat len)) (\<lambda>w.
          writev_loop E f iov is (cnt + w))))"

definition sys_writev :: "('s, 'st) sys_env \<Rightarrow> nat \<Rightarrow> usize \<Rightarrow> nat \<Rightarrow> ('s, nat progress) act" where
  "sys_writev E fd iov iovcnt =
     bind (td_get_fd (se_task E) fd) (\<lambda>f.
     if fd \<le> 2 then
       bind (gather_loop E iov [0..<iovcnt] None 0) (\<lambda>(out_bytes, cnt).
       case out_bytes of
         None \<Rightarrow> finish cnt
       | Some out \<Rightarrow> bindp (vd_write (se_data E) f out (length out)) (\<lambda>_. finish cnt))
     else writev_loop E f iov [0..<iovcnt] 0)"

definition sys_pread64 :: "('s, 'st) sys_env \<Rightarrow> nat \<Rightarrow> usize \<Rightarrow> nat \<Rightarrow> usize \<Rightarrow> ('s, nat progress) act" where
  "sys_pread64 E fd buf len offset =
     bind (td_get_fd (se_task E) fd) (\<lambda>f.
     if len = 0 then finish 0
     else bindp (vd_read_at (se_data E) f offset (se_uninit E len)) (\<lambda>(tmp_buf, r).
          bind (lift (slice_to r tmp_buf)) (\<lambda>bytes.
          bind (td_copy_to_user (se_task E) buf bytes) (\<lambda>_. finish r))))"

definition sys_pwrite64 :: "('s, 'st) sys_env \<Rightarrow> nat \<Rightarrow> usize \<Rightarrow> nat \<Rightarrow> usize \<Rightarrow> ('s, nat progress) act" where
  "sys_pwrite64 E fd buf len offset =
     bind (td_get_fd (se_task E) fd) (\<lambda>f.
     if len = 0 then finish 0
     else bind (td_copy_from_user (se_task E) buf len) (\<lambda>tmp_buf.
          bindp (vd_write_at (se_data E) f offset tmp_buf len) finish))"

text \<open>
  The transfer loop of \<open>sendfile\<close>: it stops when \<open>count\<close> is reached, at the end of the input or
  after a short write; the number of rounds is bounded by \<open>count\<close>, since every round but the last
  moves at least one byte (\<open>fuel\<close>).
\<close>

fun sendfile_loop :: "nat \<Rightarrow> ('s, 'st) sys_env \<Rightarrow> u64 \<Rightarrow> u64 \<Rightarrow> nat \<Rightarrow> u64 option \<Rightarrow> nat \<Rightarrow> u8 list
    \<Rightarrow> ('s, (nat \<times> u64 option) progress) act" where
  "sendfile_loop 0 E in_file out_file cnt offset sent shared_buf = finish (sent, offset)"
| "sendfile_loop (Suc fuel) E in_file out_file cnt offset sent shared_buf =
     (if sent < cnt then
        bindp (case offset of
                 Some off \<Rightarrow> bindp (vd_read_at (se_data E) in_file off shared_buf) (\<lambda>(buf, r).
                   finish (buf, r, Some (off + of_nat r)))
               | None \<Rightarrow> bindp (vd_read (se_data E) in_file shared_buf) (\<lambda>(buf, r). finish (buf, r, None)))
          (\<lambda>(buf, r, offset).
          if r = 0 then finish (sent, offset)
          else bindp (vd_write (se_data E) out_file buf r) (\<lambda>w.
               if w \<noteq> r then finish (sent + r, offset)
               else sendfile_loop fuel E in_file out_file cnt offset (sent + r) buf))
      else finish (sent, offset))"

definition sys_sendfile :: "('s, 'st) sys_env \<Rightarrow> nat \<Rightarrow> nat \<Rightarrow> usize \<Rightarrow> nat \<Rightarrow> ('s, nat progress) act" where
  "sys_sendfile E out_fd in_fd offset_ptr cnt =
     bind (td_get_fd (se_task E) in_fd) (\<lambda>in_file.
     bind (td_get_fd (se_task E) out_fd) (\<lambda>out_file.
     let cnt = min cnt 0x7ffff000 in
     bind (if offset_ptr \<noteq> 0 then bind (td_read_u64 (se_task E) offset_ptr) (\<lambda>offset. ret (Some offset))
           else ret None) (\<lambda>offset.
     bindp (sendfile_loop cnt E in_file out_file cnt offset 0 (se_uninit E 512)) (\<lambda>(sent, offset).
     case offset of
       Some off \<Rightarrow> bind (td_write_u64 (se_task E) offset_ptr off) (\<lambda>_. finish sent)
     | None \<Rightarrow> finish sent))))"

section \<open>Attributes, positions, directories\<close>

definition sys_fstatat :: "('s, 'st) sys_env \<Rightarrow> usize \<Rightarrow> usize \<Rightarrow> usize \<Rightarrow> usize \<Rightarrow> ('s, nat) act" where
  "sys_fstatat E dirfd path_ptr statbuf flags =
     (if path_ptr = 0 then fail EINVAL
      else let flag = from_bits_truncate (STAT_ALL (se_path_consts E)) (ucast flags) in
        bind (path_start E dirfd 256 path_ptr) (\<lambda>(tmp_buf, len, current_root).
        let open_flags = (if contains flag (AT_SYMLINK_NOFOLLOW (se_path_consts E))
                          then O_NOFOLLOW (se_abi E) else 0) in
        bind (vd_open (se_file E) current_root tmp_buf len 0 open_flags) (\<lambda>f.
        bind (vd_getattr (se_file E) f) (\<lambda>stat.
        bind (td_copy_to_user (se_task E) statbuf (se_stat_bytes (se_layout E) stat)) (\<lambda>_.
        bind (vd_close (se_file E) f) (\<lambda>_. ret 0))))))"

definition sys_ftruncate :: "('s, 'st) sys_env \<Rightarrow> nat \<Rightarrow> usize \<Rightarrow> ('s, nat) act" where
  "sys_ftruncate E fd len =
     bind (td_get_fd (se_task E) fd) (\<lambda>f. bind (vd_ftruncate (se_data E) f len) (\<lambda>_. ret 0))"

definition sys_faccessat :: "('s, 'st) sys_env \<Rightarrow> usize \<Rightarrow> usize \<Rightarrow> usize \<Rightarrow> usize \<Rightarrow> ('s, nat) act" where
  "sys_faccessat E dirfd path mode flag =
     (if path = 0 then fail EINVAL
      else bind (path_start E dirfd 256 path) (\<lambda>(tmp_buf, len, current_root).
        bind (vd_open (se_file E) current_root tmp_buf len 0 0) (\<lambda>f.
        bind (vd_close (se_file E) f) (\<lambda>_. ret 0))))"

definition sys_lseek :: "('s, 'st) sys_env \<Rightarrow> nat \<Rightarrow> usize \<Rightarrow> usize \<Rightarrow> ('s, u64) act" where
  "sys_lseek E fd offset whence =
     bind (td_get_fd (se_task E) fd) (\<lambda>f.
     bind (lift (ok_or (se_seek_from (se_layout E) whence offset) EINVAL)) (\<lambda>seek.
     vd_lseek (se_data E) f seek))"

definition sys_fstat :: "('s, 'st) sys_env \<Rightarrow> nat \<Rightarrow> usize \<Rightarrow> ('s, nat) act" where
  "sys_fstat E fd statbuf =
     (if statbuf = 0 then fail EINVAL
      else bind (td_get_fd (se_task E) fd) (\<lambda>f.
        bind (vd_getattr (se_file E) f) (\<lambda>stat.
        bind (td_copy_to_user (se_task E) statbuf (se_stat_bytes (se_layout E) stat)) (\<lambda>_. ret 0))))"

definition sys_fsync :: "('s, 'st) sys_env \<Rightarrow> nat \<Rightarrow> ('s, nat) act" where
  "sys_fsync E fd =
     bind (td_get_fd (se_task E) fd) (\<lambda>f. bind (vd_fsync (se_data E) f) (\<lambda>_. ret 0))"

text \<open>One of the two times of \<open>utimensat\<close>.\<close>

definition set_time :: "(u64 \<Rightarrow> u64 \<Rightarrow> u64 \<Rightarrow> ('s, unit) act) \<Rightarrow> u64 \<Rightarrow> usize \<times> usize \<Rightarrow> usize \<times> usize \<Rightarrow> ('s, unit) act" where
  "set_time update f now time =
     (if snd time = 0x3fffffff then update f (fst now) (snd now)
      else if snd time = 0x3ffffffe then ret ()
      else update f (fst time) (snd time))"

definition sys_utimensat :: "('s, 'st) sys_env \<Rightarrow> usize \<Rightarrow> usize \<Rightarrow> usize \<Rightarrow> usize \<Rightarrow> ('s, nat) act" where
  "sys_utimensat E dirfd path_ptr times_ptr flags =
     bind (path_start E dirfd 256 path_ptr) (\<lambda>(tmp_buf, len, current_root).
     bind (vd_open (se_file E) current_root tmp_buf len 0 0) (\<lambda>f.
     if times_ptr = 0 then
       bind (se_now E) (\<lambda>now.
       bind (vd_update_atime (se_paths E) f (fst now) (snd now)) (\<lambda>_.
       bind (vd_update_mtime (se_paths E) f (fst now) (snd now)) (\<lambda>_. ret 0)))
     else
       bind (td_read_timespec (se_task E) times_ptr) (\<lambda>atime.
       bind (td_read_timespec (se_task E) (times_ptr + TIMESPEC_SIZE (se_consts E))) (\<lambda>mtime.
       bind (se_now E) (\<lambda>now.
       bind (set_time (vd_update_atime (se_paths E)) f now atime) (\<lambda>_.
       bind (set_time (vd_update_mtime (se_paths E)) f now mtime) (\<lambda>_. ret 0)))))))"

definition sys_getdents64 :: "('s, 'st) sys_env \<Rightarrow> nat \<Rightarrow> usize \<Rightarrow> nat \<Rightarrow> ('s, nat progress) act" where
  "sys_getdents64 E fd buf cnt =
     bind (td_get_fd (se_task E) fd) (\<lambda>f.
     bindp (vd_readdir (se_data E) f (se_uninit E cnt)) (\<lambda>(tmp_buf, r).
     bind (lift (slice_to r tmp_buf)) (\<lambda>bytes.
     bind (td_copy_to_user (se_task E) buf bytes) (\<lambda>_. finish r))))"

definition sys_chdir :: "('s, 'st) sys_env \<Rightarrow> usize \<Rightarrow> ('s, nat) act" where
  "sys_chdir E path =
     bind (path_start E (AT_FDCWD (se_consts E)) 128 path) (\<lambda>(tmp_buf, len, current_root).
     bind (vd_open (se_file E) current_root tmp_buf len 0 0) (\<lambda>f.
     bind (td_set_cwd (se_task E) f) (\<lambda>_. ret 0)))"

definition sys_fchdir :: "('s, 'st) sys_env \<Rightarrow> nat \<Rightarrow> ('s, nat) act" where
  "sys_fchdir E fd =
     bind (td_get_fd (se_task E) fd) (\<lambda>inode.
     bind (vd_is_dir (se_file E) inode) (\<lambda>dir.
     if \<not> dir then fail ENOTDIR else bind (td_set_cwd (se_task E) inode) (\<lambda>_. ret 0)))"

text \<open>The path goes into a zeroed buffer of 128 bytes; one more byte than its length is copied out.\<close>

definition sys_getcwd :: "('s, 'st) sys_env \<Rightarrow> usize \<Rightarrow> nat \<Rightarrow> ('s, usize) act" where
  "sys_getcwd E buf len =
     (if buf = 0 then fail EINVAL
      else bind (td_fs_info (se_task E)) (\<lambda>(_, cwd).
        bind (vd_get_path (se_file E) cwd (replicate 128 0)) (\<lambda>(tmp_buf, r).
        if r + 1 > len then fail ERANGE
        else bind (lift (slice_to (r + 1) tmp_buf)) (\<lambda>bytes.
             bind (td_copy_to_user (se_task E) buf bytes) (\<lambda>_. ret buf)))))"


section \<open>Names\<close>

definition sys_mkdirat :: "('s, 'st) sys_env \<Rightarrow> usize \<Rightarrow> usize \<Rightarrow> usize \<Rightarrow> ('s, nat) act" where
  "sys_mkdirat E dirfd path_ptr mode =
     bind (path_start E dirfd 256 path_ptr) (\<lambda>(tmp_buf, len, current_root).
     let mode = from_bits_truncate (INODE_MODE_ALL (se_path_consts E)) (ucast mode)
                OR INODE_DIR (se_path_consts E)
     in bind (vd_open (se_file E) current_root tmp_buf len mode (O_CREAT (se_abi E))) (\<lambda>_. ret 0))"

definition sys_unlinkat :: "('s, 'st) sys_env \<Rightarrow> usize \<Rightarrow> usize \<Rightarrow> usize \<Rightarrow> ('s, nat) act" where
  "sys_unlinkat E dirfd path_ptr flags =
     bind (path_start E dirfd 256 path_ptr) (\<lambda>(tmp_buf, len, current_root).
     bind (vd_unlink (se_paths E) current_root tmp_buf len
            (from_bits_truncate (UNLINKAT_ALL (se_path_consts E)) (ucast flags))) (\<lambda>_. ret 0))"

definition sys_renameat2 :: "('s, 'st) sys_env \<Rightarrow> usize \<Rightarrow> usize \<Rightarrow> usize \<Rightarrow> usize \<Rightarrow> usize \<Rightarrow> ('s, nat) act" where
  "sys_renameat2 E olddirfd oldpath newdirfd newpath flags =
     bind (td_read_string (se_task E) oldpath (se_uninit E 256)) (\<lambda>(old_tmp_buf, old_len).
     bind (td_read_string (se_task E) newpath (se_uninit E 256)) (\<lambda>(new_tmp_buf, new_len).
     bind (lift (user_str E old_tmp_buf old_len)) (\<lambda>old_path.
     bind (lift (user_str E new_tmp_buf new_len)) (\<lambda>new_path.
     let C = se_path_consts E; flag = from_bits_truncate (RENAMEAT_ALL C) (ucast flags) in
     if contains flag (RENAME_EXCHANGE C) \<and> (contains flag (RENAME_NOREPLACE C) \<or> contains flag (RENAME_WHITEOUT C))
     then fail EINVAL
     else bind (td_fs_info (se_task E)) (\<lambda>(cwd, root).
       bind (user_path_at E olddirfd old_path) (\<lambda>(_, old_root).
       bind (user_path_at E newdirfd new_path) (\<lambda>(_, new_root).
       bind (vd_rename (se_paths E) old_root new_root old_tmp_buf old_len new_tmp_buf new_len (cwd, root)
              (ucast flags)) (\<lambda>_. ret 0))))))))"

definition map_vfs_fs_stat :: "vfs_fs_stat \<Rightarrow> fs_stat" where
  "map_vfs_fs_stat vfs_stat = \<lparr> f_type = vfs_f_type vfs_stat,
     f_bsize = vfs_f_bsize vfs_stat,
     f_blocks = vfs_f_blocks vfs_stat,
     f_bfree = vfs_f_bfree vfs_stat,
     f_bavail = vfs_f_bavail vfs_stat,
     f_files = vfs_f_files vfs_stat,
     f_ffree = vfs_f_ffree vfs_stat,
     f_fsid = vfs_f_fsid vfs_stat,
     f_namelen = vfs_f_namelen vfs_stat,
     f_frsize = vfs_f_frsize vfs_stat,
     f_flags = vfs_f_flags vfs_stat,
     f_spare = vfs_f_spare vfs_stat \<rparr>"

text \<open>A file opened for one call: it is closed whatever the call returns.\<close>

definition sys_truncate :: "('s, 'st) sys_env \<Rightarrow> usize \<Rightarrow> usize \<Rightarrow> ('s, nat) act" where
  "sys_truncate E path_ptr len =
     (if path_ptr = 0 then fail EFAULT
      else bind (path_start E (AT_FDCWD (se_consts E)) 256 path_ptr) (\<lambda>(tmp_buf, path_len, current_root).
        bind (vd_open (se_file E) current_root tmp_buf path_len 0 (O_RDWR (se_abi E))) (\<lambda>inode.
        bind (attempt (vd_ftruncate (se_data E) inode len)) (\<lambda>res.
        bind (attempt (vd_close (se_file E) inode)) (\<lambda>_.
        case res of Inl e \<Rightarrow> fail e | Inr _ \<Rightarrow> ret 0)))))"

definition sys_statfs :: "('s, 'st) sys_env \<Rightarrow> usize \<Rightarrow> usize \<Rightarrow> ('s, nat) act" where
  "sys_statfs E path statbuf =
     (if path = 0 \<or> statbuf = 0 then fail EFAULT
      else bind (path_start E (AT_FDCWD (se_consts E)) 256 path) (\<lambda>(tmp_buf, len, current_root).
        bind (vd_open (se_file E) current_root tmp_buf len 0 (O_RDONLY (se_abi E))) (\<lambda>inode.
        bind (attempt (vd_statfs (se_file E) inode)) (\<lambda>vfs_stat.
        bind (attempt (vd_close (se_file E) inode)) (\<lambda>_.
        case vfs_stat of
          Inl e \<Rightarrow> fail e
        | Inr st \<Rightarrow> bind (td_copy_to_user (se_task E) statbuf (se_fs_stat_bytes (se_layout E) (map_vfs_fs_stat st))) (\<lambda>_. ret 0))))))"

definition sys_fstatfs :: "('s, 'st) sys_env \<Rightarrow> nat \<Rightarrow> usize \<Rightarrow> ('s, nat) act" where
  "sys_fstatfs E fd statbuf =
     (if statbuf = 0 then fail EFAULT
      else bind (td_get_fd (se_task E) fd) (\<lambda>inode.
        bind (vd_statfs (se_file E) inode) (\<lambda>st.
        bind (td_copy_to_user (se_task E) statbuf (se_fs_stat_bytes (se_layout E) (map_vfs_fs_stat st))) (\<lambda>_. ret 0))))"

definition sys_linkat :: "('s, 'st) sys_env \<Rightarrow> usize \<Rightarrow> usize \<Rightarrow> usize \<Rightarrow> usize \<Rightarrow> usize \<Rightarrow> ('s, nat) act" where
  "sys_linkat E olddirfd oldpath newdirfd newpath flags =
     (if oldpath = 0 \<or> newpath = 0 then fail EFAULT
      else
        bind (td_read_string (se_task E) oldpath (se_uninit E 256)) (\<lambda>(old_tmp_buf, old_len).
        bind (td_read_string (se_task E) newpath (se_uninit E 256)) (\<lambda>(new_tmp_buf, new_len).
        bind (lift (user_str E old_tmp_buf old_len)) (\<lambda>old_path.
        bind (lift (user_str E new_tmp_buf new_len)) (\<lambda>new_path.
        let C = se_path_consts E; link_flags = ucast flags in
        if link_flags AND LINKFLAGS_ALL C \<noteq> link_flags then fail EINVAL
        else if contains link_flags (LINK_EMPTY_PATH C) then fail ENOSYS
        else bind (user_path_at E olddirfd old_path) (\<lambda>(_, old_root).
          bind (user_path_at E newdirfd new_path) (\<lambda>(_, new_root).
          bind (vd_linkat (se_paths E) old_root old_tmp_buf old_len new_root new_tmp_buf new_len link_flags)
            (\<lambda>_. ret 0))))))))"

definition sys_symlinkat :: "('s, 'st) sys_env \<Rightarrow> usize \<Rightarrow> usize \<Rightarrow> usize \<Rightarrow> ('s, nat) act" where
  "sys_symlinkat E oldpath newdirfd newpath =
     (if oldpath = 0 \<or> newpath = 0 then fail EFAULT
      else
        bind (td_read_string (se_task E) oldpath (se_uninit E 256)) (\<lambda>(old_tmp_buf, old_len).
        bind (td_read_string (se_task E) newpath (se_uninit E 256)) (\<lambda>(new_tmp_buf, new_len).
        bind (lift (user_str E old_tmp_buf old_len)) (\<lambda>target.
        bind (lift (user_str E new_tmp_buf new_len)) (\<lambda>new_path.
        bind (user_path_at E newdirfd new_path) (\<lambda>(_, new_root).
        bind (vd_symlinkat (se_paths E) old_tmp_buf old_len new_root new_tmp_buf new_len) (\<lambda>_. ret 0)))))))"

definition sys_readlinkat :: "('s, 'st) sys_env \<Rightarrow> usize \<Rightarrow> usize \<Rightarrow> usize \<Rightarrow> nat \<Rightarrow> ('s, nat) act" where
  "sys_readlinkat E dirfd path buf bufsiz =
     (if path = 0 \<or> (buf = 0 \<and> bufsiz \<noteq> 0) then fail EFAULT
      else if bufsiz = 0 then ret 0
      else bind (path_start E dirfd 256 path) (\<lambda>(tmp_path, path_len, root).
        bind (vd_readlinkat (se_paths E) root tmp_path path_len (se_uninit E bufsiz)) (\<lambda>(out_buf, read_len).
        let copy_len = min read_len bufsiz in
        bind (lift (slice_to copy_len out_buf)) (\<lambda>bytes.
        bind (td_copy_to_user (se_task E) buf bytes) (\<lambda>_. ret copy_len)))))"

section \<open>Descriptors and control\<close>

definition sys_ioctl :: "('s, 'st) sys_env \<Rightarrow> nat \<Rightarrow> usize \<Rightarrow> usize \<Rightarrow> ('s, nat) act" where
  "sys_ioctl E fd request argp =
     bind (td_get_fd (se_task E) fd) (\<lambda>f.
     if \<not> se_tty_ok (se_layout E) (ucast request) then fail EINVAL
     else vd_ioctl (se_file E) f (ucast request) argp)"

definition sys_fcntl :: "('s, 'st) sys_env \<Rightarrow> nat \<Rightarrow> usize \<Rightarrow> usize \<Rightarrow> ('s, u64) act" where
  "sys_fcntl E fd cmd arg =
     (case se_fcntl_of (se_layout E) (ucast cmd) of
        None \<Rightarrow> fail EINVAL
      | Some c \<Rightarrow>
          if c = C_DUPFD \<or> c = C_DUPFD_CLOEXEC then
            bind (td_do_fcntl (se_task E) fd cmd) (\<lambda>(f, new_fd).
            bind (if c = C_DUPFD_CLOEXEC then bind (vd_do_fcntl (se_file E) f cmd arg) (\<lambda>_. ret ()) else ret ()) (\<lambda>_.
            ret (of_nat new_fd)))
          else if c = C_GETFD \<or> c = C_SETFD \<or> c = C_GETFL \<or> c = C_SETFL then
            bind (td_get_fd (se_task E) fd) (\<lambda>f. vd_do_fcntl (se_file E) f cmd arg)
          else if c = C_GETLK \<or> c = C_SETLK \<or> c = C_SETLKW then ret 0
          else fail EINVAL)"

definition sys_dup :: "('s, 'st) sys_env \<Rightarrow> nat \<Rightarrow> ('s, nat) act" where
  "sys_dup E oldfd = td_do_dup (se_task E) oldfd None"

definition sys_dup2 :: "('s, 'st) sys_env \<Rightarrow> nat \<Rightarrow> nat \<Rightarrow> ('s, nat) act" where
  "sys_dup2 E oldfd newfd =
     (if oldfd = newfd then ret newfd else td_do_dup (se_task E) oldfd (Some newfd))"

definition sys_dup3 :: "('s, 'st) sys_env \<Rightarrow> nat \<Rightarrow> nat \<Rightarrow> usize \<Rightarrow> ('s, nat) act" where
  "sys_dup3 E oldfd newfd flags =
     (if oldfd = newfd then fail EINVAL
      else if flags AND NOT (O_CLOEXEC (se_abi E)) \<noteq> 0 then fail EINVAL
      else bind (td_do_dup (se_task E) oldfd (Some newfd)) (\<lambda>new_fd.
        bind (if flags AND O_CLOEXEC (se_abi E) \<noteq> 0 then
                bind (td_get_fd (se_task E) new_fd) (\<lambda>f.
                bind (vd_do_fcntl (se_file E) f (F_SETFD_NUM (se_consts E)) 1) (\<lambda>_. ret ()))
              else ret ()) (\<lambda>_. ret new_fd)))"

definition sys_poll_createl :: "('s, 'st) sys_env \<Rightarrow> usize \<Rightarrow> ('s, nat) act" where
  "sys_poll_createl E flags =
     bind (vd_do_poll_create (se_paths E) (from_bits_truncate (O_ALL (se_abi E)) flags)) (td_add_fd (se_task E))"

definition sys_poll_ctl :: "('s, 'st) sys_env \<Rightarrow> nat \<Rightarrow> usize \<Rightarrow> nat \<Rightarrow> usize \<Rightarrow> ('s, nat) act" where
  "sys_poll_ctl E epfd op fd event_ptr =
     bind (td_read_epoll (se_task E) event_ptr) (\<lambda>event.
     bind (td_get_fd (se_task E) epfd) (\<lambda>inode.
     bind (vd_do_poll_ctl (se_paths E) inode (ucast op) fd event) (\<lambda>_. ret 0)))"

definition sys_eventfd2 :: "('s, 'st) sys_env \<Rightarrow> usize \<Rightarrow> usize \<Rightarrow> ('s, nat) act" where
  "sys_eventfd2 E init_val flags =
     bind (vd_do_eventfd (se_paths E) (ucast init_val) (ucast flags)) (td_add_fd (se_task E))"


definition sys_pipe2 :: "('s, 'st) sys_env \<Rightarrow> usize \<Rightarrow> usize \<Rightarrow> ('s, nat) act" where
  "sys_pipe2 E pipe flag =
     (if pipe = 0 then fail EINVAL
      else bind (vd_do_pipe2 (se_paths E) flag) (\<lambda>(r, w). td_do_pipe2 (se_task E) r w pipe))"

section \<open>Calls that are not implemented\<close>

definition sys_mount :: "usize \<Rightarrow> usize \<Rightarrow> usize \<Rightarrow> usize \<Rightarrow> usize \<Rightarrow> ('s, nat) act" where
  "sys_mount source target fs_type flags data = fail ENOSYS"

definition sys_setxattr :: "usize \<Rightarrow> usize \<Rightarrow> usize \<Rightarrow> usize \<Rightarrow> usize \<Rightarrow> ('s, nat) act" where
  "sys_setxattr path name val len flags = fail ENOSYS"

definition sys_lsetxattr :: "usize \<Rightarrow> usize \<Rightarrow> usize \<Rightarrow> usize \<Rightarrow> usize \<Rightarrow> ('s, nat) act" where
  "sys_lsetxattr path name val len flags = fail ENOSYS"

definition sys_fsetxattr :: "usize \<Rightarrow> usize \<Rightarrow> usize \<Rightarrow> usize \<Rightarrow> usize \<Rightarrow> ('s, nat) act" where
  "sys_fsetxattr fd name val len flags = fail ENOSYS"

definition sys_getxattr :: "usize \<Rightarrow> usize \<Rightarrow> usize \<Rightarrow> usize \<Rightarrow> ('s, nat) act" where
  "sys_getxattr path name val len = fail ENOSYS"

definition sys_lgetxattr :: "usize \<Rightarrow> usize \<Rightarrow> usize \<Rightarrow> usize \<Rightarrow> ('s, nat) act" where
  "sys_lgetxattr path name val len = fail ENOSYS"

definition sys_fgetxattr :: "usize \<Rightarrow> usize \<Rightarrow> usize \<Rightarrow> usize \<Rightarrow> ('s, nat) act" where
  "sys_fgetxattr fd name val len = fail ENOSYS"

definition sys_listxattr :: "usize \<Rightarrow> usize \<Rightarrow> usize \<Rightarrow> ('s, nat) act" where
  "sys_listxattr path xs len = fail ENOSYS"

definition sys_llistxattr :: "usize \<Rightarrow> usize \<Rightarrow> usize \<Rightarrow> ('s, nat) act" where
  "sys_llistxattr path xs len = fail ENOSYS"

definition sys_flistxattr :: "usize \<Rightarrow> usize \<Rightarrow> usize \<Rightarrow> ('s, nat) act" where
  "sys_flistxattr fd xs len = fail ENOSYS"

definition sys_removexattr :: "usize \<Rightarrow> usize \<Rightarrow> ('s, nat) act" where
  "sys_removexattr path name = fail ENOSYS"

definition sys_lremovexattr :: "usize \<Rightarrow> usize \<Rightarrow> ('s, nat) act" where
  "sys_lremovexattr path name = fail ENOSYS"

definition sys_fremovexattr :: "usize \<Rightarrow> usize \<Rightarrow> ('s, nat) act" where
  "sys_fremovexattr fd name = fail ENOSYS"

section \<open>Vectored writes\<close>

text \<open>The bytes that the buffers of a \<open>writev\<close> hold, in order.\<close>

definition iovec_at :: "('s, 'st) sys_env \<Rightarrow> (usize \<Rightarrow> u8) \<Rightarrow> usize \<Rightarrow> nat \<Rightarrow> usize \<times> usize" where
  "iovec_at E mem iov i = se_iovec (se_layout E)
     (user_bytes mem (iov + of_nat i * of_nat (IOVEC_SIZE (se_consts E))) (IOVEC_SIZE (se_consts E)))"

definition iovec_bytes :: "('s, 'st) sys_env \<Rightarrow> (usize \<Rightarrow> u8) \<Rightarrow> usize \<Rightarrow> nat \<Rightarrow> u8 list" where
  "iovec_bytes E mem iov i = (case iovec_at E mem iov i of (base, len) \<Rightarrow>
     if base = 0 \<or> len = 0 then [] else user_bytes mem base (unat len))"

definition iov_data :: "('s, 'st) sys_env \<Rightarrow> (usize \<Rightarrow> u8) \<Rightarrow> usize \<Rightarrow> nat list \<Rightarrow> u8 list" where
  "iov_data E mem iov is = concat (map (iovec_bytes E mem iov) is)"

lemma iov_data_simps [simp]:
  "iov_data E mem iov [] = []"
  "iov_data E mem iov (i # is) = iovec_bytes E mem iov i @ iov_data E mem iov is"
  by (simp_all add: iov_data_def)

lemma read_iovec_run:
  assumes "\<And>p n. td_copy_from_user (se_task E) p n s = (Ok (user_bytes mem p n), s)"
  shows "read_iovec E iov i s = (Ok (iovec_at E mem iov i), s)"
  by (simp add: read_iovec_def act_simps assms iovec_at_def)

lemma gather_loop_run:
  assumes "\<And>p n. td_copy_from_user (se_task E) p n s = (Ok (user_bytes mem p n), s)"
  shows "gather_loop E iov is out cnt s =
    (Ok (if iov_data E mem iov is = [] then out
         else Some ((case out of None \<Rightarrow> [] | Some b \<Rightarrow> b) @ iov_data E mem iov is),
         cnt + length (iov_data E mem iov is)), s)"
proof (induction "is" arbitrary: out cnt)
  case Nil
  show ?case by (simp add: act_simps)
next
  case (Cons i "is")
  obtain base len where v: "iovec_at E mem iov i = (base, len)" by (cases "iovec_at E mem iov i")
  show ?case
  proof (cases "base = 0 \<or> len = 0")
    case True
    then show ?thesis
      by (simp add: Cons.IH act_simps read_iovec_run [OF assms] v iovec_bytes_def)
  next
    case False
    then have "unat len \<noteq> 0" by (simp add: unat_eq_0)
    moreover have "iovec_bytes E mem iov i = user_bytes mem base (unat len)"
      using False by (simp add: iovec_bytes_def v)
    moreover have "user_bytes mem base (unat len) \<noteq> []"
      using \<open>unat len \<noteq> 0\<close> by (metis length_user_bytes list.size(3))
    ultimately show ?thesis
      using False by (simp add: Cons.IH act_simps assms read_iovec_run [OF assms] v)
  qed
qed

text \<open>A file that takes everything it is given: \<open>app bs\<close> is the effect of writing \<open>bs\<close>.\<close>

definition full_sink :: "('s, 'st) sys_env \<Rightarrow> u64 \<Rightarrow> ('s \<Rightarrow> usize \<Rightarrow> u8) \<Rightarrow> (u8 list \<Rightarrow> 's \<Rightarrow> 's) \<Rightarrow> bool" where
  "full_sink E f mem app \<longleftrightarrow>
     (\<forall>bs s. vd_write (se_data E) f bs (length bs) s = (Ok (Done (length bs)), app bs s))
     \<and> (\<forall>s. app [] s = s) \<and> (\<forall>xs ys s. app (xs @ ys) s = app ys (app xs s))
     \<and> (\<forall>bs s. mem (app bs s) = mem s)"

lemma full_sinkD:
  assumes "full_sink E f mem app"
  shows "length bs = n \<Longrightarrow> vd_write (se_data E) f bs n s = (Ok (Done n), app bs s)"
    "app [] s = s" "app (xs @ ys) s = app ys (app xs s)" "mem (app bs s) = mem s"
  using assms unfolding full_sink_def by blast+

lemma writev_loop_run:
  assumes mem: "\<And>p n s. td_copy_from_user (se_task E) p n s = (Ok (user_bytes (mem s) p n), s)"
    and sink: "full_sink E f mem app"
  shows "writev_loop E f iov is cnt s =
    (Ok (Done (cnt + length (iov_data E (mem s) iov is))), app (iov_data E (mem s) iov is) s)"
proof (induction "is" arbitrary: cnt s)
  case Nil
  show ?case by (simp add: act_simps full_sinkD [OF sink])
next
  case (Cons i "is")
  obtain base len where v: "iovec_at E (mem s) iov i = (base, len)" by (cases "iovec_at E (mem s) iov i")
  show ?case
  proof (cases "base = 0 \<or> len = 0")
    case True
    then show ?thesis
      by (simp add: Cons.IH act_simps read_iovec_run [OF mem] v iovec_bytes_def)
  next
    case False
    then show ?thesis
      by (simp add: Cons.IH act_simps read_iovec_run [OF mem] v mem iovec_bytes_def bindp_def
            full_sinkD [OF sink] ac_simps)
  qed
qed

text \<open>C14: vectored writes. On a file that takes everything it is given, \<open>writev\<close> has the effect of
  one write of its buffers in order, empty ones left out, and returns their total length: the
  gathering for the standard descriptors and the loop for the others do the same.\<close>

theorem writev_one_write:
  assumes "td_get_fd (se_task E) fd s = (Ok f, s)"
    and "\<And>p n s. td_copy_from_user (se_task E) p n s = (Ok (user_bytes (mem s) p n), s)"
    and "full_sink E f mem app"
    and "data = iov_data E (mem s) iov [0..<iovcnt]"
  shows "sys_writev E fd iov iovcnt s = (Ok (Done (length data)), app data s)"
  using assms(4)
  by (auto simp: sys_writev_def act_simps assms(1) gather_loop_run [OF assms(2)] bindp_def
        writev_loop_run [OF assms(2,3)] full_sinkD [OF assms(3)])

definition console_env :: "(usize \<Rightarrow> u8) \<Rightarrow> (u8 list, unit) sys_env" where
  "console_env m = quiet_env\<lparr>
     se_task := quiet_task\<lparr> td_get_fd := \<lambda>fd. ret (of_nat fd), td_copy_from_user := \<lambda>p n. ret (user_bytes m p n) \<rparr>,
     se_data := quiet_data\<lparr> vd_write := \<lambda>_ bs n. bind (modify_state (\<lambda>out. out @ bs)) (\<lambda>_. finish n) \<rparr>\<rparr>"

theorem writev_one_write_witness:
  "sys_writev (console_env (memory_of [32, 0, 0, 0, 0, 0, 0, 0, 1, 0, 0, 0, 0, 0, 0, 0,
      33, 0, 0, 0, 0, 0, 0, 0, 1, 0, 0, 0, 0, 0, 0, 0, 72, 105])) 3 0 2 [] = (Ok (Done 2), [72, 105])"
  (is "sys_writev (console_env ?m) 3 0 2 [] = _")
proof -
  have sink: "full_sink (console_env ?m) 3 (\<lambda>_. ?m) (\<lambda>bs out. out @ bs)"
    by (simp add: full_sink_def console_env_def act_simps)
  have at: "iovec_at (console_env ?m) ?m 0 0 = (32, 1)" "iovec_at (console_env ?m) ?m 0 1 = (33, 1)"
    by (simp_all add: iovec_at_def console_env_def linux_layout_def user_bytes_memory_of slice_def)
  have "iovec_bytes (console_env ?m) ?m 0 0 = [72]" "iovec_bytes (console_env ?m) ?m 0 1 = [105]"
    by (simp_all add: iovec_bytes_def at user_bytes_memory_of slice_def take_Cons' del: One_nat_def)
  then have "iov_data (console_env ?m) ?m 0 [0..<2] = [72, 105]"
    by (simp add: iov_data_def upt_rec)
  then show ?thesis
    using writev_one_write [OF _ _ sink, of 3 "[]" "[72, 105]" 0 2]
    by (simp add: console_env_def act_simps)
qed

section \<open>\<open>sendfile\<close>\<close>

text \<open>A file with fixed contents, read at an offset.\<close>

definition file_source :: "('s, 'st) sys_env \<Rightarrow> u64 \<Rightarrow> u8 list \<Rightarrow> bool" where
  "file_source E f data \<longleftrightarrow> (\<forall>off b s.
     vd_read_at (se_data E) f off b s =
       (Ok (Done (splice 0 (take (length b) (drop (unat off) data)) b,
                  length (take (length b) (drop (unat off) data)))), s))"

definition prefix_sink :: "('s, 'st) sys_env \<Rightarrow> u64 \<Rightarrow> (u8 list \<Rightarrow> 's \<Rightarrow> 's) \<Rightarrow> bool" where
  "prefix_sink E f app \<longleftrightarrow>
     (\<forall>bs n s. n \<le> length bs \<longrightarrow> vd_write (se_data E) f bs n s = (Ok (Done n), app (take n bs) s))
     \<and> (\<forall>s. app [] s = s) \<and> (\<forall>xs ys s. app (xs @ ys) s = app ys (app xs s))"

lemma prefix_sinkD:
  assumes "prefix_sink E f app"
  shows "n \<le> length bs \<Longrightarrow> vd_write (se_data E) f bs n s = (Ok (Done n), app (take n bs) s)"
    "app [] s = s" "app ys (app xs s) = app (xs @ ys) s"
  using assms unfolding prefix_sink_def by metis+

text \<open>The amount that rounds of 512 bytes transfer.\<close>

definition round_up_512 :: "nat \<Rightarrow> nat" where
  "round_up_512 n = 512 * ((n + 511) div 512)"

lemma round_up_512_simps:
  "round_up_512 0 = 0" "0 < n \<Longrightarrow> round_up_512 n = 512 + round_up_512 (n - 512)"
proof -
  show "round_up_512 0 = 0" by (simp add: round_up_512_def)
  show "round_up_512 n = 512 + round_up_512 (n - 512)" if "0 < n"
  proof (cases "n \<le> 512")
    case True
    with that have "n + 511 = 512 + (n - 1)" "n - 1 < 512" by simp_all
    then have "(n + 511) div 512 = 1" by (metis div_add_self1 div_less add_0 plus_1_eq_Suc One_nat_def zero_neq_numeral add.commute)
    with True show ?thesis by (simp add: round_up_512_def)
  next
    case False
    then have "n + 511 = 512 + (n - 512 + 511)" by simp
    then have "(n + 511) div 512 = Suc ((n - 512 + 511) div 512)" by (metis div_add_self1 add.commute Suc_eq_plus1 zero_neq_numeral)
    then show ?thesis by (simp add: round_up_512_def)
  qed
qed

lemma sendfile_loop_run:
  assumes src: "file_source E i data" and small: "length data < 2 ^ 64" and sink: "prefix_sink E o' app"
  shows "length buf = 512 \<Longrightarrow> cnt \<le> sent + fuel \<Longrightarrow>
    D = drop (unat off) data \<Longrightarrow> m = min (length D) (round_up_512 (cnt - sent)) \<Longrightarrow>
    sendfile_loop fuel E i o' cnt (Some off) sent buf s
      = (Ok (Done (sent + m, Some (off + of_nat m))), app (take m D) s)"
proof (induction fuel arbitrary: off sent buf s D m)
  case 0
  then show ?case by (simp add: act_simps round_up_512_simps prefix_sinkD [OF sink])
next
  case (Suc fuel)
  note len = Suc.prems(1) and D = Suc.prems(3) and m = Suc.prems(4)
  define r where "r = min 512 (length D)"
  have read: "vd_read_at (se_data E) i off buf s = (Ok (Done (splice 0 (take 512 D) buf, r)), s)"
    using src len D by (simp add: file_source_def r_def min.commute)
  consider "\<not> sent < cnt" | "sent < cnt" "r = 0" | "sent < cnt" "0 < r" by blast
  then show ?case
  proof cases
    case 1
    then show ?thesis using m by (simp add: act_simps round_up_512_simps prefix_sinkD [OF sink])
  next
    case 2
    then have "m = 0" "D = []" using m by (auto simp: r_def min_def split: if_splits)
    with 2 show ?thesis by (simp add: act_simps bindp_def read prefix_sinkD [OF sink])
  next
    case 3
    have lenbuf: "length (splice 0 (take 512 D) buf) = 512" using len by simp
    have r: "r \<le> length D" "r \<le> 512" by (simp_all add: r_def)
    have tk: "take r (splice 0 (take 512 D) buf) = take r D"
      using len by (simp add: splice_def r_def min_def)
    have "unat off + r \<le> length data" using r 3(2) D by simp
    then have "unat (off + of_nat r) = unat off + r"
      using small by (subst unat_add_lem [THEN iffD1]) (simp_all add: unat_of_nat)
    then have D': "drop r D = drop (unat (off + of_nat r)) data" by (simp add: D add.commute)
    define m' where "m' = min (length (drop r D)) (round_up_512 (cnt - (sent + r)))"
    have mm: "m = r + m'"
    proof (cases "length D \<le> 512")
      case True
      then show ?thesis using 3(1) by (simp add: m m'_def r_def round_up_512_simps(2) [of "cnt - sent"])
    next
      case False
      then show ?thesis using 3(1) by (simp add: m m'_def r_def round_up_512_simps(2) [of "cnt - sent"])
    qed
    have split: "take r D @ take m' (drop r D) = take m D" by (simp add: mm take_add)
    have "cnt \<le> (sent + r) + fuel" using Suc.prems(2) 3(2) by simp
    from Suc.IH [OF lenbuf this D' m'_def, of "app (take r D) s"]
    show ?thesis using 3 r
      by (simp add: act_simps bindp_def read lenbuf tk prefix_sinkD [OF sink] split mm ac_simps)
  qed
qed

text \<open>C15: \<open>sendfile\<close> with an offset copies a contiguous part of the file to the output in order, never
  sleeps, and advances the offset by what it returns. The amount is not clipped to \<open>count\<close>: the last
  round of 512 bytes is written whole, so up to 511 bytes more than asked for are sent.\<close>

theorem sendfile_copies:
  assumes "td_get_fd (se_task E) in_fd s = (Ok i, s)" and "td_get_fd (se_task E) out_fd s = (Ok f, s)"
    and "ptr \<noteq> 0" and "td_read_u64 (se_task E) ptr s = (Ok off, s)"
    and "\<And>v t. td_write_u64 (se_task E) ptr v t = (Ok (), put v t)"
    and "length (se_uninit E 512) = 512"
    and "file_source E i data" and "length data < 2 ^ 64" and "prefix_sink E f app"
    and "n = min (length data - unat off) (round_up_512 (min cnt 0x7ffff000))"
  shows "sys_sendfile E out_fd in_fd ptr cnt s
      = (Ok (Done n), put (off + of_nat n) (app (take n (drop (unat off) data)) s))
    \<and> (min cnt 0x7ffff000 \<le> length data - unat off \<longrightarrow> min cnt 0x7ffff000 \<le> n \<and> n < min cnt 0x7ffff000 + 512)"
proof
  have n: "n = min (length (drop (unat off) data)) (round_up_512 (min cnt 0x7ffff000 - 0))"
    by (simp add: assms(10))
  show "sys_sendfile E out_fd in_fd ptr cnt s
      = (Ok (Done n), put (off + of_nat n) (app (take n (drop (unat off) data)) s))"
    using sendfile_loop_run [OF assms(7-9,6) _ refl n, of "min cnt 0x7ffff000" s]
    by (simp add: sys_sendfile_def Let_def act_simps assms(1-5) bindp_def)
  show "min cnt 0x7ffff000 \<le> length data - unat off \<longrightarrow> min cnt 0x7ffff000 \<le> n \<and> n < min cnt 0x7ffff000 + 512"
    using assms(10) by (auto simp: round_up_512_def min_def)
qed

definition copy_env :: "u8 list \<Rightarrow> (u64 \<times> u8 list, unit) sys_env" where
  "copy_env data = quiet_env\<lparr>
     se_task := quiet_task\<lparr> td_get_fd := \<lambda>fd. ret (of_nat fd), td_read_u64 := \<lambda>p s. (Ok (fst s), s),
       td_write_u64 := \<lambda>p v. modify_state (\<lambda>s. (v, snd s)) \<rparr>,
     se_data := quiet_data\<lparr>
       vd_read_at := \<lambda>_ off b. let c = take (length b) (drop (unat off) data) in finish (splice 0 c b, length c),
       vd_write := \<lambda>_ bs n. bind (modify_state (\<lambda>s. (fst s, snd s @ take n bs))) (\<lambda>_. finish n) \<rparr>\<rparr>"

theorem sendfile_copies_witness:
  "sys_sendfile (copy_env [1, 2, 3, 4]) 1 3 16 2 (1, []) = (Ok (Done 3), (4, [2, 3, 4]))"
proof -
  have "file_source (copy_env [1, 2, 3, 4]) 3 [1, 2, 3, 4]"
    by (simp add: file_source_def copy_env_def act_simps Let_def)
  moreover have "prefix_sink (copy_env [1, 2, 3, 4]) 1 (\<lambda>bs s. (fst s, snd s @ bs))"
    by (simp add: prefix_sink_def copy_env_def act_simps)
  ultimately show ?thesis
    using sendfile_copies [of "copy_env [1, 2, 3, 4]" 3 "(1, [])" 3 1 1 16 1 "\<lambda>v s. (v, snd s)" "[1, 2, 3, 4]"
        "\<lambda>bs s. (fst s, snd s @ bs)" 3 2]
    by (simp add: copy_env_def act_simps round_up_512_def)
qed

end
