(* ===== verification/SysPoll.thy ===== *)
theory SysPoll
  imports SysEnv
begin

text \<open>
  \<open>select\<close>, \<open>pselect6\<close> and \<open>ppoll\<close> of \<open>common/syscall/syscall/src/fs/basic.rs\<close>. Both wait by
  polling every watched file in rounds with a \<open>yield\<close> between them. A round is one definition;
  the loop over the rounds has a bound: \<open>Block\<close> means that the caller is still waiting after that
  many rounds.
\<close>

unbundle bit_operations_syntax

section \<open>\<open>select\<close>\<close>

record select_args =
  sa_nfds :: nat
  sa_readfds :: usize
  sa_writefds :: usize
  sa_exceptfds :: usize

text \<open>One of the three masks: every watched descriptor is polled for one kind of event.\<close>

fun select_scan :: "('s, 'st) sys_env \<Rightarrow> 16 word \<Rightarrow> nat list \<Rightarrow> u64 \<Rightarrow> u64 \<Rightarrow> nat \<Rightarrow> ('s, u64 \<times> nat) act" where
  "select_scan E ev [] ori fds_mask ready = ret (fds_mask, ready)"
| "select_scan E ev (i # is) ori fds_mask ready =
     (if bit ori i then
        bind (td_get_fd (se_task E) i) (\<lambda>inode_id.
        bind (must (vd_poll (se_file E) inode_id ev)) (\<lambda>event.
        if contains event ev then select_scan E ev is ori (set_bit i fds_mask) (ready + 1)
        else select_scan E ev is ori (unset_bit i fds_mask) ready))
      else select_scan E ev is ori fds_mask ready)"

definition select_mask :: "('s, 'st) sys_env \<Rightarrow> 16 word \<Rightarrow> nat \<Rightarrow> usize \<Rightarrow> u64 \<Rightarrow> nat \<Rightarrow> ('s, nat) act" where
  "select_mask E ev nfds fds ori ready =
     (if fds \<noteq> 0 then
        bind (select_scan E ev [0..<nfds] ori ori ready) (\<lambda>(fds_mask, ready).
        bind (td_write_u64 (se_task E) fds fds_mask) (\<lambda>_. ret ready))
      else ret ready)"

definition select_round :: "('s, 'st) sys_env \<Rightarrow> select_args \<Rightarrow> nat \<Rightarrow> u64 \<times> u64 \<times> u64 \<Rightarrow> ('s, nat) act" where
  "select_round E args nfds ori =
     bind (select_mask E (VP_IN (se_abi E)) nfds (sa_readfds args) (fst ori) 0) (\<lambda>ready.
     bind (select_mask E (VP_OUT (se_abi E)) nfds (sa_writefds args) (fst (snd ori)) ready) (\<lambda>ready.
     select_mask E (VP_ERR (se_abi E)) nfds (sa_exceptfds args) (snd (snd ori)) ready))"

text \<open>The deadline has passed.\<close>

definition expired :: "('s, 'st) sys_env \<Rightarrow> nat option \<Rightarrow> ('s, bool) act" where
  "expired E wait_time =
     (case wait_time of
        None \<Rightarrow> ret False
      | Some t \<Rightarrow> bind (se_now E) (\<lambda>now. ret (t \<le> se_to_clock E now)))"

fun select_loop :: "nat \<Rightarrow> ('s, 'st) sys_env \<Rightarrow> select_args \<Rightarrow> nat \<Rightarrow> u64 \<times> u64 \<times> u64 \<Rightarrow> nat option \<Rightarrow> bool
    \<Rightarrow> ('s, nat progress) act" where
  "select_loop 0 E args nfds ori wait_time timeout_is_zero = ret Block"
| "select_loop (Suc fuel) E args nfds ori wait_time timeout_is_zero =
     bind (select_round E args nfds ori) (\<lambda>ready.
     if ready > 0 then finish ready
     else if timeout_is_zero then finish 0
     else bind (se_yield E) (\<lambda>_.
          bind (expired E wait_time) (\<lambda>late.
          if late then finish 0
          else select_loop fuel E args nfds ori wait_time timeout_is_zero)))"

text \<open>A mask argument: 0 when the pointer is null.\<close>

definition read_mask :: "('s, 'st) sys_env \<Rightarrow> usize \<Rightarrow> ('s, u64) act" where
  "read_mask E fds = (if fds \<noteq> 0 then td_read_u64 (se_task E) fds else ret 0)"

definition select_common :: "nat \<Rightarrow> ('s, 'st) sys_env \<Rightarrow> select_args \<Rightarrow> (usize \<times> usize) option
    \<Rightarrow> ('s, nat progress) act" where
  "select_common fuel E args timeout =
     (if sa_nfds args \<ge> MAX_FD_NUM (se_consts E) then fail EINVAL
      else bind (case timeout of
                   Some time_spec \<Rightarrow> bind (se_now E) (\<lambda>now.
                     ret (Some (se_to_clock E time_spec + se_to_clock E now), time_spec = (0, 0)))
                 | None \<Rightarrow> ret (None, False)) (\<lambda>(wait_time, timeout_is_zero).
        let nfds = min (sa_nfds args) 64 in
        bind (read_mask E (sa_readfds args)) (\<lambda>ori_readfds.
        bind (read_mask E (sa_writefds args)) (\<lambda>ori_writefds.
        bind (read_mask E (sa_exceptfds args)) (\<lambda>ori_exceptfds.
        select_loop fuel E args nfds (ori_readfds, ori_writefds, ori_exceptfds) wait_time timeout_is_zero)))))"

definition sys_pselect6 :: "nat \<Rightarrow> ('s, 'st) sys_env \<Rightarrow> select_args \<Rightarrow> usize \<Rightarrow> ('s, nat progress) act" where
  "sys_pselect6 fuel E args timeout =
     bind (if timeout \<noteq> 0 then bind (td_read_timespec (se_task E) timeout) (\<lambda>t. ret (Some t)) else ret None)
       (select_common fuel E args)"

text \<open>\<open>timeval\<close> has the layout of \<open>timespec\<close>; its microseconds are scaled.\<close>

definition sys_select :: "nat \<Rightarrow> ('s, 'st) sys_env \<Rightarrow> nat \<Rightarrow> usize \<Rightarrow> usize \<Rightarrow> usize \<Rightarrow> usize \<Rightarrow> ('s, nat progress) act" where
  "sys_select fuel E nfds readfds writefds exceptfds timeout =
     bind (if timeout \<noteq> 0
           then bind (td_read_timespec (se_task E) timeout) (\<lambda>(sec, usec). ret (Some (sec, usec * 1000)))
           else ret None)
       (select_common fuel E \<lparr> sa_nfds = nfds, sa_readfds = readfds, sa_writefds = writefds, sa_exceptfds = exceptfds \<rparr>)"

section \<open>\<open>ppoll\<close>\<close>

text \<open>A round over the array, which is kept as its bytes; a descriptor that is not open counts as an
  error event.\<close>

fun ppoll_scan :: "('s, 'st) sys_env \<Rightarrow> nat list \<Rightarrow> u8 list \<Rightarrow> nat \<Rightarrow> ('s, u8 list \<times> nat) act" where
  "ppoll_scan E [] fds res = ret (fds, res)"
| "ppoll_scan E (idx # is) fds res =
     (let n = POLLFD_SIZE (se_consts E); pfd = se_pollfd_of (se_layout E) (drop (idx * n) fds) in
      bind (attempt (td_get_fd (se_task E) (unat (pfd_fd pfd)))) (\<lambda>f.
      bind (case f of
              Inr f \<Rightarrow>
                bind (vd_poll (se_file E) f (from_bits_truncate (VP_ALL (se_abi E)) (ucast (pfd_events pfd)))) (\<lambda>event.
                ret (pfd\<lparr>pfd_revents := from_bits_truncate (PE_ALL (se_consts E)) (ucast event)\<rparr>,
                     if event \<noteq> 0 then res + 1 else res))
            | Inl _ \<Rightarrow> ret (pfd\<lparr>pfd_revents := PE_ERR (se_consts E)\<rparr>, res + 1)) (\<lambda>(pfd, res).
      ppoll_scan E is (splice (idx * n) (se_pollfd_bytes (se_layout E) pfd) fds) res)))"

fun ppoll_loop :: "nat \<Rightarrow> ('s, 'st) sys_env \<Rightarrow> usize \<Rightarrow> nat \<Rightarrow> nat option \<Rightarrow> u8 list \<Rightarrow> ('s, nat progress) act" where
  "ppoll_loop 0 E fds_ptr nfds wait_time fds = ret Block"
| "ppoll_loop (Suc fuel) E fds_ptr nfds wait_time fds =
     bind (ppoll_scan E [0..<nfds] fds 0) (\<lambda>(fds, res).
     if res > 0 then bind (td_copy_to_user (se_task E) fds_ptr fds) (\<lambda>_. finish res)
     else bind (expired E wait_time) (\<lambda>late.
          if late then finish 0
          else bind (se_yield E) (\<lambda>_. ppoll_loop fuel E fds_ptr nfds wait_time fds)))"

definition sys_ppoll :: "nat \<Rightarrow> ('s, 'st) sys_env \<Rightarrow> usize \<Rightarrow> nat \<Rightarrow> usize \<Rightarrow> usize \<Rightarrow> ('s, nat progress) act" where
  "sys_ppoll fuel E fds_ptr nfds timeout sigmask =
     bind (td_copy_from_user (se_task E) fds_ptr (POLLFD_SIZE (se_consts E) * nfds)) (\<lambda>fds.
     bind (if sigmask = PPOLL_FROM_POLL_SIGMASK (se_consts E) then
             (if timeout = - 1 then ret None
              else bind (se_now E) (\<lambda>now.
                ret (Some (se_to_clock E (timeout div 1000, (timeout mod 1000) * 1000000) + se_to_clock E now))))
           else if timeout \<noteq> 0 then
             bind (td_read_timespec (se_task E) timeout) (\<lambda>time_spec.
             bind (se_now E) (\<lambda>now. ret (Some (se_to_clock E time_spec + se_to_clock E now))))
           else ret None) (\<lambda>wait_time.
     ppoll_loop fuel E fds_ptr nfds wait_time fds))"

section \<open>What \<open>select\<close> answers\<close>

text \<open>
  On states that satisfy \<open>I\<close> the watched descriptors (the set \<open>W\<close>) are open, polling them changes
  nothing and reports the events \<open>events i\<close>, and the masks can be written.
\<close>

definition polls :: "('s, 'st) sys_env \<Rightarrow> ('s \<Rightarrow> bool) \<Rightarrow> nat set \<Rightarrow> (nat \<Rightarrow> u64) \<Rightarrow> (nat \<Rightarrow> 16 word) \<Rightarrow> bool" where
  "polls E I W ino events \<longleftrightarrow>
     (\<forall>i \<in> W. \<forall>s. I s \<longrightarrow> td_get_fd (se_task E) i s = (Ok (ino i), s))
     \<and> (\<forall>i \<in> W. \<forall>ev s. I s \<longrightarrow> vd_poll (se_file E) (ino i) ev s = (Ok (events i AND ev), s))"

definition writes_masks :: "('s, 'st) sys_env \<Rightarrow> ('s \<Rightarrow> bool) \<Rightarrow> (usize \<Rightarrow> u64 \<Rightarrow> 's \<Rightarrow> 's) \<Rightarrow> bool" where
  "writes_masks E I put \<longleftrightarrow> (\<forall>p v s. I s \<longrightarrow> td_write_u64 (se_task E) p v s = (Ok (), put p v s) \<and> I (put p v s))"

definition put_mask :: "(usize \<Rightarrow> u64 \<Rightarrow> 's \<Rightarrow> 's) \<Rightarrow> usize \<Rightarrow> u64 \<Rightarrow> 's \<Rightarrow> 's" where
  "put_mask put p v s = (if p \<noteq> 0 then put p v s else s)"

text \<open>A mask without the watched descriptors below \<open>n\<close> that are not ready; how many are ready.\<close>

definition selected :: "(nat \<Rightarrow> 16 word) \<Rightarrow> 16 word \<Rightarrow> nat \<Rightarrow> u64 \<Rightarrow> u64" where
  "selected events ev n ori =
     fold (\<lambda>i m. if bit ori i then (if contains (events i) ev then set_bit i m else unset_bit i m) else m) [0..<n] ori"

definition ready_count :: "(nat \<Rightarrow> 16 word) \<Rightarrow> 16 word \<Rightarrow> nat \<Rightarrow> u64 \<Rightarrow> nat" where
  "ready_count events ev n ori = length (filter (\<lambda>i. bit ori i \<and> contains (events i) ev) [0..<n])"

definition watched :: "nat \<Rightarrow> u64 \<Rightarrow> nat set" where
  "watched n ori = {i. i < n \<and> bit ori i}"

lemma contains_and [simp]: "contains (a AND ev) ev \<longleftrightarrow> contains a ev"
  by (simp add: contains_def and.assoc)

lemma bit_select_fold:
  "set is \<subseteq> {..<64} \<Longrightarrow>
   bit (fold (\<lambda>i m. if bit ori i then (if contains (events i) ev then set_bit i m else unset_bit i m) else m) is (m :: u64)) j
    \<longleftrightarrow> (if j \<in> set is \<and> bit ori j then contains (events j) ev else bit m j)"
  by (induction "is" arbitrary: m) (auto simp: bit_set_bit_iff bit_unset_bit_iff)

lemma bit_selected:
  "n \<le> 64 \<Longrightarrow> bit (selected events ev n ori) j \<longleftrightarrow> bit ori j \<and> (j < n \<longrightarrow> contains (events j) ev)"
  unfolding selected_def by (subst bit_select_fold) auto

lemma select_scan_run:
  assumes "polls E I W ino events" and "I s"
  shows "{i \<in> set is. bit ori i} \<subseteq> W \<Longrightarrow> select_scan E ev is ori m ready s =
    (Ok (fold (\<lambda>i m. if bit ori i then (if contains (events i) ev then set_bit i m else unset_bit i m) else m) is m,
         ready + length (filter (\<lambda>i. bit ori i \<and> contains (events i) ev) is)), s)"
proof (induction "is" arbitrary: m ready)
  case Nil
  show ?case by (simp add: act_simps)
next
  case (Cons i "is")
  then have sub: "{i \<in> set is. bit ori i} \<subseteq> W" by auto
  show ?case
  proof (cases "bit ori i")
    case True
    with Cons.prems have "i \<in> W" by auto
    with assms have "td_get_fd (se_task E) i s = (Ok (ino i), s)"
      "vd_poll (se_file E) (ino i) ev s = (Ok (events i AND ev), s)"
      unfolding polls_def by blast+
    with True show ?thesis by (simp add: act_simps Cons.IH [OF sub])
  qed (simp add: Cons.IH [OF sub])
qed

lemma select_mask_run:
  assumes "polls E I W ino events" and "writes_masks E I put" and "I s" and "p \<noteq> 0 \<longrightarrow> watched n ori \<subseteq> W"
    and "p = 0 \<longrightarrow> ori = 0"
  shows "select_mask E ev n p ori ready s =
    (Ok (ready + ready_count events ev n ori), put_mask put p (selected events ev n ori) s)"
proof (cases "p = 0")
  case True
  with assms(5) show ?thesis by (simp add: select_mask_def act_simps put_mask_def ready_count_def)
next
  case False
  with assms(4) have "{i \<in> set [0..<n]. bit ori i} \<subseteq> W" by (auto simp: watched_def)
  with False assms(2,3) show ?thesis
    by (simp add: select_mask_def act_simps select_scan_run [OF assms(1,3)] put_mask_def
          ready_count_def selected_def writes_masks_def)
qed

lemma put_mask_inv: "writes_masks E I put \<Longrightarrow> I s \<Longrightarrow> I (put_mask put p v s)"
  by (simp add: writes_masks_def put_mask_def)

text \<open>One round: the three counts and the three masks.\<close>

definition round_count :: "('s, 'st) sys_env \<Rightarrow> (nat \<Rightarrow> 16 word) \<Rightarrow> nat \<Rightarrow> u64 \<times> u64 \<times> u64 \<Rightarrow> nat" where
  "round_count E events n ori =
     ready_count events (VP_IN (se_abi E)) n (fst ori) + ready_count events (VP_OUT (se_abi E)) n (fst (snd ori))
     + ready_count events (VP_ERR (se_abi E)) n (snd (snd ori))"

definition round_masks :: "('s, 'st) sys_env \<Rightarrow> (usize \<Rightarrow> u64 \<Rightarrow> 's \<Rightarrow> 's) \<Rightarrow> (nat \<Rightarrow> 16 word) \<Rightarrow> select_args \<Rightarrow> nat
    \<Rightarrow> u64 \<times> u64 \<times> u64 \<Rightarrow> 's \<Rightarrow> 's" where
  "round_masks E put events args n ori s =
     put_mask put (sa_exceptfds args) (selected events (VP_ERR (se_abi E)) n (snd (snd ori)))
       (put_mask put (sa_writefds args) (selected events (VP_OUT (se_abi E)) n (fst (snd ori)))
         (put_mask put (sa_readfds args) (selected events (VP_IN (se_abi E)) n (fst ori)) s))"

definition masks_ok :: "select_args \<Rightarrow> nat \<Rightarrow> u64 \<times> u64 \<times> u64 \<Rightarrow> nat set \<Rightarrow> bool" where
  "masks_ok args n ori W \<longleftrightarrow>
     watched n (fst ori) \<union> watched n (fst (snd ori)) \<union> watched n (snd (snd ori)) \<subseteq> W
     \<and> (sa_readfds args = 0 \<longrightarrow> fst ori = 0) \<and> (sa_writefds args = 0 \<longrightarrow> fst (snd ori) = 0)
     \<and> (sa_exceptfds args = 0 \<longrightarrow> snd (snd ori) = 0)"

lemma select_round_run:
  assumes "polls E I W ino events" and "writes_masks E I put" and "I s" and "masks_ok args n ori W"
  shows "select_round E args n ori s = (Ok (round_count E events n ori), round_masks E put events args n ori s)"
  using assms(4) unfolding masks_ok_def
  by (simp add: select_round_def act_simps select_mask_run [OF assms(1,2)] assms(3)
        put_mask_inv [OF assms(2)] round_count_def round_masks_def)

lemma round_masks_inv: "writes_masks E I put \<Longrightarrow> I s \<Longrightarrow> I (round_masks E put events args n ori s)"
  by (simp add: round_masks_def put_mask_inv)

text \<open>With nothing ready and no deadline, every number of rounds leaves the caller waiting.\<close>

lemma select_loop_waits:
  assumes "polls E I W ino events" and "writes_masks E I put" and "masks_ok args n ori W"
    and "round_count E events n ori = 0" and "\<And>t. I t \<Longrightarrow> \<exists>t'. se_yield E t = (Ok (), t') \<and> I t'"
  shows "I s \<Longrightarrow> fst (select_loop k E args n ori None False s) = Ok Block"
proof (induction k arbitrary: s)
  case (Suc k)
  let ?t = "round_masks E put events args n ori s"
  obtain t' where "se_yield E ?t = (Ok (), t')" "I t'"
    using assms(5) [OF round_masks_inv [OF assms(2) Suc.prems]] by blast
  with Suc show ?case
    by (simp add: act_simps select_round_run [OF assms(1,2) Suc.prems assms(3)] assms(4) expired_def)
qed (simp add: act_simps)

lemma select_common_start:
  assumes "sa_nfds args < MAX_FD_NUM (se_consts E)"
    and "\<forall>p \<in> {sa_readfds args, sa_writefds args, sa_exceptfds args}.
           td_read_u64 (se_task E) p s = (Ok (um p), s)"
    and "se_now E s = (Ok now, s)"
    and "ori = (if sa_readfds args = 0 then 0 else um (sa_readfds args),
                if sa_writefds args = 0 then 0 else um (sa_writefds args),
                if sa_exceptfds args = 0 then 0 else um (sa_exceptfds args))"
  shows "select_common k E args None s = select_loop k E args (min (sa_nfds args) 64) ori None False s"
    and "select_common k E args (Some (0, 0)) s = select_loop k E args (min (sa_nfds args) 64) ori
      (Some (se_to_clock E (0, 0) + se_to_clock E now)) True s"
  using assms(1) by (simp_all add: select_common_def act_simps assms(2-4) read_mask_def Let_def)

text \<open>C16: \<open>select\<close>. With a zero timeout the call returns at once with the number of ready descriptors,
  counted once for each of the three masks, and in each mask exactly the watched descriptors below
  the bound that are not ready are cleared. Without a timeout it gives the same answer when
  something is ready, and otherwise it goes on waiting, whatever the number of rounds.\<close>

theorem select_outcome:
  assumes "polls E I W ino events" and "writes_masks E I put" and "I s"
    and "\<And>t. I t \<Longrightarrow> \<exists>t'. se_yield E t = (Ok (), t') \<and> I t'"
    and "sa_nfds args < MAX_FD_NUM (se_consts E)" and "n = min (sa_nfds args) 64"
    and "\<forall>p \<in> {sa_readfds args, sa_writefds args, sa_exceptfds args}.
           td_read_u64 (se_task E) p s = (Ok (um p), s)"
    and "se_now E s = (Ok now, s)"
    and "ori = (if sa_readfds args = 0 then 0 else um (sa_readfds args),
                if sa_writefds args = 0 then 0 else um (sa_writefds args),
                if sa_exceptfds args = 0 then 0 else um (sa_exceptfds args))"
    and "watched n (fst ori) \<union> watched n (fst (snd ori)) \<union> watched n (snd (snd ori)) \<subseteq> W"
  shows "let N = round_count E events n ori; t = round_masks E put events args n ori s in
      select_common (Suc k) E args (Some (0, 0)) s = (Ok (Done N), t)
    \<and> (if 0 < N then select_common (Suc k) E args None s = (Ok (Done N), t)
       else fst (select_common k E args None s) = Ok Block)
    \<and> (\<forall>ev m j. bit (selected events ev n m) j \<longleftrightarrow> bit m j \<and> (j < n \<longrightarrow> contains (events j) ev))"
proof -
  have ok: "masks_ok args n ori W" using assms(9,10) by (simp add: masks_ok_def)
  note start = select_common_start [OF assms(5,7,8,9)]
  have round: "select_round E args n ori s = (Ok (round_count E events n ori), round_masks E put events args n ori s)"
    by (rule select_round_run [OF assms(1-3) ok])
  have 1: "select_common (Suc k) E args (Some (0, 0)) s
      = (Ok (Done (round_count E events n ori)), round_masks E put events args n ori s)"
    unfolding start(2) assms(6) [symmetric] by (simp add: act_simps round)
  have 2: "if 0 < round_count E events n ori
      then select_common (Suc k) E args None s
        = (Ok (Done (round_count E events n ori)), round_masks E put events args n ori s)
      else fst (select_common k E args None s) = Ok Block"
    unfolding start(1) assms(6) [symmetric]
    using select_loop_waits [OF assms(1,2) ok _ assms(4,3)] by (simp add: act_simps round)
  have 3: "bit (selected events ev n m) j \<longleftrightarrow> bit m j \<and> (j < n \<longrightarrow> contains (events j) ev)" for ev m j
    by (rule bit_selected) (simp add: assms(6))
  show ?thesis using 1 2 3 by (simp add: Let_def)
qed

definition poll_env :: "(u64 \<Rightarrow> 16 word) \<Rightarrow> (usize \<Rightarrow> u64, unit) sys_env" where
  "poll_env events = quiet_env\<lparr>
     se_task := quiet_task\<lparr> td_get_fd := \<lambda>fd. ret (of_nat fd), td_read_u64 := \<lambda>p s. (Ok (s p), s),
       td_write_u64 := \<lambda>p v. modify_state (\<lambda>s. s(p := v)) \<rparr>,
     se_file := quiet_file\<lparr> vd_poll := \<lambda>f ev. ret (events f AND ev) \<rparr>\<rparr>"

theorem select_outcome_witness:
  "select_common 1 (poll_env (\<lambda>f. if f = 1 then 1 else 0)) \<lparr> sa_nfds = 2, sa_readfds = 16, sa_writefds = 0, sa_exceptfds = 0 \<rparr>
     (Some (0, 0)) ((\<lambda>_. 0)(16 := 3)) = (Ok (Done 1), (\<lambda>_. 0)(16 := 2))"
proof -
  let ?E = "poll_env (\<lambda>f. if f = 1 then 1 else 0)"
  let ?e = "\<lambda>i. if (of_nat i :: u64) = 1 then 1 else 0 :: 16 word"
  let ?a = "\<lparr> sa_nfds = 2, sa_readfds = 16, sa_writefds = 0, sa_exceptfds = 0 \<rparr>"
  let ?s = "(\<lambda>_. 0)(16 := 3) :: usize \<Rightarrow> u64"
  have p: "polls ?E (\<lambda>_. True) UNIV of_nat ?e"
    by (simp add: polls_def poll_env_def act_simps)
  have w: "writes_masks ?E (\<lambda>_. True) (\<lambda>p v s. s(p := v))"
    by (simp add: writes_masks_def poll_env_def act_simps)
  have bits: "bit (3 :: u64) 0" "bit (3 :: u64) (Suc 0)"
    by (simp_all add: bit_0 bit_Suc)
  have sel: "selected ?e 1 2 3 = 2"
    by (simp add: selected_def upt_rec bits contains_def set_bit_eq_or unset_bit_eq_and_not numeral_2_eq_2)
  have cnt: "ready_count ?e 1 2 3 = 1" "ready_count ?e 4 2 0 = 0" "ready_count ?e 8 2 0 = 0"
    by (simp_all add: ready_count_def upt_rec bits contains_def numeral_2_eq_2)
  show ?thesis
    using select_outcome [OF p w, where s = ?s and args = ?a and n = 2 and um = ?s and now = "(0, 0)" and ori = "(3, 0, 0)" and k = 0]
    by (simp add: poll_env_def act_simps round_count_def round_masks_def put_mask_def cnt sel Let_def)
qed

end
