(* ===== verification/KFile.thy ===== *)
theory KFile
  imports Externals
begin

text \<open>
  \<open>common/vfs/vfs/src/kfile.rs\<close> and \<open>socket.rs\<close>: open files of a file system and of the
  network stack. A \<open>KernelFile\<close> has a position and open flags in a \<open>KernelFileMeta\<close>
  (\<open>common_lib/vfs_common/src/meta.rs\<close>) and passes data operations on to the inode of its dentry.

  Dentries, inodes and the network domain are other components: the operations the files call
  are the fields of \<open>fs_ops\<close> and \<open>net_ops\<close>, computations on a state \<open>'x\<close> of their own.
\<close>

record dirent =
  dn_name :: "u8 list"
  dn_ino :: u64
  dn_ty :: u8

record dirent64 =
  de_name :: "u8 list"
  de_ino :: u64
  de_off :: u64
  de_ty :: u8

record dirent64_ops =
  de_len :: "dirent64 \<Rightarrow> nat"
  de_slice :: "dirent64 \<Rightarrow> u8 list"
  de_name_offset :: "dirent64 \<Rightarrow> nat"
  de_from_u8 :: "u8 \<Rightarrow> u8"

record ('d, 'i, 'st, 'x) fs_ops =
  d_inode :: "'d \<Rightarrow> ('x, 'i) act"
  i_read_at :: "'i \<Rightarrow> u64 \<Rightarrow> u8 list \<Rightarrow> ('x, u8 list \<times> nat) act"
  i_write_at :: "'i \<Rightarrow> u64 \<Rightarrow> u8 list \<Rightarrow> ('x, nat) act"
  i_flush :: "'i \<Rightarrow> ('x, unit) act"
  i_fsync :: "'i \<Rightarrow> ('x, unit) act"
  i_get_attr :: "'i \<Rightarrow> ('x, 'st) act"
  i_ioctl :: "'i \<Rightarrow> u32 \<Rightarrow> usize \<Rightarrow> ('x, nat) act"
  i_truncate :: "'i \<Rightarrow> u64 \<Rightarrow> ('x, unit) act"
  i_poll :: "'i \<Rightarrow> 16 word \<Rightarrow> ('x, 16 word) act"
  i_readdir :: "'i \<Rightarrow> nat \<Rightarrow> ('x, dirent option) act"
  st_size :: "'st \<Rightarrow> u64"

section \<open>Kernel files\<close>

record kmeta =
  km_pos :: u64
  km_open_flag :: usize
  km_real_inode_id :: u64
  km_fs_domain :: nat
  km_fs_domain_ident :: "u8 list"

definition kmeta_new :: "u64 \<Rightarrow> usize \<Rightarrow> u64 \<Rightarrow> nat \<Rightarrow> u8 list \<Rightarrow> kmeta" where
  "kmeta_new p open_flag real_inode_id fs_domain fs_domain_ident =
     \<lparr> km_pos = p, km_open_flag = open_flag, km_real_inode_id = real_inode_id,
       km_fs_domain = fs_domain, km_fs_domain_ident = fs_domain_ident \<rparr>"

text \<open>The state a file's operation works on: its metadata and the file systems.\<close>

record 'x kstate =
  k_meta :: kmeta
  k_fs :: 'x

definition in_fs :: "('x, 'a) act \<Rightarrow> ('x kstate, 'a) act" where
  "in_fs m = zoom k_fs (\<lambda>x s. s\<lparr>k_fs := x\<rparr>) m"

definition set_pos :: "u64 \<Rightarrow> ('x kstate, unit) act" where
  "set_pos p = modify_state (\<lambda>s. s\<lparr>k_meta := (k_meta s)\<lparr>km_pos := p\<rparr>\<rparr>)"

text \<open>The initial position of \<open>KernelFile::new\<close>.\<close>

definition kf_new_pos :: "abi \<Rightarrow> ('d, 'i, 'st, 'x) fs_ops \<Rightarrow> 'd \<Rightarrow> usize \<Rightarrow> ('x, u64) act" where
  "kf_new_pos A F d open_flag =
     (if contains open_flag (O_APPEND A) then
        bind (must (d_inode F d)) (\<lambda>i. bind (must (i_get_attr F i)) (\<lambda>a. ret (st_size F a)))
      else ret 0)"

definition kf_read_at :: "abi \<Rightarrow> ('d, 'i, 'st, 'x) fs_ops \<Rightarrow> 'd \<Rightarrow> u64 \<Rightarrow> u8 list
    \<Rightarrow> ('x kstate, u8 list \<times> nat) act" where
  "kf_read_at A F d offset buf =
     (if buf = [] then ret (buf, 0)
      else bind get_state (\<lambda>s.
        let open_flag = km_open_flag (k_meta s) in
        if \<not> contains open_flag (O_RDONLY A) \<and> \<not> contains open_flag (O_RDWR A) then fail EPERM
        else bind (in_fs (d_inode F d)) (\<lambda>inode. in_fs (i_read_at F inode offset buf))))"

definition kf_write_at :: "abi \<Rightarrow> ('d, 'i, 'st, 'x) fs_ops \<Rightarrow> 'd \<Rightarrow> u64 \<Rightarrow> u8 list
    \<Rightarrow> ('x kstate, nat) act" where
  "kf_write_at A F d offset buf =
     (if buf = [] then ret 0
      else bind get_state (\<lambda>s.
        let open_flag = km_open_flag (k_meta s) in
        if \<not> contains open_flag (O_WRONLY A) \<and> \<not> contains open_flag (O_RDWR A) then fail EPERM
        else bind (in_fs (d_inode F d)) (\<lambda>inode. in_fs (i_write_at F inode offset buf))))"

definition kf_read :: "abi \<Rightarrow> ('d, 'i, 'st, 'x) fs_ops \<Rightarrow> 'd \<Rightarrow> u8 list
    \<Rightarrow> ('x kstate, u8 list \<times> nat) act" where
  "kf_read A F d buf =
     bind get_state (\<lambda>s.
     bind (kf_read_at A F d (km_pos (k_meta s)) buf) (\<lambda>(buf, n).
     bind get_state (\<lambda>s.
     bind (set_pos (km_pos (k_meta s) + of_nat n)) (\<lambda>_. ret (buf, n)))))"

definition kf_write :: "abi \<Rightarrow> ('d, 'i, 'st, 'x) fs_ops \<Rightarrow> 'd \<Rightarrow> u8 list \<Rightarrow> ('x kstate, nat) act" where
  "kf_write A F d buf =
     bind get_state (\<lambda>s.
     bind (kf_write_at A F d (km_pos (k_meta s)) buf) (\<lambda>n.
     bind get_state (\<lambda>s.
     bind (set_pos (km_pos (k_meta s) + of_nat n)) (\<lambda>_. ret n))))"

definition kf_flush :: "abi \<Rightarrow> ('d, 'i, 'st, 'x) fs_ops \<Rightarrow> 'd \<Rightarrow> ('x kstate, unit) act" where
  "kf_flush A F d =
     bind get_state (\<lambda>s.
     let open_flag = km_open_flag (k_meta s) in
     if \<not> contains open_flag (O_WRONLY A) \<and> \<not> contains open_flag (O_RDWR A) then fail EPERM
     else bind (in_fs (d_inode F d)) (\<lambda>inode. in_fs (i_flush F inode)))"

definition kf_fsync :: "abi \<Rightarrow> ('d, 'i, 'st, 'x) fs_ops \<Rightarrow> 'd \<Rightarrow> ('x kstate, unit) act" where
  "kf_fsync A F d =
     bind get_state (\<lambda>s.
     let open_flag = km_open_flag (k_meta s) in
     if \<not> contains open_flag (O_WRONLY A) \<and> \<not> contains open_flag (O_RDWR A) then fail EPERM
     else bind (in_fs (d_inode F d)) (\<lambda>inode. in_fs (i_fsync F inode)))"

definition kf_get_attr :: "('d, 'i, 'st, 'x) fs_ops \<Rightarrow> 'd \<Rightarrow> ('x kstate, 'st) act" where
  "kf_get_attr F d = bind (in_fs (d_inode F d)) (\<lambda>inode. in_fs (i_get_attr F inode))"

definition kf_seek :: "('d, 'i, 'st, 'x) fs_ops \<Rightarrow> 'd \<Rightarrow> seek_from \<Rightarrow> ('x kstate, u64) act" where
  "kf_seek F d p =
     bind (kf_get_attr F d) (\<lambda>a.
     bind get_state (\<lambda>s.
     bind (lift (ok_or (case p of
         SeekStart x \<Rightarrow> Some x
       | SeekCurrent off \<Rightarrow> checked_add_signed (km_pos (k_meta s)) off
       | SeekEnd off \<Rightarrow> checked_add_signed (st_size F a) off) EINVAL)) (\<lambda>new_offset.
     bind (set_pos new_offset) (\<lambda>_. ret new_offset))))"

definition kf_ioctl :: "('d, 'i, 'st, 'x) fs_ops \<Rightarrow> 'd \<Rightarrow> u32 \<Rightarrow> usize \<Rightarrow> ('x kstate, nat) act" where
  "kf_ioctl F d cmd arg = bind (must (in_fs (d_inode F d))) (\<lambda>inode. in_fs (i_ioctl F inode cmd arg))"

definition kf_set_open_flag :: "usize \<Rightarrow> ('x kstate, unit) act" where
  "kf_set_open_flag flag = modify_state (\<lambda>s. s\<lparr>k_meta := (k_meta s)\<lparr>km_open_flag := flag\<rparr>\<rparr>)"

definition kf_get_open_flag :: "'x kstate \<Rightarrow> usize" where
  "kf_get_open_flag s = km_open_flag (k_meta s)"

definition kf_truncate :: "abi \<Rightarrow> ('d, 'i, 'st, 'x) fs_ops \<Rightarrow> 'd \<Rightarrow> u64 \<Rightarrow> ('x kstate, unit) act" where
  "kf_truncate A F d len =
     bind get_state (\<lambda>s.
     let open_flag = km_open_flag (k_meta s) in
     if \<not> contains open_flag (O_WRONLY A) \<and> \<not> contains open_flag (O_RDWR A) then fail EINVAL
     else bind (in_fs (d_inode F d)) (\<lambda>inode. in_fs (i_truncate F inode len)))"

definition kf_is_readable :: "abi \<Rightarrow> 'x kstate \<Rightarrow> bool" where
  "kf_is_readable A s \<longleftrightarrow> contains (km_open_flag (k_meta s)) (O_RDONLY A)
     \<or> contains (km_open_flag (k_meta s)) (O_RDWR A)"

definition kf_is_writable :: "abi \<Rightarrow> 'x kstate \<Rightarrow> bool" where
  "kf_is_writable A s \<longleftrightarrow> contains (km_open_flag (k_meta s)) (O_WRONLY A)
     \<or> contains (km_open_flag (k_meta s)) (O_RDWR A)"

definition kf_is_append :: "abi \<Rightarrow> 'x kstate \<Rightarrow> bool" where
  "kf_is_append A s \<longleftrightarrow> contains (km_open_flag (k_meta s)) (O_APPEND A)"

definition kf_poll :: "abi \<Rightarrow> ('d, 'i, 'st, 'x) fs_ops \<Rightarrow> 'd \<Rightarrow> u32 \<Rightarrow> ('x kstate, u32) act" where
  "kf_poll A F d event =
     bind (in_fs (d_inode F d)) (\<lambda>inode.
     bind (in_fs (i_poll F inode (from_bits_truncate (VP_ALL A) (ucast event)))) (\<lambda>e.
     ret (from_bits_truncate (EPOLL_ALL A) (ucast e))))"

text \<open>
  The loop of \<open>readdir\<close>. The first argument bounds the number of turns; \<open>None\<close> is a loop that
  has used them up. Every entry takes room in the buffer, so \<open>kf_readdir\<close> allows one turn per
  byte and one more, which \<open>kf_readdir_returns\<close> shows to be enough.
\<close>

fun kf_readdir_loop :: "nat \<Rightarrow> ('d, 'i, 'st, 'x) fs_ops \<Rightarrow> dirent64_ops \<Rightarrow> 'i \<Rightarrow> u8 list \<Rightarrow> nat
    \<Rightarrow> ('x kstate, (u8 list \<times> nat) option) act" where
  "kf_readdir_loop 0 F D inode buf cnt = ret None"
| "kf_readdir_loop (Suc n) F D inode buf cnt =
     bind get_state (\<lambda>s.
     let p = km_pos (k_meta s) in
     bind (attempt (in_fs (i_readdir F inode (unat p)))) (\<lambda>dirent. case dirent of
       Inl e \<Rightarrow> bind (set_pos 0) (\<lambda>_. fail e)
     | Inr None \<Rightarrow> ret (Some (buf, cnt))
     | Inr (Some d) \<Rightarrow>
         let e = \<lparr> de_name = dn_name d, de_ino = dn_ino d, de_off = p, de_ty = de_from_u8 D (dn_ty d) \<rparr> in
         if cnt + de_len D e \<le> length buf then
           bind (lift (copy_into cnt (de_slice D e) buf)) (\<lambda>buf.
           bind (lift (copy_into (cnt + de_name_offset D e) (dn_name d @ [0]) buf)) (\<lambda>buf.
           bind (set_pos (p + 1)) (\<lambda>_.
           kf_readdir_loop n F D inode buf (cnt + de_len D e))))
         else ret (Some (buf, cnt))))"

definition kf_readdir :: "('d, 'i, 'st, 'x) fs_ops \<Rightarrow> dirent64_ops \<Rightarrow> 'd \<Rightarrow> u8 list
    \<Rightarrow> ('x kstate, (u8 list \<times> nat) option) act" where
  "kf_readdir F D d buf =
     bind (must (in_fs (d_inode F d))) (\<lambda>inode. kf_readdir_loop (Suc (length buf)) F D inode buf 0)"

section \<open>Socket files\<close>

record 'n net_ops =
  n_read_at :: "nat \<Rightarrow> u64 \<Rightarrow> u8 list \<Rightarrow> ('n, u8 list \<times> nat) act"
  n_write_at :: "nat \<Rightarrow> u64 \<Rightarrow> u8 list \<Rightarrow> ('n, nat) act"
  n_poll :: "nat \<Rightarrow> u32 \<Rightarrow> ('n, u32) act"
  n_remove_socket :: "nat \<Rightarrow> ('n, unit) act"

record socket_file =
  so_pos :: u64
  so_open_flag :: usize
  so_id :: nat

record 'n sstate =
  s_file :: socket_file
  s_net :: 'n

definition in_net :: "('n, 'a) act \<Rightarrow> ('n sstate, 'a) act" where
  "in_net m = zoom s_net (\<lambda>x s. s\<lparr>s_net := x\<rparr>) m"

definition socket_file_new :: "nat \<Rightarrow> usize \<Rightarrow> socket_file" where
  "socket_file_new sid open_flag = \<lparr> so_pos = 0, so_open_flag = open_flag, so_id = sid \<rparr>"

definition so_read_at :: "abi \<Rightarrow> 'n net_ops \<Rightarrow> u64 \<Rightarrow> u8 list \<Rightarrow> ('n sstate, u8 list \<times> nat) act" where
  "so_read_at A N offset buf =
     (if buf = [] then ret (buf, 0)
      else bind get_state (\<lambda>s.
        let open_flag = so_open_flag (s_file s) in
        if \<not> contains open_flag (O_RDONLY A) \<and> \<not> contains open_flag (O_RDWR A) then fail EPERM
        else in_net (n_read_at N (so_id (s_file s)) offset buf)))"

definition so_write_at :: "abi \<Rightarrow> 'n net_ops \<Rightarrow> u64 \<Rightarrow> u8 list \<Rightarrow> ('n sstate, nat) act" where
  "so_write_at A N offset buf =
     (if buf = [] then ret 0
      else bind get_state (\<lambda>s.
        let open_flag = so_open_flag (s_file s) in
        if \<not> contains open_flag (O_WRONLY A) \<and> \<not> contains open_flag (O_RDWR A) then fail EPERM
        else in_net (n_write_at N (so_id (s_file s)) offset buf)))"

definition so_set_pos :: "u64 \<Rightarrow> ('n sstate, unit) act" where
  "so_set_pos p = modify_state (\<lambda>s. s\<lparr>s_file := (s_file s)\<lparr>so_pos := p\<rparr>\<rparr>)"

definition so_read :: "abi \<Rightarrow> 'n net_ops \<Rightarrow> u8 list \<Rightarrow> ('n sstate, u8 list \<times> nat) act" where
  "so_read A N buf =
     (if buf = [] then ret (buf, 0)
      else bind get_state (\<lambda>s.
        bind (so_read_at A N (so_pos (s_file s)) buf) (\<lambda>(buf, n).
        bind get_state (\<lambda>s.
        bind (so_set_pos (so_pos (s_file s) + of_nat n)) (\<lambda>_. ret (buf, n))))))"

definition so_write :: "abi \<Rightarrow> 'n net_ops \<Rightarrow> u8 list \<Rightarrow> ('n sstate, nat) act" where
  "so_write A N buf =
     (if buf = [] then ret 0
      else bind get_state (\<lambda>s.
        bind (so_write_at A N (so_pos (s_file s)) buf) (\<lambda>n.
        bind get_state (\<lambda>s.
        bind (so_set_pos (so_pos (s_file s) + of_nat n)) (\<lambda>_. ret n)))))"

definition so_get_attr :: "('n sstate, 'st) act" where
  "so_get_attr = fail ENOSYS"

definition so_seek :: "('st \<Rightarrow> u64) \<Rightarrow> seek_from \<Rightarrow> ('n sstate, u64) act" where
  "so_seek file_size p =
     bind so_get_attr (\<lambda>a.
     bind get_state (\<lambda>s.
     bind (lift (ok_or (case p of
         SeekStart x \<Rightarrow> Some x
       | SeekCurrent off \<Rightarrow> checked_add_signed (so_pos (s_file s)) off
       | SeekEnd off \<Rightarrow> checked_add_signed (file_size a) off) EINVAL)) (\<lambda>new_offset.
     bind (so_set_pos new_offset) (\<lambda>_. ret new_offset))))"

definition so_poll :: "'n net_ops \<Rightarrow> u32 \<Rightarrow> ('n sstate, u32) act" where
  "so_poll N event = bind get_state (\<lambda>s. in_net (n_poll N (so_id (s_file s)) event))"

text \<open>\<open>drop\<close> of the last reference: a failing \<open>remove_socket\<close> panics.\<close>

definition so_drop :: "'n net_ops \<Rightarrow> ('n sstate, unit) act" where
  "so_drop N = bind get_state (\<lambda>s. must (in_net (n_remove_socket N (so_id (s_file s)))))"


section \<open>Running the operations\<close>

lemma in_fs_run [act_simps]: "in_fs m s = (case m (k_fs s) of (r, x) \<Rightarrow> (r, s\<lparr>k_fs := x\<rparr>))"
  by (simp add: in_fs_def act_simps)

lemma set_pos_run [act_simps]: "set_pos p s = (Ok (), s\<lparr>k_meta := (k_meta s)\<lparr>km_pos := p\<rparr>\<rparr>)"
  by (simp add: set_pos_def act_simps)

lemmas kf_defs = kf_read_at_def kf_write_at_def kf_read_def kf_write_def kf_flush_def kf_fsync_def
  kf_get_attr_def kf_seek_def kf_truncate_def

text \<open>
  An inode that is a plain file, the documented behaviour of a regular file the read and write
  paths count on: reads return the bytes from the offset on (fewer at the end of the file), a
  write inside or at the end of the file stores all its bytes, the size is the length.
\<close>

definition flat_inode :: "('d, 'i, 'st, 'x) fs_ops \<Rightarrow> 'd \<Rightarrow> ('x \<Rightarrow> u8 list) \<Rightarrow> bool" where
  "flat_inode F d file \<longleftrightarrow> (\<exists>i. \<forall>x. d_inode F d x = (Ok i, x)
     \<and> (\<forall>off buf. i_read_at F i off buf x =
          (let bs = take (length buf) (drop (unat off) (file x)) in (Ok (splice 0 bs buf, length bs), x)))
     \<and> (\<forall>off bs. unat off \<le> length (file x) \<longrightarrow>
          (\<exists>x'. i_write_at F i off bs x = (Ok (length bs), x') \<and> file x' = splice (unat off) bs (file x)))
     \<and> (\<exists>a. i_get_attr F i x = (Ok a, x) \<and> st_size F a = of_nat (length (file x))))"

lemma flat_inodeE:
  assumes "flat_inode F d file"
  obtains i where "\<And>x. d_inode F d x = (Ok i, x)"
    "\<And>off buf x. i_read_at F i off buf x =
       (let bs = take (length buf) (drop (unat off) (file x)) in (Ok (splice 0 bs buf, length bs), x))"
    "\<And>off bs x. unat off \<le> length (file x) \<Longrightarrow>
       \<exists>x'. i_write_at F i off bs x = (Ok (length bs), x') \<and> file x' = splice (unat off) bs (file x)"
    "\<And>x. \<exists>a. i_get_attr F i x = (Ok a, x) \<and> st_size F a = of_nat (length (file x))"
  using assms unfolding flat_inode_def by blast

lemma flat_read:
  assumes "flat_inode F d file" and "contains (km_open_flag (k_meta s)) (O_RDWR A)" and "buf \<noteq> []"
  shows "kf_read A F d buf s =
    (let bs = take (length buf) (drop (unat (km_pos (k_meta s))) (file (k_fs s))) in
     (Ok (splice 0 bs buf, length bs),
      s\<lparr>k_meta := (k_meta s)\<lparr>km_pos := km_pos (k_meta s) + of_nat (length bs)\<rparr>\<rparr>))"
  using assms(1) by (rule flat_inodeE) (use assms(2,3) in \<open>simp add: kf_defs act_simps Let_def\<close>)

lemma flat_read_bytes:
  assumes "flat_inode F d file" and "contains (km_open_flag (k_meta s)) (O_RDWR A)" and "buf \<noteq> []"
    and "kf_read A F d buf s = (Ok (b, n), s')"
  shows "take n b = take (length buf) (drop (unat (km_pos (k_meta s))) (file (k_fs s)))
    \<and> n = min (length buf) (length (file (k_fs s)) - unat (km_pos (k_meta s)))
    \<and> s' = s\<lparr>k_meta := (k_meta s)\<lparr>km_pos := km_pos (k_meta s) + of_nat n\<rparr>\<rparr>"
proof -
  let ?bs = "take (length buf) (drop (unat (km_pos (k_meta s))) (file (k_fs s)))"
  from flat_read [OF assms(1-3)] assms(4) have "b = splice 0 ?bs buf" and n: "n = length ?bs"
    and s': "s' = s\<lparr>k_meta := (k_meta s)\<lparr>km_pos := km_pos (k_meta s) + of_nat n\<rparr>\<rparr>"
    unfolding Let_def by (metis Pair_inject sum.inject(2))+
  then have "take n b = ?bs" by (simp only: take_splice_0)
  with s' n show ?thesis by simp
qed

lemma flat_write:
  assumes "flat_inode F d file" and "contains (km_open_flag (k_meta s)) (O_RDWR A)" and "bs \<noteq> []"
    and "unat (km_pos (k_meta s)) \<le> length (file (k_fs s))"
  shows "\<exists>x'. kf_write A F d bs s = (Ok (length bs),
      s\<lparr>k_fs := x', k_meta := (k_meta s)\<lparr>km_pos := km_pos (k_meta s) + of_nat (length bs)\<rparr>\<rparr>)
    \<and> file x' = splice (unat (km_pos (k_meta s))) bs (file (k_fs s))"
proof -
  from assms(1) obtain i where i: "\<And>x. d_inode F d x = (Ok i, x)"
    and w: "\<And>off bs x. unat off \<le> length (file x) \<Longrightarrow>
       \<exists>x'. i_write_at F i off bs x = (Ok (length bs), x') \<and> file x' = splice (unat off) bs (file x)"
    by (rule flat_inodeE) (rule that; assumption)
  from w [OF assms(4)] obtain x' where
    "i_write_at F i (km_pos (k_meta s)) bs (k_fs s) = (Ok (length bs), x')"
    "file x' = splice (unat (km_pos (k_meta s))) bs (file (k_fs s))" by blast
  with i assms(2,3) show ?thesis by (intro exI [of _ x']) (simp add: kf_defs act_simps)
qed

lemma flat_seek_start:
  assumes "flat_inode F d file"
  shows "kf_seek F d (SeekStart p) s = (Ok p, s\<lparr>k_meta := (k_meta s)\<lparr>km_pos := p\<rparr>\<rparr>)"
proof -
  from assms obtain i where i: "\<And>x. d_inode F d x = (Ok i, x)"
    and a: "\<And>x. \<exists>a. i_get_attr F i x = (Ok a, x) \<and> st_size F a = of_nat (length (file x))"
    by (rule flat_inodeE) (rule that; assumption)
  from a obtain a where "i_get_attr F i (k_fs s) = (Ok a, k_fs s)" by blast
  with i show ?thesis by (simp add: kf_defs act_simps)
qed

text \<open>
  A directory whose entries are \<open>ds\<close>, and the layout of a \<open>Dirent64\<close>: its header and its
  zero-terminated name lie inside its length.
\<close>

definition list_inode :: "('d, 'i, 'st, 'x) fs_ops \<Rightarrow> 'i \<Rightarrow> dirent list \<Rightarrow> bool" where
  "list_inode F i ds \<longleftrightarrow>
     (\<forall>n x. i_readdir F i n x = (Ok (if n < length ds then Some (ds ! n) else None), x))"

definition dirent_layout :: "dirent64_ops \<Rightarrow> bool" where
  "dirent_layout D \<longleftrightarrow> (\<forall>e. 0 < de_len D e \<and> length (de_slice D e) \<le> de_len D e
      \<and> de_name_offset D e + length (de_name e) + 1 \<le> de_len D e)"

definition entry_of :: "dirent64_ops \<Rightarrow> u64 \<Rightarrow> dirent \<Rightarrow> dirent64" where
  "entry_of D p d = \<lparr> de_name = dn_name d, de_ino = dn_ino d, de_off = p, de_ty = de_from_u8 D (dn_ty d) \<rparr>"

text \<open>How many of the entries from a position on fit into a room, and the bytes they take.\<close>

fun fitting :: "dirent64_ops \<Rightarrow> nat \<Rightarrow> u64 \<Rightarrow> dirent list \<Rightarrow> nat \<times> nat" where
  "fitting D room p [] = (0, 0)"
| "fitting D room p (d # ds) =
     (let n = de_len D (entry_of D p d) in
      if n \<le> room then (let (k, m) = fitting D (room - n) (p + 1) ds in (Suc k, n + m)) else (0, 0))"

lemma fitting_le: "fitting D room p ds = (k, m) \<Longrightarrow> k \<le> length ds \<and> m \<le> room"
  by (induction D room p ds arbitrary: k m rule: fitting.induct)
    (auto simp: Let_def split: if_splits prod.splits, fastforce+)

text \<open>The bytes of an entry: over what the buffer held there, the head with inode number, position and
  type, and at its place the name with a terminating zero; and the entries one after another.\<close>

definition dirent_record :: "dirent64_ops \<Rightarrow> u64 \<Rightarrow> dirent \<Rightarrow> u8 list \<Rightarrow> u8 list" where
  "dirent_record D p d old =
     (let e = entry_of D p d
      in splice (de_name_offset D e) (dn_name d @ [0]) (splice 0 (de_slice D e) old))"

fun packed :: "dirent64_ops \<Rightarrow> u64 \<Rightarrow> dirent list \<Rightarrow> u8 list \<Rightarrow> u8 list" where
  "packed D p [] old = old"
| "packed D p (d # ds) old =
     (let n = de_len D (entry_of D p d)
      in dirent_record D p d (take n old) @ packed D (p + 1) ds (drop n old))"

lemma splice_within:
  assumes "i + length src \<le> n" and "c + n \<le> length dst"
  shows "splice (c + i) src dst = take c dst @ splice i src (take n (drop c dst)) @ drop (c + n) dst"
proof -
  have "take (c + i) dst = take c dst @ take i (drop c dst)" by (rule take_add)
  moreover have "drop (c + i + length src) dst
      = drop (i + length src) (take n (drop c dst)) @ drop (c + n) dst"
    using assms append_take_drop_id [of "n - (i + length src)" "drop (c + i + length src) dst"]
    by (simp add: drop_take ac_simps)
  ultimately show ?thesis using assms by (simp add: splice_def min_def add.assoc)
qed

text \<open>The two writes of the loop put the record of an entry at \<open>c\<close>.\<close>

lemma record_written:
  assumes "de_len D e \<le> n" "e = entry_of D p d" "n = de_len D e" "dirent_layout D" "c + n \<le> length buf"
  shows "splice (c + de_name_offset D e) (dn_name d @ [0]) (splice c (de_slice D e) buf)
    = take c buf @ dirent_record D p d (take n (drop c buf)) @ drop (c + n) buf"
proof -
  have l: "length (de_slice D e) \<le> n" "de_name_offset D e + length (dn_name d @ [0]) \<le> n"
    using assms(2-4) unfolding dirent_layout_def by (auto simp: entry_of_def dest: spec [of _ e])
  let ?old = "take n (drop c buf)"
  let ?b = "take c buf @ splice 0 (de_slice D e) ?old @ drop (c + n) buf"
  have len: "length (splice 0 (de_slice D e) ?old) = n" using l(1) assms(5) by simp
  have "splice c (de_slice D e) buf = ?b"
    using splice_within [of 0 "de_slice D e" n c buf] l(1) assms(5) by simp
  moreover have "splice (c + de_name_offset D e) (dn_name d @ [0]) ?b
      = take c ?b @ splice (de_name_offset D e) (dn_name d @ [0]) (take n (drop c ?b)) @ drop (c + n) ?b"
    by (rule splice_within [OF l(2)]) (use assms(5) len in simp)
  ultimately show ?thesis
    using assms(5) len by (simp add: dirent_record_def Let_def assms(2) min_def)
qed

lemma length_dirent_record:
  assumes "dirent_layout D" "length old = de_len D (entry_of D p d)"
  shows "length (dirent_record D p d old) = de_len D (entry_of D p d)"
  using assms unfolding dirent_layout_def
  by (auto simp: dirent_record_def Let_def entry_of_def dest: spec [of _ "entry_of D p d"])

lemma length_packed:
  assumes "dirent_layout D"
  shows "fitting D (length buf) p ds = (k, m) \<Longrightarrow> length (packed D p (take k ds) buf) = length buf"
proof (induction ds arbitrary: p buf k m)
  case (Cons d ds)
  let ?n = "de_len D (entry_of D p d)"
  show ?case
  proof (cases "?n \<le> length buf")
    case True
    then obtain k' m' where "fitting D (length (drop ?n buf)) (p + 1) ds = (k', m')" "k = Suc k'"
      using Cons.prems by (auto simp: Let_def split: prod.splits)
    with True Cons.IH length_dirent_record [OF assms] show ?thesis by (simp add: Let_def)
  qed (use Cons.prems in simp)
qed simp

lemma readdir_loop_spec:
  assumes "list_inode F i ds" and lay: "dirent_layout D"
  shows "unat (km_pos (k_meta s)) \<le> length ds \<Longrightarrow> length ds < 2 ^ 64 \<Longrightarrow>
    fitting D (length buf - cnt) (km_pos (k_meta s)) (drop (unat (km_pos (k_meta s))) ds) = (k, m) \<Longrightarrow>
    cnt \<le> length buf \<Longrightarrow> length buf - cnt < n \<Longrightarrow>
    kf_readdir_loop n F D i buf cnt s
       = (Ok (Some (take cnt buf @ packed D (km_pos (k_meta s)) (take k (drop (unat (km_pos (k_meta s))) ds)) (drop cnt buf),
              cnt + m)), s\<lparr>k_meta := (k_meta s)\<lparr>km_pos := km_pos (k_meta s) + of_nat k\<rparr>\<rparr>)"
proof (induction n arbitrary: buf cnt s k m)
  case (Suc n)
  let ?p = "km_pos (k_meta s)"
  have rd: "i_readdir F i (unat ?p) x = (Ok (if unat ?p < length ds then Some (ds ! unat ?p) else None), x)" for x
    using assms(1) by (simp add: list_inode_def)
  show ?case
  proof (cases "unat ?p < length ds")
    case False
    with Suc.prems rd show ?thesis by (simp add: act_simps Let_def)
  next
    case True
    let ?d = "ds ! unat ?p"
    let ?e = "entry_of D ?p ?d"
    have dr: "drop (unat ?p) ds = ?d # drop (Suc (unat ?p)) ds"
      using True by (simp add: Cons_nth_drop_Suc)
    show ?thesis
    proof (cases "cnt + de_len D ?e \<le> length buf")
      case False
      then have "\<not> de_len D ?e \<le> length buf - cnt" using Suc.prems(4) by simp
      then have "k = 0" "m = 0" using Suc.prems(3) unfolding dr by simp_all
      with rd True False show ?thesis by (simp add: act_simps entry_of_def Let_def)
    next
      case fits: True
      from lay have l: "0 < de_len D ?e" "length (de_slice D ?e) \<le> de_len D ?e"
        "de_name_offset D ?e + length (dn_name ?d) + 1 \<le> de_len D ?e"
        unfolding dirent_layout_def by (auto simp: entry_of_def dest: spec [of _ ?e])
      let ?b1 = "splice cnt (de_slice D ?e) buf"
      let ?b2 = "splice (cnt + de_name_offset D ?e) (dn_name ?d @ [0]) ?b1"
      have b1: "length ?b1 = length buf" using l fits by simp
      have b2: "length ?b2 = length buf" using l fits b1 by simp
      have p1: "unat (?p + 1) = Suc (unat ?p)"
        using True Suc.prems(2) by (subst unat_add_lem [THEN iffD1]) auto
      let ?s = "s\<lparr>k_meta := (k_meta s)\<lparr>km_pos := ?p + 1\<rparr>\<rparr>"
      obtain k' m' where f: "fitting D (length buf - (cnt + de_len D ?e)) (?p + 1) (drop (Suc (unat ?p)) ds) = (k', m')"
        "k = Suc k'" "m = de_len D ?e + m'"
        using Suc.prems(3) fits l(1) unfolding dr
        by (auto simp: Let_def split: prod.splits if_splits)
      have step: "kf_readdir_loop (Suc n) F D i buf cnt s = kf_readdir_loop n F D i ?b2 (cnt + de_len D ?e) ?s"
        using rd True fits l b1 by (simp add: act_simps Let_def copy_into_def entry_of_def)
      have b2_eq: "?b2 = take cnt buf @ dirent_record D ?p ?d (take (de_len D ?e) (drop cnt buf))
          @ drop (cnt + de_len D ?e) buf"
        by (rule record_written [OF _ refl refl lay fits]) simp
      have rl: "length (dirent_record D ?p ?d (take (de_len D ?e) (drop cnt buf))) = de_len D ?e"
        by (rule length_dirent_record [OF lay]) (use fits in simp)
      have "kf_readdir_loop n F D i ?b2 (cnt + de_len D ?e) ?s
          = (Ok (Some (take (cnt + de_len D ?e) ?b2 @ packed D (?p + 1) (take k' (drop (Suc (unat ?p)) ds))
                (drop (cnt + de_len D ?e) ?b2), (cnt + de_len D ?e) + m')),
             ?s\<lparr>k_meta := (k_meta ?s)\<lparr>km_pos := km_pos (k_meta ?s) + of_nat k'\<rparr>\<rparr>)"
        using Suc.IH [where s = ?s and buf = ?b2 and cnt = "cnt + de_len D ?e" and k = k' and m = m']
          f(1) p1 True Suc.prems(2,4,5) fits l(1) b2 by simp
      then show ?thesis
        unfolding step f(2,3) dr using fits rl by (simp add: b2_eq ac_simps Let_def)
    qed
  qed
qed simp

text \<open>An in-memory file, on which the witnesses run.\<close>

definition mem_fs :: "(unit, unit, u64, u8 list) fs_ops" where
  "mem_fs = \<lparr> d_inode = (\<lambda>d. ret ()),
     i_read_at = (\<lambda>i off buf x. let bs = take (length buf) (drop (unat off) x)
                                in (Ok (splice 0 bs buf, length bs), x)),
     i_write_at = (\<lambda>i off bs x. (Ok (length bs), splice (unat off) bs x)),
     i_flush = (\<lambda>i. ret ()), i_fsync = (\<lambda>i. ret ()),
     i_get_attr = (\<lambda>i x. (Ok (of_nat (length x)), x)),
     i_ioctl = (\<lambda>i c a. fail ENOSYS), i_truncate = (\<lambda>i n x. (Ok (), take (unat n) x)),
     i_poll = (\<lambda>i e. ret e), i_readdir = (\<lambda>i n. fail ENOTDIR), st_size = (\<lambda>a. a) \<rparr>"

definition sample_kstate :: "usize \<Rightarrow> u64 \<Rightarrow> u8 list \<Rightarrow> u8 list kstate" where
  "sample_kstate f p c = \<lparr> k_meta = kmeta_new p f 0 0 [], k_fs = c \<rparr>"

lemma mem_fs_flat: "flat_inode mem_fs () (\<lambda>x. x)"
  by (simp add: flat_inode_def mem_fs_def act_simps)

section \<open>Properties\<close>

text \<open>On a regular file opened for reading and writing, writing bytes at the position, seeking
  back and reading as many bytes returns exactly the bytes written; the write replaces the bytes of
  the file from the position on (extending it at the end) and nothing else, and both the write and
  the read leave the position behind the bytes they moved.\<close>

theorem kf_write_seek_read:
  assumes flat: "flat_inode F d file" and rw: "contains (km_open_flag (k_meta s)) (O_RDWR A)"
    and "bs \<noteq> []" and "length buf = length bs"
    and "unat (km_pos (k_meta s)) \<le> length (file (k_fs s))"
  shows "let p = km_pos (k_meta s); end_pos = p + of_nat (length bs) in
    \<exists>s1 s2 s3. kf_write A F d bs s = (Ok (length bs), s1) \<and> km_pos (k_meta s1) = end_pos
      \<and> file (k_fs s1) = splice (unat p) bs (file (k_fs s))
      \<and> kf_seek F d (SeekStart p) s1 = (Ok p, s2) \<and> km_pos (k_meta s2) = p
      \<and> kf_read A F d buf s2 = (Ok (bs, length bs), s3)
      \<and> km_pos (k_meta s3) = end_pos \<and> file (k_fs s3) = file (k_fs s1)"
proof -
  let ?p = "km_pos (k_meta s)"
  obtain x' where w: "kf_write A F d bs s = (Ok (length bs),
      s\<lparr>k_fs := x', k_meta := (k_meta s)\<lparr>km_pos := ?p + of_nat (length bs)\<rparr>\<rparr>)"
    and x': "file x' = splice (unat ?p) bs (file (k_fs s))"
    using flat_write [OF flat rw assms(3,5)] by blast
  have t: "take (length buf) (drop (unat ?p) (file x')) = bs"
    using assms(4,5) by (simp add: x' splice_def)
  have sp: "splice 0 bs buf = bs" using assms(4) by (simp add: splice_def)
  let ?s1 = "s\<lparr>k_fs := x', k_meta := (k_meta s)\<lparr>km_pos := ?p + of_nat (length bs)\<rparr>\<rparr>"
  let ?s2 = "?s1\<lparr>k_meta := (k_meta ?s1)\<lparr>km_pos := ?p\<rparr>\<rparr>"
  let ?s3 = "?s2\<lparr>k_meta := (k_meta ?s2)\<lparr>km_pos := ?p + of_nat (length bs)\<rparr>\<rparr>"
  have r: "kf_read A F d buf ?s2 = (Ok (bs, length bs), ?s3)"
  proof -
    have "buf \<noteq> []" using assms(3,4) by auto
    from flat_read [OF flat _ this, of ?s2 A] rw t sp show ?thesis
      by (simp only: Let_def) simp
  qed
  show ?thesis
    unfolding Let_def
    by (rule exI [of _ ?s1], rule exI [of _ ?s2], rule exI [of _ ?s3])
      (use w x' r flat_seek_start [OF flat, of ?p ?s1] in simp)
qed

theorem kf_write_seek_read_witness:
  "\<exists>s1 s2 s3. kf_write linux_abi mem_fs () [7, 8] (sample_kstate 2 1 [1, 2, 3, 4]) = (Ok 2, s1)
      \<and> k_fs s1 = [1, 7, 8, 4] \<and> kf_seek mem_fs () (SeekStart 1) s1 = (Ok 1, s2)
      \<and> kf_read linux_abi mem_fs () [0, 0] s2 = (Ok ([7, 8], 2), s3)"
  using kf_write_seek_read [OF mem_fs_flat, of "sample_kstate 2 1 [1, 2, 3, 4]" linux_abi "[7, 8]" "[0, 0]"]
  by (auto simp: sample_kstate_def kmeta_new_def splice_def eval_nat_numeral)

text \<open>Consecutive reads of a regular file deliver its bytes in order, without gap or overlap:
  the bytes of two reads put together are the bytes one read of the combined length would deliver
  from the first position.\<close>

theorem kf_sequential_reads:
  assumes flat: "flat_inode F d file" and rw: "contains (km_open_flag (k_meta s)) (O_RDWR A)"
    and "buf1 \<noteq> []" and "buf2 \<noteq> []" and "length (file (k_fs s)) < 2 ^ 64"
    and r1: "kf_read A F d buf1 s = (Ok (b1, n1), s1)" and r2: "kf_read A F d buf2 s1 = (Ok (b2, n2), s2)"
    and "n1 = length buf1"
  shows "take n1 b1 @ take n2 b2
    = take (length buf1 + length buf2) (drop (unat (km_pos (k_meta s))) (file (k_fs s)))"
proof -
  let ?p = "km_pos (k_meta s)" and ?c = "file (k_fs s)"
  note 1 = flat_read_bytes [OF flat rw \<open>buf1 \<noteq> []\<close> r1]
  have "unat ?p + n1 \<le> length ?c"
    using 1 \<open>n1 = length buf1\<close> \<open>buf1 \<noteq> []\<close> by (cases "unat ?p \<le> length ?c") auto
  moreover have "unat (of_nat n1 :: u64) = n1" "unat (?p + of_nat n1) = unat ?p + n1"
  proof -
    show n1: "unat (of_nat n1 :: u64) = n1"
      using calculation assms(5) by (simp add: unat_of_nat)
    then show "unat (?p + of_nat n1) = unat ?p + n1"
      using calculation assms(5) by (simp add: unat_add_lem [THEN iffD1])
  qed
  moreover have "take n2 b2 = take (length buf2) (drop (unat (?p + of_nat n1)) ?c)"
  proof -
    have s1: "k_fs s1 = k_fs s" "km_pos (k_meta s1) = ?p + of_nat n1"
      "contains (km_open_flag (k_meta s1)) (O_RDWR A)" using 1 rw by simp_all
    show ?thesis
      using flat_read_bytes [OF flat s1(3) \<open>buf2 \<noteq> []\<close> r2, THEN conjunct1] unfolding s1(1,2) .
  qed
  ultimately have "take n2 b2 = take (length buf2) (drop (unat ?p + n1) ?c)" by simp
  moreover have "take n1 b1 = take n1 (drop (unat ?p) ?c)" using 1 \<open>n1 = length buf1\<close> by simp
  ultimately show ?thesis by (simp add: take_add \<open>n1 = length buf1\<close> add.commute)
qed


theorem kf_sequential_reads_witness:
  "\<exists>b1 b2 s1 s2. kf_read linux_abi mem_fs () [0, 0] (sample_kstate 2 1 [1, 2, 3, 4]) = (Ok (b1, 2), s1)
     \<and> kf_read linux_abi mem_fs () [0, 0] s1 = (Ok (b2, 1), s2)
     \<and> take 2 b1 @ take 1 b2 = [2, 3, 4]"
proof -
  let ?s = "sample_kstate 2 1 [1, 2, 3, 4]" and ?s1 = "sample_kstate 2 3 [1, 2, 3, 4]"
    and ?s2 = "sample_kstate 2 4 [1, 2, 3, 4]"
  have rw: "contains (km_open_flag (k_meta ?s)) (O_RDWR linux_abi)"
    by (simp add: sample_kstate_def kmeta_new_def)
  have 1: "kf_read linux_abi mem_fs () [0, 0] ?s = (Ok ([2, 3], 2), ?s1)"
    and 2: "kf_read linux_abi mem_fs () [0, 0] ?s1 = (Ok ([4, 0], 1), ?s2)"
    by (simp_all add: kf_defs act_simps mem_fs_def sample_kstate_def kmeta_new_def splice_def contains_def)
  have "take 2 [2, 3] @ take 1 [4, 0::u8] = [2, 3, 4]"
    using kf_sequential_reads [OF mem_fs_flat rw _ _ _ 1 2]
    by (simp add: sample_kstate_def kmeta_new_def)
  with 1 2 show ?thesis by blast
qed

text \<open>The access mode of a kernel file guards its writing operations: without O_WRONLY and
  O_RDWR a non-empty write, a flush and a sync fail with EPERM and a truncation with EINVAL, the
  file system not being called. It does not guard reading: because O_RDONLY is 0 the test for it
  always succeeds, so a read of a write-only file reaches the inode exactly as one of a readable file.\<close>

theorem kf_access_modes:
  assumes "O_RDONLY A = 0" and "buf \<noteq> []"
  shows "(\<not> contains (km_open_flag (k_meta s)) (O_WRONLY A) \<and> \<not> contains (km_open_flag (k_meta s)) (O_RDWR A) \<longrightarrow>
       kf_write_at A F d off buf s = (Err EPERM, s) \<and> kf_write A F d buf s = (Err EPERM, s)
       \<and> kf_flush A F d s = (Err EPERM, s) \<and> kf_fsync A F d s = (Err EPERM, s)
       \<and> kf_truncate A F d n s = (Err EINVAL, s))
    \<and> fst (kf_read_at A F d off buf s)
        = fst (kf_read_at A F d off buf (snd (kf_set_open_flag flag s)))
    \<and> kf_is_readable A s"
proof (intro conjI impI)
  show "fst (kf_read_at A F d off buf s) = fst (kf_read_at A F d off buf (snd (kf_set_open_flag flag s)))"
    using assms by (simp add: kf_read_at_def act_simps kf_set_open_flag_def split: prod.splits sum.splits)
  show "kf_is_readable A s" using assms by (simp add: kf_is_readable_def)
qed (use assms in \<open>simp_all add: kf_write_at_def kf_write_def kf_flush_def kf_fsync_def kf_truncate_def act_simps\<close>)

theorem kf_access_modes_witness:
  "fst (kf_read_at linux_abi mem_fs () 0 [0, 0] (sample_kstate 1 0 [5, 6])) = Ok ([5, 6], 2)
   \<and> kf_write linux_abi mem_fs () [9] (sample_kstate 0 0 [5, 6]) = (Err EPERM, sample_kstate 0 0 [5, 6])"
proof -
  have "fst (kf_read_at linux_abi mem_fs () 0 [0, 0] (sample_kstate 0 0 [5, 6])) = Ok ([5, 6], 2)"
    by (simp add: kf_defs act_simps mem_fs_def sample_kstate_def splice_def)
  moreover have "snd (kf_set_open_flag 0 (sample_kstate 1 0 [5, 6])) = sample_kstate 0 0 [5, 6]"
    by (simp add: kf_set_open_flag_def act_simps sample_kstate_def kmeta_new_def)
  ultimately show ?thesis
    using kf_access_modes [of linux_abi "[0, 0]" "sample_kstate 1 0 [5, 6]" mem_fs "()" 0 0 0]
      kf_access_modes [of linux_abi "[9]" "sample_kstate 0 0 [5, 6]" mem_fs "()" 0 0 0]
    by (simp add: sample_kstate_def kmeta_new_def contains_def)
qed

text \<open>Seeking computes the new offset over the integers: relative to the start, the position
  or the size, it succeeds exactly when the sum is a 64-bit unsigned number and then is the new
  position; otherwise it fails with EINVAL and the position stays.\<close>

theorem kf_seek_spec:
  assumes flat: "flat_inode F d file"
  shows "let base = (case p of SeekStart x \<Rightarrow> uint x
                     | SeekCurrent off \<Rightarrow> uint (km_pos (k_meta s)) + sint off
                     | SeekEnd off \<Rightarrow> uint (of_nat (length (file (k_fs s))) :: u64) + sint off) in
    if 0 \<le> base \<and> base < 2 ^ 64
    then \<exists>q. uint q = base \<and> kf_seek F d p s = (Ok q, s\<lparr>k_meta := (k_meta s)\<lparr>km_pos := q\<rparr>\<rparr>)
    else kf_seek F d p s = (Err EINVAL, s)"
proof -
  from flat obtain i where i: "\<And>x. d_inode F d x = (Ok i, x)"
    and a: "\<And>x. \<exists>a. i_get_attr F i x = (Ok a, x) \<and> st_size F a = of_nat (length (file x))"
    by (rule flat_inodeE) (rule that; assumption)
  from a obtain a where a: "i_get_attr F i (k_fs s) = (Ok a, k_fs s)"
    "st_size F a = of_nat (length (file (k_fs s)))" by blast
  have run: "kf_seek F d p s = (case (case p of
         SeekStart x \<Rightarrow> Some x
       | SeekCurrent off \<Rightarrow> checked_add_signed (km_pos (k_meta s)) off
       | SeekEnd off \<Rightarrow> checked_add_signed (of_nat (length (file (k_fs s)))) off) of
     None \<Rightarrow> (Err EINVAL, s) | Some q \<Rightarrow> (Ok q, s\<lparr>k_meta := (k_meta s)\<lparr>km_pos := q\<rparr>\<rparr>))"
    using i a by (cases p) (simp_all add: kf_defs act_simps split: option.splits)
  have add: "let base = uint b + sint off in
      if 0 \<le> base \<and> base < 2 ^ 64
      then \<exists>q. uint q = base \<and> (case checked_add_signed b off of None \<Rightarrow> (Err EINVAL, s)
             | Some q \<Rightarrow> (Ok q, s\<lparr>k_meta := (k_meta s)\<lparr>km_pos := q\<rparr>\<rparr>))
           = (Ok q, s\<lparr>k_meta := (k_meta s)\<lparr>km_pos := q\<rparr>\<rparr>)
      else (case checked_add_signed b off of None \<Rightarrow> (Err EINVAL, s)
             | Some q \<Rightarrow> (Ok q, s\<lparr>k_meta := (k_meta s)\<lparr>km_pos := q\<rparr>\<rparr>)) = (Err EINVAL, s)" for b off
    by (rule checked_add_signed_cases [of b off]) (auto simp: Let_def)
  show ?thesis
  proof (cases p)
    case (SeekStart x)
    then show ?thesis using run unsigned_less [of x, where ?'a = int] by simp
  next
    case (SeekEnd off)
    show ?thesis unfolding run using add [of "of_nat (length (file (k_fs s)))" off] by (simp only: SeekEnd seek_from.case)
  next
    case (SeekCurrent off)
    show ?thesis unfolding run using add [of "km_pos (k_meta s)" off] by (simp only: SeekCurrent seek_from.case)
  qed
qed

theorem kf_seek_spec_witness:
  "kf_seek mem_fs () (SeekEnd (- 3)) (sample_kstate 2 0 [1, 2]) = (Err EINVAL, sample_kstate 2 0 [1, 2])
   \<and> fst (kf_seek mem_fs () (SeekCurrent (- 1)) (sample_kstate 2 1 [1, 2])) = Ok 0"
proof -
  have "kf_seek mem_fs () (SeekEnd (- 3)) (sample_kstate 2 0 [1, 2]) = (Err EINVAL, sample_kstate 2 0 [1, 2])"
    using kf_seek_spec [OF mem_fs_flat, of "sample_kstate 2 0 [1, 2]" "SeekEnd (- 3)"]
    by (simp add: sample_kstate_def kmeta_new_def)
  moreover have "fst (kf_seek mem_fs () (SeekCurrent (- 1)) (sample_kstate 2 1 [1, 2])) = Ok 0"
    using kf_seek_spec [OF mem_fs_flat, of "sample_kstate 2 1 [1, 2]" "SeekCurrent (- 1)"]
    by (auto simp: sample_kstate_def kmeta_new_def word_uint_eq_iff)
  ultimately show ?thesis by simp
qed


text \<open>C9: Reading a directory fills the buffer with the longest run of entries, from the position
  on, that fits as a whole: their records (number, position, type and name of each) stand one after
  another from the start of the buffer, the bytes behind them and between a name and the next record
  are as they were. It reports the bytes the records take and moves the position behind them, so that
  the next call goes on where this one ended; the loop always ends and never writes out of the
  buffer. (A return of 0 is the end of the directory, or a buffer too small for the next entry.)\<close>

theorem kf_readdir_spec:
  assumes "\<And>x. d_inode F d x = (Ok i, x)" and "list_inode F i ds" and "dirent_layout D"
    and "unat (km_pos (k_meta s)) \<le> length ds" and "length ds < 2 ^ 64"
  shows "let p = km_pos (k_meta s); (k, m) = fitting D (length buf) p (drop (unat p) ds) in
    \<exists>buf'. kf_readdir F D d buf s = (Ok (Some (buf', m)), s\<lparr>k_meta := (k_meta s)\<lparr>km_pos := p + of_nat k\<rparr>\<rparr>)
      \<and> buf' = packed D p (take k (drop (unat p) ds)) buf
      \<and> length buf' = length buf \<and> m \<le> length buf \<and> unat p + k \<le> length ds"
proof -
  let ?p = "km_pos (k_meta s)"
  obtain k m where f: "fitting D (length buf) ?p (drop (unat ?p) ds) = (k, m)" by fastforce
  have "kf_readdir_loop (Suc (length buf)) F D i buf 0 s
      = (Ok (Some (packed D ?p (take k (drop (unat ?p) ds)) buf, m)), s\<lparr>k_meta := (k_meta s)\<lparr>km_pos := ?p + of_nat k\<rparr>\<rparr>)"
    using readdir_loop_spec [OF assms(2,3,4,5), of buf 0 k m "Suc (length buf)"] f by simp
  moreover have "k \<le> length (drop (unat ?p) ds)" "m \<le> length buf" using fitting_le [OF f] by auto
  moreover have "length (packed D ?p (take k (drop (unat ?p) ds)) buf) = length buf"
    using length_packed [OF assms(3) f] .
  ultimately show ?thesis
    using f assms(1,4) by (auto simp: kf_readdir_def act_simps simp del: kf_readdir_loop.simps)
qed

definition sample_dirents :: dirent64_ops where
  "sample_dirents = \<lparr> de_len = (\<lambda>e. length (de_name e) + 3), de_slice = (\<lambda>e. [ucast (de_ino e), ucast (de_off e)]),
     de_name_offset = (\<lambda>e. 2), de_from_u8 = (\<lambda>t. t) \<rparr>"

definition sample_dir :: "dirent list \<Rightarrow> (unit, unit, u64, u8 list) fs_ops" where
  "sample_dir ds = mem_fs\<lparr>i_readdir := (\<lambda>i n. ret (if n < length ds then Some (ds ! n) else None))\<rparr>"

definition sample_entries :: "dirent list" where
  "sample_entries = [\<lparr>dn_name = [65], dn_ino = 1, dn_ty = 0\<rparr>, \<lparr>dn_name = [66], dn_ino = 2, dn_ty = 0\<rparr>,
     \<lparr>dn_name = [67], dn_ino = 3, dn_ty = 0\<rparr>]"

definition sample_buf :: "u8 list" where
  "sample_buf = replicate 10 7"

lemma sample_packed:
  "fitting sample_dirents (length sample_buf) 1 (drop (Suc 0) sample_entries) = (2, 8)"
  "packed sample_dirents 1 (drop (Suc 0) sample_entries) sample_buf = [2, 1, 66, 0, 3, 2, 67, 0, 7, 7]"
  "length sample_entries = 3"
  by code_simp+

theorem kf_readdir_spec_witness:
  "kf_readdir (sample_dir sample_entries) sample_dirents () sample_buf (sample_kstate 0 1 [])
    = (Ok (Some ([2, 1, 66, 0, 3, 2, 67, 0, 7, 7], 8)), sample_kstate 0 3 [])"
proof -
  have 1: "d_inode (sample_dir sample_entries) () x = (Ok (), x)" for x
    by (simp add: sample_dir_def mem_fs_def act_simps)
  have 2: "list_inode (sample_dir sample_entries) () sample_entries"
    by (simp add: list_inode_def sample_dir_def act_simps)
  have 3: "dirent_layout sample_dirents" by (simp add: dirent_layout_def sample_dirents_def)
  have 4: "km_pos (k_meta (sample_kstate 0 1 [])) = 1"
    "(k_meta (sample_kstate 0 1 []))\<lparr>km_pos := 3\<rparr> = k_meta (sample_kstate 0 3 [])"
    "(sample_kstate 0 1 [])\<lparr>k_meta := k_meta (sample_kstate 0 3 [])\<rparr> = sample_kstate 0 3 []"
    by (simp_all add: sample_kstate_def kmeta_new_def)
  show ?thesis
    using kf_readdir_spec [OF 1 2 3, of "sample_kstate 0 1 []" sample_buf]
    by (simp add: 4 sample_packed)
qed

end
