(* ===== verification/NetStack.thy ===== *)
theory NetStack
  imports KFile
begin

text \<open>
  The network stack domain (\<open>common/net_stack/net_stack/src\<close>): the table of sockets by id, the
  sockets (a connection of \<open>lose_net_stack\<close> with the bytes a short read left over) and the socket
  pairs, and the interrupt handler that feeds packets of the network card to the server. The server,
  its connections and the card are a record of operations on their state; of a connection the domain
  holds a reference, a value of type \<open>'k\<close>.
\<close>

unbundle bit_operations_syntax

section \<open>What the domain is given\<close>

abbreviation EBLOCKING :: errno where "EBLOCKING \<equiv> Eother 1"
abbreviation ECONNRESET :: errno where "ECONNRESET \<equiv> Eother 2"
abbreviation ECONNREFUSED :: errno where "ECONNREFUSED \<equiv> Eother 3"
abbreviation EADDRINUSE :: errno where "EADDRINUSE \<equiv> Eother 4"
abbreviation EALREADY :: errno where "EALREADY \<equiv> Eother 5"

text \<open>\<open>SocketAddrV4\<close>: address and port; \<open>SocketAddrIn\<close> with its family, the port in network order.\<close>

type_synonym sock_addr = "u32 \<times> 16 word"

record sockaddr_in =
  sin_family :: "16 word"
  sin_port :: "16 word"
  sin_addr :: u32

datatype socket_type = SOCK_STREAM | SOCK_DGRAM | SOCK_RAW | SOCK_OTHER

datatype net_protocol = TCP | UDP | RAW

datatype net_error =
    Unsupported | EmptyClient | EmptyData | NoUdpRemoteAddress | ServerNotExists | PortWasUsed | Blocking

text \<open>A call into \<open>lose_net_stack\<close>.\<close>

type_synonym ('n, 'a) net_call = "'n \<Rightarrow> (net_error + 'a) \<times> 'n"

text \<open>\<open>SocketInterface\<close>, and the number of references to a connection that the server itself holds.\<close>

record ('n, 'k) conn_ops =
  cn_recv_from :: "'k \<Rightarrow> ('n, u8 list \<times> sock_addr) net_call"
  cn_sendto :: "'k \<Rightarrow> u8 list \<Rightarrow> sock_addr option \<Rightarrow> ('n, nat) net_call"
  cn_bind :: "'k \<Rightarrow> sock_addr \<Rightarrow> ('n, unit) net_call"
  cn_listen :: "'k \<Rightarrow> ('n, unit) net_call"
  cn_accept :: "'k \<Rightarrow> ('n, 'k) net_call"
  cn_connect :: "'k \<Rightarrow> sock_addr \<Rightarrow> ('n, unit) net_call"
  cn_close :: "'k \<Rightarrow> ('n, unit) net_call"
  cn_get_local :: "'k \<Rightarrow> ('n, sock_addr) net_call"
  cn_get_remote :: "'k \<Rightarrow> ('n, sock_addr) net_call"
  cn_readable :: "'k \<Rightarrow> ('n, bool) net_call"
  cn_is_closed :: "'k \<Rightarrow> ('n, bool) net_call"
  cn_protocol :: "'k \<Rightarrow> ('n, net_protocol) net_call"
  cn_server_refs :: "'k \<Rightarrow> 'n \<Rightarrow> nat"

text \<open>\<open>NetServer\<close>.\<close>

record ('n, 'k) server_ops =
  sv_blank_tcp :: "'n \<Rightarrow> 'k \<times> 'n"
  sv_blank_udp :: "'n \<Rightarrow> 'k \<times> 'n"
  sv_tcp_is_used :: "16 word \<Rightarrow> 'n \<Rightarrow> bool"
  sv_udp_is_used :: "16 word \<Rightarrow> 'n \<Rightarrow> bool"
  sv_get_tcp :: "16 word \<Rightarrow> 'n \<Rightarrow> 'k option"
  sv_get_udp :: "16 word \<Rightarrow> 'n \<Rightarrow> 'k option"
  sv_analysis :: "u8 list \<Rightarrow> ('n, unit) act"

text \<open>The network card (\<open>NetDeviceDomain\<close>).\<close>

record 'n nic_ops =
  nic_handle_irq :: "('n, unit) act"
  nic_can_receive :: "('n, bool) act"
  nic_receive :: "u8 list \<Rightarrow> ('n, u8 list \<times> nat) act"

record ('n, 'k) stack_env =
  st_conn :: "('n, 'k) conn_ops"
  st_server :: "('n, 'k) server_ops"
  st_nic :: "'n nic_ops"
  st_uninit :: "nat \<Rightarrow> u8 list"
  st_in :: u32                               \<comment> \<open>\<open>EPOLLIN\<close>\<close>
  st_out :: u32                              \<comment> \<open>\<open>EPOLLOUT\<close>\<close>
  AF_INET :: "16 word"

definition to_alien_error :: "net_error \<Rightarrow> errno" where
  "to_alien_error e = (case e of
     Unsupported \<Rightarrow> ENOSYS | EmptyClient \<Rightarrow> ECONNRESET | EmptyData \<Rightarrow> EBLOCKING | NoUdpRemoteAddress \<Rightarrow> EINVAL
   | ServerNotExists \<Rightarrow> ECONNREFUSED | PortWasUsed \<Rightarrow> EADDRINUSE | Blocking \<Rightarrow> EBLOCKING)"

text \<open>\<open>to_be\<close> of a \<open>u16\<close>, on a little endian machine.\<close>

definition to_be :: "16 word \<Rightarrow> 16 word" where
  "to_be p = push_bit 8 p OR drop_bit 8 p"

section \<open>Sockets\<close>

record 'k net_socket =
  ns_stype :: socket_type
  ns_inner :: 'k
  ns_wsize :: nat
  ns_rsize :: nat
  ns_buf :: "u8 list"

text \<open>\<open>dyn SocketFile\<close>. The queue of a pair is shared by nobody but its table entry.\<close>

datatype 'k sock_file = SockFile "'k net_socket" | PairFile "u8 list"

record ('n, 'k) net_state =
  nt_map :: "(nat, 'k sock_file) btree"        \<comment> \<open>\<open>SOCKET_MAP\<close>\<close>
  nt_next :: nat                               \<comment> \<open>\<open>SOCKET_ID\<close>\<close>
  nt_world :: 'n

definition in_server :: "('n, 'a) act \<Rightarrow> (('n, 'k) net_state, 'a) act" where
  "in_server = zoom nt_world (\<lambda>w s. s\<lparr>nt_world := w\<rparr>)"

text \<open>A call whose error is handed to the caller as \<open>e\<close>, and one that is unwrapped.\<close>

definition conn_call :: "(net_error \<Rightarrow> 'a res) \<Rightarrow> ('n, 'a) net_call \<Rightarrow> (('n, 'k) net_state, 'a) act" where
  "conn_call f m = in_server (\<lambda>w. case m w of (Inl e, w') \<Rightarrow> (f e, w') | (Inr x, w') \<Rightarrow> (Ok x, w'))"

abbreviation conn_unwrap :: "('n, 'a) net_call \<Rightarrow> (('n, 'k) net_state, 'a) act" where
  "conn_unwrap \<equiv> conn_call (\<lambda>_. panic)"

definition socket_new_with_inner :: "socket_type \<Rightarrow> 'k \<Rightarrow> 'k net_socket" where
  "socket_new_with_inner ty inner =
     \<lparr> ns_stype = ty, ns_inner = inner, ns_wsize = 0, ns_rsize = 0, ns_buf = [] \<rparr>"

definition socket_new :: "('n, 'k) stack_env \<Rightarrow> socket_type \<Rightarrow> (('n, 'k) net_state, 'k net_socket) act" where
  "socket_new E ty = (case ty of
       SOCK_STREAM \<Rightarrow> bind (in_server (\<lambda>w. case sv_blank_tcp (st_server E) w of (k, w') \<Rightarrow> (Ok k, w')))
         (\<lambda>k. ret (socket_new_with_inner ty k))
     | SOCK_DGRAM \<Rightarrow> bind (in_server (\<lambda>w. case sv_blank_udp (st_server E) w of (k, w') \<Rightarrow> (Ok k, w')))
         (\<lambda>k. ret (socket_new_with_inner ty k))
     | _ \<Rightarrow> abort)"

definition socket_recv_from :: "('n, 'k) stack_env \<Rightarrow> 'k net_socket
    \<Rightarrow> (('n, 'k) net_state, u8 list \<times> sock_addr) act" where
  "socket_recv_from E so =
     bind (conn_unwrap (cn_get_local (st_conn E) (ns_inner so))) (\<lambda>_.
     conn_call (\<lambda>_. Err EBLOCKING) (cn_recv_from (st_conn E) (ns_inner so)))"

definition socket_reuse :: "('n, 'k) stack_env \<Rightarrow> 'k net_socket \<Rightarrow> 16 word \<Rightarrow> (('n, 'k) net_state, 'k net_socket) act" where
  "socket_reuse E so port =
     bind (conn_unwrap (cn_protocol (st_conn E) (ns_inner so))) (\<lambda>p.
     bind get_state (\<lambda>s. case (case p of
         TCP \<Rightarrow> sv_get_tcp (st_server E) port (nt_world s)
       | UDP \<Rightarrow> sv_get_udp (st_server E) port (nt_world s)
       | RAW \<Rightarrow> None) of
       None \<Rightarrow> abort
     | Some k \<Rightarrow> ret (so\<lparr>ns_inner := k, ns_buf := []\<rparr>)))"

definition socket_write_at :: "('n, 'k) stack_env \<Rightarrow> 'k net_socket \<Rightarrow> u8 list
    \<Rightarrow> (('n, 'k) net_state, nat \<times> 'k net_socket) act" where
  "socket_write_at E so buffer =
     bind (conn_call (\<lambda>_. Err EACCES) (cn_sendto (st_conn E) (ns_inner so) buffer None)) (\<lambda>len.
     ret (len, so\<lparr>ns_wsize := ns_wsize so + len\<rparr>))"

definition socket_read_at :: "('n, 'k) stack_env \<Rightarrow> 'k net_socket \<Rightarrow> u8 list
    \<Rightarrow> (('n, 'k) net_state, (u8 list \<times> nat) \<times> 'k net_socket) act" where
  "socket_read_at E so buffer =
     bind (if ns_buf so = []
           then bind (conn_call (\<lambda>_. Err EBLOCKING) (cn_recv_from (st_conn E) (ns_inner so))) (\<lambda>(recv_data, _). ret recv_data)
           else ret (ns_buf so)) (\<lambda>data.
     let rlen = min (length data) (length buffer) in
     ret ((splice 0 (take rlen data) buffer, rlen),
          so\<lparr>ns_rsize := ns_rsize so + rlen, ns_buf := (if rlen < length data then drop rlen data else [])\<rparr>))"

definition socket_poll :: "('n, 'k) stack_env \<Rightarrow> 'k net_socket \<Rightarrow> u32 \<Rightarrow> (('n, 'k) net_state, u32) act" where
  "socket_poll E so events =
     bind (if contains events (st_out E)
           then bind (conn_unwrap (cn_is_closed (st_conn E) (ns_inner so))) (\<lambda>closed.
                if closed then ret 0
                else bind (attempt (conn_call (\<lambda>_. Err EINVAL) (cn_get_remote (st_conn E) (ns_inner so)))) (\<lambda>r.
                     ret (case r of Inl _ \<Rightarrow> 0 | Inr _ \<Rightarrow> st_out E)))
           else ret 0) (\<lambda>res.
     bind (conn_unwrap (cn_readable (st_conn E) (ns_inner so))) (\<lambda>readable.
     ret (if readable \<and> contains events (st_in E) then res OR st_in E else res)))"

section \<open>Socket pairs\<close>

definition pair_write_at :: "u8 list \<Rightarrow> u8 list \<Rightarrow> (nat \<times> u8 list) res" where
  "pair_write_at queue buffer =
     (if length queue > 0x50000 then Err EBLOCKING else Ok (length buffer, queue @ buffer))"

definition pair_read_at :: "u8 list \<Rightarrow> u8 list \<Rightarrow> (u8 list \<times> nat) res \<times> u8 list" where
  "pair_read_at queue buffer =
     (let rlen = min (length queue) (length buffer) in
      (if rlen = 0 then Err EBLOCKING else Ok (splice 0 (take rlen queue) buffer, rlen), drop rlen queue))"

definition pair_poll :: "('n, 'k) stack_env \<Rightarrow> u8 list \<Rightarrow> u32 \<Rightarrow> u32" where
  "pair_poll E queue events =
     (let res = (if contains events (st_out E) \<and> length queue \<le> 0x50000 then st_out E else 0) in
      if contains events (st_in E) \<and> length queue > 0 then res OR st_in E else res)"

section \<open>The table\<close>

definition add_socket_file :: "'k sock_file \<Rightarrow> (('n, 'k) net_state, nat) act" where
  "add_socket_file so = bind get_state (\<lambda>s.
     bind (modify_state (\<lambda>s. s\<lparr>nt_next := nt_next s + 1, nt_map := bt_insert (nt_next s) so (nt_map s)\<rparr>)) (\<lambda>_.
     ret (nt_next s)))"

text \<open>Dropping a \<open>Socket\<close>: its connection is closed when the socket held the last or the last but one
  reference. References are those of the server and of the sockets in the table.\<close>

definition conn_refs :: "('n, 'k) stack_env \<Rightarrow> 'k \<Rightarrow> ('n, 'k) net_state \<Rightarrow> nat" where
  "conn_refs E k s = cn_server_refs (st_conn E) k (nt_world s)
     + length (filter (\<lambda>f. case f of SockFile so \<Rightarrow> ns_inner so = k | PairFile _ \<Rightarrow> False) (bt_values (nt_map s)))"

definition socket_drop :: "('n, 'k) stack_env \<Rightarrow> 'k net_socket \<Rightarrow> (('n, 'k) net_state, unit) act" where
  "socket_drop E so =
     bind (conn_unwrap (cn_is_closed (st_conn E) (ns_inner so))) (\<lambda>closed.
     bind get_state (\<lambda>s.
     if \<not> closed \<and> conn_refs E (ns_inner so) s + 1 \<in> {1, 2}
     then bind (attempt (conn_call (\<lambda>_. Err EINVAL) (cn_close (st_conn E) (ns_inner so)))) (\<lambda>_. ret ())
     else ret ()))"

definition ns_remove_socket :: "('n, 'k) stack_env \<Rightarrow> nat \<Rightarrow> (('n, 'k) net_state, unit) act" where
  "ns_remove_socket E socket_id =
     bind get_state (\<lambda>s.
     bind (modify_state (\<lambda>s. s\<lparr>nt_map := bt_remove socket_id (nt_map s)\<rparr>)) (\<lambda>_.
     case bt_get (nt_map s) socket_id of Some (SockFile so) \<Rightarrow> socket_drop E so | _ \<Rightarrow> ret ()))"

text \<open>\<open>SOCKET_MAP.lock().get(&socket_id)\<close>, and its downcast to a \<open>Socket\<close>.\<close>

definition get_file :: "nat \<Rightarrow> (('n, 'k) net_state, 'k sock_file) act" where
  "get_file socket_id = bind get_state (\<lambda>s. lift (ok_or (bt_get (nt_map s) socket_id) EINVAL))"

definition get_socket :: "nat \<Rightarrow> (('n, 'k) net_state, 'k net_socket) act" where
  "get_socket socket_id = bind (get_file socket_id) (\<lambda>f. case f of SockFile so \<Rightarrow> ret so | PairFile _ \<Rightarrow> fail EINVAL)"

definition put_file :: "nat \<Rightarrow> 'k sock_file \<Rightarrow> (('n, 'k) net_state, unit) act" where
  "put_file socket_id f = modify_state (\<lambda>s. s\<lparr>nt_map := bt_insert socket_id f (nt_map s)\<rparr>)"

section \<open>The calls of the domain\<close>

definition ns_socket :: "('n, 'k) stack_env \<Rightarrow> socket_type \<Rightarrow> (('n, 'k) net_state, nat) act" where
  "ns_socket E ty = bind (socket_new E ty) (\<lambda>so. add_socket_file (SockFile so))"

definition ns_socket_pair :: "(('n, 'k) net_state, nat \<times> nat) act" where
  "ns_socket_pair = bind (add_socket_file (PairFile [])) (\<lambda>i. ret (i, i))"

definition ns_bind :: "('n, 'k) stack_env \<Rightarrow> nat \<Rightarrow> sockaddr_in \<Rightarrow> (('n, 'k) net_state, nat option) act" where
  "ns_bind E socket_id socket_addr =
     bind (get_socket socket_id) (\<lambda>so. bind get_state (\<lambda>s.
     let port = to_be (sin_port socket_addr) in
     if ns_stype so = SOCK_OTHER then abort
     else if ns_stype so = SOCK_STREAM \<and> sv_tcp_is_used (st_server E) port (nt_world s)
           \<or> ns_stype so = SOCK_DGRAM \<and> sv_udp_is_used (st_server E) port (nt_world s)
     then bind (socket_reuse E so port) (\<lambda>sock. bind (add_socket_file (SockFile sock)) (\<lambda>i. ret (Some i)))
     else bind (conn_call (\<lambda>_. Err EALREADY) (cn_bind (st_conn E) (ns_inner so) (sin_addr socket_addr, port))) (\<lambda>_.
          ret None)))"

definition ns_listen :: "('n, 'k) stack_env \<Rightarrow> nat \<Rightarrow> (('n, 'k) net_state, unit) act" where
  "ns_listen E socket_id = bind (get_socket socket_id) (\<lambda>so. conn_unwrap (cn_listen (st_conn E) (ns_inner so)))"

definition ns_accept :: "('n, 'k) stack_env \<Rightarrow> nat \<Rightarrow> (('n, 'k) net_state, nat) act" where
  "ns_accept E socket_id =
     bind (get_socket socket_id) (\<lambda>so.
     bind (conn_call (\<lambda>e. Err (to_alien_error e)) (cn_accept (st_conn E) (ns_inner so))) (\<lambda>k.
     add_socket_file (SockFile (socket_new_with_inner (ns_stype so) k))))"

definition ns_connect :: "('n, 'k) stack_env \<Rightarrow> nat \<Rightarrow> sock_addr \<Rightarrow> (('n, 'k) net_state, unit) act" where
  "ns_connect E socket_id addr =
     bind (get_socket socket_id) (\<lambda>so. conn_call (\<lambda>e. Err (to_alien_error e)) (cn_connect (st_conn E) (ns_inner so) addr))"

definition addr_in :: "('n, 'k) stack_env \<Rightarrow> sock_addr \<Rightarrow> sockaddr_in" where
  "addr_in E a = \<lparr> sin_family = AF_INET E, sin_port = to_be (snd a), sin_addr = fst a \<rparr>"

text \<open>\<open>recv_from\<close>: the buffer, the sender's address and the length come back in the argument tuple; a
  length of 0 stands for no data.\<close>

definition ns_recv_from :: "('n, 'k) stack_env \<Rightarrow> nat \<Rightarrow> u8 list \<times> sockaddr_in
    \<Rightarrow> (('n, 'k) net_state, u8 list \<times> sockaddr_in \<times> nat) act" where
  "ns_recv_from E socket_id arg =
     bind (get_socket socket_id) (\<lambda>so.
     bind (attempt (socket_recv_from E so)) (\<lambda>res. case res of
       Inl e \<Rightarrow> if e = EBLOCKING then ret (fst arg, snd arg, 0) else fail e
     | Inr (data, remote_addr) \<Rightarrow>
         (let rlen = min (length data) (length (fst arg)) in
          ret (splice 0 (take rlen data) (fst arg), addr_in E remote_addr, rlen))))"

definition ns_sendto :: "('n, 'k) stack_env \<Rightarrow> nat \<Rightarrow> u8 list \<Rightarrow> sock_addr option \<Rightarrow> (('n, 'k) net_state, nat) act" where
  "ns_sendto E socket_id buf remote_addr =
     bind (get_socket socket_id) (\<lambda>so. let k = ns_inner so in
     bind (conn_unwrap (cn_get_local (st_conn E) k)) (\<lambda>local.
     bind (if snd local = 0 then conn_call (\<lambda>_. Err EALREADY) (cn_bind (st_conn E) k (0x7F000001, 0)) else ret ()) (\<lambda>_.
     conn_unwrap (cn_sendto (st_conn E) k buf remote_addr))))"

definition ns_shutdown :: "('n, 'k) stack_env \<Rightarrow> nat \<Rightarrow> (('n, 'k) net_state, unit) act" where
  "ns_shutdown E socket_id =
     bind (get_socket socket_id) (\<lambda>so. conn_call (\<lambda>e. Err (to_alien_error e)) (cn_close (st_conn E) (ns_inner so)))"

definition ns_remote_addr :: "('n, 'k) stack_env \<Rightarrow> nat \<Rightarrow> (('n, 'k) net_state, sockaddr_in) act" where
  "ns_remote_addr E socket_id =
     bind (get_socket socket_id) (\<lambda>so. bind (conn_unwrap (cn_get_remote (st_conn E) (ns_inner so))) (\<lambda>a. ret (addr_in E a)))"

definition ns_local_addr :: "('n, 'k) stack_env \<Rightarrow> nat \<Rightarrow> (('n, 'k) net_state, sockaddr_in) act" where
  "ns_local_addr E socket_id =
     bind (get_socket socket_id) (\<lambda>so. bind (conn_unwrap (cn_get_local (st_conn E) (ns_inner so))) (\<lambda>a. ret (addr_in E a)))"

definition ns_read_at :: "('n, 'k) stack_env \<Rightarrow> nat \<Rightarrow> u64 \<Rightarrow> u8 list \<Rightarrow> (('n, 'k) net_state, u8 list \<times> nat) act" where
  "ns_read_at E socket_id offset buf =
     bind (get_file socket_id) (\<lambda>f. case f of
       SockFile so \<Rightarrow> bind (socket_read_at E so buf) (\<lambda>(r, so). bind (put_file socket_id (SockFile so)) (\<lambda>_. ret r))
     | PairFile queue \<Rightarrow> (case pair_read_at queue buf of (r, queue) \<Rightarrow>
         bind (put_file socket_id (PairFile queue)) (\<lambda>_. lift r)))"

definition ns_write_at :: "('n, 'k) stack_env \<Rightarrow> nat \<Rightarrow> u64 \<Rightarrow> u8 list \<Rightarrow> (('n, 'k) net_state, nat) act" where
  "ns_write_at E socket_id offset buf =
     bind (get_file socket_id) (\<lambda>f. case f of
       SockFile so \<Rightarrow> bind (socket_write_at E so buf) (\<lambda>(r, so). bind (put_file socket_id (SockFile so)) (\<lambda>_. ret r))
     | PairFile queue \<Rightarrow> bind (lift (pair_write_at queue buf)) (\<lambda>(r, queue).
         bind (put_file socket_id (PairFile queue)) (\<lambda>_. ret r)))"

definition ns_poll :: "('n, 'k) stack_env \<Rightarrow> nat \<Rightarrow> u32 \<Rightarrow> (('n, 'k) net_state, u32) act" where
  "ns_poll E socket_id events =
     bind (get_file socket_id) (\<lambda>f. case f of
       SockFile so \<Rightarrow> socket_poll E so events
     | PairFile queue \<Rightarrow> ret (pair_poll E queue events))"

text \<open>What the VFS domain calls.\<close>

definition stack_net_ops :: "('n, 'k) stack_env \<Rightarrow> ('n, 'k) net_state net_ops" where
  "stack_net_ops E = \<lparr> n_read_at = ns_read_at E, n_write_at = ns_write_at E, n_poll = ns_poll E,
     n_remove_socket = ns_remove_socket E \<rparr>"

text \<open>The interrupt handler; \<open>Block\<close> is a handler that is still running after that many packets.\<close>

fun receive_loop :: "nat \<Rightarrow> ('n, 'k) stack_env \<Rightarrow> u8 list \<Rightarrow> (('n, 'k) net_state, unit progress) act" where
  "receive_loop 0 E shared_buf = ret Block"
| "receive_loop (Suc fuel) E shared_buf =
     bind (in_server (nic_can_receive (st_nic E))) (\<lambda>more.
     if more then
       bind (must (in_server (nic_receive (st_nic E) shared_buf))) (\<lambda>(buf, len).
       if len \<le> length buf
       then bind (in_server (sv_analysis (st_server E) (take len buf))) (\<lambda>_. receive_loop fuel E buf)
       else abort)
     else ret (Done ()))"

definition ns_handle_irq :: "nat \<Rightarrow> ('n, 'k) stack_env \<Rightarrow> (('n, 'k) net_state, unit progress) act" where
  "ns_handle_irq fuel E = bind (in_server (nic_handle_irq (st_nic E))) (\<lambda>_. receive_loop fuel E (st_uninit E 1600))"

section \<open>The loopback card\<close>

text \<open>\<open>drivers/loopback\<close>: the packets that were sent, each received once.\<close>

definition lo_transmit :: "u8 list \<Rightarrow> (u8 list list, unit) act" where
  "lo_transmit tx_buf = modify_state (\<lambda>q. q @ [tx_buf])"

definition lo_can_receive :: "(u8 list list, bool) act" where
  "lo_can_receive = ret True"

definition lo_receive :: "u8 list \<Rightarrow> (u8 list list, u8 list \<times> nat) act" where
  "lo_receive rx_buf = bind get_state (\<lambda>q. case q of
       p # q' \<Rightarrow> bind (modify_state (\<lambda>_. q')) (\<lambda>_. ret (p, length p))
     | [] \<Rightarrow> ret (rx_buf, 0))"

definition lo_handle_irq :: "(u8 list list, unit) act" where
  "lo_handle_irq = ret ()"

text \<open>The card in a world that holds its queue.\<close>

definition lo_nic :: "(u8 list list \<times> 'x) nic_ops" where
  "lo_nic = (let card = \<lambda>m. zoom fst (\<lambda>q s. (q, snd s)) m; card' = \<lambda>m. zoom fst (\<lambda>q s. (q, snd s)) m;
                 card'' = \<lambda>m. zoom fst (\<lambda>q s. (q, snd s)) m in
     \<lparr> nic_handle_irq = card lo_handle_irq, nic_can_receive = card' lo_can_receive,
       nic_receive = (\<lambda>buf. card'' (lo_receive buf)) \<rparr>)"

section \<open>Reading a stream\<close>

lemma in_server_run [act_simps]: "in_server m s = (case m (nt_world s) of (r, w) \<Rightarrow> (r, s\<lparr>nt_world := w\<rparr>))"
  by (simp add: in_server_def act_simps)

lemma conn_call_run [act_simps]:
  "conn_call f m s = (case m (nt_world s) of (Inl e, w) \<Rightarrow> (f e, s\<lparr>nt_world := w\<rparr>) | (Inr x, w) \<Rightarrow> (Ok x, s\<lparr>nt_world := w\<rparr>))"
  by (simp add: conn_call_def act_simps split: prod.split sum.split)

lemma get_file_run [act_simps]: "get_file i s = (ok_or (bt_get (nt_map s) i) EINVAL, s)"
  by (simp add: get_file_def act_simps)

lemma put_file_run [act_simps]: "put_file i f s = (Ok (), s\<lparr>nt_map := bt_insert i f (nt_map s)\<rparr>)"
  by (simp add: put_file_def act_simps)

text \<open>A connection that hands out the packets \<open>view\<close> one by one and fails when there is none.\<close>

definition packets :: "('n, 'k) stack_env \<Rightarrow> 'k \<Rightarrow> ('n \<Rightarrow> u8 list list) \<Rightarrow> bool" where
  "packets E k view \<longleftrightarrow> (\<forall>w. case view w of
       [] \<Rightarrow> \<exists>e w'. cn_recv_from (st_conn E) k w = (Inl e, w') \<and> view w' = []
     | c # cs \<Rightarrow> \<exists>a w'. cn_recv_from (st_conn E) k w = (Inr (c, a), w') \<and> view w' = cs)"

lemma packetsD:
  assumes "packets E k view"
  shows "view w = [] \<Longrightarrow> \<exists>e w'. cn_recv_from (st_conn E) k w = (Inl e, w') \<and> view w' = []"
    "view w = c # cs \<Longrightarrow> \<exists>a w'. cn_recv_from (st_conn E) k w = (Inr (c, a), w') \<and> view w' = cs"
  using spec [OF assms [unfolded packets_def], of w] by simp_all

text \<open>The bytes that a socket has not delivered yet.\<close>

definition undelivered :: "'k net_socket \<Rightarrow> ('n \<Rightarrow> u8 list list) \<Rightarrow> ('n, 'k) net_state \<Rightarrow> u8 list" where
  "undelivered so view s = ns_buf so @ concat (view (nt_world s))"

definition socket_at :: "nat \<Rightarrow> 'k \<Rightarrow> ('n, 'k) net_state \<Rightarrow> 'k net_socket \<Rightarrow> bool" where
  "socket_at i k s so \<longleftrightarrow> bt_get (nt_map s) i = Some (SockFile so) \<and> ns_inner so = k"

lemma read_once:
  assumes "packets E k view" "socket_at i k s so" "[] \<notin> set (view (nt_world s))" "buf \<noteq> []"
  shows "\<exists>so' s'. socket_at i k s' so' \<and> [] \<notin> set (view (nt_world s')) \<and>
    (if undelivered so view s = [] then ns_read_at E i off buf s = (Err EBLOCKING, s') \<and> undelivered so' view s' = []
     else let n = min (length buf) (if ns_buf so = [] then length (hd (view (nt_world s))) else length (ns_buf so)) in
       0 < n \<and> ns_read_at E i off buf s = (Ok (splice 0 (take n (undelivered so view s)) buf, n), s')
       \<and> undelivered so' view s' = drop n (undelivered so view s))"
proof (cases "ns_buf so = []")
  case False
  let ?n = "min (length (ns_buf so)) (length buf)"
  let ?so = "so\<lparr>ns_rsize := ns_rsize so + ?n, ns_buf := (if ?n < length (ns_buf so) then drop ?n (ns_buf so) else [])\<rparr>"
  have "0 < ?n" using False assms(4) by simp
  moreover have "ns_read_at E i off buf s = (Ok (splice 0 (take ?n (ns_buf so)) buf, ?n), s\<lparr>nt_map := bt_insert i (SockFile ?so) (nt_map s)\<rparr>)"
    using assms(2) False by (simp add: ns_read_at_def socket_read_at_def socket_at_def act_simps Let_def)
  ultimately show ?thesis
    using assms(2,3) False
    by (intro exI [of _ ?so] exI [of _ "s\<lparr>nt_map := bt_insert i (SockFile ?so) (nt_map s)\<rparr>"])
      (auto simp: socket_at_def undelivered_def Let_def min.commute min_def)
next
  case True
  show ?thesis
  proof (cases "view (nt_world s)")
    case Nil
    then obtain e w where w: "cn_recv_from (st_conn E) k (nt_world s) = (Inl e, w)" "view w = []"
      using packetsD(1) [OF assms(1)] by blast
    have "ns_read_at E i off buf s = (Err EBLOCKING, s\<lparr>nt_world := w\<rparr>)"
      using assms(2) True w(1) by (simp add: ns_read_at_def socket_read_at_def socket_at_def act_simps)
    then show ?thesis
      using assms(2) True Nil w(2)
      by (intro exI [of _ so] exI [of _ "s\<lparr>nt_world := w\<rparr>"]) (simp add: socket_at_def undelivered_def)
  next
    case (Cons c cs)
    then obtain a w where w: "cn_recv_from (st_conn E) k (nt_world s) = (Inr (c, a), w)" "view w = cs"
      using packetsD(2) [OF assms(1)] by blast
    let ?n = "min (length c) (length buf)"
    let ?so = "so\<lparr>ns_rsize := ns_rsize so + ?n, ns_buf := (if ?n < length c then drop ?n c else [])\<rparr>"
    let ?s = "s\<lparr>nt_world := w, nt_map := bt_insert i (SockFile ?so) (nt_map s)\<rparr>"
    have "c \<noteq> []" using assms(3) Cons by auto
    then have "0 < ?n" using assms(4) by simp
    moreover have "ns_read_at E i off buf s = (Ok (splice 0 (take ?n c) buf, ?n), ?s)"
      using assms(2) True w(1) by (simp add: ns_read_at_def socket_read_at_def socket_at_def act_simps Let_def)
    ultimately show ?thesis
      using assms(2,3) True Cons w(2) \<open>c \<noteq> []\<close>
      by (intro exI [of _ ?so] exI [of _ ?s]) (auto simp: socket_at_def undelivered_def Let_def min.commute min_def)
  qed
qed

text \<open>Reads of the given lengths, and what they deliver; a read that fails delivers nothing.\<close>

fun ns_reads :: "('n, 'k) stack_env \<Rightarrow> nat \<Rightarrow> nat list \<Rightarrow> ('n, 'k) net_state \<Rightarrow> u8 list \<times> ('n, 'k) net_state" where
  "ns_reads E i [] s = ([], s)"
| "ns_reads E i (len # lens) s = (case ns_read_at E i 0 (replicate len 0) s of
     (r, s') \<Rightarrow> case ns_reads E i lens s' of
     (data, s'') \<Rightarrow> ((case r of Inl _ \<Rightarrow> [] | Inr (buf, n) \<Rightarrow> take n buf) @ data, s''))"

text \<open>C26: a stream is read in order and without loss, whatever the sizes of the reads and of the packets:
  what the reads deliver followed by what is still to come is what was to come before, and every read
  of at least one byte delivers something while there is anything.\<close>

theorem socket_stream:
  assumes "packets E k view" "socket_at i k s so" "[] \<notin> set (view (nt_world s))" "0 \<notin> set lens"
    and "ns_reads E i lens s = (data, s')"
  shows "\<exists>so'. socket_at i k s' so' \<and> data @ undelivered so' view s' = undelivered so view s
    \<and> min (length lens) (length (undelivered so view s)) \<le> length data"
  using assms(2-)
proof (induction lens arbitrary: s so data)
  case Nil
  then show ?case by auto
next
  case (Cons len lens)
  let ?b = "replicate len (0 :: u8)"
  let ?u = "undelivered so view s"
  have "?b \<noteq> []" using Cons.prems(3) by (cases len) auto
  from read_once [OF assms(1) Cons.prems(1,2) this, of 0, unfolded length_replicate] obtain so1 s1 where
    one: "socket_at i k s1 so1" "[] \<notin> set (view (nt_world s1))"
    "if ?u = [] then ns_read_at E i 0 ?b s = (Err EBLOCKING, s1) \<and> undelivered so1 view s1 = []
     else let n = min len (if ns_buf so = [] then length (hd (view (nt_world s))) else length (ns_buf so)) in
       0 < n \<and> ns_read_at E i 0 ?b s = (Ok (splice 0 (take n ?u) ?b, n), s1) \<and> undelivered so1 view s1 = drop n ?u"
    by blast
  obtain data1 where rest: "ns_reads E i lens s1 = (data1, s')"
    using Cons.prems(4) one(3) by (auto simp: Let_def split: prod.splits if_splits)
  from Cons.IH [OF one(1,2) _ rest] Cons.prems(3) obtain so' where
    ih: "socket_at i k s' so'" "data1 @ undelivered so' view s' = undelivered so1 view s1"
    "min (length lens) (length (undelivered so1 view s1)) \<le> length data1" by auto
  show ?case
  proof (cases "?u = []")
    case True
    then have "data = data1" using Cons.prems(4) one(3) rest by simp
    then show ?thesis using True one(3) ih by auto
  next
    case False
    define n where "n = min len (if ns_buf so = [] then length (hd (view (nt_world s))) else length (ns_buf so))"
    have le: "n \<le> length ?u"
      using False Cons.prems(2) by (cases "view (nt_world s)") (auto simp: n_def undelivered_def)
    have r: "0 < n" "ns_read_at E i 0 ?b s = (Ok (splice 0 (take n ?u) ?b, n), s1)" "undelivered so1 view s1 = drop n ?u"
      using one(3) False by (simp_all add: n_def Let_def)
    have "take n (splice 0 (take n ?u) ?b) = take n ?u" using le by (simp add: splice_def)
    then have "data = take n ?u @ data1" using Cons.prems(4) r(2) rest by simp
    then show ?thesis using ih r(1,3) le by auto
  qed
qed

text \<open>\<open>recvfrom\<close> is not such a reader: it takes a packet of the connection, hands out as much as the
  buffer holds and drops the rest, and passes over the bytes that an earlier short read left over.\<close>

theorem recv_from_drops:
  assumes "packets E k view" "socket_at i k s so" "view (nt_world s) = c # cs"
    and "cn_get_local (st_conn E) k (nt_world s) = (Inr local, nt_world s)" "length buf < length c"
  shows "\<exists>addr s'. ns_recv_from E i (buf, a0) s = (Ok (take (length buf) c, addr, length buf), s')
    \<and> socket_at i k s' so \<and> undelivered so view s = ns_buf so @ take (length buf) c @ drop (length buf) c @ concat cs
    \<and> undelivered so view s' = ns_buf so @ concat cs"
proof -
  obtain a w where w: "cn_recv_from (st_conn E) k (nt_world s) = (Inr (c, a), w)" "view w = cs"
    using packetsD(2) [OF assms(1,3)] by blast
  have "ns_recv_from E i (buf, a0) s = (Ok (take (length buf) c, addr_in E a, length buf), s\<lparr>nt_world := w\<rparr>)"
    using assms(2,4,5) w(1)
    by (simp add: ns_recv_from_def get_socket_def socket_recv_from_def socket_at_def act_simps Let_def splice_def)
  then show ?thesis
    using assms(2,3) w(2) by (auto simp: socket_at_def undelivered_def append_assoc [symmetric] simp del: append_assoc)
qed

section \<open>Socket pairs are one queue\<close>

text \<open>Calls on the two descriptors \<open>a\<close> and \<open>b\<close> of a pair (\<open>True\<close> is the first one), at any offset,
  with what the writes took and what the reads delivered, each in the order of the calls.\<close>

datatype pair_call = PairWrite bool u64 "u8 list" | PairRead bool u64 "u8 list"

fun pair_run :: "('n, 'k) stack_env \<Rightarrow> nat \<Rightarrow> nat \<Rightarrow> pair_call list \<Rightarrow> ('n, 'k) net_state
    \<Rightarrow> u8 list \<times> u8 list \<times> ('n, 'k) net_state" where
  "pair_run E a b [] s = ([], [], s)"
| "pair_run E a b (PairWrite e off data # cs) s = (case ns_write_at E (if e then a else b) off data s of
     (r, s') \<Rightarrow> case pair_run E a b cs s' of
     (written, got, t) \<Rightarrow> ((case r of Inl _ \<Rightarrow> [] | Inr n \<Rightarrow> take n data) @ written, got, t))"
| "pair_run E a b (PairRead e off buf # cs) s = (case ns_read_at E (if e then a else b) off buf s of
     (r, s') \<Rightarrow> case pair_run E a b cs s' of
     (written, got, t) \<Rightarrow> (written, (case r of Inl _ \<Rightarrow> [] | Inr (buf', n) \<Rightarrow> take n buf') @ got, t))"

lemma pair_read:
  assumes "bt_get (nt_map s) i = Some (PairFile queue)"
  shows "ns_read_at E i off buf s =
     (if queue = [] \<or> buf = [] then Err EBLOCKING
      else Ok (splice 0 (take (length buf) queue) buf, min (length queue) (length buf)),
      s\<lparr>nt_map := bt_insert i (PairFile (drop (length buf) queue)) (nt_map s)\<rparr>)"
  using assms by (auto simp: ns_read_at_def pair_read_at_def Let_def act_simps min_def)

lemma pair_write:
  assumes "bt_get (nt_map s) i = Some (PairFile queue)"
  shows "ns_write_at E i off data s =
     (if 0x50000 < length queue then (Err EBLOCKING, s)
      else (Ok (length data), s\<lparr>nt_map := bt_insert i (PairFile (queue @ data)) (nt_map s)\<rparr>))"
  using assms by (auto simp: ns_write_at_def pair_write_at_def act_simps)

lemma pair_run_fifo:
  assumes "bt_get (nt_map s) i = Some (PairFile queue)" "pair_run E i i calls s = (written, got, t)"
  shows "\<exists>queue'. bt_get (nt_map t) i = Some (PairFile queue') \<and> queue @ written = got @ queue'
    \<and> (\<forall>j. j \<noteq> i \<longrightarrow> bt_get (nt_map t) j = bt_get (nt_map s) j)"
  using assms
proof (induction calls arbitrary: s queue written got)
  case (Cons c calls)
  show ?case
  proof (cases c)
    case (PairWrite e off data)
    let ?q = "if 0x50000 < length queue then queue else queue @ data"
    let ?s = "if 0x50000 < length queue then s
      else s\<lparr>nt_map := bt_insert i (PairFile (queue @ data)) (nt_map s)\<rparr>"
    obtain written' where run: "pair_run E i i calls ?s = (written', got, t)"
      and w: "written = (if 0x50000 < length queue then [] else data) @ written'"
      using Cons.prems(2) by (auto simp: PairWrite pair_write [OF Cons.prems(1)] split: prod.splits if_splits)
    have "bt_get (nt_map ?s) i = Some (PairFile ?q)" using Cons.prems(1) by simp
    from Cons.IH [OF this run] show ?thesis using w by (auto split: if_splits)
  next
    case (PairRead e off buf)
    let ?s = "s\<lparr>nt_map := bt_insert i (PairFile (drop (length buf) queue)) (nt_map s)\<rparr>"
    obtain got' where run: "pair_run E i i calls ?s = (written, got', t)"
      and g: "got = take (length buf) queue @ got'"
      using Cons.prems(2)
      by (auto simp: PairRead pair_read [OF Cons.prems(1)] splice_def min_def split: prod.splits if_splits)
    have "bt_get (nt_map ?s) i = Some (PairFile (drop (length buf) queue))" by simp
    from Cons.IH [OF this run] obtain queue' where "bt_get (nt_map t) i = Some (PairFile queue')"
      "drop (length buf) queue @ written = got' @ queue'"
      "\<forall>j. j \<noteq> i \<longrightarrow> bt_get (nt_map t) j = bt_get (nt_map s) j" by auto
    then show ?thesis using g by (metis append.assoc append_take_drop_id)
  qed
qed simp

text \<open>C27: the two descriptors of a socket pair are one socket, and that socket is a FIFO queue. After
  any calls of any sizes on either of them, the bytes that the writes took, in order, are those that the
  reads delivered followed by those in the queue, whichever end each call used, so an end reads back
  what it wrote itself; nothing else in the table has changed. A further read on either end delivers the
  front of the queue, as much as there is room for, or would block when there is nothing; a write is
  taken whole unless more than \<open>0x50000\<close> bytes wait. Closing one end ends both.\<close>

theorem socketpair_is_one_queue:
  assumes "ns_socket_pair s = (Ok (a, b), s1)" "pair_run E a b calls s1 = (written, got, t)"
  shows "a = b \<and> (\<exists>queue. bt_get (nt_map t) a = Some (PairFile queue) \<and> written = got @ queue
    \<and> (\<forall>i. i \<noteq> a \<longrightarrow> bt_get (nt_map t) i = bt_get (nt_map s) i)
    \<and> (\<forall>off buf. buf \<noteq> [] \<longrightarrow> fst (ns_read_at E a off buf t) = (if queue = [] then Err EBLOCKING
         else Ok (splice 0 (take (length buf) queue) buf, min (length queue) (length buf))))
    \<and> (\<forall>off data. fst (ns_write_at E a off data t)
         = (if 0x50000 < length queue then Err EBLOCKING else Ok (length data)))
    \<and> (\<exists>t'. ns_remove_socket E a t = (Ok (), t')
         \<and> (\<forall>off buf. ns_read_at E b off buf t' = (Err EINVAL, t') \<and> ns_write_at E b off buf t' = (Err EINVAL, t'))))"
proof -
  have ab: "b = a" "bt_get (nt_map s1) a = Some (PairFile [])"
    "\<And>i. i \<noteq> a \<Longrightarrow> bt_get (nt_map s1) i = bt_get (nt_map s) i"
    using assms(1) by (auto simp: ns_socket_pair_def add_socket_file_def act_simps)
  from pair_run_fifo [OF ab(2) assms(2) [unfolded ab(1)]] obtain queue where
    q: "bt_get (nt_map t) a = Some (PairFile queue)" "written = got @ queue"
      "\<And>i. i \<noteq> a \<Longrightarrow> bt_get (nt_map t) i = bt_get (nt_map s1) i" by auto
  have "ns_remove_socket E a t = (Ok (), t\<lparr>nt_map := bt_remove a (nt_map t)\<rparr>)"
    using q(1) by (simp add: ns_remove_socket_def act_simps)
  moreover have "ns_read_at E a off buf (t\<lparr>nt_map := bt_remove a (nt_map t)\<rparr>)
      = (Err EINVAL, t\<lparr>nt_map := bt_remove a (nt_map t)\<rparr>)"
    "ns_write_at E a off buf (t\<lparr>nt_map := bt_remove a (nt_map t)\<rparr>)
      = (Err EINVAL, t\<lparr>nt_map := bt_remove a (nt_map t)\<rparr>)" for off buf
    by (simp_all add: ns_read_at_def ns_write_at_def act_simps)
  ultimately show ?thesis
    using ab q by (simp add: pair_read [OF q(1)] pair_write [OF q(1)])
qed

section \<open>Interrupts of the loopback card\<close>

lemma receive_loop_lo:
  assumes "st_nic E = lo_nic" "\<forall>bs w. \<exists>w'. sv_analysis (st_server E) bs w = (Ok (), w')"
  shows "\<exists>s'. receive_loop fuel E buf s = (Ok Block, s')"
proof (induction fuel arbitrary: buf s)
  case (Suc fuel)
  obtain p n q where r: "lo_receive buf (fst (nt_world s)) = (Ok (p, n), q)" "n \<le> length p"
    by (cases "fst (nt_world s)") (auto simp: lo_receive_def act_simps)
  obtain w where w: "sv_analysis (st_server E) (take n p) (q, snd (nt_world s)) = (Ok (), w)" using assms(2) by blast
  show ?case
    using Suc [of p "s\<lparr>nt_world := w\<rparr>"] r w
    by (simp add: assms(1) lo_nic_def Let_def act_simps lo_can_receive_def)
qed (simp add: act_simps)

text \<open>Over the loopback card, which always claims to have a packet, the interrupt handler of the
  network stack never returns.\<close>

theorem loopback_irq_diverges:
  assumes "st_nic E = lo_nic" "\<forall>bs w. \<exists>w'. sv_analysis (st_server E) bs w = (Ok (), w')"
  shows "\<exists>s'. ns_handle_irq fuel E s = (Ok Block, s')"
proof -
  have "in_server (nic_handle_irq (st_nic E)) s = (Ok (), s)"
    by (simp add: assms(1) lo_nic_def Let_def act_simps lo_handle_irq_def)
  then show ?thesis using receive_loop_lo [OF assms] by (simp add: ns_handle_irq_def act_simps)
qed

section \<open>A concrete network\<close>

text \<open>One connection, the packets that will arrive on it, and the loopback card.\<close>

type_synonym toy_net = "u8 list list \<times> u8 list list"

definition toy_conn :: "(toy_net, unit) conn_ops" where
  "toy_conn = \<lparr> cn_recv_from = (\<lambda>_ w. case snd w of [] \<Rightarrow> (Inl EmptyData, w) | c # cs \<Rightarrow> (Inr (c, (0, 0)), (fst w, cs))),
     cn_sendto = (\<lambda>_ bs _ w. (Inr (length bs), w)), cn_bind = (\<lambda>_ _ w. (Inr (), w)), cn_listen = (\<lambda>_ w. (Inr (), w)),
     cn_accept = (\<lambda>_ w. (Inl Blocking, w)), cn_connect = (\<lambda>_ _ w. (Inr (), w)), cn_close = (\<lambda>_ w. (Inr (), w)),
     cn_get_local = (\<lambda>_ w. (Inr (0x7F000001, 80), w)), cn_get_remote = (\<lambda>_ w. (Inr (0, 0), w)),
     cn_readable = (\<lambda>_ w. (Inr (snd w \<noteq> []), w)), cn_is_closed = (\<lambda>_ w. (Inr False, w)),
     cn_protocol = (\<lambda>_ w. (Inr TCP, w)), cn_server_refs = (\<lambda>_ _. 1) \<rparr>"

definition toy_stack :: "(toy_net, unit) stack_env" where
  "toy_stack = \<lparr> st_conn = toy_conn,
     st_server = \<lparr> sv_blank_tcp = (\<lambda>w. ((), w)), sv_blank_udp = (\<lambda>w. ((), w)), sv_tcp_is_used = (\<lambda>_ _. False),
       sv_udp_is_used = (\<lambda>_ _. False), sv_get_tcp = (\<lambda>_ _. None), sv_get_udp = (\<lambda>_ _. None), sv_analysis = (\<lambda>_ w. (Ok (), w)) \<rparr>,
     st_nic = lo_nic, st_uninit = (\<lambda>n. replicate n 0), st_in = 1, st_out = 4, AF_INET = 2 \<rparr>"

lemma toy_packets: "packets toy_stack () snd"
  by (simp add: packets_def toy_stack_def toy_conn_def split: list.split)

definition toy_socket :: "u8 list \<Rightarrow> unit net_socket" where
  "toy_socket left = (socket_new_with_inner SOCK_STREAM ())\<lparr>ns_buf := left\<rparr>"

definition toy_net :: "u8 list \<Rightarrow> u8 list list \<Rightarrow> (toy_net, unit) net_state" where
  "toy_net left ps = \<lparr> nt_map = [(0, SockFile (toy_socket left))], nt_next = 1, nt_world = ([], ps) \<rparr>"

lemma toy_socket_at: "socket_at 0 () (toy_net left ps) (toy_socket left)"
  by (simp add: socket_at_def toy_net_def)

lemma toy_undelivered: "undelivered (toy_socket left) snd (toy_net left ps) = left @ concat ps"
  by (simp add: undelivered_def toy_socket_def toy_net_def)

theorem socket_stream_witness:
  "\<exists>so' s'. ns_reads toy_stack 0 [2, 4, 1] (toy_net [1] [[2, 3, 4], [5]]) = ([1, 2, 3, 4, 5], s')
    \<and> socket_at 0 () s' so' \<and> undelivered so' snd s' = []"
proof -
  obtain data s' where r: "ns_reads toy_stack 0 [2, 4, 1] (toy_net [1] [[2, 3, 4], [5]]) = (data, s')" by fastforce
  have "data = [1, 2, 3, 4, 5]"
    using r by (auto simp: toy_stack_def toy_conn_def toy_net_def toy_socket_def socket_new_with_inner_def ns_read_at_def
        socket_read_at_def act_simps Let_def splice_def numeral_eq_Suc)
  with socket_stream [OF toy_packets toy_socket_at _ _ r] show ?thesis
    using r by (auto simp: toy_undelivered) (simp add: toy_net_def)
qed

theorem recv_from_drops_witness:
  "\<exists>addr s'. ns_recv_from toy_stack 0 ([0, 0], \<lparr> sin_family = 0, sin_port = 0, sin_addr = 0 \<rparr>) (toy_net [1] [[2, 3, 4], [5]])
      = (Ok ([2, 3], addr, 2), s') \<and> undelivered (toy_socket [1]) snd s' = [1, 5]"
  using recv_from_drops [OF toy_packets toy_socket_at, of "[1]" "[[2, 3, 4], [5]]" "[2, 3, 4]" "[[5]]" "(0x7F000001, 80)" "[0, 0]"
      "\<lparr> sin_family = 0, sin_port = 0, sin_addr = 0 \<rparr>"]
  by (auto simp: toy_net_def toy_stack_def toy_conn_def toy_socket_def)

theorem socketpair_is_one_queue_witness:
  "\<exists>t. pair_run toy_stack 1 1 [PairWrite True 0 [7, 8], PairWrite False 0 [9], PairRead True 0 [0, 0],
        PairRead False 0 [0, 0, 0], PairRead True 0 [0], PairWrite True 0 [5, 6]]
      (snd (ns_socket_pair (toy_net [] []))) = ([7, 8, 9, 5, 6], [7, 8, 9], t)
    \<and> bt_get (nt_map t) 1 = Some (PairFile [5, 6])"
proof -
  have pair: "ns_socket_pair (toy_net [] []) = (Ok (1, 1), snd (ns_socket_pair (toy_net [] [])))"
    by (simp add: ns_socket_pair_def add_socket_file_def act_simps toy_net_def)
  let ?cs = "[PairWrite True 0 [7, 8], PairWrite False 0 [9], PairRead True 0 [0, 0],
        PairRead False 0 [0, 0, 0], PairRead True 0 [0], PairWrite True 0 [5, 6]]"
  obtain w g t where run: "pair_run toy_stack 1 1 ?cs (snd (ns_socket_pair (toy_net [] []))) = (w, g, t)"
    by (cases "pair_run toy_stack 1 1 ?cs (snd (ns_socket_pair (toy_net [] [])))") auto
  then have "w = [7, 8, 9, 5, 6]" "g = [7, 8, 9]"
    by (auto simp: ns_socket_pair_def add_socket_file_def act_simps toy_net_def pair_read pair_write splice_def)
  with socketpair_is_one_queue [OF pair run] run show ?thesis by auto
qed

theorem loopback_irq_diverges_witness:
  "\<exists>s'. ns_handle_irq 1000 toy_stack (toy_net [] []) = (Ok Block, s')"
  by (rule loopback_irq_diverges) (simp_all add: toy_stack_def)

end
