(* ===== verification/SysNet.thy ===== *)
theory SysNet
  imports SysEnv NetStack
begin

text \<open>
  The socket calls (\<open>common/syscall/syscall/src/socket/mod.rs\<close>): thin handlers between the user, the
  task domain (descriptors), the VFS domain (which file is which socket) and the network stack domain.
  Calls that wait do so by polling the network stack with a yield in between; \<open>Block\<close> is a caller that
  is still waiting after \<open>fuel\<close> rounds.
\<close>

unbundle bit_operations_syntax

section \<open>What the calls are given\<close>

abbreviation EAFNOSUPPORT :: errno where "EAFNOSUPPORT \<equiv> Eother 6"

datatype socket_level = IpLevel | SocketLevel | TcpLevel

datatype sock_option = SO_RCVBUF | SO_SNDBUF | SO_ERROR | SO_OPTION_OTHER

datatype tcp_option = TCP_MAXSEG | TCP_NODELAY | TCP_OPTION_OTHER

text \<open>\<open>NetDomain\<close>, and of \<open>VfsDomain\<close> the calls on sockets.\<close>

record 's net_trait =
  nd_socket :: "usize \<Rightarrow> socket_type \<Rightarrow> usize \<Rightarrow> ('s, nat) act"
  nd_socket_pair :: "usize \<Rightarrow> socket_type \<Rightarrow> ('s, nat \<times> nat) act"
  nd_bind :: "nat \<Rightarrow> sockaddr_in \<Rightarrow> ('s, nat option) act"
  nd_listen :: "nat \<Rightarrow> usize \<Rightarrow> ('s, unit) act"
  nd_accept :: "nat \<Rightarrow> ('s, nat) act"
  nd_connect :: "nat \<Rightarrow> sock_addr \<Rightarrow> ('s, unit) act"
  nd_recv_from :: "nat \<Rightarrow> u8 list \<times> sockaddr_in \<Rightarrow> ('s, u8 list \<times> sockaddr_in \<times> nat) act"
  nd_sendto :: "nat \<Rightarrow> u8 list \<Rightarrow> sock_addr option \<Rightarrow> ('s, nat) act"
  nd_shutdown :: "nat \<Rightarrow> ('s, unit) act"
  nd_remote_addr :: "nat \<Rightarrow> ('s, sockaddr_in) act"
  nd_local_addr :: "nat \<Rightarrow> ('s, sockaddr_in) act"
  nd_do_socket :: "nat \<Rightarrow> ('s, u64) act"
  nd_socket_id :: "u64 \<Rightarrow> ('s, nat) act"

text \<open>Layouts and numbers of \<open>basic::constants::net\<close>.\<close>

record net_numbers =
  nn_domain_ok :: "usize \<Rightarrow> bool"                  \<comment> \<open>\<open>Domain::try_from\<close> succeeds\<close>
  nn_AF_INET :: "16 word"
  nn_type_mask :: usize
  nn_type_of :: "usize \<Rightarrow> socket_type option"
  nn_addr_size :: nat                           \<comment> \<open>\<open>size_of::<SocketAddrInRaw>()\<close>\<close>
  nn_addr_of :: "u8 list \<Rightarrow> sockaddr_in"
  nn_addr_bytes :: "sockaddr_in \<Rightarrow> u8 list"
  nn_addr_default :: sockaddr_in
  nn_level_of :: "usize \<Rightarrow> socket_level option"
  nn_sockopt_of :: "usize \<Rightarrow> sock_option option"
  nn_tcpopt_of :: "usize \<Rightarrow> tcp_option option"
  nn_shutdown_ok :: "usize \<Rightarrow> bool"                \<comment> \<open>\<open>ShutdownFlag::try_from\<close> succeeds\<close>

record 's net_sys =
  nv_trait :: "'s net_trait"
  nv_num :: net_numbers

definition u32_bytes :: "u32 \<Rightarrow> u8 list" where
  "u32_bytes v = take 4 (to_ne_bytes (ucast v))"

text \<open>The first steps of most calls: the socket of a descriptor, and an address of the user.\<close>

definition fd_socket :: "('s, 'st) sys_env \<Rightarrow> 's net_sys \<Rightarrow> nat \<Rightarrow> ('s, nat) act" where
  "fd_socket E V fd = bind (td_get_fd (se_task E) fd) (nd_socket_id (nv_trait V))"

definition read_addr :: "('s, 'st) sys_env \<Rightarrow> 's net_sys \<Rightarrow> usize \<Rightarrow> ('s, sockaddr_in) act" where
  "read_addr E V addr = bind (td_copy_from_user (se_task E) addr (nn_addr_size (nv_num V))) (\<lambda>bs. ret (nn_addr_of (nv_num V) bs))"

definition inet_addr :: "'s net_sys \<Rightarrow> sockaddr_in \<Rightarrow> ('s, sockaddr_in) act" where
  "inet_addr V addr =
     (if \<not> nn_domain_ok (nv_num V) (ucast (sin_family addr)) then fail EAFNOSUPPORT
      else if sin_family addr \<noteq> nn_AF_INET (nv_num V) then fail EAFNOSUPPORT
      else ret addr)"

text \<open>An address for the user, its length as a machine word.\<close>

definition write_addr :: "('s, 'st) sys_env \<Rightarrow> 's net_sys \<Rightarrow> usize \<Rightarrow> usize \<Rightarrow> sockaddr_in \<Rightarrow> ('s, unit) act" where
  "write_addr E V addr addr_len a =
     bind (td_copy_to_user (se_task E) addr (nn_addr_bytes (nv_num V) a)) (\<lambda>_.
     td_copy_to_user (se_task E) addr_len (to_ne_bytes (of_nat (nn_addr_size (nv_num V)))))"

section \<open>Making sockets\<close>

definition sys_socket :: "('s, 'st) sys_env \<Rightarrow> 's net_sys \<Rightarrow> usize \<Rightarrow> usize \<Rightarrow> usize \<Rightarrow> ('s, nat) act" where
  "sys_socket E V domain s_type protocol =
     (if \<not> nn_domain_ok (nv_num V) domain then fail EAFNOSUPPORT
      else bind (lift (ok_or (nn_type_of (nv_num V) (s_type AND nn_type_mask (nv_num V))) EINVAL)) (\<lambda>socket_type.
        bind (nd_socket (nv_trait V) domain socket_type protocol) (\<lambda>socket_id.
        bind (nd_do_socket (nv_trait V) socket_id) (td_add_fd (se_task E)))))"

definition sys_socket_pair :: "('s, 'st) sys_env \<Rightarrow> 's net_sys \<Rightarrow> usize \<Rightarrow> usize \<Rightarrow> usize \<Rightarrow> usize \<Rightarrow> ('s, nat) act" where
  "sys_socket_pair E V domain s_type protocol sv =
     (if \<not> nn_domain_ok (nv_num V) domain then fail EAFNOSUPPORT
      else bind (lift (ok_or (nn_type_of (nv_num V) (s_type AND nn_type_mask (nv_num V))) EINVAL)) (\<lambda>socket_type.
        if protocol \<noteq> 0 \<or> sv = 0 then fail EINVAL
        else
          bind (nd_socket_pair (nv_trait V) domain socket_type) (\<lambda>(id1, id2).
          bind (nd_do_socket (nv_trait V) id1) (\<lambda>inode_id1.
          bind (nd_do_socket (nv_trait V) id2) (\<lambda>inode_id2.
          bind (td_add_fd (se_task E) inode_id1) (\<lambda>fd1.
          bind (td_add_fd (se_task E) inode_id2) (\<lambda>fd2.
          bind (td_copy_to_user (se_task E) sv (u32_bytes (of_nat fd1) @ u32_bytes (of_nat fd2))) (\<lambda>_. ret 0))))))))"

definition sys_bind :: "('s, 'st) sys_env \<Rightarrow> 's net_sys \<Rightarrow> nat \<Rightarrow> usize \<Rightarrow> ('s, nat) act" where
  "sys_bind E V fd addr =
     bind (fd_socket E V fd) (\<lambda>socket_id.
     bind (read_addr E V addr) (\<lambda>a. bind (inet_addr V a) (\<lambda>a.
     bind (nd_bind (nv_trait V) socket_id a) (\<lambda>reuse_socket_id.
     if reuse_socket_id \<noteq> None then abort else ret 0))))"

definition sys_listen :: "('s, 'st) sys_env \<Rightarrow> 's net_sys \<Rightarrow> nat \<Rightarrow> usize \<Rightarrow> ('s, nat) act" where
  "sys_listen E V fd backlog =
     bind (fd_socket E V fd) (\<lambda>socket_id. bind (nd_listen (nv_trait V) socket_id backlog) (\<lambda>_. ret 0))"

fun accept_loop :: "nat \<Rightarrow> ('s, 'st) sys_env \<Rightarrow> 's net_sys \<Rightarrow> nat \<Rightarrow> usize \<Rightarrow> usize \<Rightarrow> ('s, nat progress) act" where
  "accept_loop 0 E V socket_id addr addr_len = ret Block"
| "accept_loop (Suc fuel) E V socket_id addr addr_len =
     bind (attempt (nd_accept (nv_trait V) socket_id)) (\<lambda>r. case r of
       Inr new_socket_id \<Rightarrow>
         bind (if addr \<noteq> 0 then bind (nd_remote_addr (nv_trait V) new_socket_id) (write_addr E V addr addr_len)
               else ret ()) (\<lambda>_.
         bind (nd_do_socket (nv_trait V) new_socket_id) (\<lambda>inode_id.
         bind (td_add_fd (se_task E) inode_id) finish))
     | Inl e \<Rightarrow> if e = EBLOCKING then bind (se_yield E) (\<lambda>_. accept_loop fuel E V socket_id addr addr_len) else fail e)"

definition sys_accept :: "nat \<Rightarrow> ('s, 'st) sys_env \<Rightarrow> 's net_sys \<Rightarrow> nat \<Rightarrow> usize \<Rightarrow> usize \<Rightarrow> ('s, nat progress) act" where
  "sys_accept fuel E V fd addr addr_len =
     bind (fd_socket E V fd) (\<lambda>socket_id. accept_loop fuel E V socket_id addr addr_len)"

fun connect_loop :: "nat \<Rightarrow> ('s, 'st) sys_env \<Rightarrow> 's net_sys \<Rightarrow> nat \<Rightarrow> sock_addr \<Rightarrow> ('s, nat progress) act" where
  "connect_loop 0 E V socket_id a = ret Block"
| "connect_loop (Suc fuel) E V socket_id a =
     bind (attempt (nd_connect (nv_trait V) socket_id a)) (\<lambda>r. case r of
       Inr _ \<Rightarrow> finish 0
     | Inl e \<Rightarrow> if e = EBLOCKING then bind (se_yield E) (\<lambda>_. connect_loop fuel E V socket_id a) else fail e)"

definition sys_connect :: "nat \<Rightarrow> ('s, 'st) sys_env \<Rightarrow> 's net_sys \<Rightarrow> nat \<Rightarrow> usize \<Rightarrow> ('s, nat progress) act" where
  "sys_connect fuel E V fd addr =
     bind (fd_socket E V fd) (\<lambda>socket_id.
     bind (read_addr E V addr) (\<lambda>a. bind (inet_addr V a) (\<lambda>a.
     connect_loop fuel E V socket_id (sin_addr a, to_be (sin_port a)))))"

section \<open>Data\<close>

fun recv_loop :: "nat \<Rightarrow> ('s, 'st) sys_env \<Rightarrow> 's net_sys \<Rightarrow> nat \<Rightarrow> usize \<Rightarrow> usize \<Rightarrow> usize \<Rightarrow> u8 list \<times> sockaddr_in
    \<Rightarrow> ('s, nat progress) act" where
  "recv_loop 0 E V socket_id buf addr addr_len arg = ret Block"
| "recv_loop (Suc fuel) E V socket_id buf addr addr_len arg =
     bind (nd_recv_from (nv_trait V) socket_id arg) (\<lambda>(b, a, len).
     if len \<noteq> 0 then
       bind (lift (slice_to len b)) (\<lambda>bytes.
       bind (td_copy_to_user (se_task E) buf bytes) (\<lambda>_.
       bind (if addr \<noteq> 0 then
               bind (td_copy_to_user (se_task E) addr (nn_addr_bytes (nv_num V) a)) (\<lambda>_.
               td_copy_to_user (se_task E) addr_len (u32_bytes (of_nat (nn_addr_size (nv_num V)))))
             else ret ()) (\<lambda>_. finish len)))
     else bind (se_yield E) (\<lambda>_. recv_loop fuel E V socket_id buf addr addr_len (b, a)))"

definition sys_recvfrom :: "nat \<Rightarrow> ('s, 'st) sys_env \<Rightarrow> 's net_sys \<Rightarrow> nat \<Rightarrow> usize \<Rightarrow> nat \<Rightarrow> usize \<Rightarrow> usize
    \<Rightarrow> ('s, nat progress) act" where
  "sys_recvfrom fuel E V fd buf len addr addr_len =
     bind (fd_socket E V fd) (\<lambda>socket_id.
     recv_loop fuel E V socket_id buf addr addr_len (replicate len 0, nn_addr_default (nv_num V)))"

definition sys_sendto :: "('s, 'st) sys_env \<Rightarrow> 's net_sys \<Rightarrow> nat \<Rightarrow> usize \<Rightarrow> nat \<Rightarrow> usize \<Rightarrow> ('s, nat) act" where
  "sys_sendto E V fd buf len addr =
     bind (fd_socket E V fd) (\<lambda>socket_id.
     bind (td_copy_from_user (se_task E) buf len) (\<lambda>data.
     bind (if addr \<noteq> 0 then bind (read_addr E V addr) (\<lambda>a. ret (Some (sin_addr a, to_be (sin_port a)))) else ret None)
       (\<lambda>remote_addr. nd_sendto (nv_trait V) socket_id data remote_addr)))"

section \<open>Names, options, shutdown\<close>

definition sys_getsockname :: "('s, 'st) sys_env \<Rightarrow> 's net_sys \<Rightarrow> nat \<Rightarrow> usize \<Rightarrow> usize \<Rightarrow> ('s, nat) act" where
  "sys_getsockname E V fd addr addr_len =
     bind (fd_socket E V fd) (\<lambda>socket_id.
     bind (nd_local_addr (nv_trait V) socket_id) (\<lambda>local_addr.
     bind (write_addr E V addr addr_len local_addr) (\<lambda>_. ret 0)))"

definition sys_getpeername :: "('s, 'st) sys_env \<Rightarrow> 's net_sys \<Rightarrow> nat \<Rightarrow> usize \<Rightarrow> usize \<Rightarrow> ('s, nat) act" where
  "sys_getpeername E V fd addr addr_len =
     bind (fd_socket E V fd) (\<lambda>socket_id.
     bind (nd_remote_addr (nv_trait V) socket_id) (\<lambda>remote_addr.
     bind (write_addr E V addr addr_len remote_addr) (\<lambda>_. ret 0)))"

definition sys_set_socket_opt :: "('s, 'st) sys_env \<Rightarrow> 's net_sys \<Rightarrow> nat \<Rightarrow> usize \<Rightarrow> usize \<Rightarrow> ('s, nat) act" where
  "sys_set_socket_opt E V fd level opt_name =
     bind (fd_socket E V fd) (\<lambda>_.
     bind (lift (ok_or (nn_level_of (nv_num V) level) EINVAL)) (\<lambda>level. case level of
       IpLevel \<Rightarrow> ret 0
     | SocketLevel \<Rightarrow> bind (lift (ok_or (nn_sockopt_of (nv_num V) opt_name) EINVAL)) (\<lambda>_. ret 0)
     | TcpLevel \<Rightarrow> bind (lift (ok_or (nn_tcpopt_of (nv_num V) opt_name) EINVAL)) (\<lambda>_. ret 0)))"

text \<open>The value of an option, for those that have one.\<close>

definition sock_option_value :: "sock_option \<Rightarrow> u32 option" where
  "sock_option_value opt = (case opt of SO_RCVBUF \<Rightarrow> Some 32000 | SO_SNDBUF \<Rightarrow> Some 32000 | SO_ERROR \<Rightarrow> Some 0 | SO_OPTION_OTHER \<Rightarrow> None)"

definition tcp_option_value :: "tcp_option \<Rightarrow> u32 option" where
  "tcp_option_value opt = (case opt of TCP_MAXSEG \<Rightarrow> Some 2000 | TCP_NODELAY \<Rightarrow> Some 0 | TCP_OPTION_OTHER \<Rightarrow> None)"

definition sys_get_socket_opt :: "('s, 'st) sys_env \<Rightarrow> 's net_sys \<Rightarrow> nat \<Rightarrow> usize \<Rightarrow> usize \<Rightarrow> usize \<Rightarrow> usize \<Rightarrow> ('s, nat) act" where
  "sys_get_socket_opt E V fd level opt_name opt_value opt_len =
     bind (fd_socket E V fd) (\<lambda>_.
     bind (lift (ok_or (nn_level_of (nv_num V) level) EINVAL)) (\<lambda>level.
     bind (case level of
         IpLevel \<Rightarrow> ret None
       | SocketLevel \<Rightarrow> bind (lift (ok_or (nn_sockopt_of (nv_num V) opt_name) EINVAL)) (\<lambda>opt. ret (sock_option_value opt))
       | TcpLevel \<Rightarrow> bind (lift (ok_or (nn_tcpopt_of (nv_num V) opt_name) EINVAL)) (\<lambda>opt. ret (tcp_option_value opt))) (\<lambda>v.
     bind (case v of None \<Rightarrow> ret () | Some v \<Rightarrow> td_copy_to_user (se_task E) opt_value (u32_bytes v)) (\<lambda>_.
     bind (td_copy_to_user (se_task E) opt_len (to_ne_bytes 4)) (\<lambda>_. ret 0)))))"

definition sys_shutdown :: "('s, 'st) sys_env \<Rightarrow> 's net_sys \<Rightarrow> nat \<Rightarrow> usize \<Rightarrow> ('s, nat) act" where
  "sys_shutdown E V fd how =
     bind (fd_socket E V fd) (\<lambda>socket_id.
     if \<not> nn_shutdown_ok (nv_num V) how then fail EINVAL
     else bind (nd_shutdown (nv_trait V) socket_id) (\<lambda>_. ret 0))"

end
