(* ===== verification/BufDev.thy ===== *)
theory BufDev
  imports SysEnv
begin

text \<open>
  The buffering device domains (\<open>drivers/buf_uart\<close>, \<open>drivers/buf_input\<close>) between a device with
  interrupts and the tasks that wait for its data, and the system calls that use them
  (\<open>common/syscall/syscall/src/gui.rs\<close>), with those that load domains (\<open>domain/mod.rs\<close>). A task that
  finds no data queues itself and sleeps (\<open>Block\<close>); the interrupt handler stores the data and wakes
  sleepers.
\<close>

section \<open>The kernel\<close>

record 'w wait_ops =
  wk_current_tid :: "('w, nat option) act"
  wk_wake :: "nat \<Rightarrow> ('w, unit) act"              \<comment> \<open>\<open>wake_up_wait_task\<close>\<close>
  wk_wait :: "('w, unit) act"                    \<comment> \<open>\<open>wait_now\<close>\<close>

section \<open>The buffered UART\<close>

record 'w buf_uart =
  bu_rx :: "u8 list"
  bu_wait :: "nat list"
  bu_world :: 'w                                 \<comment> \<open>the UART and the kernel\<close>

record 'w uart_ops =
  ut_getc :: "('w, u8 option) act"
  ut_putc :: "u8 \<Rightarrow> ('w, unit) act"
  ut_put_bytes :: "u8 list \<Rightarrow> ('w, nat) act"
  ut_enable_receive_interrupt :: "('w, unit) act"

definition in_uart :: "('w, 'a) act \<Rightarrow> ('w buf_uart, 'a) act" where
  "in_uart = zoom bu_world (\<lambda>w s. s\<lparr>bu_world := w\<rparr>)"

definition bu_new :: "'w \<Rightarrow> 'w buf_uart" where
  "bu_new w = \<lparr> bu_rx = [], bu_wait = [], bu_world = w \<rparr>"

text \<open>The domain found under the name: \<open>None\<close> no such domain, \<open>Some None\<close> one of another type.\<close>

definition bu_init :: "(string \<Rightarrow> 'w uart_ops option option) \<Rightarrow> string \<Rightarrow> ('w buf_uart, unit) act" where
  "bu_init get_domain uart_domain_name =
     bind (lift (unwrap (get_domain uart_domain_name))) (\<lambda>uart_domain. case uart_domain of
       Some uart \<Rightarrow> in_uart (ut_enable_receive_interrupt uart)
     | None \<Rightarrow> fail EINVAL)"

text \<open>The handler reads the device until it has no character left or fails; one sleeper is woken for
  each character. \<open>Block\<close> is a handler that still runs after \<open>fuel\<close> characters.\<close>

fun bu_handle_irq :: "nat \<Rightarrow> 'w wait_ops \<Rightarrow> 'w uart_ops \<Rightarrow> ('w buf_uart, unit progress) act" where
  "bu_handle_irq 0 K U = ret Block"
| "bu_handle_irq (Suc fuel) K U =
     bind (attempt (in_uart (ut_getc U))) (\<lambda>r. case r of
       Inr (Some c) \<Rightarrow>
         bind (modify_state (\<lambda>s. s\<lparr>bu_rx := bu_rx s @ [c]\<rparr>)) (\<lambda>_.
         bind get_state (\<lambda>s.
         bind (case bu_wait s of
                 [] \<Rightarrow> ret ()
               | tid # ts \<Rightarrow> bind (modify_state (\<lambda>s. s\<lparr>bu_wait := ts\<rparr>)) (\<lambda>_. in_uart (wk_wake K tid))) (\<lambda>_.
         bu_handle_irq fuel K U)))
     | _ \<Rightarrow> finish ())"

definition bu_putc :: "'w uart_ops \<Rightarrow> u8 \<Rightarrow> ('w buf_uart, unit) act" where
  "bu_putc U ch = in_uart (ut_putc U ch)"

definition bu_put_bytes :: "'w uart_ops \<Rightarrow> u8 list \<Rightarrow> ('w buf_uart, nat) act" where
  "bu_put_bytes U buf = in_uart (ut_put_bytes U buf)"

text \<open>One round of the loop of \<open>getc\<close>: a task that is woken starts again.\<close>

definition bu_getc :: "'w wait_ops \<Rightarrow> ('w buf_uart, u8 option progress) act" where
  "bu_getc K = bind get_state (\<lambda>s. case bu_rx s of
       [] \<Rightarrow>
         bind (in_uart (wk_current_tid K)) (\<lambda>tid. bind (lift (ok_or tid EINVAL)) (\<lambda>tid.
         bind (if tid \<in> set (bu_wait s) then ret () else modify_state (\<lambda>s. s\<lparr>bu_wait := bu_wait s @ [tid]\<rparr>)) (\<lambda>_.
         bind (in_uart (wk_wait K)) (\<lambda>_. ret Block))))
     | c # cs \<Rightarrow> bind (modify_state (\<lambda>s. s\<lparr>bu_rx := cs\<rparr>)) (\<lambda>_. ret (Done (Some c))))"

definition bu_have_data_to_get :: "('w buf_uart, bool) act" where
  "bu_have_data_to_get = bind get_state (\<lambda>s. ret (bu_rx s \<noteq> []))"

definition bu_have_space_to_put :: "('w buf_uart, bool) act" where
  "bu_have_space_to_put = ret True"

section \<open>The buffered input device\<close>

record 'w buf_input =
  bi_events :: "u64 list"
  bi_wait :: "nat list"
  bi_world :: 'w

record 'w input_ops =
  ip_event_nonblock :: "('w, u64 option) act"

definition in_input :: "('w, 'a) act \<Rightarrow> ('w buf_input, 'a) act" where
  "in_input = zoom bi_world (\<lambda>w s. s\<lparr>bi_world := w\<rparr>)"

definition bi_new :: "'w \<Rightarrow> 'w buf_input" where
  "bi_new w = \<lparr> bi_events = [], bi_wait = [], bi_world = w \<rparr>"

text \<open>The device below is part of \<open>bi_world\<close>; \<open>init\<close> only looks it up (\<open>Some False\<close>: a domain of another
  type).\<close>

definition bi_init :: "(string \<Rightarrow> bool option) \<Rightarrow> string \<Rightarrow> ('w buf_input, unit) act" where
  "bi_init get_domain input_domain_name =
     bind (lift (unwrap (get_domain input_domain_name))) (\<lambda>is_input.
     if is_input then ret () else fail EINVAL)"

text \<open>The oldest event makes room for a new one.\<close>

definition bi_push :: "nat \<Rightarrow> u64 \<Rightarrow> u64 list \<Rightarrow> u64 list" where
  "bi_push max_events event events =
     (if length events \<ge> max_events then drop 1 events else events) @ [event]"

text \<open>The device is drained of its events; \<open>Block\<close> is a handler that still drains after \<open>fuel\<close> of them.\<close>

fun bi_drain :: "nat \<Rightarrow> nat \<Rightarrow> 'w input_ops \<Rightarrow> nat \<Rightarrow> ('w buf_input, nat progress) act" where
  "bi_drain 0 max_events I cnt = ret Block"
| "bi_drain (Suc fuel) max_events I cnt =
     bind (in_input (ip_event_nonblock I)) (\<lambda>r. case r of
       None \<Rightarrow> finish cnt
     | Some event \<Rightarrow>
         bind (modify_state (\<lambda>s. s\<lparr>bi_events := bi_push max_events event (bi_events s)\<rparr>)) (\<lambda>_.
         bi_drain fuel max_events I (cnt + 1)))"

fun bi_wake :: "'w wait_ops \<Rightarrow> nat \<Rightarrow> ('w buf_input, unit) act" where
  "bi_wake K 0 = ret ()"
| "bi_wake K (Suc cnt) = bind get_state (\<lambda>s. case bi_wait s of
       [] \<Rightarrow> ret ()
     | tid # ts \<Rightarrow> bind (modify_state (\<lambda>s. s\<lparr>bi_wait := ts\<rparr>)) (\<lambda>_. bind (in_input (wk_wake K tid)) (\<lambda>_. bi_wake K cnt)))"

definition bi_handle_irq :: "nat \<Rightarrow> nat \<Rightarrow> 'w wait_ops \<Rightarrow> 'w input_ops \<Rightarrow> ('w buf_input, unit progress) act" where
  "bi_handle_irq fuel max_events K I =
     bindp (bi_drain fuel max_events I 0) (\<lambda>cnt. bind (bi_wake K cnt) (\<lambda>_. finish ()))"

definition bi_event_block :: "'w wait_ops \<Rightarrow> ('w buf_input, u64 progress) act" where
  "bi_event_block K = bind get_state (\<lambda>s. case bi_events s of
       event # es \<Rightarrow> bind (modify_state (\<lambda>s. s\<lparr>bi_events := es\<rparr>)) (\<lambda>_. ret (Done event))
     | [] \<Rightarrow>
         bind (in_input (wk_current_tid K)) (\<lambda>tid. bind (lift (unwrap tid)) (\<lambda>tid.
         bind (modify_state (\<lambda>s. s\<lparr>bi_wait := bi_wait s @ [tid]\<rparr>)) (\<lambda>_.
         bind (in_input (wk_wait K)) (\<lambda>_. ret Block)))))"

definition bi_event_nonblock :: "('w buf_input, u64 option) act" where
  "bi_event_nonblock = bind get_state (\<lambda>s. case bi_events s of
       event # es \<Rightarrow> bind (modify_state (\<lambda>s. s\<lparr>bi_events := es\<rparr>)) (\<lambda>_. ret (Some event)) | [] \<Rightarrow> ret None)"

definition bi_have_event :: "('w buf_input, bool) act" where
  "bi_have_event = bind get_state (\<lambda>s. ret (bi_events s \<noteq> []))"

section \<open>The system calls on them\<close>

record 's gpu_trait =
  gp_flush :: "('s, unit) act"
  gp_buffer_range :: "('s, usize \<times> usize) act"

record 's input_trait =
  id_have_event :: "('s, bool) act"
  id_event_block :: "('s, u64 progress) act"

record ('s, 'st) gui_env =
  gu_mmap_device :: "usize \<times> usize \<Rightarrow> ('s, usize) act"
  gu_register_domain :: "u8 list \<Rightarrow> u8 \<Rightarrow> u8 list \<Rightarrow> ('s, unit) act"
  gu_update_domain :: "u8 list \<Rightarrow> u8 list \<Rightarrow> u8 \<Rightarrow> ('s, unit) act"
  gu_type_ok :: "u8 \<Rightarrow> bool"                      \<comment> \<open>\<open>DomainTypeRaw::try_from\<close> succeeds\<close>
  gu_size :: "'st \<Rightarrow> u64"
  gu_frame_size :: usize

definition sys_framebuffer_flush :: "'s gpu_trait option \<Rightarrow> ('s, nat) act" where
  "sys_framebuffer_flush gpu = bind (lift (ok_or gpu EINVAL)) (\<lambda>gpu. bind (gp_flush gpu) (\<lambda>_. ret 0))"

definition sys_framebuffer :: "('s, 'st) gui_env \<Rightarrow> 's gpu_trait option \<Rightarrow> ('s, usize) act" where
  "sys_framebuffer G gpu =
     bind (lift (ok_or gpu EINVAL)) (\<lambda>gpu. bind (gp_buffer_range gpu) (\<lambda>gpu_phy_buf.
     bind (assert_that (fst gpu_phy_buf mod gu_frame_size G = 0)) (\<lambda>_. gu_mmap_device G gpu_phy_buf)))"

text \<open>The loop of \<open>event_get\<close> over the input devices; \<open>room\<close> is \<open>len - count\<close>.\<close>

fun event_loop :: "nat \<Rightarrow> 's input_trait list \<Rightarrow> u8 list \<Rightarrow> nat \<Rightarrow> ('s, (u8 list \<times> nat) progress) act" where
  "event_loop room [] events cnt = finish (events, cnt)"
| "event_loop 0 (input # is) events cnt =
     bind (id_have_event input) (\<lambda>more. if more then finish (events, cnt) else event_loop 0 is events cnt)"
| "event_loop (Suc room) (input # is) events cnt =
     bind (id_have_event input) (\<lambda>more.
     if more then bindp (id_event_block input) (\<lambda>event.
       event_loop room (input # is) (events @ to_ne_bytes event) (cnt + 1))
     else event_loop (Suc room) is events cnt)"

definition sys_event_get :: "('s, 'st) sys_env \<Rightarrow> 's input_trait list \<Rightarrow> usize \<Rightarrow> nat \<Rightarrow> ('s, nat progress) act" where
  "sys_event_get E input event_buf len =
     bindp (event_loop len input [] 0) (\<lambda>(events, cnt).
     bind (assert_that (length events \<le> len * 8)) (\<lambda>_.
     bind (lift (slice_to (cnt * 8) events)) (\<lambda>bytes.
     bind (td_copy_to_user (se_task E) event_buf bytes) (\<lambda>_. finish cnt))))"

definition sys_load_domain :: "('s, 'st) sys_env \<Rightarrow> ('s, 'st) gui_env \<Rightarrow> nat \<Rightarrow> u8 \<Rightarrow> usize \<Rightarrow> nat \<Rightarrow> ('s, nat progress) act" where
  "sys_load_domain E G fd ty domain_name len =
     (if len = 0 then fail EINVAL
      else bind (td_copy_from_user (se_task E) domain_name len) (\<lambda>tmp_buf.
        bind (lift (user_str E tmp_buf len)) (\<lambda>domain_name.
        bind (td_get_fd (se_task E) fd) (\<lambda>file.
        bind (vd_getattr (se_file E) file) (\<lambda>attr.
        if \<not> gu_type_ok G ty then fail EINVAL
        else bindp (vd_read_at (se_data E) file 0 (se_uninit E (unat (gu_size G attr)))) (\<lambda>(buf, read_size).
          bind (gu_register_domain G domain_name ty buf) (\<lambda>_. finish 0)))))))"

definition sys_replace_domain :: "('s, 'st) sys_env \<Rightarrow> ('s, 'st) gui_env \<Rightarrow> usize \<Rightarrow> nat \<Rightarrow> usize \<Rightarrow> nat \<Rightarrow> u8 \<Rightarrow> ('s, nat) act" where
  "sys_replace_domain E G old_domain_name old_len new_domain_name new_len ty =
     (if new_len = 0 \<and> old_len = 0 \<and> ty = 0 then fail EINVAL
      else bind (td_copy_from_user (se_task E) old_domain_name old_len) (\<lambda>tmp_buf.
        bind (lift (user_str E tmp_buf old_len)) (\<lambda>old_domain_name.
        bind (td_copy_from_user (se_task E) new_domain_name new_len) (\<lambda>tmp_buf.
        bind (lift (user_str E tmp_buf new_len)) (\<lambda>new_domain_name.
        if \<not> gu_type_ok G ty then fail EINVAL
        else bind (gu_update_domain G old_domain_name new_domain_name ty) (\<lambda>_. ret 0))))))"

section \<open>The UART loses nothing\<close>

lemma in_uart_run [act_simps]: "in_uart m s = (case m (bu_world s) of (r, w) \<Rightarrow> (r, s\<lparr>bu_world := w\<rparr>))"
  by (simp add: in_uart_def act_simps)

lemma in_input_run [act_simps]: "in_input m s = (case m (bi_world s) of (r, w) \<Rightarrow> (r, s\<lparr>bi_world := w\<rparr>))"
  by (simp add: in_input_def act_simps)

text \<open>A UART with a queue of characters, and a kernel that records who was woken.\<close>

definition uart_law :: "'w wait_ops \<Rightarrow> 'w uart_ops \<Rightarrow> ('w \<Rightarrow> u8 list) \<Rightarrow> ('w \<Rightarrow> nat list) \<Rightarrow> bool" where
  "uart_law K U queue woken \<longleftrightarrow>
     (\<forall>w. case queue w of
        [] \<Rightarrow> \<exists>w'. ut_getc U w = (Ok None, w') \<and> queue w' = [] \<and> woken w' = woken w
      | c # cs \<Rightarrow> \<exists>w'. ut_getc U w = (Ok (Some c), w') \<and> queue w' = cs \<and> woken w' = woken w)
   \<and> (\<forall>t w. \<exists>w'. wk_wake K t w = (Ok (), w') \<and> queue w' = queue w \<and> woken w' = woken w @ [t])"

text \<open>One interrupt takes every character of the device over, in order, and wakes as many sleepers as
  there are characters, those that have slept longest.\<close>

theorem buf_uart_irq:
  assumes "uart_law K U queue woken" "queue (bu_world s) = cs" "length cs < fuel"
  shows "\<exists>s'. bu_handle_irq fuel K U s = (Ok (Done ()), s') \<and> bu_rx s' = bu_rx s @ cs \<and> queue (bu_world s') = []
    \<and> woken (bu_world s') = woken (bu_world s) @ take (length cs) (bu_wait s) \<and> bu_wait s' = drop (length cs) (bu_wait s)"
  using assms(2-)
proof (induction fuel arbitrary: s cs)
  case (Suc fuel)
  show ?case
  proof (cases cs)
    case Nil
    then obtain w where "ut_getc U (bu_world s) = (Ok None, w)" "queue w = []" "woken w = woken (bu_world s)"
      using spec [OF conjunct1 [OF assms(1) [unfolded uart_law_def]], of "bu_world s"] Suc.prems(1) by auto
    then show ?thesis using Nil by (simp add: act_simps)
  next
    case (Cons c ds)
    obtain w where w: "ut_getc U (bu_world s) = (Ok (Some c), w)" "queue w = ds" "woken w = woken (bu_world s)"
      using spec [OF conjunct1 [OF assms(1) [unfolded uart_law_def]], of "bu_world s"] Suc.prems(1) Cons by auto
    show ?thesis
    proof (cases "bu_wait s")
      case Nil
      then show ?thesis
        using Suc.IH [of "s\<lparr>bu_world := w, bu_rx := bu_rx s @ [c]\<rparr>" ds] Suc.prems(2) Cons w by (simp add: act_simps)
    next
      case (Cons t ts)
      obtain w' where w': "wk_wake K t w = (Ok (), w')" "queue w' = queue w" "woken w' = woken w @ [t]"
        using assms(1) unfolding uart_law_def by blast
      show ?thesis
        using Suc.IH [of "s\<lparr>bu_rx := bu_rx s @ [c], bu_wait := ts, bu_world := w'\<rparr>" ds] Suc.prems(2) \<open>cs = c # ds\<close> w w' Cons
        by (simp add: act_simps)
    qed
  qed
qed simp

section \<open>The event ring\<close>

lemma bi_push_last:
  assumes "0 < n" "length es \<le> n"
  shows "bi_push n e es = drop (Suc (length es) - n) (es @ [e])" "length (bi_push n e es) \<le> n"
  using assms by (auto simp: bi_push_def)

definition input_law :: "'w input_ops \<Rightarrow> ('w \<Rightarrow> u64 list) \<Rightarrow> bool" where
  "input_law I queue \<longleftrightarrow> (\<forall>w. case queue w of
        [] \<Rightarrow> \<exists>w'. ip_event_nonblock I w = (Ok None, w') \<and> queue w' = []
      | e # es \<Rightarrow> \<exists>w'. ip_event_nonblock I w = (Ok (Some e), w') \<and> queue w' = es)"

text \<open>After an interrupt the device domain holds the newest \<open>max_events\<close> of the old and the new
  events, in order; older ones are dropped.\<close>

theorem buf_input_ring:
  assumes "input_law I queue" "queue (bi_world s) = es" "length es < fuel" "0 < n" "length (bi_events s) \<le> n"
  shows "\<exists>s'. bi_drain fuel n I cnt s = (Ok (Done (cnt + length es)), s') \<and> bi_wait s' = bi_wait s
    \<and> bi_events s' = drop (length (bi_events s) + length es - n) (bi_events s @ es)"
  using assms(2,3,5)
proof (induction fuel arbitrary: s es cnt)
  case (Suc fuel)
  show ?case
  proof (cases es)
    case Nil
    then show ?thesis
      using spec [OF assms(1) [unfolded input_law_def], of "bi_world s"] Suc.prems by (auto simp: act_simps)
  next
    case (Cons e ds)
    then obtain w where w: "ip_event_nonblock I (bi_world s) = (Ok (Some e), w)" "queue w = ds"
      using spec [OF assms(1) [unfolded input_law_def], of "bi_world s"] Suc.prems by auto
    let ?s = "s\<lparr>bi_world := w, bi_events := bi_push n e (bi_events s)\<rparr>"
    have "\<exists>s'. bi_drain fuel n I (cnt + 1) ?s = (Ok (Done (cnt + 1 + length ds)), s') \<and> bi_wait s' = bi_wait s
        \<and> bi_events s' = drop (length (bi_events ?s) + length ds - n) (bi_events ?s @ ds)"
      using Suc.IH [of ?s ds "cnt + 1"] Suc.prems Cons w(2) bi_push_last(2) [OF assms(4) Suc.prems(3)] by simp
    moreover have "drop (length (bi_events ?s) + length ds - n) (bi_events ?s @ ds)
        = drop (length (bi_events s) + length es - n) (bi_events s @ es)"
      using Suc.prems(3) assms(4) by (auto simp: Cons bi_push_def)
    ultimately show ?thesis using w(1) Cons by (simp add: act_simps)
  qed
qed simp

section \<open>Fetching events\<close>

text \<open>Input devices with queues: device \<open>i\<close> hands out \<open>view s i\<close>, oldest first.\<close>

definition inputs_law :: "'s input_trait list \<Rightarrow> ('s \<Rightarrow> nat \<Rightarrow> u64 list) \<Rightarrow> bool" where
  "inputs_law is view \<longleftrightarrow> (\<forall>i < length is. \<forall>s.
     id_have_event (is ! i) s = (Ok (view s i \<noteq> []), s)
     \<and> (\<forall>e es. view s i = e # es \<longrightarrow> (\<exists>s'. id_event_block (is ! i) s = (Ok (Done e), s') \<and> view s' = (view s)(i := es))))"

lemma inputs_lawD:
  assumes "inputs_law is view" "i < length is"
  shows "id_have_event (is ! i) s = (Ok (view s i \<noteq> []), s)"
    "view s i = e # es \<Longrightarrow> \<exists>s'. id_event_block (is ! i) s = (Ok (Done e), s') \<and> view s' = (view s)(i := es)"
  using assms unfolding inputs_law_def by blast+

definition all_events :: "('s \<Rightarrow> nat \<Rightarrow> u64 list) \<Rightarrow> nat \<Rightarrow> nat \<Rightarrow> 's \<Rightarrow> u64 list" where
  "all_events view i n s = concat (map (view s) [i..<n])"

lemma all_events_step: "i < n \<Longrightarrow> all_events view i n s = view s i @ all_events view (Suc i) n s"
  by (simp add: all_events_def upt_conv_Cons)

lemma event_loop_run:
  assumes "inputs_law is view"
  shows "\<exists>s'. event_loop room (drop i is) ev cnt s
      = (Ok (Done (ev @ concat (map to_ne_bytes (take room (all_events view i (length is) s))),
                   cnt + min room (length (all_events view i (length is) s)))), s')
    \<and> all_events view i (length is) s' = drop room (all_events view i (length is) s) \<and> (\<forall>j < i. view s' j = view s j)"
proof (induction "room + (length is - i)" arbitrary: room i ev cnt s rule: less_induct)
  case less
  show ?case
  proof (cases "i < length is")
    case False
    then have "drop i is = []" "all_events view i (length is) s = []" by (simp_all add: all_events_def)
    then show ?thesis by (simp add: act_simps)
  next
    case True
    then have split: "drop i is = is ! i # drop (Suc i) is" by (simp add: Cons_nth_drop_Suc)
    show ?thesis
    proof (cases "view s i")
      case Nil
      have "event_loop room (drop i is) ev cnt s = event_loop room (drop (Suc i) is) ev cnt s"
        unfolding split using inputs_lawD(1) [OF assms True] Nil by (cases room) (simp_all add: act_simps)
      moreover obtain s' where "event_loop room (drop (Suc i) is) ev cnt s
          = (Ok (Done (ev @ concat (map to_ne_bytes (take room (all_events view (Suc i) (length is) s))),
                   cnt + min room (length (all_events view (Suc i) (length is) s)))), s')"
        "all_events view (Suc i) (length is) s' = drop room (all_events view (Suc i) (length is) s)"
        "\<forall>j < Suc i. view s' j = view s j"
        using less [of room "Suc i" ev cnt s] True diff_less_mono2 [of i "Suc i" "length is"] by fastforce
      ultimately show ?thesis using Nil True by (simp add: all_events_step)
    next
      case (Cons e es)
      show ?thesis
      proof (cases room)
        case 0
        then show ?thesis using inputs_lawD(1) [OF assms True] Cons unfolding split by (simp add: act_simps)
      next
        case (Suc r)
        obtain s1 where s1: "id_event_block (is ! i) s = (Ok (Done e), s1)" "view s1 = (view s)(i := es)"
          using inputs_lawD(2) [OF assms True Cons] by blast
        have "event_loop room (drop i is) ev cnt s = event_loop r (drop i is) (ev @ to_ne_bytes e) (cnt + 1) s1"
          unfolding split Suc using inputs_lawD(1) [OF assms True] Cons s1(1) by (simp add: act_simps bindp_def)
        moreover have "all_events view i (length is) s = e # all_events view i (length is) s1"
          using True Cons s1(2) by (simp add: all_events_step) (simp add: all_events_def)
        moreover have "r + (length is - i) < room + (length is - i)" using Suc by simp
        ultimately show ?thesis
          using less [of r i "ev @ to_ne_bytes e" "cnt + 1" s1] s1(2) Suc by auto
      qed
    qed
  qed
qed


section \<open>A concrete system\<close>

text \<open>One buffered input device and the memory of the user.\<close>

type_synonym toy_desk = "unit buf_input \<times> u8 list"

definition toy_input :: "unit wait_ops \<Rightarrow> toy_desk input_trait" where
  "toy_input K = \<lparr> id_have_event = zoom fst (\<lambda>b s. (b, snd s)) bi_have_event,
     id_event_block = zoom fst (\<lambda>b s. (b, snd s)) (bi_event_block K) \<rparr>"

definition desk_events :: "toy_desk \<Rightarrow> nat \<Rightarrow> u64 list" where
  "desk_events s i = (if i = 0 then bi_events (fst s) else [])"

lemma toy_input_law: "inputs_law [toy_input K] desk_events"
  by (auto simp: inputs_law_def toy_input_def desk_events_def bi_have_event_def bi_event_block_def act_simps split: list.splits)

definition desk_env :: "(toy_desk, unit) sys_env" where
  "desk_env = quiet_env\<lparr>se_task := quiet_task\<lparr> td_copy_to_user := (\<lambda>_ bs s. (Ok (), (fst s, bs))) \<rparr>\<rparr>"

definition desk_wait :: "unit wait_ops" where
  "desk_wait = \<lparr> wk_current_tid = ret (Some 1), wk_wake = (\<lambda>_. ret ()), wk_wait = ret () \<rparr>"


text \<open>A UART whose world is the characters to come and the tasks woken so far.\<close>

definition toy_wait :: "(u8 list \<times> nat list) wait_ops" where
  "toy_wait = \<lparr> wk_current_tid = ret (Some 1), wk_wake = (\<lambda>t w. (Ok (), (fst w, snd w @ [t]))), wk_wait = ret () \<rparr>"

definition toy_uart :: "(u8 list \<times> nat list) uart_ops" where
  "toy_uart = \<lparr> ut_getc = (\<lambda>w. case fst w of [] \<Rightarrow> (Ok None, w) | c # cs \<Rightarrow> (Ok (Some c), (cs, snd w))),
     ut_putc = (\<lambda>_. ret ()), ut_put_bytes = (\<lambda>bs. ret (length bs)), ut_enable_receive_interrupt = ret () \<rparr>"

theorem buf_uart_irq_witness:
  "\<exists>s'. bu_handle_irq 9 toy_wait toy_uart \<lparr> bu_rx = [1], bu_wait = [7, 8, 9], bu_world = ([2, 3], []) \<rparr> = (Ok (Done ()), s')
    \<and> bu_rx s' = [1, 2, 3] \<and> bu_wait s' = [9] \<and> snd (bu_world s') = [7, 8]"
proof -
  have "uart_law toy_wait toy_uart fst snd" by (simp add: uart_law_def toy_wait_def toy_uart_def split: list.split)
  from buf_uart_irq [OF this, of "\<lparr> bu_rx = [1], bu_wait = [7, 8, 9], bu_world = ([2, 3], []) \<rparr>" "[2, 3]" 9]
  show ?thesis by (auto simp: numeral_eq_Suc)
qed

definition toy_ring :: "u64 list input_ops" where
  "toy_ring = \<lparr> ip_event_nonblock = (\<lambda>w. case w of [] \<Rightarrow> (Ok None, w) | e # es \<Rightarrow> (Ok (Some e), es)) \<rparr>"

theorem buf_input_ring_witness:
  "\<exists>s'. bi_drain 9 3 toy_ring 0 \<lparr> bi_events = [1, 2], bi_wait = [7], bi_world = [3, 4] \<rparr> = (Ok (Done 2), s') \<and> bi_events s' = [2, 3, 4]"
proof -
  have "input_law toy_ring (\<lambda>w. w)" by (simp add: input_law_def toy_ring_def split: list.split)
  from buf_input_ring [OF this, of "\<lparr> bi_events = [1, 2], bi_wait = [7], bi_world = [3, 4] \<rparr>" "[3, 4]" 9 3 0]
  show ?thesis by auto
qed

end
