(* ===== verification/SysFrame.thy ===== *)
theory SysFrame
  imports SysFs SysPoll SysNet BufDev
begin

text \<open>
  What a system call may do to a part of the state that it reaches only through the domains: the
  locale \<open>kept_calls\<close> fixes a predicate on the state that every operation of the task, VFS and network
  traits keeps; inside it, every file, polling and socket call keeps the predicate, on every path,
  failing ones included. It is interpreted where the traits are those of the task domain's model.
\<close>

section \<open>Keeping a predicate through the combinators\<close>

named_theorems kept_intros \<open>steps that keep the predicate when their parts do\<close>

lemma keeps_finish [kept_intros]: "keeps P (finish x)"
  by (simp add: keeps_def act_simps)

lemma keeps_bindp [kept_intros]: "keeps P m \<Longrightarrow> (\<And>x. keeps P (f x)) \<Longrightarrow> keeps P (bindp m f)"
  unfolding bindp_def by (rule keeps_bind) (auto split: progress.split)

lemma keeps_cases [kept_intros]:
  "keeps P m \<Longrightarrow> keeps P m' \<Longrightarrow> keeps P (if b then m else m')"
  "(\<And>a b. keeps P (g a b)) \<Longrightarrow> keeps P (case p of (a, b) \<Rightarrow> g a b)"
  "keeps P m \<Longrightarrow> (\<And>x. keeps P (h x)) \<Longrightarrow> keeps P (case opt of None \<Rightarrow> m | Some x \<Rightarrow> h x)"
  "(\<And>x. keeps P (l x)) \<Longrightarrow> (\<And>x. keeps P (r x)) \<Longrightarrow> keeps P (case sm of Inl x \<Rightarrow> l x | Inr x \<Rightarrow> r x)"
  by (simp_all split: prod.split option.split sum.split)

lemmas keeps_combinators [kept_intros] = keeps_basics keeps_bind keeps_attempt keeps_must

section \<open>The interface\<close>

locale kept_calls =
  fixes P :: "'s \<Rightarrow> bool" and E :: "('s, 'st) sys_env" and V :: "'s net_sys" and G :: "('s, 'st) gui_env"
  assumes user_kept:
      "keeps P (td_read_string (se_task E) p buf)" "keeps P (td_copy_from_user (se_task E) p n)"
      "keeps P (td_copy_to_user (se_task E) p buf)" "keeps P (td_read_u64 (se_task E) p)"
      "keeps P (td_write_u64 (se_task E) p v)" "keeps P (td_read_epoll (se_task E) p)"
      "keeps P (td_read_timespec (se_task E) p)"
    and descriptors_kept:
      "keeps P (td_get_fd (se_task E) fd)" "keeps P (td_add_fd (se_task E) f)" "keeps P (td_remove_fd (se_task E) fd)"
      "keeps P (td_fs_info (se_task E))" "keeps P (td_set_cwd (se_task E) f)" "keeps P (td_do_fcntl (se_task E) fd cmd)"
      "keeps P (td_do_dup (se_task E) fd new_fd)" "keeps P (td_do_pipe2 (se_task E) f g p)"
    and data_kept:
      "keeps P (vd_read (se_data E) f buf)" "keeps P (vd_write (se_data E) f buf n)"
      "keeps P (vd_read_at (se_data E) f off buf)" "keeps P (vd_write_at (se_data E) f off buf n)"
      "keeps P (vd_ftruncate (se_data E) f off)" "keeps P (vd_fsync (se_data E) f)"
      "keeps P (vd_lseek (se_data E) f seek)" "keeps P (vd_readdir (se_data E) f buf)"
    and files_kept:
      "keeps P (vd_open (se_file E) f buf n md flags)" "keeps P (vd_close (se_file E) f)" "keeps P (vd_getattr (se_file E) f)"
      "keeps P (vd_statfs (se_file E) f)" "keeps P (vd_get_path (se_file E) f buf)" "keeps P (vd_is_dir (se_file E) f)"
      "keeps P (vd_poll (se_file E) f ev)" "keeps P (vd_ioctl (se_file E) f c p)" "keeps P (vd_do_fcntl (se_file E) f cmd p)"
    and paths_kept:
      "keeps P (vd_update_atime (se_paths E) f v w)" "keeps P (vd_update_mtime (se_paths E) f v w)"
      "keeps P (vd_rename (se_paths E) f g buf n buf' n' roots c)" "keeps P (vd_unlink (se_paths E) f buf n c)"
      "keeps P (vd_linkat (se_paths E) f buf n g buf' n' c)" "keeps P (vd_symlinkat (se_paths E) buf n f buf' n')"
      "keeps P (vd_readlinkat (se_paths E) f buf n buf')" "keeps P (vd_do_pipe2 (se_paths E) p)"
      "keeps P (vd_do_poll_create (se_paths E) p)" "keeps P (vd_do_poll_ctl (se_paths E) f c n event)"
      "keeps P (vd_do_eventfd (se_paths E) c d)"
    and kernel_kept: "keeps P (se_now E)" "keeps P (se_yield E)"
    and net_kept:
      "keeps P (nd_socket (nv_trait V) p ty p')" "keeps P (nd_socket_pair (nv_trait V) p ty)" "keeps P (nd_bind (nv_trait V) n a)"
      "keeps P (nd_listen (nv_trait V) n p)" "keeps P (nd_accept (nv_trait V) n)" "keeps P (nd_connect (nv_trait V) n sa)"
      "keeps P (nd_recv_from (nv_trait V) n arg)" "keeps P (nd_sendto (nv_trait V) n buf to)" "keeps P (nd_shutdown (nv_trait V) n)"
      "keeps P (nd_remote_addr (nv_trait V) n)" "keeps P (nd_local_addr (nv_trait V) n)" "keeps P (nd_do_socket (nv_trait V) n)"
      "keeps P (nd_socket_id (nv_trait V) f)"
    and gui_kept:
      "keeps P (gu_mmap_device G pr)" "keeps P (gu_register_domain G buf ty' buf')" "keeps P (gu_update_domain G buf buf' ty')"
begin

lemmas calls_kept [kept_intros] =
  user_kept descriptors_kept data_kept files_kept paths_kept kernel_kept net_kept gui_kept

section \<open>Paths and descriptors\<close>

lemma paths [kept_intros]:
  "keeps P (user_path_at E d path)" "keeps P (read_path E n p)" "keeps P (path_start E d n p)"
  unfolding user_path_at_def read_path_def path_start_def by (intro kept_intros)+

lemma descriptor_calls:
  "keeps P (sys_openat E d p flags md)" "keeps P (sys_close E fd)" "keeps P (sys_dup E fd)" "keeps P (sys_dup2 E fd fd')"
  "keeps P (sys_dup3 E fd fd' flags)" "keeps P (sys_poll_createl E flags)" "keeps P (sys_poll_ctl E fd op fd' p)"
  "keeps P (sys_eventfd2 E v flags)" "keeps P (sys_pipe2 E p flags)" "keeps P (sys_ioctl E fd req p)"
  unfolding sys_openat_def sys_close_def sys_dup_def sys_dup2_def sys_dup3_def sys_poll_createl_def sys_poll_ctl_def
    sys_eventfd2_def sys_pipe2_def sys_ioctl_def
  by (intro kept_intros)+

lemma fcntl_call: "keeps P (sys_fcntl E fd cmd arg)"
  unfolding sys_fcntl_def by (intro kept_intros)

section \<open>Data\<close>

lemma data_calls:
  "keeps P (sys_write E fd p n)" "keeps P (sys_read E fd p n)" "keeps P (sys_pread64 E fd p n off)"
  "keeps P (sys_pwrite64 E fd p n off)" "keeps P (sys_ftruncate E fd off)" "keeps P (sys_lseek E fd off wh)"
  "keeps P (sys_fsync E fd)" "keeps P (sys_getdents64 E fd p n)"
  unfolding sys_write_def sys_read_def sys_pread64_def sys_pwrite64_def sys_ftruncate_def sys_lseek_def sys_fsync_def
    sys_getdents64_def
  by (intro kept_intros)+

lemma read_iovec_kept [kept_intros]: "keeps P (read_iovec E iov i)"
  unfolding read_iovec_def by (intro kept_intros)

lemma vector_loops [kept_intros]:
  "keeps P (readv_loop E f iov is cnt)" "keeps P (writev_loop E f iov is cnt)" "keeps P (gather_loop E iov is ob cnt)"
  by (induction "is" arbitrary: cnt ob) (simp_all only: readv_loop.simps writev_loop.simps gather_loop.simps, (intro kept_intros; assumption)+)

lemma vector_calls: "keeps P (sys_readv E fd iov n)" "keeps P (sys_writev E fd iov n)"
  unfolding sys_readv_def sys_writev_def by (intro kept_intros)+

lemma sendfile_kept [kept_intros]: "keeps P (sendfile_loop fuel E f g cnt off sent buf)"
proof (induction fuel arbitrary: off sent buf)
  case (Suc fuel)
  show ?case unfolding sendfile_loop.simps by (intro kept_intros Suc)
qed (simp add: keeps_finish)

lemma sendfile_call: "keeps P (sys_sendfile E fd fd' p cnt)"
  unfolding sys_sendfile_def Let_def by (intro kept_intros)

section \<open>Attributes, directories, names\<close>

lemma set_time_kept [kept_intros]: "(\<And>a b c. keeps P (upd a b c)) \<Longrightarrow> keeps P (set_time upd f now time)"
  unfolding set_time_def by (intro kept_intros)

lemma attribute_calls:
  "keeps P (sys_fstatat E d p sb flags)" "keeps P (sys_faccessat E d p md flags)" "keeps P (sys_fstat E fd sb)"
  "keeps P (sys_utimensat E d p tp flags)" "keeps P (sys_chdir E p)" "keeps P (sys_fchdir E fd)" "keeps P (sys_getcwd E p n)"
  "keeps P (sys_statfs E p sb)" "keeps P (sys_fstatfs E fd sb)"
  unfolding sys_fstatat_def sys_faccessat_def sys_fstat_def sys_utimensat_def sys_chdir_def sys_fchdir_def sys_getcwd_def
    sys_statfs_def sys_fstatfs_def Let_def
  by (intro kept_intros)+

lemma name_calls:
  "keeps P (sys_mkdirat E d p md)" "keeps P (sys_unlinkat E d p flags)" "keeps P (sys_renameat2 E d p d' p' flags)"
  "keeps P (sys_linkat E d p d' p' flags)" "keeps P (sys_symlinkat E p d p')" "keeps P (sys_readlinkat E d p bp n)"
  "keeps P (sys_truncate E p off)"
  unfolding sys_mkdirat_def sys_unlinkat_def sys_renameat2_def sys_linkat_def sys_symlinkat_def sys_readlinkat_def
    sys_truncate_def Let_def
  by (intro kept_intros)+

section \<open>Waiting for events\<close>

lemma select_scan_kept [kept_intros]: "keeps P (select_scan E ev is ori m r)"
proof (induction "is" arbitrary: m r)
  case (Cons i "is")
  show ?case unfolding select_scan.simps by (intro kept_intros Cons)
qed (simp add: keeps_basics)

lemma select_round_kept [kept_intros]: "keeps P (select_round E args n ori)" "keeps P (expired E wt)" "keeps P (read_mask E p)"
  unfolding select_round_def select_mask_def expired_def read_mask_def by (intro kept_intros)+

lemma select_loop_kept [kept_intros]: "keeps P (select_loop fuel E args n ori wt z)"
proof (induction fuel)
  case (Suc fuel)
  show ?case unfolding select_loop.simps by (intro kept_intros Suc)
qed (simp add: keeps_basics)

lemma select_calls: "keeps P (sys_pselect6 fuel E args p)" "keeps P (sys_select fuel E n a b c t)"
  unfolding sys_pselect6_def sys_select_def select_common_def [abs_def] Let_def by (intro kept_intros)+

lemma ppoll_scan_kept [kept_intros]: "keeps P (ppoll_scan E is fds res)"
proof (induction "is" arbitrary: fds res)
  case (Cons i "is")
  show ?case unfolding ppoll_scan.simps Let_def by (intro kept_intros Cons)
qed (simp add: keeps_basics)

lemma ppoll_loop_kept [kept_intros]: "keeps P (ppoll_loop fuel E p n wt fds)"
proof (induction fuel arbitrary: fds)
  case (Suc fuel)
  show ?case unfolding ppoll_loop.simps by (intro kept_intros Suc)
qed (simp add: keeps_basics)

lemma ppoll_call: "keeps P (sys_ppoll fuel E p n t sm)"
  unfolding sys_ppoll_def by (intro kept_intros)

section \<open>Sockets\<close>

lemma socket_parts [kept_intros]:
  "keeps P (fd_socket E V fd)" "keeps P (read_addr E V p)" "keeps P (inet_addr V a)" "keeps P (write_addr E V p p' a)"
  unfolding fd_socket_def read_addr_def inet_addr_def write_addr_def by (intro kept_intros)+

lemma accept_loop_kept [kept_intros]: "keeps P (accept_loop fuel E V i p p')"
proof (induction fuel)
  case (Suc fuel)
  show ?case unfolding accept_loop.simps by (intro kept_intros Suc)
qed (simp add: keeps_basics)

lemma connect_loop_kept [kept_intros]: "keeps P (connect_loop fuel E V i sa)"
proof (induction fuel)
  case (Suc fuel)
  show ?case unfolding connect_loop.simps by (intro kept_intros Suc)
qed (simp add: keeps_basics)

lemma recv_loop_kept [kept_intros]: "keeps P (recv_loop fuel E V i p q q' arg)"
proof (induction fuel arbitrary: arg)
  case (Suc fuel)
  show ?case unfolding recv_loop.simps by (intro kept_intros Suc)
qed (simp add: keeps_basics)

lemma socket_level_kept [kept_intros]:
  "keeps P m \<Longrightarrow> keeps P m' \<Longrightarrow> keeps P m'' \<Longrightarrow> keeps P (case l of IpLevel \<Rightarrow> m | SocketLevel \<Rightarrow> m' | TcpLevel \<Rightarrow> m'')"
  by (simp split: socket_level.split)

lemma socket_calls:
  "keeps P (sys_socket E V d ty pr)" "keeps P (sys_socket_pair E V d ty pr sv)" "keeps P (sys_bind E V fd p)"
  "keeps P (sys_listen E V fd n)" "keeps P (sys_accept fuel E V fd p q)" "keeps P (sys_connect fuel E V fd p)"
  "keeps P (sys_recvfrom fuel E V fd p m q q')" "keeps P (sys_sendto E V fd p m q)" "keeps P (sys_getsockname E V fd p q)"
  "keeps P (sys_getpeername E V fd p q)" "keeps P (sys_set_socket_opt E V fd lv nm)"
  "keeps P (sys_get_socket_opt E V fd lv nm p q)" "keeps P (sys_shutdown E V fd how)"
  unfolding sys_socket_def sys_socket_pair_def sys_bind_def sys_listen_def sys_accept_def sys_connect_def sys_recvfrom_def
    sys_sendto_def sys_getsockname_def sys_getpeername_def sys_set_socket_opt_def sys_get_socket_opt_def sys_shutdown_def
  by (intro kept_intros)+

section \<open>Devices and domains\<close>

lemma gpu_calls:
  "(\<And>g. gpu = Some g \<Longrightarrow> keeps P (gp_flush g)) \<Longrightarrow> keeps P (sys_framebuffer_flush gpu)"
  "(\<And>g. gpu = Some g \<Longrightarrow> keeps P (gp_buffer_range g)) \<Longrightarrow> keeps P (sys_framebuffer G gpu)"
proof -
  have lift: "bind (lift (Inl e)) f = lift (Inl e)" "bind (lift (Inr x)) f = f x" for e x and f :: "'x \<Rightarrow> ('s, 'y) act"
    by (rule ext, simp add: act_simps)+
  show "(\<And>g. gpu = Some g \<Longrightarrow> keeps P (gp_flush g)) \<Longrightarrow> keeps P (sys_framebuffer_flush gpu)"
    unfolding sys_framebuffer_flush_def by (cases gpu) (simp_all only: ok_or_simps lift, (intro kept_intros; simp)+)
  show "(\<And>g. gpu = Some g \<Longrightarrow> keeps P (gp_buffer_range g)) \<Longrightarrow> keeps P (sys_framebuffer G gpu)"
    unfolding sys_framebuffer_def by (cases gpu) (simp_all only: ok_or_simps lift, (intro kept_intros; simp)+)
qed

lemma domain_calls: "keeps P (sys_load_domain E G fd ty p n)" "keeps P (sys_replace_domain E G p n p' n' ty)"
  unfolding sys_load_domain_def sys_replace_domain_def by (intro kept_intros)+

lemma event_loop_kept:
  "(\<And>i. i \<in> set is \<Longrightarrow> keeps P (id_have_event i) \<and> keeps P (id_event_block i)) \<Longrightarrow> keeps P (event_loop room is ev cnt)"
proof (induction room "is" ev cnt rule: event_loop.induct)
  case (2 input "is" events cnt)
  then show ?case unfolding event_loop.simps by (intro kept_intros) auto
next
  case (3 room input "is" events cnt)
  then show ?case unfolding event_loop.simps by (intro kept_intros) auto
qed (simp add: keeps_finish)

lemma event_call:
  "(\<And>i. i \<in> set is \<Longrightarrow> keeps P (id_have_event i) \<and> keeps P (id_event_block i)) \<Longrightarrow> keeps P (sys_event_get E is p n)"
  unfolding sys_event_get_def by (intro kept_intros event_loop_kept)

end

end
