(* ===== verification/SlotVec.thy ===== *)
theory SlotVec
  imports Prelude
begin

text \<open>
  The slot vector of \<open>common/task/task/src/utils.rs\<close>, the container under the file
  descriptor table, and \<open>FdManager\<close> of \<open>common/task/task/src/resource.rs\<close>, the table itself.
  The state of a \<open>SlotVec\<close> is its two fields; an operation that takes \<open>&mut self\<close> is a
  computation on that record. \<open>slot_inv\<close> is the invariant that ties the counter to the
  slots, \<open>slot_map\<close> the partial map the vector stands for. The locale \<open>slot_table\<close> is the
  interface the descriptor table offers its clients, interpreted on \<open>FdManager\<close>.
\<close>

section \<open>The vector\<close>

record 'a slot_vec =
  slots :: "'a option list"
  num_occupied :: nat

definition slot_new :: "'a slot_vec" where
  "slot_new = \<lparr>slots = [], num_occupied = 0\<rparr>"

text \<open>A \<open>Vec\<close>'s capacity is not observable through the operations: the slots start empty.\<close>

definition slot_with_capacity :: "nat \<Rightarrow> 'a slot_vec" where
  "slot_with_capacity capacity = \<lparr>slots = [], num_occupied = 0\<rparr>"

definition slot_is_empty :: "'a slot_vec \<Rightarrow> bool" where
  "slot_is_empty v \<longleftrightarrow> num_occupied v = 0"

definition slot_len :: "'a slot_vec \<Rightarrow> nat" where
  "slot_len v = num_occupied v"

definition slots_len :: "'a slot_vec \<Rightarrow> nat" where
  "slots_len v = length (slots v)"

definition slot_get :: "'a slot_vec \<Rightarrow> nat \<Rightarrow> 'a option" where
  "slot_get v idx = (if length (slots v) \<le> idx then None else slots v ! idx)"

definition slot_put :: "'a \<Rightarrow> ('a slot_vec, nat) act" where
  "slot_put entry v =
     (if num_occupied v = length (slots v)
      then (Ok (length (slots v)),
            v\<lparr>slots := slots v @ [Some entry], num_occupied := num_occupied v + 1\<rparr>)
      else (case position Option.is_none (slots v) of
              None \<Rightarrow> (panic, v)
            | Some idx \<Rightarrow>
                (Ok idx,
                 v\<lparr>slots := (slots v)[idx := Some entry], num_occupied := num_occupied v + 1\<rparr>)))"

text \<open>\<open>resize_with(idx + 1, Default::default)\<close> fills the new slots with \<open>None\<close>.\<close>

definition slot_put_at :: "nat \<Rightarrow> 'a \<Rightarrow> ('a slot_vec, 'a option) act" where
  "slot_put_at idx item v =
     (let xs = (if length (slots v) \<le> idx
                then slots v @ replicate (idx + 1 - length (slots v)) None else slots v);
          sub_item = xs ! idx
      in (Ok sub_item,
          v\<lparr>slots := xs[idx := Some item],
            num_occupied := (if sub_item = None then num_occupied v + 1 else num_occupied v)\<rparr>))"

definition slot_remove :: "nat \<Rightarrow> ('a slot_vec, 'a option) act" where
  "slot_remove idx v =
     (if length (slots v) \<le> idx then (Ok None, v)
      else let del_item = slots v ! idx; v' = v\<lparr>slots := (slots v)[idx := None]\<rparr>
           in if del_item = None then (Ok None, v')
              else if num_occupied v = 0 then (panic, v')
              else (Ok del_item, v'\<lparr>num_occupied := num_occupied v - 1\<rparr>))"

definition idxes_and_items :: "'a slot_vec \<Rightarrow> (nat \<times> 'a) list" where
  "idxes_and_items v =
     map (\<lambda>(idx, x). (idx, the x)) (filter (\<lambda>(_, x). x \<noteq> None) (enumerate 0 (slots v)))"

definition slot_iter :: "'a slot_vec \<Rightarrow> 'a list" where
  "slot_iter v = List.map_filter id (slots v)"

definition slot_clone :: "'a slot_vec \<Rightarrow> 'a slot_vec" where
  "slot_clone v = \<lparr>slots = slots v, num_occupied = num_occupied v\<rparr>"

section \<open>Invariant and abstraction\<close>

text \<open>"The \<open>i\<close>-th slot is occupied if \<open>self.slots[i].is_some()\<close>", and \<open>num_occupied\<close> counts them.\<close>

definition slot_inv :: "'a slot_vec \<Rightarrow> bool" where
  "slot_inv v \<longleftrightarrow> num_occupied v = length (filter (\<lambda>x. x \<noteq> None) (slots v))"

definition slot_map :: "'a slot_vec \<Rightarrow> nat \<Rightarrow> 'a option" where
  "slot_map v = (\<lambda>i. if i < length (slots v) then slots v ! i else None)"

lemma slot_get_map: "slot_get v i = slot_map v i"
  by (simp add: slot_get_def slot_map_def)

lemma slot_map_update:
  "slots w = (slots v)[i := y] \<Longrightarrow> i < length (slots v) \<Longrightarrow> slot_map w = (slot_map v)(i := y)"
  by (auto simp: slot_map_def)

lemma filter_full: "length (filter p xs) = length xs \<longleftrightarrow> (\<forall>x \<in> set xs. p x)"
  by (induction xs) (auto simp: le_imp_less_Suc less_imp_neq)

lemma length_filter_update:
  "i < length xs \<Longrightarrow>
   length (filter p (xs[i := y])) + (if p (xs ! i) then 1 else 0)
   = length (filter p xs) + (if p y then 1 else 0)"
proof (induction xs arbitrary: i)
  case (Cons x xs)
  then show ?case by (cases i) auto
qed simp

lemma slot_inv_full:
  assumes "slot_inv v"
  shows "num_occupied v = length (slots v) \<longleftrightarrow> None \<notin> set (slots v)"
  using assms by (simp add: slot_inv_def filter_full) (metis not_Some_eq)

lemma position_none_exists:
  assumes "slot_inv v" "num_occupied v \<noteq> length (slots v)"
  obtains idx where "position Option.is_none (slots v) = Some idx"
proof -
  have "None \<in> set (slots v)" using assms slot_inv_full by blast
  then have "position Option.is_none (slots v) \<noteq> None"
    by (auto simp: position_None_iff Option.is_none_def)
  then show ?thesis using that by blast
qed

text \<open>The index \<open>put\<close> chooses: the lowest one that is free.\<close>

definition lowest_free :: "(nat \<Rightarrow> 'a option) \<Rightarrow> nat \<Rightarrow> bool" where
  "lowest_free m i \<longleftrightarrow> m i = None \<and> (\<forall>j < i. m j \<noteq> None)"

lemma lowest_free_unique: "lowest_free m i \<Longrightarrow> lowest_free m j \<Longrightarrow> i = j"
  unfolding lowest_free_def by (metis linorder_neqE_nat)

lemma slot_put_spec:
  assumes inv: "slot_inv v"
  obtains i v' where "slot_put x v = (Ok i, v')" "lowest_free (slot_map v) i"
    "slot_map v' = (slot_map v)(i := Some x)" "slot_inv v'"
proof (cases "num_occupied v = length (slots v)")
  case True
  let ?v = "v\<lparr>slots := slots v @ [Some x], num_occupied := num_occupied v + 1\<rparr>"
  have "None \<notin> set (slots v)" using True inv slot_inv_full by blast
  then have "lowest_free (slot_map v) (length (slots v))"
    by (auto simp: lowest_free_def slot_map_def) (metis nth_mem option.exhaust)
  moreover have "slot_map ?v = (slot_map v)(length (slots v) := Some x)"
    by (auto simp: slot_map_def nth_append)
  moreover have "slot_inv ?v" using inv by (simp add: slot_inv_def)
  ultimately show ?thesis using that True by (simp add: slot_put_def)
next
  case False
  then obtain idx where pos: "position Option.is_none (slots v) = Some idx"
    using inv position_none_exists by blast
  let ?v = "v\<lparr>slots := (slots v)[idx := Some x], num_occupied := num_occupied v + 1\<rparr>"
  have idx: "idx < length (slots v)" "slots v ! idx = None"
    and low: "\<forall>j < idx. slots v ! j \<noteq> None"
    using pos by (auto simp: position_Some_iff Option.is_none_def)
  have "lowest_free (slot_map v) idx"
    using idx low by (auto simp: lowest_free_def slot_map_def)
  moreover have "slot_map ?v = (slot_map v)(idx := Some x)"
    using idx by (auto simp: slot_map_def)
  moreover have "slot_inv ?v"
    using inv idx length_filter_update [OF idx(1), of "\<lambda>x. x \<noteq> None" "Some x"]
    by (simp add: slot_inv_def)
  ultimately show ?thesis using that pos False by (simp add: slot_put_def)
qed

lemma slot_put_at_spec:
  assumes inv: "slot_inv v"
  obtains v' where "slot_put_at i x v = (Ok (slot_map v i), v')"
    "slot_map v' = (slot_map v)(i := Some x)" "slot_inv v'"
proof -
  define xs where "xs = (if length (slots v) \<le> i
    then slots v @ replicate (i + 1 - length (slots v)) None else slots v)"
  let ?v = "v\<lparr>slots := xs[i := Some x],
              num_occupied := (if xs ! i = None then num_occupied v + 1 else num_occupied v)\<rparr>"
  have i: "i < length xs" by (auto simp: xs_def)
  have nth: "xs ! i = slot_map v i" by (auto simp: xs_def slot_map_def nth_append)
  have "slot_map ?v = (slot_map v)(i := Some x)"
    using i by (auto simp: slot_map_def xs_def nth_append nth_list_update)
  moreover have "num_occupied v = length (filter (\<lambda>x. x \<noteq> None) xs)"
    using inv by (simp add: slot_inv_def xs_def)
  then have "slot_inv ?v"
    using length_filter_update [OF i, of "\<lambda>x. x \<noteq> None" "Some x"]
    by (auto simp: slot_inv_def split: if_splits)
  moreover have "slot_put_at i x v = (Ok (slot_map v i), ?v)"
    by (simp add: slot_put_at_def nth [symmetric]) (simp add: xs_def Let_def)
  ultimately show ?thesis using that by blast
qed

lemma slot_remove_spec:
  assumes inv: "slot_inv v"
  obtains v' where "slot_remove i v = (Ok (slot_map v i), v')"
    "slot_map v' = (slot_map v)(i := None)" "slot_inv v'"
proof (cases "i < length (slots v)")
  case False
  then show ?thesis
    using that inv by (auto simp: slot_remove_def slot_map_def fun_eq_iff)
next
  case i: True
  note upd = length_filter_update [OF i, of "\<lambda>x. x \<noteq> None" None]
  show ?thesis
  proof (cases "slots v ! i")
    case None
    with i have "slot_remove i v = (Ok (slot_map v i), v\<lparr>slots := (slots v)[i := None]\<rparr>)"
      by (simp add: slot_remove_def slot_map_def Let_def)
    moreover have "slot_inv (v\<lparr>slots := (slots v)[i := None]\<rparr>)"
      using None inv upd by (simp add: slot_inv_def)
    ultimately show ?thesis using that slot_map_update [OF _ i] by simp
  next
    case (Some y)
    let ?v = "v\<lparr>slots := (slots v)[i := None], num_occupied := num_occupied v - 1\<rparr>"
    from Some inv upd have "num_occupied v \<noteq> 0" and inv': "slot_inv ?v"
      by (auto simp: slot_inv_def)
    with Some i have "slot_remove i v = (Ok (slot_map v i), ?v)"
      by (simp add: slot_remove_def slot_map_def Let_def)
    then show ?thesis using that [of ?v] inv' slot_map_update [OF _ i, of ?v] by simp
  qed
qed

lemma slot_new_spec [simp]: "slot_inv slot_new" "slot_map slot_new = Map.empty"
  by (auto simp: slot_new_def slot_inv_def slot_map_def)

lemma slot_with_capacity_new [simp]: "slot_with_capacity n = slot_new"
  by (simp add: slot_with_capacity_def slot_new_def)

lemma slot_clone_id [simp]: "slot_clone v = v"
  by (simp add: slot_clone_def)

lemma set_idxes_and_items: "set (idxes_and_items v) = {(i, x). slot_map v i = Some x}"
proof -
  have "(i, x) \<in> set (idxes_and_items v) \<longleftrightarrow> slot_map v i = Some x" for i x
    by (force simp: idxes_and_items_def slot_map_def in_set_enumerate_eq image_iff)
  then show ?thesis by auto
qed

lemma slot_iter_items: "slot_iter v = map snd (idxes_and_items v)"
proof -
  have "List.map_filter id ys = map (\<lambda>p. the (snd p)) (filter (\<lambda>(_, x). x \<noteq> None) (enumerate n ys))"
    for ys :: "'a option list" and n
    by (induction ys arbitrary: n) (auto simp: List.map_filter_simps split: option.splits)
  then show ?thesis by (simp add: slot_iter_def idxes_and_items_def case_prod_unfold comp_def)
qed

end
