(* ===== verification/FdTable.thy ===== *)
theory FdTable
  imports SlotVec
begin

text \<open>
  \<open>FdManager\<close> of \<open>common/task/task/src/resource.rs\<close>: the file descriptor table of a task, a
  slot vector of shared handles. An \<open>Arc<ShimFile>\<close> is a \<open>shim_file\<close>: \<open>shim_ref\<close> is the
  identity of the shared object (two descriptors made by \<open>dup\<close> carry the same one) and
  \<open>shim_inode\<close> its \<open>InodeID\<close>. \<open>slot_table\<close> is the contract the task domain's file operations
  rely on, interpreted on \<open>FdManager\<close>'s four operations.
\<close>

record shim_file =
  shim_ref :: nat
  shim_inode :: u64

type_synonym fd_manager = "shim_file slot_vec"

definition fd_new :: "nat \<Rightarrow> fd_manager" where
  "fd_new MAX_FD_NUM = slot_with_capacity MAX_FD_NUM"

definition fd_get :: "fd_manager \<Rightarrow> nat \<Rightarrow> shim_file option" where
  "fd_get t fd = slot_get t fd"

definition fd_insert :: "shim_file \<Rightarrow> (fd_manager, nat) act" where
  "fd_insert file = slot_put file"

definition fd_remove :: "nat \<Rightarrow> (fd_manager, shim_file option) act" where
  "fd_remove fd = slot_remove fd"

definition fd_insert_to :: "nat \<Rightarrow> shim_file \<Rightarrow> (fd_manager, shim_file option) act" where
  "fd_insert_to fd file = slot_put_at fd file"

section \<open>The contract of a descriptor table\<close>

locale slot_table =
  fixes inv :: "'t \<Rightarrow> bool"
    and tmap :: "'t \<Rightarrow> nat \<Rightarrow> 'f option"
    and get :: "'t \<Rightarrow> nat \<Rightarrow> 'f option"
    and insert :: "'f \<Rightarrow> ('t, nat) act"
    and insert_to :: "nat \<Rightarrow> 'f \<Rightarrow> ('t, 'f option) act"
    and remove :: "nat \<Rightarrow> ('t, 'f option) act"
  assumes get_tmap: "get t i = tmap t i"
    and insert_law: "inv t \<Longrightarrow> \<exists>i t'. insert f t = (Ok i, t') \<and> lowest_free (tmap t) i
           \<and> tmap t' = (tmap t)(i := Some f) \<and> inv t'"
    and insert_to_law: "inv t \<Longrightarrow> \<exists>t'. insert_to i f t = (Ok (tmap t i), t')
           \<and> tmap t' = (tmap t)(i := Some f) \<and> inv t'"
    and remove_law: "inv t \<Longrightarrow> \<exists>t'. remove i t = (Ok (tmap t i), t')
           \<and> tmap t' = (tmap t)(i := None) \<and> inv t'"
begin

lemma insertE:
  assumes "inv t"
  obtains i t' where "insert f t = (Ok i, t')" "lowest_free (tmap t) i"
    "tmap t' = (tmap t)(i := Some f)" "inv t'"
  using insert_law [OF assms] by blast

lemma insert_toE:
  assumes "inv t"
  obtains t' where "insert_to i f t = (Ok (tmap t i), t')" "tmap t' = (tmap t)(i := Some f)" "inv t'"
  using insert_to_law [OF assms] by blast

lemma removeE:
  assumes "inv t"
  obtains t' where "remove i t = (Ok (tmap t i), t')" "tmap t' = (tmap t)(i := None)" "inv t'"
  using remove_law [OF assms] by blast

lemma keeps_ops:
  "keeps inv (insert f)" "keeps inv (insert_to i f)" "keeps inv (remove i)"
proof -
  show "keeps inv (insert f)" by (rule keepsI) (erule insertE [where f = f], simp)
  show "keeps inv (insert_to i f)" by (rule keepsI) (erule insert_toE [where i = i and f = f], simp)
  show "keeps inv (remove i)" by (rule keepsI) (erule removeE [where i = i], simp)
qed

text \<open>A new descriptor is fresh, it names the inserted file, and no other one changes.\<close>

lemma insert_spec:
  assumes "inv t" and "insert f t = (Ok i, t')"
  shows "get t i = None" "get t' i = Some f" "j \<noteq> i \<Longrightarrow> get t' j = get t j"
    "\<And>j. j < i \<Longrightarrow> get t j \<noteq> None" "inv t'"
proof -
  obtain k u where u: "insert f t = (Ok k, u)" "lowest_free (tmap t) k"
      "tmap u = (tmap t)(k := Some f)" "inv u"
    using insertE [OF assms(1)] by blast
  with assms(2) have [simp]: "k = i" "u = t'" by simp_all
  show "get t i = None" "get t' i = Some f" "j \<noteq> i \<Longrightarrow> get t' j = get t j" "inv t'"
    "\<And>j. j < i \<Longrightarrow> get t j \<noteq> None"
    using u by (simp_all add: get_tmap lowest_free_def)
qed

text \<open>Two insertions in a row give two different descriptors, in ascending order.\<close>

lemma insert_insert_less:
  assumes "inv t" and "insert f t = (Ok i, t')" and "insert g t' = (Ok j, t'')"
  shows "i < j"
proof (rule ccontr)
  assume "\<not> i < j"
  moreover have "i \<noteq> j"
    using insert_spec(2) [OF assms(1,2)] insert_spec(1,5) [OF _ assms(3)] insert_spec(5) [OF assms(1,2)]
    by auto
  ultimately have "j < i" by simp
  then have "get t j \<noteq> None" using insert_spec(4) [OF assms(1,2)] by blast
  moreover have "get t' j = get t j" using \<open>j < i\<close> insert_spec(3) [OF assms(1,2), of j] by simp
  moreover have "get t' j = None" using insert_spec(1) [OF insert_spec(5) [OF assms(1,2)] assms(3)] .
  ultimately show False by simp
qed

text \<open>A closed descriptor is free again, and the next insertion goes there or lower.\<close>

lemma remove_insert:
  assumes "inv t" and "remove i t = (r, t')" and "insert f t' = (Ok j, t'')"
  shows "j \<le> i"
proof (rule ccontr)
  assume "\<not> j \<le> i"
  obtain u where u: "remove i t = (Ok (tmap t i), u)" "tmap u = (tmap t)(i := None)" "inv u"
    using removeE [OF assms(1)] by blast
  with assms(2) have "u = t'" by simp
  with u have "inv t'" "get t' i = None" by (simp_all add: get_tmap)
  with insert_spec(4) [OF \<open>inv t'\<close> assms(3), of i] \<open>\<not> j \<le> i\<close> show False by simp
qed

end

interpretation fdt: slot_table slot_inv slot_map fd_get fd_insert fd_insert_to fd_remove
proof
  show "fd_get t i = slot_map t i" for t i
    by (simp add: fd_get_def slot_get_map)
  show "\<exists>i t'. fd_insert f t = (Ok i, t') \<and> lowest_free (slot_map t) i
      \<and> slot_map t' = (slot_map t)(i := Some f) \<and> slot_inv t'" if "slot_inv t" for t f
    unfolding fd_insert_def using slot_put_spec [OF that, of f] by metis
  show "\<exists>t'. fd_insert_to i f t = (Ok (slot_map t i), t')
      \<and> slot_map t' = (slot_map t)(i := Some f) \<and> slot_inv t'" if "slot_inv t" for t i f
    unfolding fd_insert_to_def using slot_put_at_spec [OF that, of i f] by metis
  show "\<exists>t'. fd_remove i t = (Ok (slot_map t i), t')
      \<and> slot_map t' = (slot_map t)(i := None) \<and> slot_inv t'" if "slot_inv t" for t i
    unfolding fd_remove_def using slot_remove_spec [OF that, of i] by metis
qed

lemma fd_new_spec [simp]: "slot_inv (fd_new n)" "slot_map (fd_new n) = Map.empty"
  by (simp_all add: fd_new_def)

end
