(* ===== verification/Mmap.thy ===== *)
theory Mmap
  imports FdTable Externals
begin

text \<open>
  The memory of a task: \<open>HeapInfo\<close>, \<open>MMapInfo\<close> and \<open>MMapRegion\<close> of
  \<open>common/task/task/src/resource.rs\<close>, the mapping system calls of
  \<open>common/task/task/src/syscall/mmap.rs\<close> and the program break (\<open>Task::extend_heap\<close> of
  \<open>task.rs\<close>). The state is the three objects a task holds behind locks: the heap bounds, the
  table of mapped regions and the address space. The address space is \<open>ptable::VmSpace\<close>, which
  is not in the repository: its operations are the fields of \<open>vm_ops\<close> over a state \<open>'v\<close>, and
  \<open>protect_law\<close> says what the code relies on where a lemma needs it.

  Addresses are 64-bit words and wrap, as in the release build.
\<close>

unbundle bit_operations_syntax

section \<open>The address space and the constants\<close>

text \<open>A physical frame: allocated for the caller, borrowed from the kernel, taken over, or the one that
  holds the trampoline.\<close>

datatype frame = NewFrame | ProxyFrame usize usize | OwnedFrame usize usize | TrampolineFrame

record vm_area =
  va_start :: usize
  va_end :: usize
  va_flags :: u64
  va_frames :: "frame list"

datatype paging_error = NoMemory | NotMapped | PagingOther nat

type_synonym ('v, 'a) vm_call = "'v \<Rightarrow> (paging_error + 'a) \<times> 'v"

record 'v vm_ops =
  vm_new :: 'v
  vm_map :: "vm_area \<Rightarrow> ('v, unit) vm_call"
  vm_unmap :: "usize \<Rightarrow> ('v, unit) vm_call"
  vm_protect :: "usize \<Rightarrow> usize \<Rightarrow> u64 \<Rightarrow> ('v, unit) vm_call"
  vm_query :: "usize \<Rightarrow> 'v \<Rightarrow> paging_error + usize \<times> u64"
  vm_read_bytes :: "usize \<Rightarrow> nat \<Rightarrow> 'v \<Rightarrow> paging_error + u8 list"
  vm_write_bytes :: "usize \<Rightarrow> u8 list \<Rightarrow> ('v, unit) vm_call"

record mm_cfg =
  FRAME_SIZE :: usize
  PROCESS_HEAP_MAX :: usize
  align_up_4k :: "usize \<Rightarrow> usize"
  align_down_4k :: "usize \<Rightarrow> usize"
  MAP_FIXED :: u32
  MAP_ANONYMOUS :: u32
  MAP_ALL :: u32
  MMAP_TYPE_MASK :: u32
  mmap_type_ok :: "u8 \<Rightarrow> bool"                  \<comment> \<open>\<open>MMapType::try_from\<close> succeeds\<close>
  PROT_READ :: u32
  PROT_WRITE :: u32
  PROT_EXEC :: u32
  PROT_ALL :: u32
  MF_USER :: u64
  MF_READ :: u64
  MF_WRITE :: u64
  MF_EXECUTE :: u64

section \<open>Heap and regions\<close>

record heap_info =
  hp_current :: usize
  hp_start :: usize
  hp_end :: usize

definition heap_new :: "usize \<Rightarrow> usize \<Rightarrow> heap_info" where
  "heap_new start stop = \<lparr> hp_current = start, hp_start = start, hp_end = stop \<rparr>"

definition heap_contains :: "heap_info \<Rightarrow> usize \<Rightarrow> bool" where
  "heap_contains h addr \<longleftrightarrow> hp_start h \<le> addr \<and> addr < hp_end h"

record mmap_region =
  mr_start :: usize
  mr_len :: usize
  mr_map_len :: usize
  mr_prot :: u32
  mr_flags :: u32
  mr_fd :: "shim_file option"
  mr_offset :: usize

record mmap_info =
  map_start :: usize
  regions :: "mmap_region list"

definition mmap_new :: "mm_cfg \<Rightarrow> mmap_info" where
  "mmap_new c = \<lparr> map_start = PROCESS_HEAP_MAX c, regions = [] \<rparr>"

definition region_new :: "usize \<Rightarrow> usize \<Rightarrow> usize \<Rightarrow> u32 \<Rightarrow> u32 \<Rightarrow> shim_file option \<Rightarrow> usize \<Rightarrow> mmap_region" where
  "region_new start len map_len prot flags fd offset =
     \<lparr> mr_start = start, mr_len = len, mr_map_len = map_len, mr_prot = prot, mr_flags = flags,
       mr_fd = fd, mr_offset = offset \<rparr>"

text \<open>\<open>alloc\<close>: the range handed out, with the bump pointer moved behind it to a page boundary.\<close>

definition mmap_alloc :: "mm_cfg \<Rightarrow> usize \<Rightarrow> mmap_info \<Rightarrow> (usize \<times> usize) \<times> mmap_info" where
  "mmap_alloc c len m =
     (let addr = map_start m;
          stop = (map_start m + len + FRAME_SIZE c - 1) AND NOT (FRAME_SIZE c - 1)
      in ((addr, stop), m\<lparr>map_start := stop\<rparr>))"

definition add_region :: "mmap_region \<Rightarrow> mmap_info \<Rightarrow> mmap_info" where
  "add_region r m = m\<lparr>regions := regions m @ [r]\<rparr>"

definition region_covers :: "usize \<Rightarrow> mmap_region \<Rightarrow> bool" where
  "region_covers addr r \<longleftrightarrow> mr_start r \<le> addr \<and> addr < mr_start r + mr_len r"

definition get_region :: "mmap_info \<Rightarrow> usize \<Rightarrow> mmap_region option" where
  "get_region m addr = find (region_covers addr) (regions m)"

text \<open>\<open>get_region_mut\<close>, with the change its caller makes to the region it returns.\<close>

definition get_region_mut :: "usize \<Rightarrow> (mmap_region \<Rightarrow> mmap_region) \<Rightarrow> mmap_info \<Rightarrow> mmap_info option" where
  "get_region_mut addr f m =
     map_option (\<lambda>i. m\<lparr>regions := (regions m)[i := f (regions m ! i)]\<rparr>)
       (position (region_covers addr) (regions m))"

text \<open>\<open>remove_region\<close>: with no region at the address, \<open>Vec::remove\<close> is out of range.\<close>

definition remove_region :: "usize \<Rightarrow> mmap_info \<Rightarrow> mmap_info res" where
  "remove_region addr m =
     (case position (region_covers addr) (regions m) of
        None \<Rightarrow> panic
      | Some index \<Rightarrow> Ok (m\<lparr>regions := remove_nth index (regions m)\<rparr>))"

definition region_split :: "mm_cfg \<Rightarrow> mmap_region \<Rightarrow> usize \<Rightarrow> mmap_region \<times> mmap_region" where
  "region_split c r addr =
     (let len1 = addr - mr_start r; len2 = mr_start r + mr_len r - addr
      in (r\<lparr>mr_len := len1, mr_map_len := align_up_4k c len1\<rparr>,
          r\<lparr>mr_start := addr, mr_len := len2, mr_map_len := align_up_4k c len2,
            mr_offset := mr_offset r + len1\<rparr>))"

definition set_prot :: "u32 \<Rightarrow> mmap_region \<Rightarrow> mmap_region" where
  "set_prot prot r = r\<lparr>mr_prot := prot\<rparr>"

definition set_flags :: "u32 \<Rightarrow> mmap_region \<Rightarrow> mmap_region" where
  "set_flags flags r = r\<lparr>mr_flags := flags\<rparr>"

definition from_prot :: "mm_cfg \<Rightarrow> u32 \<Rightarrow> u64" where
  "from_prot c prot =
     (MF_USER c OR (if contains prot (PROT_READ c) then MF_READ c else 0)
                OR (if contains prot (PROT_WRITE c) then MF_WRITE c else 0)
                OR (if contains prot (PROT_EXEC c) then MF_EXECUTE c else 0))"

section \<open>The state of a task's memory\<close>

record 'v mm =
  mm_heap :: heap_info
  mm_info :: mmap_info
  mm_space :: 'v

text \<open>A call on the address space: with its error unwrapped, or turned into an \<open>errno\<close>.\<close>

definition on_space :: "(paging_error \<Rightarrow> 'b res) \<Rightarrow> ('v, 'b) vm_call \<Rightarrow> ('v mm, 'b) act" where
  "on_space h f s =
     (case f (mm_space s) of (r, v) \<Rightarrow>
        ((case r of Inl e \<Rightarrow> h e | Inr x \<Rightarrow> Ok x), s\<lparr>mm_space := v\<rparr>))"

abbreviation space_unwrap :: "('v, 'b) vm_call \<Rightarrow> ('v mm, 'b) act" where
  "space_unwrap \<equiv> on_space (\<lambda>_. panic)"

abbreviation space_einval :: "('v, 'b) vm_call \<Rightarrow> ('v mm, 'b) act" where
  "space_einval \<equiv> on_space (\<lambda>_. Err EINVAL)"

definition get_info :: "('v mm, mmap_info) act" where
  "get_info s = (Ok (mm_info s), s)"

definition put_info :: "mmap_info \<Rightarrow> ('v mm, unit) act" where
  "put_info m s = (Ok (), s\<lparr>mm_info := m\<rparr>)"

definition get_heap :: "('v mm, heap_info) act" where
  "get_heap s = (Ok (mm_heap s), s)"

lemma mm_access [act_simps]:
  "get_info s = (Ok (mm_info s), s)" "put_info m s = (Ok (), s\<lparr>mm_info := m\<rparr>)"
  "get_heap s = (Ok (mm_heap s), s)"
  by (simp_all add: get_info_def put_info_def get_heap_def)

section \<open>The system calls\<close>

text \<open>\<open>(a..b).step_by(size)\<close>.\<close>

definition page_steps :: "usize \<Rightarrow> usize \<Rightarrow> usize \<Rightarrow> usize list" where
  "page_steps a b step =
     map (\<lambda>i. a + of_nat i * step)
       [0..<(unat b - unat a + unat step - 1) div unat step]"

fun protect_pages :: "'v vm_ops \<Rightarrow> usize \<Rightarrow> u64 \<Rightarrow> usize list \<Rightarrow> ('v mm, unit) act" where
  "protect_pages ops step flags [] = ret ()"
| "protect_pages ops step flags (p # ps) =
     bind (space_unwrap (vm_protect ops p (p + step) flags)) (\<lambda>_. protect_pages ops step flags ps)"

definition vdso_reserve_user_vaddr :: "mm_cfg \<Rightarrow> usize \<Rightarrow> u32 \<Rightarrow> u32 \<Rightarrow> ('v mm, usize) act" where
  "vdso_reserve_user_vaddr c len prot flags =
     (let prot = from_bits_truncate (PROT_ALL c) prot;
          flags = from_bits_truncate (MAP_ALL c) flags;
          len = align_up_4k c len
      in if len = 0 then fail EINVAL
         else bind get_info (\<lambda>m.
           let (v_range, m) = mmap_alloc c len m;
               region = region_new (fst v_range) len len prot flags None 0
           in bind (put_info (add_region region m)) (\<lambda>_. ret (fst v_range))))"

text \<open>The frames of the page descriptors: the first unaligned address fails.\<close>

fun desc_frames :: "usize \<Rightarrow> (usize \<times> bool) list \<Rightarrow> frame list res" where
  "desc_frames step [] = Ok []"
| "desc_frames step ((paddr, transfer) # ds) =
     (if paddr mod step \<noteq> 0 then Err EINVAL
      else case desc_frames step ds of
        Inl e \<Rightarrow> Inl e
      | Inr fs \<Rightarrow> Ok ((if transfer then OwnedFrame paddr (paddr + step)
                      else ProxyFrame paddr (paddr + step)) # fs))"

definition vdso_map_user_pages :: "mm_cfg \<Rightarrow> 'v vm_ops \<Rightarrow> usize \<Rightarrow> usize \<Rightarrow> u32 \<Rightarrow> (usize \<times> bool) list
    \<Rightarrow> ('v mm, unit) act" where
  "vdso_map_user_pages c ops vaddr len prot page_descs =
     (let len = align_up_4k c len
      in if len = 0 \<or> len mod FRAME_SIZE c \<noteq> 0 then fail EINVAL
         else if length page_descs \<noteq> unat (len div FRAME_SIZE c) then fail EINVAL
         else let prot = from_bits_truncate (PROT_ALL c) prot; map_flags = from_prot c prot
         in bind get_info (\<lambda>m.
            bind (lift (ok_or (get_region m vaddr) EINVAL)) (\<lambda>region.
            if vaddr + len > mr_start region + mr_map_len region then fail EINVAL
            else bind (lift (unwrap (get_region_mut vaddr (set_prot prot) m))) (\<lambda>m.
            bind (put_info m) (\<lambda>_.
            bind (lift (desc_frames (FRAME_SIZE c) page_descs)) (\<lambda>phy_frames.
            space_einval (vm_map ops \<lparr> va_start = vaddr, va_end = vaddr + len,
              va_flags = map_flags, va_frames = phy_frames \<rparr>)))))))"

definition do_mmap_device :: "mm_cfg \<Rightarrow> 'v vm_ops \<Rightarrow> usize \<Rightarrow> usize \<Rightarrow> ('v mm, usize) act" where
  "do_mmap_device c ops phy_start phy_end =
     bind get_info (\<lambda>m.
       let prot = PROT_READ c OR PROT_WRITE c;
           len = (if phy_start < phy_end then phy_end - phy_start else 0);
           (v_range, m) = mmap_alloc c len m;
           region = region_new (fst v_range) len (snd v_range - fst v_range) prot (MAP_ANONYMOUS c) None 0;
           frames = map (\<lambda>i. let p = phy_start + of_nat i * FRAME_SIZE c in ProxyFrame p (p + FRAME_SIZE c))
             [0..<unat (len div FRAME_SIZE c)]
       in bind (put_info (add_region region m)) (\<lambda>_.
          bind (space_unwrap (vm_map ops \<lparr> va_start = fst v_range, va_end = snd v_range,
            va_flags = from_prot c prot, va_frames = frames \<rparr>)) (\<lambda>_.
          ret (fst v_range))))"

text \<open>
  The part of \<open>do_mmap\<close> that carves a fixed mapping out of the region at its address: the
  region is cut at \<open>start\<close> and again at \<open>start + len\<close>, and the piece between takes the new
  attributes.
\<close>

definition remap_fixed :: "mm_cfg \<Rightarrow> mmap_region \<Rightarrow> usize \<Rightarrow> usize \<Rightarrow> u32 \<Rightarrow> u32 \<Rightarrow> shim_file option \<Rightarrow> usize
    \<Rightarrow> mmap_info \<Rightarrow> mmap_info res" where
  "remap_fixed c region start len prot flags fd offset m =
     (let (left, right) = region_split c region start;
          update = (\<lambda>r. (set_flags flags (set_prot prot r))\<lparr>mr_offset := offset, mr_fd := fd\<rparr>)
      in case remove_region (mr_start region) m of
           Inl e \<Rightarrow> Inl e
         | Inr m \<Rightarrow>
             let m = add_region left m
             in if start + len < mr_start right + mr_map_len right
                then let (left, right) = region_split c right (start + len)
                     in Ok (add_region (update left) (add_region right m))
                else Ok (add_region (update right) m))"

text \<open>The mapping of a range that \<open>do_mmap\<close> has chosen.\<close>

definition mmap_range :: "mm_cfg \<Rightarrow> 'v vm_ops \<Rightarrow> usize \<times> usize \<Rightarrow> usize \<Rightarrow> u32 \<Rightarrow> u32 \<Rightarrow> shim_file option
    \<Rightarrow> usize \<Rightarrow> mmap_info \<Rightarrow> ('v mm, usize) act" where
  "mmap_range c ops v_range len prot flags fd offset m =
     (let region = region_new (fst v_range) len (snd v_range - fst v_range) prot flags fd offset
      in bind (put_info (add_region region m)) (\<lambda>_.
         bind (space_unwrap (vm_map ops \<lparr> va_start = fst v_range, va_end = snd v_range,
            va_flags = from_prot c prot,
            va_frames = replicate (unat (len div FRAME_SIZE c)) NewFrame \<rparr>)) (\<lambda>_.
         ret (fst v_range))))"

definition do_mmap :: "mm_cfg \<Rightarrow> 'v vm_ops \<Rightarrow> (nat \<Rightarrow> shim_file option) \<Rightarrow> usize \<Rightarrow> usize \<Rightarrow> u32 \<Rightarrow> u32
    \<Rightarrow> nat \<Rightarrow> usize \<Rightarrow> ('v mm, usize) act" where
  "do_mmap c ops get_file start len prot flags fd offset =
     (let prot = from_bits_truncate (PROT_ALL c) prot
      in if \<not> mmap_type_ok c (ucast (flags AND MMAP_TYPE_MASK c)) then fail EINVAL
      else let flags = from_bits_truncate (MAP_ALL c) flags
      in if start = 0 \<and> contains flags (MAP_FIXED c) then fail EINVAL
      else bind get_heap (\<lambda>heap.
         if heap_contains heap start \<and> heap_contains heap (start + len) then ret start
         else bind (if contains flags (MAP_ANONYMOUS c) then ret None
                    else bind (lift (ok_or (get_file fd) EBADF)) (\<lambda>f. ret (Some f))) (\<lambda>fd.
         let start = align_down_4k c start; len = align_up_4k c len
         in bind get_info (\<lambda>m.
         if contains prot (PROT_EXEC c) then
           (if start > hp_start heap then fail EINVAL
            else if get_region m start \<noteq> None then fail EINVAL
            else let start = (if start = 0 then 0x1000 else start)
            in mmap_range c ops (start, start + len) len prot flags fd offset m)
         else if contains flags (MAP_FIXED c) then
           (if start > hp_start heap then fail EINVAL
            else case get_region m start of
              Some region \<Rightarrow>
                bind (lift (remap_fixed c region start len prot flags fd offset m)) (\<lambda>m.
                bind (put_info m) (\<lambda>_. ret start))
            | None \<Rightarrow> mmap_range c ops (start, start + len) len prot flags fd offset m)
         else let (v_range, m) = mmap_alloc c len m
            in mmap_range c ops v_range len prot flags fd offset m))))"

definition do_munmap :: "'v vm_ops \<Rightarrow> usize \<Rightarrow> usize \<Rightarrow> ('v mm, usize) act" where
  "do_munmap ops start len =
     bind get_info (\<lambda>m.
     bind (lift (ok_or (get_region m start) EINVAL)) (\<lambda>region.
     if mr_start region \<noteq> start \<or> len \<noteq> mr_len region then fail EINVAL
     else bind (space_unwrap (vm_unmap ops start)) (\<lambda>_.
          bind (lift (remove_region start m)) (\<lambda>m.
          bind (put_info m) (\<lambda>_. ret 0)))))"

definition do_mprotect :: "mm_cfg \<Rightarrow> 'v vm_ops \<Rightarrow> usize \<Rightarrow> usize \<Rightarrow> u32 \<Rightarrow> ('v mm, usize) act" where
  "do_mprotect c ops addr len prot =
     (let prot = from_bits_truncate (PROT_ALL c) prot
      in bind get_info (\<lambda>m.
         bind (lift (ok_or (get_region_mut addr (set_prot prot) m) EINVAL)) (\<lambda>m.
         bind (put_info m) (\<lambda>_.
         bind (protect_pages ops (FRAME_SIZE c) (from_prot c prot)
           (page_steps (align_down_4k c addr) (align_up_4k c (addr + len)) (FRAME_SIZE c))) (\<lambda>_.
         ret 0)))))"

definition do_load_page_fault :: "mm_cfg \<Rightarrow> 'v vm_ops \<Rightarrow> usize \<Rightarrow> ('v mm, unit) act" where
  "do_load_page_fault c ops addr =
     bind get_info (\<lambda>m.
     bind (lift (ok_or (get_region m addr) EINVAL)) (\<lambda>region.
     let addr = align_down_4k c addr
     in space_unwrap (vm_protect ops addr (addr + FRAME_SIZE c) (from_prot c (mr_prot region)))))"

text \<open>\<open>Task::extend_heap\<close>: the program break moves; whole pages are added behind the heap.\<close>

definition extend_heap :: "mm_cfg \<Rightarrow> 'v vm_ops \<Rightarrow> usize \<Rightarrow> ('v mm, usize) act" where
  "extend_heap c ops addr =
     bind (modify_state (\<lambda>s. s\<lparr>mm_heap := (mm_heap s)\<lparr>hp_current := addr\<rparr>\<rparr>)) (\<lambda>_.
     bind get_heap (\<lambda>heap.
     if addr < hp_end heap then ret (hp_current heap)
     else let stop = hp_end heap;
              addition = (addr - stop + FRAME_SIZE c - 1) AND NOT (FRAME_SIZE c - 1)
       in bind (space_unwrap (vm_map ops \<lparr> va_start = stop, va_end = stop + addition,
            va_flags = MF_READ c OR MF_WRITE c OR MF_USER c,
            va_frames = replicate (unat (addition div FRAME_SIZE c)) NewFrame \<rparr>)) (\<lambda>_.
          bind (modify_state (\<lambda>s. s\<lparr>mm_heap := (mm_heap s)\<lparr>hp_end := stop + addition\<rparr>\<rparr>)) (\<lambda>_.
          ret addr))))"


section \<open>The table as a map from addresses\<close>

text \<open>What a program sees at an address: protection, flags, file, and the offset in the file.\<close>

definition mmap_view :: "mmap_info \<Rightarrow> usize \<Rightarrow> (u32 \<times> u32 \<times> shim_file option \<times> usize) option" where
  "mmap_view m a = map_option
     (\<lambda>r. (mr_prot r, mr_flags r, mr_fd r, mr_offset r + (a - mr_start r))) (get_region m a)"

definition disjoint_regions :: "mmap_region list \<Rightarrow> bool" where
  "disjoint_regions rs \<longleftrightarrow> sorted_wrt (\<lambda>r q. \<forall>a. \<not> (region_covers a r \<and> region_covers a q)) rs"

definition regions_below :: "usize \<Rightarrow> mmap_region list \<Rightarrow> bool" where
  "regions_below bound rs \<longleftrightarrow> (\<forall>r \<in> set rs. unat (mr_start r) + unat (mr_len r) \<le> unat bound)"

definition mmap_inv :: "mmap_info \<Rightarrow> bool" where
  "mmap_inv m \<longleftrightarrow> disjoint_regions (regions m) \<and> regions_below (map_start m) (regions m)
     \<and> unat (map_start m) + 0xFFF < 2 ^ 64"

text \<open>What the sizes and the rounding functions of the crates are documented to be.\<close>

definition cfg_law :: "mm_cfg \<Rightarrow> bool" where
  "cfg_law c \<longleftrightarrow> FRAME_SIZE c = 4096 \<and> (\<forall>a. align_up_4k c a = (a + 0xFFF) AND NOT 0xFFF)
     \<and> (\<forall>a. align_down_4k c a = a AND NOT 0xFFF)"

lemma and_not_page: "(y::usize) AND NOT 0xFFF = push_bit 12 (drop_bit 12 y)"
proof (rule bit_word_eqI)
  fix n assume "n < LENGTH(64)"
  have "bit (mask 12 :: usize) n \<longleftrightarrow> n < 12" using \<open>n < LENGTH(64)\<close> by (simp only: bit_mask_iff) simp
  moreover have "(mask 12 :: usize) = 0xFFF" by (simp add: mask_eq_exp_minus_1)
  ultimately have "bit (0xFFF::usize) n \<longleftrightarrow> n < 12" by metis
  then have "bit (y AND NOT 0xFFF) n \<longleftrightarrow> bit y n \<and> \<not> n < 12"
    using \<open>n < LENGTH(64)\<close> by (simp only: bit_and_iff bit_not_iff) simp
  then show "bit (y AND NOT 0xFFF) n = bit (push_bit 12 (drop_bit 12 y)) n"
    using \<open>n < LENGTH(64)\<close> by (auto simp: bit_push_bit_iff bit_drop_bit_eq simp del: not_less)
qed

lemma unat_and_not_page: "unat ((y::usize) AND NOT 0xFFF) = 4096 * (unat y div 4096)"
proof -
  have "unat y div 4096 * 4096 \<le> unat y" by (rule div_times_less_eq_dividend)
  then have "unat y div 4096 * 4096 < 2 ^ 64"
    using unsigned_less [of y, where ?'a = nat] by simp
  then have "take_bit 64 (4096 * (unat y div 4096)) = 4096 * (unat y div 4096)"
    by (simp add: take_bit_nat_eq_self_iff mult.commute)
  moreover have "take_bit 64 (unat y) = unat y"
    using unsigned_less [of y, where ?'a = nat] by (simp add: take_bit_nat_eq_self_iff)
  ultimately show ?thesis
    unfolding and_not_page unsigned_push_bit_eq unsigned_drop_bit_eq
    by (simp add: push_bit_eq_mult drop_bit_eq_div mult.commute)
qed

lemma unat_align_up:
  assumes "cfg_law c" "unat a + 0xFFF < 2 ^ 64"
  shows "unat (align_up_4k c a) = 4096 * ((unat a + 0xFFF) div 4096)"
proof -
  have "unat (a + 0xFFF) = unat a + 0xFFF"
    using assms(2) by (subst unat_add_lem [THEN iffD1]) simp_all
  moreover have "align_up_4k c a = (a + 0xFFF) AND NOT 0xFFF" using assms(1) by (simp only: cfg_law_def)
  ultimately show ?thesis by (simp only: unat_and_not_page)
qed

lemma round_up_le: "(n::nat) \<le> 4096 * ((n + 0xFFF) div 4096)"
  using div_mult_mod_eq [of "n + 0xFFF" 4096] mod_less_divisor [of 4096 "n + 0xFFF"] by linarith

lemma below_round_up: "4096 * k < 4096 * ((n + 0xFFF) div 4096) \<Longrightarrow> 4096 * k < (n::nat)"
proof -
  assume "4096 * k < 4096 * ((n + 0xFFF) div 4096)"
  then have "4096 * (k + 1) \<le> 4096 * ((n + 0xFFF) div 4096)" by simp
  also have "\<dots> \<le> n + 0xFFF" by simp
  finally show ?thesis by simp
qed

lemma find_position: "find P xs = map_option ((!) xs) (position P xs)"
proof (cases "position P xs")
  case None
  then have "find P xs = None" by (simp add: position_None_iff find_None_iff)
  with None show ?thesis by simp
next
  case (Some i)
  then have "i < length xs" "P (xs ! i)" "\<forall>j < i. \<not> P (xs ! j)" by (auto simp: position_Some_iff)
  then have "find P xs = Some (xs ! i)" by (auto simp: find_Some_iff)
  with Some show ?thesis by simp
qed

lemma disjoint_unique:
  assumes "disjoint_regions rs" "r \<in> set rs" "q \<in> set rs" "region_covers a r" "region_covers a q"
  shows "r = q"
proof -
  obtain i j where ij: "i < length rs" "j < length rs" "r = rs ! i" "q = rs ! j"
    using assms(2,3) by (auto simp: in_set_conv_nth)
  have "\<not> i < j" "\<not> j < i"
    using assms(1,4,5) ij by (auto simp: disjoint_regions_def sorted_wrt_iff_nth_less)
  with ij show ?thesis by simp
qed

lemma get_region_iff:
  assumes "disjoint_regions (regions m)"
  shows "get_region m a = Some r \<longleftrightarrow> r \<in> set (regions m) \<and> region_covers a r"
proof
  assume "get_region m a = Some r"
  then show "r \<in> set (regions m) \<and> region_covers a r"
    by (auto simp: get_region_def find_Some_iff)
next
  assume r: "r \<in> set (regions m) \<and> region_covers a r"
  then obtain q where "get_region m a = Some q"
    by (cases "get_region m a") (auto simp: get_region_def find_None_iff)
  moreover then have "q \<in> set (regions m) \<and> region_covers a q"
    by (auto simp: get_region_def find_Some_iff)
  ultimately show "get_region m a = Some r" using r assms disjoint_unique by metis
qed

lemma find_append: "find P (xs @ ys) = (case find P xs of None \<Rightarrow> find P ys | Some x \<Rightarrow> Some x)"
  by (induction xs) auto

lemma get_region_skip:
  assumes "regions m = xs @ r # ys" "\<not> region_covers a r"
  shows "get_region m a = find (region_covers a) (xs @ ys)"
  using assms by (simp add: get_region_def find_append split: option.split)

lemma get_region_None:
  "get_region m a = None \<longleftrightarrow> (\<forall>r \<in> set (regions m). \<not> region_covers a r)"
  by (auto simp: get_region_def find_None_iff)

lemma mmap_view_iff:
  assumes "disjoint_regions (regions m)"
  shows "mmap_view m a = Some v \<longleftrightarrow> (\<exists>r \<in> set (regions m). region_covers a r
    \<and> v = (mr_prot r, mr_flags r, mr_fd r, mr_offset r + (a - mr_start r)))"
  using get_region_iff [OF assms, of a] by (auto simp: mmap_view_def)

lemma mmap_view_None: "mmap_view m a = None \<longleftrightarrow> (\<forall>r \<in> set (regions m). \<not> region_covers a r)"
  by (simp add: mmap_view_def get_region_None)

text \<open>A table whose regions are those of another one, apart from one of them.\<close>

lemma split_position:
  assumes "get_region m a = Some r"
  obtains i xs ys where "position (region_covers a) (regions m) = Some i"
    "regions m = xs @ r # ys" "length xs = i" "region_covers a r"
    "remove_nth i (regions m) = xs @ ys"
proof -
  obtain i where i: "position (region_covers a) (regions m) = Some i" "r = regions m ! i"
    using assms by (auto simp: get_region_def find_position)
  then have "i < length (regions m)" "region_covers a r" by (auto simp: position_Some_iff)
  then show ?thesis
    using that [of i "take i (regions m)" "drop (Suc i) (regions m)"] i
    by (simp add: id_take_nth_drop [symmetric] remove_nth_def)
qed


abbreviation region_attrs :: "mmap_region \<Rightarrow> usize \<Rightarrow> u32 \<times> u32 \<times> shim_file option \<times> usize" where
  "region_attrs r a \<equiv> (mr_prot r, mr_flags r, mr_fd r, mr_offset r + (a - mr_start r))"

lemma view_covered:
  "disjoint_regions (regions m) \<Longrightarrow> r \<in> set (regions m) \<Longrightarrow> region_covers a r
   \<Longrightarrow> mmap_view m a = Some (region_attrs r a)"
  by (subst mmap_view_iff) auto

lemma add_region_spec:
  assumes "disjoint_regions (regions m)"
    and "\<And>a. region_covers a r \<Longrightarrow> mmap_view m a = None"
  shows "disjoint_regions (regions (add_region r m))"
    and "mmap_view (add_region r m) a =
      (if region_covers a r then Some (region_attrs r a) else mmap_view m a)"
proof -
  show *: "disjoint_regions (regions (add_region r m))"
    using assms by (auto simp: disjoint_regions_def add_region_def sorted_wrt_append mmap_view_None)
  show "mmap_view (add_region r m) a =
      (if region_covers a r then Some (region_attrs r a) else mmap_view m a)"
  proof (cases "region_covers a r")
    case True
    then show ?thesis using view_covered [OF *] by (simp add: add_region_def)
  next
    case False
    then have "get_region (add_region r m) a = get_region m a"
      by (simp add: get_region_def add_region_def find_append split: option.split)
    with False show ?thesis by (simp add: mmap_view_def)
  qed
qed

lemma remove_region_spec:
  assumes "disjoint_regions (regions m)" "get_region m b = Some r"
  obtains m' where "remove_region b m = Ok m'" "disjoint_regions (regions m')"
    "\<And>a. mmap_view m' a = (if region_covers a r then None else mmap_view m a)"
    "set (regions m') \<subseteq> set (regions m)" "map_start m' = map_start m"
proof -
  obtain i xs ys where i: "position (region_covers b) (regions m) = Some i"
    "regions m = xs @ r # ys" "length xs = i" "region_covers b r" "remove_nth i (regions m) = xs @ ys"
    by (rule split_position [OF assms(2)])
  let ?m = "m\<lparr>regions := xs @ ys\<rparr>"
  have view: "mmap_view ?m a = (if region_covers a r then None else mmap_view m a)" for a
  proof (cases "region_covers a r")
    case True
    then have "\<forall>q \<in> set (xs @ ys). \<not> region_covers a q"
      using assms(1) i(2) by (auto simp: disjoint_regions_def sorted_wrt_append)
    with True show ?thesis using mmap_view_None [of ?m a] by simp
  next
    case False
    then have "get_region ?m a = get_region m a"
      using get_region_skip [OF i(2)] by (simp add: get_region_def)
    with False show ?thesis by (simp add: mmap_view_def)
  qed
  have "disjoint_regions (regions ?m)"
    using assms(1) i(2) by (simp add: disjoint_regions_def sorted_wrt_append)
  moreover have "remove_region b m = Ok ?m" using i(1,5) by (simp add: remove_region_def)
  ultimately show ?thesis using that [of ?m] view i(2) by fastforce
qed

lemma get_region_mut_spec:
  assumes "disjoint_regions (regions m)" "get_region m b = Some r"
    and f: "\<And>q. mr_start (f q) = mr_start q" "\<And>q. mr_len (f q) = mr_len q"
  obtains m' where "get_region_mut b f m = Some m'" "disjoint_regions (regions m')"
    "\<And>a. mmap_view m' a = (if region_covers a r then Some (region_attrs (f r) a) else mmap_view m a)"
    "map_start m' = map_start m"
    "map mr_start (regions m') = map mr_start (regions m)" "map mr_len (regions m') = map mr_len (regions m)"
proof -
  obtain i xs ys where i: "position (region_covers b) (regions m) = Some i"
    "regions m = xs @ r # ys" "length xs = i" "region_covers b r" "remove_nth i (regions m) = xs @ ys"
    by (rule split_position [OF assms(2)])
  let ?m = "m\<lparr>regions := xs @ f r # ys\<rparr>"
  have cov: "region_covers a (f q) = region_covers a q" for a q by (simp add: region_covers_def f)
  have disj: "disjoint_regions (regions ?m)"
    using assms(1) i(2) by (simp add: disjoint_regions_def sorted_wrt_append cov)
  have view: "mmap_view ?m a = (if region_covers a r then Some (region_attrs (f r) a) else mmap_view m a)" for a
  proof (cases "region_covers a r")
    case True
    then show ?thesis using view_covered [OF disj, of "f r" a] by (simp add: cov)
  next
    case False
    then have "get_region ?m a = get_region m a"
      using get_region_skip [OF i(2)] get_region_skip [of ?m xs "f r" ys a] cov by simp
    with False show ?thesis by (simp add: mmap_view_def)
  qed
  have "(regions m)[i := f (regions m ! i)] = xs @ f r # ys"
    unfolding i(2) using i(3) by (auto simp: list_update_append nth_append)
  then have "get_region_mut b f m = Some ?m" using i(1) by (simp add: get_region_mut_def)
  then show ?thesis using that [of ?m] disj view i(2) f by simp
qed

lemma get_region_mut_None: "get_region m b = None \<Longrightarrow> get_region_mut b f m = None"
  by (simp add: get_region_def find_position get_region_mut_def)

lemma remove_region_None: "get_region m b = None \<Longrightarrow> remove_region b m = panic"
  by (simp add: get_region_def find_position remove_region_def)


lemma unat_add_below: "unat (x::usize) + unat y < 2 ^ 64 \<Longrightarrow> unat (x + y) = unat x + unat y"
  by (simp add: unat_add_lem [THEN iffD1])

lemma covers_nat:
  assumes "unat (mr_start r) + unat (mr_len r) < 2 ^ 64"
  shows "region_covers a r \<longleftrightarrow> unat (mr_start r) \<le> unat a \<and> unat a < unat (mr_start r) + unat (mr_len r)"
  using unat_add_below [OF assms] by (simp add: region_covers_def word_le_nat_alt word_less_nat_alt)

lemma inv_region_end:
  assumes "mmap_inv m" "r \<in> set (regions m)"
  shows "unat (mr_start r) + unat (mr_len r) \<le> unat (map_start m)"
    "unat (mr_start r) + unat (mr_len r) < 2 ^ 64"
    "unat (mr_start r + mr_len r) = unat (mr_start r) + unat (mr_len r)"
proof -
  show *: "unat (mr_start r) + unat (mr_len r) \<le> unat (map_start m)"
    using assms by (auto simp: mmap_inv_def regions_below_def)
  moreover have "unat (map_start m) < 2 ^ 64" using unsigned_less [of "map_start m", where ?'a = nat] by simp
  ultimately show **: "unat (mr_start r) + unat (mr_len r) < 2 ^ 64" by linarith
  show "unat (mr_start r + mr_len r) = unat (mr_start r) + unat (mr_len r)"
    by (rule unat_add_below [OF **])
qed

lemma round_up_bound: "4096 * ((n + 0xFFF) div 4096) \<le> (n::nat) + 0xFFF"
  by (simp add: times_div_less_eq_dividend)

text \<open>The bump pointer hands out addresses above every region.\<close>

lemma mmap_alloc_spec:
  assumes "cfg_law c" "unat (map_start m) + unat len + 2 * 0xFFF < 2 ^ 64"
  obtains stop where "mmap_alloc c len m = ((map_start m, stop), m\<lparr>map_start := stop\<rparr>)"
    "unat (map_start m) + unat len \<le> unat stop" "unat stop + 0xFFF < 2 ^ 64"
proof -
  let ?n = "unat (map_start m) + unat len"
  have "unat (map_start m + len) = ?n" using assms(2) by (intro unat_add_below) linarith
  moreover have "unat (map_start m + len + 0xFFF) = unat (map_start m + len) + unat (0xFFF::usize)"
    using assms(2) calculation by (intro unat_add_below) simp
  ultimately have "unat (map_start m + len + 0xFFF) = ?n + 0xFFF" by simp
  moreover have "map_start m + len + FRAME_SIZE c - 1 = map_start m + len + 0xFFF"
    "FRAME_SIZE c - 1 = 0xFFF" using assms(1) by (simp_all add: cfg_law_def)
  ultimately have eq: "unat ((map_start m + len + FRAME_SIZE c - 1) AND NOT (FRAME_SIZE c - 1))
      = 4096 * ((?n + 0xFFF) div 4096)" by (simp only: unat_and_not_page)
  define stop where "stop = (map_start m + len + FRAME_SIZE c - 1) AND NOT (FRAME_SIZE c - 1)"
  have *: "unat stop = 4096 * ((?n + 0xFFF) div 4096)" using eq by (simp only: stop_def)
  have "mmap_alloc c len m = ((map_start m, stop), m\<lparr>map_start := stop\<rparr>)"
    by (simp only: mmap_alloc_def Let_def stop_def)
  moreover have "?n \<le> unat stop" unfolding * by (rule round_up_le)
  moreover have "unat stop + 0xFFF < 2 ^ 64" using * round_up_bound [of ?n] assms(2) by linarith
  ultimately show ?thesis by (rule that)
qed

lemma disjoint_fresh:
  assumes "mmap_inv m" "unat (mr_start r) + unat (mr_len r) < 2 ^ 64"
    and "\<And>q. q \<in> set (regions m) \<Longrightarrow> unat (mr_start r) + unat (mr_len r) \<le> unat (mr_start q)
        \<or> unat (mr_start q) + unat (mr_len q) \<le> unat (mr_start r)"
    and "region_covers a r"
  shows "mmap_view m a = None"
proof -
  have "\<not> region_covers a q" if q: "q \<in> set (regions m)" for q
    using assms(3) [OF q] assms(4) covers_nat [OF assms(2)] covers_nat [OF inv_region_end(2) [OF assms(1) q]]
    by fastforce
  then show ?thesis by (simp add: mmap_view_None)
qed

lemma add_region_inv:
  assumes "mmap_inv m" "unat (mr_start r) + unat (mr_len r) \<le> unat (map_start m)"
    and "\<And>a. region_covers a r \<Longrightarrow> mmap_view m a = None"
  shows "mmap_inv (add_region r m)"
  using assms add_region_spec(1) [of m r]
  by (auto simp: mmap_inv_def regions_below_def add_region_def)

lemma split_covers:
  assumes "region_split c r s = (l, q)"
  shows "region_covers a l \<longleftrightarrow> mr_start r \<le> a \<and> a < s"
    "region_covers a q \<longleftrightarrow> s \<le> a \<and> a < mr_start r + mr_len r"
    "mr_start l = mr_start r" "mr_start q = s" "mr_len l = s - mr_start r"
    "mr_len q = mr_start r + mr_len r - s" "mr_map_len q = align_up_4k c (mr_start r + mr_len r - s)"
    "region_attrs l a = region_attrs r a" "region_attrs q a = region_attrs r a"
  using assms by (auto simp: region_split_def Let_def region_covers_def)


text \<open>Adding a region whose addresses are free.\<close>

lemma add_free_region:
  assumes "mmap_inv m" "unat (mr_start r) + unat (mr_len r) \<le> unat (map_start m)"
    and "\<And>a. region_covers a r \<longleftrightarrow> P a" "\<And>a. P a \<Longrightarrow> mmap_view m a = None"
  shows "mmap_inv (add_region r m)"
    "mmap_view (add_region r m) a = (if P a then Some (region_attrs r a) else mmap_view m a)"
proof -
  have free: "mmap_view m b = None" if "region_covers b r" for b using that assms(3,4) by blast
  show "mmap_inv (add_region r m)" by (rule add_region_inv [OF assms(1,2) free])
  have "disjoint_regions (regions m)" using assms(1) by (simp only: mmap_inv_def)
  then have "mmap_view (add_region r m) a =
      (if region_covers a r then Some (region_attrs r a) else mmap_view m a)"
    by (rule add_region_spec(2)) (rule free)
  then show "mmap_view (add_region r m) a = (if P a then Some (region_attrs r a) else mmap_view m a)"
    unfolding assms(3) .
qed

lemma split_region_parts:
  assumes split: "region_split c r s = (l, q)" and s: "region_covers s r"
    and rend: "unat (mr_start r + mr_len r) = unat (mr_start r) + unat (mr_len r)"
  shows "region_covers a l \<longleftrightarrow> region_covers a r \<and> \<not> s \<le> a"
    "region_covers a q \<longleftrightarrow> region_covers a r \<and> s \<le> a"
    "unat (mr_start l) + unat (mr_len l) = unat s"
    "unat (mr_start q) + unat (mr_len q) = unat (mr_start r) + unat (mr_len r)"
    "unat (mr_len q) = unat (mr_start r) + unat (mr_len r) - unat s"
    "mr_start q + mr_len q = mr_start r + mr_len r"
proof -
  note sp = split_covers [OF split]
  have s: "mr_start r \<le> s" "s < mr_start r + mr_len r" using s by (auto simp: region_covers_def)
  then have su: "unat (mr_start r) \<le> unat s" "unat s < unat (mr_start r) + unat (mr_len r)"
    using rend by (simp_all add: word_le_nat_alt word_less_nat_alt)
  show "region_covers a l \<longleftrightarrow> region_covers a r \<and> \<not> s \<le> a"
    unfolding sp(1) region_covers_def [of a r] using s(2) by (metis not_le order.strict_trans)
  show "region_covers a q \<longleftrightarrow> region_covers a r \<and> s \<le> a"
    unfolding sp(2) region_covers_def [of a r] using s(1) by (metis order.trans)
  show "mr_start q + mr_len q = mr_start r + mr_len r" using sp(4,6) by simp
  show q: "unat (mr_len q) = unat (mr_start r) + unat (mr_len r) - unat s"
    using sp(6) s(2) rend by (simp add: unat_sub word_less_nat_alt order_less_imp_le)
  show "unat (mr_start q) + unat (mr_len q) = unat (mr_start r) + unat (mr_len r)"
    using q sp(4) su by simp
  show "unat (mr_start l) + unat (mr_len l) = unat s"
    using sp(3,5) s(1) su by (simp add: unat_sub word_le_nat_alt)
qed

text \<open>A fixed mapping inside a region: the table changes exactly on the range that was asked for.\<close>

lemma remap_fixed_spec:
  assumes c: "cfg_law c" and inv: "mmap_inv m" and r: "get_region m start = Some r"
    and len: "unat len = 4096 * k" "unat start + unat len < 2 ^ 64"
  obtains m' where "remap_fixed c r start len prot flags fd offset m = Ok m'" "mmap_inv m'"
    "map_start m' = map_start m"
    "\<And>a. mmap_view m' a = (if region_covers a r \<and> start \<le> a \<and> a < start + len
        then Some (prot, flags, fd, offset + (a - start)) else mmap_view m a)"
proof -
  have disj: "disjoint_regions (regions m)" using inv by (simp add: mmap_inv_def)
  have rin: "r \<in> set (regions m)" "region_covers start r" using r get_region_iff [OF disj] by auto
  note rend = inv_region_end [OF inv rin(1)]
  let ?e = "unat (mr_start r) + unat (mr_len r)"
  have su: "unat (mr_start r) \<le> unat start" "unat start < ?e"
    using rin(2) covers_nat [OF rend(2)] by auto
  have "region_covers (mr_start r) r" using su covers_nat [OF rend(2)] by auto
  with rin(1) have r': "get_region m (mr_start r) = Some r" using get_region_iff [OF disj] by blast
  obtain m1 where m1: "remove_region (mr_start r) m = Ok m1" "disjoint_regions (regions m1)"
    "\<And>a. mmap_view m1 a = (if region_covers a r then None else mmap_view m a)"
    "set (regions m1) \<subseteq> set (regions m)" "map_start m1 = map_start m"
    by (rule remove_region_spec [OF disj r']) (rule that; assumption)
  have inv1: "mmap_inv m1" using inv m1 by (auto simp: mmap_inv_def regions_below_def)
  obtain l q where lq: "region_split c r start = (l, q)" by fastforce
  note sp = split_covers [OF lq] and pp = split_region_parts [OF lq rin(2) rend(3)]
  note old = view_covered [OF disj rin(1)]
  let ?up = "\<lambda>r. (set_flags flags (set_prot prot r))\<lparr>mr_offset := offset, mr_fd := fd\<rparr>"
  have up: "mr_start (?up x) = mr_start x" "mr_len (?up x) = mr_len x"
    "region_covers a (?up x) = region_covers a x"
    "region_attrs (?up x) a = (prot, flags, fd, offset + (a - mr_start x))" for a x
    by (simp_all add: set_flags_def set_prot_def region_covers_def)
  let ?m2 = "add_region l m1"
  have l_free: "mmap_view m1 a = None" if "region_covers a r \<and> \<not> start \<le> a" for a
    using that m1(3) by simp
  have l_end: "unat (mr_start l) + unat (mr_len l) \<le> unat (map_start m1)"
    using pp(3) su rend(1) m1(5) by simp
  note m2 = add_free_region [OF inv1 l_end pp(1) l_free]
  have v2: "mmap_view ?m2 a = (if region_covers a r \<and> start \<le> a then None else mmap_view m a)" for a
    using m2(2) [of a] m1(3) [of a] sp(8) [of a] old [of a] by (cases "region_covers a r") auto
  have cut: "unat (start + len) = unat start + unat len" by (rule unat_add_below [OF len(2)])
  have mapq: "unat (mr_start q + mr_map_len q) = unat start + 4096 * ((?e - unat start + 0xFFF) div 4096)"
  proof -
    have bound: "?e + 0xFFF < 2 ^ 64" using rend(1) inv by (simp add: mmap_inv_def)
    then have "unat (mr_map_len q) = 4096 * ((?e - unat start + 0xFFF) div 4096)"
      using unat_align_up [OF c, of "mr_len q"] sp(6,7) pp(5) by simp
    moreover have "unat start + 4096 * ((?e - unat start + 0xFFF) div 4096) < 2 ^ 64"
      using bound round_up_bound [of "?e - unat start"] su by linarith
    ultimately show ?thesis using sp(4) unat_add_below [of start "mr_map_len q"] by simp
  qed
  show ?thesis
  proof (cases "start + len < mr_start q + mr_map_len q")
    case True
    then have "4096 * k < 4096 * ((?e - unat start + 0xFFF) div 4096)"
      using mapq cut len(1) by (simp add: word_less_nat_alt)
    then have "4096 * k < ?e - unat start" by (rule below_round_up)
    then have cute: "unat start + unat len < ?e" using len(1) by linarith
    obtain p t where pt: "region_split c q (start + len) = (p, t)" by fastforce
    have le: "start \<le> start + len" using cut by (simp add: word_le_nat_alt)
    have qend: "unat (mr_start q + mr_len q) = unat (mr_start q) + unat (mr_len q)"
      using pp(4,6) rend(3) by simp
    have qcov: "region_covers (start + len) q"
      using pp(2) covers_nat [OF rend(2)] cut cute su le by simp
    note pq = split_region_parts [OF pt qcov qend] and sq = split_covers [OF pt]
    have ct: "region_covers a t \<longleftrightarrow> region_covers a r \<and> start + len \<le> a"
      and cp: "region_covers a (?up p) \<longleftrightarrow> region_covers a r \<and> start \<le> a \<and> a < start + len" for a
      using pq(1,2) pp(2) up(3) le by auto
    let ?m3 = "add_region t ?m2"
    have t_free: "mmap_view ?m2 a = None" if "region_covers a r \<and> start + len \<le> a" for a
      using that v2 le by auto
    have t_end: "unat (mr_start t) + unat (mr_len t) \<le> unat (map_start ?m2)"
      using pq(4) pp(4) rend(1) m1(5) by (simp add: add_region_def)
    note m3 = add_free_region [OF m2(1) t_end ct t_free]
    have v3: "mmap_view ?m3 a = (if region_covers a r \<and> start \<le> a \<and> a < start + len then None
        else mmap_view m a)" for a
      using m3(2) [of a] v2 [of a] sq(9) [of a] sp(9) [of a] old [of a] le
      by (cases "region_covers a r"; cases "start + len \<le> a") auto
    have p_free: "mmap_view ?m3 a = None" if "region_covers a r \<and> start \<le> a \<and> a < start + len" for a
      using that v3 by simp
    have p_end: "unat (mr_start (?up p)) + unat (mr_len (?up p)) \<le> unat (map_start ?m3)"
      using up(1,2) pq(3) cut cute rend(1) m1(5) by (simp add: add_region_def)
    note m4 = add_free_region [OF m3(1) p_end cp p_free]
    have v4: "mmap_view (add_region (?up p) ?m3) a =
        (if region_covers a r \<and> start \<le> a \<and> a < start + len
         then Some (prot, flags, fd, offset + (a - start)) else mmap_view m a)" for a
      using m4(2) [of a] v3 [of a] up(4) sq(3) sp(4) by simp
    show ?thesis
      by (rule that [OF _ m4(1) _ v4])
        (use lq pt m1(1,5) True in \<open>simp_all add: remap_fixed_def Let_def add_region_def\<close>)
  next
    case False
    then have "?e - unat start \<le> 4096 * k"
      using mapq cut len(1) round_up_le [of "?e - unat start"] by (simp add: word_less_nat_alt)
    then have "?e \<le> unat start + unat len" using len(1) su by linarith
    then have le: "region_covers a r \<Longrightarrow> a < start + len" for a
      using cut covers_nat [OF rend(2)] by (auto simp: word_less_nat_alt)
    have cq: "region_covers a (?up q) \<longleftrightarrow> region_covers a r \<and> start \<le> a" for a
      using pp(2) up(3) by simp
    have q_free: "mmap_view ?m2 a = None" if "region_covers a r \<and> start \<le> a" for a
      using that v2 by simp
    have q_end: "unat (mr_start (?up q)) + unat (mr_len (?up q)) \<le> unat (map_start ?m2)"
      using up(1,2) pp(4) rend(1) m1(5) by (simp add: add_region_def)
    note m3 = add_free_region [OF m2(1) q_end cq q_free]
    have v3: "mmap_view (add_region (?up q) ?m2) a = (if region_covers a r \<and> start \<le> a \<and> a < start + len
        then Some (prot, flags, fd, offset + (a - start)) else mmap_view m a)" for a
      using m3(2) [of a] v2 [of a] up(4) sp(4) le [of a] by auto
    show ?thesis
      by (rule that [OF _ m3(1) _ v3])
        (use lq m1(1,5) False in \<open>simp_all add: remap_fixed_def Let_def add_region_def\<close>)
  qed
qed


section \<open>The calls keep the table consistent\<close>

lemma on_space_info [simp]: "mm_info (snd (on_space h f s)) = mm_info s"
  by (simp add: on_space_def split_beta)

lemma on_space_heap [simp]: "mm_heap (snd (on_space h f s)) = mm_heap s"
  by (simp add: on_space_def split_beta)

lemma info_bind [simp]:
  "bind get_info f s = f (mm_info s) s" "bind (put_info m) g s = g () (s\<lparr>mm_info := m\<rparr>)"
  "bind get_heap h s = h (mm_heap s) s"
  by (simp_all add: bind_def mm_access)

lemma bind_lift_Ok [simp]: "bind (lift (Inr x)) k = k x"
  by (rule ext) (simp add: bind_def act_simps)

lemma on_space_ok:
  "fst (g (mm_space s)) = Inr x
   \<Longrightarrow> bind (on_space h g) k s = k x (s\<lparr>mm_space := snd (g (mm_space s))\<rparr>)"
  by (cases "g (mm_space s)") (simp add: bind_def on_space_def)

lemma bind_info_keep:
  assumes "\<And>s. mm_info (snd (m s)) = mm_info s" "\<And>x s. mm_info (snd (f x s)) = mm_info s"
  shows "mm_info (snd (bind m f s)) = mm_info s"
  using assms(1) [of s] assms(2) by (cases "m s") (auto simp: bind_def split: sum.split)

lemma ret_info [simp]: "mm_info (snd (ret x s)) = mm_info s"
  by (simp add: act_simps)

lemma protect_pages_info [simp]: "mm_info (snd (protect_pages ops step flags ps s)) = mm_info s"
  by (induction ps arbitrary: s) (simp_all add: bind_info_keep)

lemma protect_pages_heap [simp]: "mm_heap (snd (protect_pages ops step flags ps s)) = mm_heap s"
proof (induction ps arbitrary: s)
  case (Cons p ps)
  obtain r t where "on_space (\<lambda>_. panic) (vm_protect ops p (p + step) flags) s = (r, t)" by fastforce
  with Cons on_space_heap [of "\<lambda>_. panic" "vm_protect ops p (p + step) flags" s] show ?case
    by (cases r) (simp_all add: bind_def)
qed (simp add: act_simps)

lemma mmap_range_info [simp]:
  "mm_info (snd (mmap_range c ops v_range len prot flags fd offset m s)) =
   add_region (region_new (fst v_range) len (snd v_range - fst v_range) prot flags fd offset) m"
  by (simp add: mmap_range_def Let_def bind_info_keep)

text \<open>A range below the bump pointer that meets no region.\<close>

definition range_free :: "mmap_info \<Rightarrow> usize \<Rightarrow> usize \<Rightarrow> bool" where
  "range_free m a n \<longleftrightarrow> unat a + unat n \<le> unat (map_start m)
     \<and> (\<forall>q \<in> set (regions m). unat a + unat n \<le> unat (mr_start q)
          \<or> unat (mr_start q) + unat (mr_len q) \<le> unat a)"

definition alloc_room :: "mmap_info \<Rightarrow> usize \<Rightarrow> bool" where
  "alloc_room m n \<longleftrightarrow> unat (map_start m) + unat n + 2 * 0xFFF < 2 ^ 64"

text \<open>
  The requests that leave the choice of the place to the kernel: not executable, and fixed only
  where the address lies in a mapped region, which \<open>do_mmap\<close> then carves up. The sizes fit into
  the address space.
\<close>

definition mmap_request_ok :: "mm_cfg \<Rightarrow> usize \<Rightarrow> usize \<Rightarrow> u32 \<Rightarrow> u32 \<Rightarrow> mmap_info \<Rightarrow> bool" where
  "mmap_request_ok c start len prot flags m \<longleftrightarrow>
     (let prot = from_bits_truncate (PROT_ALL c) prot; flags = from_bits_truncate (MAP_ALL c) flags;
          a = align_down_4k c start; n = align_up_4k c len
      in unat len + 0xFFF < 2 ^ 64 \<and> \<not> contains prot (PROT_EXEC c) \<and>
         (if contains flags (MAP_FIXED c) then get_region m a \<noteq> None \<and> unat a + unat n < 2 ^ 64
          else alloc_room m n))"

text \<open>The requests by which the caller places a new region: executable ones, and fixed ones at an
  address that is not mapped. (The code ignores requests inside the heap.)\<close>

definition mmap_placed :: "mm_cfg \<Rightarrow> usize \<Rightarrow> usize \<Rightarrow> u32 \<Rightarrow> u32 \<Rightarrow> 'v mm \<Rightarrow> bool" where
  "mmap_placed c start len prot flags s \<longleftrightarrow>
     \<not> (heap_contains (mm_heap s) start \<and> heap_contains (mm_heap s) (start + len))
     \<and> (contains (from_bits_truncate (PROT_ALL c) prot) (PROT_EXEC c)
        \<or> contains (from_bits_truncate (MAP_ALL c) flags) (MAP_FIXED c)
          \<and> get_region (mm_info s) (align_down_4k c start) = None)"

definition overlap_free :: "mmap_info \<Rightarrow> bool" where
  "overlap_free m \<longleftrightarrow> (\<forall>a i j. i < length (regions m) \<and> j < length (regions m)
      \<and> region_covers a (regions m ! i) \<and> region_covers a (regions m ! j) \<longrightarrow> i = j)"

lemma overlap_free_disjoint: "overlap_free m \<longleftrightarrow> disjoint_regions (regions m)"
proof
  assume free: "overlap_free m"
  have "\<not> (region_covers a (regions m ! i) \<and> region_covers a (regions m ! j))"
    if "i < j" "j < length (regions m)" for a i j
  proof
    assume "region_covers a (regions m ! i) \<and> region_covers a (regions m ! j)"
    moreover have "i < length (regions m)" using that by simp
    ultimately have "i = j" using free that(2) unfolding overlap_free_def by blast
    with that(1) show False by simp
  qed
  then show "disjoint_regions (regions m)"
    by (simp add: disjoint_regions_def sorted_wrt_iff_nth_less)
next
  assume "disjoint_regions (regions m)"
  then have apart: "\<not> (region_covers a (regions m ! i) \<and> region_covers a (regions m ! j))"
    if "i < j" "j < length (regions m)" for a i j
    using that by (simp add: disjoint_regions_def sorted_wrt_iff_nth_less)
  show "overlap_free m" unfolding overlap_free_def
  proof (intro allI impI)
    fix a i j
    assume "i < length (regions m) \<and> j < length (regions m)
      \<and> region_covers a (regions m ! i) \<and> region_covers a (regions m ! j)"
    then show "i = j" using apart [of i j a] apart [of j i a] by (cases i j rule: linorder_cases) auto
  qed
qed

lemma mmap_view_None_iff: "mmap_view m a = None \<longleftrightarrow> get_region m a = None"
  by (simp add: mmap_view_def)

lemma region_new_sel [simp]:
  "mr_start (region_new a l ml p f fd off) = a" "mr_len (region_new a l ml p f fd off) = l"
  "mr_map_len (region_new a l ml p f fd off) = ml" "mr_prot (region_new a l ml p f fd off) = p"
  "mr_flags (region_new a l ml p f fd off) = f" "mr_fd (region_new a l ml p f fd off) = fd"
  "mr_offset (region_new a l ml p f fd off) = off"
  by (simp_all add: region_new_def)

lemma add_range_inv:
  assumes "mmap_inv m" "range_free m a n"
  shows "mmap_inv (add_region (region_new a n ml p f fd off) m)"
    and "mmap_view (add_region (region_new a n ml p f fd off) m) b =
      (if a \<le> b \<and> b < a + n then Some (p, f, fd, off + (b - a)) else mmap_view m b)"
proof -
  let ?r = "region_new a n ml p f fd off"
  have end1: "unat (mr_start ?r) + unat (mr_len ?r) \<le> unat (map_start m)"
    using assms(2) by (simp add: range_free_def)
  then have end2: "unat (mr_start ?r) + unat (mr_len ?r) < 2 ^ 64"
    using assms(1) unfolding mmap_inv_def by linarith
  have free: "mmap_view m b = None" if "a \<le> b \<and> b < a + n" for b
    by (rule disjoint_fresh [OF assms(1) end2])
      (use assms(2) that in \<open>auto simp: range_free_def region_covers_def\<close>)
  have cov: "region_covers b ?r \<longleftrightarrow> a \<le> b \<and> b < a + n" for b by (simp add: region_covers_def)
  note add = add_free_region [OF assms(1) end1 cov free]
  show "mmap_inv (add_region ?r m)" by (rule add(1))
  show "mmap_view (add_region ?r m) b =
      (if a \<le> b \<and> b < a + n then Some (p, f, fd, off + (b - a)) else mmap_view m b)"
    using add(2) [of b] by simp
qed

lemma alloc_range:
  assumes "cfg_law c" "mmap_inv m" "alloc_room m n"
  obtains stop where "mmap_alloc c n m = ((map_start m, stop), m\<lparr>map_start := stop\<rparr>)"
    "mmap_inv (m\<lparr>map_start := stop\<rparr>)" "range_free (m\<lparr>map_start := stop\<rparr>) (map_start m) n"
    "\<And>a. mmap_view (m\<lparr>map_start := stop\<rparr>) a = mmap_view m a"
proof -
  obtain stop where stop: "mmap_alloc c n m = ((map_start m, stop), m\<lparr>map_start := stop\<rparr>)"
    "unat (map_start m) + unat n \<le> unat stop" "unat stop + 0xFFF < 2 ^ 64"
    using mmap_alloc_spec [OF assms(1)] assms(3) unfolding alloc_room_def by blast
  show ?thesis
  proof (rule that [OF stop(1)])
    show "mmap_inv (m\<lparr>map_start := stop\<rparr>)"
      using assms(2) stop(2,3) by (force simp: mmap_inv_def regions_below_def)
    show "range_free (m\<lparr>map_start := stop\<rparr>) (map_start m) n"
      using stop(2) inv_region_end(1) [OF assms(2)] by (simp add: range_free_def)
    show "mmap_view (m\<lparr>map_start := stop\<rparr>) a = mmap_view m a" for a
      by (simp add: mmap_view_def get_region_def)
  qed
qed


text \<open>The lookup of the mapped file reads the state only.\<close>

lemma lookup_then:
  assumes "P s" "\<And>x. P (snd (k x s))"
  shows "P (snd (bind (if b then ret None else bind (lift r) (\<lambda>f. ret (Some f))) k s))"
  using assms by (cases r) (auto simp: bind_def act_simps)

lemma do_mmap_inv:
  assumes c: "cfg_law c" and inv: "mmap_inv (mm_info s)"
    and ok: "mmap_request_ok c start len prot flags (mm_info s)"
  shows "mmap_inv (mm_info (snd (do_mmap c ops get_file start len prot flags fd offset s)))"
proof -
  let ?p = "from_bits_truncate (PROT_ALL c) prot" and ?f = "from_bits_truncate (MAP_ALL c) flags"
    and ?a = "align_down_4k c start" and ?n = "align_up_4k c len"
  define m where "m = mm_info s"
  have ok: "unat len + 0xFFF < 2 ^ 64"
    and ok_exec: "\<not> contains ?p (PROT_EXEC c)"
    and ok_fixed: "contains ?f (MAP_FIXED c) \<Longrightarrow> unat ?a + unat ?n < 2 ^ 64 \<and> get_region m ?a \<noteq> None"
    and ok_alloc: "\<not> contains ?p (PROT_EXEC c) \<Longrightarrow> \<not> contains ?f (MAP_FIXED c) \<Longrightarrow> alloc_room m ?n"
    using ok by (auto simp: mmap_request_ok_def m_def Let_def split: if_splits)
  have im: "mmap_inv m" using inv by (simp add: m_def)
  have n: "unat ?n = 4096 * ((unat len + 0xFFF) div 4096)" by (rule unat_align_up [OF c ok])
  have fixed: "mmap_inv m'" if "remap_fixed c r ?a ?n p f x offset m = Ok m'" "get_region m ?a = Some r"
    "\<not> contains ?p (PROT_EXEC c)" "contains ?f (MAP_FIXED c)" for r p f x m'
    using remap_fixed_spec [OF c im that(2) n, of p f x offset] ok_fixed that by fastforce
  have alloc: "mmap_inv (add_region (region_new (fst v) ?n l ?p ?f x offset) m')"
    if "mmap_alloc c ?n m = (v, m')" "\<not> contains ?p (PROT_EXEC c)" "\<not> contains ?f (MAP_FIXED c)" for v m' l x
    using alloc_range [OF c im ok_alloc [OF that(2,3)]] that(1) add_range_inv(1) by (metis fst_conv prod.inject)
  show ?thesis
    unfolding do_mmap_def Let_def
    apply (split if_split, rule conjI; rule impI)
     apply (simp add: act_simps inv)
    apply (split if_split, rule conjI; rule impI)
     apply (simp add: act_simps inv)
    apply (simp only: info_bind)
    apply (split if_split, rule conjI; rule impI)
     apply (simp add: act_simps inv)
    apply (rule lookup_then)
     apply (rule inv)
    subgoal for x
      using ok_exec ok_fixed alloc fixed im add_range_inv(1) [OF im]
      by (auto simp: m_def [symmetric] act_simps split: option.split sum.split prod.split)
    done
qed


lemma mut_inv:
  assumes "mmap_inv m" "get_region_mut a (set_prot prot) m = Some m'"
  shows "mmap_inv m'"
proof -
  have disj: "disjoint_regions (regions m)" using assms(1) by (simp add: mmap_inv_def)
  obtain r where r: "get_region m a = Some r"
    using assms(2) get_region_mut_None [of m a] by (cases "get_region m a") auto
  obtain m2 where m2: "get_region_mut a (set_prot prot) m = Some m2" "disjoint_regions (regions m2)"
    "map_start m2 = map_start m" "map mr_start (regions m2) = map mr_start (regions m)"
    "map mr_len (regions m2) = map mr_len (regions m)"
    by (rule get_region_mut_spec [OF disj r, of "set_prot prot"]) (auto simp: set_prot_def)
  have below: "regions_below b rs \<longleftrightarrow> (\<forall>(s, l) \<in> set (zip (map mr_start rs) (map mr_len rs)). unat s + unat l \<le> unat b)"
    for b and rs by (auto simp: regions_below_def zip_map1 zip_map2 zip_same_conv_map)
  have "regions_below (map_start m2) (regions m2)"
    using assms(1) m2(3-5) below [of _ "regions m"] below [of _ "regions m2"] by (simp add: mmap_inv_def)
  with m2 assms show ?thesis by (simp add: mmap_inv_def)
qed

lemma remove_inv:
  assumes "mmap_inv m" "remove_region a m = Ok m'"
  shows "mmap_inv m'"
proof -
  have disj: "disjoint_regions (regions m)" using assms(1) by (simp add: mmap_inv_def)
  obtain r where r: "get_region m a = Some r"
    using assms(2) remove_region_None [of m a] by (cases "get_region m a") auto
  obtain m2 where m2: "remove_region a m = Ok m2" "disjoint_regions (regions m2)"
    "set (regions m2) \<subseteq> set (regions m)" "map_start m2 = map_start m"
    by (rule remove_region_spec [OF disj r]) blast
  with assms show ?thesis by (auto simp: mmap_inv_def regions_below_def)
qed

text \<open>A continuation of a lookup, and the state after a failed one.\<close>

lemma lift_then:
  "P s \<Longrightarrow> (\<And>x. r = Inr x \<Longrightarrow> P (snd (k x s))) \<Longrightarrow> P (snd (bind (lift r) k s))"
  by (cases r) (auto simp: bind_def act_simps)

lemma space_then:
  assumes "P (snd (on_space h g s))" "\<And>x t. on_space h g s = (Inr x, t) \<Longrightarrow> P (snd (k x t))"
  shows "P (snd (bind (on_space h g) k s))"
  using assms by (cases "on_space h g s") (auto simp: bind_def split: sum.split)

lemma ok_or_Inr: "ok_or x e = Inr y \<longleftrightarrow> x = Some y"
  by (simp add: ok_or_def split: option.split)

lemma unwrap_Inr: "unwrap x = Inr y \<longleftrightarrow> x = Some y"
  by (simp add: unwrap_def split: option.split)

lemma other_calls_inv:
  assumes inv: "mmap_inv (mm_info s)"
  shows "mmap_inv (mm_info (snd (do_munmap ops start len s)))"
    and "mmap_inv (mm_info (snd (do_mprotect c ops start len prot s)))"
    and "mmap_inv (mm_info (snd (do_load_page_fault c ops start s)))"
    and "mmap_inv (mm_info (snd (vdso_map_user_pages c ops start len prot descs s)))"
    and "mmap_inv (mm_info (snd (extend_heap c ops start s)))"
proof -
  show "mmap_inv (mm_info (snd (do_munmap ops start len s)))"
    unfolding do_munmap_def info_bind
    by (rule lift_then [where P = "\<lambda>t. mmap_inv (mm_info t)"], rule inv, split if_split, intro conjI impI,
        simp add: act_simps inv, rule space_then [where P = "\<lambda>t. mmap_inv (mm_info t)"], simp add: inv,
        rule lift_then [where P = "\<lambda>t. mmap_inv (mm_info t)"])
      (use inv on_space_info [of "\<lambda>_. panic" "vm_unmap ops start" s] remove_inv [OF inv]
       in \<open>auto simp: act_simps\<close>)
  show "mmap_inv (mm_info (snd (do_mprotect c ops start len prot s)))"
    unfolding do_mprotect_def Let_def info_bind
    by (rule lift_then [where P = "\<lambda>t. mmap_inv (mm_info t)"], rule inv)
      (use mut_inv [OF inv] in \<open>simp add: bind_info_keep ok_or_Inr\<close>)
  show "mmap_inv (mm_info (snd (do_load_page_fault c ops start s)))"
    unfolding do_load_page_fault_def Let_def info_bind
    by (rule lift_then [where P = "\<lambda>t. mmap_inv (mm_info t)"]) (simp_all add: inv)
  show "mmap_inv (mm_info (snd (vdso_map_user_pages c ops start len prot descs s)))"
    unfolding vdso_map_user_pages_def Let_def
    apply (split if_split, rule conjI; rule impI)
     apply (simp add: act_simps inv)
    apply (split if_split, rule conjI; rule impI)
     apply (simp add: act_simps inv)
    apply (simp only: info_bind)
    apply (rule lift_then [where P = "\<lambda>t. mmap_inv (mm_info t)"], rule inv)
    apply (split if_split, rule conjI; rule impI)
     apply (simp add: act_simps inv)
    apply (rule lift_then [where P = "\<lambda>t. mmap_inv (mm_info t)"], rule inv)
    apply (simp only: info_bind)
    apply (rule lift_then [where P = "\<lambda>t. mmap_inv (mm_info t)"])
     apply (use mut_inv [OF inv] in \<open>simp_all add: unwrap_Inr\<close>)
    done
  show "mmap_inv (mm_info (snd (extend_heap c ops start s)))"
    using inv on_space_info [of "\<lambda>_. panic"]
    by (auto simp: extend_heap_def Let_def bind_def act_simps on_space_def split: sum.split prod.split)
qed

lemma alloc_calls_inv:
  assumes c: "cfg_law c" and inv: "mmap_inv (mm_info s)"
  shows "alloc_room (mm_info s) (align_up_4k c len)
      \<Longrightarrow> mmap_inv (mm_info (snd (vdso_reserve_user_vaddr c len prot flags s)))"
    and "alloc_room (mm_info s) (if a < b then b - a else 0)
      \<Longrightarrow> mmap_inv (mm_info (snd (do_mmap_device c ops a b s)))"
proof -
  have alloc: "mmap_inv (add_region (region_new (fst v) n l p f x off) m')"
    if "alloc_room (mm_info s) n" "mmap_alloc c n (mm_info s) = (v, m')" for v m' n l p f x off
    using alloc_range [OF c inv that(1)] that(2) add_range_inv(1) by (metis fst_conv prod.inject)
  show "alloc_room (mm_info s) (align_up_4k c len)
      \<Longrightarrow> mmap_inv (mm_info (snd (vdso_reserve_user_vaddr c len prot flags s)))"
    using inv alloc by (auto simp: vdso_reserve_user_vaddr_def Let_def act_basics split: prod.split)
  show "alloc_room (mm_info s) (if a < b then b - a else 0)
      \<Longrightarrow> mmap_inv (mm_info (snd (do_mmap_device c ops a b s)))"
    using alloc by (auto simp: do_mmap_device_def Let_def bind_info_keep split: prod.split)
qed

lemma mmap_placed_region:
  assumes "mmap_placed c start len prot flags s"
    and "do_mmap c ops get_file start len prot flags fd offset s = (Inr a, t)"
  obtains r where "regions (mm_info t) = regions (mm_info s) @ [r]"
    "\<And>b. region_covers b r \<longleftrightarrow> a \<le> b \<and> b < a + align_up_4k c len"
proof -
  have place: "\<exists>r. regions (mm_info t) = regions (mm_info s) @ [r]
      \<and> (\<forall>b. region_covers b r \<longleftrightarrow> a \<le> b \<and> b < a + n)"
    if "mmap_range c ops (x, y) n p f fd off (mm_info s) s = (Inr a, t)" for x y n p f fd off
  proof -
    have "a = x" using that by (auto simp: mmap_range_def Let_def act_basics bind_Ok_iff)
    moreover have "mm_info t = add_region (region_new x n (y - x) p f fd off) (mm_info s)"
      using that by (metis fst_conv mmap_range_info snd_conv)
    ultimately show ?thesis by (auto simp: add_region_def region_covers_def)
  qed
  have "\<exists>r. regions (mm_info t) = regions (mm_info s) @ [r]
      \<and> (\<forall>b. region_covers b r \<longleftrightarrow> a \<le> b \<and> b < a + align_up_4k c len)"
    using assms unfolding do_mmap_def mmap_placed_def Let_def
    by (auto simp: bind_Ok_iff act_basics place split: if_splits)
  then show ?thesis using that by blast
qed

section \<open>Runs\<close>

inductive mm_step :: "mm_cfg \<Rightarrow> 'v vm_ops \<Rightarrow> (nat \<Rightarrow> shim_file option) \<Rightarrow> 'v mm \<Rightarrow> 'v mm \<Rightarrow> bool"
  for c ops get_file where
  step_mmap: "mmap_request_ok c start len prot flags (mm_info s)
    \<Longrightarrow> mm_step c ops get_file s (snd (do_mmap c ops get_file start len prot flags fd offset s))"
| step_device: "alloc_room (mm_info s) (if a < b then b - a else 0)
    \<Longrightarrow> mm_step c ops get_file s (snd (do_mmap_device c ops a b s))"
| step_reserve: "alloc_room (mm_info s) (align_up_4k c len)
    \<Longrightarrow> mm_step c ops get_file s (snd (vdso_reserve_user_vaddr c len prot flags s))"
| step_munmap: "mm_step c ops get_file s (snd (do_munmap ops start len s))"
| step_mprotect: "mm_step c ops get_file s (snd (do_mprotect c ops start len prot s))"
| step_fault: "mm_step c ops get_file s (snd (do_load_page_fault c ops start s))"
| step_pages: "mm_step c ops get_file s (snd (vdso_map_user_pages c ops start len prot descs s))"
| step_brk: "mm_step c ops get_file s (snd (extend_heap c ops start s))"

lemma mm_step_inv:
  assumes "mm_step c ops get_file s t" "cfg_law c" "mmap_inv (mm_info s)"
  shows "mmap_inv (mm_info t)"
  using assms by (cases rule: mm_step.cases) (auto intro: do_mmap_inv other_calls_inv alloc_calls_inv)

lemma mm_run_inv:
  assumes "(mm_step c ops get_file)\<^sup>*\<^sup>* s t" "cfg_law c" "mmap_inv (mm_info s)"
  shows "mmap_inv (mm_info t)"
  using assms by (induction rule: rtranclp_induct) (auto intro: mm_step_inv)

lemma mmap_new_inv: "unat (PROCESS_HEAP_MAX c) + 0xFFF < 2 ^ 64 \<Longrightarrow> mmap_inv (mmap_new c)"
  by (simp add: mmap_inv_def mmap_new_def disjoint_regions_def regions_below_def)


section \<open>Pages\<close>

lemma page_steps_cover:
  assumes "unat a = 4096 * i" "unat b = 4096 * j"
  shows "(\<exists>p \<in> set (page_steps a b 4096). p \<le> q \<and> q < p + 4096) \<longleftrightarrow> a \<le> q \<and> q < b"
proof -
  have n: "(unat b - unat a + unat (4096::usize) - 1) div unat (4096::usize) = j - i"
    using assms by (cases "i \<le> j") (auto simp: right_diff_distrib' [symmetric])
  have bl: "unat b < 2 ^ 64" using unsigned_less [of b, where ?'a = nat] by simp
  have page: "p \<le> q \<and> q < p + 4096 \<longleftrightarrow> unat q div 4096 = i + k"
    if "k < j - i" "p = a + of_nat k * 4096" for p k
  proof -
    have k: "4096 * (i + k) + 4096 \<le> 4096 * j" using that(1) by simp
    have "unat (of_nat k :: usize) = k" using k assms(2) bl by (simp add: unat_of_nat)
    then have "unat (of_nat k * 4096 :: usize) = k * 4096"
      using k assms(2) bl by (simp add: unat_mult_lem [THEN iffD1])
    then have p: "unat p = 4096 * (i + k)"
      using that(2) k assms bl unat_add_below [of a "of_nat k * 4096"] by simp
    show ?thesis
    proof (cases "k + 1 < j - i \<or> 4096 * j < 2 ^ 64")
      case True
      then have "unat p + unat (4096::usize) < 2 ^ 64" using p k assms(2) bl by auto
      then have "unat (p + 4096) = 4096 * (i + k) + 4096" using p unat_add_below [of p 4096] by simp
      then show ?thesis using p by (auto simp: word_le_nat_alt word_less_nat_alt)
    qed (use assms(2) bl in simp)
  qed
  have "(\<exists>p \<in> set (page_steps a b 4096). p \<le> q \<and> q < p + 4096) \<longleftrightarrow> (\<exists>k < j - i. unat q div 4096 = i + k)"
    using page n by (auto simp: page_steps_def)
  also have "\<dots> \<longleftrightarrow> i \<le> unat q div 4096 \<and> unat q div 4096 < j"
  proof
    assume *: "i \<le> unat q div 4096 \<and> unat q div 4096 < j"
    then have "unat q div 4096 - i < j - i \<and> unat q div 4096 = i + (unat q div 4096 - i)" by linarith
    then show "\<exists>k < j - i. unat q div 4096 = i + k" by blast
  qed linarith
  also have "\<dots> \<longleftrightarrow> a \<le> q \<and> q < b"
    using assms by (auto simp: word_le_nat_alt word_less_nat_alt less_mult_imp_div_less
        div_less_iff_less_mult mult.commute less_eq_div_iff_mult_less_eq)
  finally show ?thesis .
qed

text \<open>\<open>VmSpace::protect\<close> of a page sets the flags of its addresses and of no others.\<close>

definition protect_law :: "'v vm_ops \<Rightarrow> ('v \<Rightarrow> usize \<Rightarrow> u64 option) \<Rightarrow> bool" where
  "protect_law ops perm \<longleftrightarrow> (\<forall>a flags v v' q. vm_protect ops a (a + 4096) flags v = (Inr (), v')
     \<longrightarrow> perm v' q = (if a \<le> q \<and> q < a + 4096 then Some flags else perm v q))"

lemma protect_pages_perm:
  assumes "protect_law ops perm" "protect_pages ops 4096 flags ps s = (Inr u, t)"
  shows "perm (mm_space t) q =
    (if \<exists>p \<in> set ps. p \<le> q \<and> q < p + 4096 then Some flags else perm (mm_space s) q)"
  using assms(2)
proof (induction ps arbitrary: s)
  case Nil
  then show ?case by (simp add: act_simps)
next
  case (Cons p ps)
  then obtain s1 where s1: "on_space (\<lambda>_. panic) (vm_protect ops p (p + 4096) flags) s = (Inr (), s1)"
    "protect_pages ops 4096 flags ps s1 = (Inr u, t)" by (auto simp: bind_Ok_iff)
  then have "vm_protect ops p (p + 4096) flags (mm_space s) = (Inr (), mm_space s1)"
    by (auto simp: on_space_def split: prod.splits sum.splits)
  then have "perm (mm_space s1) q =
      (if p \<le> q \<and> q < p + 4096 then Some flags else perm (mm_space s) q)"
    using assms(1) unfolding protect_law_def by blast
  then show ?case using Cons.IH [OF s1(2)] by auto
qed

section \<open>A concrete memory\<close>

definition sample_cfg :: mm_cfg where
  "sample_cfg = \<lparr> FRAME_SIZE = 4096, PROCESS_HEAP_MAX = 0x40000000,
     align_up_4k = (\<lambda>a. (a + 0xFFF) AND NOT 0xFFF), align_down_4k = (\<lambda>a. a AND NOT 0xFFF),
     MAP_FIXED = 0x10, MAP_ANONYMOUS = 0x20, MAP_ALL = 0xFFFF, MMAP_TYPE_MASK = 0xF,
     mmap_type_ok = (\<lambda>t. t = 1 \<or> t = 2), PROT_READ = 1, PROT_WRITE = 2, PROT_EXEC = 4, PROT_ALL = 7,
     MF_USER = 0x10, MF_READ = 1, MF_WRITE = 2, MF_EXECUTE = 4 \<rparr>"

text \<open>Areas, and the flags of each mapped address.\<close>

record page_space =
  ps_areas :: "(usize \<times> usize) list"
  ps_flags :: "usize \<Rightarrow> u64 option"

definition page_ops :: "page_space vm_ops" where
  "page_ops =
     \<lparr> vm_new = \<lparr> ps_areas = [], ps_flags = (\<lambda>_. None) \<rparr>,
       vm_map = (\<lambda>area v. (Inr (), \<lparr> ps_areas = (va_start area, va_end area) # ps_areas v,
         ps_flags = (\<lambda>a. if va_start area \<le> a \<and> a < va_end area then Some (va_flags area) else ps_flags v a) \<rparr>)),
       vm_unmap = (\<lambda>start v. case find (\<lambda>(a, _). a = start) (ps_areas v) of
           None \<Rightarrow> (Inl NotMapped, v)
         | Some (a, b) \<Rightarrow> (Inr (), \<lparr> ps_areas = remove1 (a, b) (ps_areas v),
             ps_flags = (\<lambda>q. if a \<le> q \<and> q < b then None else ps_flags v q) \<rparr>)),
       vm_protect = (\<lambda>a b flags v. (Inr (), v\<lparr>ps_flags :=
         (\<lambda>q. if a \<le> q \<and> q < b then Some flags else ps_flags v q)\<rparr>)),
       vm_query = (\<lambda>a v. case ps_flags v a of None \<Rightarrow> Inl NotMapped | Some f \<Rightarrow> Inr (a, f)),
       vm_read_bytes = (\<lambda>a n v. Inr (replicate n 0)),
       vm_write_bytes = (\<lambda>a bs v. (Inr (), v)) \<rparr>"

definition sample_mm :: "page_space mm" where
  "sample_mm = \<lparr> mm_heap = heap_new 0x20000000 0x20000000, mm_info = mmap_new sample_cfg,
     mm_space = vm_new page_ops \<rparr>"

lemma sample_cfg_simps [simp]:
  "FRAME_SIZE sample_cfg = 4096" "PROCESS_HEAP_MAX sample_cfg = 0x40000000"
  "align_up_4k sample_cfg a = (a + 0xFFF) AND NOT 0xFFF" "align_down_4k sample_cfg a = a AND NOT 0xFFF"
  "MAP_FIXED sample_cfg = 0x10" "MAP_ANONYMOUS sample_cfg = 0x20" "MAP_ALL sample_cfg = 0xFFFF"
  "MMAP_TYPE_MASK sample_cfg = 0xF" "mmap_type_ok sample_cfg t \<longleftrightarrow> t = 1 \<or> t = 2"
  "PROT_READ sample_cfg = 1" "PROT_WRITE sample_cfg = 2" "PROT_EXEC sample_cfg = 4" "PROT_ALL sample_cfg = 7"
  "MF_USER sample_cfg = 0x10" "MF_READ sample_cfg = 1" "MF_WRITE sample_cfg = 2" "MF_EXECUTE sample_cfg = 4"
  by (simp_all add: sample_cfg_def)

lemma page_ops_ok [simp]:
  "fst (vm_map page_ops area v) = Inr ()" "fst (vm_protect page_ops a b fl v) = Inr ()"
  by (simp_all add: page_ops_def)

lemma sample_mm_simps [simp]:
  "mm_heap sample_mm = heap_new 0x20000000 0x20000000" "mm_info sample_mm = mmap_new sample_cfg"
  "mm_space sample_mm = vm_new page_ops"
  by (simp_all add: sample_mm_def)

lemma sample_cfg_law: "cfg_law sample_cfg"
  by (simp add: cfg_law_def sample_cfg_def)

lemma page_protect_law: "protect_law page_ops ps_flags"
  by (simp add: protect_law_def page_ops_def)

lemma sample_mm_inv: "mmap_inv (mm_info sample_mm)"
  by (simp add: sample_mm_def mmap_new_inv sample_cfg_def)


definition fixed_mm :: "page_space mm" where
  "fixed_mm = sample_mm\<lparr>mm_info := \<lparr> map_start = 0x40000000,
     regions = [region_new 0x10000 0x3000 0x3000 3 0x31 None 0] \<rparr>\<rparr>"

lemma fixed_mm_simps [simp]:
  "mm_heap fixed_mm = heap_new 0x20000000 0x20000000" "mm_space fixed_mm = vm_new page_ops"
  "get_region (mm_info fixed_mm) 0x11000 = Some (region_new 0x10000 0x3000 0x3000 3 0x31 None 0)"
  by (simp_all add: fixed_mm_def get_region_def region_covers_def)

lemma fixed_mm_inv: "mmap_inv (mm_info fixed_mm)"
  by (simp add: fixed_mm_def mmap_inv_def disjoint_regions_def regions_below_def)

section \<open>Properties\<close>

text \<open>C11: Over any run of the memory calls of a task in which the kernel chooses the place of each
  new mapping (fixed requests carve up the region they lie in) and has room for it in the 64-bit
  addresses, every address lies in at most one mapped region and every region ends at or below the
  address the next mapping will be given. Of a mapping that the caller places, executable or fixed on
  an unmapped address, the code looks up the first address only: made in a state of such a run it
  keeps the regions apart exactly when no address of its whole range was mapped, and otherwise two
  regions share an address.\<close>

theorem mmap_regions_disjoint:
  assumes "cfg_law c" "unat (PROCESS_HEAP_MAX c) + 0xFFF < 2 ^ 64" "mm_info s = mmap_new c"
    and "(mm_step c ops get_file)\<^sup>*\<^sup>* s t"
  shows "overlap_free (mm_info t)
    \<and> (\<forall>r \<in> set (regions (mm_info t)). unat (mr_start r) + unat (mr_len r) \<le> unat (map_start (mm_info t)))
    \<and> (\<forall>start len prot flags fd offset a t'. mmap_placed c start len prot flags t
         \<and> do_mmap c ops get_file start len prot flags fd offset t = (Inr a, t')
         \<longrightarrow> (overlap_free (mm_info t')
               \<longleftrightarrow> (\<forall>b. a \<le> b \<and> b < a + align_up_4k c len \<longrightarrow> get_region (mm_info t) b = None)))"
proof -
  have inv: "mmap_inv (mm_info t)"
    using mm_run_inv [OF assms(4,1)] mmap_new_inv [OF assms(2)] assms(3) by simp
  then have disj: "disjoint_regions (regions (mm_info t))" by (simp add: mmap_inv_def)
  have "overlap_free (mm_info t') \<longleftrightarrow> (\<forall>b. a \<le> b \<and> b < a + align_up_4k c len \<longrightarrow> get_region (mm_info t) b = None)"
    if "mmap_placed c start len prot flags t"
      "do_mmap c ops get_file start len prot flags fd offset t = (Inr a, t')"
    for start len prot flags fd offset a t'
    using that(1,2) by (rule mmap_placed_region)
      (use disj in \<open>auto simp: overlap_free_disjoint disjoint_regions_def sorted_wrt_append
        get_region_def find_None_iff\<close>)
  then show ?thesis
    using inv by (auto simp: overlap_free_disjoint mmap_inv_def regions_below_def)
qed

text \<open>Two pages at the place the kernel chooses, then a fixed request for the page before them and
  the first of them: the code accepts it, and the regions overlap.\<close>

definition low_mm :: "page_space mm" where
  "low_mm = sample_mm\<lparr>mm_heap := heap_new 0x50000000 0x50000000\<rparr>"

definition two_pages_mm :: "page_space mm" where
  "two_pages_mm = snd (do_mmap sample_cfg page_ops (\<lambda>_. None) 0 5000 3 0x22 0 0 low_mm)"

lemma two_pages_simps:
  "mm_heap two_pages_mm = heap_new 0x50000000 0x50000000"
  "mm_info two_pages_mm = \<lparr> map_start = 0x40002000,
     regions = [region_new 0x40000000 0x2000 0x2000 3 0x22 None 0] \<rparr>"
  by (simp_all add: two_pages_mm_def low_mm_def do_mmap_def mmap_range_def mmap_alloc_def mmap_new_def
      add_region_def act_simps contains_def from_bits_truncate_def heap_contains_def heap_new_def
      page_ops_def on_space_def)

theorem mmap_regions_disjoint_witness:
  "overlap_free (mm_info two_pages_mm)
   \<and> \<not> overlap_free (mm_info (snd (do_mmap sample_cfg page_ops (\<lambda>_. None) 0x3FFFF000 0x2000 3 0x32 0 0 two_pages_mm)))"
proof -
  have "mmap_request_ok sample_cfg 0 5000 3 0x22 (mm_info low_mm)"
    by (simp add: mmap_request_ok_def sample_cfg_def sample_mm_def low_mm_def mmap_new_def alloc_room_def
        contains_def from_bits_truncate_def)
  then have run: "(mm_step sample_cfg page_ops (\<lambda>_. None))\<^sup>*\<^sup>* low_mm two_pages_mm"
    unfolding two_pages_mm_def by (intro r_into_rtranclp step_mmap)
  let ?t = "snd (do_mmap sample_cfg page_ops (\<lambda>_. None) 0x3FFFF000 0x2000 3 0x32 0 0 two_pages_mm)"
  have placed: "mmap_placed sample_cfg 0x3FFFF000 0x2000 3 0x32 two_pages_mm"
    by (simp add: mmap_placed_def two_pages_simps heap_contains_def heap_new_def contains_def
        from_bits_truncate_def get_region_def region_covers_def)
  have call: "do_mmap sample_cfg page_ops (\<lambda>_. None) 0x3FFFF000 0x2000 3 0x32 0 0 two_pages_mm = (Inr 0x3FFFF000, ?t)"
    by (simp add: two_pages_simps do_mmap_def mmap_range_def add_region_def act_simps contains_def
        from_bits_truncate_def heap_contains_def heap_new_def get_region_def region_covers_def
        page_ops_def on_space_def)
  have start: "unat (PROCESS_HEAP_MAX sample_cfg) + 0xFFF < 2 ^ 64" "mm_info low_mm = mmap_new sample_cfg"
    by (simp_all add: low_mm_def)
  note props = mmap_regions_disjoint [OF sample_cfg_law start run]
  note iff = props [THEN conjunct2, THEN conjunct2, rule_format, OF conjI [OF placed call]]
  have hit: "get_region (mm_info two_pages_mm) 0x40000000 \<noteq> None"
    by (simp add: two_pages_simps get_region_def region_covers_def)
  have inside: "(0x3FFFF000::usize) \<le> 0x40000000 \<and> (0x40000000::usize) < 0x3FFFF000 + align_up_4k sample_cfg 0x2000"
    by simp
  have "\<not> overlap_free (mm_info ?t)"
  proof
    assume "overlap_free (mm_info ?t)"
    from iffD1 [OF iff this, THEN spec, THEN mp, OF inside] hit show False by (rule notE [rotated])
  qed
  with props [THEN conjunct1] show ?thesis by (rule conjI)
qed

text \<open>C12: A fixed mapping whose address lies in a mapped region succeeds and changes the table
  exactly on the part of that region inside the requested range: there the new protection,
  flags, file and offset are seen, every other address keeps what it had. Addresses of the range
  behind the region stay unmapped, and the address space is not touched, so the pages keep their
  old contents and permissions.\<close>

theorem mmap_fixed_exact:
  assumes p_def: "p = from_bits_truncate (PROT_ALL c) prot" and f_def: "f = from_bits_truncate (MAP_ALL c) flags"
    and a_def: "a = align_down_4k c start" and n_def: "n = align_up_4k c len"
    and law: "cfg_law c" "mmap_inv (mm_info s)" "mmap_type_ok c (ucast (flags AND MMAP_TYPE_MASK c))"
    and "contains f (MAP_FIXED c)" "contains f (MAP_ANONYMOUS c)" "\<not> contains p (PROT_EXEC c)" "start \<noteq> 0"
    and "\<not> (heap_contains (mm_heap s) start \<and> heap_contains (mm_heap s) (start + len))"
    and "a \<le> hp_start (mm_heap s)" "get_region (mm_info s) a = Some r"
    and "unat len + 0xFFF < 2 ^ 64" "unat a + unat n < 2 ^ 64"
  shows "\<exists>m'. do_mmap c ops get_file start len prot flags fd offset s = (Ok a, s\<lparr>mm_info := m'\<rparr>)
    \<and> mmap_inv m'
    \<and> (\<forall>b. mmap_view m' b = (if region_covers b r \<and> a \<le> b \<and> b < a + n
         then Some (p, f, None, offset + (b - a)) else mmap_view (mm_info s) b))"
proof -
  have n: "unat n = 4096 * ((unat len + 0xFFF) div 4096)"
    unfolding n_def by (rule unat_align_up [OF law(1) assms(15)])
  obtain m' where "remap_fixed c r a n p f None offset (mm_info s) = Ok m'" "mmap_inv m'"
    "\<And>b. mmap_view m' b = (if region_covers b r \<and> a \<le> b \<and> b < a + n
        then Some (p, f, None, offset + (b - a)) else mmap_view (mm_info s) b)"
    by (rule remap_fixed_spec [of c "mm_info s" a r n _ p f None offset])
      (use assms(5,6,14,16) n in \<open>assumption | blast intro: that\<close>)+
  moreover have "do_mmap c ops get_file start len prot flags fd offset s =
      bind (lift (remap_fixed c r a n p f None offset (mm_info s))) (\<lambda>m. bind (put_info m) (\<lambda>_. ret a)) s"
    using assms(7-14) by (auto simp add: do_mmap_def Let_def p_def f_def a_def n_def not_less)
  ultimately show ?thesis by (auto simp: bind_def act_simps)
qed

theorem mmap_fixed_exact_witness:
  "\<exists>m'. do_mmap sample_cfg page_ops (\<lambda>_. None) 0x11000 0x1000 1 0x31 0 0 fixed_mm = (Ok 0x11000, fixed_mm\<lparr>mm_info := m'\<rparr>)
    \<and> mmap_view m' 0x11800 = Some (1, 0x31, None, 0x800)
    \<and> mmap_view m' 0x12000 = mmap_view (mm_info fixed_mm) 0x12000"
proof -
  let ?r = "region_new 0x10000 0x3000 0x3000 3 0x31 None 0"
  have "\<exists>m'. do_mmap sample_cfg page_ops (\<lambda>_. None) 0x11000 0x1000 1 0x31 0 0 fixed_mm = (Ok 0x11000, fixed_mm\<lparr>mm_info := m'\<rparr>)
    \<and> mmap_inv m'
    \<and> (\<forall>b. mmap_view m' b = (if region_covers b ?r \<and> 0x11000 \<le> b \<and> b < 0x11000 + 0x1000
         then Some (1, 0x31, None, 0 + (b - 0x11000)) else mmap_view (mm_info fixed_mm) b))"
    by (rule mmap_fixed_exact [where prot = 1 and flags = "0x31", OF _ _ _ _ sample_cfg_law fixed_mm_inv])
      (simp_all add: from_bits_truncate_def contains_def heap_contains_def heap_new_def)
  then show ?thesis by (elim exE conjE, intro exI conjI) (assumption, simp_all add: region_covers_def)
qed

text \<open>Mapping anonymous memory at an address the kernel chooses and unmapping it with the page
  aligned length restores the table: the new range \<open>[addr, addr + n)\<close> is seen with the requested
  protection in between, no other address changes, and after \<open>munmap\<close> every address is as before.
  With an unaligned length the same \<open>munmap\<close> fails with \<open>EINVAL\<close> and leaves the mapping.\<close>

theorem mmap_munmap_roundtrip:
  assumes p_def: "p = from_bits_truncate (PROT_ALL c) prot" and f_def: "f = from_bits_truncate (MAP_ALL c) flags"
    and n_def: "n = align_up_4k c len" and addr_def: "addr = map_start (mm_info s)"
    and law: "cfg_law c" "mmap_inv (mm_info s)" "mmap_type_ok c (ucast (flags AND MMAP_TYPE_MASK c))"
    and "\<not> contains f (MAP_FIXED c)" "contains f (MAP_ANONYMOUS c)" "\<not> contains p (PROT_EXEC c)"
    and "\<not> (heap_contains (mm_heap s) start \<and> heap_contains (mm_heap s) (start + len))"
    and "alloc_room (mm_info s) n" "n \<noteq> 0"
    and vm_map: "\<And>area. fst (vm_map ops area (mm_space s)) = Inr ()"
    and vm_unmap: "\<And>area. va_start area = addr \<Longrightarrow> fst (vm_unmap ops addr (snd (vm_map ops area (mm_space s)))) = Inr ()"
  shows "\<exists>s1 s2. do_mmap c ops get_file start len prot flags fd offset s = (Ok addr, s1)
    \<and> (\<forall>b. mmap_view (mm_info s1) b = (if addr \<le> b \<and> b < addr + n
          then Some (p, f, None, offset + (b - addr)) else mmap_view (mm_info s) b))
    \<and> (len \<noteq> n \<longrightarrow> do_munmap ops addr len s1 = (Err EINVAL, s1))
    \<and> do_munmap ops addr n s1 = (Ok 0, s2)
    \<and> (\<forall>b. mmap_view (mm_info s2) b = mmap_view (mm_info s) b)"
proof -
  obtain stop where stop: "mmap_alloc c n (mm_info s) = ((addr, stop), (mm_info s)\<lparr>map_start := stop\<rparr>)"
    and inv1: "mmap_inv ((mm_info s)\<lparr>map_start := stop\<rparr>)"
    and free: "range_free ((mm_info s)\<lparr>map_start := stop\<rparr>) addr n"
    and same: "\<And>a. mmap_view ((mm_info s)\<lparr>map_start := stop\<rparr>) a = mmap_view (mm_info s) a"
    unfolding addr_def by (rule alloc_range [OF assms(5,6,12)]) blast
  let ?r = "region_new addr n (stop - addr) p f None offset"
  let ?m = "add_region ?r ((mm_info s)\<lparr>map_start := stop\<rparr>)"
  let ?area = "\<lparr> va_start = addr, va_end = stop, va_flags = from_prot c p,
      va_frames = replicate (unat (n div FRAME_SIZE c)) NewFrame \<rparr>"
  note add = add_range_inv [OF inv1 free, of "stop - addr" p f None offset]
  define s1 where "s1 = s\<lparr>mm_info := ?m, mm_space := snd (vm_map ops ?area (mm_space s))\<rparr>"
  have "do_mmap c ops get_file start len prot flags fd offset s =
      mmap_range c ops (addr, stop) n p f None offset ((mm_info s)\<lparr>map_start := stop\<rparr>) s"
    using assms(7-11) stop by (auto simp add: do_mmap_def Let_def p_def f_def n_def)
  also have "\<dots> = (Ok addr, s1)"
    using vm_map [of ?area] by (simp add: mmap_range_def Let_def s1_def on_space_ok act_basics)
  finally have map: "do_mmap c ops get_file start len prot flags fd offset s = (Ok addr, s1)" .
  have view1: "mmap_view (mm_info s1) b = (if addr \<le> b \<and> b < addr + n
      then Some (p, f, None, offset + (b - addr)) else mmap_view (mm_info s) b)" for b
    using add(2) [of b] same by (simp add: s1_def)
  have disj: "disjoint_regions (regions ?m)" using add(1) by (simp add: mmap_inv_def)
  have "addr < addr + n"
    using free inv1 \<open>n \<noteq> 0\<close> unat_add_below [of addr n]
    by (simp add: range_free_def mmap_inv_def word_less_nat_alt unat_gt_0)
  then have r: "get_region ?m addr = Some ?r"
    using get_region_iff [OF disj] by (simp add: add_region_def region_covers_def)
  obtain m2 where m2: "remove_region addr ?m = Ok m2"
    "\<And>a. mmap_view m2 a = (if region_covers a ?r then None else mmap_view ?m a)"
    by (rule remove_region_spec [OF disj r]) (rule that; assumption)
  define s2 where "s2 = s1\<lparr>mm_space := snd (vm_unmap ops addr (mm_space s1)), mm_info := m2\<rparr>"
  have unmap: "do_munmap ops addr n s1 = (Ok 0, s2)"
    using r m2(1) vm_unmap [of ?area]
    by (simp add: do_munmap_def s1_def s2_def bind_lift_Ok on_space_ok act_basics)
  have "mmap_view m2 b = mmap_view (mm_info s) b" for b
  proof (cases "region_covers b ?r")
    case True
    then have "mmap_view (mm_info s) b = None"
      using disjoint_fresh [OF inv1 _ _ True] free inv1 same
      by (fastforce simp: range_free_def mmap_inv_def)
    then show ?thesis using m2(2) True by simp
  next
    case False
    then show ?thesis using m2(2) add(2) [of b] same by (auto simp: region_covers_def)
  qed
  moreover have "do_munmap ops addr len s1 = (Err EINVAL, s1)" if "len \<noteq> n"
    using r that by (simp add: do_munmap_def s1_def act_simps bind_run)
  ultimately show ?thesis using map view1 unmap by (auto simp: s2_def)
qed


theorem mmap_munmap_roundtrip_witness:
  "\<exists>s1 s2. do_mmap sample_cfg page_ops (\<lambda>_. None) 0 5000 3 0x22 0 0 sample_mm = (Ok 0x40000000, s1)
    \<and> do_munmap page_ops 0x40000000 5000 s1 = (Err EINVAL, s1)
    \<and> do_munmap page_ops 0x40000000 8192 s1 = (Ok 0, s2)"
proof -
  have unmap: "fst (vm_unmap page_ops 0x40000000 (snd (vm_map page_ops area (vm_new page_ops)))) = Inr ()"
    if "va_start area = 0x40000000" for area
    using that by (simp add: page_ops_def)
  have "\<exists>s1 s2. do_mmap sample_cfg page_ops (\<lambda>_. None) 0 5000 3 0x22 0 0 sample_mm = (Ok 0x40000000, s1)
    \<and> (\<forall>b. mmap_view (mm_info s1) b = (if 0x40000000 \<le> b \<and> b < 0x40000000 + 8192
          then Some (3, 0x22, None, 0 + (b - 0x40000000)) else mmap_view (mm_info sample_mm) b))
    \<and> (5000 \<noteq> (8192::usize) \<longrightarrow> do_munmap page_ops 0x40000000 5000 s1 = (Err EINVAL, s1))
    \<and> do_munmap page_ops 0x40000000 8192 s1 = (Ok 0, s2)
    \<and> (\<forall>b. mmap_view (mm_info s2) b = mmap_view (mm_info sample_mm) b)"
    by (rule mmap_munmap_roundtrip [where prot = 3 and flags = "0x22", OF _ _ _ _ sample_cfg_law sample_mm_inv])
      (simp_all add: from_bits_truncate_def contains_def heap_contains_def heap_new_def alloc_room_def
        mmap_new_def unmap)
  then show ?thesis by auto
qed

text \<open>C13: A successful \<open>mprotect\<close> gives every address of the pages that meet \<open>[addr, addr + len)\<close>
  the requested flags in the address space and no other address; the region table, in contrast,
  records the new protection for the whole region that covers \<open>addr\<close>.\<close>

theorem mprotect_pages:
  assumes law: "cfg_law c" and perm: "protect_law ops perm" and inv: "mmap_inv (mm_info s)"
    and room: "unat addr + unat len + 0xFFF < 2 ^ 64"
    and ok: "do_mprotect c ops addr len prot s = (Ok x, t)"
  shows "\<exists>r. get_region (mm_info s) addr = Some r
    \<and> (\<forall>q. perm (mm_space t) q =
         (if align_down_4k c addr \<le> q \<and> q < align_up_4k c (addr + len)
          then Some (from_prot c (from_bits_truncate (PROT_ALL c) prot)) else perm (mm_space s) q))
    \<and> (\<forall>b. mmap_view (mm_info t) b =
         (if region_covers b r
          then Some (from_bits_truncate (PROT_ALL c) prot, mr_flags r, mr_fd r, mr_offset r + (b - mr_start r))
          else mmap_view (mm_info s) b))"
proof -
  let ?p = "from_bits_truncate (PROT_ALL c) prot"
  let ?ps = "page_steps (align_down_4k c addr) (align_up_4k c (addr + len)) 4096"
  have fs: "FRAME_SIZE c = 4096" using law by (simp add: cfg_law_def)
  have disj: "disjoint_regions (regions (mm_info s))" using inv by (simp add: mmap_inv_def)
  obtain r where r: "get_region (mm_info s) addr = Some r"
    using ok get_region_mut_None [of "mm_info s" addr]
    by (cases "get_region (mm_info s) addr") (auto simp: do_mprotect_def Let_def bind_def act_simps)
  obtain m where m: "get_region_mut addr (set_prot ?p) (mm_info s) = Some m"
    "\<And>b. mmap_view m b = (if region_covers b r then Some (region_attrs (set_prot ?p r) b)
        else mmap_view (mm_info s) b)"
    by (rule get_region_mut_spec [OF disj r, of "set_prot ?p"]) (auto simp: set_prot_def)
  have "bind (protect_pages ops 4096 (from_prot c ?p) ?ps) (\<lambda>_. ret 0) (s\<lparr>mm_info := m\<rparr>) = (Ok x, t)"
    using ok m(1) fs by (simp add: do_mprotect_def Let_def)
  then have pages: "protect_pages ops 4096 (from_prot c ?p) ?ps (s\<lparr>mm_info := m\<rparr>) = (Inr (), t)"
    unfolding bind_Ok_iff by (auto simp: act_basics)
  have "unat (align_down_4k c addr) = 4096 * (unat addr div 4096)"
    using law by (simp only: cfg_law_def unat_and_not_page)
  moreover have "unat (addr + len) = unat addr + unat len"
    using room by (intro unat_add_below) linarith
  then have "unat (align_up_4k c (addr + len)) = 4096 * ((unat addr + unat len + 0xFFF) div 4096)"
    using unat_align_up [OF law, of "addr + len"] room by simp
  ultimately have "(\<exists>p \<in> set ?ps. p \<le> q \<and> q < p + 4096)
      \<longleftrightarrow> align_down_4k c addr \<le> q \<and> q < align_up_4k c (addr + len)" for q
    by (rule page_steps_cover)
  then have "perm (mm_space t) q = (if align_down_4k c addr \<le> q \<and> q < align_up_4k c (addr + len)
      then Some (from_prot c ?p) else perm (mm_space s) q)" for q
    using protect_pages_perm [OF perm pages, of q] by simp
  moreover have "mm_info t = m" using protect_pages_info [of ops 4096 "from_prot c ?p" ?ps] pages
    by (metis mm.select_convs(2) mm.surjective mm.update_convs(2) snd_conv)
  ultimately show ?thesis using r m(2) by (auto simp: set_prot_def)
qed

theorem mprotect_pages_witness:
  "ps_flags (mm_space (snd (do_mprotect sample_cfg page_ops 0x11000 0x800 1 fixed_mm))) 0x11F00 = Some 0x11
   \<and> ps_flags (mm_space (snd (do_mprotect sample_cfg page_ops 0x11000 0x800 1 fixed_mm))) 0x12000 = None"
proof -
  have "fst (do_mprotect sample_cfg page_ops 0x11000 0x800 1 fixed_mm) = Ok 0"
    by (simp add: do_mprotect_def Let_def fixed_mm_def get_region_mut_def region_covers_def
        sample_cfg_def page_steps_def page_ops_def on_space_def bind_def act_simps)
  then obtain t where t: "do_mprotect sample_cfg page_ops 0x11000 0x800 1 fixed_mm = (Ok 0, t)"
    by (metis prod.collapse)
  have "from_prot sample_cfg (from_bits_truncate (PROT_ALL sample_cfg) 1) = 0x11"
    "align_down_4k sample_cfg 0x11000 = 0x11000" "align_up_4k sample_cfg (0x11000 + 0x800) = 0x12000"
    "ps_flags (mm_space fixed_mm) = (\<lambda>_. None)"
    by (simp_all add: from_prot_def sample_cfg_def contains_def from_bits_truncate_def fixed_mm_def
        sample_mm_def page_ops_def)
  then show ?thesis
    using mprotect_pages [OF sample_cfg_law page_protect_law fixed_mm_inv _ t] by (auto simp: t)
qed

text \<open>A successful move of the program break returns the requested address and makes it the
  break. The heap never shrinks: below the old end nothing is mapped or unmapped, otherwise whole
  pages are mapped from the old end, just enough to reach the address. No lower bound is checked:
  any address below the end, even one below the heap, becomes the break.\<close>

theorem brk_spec:
  assumes law: "cfg_law c" and ok: "extend_heap c ops addr s = (Ok r, t)"
    and room: "unat addr + 0xFFF < 2 ^ 64"
  shows "r = addr \<and> hp_current (mm_heap t) = addr \<and> hp_start (mm_heap t) = hp_start (mm_heap s)
    \<and> mm_info t = mm_info s
    \<and> (if addr < hp_end (mm_heap s)
       then hp_end (mm_heap t) = hp_end (mm_heap s) \<and> mm_space t = mm_space s
       else unat (hp_end (mm_heap t)) =
              unat (hp_end (mm_heap s)) + 4096 * ((unat addr - unat (hp_end (mm_heap s)) + 0xFFF) div 4096)
         \<and> addr \<le> hp_end (mm_heap t)
         \<and> (\<exists>area. vm_map ops area (mm_space s) = (Inr (), mm_space t)
              \<and> va_start area = hp_end (mm_heap s) \<and> va_end area = hp_end (mm_heap t)))"
proof -
  let ?stop = "hp_end (mm_heap s)"
  let ?add = "(addr - ?stop + FRAME_SIZE c - 1) AND NOT (FRAME_SIZE c - 1)"
  let ?area = "\<lparr> va_start = ?stop, va_end = ?stop + ?add, va_flags = MF_READ c OR MF_WRITE c OR MF_USER c,
     va_frames = replicate (unat (?add div FRAME_SIZE c)) NewFrame \<rparr>"
  have below: "t = s\<lparr>mm_heap := (mm_heap s)\<lparr>hp_current := addr\<rparr>\<rparr> \<and> r = addr" if "addr < ?stop"
    using ok that by (auto simp: extend_heap_def bind_def act_simps)
  have above: "vm_map ops ?area (mm_space s) = (Inr (), mm_space t) \<and> r = addr
      \<and> mm_heap t = (mm_heap s)\<lparr>hp_current := addr, hp_end := ?stop + ?add\<rparr> \<and> mm_info t = mm_info s"
    if "\<not> addr < ?stop"
    using ok that
    by (auto simp: extend_heap_def Let_def bind_def act_simps on_space_def split: sum.splits prod.splits)
  have same: "r = addr \<and> hp_current (mm_heap t) = addr \<and> hp_start (mm_heap t) = hp_start (mm_heap s)
    \<and> mm_info t = mm_info s"
    using below above by (cases "addr < ?stop") simp_all
  show ?thesis
  proof (cases "addr < ?stop")
    case True
    then show ?thesis using same below by simp
  next
    case False
    then have ge: "?stop \<le> addr" by simp
  then have sub: "unat (addr - ?stop) = unat addr - unat ?stop" by (simp add: unat_sub word_le_nat_alt)
  have "addr - ?stop + FRAME_SIZE c - 1 = addr - ?stop + 0xFFF" "FRAME_SIZE c - 1 = 0xFFF"
    using law by (simp_all add: cfg_law_def)
  moreover have "unat (addr - ?stop + 0xFFF) = unat addr - unat ?stop + 0xFFF"
    using room sub unat_add_below [of "addr - ?stop" "0xFFF"] by simp
  ultimately have add: "unat ?add = 4096 * ((unat addr - unat ?stop + 0xFFF) div 4096)"
    by (simp only: unat_and_not_page)
  have le: "unat ?stop \<le> unat addr" using ge by (simp add: word_le_nat_alt)
  then have "unat ?stop + unat ?add < 2 ^ 64"
    using add round_up_bound [of "unat addr - unat ?stop"] room by linarith
  then have e: "unat (?stop + ?add) = unat ?stop + 4096 * ((unat addr - unat ?stop + 0xFFF) div 4096)"
    using unat_add_below [of ?stop ?add] add by simp
  moreover have "addr \<le> ?stop + ?add"
    unfolding word_le_nat_alt e using round_up_le [of "unat addr - unat ?stop"] le by linarith
  moreover have "hp_end (mm_heap t) = ?stop + ?add" "vm_map ops ?area (mm_space s) = (Inr (), mm_space t)"
    using above ge by auto
  ultimately have "unat (hp_end (mm_heap t)) = unat ?stop + 4096 * ((unat addr - unat ?stop + 0xFFF) div 4096)
      \<and> addr \<le> hp_end (mm_heap t)
      \<and> (\<exists>area. vm_map ops area (mm_space s) = (Inr (), mm_space t)
           \<and> va_start area = ?stop \<and> va_end area = hp_end (mm_heap t))"
    by (metis vm_area.select_convs(1,2))
    with same False show ?thesis by simp
  qed
qed

theorem brk_spec_witness:
  "fst (extend_heap sample_cfg page_ops 0x20000001 sample_mm) = Ok 0x20000001
   \<and> unat (hp_end (mm_heap (snd (extend_heap sample_cfg page_ops 0x20000001 sample_mm)))) = 0x20001000"
proof -
  have "fst (extend_heap sample_cfg page_ops 0x20000001 sample_mm) = Ok 0x20000001"
    by (simp add: extend_heap_def Let_def sample_mm_def heap_new_def page_ops_def on_space_def bind_def act_simps)
  then obtain t where t: "extend_heap sample_cfg page_ops 0x20000001 sample_mm = (Ok 0x20000001, t)"
    by (metis prod.collapse)
  show ?thesis
    using brk_spec [OF sample_cfg_law t] unfolding t fst_conv snd_conv
    by (simp add: sample_mm_def heap_new_def)
qed

end
