(* ===== verification/UserStack.thy ===== *)
theory UserStack
  imports Mmap SysEnv
begin

text \<open>
  The initial stack of a process: \<open>UserStack\<close> and \<open>AuxVec\<close> of
  \<open>common/task/task/src/resource.rs\<close>. The state is the stack object with the address space it
  writes to. The strings of the environment and of the arguments go to the top, then the auxiliary
  vector, the two pointer arrays and the argument count; a new program reads them from the stack
  pointer upwards.
\<close>

unbundle bit_operations_syntax

section \<open>The auxiliary vector\<close>

record stack_cfg =
  USER_STACK_SIZE :: usize
  SC_FRAME_SIZE :: u64
  align_down :: "usize \<Rightarrow> usize \<Rightarrow> usize"
  AT_IGNORE :: usize
  AT_PHDR :: usize
  AT_PHENT :: usize
  AT_PHNUM :: usize
  AT_PAGESZ :: usize
  AT_BASE :: usize
  AT_ENTRY :: usize
  AT_IDS :: "usize list"                  \<comment> \<open>\<open>AT_GID\<close>, \<open>AT_EGID\<close>, \<open>AT_UID\<close>, \<open>AT_EUID\<close>, \<open>AT_SECURE\<close>\<close>
  AT_PLATFORM :: usize
  AT_EXECFN :: usize
  AT_RANDOM :: usize
  platform_str :: "u8 list"

type_synonym aux_vec = "(usize, u64) btree"

definition aux_set :: "stack_cfg \<Rightarrow> usize \<Rightarrow> u64 \<Rightarrow> aux_vec \<Rightarrow> aux_vec res" where
  "aux_set c key val t = (if key = 0 \<or> key = AT_IGNORE c then Err EINVAL else Ok (bt_insert key val t))"

definition aux_get :: "usize \<Rightarrow> aux_vec \<Rightarrow> u64 option" where
  "aux_get key t = bt_get t key"

definition aux_del :: "usize \<Rightarrow> aux_vec \<Rightarrow> u64 option \<times> aux_vec" where
  "aux_del key t = (bt_get t key, bt_remove key t)"

text \<open>A sequence of \<open>set\<close> calls, each with \<open>?\<close>.\<close>

fun aux_set_all :: "stack_cfg \<Rightarrow> (usize \<times> u64) list \<Rightarrow> aux_vec \<Rightarrow> aux_vec res" where
  "aux_set_all c [] t = Ok t"
| "aux_set_all c ((k, v) # kvs) t = (case aux_set c k v t of Inl e \<Rightarrow> Inl e | Inr t \<Rightarrow> aux_set_all c kvs t)"

record 'v elf_info =
  ei_address_space :: 'v
  ei_entry :: usize
  ei_stack_top :: usize
  ei_heap_bottom :: usize
  ei_ph_num :: u64
  ei_ph_entry_size :: u64
  ei_ph_drift :: usize
  ei_tls :: usize
  ei_bias :: usize
  ei_name :: "u8 list"

definition aux_from_elf_info :: "stack_cfg \<Rightarrow> 'v elf_info \<Rightarrow> aux_vec res" where
  "aux_from_elf_info c elfinfo =
     aux_set_all c
       ([(AT_PHNUM c, ei_ph_num elfinfo), (AT_PAGESZ c, SC_FRAME_SIZE c), (AT_BASE c, ei_bias elfinfo),
         (AT_ENTRY c, ei_entry elfinfo), (AT_PHENT c, ei_ph_entry_size elfinfo), (AT_PHDR c, ei_ph_drift elfinfo)]
        @ map (\<lambda>k. (k, 0)) (AT_IDS c)) bt_empty"

section \<open>The stack\<close>

record user_stack =
  us_top :: usize
  us_size :: usize
  us_pos :: usize
  us_argv :: "u8 list list"
  us_envp :: "u8 list list"
  us_aux :: aux_vec
  us_exec :: "u8 list"

definition us_new :: "stack_cfg \<Rightarrow> usize \<Rightarrow> u8 list list \<Rightarrow> u8 list list \<Rightarrow> aux_vec \<Rightarrow> u8 list \<Rightarrow> user_stack" where
  "us_new c stack_top argv envp aux_vec exec_path =
     \<lparr> us_top = stack_top, us_size = USER_STACK_SIZE c, us_pos = stack_top, us_argv = argv, us_envp = envp,
       us_aux = aux_vec, us_exec = exec_path \<rparr>"

type_synonym 'v stack_state = "user_stack \<times> 'v"

definition stack_low :: "user_stack \<Rightarrow> usize" where
  "stack_low u = us_top u - us_size u"

text \<open>Writing at the position, which has been moved; a failing write is a panic.\<close>

definition us_write :: "'v vm_ops \<Rightarrow> u8 list \<Rightarrow> ('v stack_state, usize) act" where
  "us_write ops data = (\<lambda>(u, v). case vm_write_bytes ops (us_pos u) data v of
       (Inl _, v') \<Rightarrow> (panic, (u, v')) | (Inr _, v') \<Rightarrow> (Ok (us_pos u), (u, v')))"

text \<open>The check comes before the position is moved.\<close>

definition push_u64 :: "'v vm_ops \<Rightarrow> u64 \<Rightarrow> ('v stack_state, usize) act" where
  "push_u64 ops data = (\<lambda>(u, v).
     if us_pos u < stack_low u then (Err ENOSPC, (u, v))
     else us_write ops (to_ne_bytes data) (u\<lparr>us_pos := us_pos u - 8\<rparr>, v))"

definition push_bytes :: "stack_cfg \<Rightarrow> 'v vm_ops \<Rightarrow> u8 list \<Rightarrow> ('v stack_state, usize) act" where
  "push_bytes c ops data = (\<lambda>(u, v).
     let pos = align_down c (us_pos u - of_nat (length data)) 8; u = u\<lparr>us_pos := pos\<rparr> in
     if pos < stack_low u then (Err ENOSPC, (u, v)) else us_write ops data (u, v))"

definition push_str :: "stack_cfg \<Rightarrow> 'v vm_ops \<Rightarrow> u8 list \<Rightarrow> ('v stack_state, usize) act" where
  "push_str c ops data = push_bytes c ops (data @ [0])"

definition align_to :: "stack_cfg \<Rightarrow> usize \<Rightarrow> ('v stack_state, usize) act" where
  "align_to c align = (\<lambda>(u, v).
     let new_pos = align_down c (us_pos u) align in
     if new_pos < stack_low u then (Err ENOSPC, (u, v)) else (Ok new_pos, (u\<lparr>us_pos := new_pos\<rparr>, v)))"

fun push_vec_u64 :: "'v vm_ops \<Rightarrow> u64 list \<Rightarrow> ('v stack_state, unit) act" where
  "push_vec_u64 ops [] = ret ()"
| "push_vec_u64 ops (d # ds) = bind (push_u64 ops d) (\<lambda>_. push_vec_u64 ops ds)"

fun push_strs :: "stack_cfg \<Rightarrow> 'v vm_ops \<Rightarrow> u8 list list \<Rightarrow> ('v stack_state, u64 list) act" where
  "push_strs c ops [] = ret []"
| "push_strs c ops (d # ds) = bind (push_str c ops d) (\<lambda>addr. bind (push_strs c ops ds) (\<lambda>ptrs. ret (addr # ptrs)))"

definition push_argv :: "stack_cfg \<Rightarrow> 'v vm_ops \<Rightarrow> ('v stack_state, u64 list) act" where
  "push_argv c ops = (\<lambda>s. push_strs c ops (rev (us_argv (fst s))) s)"

definition push_envp :: "stack_cfg \<Rightarrow> 'v vm_ops \<Rightarrow> ('v stack_state, u64 list) act" where
  "push_envp c ops = (\<lambda>s. push_strs c ops (rev (us_envp (fst s))) s)"

text \<open>\<open>self.aux_vec.set(key, val)?\<close>.\<close>

definition us_aux_set :: "stack_cfg \<Rightarrow> usize \<Rightarrow> u64 \<Rightarrow> ('v stack_state, unit) act" where
  "us_aux_set c key val = (\<lambda>(u, v). case aux_set c key val (us_aux u) of
       Inl e \<Rightarrow> (Inl e, (u, v)) | Inr t \<Rightarrow> (Ok (), (u\<lparr>us_aux := t\<rparr>, v)))"

definition push_aux_vec :: "stack_cfg \<Rightarrow> 'v vm_ops \<Rightarrow> ('v stack_state, unit) act" where
  "push_aux_vec c ops =
     bind (push_bytes c ops (replicate 16 0)) (\<lambda>random_ptr.
     bind (push_bytes c ops (replicate 8 0)) (\<lambda>_.
     bind (push_str c ops (platform_str c)) (\<lambda>platform.
     bind (\<lambda>s. push_str c ops (us_exec (fst s)) s) (\<lambda>ex_path.
     bind (us_aux_set c (AT_PLATFORM c) platform) (\<lambda>_.
     bind (us_aux_set c (AT_EXECFN c) ex_path) (\<lambda>_.
     bind (us_aux_set c (AT_RANDOM c) random_ptr) (\<lambda>_.
     bind (push_u64 ops 0) (\<lambda>_.
     (\<lambda>s. push_vec_u64 ops (concat (map (\<lambda>(key, val). [val, key]) (us_aux (fst s)))) s)))))))))"

definition us_init :: "stack_cfg \<Rightarrow> 'v vm_ops \<Rightarrow> ('v stack_state, usize) act" where
  "us_init c ops =
     bind (push_envp c ops) (\<lambda>envp_pointers.
     bind (push_argv c ops) (\<lambda>argv_pointers.
     bind (align_to c 8) (\<lambda>_.
     bind (push_aux_vec c ops) (\<lambda>_.
     bind (push_u64 ops 0) (\<lambda>_.
     bind (push_vec_u64 ops envp_pointers) (\<lambda>_.
     bind (push_u64 ops 0) (\<lambda>_.
     bind (push_vec_u64 ops argv_pointers) (\<lambda>_.
     (\<lambda>s. push_u64 ops (of_nat (length (us_argv (fst s)))) s)))))))))"

section \<open>Memory\<close>

definition mem_at :: "(usize \<Rightarrow> u8) \<Rightarrow> usize \<Rightarrow> u8 list \<Rightarrow> bool" where
  "mem_at m p bs \<longleftrightarrow> user_bytes m p (length bs) = bs"

definition read_words :: "(usize \<Rightarrow> u8) \<Rightarrow> usize \<Rightarrow> nat \<Rightarrow> u64 list" where
  "read_words m p n = map (\<lambda>i. from_ne_bytes (user_bytes m (p + of_nat (8 * i)) 8)) [0..<n]"

text \<open>Two memories that agree from an address upwards.\<close>

definition same_above :: "nat \<Rightarrow> (usize \<Rightarrow> u8) \<Rightarrow> (usize \<Rightarrow> u8) \<Rightarrow> bool" where
  "same_above q m m' \<longleftrightarrow> (\<forall>x. q \<le> unat x \<longrightarrow> m' x = m x)"

lemma same_above_refl [simp]: "same_above q m m"
  by (simp add: same_above_def)

lemma same_above_trans: "same_above q m m' \<Longrightarrow> same_above q' m' m'' \<Longrightarrow> q' \<le> q \<Longrightarrow> same_above q m m''"
  by (simp add: same_above_def)

lemma unat_add_small: "unat (p :: usize) + i < 2 ^ 64 \<Longrightarrow> unat (p + of_nat i) = unat p + i"
  by (subst unat_add_lem [THEN iffD1]) (simp_all add: unat_of_nat)

lemma user_bytes_same_above:
  "same_above q m m' \<Longrightarrow> q \<le> unat p \<Longrightarrow> unat p + n \<le> 2 ^ 64 \<Longrightarrow> user_bytes m' p n = user_bytes m p n"
  by (simp add: user_bytes_def same_above_def unat_add_small)

lemma mem_at_same_above:
  "mem_at m p bs \<Longrightarrow> same_above q m m' \<Longrightarrow> q \<le> unat p \<Longrightarrow> unat p + length bs \<le> 2 ^ 64 \<Longrightarrow> mem_at m' p bs"
  by (simp add: mem_at_def user_bytes_same_above)

lemma read_words_same_above:
  assumes "same_above q m m'" and "q \<le> unat p" and "unat p + 8 * n \<le> 2 ^ 64"
  shows "read_words m' p n = read_words m p n"
proof (cases "n = 0")
  case False
  have "user_bytes m' (p + of_nat (8 * i)) 8 = user_bytes m (p + of_nat (8 * i)) 8" if "i < n" for i
  proof -
    have u: "unat (p + of_nat (8 * i)) = unat p + 8 * i"
      using assms(3) that by (intro unat_add_small) simp
    have "q \<le> unat (p + of_nat (8 * i))" "unat (p + of_nat (8 * i)) + 8 \<le> 2 ^ 64"
      unfolding u using assms(2,3) that by linarith+
    then show ?thesis by (rule user_bytes_same_above [OF assms(1)])
  qed
  then show ?thesis by (simp add: read_words_def)
qed (simp add: read_words_def)

lemma read_words_add:
  "read_words m p (a + b) = read_words m p a @ read_words m (p + of_nat (8 * a)) b"
proof (rule nth_equalityI)
  fix i assume i: "i < length (read_words m p (a + b))"
  show "read_words m p (a + b) ! i = (read_words m p a @ read_words m (p + of_nat (8 * a)) b) ! i"
  proof (cases "i < a")
    case False
    then have "p + of_nat (8 * a) + of_nat (8 * (i - a)) = p + of_nat (8 * a + 8 * (i - a))"
      by (simp only: of_nat_add add.assoc)
    also have "8 * a + 8 * (i - a) = 8 * i" using False by simp
    finally have addr: "p + of_nat (8 * a) + of_nat (8 * (i - a)) = p + of_nat (8 * i)" .
    have "i - a < b" using i False by (simp add: read_words_def)
    with i False have "read_words m (p + of_nat (8 * a)) b ! (i - a) = from_ne_bytes (user_bytes m (p + of_nat (8 * i)) 8)"
      unfolding read_words_def by (simp only: nth_map nth_upt length_upt addr) simp
    with i False show ?thesis by (simp add: read_words_def nth_append)
  qed (use i in \<open>simp add: read_words_def nth_append\<close>)
qed (simp add: read_words_def)

text \<open>What the stack relies on: a range of the address space that takes writes.\<close>

definition stack_vm :: "'v vm_ops \<Rightarrow> ('v \<Rightarrow> usize \<Rightarrow> u8) \<Rightarrow> nat \<Rightarrow> nat \<Rightarrow> bool" where
  "stack_vm ops mem lo hi \<longleftrightarrow> (\<forall>a bs v. lo \<le> unat a \<and> unat a + length bs \<le> hi \<longrightarrow>
     (\<exists>v'. vm_write_bytes ops a bs v = (Inr (), v') \<and>
       (\<forall>x. mem v' x = (if unat a \<le> unat x \<and> unat x < unat a + length bs then bs ! (unat x - unat a) else mem v x))))"

lemma us_write_run:
  assumes "stack_vm ops mem lo hi" and "lo \<le> unat (us_pos u)" and "unat (us_pos u) + length bs \<le> hi" and "hi < 2 ^ 64"
  obtains v' where "us_write ops bs (u, v) = (Ok (us_pos u), (u, v'))" "mem_at (mem v') (us_pos u) bs"
    "same_above (unat (us_pos u) + length bs) (mem v) (mem v')"
proof -
  obtain v' where w: "vm_write_bytes ops (us_pos u) bs v = (Inr (), v')"
    and m: "\<And>x. mem v' x = (if unat (us_pos u) \<le> unat x \<and> unat x < unat (us_pos u) + length bs
      then bs ! (unat x - unat (us_pos u)) else mem v x)"
    using assms(1-3) unfolding stack_vm_def by blast
  have "user_bytes (mem v') (us_pos u) (length bs) = bs"
  proof (rule nth_equalityI)
    fix i assume "i < length (user_bytes (mem v') (us_pos u) (length bs))"
    then have i: "i < length bs" by simp
    then have "unat (us_pos u + of_nat i) = unat (us_pos u) + i" using assms(3,4) by (intro unat_add_small) simp
    with i show "user_bytes (mem v') (us_pos u) (length bs) ! i = bs ! i" by (simp add: user_bytes_def m)
  qed simp
  moreover have "same_above (unat (us_pos u) + length bs) (mem v) (mem v')" by (simp add: same_above_def m)
  ultimately show ?thesis using that w by (simp add: us_write_def mem_at_def)
qed

section \<open>The pushes\<close>

definition round8 :: "nat \<Rightarrow> nat" where
  "round8 n = 8 * ((n + 7) div 8)"

lemma round8_ge: "n \<le> round8 n"
  unfolding round8_def by linarith

lemma round8_dvd [simp]: "8 dvd round8 n"
  by (simp add: round8_def)

definition aligns :: "stack_cfg \<Rightarrow> bool" where
  "aligns c \<longleftrightarrow> (\<forall>a. unat (align_down c a 8) = 8 * (unat a div 8))"

lemma align_sub_round8:
  assumes "aligns c" and "8 dvd unat (pos :: usize)" and "round8 n \<le> unat pos"
  shows "unat (align_down c (pos - of_nat n) 8) = unat pos - round8 n"
proof -
  obtain k where k: "unat pos = 8 * k" using assms(2) by (elim dvdE)
  have n: "n \<le> unat pos" using assms(3) round8_ge [of n] by simp
  then have un: "unat (of_nat n :: usize) = n"
    using unsigned_less [of pos, where ?'a = nat] by (simp add: unat_of_nat)
  have "unat (pos - of_nat n) = unat pos - n"
    using n un by (subst unat_sub) (simp_all add: word_le_nat_alt)
  moreover have "8 * ((8 * k - n) div 8) = 8 * k - round8 n"
  proof -
    define q where "q = (n + 7) div 8"
    have "q \<le> k" using assms(3) k by (simp add: round8_def q_def)
    moreover have "n \<le> 8 * q" "8 * q < n + 8" unfolding q_def by linarith+
    ultimately have "8 * k - n = 8 * (k - q) + (8 * q - n)" "8 * q - n < 8" by auto
    then have "(8 * k - n) div 8 = k - q" by simp
    then show ?thesis by (simp add: round8_def q_def right_diff_distrib')
  qed
  ultimately show ?thesis using assms(1) by (simp add: aligns_def k)
qed

text \<open>The stack object: its position is aligned, above the lower end and below the upper end.\<close>

definition stack_at :: "nat \<Rightarrow> nat \<Rightarrow> user_stack \<Rightarrow> bool" where
  "stack_at lo hi u \<longleftrightarrow> unat (stack_low u) = lo \<and> 8 dvd unat (us_pos u) \<and> lo \<le> unat (us_pos u)
     \<and> unat (us_pos u) \<le> hi"

lemma stack_at_move:
  "stack_at lo hi u \<Longrightarrow> unat p = unat (us_pos u) - n \<Longrightarrow> 8 dvd n \<Longrightarrow> lo + n \<le> unat (us_pos u) \<Longrightarrow>
   stack_at lo hi (u\<lparr>us_pos := p\<rparr>)"
  unfolding stack_at_def stack_low_def by (auto intro: dvd_diff_nat)

lemma stack_at_aux [simp]: "stack_at lo hi (u\<lparr>us_aux := t\<rparr>) = stack_at lo hi u"
  by (simp add: stack_at_def stack_low_def)

lemma push_bytes_run:
  assumes "stack_vm ops mem lo hi" and "hi < 2 ^ 64" and "aligns c" and "stack_at lo hi u"
    and "lo + round8 (length bs) \<le> unat (us_pos u)"
  obtains p v' where "push_bytes c ops bs (u, v) = (Ok p, (u\<lparr>us_pos := p\<rparr>, v'))"
    "unat p = unat (us_pos u) - round8 (length bs)" "mem_at (mem v') p bs"
    "same_above (unat (us_pos u)) (mem v) (mem v')"
proof -
  let ?p = "align_down c (us_pos u - of_nat (length bs)) 8"
  have p: "unat ?p = unat (us_pos u) - round8 (length bs)"
    using assms(3-5) by (intro align_sub_round8) (simp_all add: stack_at_def)
  let ?u = "u\<lparr>us_pos := ?p\<rparr>"
  have le: "unat ?p + length bs \<le> unat (us_pos u)" using p round8_ge [of "length bs"] assms(5) by simp
  have "lo \<le> unat (us_pos ?u)" "unat (us_pos ?u) + length bs \<le> hi"
    using p assms(4,5) le by (simp_all add: stack_at_def)
  from us_write_run [OF assms(1) this assms(2), of v]
  obtain v' where v': "us_write ops bs (?u, v) = (Ok ?p, (?u, v'))" "mem_at (mem v') ?p bs"
    "same_above (unat ?p + length bs) (mem v) (mem v')" by auto
  have "\<not> ?p < stack_low ?u"
    using p assms(4,5) by (simp add: stack_at_def stack_low_def word_less_nat_alt)
  then have "push_bytes c ops bs (u, v) = (Ok ?p, (?u, v'))" by (simp add: push_bytes_def v' Let_def)
  moreover have "same_above (unat (us_pos u)) (mem v) (mem v')"
    using v'(3) le by (auto simp: same_above_def)
  ultimately show ?thesis using that p v'(2) by blast
qed

lemma push_u64_run:
  assumes "stack_vm ops mem lo hi" and "hi < 2 ^ 64" and "stack_at lo hi u" and "lo + 8 \<le> unat (us_pos u)"
  obtains p v' where "push_u64 ops d (u, v) = (Ok p, (u\<lparr>us_pos := p\<rparr>, v'))"
    "unat p = unat (us_pos u) - 8" "mem_at (mem v') p (to_ne_bytes d)"
    "same_above (unat (us_pos u)) (mem v) (mem v')"
proof -
  let ?p = "us_pos u - 8"
  have p: "unat ?p = unat (us_pos u) - 8" using assms(4) by (subst unat_sub) (simp_all add: word_le_nat_alt)
  let ?u = "u\<lparr>us_pos := ?p\<rparr>"
  have "lo \<le> unat (us_pos ?u)" "unat (us_pos ?u) + length (to_ne_bytes d) \<le> hi"
    using p assms(3,4) by (simp_all add: stack_at_def)
  from us_write_run [OF assms(1) this assms(2), of v]
  obtain v' where v': "us_write ops (to_ne_bytes d) (?u, v) = (Ok ?p, (?u, v'))" "mem_at (mem v') ?p (to_ne_bytes d)"
    "same_above (unat ?p + 8) (mem v) (mem v')" by auto
  have "\<not> us_pos u < stack_low u" using assms(3) by (simp add: stack_at_def word_less_nat_alt)
  then have "push_u64 ops d (u, v) = (Ok ?p, (?u, v'))" by (simp add: push_u64_def v')
  then show ?thesis using that p v' assms(4) by simp
qed

text \<open>A run of words: the last one pushed is the lowest.\<close>

lemma read_words_Suc: "read_words m p (Suc n) = read_words m p n @ [from_ne_bytes (user_bytes m (p + of_nat (8 * n)) 8)]"
  by (simp add: read_words_def)

lemma read_words_1: "mem_at m p (to_ne_bytes d) \<Longrightarrow> read_words m p 1 = [d]"
  by (simp add: read_words_def mem_at_def)

lemma push_vec_u64_run:
  assumes "stack_vm ops mem lo hi" and "hi < 2 ^ 64"
  shows "stack_at lo hi u \<Longrightarrow> lo + 8 * length ds \<le> unat (us_pos u) \<Longrightarrow>
    \<exists>p v'. push_vec_u64 ops ds (u, v) = (Ok (), (u\<lparr>us_pos := p\<rparr>, v'))
      \<and> unat p = unat (us_pos u) - 8 * length ds \<and> read_words (mem v') p (length ds) = rev ds
      \<and> same_above (unat (us_pos u)) (mem v) (mem v')"
proof (induction ds arbitrary: u v)
  case Nil
  show ?case by (rule exI [of _ "us_pos u"], rule exI [of _ v]) (simp add: act_simps read_words_def)
next
  case (Cons d ds)
  from Cons.prems have room: "lo + 8 \<le> unat (us_pos u)" by simp
  obtain p v1 where 1: "push_u64 ops d (u, v) = (Ok p, (u\<lparr>us_pos := p\<rparr>, v1))"
    "unat p = unat (us_pos u) - 8" "mem_at (mem v1) p (to_ne_bytes d)" "same_above (unat (us_pos u)) (mem v) (mem v1)"
    by (rule push_u64_run [OF assms Cons.prems(1) room])
  let ?u = "u\<lparr>us_pos := p\<rparr>"
  have "stack_at lo hi ?u" using Cons.prems(1) 1(2) room by (intro stack_at_move [where n = 8]) simp_all
  moreover have "lo + 8 * length ds \<le> unat (us_pos ?u)" using 1(2) Cons.prems(2) by simp
  ultimately obtain p' v2 where 2: "push_vec_u64 ops ds (?u, v1) = (Ok (), (?u\<lparr>us_pos := p'\<rparr>, v2))"
    "unat p' = unat p - 8 * length ds" "read_words (mem v2) p' (length ds) = rev ds"
    "same_above (unat p) (mem v1) (mem v2)"
    using Cons.IH [of ?u v1] by auto
  have up: "unat p + 8 \<le> hi" using 1(2) Cons.prems(1) room by (simp add: stack_at_def)
  have p': "p' + of_nat (8 * length ds) = p"
  proof -
    have "unat p' + 8 * length ds = unat p" using 2(2) 1(2) Cons.prems(2) by simp
    then have "unat (p' + of_nat (8 * length ds)) = unat p"
      using unsigned_less [of p, where ?'a = nat] by (subst unat_add_small) simp_all
    then show ?thesis by (simp only: word_unat_eq_iff)
  qed
  have "user_bytes (mem v2) p 8 = user_bytes (mem v1) p 8"
    by (rule user_bytes_same_above [OF 2(4)]) (use up assms(2) in simp_all)
  then have "from_ne_bytes (user_bytes (mem v2) p 8) = d" using 1(3) by (simp add: mem_at_def)
  then have "read_words (mem v2) p' (length (d # ds)) = rev (d # ds)"
    using 2(3) p' by (simp add: read_words_Suc del: of_nat_mult)
  moreover have "same_above (unat (us_pos u)) (mem v) (mem v2)"
    using 1(2,4) 2(4) by (auto simp: same_above_def)
  ultimately show ?case using 1(1,2) 2(1,2) by (intro exI [of _ p'] exI [of _ v2]) (simp add: act_simps)
qed

text \<open>Strings: each ends with a zero byte and is aligned.\<close>

definition string_at :: "(usize \<Rightarrow> u8) \<Rightarrow> nat \<Rightarrow> nat \<Rightarrow> u8 list \<Rightarrow> usize \<Rightarrow> bool" where
  "string_at m lo hi d q \<longleftrightarrow> lo \<le> unat q \<and> unat q + length d + 1 \<le> hi \<and> mem_at m q (d @ [0])"

lemma string_at_same_above:
  assumes "string_at m lo hi d q" and "same_above p m m'" and "p \<le> lo" and "hi < 2 ^ 64" and "lo' \<le> lo" and "hi \<le> hi'"
  shows "string_at m' lo' hi' d q"
proof -
  have q: "lo \<le> unat q" "unat q + length d + 1 \<le> hi" "mem_at m q (d @ [0])"
    using assms(1) unfolding string_at_def by blast+
  have "p \<le> unat q" using assms(3) q(1) by (rule le_trans)
  moreover have "unat q + length (d @ [0 :: u8]) \<le> 2 ^ 64" using q(2) assms(4) by simp
  ultimately have "mem_at m' q (d @ [0])" by (rule mem_at_same_above [OF q(3) assms(2)])
  moreover have "lo' \<le> unat q" using assms(5) q(1) by (rule le_trans)
  moreover have "unat q + length d + 1 \<le> hi'" using q(2) assms(6) by (rule le_trans)
  ultimately show ?thesis by (simp only: string_at_def)
qed

definition strings_size :: "u8 list list \<Rightarrow> nat" where
  "strings_size ds = (\<Sum>d\<leftarrow>ds. round8 (length d + 1))"

lemma strings_size_simps [simp]:
  "strings_size [] = 0" "strings_size (d # ds) = round8 (length d + 1) + strings_size ds"
  "strings_size (rev ds) = strings_size ds"
  by (simp_all add: strings_size_def flip: rev_map)

lemma strings_size_dvd [simp]: "8 dvd strings_size ds"
  by (induction ds) simp_all

lemma push_str_run:
  assumes "stack_vm ops mem lo hi" and "hi < 2 ^ 64" and "aligns c" and "stack_at lo hi u"
    and "lo + round8 (length d + 1) \<le> unat (us_pos u)"
  obtains p v' where "push_str c ops d (u, v) = (Ok p, (u\<lparr>us_pos := p\<rparr>, v'))"
    "unat p = unat (us_pos u) - round8 (length d + 1)" "string_at (mem v') (unat p) (unat (us_pos u)) d p"
    "same_above (unat (us_pos u)) (mem v) (mem v')"
proof -
  have "lo + round8 (length (d @ [0 :: u8])) \<le> unat (us_pos u)" using assms(5) by simp
  from push_bytes_run [OF assms(1-4) this, of v]
  obtain p v' where r: "push_bytes c ops (d @ [0]) (u, v) = (Ok p, (u\<lparr>us_pos := p\<rparr>, v'))"
    "unat p = unat (us_pos u) - round8 (length d + 1)" "mem_at (mem v') p (d @ [0])"
    "same_above (unat (us_pos u)) (mem v) (mem v')" by auto
  have "unat p + length d + 1 \<le> unat (us_pos u)"
    using r(2) assms(5) round8_ge [of "length d + 1"] by simp
  then have "string_at (mem v') (unat p) (unat (us_pos u)) d p" using r(3) by (simp add: string_at_def)
  with that r show ?thesis by (simp add: push_str_def)
qed

lemma push_strs_run:
  assumes "stack_vm ops mem lo hi" and "hi < 2 ^ 64" and "aligns c"
  shows "stack_at lo hi u \<Longrightarrow> lo + strings_size ds \<le> unat (us_pos u) \<Longrightarrow>
    \<exists>ptrs p v'. push_strs c ops ds (u, v) = (Ok ptrs, (u\<lparr>us_pos := p\<rparr>, v'))
      \<and> unat p = unat (us_pos u) - strings_size ds
      \<and> list_all2 (string_at (mem v') (unat p) (unat (us_pos u))) ds ptrs
      \<and> same_above (unat (us_pos u)) (mem v) (mem v')"
proof (induction ds arbitrary: u v)
  case Nil
  show ?case by (rule exI [of _ "[]"], rule exI [of _ "us_pos u"], rule exI [of _ v]) (simp add: act_simps)
next
  case (Cons d ds)
  from Cons.prems have room: "lo + round8 (length d + 1) \<le> unat (us_pos u)" by simp
  obtain p v1 where 1: "push_str c ops d (u, v) = (Ok p, (u\<lparr>us_pos := p\<rparr>, v1))"
    "unat p = unat (us_pos u) - round8 (length d + 1)" "string_at (mem v1) (unat p) (unat (us_pos u)) d p"
    "same_above (unat (us_pos u)) (mem v) (mem v1)"
    by (rule push_str_run [OF assms Cons.prems(1) room])
  let ?u = "u\<lparr>us_pos := p\<rparr>"
  have "stack_at lo hi ?u" using Cons.prems(1) 1(2) room by (intro stack_at_move) simp_all
  moreover have "lo + strings_size ds \<le> unat (us_pos ?u)" using 1(2) Cons.prems(2) by simp
  ultimately obtain ptrs p' v2 where 2: "push_strs c ops ds (?u, v1) = (Ok ptrs, (?u\<lparr>us_pos := p'\<rparr>, v2))"
    "unat p' = unat p - strings_size ds" "list_all2 (string_at (mem v2) (unat p') (unat p)) ds ptrs"
    "same_above (unat p) (mem v1) (mem v2)"
    using Cons.IH [of ?u v1] by auto
  have hi: "unat (us_pos u) < 2 ^ 64" "unat p < 2 ^ 64"
    using unsigned_less [of "us_pos u", where ?'a = nat] unsigned_less [of p, where ?'a = nat] by simp_all
  have le: "unat p' \<le> unat p" "unat p \<le> unat (us_pos u)" using 1(2) 2(2) by simp_all
  have "string_at (mem v2) (unat p') (unat (us_pos u)) d p"
    by (rule string_at_same_above [OF 1(3) 2(4)]) (use hi le in simp_all)
  moreover have "list_all2 (string_at (mem v2) (unat p') (unat (us_pos u))) ds ptrs"
    by (rule list_all2_mono [OF 2(3)]) (use hi le in \<open>auto elim!: string_at_same_above\<close>)
  moreover have "same_above (unat (us_pos u)) (mem v) (mem v2)"
    using le 1(4) 2(4) by (auto simp: same_above_def)
  moreover have "unat p' = unat (us_pos u) - strings_size (d # ds)" using 1(2) 2(2) by simp
  ultimately show ?case using 1(1) 2(1)
    by (intro exI [of _ "p # ptrs"] exI [of _ p'] exI [of _ v2]) (simp add: act_simps)
qed

section \<open>The auxiliary vector on the stack\<close>

lemma push_u64_frame:
  "push_u64 ops d (u, v) = (r, (u', v')) \<Longrightarrow> us_aux u' = us_aux u \<and> us_argv u' = us_argv u"
  by (auto simp: push_u64_def us_write_def split: if_splits prod.splits sum.splits)

lemma push_vec_frame:
  "push_vec_u64 ops ds (u, v) = (r, (u', v')) \<Longrightarrow> us_aux u' = us_aux u \<and> us_argv u' = us_argv u"
proof (induction ds arbitrary: u v)
  case (Cons d ds)
  then show ?case
    by (auto simp: bind_def split: prod.splits sum.splits dest!: push_u64_frame)
qed (simp add: act_simps)

lemma push_vec_append: "push_vec_u64 ops (a @ b) = bind (push_vec_u64 ops a) (\<lambda>_. push_vec_u64 ops b)"
  by (induction a) (simp_all add: bind_assoc)

definition aux_words :: "aux_vec \<Rightarrow> u64 list" where
  "aux_words t = concat (map (\<lambda>(key, val). [val, key]) t)"

lemma length_aux_words [simp]: "length (aux_words t) = 2 * length t"
  by (induction t) (auto simp: aux_words_def)

lemma rev_aux_words: "rev (aux_words t) = concat (map (\<lambda>(key, val). [key, val]) (rev t))"
  by (induction t) (auto simp: aux_words_def)

definition with_pointers :: "stack_cfg \<Rightarrow> u64 \<Rightarrow> u64 \<Rightarrow> u64 \<Rightarrow> aux_vec \<Rightarrow> aux_vec" where
  "with_pointers c platform ex_path random_ptr t =
     bt_insert (AT_RANDOM c) random_ptr (bt_insert (AT_EXECFN c) ex_path (bt_insert (AT_PLATFORM c) platform t))"

lemma keys_bt_insert: "map fst m = map fst m' \<Longrightarrow> map fst (bt_insert k v m) = map fst (bt_insert k w m')"
proof (induction m arbitrary: m')
  case (Cons e m)
  then obtain e' n where "m' = e' # n" "fst e' = fst e" "map fst m = map fst n" by (cases m') auto
  with Cons.IH [of n] show ?case by (cases e; cases e') auto
qed simp

lemma length_with_pointers: "length (with_pointers c a b d t) = length (with_pointers c 0 0 0 t)"
proof -
  have "map fst (with_pointers c a b d t) = map fst (with_pointers c 0 0 0 t)"
    unfolding with_pointers_def by (intro keys_bt_insert) simp
  then show ?thesis by (metis length_map)
qed

definition aux_keys_ok :: "stack_cfg \<Rightarrow> bool" where
  "aux_keys_ok c \<longleftrightarrow> (\<forall>k \<in> {AT_PLATFORM c, AT_EXECFN c, AT_RANDOM c}. k \<noteq> 0 \<and> k \<noteq> AT_IGNORE c)"

definition aux_size :: "stack_cfg \<Rightarrow> user_stack \<Rightarrow> nat" where
  "aux_size c u = 24 + strings_size [platform_str c, us_exec u] + 8 + 16 * length (with_pointers c 0 0 0 (us_aux u))"

text \<open>The words that \<open>push_aux_vec\<close> leaves, and the data they point to.\<close>

definition aux_image :: "stack_cfg \<Rightarrow> user_stack \<Rightarrow> (usize \<Rightarrow> u8) \<Rightarrow> usize \<Rightarrow> nat \<Rightarrow> aux_vec \<Rightarrow> bool" where
  "aux_image c u m p hi t \<longleftrightarrow> (\<exists>platform ex_path random_ptr.
     t = with_pointers c platform ex_path random_ptr (us_aux u)
     \<and> read_words m p (2 * length t + 1) = concat (map (\<lambda>(key, val). [key, val]) (rev t)) @ [0]
     \<and> string_at m (unat p) hi (platform_str c) platform \<and> string_at m (unat p) hi (us_exec u) ex_path
     \<and> unat p \<le> unat random_ptr \<and> unat random_ptr + 16 \<le> hi \<and> mem_at m random_ptr (replicate 16 0))"

lemma push_aux_vec_run:
  assumes "stack_vm ops mem lo hi" and "hi < 2 ^ 64" and "aligns c" and "aux_keys_ok c"
    and "stack_at lo hi u" and "lo + aux_size c u \<le> unat (us_pos u)"
  obtains p t v' where "push_aux_vec c ops (u, v) = (Ok (), (u\<lparr>us_pos := p, us_aux := t\<rparr>, v'))"
    "unat p = unat (us_pos u) - aux_size c u" "aux_image c u (mem v') p (unat (us_pos u)) t"
    "same_above (unat (us_pos u)) (mem v) (mem v')"
proof -
  define P where "P = round8 (length (platform_str c) + 1)"
  define X where "X = round8 (length (us_exec u) + 1)"
  have dvd: "8 dvd P" "8 dvd X" by (simp_all add: P_def X_def)
  have size: "aux_size c u = 32 + P + X + 16 * length (with_pointers c 0 0 0 (us_aux u))"
    by (simp add: aux_size_def P_def X_def)
  note room = assms(6) [unfolded size] and ctx = assms(1-3)
  have r16: "round8 16 = 16" "round8 8 = 8" by (simp_all add: round8_def)
  have "lo + round8 (length (replicate 16 (0 :: u8))) \<le> unat (us_pos u)" using room by (simp add: r16)
  from push_bytes_run [OF ctx assms(5) this, of v] obtain a1 v1 where
    1: "push_bytes c ops (replicate 16 0) (u, v) = (Ok a1, (u\<lparr>us_pos := a1\<rparr>, v1))"
    "unat a1 = unat (us_pos u) - 16" "mem_at (mem v1) a1 (replicate 16 0)" "same_above (unat (us_pos u)) (mem v) (mem v1)"
    by (auto simp: r16)
  let ?u1 = "u\<lparr>us_pos := a1\<rparr>"
  have s1: "stack_at lo hi ?u1" using 1(2) room by (intro stack_at_move [OF assms(5), where n = 16]) simp_all
  have "lo + round8 (length (replicate 8 (0 :: u8))) \<le> unat (us_pos ?u1)" using room 1(2) by (simp add: r16)
  from push_bytes_run [OF ctx s1 this, of v1] obtain a2 v2 where
    2: "push_bytes c ops (replicate 8 0) (?u1, v1) = (Ok a2, (?u1\<lparr>us_pos := a2\<rparr>, v2))"
    "unat a2 = unat a1 - 8" "mem_at (mem v2) a2 (replicate 8 0)" "same_above (unat a1) (mem v1) (mem v2)"
    by (auto simp: r16)
  let ?u2 = "?u1\<lparr>us_pos := a2\<rparr>"
  have s2: "stack_at lo hi ?u2" using 1(2) 2(2) room by (intro stack_at_move [OF s1, where n = 8]) simp_all
  have "lo + round8 (length (platform_str c) + 1) \<le> unat (us_pos ?u2)"
    unfolding P_def [symmetric] using room 1(2) 2(2) by simp
  from push_str_run [OF ctx s2 this, of v2] obtain a3 v3 where
    3: "push_str c ops (platform_str c) (?u2, v2) = (Ok a3, (?u2\<lparr>us_pos := a3\<rparr>, v3))"
    "unat a3 = unat a2 - P"
    "string_at (mem v3) (unat a3) (unat a2) (platform_str c) a3" "same_above (unat a2) (mem v2) (mem v3)"
    unfolding P_def by auto
  let ?u3 = "?u2\<lparr>us_pos := a3\<rparr>"
  have s3: "stack_at lo hi ?u3" using 1(2) 2(2) 3(2) room dvd by (intro stack_at_move [OF s2, where n = P]) simp_all
  have "lo + round8 (length (us_exec u) + 1) \<le> unat (us_pos ?u3)"
    unfolding X_def [symmetric] using room 1(2) 2(2) 3(2) by simp
  from push_str_run [OF ctx s3 this, of v3] obtain a4 v4 where
    4: "push_str c ops (us_exec u) (?u3, v3) = (Ok a4, (?u3\<lparr>us_pos := a4\<rparr>, v4))"
    "unat a4 = unat a3 - X"
    "string_at (mem v4) (unat a4) (unat a3) (us_exec u) a4" "same_above (unat a3) (mem v3) (mem v4)"
    unfolding X_def by auto
  define t where "t = with_pointers c a3 a4 a1 (us_aux u)"
  let ?u4 = "?u3\<lparr>us_pos := a4, us_aux := t\<rparr>"
  have s4: "stack_at lo hi ?u4"
    using 1(2) 2(2) 3(2) 4(2) room dvd stack_at_move [OF s3, of a4 X] by simp
  have len: "length t = length (with_pointers c 0 0 0 (us_aux u))" unfolding t_def by (rule length_with_pointers)
  have "lo + 8 * length (0 # aux_words t) \<le> unat (us_pos ?u4)"
    using room 1(2) 2(2) 3(2) 4(2) len by simp
  from push_vec_u64_run [OF assms(1,2) s4 this, of v4] obtain p v5 where
    5: "push_vec_u64 ops (0 # aux_words t) (?u4, v4) = (Ok (), (?u4\<lparr>us_pos := p\<rparr>, v5))"
    "unat p = unat a4 - 8 * length (0 # aux_words t)"
    "read_words (mem v5) p (length (0 # aux_words t)) = rev (0 # aux_words t)"
    "same_above (unat a4) (mem v4) (mem v5)"
    by auto
  have step: "bind (push_u64 ops 0) (\<lambda>_ s. push_vec_u64 ops (concat (map (\<lambda>(key, val). [val, key]) (us_aux (fst s)))) s)
      (?u4, v4) = (Ok (), (?u4\<lparr>us_pos := p\<rparr>, v5))"
    using 5(1) unfolding aux_words_def push_vec_u64.simps
    by (auto simp: bind_def split: prod.splits sum.splits dest!: push_u64_frame)
  have sets: "us_aux_set c k x (w, y) = (Ok (), (w\<lparr>us_aux := bt_insert k x (us_aux w)\<rparr>, y))"
    if "k \<in> {AT_PLATFORM c, AT_EXECFN c, AT_RANDOM c}" for k x w and y :: 'a
    using that assms(4) by (auto simp: us_aux_set_def aux_set_def aux_keys_ok_def)
  have "push_aux_vec c ops (u, v) = (Ok (), (?u4\<lparr>us_pos := p\<rparr>, v5))"
    using step unfolding push_aux_vec_def
    by (simp add: bind_run [of _ _ "(_, _)"] 1(1) 2(1) [simplified] 3(1) [simplified]
          4(1) [simplified] sets t_def with_pointers_def)
  then have run: "push_aux_vec c ops (u, v) = (Ok (), (u\<lparr>us_pos := p, us_aux := t\<rparr>, v5))" by simp
  have pos: "unat p = unat (us_pos u) - aux_size c u"
    using 1(2) 2(2) 3(2) 4(2) 5(2) len by (simp add: size)
  have le: "unat p \<le> unat a4" "unat a4 \<le> unat a3" "unat a3 \<le> unat a2" "unat a2 \<le> unat a1" "unat a1 + 16 \<le> unat (us_pos u)"
    using 1(2) 2(2) 3(2) 4(2) 5(2) room by simp_all
  have small: "unat (us_pos u) < 2 ^ 64" using unsigned_less [of "us_pos u", where ?'a = nat] by simp
  have s34: "same_above (unat a3) (mem v3) (mem v5)" and s14: "same_above (unat a1) (mem v1) (mem v5)"
    and s04: "same_above (unat (us_pos u)) (mem v) (mem v5)"
    using le 1(4) 2(4) 3(4) 4(4) 5(4) by (auto simp: same_above_def)
  have "string_at (mem v5) (unat p) (unat (us_pos u)) (platform_str c) a3"
    by (rule string_at_same_above [OF 3(3) s34]) (use le small in simp_all)
  moreover have "string_at (mem v5) (unat p) (unat (us_pos u)) (us_exec u) a4"
    by (rule string_at_same_above [OF 4(3) 5(4)]) (use le small in simp_all)
  moreover have "mem_at (mem v5) a1 (replicate 16 0)"
    by (rule mem_at_same_above [OF 1(3) s14]) (use le small in simp_all)
  moreover have "read_words (mem v5) p (2 * length t + 1) = concat (map (\<lambda>(key, val). [key, val]) (rev t)) @ [0]"
    using 5(3) by (simp add: rev_aux_words)
  ultimately have "aux_image c u (mem v5) p (unat (us_pos u)) t"
    using le unfolding aux_image_def by (intro exI [of _ a3] exI [of _ a4] exI [of _ a1]) (simp add: t_def)
  with that run pos s04 show ?thesis by blast
qed

section \<open>The stack of a new program\<close>

definition init_size :: "stack_cfg \<Rightarrow> user_stack \<Rightarrow> nat" where
  "init_size c u = strings_size (us_envp u) + strings_size (us_argv u) + aux_size c u
     + 8 * (length (us_envp u) + length (us_argv u) + 3)"

text \<open>What a program finds from its stack pointer upwards: the argument count, the argument pointers
  and a null, the environment pointers and a null, the auxiliary vector and its null key.\<close>

definition stack_image :: "(usize \<Rightarrow> u8) \<Rightarrow> usize \<Rightarrow> u64 list \<Rightarrow> u64 list \<Rightarrow> aux_vec \<Rightarrow> bool" where
  "stack_image m sp argp envp t \<longleftrightarrow>
     read_words m sp (1 + (length argp + length envp + 2) + (2 * length t + 1))
       = [of_nat (length argp)] @ (argp @ [0] @ envp @ [0]) @ (concat (map (\<lambda>(key, val). [key, val]) (rev t)) @ [0])"

lemma aux_move [simp]:
  "aux_image c (u\<lparr>us_pos := p\<rparr>) = aux_image c u" "aux_size c (u\<lparr>us_pos := p\<rparr>) = aux_size c u"
  by (simp_all add: aux_image_def aux_size_def fun_eq_iff)

lemma aux_image_same_above:
  assumes "aux_image c u m p hi t" and "same_above (unat p) m m'" and "hi < 2 ^ 64" and "hi \<le> hi'"
    and "unat p + 8 * (2 * length t + 1) \<le> 2 ^ 64"
  shows "aux_image c u m' p hi' t"
proof -
  obtain a b r where t: "t = with_pointers c a b r (us_aux u)"
    and w: "read_words m p (2 * length t + 1) = concat (map (\<lambda>(key, val). [key, val]) (rev t)) @ [0]"
    and s: "string_at m (unat p) hi (platform_str c) a" "string_at m (unat p) hi (us_exec u) b"
    and r: "unat p \<le> unat r" "unat r + 16 \<le> hi" "mem_at m r (replicate 16 0)"
    using assms(1) unfolding aux_image_def by blast
  have "read_words m' p (2 * length t + 1) = read_words m p (2 * length t + 1)"
    by (rule read_words_same_above [OF assms(2) le_refl assms(5)])
  moreover have "string_at m' (unat p) hi' (platform_str c) a" "string_at m' (unat p) hi' (us_exec u) b"
    using s by (auto intro: string_at_same_above [OF _ assms(2) le_refl assms(3) le_refl assms(4)])
  moreover have "mem_at m' r (replicate 16 0)"
    by (rule mem_at_same_above [OF r(3) assms(2) r(1)]) (use r assms(3) in simp)
  ultimately show ?thesis
    using t w r assms(4) unfolding aux_image_def by (intro exI [of _ a] exI [of _ b] exI [of _ r]) simp
qed

lemma read_words_frames:
  assumes "read_words m1 p1 n = A" and "read_words m2 p2 k = B" and "same_above (unat p1) m1 m2"
    and "unat p1 = unat p2 + 8 * k" and "unat p1 + 8 * n \<le> 2 ^ 64"
  shows "read_words m2 p2 (k + n) = B @ A"
proof -
  have "unat (p2 + of_nat (8 * k)) = unat p1"
    using assms(4) unsigned_less [of p1, where ?'a = nat] by (subst unat_add_small) simp_all
  then have "p2 + of_nat (8 * k) = p1" by (simp only: word_unat_eq_iff)
  moreover have "read_words m2 p1 n = A"
    using assms(1) read_words_same_above [OF assms(3) le_refl assms(5)] by simp
  ultimately show ?thesis using assms(2) by (simp only: read_words_add)
qed

lemma align_to_run:
  assumes "aligns c" and "stack_at lo hi u"
  shows "align_to c 8 (u, v) = (Ok (us_pos u), (u, v))"
proof -
  have "unat (align_down c (us_pos u) 8) = unat (us_pos u)"
    using assms by (simp add: aligns_def stack_at_def)
  then have "align_down c (us_pos u) 8 = us_pos u" by (simp only: word_unat_eq_iff)
  then show ?thesis using assms(2) by (simp add: align_to_def Let_def stack_at_def word_less_nat_alt)
qed

text \<open>The last five steps of \<open>init\<close> push one run of words.\<close>

lemma push_words_run:
  assumes "stack_vm ops mem lo hi" and "hi < 2 ^ 64" and "stack_at lo hi u"
    and "lo + 8 * (length es + length as + 3) \<le> unat (us_pos u)"
  obtains sp v' where
    "bind (push_u64 ops 0) (\<lambda>_. bind (push_vec_u64 ops es) (\<lambda>_. bind (push_u64 ops 0) (\<lambda>_.
       bind (push_vec_u64 ops as) (\<lambda>_ s. push_u64 ops (of_nat (length (us_argv (fst s)))) s)))) (u, v)
     = (Ok sp, (u\<lparr>us_pos := sp\<rparr>, v'))"
    "unat sp = unat (us_pos u) - 8 * (length es + length as + 3)"
    "read_words (mem v') sp (1 + (length as + length es + 2)) = [of_nat (length (us_argv u))] @ rev as @ [0] @ rev es @ [0]"
    "same_above (unat (us_pos u)) (mem v) (mem v')"
proof -
  let ?ws = "0 # es @ 0 # as"
  have "lo + 8 * length ?ws \<le> unat (us_pos u)" using assms(4) by simp
  from push_vec_u64_run [OF assms(1-3) this, of v] obtain p v1 where
    1: "push_vec_u64 ops ?ws (u, v) = (Ok (), (u\<lparr>us_pos := p\<rparr>, v1))" "unat p = unat (us_pos u) - 8 * length ?ws"
    "read_words (mem v1) p (length ?ws) = rev ?ws" "same_above (unat (us_pos u)) (mem v) (mem v1)"
    by auto
  let ?u1 = "u\<lparr>us_pos := p\<rparr>"
  have s1: "stack_at lo hi ?u1"
    using 1(2) assms(4) by (intro stack_at_move [OF assms(3), where n = "8 * length ?ws"]) simp_all
  have "lo + 8 \<le> unat (us_pos ?u1)" using 1(2) assms(4) by simp
  from push_u64_run [OF assms(1,2) s1 this, of "of_nat (length (us_argv u))" v1] obtain sp v2 where
    2: "push_u64 ops (of_nat (length (us_argv u))) (?u1, v1) = (Ok sp, (?u1\<lparr>us_pos := sp\<rparr>, v2))"
    "unat sp = unat p - 8" "mem_at (mem v2) sp (to_ne_bytes (of_nat (length (us_argv u))))"
    "same_above (unat p) (mem v1) (mem v2)"
    by auto
  have "bind (push_vec_u64 ops ?ws) (\<lambda>_ s. push_u64 ops (of_nat (length (us_argv (fst s)))) s) (u, v)
      = (Ok sp, (u\<lparr>us_pos := sp\<rparr>, v2))"
    using 2(1) by (simp add: bind_run [of _ _ "(_, _)"] 1(1) del: push_vec_u64.simps)
  then have run: "bind (push_u64 ops 0) (\<lambda>_. bind (push_vec_u64 ops es) (\<lambda>_. bind (push_u64 ops 0) (\<lambda>_.
       bind (push_vec_u64 ops as) (\<lambda>_ s. push_u64 ops (of_nat (length (us_argv (fst s)))) s)))) (u, v)
     = (Ok sp, (u\<lparr>us_pos := sp\<rparr>, v2))"
    by (simp add: push_vec_append bind_assoc)
  have "unat (us_pos u) \<le> hi" using assms(3) by (simp add: stack_at_def)
  then have "unat p + 8 * length ?ws \<le> 2 ^ 64" using 1(2) assms(2,4) by simp
  from read_words_frames [OF 1(3) read_words_1 [OF 2(3)] 2(4) _ this]
  have "read_words (mem v2) sp (1 + length ?ws) = [of_nat (length (us_argv u))] @ rev ?ws"
    using 1(2) 2(2) assms(4) by simp
  moreover have "length ?ws = length as + length es + 2" by simp
  ultimately have "read_words (mem v2) sp (1 + (length as + length es + 2))
      = [of_nat (length (us_argv u))] @ rev as @ [0] @ rev es @ [0]" by (simp only: rev.simps rev_append) simp
  moreover have "same_above (unat (us_pos u)) (mem v) (mem v2)"
    using 1(2,4) 2(4) by (auto simp: same_above_def)
  ultimately show ?thesis using that run 1(2) 2(2) by simp
qed

text \<open>C17: the initial stack. With room for its \<open>init_size\<close> bytes and an address space that takes writes
  there, \<open>init\<close> succeeds, and the new program finds from its stack pointer upwards the argument
  count, pointers to the arguments in order, pointers to the environment in order and the auxiliary
  vector; every pointer leads to its string with a zero byte after it, inside the stack.\<close>

theorem user_stack_layout:
  assumes "stack_vm ops mem lo hi" and "hi < 2 ^ 64" and "aligns c" and "aux_keys_ok c"
    and "stack_at lo hi u" and "lo + init_size c u \<le> unat (us_pos u)"
  shows "\<exists>sp t argp envp v'. us_init c ops (u, v) = (Ok sp, (u\<lparr>us_pos := sp, us_aux := t\<rparr>, v'))
    \<and> unat sp = unat (us_pos u) - init_size c u
    \<and> length argp = length (us_argv u) \<and> stack_image (mem v') sp argp envp t
    \<and> list_all2 (string_at (mem v') (unat sp) (unat (us_pos u))) (us_argv u) argp
    \<and> list_all2 (string_at (mem v') (unat sp) (unat (us_pos u))) (us_envp u) envp
    \<and> (\<exists>p. unat sp \<le> unat p \<and> aux_image c u (mem v') p (unat (us_pos u)) t)
    \<and> same_above (unat (us_pos u)) (mem v) (mem v')"
proof -
  define A where "A = strings_size (us_argv u)"
  define Ev where "Ev = strings_size (us_envp u)"
  define X where "X = aux_size c u"
  let ?na = "length (us_argv u)" and ?ne = "length (us_envp u)"
  have room: "lo + (Ev + A + X + 8 * (?ne + ?na + 3)) \<le> unat (us_pos u)"
    and size: "init_size c u = Ev + A + X + 8 * (?ne + ?na + 3)"
    using assms(6) by (simp_all add: init_size_def A_def Ev_def X_def)
  have dvd: "8 dvd A" "8 dvd Ev" by (simp_all add: A_def Ev_def)
  note ctx = assms(1-3)
  have "lo + strings_size (rev (us_envp u)) \<le> unat (us_pos u)" using room by (simp flip: Ev_def)
  from push_strs_run [OF ctx assms(5) this, of v] obtain es p1 v1 where
    1: "push_strs c ops (rev (us_envp u)) (u, v) = (Ok es, (u\<lparr>us_pos := p1\<rparr>, v1))" "unat p1 = unat (us_pos u) - Ev"
    "list_all2 (string_at (mem v1) (unat p1) (unat (us_pos u))) (rev (us_envp u)) es"
    "same_above (unat (us_pos u)) (mem v) (mem v1)"
    by (auto simp: Ev_def)
  let ?u1 = "u\<lparr>us_pos := p1\<rparr>"
  have s1: "stack_at lo hi ?u1" using 1(2) room dvd by (intro stack_at_move [OF assms(5), where n = Ev]) simp_all
  have "lo + strings_size (rev (us_argv u)) \<le> unat (us_pos ?u1)" using room 1(2) by (simp flip: A_def)
  from push_strs_run [OF ctx s1 this, of v1] obtain as p2 v2 where
    2: "push_strs c ops (rev (us_argv u)) (?u1, v1) = (Ok as, (?u1\<lparr>us_pos := p2\<rparr>, v2))" "unat p2 = unat p1 - A"
    "list_all2 (string_at (mem v2) (unat p2) (unat p1)) (rev (us_argv u)) as"
    "same_above (unat p1) (mem v1) (mem v2)"
    by (auto simp: A_def)
  let ?u2 = "?u1\<lparr>us_pos := p2\<rparr>"
  have s2: "stack_at lo hi ?u2" using 1(2) 2(2) room dvd by (intro stack_at_move [OF s1, where n = A]) simp_all
  have "lo + aux_size c ?u2 \<le> unat (us_pos ?u2)" using room 1(2) 2(2) by (simp flip: X_def)
  from push_aux_vec_run [OF ctx assms(4) s2 this, of v2] obtain p3 t v3 where
    raw: "push_aux_vec c ops (?u2, v2) = (Ok (), (?u2\<lparr>us_pos := p3, us_aux := t\<rparr>, v3))"
    "unat p3 = unat (us_pos ?u2) - aux_size c ?u2" "aux_image c ?u2 (mem v3) p3 (unat (us_pos ?u2)) t"
    "same_above (unat (us_pos ?u2)) (mem v2) (mem v3)"
    by blast
  then have 3: "unat p3 = unat p2 - X" "aux_image c u (mem v3) p3 (unat p2) t" "same_above (unat p2) (mem v2) (mem v3)"
    by (simp_all add: X_def)
  have lent: "length t = length (with_pointers c 0 0 0 (us_aux u))"
    using 3(2) length_with_pointers unfolding aux_image_def by metis
  then have X: "8 * (2 * length t + 1) \<le> X" "8 dvd X" by (simp_all add: X_def aux_size_def)
  let ?u3 = "?u2\<lparr>us_pos := p3, us_aux := t\<rparr>"
  have "stack_at lo hi (?u2\<lparr>us_pos := p3\<rparr>)"
    using 1(2) 2(2) 3(1) room X by (intro stack_at_move [OF s2, where n = X]) simp_all
  then have s3: "stack_at lo hi ?u3" by simp
  have len: "length es = ?ne" "length as = ?na" using 1(3) 2(3) by (auto dest: list_all2_lengthD)
  have "lo + 8 * (length es + length as + 3) \<le> unat (us_pos ?u3)"
    using room 1(2) 2(2) 3(1) by (simp add: len)
  from push_words_run [OF assms(1,2) s3 this, of v3] obtain sp v4 where
    4: "bind (push_u64 ops 0) (\<lambda>_. bind (push_vec_u64 ops es) (\<lambda>_. bind (push_u64 ops 0) (\<lambda>_.
       bind (push_vec_u64 ops as) (\<lambda>_ s. push_u64 ops (of_nat (length (us_argv (fst s)))) s)))) (?u3, v3)
       = (Ok sp, (?u3\<lparr>us_pos := sp\<rparr>, v4))"
    "unat sp = unat p3 - 8 * (?ne + ?na + 3)"
    "read_words (mem v4) sp (1 + (?na + ?ne + 2)) = [of_nat ?na] @ rev as @ [0] @ rev es @ [0]"
    "same_above (unat p3) (mem v3) (mem v4)"
    by (auto simp: len)
  have run: "us_init c ops (u, v) = (Ok sp, (u\<lparr>us_pos := sp, us_aux := t\<rparr>, v4))"
    using 4(1) unfolding us_init_def push_envp_def push_argv_def
    by (simp add: bind_run [of _ _ "(_, _)"] 1(1) 2(1) [simplified] raw(1) [simplified]
          align_to_run [OF assms(3) s2 [simplified], simplified])
  have le: "unat sp \<le> unat p3" "unat p3 \<le> unat p2" "unat p2 \<le> unat p1" "unat p1 \<le> unat (us_pos u)"
    using 1(2) 2(2) 3(1) 4(2) by simp_all
  have small: "unat (us_pos u) < 2 ^ 64" using unsigned_less [of "us_pos u", where ?'a = nat] by simp
  have small': "unat p1 < 2 ^ 64" and sp2: "unat sp \<le> unat p2" and sp1: "unat sp \<le> unat p1"
    using le small by simp_all
  have s14: "same_above (unat p1) (mem v1) (mem v4)" and s24: "same_above (unat p2) (mem v2) (mem v4)"
    and s04: "same_above (unat (us_pos u)) (mem v) (mem v4)"
    using le 1(4) 2(4) 3(3) 4(4) by (auto simp: same_above_def)
  have p3: "unat p3 + 8 * (2 * length t + 1) \<le> 2 ^ 64"
    using 3(1) X(1) le small 1(2) 2(2) room by simp
  have aux: "aux_image c u (mem v4) p3 (unat (us_pos u)) t"
    by (rule aux_image_same_above [OF 3(2) 4(4)]) (use le small p3 in simp_all)
  have "read_words (mem v4) sp (1 + (?na + ?ne + 2) + (2 * length t + 1))
      = ([of_nat ?na] @ rev as @ [0] @ rev es @ [0]) @ (concat (map (\<lambda>(key, val). [key, val]) (rev t)) @ [0])"
  proof (rule read_words_frames [OF _ 4(3) same_above_refl])
    show "read_words (mem v4) p3 (2 * length t + 1) = concat (map (\<lambda>(key, val). [key, val]) (rev t)) @ [0]"
      using aux unfolding aux_image_def by blast
    show "unat p3 = unat sp + 8 * (1 + (?na + ?ne + 2))"
      using 4(2) 1(2) 2(2) 3(1) room by simp
  qed (rule p3)
  then have img: "stack_image (mem v4) sp (rev as) (rev es) t" by (simp add: stack_image_def len)
  have "list_all2 (string_at (mem v4) (unat sp) (unat (us_pos u))) (rev (us_argv u)) as"
    by (rule list_all2_mono [OF 2(3)]) (rule string_at_same_above [OF _ s24 le_refl small' sp2 le(4)])
  then have argv: "list_all2 (string_at (mem v4) (unat sp) (unat (us_pos u))) (us_argv u) (rev as)"
    by (metis list_all2_rev rev_rev_ident)
  have "list_all2 (string_at (mem v4) (unat sp) (unat (us_pos u))) (rev (us_envp u)) es"
    by (rule list_all2_mono [OF 1(3)]) (rule string_at_same_above [OF _ s14 le_refl small sp1 le_refl])
  then have envp: "list_all2 (string_at (mem v4) (unat sp) (unat (us_pos u))) (us_envp u) (rev es)"
    by (metis list_all2_rev rev_rev_ident)
  have sp: "unat sp = unat (us_pos u) - init_size c u"
    using 1(2) 2(2) 3(1) 4(2) by (simp add: size)
  show ?thesis
    using run sp img argv envp aux le s04 len by (intro exI [of _ sp] exI [of _ t] exI [of _ "rev as"] exI [of _ "rev es"] exI [of _ v4]) auto
qed

definition flat_ops :: "(usize \<Rightarrow> u8) vm_ops" where
  "flat_ops = \<lparr> vm_new = (\<lambda>_. 0), vm_map = (\<lambda>_ v. (Inr (), v)), vm_unmap = (\<lambda>_ v. (Inr (), v)),
     vm_protect = (\<lambda>_ _ _ v. (Inr (), v)), vm_query = (\<lambda>a v. Inr (a, 0)),
     vm_read_bytes = (\<lambda>a n v. Inr (user_bytes v a n)),
     vm_write_bytes = (\<lambda>a bs v. (Inr (), \<lambda>x. if unat a \<le> unat x \<and> unat x < unat a + length bs
        then bs ! (unat x - unat a) else v x)) \<rparr>"

definition sample_stack :: stack_cfg where
  "sample_stack = \<lparr> USER_STACK_SIZE = 0x1000, SC_FRAME_SIZE = 0x1000, align_down = (\<lambda>a n. a - a mod n), AT_IGNORE = 1,
     AT_PHDR = 3, AT_PHENT = 4, AT_PHNUM = 5, AT_PAGESZ = 6, AT_BASE = 7, AT_ENTRY = 9, AT_IDS = [11, 12, 13, 14, 23],
     AT_PLATFORM = 15, AT_EXECFN = 31, AT_RANDOM = 25, platform_str = [114, 105, 115, 99, 118] \<rparr>"

lemma flat_stack_vm: "stack_vm flat_ops (\<lambda>v. v) lo hi"
  by (simp add: stack_vm_def flat_ops_def)

lemma sample_stack_ok: "aligns sample_stack" "aux_keys_ok sample_stack"
proof -
  have "unat (a - a mod 8) = 8 * (unat a div 8)" for a :: usize
  proof -
    have "a mod 8 \<le> a" by (simp add: word_le_nat_alt unat_mod)
    then have "unat (a - a mod 8) = unat a - unat a mod 8" by (subst unat_sub) (simp_all add: unat_mod)
    then show ?thesis by (simp only: minus_mod_eq_mult_div)
  qed
  then show "aligns sample_stack" by (simp add: aligns_def sample_stack_def)
  show "aux_keys_ok sample_stack" by (simp add: aux_keys_ok_def sample_stack_def)
qed

theorem user_stack_layout_witness:
  "\<exists>sp t argp envp v'. fst (us_init sample_stack flat_ops (us_new sample_stack 0x3000 [[108, 115], [97]] [] bt_empty [108, 115], \<lambda>_. 0)) = Ok sp
    \<and> unat sp = 0x3000 - 152 \<and> length argp = 2 \<and> stack_image v' sp argp envp t
    \<and> list_all2 (string_at v' (unat sp) 0x3000) [[108, 115], [97]] argp"
proof -
  let ?u = "us_new sample_stack 0x3000 [[108, 115], [97]] [] bt_empty [108, 115]"
  have at: "stack_at 0x2000 0x3000 ?u"
    by (simp add: stack_at_def stack_low_def us_new_def sample_stack_def)
  have size: "init_size sample_stack ?u = 152"
    by (simp add: init_size_def aux_size_def us_new_def sample_stack_def with_pointers_def round8_def bt_empty_def)
  have "0x2000 + init_size sample_stack ?u \<le> unat (us_pos ?u)" unfolding size by (simp add: us_new_def)
  from user_stack_layout [OF flat_stack_vm _ sample_stack_ok at this, of "\<lambda>_. 0"]
  obtain sp t argp envp v' where r: "us_init sample_stack flat_ops (?u, \<lambda>_. 0) = (Ok sp, (?u\<lparr>us_pos := sp, us_aux := t\<rparr>, v'))"
    "unat sp = unat (us_pos ?u) - init_size sample_stack ?u" "length argp = length (us_argv ?u)" "stack_image v' sp argp envp t"
    "list_all2 (string_at v' (unat sp) (unat (us_pos ?u))) (us_argv ?u) argp"
    by auto
  have "unat (us_pos ?u) = 0x3000" "us_argv ?u = [[108, 115], [97]]" by (simp_all add: us_new_def)
  with r size show ?thesis by (intro exI [of _ sp] exI [of _ t] exI [of _ argp] exI [of _ envp] exI [of _ v']) simp
qed

text \<open>The bound is checked before the position moves: at the lower end a word is written below the
  stack.\<close>

lemma push_u64_below:
  assumes "us_pos u = stack_low u" and "vm_write_bytes ops (stack_low u - 8) (to_ne_bytes d) v = (Inr (), v')"
  shows "push_u64 ops d (u, v) = (Ok (stack_low u - 8), (u\<lparr>us_pos := stack_low u - 8\<rparr>, v'))"
  using assms by (simp add: push_u64_def us_write_def)

end
