(* ===== verification/Elf.thy ===== *)
theory Elf
  imports UserStack
begin

text \<open>
  The program loader: \<open>common/task/task/src/elf.rs\<close> and the relocation and mapping code of
  \<open>common/task/task/src/arch\<close> for both targets. The parser (crate \<open>xmas_elf\<close>) is a parameter; its
  result is the record \<open>elf_file\<close>, with a section or name that it cannot decode as a value of its own.
  Loading works on the address space alone; \<open>build_vm_space\<close> also reads the interpreter through the
  VFS domain.
\<close>

unbundle bit_operations_syntax

section \<open>Parsed files\<close>

datatype seg_type = Seg_Load | Seg_Interp | Seg_Tls | Seg_Phdr | Seg_Other

record program_header =
  ph_type :: "seg_type option"            \<comment> \<open>\<open>get_type()\<close>; \<open>None\<close> is its error\<close>
  ph_vaddr :: u64
  ph_mem_size :: u64
  ph_offset :: u64
  ph_file_size :: u64
  ph_flags :: "bool \<times> bool \<times> bool"       \<comment> \<open>readable, writable, executable\<close>
  ph_data :: "u8 list option option"      \<comment> \<open>\<open>get_data()\<close>; \<open>Some (Some d)\<close> is \<open>SegmentData::Undefined(d)\<close>\<close>

datatype elf_type = Elf_Executable | Elf_SharedObject | Elf_Other

datatype 'a elf_section = NoSection | BadSection | OtherSection | Section "'a list"

record rela =
  rl_type :: u32
  rl_symbol :: nat
  rl_addend :: usize
  rl_offset :: usize

record dynsym =
  ds_shndx :: "16 word"
  ds_name_ok :: bool
  ds_value :: usize

record elf_file =
  ef_type :: elf_type
  ef_phs :: "program_header list"
  ef_entry :: u64
  ef_ph_count :: u64
  ef_ph_entry_size :: u64
  ef_ph_offset :: u64
  ef_input :: "u8 list"
  ef_rela_dyn :: "rela elf_section"
  ef_rela_plt :: "rela elf_section"
  ef_dynsym :: "dynsym elf_section"

section \<open>Relocation\<close>

text \<open>\<open>find_section_by_name(..).unwrap().get_data(elf).unwrap()\<close> and the match on its kind; \<open>.rela.plt\<close>
  is looked up without a panic.\<close>

definition section_unwrap :: "'a elf_section \<Rightarrow> 'a list res" where
  "section_unwrap x = (case x of Section es \<Rightarrow> Ok es | OtherSection \<Rightarrow> Err EINVAL | _ \<Rightarrow> panic)"

definition section_try :: "'a elf_section \<Rightarrow> 'a list res" where
  "section_try x = (case x of Section es \<Rightarrow> Ok es | _ \<Rightarrow> Err EINVAL)"

text \<open>The value of a symbol: out of range and undefined ones are a panic, an undefined one whose name
  cannot be read is an error.\<close>

definition find_symbol :: "dynsym list \<Rightarrow> nat \<Rightarrow> usize res" where
  "find_symbol syms i =
     (if i \<ge> length syms then panic
      else let s = syms ! i in
        if ds_shndx s = 0 then (if ds_name_ok s then panic else Err EINVAL) else Ok (ds_value s))"

fun res_map :: "('a \<Rightarrow> 'b res) \<Rightarrow> 'a list \<Rightarrow> 'b list res" where
  "res_map f [] = Ok []"
| "res_map f (x # xs) = (case f x of Inl e \<Rightarrow> Inl e | Inr y \<Rightarrow>
     (case res_map f xs of Inl e \<Rightarrow> Inl e | Inr ys \<Rightarrow> Ok (y # ys)))"

definition reloc_symbolic :: "dynsym list \<Rightarrow> usize \<Rightarrow> rela \<Rightarrow> (usize \<times> usize) res" where
  "reloc_symbolic syms bias e =
     (case find_symbol syms (rl_symbol e) of Inl x \<Rightarrow> Inl x
      | Inr v \<Rightarrow> Ok (bias + rl_offset e, bias + v + rl_addend e))"

definition reloc_relative :: "usize \<Rightarrow> rela \<Rightarrow> (usize \<times> usize) res" where
  "reloc_relative bias e = Ok (bias + rl_offset e, bias + rl_addend e)"

definition reloc_plt :: "dynsym list \<Rightarrow> usize \<Rightarrow> rela \<Rightarrow> (usize \<times> usize) res" where
  "reloc_plt syms bias e =
     (case find_symbol syms (rl_symbol e) of Inl x \<Rightarrow> Inl x
      | Inr v \<Rightarrow> Ok (bias + rl_offset e, bias + v))"

definition riscv64_relocate_dyn :: "elf_file \<Rightarrow> usize \<Rightarrow> (usize \<times> usize) list res" where
  "riscv64_relocate_dyn elf bias =
     (case section_unwrap (ef_rela_dyn elf) of Inl e \<Rightarrow> Inl e | Inr entries \<Rightarrow>
      (case section_unwrap (ef_dynsym elf) of Inl e \<Rightarrow> Inl e | Inr syms \<Rightarrow>
       res_map (\<lambda>e. if rl_type e = 2 then reloc_symbolic syms bias e
                    else if rl_type e = 3 then reloc_relative bias e else panic) entries))"

definition riscv64_relocate_plt :: "elf_file \<Rightarrow> usize \<Rightarrow> (usize \<times> usize) list res" where
  "riscv64_relocate_plt elf bias =
     (case section_try (ef_rela_plt elf) of Inl e \<Rightarrow> Inl e | Inr entries \<Rightarrow>
      (case section_unwrap (ef_dynsym elf) of Inl e \<Rightarrow> Inl e | Inr syms \<Rightarrow>
       res_map (\<lambda>e. if rl_type e = 5 then reloc_plt syms bias e else panic) entries))"

definition x86_64_relocate_dyn :: "elf_file \<Rightarrow> usize \<Rightarrow> (usize \<times> usize) list res" where
  "x86_64_relocate_dyn elf bias =
     (case section_unwrap (ef_rela_dyn elf) of Inl e \<Rightarrow> Inl e | Inr entries \<Rightarrow>
      (case section_unwrap (ef_dynsym elf) of Inl e \<Rightarrow> Inl e | Inr syms \<Rightarrow>
       res_map (\<lambda>e. if rl_type e = 1 \<or> rl_type e = 6 \<or> rl_type e = 7 then reloc_symbolic syms bias e
                    else if rl_type e = 8 then reloc_relative bias e else panic) entries))"

definition x86_64_relocate_plt :: "elf_file \<Rightarrow> usize \<Rightarrow> (usize \<times> usize) list res" where
  "x86_64_relocate_plt elf bias =
     (case section_try (ef_rela_plt elf) of Inl e \<Rightarrow> Inl e | Inr entries \<Rightarrow>
      (case section_unwrap (ef_dynsym elf) of Inl e \<Rightarrow> Inl e | Inr syms \<Rightarrow>
       res_map (\<lambda>e. if rl_type e = 7 then reloc_plt syms bias e else panic) entries))"

section \<open>Configuration\<close>

record 'v elf_cfg =
  ec_mm :: mm_cfg
  ec_parse :: "u8 list \<Rightarrow> elf_file option"               \<comment> \<open>\<open>ElfFile::new\<close>\<close>
  ec_utf8 :: "u8 list \<Rightarrow> bool"
  ELF_BASE_RELOCATE :: usize
  ec_USER_STACK_SIZE :: usize
  TRAP_CONTEXT_BASE :: usize
  TRAMPOLINE :: usize
  PERCPU_MIRROR_BASE :: usize
  ec_kernel_paddr :: "usize \<Rightarrow> usize option"              \<comment> \<open>\<open>vaddr_to_paddr_in_kernel\<close>\<close>

text \<open>The part that differs between the targets.\<close>

record 'v arch_ops =
  ar_validate_interp_path :: "u8 list \<Rightarrow> bool"
  ar_relocate_dyn :: "elf_file \<Rightarrow> usize \<Rightarrow> (usize \<times> usize) list res"
  ar_relocate_plt :: "elf_file \<Rightarrow> usize \<Rightarrow> (usize \<times> usize) list res"
  ar_map_extra_user_regions :: "('v, unit) act"

definition paging_err_to_alien :: "paging_error \<Rightarrow> errno" where
  "paging_err_to_alien err = (case err of NoMemory \<Rightarrow> ENOMEM | _ \<Rightarrow> EINVAL)"

text \<open>A call on the address space with its error mapped, or unwrapped.\<close>

definition vm_try :: "('v, 'a) vm_call \<Rightarrow> ('v, 'a) act" where
  "vm_try f v = (case f v of (Inl e, v') \<Rightarrow> (Err (paging_err_to_alien e), v') | (Inr x, v') \<Rightarrow> (Ok x, v'))"

definition vm_unwrap :: "('v, 'a) vm_call \<Rightarrow> ('v, 'a) act" where
  "vm_unwrap f v = (case f v of (Inl e, v') \<Rightarrow> (panic, v') | (Inr x, v') \<Rightarrow> (Ok x, v'))"

definition map_area :: "'v vm_ops \<Rightarrow> usize \<Rightarrow> usize \<Rightarrow> u64 \<Rightarrow> frame list \<Rightarrow> ('v, unit) vm_call" where
  "map_area ops a b perm frames = vm_map ops \<lparr> va_start = a, va_end = b, va_flags = perm, va_frames = frames \<rparr>"

text \<open>\<open>x86_64\<close> maps the mirror of the per-cpu area and the start of the kernel; a range is mapped up to the
  first page the kernel has not mapped itself.\<close>

fun mapped_prefix :: "(usize \<Rightarrow> usize option) \<Rightarrow> usize \<Rightarrow> usize list \<Rightarrow> frame list" where
  "mapped_prefix paddr step [] = []"
| "mapped_prefix paddr step (va # vas) = (case paddr va of None \<Rightarrow> []
     | Some pa \<Rightarrow> ProxyFrame pa (pa + step) # mapped_prefix paddr step vas)"

definition x86_64_map_range :: "'v elf_cfg \<Rightarrow> 'v vm_ops \<Rightarrow> usize \<Rightarrow> usize \<Rightarrow> ('v, unit) act" where
  "x86_64_map_range c ops base size' =
     (let F = FRAME_SIZE (ec_mm c);
          frames = mapped_prefix (ec_kernel_paddr c) F (map ((+) base) (page_steps 0 size' F))
      in if frames = [] then ret ()
         else vm_try (map_area ops base (base + of_nat (length frames) * F)
                (MF_READ (ec_mm c) OR MF_WRITE (ec_mm c)) frames))"

definition x86_64_map_extra_user_regions :: "'v elf_cfg \<Rightarrow> 'v vm_ops \<Rightarrow> ('v, unit) act" where
  "x86_64_map_extra_user_regions c ops =
     bind (x86_64_map_range c ops (PERCPU_MIRROR_BASE c) 0x20000) (\<lambda>_.
     x86_64_map_range c ops 0x200000 0xA00000)"

definition starts_with :: "'a list \<Rightarrow> 'a list \<Rightarrow> bool" where
  "starts_with p xs \<longleftrightarrow> take (length p) xs = p"

text \<open>\<open>"/lib/ld-musl-riscv64"\<close> and \<open>"/lib/ld-musl-x86_64"\<close>.\<close>

definition riscv64_arch :: "'v elf_cfg \<Rightarrow> 'v vm_ops \<Rightarrow> 'v arch_ops" where
  "riscv64_arch c ops =
     \<lparr> ar_validate_interp_path = starts_with
         [47,108,105,98,47,108,100,45,109,117,115,108,45,114,105,115,99,118,54,52],
       ar_relocate_dyn = riscv64_relocate_dyn, ar_relocate_plt = riscv64_relocate_plt,
       ar_map_extra_user_regions = ret () \<rparr>"

definition x86_64_arch :: "'v elf_cfg \<Rightarrow> 'v vm_ops \<Rightarrow> 'v arch_ops" where
  "x86_64_arch c ops =
     \<lparr> ar_validate_interp_path = starts_with
         [47,108,105,98,47,108,100,45,109,117,115,108,45,120,56,54,95,54,52],
       ar_relocate_dyn = x86_64_relocate_dyn, ar_relocate_plt = x86_64_relocate_plt,
       ar_map_extra_user_regions = x86_64_map_extra_user_regions c ops \<rparr>"

section \<open>Loading the segments\<close>

text \<open>\<open>filter(|ph| ph.get_type().unwrap() == t).count()\<close> and \<open>find\<close> with the same test.\<close>

fun count_type :: "seg_type \<Rightarrow> program_header list \<Rightarrow> nat res" where
  "count_type t [] = Ok 0"
| "count_type t (ph # phs) = (case ph_type ph of None \<Rightarrow> panic
     | Some t' \<Rightarrow> (case count_type t phs of Inl e \<Rightarrow> Inl e | Inr n \<Rightarrow> Ok (if t' = t then n + 1 else n)))"

fun find_type :: "seg_type \<Rightarrow> program_header list \<Rightarrow> program_header option res" where
  "find_type t [] = Ok None"
| "find_type t (ph # phs) = (case ph_type ph of None \<Rightarrow> panic
     | Some t' \<Rightarrow> (if t' = t then Ok (Some ph) else find_type t phs))"

definition calculate_bias :: "'v elf_cfg \<Rightarrow> elf_file \<Rightarrow> usize res" where
  "calculate_bias c elf =
     (case ef_type elf of
        Elf_Executable \<Rightarrow> Ok 0
      | Elf_SharedObject \<Rightarrow>
          (case count_type Seg_Interp (ef_phs elf) of Inl e \<Rightarrow> Inl e
           | Inr n \<Rightarrow> if n = 0 then Ok (ELF_BASE_RELOCATE c) else if n = 1 then Ok 0 else Err ENOSYS)
      | Elf_Other \<Rightarrow> Err ENOSYS)"

record load_info =
  li_start :: usize
  li_end :: usize
  li_perm :: u64
  li_offset :: usize
  li_file_size :: usize

definition load_info_of :: "mm_cfg \<Rightarrow> usize \<Rightarrow> program_header \<Rightarrow> load_info" where
  "load_info_of m bias ph =
     (case ph_flags ph of (r, w, x) \<Rightarrow>
      \<lparr> li_start = ph_vaddr ph + bias, li_end = ph_vaddr ph + bias + ph_mem_size ph,
        li_perm = MF_USER m OR (if r then MF_READ m else 0) OR (if w then MF_WRITE m else 0)
                  OR (if x then MF_EXECUTE m else 0),
        li_offset = ph_offset ph, li_file_size = ph_file_size ph \<rparr>)"

definition collect_load_info :: "mm_cfg \<Rightarrow> elf_file \<Rightarrow> usize \<Rightarrow> load_info list" where
  "collect_load_info m elf bias =
     map (load_info_of m bias) (filter (\<lambda>ph. ph_type ph = Some Seg_Load) (ef_phs elf))"

definition saturating_sub :: "usize \<Rightarrow> usize \<Rightarrow> usize" where
  "saturating_sub a b = (if b \<le> a then a - b else 0)"

definition saturating_add :: "usize \<Rightarrow> usize \<Rightarrow> usize" where
  "saturating_add a b = (if unat a + unat b < 2 ^ 64 then a + b else - 1)"

text \<open>A page of a segment: mapped with a fresh frame, or its permissions extended.\<close>

definition ensure_page :: "mm_cfg \<Rightarrow> 'v vm_ops \<Rightarrow> u64 \<Rightarrow> usize \<Rightarrow> ('v, unit) act" where
  "ensure_page m ops perm page = (\<lambda>v.
     case vm_query ops page v of
       Inr (_, old_permission) \<Rightarrow>
         (if old_permission OR perm \<noteq> old_permission
          then vm_try (vm_protect ops page (page + FRAME_SIZE m) (old_permission OR perm)) v
          else ret () v)
     | Inl NotMapped \<Rightarrow> vm_try (map_area ops page (page + FRAME_SIZE m) perm [NewFrame]) v
     | Inl err \<Rightarrow> fail (paging_err_to_alien err) v)"

text \<open>Its part of the file data is copied; the result is the number of bytes.\<close>

definition copy_page :: "mm_cfg \<Rightarrow> 'v vm_ops \<Rightarrow> load_info \<Rightarrow> u8 list \<Rightarrow> usize \<Rightarrow> usize \<Rightarrow> ('v, nat) act" where
  "copy_page m ops sec data seg_file_end page =
     (let copy_start = max page (li_start sec); copy_end = min (page + FRAME_SIZE m) seg_file_end in
      if copy_start < copy_end then
        let src_offset = unat (copy_start - li_start sec); len = unat (copy_end - copy_start) in
        if src_offset + len \<le> length data
        then bind (vm_try (vm_write_bytes ops copy_start (slice src_offset len data))) (\<lambda>_. ret len)
        else abort
      else ret 0)"

fun load_pages :: "mm_cfg \<Rightarrow> 'v vm_ops \<Rightarrow> load_info \<Rightarrow> u8 list \<Rightarrow> usize \<Rightarrow> usize list \<Rightarrow> nat \<Rightarrow> ('v, nat) act" where
  "load_pages m ops sec data seg_file_end [] copied = ret copied"
| "load_pages m ops sec data seg_file_end (page # pages) copied =
     bind (ensure_page m ops (li_perm sec) page) (\<lambda>_.
     bind (copy_page m ops sec data seg_file_end page) (\<lambda>n.
     load_pages m ops sec data seg_file_end pages (copied + n)))"

definition load_section :: "mm_cfg \<Rightarrow> 'v vm_ops \<Rightarrow> u8 list \<Rightarrow> load_info \<Rightarrow> ('v, unit) act" where
  "load_section m ops input sec =
     (let vaddr = align_down_4k m (li_start sec); end_vaddr = align_up_4k m (li_end sec) in
      if li_file_size sec > saturating_sub (li_end sec) (li_start sec) then fail EINVAL
      else let data_end = saturating_add (li_offset sec) (li_file_size sec) in
      if unat data_end > length input then fail EINVAL
      else let data = slice (unat (li_offset sec)) (unat data_end - unat (li_offset sec)) input;
               seg_file_end = saturating_add (li_start sec) (li_file_size sec) in
        bind (load_pages m ops sec data seg_file_end (page_steps vaddr end_vaddr (FRAME_SIZE m)) 0) (\<lambda>copied.
        if copied \<noteq> unat (li_file_size sec) then fail EINVAL else ret ()))"

fun load_sections :: "mm_cfg \<Rightarrow> 'v vm_ops \<Rightarrow> u8 list \<Rightarrow> load_info list \<Rightarrow> usize \<Rightarrow> ('v, usize) act" where
  "load_sections m ops input [] break_addr = ret break_addr"
| "load_sections m ops input (sec # secs) break_addr =
     bind (load_section m ops input sec) (\<lambda>_.
     load_sections m ops input secs (max break_addr (li_end sec)))"

definition load_to_vm_space :: "mm_cfg \<Rightarrow> 'v vm_ops \<Rightarrow> elf_file \<Rightarrow> usize \<Rightarrow> ('v, usize) act" where
  "load_to_vm_space m ops elf bias = load_sections m ops (ef_input elf) (collect_load_info m elf bias) 0"

section \<open>Building an address space\<close>

text \<open>The relocations are written with their errors unwrapped; a table that cannot be read is skipped.\<close>

fun write_relocs :: "'v vm_ops \<Rightarrow> (usize \<times> usize) list \<Rightarrow> ('v, unit) act" where
  "write_relocs ops [] = ret ()"
| "write_relocs ops ((addr, val) # kvs) =
     bind (vm_unwrap (vm_write_bytes ops addr (to_ne_bytes val))) (\<lambda>_. write_relocs ops kvs)"

definition apply_relocs :: "'v vm_ops \<Rightarrow> (usize \<times> usize) list res \<Rightarrow> ('v, unit) act" where
  "apply_relocs ops r = (case r of Inr kvs \<Rightarrow> write_relocs ops kvs | Inl (Errno _) \<Rightarrow> ret () | Inl Panic \<Rightarrow> abort)"

text \<open>Where the program headers are in memory.\<close>

definition phdr_addr :: "elf_file \<Rightarrow> u64" where
  "phdr_addr elf =
     (case find (\<lambda>ph. ph_type ph = Some Seg_Phdr) (ef_phs elf) of
        Some ph \<Rightarrow> ph_vaddr ph
      | None \<Rightarrow> (case find (\<lambda>ph. ph_type ph = Some Seg_Load \<and> ph_offset ph = 0) (ef_phs elf) of
            Some ph \<Rightarrow> ph_vaddr ph + ef_ph_offset elf
          | None \<Rightarrow> 0))"

text \<open>The stack, the trap context and the trampoline.\<close>

definition map_fixed_areas :: "'v elf_cfg \<Rightarrow> 'v vm_ops \<Rightarrow> 'v arch_ops \<Rightarrow> usize \<Rightarrow> ('v, unit) act" where
  "map_fixed_areas c ops ar user_stack_low =
     (let m = ec_mm c; F = FRAME_SIZE m in
      bind (vm_try (map_area ops user_stack_low (user_stack_low + ec_USER_STACK_SIZE c)
        (MF_USER m OR MF_READ m OR MF_WRITE m) (replicate (unat (ec_USER_STACK_SIZE c div F)) NewFrame))) (\<lambda>_.
      bind (vm_try (map_area ops (TRAP_CONTEXT_BASE c) (TRAP_CONTEXT_BASE c + F)
        (MF_USER m OR MF_READ m OR MF_WRITE m) [NewFrame])) (\<lambda>_.
      bind (vm_try (map_area ops (TRAMPOLINE c) (TRAMPOLINE c + F)
        (MF_READ m OR MF_EXECUTE m) [TrampolineFrame])) (\<lambda>_.
      ar_map_extra_user_regions ar))))"

text \<open>The part after the interpreter, which works on a new address space only.\<close>

definition load_program :: "'v elf_cfg \<Rightarrow> 'v vm_ops \<Rightarrow> 'v arch_ops \<Rightarrow> elf_file \<Rightarrow> u8 list \<Rightarrow> 'v elf_info res" where
  "load_program c ops ar elf name =
     (let m = ec_mm c; F = FRAME_SIZE m in
      case calculate_bias c elf of Inl e \<Rightarrow> Inl e | Inr bias \<Rightarrow>
      (case find_type Seg_Tls (ef_phs elf) of Inl e \<Rightarrow> Inl e | Inr tls_ph \<Rightarrow>
       let tls = (case tls_ph of None \<Rightarrow> bias | Some ph \<Rightarrow> ph_vaddr ph) in
       (case bind (load_to_vm_space m ops elf bias) (\<lambda>break_addr.
              let user_stack_low = align_up_4k m (break_addr + F) + F in
              bind (map_fixed_areas c ops ar user_stack_low) (\<lambda>_.
              bind (if bias \<noteq> 0 then
                      bind (apply_relocs ops (ar_relocate_dyn ar elf bias)) (\<lambda>_.
                      apply_relocs ops (ar_relocate_plt ar elf bias))
                    else ret ()) (\<lambda>_.
              ret (user_stack_low + ec_USER_STACK_SIZE c)))) (vm_new ops) of
          (Inl e, _) \<Rightarrow> Inl e
        | (Inr user_stack_top, address_space) \<Rightarrow>
            Ok \<lparr> ei_address_space = address_space, ei_entry = ef_entry elf + bias,
                 ei_stack_top = user_stack_top, ei_heap_bottom = user_stack_top,
                 ei_ph_num = ef_ph_count elf, ei_ph_entry_size = ef_ph_entry_size elf,
                 ei_ph_drift = phdr_addr elf + bias, ei_tls = tls, ei_bias = bias, ei_name = name \<rparr>)))"

text \<open>
  A file with an interpreter is replaced by \<open>libc.so\<close>, with its name put in front of the arguments.
  The interpreter of the interpreter is looked up in the same way: \<open>fuel\<close> bounds the depth of that
  recursion, which is 2 unless \<open>libc.so\<close> itself names an interpreter; then the recursion does not
  end (a stack overflow, \<open>panic\<close>). The result holds the arguments as they are left.
\<close>

definition LIBC_NAME :: "u8 list" where
  "LIBC_NAME = [108, 105, 98, 99, 46, 115, 111]"

fun build_vm_space :: "nat \<Rightarrow> 'v elf_cfg \<Rightarrow> 'v vm_ops \<Rightarrow> 'v arch_ops \<Rightarrow> (u8 list \<Rightarrow> ('w, u8 list option) act)
    \<Rightarrow> u8 list \<Rightarrow> u8 list list \<Rightarrow> u8 list \<Rightarrow> ('w, 'v elf_info \<times> u8 list list) act" where
  "build_vm_space 0 c ops ar read_all elf args name = abort"
| "build_vm_space (Suc fuel) c ops ar read_all elf args name =
     (case ec_parse c elf of
        None \<Rightarrow> fail EINVAL
      | Some elf \<Rightarrow>
          (case find_type Seg_Interp (ef_phs elf) of
             Inl e \<Rightarrow> lift (Inl e)
           | Inr (Some interp) \<Rightarrow>
               (case ph_data interp of
                  None \<Rightarrow> abort
                | Some None \<Rightarrow> fail EINVAL
                | Some (Some data) \<Rightarrow>
                    if \<not> ec_utf8 c data \<or> \<not> ar_validate_interp_path ar data then abort
                    else bind (read_all LIBC_NAME) (\<lambda>file. case file of
                           None \<Rightarrow> abort
                         | Some bytes \<Rightarrow>
                             build_vm_space fuel c ops ar read_all bytes ((47 # LIBC_NAME @ [0]) # args) LIBC_NAME))
           | Inr None \<Rightarrow> bind (lift (load_program c ops ar elf name)) (\<lambda>info. ret (info, args))))"

section \<open>Cloning an address space\<close>

text \<open>The areas of an address space, as \<open>area_iter\<close> enumerates them; the contents of one are named by a
  handle, with which \<open>clone_with\<close> copies it.\<close>

datatype area_view = AreaView usize usize nat | AreaEqualView nat

record 'v clone_ops =
  co_areas :: "'v \<Rightarrow> area_view list"
  co_clone_with :: "'v \<Rightarrow> nat \<Rightarrow> frame list \<Rightarrow> vm_area"
  co_map_equal :: "'v \<Rightarrow> nat \<Rightarrow> ('v, unit) vm_call"
  co_trampoline_vaddr :: usize

fun clone_areas :: "'v elf_cfg \<Rightarrow> 'v vm_ops \<Rightarrow> 'v clone_ops \<Rightarrow> 'v \<Rightarrow> area_view list \<Rightarrow> ('v, unit) act" where
  "clone_areas c ops co vm_space [] = ret ()"
| "clone_areas c ops co vm_space (ty # tys) =
     bind (case ty of
             AreaView start size' h \<Rightarrow>
               (let m = ec_mm c; F = FRAME_SIZE m in
                if start = co_trampoline_vaddr co
                then vm_unwrap (map_area ops (TRAMPOLINE c) (TRAMPOLINE c + F) (MF_READ m OR MF_EXECUTE m) [TrampolineFrame])
                else vm_unwrap (vm_map ops (co_clone_with co vm_space h (replicate (unat (size' div F)) NewFrame))))
           | AreaEqualView h \<Rightarrow> vm_unwrap (co_map_equal co vm_space h))
       (\<lambda>_. clone_areas c ops co vm_space tys)"

definition clone_vm_space :: "'v elf_cfg \<Rightarrow> 'v vm_ops \<Rightarrow> 'v clone_ops \<Rightarrow> 'v \<Rightarrow> 'v res" where
  "clone_vm_space c ops co vm_space =
     (case clone_areas c ops co vm_space (co_areas co vm_space) (vm_new ops) of
        (Inl e, _) \<Rightarrow> Inl e | (Inr _, space) \<Rightarrow> Ok space)"

text \<open>The trap context page of a further thread, a copy of the first one.\<close>

definition extend_thread_vm_space :: "'v elf_cfg \<Rightarrow> 'v vm_ops \<Rightarrow> nat \<Rightarrow> ('v, unit) act" where
  "extend_thread_vm_space c ops thread_num =
     (let m = ec_mm c; F = FRAME_SIZE m; address = TRAP_CONTEXT_BASE c - F * of_nat thread_num in
      bind (assert_that (thread_num > 0)) (\<lambda>_.
      bind (vm_unwrap (map_area ops address (address + F) (MF_USER m OR MF_READ m OR MF_WRITE m) [NewFrame])) (\<lambda>_.
      bind (\<lambda>v. case vm_read_bytes ops (TRAP_CONTEXT_BASE c) (unat F) v of
              Inl _ \<Rightarrow> (panic, v) | Inr bs \<Rightarrow> (Ok bs, v)) (\<lambda>old_trampoline_buf.
      vm_unwrap (vm_write_bytes ops address old_trampoline_buf)))))"

section \<open>Pages of an address space\<close>

text \<open>An address space seen through its permissions and its bytes: what the loader relies on. A page is
  mapped as a whole; a fresh frame is zero.\<close>

definition same_page :: "usize \<Rightarrow> usize \<Rightarrow> bool" where
  "same_page a p \<longleftrightarrow> unat a div 4096 = unat p div 4096"

definition loader_law :: "'v vm_ops \<Rightarrow> ('v \<Rightarrow> usize \<Rightarrow> u64 option) \<Rightarrow> ('v \<Rightarrow> usize \<Rightarrow> u8) \<Rightarrow> bool" where
  "loader_law ops perm mem \<longleftrightarrow> (\<forall>v.
     (\<forall>a b. same_page a b \<longrightarrow> perm v a = perm v b)
     \<and> (\<forall>p. 4096 dvd unat p \<longrightarrow>
         (case perm v p of
            None \<Rightarrow> vm_query ops p v = Inl NotMapped \<and>
              (\<forall>fl. \<exists>v'. map_area ops p (p + 4096) fl [NewFrame] v = (Inr (), v')
                 \<and> perm v' = (\<lambda>a. if same_page a p then Some fl else perm v a)
                 \<and> mem v' = (\<lambda>a. if same_page a p then 0 else mem v a))
          | Some old \<Rightarrow> (\<exists>pa. vm_query ops p v = Inr (pa, old)) \<and>
              (\<forall>fl. \<exists>v'. vm_protect ops p (p + 4096) fl v = (Inr (), v')
                 \<and> perm v' = (\<lambda>a. if same_page a p then Some fl else perm v a) \<and> mem v' = mem v)))
     \<and> (\<forall>a bs. unat a mod 4096 + length bs \<le> 4096 \<longrightarrow> perm v a \<noteq> None \<longrightarrow>
         (\<exists>v'. vm_write_bytes ops a bs v = (Inr (), v') \<and> perm v' = perm v
            \<and> mem v' = (\<lambda>x. if unat a \<le> unat x \<and> unat x < unat a + length bs then bs ! (unat x - unat a) else mem v x))))"

lemma loader_lawD:
  assumes "loader_law ops perm mem"
  shows "same_page a b \<Longrightarrow> perm v a = perm v b"
    "4096 dvd unat p \<Longrightarrow> perm v p = None \<Longrightarrow> vm_query ops p v = Inl NotMapped \<and>
       (\<exists>v'. map_area ops p (p + 4096) fl [NewFrame] v = (Inr (), v')
         \<and> perm v' = (\<lambda>a. if same_page a p then Some fl else perm v a)
         \<and> mem v' = (\<lambda>a. if same_page a p then 0 else mem v a))"
    "4096 dvd unat p \<Longrightarrow> perm v p = Some old \<Longrightarrow> (\<exists>pa. vm_query ops p v = Inr (pa, old)) \<and>
       (\<exists>v'. vm_protect ops p (p + 4096) fl v = (Inr (), v')
         \<and> perm v' = (\<lambda>a. if same_page a p then Some fl else perm v a) \<and> mem v' = mem v)"
    "unat a mod 4096 + length bs \<le> 4096 \<Longrightarrow> perm v a \<noteq> None \<Longrightarrow>
       \<exists>v'. vm_write_bytes ops a bs v = (Inr (), v') \<and> perm v' = perm v
         \<and> mem v' = (\<lambda>x. if unat a \<le> unat x \<and> unat x < unat a + length bs then bs ! (unat x - unat a) else mem v x)"
proof -
  note law = assms [unfolded loader_law_def, THEN spec, of v]
  show "same_page a b \<Longrightarrow> perm v a = perm v b" using conjunct1 [OF law] by blast
  note page = conjunct1 [OF conjunct2 [OF law], THEN spec, of p]
  show "4096 dvd unat p \<Longrightarrow> perm v p = None \<Longrightarrow> vm_query ops p v = Inl NotMapped \<and>
       (\<exists>v'. map_area ops p (p + 4096) fl [NewFrame] v = (Inr (), v')
         \<and> perm v' = (\<lambda>a. if same_page a p then Some fl else perm v a)
         \<and> mem v' = (\<lambda>a. if same_page a p then 0 else mem v a))"
    using page by simp
  show "4096 dvd unat p \<Longrightarrow> perm v p = Some old \<Longrightarrow> (\<exists>pa. vm_query ops p v = Inr (pa, old)) \<and>
       (\<exists>v'. vm_protect ops p (p + 4096) fl v = (Inr (), v')
         \<and> perm v' = (\<lambda>a. if same_page a p then Some fl else perm v a) \<and> mem v' = mem v)"
    using page by simp
  show "unat a mod 4096 + length bs \<le> 4096 \<Longrightarrow> perm v a \<noteq> None \<Longrightarrow>
       \<exists>v'. vm_write_bytes ops a bs v = (Inr (), v') \<and> perm v' = perm v
         \<and> mem v' = (\<lambda>x. if unat a \<le> unat x \<and> unat x < unat a + length bs then bs ! (unat x - unat a) else mem v x)"
    using conjunct2 [OF conjunct2 [OF law]] by blast
qed

definition add_perm :: "u64 \<Rightarrow> u64 option \<Rightarrow> u64 option" where
  "add_perm fl p = Some (case p of None \<Rightarrow> fl | Some old \<Rightarrow> old OR fl)"

lemma ensure_page_run:
  assumes "loader_law ops perm mem" and "FRAME_SIZE m = 4096" and "4096 dvd unat p"
  obtains v' where "ensure_page m ops fl p v = (Ok (), v')"
    "perm v' = (\<lambda>a. if same_page a p then add_perm fl (perm v a) else perm v a)"
    "mem v' = (\<lambda>a. if same_page a p \<and> perm v a = None then 0 else mem v a)"
proof -
  note law = loader_lawD [OF assms(1)]
  have up: "same_page a p \<Longrightarrow> perm v a = perm v p" for a by (rule law(1))
  show ?thesis
  proof (cases "perm v p")
    case None
    obtain v' where "vm_query ops p v = Inl NotMapped" "map_area ops p (p + 4096) fl [NewFrame] v = (Inr (), v')"
      "perm v' = (\<lambda>a. if same_page a p then Some fl else perm v a)" "mem v' = (\<lambda>a. if same_page a p then 0 else mem v a)"
      using law(2) [OF assms(3) None, of fl] by blast
    then show ?thesis using None up
      by (intro that [of v']) (auto simp: ensure_page_def vm_try_def assms(2) add_perm_def fun_eq_iff)
  next
    case (Some old)
    obtain pa v' where r: "vm_query ops p v = Inr (pa, old)" "vm_protect ops p (p + 4096) (old OR fl) v = (Inr (), v')"
      "perm v' = (\<lambda>a. if same_page a p then Some (old OR fl) else perm v a)" "mem v' = mem v"
      using law(3) [OF assms(3) Some, of "old OR fl"] by blast
    show ?thesis
    proof (cases "old OR fl = old")
      case True
      then show ?thesis using r(1) Some up
        by (intro that [of v]) (auto simp: ensure_page_def act_simps add_perm_def fun_eq_iff)
    next
      case False
      then show ?thesis using r Some up
        by (intro that [of v']) (auto simp: ensure_page_def vm_try_def assms(2) add_perm_def fun_eq_iff)
    qed
  qed
qed

lemma page_interval:
  "4096 dvd (P :: nat) \<Longrightarrow> x div 4096 = P div 4096 \<longleftrightarrow> P \<le> x \<and> x < P + 4096"
  by (elim dvdE) (auto simp: div_nat_eqI less_mult_imp_div_less div_less_iff_less_mult intro!: div_nat_eqI)

text \<open>The bytes of a segment's file data, by address.\<close>

definition file_byte :: "nat \<Rightarrow> u8 list \<Rightarrow> usize \<Rightarrow> u8 option" where
  "file_byte s data a = (if s \<le> unat a \<and> unat a < s + length data then Some (data ! (unat a - s)) else None)"

lemma copy_page_run:
  assumes "loader_law ops perm mem" and "FRAME_SIZE m = 4096" and "4096 dvd unat p" and "unat p + 4096 < 2 ^ 64"
    and "unat (li_start sec) + length data < 2 ^ 64" and "unat fe = unat (li_start sec) + length data"
    and "perm v p \<noteq> None"
  obtains v' where
    "copy_page m ops sec data fe p v = (Ok (card ({unat p..<unat p + 4096} \<inter> {unat (li_start sec)..<unat fe})), v')"
    "perm v' = perm v"
    "mem v' = (\<lambda>a. if same_page a p then (case file_byte (unat (li_start sec)) data a of Some b \<Rightarrow> b | None \<Rightarrow> mem v a) else mem v a)"
proof -
  let ?s = "unat (li_start sec)" and ?P = "unat p"
  let ?cs = "max p (li_start sec)" and ?ce = "min (p + 4096) fe"
  have p4: "unat (p + 4096) = ?P + 4096" using assms(4) unat_add_below [of p 4096] by simp
  have cs: "unat ?cs = max ?P ?s" by (simp add: max_def word_le_nat_alt)
  have ce: "unat ?ce = min (?P + 4096) (unat fe)" using p4 by (simp add: min_def word_le_nat_alt)
  have int: "{?P..<?P + 4096} \<inter> {?s..<unat fe} = {max ?P ?s..<min (?P + 4096) (unat fe)}" by auto
  have page: "same_page a p \<longleftrightarrow> ?P \<le> unat a \<and> unat a < ?P + 4096" for a
    unfolding same_page_def by (rule page_interval [OF assms(3)])
  show ?thesis
  proof (cases "?cs < ?ce")
    case False
    then have "min (?P + 4096) (unat fe) \<le> max ?P ?s" by (simp only: word_less_nat_alt cs ce not_less)
    then have emp: "{?P..<?P + 4096} \<inter> {?s..<unat fe} = {}" unfolding int by simp
    then have c: "card ({?P..<?P + 4096} \<inter> {?s..<unat fe}) = 0" by (simp only: card.empty)
    have memeq: "mem v = (\<lambda>a. if same_page a p then (case file_byte ?s data a of Some b \<Rightarrow> b | None \<Rightarrow> mem v a) else mem v a)"
    proof (rule ext)
      fix a
      have "\<not> (same_page a p \<and> ?s \<le> unat a \<and> unat a < ?s + length data)"
        using emp assms(6) page [of a] by auto
      then show "mem v a = (if same_page a p then (case file_byte ?s data a of Some b \<Rightarrow> b | None \<Rightarrow> mem v a) else mem v a)"
        by (auto simp: file_byte_def)
    qed
    have run: "copy_page m ops sec data fe p v = (Ok 0, v)"
      using False by (simp only: copy_page_def Let_def assms(2) if_False ret_def)
    show ?thesis by (rule that [unfolded c, OF run refl memeq])
  next
    case True
    then have lt: "max ?P ?s < min (?P + 4096) (unat fe)" by (simp only: word_less_nat_alt cs ce)
    define off where "off = max ?P ?s - ?s"
    define len where "len = min (?P + 4096) (unat fe) - max ?P ?s"
    have "unat (?cs - li_start sec) = off" unfolding off_def by (subst unat_sub) (simp_all add: cs)
    moreover have "unat (?ce - ?cs) = len"
      using lt unfolding len_def by (subst unat_sub) (simp_all add: cs ce word_le_nat_alt)
    moreover have fits: "off + len \<le> length data" using lt assms(6) by (simp add: off_def len_def)
    ultimately have run: "copy_page m ops sec data fe p = bind (vm_try (vm_write_bytes ops ?cs (slice off len data))) (\<lambda>_. ret len)"
      using True by (simp add: copy_page_def Let_def assms(2))
    have in_page: "?P \<le> unat ?cs" "unat ?cs + len \<le> ?P + 4096" using lt by (simp_all add: cs len_def)
    obtain k where k: "?P = 4096 * k" using assms(3) by (elim dvdE)
    have "unat ?cs < ?P + 4096" using lt cs by simp
    then have "unat ?cs - ?P < 4096" "unat ?cs = (unat ?cs - ?P) + 4096 * k" using in_page(1) k by linarith+
    then have "unat ?cs mod 4096 = unat ?cs - ?P" by (metis mod_less mod_mult_self2)
    then have modlen: "unat ?cs mod 4096 + length (slice off len data) \<le> 4096"
      using in_page fits by simp
    have "perm v ?cs = perm v p"
      by (rule loader_lawD(1) [OF assms(1)]) (use page [of ?cs] in_page(1) \<open>unat ?cs < ?P + 4096\<close> in blast)
    then have "perm v ?cs \<noteq> None" using assms(7) by simp
    from loader_lawD(4) [OF assms(1) modlen this]
    obtain v' where v': "vm_write_bytes ops ?cs (slice off len data) v = (Inr (), v')" "perm v' = perm v"
      "mem v' = (\<lambda>x. if unat ?cs \<le> unat x \<and> unat x < unat ?cs + length (slice off len data)
         then slice off len data ! (unat x - unat ?cs) else mem v x)"
      by blast
    have "mem v' a = (if same_page a p then (case file_byte ?s data a of Some b \<Rightarrow> b | None \<Rightarrow> mem v a) else mem v a)" for a
    proof -
      have "unat ?cs \<le> unat a \<and> unat a < unat ?cs + len \<longleftrightarrow> same_page a p \<and> ?s \<le> unat a \<and> unat a < ?s + length data"
        using lt assms(6) page [of a] by (auto simp: cs len_def)
      moreover have "slice off len data ! (unat a - unat ?cs) = data ! (unat a - ?s)"
        if "unat ?cs \<le> unat a" "unat a < unat ?cs + len"
      proof -
        have "unat a - unat ?cs < len" "off + (unat a - unat ?cs) = unat a - ?s"
          using that cs max.cobounded2 [of ?s ?P] unfolding off_def by linarith+
        with fits show ?thesis by (simp add: slice_def)
      qed
      ultimately show ?thesis using fits by (auto simp: v'(3) file_byte_def)
    qed
    moreover have "card ({?P..<?P + 4096} \<inter> {?s..<unat fe}) = len" unfolding int len_def by simp
    ultimately show ?thesis using v'(1,2)
      by (intro that [of v']) (simp_all add: run act_simps vm_try_def fun_eq_iff)
  qed
qed

section \<open>Whole segments\<close>

definition page_of :: "usize \<Rightarrow> nat" where
  "page_of a = unat a div 4096"

text \<open>The permissions and the bytes after a segment whose pages are numbered by \<open>S\<close>.\<close>

definition perm_after :: "u64 \<Rightarrow> nat set \<Rightarrow> (usize \<Rightarrow> u64 option) \<Rightarrow> usize \<Rightarrow> u64 option" where
  "perm_after fl S P a = (if page_of a \<in> S then add_perm fl (P a) else P a)"

definition mem_after :: "nat \<Rightarrow> u8 list \<Rightarrow> nat set \<Rightarrow> (usize \<Rightarrow> u64 option) \<Rightarrow> (usize \<Rightarrow> u8) \<Rightarrow> usize \<Rightarrow> u8" where
  "mem_after s data S P M a =
     (if page_of a \<in> S then (case file_byte s data a of Some b \<Rightarrow> b | None \<Rightarrow> if P a = None then 0 else M a) else M a)"

lemma card_pages:
  assumes "q \<notin> S" and "finite I"
  shows "card ({x :: nat. x div 4096 = q} \<inter> I) + card ({x. x div 4096 \<in> S} \<inter> I)
    = card ({x. x div 4096 \<in> insert q S} \<inter> I)"
proof -
  have "{x :: nat. x div 4096 \<in> insert q S} \<inter> I = ({x. x div 4096 = q} \<inter> I) \<union> ({x. x div 4096 \<in> S} \<inter> I)" by auto
  then show ?thesis using assms by (auto simp: card_Un_disjoint disjoint_iff)
qed

lemma load_pages_run:
  assumes "loader_law ops perm mem" and "FRAME_SIZE m = 4096"
    and "unat (li_start sec) + length data < 2 ^ 64" and "unat fe = unat (li_start sec) + length data"
  shows "distinct (map page_of pages) \<Longrightarrow> \<forall>p \<in> set pages. 4096 dvd unat p \<and> unat p + 4096 < 2 ^ 64 \<Longrightarrow>
    \<exists>v'. load_pages m ops sec data fe pages copied v
        = (Ok (copied + card ({x. x div 4096 \<in> page_of ` set pages} \<inter> {unat (li_start sec)..<unat fe})), v')
      \<and> perm v' = perm_after (li_perm sec) (page_of ` set pages) (perm v)
      \<and> mem v' = mem_after (unat (li_start sec)) data (page_of ` set pages) (perm v) (mem v)"
proof (induction pages arbitrary: copied v)
  case Nil
  show ?case by (rule exI [of _ v]) (simp add: act_simps perm_after_def mem_after_def fun_eq_iff)
next
  case (Cons p pages)
  let ?S = "page_of ` set pages" and ?I = "{unat (li_start sec)..<unat fe}"
  from Cons.prems have p: "4096 dvd unat p" "unat p + 4096 < 2 ^ 64" and new: "page_of p \<notin> ?S" by simp_all
  obtain v1 where 1: "ensure_page m ops (li_perm sec) p v = (Ok (), v1)"
    "perm v1 = (\<lambda>a. if same_page a p then add_perm (li_perm sec) (perm v a) else perm v a)"
    "mem v1 = (\<lambda>a. if same_page a p \<and> perm v a = None then 0 else mem v a)"
    by (rule ensure_page_run [OF assms(1,2) p(1)])
  have "perm v1 p \<noteq> None" by (simp add: 1(2) same_page_def add_perm_def)
  from copy_page_run [OF assms(1,2) p assms(3,4) this] obtain v2 where 2:
    "copy_page m ops sec data fe p v1 = (Ok (card ({unat p..<unat p + 4096} \<inter> ?I)), v2)" "perm v2 = perm v1"
    "mem v2 = (\<lambda>a. if same_page a p then (case file_byte (unat (li_start sec)) data a of Some b \<Rightarrow> b | None \<Rightarrow> mem v1 a) else mem v1 a)" .
  obtain v3 where 3: "load_pages m ops sec data fe pages (copied + card ({unat p..<unat p + 4096} \<inter> ?I)) v2
      = (Ok (copied + card ({unat p..<unat p + 4096} \<inter> ?I) + card ({x. x div 4096 \<in> ?S} \<inter> ?I)), v3)"
    "perm v3 = perm_after (li_perm sec) ?S (perm v2)"
    "mem v3 = mem_after (unat (li_start sec)) data ?S (perm v2) (mem v2)"
    using Cons.IH [of "copied + card ({unat p..<unat p + 4096} \<inter> ?I)" v2] Cons.prems by auto
  have sp: "same_page a p \<longleftrightarrow> page_of a = page_of p" for a by (simp add: same_page_def page_of_def)
  have "x \<in> {unat p..<unat p + 4096} \<longleftrightarrow> x div 4096 = page_of p" for x
    using page_interval [OF p(1), of x] by (simp add: page_of_def)
  then have "{unat p..<unat p + 4096} = {x. x div 4096 = page_of p}" by blast
  then have "card ({unat p..<unat p + 4096} \<inter> ?I) + card ({x. x div 4096 \<in> ?S} \<inter> ?I)
      = card ({x. x div 4096 \<in> insert (page_of p) ?S} \<inter> ?I)"
    by (simp only: card_pages [OF new finite_atLeastLessThan])
  also have "insert (page_of p) ?S = page_of ` set (p # pages)" by simp
  finally have n: "copied + card ({unat p..<unat p + 4096} \<inter> ?I) + card ({x. x div 4096 \<in> ?S} \<inter> ?I)
      = copied + card ({x. x div 4096 \<in> page_of ` set (p # pages)} \<inter> ?I)" by simp
  have "load_pages m ops sec data fe (p # pages) copied v
      = (Ok (copied + card ({x. x div 4096 \<in> page_of ` set (p # pages)} \<inter> ?I)), v3)"
    using 3(1) n by (simp add: act_simps 1(1) 2(1))
  moreover have "perm v3 = perm_after (li_perm sec) (page_of ` set (p # pages)) (perm v)"
  proof (rule ext)
    fix a show "perm v3 a = perm_after (li_perm sec) (page_of ` set (p # pages)) (perm v) a"
      using new by (cases "page_of a = page_of p") (simp_all add: 3(2) 2(2) 1(2) sp perm_after_def)
  qed
  moreover have "mem v3 = mem_after (unat (li_start sec)) data (page_of ` set (p # pages)) (perm v) (mem v)"
  proof (rule ext)
    fix a show "mem v3 a = mem_after (unat (li_start sec)) data (page_of ` set (p # pages)) (perm v) (mem v) a"
      using new by (cases "page_of a = page_of p") (auto simp: 3(3) 2(2,3) 1(2,3) sp mem_after_def split: option.split)
  qed
  ultimately show ?case by blast
qed

lemma page_steps_pages:
  assumes "unat a = 4096 * i" and "unat b = 4096 * j" and "p \<in> set (page_steps a b 4096)"
  shows "4096 dvd unat p" "unat p + 4096 \<le> unat b" "page_of p \<in> {i..<j}"
proof -
  have n: "(unat b - unat a + unat (4096::usize) - 1) div unat (4096::usize) = j - i"
    using assms(1,2) by (cases "i \<le> j") (auto simp: right_diff_distrib' [symmetric])
  obtain k where k: "k < j - i" "p = a + of_nat k * 4096" using assms(3) n by (auto simp: page_steps_def)
  have bl: "unat b < 2 ^ 64" using unsigned_less [of b, where ?'a = nat] by simp
  have kj: "4096 * (i + k) + 4096 \<le> 4096 * j" using k(1) by simp
  have "unat (of_nat k :: usize) = k" using kj assms(2) bl by (simp add: unat_of_nat)
  then have "unat (of_nat k * 4096 :: usize) = k * 4096"
    using kj assms(2) bl by (simp add: unat_mult_lem [THEN iffD1])
  then have p: "unat p = 4096 * (i + k)"
    using k(2) kj assms bl unat_add_below [of a "of_nat k * 4096"] by simp
  show "4096 dvd unat p" by (simp add: p)
  show "unat p + 4096 \<le> unat b" using kj assms(2) p by simp
  show "page_of p \<in> {i..<j}" using k(1) by (simp add: page_of_def p)
qed

lemma page_steps_all:
  assumes "unat a = 4096 * i" and "unat b = 4096 * j"
  shows "map page_of (page_steps a b 4096) = [i..<j]"
proof -
  have n: "(unat b - unat a + unat (4096::usize) - 1) div unat (4096::usize) = j - i"
    using assms by (cases "i \<le> j") (auto simp: right_diff_distrib' [symmetric])
  have bl: "unat b < 2 ^ 64" using unsigned_less [of b, where ?'a = nat] by simp
  have "page_of (a + of_nat k * 4096) = i + k" if "k < j - i" for k
  proof -
    have kj: "4096 * (i + k) + 4096 \<le> 4096 * j" using that by simp
    have "unat (of_nat k :: usize) = k" using kj assms(2) bl by (simp add: unat_of_nat)
    then have "unat (of_nat k * 4096 :: usize) = k * 4096"
      using kj assms(2) bl by (simp add: unat_mult_lem [THEN iffD1])
    then show ?thesis
      using kj assms bl unat_add_below [of a "of_nat k * 4096"] by (simp add: page_of_def)
  qed
  then have "map page_of (page_steps a b 4096) = map (\<lambda>k. i + k) [0..<j - i]"
    using n by (simp add: page_steps_def)
  also have "\<dots> = [i..<j]" by (rule nth_equalityI) auto
  finally show ?thesis .
qed

definition section_ok :: "u8 list \<Rightarrow> load_info \<Rightarrow> bool" where
  "section_ok input sec \<longleftrightarrow> unat (li_start sec) + unat (li_file_size sec) \<le> unat (li_end sec)
     \<and> unat (li_end sec) + 0xFFF < 2 ^ 64 \<and> unat (li_offset sec) + unat (li_file_size sec) \<le> length input"

definition sec_pages :: "load_info \<Rightarrow> nat set" where
  "sec_pages sec = {unat (li_start sec) div 4096..<(unat (li_end sec) + 0xFFF) div 4096}"

definition sec_data :: "u8 list \<Rightarrow> load_info \<Rightarrow> u8 list" where
  "sec_data input sec = slice (unat (li_offset sec)) (unat (li_file_size sec)) input"

definition in_file :: "load_info \<Rightarrow> usize \<Rightarrow> bool" where
  "in_file sec a \<longleftrightarrow> unat (li_start sec) \<le> unat a \<and> unat a < unat (li_start sec) + unat (li_file_size sec)"

definition sec_byte :: "u8 list \<Rightarrow> load_info \<Rightarrow> usize \<Rightarrow> u8" where
  "sec_byte input sec a = input ! (unat (li_offset sec) + (unat a - unat (li_start sec)))"

lemma file_byte_sec:
  assumes "section_ok input sec"
  shows "file_byte (unat (li_start sec)) (sec_data input sec) a = (if in_file sec a then Some (sec_byte input sec a) else None)"
  using assms by (auto simp: file_byte_def sec_data_def in_file_def section_ok_def sec_byte_def slice_def)

lemma in_file_pages: "section_ok input sec \<Longrightarrow> in_file sec a \<Longrightarrow> page_of a \<in> sec_pages sec"
  unfolding in_file_def section_ok_def sec_pages_def page_of_def
  by (auto simp: div_le_mono less_eq_div_iff_mult_less_eq div_less_iff_less_mult)

lemma saturating_add_small: "unat a + unat b < 2 ^ 64 \<Longrightarrow> unat (saturating_add a b) = unat a + unat b"
  by (simp add: saturating_add_def unat_add_below)

lemma load_section_run:
  assumes "loader_law ops perm mem" and "cfg_law m" and "section_ok input sec" and "length input < 2 ^ 64"
  obtains v' where "load_section m ops input sec v = (Ok (), v')"
    "perm v' = perm_after (li_perm sec) (sec_pages sec) (perm v)"
    "mem v' = mem_after (unat (li_start sec)) (sec_data input sec) (sec_pages sec) (perm v) (mem v)"
proof -
  let ?s = "unat (li_start sec)" and ?fs = "unat (li_file_size sec)" and ?off = "unat (li_offset sec)"
  note ok = assms(3) [unfolded section_ok_def]
  have F: "FRAME_SIZE m = 4096" and down: "align_down_4k m a = a AND NOT 0xFFF" for a
    using assms(2) unfolding cfg_law_def by blast+
  have lo: "unat (align_down_4k m (li_start sec)) = 4096 * (?s div 4096)"
    unfolding down by (rule unat_and_not_page)
  have hi: "unat (align_up_4k m (li_end sec)) = 4096 * ((unat (li_end sec) + 0xFFF) div 4096)"
    using ok by (intro unat_align_up [OF assms(2)]) blast
  let ?pages = "page_steps (align_down_4k m (li_start sec)) (align_up_4k m (li_end sec)) 4096"
  have pages: "map page_of ?pages = [?s div 4096..<(unat (li_end sec) + 0xFFF) div 4096]"
    by (rule page_steps_all [OF lo hi])
  have S: "page_of ` set ?pages = sec_pages sec"
    using arg_cong [OF pages, of set] by (simp add: sec_pages_def)
  have dist: "distinct (map page_of ?pages)" unfolding pages by simp
  have al: "\<forall>p \<in> set ?pages. 4096 dvd unat p \<and> unat p + 4096 < 2 ^ 64"
  proof
    fix p assume p: "p \<in> set ?pages"
    have "unat p + 4096 \<le> unat (align_up_4k m (li_end sec))" by (rule page_steps_pages(2) [OF lo hi p])
    moreover have "unat (align_up_4k m (li_end sec)) \<le> unat (li_end sec) + 0xFFF" unfolding hi by (rule round_up_bound [THEN le_trans]) simp
    ultimately show "4096 dvd unat p \<and> unat p + 4096 < 2 ^ 64"
      using ok page_steps_pages(1) [OF lo hi p] by linarith
  qed
  have fe: "unat (saturating_add (li_start sec) (li_file_size sec)) = ?s + ?fs"
    and de: "unat (saturating_add (li_offset sec) (li_file_size sec)) = ?off + ?fs"
    using ok assms(4) by (auto intro!: saturating_add_small)
  have len: "length (sec_data input sec) = ?fs" using ok by (simp add: sec_data_def)
  have small: "?s + length (sec_data input sec) < 2 ^ 64" using ok len by linarith
  from load_pages_run [OF assms(1) F small fe [folded len] dist al, of 0 v] obtain v' where
    v': "load_pages m ops sec (sec_data input sec) (saturating_add (li_start sec) (li_file_size sec)) ?pages 0 v
       = (Ok (0 + card ({x. x div 4096 \<in> sec_pages sec} \<inter> {?s..<?s + ?fs})), v')"
    "perm v' = perm_after (li_perm sec) (sec_pages sec) (perm v)"
    "mem v' = mem_after ?s (sec_data input sec) (sec_pages sec) (perm v) (mem v)"
    unfolding S fe by blast
  have "x div 4096 \<in> sec_pages sec" if "x \<in> {?s..<?s + ?fs}" for x
    using that ok round_up_le [of "unat (li_end sec)"] unfolding sec_pages_def
    by (auto simp: div_le_mono div_less_iff_less_mult mult.commute)
  then have "{x. x div 4096 \<in> sec_pages sec} \<inter> {?s..<?s + ?fs} = {?s..<?s + ?fs}" by blast
  then have n: "card ({x. x div 4096 \<in> sec_pages sec} \<inter> {?s..<?s + ?fs}) = ?fs" by simp
  have "li_start sec \<le> li_end sec" using ok by (simp add: word_le_nat_alt)
  then have "unat (saturating_sub (li_end sec) (li_start sec)) = unat (li_end sec) - ?s"
    by (simp add: saturating_sub_def unat_sub)
  then have c1: "\<not> li_file_size sec > saturating_sub (li_end sec) (li_start sec)"
    unfolding word_less_nat_alt using ok by linarith
  have c2: "\<not> unat (saturating_add (li_offset sec) (li_file_size sec)) > length input" using ok de by simp
  have sl: "slice ?off (unat (saturating_add (li_offset sec) (li_file_size sec)) - ?off) input = sec_data input sec"
    by (simp add: de sec_data_def)
  have "load_section m ops input sec v = (Ok (), v')"
    unfolding load_section_def Let_def if_not_P [OF c1] if_not_P [OF c2] sl F bind_run v'(1) n by (simp add: act_simps)
  with that v' show ?thesis by blast
qed

section \<open>Loading a program\<close>

text \<open>The segment that supplies a byte from the file.\<close>

definition owner :: "load_info list \<Rightarrow> usize \<Rightarrow> load_info option" where
  "owner secs a = find (\<lambda>sec. in_file sec a) secs"

definition covered :: "load_info list \<Rightarrow> usize \<Rightarrow> bool" where
  "covered secs a \<longleftrightarrow> (\<exists>sec \<in> set secs. page_of a \<in> sec_pages sec)"

fun merged_perm :: "load_info list \<Rightarrow> usize \<Rightarrow> u64 option \<Rightarrow> u64 option" where
  "merged_perm [] a p = p"
| "merged_perm (sec # secs) a p =
     merged_perm secs a (if page_of a \<in> sec_pages sec then add_perm (li_perm sec) p else p)"

fun files_disjoint :: "load_info list \<Rightarrow> bool" where
  "files_disjoint [] \<longleftrightarrow> True"
| "files_disjoint (sec # secs) \<longleftrightarrow> (\<forall>sec' \<in> set secs. \<forall>a. \<not> (in_file sec a \<and> in_file sec' a)) \<and> files_disjoint secs"

lemma owner_simps [simp]:
  "owner [] a = None" "owner (sec # secs) a = (if in_file sec a then Some sec else owner secs a)"
  by (simp_all add: owner_def)

lemma owner_None: "(\<And>sec. sec \<in> set secs \<Longrightarrow> \<not> in_file sec a) \<Longrightarrow> owner secs a = None"
  by (simp add: owner_def find_None_iff)

lemma owner_in_file: "files_disjoint secs \<Longrightarrow> sec \<in> set secs \<Longrightarrow> in_file sec a \<Longrightarrow>
   \<exists>sec'. owner secs a = Some sec' \<and> in_file sec' a \<and> (sec' = sec \<or> sec \<notin> set secs)"
  by (induction secs) auto

lemma owner_unique: "files_disjoint secs \<Longrightarrow> sec \<in> set secs \<Longrightarrow> in_file sec a \<Longrightarrow> owner secs a = Some sec"
proof (induction secs)
  case (Cons x secs)
  then show ?case by (cases "sec = x") auto
qed simp

lemma load_sections_run:
  assumes "loader_law ops perm mem" and "cfg_law m" and "length input < 2 ^ 64"
  shows "\<forall>sec \<in> set secs. section_ok input sec \<Longrightarrow> files_disjoint secs \<Longrightarrow>
    \<exists>v'. load_sections m ops input secs brk v = (Ok (fold (\<lambda>sec b. max b (li_end sec)) secs brk), v')
      \<and> (\<forall>a. perm v' a = merged_perm secs a (perm v a))
      \<and> (\<forall>a. mem v' a = (case owner secs a of Some sec \<Rightarrow> sec_byte input sec a
                | None \<Rightarrow> if perm v a = None \<and> covered secs a then 0 else mem v a))"
proof (induction secs arbitrary: brk v)
  case Nil
  show ?case by (rule exI [of _ v]) (simp add: act_simps covered_def)
next
  case (Cons sec secs)
  have ok: "section_ok input sec" using Cons.prems(1) by simp
  obtain v1 where 1: "load_section m ops input sec v = (Ok (), v1)"
    "perm v1 = perm_after (li_perm sec) (sec_pages sec) (perm v)"
    "mem v1 = mem_after (unat (li_start sec)) (sec_data input sec) (sec_pages sec) (perm v) (mem v)"
    by (rule load_section_run [OF assms(1,2) ok assms(3)])
  obtain v2 where 2: "load_sections m ops input secs (max brk (li_end sec)) v1
      = (Ok (fold (\<lambda>sec b. max b (li_end sec)) secs (max brk (li_end sec))), v2)"
    "\<And>a. perm v2 a = merged_perm secs a (perm v1 a)"
    "\<And>a. mem v2 a = (case owner secs a of Some sec \<Rightarrow> sec_byte input sec a
                | None \<Rightarrow> if perm v1 a = None \<and> covered secs a then 0 else mem v1 a)"
    using Cons.IH [of "max brk (li_end sec)" v1] Cons.prems by auto
  have "mem v2 a = (case owner (sec # secs) a of Some sec \<Rightarrow> sec_byte input sec a
      | None \<Rightarrow> if perm v a = None \<and> covered (sec # secs) a then 0 else mem v a)" for a
  proof (cases "in_file sec a")
    case True
    then have "owner secs a = None" using Cons.prems(2) by (intro owner_None) auto
    moreover have "page_of a \<in> sec_pages sec" by (rule in_file_pages [OF ok True])
    ultimately show ?thesis using True
      by (simp add: 2(3) 1(2,3) perm_after_def add_perm_def mem_after_def file_byte_sec [OF ok])
  next
    case False
    then show ?thesis
      by (auto simp: 2(3) 1(2,3) perm_after_def add_perm_def mem_after_def file_byte_sec [OF ok] covered_def
          split: option.split)
  qed
  moreover have "perm v2 a = merged_perm (sec # secs) a (perm v a)" for a
    by (simp add: 2(2) 1(2) perm_after_def)
  ultimately show ?case using 1(1) 2(1) by (intro exI [of _ v2]) (simp add: act_simps)
qed

text \<open>C18: loading a program. When the segments fit in the file and their file parts do not overlap, loading
  succeeds and the address space holds exactly the program: every byte of every segment is the byte
  of the file, the rest of a newly mapped page is zero, what lies outside the segments' pages and
  what was mapped before is kept, every page carries the union of the permissions of the segments on it,
  and the result is the highest end of a segment.\<close>

theorem load_program_exact:
  assumes "loader_law ops perm mem" and "cfg_law m" and "length (ef_input elf) < 2 ^ 64"
    and "secs = collect_load_info m elf bias"
    and "\<forall>sec \<in> set secs. section_ok (ef_input elf) sec" and "files_disjoint secs"
  shows "\<exists>v'. load_to_vm_space m ops elf bias v = (Ok (fold (\<lambda>sec b. max b (li_end sec)) secs 0), v')
    \<and> (\<forall>a. perm v' a = merged_perm secs a (perm v a))
    \<and> (\<forall>sec \<in> set secs. \<forall>a. in_file sec a \<longrightarrow> mem v' a = sec_byte (ef_input elf) sec a)
    \<and> (\<forall>a. (\<forall>sec \<in> set secs. \<not> in_file sec a) \<longrightarrow>
          mem v' a = (if perm v a = None \<and> covered secs a then 0 else mem v a))"
proof -
  obtain v' where v': "load_sections m ops (ef_input elf) secs 0 v = (Ok (fold (\<lambda>sec b. max b (li_end sec)) secs 0), v')"
    "\<And>a. perm v' a = merged_perm secs a (perm v a)"
    "\<And>a. mem v' a = (case owner secs a of Some sec \<Rightarrow> sec_byte (ef_input elf) sec a
                | None \<Rightarrow> if perm v a = None \<and> covered secs a then 0 else mem v a)"
    using load_sections_run [OF assms(1-3,5,6), of 0 v] by blast
  have "mem v' a = sec_byte (ef_input elf) sec a" if "sec \<in> set secs" "in_file sec a" for sec a
    using owner_unique [OF assms(6) that] by (simp add: v'(3))
  moreover have "mem v' a = (if perm v a = None \<and> covered secs a then 0 else mem v a)"
    if "\<forall>sec \<in> set secs. \<not> in_file sec a" for a
    using that by (simp add: v'(3) owner_None)
  ultimately show ?thesis using v'(1,2) by (intro exI [of _ v']) (simp add: load_to_vm_space_def assms(4))
qed

text \<open>An address space made of pages.\<close>

type_synonym page_mem = "(nat \<Rightarrow> u64 option) \<times> (usize \<Rightarrow> u8)"

definition paged_ops :: "page_mem vm_ops" where
  "paged_ops = \<lparr> vm_new = (\<lambda>_. None, \<lambda>_. 0),
     vm_map = (\<lambda>area v. (Inr (), (\<lambda>n. if n = page_of (va_start area) then Some (va_flags area) else fst v n,
       \<lambda>a. if page_of a = page_of (va_start area) then 0 else snd v a))),
     vm_unmap = (\<lambda>_ v. (Inr (), v)),
     vm_protect = (\<lambda>a _ fl v. (Inr (), (\<lambda>n. if n = page_of a then Some fl else fst v n, snd v))),
     vm_query = (\<lambda>a v. case fst v (page_of a) of None \<Rightarrow> Inl NotMapped | Some fl \<Rightarrow> Inr (a, fl)),
     vm_read_bytes = (\<lambda>a n v. Inr (user_bytes (snd v) a n)),
     vm_write_bytes = (\<lambda>a bs v. (Inr (), (fst v, \<lambda>x. if unat a \<le> unat x \<and> unat x < unat a + length bs
        then bs ! (unat x - unat a) else snd v x))) \<rparr>"

lemma paged_loader_law: "loader_law paged_ops (\<lambda>v a. fst v (page_of a)) snd"
  by (auto simp: loader_law_def paged_ops_def map_area_def same_page_def page_of_def fun_eq_iff
      split: option.split)

definition hello_elf :: elf_file where
  "hello_elf = \<lparr> ef_type = Elf_Executable, ef_phs =
     [\<lparr> ph_type = Some Seg_Load, ph_vaddr = 0x10FFE, ph_mem_size = 8, ph_offset = 1, ph_file_size = 3,
        ph_flags = (True, False, True), ph_data = None \<rparr>],
     ef_entry = 0x10FFE, ef_ph_count = 1, ef_ph_entry_size = 56, ef_ph_offset = 64, ef_input = [9, 1, 2, 3],
     ef_rela_dyn = NoSection, ef_rela_plt = NoSection, ef_dynsym = NoSection \<rparr>"

theorem load_program_exact_witness:
  "\<exists>v'. load_to_vm_space sample_cfg paged_ops hello_elf 0 (vm_new paged_ops) = (Ok 0x11006, v')
    \<and> fst v' 0x10 = Some 0x15 \<and> snd v' 0x11000 = 3 \<and> snd v' 0x11001 = 0"
proof -
  let ?sec = "\<lparr> li_start = 0x10FFE, li_end = 0x11006, li_perm = 0x15, li_offset = 1, li_file_size = 3 \<rparr> :: load_info"
  have secs: "[?sec] = collect_load_info sample_cfg hello_elf 0"
    by (simp add: collect_load_info_def load_info_of_def hello_elf_def)
  have ok: "\<forall>sec \<in> set [?sec]. section_ok (ef_input hello_elf) sec" "files_disjoint [?sec]"
    by (simp_all add: section_ok_def hello_elf_def)
  have len: "length (ef_input hello_elf) < 2 ^ 64" by (simp add: hello_elf_def)
  obtain v' where v': "load_to_vm_space sample_cfg paged_ops hello_elf 0 (vm_new paged_ops) = (Ok 0x11006, v')"
    "\<And>a. fst v' (page_of a) = merged_perm [?sec] a None"
    "\<And>a. in_file ?sec a \<Longrightarrow> snd v' a = sec_byte [9, 1, 2, 3] ?sec a"
    "\<And>a. \<not> in_file ?sec a \<Longrightarrow> snd v' a = (if covered [?sec] a then 0 else snd (vm_new paged_ops) a)"
    using load_program_exact [OF paged_loader_law sample_cfg_law len secs ok, of "vm_new paged_ops"]
    by (auto simp: hello_elf_def paged_ops_def)
  have "fst v' (page_of 0x10FFE) = Some 0x15"
    unfolding v'(2) by (simp add: page_of_def sec_pages_def add_perm_def)
  then have "fst v' 0x10 = Some 0x15" by (simp add: page_of_def)
  moreover have "snd v' 0x11000 = 3" by (subst v'(3)) (simp_all add: in_file_def sec_byte_def)
  moreover have "snd v' 0x11001 = 0" by (subst v'(4)) (simp_all add: in_file_def paged_ops_def)
  ultimately show ?thesis using v'(1) by blast
qed

text \<open>Two levels are enough when \<open>libc.so\<close> names no interpreter itself.\<close>

lemma build_vm_space_depth:
  assumes "\<And>s bytes s'. read_all LIBC_NAME s = (Ok (Some bytes), s') \<Longrightarrow>
      (case ec_parse c bytes of None \<Rightarrow> True | Some e \<Rightarrow> find_type Seg_Interp (ef_phs e) = Ok None)"
  shows "build_vm_space (Suc (Suc n)) c ops ar read_all elf args name s
    = build_vm_space (Suc (Suc 0)) c ops ar read_all elf args name s"
proof -
  have "build_vm_space (Suc n) c ops ar read_all bytes args' LIBC_NAME s'
      = build_vm_space (Suc 0) c ops ar read_all bytes args' LIBC_NAME s'"
    if "read_all LIBC_NAME s = (Ok (Some bytes), s')" for bytes args' s'
    using assms [OF that] by (auto split: option.splits)
  then show ?thesis
    by (auto simp: bind_run split: option.splits sum.splits prod.splits simp del: build_vm_space.simps(2)
        simp: build_vm_space.simps(2) [of "Suc n"] build_vm_space.simps(2) [of "Suc 0"])
qed

end
