(* ===== verification/Futex.thy ===== *)
theory Futex
  imports BTree "HOL-Library.Multiset"
begin

text \<open>
  The futex wait queues: \<open>common/task/task/src/futex.rs\<close> (the queues and their three
  operations) and \<open>common/task/task/src/syscall/futex.rs\<close> (the system call). The state is the
  map from futex addresses to queues, with the log of the tasks the kernel was asked to wake.
  What is not under \<open>src/\<close> is in \<open>futex_env\<close>: the decoding of the operation number, the reads
  of user memory, the clock, the current thread, and the kernel's \<open>wake_up_wait_task\<close>.

  \<open>wake_loop_spec\<close> gives the scan a reference (the first \<open>num\<close> waiters of the mask, in queue
  order); \<open>futex_exec\<close> runs the operations of the queues one after another, over which every
  waiter is accounted for.
\<close>

unbundle bit_operations_syntax

section \<open>Waiters and queues\<close>

record futex_waiter =
  fw_task :: "nat option"
  fw_wait_time :: "usize option"
  fw_timeout_flag :: bool
  fw_bitset :: u32

definition fw_new :: "nat \<Rightarrow> usize option \<Rightarrow> bool \<Rightarrow> u32 \<Rightarrow> futex_waiter" where
  "fw_new task_tid wait_time timeout_flag bitset =
     \<lparr>fw_task = Some task_tid, fw_wait_time = wait_time,
      fw_timeout_flag = timeout_flag, fw_bitset = bitset\<rparr>"

text \<open>\<open>self.task.take().unwrap()\<close>: the thread id, and the waiter it was taken from.\<close>

definition fw_wake :: "futex_waiter \<Rightarrow> nat res \<times> futex_waiter" where
  "fw_wake w = (unwrap (fw_task w), w\<lparr>fw_task := None\<rparr>)"

record futex_state =
  fq_map :: "(usize, futex_waiter list) btree"
  fq_woken :: "nat list"

definition fq_new :: "futex_state" where
  "fq_new = \<lparr>fq_map = bt_empty, fq_woken = []\<rparr>"

text \<open>\<open>map.entry(k).or_insert(Vec::new())\<close> as a value.\<close>

definition queue_of :: "(usize, futex_waiter list) btree \<Rightarrow> usize \<Rightarrow> futex_waiter list" where
  "queue_of m k = (case bt_get m k of None \<Rightarrow> [] | Some ws \<Rightarrow> ws)"

definition add_waiter :: "usize \<Rightarrow> futex_waiter \<Rightarrow> futex_state \<Rightarrow> futex_state" where
  "add_waiter futex waiter s =
     s\<lparr>fq_map := bt_insert futex (queue_of (fq_map s) futex @ [waiter]) (fq_map s)\<rparr>"

section \<open>Waking\<close>

text \<open>
  The scan of \<open>wake\<close>: a matching waiter is taken out at \<open>index\<close>, which then names the next
  one. A failing kernel call returns at once, with the waiter still queued but disarmed.
\<close>

function wake_loop ::
  "(nat \<Rightarrow> unit res) \<Rightarrow> nat \<Rightarrow> u32 \<Rightarrow> futex_waiter list \<Rightarrow> nat \<Rightarrow> nat \<Rightarrow> nat list
   \<Rightarrow> nat res \<times> futex_waiter list \<times> nat list" where
  "wake_loop wake_task num bitset waiters index cnt woken =
     (if index < length waiters \<and> cnt < num then
        (if fw_bitset (waiters ! index) AND bitset \<noteq> 0 then
           (case fw_wake (waiters ! index) of
              (Inl e, w) \<Rightarrow> (Inl e, waiters[index := w], woken)
            | (Inr tid, w) \<Rightarrow>
                (case wake_task tid of
                   Inl e \<Rightarrow> (Inl e, waiters[index := w], woken)
                 | Inr u \<Rightarrow> wake_loop wake_task num bitset
                      (remove_nth index (waiters[index := w])) index (Suc cnt) (woken @ [tid])))
         else wake_loop wake_task num bitset waiters (Suc index) cnt woken)
      else (Ok cnt, waiters, woken))"
  by pat_completeness auto
termination
  by (relation "measure (\<lambda>(_, _, _, waiters, index, _). length waiters - index)") auto

declare wake_loop.simps [simp del]

definition fq_wake ::
  "(nat \<Rightarrow> unit res) \<Rightarrow> usize \<Rightarrow> nat \<Rightarrow> u32 \<Rightarrow> (futex_state, nat) act" where
  "fq_wake wake_task futex num bitset s =
     (case bt_get (fq_map s) futex of
        None \<Rightarrow> (Ok 0, s)
      | Some waiters \<Rightarrow>
          (case wake_loop wake_task num bitset waiters 0 0 (fq_woken s) of
             (r, waiters', woken') \<Rightarrow>
               (r, s\<lparr>fq_map := bt_insert futex waiters' (fq_map s), fq_woken := woken'\<rparr>)))"

section \<open>Requeueing\<close>

definition fq_requeue :: "usize \<Rightarrow> nat \<Rightarrow> usize \<Rightarrow> (futex_state, nat) act" where
  "fq_requeue requeue_futex num old_futex s =
     (if num = 0 then (Ok 0, s)
      else case bt_get (fq_map s) old_futex of
        None \<Rightarrow> (Ok 0, s)
      | Some waiters \<Rightarrow>
          (let m = bt_remove old_futex (fq_map s);
               move_count = min num (length waiters);
               split_index = length waiters - move_count;
               moved_waiters = drop split_index waiters;
               waiters = take split_index waiters;
               m = bt_insert requeue_futex (queue_of m requeue_futex @ moved_waiters) m;
               m = (if waiters = [] then m else bt_insert old_futex waiters m)
           in (Ok move_count, s\<lparr>fq_map := m\<rparr>)))"

section \<open>The system call\<close>

datatype futex_op =
    FutexWait | FutexWake | FutexWaitPrivate | FutexWakePrivate | FutexRequeuePrivate
  | FutexCmpRequeuePiPrivate | FutexWaitBitsetPrivate | FutexWakeBitsetPrivate
  | FutexOther nat

record futex_env =
  fe_op_of :: "u32 \<Rightarrow> futex_op option"          \<comment> \<open>\<open>FutexOp::try_from\<close>\<close>
  fe_read_atomic :: "usize \<Rightarrow> usize option"      \<comment> \<open>\<open>VmSpace::read_value_atomic\<close>\<close>
  fe_read_timespec :: "usize \<Rightarrow> usize option"    \<comment> \<open>a \<open>TimeSpec\<close> of user memory, as clock ticks\<close>
  fe_now :: usize                                \<comment> \<open>\<open>TimeSpec::now().to_clock()\<close>\<close>
  fe_wake :: "nat \<Rightarrow> unit res"                   \<comment> \<open>\<open>basic::wake_up_wait_task\<close>\<close>
  fe_tid :: nat                                  \<comment> \<open>the thread that makes the call\<close>
  fe_wait_now :: "unit res"                      \<comment> \<open>\<open>basic::wait_now\<close>, up to the yield\<close>

text \<open>The \<open>wait!\<close> macro: the caller is queued and \<open>basic::wait_now\<close> puts it to sleep. When it
  is woken the call returns 0 whatever the timeout flag says. A \<open>wait_now\<close> that fails ends the
  call with its error, and the caller stays queued.\<close>

definition futex_wait_on :: "futex_env \<Rightarrow> usize \<Rightarrow> usize option \<Rightarrow> u32
    \<Rightarrow> (futex_state, nat progress) act" where
  "futex_wait_on env uaddr wait_time bitset =
     bind (modify_state (add_waiter uaddr (fw_new (fe_tid env) wait_time False bitset)))
       (\<lambda>_. bind (lift (fe_wait_now env)) (\<lambda>_. ret Block))"

definition futex_wait :: "futex_env \<Rightarrow> usize \<Rightarrow> u32 \<Rightarrow> usize \<Rightarrow> (futex_state, nat progress) act" where
  "futex_wait env uaddr val val2 =
     bind (lift (unwrap (fe_read_atomic env uaddr))) (\<lambda>u_value.
     if u_value \<noteq> ucast val then fail EAGAIN
     else bind (if val2 \<noteq> 0
                then bind (lift (unwrap (fe_read_timespec env val2))) (\<lambda>t. ret (Some (t + fe_now env)))
                else ret None) (\<lambda>wait_time.
          futex_wait_on env uaddr wait_time (-1)))"

definition futex_wake_n :: "futex_env \<Rightarrow> usize \<Rightarrow> u32 \<Rightarrow> (futex_state, nat progress) act" where
  "futex_wake_n env uaddr val =
     bind (fq_wake (fe_wake env) uaddr (unat val) (-1)) (\<lambda>res. ret (Done res))"

definition futex :: "futex_env \<Rightarrow> usize \<Rightarrow> u32 \<Rightarrow> u32 \<Rightarrow> usize \<Rightarrow> usize \<Rightarrow> u32
    \<Rightarrow> (futex_state, nat progress) act" where
  "futex env uaddr op val val2 uaddr2 val3 =
     bind (lift (ok_or (fe_op_of env op) EINVAL)) (\<lambda>op.
     case op of
       FutexWaitPrivate \<Rightarrow> futex_wait env uaddr val val2
     | FutexWait \<Rightarrow> futex_wait env uaddr val val2
     | FutexCmpRequeuePiPrivate \<Rightarrow>
         bind (lift (unwrap (fe_read_atomic env uaddr))) (\<lambda>u_value.
         if u_value \<noteq> ucast val3 then fail EAGAIN
         else bind (fq_wake (fe_wake env) uaddr (unat val) (-1)) (\<lambda>res.
              bind (fq_requeue uaddr2 (unat val2) uaddr) (\<lambda>res2.
              ret (Done (res2 + res)))))
     | FutexRequeuePrivate \<Rightarrow>
         bind (fq_wake (fe_wake env) uaddr (unat val) (-1)) (\<lambda>res.
         bind (fq_requeue uaddr2 (unat val2) uaddr) (\<lambda>res2.
         ret (Done (res2 + res))))
     | FutexWakePrivate \<Rightarrow> futex_wake_n env uaddr val
     | FutexWake \<Rightarrow> futex_wake_n env uaddr val
     | FutexWaitBitsetPrivate \<Rightarrow>
         bind (lift (unwrap (fe_read_atomic env uaddr))) (\<lambda>u_value.
         if u_value \<noteq> ucast val then fail EAGAIN
         else bind (if val2 \<noteq> 0
                    then bind (lift (unwrap (fe_read_timespec env val2))) (\<lambda>t. ret (Some t))
                    else ret None) (\<lambda>wait_time.
              futex_wait_on env uaddr wait_time val3))
     | FutexWakeBitsetPrivate \<Rightarrow>
         bind (fq_wake (fe_wake env) uaddr (unat val) val3) (\<lambda>res. ret (Done res))
     | FutexOther _ \<Rightarrow> fail ENOSYS)"

section \<open>The scan against its reference\<close>

definition armed :: "futex_waiter list \<Rightarrow> bool" where
  "armed ws \<longleftrightarrow> (\<forall>w \<in> set ws. fw_task w \<noteq> None)"

definition in_mask :: "u32 \<Rightarrow> futex_waiter \<Rightarrow> bool" where
  "in_mask bitset w \<longleftrightarrow> fw_bitset w AND bitset \<noteq> 0"

definition tid_of :: "futex_waiter \<Rightarrow> nat" where
  "tid_of w = the (fw_task w)"

text \<open>The list without its first \<open>n\<close> elements that satisfy \<open>p\<close>.\<close>

fun drop_first :: "nat \<Rightarrow> ('a \<Rightarrow> bool) \<Rightarrow> 'a list \<Rightarrow> 'a list" where
  "drop_first n p [] = []"
| "drop_first n p (x # xs) =
     (if 0 < n \<and> p x then drop_first (n - 1) p xs else x # drop_first n p xs)"

lemma drop_first_0 [simp]: "drop_first 0 p xs = xs"
  by (induction xs) auto

lemma mset_drop_first: "mset (take n (filter p xs)) + mset (drop_first n p xs) = mset xs"
proof (induction xs arbitrary: n)
  case (Cons x xs)
  then show ?case using Cons.IH [of n] Cons.IH [of "n - 1"] by (cases n) auto
qed simp

lemma set_drop_first: "set (drop_first n p xs) \<subseteq> set xs"
  by (induction xs arbitrary: n) auto

lemma armed_simps [simp]:
  "armed []" "armed (w # ws) \<longleftrightarrow> fw_task w \<noteq> None \<and> armed ws"
  "armed (xs @ ys) \<longleftrightarrow> armed xs \<and> armed ys" "fw_task (fw_new t wt fl b) = Some t"
  by (auto simp: armed_def fw_new_def)

lemma armed_subset: "set ys \<subseteq> set xs \<Longrightarrow> armed xs \<Longrightarrow> armed ys"
  by (auto simp: armed_def)

lemma remove_nth_update: "i < length xs \<Longrightarrow> remove_nth i (xs[i := y]) = remove_nth i xs"
  by (simp add: remove_nth_def)

lemma drop_remove_nth: "i < length xs \<Longrightarrow> drop i (remove_nth i xs) = drop (Suc i) xs"
  by (simp add: remove_nth_def)

lemma take_remove_nth: "i < length xs \<Longrightarrow> take i (remove_nth i xs) = take i xs"
  by (simp add: remove_nth_def)

lemma wake_loop_spec:
  assumes "\<And>tid. wk tid = Ok ()" and "armed ws" and "i \<le> length ws" and "c \<le> num"
  shows "wake_loop wk num b ws i c woken =
    (let hit = take (num - c) (filter (in_mask b) (drop i ws)) in
     (Ok (c + length hit), take i ws @ drop_first (num - c) (in_mask b) (drop i ws),
      woken @ map tid_of hit))"
  using assms
proof (induction wk num b ws i c woken rule: wake_loop.induct)
  case (1 wk num b ws i c woken)
  note unfold = wake_loop.simps [of wk num b ws i c woken]
  show ?case
  proof (cases "i < length ws \<and> c < num")
    case False
    then have "num - c = 0 \<or> drop i ws = []" "take i ws @ drop i ws = ws" using "1.prems" by auto
    then show ?thesis using False unfold by auto
  next
    case True
    then have i: "i < length ws" and c: "c < num" by auto
    have split: "drop i ws = ws ! i # drop (Suc i) ws" using i by (simp add: Cons_nth_drop_Suc)
    have less: "num - c = Suc (num - Suc c)" using c by simp
    obtain tid where tid: "fw_task (ws ! i) = Some tid" using "1.prems"(2) i by (auto simp: armed_def dest: nth_mem)
    show ?thesis
    proof (cases "in_mask b (ws ! i)")
      case m: False
      then have eq: "wake_loop wk num b ws i c woken = wake_loop wk num b ws (Suc i) c woken"
        using True unfold by (simp add: in_mask_def)
      have "take (Suc i) ws = take i ws @ [ws ! i]" using i by (rule take_Suc_conv_app_nth)
      moreover have "drop_first (num - c) (in_mask b) (drop i ws)
          = ws ! i # drop_first (num - c) (in_mask b) (drop (Suc i) ws)"
        using m split by simp
      moreover have "filter (in_mask b) (drop i ws) = filter (in_mask b) (drop (Suc i) ws)"
        using m split by simp
      ultimately show ?thesis
        using "1.IH"(2) [OF True _ "1.prems"(1,2)] "1.prems"(4) m i unfolding eq
        by (simp add: in_mask_def [of _ "ws ! i"] Let_def)
    next
      case m: True
      define ws' where "ws' = remove_nth i (ws[i := (ws ! i)\<lparr>fw_task := None\<rparr>])"
      have ws': "ws' = remove_nth i ws" using i by (simp add: ws'_def remove_nth_update)
      have wake: "fw_wake (ws ! i) = (Ok tid, (ws ! i)\<lparr>fw_task := None\<rparr>)"
        using tid by (simp add: fw_wake_def)
      have eq: "wake_loop wk num b ws i c woken = wake_loop wk num b ws' i (Suc c) (woken @ [tid])"
        using True m "1.prems"(1) unfold wake by (simp add: in_mask_def ws'_def)
      have "armed ws'" using "1.prems"(2) set_remove_nth_subset armed_subset ws' by metis
      moreover have "i \<le> length ws'" using i by (simp add: ws')
      ultimately show ?thesis
        using "1.IH"(1) [OF True _ wake [symmetric] refl "1.prems"(1) "1.prems"(1), folded ws'_def] m c i
        unfolding eq split less
        by (simp add: in_mask_def Let_def ws' drop_remove_nth take_remove_nth tid_of_def tid)
    qed
  qed
qed

section \<open>Conservation of waiters\<close>

text \<open>The threads of a queue that a wake can still reach: a waiter whose task was taken by a
  wake that failed stays in its queue, but nothing can wake its thread any more.\<close>

definition awaited :: "futex_waiter list \<Rightarrow> nat list" where
  "awaited ws = map tid_of (filter (\<lambda>w. fw_task w \<noteq> None) ws)"

lemma awaited_simps [simp]:
  "awaited [] = []" "awaited (xs @ ys) = awaited xs @ awaited ys"
  "awaited (w # ws) = (case fw_task w of None \<Rightarrow> awaited ws | Some t \<Rightarrow> t # awaited ws)"
  by (auto simp: awaited_def tid_of_def split: option.splits)

lemma awaited_armed: "armed ws \<Longrightarrow> awaited ws = map tid_of ws"
  by (simp add: awaited_def armed_def)

lemma awaited_split: "mset (awaited ws) = mset (awaited (take k ws)) + mset (awaited (drop k ws))"
  by (metis append_take_drop_id awaited_simps(2) mset_append)

definition waiting :: "futex_state \<Rightarrow> nat multiset" where
  "waiting s = bt_sum (\<lambda>ws. mset (awaited ws)) (fq_map s)"

definition fq_inv :: "futex_state \<Rightarrow> bool" where
  "fq_inv s \<longleftrightarrow> bt_wf (fq_map s) \<and> (\<forall>ws \<in> set (bt_values (fq_map s)). armed ws)"

lemma fq_inv_queue: "fq_inv s \<Longrightarrow> armed (queue_of (fq_map s) a)"
  by (auto simp: fq_inv_def queue_of_def in_bt_values split: option.splits)

lemma fq_inv_insert:
  "fq_inv s \<Longrightarrow> armed ws \<Longrightarrow> fq_inv (s\<lparr>fq_map := bt_insert a ws (fq_map s), fq_woken := l\<rparr>)"
  using bt_values_insert by (fastforce simp: fq_inv_def)

lemma fq_inv_map_insert:
  "fq_inv (s\<lparr>fq_map := m\<rparr>) \<Longrightarrow> armed ws \<Longrightarrow> fq_inv (s\<lparr>fq_map := bt_insert a ws m\<rparr>)"
  using fq_inv_insert [where s = "s\<lparr>fq_map := m\<rparr>" and ws = ws and a = a and l = "fq_woken s"] by simp

lemma fq_inv_remove: "fq_inv s \<Longrightarrow> fq_inv (s\<lparr>fq_map := bt_remove a (fq_map s)\<rparr>)"
  by (auto simp: fq_inv_def in_bt_values bt_wf_remove split: if_splits)

lemma fq_inv_new [simp]: "fq_inv fq_new" "waiting fq_new = {#}"
  by (auto simp: fq_inv_def fq_new_def waiting_def bt_empty_def bt_values_def)

lemma waiting_insert:
  assumes "bt_wf m"
  shows "bt_sum (\<lambda>ws. mset (awaited ws)) (bt_insert a ws m) + mset (awaited (queue_of m a))
       = bt_sum (\<lambda>ws. mset (awaited ws)) m + mset (awaited ws)"
  using bt_sum_insert [OF assms, of "\<lambda>ws. mset (awaited ws)" a ws]
  by (simp add: queue_of_def split: option.splits)

lemma waiting_remove:
  assumes "bt_wf m"
  shows "bt_sum (\<lambda>ws. mset (awaited ws)) (bt_remove a m) + mset (awaited (queue_of m a))
       = bt_sum (\<lambda>ws. mset (awaited ws)) m"
  using bt_sum_remove [OF assms, of "\<lambda>ws. mset (awaited ws)" a]
  by (simp add: queue_of_def split: option.splits)

lemma fq_wake_ok:
  fixes s :: futex_state and a :: usize and n :: nat and b :: u32
  assumes "\<And>tid. wk tid = Ok ()" and "fq_inv s"
  defines "ws \<equiv> queue_of (fq_map s) a"
  defines "hit \<equiv> take n (filter (in_mask b) ws)"
  obtains s' where "fq_wake wk a n b s = (Ok (length hit), s')"
    "queue_of (fq_map s') a = drop_first n (in_mask b) ws"
    "\<And>a'. a' \<noteq> a \<Longrightarrow> bt_get (fq_map s') a' = bt_get (fq_map s) a'"
    "fq_woken s' = fq_woken s @ map tid_of hit" "fq_inv s'"
proof (cases "bt_get (fq_map s) a")
  case None
  then have "ws = []" by (simp add: ws_def queue_of_def)
  with None assms(2) show ?thesis
    by (intro that [of s]) (auto simp: fq_wake_def hit_def queue_of_def)
next
  case (Some us)
  then have ws: "ws = us" by (simp add: ws_def queue_of_def)
  have armed: "armed ws" using assms(2) by (simp add: ws_def fq_inv_queue)
  let ?rest = "drop_first n (in_mask b) ws"
  let ?s = "s\<lparr>fq_map := bt_insert a ?rest (fq_map s), fq_woken := fq_woken s @ map tid_of hit\<rparr>"
  have run: "fq_wake wk a n b s = (Ok (length hit), ?s)"
    using Some wake_loop_spec [where wk = wk and ws = ws and i = 0 and c = 0 and num = n and b = b and woken = "fq_woken s"] assms(1) armed
    by (simp add: fq_wake_def ws hit_def Let_def)
  have inv: "fq_inv ?s"
    using fq_inv_insert [OF assms(2) armed_subset [OF set_drop_first armed]] .
  show ?thesis
    by (rule that [OF run _ _ _ inv]) (simp_all add: queue_of_def)
qed

text \<open>
  What each operation does to the threads that are waiting, in any state and for any kernel. A
  wake loses the thread of the first waiter of its mask that the kernel fails to wake
  (\<open>wake_victim\<close>): its task was taken before the kernel was asked. A requeue of a queue onto
  itself that does not move all of it loses the threads it was to move.
\<close>

fun wake_victim :: "(nat \<Rightarrow> unit res) \<Rightarrow> futex_waiter list \<Rightarrow> nat list" where
  "wake_victim wk [] = []"
| "wake_victim wk (w # ws) =
     (case fw_task w of None \<Rightarrow> []
      | Some t \<Rightarrow> (case wk t of Inl _ \<Rightarrow> [t] | Inr _ \<Rightarrow> wake_victim wk ws))"

lemma wake_victim_none: "(\<And>t. wk t = Ok ()) \<Longrightarrow> wake_victim wk ws = []"
  by (induction ws) (auto split: option.splits)

lemma awaited_remove_nth:
  "i < length ws \<Longrightarrow> fw_task (ws ! i) = Some t \<Longrightarrow>
     mset (awaited ws) = add_mset t (mset (awaited (remove_nth i ws)))"
  by (subst id_take_nth_drop [of i ws]) (simp_all add: remove_nth_def)

lemma awaited_disarm:
  "i < length ws \<Longrightarrow> fw_task (ws ! i) = Some t \<Longrightarrow>
     mset (awaited ws) = add_mset t (mset (awaited (ws[i := (ws ! i)\<lparr>fw_task := None\<rparr>])))"
  by (subst (1) id_take_nth_drop [of i ws]) (simp_all add: upd_conv_take_nth_drop)

lemma wake_loop_account:
  "wake_loop wk num b ws i c woken = (r, ws', woken') \<Longrightarrow>
     mset (awaited ws) + mset woken = mset (awaited ws') + mset woken'
       + mset (wake_victim wk (take (num - c) (filter (in_mask b) (drop i ws))))"
proof (induction wk num b ws i c woken rule: wake_loop.induct)
  case (1 wk num b ws i c woken)
  note unfold = wake_loop.simps [of wk num b ws i c woken]
  show ?case
  proof (cases "i < length ws \<and> c < num")
    case False
    then show ?thesis using "1.prems" unfold by auto
  next
    case True
    then have i: "i < length ws" and less: "num - c = Suc (num - Suc c)" by auto
    have split: "drop i ws = ws ! i # drop (Suc i) ws" using i by (simp add: Cons_nth_drop_Suc)
    show ?thesis
    proof (cases "in_mask b (ws ! i)")
      case m: False
      then show ?thesis
        using "1.IH"(2) [OF True] "1.prems" True split unfold by (simp add: in_mask_def)
    next
      case m: True
      show ?thesis
      proof (cases "fw_task (ws ! i)")
        case None
        then have "ws[i := (ws ! i)\<lparr>fw_task := None\<rparr>] = ws"
          by (metis futex_waiter.surjective futex_waiter.update_convs(1) list_update_id)
        with None show ?thesis
          using "1.prems" True m split less unfold by (simp add: in_mask_def fw_wake_def)
      next
        case (Some t)
        let ?ws = "remove_nth i (ws[i := (ws ! i)\<lparr>fw_task := None\<rparr>])"
        have wake: "fw_wake (ws ! i) = (Ok t, (ws ! i)\<lparr>fw_task := None\<rparr>)"
          using Some by (simp add: fw_wake_def)
        show ?thesis
        proof (cases "wk t")
          case (Inl e)
          then show ?thesis
            using "1.prems" True m split less Some unfold wake awaited_disarm [OF i Some]
            by (auto simp: in_mask_def)
        next
          case (Inr u)
          have "wake_loop wk num b ?ws i (Suc c) (woken @ [t]) = (r, ws', woken')"
            using "1.prems" True m unfold wake Inr by (simp add: in_mask_def)
          from "1.IH"(1) [OF True _ wake [symmetric] refl Inr this] m show ?thesis
            using Some Inr split less i awaited_remove_nth [OF i Some]
            by (simp add: in_mask_def remove_nth_update drop_remove_nth)
        qed
      qed
    qed
  qed
qed

lemma mset_swap:
  fixes k :: "'a multiset"
  assumes "w' + x = w + x'" and "x + k = x' + k' + l"
  shows "k + w = k' + w' + l"
proof -
  have "x' + (k + w) = k + (w' + x)" using assms(1) by (simp add: ac_simps)
  also have "\<dots> = w' + (x + k)" by (simp add: ac_simps)
  also have "\<dots> = x' + (k' + w' + l)" by (simp only: assms(2)) (simp add: ac_simps)
  finally show ?thesis by simp
qed

lemma fq_wake_account:
  assumes "bt_wf (fq_map s)" and "fq_wake wk a n b s = (r, s')"
  shows "bt_wf (fq_map s')"
    and "mset (fq_woken s) + waiting s = mset (fq_woken s') + waiting s'
       + mset (wake_victim wk (take n (filter (in_mask b) (queue_of (fq_map s) a))))"
proof -
  have "bt_wf (fq_map s') \<and> mset (fq_woken s) + waiting s = mset (fq_woken s') + waiting s'
       + mset (wake_victim wk (take n (filter (in_mask b) (queue_of (fq_map s) a))))"
  proof (cases "bt_get (fq_map s) a")
    case None
    with assms show ?thesis by (auto simp: fq_wake_def queue_of_def)
  next
    case (Some ws)
    obtain ws' woken' where l: "wake_loop wk n b ws 0 0 (fq_woken s) = (r, ws', woken')"
      and s': "s' = s\<lparr>fq_map := bt_insert a ws' (fq_map s), fq_woken := woken'\<rparr>"
      using assms(2) Some by (auto simp: fq_wake_def split: prod.splits)
    have q: "queue_of (fq_map s) a = ws" using Some by (simp add: queue_of_def)
    have "waiting s' + mset (awaited ws) = waiting s + mset (awaited ws')"
      using waiting_insert [OF assms(1), of a ws'] by (simp add: waiting_def s' q)
    then have "mset (fq_woken s) + waiting s = mset woken' + waiting s'
        + mset (wake_victim wk (take n (filter (in_mask b) ws)))"
      by (rule mset_swap) (use wake_loop_account [OF l] in simp)
    then show ?thesis using assms(1) by (simp add: s' q bt_wf_insert)
  qed
  then show "bt_wf (fq_map s')"
    and "mset (fq_woken s) + waiting s = mset (fq_woken s') + waiting s'
       + mset (wake_victim wk (take n (filter (in_mask b) (queue_of (fq_map s) a))))" by auto
qed

text \<open>The waiters that a requeue moves, and those it drops.\<close>

definition moved_by :: "nat \<Rightarrow> futex_waiter list \<Rightarrow> futex_waiter list" where
  "moved_by num ws = drop (length ws - num) ws"

definition dropped_by :: "usize \<Rightarrow> nat \<Rightarrow> usize \<Rightarrow> futex_state \<Rightarrow> futex_waiter list" where
  "dropped_by new num old s =
     (let ws = queue_of (fq_map s) old in if new = old \<and> num < length ws then moved_by num ws else [])"

lemma fq_requeue_effect:
  fixes s :: futex_state and new old :: usize and num :: nat
  assumes "bt_wf (fq_map s)"
  defines "ws \<equiv> queue_of (fq_map s) old"
  obtains s' where "fq_requeue new num old s = (Ok (min num (length ws)), s')"
    "queue_of (fq_map s') old
       = (if new = old \<and> length ws \<le> num then ws else take (length ws - num) ws)"
    "new \<noteq> old \<Longrightarrow> queue_of (fq_map s') new = queue_of (fq_map s) new @ moved_by num ws"
    "\<And>a. a \<noteq> old \<Longrightarrow> a \<noteq> new \<Longrightarrow> queue_of (fq_map s') a = queue_of (fq_map s) a"
    "fq_woken s' = fq_woken s" "bt_wf (fq_map s')"
    "waiting s = waiting s' + mset (awaited (dropped_by new num old s))"
proof (cases "num = 0 \<or> bt_get (fq_map s) old = None")
  case True
  with assms(1) show ?thesis
    by (intro that [of s]) (auto simp: fq_requeue_def queue_of_def ws_def moved_by_def dropped_by_def Let_def)
next
  case False
  then obtain us where us: "bt_get (fq_map s) old = Some us" and num: "num \<noteq> 0" by auto
  then have ws: "ws = us" "queue_of (fq_map s) old = us" by (simp_all add: ws_def queue_of_def)
  define stay where "stay = take (length us - num) us"
  define move where "move = moved_by num us"
  have k: "length us - min num (length us) = length us - num" by auto
  define m1 where "m1 = bt_remove old (fq_map s)"
  define m2 where "m2 = bt_insert new (queue_of m1 new @ move) m1"
  define m3 where "m3 = (if stay = [] then m2 else bt_insert old stay m2)"
  have run: "fq_requeue new num old s = (Ok (min num (length us)), s\<lparr>fq_map := m3\<rparr>)"
    using us num by (simp add: fq_requeue_def Let_def k m1_def m2_def m3_def stay_def move_def moved_by_def)
  have q1: "queue_of m1 a = (if a = old then [] else queue_of (fq_map s) a)" for a
    by (simp add: queue_of_def m1_def)
  have q2: "queue_of m2 a = (if a = new then queue_of m1 new @ move else queue_of m1 a)" for a
    by (simp add: queue_of_def m2_def)
  have q3: "queue_of m3 a = (if a = old \<and> stay \<noteq> [] then stay else queue_of m2 a)" for a
    by (simp add: queue_of_def m3_def)
  have wf: "bt_wf m1" "bt_wf m2" "bt_wf m3"
    using assms(1) by (simp_all add: m1_def m2_def m3_def bt_wf_insert bt_wf_remove)
  let ?sum = "bt_sum (\<lambda>ws. mset (awaited ws))"
  have w1: "?sum m1 + mset (awaited us) = waiting s"
    using waiting_remove [OF assms(1), of old] by (simp add: waiting_def ws m1_def)
  have w2: "?sum m2 = ?sum m1 + mset (awaited move)"
    using waiting_insert [OF wf(1), of new "queue_of m1 new @ move"] by (simp add: ac_simps m2_def)
  have w3: "?sum m3 + mset (awaited (dropped_by new num old s)) = ?sum m2 + mset (awaited stay)"
  proof (cases "stay = []")
    case True
    then have "length us \<le> num \<or> us = []" by (auto simp: stay_def)
    with True show ?thesis by (auto simp: m3_def dropped_by_def ws)
  next
    case False
    then have "num < length us" by (auto simp: stay_def)
    then have "queue_of m2 old = dropped_by new num old s"
      by (auto simp: q2 q1 dropped_by_def ws move_def)
    with False show ?thesis using waiting_insert [OF wf(2), of old stay] by (simp add: m3_def)
  qed
  have "mset (awaited us) = mset (awaited stay) + mset (awaited move)"
    unfolding stay_def move_def moved_by_def by (rule awaited_split)
  with w1 w2 w3 have "waiting s = ?sum m3 + mset (awaited (dropped_by new num old s))"
    by (simp add: ac_simps)
  then have W: "waiting s = waiting (s\<lparr>fq_map := m3\<rparr>) + mset (awaited (dropped_by new num old s))"
    by (simp add: waiting_def)
  have stay_nil: "stay = [] \<longleftrightarrow> length us \<le> num \<or> us = []" by (auto simp: stay_def)
  show ?thesis
    by (rule that [of "s\<lparr>fq_map := m3\<rparr>"])
      (use run wf W stay_nil in \<open>auto simp: q1 q2 q3 ws stay_def move_def moved_by_def\<close>)
qed

lemma add_waiter_ok:
  assumes "fq_inv s"
  shows "fq_inv (add_waiter a (fw_new t wt fl b) s)"
  using fq_inv_map_insert [where s = s and m = "fq_map s" and ws = "queue_of (fq_map s) a @ [fw_new t wt fl b]" and a = a] assms
  by (simp add: add_waiter_def fq_inv_queue)

lemma add_waiter_account:
  assumes "bt_wf (fq_map s)"
  shows "bt_wf (fq_map (add_waiter a (fw_new t wt fl b) s))"
    and "waiting (add_waiter a (fw_new t wt fl b) s) = add_mset t (waiting s)"
    and "fq_woken (add_waiter a (fw_new t wt fl b) s) = fq_woken s"
  using assms bt_wf_insert waiting_insert [OF assms, of a "queue_of (fq_map s) a @ [fw_new t wt fl b]"]
  by (auto simp: waiting_def add_waiter_def fw_new_def)

text \<open>
  The runs of the queues: threads that go to sleep on a futex, wakes of any number with any mask,
  each with a kernel of its own that may fail for some threads, and requeues between any two
  futexes, the same one included. \<open>futex_slept\<close> are the threads that went to sleep,
  \<open>futex_lost\<close> the threads that the steps lose as said above.
\<close>

datatype futex_step =
    Sleep nat usize u32
  | Wake "nat \<Rightarrow> unit res" usize nat u32
  | Requeue usize nat usize

fun futex_do :: "futex_step \<Rightarrow> futex_state \<Rightarrow> futex_state" where
  "futex_do (Sleep tid a b) s = add_waiter a (fw_new tid None False b) s"
| "futex_do (Wake wk a n b) s = snd (fq_wake wk a n b s)"
| "futex_do (Requeue new n old) s = snd (fq_requeue new n old s)"

fun futex_exec :: "futex_step list \<Rightarrow> futex_state \<Rightarrow> futex_state" where
  "futex_exec [] s = s"
| "futex_exec (st # steps) s = futex_exec steps (futex_do st s)"

fun step_slept :: "futex_step \<Rightarrow> nat list" where
  "step_slept (Sleep tid a b) = [tid]"
| "step_slept _ = []"

definition futex_slept :: "futex_step list \<Rightarrow> nat list" where
  "futex_slept steps = concat (map step_slept steps)"

fun step_lost :: "futex_step \<Rightarrow> futex_state \<Rightarrow> nat list" where
  "step_lost (Sleep tid a b) s = []"
| "step_lost (Wake wk a n b) s = wake_victim wk (take n (filter (in_mask b) (queue_of (fq_map s) a)))"
| "step_lost (Requeue new n old) s = awaited (dropped_by new n old s)"

fun futex_lost :: "futex_step list \<Rightarrow> futex_state \<Rightarrow> nat list" where
  "futex_lost [] s = []"
| "futex_lost (st # steps) s = step_lost st s @ futex_lost steps (futex_do st s)"

fun harmless :: "futex_step \<Rightarrow> bool" where
  "harmless (Sleep tid a b) = True"
| "harmless (Wake wk a n b) = (\<forall>t. wk t = Ok ())"
| "harmless (Requeue new n old) = (new \<noteq> old)"

lemma harmless_loses_nothing: "harmless st \<Longrightarrow> step_lost st s = []"
  by (cases st) (simp_all add: wake_victim_none dropped_by_def)

lemma futex_do_account:
  assumes "bt_wf (fq_map s)"
  shows "bt_wf (fq_map (futex_do st s))
    \<and> mset (step_slept st) + mset (fq_woken s) + waiting s
       = mset (fq_woken (futex_do st s)) + waiting (futex_do st s) + mset (step_lost st s)"
proof (cases st)
  case (Sleep tid a b)
  then show ?thesis using add_waiter_account [OF assms] by simp
next
  case (Wake wk a n b)
  obtain r s' where w: "fq_wake wk a n b s = (r, s')" by fastforce
  then show ?thesis using fq_wake_account [OF assms w] Wake by simp
next
  case (Requeue new n old)
  then show ?thesis using fq_requeue_effect [OF assms, of new n old]
    by (metis (no_types, lifting) add.left_neutral add.assoc futex_do.simps(3) mset.simps(1)
        snd_conv step_lost.simps(3) step_slept.simps(3))
qed

lemma futex_exec_account:
  "bt_wf (fq_map s) \<Longrightarrow>
     mset (futex_slept steps) + mset (fq_woken s) + waiting s
       = mset (fq_woken (futex_exec steps s)) + waiting (futex_exec steps s) + mset (futex_lost steps s)"
proof (induction steps arbitrary: s)
  case (Cons st steps)
  from futex_do_account [OF Cons.prems, of st]
  have wf: "bt_wf (fq_map (futex_do st s))"
    and step: "mset (step_slept st) + mset (fq_woken s) + waiting s
       = mset (fq_woken (futex_do st s)) + waiting (futex_do st s) + mset (step_lost st s)" by auto
  have "mset (futex_slept (st # steps)) + mset (fq_woken s) + waiting s
      = mset (futex_slept steps) + (mset (step_slept st) + mset (fq_woken s) + waiting s)"
    by (simp add: futex_slept_def ac_simps)
  also have "\<dots> = mset (futex_slept steps) + mset (fq_woken (futex_do st s)) + waiting (futex_do st s)
      + mset (step_lost st s)" by (simp only: step) (simp add: ac_simps)
  finally show ?case using Cons.IH [OF wf] by (simp add: ac_simps)
qed (simp add: futex_slept_def)

lemma futex_lost_none: "(\<And>st. st \<in> set steps \<Longrightarrow> harmless st) \<Longrightarrow> futex_lost steps s = []"
  by (induction steps arbitrary: s) (simp_all add: harmless_loses_nothing)

section \<open>Properties\<close>

text \<open>C1: A futex wake, when the kernel can wake every task, wakes exactly the first \<open>num\<close>
  waiters of the queue whose mask meets the given one, in the order they went to sleep,
  returns how many those were, leaves all other waiters queued in their order, and touches
  no other queue.\<close>

theorem futex_wake_fifo:
  assumes "\<And>tid. wk tid = Ok ()" and "fq_inv s"
  shows "\<exists>s'. fq_wake wk a num bits s
           = (Ok (length (take num (filter (in_mask bits) (queue_of (fq_map s) a)))), s')
       \<and> fq_woken s' = fq_woken s @ map tid_of (take num (filter (in_mask bits) (queue_of (fq_map s) a)))
       \<and> queue_of (fq_map s') a = drop_first num (in_mask bits) (queue_of (fq_map s) a)
       \<and> (\<forall>a'. a' \<noteq> a \<longrightarrow> queue_of (fq_map s') a' = queue_of (fq_map s) a')
       \<and> fq_inv s'"
  using fq_wake_ok [where wk = wk and s = s and a = a and n = num and b = bits] assms
  by (metis queue_of_def)

definition two_sleepers :: futex_state where
  "two_sleepers = add_waiter 8 (fw_new 12 None False 1) (add_waiter 8 (fw_new 11 None False 1) fq_new)"

lemma two_sleepers_inv: "fq_inv two_sleepers"
  by (simp add: two_sleepers_def add_waiter_ok)

lemma two_sleepers_queue:
  "queue_of (fq_map two_sleepers) 8 = [fw_new 11 None False 1, fw_new 12 None False 1]"
  by (simp add: two_sleepers_def add_waiter_def fq_new_def queue_of_def bt_empty_def)

theorem futex_wake_fifo_witness:
  "\<exists>s'. fq_wake (\<lambda>_. Ok ()) 8 1 (-1) two_sleepers = (Ok 1, s') \<and> fq_woken s' = [11]"
  using futex_wake_fifo [of "\<lambda>_. Ok ()" two_sleepers 8 1 "-1"] two_sleepers_inv
  by (auto simp: two_sleepers_queue in_mask_def fw_new_def tid_of_def)
    (simp_all add: two_sleepers_def add_waiter_def fq_new_def)


text \<open>Five threads sleep on futex 8; one is woken, two are moved to futex 16, the kernel fails to
  wake thread 14 there, and the two left are requeued onto their own futex by one.\<close>

definition lossy_run :: "futex_step list" where
  "lossy_run = [Sleep 11 8 1, Sleep 12 8 1, Sleep 13 8 1, Sleep 14 8 1, Sleep 15 8 1,
     Wake (\<lambda>_. Ok ()) 8 1 1, Requeue 16 2 8,
     Wake (\<lambda>t. if t = 14 then Err ESRCH else Ok ()) 16 2 1, Requeue 8 1 8]"


text \<open>Requeueing up to \<open>num\<close> waiters onto another futex moves the waiters that went to
  sleep last (not the longest-waiting ones), in order, behind the waiters already there,
  keeps the others where they are, returns how many moved, and wakes nobody.\<close>

theorem futex_requeue_moves_tail:
  assumes "fq_inv s" and "new \<noteq> old"
  shows "\<exists>s'. let ws = queue_of (fq_map s) old in
         fq_requeue new num old s = (Ok (min num (length ws)), s')
       \<and> queue_of (fq_map s') old = take (length ws - num) ws
       \<and> queue_of (fq_map s') new = queue_of (fq_map s) new @ drop (length ws - num) ws
       \<and> (\<forall>a. a \<noteq> old \<and> a \<noteq> new \<longrightarrow> queue_of (fq_map s') a = queue_of (fq_map s) a)
       \<and> fq_woken s' = fq_woken s \<and> waiting s' = waiting s"
proof -
  have "bt_wf (fq_map s)" using assms(1) by (simp add: fq_inv_def)
  then show ?thesis
    by (rule fq_requeue_effect [of s new num old])
      (use assms(2) in \<open>auto simp: dropped_by_def moved_by_def Let_def\<close>)
qed

theorem futex_requeue_moves_tail_witness:
  "\<exists>s'. fq_requeue 16 1 8 two_sleepers = (Ok 1, s')
      \<and> map tid_of (queue_of (fq_map s') 8) = [11] \<and> map tid_of (queue_of (fq_map s') 16) = [12]"
  using futex_requeue_moves_tail [OF two_sleepers_inv, of 16 8 1]
  by (auto simp: two_sleepers_queue fw_new_def tid_of_def)
    (auto simp: two_sleepers_def add_waiter_def fq_new_def queue_of_def bt_empty_def)

text \<open>A requeue of a futex onto itself loses waiters: when fewer than all of them are to
  move, the moved ones are dropped from every queue (the queue of the waiters that stay is
  written over the one that received them), so nothing will ever wake them.\<close>

theorem futex_requeue_self_loses:
  assumes "fq_inv s" and "0 < num" and "num < length (queue_of (fq_map s) a)"
  shows "\<exists>s'. fq_requeue a num a s = (Ok num, s')
       \<and> queue_of (fq_map s') a
           = take (length (queue_of (fq_map s) a) - num) (queue_of (fq_map s) a)
       \<and> fq_woken s' = fq_woken s
       \<and> waiting s = waiting s' + mset (map tid_of
           (drop (length (queue_of (fq_map s) a) - num) (queue_of (fq_map s) a)))"
proof -
  have wf: "bt_wf (fq_map s)" using assms(1) by (simp add: fq_inv_def)
  let ?ws = "queue_of (fq_map s) a"
  have drp: "awaited (dropped_by a num a s) = map tid_of (drop (length ?ws - num) ?ws)"
    using assms(3) awaited_armed [OF armed_subset [OF set_drop_subset fq_inv_queue [OF assms(1)]]]
    by (simp add: dropped_by_def moved_by_def Let_def)
  show ?thesis
    by (rule fq_requeue_effect [OF wf, of a num a]) (use assms(3) drp in \<open>auto simp: min_def\<close>)
qed

theorem futex_requeue_self_loses_witness:
  "\<exists>s'. fq_requeue 8 1 8 two_sleepers = (Ok 1, s')
      \<and> waiting two_sleepers = waiting s' + {#12#}"
  using futex_requeue_self_loses [OF two_sleepers_inv, of 1 8]
  by (auto simp: two_sleepers_queue fw_new_def tid_of_def)

text \<open>\<open>FUTEX_WAIT\<close> compares before it sleeps: with a changed futex word it returns
  \<open>EAGAIN\<close> and leaves the queues as they were; with the expected one the caller is put at the
  end of that futex's queue, for every mask, and sleeps (when the kernel cannot put it to sleep, the
  call ends with that error and the caller stays queued); an unknown operation is \<open>EINVAL\<close>,
  a known one that is not handled \<open>ENOSYS\<close>.\<close>

theorem futex_wait_guard:
  assumes "fe_op_of env opc = None \<or> (\<exists>n. fe_op_of env opc = Some (FutexOther n))
         \<or> fe_op_of env opc \<in> {Some FutexWait, Some FutexWaitPrivate}"
    and "fe_read_atomic env uaddr = Some v"
  shows "futex env uaddr opc val 0 uaddr2 val3 s =
     (case fe_op_of env opc of
        None \<Rightarrow> (Err EINVAL, s)
      | Some (FutexOther n) \<Rightarrow> (Err ENOSYS, s)
      | Some _ \<Rightarrow>
          if v \<noteq> ucast val then (Err EAGAIN, s)
          else (case fe_wait_now env of Inl e \<Rightarrow> Inl e | Inr _ \<Rightarrow> Ok Block, s\<lparr>fq_map := bt_insert uaddr
              (queue_of (fq_map s) uaddr @ [fw_new (fe_tid env) None False (-1)]) (fq_map s)\<rparr>))"
  using assms by (auto simp: futex_def futex_wait_def futex_wait_on_def add_waiter_def act_simps split: sum.splits)

definition demo_futex_env :: futex_env where
  "demo_futex_env = \<lparr>fe_op_of = (\<lambda>w. if w = 0 then Some FutexWait else if w = 1 then Some FutexWake
       else if w = 5 then Some (FutexOther 5) else None),
     fe_read_atomic = (\<lambda>_. Some 7), fe_read_timespec = (\<lambda>_. None), fe_now = 0,
     fe_wake = (\<lambda>_. Ok ()), fe_tid = 13, fe_wait_now = Ok ()\<rparr>"

theorem futex_wait_guard_witness:
  "futex demo_futex_env 8 9 0 0 0 0 fq_new = (Err EINVAL, fq_new)
   \<and> futex demo_futex_env 8 5 0 0 0 0 fq_new = (Err ENOSYS, fq_new)
   \<and> futex demo_futex_env 8 0 6 0 0 0 fq_new = (Err EAGAIN, fq_new)
   \<and> fst (futex demo_futex_env 8 0 7 0 0 0 fq_new) = Ok Block"
  using futex_wait_guard [of demo_futex_env 9 8 7 0 0 0 fq_new]
    futex_wait_guard [of demo_futex_env 5 8 7 0 0 0 fq_new]
    futex_wait_guard [of demo_futex_env 0 8 7 6 0 0 fq_new]
    futex_wait_guard [of demo_futex_env 0 8 7 7 0 0 fq_new]
  by (simp add: demo_futex_env_def)

end
