(* ===== verification/TaskState.thy ===== *)
theory TaskState
  imports Elf Futex
begin

text \<open>
  The state of the task domain (\<open>common/task/task/src\<close>: \<open>task.rs\<close>, \<open>processor.rs\<close>,
  \<open>resource.rs\<close>, \<open>vfs_shim.rs\<close>, \<open>arch\<close>) and what every call uses of it. A \<open>Task\<close> is a record
  stored at an identity; an \<open>Arc\<close> it shares with other tasks (address space, descriptor table,
  heap, mappings, signal state, thread counter) is the identity of an object of \<open>ts_obj\<close>.
  References that count are those of the global task table, of the \<open>children\<close> maps and of the
  initial process; \<open>parent\<close> is a weak one. \<open>reclaim\<close> is what the end of a call does when its
  local references go out of scope: tasks nobody holds are dropped, with their thread ids, and
  every \<open>ShimFile\<close> nobody holds is closed in the VFS domain.
\<close>

unbundle bit_operations_syntax

section \<open>Types\<close>

text \<open>The states of \<open>task_meta::TaskStatus\<close> that the domain sets.\<close>

datatype task_status = Ready | Zombie | Terminated

record fs_context =
  fc_cwd :: shim_file
  fc_root :: shim_file

record signal_stack =
  ss_sp :: usize
  ss_flags :: u32
  ss_size :: usize

record rlimit64 =
  rlim_cur :: u64
  rlim_max :: u64

record task_inner =
  ti_name :: "u8 list"
  ti_thread_number :: nat
  ti_process_group :: nat
  ti_session_id :: nat
  ti_status :: task_status
  ti_parent :: "nat option"
  ti_children :: "(nat, nat) btree"
  ti_fs_info :: fs_context
  ti_umask :: u32
  ti_exit_code :: i32
  ti_clear_child_tid :: usize
  ti_stack :: "usize \<times> usize"
  ti_resource_limits :: "rlimit64 list"
  ti_ss_stack :: signal_stack

record task =
  tk_tid :: nat
  tk_pid :: nat
  tk_sigchld :: bool
  tk_kernel_stack :: usize
  tk_space :: nat
  tk_fds :: nat
  tk_heap :: nat
  tk_mmap :: nat
  tk_handlers :: nat
  tk_receivers :: nat
  tk_threads :: nat
  tk_inner :: task_inner

text \<open>The shared objects of the tasks, by identity. \<open>'h\<close> is \<open>SignalHandlers\<close> of \<open>basic\<close>;
  of \<open>SignalReceivers\<close> the calls use the mask, of an \<open>IndexAllocator\<close> the allocated indices.\<close>

record ('v, 'h) task_objects =
  ob_space :: "nat \<Rightarrow> 'v"
  ob_fds :: "nat \<Rightarrow> fd_manager"
  ob_heap :: "nat \<Rightarrow> heap_info"
  ob_mmap :: "nat \<Rightarrow> mmap_info"
  ob_handlers :: "nat \<Rightarrow> 'h"
  ob_mask :: "nat \<Rightarrow> u64"
  ob_threads :: "nat \<Rightarrow> nat list"

record ('v, 'h, 'w) tstate =
  ts_task :: "nat \<Rightarrow> task"
  ts_live :: "nat list"                    \<comment> \<open>the tasks that exist\<close>
  ts_next :: nat                           \<comment> \<open>the next fresh identity\<close>
  ts_global :: "(nat, nat) btree"          \<comment> \<open>\<open>GLOBAL_TASK_MANAGER\<close>\<close>
  ts_init :: "nat option"                  \<comment> \<open>\<open>INIT_PROCESS\<close>\<close>
  ts_tids :: "nat list"                    \<comment> \<open>\<open>TID_MANAGER\<close>: the allocated ids\<close>
  ts_obj :: "('v, 'h) task_objects"
  ts_shims :: "shim_file list"             \<comment> \<open>the \<open>ShimFile\<close>s that exist\<close>
  ts_stdio :: "shim_file \<times> shim_file"      \<comment> \<open>\<open>STDIN\<close>, \<open>STDOUT\<close>\<close>
  ts_futex :: futex_state                  \<comment> \<open>\<open>FUTEX_WAITER\<close>\<close>
  ts_world :: 'w                           \<comment> \<open>the kernel and the VFS domain\<close>

section \<open>What the domain calls\<close>

record user_arch_state =
  ua_primary :: usize
  ua_secondary :: usize

text \<open>The kernel (\<open>basic\<close>): the scheduler, and the registers of the processor. \<open>'cx\<close> is
  \<open>TaskContext\<close>.\<close>

record ('w, 'cx) sched_ops =
  kn_current_tid :: "('w, nat option) act"
  kn_add_one_task :: "nat \<Rightarrow> 'cx \<Rightarrow> usize \<Rightarrow> ('w, usize) act"   \<comment> \<open>tid, context, \<open>cpus_allowed\<close>\<close>
  kn_wake :: "nat \<Rightarrow> ('w, unit) act"                           \<comment> \<open>\<open>wake_up_wait_task\<close>\<close>
  kn_is_task_exit :: "nat \<Rightarrow> ('w, bool) act"
  kn_remove_task :: "nat \<Rightarrow> ('w, unit) act"
  kn_exit_now :: "('w, unit) act"
  kn_yield_now :: "('w, unit) act"
  kn_wait_now :: "('w, unit) act"
  kn_set_priority :: "8 word \<Rightarrow> ('w, unit) act"
  kn_get_priority :: "('w, 8 word) act"

record ('w, 'cx) cpu_ops =
  kn_fs_base :: "('w, usize) act"
  kn_gs_base :: "('w, usize) act"
  kn_set_fs_base :: "usize \<Rightarrow> ('w, unit) act"
  kn_set_gs_base :: "usize \<Rightarrow> ('w, unit) act"
  kn_cpu_id :: "'w \<Rightarrow> nat"
  kn_vdso_map_user :: "usize \<Rightarrow> ('w, usize) act"
  kn_now :: "'w \<Rightarrow> usize"
  cx_new_user :: 'cx
  cx_new_kernel :: 'cx
  cx_set_fs_base :: "usize \<Rightarrow> 'cx \<Rightarrow> 'cx"
  cx_set_gs_base :: "usize \<Rightarrow> 'cx \<Rightarrow> 'cx"

text \<open>The methods of the VFS domain that \<open>vfs_shim.rs\<close> calls; of the attributes it uses the mode
  and the size.\<close>

record 'w shim_vfs =
  sv_open :: "u64 \<Rightarrow> u8 list \<Rightarrow> nat \<Rightarrow> u32 \<Rightarrow> usize \<Rightarrow> ('w, u64) act"
  sv_close :: "u64 \<Rightarrow> ('w, unit) act"
  sv_getattr :: "u64 \<Rightarrow> ('w, u32 \<times> u64) act"
  sv_read_at :: "u64 \<Rightarrow> u64 \<Rightarrow> u8 list \<Rightarrow> ('w, u8 list \<times> nat) act"

text \<open>An address space, and the trap frame at a physical address of one.\<close>

record ('v, 'tf) space_ops =
  so_vm :: "'v vm_ops"
  so_clone :: "'v clone_ops"
  so_read_atomic :: "usize \<Rightarrow> 'v \<Rightarrow> usize option"
  so_root_paddr :: "'v \<Rightarrow> usize"
  so_tf_load :: "usize \<Rightarrow> 'v \<Rightarrow> 'tf"
  so_tf_store :: "usize \<Rightarrow> 'tf \<Rightarrow> 'v \<Rightarrow> 'v"
  tf_new_user :: "usize \<Rightarrow> usize \<Rightarrow> usize \<Rightarrow> 'tf"                  \<comment> \<open>entry, user and kernel stack\<close>
  tf_update_result :: "usize \<Rightarrow> 'tf \<Rightarrow> 'tf"
  tf_update_k_sp :: "usize \<Rightarrow> 'tf \<Rightarrow> 'tf"
  tf_update_user_sp :: "usize \<Rightarrow> 'tf \<Rightarrow> 'tf"
  tf_update_tls :: "usize \<Rightarrow> 'tf \<Rightarrow> 'tf"

datatype sigprocmask_how = SigBlock | SigUnblock | SigSetMask

record 'h signal_ops =
  sg_new :: 'h
  sg_number_ok :: "u8 \<Rightarrow> bool"                     \<comment> \<open>\<open>SignalNumber::try_from\<close> succeeds\<close>
  sg_SIGCHLD :: u8
  sg_action_size :: nat
  sg_get_action :: "u8 \<Rightarrow> 'h \<Rightarrow> u8 list"
  sg_set_action :: "u8 \<Rightarrow> u8 list \<Rightarrow> 'h \<Rightarrow> 'h"
  sg_how :: "usize \<Rightarrow> sigprocmask_how option"
  sg_add :: "u64 \<Rightarrow> u64 \<Rightarrow> u64"                      \<comment> \<open>\<open>SimpleBitSet\<close>'s \<open>+=\<close>\<close>
  sg_sub :: "u64 \<Rightarrow> u64 \<Rightarrow> u64"                      \<comment> \<open>\<open>SimpleBitSet\<close>'s \<open>-=\<close>\<close>

text \<open>The bytes of a \<open>Pod\<close> value in user memory.\<close>

record 'a pod =
  pod_size :: nat
  pod_bytes :: "'a \<Rightarrow> u8 list"
  pod_value :: "u8 list \<Rightarrow> 'a"

record task_pods =
  pod_rlimit :: "rlimit64 pod"
  pod_sigstack :: "signal_stack pod"
  pod_timespec :: "usize pod"                \<comment> \<open>as clock ticks\<close>

record clone_flags =
  CLONE_VM :: u32
  CLONE_FILES :: u32
  CLONE_PARENT :: u32
  CLONE_THREAD :: u32
  CLONE_SETTLS :: u32
  CLONE_PARENT_SETTID :: u32
  CLONE_CHILD_CLEARTID :: u32
  CLONE_CHILD_SETTID :: u32
  CLONE_ALL :: u32

record task_consts =
  WNOHANG :: u32
  WNOWAIT :: u32
  WAIT_ALL :: u32
  VFS_ROOT :: u64
  VFS_STDIN :: u64
  VFS_STDOUT :: u64
  EXEC_MODES :: "u32 \<times> u32"                \<comment> \<open>all mode bits, the three execute bits\<close>
  MAX_FD :: nat
  AT_SYSINFO :: usize
  FUTEX_WAKE :: u32                        \<comment> \<open>\<open>FutexOp::FutexWake as u32\<close>\<close>
  RLIMIT_AS :: nat
  RLIMIT_STACK :: nat
  RLIMIT_NOFILE :: nat
  rlimit_of :: "usize \<Rightarrow> nat option"         \<comment> \<open>\<open>PrLimitResType::try_from\<close>\<close>

datatype prio_which = PRIO_PROCESS | PRIO_PGRP | PRIO_USER

text \<open>The part of the domain that depends on the target.\<close>

record ('w, 'tf, 'cx) user_arch =
  ua_current :: "('w, user_arch_state) act"
  ua_clone :: "user_arch_state \<Rightarrow> bool \<Rightarrow> usize \<Rightarrow> user_arch_state"
  ua_apply :: "user_arch_state \<Rightarrow> 'cx \<Rightarrow> 'cx"
  ua_set_current :: "user_arch_state \<Rightarrow> ('w, unit) act"
  ua_apply_trap_tls :: "usize \<Rightarrow> 'tf \<Rightarrow> 'tf"
  ua_token :: "usize \<Rightarrow> usize"

record ('v, 'h, 'w, 'tf, 'cx) task_env =
  te_sched :: "('w, 'cx) sched_ops"
  te_cpu :: "('w, 'cx) cpu_ops"
  te_vfs :: "'w shim_vfs"
  te_space :: "('v, 'tf) space_ops"
  te_elf :: "'v elf_cfg"
  te_arch :: "'v arch_ops"
  te_stack :: stack_cfg
  te_user :: "('w, 'tf, 'cx) user_arch"
  te_sig :: "'h signal_ops"
  te_pods :: task_pods
  te_clone :: clone_flags
  te_consts :: task_consts
  te_pick :: "nat list \<Rightarrow> nat option"      \<comment> \<open>\<open>IndexAllocator::allocate\<close>: a free index\<close>
  te_futex_op :: "u32 \<Rightarrow> futex_op option"
  te_fcntl :: "u32 \<Rightarrow> fcntl64 option"
  te_which :: "i32 \<Rightarrow> prio_which res"       \<comment> \<open>\<open>Which::try_from\<close>\<close>

section \<open>The targets\<close>

definition initial_user_state :: "usize \<Rightarrow> user_arch_state" where
  "initial_user_state tls = \<lparr> ua_primary = tls, ua_secondary = 0 \<rparr>"

definition riscv64_user :: "('v, 'tf) space_ops \<Rightarrow> ('w, 'tf, 'cx) user_arch" where
  "riscv64_user so =
     \<lparr> ua_current = ret \<lparr> ua_primary = 0, ua_secondary = 0 \<rparr>,
       ua_clone = (\<lambda>parent_state set_tls tls.
         if set_tls then \<lparr> ua_primary = tls, ua_secondary = 0 \<rparr> else parent_state),
       ua_apply = (\<lambda>_ context. context),
       ua_set_current = (\<lambda>_. ret ()),
       ua_apply_trap_tls = tf_update_tls so,
       ua_token = (\<lambda>paddr. push_bit 60 8 OR drop_bit 12 paddr) \<rparr>"

definition x86_64_user :: "('w, 'cx) cpu_ops \<Rightarrow> ('w, 'tf, 'cx) user_arch" where
  "x86_64_user k =
     \<lparr> ua_current = bind (kn_fs_base k) (\<lambda>fs. bind (kn_gs_base k) (\<lambda>gs.
         ret \<lparr> ua_primary = fs, ua_secondary = gs \<rparr>)),
       ua_clone = (\<lambda>parent_state set_tls tls.
         if set_tls then \<lparr> ua_primary = tls, ua_secondary = ua_secondary parent_state \<rparr> else parent_state),
       ua_apply = (\<lambda>st context. cx_set_gs_base k (ua_secondary st) (cx_set_fs_base k (ua_primary st) context)),
       ua_set_current = (\<lambda>st. bind (kn_set_fs_base k (ua_primary st)) (\<lambda>_. kn_set_gs_base k (ua_secondary st))),
       ua_apply_trap_tls = (\<lambda>_ trap_frame. trap_frame),
       ua_token = (\<lambda>paddr. paddr) \<rparr>"

section \<open>Resource limits\<close>

text \<open>Indexing the array of limits is checked.\<close>

definition get_rlimit :: "rlimit64 list \<Rightarrow> nat \<Rightarrow> rlimit64 res" where
  "get_rlimit rlimits resource = (if resource < length rlimits then Ok (rlimits ! resource) else panic)"

definition set_rlimit :: "nat \<Rightarrow> rlimit64 \<Rightarrow> rlimit64 list \<Rightarrow> rlimit64 list res" where
  "set_rlimit resource limit rlimits =
     (if resource < length rlimits then Ok (rlimits[resource := limit]) else panic)"

definition rlimits_default :: "task_consts \<Rightarrow> usize \<Rightarrow> rlimit64 list" where
  "rlimits_default k stack_size =
     ((replicate 16 \<lparr> rlim_cur = 0, rlim_max = 0 \<rparr>)
        [RLIMIT_AS k := \<lparr> rlim_cur = -1, rlim_max = -1 \<rparr>,
         RLIMIT_STACK k := \<lparr> rlim_cur = stack_size, rlim_max = -1 \<rparr>,
         RLIMIT_NOFILE k := \<lparr> rlim_cur = 4096, rlim_max = -1 \<rparr>])"

section \<open>Access to the state\<close>

definition in_world :: "('w, 'a) act \<Rightarrow> (('v, 'h, 'w) tstate, 'a) act" where
  "in_world = zoom ts_world (\<lambda>w s. s\<lparr>ts_world := w\<rparr>)"

definition on_obj :: "(('v, 'h) task_objects \<Rightarrow> ('v, 'h) task_objects) \<Rightarrow> (('v, 'h, 'w) tstate, unit) act" where
  "on_obj f = modify_state (\<lambda>s. s\<lparr>ts_obj := f (ts_obj s)\<rparr>)"

definition inner_of :: "nat \<Rightarrow> ('v, 'h, 'w) tstate \<Rightarrow> task_inner" where
  "inner_of t s = tk_inner (ts_task s t)"

definition set_inner :: "nat \<Rightarrow> (task_inner \<Rightarrow> task_inner) \<Rightarrow> ('v, 'h, 'w) tstate \<Rightarrow> ('v, 'h, 'w) tstate" where
  "set_inner t f s = s\<lparr>ts_task := (ts_task s)(t := (ts_task s t)\<lparr>tk_inner := f (tk_inner (ts_task s t))\<rparr>)\<rparr>"

definition upd_inner :: "nat \<Rightarrow> (task_inner \<Rightarrow> task_inner) \<Rightarrow> (('v, 'h, 'w) tstate, unit) act" where
  "upd_inner t f = modify_state (set_inner t f)"

text \<open>A call on an address space, its error unwrapped.\<close>

definition in_space :: "nat \<Rightarrow> ('v, 'a) act \<Rightarrow> (('v, 'h, 'w) tstate, 'a) act" where
  "in_space sp = zoom (\<lambda>s. ob_space (ts_obj s) sp)
     (\<lambda>v s. s\<lparr>ts_obj := (ts_obj s)\<lparr>ob_space := (ob_space (ts_obj s))(sp := v)\<rparr>\<rparr>)"

definition in_fds :: "nat \<Rightarrow> (fd_manager, 'a) act \<Rightarrow> (('v, 'h, 'w) tstate, 'a) act" where
  "in_fds fdt = zoom (\<lambda>s. ob_fds (ts_obj s) fdt)
     (\<lambda>v s. s\<lparr>ts_obj := (ts_obj s)\<lparr>ob_fds := (ob_fds (ts_obj s))(fdt := v)\<rparr>\<rparr>)"

text \<open>The heap, the mappings and the address space of a task, the state of the memory calls.\<close>

definition in_mm :: "nat \<Rightarrow> ('v mm, 'a) act \<Rightarrow> (('v, 'h, 'w) tstate, 'a) act" where
  "in_mm t m = (\<lambda>s. let k = ts_task s t; ob = ts_obj s in
     case m \<lparr> mm_heap = ob_heap ob (tk_heap k), mm_info = ob_mmap ob (tk_mmap k),
              mm_space = ob_space ob (tk_space k) \<rparr> of
       (r, mm) \<Rightarrow> (r, s\<lparr>ts_obj := ob\<lparr>ob_heap := (ob_heap ob)(tk_heap k := mm_heap mm),
                              ob_mmap := (ob_mmap ob)(tk_mmap k := mm_info mm),
                              ob_space := (ob_space ob)(tk_space k := mm_space mm)\<rparr>\<rparr>))"

section \<open>The task table\<close>

definition find_task :: "('v, 'h, 'w) tstate \<Rightarrow> nat \<Rightarrow> nat option" where
  "find_task s tid = bt_get (ts_global s) tid"

definition find_task_by_pid :: "('v, 'h, 'w) tstate \<Rightarrow> nat \<Rightarrow> nat option" where
  "find_task_by_pid s pid = find (\<lambda>t. tk_pid (ts_task s t) = pid) (bt_values (ts_global s))"

definition current_task :: "('v, 'h, 'w, 'tf, 'cx) task_env \<Rightarrow> (('v, 'h, 'w) tstate, nat option) act" where
  "current_task E =
     bind (attempt (in_world (kn_current_tid (te_sched E)))) (\<lambda>r. case r of
       Inr (Some tid) \<Rightarrow> bind get_state (\<lambda>s. ret (find_task s tid))
     | _ \<Rightarrow> ret None)"

text \<open>\<open>let task = current_task().unwrap()\<close>.\<close>

definition with_current :: "('v, 'h, 'w, 'tf, 'cx) task_env \<Rightarrow> (nat \<Rightarrow> (('v, 'h, 'w) tstate, 'a) act)
    \<Rightarrow> (('v, 'h, 'w) tstate, 'a) act" where
  "with_current E f = bind (current_task E) (\<lambda>t. bind (lift (unwrap t)) f)"

definition add_task :: "('v, 'h, 'w, 'tf, 'cx) task_env \<Rightarrow> nat \<Rightarrow> (('v, 'h, 'w) tstate, unit) act" where
  "add_task E t =
     bind get_state (\<lambda>s.
     let tid = tk_tid (ts_task s t) in
     bind (modify_state (\<lambda>s. s\<lparr>ts_global := bt_insert tid t (ts_global s)\<rparr>)) (\<lambda>_.
     must (in_world (kn_wake (te_sched E) tid))))"

definition remove_task :: "nat \<Rightarrow> (('v, 'h, 'w) tstate, unit) act" where
  "remove_task tid = modify_state (\<lambda>s. s\<lparr>ts_global := bt_remove tid (ts_global s)\<rparr>)"

section \<open>References\<close>

text \<open>The references to tasks that count, and the \<open>ShimFile\<close>s that the tasks hold.\<close>

definition held_tasks :: "('v, 'h, 'w) tstate \<Rightarrow> nat list" where
  "held_tasks s = bt_values (ts_global s) @ (case ts_init s of None \<Rightarrow> [] | Some t \<Rightarrow> [t])
     @ concat (map (\<lambda>t. bt_values (ti_children (inner_of t s))) (ts_live s))"

definition task_shims :: "('v, 'h, 'w) tstate \<Rightarrow> nat \<Rightarrow> shim_file list" where
  "task_shims s t =
     [fc_cwd (ti_fs_info (inner_of t s)), fc_root (ti_fs_info (inner_of t s))]
     @ slot_iter (ob_fds (ts_obj s) (tk_fds (ts_task s t)))
     @ List.map_filter mr_fd (regions (ob_mmap (ts_obj s) (tk_mmap (ts_task s t))))"

definition held_shims :: "('v, 'h, 'w) tstate \<Rightarrow> shim_file list" where
  "held_shims s = [fst (ts_stdio s), snd (ts_stdio s)] @ concat (map (task_shims s) (ts_live s))"

definition sweep :: "('v, 'h, 'w) tstate \<Rightarrow> ('v, 'h, 'w) tstate" where
  "sweep s = s\<lparr>ts_live := filter (\<lambda>t. t \<in> set (held_tasks s)) (ts_live s)\<rparr>"

definition drop_tasks :: "('v, 'h, 'w) tstate \<Rightarrow> ('v, 'h, 'w) tstate" where
  "drop_tasks s = (sweep ^^ length (ts_live s)) s"

text \<open>\<open>Drop for TidHandle\<close>: an id is free when no task has it as its tid or its pid.\<close>

definition drop_tids :: "('v, 'h, 'w) tstate \<Rightarrow> ('v, 'h, 'w) tstate" where
  "drop_tids s = s\<lparr>ts_tids := filter (\<lambda>i. \<exists>t \<in> set (ts_live s). tk_tid (ts_task s t) = i \<or> tk_pid (ts_task s t) = i)
     (ts_tids s)\<rparr>"

text \<open>\<open>Drop for ShimFile\<close>: \<open>vfs_close\<close>, its result ignored.\<close>

definition close_shim :: "'w shim_vfs \<Rightarrow> shim_file \<Rightarrow> 'w \<Rightarrow> 'w" where
  "close_shim V f w = snd (sv_close V (shim_inode f) w)"

definition drop_shims :: "'w shim_vfs \<Rightarrow> ('v, 'h, 'w) tstate \<Rightarrow> ('v, 'h, 'w) tstate" where
  "drop_shims V s = (let held = set (held_shims s) in
     s\<lparr>ts_shims := filter (\<lambda>f. f \<in> held) (ts_shims s),
       ts_world := fold (close_shim V) (filter (\<lambda>f. f \<notin> held) (ts_shims s)) (ts_world s)\<rparr>)"

definition reclaim :: "('v, 'h, 'w, 'tf, 'cx) task_env \<Rightarrow> ('v, 'h, 'w) tstate \<Rightarrow> ('v, 'h, 'w) tstate" where
  "reclaim E s = drop_shims (te_vfs E) (drop_tids (drop_tasks s))"

text \<open>A call of the domain: its local references go out of scope at the end, however it ends.\<close>

definition scoped :: "('v, 'h, 'w, 'tf, 'cx) task_env \<Rightarrow> (('v, 'h, 'w) tstate, 'a) act
    \<Rightarrow> (('v, 'h, 'w) tstate, 'a) act" where
  "scoped E m = (\<lambda>s. case m s of (r, s') \<Rightarrow> (r, reclaim E s'))"

text \<open>\<open>Arc::new(ShimFile::new(inode))\<close>.\<close>

definition new_shim :: "u64 \<Rightarrow> (('v, 'h, 'w) tstate, shim_file) act" where
  "new_shim inode = (\<lambda>s. let f = \<lparr> shim_ref = ts_next s, shim_inode = inode \<rparr> in
     (Ok f, s\<lparr>ts_next := Suc (ts_next s), ts_shims := ts_shims s @ [f]\<rparr>))"

text \<open>\<open>TidHandle::new\<close>.\<close>

definition new_tid :: "('v, 'h, 'w, 'tf, 'cx) task_env \<Rightarrow> (('v, 'h, 'w) tstate, nat option) act" where
  "new_tid E = (\<lambda>s. case te_pick E (ts_tids s) of
       None \<Rightarrow> (Ok None, s)
     | Some i \<Rightarrow> (Ok (Some i), s\<lparr>ts_tids := ts_tids s @ [i]\<rparr>))"

section \<open>Descriptors and user memory of a task\<close>

definition task_get_file :: "nat \<Rightarrow> nat \<Rightarrow> (('v, 'h, 'w) tstate, shim_file option) act" where
  "task_get_file t fd = bind get_state (\<lambda>s. ret (fd_get (ob_fds (ts_obj s) (tk_fds (ts_task s t))) fd))"

definition task_add_file :: "nat \<Rightarrow> shim_file \<Rightarrow> (('v, 'h, 'w) tstate, nat) act" where
  "task_add_file t f = bind get_state (\<lambda>s. in_fds (tk_fds (ts_task s t)) (fd_insert f))"

definition task_add_file_to_fd :: "nat \<Rightarrow> shim_file \<Rightarrow> nat \<Rightarrow> (('v, 'h, 'w) tstate, shim_file option) act" where
  "task_add_file_to_fd t f fd = bind get_state (\<lambda>s. in_fds (tk_fds (ts_task s t)) (fd_insert_to fd f))"

definition task_remove_file :: "nat \<Rightarrow> nat \<Rightarrow> (('v, 'h, 'w) tstate, shim_file option) act" where
  "task_remove_file t fd = bind get_state (\<lambda>s. in_fds (tk_fds (ts_task s t)) (fd_remove fd))"

definition space_read :: "('v, 'h, 'w, 'tf, 'cx) task_env \<Rightarrow> nat \<Rightarrow> usize \<Rightarrow> nat
    \<Rightarrow> (('v, 'h, 'w) tstate, u8 list) act" where
  "space_read E sp src n = in_space sp (\<lambda>v. case vm_read_bytes (so_vm (te_space E)) src n v of
       Inl _ \<Rightarrow> (panic, v) | Inr bs \<Rightarrow> (Ok bs, v))"

definition space_write :: "('v, 'h, 'w, 'tf, 'cx) task_env \<Rightarrow> nat \<Rightarrow> usize \<Rightarrow> u8 list
    \<Rightarrow> (('v, 'h, 'w) tstate, unit) act" where
  "space_write E sp dest bs = in_space sp (vm_unwrap (vm_write_bytes (so_vm (te_space E)) dest bs))"

definition read_bytes_from_user :: "('v, 'h, 'w, 'tf, 'cx) task_env \<Rightarrow> nat \<Rightarrow> usize \<Rightarrow> nat
    \<Rightarrow> (('v, 'h, 'w) tstate, u8 list) act" where
  "read_bytes_from_user E t src n = bind get_state (\<lambda>s. space_read E (tk_space (ts_task s t)) src n)"

definition read_val_from_user :: "('v, 'h, 'w, 'tf, 'cx) task_env \<Rightarrow> nat \<Rightarrow> 'a pod \<Rightarrow> usize
    \<Rightarrow> (('v, 'h, 'w) tstate, 'a) act" where
  "read_val_from_user E t p src = bind (read_bytes_from_user E t src (pod_size p)) (\<lambda>bs. ret (pod_value p bs))"

definition write_bytes_to_user :: "('v, 'h, 'w, 'tf, 'cx) task_env \<Rightarrow> nat \<Rightarrow> usize \<Rightarrow> u8 list
    \<Rightarrow> (('v, 'h, 'w) tstate, unit) act" where
  "write_bytes_to_user E t dest bs = bind get_state (\<lambda>s. space_write E (tk_space (ts_task s t)) dest bs)"

definition write_val_to_user :: "('v, 'h, 'w, 'tf, 'cx) task_env \<Rightarrow> nat \<Rightarrow> 'a pod \<Rightarrow> usize \<Rightarrow> 'a
    \<Rightarrow> (('v, 'h, 'w) tstate, unit) act" where
  "write_val_to_user E t p dest val = write_bytes_to_user E t dest (pod_bytes p val)"

text \<open>The integers that are read and written: \<open>usize\<close>, \<open>u32\<close> (an \<open>i32\<close> has the same bytes).\<close>

definition pod_usize :: "usize pod" where
  "pod_usize = \<lparr> pod_size = 8, pod_bytes = to_ne_bytes, pod_value = from_ne_bytes \<rparr>"

definition pod_u32 :: "u32 pod" where
  "pod_u32 = \<lparr> pod_size = 4, pod_bytes = (\<lambda>v. take 4 (to_ne_bytes (ucast v))), pod_value = (\<lambda>bs. ucast (from_ne_bytes bs)) \<rparr>"

text \<open>
  \<open>read_string_from_user\<close>: bytes up to a zero. The scan ends at the latest at a page that is not
  mapped (\<open>panic\<close>); \<open>fuel\<close> bounds it by the number of bytes of the address space. Bytes that
  are not UTF-8 are a panic.
\<close>

fun read_string_loop :: "('v, 'h, 'w, 'tf, 'cx) task_env \<Rightarrow> nat \<Rightarrow> nat \<Rightarrow> usize \<Rightarrow> u8 list
    \<Rightarrow> (('v, 'h, 'w) tstate, u8 list option) act" where
  "read_string_loop E 0 t ptr s = ret None"
| "read_string_loop E (Suc fuel) t ptr s =
     bind (read_bytes_from_user E t ptr 1) (\<lambda>c.
     if c = [0] then ret (Some s) else read_string_loop E fuel t (ptr + 1) (s @ c))"

definition read_string_from_user :: "nat \<Rightarrow> ('v, 'h, 'w, 'tf, 'cx) task_env \<Rightarrow> nat \<Rightarrow> usize
    \<Rightarrow> (('v, 'h, 'w) tstate, u8 list) act" where
  "read_string_from_user fuel E t src =
     bind (read_string_loop E fuel t src []) (\<lambda>s.
     bind (lift (unwrap s)) (\<lambda>s. if ec_utf8 (te_elf E) s then ret s else abort))"

section \<open>The trap frame\<close>

definition trap_frame_virt :: "('v, 'h, 'w, 'tf, 'cx) task_env \<Rightarrow> nat \<Rightarrow> usize" where
  "trap_frame_virt E thread_number =
     TRAP_CONTEXT_BASE (te_elf E) - of_nat thread_number * FRAME_SIZE (ec_mm (te_elf E))"

definition trap_frame_phys :: "('v, 'h, 'w, 'tf, 'cx) task_env \<Rightarrow> nat \<Rightarrow> nat \<Rightarrow> (('v, 'h, 'w) tstate, usize) act" where
  "trap_frame_phys E sp thread_number = in_space sp (\<lambda>v.
     case vm_query (so_vm (te_space E)) (trap_frame_virt E thread_number) v of
       Inl _ \<Rightarrow> (panic, v) | Inr (physical, _) \<Rightarrow> (Ok physical, v))"

definition get_trap_frame :: "('v, 'h, 'w, 'tf, 'cx) task_env \<Rightarrow> nat \<Rightarrow> nat \<Rightarrow> (('v, 'h, 'w) tstate, 'tf) act" where
  "get_trap_frame E sp thread_number =
     bind (trap_frame_phys E sp thread_number) (\<lambda>p. in_space sp (\<lambda>v. (Ok (so_tf_load (te_space E) p v), v)))"

definition put_trap_frame :: "('v, 'h, 'w, 'tf, 'cx) task_env \<Rightarrow> nat \<Rightarrow> nat \<Rightarrow> 'tf \<Rightarrow> (('v, 'h, 'w) tstate, unit) act" where
  "put_trap_frame E sp thread_number tf =
     bind (trap_frame_phys E sp thread_number) (\<lambda>p. in_space sp (\<lambda>v. (Ok (), so_tf_store (te_space E) p tf v)))"

definition token :: "('v, 'h, 'w, 'tf, 'cx) task_env \<Rightarrow> ('v, 'h, 'w) tstate \<Rightarrow> nat \<Rightarrow> usize" where
  "token E s t = ua_token (te_user E) (so_root_paddr (te_space E) (ob_space (ts_obj s) (tk_space (ts_task s t))))"

section \<open>Files of the VFS domain\<close>

text \<open>\<open>user_path_at\<close> for \<open>AT_FDCWD\<close>, the only descriptor it is called with: the root for an
  absolute path, else the working directory.\<close>

definition task_path_at :: "('v, 'h, 'w, 'tf, 'cx) task_env \<Rightarrow> u8 list \<Rightarrow> (('v, 'h, 'w) tstate, u64 \<times> u64) act" where
  "task_path_at E path =
     with_current E (\<lambda>t. bind get_state (\<lambda>s.
       let root = VFS_ROOT (te_consts E) in
       if \<not> starts_with path [47] then ret (root, shim_inode (fc_cwd (ti_fs_info (inner_of t s))))
       else ret (root, root)))"

function read_file_loop :: "'w shim_vfs \<Rightarrow> u64 \<Rightarrow> nat \<Rightarrow> nat \<Rightarrow> u8 list \<Rightarrow> u8 list \<Rightarrow> ('w, u8 list) act" where
  "read_file_loop V fid size' offset tmp buf =
     (if offset < size' then
        bind (sv_read_at V fid (of_nat offset) tmp) (\<lambda>(tmp, res).
        if res = 0 then fail EIO
        else if length tmp < res then abort
        else read_file_loop V fid size' (offset + res) tmp (buf @ take res tmp))
      else if offset = size' then ret buf else abort)"
  by pat_completeness auto
termination
  by (relation "measure (\<lambda>(V, fid, size', offset, tmp, buf). size' - offset)") auto

declare read_file_loop.simps [simp del]

text \<open>\<open>read_all_inner\<close>: its \<open>ShimFile\<close> is closed when it returns, however it does.\<close>

definition read_open_file :: "('v, 'h, 'w, 'tf, 'cx) task_env \<Rightarrow> u64 \<Rightarrow> bool \<Rightarrow> ('w, u8 list) act" where
  "read_open_file E fid require_exec =
     bind (sv_getattr (te_vfs E) fid) (\<lambda>(st_mode, st_size).
     if require_exec \<and> from_bits_truncate (fst (EXEC_MODES (te_consts E))) st_mode
          AND snd (EXEC_MODES (te_consts E)) = 0
     then fail EACCES
     else read_file_loop (te_vfs E) fid (unat st_size) 0 (replicate 1024 0) [])"

definition read_all_inner :: "('v, 'h, 'w, 'tf, 'cx) task_env \<Rightarrow> u8 list \<Rightarrow> bool
    \<Rightarrow> (('v, 'h, 'w) tstate, u8 list) act" where
  "read_all_inner E name require_exec =
     bind (current_task E) (\<lambda>task.
     bind (case task of None \<Rightarrow> ret (VFS_ROOT (te_consts E), VFS_ROOT (te_consts E))
           | Some _ \<Rightarrow> task_path_at E name) (\<lambda>path.
     bind (in_world (sv_open (te_vfs E) (snd path) name (length name) 0 0)) (\<lambda>fid.
     in_world (\<lambda>w. case read_open_file E fid require_exec w of
         (r, w') \<Rightarrow> (r, snd (sv_close (te_vfs E) fid w'))))))"

definition read_all :: "('v, 'h, 'w, 'tf, 'cx) task_env \<Rightarrow> u8 list \<Rightarrow> (('v, 'h, 'w) tstate, u8 list option) act" where
  "read_all E name =
     bind (attempt (read_all_inner E name False)) (\<lambda>r. case r of Inl _ \<Rightarrow> ret None | Inr buf \<Rightarrow> ret (Some buf))"

definition read_exec_all :: "('v, 'h, 'w, 'tf, 'cx) task_env \<Rightarrow> u8 list \<Rightarrow> (('v, 'h, 'w) tstate, u8 list) act" where
  "read_exec_all E name = read_all_inner E name True"

end
