(* ===== verification/TaskCalls.thy ===== *)
theory TaskCalls
  imports TaskState
begin

text \<open>
  The calls of the task domain (\<open>common/task/task/src\<close>: \<open>lib.rs\<close>, \<open>task.rs\<close>, \<open>init.rs\<close>,
  \<open>kthread.rs\<close> and \<open>syscall/\<close>), one definition per call over the state of \<open>TaskState\<close>. A call of
  the trait is \<open>scoped\<close>: its local references are dropped at its end. \<open>dom_\<close> names the methods of
  \<open>TaskDomainImpl\<close>.
\<close>

unbundle bit_operations_syntax

section \<open>New tasks\<close>

definition fresh :: "(('v, 'h, 'w) tstate, nat) act" where
  "fresh = (\<lambda>s. (Ok (ts_next s), s\<lparr>ts_next := Suc (ts_next s)\<rparr>))"

definition no_signal_stack :: signal_stack where
  "no_signal_stack = \<lparr> ss_sp = 0, ss_flags = 2, ss_size = 0 \<rparr>"

text \<open>\<open>FsContext::new\<close>.\<close>

definition new_fs_context :: "u64 \<Rightarrow> u64 \<Rightarrow> (('v, 'h, 'w) tstate, fs_context) act" where
  "new_fs_context cwd root =
     bind (new_shim cwd) (\<lambda>c. bind (new_shim root) (\<lambda>r. ret \<lparr> fc_cwd = c, fc_root = r \<rparr>))"

text \<open>A thread counter whose first index, 0, is taken.\<close>

definition first_number :: "('v, 'h, 'w, 'tf, 'cx) task_env \<Rightarrow> (('v, 'h, 'w) tstate, nat list) act" where
  "first_number E =
     bind (lift (unwrap (te_pick E []))) (\<lambda>number. bind (assert_that (number = 0)) (\<lambda>_. ret [number]))"

definition new_stdio_fd_table :: "('v, 'h, 'w, 'tf, 'cx) task_env \<Rightarrow> shim_file \<times> shim_file \<Rightarrow> fd_manager res \<times> fd_manager" where
  "new_stdio_fd_table E stdio =
     bind (fd_insert (fst stdio)) (\<lambda>_. bind (fd_insert (snd stdio)) (\<lambda>_. bind (fd_insert (snd stdio)) (\<lambda>_.
       get_state))) (fd_new (MAX_FD (te_consts E)))"

definition put_task :: "nat \<Rightarrow> task \<Rightarrow> (('v, 'h, 'w) tstate, unit) act" where
  "put_task n k = modify_state (\<lambda>s. s\<lparr>ts_task := (ts_task s)(n := k), ts_live := ts_live s @ [n]\<rparr>)"

text \<open>The objects of a process made from scratch, all of identity \<open>n\<close>.\<close>

definition new_objects :: "('v, 'h, 'w, 'tf, 'cx) task_env \<Rightarrow> nat \<Rightarrow> 'v \<Rightarrow> heap_info \<Rightarrow> nat list
    \<Rightarrow> (('v, 'h, 'w) tstate, unit) act" where
  "new_objects E n space heap threads =
     bind get_state (\<lambda>s.
     bind (lift (fst (new_stdio_fd_table E (ts_stdio s)))) (\<lambda>fds.
     on_obj (\<lambda>ob. ob\<lparr>ob_space := (ob_space ob)(n := space), ob_fds := (ob_fds ob)(n := fds),
       ob_heap := (ob_heap ob)(n := heap), ob_mmap := (ob_mmap ob)(n := mmap_new (ec_mm (te_elf E))),
       ob_handlers := (ob_handlers ob)(n := sg_new (te_sig E)), ob_mask := (ob_mask ob)(n := 0),
       ob_threads := (ob_threads ob)(n := threads)\<rparr>)))"

definition process_inner :: "('v, 'h, 'w, 'tf, 'cx) task_env \<Rightarrow> u8 list \<Rightarrow> nat \<Rightarrow> fs_context \<Rightarrow> usize \<times> usize
    \<Rightarrow> task_inner" where
  "process_inner E name pid fs_info stack =
     \<lparr> ti_name = name, ti_thread_number = 0, ti_process_group = pid, ti_session_id = pid,
       ti_status = Ready, ti_parent = None, ti_children = bt_empty, ti_fs_info = fs_info,
       ti_umask = 18, ti_exit_code = 0, ti_clear_child_tid = 0, ti_stack = stack,
       ti_resource_limits = rlimits_default (te_consts E) (ec_USER_STACK_SIZE (te_elf E)),
       ti_ss_stack = no_signal_stack \<rparr>"

definition process_task :: "nat \<Rightarrow> nat \<Rightarrow> usize \<Rightarrow> task_inner \<Rightarrow> task" where
  "process_task n tid k_stack_top inner =
     \<lparr> tk_tid = tid, tk_pid = tid, tk_sigchld = False, tk_kernel_stack = k_stack_top, tk_space = n,
       tk_fds = n, tk_heap = n, tk_mmap = n, tk_handlers = n, tk_receivers = n, tk_threads = n,
       tk_inner = inner \<rparr>"

text \<open>\<open>user_stack.init(&mut task.address_space.lock())\<close>.\<close>

definition init_stack :: "('v, 'h, 'w, 'tf, 'cx) task_env \<Rightarrow> nat \<Rightarrow> user_stack \<Rightarrow> (('v, 'h, 'w) tstate, usize) act" where
  "init_stack E sp u = in_space sp (\<lambda>v. case us_init (te_stack E) (so_vm (te_space E)) (u, v) of
     (r, (_, v')) \<Rightarrow> (r, v'))"

definition from_elf :: "nat \<Rightarrow> ('v, 'h, 'w, 'tf, 'cx) task_env \<Rightarrow> u8 list \<Rightarrow> u8 list
    \<Rightarrow> (('v, 'h, 'w) tstate, nat option) act" where
  "from_elf fuel E name elf =
     bind (new_tid E) (\<lambda>tid. case tid of None \<Rightarrow> ret None | Some tid \<Rightarrow>
     bind (attempt (build_vm_space fuel (te_elf E) (so_vm (te_space E)) (te_arch E) (read_all E) elf [name]
            [105, 110, 105, 116])) (\<lambda>r. case r of Inl _ \<Rightarrow> ret None | Inr (info, _) \<Rightarrow>
     bind fresh (\<lambda>n.
     bind (first_number E) (\<lambda>threads.
     bind (new_objects E n (ei_address_space info) (heap_new (ei_heap_bottom info) (ei_heap_bottom info)) threads) (\<lambda>_.
     bind (new_fs_context (VFS_ROOT (te_consts E)) (VFS_ROOT (te_consts E))) (\<lambda>fs_info.
     bind get_state (\<lambda>s.
     bind (attempt (in_world (kn_add_one_task (te_sched E) tid
             (ua_apply (te_user E) (initial_user_state (ei_tls info)) (cx_new_user (te_cpu E)))
             (push_bit (kn_cpu_id (te_cpu E) (ts_world s)) 1)))) (\<lambda>r. case r of Inl _ \<Rightarrow> ret None | Inr k_stack_top \<Rightarrow>
     bind (attempt (init_stack E n (us_new (te_stack E) (ei_stack_top info) [] [] bt_empty name))) (\<lambda>r.
       case r of Inl _ \<Rightarrow> ret None | Inr user_sp \<Rightarrow>
     bind (put_trap_frame E n 0 (ua_apply_trap_tls (te_user E) (ei_tls info)
             (tf_new_user (te_space E) (ei_entry info) user_sp k_stack_top))) (\<lambda>_.
     bind (put_task n (process_task n tid k_stack_top (process_inner E name tid fs_info
             (ei_stack_top info - ec_USER_STACK_SIZE (te_elf E), ei_stack_top info)))) (\<lambda>_.
     ret (Some n))))))))))))"

section \<open>Cloning a task\<close>

record clone_args =
  ca_flags :: u32
  ca_sig :: u8
  ca_stack :: usize
  ca_ptid :: usize
  ca_tls :: usize
  ca_ctid :: usize

text \<open>The address space and the thread number: shared with a trap context page of its own, or
  copied to the identity \<open>n\<close>.\<close>

definition clone_space :: "('v, 'h, 'w, 'tf, 'cx) task_env \<Rightarrow> nat \<Rightarrow> nat \<Rightarrow> bool
    \<Rightarrow> (('v, 'h, 'w) tstate, nat \<times> nat) act" where
  "clone_space E t n vm =
     bind get_state (\<lambda>s. let k = ts_task s t in
     if vm then
       bind (lift (unwrap (te_pick E (ob_threads (ts_obj s) (tk_threads k))))) (\<lambda>thread_num.
       bind (on_obj (\<lambda>ob. ob\<lparr>ob_threads := (ob_threads ob)(tk_threads k := ob_threads ob (tk_threads k) @ [thread_num])\<rparr>)) (\<lambda>_.
       bind (in_space (tk_space k) (extend_thread_vm_space (te_elf E) (so_vm (te_space E)) thread_num)) (\<lambda>_.
       ret (tk_space k, thread_num))))
     else
       bind (lift (clone_vm_space (te_elf E) (so_vm (te_space E)) (so_clone (te_space E))
                    (ob_space (ts_obj s) (tk_space k)))) (\<lambda>v.
       bind (on_obj (\<lambda>ob. ob\<lparr>ob_space := (ob_space ob)(n := v)\<rparr>)) (\<lambda>_.
       bind (assert_that (ti_thread_number (tk_inner k) = 0)) (\<lambda>_.
       ret (n, ti_thread_number (tk_inner k))))))"

text \<open>The objects that are shared or copied; the signal state is new, the mappings are shared.\<close>

definition clone_objects :: "('v, 'h, 'w, 'tf, 'cx) task_env \<Rightarrow> nat \<Rightarrow> nat \<Rightarrow> u32 \<Rightarrow> nat list
    \<Rightarrow> (('v, 'h, 'w) tstate, unit) act" where
  "clone_objects E t n flags threads =
     bind get_state (\<lambda>s. let k = ts_task s t; c = te_clone E in
     on_obj (\<lambda>ob. ob\<lparr>
       ob_fds := (if contains flags (CLONE_FILES c) then ob_fds ob
                  else (ob_fds ob)(n := slot_clone (ob_fds ob (tk_fds k)))),
       ob_threads := (if contains flags (CLONE_THREAD c) then ob_threads ob else (ob_threads ob)(n := threads)),
       ob_heap := (if contains flags (CLONE_VM c) then ob_heap ob
                   else (ob_heap ob)(n := ob_heap ob (tk_heap k))),
       ob_handlers := (ob_handlers ob)(n := sg_new (te_sig E)), ob_mask := (ob_mask ob)(n := 0)\<rparr>))"

definition clone_record :: "('v, 'h, 'w, 'tf, 'cx) task_env \<Rightarrow> nat \<Rightarrow> nat \<Rightarrow> nat \<Rightarrow> clone_args \<Rightarrow> nat \<Rightarrow> nat
    \<Rightarrow> usize \<Rightarrow> task \<Rightarrow> task" where
  "clone_record E t n tid a sp thread_num k_stack_top k =
     (let c = te_clone E; flags = ca_flags a; shared = (\<lambda>f x. if contains flags f then x else n); inner = tk_inner k in
      \<lparr> tk_tid = tid, tk_pid = (if contains flags (CLONE_THREAD c) then tk_pid k else tid),
        tk_sigchld = (ca_sig a = sg_SIGCHLD (te_sig E)), tk_kernel_stack = k_stack_top, tk_space = sp,
        tk_fds = shared (CLONE_FILES c) (tk_fds k), tk_heap = shared (CLONE_VM c) (tk_heap k),
        tk_mmap = tk_mmap k, tk_handlers = n, tk_receivers = n,
        tk_threads = shared (CLONE_THREAD c) (tk_threads k),
        tk_inner = \<lparr> ti_name = ti_name inner, ti_thread_number = thread_num,
          ti_process_group = ti_process_group inner, ti_session_id = ti_session_id inner,
          ti_status = Ready,
          ti_parent = (if contains flags (CLONE_PARENT c) then ti_parent inner else Some t),
          ti_children = bt_empty, ti_fs_info = ti_fs_info inner, ti_umask = ti_umask inner,
          ti_exit_code = 0,
          ti_clear_child_tid = (if contains flags (CLONE_CHILD_CLEARTID c) then ca_ctid a else 0),
          ti_stack = ti_stack inner,
          ti_resource_limits = rlimits_default (te_consts E) (ec_USER_STACK_SIZE (te_elf E)),
          ti_ss_stack = no_signal_stack \<rparr> \<rparr>)"

text \<open>The child's trap frame: the parent's, returning 0 on the new kernel stack. Both thread id
  words are written to the address space of the child.\<close>

definition clone_frame :: "('v, 'h, 'w, 'tf, 'cx) task_env \<Rightarrow> nat \<Rightarrow> nat \<Rightarrow> clone_args \<Rightarrow> nat \<Rightarrow> nat
    \<Rightarrow> usize \<Rightarrow> (('v, 'h, 'w) tstate, unit) act" where
  "clone_frame E t tid a sp thread_num k_stack_top =
     (let c = te_clone E; has = contains (ca_flags a) in
     bind (trap_frame_phys E sp thread_num) (\<lambda>_.
     bind get_state (\<lambda>s. let k = ts_task s t in
     bind (get_trap_frame E (tk_space k) (ti_thread_number (tk_inner k))) (\<lambda>old_trap_context.
     let tf = tf_update_k_sp (te_space E) k_stack_top (tf_update_result (te_space E) 0 old_trap_context);
         tf = (if has (CLONE_SETTLS c) then ua_apply_trap_tls (te_user E) (ca_tls a) tf else tf) in
     bind (put_trap_frame E sp thread_num tf) (\<lambda>_.
     bind (if has (CLONE_PARENT_SETTID c) then space_write E sp (ca_ptid a) (pod_bytes pod_u32 (of_nat tid)) else ret ()) (\<lambda>_.
     bind (if has (CLONE_CHILD_SETTID c) then space_write E sp (ca_ctid a) (pod_bytes pod_u32 (of_nat tid)) else ret ()) (\<lambda>_.
     if ca_stack a = 0 then ret ()
     else bind (assert_that (has (CLONE_VM c))) (\<lambda>_.
          bind (get_trap_frame E sp thread_num) (\<lambda>tf.
          put_trap_frame E sp thread_num (tf_update_user_sp (te_space E) (ca_stack a) tf))))))))))"

definition clone_task :: "('v, 'h, 'w, 'tf, 'cx) task_env \<Rightarrow> nat \<Rightarrow> clone_args
    \<Rightarrow> (('v, 'h, 'w) tstate, nat option) act" where
  "clone_task E t a =
     (let c = te_clone E; has = contains (ca_flags a) in
     bind (new_tid E) (\<lambda>tid. case tid of None \<Rightarrow> ret None | Some tid \<Rightarrow>
     bind fresh (\<lambda>n.
     bind (clone_space E t n (has (CLONE_VM c))) (\<lambda>(sp, thread_num).
     bind (attempt (in_world (ua_current (te_user E)))) (\<lambda>r. case r of Inl _ \<Rightarrow> ret None | Inr parent_user_state \<Rightarrow>
     bind (if has (CLONE_THREAD c) then ret [] else first_number E) (\<lambda>threads.
     bind (clone_objects E t n (ca_flags a) threads) (\<lambda>_.
     bind (must (in_world (kn_add_one_task (te_sched E) tid
            (ua_apply (te_user E) (ua_clone (te_user E) parent_user_state (has (CLONE_SETTLS c)) (ca_tls a))
              (cx_new_user (te_cpu E))) (-1)))) (\<lambda>k_stack_top.
     bind (clone_frame E t tid a sp thread_num k_stack_top) (\<lambda>_.
     bind get_state (\<lambda>s.
     let child = clone_record E t n tid a sp thread_num k_stack_top (ts_task s t) in
     bind (put_task n child) (\<lambda>_.
     bind (if has (CLONE_PARENT c) then ret ()
           else upd_inner t (\<lambda>i. i\<lparr>ti_children := bt_insert (tk_pid child) n (ti_children i)\<rparr>)) (\<lambda>_.
     ret (Some n)))))))))))))"

definition do_clone :: "('v, 'h, 'w, 'tf, 'cx) task_env \<Rightarrow> usize \<Rightarrow> usize \<Rightarrow> usize \<Rightarrow> usize \<Rightarrow> usize
    \<Rightarrow> (('v, 'h, 'w) tstate, nat) act" where
  "do_clone E flags stack ptid tls ctid =
     (let clone_flag = from_bits_truncate (CLONE_ALL (te_clone E)) (ucast flags); sig = ucast flags :: u8 in
     if \<not> sg_number_ok (te_sig E) sig then fail EINVAL
     else with_current E (\<lambda>t.
       bind (clone_task E t \<lparr> ca_flags = clone_flag, ca_sig = sig, ca_stack = stack, ca_ptid = ptid,
               ca_tls = tls, ca_ctid = ctid \<rparr>) (\<lambda>new_task.
       bind (lift (ok_or new_task EAGAIN)) (\<lambda>n.
       bind get_state (\<lambda>s. let k = ts_task s n in
       bind (get_trap_frame E (tk_space k) (ti_thread_number (tk_inner k))) (\<lambda>tf.
       bind (put_trap_frame E (tk_space k) (ti_thread_number (tk_inner k)) (tf_update_result (te_space E) 0 tf)) (\<lambda>_.
       bind (add_task E n) (\<lambda>_. ret (tk_tid k)))))))))"

section \<open>Executing a program\<close>

text \<open>\<open>load_vdso\<close>: a failing or empty mapping is no vDSO.\<close>

definition load_vdso :: "('v, 'h, 'w, 'tf, 'cx) task_env \<Rightarrow> (('v, 'h, 'w) tstate, usize option) act" where
  "load_vdso E =
     bind (attempt (with_current E (\<lambda>t. bind get_state (\<lambda>s.
       in_world (kn_vdso_map_user (te_cpu E) (token E s t)))))) (\<lambda>r. case r of
       Inr base \<Rightarrow> ret (if base = 0 then None else Some base)
     | Inl _ \<Rightarrow> ret None)"

definition task_execve :: "nat \<Rightarrow> ('v, 'h, 'w, 'tf, 'cx) task_env \<Rightarrow> nat \<Rightarrow> u8 list \<Rightarrow> u8 list \<Rightarrow> u8 list list
    \<Rightarrow> u8 list list \<Rightarrow> (('v, 'h, 'w) tstate, unit) act" where
  "task_execve fuel E t name elf_data argv envp =
     bind (build_vm_space fuel (te_elf E) (so_vm (te_space E)) (te_arch E) (read_all E) elf_data argv name) (\<lambda>(info, argv).
     bind (lift (aux_from_elf_info (te_stack E) info)) (\<lambda>aux.
     bind get_state (\<lambda>s. let k = ts_task s t; heap = heap_new (ei_heap_bottom info) (ei_heap_bottom info) in
     bind (assert_that (ti_thread_number (tk_inner k) = 0)) (\<lambda>_.
     bind (on_obj (\<lambda>ob. ob\<lparr>ob_space := (ob_space ob)(tk_space k := ei_address_space info),
                          ob_heap := (ob_heap ob)(tk_heap k := heap)\<rparr>)) (\<lambda>_.
     bind (load_vdso E) (\<lambda>vdso_base.
     bind (lift (case vdso_base of None \<Rightarrow> Ok aux | Some base \<Rightarrow> aux_set (te_stack E) (AT_SYSINFO (te_consts E)) base aux)) (\<lambda>aux.
     bind (upd_inner t (\<lambda>i. i\<lparr>ti_name := ei_name info,
             ti_stack := (ei_stack_top info - ec_USER_STACK_SIZE (te_elf E), ei_stack_top info)\<rparr>)) (\<lambda>_.
     bind (init_stack E (tk_space k) (us_new (te_stack E) (ei_stack_top info) argv envp aux name)) (\<lambda>user_sp.
     bind (put_trap_frame E (tk_space k) 0 (ua_apply_trap_tls (te_user E) (ei_tls info)
             (tf_new_user (te_space E) (ei_entry info) user_sp (tk_kernel_stack k)))) (\<lambda>_.
     in_world (ua_set_current (te_user E) (initial_user_state (ei_tls info)))))))))))))"

text \<open>The strings of a zero-terminated array of pointers in user memory, each with a zero byte added;
  \<open>fuel\<close> bounds the array and the strings, which end at the latest where memory is not mapped.\<close>

fun read_pointers :: "('v, 'h, 'w, 'tf, 'cx) task_env \<Rightarrow> nat \<Rightarrow> nat \<Rightarrow> usize \<Rightarrow> (('v, 'h, 'w) tstate, usize list) act" where
  "read_pointers E 0 t start = abort"
| "read_pointers E (Suc fuel) t start =
     bind (read_val_from_user E t pod_usize start) (\<lambda>p.
     if p = 0 then ret [] else bind (read_pointers E fuel t (start + 8)) (\<lambda>ps. ret (p # ps)))"

fun read_strings :: "nat \<Rightarrow> ('v, 'h, 'w, 'tf, 'cx) task_env \<Rightarrow> nat \<Rightarrow> usize list \<Rightarrow> (('v, 'h, 'w) tstate, u8 list list) act" where
  "read_strings fuel E t [] = ret []"
| "read_strings fuel E t (p # ps) =
     bind (must (read_string_from_user fuel E t p)) (\<lambda>a.
     bind (read_strings fuel E t ps) (\<lambda>as. ret ((a @ [0]) # as)))"

definition parse_user_argv_envp :: "nat \<Rightarrow> ('v, 'h, 'w, 'tf, 'cx) task_env \<Rightarrow> usize \<Rightarrow> usize
    \<Rightarrow> (('v, 'h, 'w) tstate, u8 list list \<times> u8 list list) act" where
  "parse_user_argv_envp fuel E argv_ptr envp_ptr =
     with_current E (\<lambda>t.
     bind (if argv_ptr \<noteq> 0 then read_pointers E fuel t argv_ptr else ret []) (\<lambda>argv.
     bind (read_strings fuel E t argv) (\<lambda>argv.
     bind (if envp_ptr \<noteq> 0 then read_pointers E fuel t envp_ptr else ret []) (\<lambda>envp.
     bind (read_strings fuel E t envp) (\<lambda>envp. ret (argv, envp))))))"

definition ends_with :: "'a list \<Rightarrow> 'a list \<Rightarrow> bool" where
  "ends_with xs suffix \<longleftrightarrow> length suffix \<le> length xs \<and> drop (length xs - length suffix) xs = suffix"

definition SH_SUFFIX :: "u8 list" where "SH_SUFFIX = [46, 115, 104]"
definition BUSYBOX :: "u8 list" where "BUSYBOX = [46, 47, 98, 117, 115, 121, 98, 111, 120]"

text \<open>A script is given to the shell: what is executed, and its arguments.\<close>

definition script_args :: "u8 list \<Rightarrow> u8 list list \<Rightarrow> u8 list \<times> u8 list list" where
  "script_args path args =
     (if ends_with path SH_SUFFIX
      then (BUSYBOX, [115, 104, 0] # (if args = [] then [path @ [0]] else args))
      else (path, args))"

definition do_execve :: "nat \<Rightarrow> ('v, 'h, 'w, 'tf, 'cx) task_env \<Rightarrow> usize \<Rightarrow> usize \<Rightarrow> usize
    \<Rightarrow> (('v, 'h, 'w) tstate, nat) act" where
  "do_execve fuel E filename_ptr argv_ptr envp_ptr =
     with_current E (\<lambda>t.
     bind (read_string_from_user fuel E t filename_ptr) (\<lambda>path_str.
     bind (parse_user_argv_envp fuel E argv_ptr envp_ptr) (\<lambda>(args, envs).
     let (path_str, args) = script_args path_str args in
     bind (read_exec_all E path_str) (\<lambda>data.
     bind (attempt (task_execve fuel E t path_str data args envs)) (\<lambda>res.
     case res of Inl _ \<Rightarrow> fail ENOEXEC | Inr _ \<Rightarrow> ret 0)))))"

end
