(* ===== verification/TaskDom.thy ===== *)
theory TaskDom
  imports TaskCalls
begin

text \<open>
  The methods of \<open>TaskDomainImpl\<close> (\<open>common/task/task/src/lib.rs\<close>) with the rest of \<open>syscall/\<close>:
  leaving and waiting, descriptors, process groups, signals, limits, priorities, memory, futexes;
  and the start of the domain (\<open>init.rs\<close>, \<open>kthread.rs\<close>). A wait is modelled up to the yield: \<open>Block\<close>
  means that the caller runs the round again later, from the state of that moment.
\<close>

unbundle bit_operations_syntax

section \<open>Leaving\<close>

text \<open>The children of a task move to the initial process.\<close>

fun adopt :: "nat \<Rightarrow> (nat, nat) btree \<Rightarrow> ('v, 'h, 'w) tstate \<Rightarrow> ('v, 'h, 'w) tstate" where
  "adopt init [] s = s"
| "adopt init ((tid, child) # cs) s =
     adopt init cs (set_inner init (\<lambda>i. i\<lparr>ti_children := bt_insert tid child (ti_children i)\<rparr>)
       (set_inner child (\<lambda>i. i\<lparr>ti_parent := Some init\<rparr>) s))"

text \<open>The futex call, with the kernel and the memory of the caller. The wake-ups reach the kernel in
  the order in which the waiters leave the queue; the result of one does not depend on the others. A
  caller that goes to sleep enters \<open>wait_now\<close> when it is queued.\<close>

definition futex_env_of :: "('v, 'h, 'w, 'tf, 'cx) task_env \<Rightarrow> nat \<Rightarrow> ('v, 'h, 'w) tstate \<Rightarrow> futex_env" where
  "futex_env_of E t s =
     (let v = ob_space (ts_obj s) (tk_space (ts_task s t)); p = pod_timespec (te_pods E) in
      \<lparr> fe_op_of = te_futex_op E,
        fe_read_atomic = (\<lambda>a. so_read_atomic (te_space E) a v),
        fe_read_timespec = (\<lambda>a. case vm_read_bytes (so_vm (te_space E)) a (pod_size p) v of
            Inl _ \<Rightarrow> None | Inr bs \<Rightarrow> Some (pod_value p bs)),
        fe_now = kn_now (te_cpu E) (ts_world s),
        fe_wake = (\<lambda>tid. fst (kn_wake (te_sched E) tid (ts_world s))),
        fe_tid = tk_tid (ts_task s t),
        fe_wait_now = fst (kn_wait_now (te_sched E) (ts_world s)) \<rparr>)"

definition task_futex :: "('v, 'h, 'w, 'tf, 'cx) task_env \<Rightarrow> nat \<Rightarrow> usize \<Rightarrow> u32 \<Rightarrow> u32 \<Rightarrow> usize \<Rightarrow> usize \<Rightarrow> u32
    \<Rightarrow> (('v, 'h, 'w) tstate, nat progress) act" where
  "task_futex E t uaddr op val val2 uaddr2 val3 = (\<lambda>s.
     case futex (futex_env_of E t s) uaddr op val val2 uaddr2 val3 (ts_futex s) of
       (r, q) \<Rightarrow>
         (let w = fold (\<lambda>tid w. snd (kn_wake (te_sched E) tid w))
              (drop (length (fq_woken (ts_futex s))) (fq_woken q)) (ts_world s)
          in (r, s\<lparr>ts_futex := q,
               ts_world := (case r of Inr Block \<Rightarrow> snd (kn_wait_now (te_sched E) w) | _ \<Rightarrow> w)\<rparr>)))"

text \<open>\<open>clear_child_tid\<close>: the word is zeroed and one waiter on it is woken.\<close>

definition clear_tid :: "('v, 'h, 'w, 'tf, 'cx) task_env \<Rightarrow> nat \<Rightarrow> (('v, 'h, 'w) tstate, unit) act" where
  "clear_tid E t =
     bind get_state (\<lambda>s. let a = ti_clear_child_tid (inner_of t s) in
     if a \<noteq> 0 then
       bind (space_write E (tk_space (ts_task s t)) a (pod_bytes pod_u32 0)) (\<lambda>_.
       bind (attempt (task_futex E t a (FUTEX_WAKE (te_consts E)) 1 0 0 0)) (\<lambda>_. ret ()))
     else ret ())"

definition do_exit :: "('v, 'h, 'w, 'tf, 'cx) task_env \<Rightarrow> i32 \<Rightarrow> (('v, 'h, 'w) tstate, nat) act" where
  "do_exit E exit_code =
     with_current E (\<lambda>t.
     bind get_state (\<lambda>s. let k = ts_task s t; exit_code = push_bit 8 (exit_code AND 0xff) in
     if tk_pid k = 1 then abort
     else bind (lift (unwrap (ts_init s))) (\<lambda>init.
       bind (modify_state (adopt init (ti_children (tk_inner k)))) (\<lambda>_.
       bind (upd_inner t (\<lambda>i. i\<lparr>ti_children := bt_empty\<rparr>)) (\<lambda>_.
       bind (upd_inner t (\<lambda>i. i\<lparr>ti_status := Zombie, ti_exit_code := exit_code\<rparr>)) (\<lambda>_.
       bind (clear_tid E t) (\<lambda>_.
       bind (remove_task (tk_tid k)) (\<lambda>_.
       bind (upd_inner t (\<lambda>i. i\<lparr>ti_status := Terminated\<rparr>)) (\<lambda>_.
       bind (modify_state (reclaim E)) (\<lambda>_.
       bind (in_world (kn_exit_now (te_sched E))) (\<lambda>_. ret 0)))))))))))"

section \<open>Waiting\<close>

definition filter_exit_task :: "nat \<Rightarrow> usize \<Rightarrow> ('v, 'h, 'w) tstate \<Rightarrow> nat option res" where
  "filter_exit_task t pid s =
     (let cs = filter (\<lambda>c. (of_nat (tk_pid (ts_task s c)) :: usize) = pid \<or> pid = -1)
                 (bt_values (ti_children (inner_of t s)))
      in if cs = [] then Err ECHILD
         else Ok (find (\<lambda>c. ti_status (inner_of c s) = Terminated) cs))"

text \<open>Taking a child that has exited: its status goes to the caller, it leaves the \<open>children\<close> map and
  the kernel, and nobody else may hold it (the assertion on \<open>Arc::strong_count\<close>).\<close>

definition reap :: "('v, 'h, 'w, 'tf, 'cx) task_env \<Rightarrow> nat \<Rightarrow> nat \<Rightarrow> usize \<Rightarrow> u32 \<Rightarrow> (('v, 'h, 'w) tstate, nat) act" where
  "reap E t c exit_code_ptr options =
     bind get_state (\<lambda>s. let tid = tk_tid (ts_task s c); pid = tk_pid (ts_task s c) in
     bind (if exit_code_ptr \<noteq> 0
           then write_val_to_user E t pod_u32 exit_code_ptr (ti_exit_code (inner_of c s)) else ret ()) (\<lambda>_.
     if contains options (WNOWAIT (te_consts E)) then bind (assert_that (pid = tid)) (\<lambda>_. ret pid)
     else
       bind (upd_inner t (\<lambda>i. i\<lparr>ti_children := bt_remove pid (ti_children i)\<rparr>)) (\<lambda>_.
       bind (must (in_world (kn_remove_task (te_sched E) tid))) (\<lambda>_.
       bind get_state (\<lambda>s. bind (assert_that (c \<notin> set (held_tasks s))) (\<lambda>_. ret pid)))))) "

definition wait_round :: "('v, 'h, 'w, 'tf, 'cx) task_env \<Rightarrow> usize \<Rightarrow> usize \<Rightarrow> u32
    \<Rightarrow> (('v, 'h, 'w) tstate, nat progress) act" where
  "wait_round E pid exit_code_ptr options =
     (let again = (if contains options (WNOHANG (te_consts E)) then ret (Done 0)
                   else bind (must (in_world (kn_yield_now (te_sched E)))) (\<lambda>_. ret Block)) in
     with_current E (\<lambda>t.
     bind get_state (\<lambda>s.
     bind (lift (filter_exit_task t pid s)) (\<lambda>wait_task. case wait_task of
       None \<Rightarrow> again
     | Some c \<Rightarrow>
         bind (must (in_world (kn_is_task_exit (te_sched E) (tk_tid (ts_task s c))))) (\<lambda>is_task_exit.
         if ti_status (inner_of c s) = Terminated \<and> is_task_exit
         then bind (reap E t c exit_code_ptr options) (\<lambda>pid. ret (Done pid))
         else again)))))"

definition do_wait4 :: "('v, 'h, 'w, 'tf, 'cx) task_env \<Rightarrow> usize \<Rightarrow> usize \<Rightarrow> u32
    \<Rightarrow> (('v, 'h, 'w) tstate, nat progress) act" where
  "do_wait4 E pid exit_code_ptr options =
     (if options AND NOT (WAIT_ALL (te_consts E)) \<noteq> 0 then fail EINVAL
      else scoped E (wait_round E pid exit_code_ptr options))"

section \<open>Descriptors and directories\<close>

definition dom_get_fd :: "('v, 'h, 'w, 'tf, 'cx) task_env \<Rightarrow> nat \<Rightarrow> (('v, 'h, 'w) tstate, u64) act" where
  "dom_get_fd E fd = with_current E (\<lambda>t. bind (task_get_file t fd) (\<lambda>f.
     bind (lift (ok_or f EBADF)) (\<lambda>f. ret (shim_inode f))))"

definition dom_add_fd :: "('v, 'h, 'w, 'tf, 'cx) task_env \<Rightarrow> u64 \<Rightarrow> (('v, 'h, 'w) tstate, nat) act" where
  "dom_add_fd E inode = scoped E (with_current E (\<lambda>t. bind (new_shim inode) (\<lambda>f. task_add_file t f)))"

definition dom_remove_fd :: "('v, 'h, 'w, 'tf, 'cx) task_env \<Rightarrow> nat \<Rightarrow> (('v, 'h, 'w) tstate, u64) act" where
  "dom_remove_fd E fd = scoped E (with_current E (\<lambda>t. bind (task_remove_file t fd) (\<lambda>f.
     bind (lift (ok_or f EBADF)) (\<lambda>f. ret (shim_inode f)))))"

definition dom_fs_info :: "('v, 'h, 'w, 'tf, 'cx) task_env \<Rightarrow> (('v, 'h, 'w) tstate, u64 \<times> u64) act" where
  "dom_fs_info E = with_current E (\<lambda>t. bind get_state (\<lambda>s. let fs_info = ti_fs_info (inner_of t s) in
     ret (shim_inode (fc_root fs_info), shim_inode (fc_cwd fs_info))))"

definition dom_set_cwd :: "('v, 'h, 'w, 'tf, 'cx) task_env \<Rightarrow> u64 \<Rightarrow> (('v, 'h, 'w) tstate, unit) act" where
  "dom_set_cwd E inode = scoped E (with_current E (\<lambda>t. bind (new_shim inode) (\<lambda>f.
     upd_inner t (\<lambda>i. i\<lparr>ti_fs_info := (ti_fs_info i)\<lparr>fc_cwd := f\<rparr>\<rparr>))))"

definition dom_do_umask :: "('v, 'h, 'w, 'tf, 'cx) task_env \<Rightarrow> u32 \<Rightarrow> (('v, 'h, 'w) tstate, u32) act" where
  "dom_do_umask E m = with_current E (\<lambda>t. bind get_state (\<lambda>s.
     bind (upd_inner t (\<lambda>i. i\<lparr>ti_umask := m AND 0x1ff\<rparr>)) (\<lambda>_. ret (ti_umask (inner_of t s)))))"

definition dom_do_fcntl :: "('v, 'h, 'w, 'tf, 'cx) task_env \<Rightarrow> nat \<Rightarrow> usize \<Rightarrow> (('v, 'h, 'w) tstate, u64 \<times> nat) act" where
  "dom_do_fcntl E fd cmd =
     scoped E (bind (lift (unwrap (te_fcntl E (ucast cmd)))) (\<lambda>cmd.
     with_current E (\<lambda>t. bind (task_get_file t fd) (\<lambda>f. bind (lift (ok_or f EBADF)) (\<lambda>f.
     if cmd = C_DUPFD \<or> cmd = C_DUPFD_CLOEXEC
     then bind (task_add_file t f) (\<lambda>fd. ret (shim_inode f, fd)) else fail EINVAL)))))"

definition dom_do_dup :: "('v, 'h, 'w, 'tf, 'cx) task_env \<Rightarrow> nat \<Rightarrow> nat option \<Rightarrow> (('v, 'h, 'w) tstate, nat) act" where
  "dom_do_dup E old_fd new_fd = scoped E (with_current E (\<lambda>t.
     bind (task_get_file t old_fd) (\<lambda>f. bind (lift (ok_or f EBADF)) (\<lambda>f.
     case new_fd of None \<Rightarrow> task_add_file t f
     | Some new_fd \<Rightarrow> bind (task_add_file_to_fd t f new_fd) (\<lambda>_. ret new_fd)))))"

definition dom_do_pipe2 :: "('v, 'h, 'w, 'tf, 'cx) task_env \<Rightarrow> u64 \<Rightarrow> u64 \<Rightarrow> usize \<Rightarrow> (('v, 'h, 'w) tstate, nat) act" where
  "dom_do_pipe2 E r w pipe = scoped E (with_current E (\<lambda>t.
     bind (new_shim r) (\<lambda>f. bind (task_add_file t f) (\<lambda>r.
     bind (new_shim w) (\<lambda>f. bind (task_add_file t f) (\<lambda>w.
     bind (write_bytes_to_user E t pipe (pod_bytes pod_u32 (of_nat r) @ pod_bytes pod_u32 (of_nat w))) (\<lambda>_.
     ret 0)))))))"

section \<open>User memory\<close>

definition dom_copy_to_user :: "('v, 'h, 'w, 'tf, 'cx) task_env \<Rightarrow> usize \<Rightarrow> u8 list \<Rightarrow> (('v, 'h, 'w) tstate, unit) act" where
  "dom_copy_to_user E dst buf = with_current E (\<lambda>t. write_bytes_to_user E t dst buf)"

definition dom_copy_from_user :: "('v, 'h, 'w, 'tf, 'cx) task_env \<Rightarrow> usize \<Rightarrow> nat \<Rightarrow> (('v, 'h, 'w) tstate, u8 list) act" where
  "dom_copy_from_user E src n = with_current E (\<lambda>t. read_bytes_from_user E t src n)"

definition dom_read_string :: "nat \<Rightarrow> ('v, 'h, 'w, 'tf, 'cx) task_env \<Rightarrow> usize \<Rightarrow> u8 list
    \<Rightarrow> (('v, 'h, 'w) tstate, u8 list \<times> nat) act" where
  "dom_read_string fuel E src buf = with_current E (\<lambda>t. bind (read_string_from_user fuel E t src) (\<lambda>str.
     let min_len = min (length str) (length buf) in ret (splice 0 (take min_len str) buf, min_len)))"

definition dom_vaddr_to_paddr :: "('v, 'h, 'w, 'tf, 'cx) task_env \<Rightarrow> usize \<Rightarrow> (('v, 'h, 'w) tstate, usize) act" where
  "dom_vaddr_to_paddr E vaddr = bind (current_task E) (\<lambda>t. bind (lift (ok_or t EINVAL)) (\<lambda>t. bind get_state (\<lambda>s.
     case vm_query (so_vm (te_space E)) vaddr (ob_space (ts_obj s) (tk_space (ts_task s t))) of
       Inl _ \<Rightarrow> fail EINVAL | Inr (phy, _) \<Rightarrow> ret phy)))"

definition dom_heap_info :: "('v, 'h, 'w, 'tf, 'cx) task_env \<Rightarrow> (('v, 'h, 'w) tstate, usize \<times> usize) act" where
  "dom_heap_info E = with_current E (\<lambda>t. bind get_state (\<lambda>s. let guard = ob_heap (ts_obj s) (tk_heap (ts_task s t)) in
     ret (hp_start guard, hp_current guard)))"

definition dom_token_and_trap_frame :: "('v, 'h, 'w, 'tf, 'cx) task_env \<Rightarrow> (('v, 'h, 'w) tstate, usize \<times> usize) act" where
  "dom_token_and_trap_frame E = bind (current_task E) (\<lambda>t. bind (lift (ok_or t EINVAL)) (\<lambda>t. bind get_state (\<lambda>s.
     ret (token E s t, trap_frame_virt E (ti_thread_number (inner_of t s))))))"

definition dom_trap_frame_phy_addr :: "('v, 'h, 'w, 'tf, 'cx) task_env \<Rightarrow> (('v, 'h, 'w) tstate, usize) act" where
  "dom_trap_frame_phy_addr E = bind (current_task E) (\<lambda>t. bind (lift (ok_or t EINVAL)) (\<lambda>t. bind get_state (\<lambda>s.
     trap_frame_phys E (tk_space (ts_task s t)) (ti_thread_number (inner_of t s)))))"

section \<open>Identities, groups and sessions\<close>

definition dom_current_pid :: "('v, 'h, 'w, 'tf, 'cx) task_env \<Rightarrow> (('v, 'h, 'w) tstate, nat) act" where
  "dom_current_pid E = with_current E (\<lambda>t. bind get_state (\<lambda>s. ret (tk_pid (ts_task s t))))"

text \<open>The parent is a weak reference, upgraded with \<open>unwrap\<close>.\<close>

definition dom_current_ppid :: "('v, 'h, 'w, 'tf, 'cx) task_env \<Rightarrow> (('v, 'h, 'w) tstate, nat) act" where
  "dom_current_ppid E = with_current E (\<lambda>t. bind get_state (\<lambda>s.
     case ti_parent (inner_of t s) of None \<Rightarrow> ret 0
     | Some p \<Rightarrow> if p \<in> set (ts_live s) then ret (tk_pid (ts_task s p)) else abort))"

definition dom_current_pgid :: "('v, 'h, 'w, 'tf, 'cx) task_env \<Rightarrow> (('v, 'h, 'w) tstate, nat) act" where
  "dom_current_pgid E = with_current E (\<lambda>t. bind get_state (\<lambda>s. ret (ti_process_group (inner_of t s))))"

definition dom_current_sid :: "('v, 'h, 'w, 'tf, 'cx) task_env \<Rightarrow> (('v, 'h, 'w) tstate, nat) act" where
  "dom_current_sid E = with_current E (\<lambda>t. bind get_state (\<lambda>s. ret (ti_session_id (inner_of t s))))"

definition dom_set_tid_address :: "('v, 'h, 'w, 'tf, 'cx) task_env \<Rightarrow> usize \<Rightarrow> (('v, 'h, 'w) tstate, nat) act" where
  "dom_set_tid_address E tidptr = with_current E (\<lambda>t.
     bind (upd_inner t (\<lambda>i. i\<lparr>ti_clear_child_tid := tidptr\<rparr>)) (\<lambda>_. bind get_state (\<lambda>s. ret (tk_tid (ts_task s t)))))"

text \<open>The task that a \<open>pid\<close> argument names: the caller for 0 and its own pid.\<close>

definition pid_target :: "('v, 'h, 'w, 'tf, 'cx) task_env \<Rightarrow> nat \<Rightarrow> (('v, 'h, 'w) tstate, nat \<times> nat) act" where
  "pid_target E pid = bind (current_task E) (\<lambda>t. bind (lift (ok_or t EINVAL)) (\<lambda>current. bind get_state (\<lambda>s.
     if pid = 0 \<or> pid = tk_pid (ts_task s current) then ret (current, current)
     else bind (lift (ok_or (find_task_by_pid s pid) ESRCH)) (\<lambda>task. ret (current, task)))))"

definition do_get_pgid :: "('v, 'h, 'w, 'tf, 'cx) task_env \<Rightarrow> nat \<Rightarrow> (('v, 'h, 'w) tstate, nat) act" where
  "do_get_pgid E pid = bind (pid_target E pid) (\<lambda>(_, task). bind get_state (\<lambda>s. ret (ti_process_group (inner_of task s))))"

definition do_get_sid :: "('v, 'h, 'w, 'tf, 'cx) task_env \<Rightarrow> nat \<Rightarrow> (('v, 'h, 'w) tstate, nat) act" where
  "do_get_sid E pid = bind (pid_target E pid) (\<lambda>(_, task). bind get_state (\<lambda>s. ret (ti_session_id (inner_of task s))))"

definition live_parent :: "nat \<Rightarrow> ('v, 'h, 'w) tstate \<Rightarrow> nat option" where
  "live_parent t s = (case ti_parent (inner_of t s) of None \<Rightarrow> None
     | Some p \<Rightarrow> if p \<in> set (ts_live s) then Some p else None)"

definition do_set_pgid :: "('v, 'h, 'w, 'tf, 'cx) task_env \<Rightarrow> nat \<Rightarrow> nat \<Rightarrow> (('v, 'h, 'w) tstate, nat) act" where
  "do_set_pgid E pid pgid =
     bind (pid_target E pid) (\<lambda>(current, target). bind get_state (\<lambda>s.
     bind (if pid = 0 \<or> pid = tk_pid (ts_task s current) then ret ()
           else bind (lift (ok_or (live_parent target s) EPERM)) (\<lambda>parent.
             if parent \<noteq> current then fail EPERM else ret ())) (\<lambda>_.
     let new_pgid = (if pgid = 0 then tk_pid (ts_task s target) else pgid) in
     if ti_process_group (inner_of target s) = new_pgid then ret 0
     else if ti_session_id (inner_of target s) = tk_pid (ts_task s target) then fail EPERM
     else bind (lift (ok_or (find_task_by_pid s new_pgid) EPERM)) (\<lambda>group_leader.
       if ti_session_id (inner_of group_leader s) \<noteq> ti_session_id (inner_of target s) then fail EPERM
       else bind (upd_inner target (\<lambda>i. i\<lparr>ti_process_group := new_pgid\<rparr>)) (\<lambda>_. ret 0)))))"

definition do_set_sid :: "('v, 'h, 'w, 'tf, 'cx) task_env \<Rightarrow> (('v, 'h, 'w) tstate, nat) act" where
  "do_set_sid E = bind (current_task E) (\<lambda>t. bind (lift (ok_or t EINVAL)) (\<lambda>t. bind get_state (\<lambda>s.
     let current_pid = tk_pid (ts_task s t) in
     if ti_process_group (inner_of t s) = current_pid then fail EPERM
     else bind (upd_inner t (\<lambda>i. i\<lparr>ti_session_id := current_pid\<rparr>)) (\<lambda>_.
          bind (upd_inner t (\<lambda>i. i\<lparr>ti_process_group := current_pid\<rparr>)) (\<lambda>_. ret current_pid)))))"

section \<open>Signals, limits and priorities\<close>

definition do_sigaction :: "('v, 'h, 'w, 'tf, 'cx) task_env \<Rightarrow> u8 \<Rightarrow> usize \<Rightarrow> usize \<Rightarrow> (('v, 'h, 'w) tstate, nat) act" where
  "do_sigaction E sig action old_action =
     with_current E (\<lambda>t. bind (assert_that (sg_number_ok (te_sig E) sig)) (\<lambda>_.
     bind get_state (\<lambda>s. let h = tk_handlers (ts_task s t) in
     bind (if old_action \<noteq> 0 then write_bytes_to_user E t old_action (sg_get_action (te_sig E) sig (ob_handlers (ts_obj s) h))
           else ret ()) (\<lambda>_.
     if action \<noteq> 0 then
       bind (read_bytes_from_user E t action (sg_action_size (te_sig E))) (\<lambda>tmp_action.
       bind (on_obj (\<lambda>ob. ob\<lparr>ob_handlers := (ob_handlers ob)(h := sg_set_action (te_sig E) sig tmp_action (ob_handlers ob h))\<rparr>)) (\<lambda>_.
       ret 0))
     else ret 0))))"

definition do_sigprocmask :: "('v, 'h, 'w, 'tf, 'cx) task_env \<Rightarrow> usize \<Rightarrow> usize \<Rightarrow> usize \<Rightarrow> (('v, 'h, 'w) tstate, nat) act" where
  "do_sigprocmask E how sset oldset =
     with_current E (\<lambda>t. bind get_state (\<lambda>s. let r = tk_receivers (ts_task s t); old = ob_mask (ts_obj s) r in
     bind (if oldset \<noteq> 0 then write_val_to_user E t pod_usize oldset old else ret ()) (\<lambda>_.
     bind (lift (unwrap (sg_how (te_sig E) how))) (\<lambda>how.
     if sset \<noteq> 0 then
       bind (read_val_from_user E t pod_usize sset) (\<lambda>bits.
       bind (on_obj (\<lambda>ob. ob\<lparr>ob_mask := (ob_mask ob)(r := (case how of
           SigBlock \<Rightarrow> sg_add (te_sig E) old bits
         | SigUnblock \<Rightarrow> sg_sub (te_sig E) old bits
         | SigSetMask \<Rightarrow> bits))\<rparr>)) (\<lambda>_. ret 0))
     else ret 0))))"

definition do_signal_stack :: "('v, 'h, 'w, 'tf, 'cx) task_env \<Rightarrow> usize \<Rightarrow> usize \<Rightarrow> (('v, 'h, 'w) tstate, nat) act" where
  "do_signal_stack E uss uoss =
     with_current E (\<lambda>t. bind get_state (\<lambda>s. let p = pod_sigstack (te_pods E) in
     bind (if uoss \<noteq> 0 then write_val_to_user E t p uoss (ti_ss_stack (inner_of t s)) else ret ()) (\<lambda>_.
     if uss \<noteq> 0 then
       bind (read_val_from_user E t p uss) (\<lambda>ss_stack.
       bind (upd_inner t (\<lambda>i. i\<lparr>ti_ss_stack := ss_stack\<rparr>)) (\<lambda>_. ret 0))
     else ret 0)))"

definition do_prlimit :: "('v, 'h, 'w, 'tf, 'cx) task_env \<Rightarrow> nat \<Rightarrow> usize \<Rightarrow> usize \<Rightarrow> usize \<Rightarrow> (('v, 'h, 'w) tstate, nat) act" where
  "do_prlimit E pid resource new_limit old_limit =
     with_current E (\<lambda>t. bind get_state (\<lambda>s. let p = pod_rlimit (te_pods E) in
     bind (assert_that (pid = 0 \<or> pid = tk_pid (ts_task s t))) (\<lambda>_.
     bind (lift (unwrap (rlimit_of (te_consts E) resource))) (\<lambda>resource.
     bind (if old_limit \<noteq> 0
           then bind (lift (get_rlimit (ti_resource_limits (inner_of t s)) resource)) (\<lambda>limit.
                write_val_to_user E t p old_limit limit)
           else ret ()) (\<lambda>_.
     if new_limit \<noteq> 0
     then bind (read_val_from_user E t p new_limit) (\<lambda>limit.
          bind (lift (set_rlimit resource limit (ti_resource_limits (inner_of t s)))) (\<lambda>limits.
          bind (upd_inner t (\<lambda>i. i\<lparr>ti_resource_limits := limits\<rparr>)) (\<lambda>_. ret 0)))
     else ret 0)))))"

definition parse_priority_target :: "('v, 'h, 'w, 'tf, 'cx) task_env \<Rightarrow> i32 \<Rightarrow> u32 \<Rightarrow> (('v, 'h, 'w) tstate, u32) act" where
  "parse_priority_target E which who =
     bind (lift (te_which E which)) (\<lambda>which. case which of
       PRIO_PROCESS \<Rightarrow> if who = 0 then with_current E (\<lambda>t. bind get_state (\<lambda>s. ret (of_nat (tk_pid (ts_task s t)))) )
                       else ret who
     | _ \<Rightarrow> fail ENOSYS)"

text \<open>The target has to be the calling thread (an assertion).\<close>

definition do_set_priority :: "('v, 'h, 'w, 'tf, 'cx) task_env \<Rightarrow> i32 \<Rightarrow> u32 \<Rightarrow> i32 \<Rightarrow> (('v, 'h, 'w) tstate, unit) act" where
  "do_set_priority E which who prio =
     bind (parse_priority_target E which who) (\<lambda>pid.
     let new_nice = word_of_int (max (-20) (min 19 (sint prio))) :: 8 word in
     with_current E (\<lambda>t. bind get_state (\<lambda>s.
     bind (assert_that (tk_tid (ts_task s t) = unat pid)) (\<lambda>_.
     in_world (kn_set_priority (te_sched E) new_nice)))))"

definition do_get_priority :: "('v, 'h, 'w, 'tf, 'cx) task_env \<Rightarrow> i32 \<Rightarrow> u32 \<Rightarrow> (('v, 'h, 'w) tstate, i32) act" where
  "do_get_priority E which who =
     bind (parse_priority_target E which who) (\<lambda>pid.
     with_current E (\<lambda>t. bind get_state (\<lambda>s.
     bind (assert_that (tk_tid (ts_task s t) = unat pid)) (\<lambda>_.
     bind (in_world (kn_get_priority (te_sched E))) (\<lambda>p. ret (20 - scast p))))))"

section \<open>Memory\<close>

text \<open>The calls of \<open>Mmap\<close> on the memory of the caller. A mapping that is removed may hold the last
  reference to a file.\<close>

definition dom_do_mmap :: "('v, 'h, 'w, 'tf, 'cx) task_env \<Rightarrow> usize \<Rightarrow> usize \<Rightarrow> u32 \<Rightarrow> u32 \<Rightarrow> nat \<Rightarrow> usize
    \<Rightarrow> (('v, 'h, 'w) tstate, usize) act" where
  "dom_do_mmap E start len prot flags fd offset = scoped E (with_current E (\<lambda>t. bind get_state (\<lambda>s.
     in_mm t (do_mmap (ec_mm (te_elf E)) (so_vm (te_space E)) (fd_get (ob_fds (ts_obj s) (tk_fds (ts_task s t))))
       start len prot flags fd offset))))"

definition dom_do_munmap :: "('v, 'h, 'w, 'tf, 'cx) task_env \<Rightarrow> usize \<Rightarrow> usize \<Rightarrow> (('v, 'h, 'w) tstate, usize) act" where
  "dom_do_munmap E start len = scoped E (with_current E (\<lambda>t. in_mm t (do_munmap (so_vm (te_space E)) start len)))"

definition dom_do_mprotect :: "('v, 'h, 'w, 'tf, 'cx) task_env \<Rightarrow> usize \<Rightarrow> usize \<Rightarrow> u32 \<Rightarrow> (('v, 'h, 'w) tstate, usize) act" where
  "dom_do_mprotect E addr len prot =
     scoped E (with_current E (\<lambda>t. in_mm t (do_mprotect (ec_mm (te_elf E)) (so_vm (te_space E)) addr len prot)))"

definition dom_do_load_page_fault :: "('v, 'h, 'w, 'tf, 'cx) task_env \<Rightarrow> usize \<Rightarrow> (('v, 'h, 'w) tstate, unit) act" where
  "dom_do_load_page_fault E addr =
     scoped E (with_current E (\<lambda>t. in_mm t (do_load_page_fault (ec_mm (te_elf E)) (so_vm (te_space E)) addr)))"

definition dom_do_brk :: "('v, 'h, 'w, 'tf, 'cx) task_env \<Rightarrow> usize \<Rightarrow> (('v, 'h, 'w) tstate, usize) act" where
  "dom_do_brk E addr = scoped E (with_current E (\<lambda>t. in_mm t (extend_heap (ec_mm (te_elf E)) (so_vm (te_space E)) addr)))"

definition dom_mmap_device :: "('v, 'h, 'w, 'tf, 'cx) task_env \<Rightarrow> usize \<Rightarrow> usize \<Rightarrow> (('v, 'h, 'w) tstate, usize) act" where
  "dom_mmap_device E phy_start phy_end =
     scoped E (with_current E (\<lambda>t. in_mm t (do_mmap_device (ec_mm (te_elf E)) (so_vm (te_space E)) phy_start phy_end)))"

definition dom_vdso_reserve :: "('v, 'h, 'w, 'tf, 'cx) task_env \<Rightarrow> usize \<Rightarrow> u32 \<Rightarrow> u32 \<Rightarrow> (('v, 'h, 'w) tstate, usize) act" where
  "dom_vdso_reserve E len prot flags =
     scoped E (with_current E (\<lambda>t. in_mm t (vdso_reserve_user_vaddr (ec_mm (te_elf E)) len prot flags)))"

definition dom_vdso_map :: "('v, 'h, 'w, 'tf, 'cx) task_env \<Rightarrow> usize \<Rightarrow> usize \<Rightarrow> u32 \<Rightarrow> (usize \<times> bool) list
    \<Rightarrow> (('v, 'h, 'w) tstate, unit) act" where
  "dom_vdso_map E vaddr len prot page_descs =
     scoped E (with_current E (\<lambda>t. in_mm t (vdso_map_user_pages (ec_mm (te_elf E)) (so_vm (te_space E)) vaddr len prot page_descs)))"

section \<open>The other calls of the trait\<close>

definition dom_do_clone :: "('v, 'h, 'w, 'tf, 'cx) task_env \<Rightarrow> usize \<Rightarrow> usize \<Rightarrow> usize \<Rightarrow> usize \<Rightarrow> usize
    \<Rightarrow> (('v, 'h, 'w) tstate, nat) act" where
  "dom_do_clone E flags stack ptid tls ctid = scoped E (do_clone E flags stack ptid tls ctid)"

definition dom_do_execve :: "nat \<Rightarrow> ('v, 'h, 'w, 'tf, 'cx) task_env \<Rightarrow> usize \<Rightarrow> usize \<Rightarrow> usize
    \<Rightarrow> (('v, 'h, 'w) tstate, nat) act" where
  "dom_do_execve fuel E filename_ptr argv_ptr envp_ptr = scoped E (do_execve fuel E filename_ptr argv_ptr envp_ptr)"

definition dom_do_exit :: "('v, 'h, 'w, 'tf, 'cx) task_env \<Rightarrow> u64 \<Rightarrow> (('v, 'h, 'w) tstate, nat) act" where
  "dom_do_exit E exit_code = scoped E (do_exit E (ucast exit_code))"

definition dom_do_futex :: "('v, 'h, 'w, 'tf, 'cx) task_env \<Rightarrow> usize \<Rightarrow> u32 \<Rightarrow> u32 \<Rightarrow> usize \<Rightarrow> usize \<Rightarrow> u32
    \<Rightarrow> (('v, 'h, 'w) tstate, nat progress) act" where
  "dom_do_futex E uaddr op val val2 uaddr2 val3 = with_current E (\<lambda>t. task_futex E t uaddr op val val2 uaddr2 val3)"

definition dom_set_fs_base :: "('v, 'h, 'w, 'tf, 'cx) task_env \<Rightarrow> usize \<Rightarrow> (('v, 'h, 'w) tstate, unit) act" where
  "dom_set_fs_base E fs_base = in_world (kn_set_fs_base (te_cpu E) fs_base)"

definition dom_get_fs_base :: "('v, 'h, 'w, 'tf, 'cx) task_env \<Rightarrow> (('v, 'h, 'w) tstate, usize) act" where
  "dom_get_fs_base E = in_world (kn_fs_base (te_cpu E))"

definition dom_set_gs_base :: "('v, 'h, 'w, 'tf, 'cx) task_env \<Rightarrow> usize \<Rightarrow> (('v, 'h, 'w) tstate, unit) act" where
  "dom_set_gs_base E gs_base = in_world (kn_set_gs_base (te_cpu E) gs_base)"

definition dom_get_gs_base :: "('v, 'h, 'w, 'tf, 'cx) task_env \<Rightarrow> (('v, 'h, 'w) tstate, usize) act" where
  "dom_get_gs_base E = in_world (kn_gs_base (te_cpu E))"

section \<open>The start\<close>

definition ktread_create :: "('v, 'h, 'w, 'tf, 'cx) task_env \<Rightarrow> u8 list \<Rightarrow> (('v, 'h, 'w) tstate, unit) act" where
  "ktread_create E name =
     bind (new_tid E) (\<lambda>tid. bind (lift (unwrap tid)) (\<lambda>tid.
     bind (in_world (kn_add_one_task (te_sched E) tid (cx_new_kernel (te_cpu E)) (-1))) (\<lambda>k_stack_top.
     bind fresh (\<lambda>n.
     bind (new_objects E n (vm_new (so_vm (te_space E))) (heap_new 0 0) []) (\<lambda>_.
     bind (new_fs_context (VFS_ROOT (te_consts E)) (VFS_ROOT (te_consts E))) (\<lambda>fs_info.
     bind (put_task n (process_task n tid k_stack_top (process_inner E name tid fs_info (0, 0)))) (\<lambda>_.
     add_task E n)))))))"

definition INIT_PROC_PATH :: "u8 list" where
  "INIT_PROC_PATH = [47, 116, 101, 115, 116, 115, 47, 105, 110, 105, 116]"

text \<open>\<open>INIT_PROCESS\<close>, computed when it is used first.\<close>

definition init_process :: "nat \<Rightarrow> ('v, 'h, 'w, 'tf, 'cx) task_env \<Rightarrow> (('v, 'h, 'w) tstate, nat) act" where
  "init_process fuel E =
     bind get_state (\<lambda>s. case ts_init s of Some t \<Rightarrow> ret t | None \<Rightarrow>
     bind (read_all E INIT_PROC_PATH) (\<lambda>data.
     if data = None \<or> data = Some [] then abort
     else bind (from_elf fuel E INIT_PROC_PATH (the data)) (\<lambda>t.
          bind (lift (unwrap t)) (\<lambda>t.
          bind (modify_state (\<lambda>s. s\<lparr>ts_init := Some t\<rparr>)) (\<lambda>_. ret t)))))"

definition init_task :: "nat \<Rightarrow> ('v, 'h, 'w, 'tf, 'cx) task_env \<Rightarrow> (('v, 'h, 'w) tstate, unit) act" where
  "init_task fuel E =
     scoped E (bind (must (ktread_create E [107, 116, 104, 114, 101, 97, 100, 95, 116, 101, 115, 116])) (\<lambda>_.
     bind (init_process fuel E) (\<lambda>task. add_task E task)))"

text \<open>The domain before \<open>init\<close>: no task, no id taken, the two standard streams.\<close>

definition no_task :: "('v, 'h, 'w, 'tf, 'cx) task_env \<Rightarrow> task" where
  "no_task E = (let f = \<lparr> shim_ref = 0, shim_inode = 0 \<rparr> in
     process_task 0 0 0 (process_inner E [] 0 \<lparr> fc_cwd = f, fc_root = f \<rparr> (0, 0)))"

definition boot :: "('v, 'h, 'w, 'tf, 'cx) task_env \<Rightarrow> 'w \<Rightarrow> ('v, 'h, 'w) tstate" where
  "boot E w =
     (let fin = \<lparr> shim_ref = 0, shim_inode = VFS_STDIN (te_consts E) \<rparr>;
          fout = \<lparr> shim_ref = 1, shim_inode = VFS_STDOUT (te_consts E) \<rparr> in
      \<lparr> ts_task = (\<lambda>_. no_task E), ts_live = [], ts_next = 2, ts_global = bt_empty, ts_init = None,
        ts_tids = [],
        ts_obj = \<lparr> ob_space = (\<lambda>_. vm_new (so_vm (te_space E))), ob_fds = (\<lambda>_. fd_new (MAX_FD (te_consts E))),
          ob_heap = (\<lambda>_. heap_new 0 0), ob_mmap = (\<lambda>_. mmap_new (ec_mm (te_elf E))),
          ob_handlers = (\<lambda>_. sg_new (te_sig E)), ob_mask = (\<lambda>_. 0), ob_threads = (\<lambda>_. []) \<rparr>,
        ts_shims = [fin, fout], ts_stdio = (fin, fout), ts_futex = fq_new, ts_world = w \<rparr>)"

end
