(* ===== verification/TaskTree.thy ===== *)
theory TaskTree
  imports TaskDom
begin

text \<open>
  The invariant of the task domain. \<open>skel\<close> is the part of the state that the task tree, the thread
  ids and the files live in; most of the code leaves it alone (\<open>stable\<close>). \<open>tree_inv\<close> ties the global
  table, the \<open>children\<close> maps, the weak parents, the thread ids and the \<open>ShimFile\<close>s together, and
  \<open>settled\<close> says that nothing that nobody holds is left over; every call keeps both.
\<close>

section \<open>What most steps leave alone\<close>

definition bones :: "task \<Rightarrow> (nat \<times> nat \<times> nat \<times> nat) \<times> nat option \<times> (nat, nat) btree \<times> fs_context" where
  "bones k = ((tk_tid k, tk_pid k, tk_fds k, tk_mmap k), ti_parent (tk_inner k), ti_children (tk_inner k),
     ti_fs_info (tk_inner k))"

type_synonym skeleton = "(nat list \<times> nat \<times> (nat, nat) btree \<times> nat option)
  \<times> (nat list \<times> shim_file list \<times> (shim_file \<times> shim_file))
  \<times> (nat \<Rightarrow> (nat \<times> nat \<times> nat \<times> nat) \<times> nat option \<times> (nat, nat) btree \<times> fs_context)
  \<times> (nat \<Rightarrow> fd_manager) \<times> (nat \<Rightarrow> mmap_info)"

definition skel :: "('v, 'h, 'w) tstate \<Rightarrow> skeleton" where
  "skel s = ((ts_live s, ts_next s, ts_global s, ts_init s), (ts_tids s, ts_shims s, ts_stdio s),
     (\<lambda>t. bones (ts_task s t)), ob_fds (ts_obj s), ob_mmap (ts_obj s))"

lemma skelD:
  assumes "skel s' = skel s"
  shows "ts_live s' = ts_live s" "ts_next s' = ts_next s" "ts_global s' = ts_global s" "ts_init s' = ts_init s"
    "ts_tids s' = ts_tids s" "ts_shims s' = ts_shims s" "ts_stdio s' = ts_stdio s"
    "ob_fds (ts_obj s') = ob_fds (ts_obj s)" "ob_mmap (ts_obj s') = ob_mmap (ts_obj s)"
    "tk_tid (ts_task s' t) = tk_tid (ts_task s t)" "tk_pid (ts_task s' t) = tk_pid (ts_task s t)"
    "tk_fds (ts_task s' t) = tk_fds (ts_task s t)" "tk_mmap (ts_task s' t) = tk_mmap (ts_task s t)"
    "ti_parent (inner_of t s') = ti_parent (inner_of t s)"
    "ti_children (inner_of t s') = ti_children (inner_of t s)"
    "ti_fs_info (inner_of t s') = ti_fs_info (inner_of t s)"
proof -
  from assms have "bones (ts_task s' t) = bones (ts_task s t)" unfolding skel_def prod.inject by metis
  then show "tk_tid (ts_task s' t) = tk_tid (ts_task s t)" "tk_pid (ts_task s' t) = tk_pid (ts_task s t)"
    "tk_fds (ts_task s' t) = tk_fds (ts_task s t)" "tk_mmap (ts_task s' t) = tk_mmap (ts_task s t)"
    "ti_parent (inner_of t s') = ti_parent (inner_of t s)"
    "ti_children (inner_of t s') = ti_children (inner_of t s)"
    "ti_fs_info (inner_of t s') = ti_fs_info (inner_of t s)"
    by (simp_all add: bones_def inner_of_def)
qed (use assms in \<open>simp_all add: skel_def\<close>)

definition stable :: "(('v, 'h, 'w) tstate, 'a) act \<Rightarrow> bool" where
  "stable m \<longleftrightarrow> (\<forall>s. skel (snd (m s)) = skel s)"

named_theorems stable_intros \<open>steps that leave the skeleton alone\<close>

lemma stableI: "(\<And>s. skel (snd (m s)) = skel s) \<Longrightarrow> stable m"
  by (simp add: stable_def)

lemma stableD: "stable m \<Longrightarrow> m s = (r, s') \<Longrightarrow> skel s' = skel s"
  unfolding stable_def by (metis snd_conv)

lemma stable_basics [stable_intros]:
  "stable (ret x)" "stable (fail e)" "stable abort" "stable (lift r)" "stable get_state" "stable (assert_that b)"
  by (simp_all add: stable_def act_simps)

lemma stable_bind [stable_intros]:
  assumes "stable m" "\<And>x. stable (f x)"
  shows "stable (bind m f)"
proof (rule stableI)
  fix s
  obtain r t where m: "m s = (r, t)" by fastforce
  then have t: "skel t = skel s" using assms(1) stableD by blast
  show "skel (snd (bind m f s)) = skel s"
  proof (cases r)
    case (Inr x)
    then have "bind m f s = f x t" using m by (simp add: act_simps)
    then show ?thesis using assms(2) t by (simp add: stable_def)
  qed (use m t in \<open>simp add: act_simps\<close>)
qed

lemma stable_wrap [stable_intros]:
  "stable m \<Longrightarrow> stable (attempt m)" "stable m \<Longrightarrow> stable (must m)"
  by (auto simp: attempt_def must_def split: prod.splits sum.splits fault.splits intro!: stableI dest: stableD)

lemma stable_cases [stable_intros]:
  "stable m \<Longrightarrow> stable n \<Longrightarrow> stable (if b then m else n)"
  "(x = None \<Longrightarrow> stable m) \<Longrightarrow> (\<And>y. x = Some y \<Longrightarrow> stable (f y)) \<Longrightarrow> stable (case x of None \<Rightarrow> m | Some y \<Rightarrow> f y)"
  "(\<And>e. stable (g e)) \<Longrightarrow> (\<And>y. stable (h y)) \<Longrightarrow> stable (case z of Inl e \<Rightarrow> g e | Inr y \<Rightarrow> h y)"
  "(\<And>a b. stable (k a b)) \<Longrightarrow> stable (case p of (a, b) \<Rightarrow> k a b)"
  by (auto split: option.splits sum.splits prod.splits)

lemma stable_Let [stable_intros]: "stable (f a) \<Longrightarrow> stable (let x = a in f x)"
  by simp

lemma stable_in_world [stable_intros]: "stable (in_world m)"
  by (rule stableI) (simp add: in_world_def zoom_run skel_def split: prod.split)

lemma stable_in_space [stable_intros]: "stable (in_space sp m)"
  by (rule stableI) (simp add: in_space_def zoom_run skel_def split: prod.split)

lemma stable_on_obj [stable_intros]:
  "(\<And>ob. ob_fds (f ob) = ob_fds ob) \<Longrightarrow> (\<And>ob. ob_mmap (f ob) = ob_mmap ob) \<Longrightarrow> stable (on_obj f)"
  by (rule stableI) (simp add: on_obj_def act_simps skel_def)

lemma stable_upd_inner [stable_intros]:
  assumes "\<And>i. ti_parent (f i) = ti_parent i" "\<And>i. ti_children (f i) = ti_children i"
    "\<And>i. ti_fs_info (f i) = ti_fs_info i"
  shows "stable (upd_inner t f)"
  by (rule stableI) (auto simp: upd_inner_def set_inner_def act_simps skel_def bones_def assms intro!: ext)

lemma stable_current [stable_intros]:
  "stable (current_task E)" "(\<And>t. stable (f t)) \<Longrightarrow> stable (with_current E f)"
proof -
  show c: "stable (current_task E)"
    unfolding current_task_def by (intro stable_intros)
  show "(\<And>t. stable (f t)) \<Longrightarrow> stable (with_current E f)"
    unfolding with_current_def by (intro stable_intros c)
qed

lemma stable_memory [stable_intros]:
  "stable (space_read E sp a n)" "stable (space_write E sp a bs)"
  "stable (read_bytes_from_user E t a n)" "stable (read_val_from_user E t p a)"
  "stable (write_bytes_to_user E t a bs)" "stable (write_val_to_user E t q a v)"
  unfolding space_read_def space_write_def read_bytes_from_user_def read_val_from_user_def
    write_bytes_to_user_def write_val_to_user_def
  by (intro stable_intros)+

lemma stable_read_string_loop [stable_intros]: "stable (read_string_loop E fuel t a acc)"
  by (induction fuel arbitrary: a acc) (auto intro!: stable_intros)

lemma stable_read_string [stable_intros]: "stable (read_string_from_user fuel E t a)"
  unfolding read_string_from_user_def by (intro stable_intros)

lemma stable_trap_frame [stable_intros]:
  "stable (trap_frame_phys E sp n)" "stable (get_trap_frame E sp n)" "stable (put_trap_frame E sp n tf)"
  unfolding trap_frame_phys_def get_trap_frame_def put_trap_frame_def by (intro stable_intros)+

lemma stable_read_all [stable_intros]:
  "stable (task_path_at E path)" "stable (read_all_inner E nm b)" "stable (read_all E nm)"
  "stable (read_exec_all E nm)"
  unfolding read_exec_all_def read_all_def read_all_inner_def task_path_at_def
  by (intro stable_intros)+

lemma stable_build [stable_intros]: "stable (build_vm_space fuel c ops ar (read_all E) elf args nm)"
proof (induction fuel arbitrary: elf args nm)
  case (Suc fuel)
  show ?case
    by (simp split: option.split sum.split) (intro allI impI conjI stable_intros Suc)
qed (simp add: stable_intros)

lemma stable_clone_parts [stable_intros]:
  "stable (clone_space E t n vm)" "stable (clone_frame E t tid a sp num kst)"
  "stable (first_number E)" "stable (init_stack E sp u)" "stable (load_vdso E)"
  unfolding clone_space_def clone_frame_def first_number_def init_stack_def load_vdso_def Let_def
  by (intro stable_intros; simp)+

lemma stable_execve [stable_intros]: "stable (task_execve fuel E t nm elf argv envp)"
  unfolding task_execve_def Let_def by (intro stable_intros; simp)

lemma stable_args [stable_intros]:
  "stable (read_pointers E fuel t a)" "stable (read_strings fuel E t ps)" "stable (parse_user_argv_envp fuel E av ev)"
proof -
  show p: "stable (read_pointers E fuel t a)" for t a
    by (induction fuel arbitrary: a) (auto intro!: stable_intros)
  show q: "stable (read_strings fuel E t ps)" for t ps by (induction ps) (auto intro!: stable_intros)
  show "stable (parse_user_argv_envp fuel E av ev)"
    unfolding parse_user_argv_envp_def by (intro stable_intros p q)
qed

lemma stable_do_execve [stable_intros]: "stable (do_execve fuel E a b c)"
  unfolding do_execve_def Let_def by (intro stable_intros)

lemma stable_task_futex [stable_intros]: "stable (task_futex E t a op val val2 b val3)"
  by (rule stableI) (simp add: task_futex_def skel_def Let_def split: prod.split)

lemma stable_clear_tid [stable_intros]: "stable (clear_tid E t)"
  unfolding clear_tid_def Let_def by (intro stable_intros)

section \<open>The invariant\<close>

definition table_ok :: "('v, 'h, 'w) tstate \<Rightarrow> bool" where
  "table_ok s \<longleftrightarrow> bt_wf (ts_global s)
     \<and> (\<forall>tid t. bt_get (ts_global s) tid = Some t \<longrightarrow> t \<in> set (ts_live s) \<and> tk_tid (ts_task s t) = tid)
     \<and> (\<forall>t. ts_init s = Some t \<longrightarrow> t \<in> set (ts_live s))"

definition kids_ok :: "('v, 'h, 'w) tstate \<Rightarrow> bool" where
  "kids_ok s \<longleftrightarrow> (\<forall>t \<in> set (ts_live s). bt_wf (ti_children (inner_of t s))
     \<and> (\<forall>k c. bt_get (ti_children (inner_of t s)) k = Some c \<longrightarrow>
          c \<in> set (ts_live s) \<and> tk_pid (ts_task s c) = k \<and> ti_parent (inner_of c s) = Some t))"

definition ids_ok :: "('v, 'h, 'w) tstate \<Rightarrow> bool" where
  "ids_ok s \<longleftrightarrow> distinct (ts_live s) \<and> distinct (ts_tids s)
     \<and> (\<forall>t \<in> set (ts_live s). t < ts_next s \<and> tk_fds (ts_task s t) < ts_next s \<and> tk_mmap (ts_task s t) < ts_next s
          \<and> tk_tid (ts_task s t) \<in> set (ts_tids s) \<and> tk_pid (ts_task s t) \<in> set (ts_tids s))
     \<and> inj_on (\<lambda>t. tk_tid (ts_task s t)) (set (ts_live s))"

definition files_ok :: "('v, 'h, 'w) tstate \<Rightarrow> bool" where
  "files_ok s \<longleftrightarrow> distinct (map shim_ref (ts_shims s)) \<and> (\<forall>f \<in> set (ts_shims s). shim_ref f < ts_next s)
     \<and> set (held_shims s) \<subseteq> set (ts_shims s)
     \<and> (\<forall>t \<in> set (ts_live s). slot_inv (ob_fds (ts_obj s) (tk_fds (ts_task s t))))"

definition tree_inv :: "('v, 'h, 'w) tstate \<Rightarrow> bool" where
  "tree_inv s \<longleftrightarrow> table_ok s \<and> kids_ok s \<and> ids_ok s \<and> files_ok s"

text \<open>Nothing is left that nobody holds.\<close>

definition settled :: "('v, 'h, 'w) tstate \<Rightarrow> bool" where
  "settled s \<longleftrightarrow> set (ts_live s) \<subseteq> set (held_tasks s) \<and> set (ts_shims s) \<subseteq> set (held_shims s)
     \<and> (\<forall>i \<in> set (ts_tids s). \<exists>t \<in> set (ts_live s). tk_tid (ts_task s t) = i \<or> tk_pid (ts_task s t) = i)"

text \<open>A property of the skeleton.\<close>

definition skeletal :: "(('v, 'h, 'w) tstate \<Rightarrow> bool) \<Rightarrow> bool" where
  "skeletal P \<longleftrightarrow> (\<forall>s s'. skel s' = skel s \<longrightarrow> P s \<longrightarrow> P s')"

named_theorems skeletal_intros

lemma skeletalI: "(\<And>s s'. skel s' = skel s \<Longrightarrow> P s \<Longrightarrow> P s') \<Longrightarrow> skeletal P"
  by (simp add: skeletal_def)

lemma skeletalD: "skeletal P \<Longrightarrow> skel s' = skel s \<Longrightarrow> P s \<Longrightarrow> P s'"
  by (simp add: skeletal_def)

lemma skeletal_conj [skeletal_intros]: "skeletal P \<Longrightarrow> skeletal Q \<Longrightarrow> skeletal (\<lambda>s. P s \<and> Q s)"
  "skeletal (\<lambda>_. b)"
  by (auto simp: skeletal_def)

lemma held_skel:
  assumes "skel s' = skel s"
  shows "held_tasks s' = held_tasks s" "held_shims s' = held_shims s"
  using assms by (simp_all add: held_tasks_def held_shims_def task_shims_def skelD [OF assms] cong: map_cong)

lemma tree_inv_skeletal [skeletal_intros]: "skeletal tree_inv" "skeletal settled"
proof -
  show "skeletal tree_inv"
  proof (rule skeletalI)
    fix s s' :: "('v, 'h, 'w) tstate" assume *: "skel s' = skel s" "tree_inv s"
    then show "tree_inv s'"
      by (simp add: tree_inv_def table_ok_def kids_ok_def ids_ok_def files_ok_def held_skel [OF *(1)] skelD [OF *(1)])
  qed
  show "skeletal settled"
  proof (rule skeletalI)
    fix s s' :: "('v, 'h, 'w) tstate" assume *: "skel s' = skel s" "settled s"
    then show "settled s'" by (simp add: settled_def held_skel [OF *(1)] skelD [OF *(1)])
  qed
qed

lemma live_skeletal [skeletal_intros]: "skeletal (\<lambda>s. t \<in> set (ts_live s))"
  by (rule skeletalI) (metis skelD(1))

section \<open>Reclaiming\<close>

lemma sweep_sel [simp]:
  "ts_task (sweep s) = ts_task s" "ts_next (sweep s) = ts_next s" "ts_global (sweep s) = ts_global s"
  "ts_init (sweep s) = ts_init s" "ts_tids (sweep s) = ts_tids s" "ts_shims (sweep s) = ts_shims s"
  "ts_stdio (sweep s) = ts_stdio s" "ts_obj (sweep s) = ts_obj s" "inner_of t (sweep s) = inner_of t s"
  "ts_live (sweep s) = filter (\<lambda>t. t \<in> set (held_tasks s)) (ts_live s)" "ts_world (sweep s) = ts_world s"
  "ts_futex (sweep s) = ts_futex s"
  by (simp_all add: sweep_def inner_of_def)

text \<open>What the tasks of a list hold: a child of a live task, the global table and \<open>INIT_PROCESS\<close>.\<close>

lemma in_held_tasks:
  assumes "tree_inv s"
  shows "t \<in> set (held_tasks s) \<longleftrightarrow> (\<exists>k. bt_get (ts_global s) k = Some t) \<or> ts_init s = Some t
     \<or> (\<exists>p \<in> set (ts_live s). \<exists>k. bt_get (ti_children (inner_of p s)) k = Some t)"
proof -
  have "bt_wf (ts_global s)" "p \<in> set (ts_live s) \<Longrightarrow> bt_wf (ti_children (inner_of p s))" for p
    using assms by (simp_all add: tree_inv_def table_ok_def kids_ok_def)
  then show ?thesis by (auto simp: held_tasks_def in_bt_values split: option.split)
qed

lemma in_held_shims: "f \<in> set (held_shims s) \<longleftrightarrow> f = fst (ts_stdio s) \<or> f = snd (ts_stdio s)
    \<or> (\<exists>t \<in> set (ts_live s). f \<in> set (task_shims s t))"
  by (auto simp: held_shims_def)

lemma sweep_inv: "tree_inv s \<Longrightarrow> tree_inv (sweep s)"
proof -
  assume inv: "tree_inv s"
  have held: "set (held_shims (sweep s)) \<subseteq> set (held_shims s)"
    by (auto simp: in_held_shims task_shims_def)
  have kid: "c \<in> set (held_tasks s)" if "t \<in> set (ts_live s)" "bt_get (ti_children (inner_of t s)) k = Some c" for t k c
    using that inv by (auto simp: in_held_tasks)
  show ?thesis
    unfolding tree_inv_def
  proof (intro conjI)
    show "table_ok (sweep s)" using inv by (auto simp: tree_inv_def table_ok_def in_held_tasks)
    show "kids_ok (sweep s)" using inv kid by (auto simp: tree_inv_def kids_ok_def)
    show "ids_ok (sweep s)" using inv by (auto simp: tree_inv_def ids_ok_def inj_on_def)
    show "files_ok (sweep s)" using inv held by (auto simp: tree_inv_def files_ok_def)
  qed
qed

lemma funpow_fixpoint:
  fixes f :: "'a \<Rightarrow> 'a" and m :: "'a \<Rightarrow> nat"
  assumes "\<And>x. f x \<noteq> x \<Longrightarrow> m (f x) < m x" and "m x \<le> n"
  shows "f ((f ^^ n) x) = (f ^^ n) x"
  using assms(2)
proof (induction n arbitrary: x)
  case 0
  then show ?case using assms(1) [of x] by (cases "f x = x") auto
next
  case (Suc n)
  show ?case
  proof (cases "f x = x")
    case True
    then have "(f ^^ k) x = x" for k by (induction k) auto
    then show ?thesis using True by simp
  next
    case False
    then have "m (f x) \<le> n" using assms(1) [of x] Suc.prems by simp
    then show ?thesis using Suc.IH [of "f x"] by (simp add: funpow_swap1)
  qed
qed

lemma drop_tasks_fix: "sweep (drop_tasks s) = drop_tasks s"
  unfolding drop_tasks_def
proof (rule funpow_fixpoint [where m = "\<lambda>s. length (ts_live s)"])
  fix x :: "('a, 'b, 'c) tstate" assume "sweep x \<noteq> x"
  then have "filter (\<lambda>t. t \<in> set (held_tasks x)) (ts_live x) \<noteq> ts_live x" by (auto simp: sweep_def)
  then have "\<exists>t \<in> set (ts_live x). t \<notin> set (held_tasks x)" by (auto simp: filter_id_conv)
  then show "length (ts_live (sweep x)) < length (ts_live x)" by (auto intro: length_filter_less)
qed simp

lemma drop_tasks_keeps:
  "tree_inv s \<Longrightarrow> tree_inv (drop_tasks s)" "ts_task (drop_tasks s) = ts_task s" "ts_next (drop_tasks s) = ts_next s"
  "ts_global (drop_tasks s) = ts_global s" "ts_init (drop_tasks s) = ts_init s" "ts_tids (drop_tasks s) = ts_tids s"
  "ts_shims (drop_tasks s) = ts_shims s" "ts_stdio (drop_tasks s) = ts_stdio s" "ts_obj (drop_tasks s) = ts_obj s"
  "ts_world (drop_tasks s) = ts_world s" "inner_of t (drop_tasks s) = inner_of t s"
  "ts_futex (drop_tasks s) = ts_futex s" "set (ts_live (drop_tasks s)) \<subseteq> set (ts_live s)"
proof -
  have "tree_inv s \<Longrightarrow> tree_inv ((sweep ^^ n) s)" for n by (induction n) (simp_all add: sweep_inv)
  moreover have "ts_task ((sweep ^^ n) s) = ts_task s" "ts_next ((sweep ^^ n) s) = ts_next s"
    "ts_global ((sweep ^^ n) s) = ts_global s" "ts_init ((sweep ^^ n) s) = ts_init s"
    "ts_tids ((sweep ^^ n) s) = ts_tids s" "ts_shims ((sweep ^^ n) s) = ts_shims s"
    "ts_stdio ((sweep ^^ n) s) = ts_stdio s" "ts_obj ((sweep ^^ n) s) = ts_obj s"
    "ts_world ((sweep ^^ n) s) = ts_world s" "inner_of t ((sweep ^^ n) s) = inner_of t s"
    "ts_futex ((sweep ^^ n) s) = ts_futex s" "set (ts_live ((sweep ^^ n) s)) \<subseteq> set (ts_live s)" for n
    by (induction n) auto
  ultimately show "tree_inv s \<Longrightarrow> tree_inv (drop_tasks s)" "ts_task (drop_tasks s) = ts_task s"
    "ts_next (drop_tasks s) = ts_next s" "ts_global (drop_tasks s) = ts_global s"
    "ts_init (drop_tasks s) = ts_init s" "ts_tids (drop_tasks s) = ts_tids s"
    "ts_shims (drop_tasks s) = ts_shims s" "ts_stdio (drop_tasks s) = ts_stdio s"
    "ts_obj (drop_tasks s) = ts_obj s" "ts_world (drop_tasks s) = ts_world s"
    "inner_of t (drop_tasks s) = inner_of t s" "ts_futex (drop_tasks s) = ts_futex s"
    "set (ts_live (drop_tasks s)) \<subseteq> set (ts_live s)"
    unfolding drop_tasks_def by simp_all
qed

lemma drop_tasks_live: "set (ts_live (drop_tasks s)) \<subseteq> set (held_tasks (drop_tasks s))"
proof -
  have "filter (\<lambda>t. t \<in> set (held_tasks (drop_tasks s))) (ts_live (drop_tasks s)) = ts_live (drop_tasks s)"
    using arg_cong [OF drop_tasks_fix [of s], of ts_live] by simp
  then show ?thesis by (auto simp: filter_id_conv)
qed

lemma reclaim_sel [simp]:
  "ts_task (reclaim E s) = ts_task s" "ts_next (reclaim E s) = ts_next s" "ts_global (reclaim E s) = ts_global s"
  "ts_init (reclaim E s) = ts_init s" "ts_stdio (reclaim E s) = ts_stdio s" "ts_obj (reclaim E s) = ts_obj s"
  "inner_of t (reclaim E s) = inner_of t s" "ts_live (reclaim E s) = ts_live (drop_tasks s)"
  "ts_futex (reclaim E s) = ts_futex s"
  by (simp_all add: reclaim_def drop_shims_def drop_tids_def Let_def drop_tasks_keeps inner_of_def)

lemma reclaim_held [simp]:
  "held_tasks (reclaim E s) = held_tasks (drop_tasks s)" "held_shims (reclaim E s) = held_shims (drop_tasks s)"
  by (simp_all add: held_tasks_def held_shims_def drop_tasks_keeps task_shims_def cong: map_cong)

lemma reclaim_tids: "ts_tids (reclaim E s) = filter (\<lambda>i. \<exists>t \<in> set (ts_live (drop_tasks s)).
    tk_tid (ts_task s t) = i \<or> tk_pid (ts_task s t) = i) (ts_tids s)"
  by (simp add: reclaim_def drop_shims_def drop_tids_def Let_def drop_tasks_keeps)

lemma reclaim_shims:
  "ts_shims (reclaim E s) = filter (\<lambda>f. f \<in> set (held_shims (drop_tasks s))) (ts_shims s)"
  "ts_world (reclaim E s) =
     fold (close_shim (te_vfs E)) (filter (\<lambda>f. f \<notin> set (held_shims (drop_tasks s))) (ts_shims s)) (ts_world s)"
proof -
  have "held_shims (drop_tids (drop_tasks s)) = held_shims (drop_tasks s)"
    by (simp add: held_shims_def drop_tids_def task_shims_def inner_of_def cong: map_cong)
  then show "ts_shims (reclaim E s) = filter (\<lambda>f. f \<in> set (held_shims (drop_tasks s))) (ts_shims s)"
    "ts_world (reclaim E s) =
     fold (close_shim (te_vfs E)) (filter (\<lambda>f. f \<notin> set (held_shims (drop_tasks s))) (ts_shims s)) (ts_world s)"
    by (simp_all add: reclaim_def drop_shims_def drop_tids_def Let_def drop_tasks_keeps)
qed

lemma reclaim_inv:
  assumes "tree_inv s"
  shows "tree_inv (reclaim E s)" "settled (reclaim E s)"
proof -
  have d: "tree_inv (drop_tasks s)" by (rule drop_tasks_keeps(1) [OF assms])
  show "tree_inv (reclaim E s)"
    unfolding tree_inv_def
  proof (intro conjI)
    show "table_ok (reclaim E s)" using d by (simp add: tree_inv_def table_ok_def drop_tasks_keeps)
    show "kids_ok (reclaim E s)" using d by (simp add: tree_inv_def kids_ok_def drop_tasks_keeps)
    show "ids_ok (reclaim E s)" using d by (auto simp: tree_inv_def ids_ok_def drop_tasks_keeps reclaim_tids)
    have "distinct (map shim_ref (filter P (ts_shims s)))" for P
      using assms by (simp add: tree_inv_def files_ok_def distinct_map_filter)
    then show "files_ok (reclaim E s)"
      using d by (auto simp: tree_inv_def files_ok_def drop_tasks_keeps reclaim_shims)
  qed
  show "settled (reclaim E s)"
    using drop_tasks_live [of s] by (auto simp: settled_def reclaim_tids reclaim_shims)
qed

text \<open>In a settled state nothing is reclaimed.\<close>

lemma settled_sweep: "settled s \<Longrightarrow> drop_tasks s = s"
proof -
  assume "settled s"
  then have "sweep s = s" by (simp add: sweep_def settled_def filter_id_conv subset_iff)
  then have "(sweep ^^ n) s = s" for n by (induction n) auto
  then show ?thesis by (simp add: drop_tasks_def)
qed

lemma settled_reclaim: "settled s \<Longrightarrow> reclaim E s = s"
proof -
  assume s: "settled s"
  then have "filter (\<lambda>f. f \<in> set (held_shims s)) (ts_shims s) = ts_shims s"
    "filter (\<lambda>f. f \<notin> set (held_shims s)) (ts_shims s) = []"
    "filter (\<lambda>i. \<exists>t \<in> set (ts_live s). tk_tid (ts_task s t) = i \<or> tk_pid (ts_task s t) = i) (ts_tids s) = ts_tids s"
    by (auto simp: settled_def filter_id_conv filter_empty_conv)
  then show ?thesis using settled_sweep [OF s] by (simp add: reclaim_def drop_tids_def drop_shims_def)
qed

end
