(* ===== verification/MmapFiles.thy ===== *)
theory MmapFiles
  imports Mmap
begin

text \<open>
  The files that a table of mappings holds, and that no memory call adds one beyond those of the
  caller's descriptor table: what the task domain needs to know of \<open>Mmap\<close> to account for its files.
\<close>

definition mm_files :: "mmap_info \<Rightarrow> shim_file set" where
  "mm_files m = {f. \<exists>r \<in> set (regions m). mr_fd r = Some f}"

lemma mm_files_simps [simp]:
  "mm_files (add_region r m) = mm_files m \<union> set_option (mr_fd r)"
  "mm_files (m\<lparr>map_start := x\<rparr>) = mm_files m" "mm_files (mmap_new c) = {}"
  by (auto simp: mm_files_def add_region_def mmap_new_def elem_set)

lemma mm_files_alloc: "mmap_alloc c n m = (v, m') \<Longrightarrow> mm_files m' = mm_files m"
  by (auto simp: mmap_alloc_def Let_def)

lemma mm_files_remove: "remove_region a m = Inr m' \<Longrightarrow> mm_files m' \<subseteq> mm_files m"
  using set_remove_nth_subset by (fastforce simp: remove_region_def mm_files_def split: option.splits)

lemma mm_files_mut: "get_region_mut a (set_prot p) m = Some m' \<Longrightarrow> mm_files m' \<subseteq> mm_files m"
proof -
  assume "get_region_mut a (set_prot p) m = Some m'"
  then obtain i where i: "i < length (regions m)" "regions m' = (regions m)[i := set_prot p (regions m ! i)]"
    by (auto simp: get_region_mut_def dest: position_less)
  have "\<exists>q \<in> set (regions m). mr_fd q = mr_fd r" if "r \<in> set (regions m')" for r
  proof -
    have "r = set_prot p (regions m ! i) \<or> r \<in> set (regions m)"
      using subsetD [OF set_update_subset_insert] that i(2) by fastforce
    then show ?thesis using nth_mem [OF i(1)] by (auto simp: set_prot_def)
  qed
  then show ?thesis by (auto simp: mm_files_def) metis
qed

lemma mm_files_get: "get_region m a = Some r \<Longrightarrow> set_option (mr_fd r) \<subseteq> mm_files m"
  by (auto simp: get_region_def find_Some_iff mm_files_def elem_set)

lemma mm_files_remap:
  assumes "remap_fixed c r start len prot flags fd offset m = Inr m'" "get_region m a = Some r"
  shows "mm_files m' \<subseteq> mm_files m \<union> set_option fd"
proof -
  have s: "mr_fd (fst (region_split c q x)) = mr_fd q" "mr_fd (snd (region_split c q x)) = mr_fd q" for q x
    by (simp_all add: region_split_def Let_def)
  obtain m1 where m1: "remove_region (mr_start r) m = Inr m1"
    using assms(1) by (auto simp: remap_fixed_def Let_def split: sum.splits prod.splits)
  then show ?thesis
    using assms(1) s mm_files_get [OF assms(2)] mm_files_remove [OF m1]
    by (auto simp: remap_fixed_def Let_def split_beta split: if_splits)
qed

lemma do_mmap_files:
  assumes "mm_files (mm_info s) \<subseteq> G" "\<And>f. get_file fd = Some f \<Longrightarrow> f \<in> G"
  shows "mm_files (mm_info (snd (do_mmap c ops get_file start len prot flags fd offset s))) \<subseteq> G"
proof -
  define m where "m = mm_info s"
  have look: "P (snd (bind (if b then ret None else bind (lift (ok_or (get_file fd) EBADF)) (\<lambda>f. ret (Some f))) k s))"
    if "P s" "\<And>x. set_option x \<subseteq> G \<Longrightarrow> P (snd (k x s))" for P b and k :: "_ \<Rightarrow> ('a mm, usize) act"
    using that assms(2) by (cases "get_file fd") (auto simp: bind_def act_simps)
  have m: "mm_files m \<subseteq> G" using assms(1) by (simp add: m_def)
  have fixed: "mm_files m' \<subseteq> G"
    if "remap_fixed c r a n p f x offset m = Ok m'" "get_region m a = Some r" "set_option x \<subseteq> G" for r p f x m' a n
    using mm_files_remap [OF that(1,2)] that(3) m by blast
  have alloc: "mm_files m' \<subseteq> G" if "mmap_alloc c n m = (v, m')" for n v m'
    using mm_files_alloc [OF that] m by simp
  show ?thesis
    unfolding do_mmap_def Let_def
    apply (split if_split, rule conjI; rule impI)
     apply (simp add: act_simps assms)
    apply (split if_split, rule conjI; rule impI)
     apply (simp add: act_simps assms)
    apply (simp only: info_bind)
    apply (split if_split, rule conjI; rule impI)
     apply (simp add: act_simps assms)
    apply (rule look)
     apply (rule assms(1))
    subgoal for x
      using m fixed alloc
      by (auto simp: m_def [symmetric] act_simps split: option.split sum.split prod.split)
    done
qed

lemma other_calls_files:
  assumes G: "mm_files (mm_info s) \<subseteq> G"
  shows "mm_files (mm_info (snd (do_munmap ops start len s))) \<subseteq> G"
    and "mm_files (mm_info (snd (do_mprotect c ops start len prot s))) \<subseteq> G"
    and "mm_files (mm_info (snd (do_load_page_fault c ops start s))) \<subseteq> G"
    and "mm_files (mm_info (snd (vdso_map_user_pages c ops start len prot descs s))) \<subseteq> G"
    and "mm_files (mm_info (snd (extend_heap c ops start s))) \<subseteq> G"
    and "mm_files (mm_info (snd (vdso_reserve_user_vaddr c len prot flags s))) \<subseteq> G"
    and "mm_files (mm_info (snd (do_mmap_device c ops start b s))) \<subseteq> G"
proof -
  let ?P = "\<lambda>t. mm_files (mm_info t) \<subseteq> G"
  show "?P (snd (do_munmap ops start len s))"
    unfolding do_munmap_def info_bind
    by (rule lift_then [where P = ?P], rule G, split if_split, intro conjI impI,
        simp add: act_simps G, rule space_then [where P = ?P], simp add: G,
        rule lift_then [where P = ?P])
      (use G on_space_info [of "\<lambda>_. panic" "vm_unmap ops start" s] mm_files_remove [of start "mm_info s"]
       in \<open>auto simp: act_simps\<close>)
  show "?P (snd (do_mprotect c ops start len prot s))"
    unfolding do_mprotect_def Let_def info_bind
    by (rule lift_then [where P = ?P], rule G)
      (use mm_files_mut [of start _ "mm_info s"] G in \<open>fastforce simp: bind_info_keep ok_or_Inr\<close>)
  show "?P (snd (do_load_page_fault c ops start s))"
    unfolding do_load_page_fault_def Let_def info_bind
    by (rule lift_then [where P = ?P]) (simp_all add: G)
  show "?P (snd (vdso_map_user_pages c ops start len prot descs s))"
    unfolding vdso_map_user_pages_def Let_def
    apply (split if_split, rule conjI; rule impI)
     apply (simp add: act_simps G)
    apply (split if_split, rule conjI; rule impI)
     apply (simp add: act_simps G)
    apply (simp only: info_bind)
    apply (rule lift_then [where P = ?P], rule G)
    apply (split if_split, rule conjI; rule impI)
     apply (simp add: act_simps G)
    apply (rule lift_then [where P = ?P], rule G)
    apply (simp only: info_bind)
    apply (rule lift_then [where P = ?P])
     apply (use mm_files_mut [of start _ "mm_info s"] G in \<open>fastforce simp: unwrap_Inr\<close>)
    apply (use mm_files_mut [of start _ "mm_info s"] G in \<open>fastforce simp: unwrap_Inr\<close>)
    done
  show "?P (snd (extend_heap c ops start s))"
    using G by (auto simp: extend_heap_def Let_def bind_def act_simps on_space_def split: sum.split prod.split)
  show "?P (snd (vdso_reserve_user_vaddr c len prot flags s))"
    using G by (auto simp: vdso_reserve_user_vaddr_def Let_def act_basics dest: mm_files_alloc split: prod.split)
  show "?P (snd (do_mmap_device c ops start b s))"
    using G by (auto simp: do_mmap_device_def Let_def bind_info_keep dest: mm_files_alloc split: prod.split)
qed

end
