(* ===== verification/TaskInv.thy ===== *)
theory TaskInv
  imports TaskTree MmapFiles
begin

text \<open>
  Every call of the task domain keeps the invariant of \<open>TaskTree\<close>. \<open>triple P m Q\<close> is a
  pre/postcondition of a computation whose error paths end in the invariant; one lemma per step that
  touches the skeleton, then one per call.
\<close>

section \<open>Triples\<close>

definition triple :: "(('v, 'h, 'w) tstate \<Rightarrow> bool) \<Rightarrow> (('v, 'h, 'w) tstate, 'a) act
    \<Rightarrow> ('a \<Rightarrow> ('v, 'h, 'w) tstate \<Rightarrow> bool) \<Rightarrow> bool" where
  "triple P m Q \<longleftrightarrow> (\<forall>s. P s \<longrightarrow> (case m s of (Inr x, s') \<Rightarrow> Q x s' | (Inl _, s') \<Rightarrow> tree_inv s'))"

named_theorems triple_intros

lemma tripleI:
  "(\<And>s x s'. P s \<Longrightarrow> m s = (Inr x, s') \<Longrightarrow> Q x s') \<Longrightarrow>
   (\<And>s e s'. P s \<Longrightarrow> m s = (Inl e, s') \<Longrightarrow> tree_inv s') \<Longrightarrow> triple P m Q"
  by (auto simp: triple_def split: prod.split sum.split)

lemma tripleD:
  "triple P m Q \<Longrightarrow> P s \<Longrightarrow> m s = (Inr x, s') \<Longrightarrow> Q x s'"
  "triple P m Q \<Longrightarrow> P s \<Longrightarrow> m s = (Inl e, s') \<Longrightarrow> tree_inv s'"
  by (auto simp: triple_def dest!: spec [of _ s])

lemma triple_bind: "triple P m Q \<Longrightarrow> (\<And>x. triple (Q x) (f x) R) \<Longrightarrow> triple P (bind m f) R"
proof (rule tripleI)
  fix s x s' assume *: "triple P m Q" "\<And>x. triple (Q x) (f x) R" "P s" "bind m f s = (Inr x, s')"
  then obtain y t where "m s = (Inr y, t)" "f y t = (Inr x, s')" by (auto simp: bind_Ok_iff)
  with * show "R x s'" by (blast dest: tripleD)
next
  fix s e s' assume *: "triple P m Q" "\<And>x. triple (Q x) (f x) R" "P s" "bind m f s = (Inl e, s')"
  show "tree_inv s'"
  proof (cases "m s")
    case (Pair r t)
    show ?thesis
    proof (cases r)
      case (Inl e')
      with Pair have "m s = (Inl e', t)" "s' = t" using *(4) by (simp_all add: act_simps)
      then show ?thesis using tripleD(2) [OF *(1,3)] by blast
    next
      case (Inr y)
      then have m: "m s = (Inr y, t)" "f y t = (Inl e, s')" using *(4) Pair by (simp_all add: act_simps)
      then show ?thesis using tripleD(2) [OF *(2) tripleD(1) [OF *(1,3)]] by blast
    qed
  qed
qed

lemma triple_weaken:
  "triple P m Q \<Longrightarrow> (\<And>x s. Q x s \<Longrightarrow> Q' x s) \<Longrightarrow> triple P m Q'"
  "triple P m Q \<Longrightarrow> (\<And>s. P' s \<Longrightarrow> P s) \<Longrightarrow> triple P' m Q"
  by (rule tripleI; blast dest: tripleD)+

lemma triple_stable:
  assumes "stable m" "skeletal P" "\<And>s. P s \<Longrightarrow> tree_inv s"
  shows "triple P m (\<lambda>_. P)"
proof (rule tripleI)
  fix s e s' assume *: "P s" "m s = (Inl e, s')"
  then have "P s'" using skeletalD [OF assms(2) stableD [OF assms(1) *(2)]] by blast
  then show "tree_inv s'" by (rule assms(3))
qed (blast intro: skeletalD [OF assms(2) stableD [OF assms(1)]])

lemma triple_basics:
  "(\<And>s. P s \<Longrightarrow> Q x s) \<Longrightarrow> triple P (ret x) Q"
  "(\<And>s. P s \<Longrightarrow> tree_inv s) \<Longrightarrow> triple P (fail e) Q"
  "(\<And>s. P s \<Longrightarrow> tree_inv s) \<Longrightarrow> triple P abort Q"
  "(\<And>s. P s \<Longrightarrow> tree_inv s) \<Longrightarrow> (\<And>x s. r = Inr x \<Longrightarrow> P s \<Longrightarrow> Q x s) \<Longrightarrow> triple P (lift r) Q"
  "(\<And>s. P s \<Longrightarrow> S s s) \<Longrightarrow> triple P get_state S"
  "(\<And>s. P s \<Longrightarrow> tree_inv s) \<Longrightarrow> (\<And>s. b \<Longrightarrow> P s \<Longrightarrow> U () s) \<Longrightarrow> triple P (assert_that b) U"
  "(\<And>s. P s \<Longrightarrow> U () (f s)) \<Longrightarrow> triple P (modify_state f) U"
  by (auto simp: triple_def act_simps split: sum.split)

lemma triple_cases:
  "(b \<Longrightarrow> triple P m Q) \<Longrightarrow> (\<not> b \<Longrightarrow> triple P n Q) \<Longrightarrow> triple P (if b then m else n) Q"
  "(x = None \<Longrightarrow> triple P m Q) \<Longrightarrow> (\<And>y. x = Some y \<Longrightarrow> triple P (f y) Q) \<Longrightarrow>
     triple P (case x of None \<Rightarrow> m | Some y \<Rightarrow> f y) Q"
  "(\<And>e. z = Inl e \<Longrightarrow> triple P (g e) Q) \<Longrightarrow> (\<And>y. z = Inr y \<Longrightarrow> triple P (h y) Q) \<Longrightarrow>
     triple P (case z of Inl e \<Rightarrow> g e | Inr y \<Rightarrow> h y) Q"
  "(\<And>a b. p = (a, b) \<Longrightarrow> triple P (k a b) Q) \<Longrightarrow> triple P (case p of (a, b) \<Rightarrow> k a b) Q"
  by (auto split: option.splits sum.splits prod.splits)

lemma triple_pure: "(b \<Longrightarrow> triple P m Q) \<Longrightarrow> triple (\<lambda>s. P s \<and> b) m Q"
  by (rule tripleI; blast dest: tripleD)

lemma triple_must: "triple P m Q \<Longrightarrow> triple P (must m) Q"
  by (rule tripleI) (auto simp: must_def split: prod.splits sum.splits dest: tripleD)

text \<open>The caller is a live task.\<close>

definition alive :: "nat \<Rightarrow> ('v, 'h, 'w) tstate \<Rightarrow> bool" where
  "alive t s \<longleftrightarrow> tree_inv s \<and> t \<in> set (ts_live s)"

lemma alive_skeletal [skeletal_intros]: "skeletal (alive t)"
  unfolding alive_def [abs_def] by (intro skeletal_intros)

lemma aliveD [dest]: "alive t s \<Longrightarrow> tree_inv s" "alive t s \<Longrightarrow> t \<in> set (ts_live s)"
  by (simp_all add: alive_def)

lemma current_alive:
  assumes "tree_inv s" "current_task E s = (Inr (Some t), s')"
  shows "alive t s'" "bt_get (ts_global s') (tk_tid (ts_task s' t)) = Some t"
proof -
  have sk: "skel s' = skel s" using stable_current(1) stableD assms(2) by blast
  then have inv: "tree_inv s'" using assms(1) skeletalD tree_inv_skeletal(1) by blast
  obtain tid where "bt_get (ts_global s') tid = Some t"
    using assms(2)
    by (auto simp: current_task_def act_simps find_task_def split: prod.splits sum.splits fault.splits option.splits)
  with inv show "alive t s'" "bt_get (ts_global s') (tk_tid (ts_task s' t)) = Some t"
    by (auto simp: tree_inv_def table_ok_def alive_def)
qed

lemma triple_current:
  assumes "\<And>t. triple (alive t) (f t) Q"
  shows "triple tree_inv (with_current E f) Q"
    "triple tree_inv (bind (current_task E) (\<lambda>t. bind (lift (ok_or t e)) f)) Q"
proof -
  have c: "triple tree_inv (current_task E) (\<lambda>t s. case t of None \<Rightarrow> tree_inv s | Some t \<Rightarrow> alive t s)"
  proof (rule tripleI)
    fix s x s' assume *: "tree_inv (s :: ('a, 'b, 'c) tstate)" "current_task E s = (Inr x, s')"
    then show "case x of None \<Rightarrow> tree_inv s' | Some t \<Rightarrow> alive t s'"
      using current_alive(1) [OF *(1)] tripleD(1) [OF triple_stable [OF stable_current(1) tree_inv_skeletal(1)]]
      by (cases x) auto
  next
    fix s e s' assume "tree_inv (s :: ('a, 'b, 'c) tstate)" "current_task E s = (Inl e, s')"
    then show "tree_inv s'"
      using tripleD(2) [OF triple_stable [OF stable_current(1) tree_inv_skeletal(1)]] by blast
  qed
  have u: "triple (\<lambda>s. case x of None \<Rightarrow> tree_inv s | Some t \<Rightarrow> alive t s) (bind (lift r) f) Q"
    if "\<And>t. r = Inr t \<Longrightarrow> x = Some t" for x r
  proof (rule triple_bind [where Q = "\<lambda>t. alive t", OF _ assms])
    show "triple (\<lambda>s. case x of None \<Rightarrow> tree_inv s | Some t \<Rightarrow> alive t s) (lift r) alive"
      by (rule triple_basics(4)) (auto split: option.splits dest: that)
  qed
  show "triple tree_inv (with_current E f) Q"
    unfolding with_current_def by (rule triple_bind [OF c]) (rule u, simp add: unwrap_def split: option.splits)
  show "triple tree_inv (bind (current_task E) (\<lambda>t. bind (lift (ok_or t e)) f)) Q"
    by (rule triple_bind [OF c]) (rule u, simp add: ok_or_def split: option.splits)
qed

section \<open>Files\<close>

lemma set_slot_iter: "set (slot_iter v) = ran (slot_map v)"
  by (auto simp: slot_iter_items set_idxes_and_items ran_def image_iff)

lemma tree_files:
  assumes "alive t s"
  shows "set (task_shims s t) \<subseteq> set (ts_shims s)" "slot_inv (ob_fds (ts_obj s) (tk_fds (ts_task s t)))"
    "ran (slot_map (ob_fds (ts_obj s) (tk_fds (ts_task s t)))) \<subseteq> set (ts_shims s)"
proof -
  have "files_ok s" "t \<in> set (ts_live s)" using assms by (simp_all add: alive_def tree_inv_def)
  then show a: "set (task_shims s t) \<subseteq> set (ts_shims s)" "slot_inv (ob_fds (ts_obj s) (tk_fds (ts_task s t)))"
    by (auto simp: files_ok_def held_shims_def)
  then show "ran (slot_map (ob_fds (ts_obj s) (tk_fds (ts_task s t)))) \<subseteq> set (ts_shims s)"
    by (simp add: task_shims_def set_slot_iter)
qed

text \<open>A descriptor table or a table of mappings is replaced by one that holds existing files.\<close>

lemma held_shims_grow:
  assumes "ts_live s' = ts_live s" "ts_stdio s' = ts_stdio s" "\<And>t. set (task_shims s' t) \<subseteq> set (task_shims s t) \<union> F"
  shows "set (held_shims s') \<subseteq> set (held_shims s) \<union> F"
  using assms(3) by (fastforce simp: held_shims_def assms(1,2))

lemma replace_fds:
  assumes "tree_inv s" "slot_inv v" "ran (slot_map v) \<subseteq> set (ts_shims s)"
  shows "tree_inv (s\<lparr>ts_obj := (ts_obj s)\<lparr>ob_fds := (ob_fds (ts_obj s))(n := v)\<rparr>\<rparr>)" (is "tree_inv ?s")
proof -
  have i [simp]: "inner_of t ?s = inner_of t s" for t by (simp add: inner_of_def)
  have "set (held_shims ?s) \<subseteq> set (held_shims s) \<union> ran (slot_map v)"
    by (rule held_shims_grow) (auto simp: task_shims_def set_slot_iter split: if_splits)
  then have "files_ok ?s" using assms by (auto simp: tree_inv_def files_ok_def)
  moreover have "table_ok ?s" "kids_ok ?s" "ids_ok ?s"
    using assms(1) by (simp_all add: tree_inv_def table_ok_def kids_ok_def ids_ok_def)
  ultimately show ?thesis by (simp add: tree_inv_def)
qed

lemma set_region_files: "set (List.map_filter mr_fd (regions m)) = mm_files m"
  by (auto simp: mm_files_def List.map_filter_def image_iff) (metis option.sel)

lemma replace_mmap:
  assumes "tree_inv s" "mm_files v \<subseteq> set (ts_shims s)"
  shows "tree_inv (s\<lparr>ts_obj := (ts_obj s)\<lparr>ob_mmap := (ob_mmap (ts_obj s))(n := v)\<rparr>\<rparr>)" (is "tree_inv ?s")
proof -
  have i [simp]: "inner_of t ?s = inner_of t s" for t by (simp add: inner_of_def)
  have "set (held_shims ?s) \<subseteq> set (held_shims s) \<union> mm_files v"
    by (rule held_shims_grow) (auto simp: task_shims_def set_region_files split: if_splits)
  then have "files_ok ?s" using assms by (auto simp: tree_inv_def files_ok_def)
  moreover have "table_ok ?s" "kids_ok ?s" "ids_ok ?s"
    using assms(1) by (simp_all add: tree_inv_def table_ok_def kids_ok_def ids_ok_def)
  ultimately show ?thesis by (simp add: tree_inv_def)
qed

text \<open>The caller, with a file that exists.\<close>

definition alive_with :: "shim_file \<Rightarrow> nat \<Rightarrow> ('v, 'h, 'w) tstate \<Rightarrow> bool" where
  "alive_with f t s \<longleftrightarrow> alive t s \<and> f \<in> set (ts_shims s)"

lemma alive_with_skeletal [skeletal_intros]: "skeletal (alive_with f t)"
proof -
  have "skeletal (\<lambda>s. f \<in> set (ts_shims s))" by (rule skeletalI) (metis skelD(6))
  then show ?thesis unfolding alive_with_def [abs_def] by (intro skeletal_intros)
qed

lemma new_shim_triple: "triple (alive t) (new_shim inode) (\<lambda>f. alive_with f t)"
proof (rule tripleI)
  fix s x s' assume *: "alive t s" "new_shim inode s = (Inr x, s')"
  then have s': "s' = s\<lparr>ts_next := Suc (ts_next s), ts_shims := ts_shims s @ [x]\<rparr>" "shim_ref x = ts_next s"
    by (auto simp: new_shim_def Let_def)
  have "held_shims s' = held_shims s" unfolding s' by (simp add: held_shims_def task_shims_def inner_of_def cong: map_cong)
  moreover have "ts_next s \<notin> shim_ref ` set (ts_shims s)"
    using * by (auto simp: alive_def tree_inv_def files_ok_def)
  ultimately have "files_ok s'" using * s' by (auto simp: alive_def tree_inv_def files_ok_def less_Suc_eq)
  moreover have "table_ok s'" "kids_ok s'" "ids_ok s'"
    using * unfolding s' by (auto simp: alive_def tree_inv_def table_ok_def kids_ok_def ids_ok_def inner_of_def less_Suc_eq)
  ultimately show "alive_with x t s'" using * s' by (simp add: alive_with_def alive_def tree_inv_def)
qed (simp add: new_shim_def Let_def)

lemma get_file_triple: "triple (alive t) (task_get_file t fd) (\<lambda>f s. alive t s \<and> (\<forall>g. f = Some g \<longrightarrow> g \<in> set (ts_shims s)))"
proof (rule tripleI)
  fix s x s' assume *: "alive t s" "task_get_file t fd s = (Inr x, s')"
  then have "s' = s" "x = slot_map (ob_fds (ts_obj s) (tk_fds (ts_task s t))) fd"
    by (auto simp: task_get_file_def act_simps fd_get_def slot_get_map)
  with tree_files(3) [OF *(1)] * show "alive t s' \<and> (\<forall>g. x = Some g \<longrightarrow> g \<in> set (ts_shims s'))"
    by (auto simp: ran_def)
qed (simp add: task_get_file_def act_simps)

lemma fds_update:
  assumes "alive t s" "slot_inv v" "ran (slot_map v) \<subseteq> set (ts_shims s)"
  shows "alive t (s\<lparr>ts_obj := (ts_obj s)\<lparr>ob_fds := (ob_fds (ts_obj s))(n := v)\<rparr>\<rparr>)"
  using assms replace_fds [of s v n] by (simp add: alive_def)

lemma fds_triple:
  assumes m: "\<And>s. P s \<Longrightarrow> alive t s \<and> slot_inv (snd (m (ob_fds (ts_obj s) (tk_fds (ts_task s t)))))
      \<and> ran (slot_map (snd (m (ob_fds (ts_obj s) (tk_fds (ts_task s t)))))) \<subseteq> set (ts_shims s)"
  shows "triple P (bind get_state (\<lambda>s. in_fds (tk_fds (ts_task s t)) m)) (\<lambda>_. alive t)"
proof -
  have run: "snd (bind get_state (\<lambda>s. in_fds (tk_fds (ts_task s t)) m) s)
      = s\<lparr>ts_obj := (ts_obj s)\<lparr>ob_fds := (ob_fds (ts_obj s))
          (tk_fds (ts_task s t) := snd (m (ob_fds (ts_obj s) (tk_fds (ts_task s t)))))\<rparr>\<rparr>" for s
    by (simp add: act_simps in_fds_def split: prod.split)
  have "alive t (snd (bind get_state (\<lambda>s. in_fds (tk_fds (ts_task s t)) m) s))" if "P s" for s
    unfolding run by (rule fds_update) (use m [OF that] in auto)
  then show ?thesis by (intro tripleI) (metis snd_conv, metis snd_conv aliveD(1))
qed

lemma fd_ops_triple:
  "triple (alive_with f t) (task_add_file t f) (\<lambda>_. alive t)"
  "triple (alive_with f t) (task_add_file_to_fd t f fd) (\<lambda>_. alive t)"
  "triple (alive t) (task_remove_file t fd) (\<lambda>_. alive t)"
proof -
  show "triple (alive_with f t) (task_add_file t f) (\<lambda>_. alive t)"
    unfolding task_add_file_def
  proof (rule fds_triple)
    fix s assume *: "alive_with f t s"
    then have a: "alive t s" "f \<in> set (ts_shims s)" by (simp_all add: alive_with_def)
    obtain i u where "fd_insert f (ob_fds (ts_obj s) (tk_fds (ts_task s t))) = (Ok i, u)"
      "slot_map u = (slot_map (ob_fds (ts_obj s) (tk_fds (ts_task s t))))(i := Some f)" "slot_inv u"
      using fdt.insertE [OF tree_files(2) [OF a(1)], of f] by metis
    with a tree_files(3) [OF a(1)] show "alive t s \<and> slot_inv (snd (fd_insert f (ob_fds (ts_obj s) (tk_fds (ts_task s t)))))
        \<and> ran (slot_map (snd (fd_insert f (ob_fds (ts_obj s) (tk_fds (ts_task s t)))))) \<subseteq> set (ts_shims s)"
      by (auto simp: ran_def split: if_splits)
  qed
  show "triple (alive_with f t) (task_add_file_to_fd t f fd) (\<lambda>_. alive t)"
    unfolding task_add_file_to_fd_def
  proof (rule fds_triple)
    fix s assume *: "alive_with f t s"
    then have a: "alive t s" "f \<in> set (ts_shims s)" by (simp_all add: alive_with_def)
    obtain r u where "fd_insert_to fd f (ob_fds (ts_obj s) (tk_fds (ts_task s t))) = (r, u)"
      "slot_map u = (slot_map (ob_fds (ts_obj s) (tk_fds (ts_task s t))))(fd := Some f)" "slot_inv u"
      using fdt.insert_toE [OF tree_files(2) [OF a(1)], of fd f] by metis
    with a tree_files(3) [OF a(1)] show "alive t s \<and> slot_inv (snd (fd_insert_to fd f (ob_fds (ts_obj s) (tk_fds (ts_task s t)))))
        \<and> ran (slot_map (snd (fd_insert_to fd f (ob_fds (ts_obj s) (tk_fds (ts_task s t)))))) \<subseteq> set (ts_shims s)"
      by (auto simp: ran_def split: if_splits)
  qed
  show "triple (alive t) (task_remove_file t fd) (\<lambda>_. alive t)"
    unfolding task_remove_file_def
  proof (rule fds_triple)
    fix s assume a: "alive t s"
    obtain r u where "fd_remove fd (ob_fds (ts_obj s) (tk_fds (ts_task s t))) = (r, u)"
      "slot_map u = (slot_map (ob_fds (ts_obj s) (tk_fds (ts_task s t))))(fd := None)" "slot_inv u"
      using fdt.removeE [OF tree_files(2) [OF a], of fd] by metis
    with a tree_files(3) [OF a] show "alive t s \<and> slot_inv (snd (fd_remove fd (ob_fds (ts_obj s) (tk_fds (ts_task s t)))))
        \<and> ran (slot_map (snd (fd_remove fd (ob_fds (ts_obj s) (tk_fds (ts_task s t)))))) \<subseteq> set (ts_shims s)"
      by (auto simp: ran_def split: if_splits)
  qed
qed

section \<open>Memory\<close>

lemma in_mm_triple:
  assumes "\<And>s mm. P s \<Longrightarrow> mm_files (mm_info mm) \<subseteq> set (ts_shims s) \<Longrightarrow> mm_files (mm_info (snd (m mm))) \<subseteq> set (ts_shims s)"
    and P: "\<And>s. P s \<Longrightarrow> alive t s"
  shows "triple P (in_mm t m) (\<lambda>_. alive t)"
proof -
  have "alive t (snd (in_mm t m s))" if "P s" for s
  proof -
    let ?k = "ts_task s t" and ?ob = "ts_obj s"
    let ?mm = "\<lparr> mm_heap = ob_heap ?ob (tk_heap ?k), mm_info = ob_mmap ?ob (tk_mmap ?k), mm_space = ob_space ?ob (tk_space ?k) \<rparr>"
    let ?s = "s\<lparr>ts_obj := ?ob\<lparr>ob_mmap := (ob_mmap ?ob)(tk_mmap ?k := mm_info (snd (m ?mm)))\<rparr>\<rparr>"
    have "mm_files (ob_mmap ?ob (tk_mmap ?k)) \<subseteq> set (ts_shims s)"
      using tree_files(1) [OF P [OF that]] by (simp add: task_shims_def set_region_files)
    then have "tree_inv ?s" using assms(1) [OF that, of ?mm] P [OF that] by (intro replace_mmap) auto
    then have "alive t ?s" using P [OF that] by (simp add: alive_def)
    moreover have "skel (snd (in_mm t m s)) = skel ?s"
      by (simp add: in_mm_def Let_def skel_def split: prod.split)
    ultimately show ?thesis using skeletalD [OF alive_skeletal] by blast
  qed
  then show ?thesis by (intro tripleI) (metis snd_conv, metis snd_conv aliveD(1))
qed

section \<open>New tasks\<close>

text \<open>An allocated thread id that no task has, and an identity that no task uses.\<close>

definition reserved :: "nat \<Rightarrow> ('v, 'h, 'w) tstate \<Rightarrow> bool" where
  "reserved i s \<longleftrightarrow> i \<in> set (ts_tids s) \<and> (\<forall>t \<in> set (ts_live s). tk_tid (ts_task s t) \<noteq> i)"

definition unused :: "nat \<Rightarrow> ('v, 'h, 'w) tstate \<Rightarrow> bool" where
  "unused n s \<longleftrightarrow> n < ts_next s \<and> (\<forall>t \<in> set (ts_live s). t \<noteq> n \<and> tk_fds (ts_task s t) \<noteq> n \<and> tk_mmap (ts_task s t) \<noteq> n)"

lemma reserved_skeletal [skeletal_intros]: "skeletal (reserved i)"
proof (rule skeletalI)
  fix s s' assume *: "skel s' = skel s" "reserved i s"
  then show "reserved i s'" by (simp add: reserved_def skelD [OF *(1)])
qed

lemma unused_skeletal [skeletal_intros]: "skeletal (unused n)"
proof (rule skeletalI)
  fix s s' assume *: "skel s' = skel s" "unused n s"
  then show "unused n s'" by (simp add: unused_def skelD [OF *(1)])
qed

definition pick_law :: "(nat list \<Rightarrow> nat option) \<Rightarrow> bool" where
  "pick_law pick \<longleftrightarrow> (\<forall>xs i. pick xs = Some i \<longrightarrow> i \<notin> set xs)"

lemma new_tid_triple:
  assumes "pick_law (te_pick E)" "\<And>s s'. P s \<Longrightarrow> s' = s\<lparr>ts_tids := ts_tids s'\<rparr> \<Longrightarrow> tree_inv s' \<Longrightarrow> P s'"
    "\<And>s. P s \<Longrightarrow> tree_inv s"
  shows "triple P (new_tid E) (\<lambda>tid s. P s \<and> (\<forall>i. tid = Some i \<longrightarrow> reserved i s))"
proof (rule tripleI)
  fix s x s' assume *: "P s" "new_tid E s = (Inr x, s')"
  show "P s' \<and> (\<forall>i. x = Some i \<longrightarrow> reserved i s')"
  proof (cases "te_pick E (ts_tids s)")
    case (Some i)
    with * have s': "x = Some i" "s' = s\<lparr>ts_tids := ts_tids s @ [i]\<rparr>" by (auto simp: new_tid_def)
    have i: "i \<notin> set (ts_tids s)" using assms(1) Some by (auto simp: pick_law_def)
    have inv: "tree_inv s" using assms(3) *(1) by blast
    have "held_shims s' = held_shims s"
      unfolding s' by (simp add: held_shims_def task_shims_def inner_of_def cong: map_cong)
    then have "files_ok s'" using inv unfolding tree_inv_def files_ok_def s'(2) by simp
    moreover have "table_ok s'" "kids_ok s'"
      using inv unfolding s' by (simp_all add: tree_inv_def table_ok_def kids_ok_def inner_of_def)
    moreover have "ids_ok s'" using inv i unfolding s' by (auto simp: tree_inv_def ids_ok_def)
    ultimately have "tree_inv s'" by (simp add: tree_inv_def)
    moreover have "reserved i s'" using inv i unfolding s' by (auto simp: reserved_def tree_inv_def ids_ok_def)
    ultimately show ?thesis using assms(2) [OF *(1), of s'] s' by simp
  qed (use * in \<open>simp add: new_tid_def\<close>)
qed (simp add: new_tid_def split: option.splits)

lemma fresh_inv:
  assumes "tree_inv s"
  shows "tree_inv (s\<lparr>ts_next := Suc (ts_next s)\<rparr>)" "unused (ts_next s) (s\<lparr>ts_next := Suc (ts_next s)\<rparr>)"
proof -
  let ?s = "s\<lparr>ts_next := Suc (ts_next s)\<rparr>"
  have i [simp]: "inner_of t ?s = inner_of t s" for t by (simp add: inner_of_def)
  have "held_shims ?s = held_shims s" by (simp add: held_shims_def task_shims_def cong: map_cong)
  then show "tree_inv ?s"
    using assms by (auto simp: tree_inv_def table_ok_def kids_ok_def ids_ok_def files_ok_def less_Suc_eq)
  show "unused (ts_next s) ?s" using assms by (auto simp: unused_def tree_inv_def ids_ok_def)
qed

lemma fresh_triple:
  assumes "\<And>s. P s \<Longrightarrow> tree_inv s" "\<And>s. P s \<Longrightarrow> tree_inv (s\<lparr>ts_next := Suc (ts_next s)\<rparr>) \<Longrightarrow> P (s\<lparr>ts_next := Suc (ts_next s)\<rparr>)"
  shows "triple P fresh (\<lambda>n s. P s \<and> unused n s)"
  by (rule tripleI) (use assms fresh_inv in \<open>auto simp: fresh_def\<close>)

text \<open>A task that is stored: its ids are allocated and its own, it has no children, and its files
  exist.\<close>

definition newborn :: "nat \<Rightarrow> task \<Rightarrow> ('v, 'h, 'w) tstate \<Rightarrow> bool" where
  "newborn n k s \<longleftrightarrow> tree_inv s \<and> n \<notin> set (ts_live s) \<and> n < ts_next s \<and> reserved (tk_tid k) s
     \<and> tk_pid k \<in> set (ts_tids s) \<and> tk_fds k < ts_next s \<and> tk_mmap k < ts_next s \<and> ti_children (tk_inner k) = bt_empty
     \<and> fc_cwd (ti_fs_info (tk_inner k)) \<in> set (ts_shims s) \<and> fc_root (ti_fs_info (tk_inner k)) \<in> set (ts_shims s)
     \<and> slot_inv (ob_fds (ts_obj s) (tk_fds k)) \<and> ran (slot_map (ob_fds (ts_obj s) (tk_fds k))) \<subseteq> set (ts_shims s)
     \<and> mm_files (ob_mmap (ts_obj s) (tk_mmap k)) \<subseteq> set (ts_shims s)"

lemma put_task_inv:
  assumes "newborn n k s"
  shows "alive n (s\<lparr>ts_task := (ts_task s)(n := k), ts_live := ts_live s @ [n]\<rparr>)" (is "alive n ?s")
proof -
  have inv: "tree_inv s" and n: "n \<notin> set (ts_live s)" using assms by (simp_all add: newborn_def)
  have i: "inner_of t ?s = (if t = n then tk_inner k else inner_of t s)" for t by (simp add: inner_of_def)
  have sh: "task_shims ?s t = task_shims s t" if "t \<noteq> n" for t using that by (simp add: task_shims_def i)
  have "set (task_shims ?s n) \<subseteq> set (ts_shims s)"
    using assms by (simp add: newborn_def task_shims_def i set_slot_iter set_region_files)
  moreover have "map (task_shims ?s) (ts_live s) = map (task_shims s) (ts_live s)"
    using n by (intro map_cong) (auto intro!: sh)
  then have "held_shims ?s = held_shims s @ task_shims ?s n" by (simp add: held_shims_def del: map_eq_conv)
  ultimately have "files_ok ?s" using assms n by (auto simp: newborn_def tree_inv_def files_ok_def)
  moreover have "table_ok ?s" using inv n by (auto simp: tree_inv_def table_ok_def)
  moreover have "kids_ok ?s"
    using inv n assms by (auto simp: tree_inv_def kids_ok_def i newborn_def bt_empty_def)
  moreover have "ids_ok ?s"
    using inv assms n by (auto simp: newborn_def reserved_def tree_inv_def ids_ok_def inj_on_def)
  ultimately show ?thesis by (simp add: alive_def tree_inv_def)
qed

end
