(* ===== verification/TaskMake.thy ===== *)
theory TaskMake
  imports TaskInv
begin

text \<open>
  Making and linking tasks keeps the invariant: the process made from an ELF image, the clone of a
  task, and the moves of children between parents.
\<close>

section \<open>Creation\<close>

lemma stable_alive: "stable m \<Longrightarrow> triple (alive t) m (\<lambda>_. alive t)"
  by (rule triple_stable) (auto intro: alive_skeletal)

lemma stable_tree: "stable m \<Longrightarrow> triple tree_inv m (\<lambda>_. tree_inv)"
  by (rule triple_stable) (auto intro: tree_inv_skeletal)

lemma new_shim_inv:
  assumes "tree_inv s" "new_shim inode s = (Inr f, s')"
  shows "tree_inv s'" "s' = s\<lparr>ts_next := Suc (ts_next s), ts_shims := ts_shims s @ [f]\<rparr>"
proof -
  show s': "s' = s\<lparr>ts_next := Suc (ts_next s), ts_shims := ts_shims s @ [f]\<rparr>"
    using assms(2) by (auto simp: new_shim_def Let_def)
  have f: "shim_ref f = ts_next s" using assms(2) by (auto simp: new_shim_def Let_def)
  have "held_shims s' = held_shims s" unfolding s' by (simp add: held_shims_def task_shims_def inner_of_def cong: map_cong)
  moreover have "ts_next s \<notin> shim_ref ` set (ts_shims s)" using assms(1) by (auto simp: tree_inv_def files_ok_def)
  ultimately have "files_ok s'" using assms(1) s' f by (auto simp: tree_inv_def files_ok_def less_Suc_eq)
  moreover have "table_ok s'" "kids_ok s'" "ids_ok s'"
    using assms(1) unfolding s' by (auto simp: tree_inv_def table_ok_def kids_ok_def ids_ok_def inner_of_def less_Suc_eq)
  ultimately show "tree_inv s'" by (simp add: tree_inv_def)
qed

text \<open>The files of the identity \<open>n\<close>, whose task is being built, exist.\<close>

definition born_files :: "nat \<Rightarrow> ('v, 'h, 'w) tstate \<Rightarrow> bool" where
  "born_files n s \<longleftrightarrow> slot_inv (ob_fds (ts_obj s) n) \<and> ran (slot_map (ob_fds (ts_obj s) n)) \<subseteq> set (ts_shims s)
     \<and> mm_files (ob_mmap (ts_obj s) n) \<subseteq> set (ts_shims s)"

lemma born_files_skeletal [skeletal_intros]: "skeletal (born_files n)"
proof (rule skeletalI)
  fix s s' assume *: "skel s' = skel s" "born_files n s"
  then show "born_files n s'" by (simp add: born_files_def skelD [OF *(1)])
qed

text \<open>A process that is being made from scratch.\<close>

definition making :: "nat \<Rightarrow> nat \<Rightarrow> ('v, 'h, 'w) tstate \<Rightarrow> bool" where
  "making tid n s \<longleftrightarrow> tree_inv s \<and> reserved tid s \<and> unused n s \<and> born_files n s"

lemma making_skeletal [skeletal_intros]: "skeletal (making tid n)"
  unfolding making_def [abs_def] by (intro skeletal_intros)

lemma making_inv: "making tid n s \<Longrightarrow> tree_inv s"
  by (simp add: making_def)

lemma stdio_fds:
  assumes "tree_inv s" "fst (new_stdio_fd_table E (ts_stdio s)) = Inr fds"
  shows "slot_inv fds" "ran (slot_map fds) \<subseteq> set (ts_shims s)"
proof -
  let ?i = "fst (ts_stdio s)" and ?o = "snd (ts_stdio s)"
  obtain i1 t1 where 1: "fd_insert ?i (fd_new (MAX_FD (te_consts E))) = (Ok i1, t1)"
    "slot_map t1 = (slot_map (fd_new (MAX_FD (te_consts E))))(i1 := Some ?i)" "slot_inv t1"
    using fdt.insertE [OF fd_new_spec(1)] by metis
  obtain i2 t2 where 2: "fd_insert ?o t1 = (Ok i2, t2)" "slot_map t2 = (slot_map t1)(i2 := Some ?o)" "slot_inv t2"
    using fdt.insertE [OF 1(3)] by metis
  obtain i3 t3 where 3: "fd_insert ?o t2 = (Ok i3, t3)" "slot_map t3 = (slot_map t2)(i3 := Some ?o)" "slot_inv t3"
    using fdt.insertE [OF 2(3)] by metis
  have "fds = t3" using assms(2) 1(1) 2(1) 3(1) by (simp add: new_stdio_fd_table_def act_simps)
  moreover have "?i \<in> set (ts_shims s)" "?o \<in> set (ts_shims s)"
    using assms(1) by (auto simp: tree_inv_def files_ok_def held_shims_def)
  ultimately show "slot_inv fds" "ran (slot_map fds) \<subseteq> set (ts_shims s)"
    using 1 2 3 by (auto simp: ran_def split: if_splits)
qed

text \<open>Objects of an identity that no task uses may be set.\<close>

lemma set_unused:
  assumes "tree_inv s" "unused n s" "slot_inv v" "ran (slot_map v) \<subseteq> set (ts_shims s)" "mm_files m \<subseteq> set (ts_shims s)"
    and "ob_fds ob = (ob_fds (ts_obj s))(n := v)" "ob_mmap ob = (ob_mmap (ts_obj s))(n := m)"
  shows "tree_inv (s\<lparr>ts_obj := ob\<rparr>)"
proof -
  let ?s1 = "s\<lparr>ts_obj := (ts_obj s)\<lparr>ob_fds := (ob_fds (ts_obj s))(n := v)\<rparr>\<rparr>"
  have "tree_inv ?s1" using replace_fds [OF assms(1,3,4)] .
  then have "tree_inv (?s1\<lparr>ts_obj := (ts_obj ?s1)\<lparr>ob_mmap := (ob_mmap (ts_obj ?s1))(n := m)\<rparr>\<rparr>)" (is "tree_inv ?s2")
    by (rule replace_mmap) (use assms(5) in simp)
  moreover have "skel (s\<lparr>ts_obj := ob\<rparr>) = skel ?s2" using assms(6,7) by (simp add: skel_def)
  ultimately show ?thesis using skeletalD [OF tree_inv_skeletal(1)] by blast
qed

lemma making_objects:
  assumes "tree_inv s" "reserved tid s" "unused n s" "slot_inv v" "ran (slot_map v) \<subseteq> set (ts_shims s)"
    and "ob_fds ob = (ob_fds (ts_obj s))(n := v)" "ob_mmap ob = (ob_mmap (ts_obj s))(n := mmap_new c)"
  shows "making tid n (s\<lparr>ts_obj := ob\<rparr>)"
  using set_unused [OF assms(1,3-5) _ assms(6,7)] assms
  by (simp add: making_def reserved_def unused_def born_files_def)

lemma new_objects_triple:
  "triple (\<lambda>s. tree_inv s \<and> reserved tid s \<and> unused n s) (new_objects E n v h ths) (\<lambda>_. making tid n)"
  unfolding new_objects_def on_obj_def
  apply (rule triple_bind [OF triple_basics(5) [where S = "\<lambda>s t. s = t \<and> tree_inv t \<and> reserved tid t \<and> unused n t"]])
   apply simp
  subgoal for s
    apply (rule triple_bind [OF triple_basics(4)
        [where Q = "\<lambda>x t. tree_inv t \<and> reserved tid t \<and> unused n t \<and> slot_inv x \<and> ran (slot_map x) \<subseteq> set (ts_shims t)"]])
      apply blast
     apply (use stdio_fds in blast)
    apply (rule triple_basics(7), elim conjE, rule making_objects)
    apply simp_all
    done
  done

definition making_with :: "fs_context \<Rightarrow> nat \<Rightarrow> nat \<Rightarrow> ('v, 'h, 'w) tstate \<Rightarrow> bool" where
  "making_with c tid n s \<longleftrightarrow> making tid n s \<and> fc_cwd c \<in> set (ts_shims s) \<and> fc_root c \<in> set (ts_shims s)"

lemma making_with_skeletal: "skeletal (making_with c tid n)"
proof (rule skeletalI)
  fix s s' :: "('a, 'b, 'c) tstate" assume *: "skel s' = skel s" "making_with c tid n s"
  then show "making_with c tid n s'"
    using skeletalD [OF making_skeletal *(1)] by (simp add: making_with_def skelD(6) [OF *(1)])
qed

lemma making_with_inv: "making_with c tid n s \<Longrightarrow> tree_inv s"
  by (simp add: making_with_def making_def)

lemma new_fs_context_triple:
  "triple (making tid n) (new_fs_context cwd root)
    (\<lambda>c. making_with c tid n)"
proof -
  have one: "triple (\<lambda>s. making tid n s \<and> F \<subseteq> set (ts_shims s)) (new_shim i)
    (\<lambda>f s. making tid n s \<and> insert f F \<subseteq> set (ts_shims s))" for F i
  proof (rule tripleI)
    fix s f s' assume *: "making tid n s \<and> F \<subseteq> set (ts_shims s)" "new_shim i s = (Inr f, s')"
    then have i: "tree_inv s'" "s' = s\<lparr>ts_next := Suc (ts_next s), ts_shims := ts_shims s @ [f]\<rparr>"
      using new_shim_inv [of s i f s'] by (auto simp: making_def)
    then show "making tid n s' \<and> insert f F \<subseteq> set (ts_shims s')"
      using * by (auto simp: making_def reserved_def unused_def born_files_def)
  qed (simp add: new_shim_def Let_def)
  have "triple (\<lambda>s. making tid n s \<and> {} \<subseteq> set (ts_shims s)) (new_fs_context cwd root)
    (\<lambda>c. making_with c tid n)"
    unfolding new_fs_context_def
    by (rule triple_bind [OF one], rule triple_bind [OF one], rule triple_basics) (auto simp: making_with_def)
  then show ?thesis by simp
qed

lemma stable_making: "stable m \<Longrightarrow> triple (making_with c tid n) m (\<lambda>_. making_with c tid n)"
  by (rule triple_stable) (auto intro: making_with_skeletal making_with_inv)

lemma put_process_triple:
  "triple (making_with c tid n) (put_task n (process_task n tid kst (process_inner E nm tid c stk))) (\<lambda>_. alive n)"
  unfolding put_task_def
proof (rule triple_basics(7), rule put_task_inv)
  fix s assume "making_with c tid n s"
  then show "newborn n (process_task n tid kst (process_inner E nm tid c stk)) s"
    by (auto simp: newborn_def making_with_def making_def reserved_def unused_def born_files_def process_task_def
        process_inner_def)
qed

text \<open>An id for a task, and an identity.\<close>

lemma new_tid_tree:
  assumes "pick_law (te_pick E)"
  shows "triple tree_inv (new_tid E) (\<lambda>tid s. tree_inv s \<and> (\<forall>i. tid = Some i \<longrightarrow> reserved i s))"
  by (rule new_tid_triple [OF assms]) auto

lemma new_tid_alive:
  assumes "pick_law (te_pick E)"
  shows "triple (alive t) (new_tid E) (\<lambda>tid s. alive t s \<and> (\<forall>i. tid = Some i \<longrightarrow> reserved i s))"
proof (rule new_tid_triple [OF assms])
  fix s s' assume *: "alive t s" "s' = s\<lparr>ts_tids := ts_tids s'\<rparr>" "tree_inv s'"
  have "ts_live s' = ts_live s" by (subst *(2)) simp
  with * show "alive t s'" by (simp add: alive_def)
qed auto

lemma fresh_reserved:
  "triple (\<lambda>s. tree_inv s \<and> reserved i s) fresh (\<lambda>n s. tree_inv s \<and> reserved i s \<and> unused n s)"
  by (rule triple_weaken(1) [OF fresh_triple]) (auto simp: reserved_def)

lemma skeletal_reserved: "skeletal (\<lambda>s. tree_inv s \<and> reserved i s)" "skeletal (\<lambda>s. tree_inv s \<and> reserved i s \<and> unused n s)"
  by (intro skeletal_intros)+

lemma stable_reserved:
  "stable m \<Longrightarrow> triple (\<lambda>s. tree_inv s \<and> reserved i s) m (\<lambda>_ s. tree_inv s \<and> reserved i s)"
  "stable k \<Longrightarrow> triple (\<lambda>s. tree_inv s \<and> reserved i s \<and> unused n s) k (\<lambda>_ s. tree_inv s \<and> reserved i s \<and> unused n s)"
  by (rule triple_stable; use skeletal_reserved in blast)+

lemma add_task_inv:
  assumes "alive n s"
  shows "alive n (s\<lparr>ts_global := bt_insert (tk_tid (ts_task s n)) n (ts_global s)\<rparr>)" (is "alive n ?s")
proof -
  have i [simp]: "inner_of q ?s = inner_of q s" for q by (simp add: inner_of_def)
  have inv: "tree_inv s" "n \<in> set (ts_live s)" using assms by (simp_all add: alive_def)
  have "held_shims ?s = held_shims s" by (simp add: held_shims_def task_shims_def cong: map_cong)
  then have "files_ok ?s" using inv by (simp add: tree_inv_def files_ok_def)
  moreover have "table_ok ?s" using inv by (auto simp: tree_inv_def table_ok_def)
  moreover have "kids_ok ?s" using inv unfolding tree_inv_def kids_ok_def i by simp
  moreover have "ids_ok ?s" using inv by (simp add: tree_inv_def ids_ok_def)
  ultimately show ?thesis using inv by (simp add: alive_def tree_inv_def)
qed

lemma add_task_triple: "triple (alive n) (add_task E n) (\<lambda>_. alive n)"
  unfolding add_task_def Let_def
  apply (rule triple_bind [OF triple_basics(5) [where S = "\<lambda>s t. s = t \<and> alive n t"]])
   apply simp
  apply (rule triple_bind [OF triple_basics(7) [where U = "\<lambda>_. alive n"]])
   apply (use add_task_inv in blast)
  apply (rule stable_alive, intro stable_intros)
  done

lemma from_elf_triple:
  assumes "pick_law (te_pick E)"
  shows "triple tree_inv (from_elf fuel E nm elf) (\<lambda>r s. tree_inv s \<and> (\<forall>n. r = Some n \<longrightarrow> alive n s))"
proof -
  show ?thesis
    unfolding from_elf_def
    apply (rule triple_bind [OF new_tid_tree [OF assms]])
    apply (rule triple_cases)
     apply (rule triple_basics, blast)
    subgoal for tid i
      apply (rule triple_weaken(2) [where P = "\<lambda>s. tree_inv s \<and> reserved i s"])
       apply (rule triple_bind [OF stable_reserved(1)], intro stable_intros)
       apply (rule triple_cases)
        apply (rule triple_basics, blast)
       apply (rule triple_cases)
       apply (rule triple_bind [OF fresh_reserved])
       apply (rule triple_bind [OF stable_reserved(2)], intro stable_intros)
       apply (rule triple_bind [OF new_objects_triple])
       apply (rule triple_bind [OF new_fs_context_triple])
       subgoal for r p info args n ths u c
         apply (rule triple_bind [OF triple_basics(5) [where S = "\<lambda>_. making_with c i n"]], assumption)
         apply (rule triple_bind [OF stable_making], intro stable_intros)
         apply (rule triple_cases)
          apply (rule triple_basics, simp add: making_with_inv)
         apply (rule triple_bind [OF stable_making], intro stable_intros)
         apply (rule triple_cases)
          apply (rule triple_basics, simp add: making_with_inv)
         apply (rule triple_bind [OF stable_making], intro stable_intros)
         apply (rule triple_bind [OF put_process_triple])
         apply (rule triple_basics, blast)
         done
      apply blast
      done
    done
qed


section \<open>Parents and children\<close>

text \<open>Two states that differ in the links between parents and children.\<close>

definition same_but_kin :: "('v, 'h, 'w) tstate \<Rightarrow> ('v, 'h, 'w) tstate \<Rightarrow> bool" where
  "same_but_kin s' s \<longleftrightarrow> (\<exists>f. s' = s\<lparr>ts_task := f\<rparr>
     \<and> (\<forall>t. tk_tid (f t) = tk_tid (ts_task s t) \<and> tk_pid (f t) = tk_pid (ts_task s t)
          \<and> tk_fds (f t) = tk_fds (ts_task s t) \<and> tk_mmap (f t) = tk_mmap (ts_task s t)
          \<and> ti_fs_info (tk_inner (f t)) = ti_fs_info (inner_of t s)))"

lemma same_but_kinD:
  assumes "same_but_kin s' s"
  shows "ts_live s' = ts_live s" "ts_next s' = ts_next s" "ts_global s' = ts_global s" "ts_init s' = ts_init s"
    "ts_tids s' = ts_tids s" "ts_shims s' = ts_shims s" "ts_stdio s' = ts_stdio s" "ts_obj s' = ts_obj s"
    "tk_tid (ts_task s' t) = tk_tid (ts_task s t)" "tk_pid (ts_task s' t) = tk_pid (ts_task s t)"
    "tk_fds (ts_task s' t) = tk_fds (ts_task s t)" "tk_mmap (ts_task s' t) = tk_mmap (ts_task s t)"
    "ti_fs_info (inner_of t s') = ti_fs_info (inner_of t s)" "ts_world s' = ts_world s" "ts_futex s' = ts_futex s"
  using assms by (auto simp: same_but_kin_def inner_of_def)

lemma same_but_kin_rest:
  assumes k: "same_but_kin s' s"
  shows "table_ok s' = table_ok s" "ids_ok s' = ids_ok s" "files_ok s' = files_ok s"
proof -
  have "task_shims s' t = task_shims s t" for t by (simp add: task_shims_def same_but_kinD [OF k])
  then have "held_shims s' = held_shims s" by (simp add: held_shims_def same_but_kinD [OF k] cong: map_cong)
  then show "table_ok s' = table_ok s" "ids_ok s' = ids_ok s" "files_ok s' = files_ok s"
    by (simp_all add: table_ok_def ids_ok_def files_ok_def same_but_kinD [OF k])
qed

lemma same_but_kin_trans: "same_but_kin s s" "same_but_kin u t \<Longrightarrow> same_but_kin t s \<Longrightarrow> same_but_kin u s"
proof -
  show "same_but_kin s s" unfolding same_but_kin_def by (rule exI [of _ "ts_task s"]) (simp add: inner_of_def)
  show "same_but_kin u t \<Longrightarrow> same_but_kin t s \<Longrightarrow> same_but_kin u s"
    by (auto simp: same_but_kin_def inner_of_def)
qed

lemma same_but_kin_set_inner:
  "(\<And>i. ti_fs_info (f i) = ti_fs_info i) \<Longrightarrow> same_but_kin (set_inner t f s) s"
  unfolding same_but_kin_def set_inner_def
  by (rule exI [of _ "(ts_task s)(t := (ts_task s t)\<lparr>tk_inner := f (tk_inner (ts_task s t))\<rparr>)"])
    (simp add: inner_of_def)

lemma inner_of_set_inner: "inner_of q (set_inner t f s) = (if q = t then f (inner_of t s) else inner_of q s)"
  by (simp add: inner_of_def set_inner_def)

text \<open>A map of children that belongs to a task.\<close>

definition kids_of :: "nat \<Rightarrow> (nat, nat) btree \<Rightarrow> ('v, 'h, 'w) tstate \<Rightarrow> bool" where
  "kids_of t m s \<longleftrightarrow> bt_wf m \<and> (\<forall>k c. bt_get m k = Some c \<longrightarrow>
     c \<in> set (ts_live s) \<and> tk_pid (ts_task s c) = k \<and> ti_parent (inner_of c s) = Some t)"

lemma kids_ok_kids_of: "kids_ok s \<longleftrightarrow> (\<forall>t \<in> set (ts_live s). kids_of t (ti_children (inner_of t s)) s)"
  by (simp add: kids_ok_def kids_of_def)

lemma kids_of_update:
  "kids_of t bt_empty s"
  "kids_of t m s \<Longrightarrow> kids_of t (bt_remove k m) s"
  "kids_of t m s \<Longrightarrow> c \<in> set (ts_live s) \<Longrightarrow> tk_pid (ts_task s c) = k \<Longrightarrow> ti_parent (inner_of c s) = Some t \<Longrightarrow>
    kids_of t (bt_insert k c m) s"
  by (auto simp: kids_of_def bt_empty_def)

lemma set_children:
  assumes "alive q s" "kids_of t (ti_children (f (inner_of t s))) s"
    and "ti_parent (f (inner_of t s)) = ti_parent (inner_of t s)" "\<And>i. ti_fs_info (f i) = ti_fs_info i"
  shows "alive q (set_inner t f s)"
proof -
  let ?s = "set_inner t f s"
  have k: "same_but_kin ?s s" using assms(4) by (rule same_but_kin_set_inner)
  have "kids_ok s" using assms(1) by (simp add: alive_def tree_inv_def)
  then have "kids_ok ?s"
    using assms(2,3) by (auto simp: kids_ok_kids_of kids_of_def same_but_kinD [OF k] inner_of_set_inner)
  then show ?thesis
    using assms(1) by (simp add: alive_def tree_inv_def same_but_kin_rest [OF k] same_but_kinD [OF k])
qed

section \<open>Cloning\<close>

definition cloning :: "nat \<Rightarrow> nat \<Rightarrow> nat \<Rightarrow> ('v, 'h, 'w) tstate \<Rightarrow> bool" where
  "cloning t i n s \<longleftrightarrow> alive t s \<and> reserved i s \<and> unused n s"

lemma cloning_skeletal: "skeletal (cloning t i n)"
  unfolding cloning_def [abs_def] by (intro skeletal_intros)

lemma stable_cloning: "stable m \<Longrightarrow> triple (cloning t i n) m (\<lambda>_. cloning t i n)"
  by (rule triple_stable) (auto simp: cloning_def intro: cloning_skeletal)

text \<open>The descriptor table of the child: the one of the parent, or a copy of it.\<close>

definition cloned :: "nat \<Rightarrow> nat \<Rightarrow> nat \<Rightarrow> bool \<Rightarrow> ('v, 'h, 'w) tstate \<Rightarrow> bool" where
  "cloned t i n shared s \<longleftrightarrow> cloning t i n s
     \<and> (\<not> shared \<longrightarrow> slot_map (ob_fds (ts_obj s) n) = slot_map (ob_fds (ts_obj s) (tk_fds (ts_task s t)))
          \<and> slot_inv (ob_fds (ts_obj s) n))"

lemma cloned_skeletal: "skeletal (cloned t i n shared)"
proof (rule skeletalI)
  fix s s' :: "('v, 'h, 'w) tstate" assume *: "skel s' = skel s" "cloned t i n shared s"
  then show "cloned t i n shared s'"
    using skeletalD [OF cloning_skeletal *(1)] by (simp add: cloned_def skelD [OF *(1)])
qed

lemma stable_cloned: "stable m \<Longrightarrow> triple (cloned t i n b) m (\<lambda>_. cloned t i n b)"
  by (rule triple_stable) (auto simp: cloned_def cloning_def intro: cloned_skeletal)

lemma slot_clone_inv: "slot_inv v \<Longrightarrow> slot_inv (slot_clone v) \<and> slot_map (slot_clone v) = slot_map v"
  by simp

lemma fresh_cloning: "triple (\<lambda>s. alive t s \<and> reserved i s) fresh (\<lambda>n. cloning t i n)"
proof -
  have "triple (\<lambda>s. alive t s \<and> reserved i s) fresh (\<lambda>n s. (alive t s \<and> reserved i s) \<and> unused n s)"
    by (rule fresh_triple) (auto simp: alive_def reserved_def)
  then show ?thesis by (rule triple_weaken(1)) (simp add: cloning_def)
qed

lemma clone_objects_triple:
  "triple (cloning t i n) (clone_objects E t n flags ths)
    (\<lambda>_. cloned t i n (contains flags (CLONE_FILES (te_clone E))))"
proof (rule tripleI)
  fix s x s' assume *: "cloning t i n s" "clone_objects E t n flags ths s = (Inr x, s')"
  let ?shared = "contains flags (CLONE_FILES (te_clone E))" and ?f = "tk_fds (ts_task s t)"
  have a: "alive t s" and ne: "?f \<noteq> n" using * by (auto simp: cloning_def unused_def)
  define v where "v = (if ?shared then ob_fds (ts_obj s) n else slot_clone (ob_fds (ts_obj s) ?f))"
  have sk: "skel s' = skel (s\<lparr>ts_obj := (ts_obj s)\<lparr>ob_fds := (ob_fds (ts_obj s))(n := v)\<rparr>\<rparr>)" (is "_ = skel ?s1")
    using *(2) by (auto simp: clone_objects_def Let_def on_obj_def act_simps skel_def v_def)
  note fds = tree_files(2,3) [OF a]
  have c: "slot_inv (slot_clone (ob_fds (ts_obj s) ?f))"
    "slot_map (slot_clone (ob_fds (ts_obj s) ?f)) = slot_map (ob_fds (ts_obj s) ?f)"
    using slot_clone_inv [OF fds(1)] by simp_all
  have "cloned t i n ?shared ?s1"
  proof (cases ?shared)
    case True
    then have "?s1 = s" by (simp add: v_def)
    then show ?thesis using * True by (simp add: cloned_def)
  next
    case False
    then have "alive t ?s1" using fds_update [OF a, of v n] c fds by (simp add: v_def)
    then show ?thesis using * False c ne by (simp add: cloned_def cloning_def reserved_def unused_def v_def)
  qed
  then show "cloned t i n ?shared s'" using skeletalD [OF cloned_skeletal sk] by blast
next
  fix s e s' assume "clone_objects E t n flags ths s = (Inl e, s')"
  then show "tree_inv s'" by (simp add: clone_objects_def Let_def on_obj_def act_simps)
qed

lemma clone_record_newborn:
  assumes "cloned t i n (contains (ca_flags a) (CLONE_FILES (te_clone E))) s"
  shows "newborn n (clone_record E t n i a sp num kst (ts_task s t)) s"
proof -
  let ?k = "ts_task s t" and ?shared = "contains (ca_flags a) (CLONE_FILES (te_clone E))"
  let ?c = "clone_record E t n i a sp num kst ?k"
  have t: "alive t s" and u: "unused n s" and r: "reserved i s" using assms by (simp_all add: cloned_def cloning_def)
  have live: "t \<in> set (ts_live s)" and inv: "tree_inv s" using t by auto
  have ids: "tk_fds ?k < ts_next s" "tk_mmap ?k < ts_next s" "tk_pid ?k \<in> set (ts_tids s)"
    using inv live by (auto simp: tree_inv_def ids_ok_def)
  note files = tree_files [OF t]
  have "fc_cwd (ti_fs_info (tk_inner ?k)) \<in> set (ts_shims s)" "fc_root (ti_fs_info (tk_inner ?k)) \<in> set (ts_shims s)"
    "mm_files (ob_mmap (ts_obj s) (tk_mmap ?k)) \<subseteq> set (ts_shims s)"
    using files(1) by (simp_all add: task_shims_def inner_of_def set_region_files)
  moreover have "tk_tid ?c = i" "tk_pid ?c \<in> set (ts_tids s)" "tk_mmap ?c = tk_mmap ?k"
    "ti_children (tk_inner ?c) = bt_empty" "ti_fs_info (tk_inner ?c) = ti_fs_info (tk_inner ?k)"
    "tk_fds ?c = (if ?shared then tk_fds ?k else n)"
    using ids(3) r by (simp_all add: clone_record_def Let_def reserved_def)
  moreover have "n < ts_next s" "n \<notin> set (ts_live s)" using u by (auto simp: unused_def)
  ultimately show ?thesis
    using assms files(2,3) inv ids r u by (simp add: newborn_def cloned_def)
qed

lemma put_clone_triple:
  assumes k: "k = clone_record E t n i a sp num kst (ts_task s t)"
  shows "triple (\<lambda>u. u = s \<and> cloned t i n (contains (ca_flags a) (CLONE_FILES (te_clone E))) u) (put_task n k)
    (\<lambda>_ u. alive n u \<and> t \<in> set (ts_live u) \<and> t \<noteq> n \<and> ts_task u n = k)"
  unfolding put_task_def
proof (rule triple_basics(7))
  fix u assume *: "u = s \<and> cloned t i n (contains (ca_flags a) (CLONE_FILES (te_clone E))) u"
  then have "newborn n k u" using clone_record_newborn k by blast
  then have "alive n (u\<lparr>ts_task := (ts_task u)(n := k), ts_live := ts_live u @ [n]\<rparr>)" by (rule put_task_inv)
  with * show "alive n (u\<lparr>ts_task := (ts_task u)(n := k), ts_live := ts_live u @ [n]\<rparr>)
      \<and> t \<in> set (ts_live (u\<lparr>ts_task := (ts_task u)(n := k), ts_live := ts_live u @ [n]\<rparr>)) \<and> t \<noteq> n
      \<and> ts_task (u\<lparr>ts_task := (ts_task u)(n := k), ts_live := ts_live u @ [n]\<rparr>) n = k"
    by (auto simp: cloned_def cloning_def alive_def unused_def)
qed

lemma add_child_triple:
  assumes "ti_parent (tk_inner k) = Some t" "tk_pid k = p"
  shows "triple (\<lambda>s. alive n s \<and> t \<in> set (ts_live s) \<and> t \<noteq> n \<and> ts_task s n = k)
    (upd_inner t (\<lambda>i. i\<lparr>ti_children := bt_insert p n (ti_children i)\<rparr>)) (\<lambda>_. alive n)"
  unfolding upd_inner_def
proof (rule triple_basics(7), elim conjE, rule set_children)
  fix s assume "alive n s" "t \<in> set (ts_live s)" "t \<noteq> n" "ts_task s n = k"
  then show "kids_of t (ti_children ((inner_of t s)\<lparr>ti_children := bt_insert p n (ti_children (inner_of t s))\<rparr>)) s"
    using assms by (auto simp: alive_def tree_inv_def kids_ok_kids_of inner_of_def intro!: kids_of_update(3))
qed auto

lemma clone_task_triple:
  assumes "pick_law (te_pick E)"
  shows "triple (alive t) (clone_task E t a) (\<lambda>r s. tree_inv s \<and> (\<forall>n. r = Some n \<longrightarrow> alive n s))"
  unfolding clone_task_def Let_def
  apply (rule triple_bind [OF new_tid_alive [OF assms]])
  apply (rule triple_cases)
   apply (rule triple_basics, blast)
  subgoal for tid i
    apply (rule triple_weaken(2) [where P = "\<lambda>s. alive t s \<and> reserved i s"])
     apply (rule triple_bind [OF fresh_cloning])
     apply (rule triple_bind [OF stable_cloning], intro stable_intros)
     apply (rule triple_cases)
     apply (rule triple_bind [OF stable_cloning], intro stable_intros)
     apply (rule triple_cases)
      apply (rule triple_basics, simp add: cloning_def alive_def)
     apply (rule triple_bind [OF stable_cloning], intro stable_intros)
     apply (rule triple_bind [OF clone_objects_triple])
     apply (rule triple_bind [OF stable_cloned], intro stable_intros)
     apply (rule triple_bind [OF stable_cloned], intro stable_intros)
     subgoal for n _ sp num
       apply (rule triple_bind [OF triple_basics(5)
           [where S = "\<lambda>s u. u = s \<and> cloned t i n (contains (ca_flags a) (CLONE_FILES (te_clone E))) u"]])
        apply simp
       apply (rule triple_bind [OF put_clone_triple], rule refl)
       apply (rule triple_bind [where Q = "\<lambda>_. alive n"])
        apply (rule triple_cases)
         apply (rule triple_basics, blast)
        apply (rule add_child_triple)
         apply (simp add: clone_record_def Let_def)
        apply (rule refl)
       apply (rule triple_basics, blast)
       done
    apply blast
    done
  done

lemma do_clone_triple:
  assumes "pick_law (te_pick E)"
  shows "triple tree_inv (do_clone E flags stack ptid tls ctid) (\<lambda>_. tree_inv)"
  unfolding do_clone_def Let_def
  apply (rule triple_cases)
   apply (rule triple_basics, assumption)
  apply (rule triple_current)
  apply (rule triple_bind [OF clone_task_triple [OF assms]])
  apply (rule triple_bind [OF triple_basics(4) [where Q = alive]])
    apply blast
   apply (auto simp: ok_or_def split: option.splits)[1]
  apply (rule triple_bind [OF triple_basics(5) [where S = "\<lambda>_. alive _"]], assumption)
  apply (rule triple_bind [OF stable_alive], intro stable_intros)
  apply (rule triple_bind [OF stable_alive], intro stable_intros)
  apply (rule triple_bind [OF add_task_triple])
  apply (rule triple_basics, blast)
  done

end
