(* ===== verification/TaskSafe.thy ===== *)
theory TaskSafe
  imports TaskMake
begin

text \<open>
  Every call of the task domain keeps the invariant: leaving, waiting, descriptors, memory, and all
  the others; then the runs of the domain, from its start through calls and changes of the kernel.
\<close>

section \<open>Leaving\<close>

text \<open>The invariant while the children of \<open>t\<close> are on the move.\<close>

definition kids_but :: "nat \<Rightarrow> ('v, 'h, 'w) tstate \<Rightarrow> bool" where
  "kids_but t s \<longleftrightarrow> (\<forall>p \<in> set (ts_live s). p \<noteq> t \<longrightarrow> kids_of p (ti_children (inner_of p s)) s)"

lemma adopt_kin: "same_but_kin (adopt init cs s) s"
proof (induction init cs s rule: adopt.induct)
  case (2 init tid child cs s)
  show ?case
    by (simp, rule same_but_kin_trans(2) [OF 2 same_but_kin_trans(2)])
      (rule same_but_kin_set_inner; simp)+
qed (simp add: same_but_kin_trans(1))

lemma adopt_inner:
  "ti_status (inner_of q (adopt init cs s)) = ti_status (inner_of q s)"
  "ti_exit_code (inner_of q (adopt init cs s)) = ti_exit_code (inner_of q s)"
  "ti_clear_child_tid (inner_of q (adopt init cs s)) = ti_clear_child_tid (inner_of q s)"
  "q \<noteq> init \<Longrightarrow> ti_children (inner_of q (adopt init cs s)) = ti_children (inner_of q s)"
  by (induction init cs s rule: adopt.induct) (auto simp: inner_of_set_inner)

lemma adopt_parent:
  "ti_parent (inner_of q (adopt init cs s)) = (if q \<in> snd ` set cs then Some init else ti_parent (inner_of q s))"
  by (induction init cs s rule: adopt.induct) (auto simp: inner_of_set_inner)

lemma adopt_children:
  "bt_get (ti_children (inner_of init (adopt init cs s))) k =
     (case map_of (rev cs) k of Some c \<Rightarrow> Some c | None \<Rightarrow> bt_get (ti_children (inner_of init s)) k)"
  by (induction init cs s rule: adopt.induct) (auto simp: inner_of_set_inner map_add_def split: option.splits)

lemma adopt_kids:
  assumes "kids_but t s" "init \<in> set (ts_live s)"
    and "\<forall>(k, c) \<in> set cs. c \<in> set (ts_live s) \<and> tk_pid (ts_task s c) = k \<and> ti_parent (inner_of c s) = Some t"
    and "distinct (map fst cs)"
  shows "kids_but t (adopt init cs s)"
  using assms
proof (induction init cs s rule: adopt.induct)
  case (2 init k c cs s)
  let ?s1 = "set_inner c (\<lambda>i. i\<lparr>ti_parent := Some init\<rparr>) s"
  let ?s2 = "set_inner init (\<lambda>i. i\<lparr>ti_children := bt_insert k c (ti_children i)\<rparr>) ?s1"
  have k1: "same_but_kin ?s1 s" and "same_but_kin ?s2 ?s1" by (rule same_but_kin_set_inner; simp)+
  then have k2: "same_but_kin ?s2 s" using same_but_kin_trans(2) by blast
  have c: "c \<in> set (ts_live s)" "tk_pid (ts_task s c) = k" "ti_parent (inner_of c s) = Some t"
    using "2.prems"(3) by auto
  have old: "kids_of p (ti_children (inner_of p s)) ?s2" if "p \<in> set (ts_live s)" "p \<noteq> t" for p
  proof -
    have p: "kids_of p (ti_children (inner_of p s)) s" using that "2.prems"(1) by (simp add: kids_but_def)
    then have "c' \<noteq> c" if "bt_get (ti_children (inner_of p s)) k' = Some c'" for k' c'
      using that c(3) \<open>p \<noteq> t\<close> by (auto simp: kids_of_def)
    then show ?thesis using p by (auto simp: kids_of_def same_but_kinD [OF k2] inner_of_set_inner)
  qed
  have c2: "c \<in> set (ts_live ?s2)" "tk_pid (ts_task ?s2 c) = k" "ti_parent (inner_of c ?s2) = Some init"
    using c by (simp_all add: same_but_kinD [OF k2] inner_of_set_inner)
  have ch: "ti_children (inner_of p ?s2) = (if p = init then bt_insert k c (ti_children (inner_of p s))
      else ti_children (inner_of p s))" for p
    by (simp add: inner_of_set_inner)
  have "kids_of p (ti_children (inner_of p ?s2)) ?s2" if "p \<in> set (ts_live s)" "p \<noteq> t" for p
  proof (cases "p = init")
    case True
    then have "kids_of init (ti_children (inner_of init s)) ?s2" using old [OF that] by simp
    from kids_of_update(3) [OF this c2] show ?thesis unfolding ch using True by simp
  next
    case False
    then show ?thesis unfolding ch using old [OF that] by simp
  qed
  then have "kids_but t ?s2" by (simp add: kids_but_def same_but_kinD [OF k2])
  moreover have "\<forall>(k', c') \<in> set cs. c' \<in> set (ts_live ?s2) \<and> tk_pid (ts_task ?s2 c') = k' \<and> ti_parent (inner_of c' ?s2) = Some t"
  proof (clarify, intro conjI)
    fix k' c' assume m: "(k', c') \<in> set cs"
    then have x: "c' \<in> set (ts_live s)" "tk_pid (ts_task s c') = k'" "ti_parent (inner_of c' s) = Some t"
      using "2.prems"(3) by auto
    have "k' \<noteq> k" using "2.prems"(4) m by force
    then have "c' \<noteq> c" using x(2) c(2) by auto
    then show "c' \<in> set (ts_live ?s2)" "tk_pid (ts_task ?s2 c') = k'" "ti_parent (inner_of c' ?s2) = Some t"
      using x by (auto simp: same_but_kinD [OF k2] inner_of_set_inner)
  qed
  ultimately show ?case using "2.IH" "2.prems"(2,4) by (simp add: same_but_kinD [OF k2])
qed simp

text \<open>All children of \<open>t\<close> go to \<open>init\<close>.\<close>

lemma adopt_all:
  assumes "alive t s" "init \<in> set (ts_live s)"
  shows "alive t (set_inner t (\<lambda>i. i\<lparr>ti_children := bt_empty\<rparr>) (adopt init (ti_children (inner_of t s)) s))"
    (is "alive t (set_inner t ?f ?a)")
proof -
  let ?cs = "ti_children (inner_of t s)"
  have kids: "kids_ok s" and t: "t \<in> set (ts_live s)" using assms(1) by (simp_all add: alive_def tree_inv_def)
  then have k: "kids_of t ?cs s" by (simp add: kids_ok_kids_of)
  then have cs: "\<forall>(k, c) \<in> set ?cs. c \<in> set (ts_live s) \<and> tk_pid (ts_task s c) = k \<and> ti_parent (inner_of c s) = Some t"
    "distinct (map fst ?cs)"
    using bt_wf_distinct [of ?cs] by (auto simp: kids_of_def bt_get_def dest: map_of_is_SomeI)
  have "kids_but t s" using kids by (simp add: kids_ok_kids_of kids_but_def)
  then have "kids_but t ?a" by (rule adopt_kids [OF _ assms(2) cs])
  moreover have "same_but_kin (set_inner t ?f ?a) ?a" by (rule same_but_kin_set_inner) simp
  then have k2: "same_but_kin (set_inner t ?f ?a) s" using adopt_kin same_but_kin_trans(2) by blast
  moreover have "ti_parent (inner_of c (set_inner t ?f ?a)) = ti_parent (inner_of c ?a)" for c
    by (simp add: inner_of_set_inner)
  then have "kids_of p m (set_inner t ?f ?a) = kids_of p m ?a" for p m
    by (simp add: kids_of_def same_but_kinD [OF k2] same_but_kinD [OF adopt_kin])
  ultimately have "kids_ok (set_inner t ?f ?a)"
    by (auto simp: kids_ok_kids_of kids_but_def inner_of_set_inner kids_of_update same_but_kinD [OF k2]
        same_but_kinD [OF adopt_kin])
  then show ?thesis
    using assms(1) by (simp add: alive_def tree_inv_def same_but_kin_rest [OF k2] same_but_kinD [OF k2])
qed

lemma remove_task_inv: "alive t s \<Longrightarrow> alive t (s\<lparr>ts_global := bt_remove tid (ts_global s)\<rparr>)" (is "_ \<Longrightarrow> alive t ?s")
proof -
  assume a: "alive t s"
  have i [simp]: "inner_of q ?s = inner_of q s" for q by (simp add: inner_of_def)
  have "held_shims ?s = held_shims s" by (simp add: held_shims_def task_shims_def cong: map_cong)
  then have "files_ok ?s" using a by (simp add: alive_def tree_inv_def files_ok_def)
  moreover have "table_ok ?s" using a by (auto simp: alive_def tree_inv_def table_ok_def)
  moreover have "kids_ok ?s" using a unfolding alive_def tree_inv_def kids_ok_def i by simp
  moreover have "ids_ok ?s" using a by (simp add: alive_def tree_inv_def ids_ok_def)
  ultimately show ?thesis using a by (simp add: alive_def tree_inv_def)
qed

lemma remove_task_triple: "triple (alive t) (remove_task tid) (\<lambda>_. alive t)"
  unfolding remove_task_def by (rule triple_basics(7)) (rule remove_task_inv)

lemma reclaim_triple: "triple (alive t) (modify_state (reclaim E)) (\<lambda>_. tree_inv)"
  by (rule triple_basics(7)) (auto intro: reclaim_inv(1))

lemma adopted_triple:
  fixes s :: "('v, 'h, 'w) tstate"
  assumes "triple (alive t) (f ()) Q"
  shows "triple (\<lambda>u. u = s \<and> alive t u \<and> ts_init u = Some init)
      (bind (modify_state (adopt init (ti_children (tk_inner (ts_task s t))))) (\<lambda>_.
       bind (upd_inner t (\<lambda>i. i\<lparr>ti_children := bt_empty\<rparr>)) f)) Q"
proof -
  let ?m = "bind (modify_state (adopt init (ti_children (tk_inner (ts_task s t))))) (\<lambda>_.
       upd_inner t (\<lambda>i. i\<lparr>ti_children := bt_empty\<rparr>)) :: (('v, 'h, 'w) tstate, unit) act"
  have run: "?m s = (Inr (), set_inner t (\<lambda>i. i\<lparr>ti_children := bt_empty\<rparr>) (adopt init (ti_children (inner_of t s)) s))"
    by (simp add: act_simps upd_inner_def inner_of_def)
  have "triple (\<lambda>u. u = s \<and> alive t u \<and> ts_init u = Some init) ?m (\<lambda>_. alive t)"
  proof (rule tripleI)
    fix u x u' assume *: "u = s \<and> alive t u \<and> ts_init u = Some init" "?m u = (Inr x, u')"
    then have a: "alive t s" "init \<in> set (ts_live s)" by (auto simp: alive_def tree_inv_def table_ok_def)
    have "u' = set_inner t (\<lambda>i. i\<lparr>ti_children := bt_empty\<rparr>) (adopt init (ti_children (inner_of t s)) s)"
      using *(2) run conjunct1 [OF *(1)] by simp
    then show "alive t u'" using adopt_all [OF a] by simp
  qed (simp add: act_simps upd_inner_def)
  then have "triple (\<lambda>u. u = s \<and> alive t u \<and> ts_init u = Some init) (bind ?m f) Q"
    by (rule triple_bind) (use assms in simp)
  then show ?thesis by (simp add: bind_assoc)
qed

lemma do_exit_triple: "triple tree_inv (do_exit E code) (\<lambda>_. tree_inv)"
  unfolding do_exit_def Let_def
  apply (rule triple_current)
  subgoal for t
    apply (rule triple_bind [OF triple_basics(5) [where S = "\<lambda>s u. u = s \<and> alive t u"]])
     apply simp
    apply (rule triple_cases)
     apply (rule triple_basics, blast)
    subgoal for s
      apply (rule triple_bind [OF triple_basics(4) [where Q = "\<lambda>x u. u = s \<and> alive t u \<and> ts_init u = Some x"]])
        apply blast
       apply (auto simp: unwrap_def split: option.splits)[1]
      apply (rule adopted_triple)
      apply (rule triple_bind [OF stable_alive], intro stable_intros, simp_all)
      apply (rule triple_bind [OF stable_alive], intro stable_intros)
      apply (rule triple_bind [OF remove_task_triple])
      apply (rule triple_bind [OF stable_alive], intro stable_intros, simp_all)
      apply (rule triple_bind [OF reclaim_triple])
      apply (rule stable_tree, intro stable_intros)
      done
    done
  done

section \<open>Waiting\<close>

lemma remove_child_triple:
  "triple (alive t) (upd_inner t (\<lambda>i. i\<lparr>ti_children := bt_remove k (ti_children i)\<rparr>)) (\<lambda>_. alive t)"
  unfolding upd_inner_def
  by (rule triple_basics(7), rule set_children)
    (auto simp: alive_def tree_inv_def kids_ok_kids_of intro!: kids_of_update(2))

lemma reap_triple: "triple (alive t) (reap E t c ptr options) (\<lambda>_. alive t)"
  unfolding reap_def Let_def
  apply (rule triple_bind [OF triple_basics(5) [where S = "\<lambda>_. alive t"]], assumption)
  apply (rule triple_bind [OF stable_alive], intro stable_intros)
  apply (rule triple_cases)
   apply (rule stable_alive, intro stable_intros)
  apply (rule triple_bind [OF remove_child_triple])
  apply (rule stable_alive, intro stable_intros)
  done

lemma wait_round_triple: "triple tree_inv (wait_round E pid ptr options) (\<lambda>_. tree_inv)"
  unfolding wait_round_def Let_def
  apply (rule triple_current)
  subgoal for t
    apply (rule triple_weaken(1) [where Q = "\<lambda>_. alive t"])
     apply (rule triple_bind [OF triple_basics(5) [where S = "\<lambda>_. alive t"]], assumption)
     apply (rule triple_bind [OF stable_alive], intro stable_intros)
     apply (rule triple_cases)
      apply (rule stable_alive, intro stable_intros)
     apply (rule triple_bind [OF stable_alive], intro stable_intros)
     apply (rule triple_cases)
      apply (rule triple_bind [OF reap_triple])
      apply (rule stable_alive, intro stable_intros)
     apply (rule stable_alive, intro stable_intros)
    apply blast
    done
  done

section \<open>Descriptors, directories and memory\<close>

lemma get_then:
  "(\<And>s. triple (\<lambda>u. u = s \<and> P u) (f s) Q) \<Longrightarrow> triple P (bind get_state f) Q"
  by (rule triple_bind [OF triple_basics(5) [where S = "\<lambda>s u. u = s \<and> P u"]]) auto

lemma got_file_triple:
  assumes "\<And>f. triple (alive_with f t) (k f) Q"
  shows "triple (alive t) (bind (task_get_file t fd) (\<lambda>f. bind (lift (ok_or f e)) k)) Q"
  apply (rule triple_bind [OF get_file_triple])
  apply (rule triple_bind [OF triple_basics(4) [where Q = "\<lambda>f. alive_with f t"]])
    apply blast
   apply (auto simp: ok_or_def alive_with_def split: option.splits)[1]
  apply (rule assms)
  done

lemma alive_alive_with: "alive_with f t s \<Longrightarrow> tree_inv s" "alive_with f t s \<Longrightarrow> alive t s"
  by (auto simp: alive_with_def)

lemma descriptor_triples:
  "triple tree_inv (with_current E (\<lambda>t. bind (new_shim inode) (\<lambda>f. task_add_file t f))) (\<lambda>_. tree_inv)"
  "triple tree_inv (with_current E (\<lambda>t. bind (task_remove_file t fd) (\<lambda>f. bind (lift (ok_or f EBADF)) (\<lambda>f. ret (shim_inode f)))))
     (\<lambda>_. tree_inv)"
  "triple tree_inv (with_current E (\<lambda>t. bind (task_get_file t fd) (\<lambda>f. bind (lift (ok_or f EBADF)) (\<lambda>f.
     case new_fd of None \<Rightarrow> task_add_file t f
     | Some new_fd \<Rightarrow> bind (task_add_file_to_fd t f new_fd) (\<lambda>_. ret new_fd))))) (\<lambda>_. tree_inv)"
  "triple tree_inv (with_current E (\<lambda>t. bind (task_get_file t fd) (\<lambda>f. bind (lift (ok_or f EBADF)) (\<lambda>f.
     if b then bind (task_add_file t f) (\<lambda>fd. ret (shim_inode f, fd)) else fail EINVAL)))) (\<lambda>_. tree_inv)"
  "triple tree_inv (with_current E (\<lambda>t.
     bind (new_shim r) (\<lambda>f. bind (task_add_file t f) (\<lambda>r.
     bind (new_shim w) (\<lambda>f. bind (task_add_file t f) (\<lambda>w.
     bind (write_bytes_to_user E t pipe (g r w)) (\<lambda>_. ret (0::nat)))))))) (\<lambda>_. tree_inv)"
proof -
  note add = triple_weaken(1) [OF fd_ops_triple(1)]
  show "triple tree_inv (with_current E (\<lambda>t. bind (new_shim inode) (\<lambda>f. task_add_file t f))) (\<lambda>_. tree_inv)"
    by (rule triple_current, rule triple_bind [OF new_shim_triple], rule add, blast)
  show "triple tree_inv (with_current E (\<lambda>t. bind (task_remove_file t fd) (\<lambda>f. bind (lift (ok_or f EBADF)) (\<lambda>f. ret (shim_inode f)))))
     (\<lambda>_. tree_inv)"
    by (rule triple_current, rule triple_bind [OF fd_ops_triple(3)],
        rule triple_bind [OF triple_basics(4) [where Q = "\<lambda>_. tree_inv"]], blast, blast, rule triple_basics)
  show "triple tree_inv (with_current E (\<lambda>t. bind (task_get_file t fd) (\<lambda>f. bind (lift (ok_or f EBADF)) (\<lambda>f.
     case new_fd of None \<Rightarrow> task_add_file t f
     | Some new_fd \<Rightarrow> bind (task_add_file_to_fd t f new_fd) (\<lambda>_. ret new_fd))))) (\<lambda>_. tree_inv)"
    by (rule triple_current, rule got_file_triple, rule triple_cases, rule add, blast,
        rule triple_bind [OF fd_ops_triple(2)], rule triple_basics, blast)
  show "triple tree_inv (with_current E (\<lambda>t. bind (task_get_file t fd) (\<lambda>f. bind (lift (ok_or f EBADF)) (\<lambda>f.
     if b then bind (task_add_file t f) (\<lambda>fd. ret (shim_inode f, fd)) else fail EINVAL)))) (\<lambda>_. tree_inv)"
    by (rule triple_current, rule got_file_triple, rule triple_cases, rule triple_bind [OF fd_ops_triple(1)],
        rule triple_basics, blast, rule triple_basics, rule alive_alive_with)
  show "triple tree_inv (with_current E (\<lambda>t.
     bind (new_shim r) (\<lambda>f. bind (task_add_file t f) (\<lambda>r.
     bind (new_shim w) (\<lambda>f. bind (task_add_file t f) (\<lambda>w.
     bind (write_bytes_to_user E t pipe (g r w)) (\<lambda>_. ret (0::nat)))))))) (\<lambda>_. tree_inv)"
    by (rule triple_current, rule triple_bind [OF new_shim_triple], rule triple_bind [OF fd_ops_triple(1)],
        rule triple_bind [OF new_shim_triple], rule triple_bind [OF fd_ops_triple(1)],
        rule triple_weaken(1) [where Q = "\<lambda>_. alive _"], rule stable_alive, intro stable_intros, blast)
qed

lemma fs_info_inv:
  assumes "alive_with f t s"
  shows "tree_inv (set_inner t (\<lambda>i. i\<lparr>ti_fs_info := (ti_fs_info i)\<lparr>fc_cwd := f\<rparr>\<rparr>) s)" (is "tree_inv ?s")
proof -
  have a: "alive t s" "f \<in> set (ts_shims s)" using assms by (simp_all add: alive_with_def)
  have sel [simp]: "ts_live ?s = ts_live s" "ts_next ?s = ts_next s" "ts_global ?s = ts_global s" "ts_init ?s = ts_init s"
    "ts_tids ?s = ts_tids s" "ts_shims ?s = ts_shims s" "ts_stdio ?s = ts_stdio s" "ts_obj ?s = ts_obj s"
    by (simp_all add: set_inner_def)
  have tk [simp]: "tk_tid (ts_task ?s q) = tk_tid (ts_task s q)" "tk_pid (ts_task ?s q) = tk_pid (ts_task s q)"
    "tk_fds (ts_task ?s q) = tk_fds (ts_task s q)" "tk_mmap (ts_task ?s q) = tk_mmap (ts_task s q)" for q
    by (simp_all add: set_inner_def)
  have ti [simp]: "ti_parent (inner_of q ?s) = ti_parent (inner_of q s)"
    "ti_children (inner_of q ?s) = ti_children (inner_of q s)" for q
    by (simp_all add: inner_of_set_inner)
  have "set (held_shims ?s) \<subseteq> set (held_shims s) \<union> {f}"
    by (rule held_shims_grow) (auto simp: task_shims_def inner_of_set_inner)
  then have "files_ok ?s" using a by (auto simp: alive_def tree_inv_def files_ok_def)
  moreover have "table_ok ?s" "kids_ok ?s" "ids_ok ?s"
    using a by (simp_all add: alive_def tree_inv_def table_ok_def kids_ok_def ids_ok_def)
  ultimately show ?thesis by (simp add: tree_inv_def)
qed

lemma set_cwd_triple:
  "triple tree_inv (with_current E (\<lambda>t. bind (new_shim inode) (\<lambda>f.
     upd_inner t (\<lambda>i. i\<lparr>ti_fs_info := (ti_fs_info i)\<lparr>fc_cwd := f\<rparr>\<rparr>)))) (\<lambda>_. tree_inv)"
  unfolding upd_inner_def
  by (rule triple_current, rule triple_bind [OF new_shim_triple], rule triple_basics(7), rule fs_info_inv)

lemma mm_triples:
  "triple tree_inv (with_current E (\<lambda>t. bind get_state (\<lambda>s.
     in_mm t (do_mmap c ops (fd_get (ob_fds (ts_obj s) (tk_fds (ts_task s t)))) start len prot flags fd offset)))) (\<lambda>_. tree_inv)"
  "(\<And>mm G. mm_files (mm_info mm) \<subseteq> G \<Longrightarrow> mm_files (mm_info (snd (m mm))) \<subseteq> G) \<Longrightarrow>
     triple tree_inv (with_current E (\<lambda>t. in_mm t m)) (\<lambda>_. tree_inv)"
proof -
  show "triple tree_inv (with_current E (\<lambda>t. bind get_state (\<lambda>s.
     in_mm t (do_mmap c ops (fd_get (ob_fds (ts_obj s) (tk_fds (ts_task s t)))) start len prot flags fd offset)))) (\<lambda>_. tree_inv)"
  proof (rule triple_current, rule get_then, rule triple_weaken(1) [OF in_mm_triple])
    fix t s u and mm :: "'a mm" assume *: "u = s \<and> alive t u" "mm_files (mm_info mm) \<subseteq> set (ts_shims u)"
    show "mm_files (mm_info (snd (do_mmap c ops (fd_get (ob_fds (ts_obj s) (tk_fds (ts_task s t)))) start len prot flags
        fd offset mm))) \<subseteq> set (ts_shims u)"
    proof (rule do_mmap_files [OF *(2)])
      fix f assume "fd_get (ob_fds (ts_obj s) (tk_fds (ts_task s t))) fd = Some f"
      then show "f \<in> set (ts_shims u)"
        using tree_files(3) [of t s] * by (auto simp: fd_get_def slot_get_map ran_def)
    qed
  qed auto
  show "triple tree_inv (with_current E (\<lambda>t. in_mm t m)) (\<lambda>_. tree_inv)"
    if "\<And>mm G. mm_files (mm_info mm) \<subseteq> G \<Longrightarrow> mm_files (mm_info (snd (m mm))) \<subseteq> G"
    by (rule triple_current, rule triple_weaken(1) [OF in_mm_triple]) (use that in auto)
qed

section \<open>The start\<close>

lemma ktread_create_triple:
  assumes "pick_law (te_pick E)"
  shows "triple tree_inv (ktread_create E nm) (\<lambda>_. tree_inv)"
  unfolding ktread_create_def
  apply (rule triple_bind [OF new_tid_tree [OF assms]])
  apply (rule triple_bind [OF triple_basics(4) [where Q = "\<lambda>i s. tree_inv s \<and> reserved i s"]])
    apply blast
   apply (auto simp: unwrap_def split: option.splits)[1]
  subgoal for _ i
    apply (rule triple_bind [OF stable_reserved(1)], intro stable_intros)
    apply (rule triple_bind [OF fresh_reserved])
    apply (rule triple_bind [OF new_objects_triple])
    apply (rule triple_bind [OF new_fs_context_triple])
    apply (rule triple_bind [OF put_process_triple])
    apply (rule triple_weaken(1) [OF add_task_triple], blast)
    done
  done

lemma set_init_inv: "alive t s \<Longrightarrow> alive t (s\<lparr>ts_init := Some t\<rparr>)" (is "_ \<Longrightarrow> alive t ?s")
proof -
  assume a: "alive t s"
  have i [simp]: "inner_of q ?s = inner_of q s" for q by (simp add: inner_of_def)
  have "held_shims ?s = held_shims s" by (simp add: held_shims_def task_shims_def cong: map_cong)
  then have "files_ok ?s" using a by (simp add: alive_def tree_inv_def files_ok_def)
  moreover have "table_ok ?s" using a by (simp add: alive_def tree_inv_def table_ok_def)
  moreover have "kids_ok ?s" using a unfolding alive_def tree_inv_def kids_ok_def i by simp
  moreover have "ids_ok ?s" using a by (simp add: alive_def tree_inv_def ids_ok_def)
  ultimately show ?thesis using a by (simp add: alive_def tree_inv_def)
qed

lemma init_process_triple:
  assumes "pick_law (te_pick E)"
  shows "triple tree_inv (init_process fuel E) (\<lambda>t. alive t)"
  unfolding init_process_def
  apply (rule get_then)
  apply (rule triple_cases)
   apply (rule triple_weaken(2) [where P = tree_inv])
    apply (rule triple_bind [OF stable_tree], intro stable_intros)
    apply (rule triple_cases)
     apply (rule triple_basics, assumption)
    apply (rule triple_bind [OF from_elf_triple [OF assms]])
    apply (rule triple_bind [OF triple_basics(4) [where Q = alive]])
      apply blast
     apply (auto simp: unwrap_def split: option.splits)[1]
    apply (rule triple_bind [OF triple_basics(7) [where U = "\<lambda>_. alive _"]])
     apply (rule set_init_inv, assumption)
    apply (rule triple_basics, assumption)
   apply blast
  apply (rule triple_basics)
  apply (auto simp: alive_def tree_inv_def table_ok_def)
  done

lemma init_task_triple:
  assumes "pick_law (te_pick E)"
  shows "triple tree_inv (bind (must (ktread_create E nm)) (\<lambda>_. bind (init_process fuel E) (\<lambda>task. add_task E task)))
    (\<lambda>_. tree_inv)"
  by (rule triple_bind [OF triple_must [OF ktread_create_triple [OF assms]]],
      rule triple_bind [OF init_process_triple [OF assms]], rule triple_weaken(1) [OF add_task_triple], blast)

end
