(* ===== verification/TaskRuns.thy ===== *)
theory TaskRuns
  imports TaskSafe
begin

text \<open>
  The runs of the task domain: its start, the calls of \<open>TaskDomainImpl\<close> in any order, and changes
  of the kernel and the other domains between them. Every state of a run satisfies the invariant.
\<close>

section \<open>The calls\<close>

text \<open>The calls of the trait, by the files of \<open>syscall/\<close>, and the state each leaves, whatever its result.\<close>

datatype fd_call =
    GetFd nat | AddFd u64 | RemoveFd nat | FsInfo | SetCwd u64 | DoUmask u32 | DoFcntl nat usize
    | DoDup nat "nat option" | DoPipe2 u64 u64 usize

primrec run_fd_call :: "nat \<Rightarrow> ('v, 'h, 'w, 'tf, 'cx) task_env \<Rightarrow> fd_call
    \<Rightarrow> ('v, 'h, 'w) tstate \<Rightarrow> ('v, 'h, 'w) tstate" where
  "run_fd_call fuel E (GetFd a) = (\<lambda>s. snd (dom_get_fd E a s))"
| "run_fd_call fuel E (AddFd a) = (\<lambda>s. snd (dom_add_fd E a s))"
| "run_fd_call fuel E (RemoveFd a) = (\<lambda>s. snd (dom_remove_fd E a s))"
| "run_fd_call fuel E FsInfo = (\<lambda>s. snd (dom_fs_info E s))"
| "run_fd_call fuel E (SetCwd a) = (\<lambda>s. snd (dom_set_cwd E a s))"
| "run_fd_call fuel E (DoUmask a) = (\<lambda>s. snd (dom_do_umask E a s))"
| "run_fd_call fuel E (DoFcntl a b) = (\<lambda>s. snd (dom_do_fcntl E a b s))"
| "run_fd_call fuel E (DoDup a b) = (\<lambda>s. snd (dom_do_dup E a b s))"
| "run_fd_call fuel E (DoPipe2 a b c) = (\<lambda>s. snd (dom_do_pipe2 E a b c s))"

datatype user_call =
    CopyToUser usize "u8 list" | CopyFromUser usize nat | ReadString usize "u8 list"
    | VaddrToPaddr usize | HeapInfo | TokenAndTrapFrame | TrapFramePhyAddr

primrec run_user_call :: "nat \<Rightarrow> ('v, 'h, 'w, 'tf, 'cx) task_env \<Rightarrow> user_call
    \<Rightarrow> ('v, 'h, 'w) tstate \<Rightarrow> ('v, 'h, 'w) tstate" where
  "run_user_call fuel E (CopyToUser a b) = (\<lambda>s. snd (dom_copy_to_user E a b s))"
| "run_user_call fuel E (CopyFromUser a b) = (\<lambda>s. snd (dom_copy_from_user E a b s))"
| "run_user_call fuel E (ReadString a b) = (\<lambda>s. snd (dom_read_string fuel E a b s))"
| "run_user_call fuel E (VaddrToPaddr a) = (\<lambda>s. snd (dom_vaddr_to_paddr E a s))"
| "run_user_call fuel E HeapInfo = (\<lambda>s. snd (dom_heap_info E s))"
| "run_user_call fuel E TokenAndTrapFrame = (\<lambda>s. snd (dom_token_and_trap_frame E s))"
| "run_user_call fuel E TrapFramePhyAddr = (\<lambda>s. snd (dom_trap_frame_phy_addr E s))"

datatype id_call =
    CurrentPid | CurrentPpid | CurrentPgid | CurrentSid | SetTidAddress usize | GetPgid nat
    | GetSid nat | SetPgid nat nat | SetSid

primrec run_id_call :: "nat \<Rightarrow> ('v, 'h, 'w, 'tf, 'cx) task_env \<Rightarrow> id_call
    \<Rightarrow> ('v, 'h, 'w) tstate \<Rightarrow> ('v, 'h, 'w) tstate" where
  "run_id_call fuel E CurrentPid = (\<lambda>s. snd (dom_current_pid E s))"
| "run_id_call fuel E CurrentPpid = (\<lambda>s. snd (dom_current_ppid E s))"
| "run_id_call fuel E CurrentPgid = (\<lambda>s. snd (dom_current_pgid E s))"
| "run_id_call fuel E CurrentSid = (\<lambda>s. snd (dom_current_sid E s))"
| "run_id_call fuel E (SetTidAddress a) = (\<lambda>s. snd (dom_set_tid_address E a s))"
| "run_id_call fuel E (GetPgid a) = (\<lambda>s. snd (do_get_pgid E a s))"
| "run_id_call fuel E (GetSid a) = (\<lambda>s. snd (do_get_sid E a s))"
| "run_id_call fuel E (SetPgid a b) = (\<lambda>s. snd (do_set_pgid E a b s))"
| "run_id_call fuel E SetSid = (\<lambda>s. snd (do_set_sid E s))"

datatype signal_call =
    Sigaction u8 usize usize | Sigprocmask usize usize usize | SignalStack usize usize
    | Prlimit nat usize usize usize | SetPriority i32 u32 i32 | GetPriority i32 u32

primrec run_signal_call :: "nat \<Rightarrow> ('v, 'h, 'w, 'tf, 'cx) task_env \<Rightarrow> signal_call
    \<Rightarrow> ('v, 'h, 'w) tstate \<Rightarrow> ('v, 'h, 'w) tstate" where
  "run_signal_call fuel E (Sigaction a b c) = (\<lambda>s. snd (do_sigaction E a b c s))"
| "run_signal_call fuel E (Sigprocmask a b c) = (\<lambda>s. snd (do_sigprocmask E a b c s))"
| "run_signal_call fuel E (SignalStack a b) = (\<lambda>s. snd (do_signal_stack E a b s))"
| "run_signal_call fuel E (Prlimit a b c d) = (\<lambda>s. snd (do_prlimit E a b c d s))"
| "run_signal_call fuel E (SetPriority a b c) = (\<lambda>s. snd (do_set_priority E a b c s))"
| "run_signal_call fuel E (GetPriority a b) = (\<lambda>s. snd (do_get_priority E a b s))"

datatype mm_call =
    DoMmap usize usize u32 u32 nat usize | DoMunmap usize usize | DoMprotect usize usize u32
    | LoadPageFault usize | DoBrk usize | MmapDevice usize usize | VdsoReserve usize u32 u32
    | VdsoMap usize usize u32 "(usize \<times> bool) list"

primrec run_mm_call :: "nat \<Rightarrow> ('v, 'h, 'w, 'tf, 'cx) task_env \<Rightarrow> mm_call
    \<Rightarrow> ('v, 'h, 'w) tstate \<Rightarrow> ('v, 'h, 'w) tstate" where
  "run_mm_call fuel E (DoMmap a b c d e f) = (\<lambda>s. snd (dom_do_mmap E a b c d e f s))"
| "run_mm_call fuel E (DoMunmap a b) = (\<lambda>s. snd (dom_do_munmap E a b s))"
| "run_mm_call fuel E (DoMprotect a b c) = (\<lambda>s. snd (dom_do_mprotect E a b c s))"
| "run_mm_call fuel E (LoadPageFault a) = (\<lambda>s. snd (dom_do_load_page_fault E a s))"
| "run_mm_call fuel E (DoBrk a) = (\<lambda>s. snd (dom_do_brk E a s))"
| "run_mm_call fuel E (MmapDevice a b) = (\<lambda>s. snd (dom_mmap_device E a b s))"
| "run_mm_call fuel E (VdsoReserve a b c) = (\<lambda>s. snd (dom_vdso_reserve E a b c s))"
| "run_mm_call fuel E (VdsoMap a b c d) = (\<lambda>s. snd (dom_vdso_map E a b c d s))"

datatype process_call =
    DoClone usize usize usize usize usize | DoExecve usize usize usize | DoExit u64
    | DoWait4 usize usize u32 | DoFutex usize u32 u32 usize usize u32

primrec run_process_call :: "nat \<Rightarrow> ('v, 'h, 'w, 'tf, 'cx) task_env \<Rightarrow> process_call
    \<Rightarrow> ('v, 'h, 'w) tstate \<Rightarrow> ('v, 'h, 'w) tstate" where
  "run_process_call fuel E (DoClone a b c d e) = (\<lambda>s. snd (dom_do_clone E a b c d e s))"
| "run_process_call fuel E (DoExecve a b c) = (\<lambda>s. snd (dom_do_execve fuel E a b c s))"
| "run_process_call fuel E (DoExit a) = (\<lambda>s. snd (dom_do_exit E a s))"
| "run_process_call fuel E (DoWait4 a b c) = (\<lambda>s. snd (do_wait4 E a b c s))"
| "run_process_call fuel E (DoFutex a b c d e f) = (\<lambda>s. snd (dom_do_futex E a b c d e f s))"

datatype cpu_call =
    SetFsBase usize | GetFsBase | SetGsBase usize | GetGsBase

primrec run_cpu_call :: "nat \<Rightarrow> ('v, 'h, 'w, 'tf, 'cx) task_env \<Rightarrow> cpu_call
    \<Rightarrow> ('v, 'h, 'w) tstate \<Rightarrow> ('v, 'h, 'w) tstate" where
  "run_cpu_call fuel E (SetFsBase a) = (\<lambda>s. snd (dom_set_fs_base E a s))"
| "run_cpu_call fuel E GetFsBase = (\<lambda>s. snd (dom_get_fs_base E s))"
| "run_cpu_call fuel E (SetGsBase a) = (\<lambda>s. snd (dom_set_gs_base E a s))"
| "run_cpu_call fuel E GetGsBase = (\<lambda>s. snd (dom_get_gs_base E s))"

datatype task_call =
    FdCall fd_call | UserCall user_call | IdCall id_call | SignalCall signal_call | MmCall mm_call | ProcessCall process_call | CpuCall cpu_call

primrec run_call :: "nat \<Rightarrow> ('v, 'h, 'w, 'tf, 'cx) task_env \<Rightarrow> task_call
    \<Rightarrow> ('v, 'h, 'w) tstate \<Rightarrow> ('v, 'h, 'w) tstate" where
  "run_call fuel E (FdCall c) = run_fd_call fuel E c"
| "run_call fuel E (UserCall c) = run_user_call fuel E c"
| "run_call fuel E (IdCall c) = run_id_call fuel E c"
| "run_call fuel E (SignalCall c) = run_signal_call fuel E c"
| "run_call fuel E (MmCall c) = run_mm_call fuel E c"
| "run_call fuel E (ProcessCall c) = run_process_call fuel E c"
| "run_call fuel E (CpuCall c) = run_cpu_call fuel E c"

inductive task_reach :: "nat \<Rightarrow> ('v, 'h, 'w, 'tf, 'cx) task_env \<Rightarrow> ('v, 'h, 'w) tstate \<Rightarrow> bool"
  for fuel E where
  start: "task_reach fuel E (snd (init_task fuel E (boot E w)))"
| call: "task_reach fuel E s \<Longrightarrow> task_reach fuel E (run_call fuel E c s)"
| world: "task_reach fuel E s \<Longrightarrow> task_reach fuel E (s\<lparr>ts_world := w\<rparr>)"

section \<open>Every call keeps the invariant\<close>

lemma stable_small [stable_intros]:
  "stable (dom_get_fd E fd)" "stable (dom_fs_info E)" "stable (dom_do_umask E u)" "stable (task_get_file t fd)"
  unfolding dom_get_fd_def dom_fs_info_def dom_do_umask_def task_get_file_def Let_def
  by (intro stable_intros; simp)+

lemma stable_user_memory [stable_intros]:
  "stable (dom_copy_to_user E a bs)" "stable (dom_copy_from_user E a n)" "stable (dom_read_string fuel E a bs)"
  "stable (dom_vaddr_to_paddr E a)" "stable (dom_heap_info E)" "stable (dom_token_and_trap_frame E)"
  "stable (dom_trap_frame_phy_addr E)"
  unfolding dom_copy_to_user_def dom_copy_from_user_def dom_read_string_def dom_vaddr_to_paddr_def dom_heap_info_def
    dom_token_and_trap_frame_def dom_trap_frame_phy_addr_def Let_def
  by (intro stable_intros)+

lemma stable_pid_target [stable_intros]: "stable (pid_target E pid)"
  unfolding pid_target_def by (intro stable_intros)

lemma stable_ids [stable_intros]:
  "stable (dom_current_pid E)" "stable (dom_current_ppid E)" "stable (dom_current_pgid E)" "stable (dom_current_sid E)"
  "stable (dom_set_tid_address E a)" "stable (do_get_pgid E pid)" "stable (do_get_sid E pid)"
  "stable (do_set_pgid E pid pgid)" "stable (do_set_sid E)"
  unfolding dom_current_pid_def dom_current_ppid_def dom_current_pgid_def dom_current_sid_def dom_set_tid_address_def
    do_get_pgid_def do_get_sid_def do_set_pgid_def do_set_sid_def Let_def
  by (intro stable_intros; simp)+

lemma stable_signals [stable_intros]:
  "stable (do_sigaction E sig new old)" "stable (do_sigprocmask E how new old)" "stable (do_signal_stack E a b)"
  "stable (do_prlimit E pid resource new old)"
  unfolding do_sigaction_def do_sigprocmask_def do_signal_stack_def do_prlimit_def Let_def
  by (intro stable_intros; simp)+

lemma stable_priority [stable_intros]:
  "stable (parse_priority_target E which who)" "stable (do_set_priority E which who prio)"
  "stable (do_get_priority E which who)"
proof -
  show p: "stable (parse_priority_target E which who)"
    unfolding parse_priority_target_def by (intro stable_intros) (auto split: prio_which.split intro!: stable_intros)
  show "stable (do_set_priority E which who prio)" "stable (do_get_priority E which who)"
    unfolding do_set_priority_def do_get_priority_def Let_def by (intro stable_intros p)+
qed

lemma stable_others [stable_intros]:
  "stable (dom_do_futex E a op val val2 b val3)" "stable (dom_set_fs_base E a)" "stable (dom_get_fs_base E)"
  "stable (dom_set_gs_base E a)" "stable (dom_get_gs_base E)"
  unfolding dom_do_futex_def dom_set_fs_base_def dom_get_fs_base_def dom_set_gs_base_def dom_get_gs_base_def
  by (intro stable_intros)+

definition task_inv :: "('v, 'h, 'w) tstate \<Rightarrow> bool" where
  "task_inv s \<longleftrightarrow> tree_inv s \<and> settled s"

lemma task_inv_skeletal [skeletal_intros]: "skeletal task_inv"
  unfolding task_inv_def [abs_def] by (intro skeletal_intros)

lemma stable_task_inv: "stable m \<Longrightarrow> task_inv s \<Longrightarrow> task_inv (snd (m s))"
  by (rule skeletalD [OF task_inv_skeletal]) (simp_all add: stable_def)

lemma scoped_task_inv:
  assumes "triple tree_inv m (\<lambda>_. tree_inv)" "tree_inv s"
  shows "task_inv (snd (scoped E m s))"
proof -
  obtain r s' where m: "m s = (r, s')" by fastforce
  then have "tree_inv s'" using tripleD [OF assms] by (cases r) auto
  then show ?thesis using m by (simp add: scoped_def task_inv_def reclaim_inv)
qed

lemma scoped_if: "(if b then fail e else scoped E m) s = (if b then (Err e, s) else scoped E m s)"
  by (simp add: act_simps)

text \<open>The calls that are not stable.\<close>

lemma wait_exit_inv:
  assumes "task_inv s" "pick_law (te_pick E)"
  shows "task_inv (snd (dom_do_clone E flags stack ptid tls ctid s))" "task_inv (snd (dom_do_exit E code s))"
    "task_inv (snd (do_wait4 E pid ptr options s))" "task_inv (snd (dom_do_execve fuel E p a b s))"
proof -
  have s: "tree_inv s" using assms(1) by (simp add: task_inv_def)
  show "task_inv (snd (dom_do_clone E flags stack ptid tls ctid s))"
    unfolding dom_do_clone_def by (rule scoped_task_inv [OF do_clone_triple [OF assms(2)] s])
  show "task_inv (snd (dom_do_exit E code s))"
    unfolding dom_do_exit_def by (rule scoped_task_inv [OF do_exit_triple s])
  show "task_inv (snd (do_wait4 E pid ptr options s))"
    unfolding do_wait4_def scoped_if using assms(1) by (simp add: scoped_task_inv [OF wait_round_triple s])
  show "task_inv (snd (dom_do_execve fuel E p a b s))"
    unfolding dom_do_execve_def by (rule scoped_task_inv [OF stable_tree s], intro stable_intros)
qed

lemma descriptor_inv:
  assumes "tree_inv s"
  shows "task_inv (snd (dom_add_fd E inode s))" "task_inv (snd (dom_remove_fd E fd s))"
    "task_inv (snd (dom_set_cwd E inode s))" "task_inv (snd (dom_do_fcntl E fd cmd s))"
    "task_inv (snd (dom_do_dup E fd new_fd s))" "task_inv (snd (dom_do_pipe2 E r w p s))"
proof -
  note sc = scoped_task_inv [OF _ assms]
  show "task_inv (snd (dom_add_fd E inode s))" unfolding dom_add_fd_def by (rule sc [OF descriptor_triples(1)])
  show "task_inv (snd (dom_remove_fd E fd s))" unfolding dom_remove_fd_def by (rule sc [OF descriptor_triples(2)])
  show "task_inv (snd (dom_set_cwd E inode s))" unfolding dom_set_cwd_def by (rule sc [OF set_cwd_triple])
  show "task_inv (snd (dom_do_dup E fd new_fd s))" unfolding dom_do_dup_def by (rule sc [OF descriptor_triples(3)])
  show "task_inv (snd (dom_do_pipe2 E r w p s))" unfolding dom_do_pipe2_def by (rule sc [OF descriptor_triples(5)])
  show "task_inv (snd (dom_do_fcntl E fd cmd s))"
    unfolding dom_do_fcntl_def
    by (rule sc, rule triple_bind [OF stable_tree], intro stable_intros, rule descriptor_triples(4))
qed

lemma memory_inv:
  assumes "tree_inv s"
  shows "task_inv (snd (dom_do_mmap E a n p f fd off s))" "task_inv (snd (dom_do_munmap E a n s))"
    "task_inv (snd (dom_do_mprotect E a n p s))" "task_inv (snd (dom_do_load_page_fault E a s))"
    "task_inv (snd (dom_do_brk E a s))" "task_inv (snd (dom_mmap_device E a b s))"
    "task_inv (snd (dom_vdso_reserve E n p f s))" "task_inv (snd (dom_vdso_map E a n p ds s))"
  unfolding dom_do_mmap_def dom_do_munmap_def dom_do_mprotect_def dom_do_load_page_fault_def dom_do_brk_def
    dom_mmap_device_def dom_vdso_reserve_def dom_vdso_map_def
  by (rule scoped_task_inv [OF mm_triples(1) assms], (rule scoped_task_inv [OF mm_triples(2) assms], erule other_calls_files)+)

lemma run_call_inv:
  assumes "pick_law (te_pick E)" "task_inv s"
  shows "task_inv (run_call fuel E c s)"
proof -
  have s: "tree_inv s" using assms(2) by (simp add: task_inv_def)
  note inv = wait_exit_inv [OF assms(2,1)] descriptor_inv [OF s] memory_inv [OF s] stable_task_inv [OF _ assms(2)]
  show ?thesis
  proof (cases c)
    case (FdCall d) then show ?thesis by (cases d) (auto intro!: inv stable_intros)
  next
    case (UserCall d) then show ?thesis by (cases d) (auto intro!: inv stable_intros)
  next
    case (IdCall d) then show ?thesis by (cases d) (auto intro!: inv stable_intros)
  next
    case (SignalCall d) then show ?thesis by (cases d) (auto intro!: inv stable_intros)
  next
    case (MmCall d) then show ?thesis by (cases d) (auto intro!: inv stable_intros)
  next
    case (ProcessCall d) then show ?thesis by (cases d) (auto intro!: inv stable_intros)
  next
    case (CpuCall d) then show ?thesis by (cases d) (auto intro!: inv stable_intros)
  qed
qed

section \<open>The runs\<close>

lemma boot_inv: "tree_inv (boot E w)"
  by (simp add: tree_inv_def table_ok_def kids_ok_def ids_ok_def files_ok_def boot_def Let_def bt_empty_def held_shims_def)

lemma task_reach_inv:
  assumes "pick_law (te_pick E)" "task_reach fuel E s"
  shows "task_inv s"
  using assms(2)
proof (induction rule: task_reach.induct)
  case (start w)
  show ?case unfolding init_task_def by (rule scoped_task_inv [OF init_task_triple [OF assms(1)] boot_inv])
next
  case (call s c)
  then show ?case using run_call_inv [OF assms(1)] by blast
next
  case (world s w)
  have "skel (s\<lparr>ts_world := w\<rparr>) = skel s" by (simp add: skel_def)
  then show ?case by (rule skeletalD [OF task_inv_skeletal]) (rule world.IH)
qed

end
