(* ===== verification/TaskExit.thy ===== *)
theory TaskExit
  imports TaskRuns
begin

text \<open>
  Leaving and waiting, computed: the state that an exit leaves (its children with the initial
  process), what a wait takes away, and that one after the other hands over the status and leaves
  nothing of the task.
\<close>

unbundle bit_operations_syntax

section \<open>Which tasks survive\<close>

text \<open>A set of tasks that hold each other, from the global table or the initial process, stays.\<close>

lemma drop_tasks_least:
  assumes inv: "tree_inv s" and S: "S \<subseteq> set (ts_live s)"
    and held: "\<And>t. t \<in> S \<Longrightarrow> (\<exists>k. bt_get (ts_global s) k = Some t) \<or> ts_init s = Some t
      \<or> (\<exists>p \<in> S. \<exists>k. bt_get (ti_children (inner_of p s)) k = Some t)"
  shows "S \<subseteq> set (ts_live (drop_tasks s))"
proof -
  have "tree_inv ((sweep ^^ n) s) \<and> ts_global ((sweep ^^ n) s) = ts_global s \<and> ts_init ((sweep ^^ n) s) = ts_init s
      \<and> (\<forall>p. inner_of p ((sweep ^^ n) s) = inner_of p s) \<and> S \<subseteq> set (ts_live ((sweep ^^ n) s))" for n
  proof (induction n)
    case (Suc n)
    then have "S \<subseteq> set (held_tasks ((sweep ^^ n) s))"
      using held by (auto simp: in_held_tasks) blast
    with Suc show ?case by (auto simp: sweep_inv)
  qed (use inv S in simp)
  then show ?thesis by (simp add: drop_tasks_def)
qed

lemma held_drop_tasks: "set (held_tasks (drop_tasks s)) \<subseteq> set (held_tasks s)"
proof
  fix t assume "t \<in> set (held_tasks (drop_tasks s))"
  moreover have "p \<in> set (ts_live s)" if "p \<in> set (ts_live (drop_tasks s))" for p
    using that drop_tasks_keeps(13) by blast
  ultimately show "t \<in> set (held_tasks s)" by (auto simp: held_tasks_def drop_tasks_keeps)
qed

lemma unheld_dropped: "t \<notin> set (held_tasks s) \<Longrightarrow> t \<notin> set (ts_live (drop_tasks s))"
  using drop_tasks_live held_drop_tasks by blast

section \<open>Leaving\<close>

lemma current_run:
  assumes "kn_current_tid (te_sched E) (ts_world s) = (Inr (Some tid), w)" "bt_get (ts_global s) tid = Some t"
  shows "with_current E f s = f t (s\<lparr>ts_world := w\<rparr>)"
  using assms by (simp add: with_current_def current_task_def in_world_def find_task_def act_simps)

text \<open>The state in which the references of an exiting task are dropped.\<close>

definition left_state :: "nat \<Rightarrow> nat \<Rightarrow> i32 \<Rightarrow> ('v, 'h, 'w) tstate \<Rightarrow> ('v, 'h, 'w) tstate" where
  "left_state init c code s =
     set_inner c (\<lambda>i. i\<lparr>ti_status := Terminated\<rparr>)
       ((set_inner c (\<lambda>i. i\<lparr>ti_status := Zombie, ti_exit_code := push_bit 8 (code AND 0xff)\<rparr>)
          (set_inner c (\<lambda>i. i\<lparr>ti_children := bt_empty\<rparr>) (adopt init (ti_children (inner_of c s)) s)))
        \<lparr>ts_global := bt_remove (tk_tid (ts_task s c)) (ts_global s)\<rparr>)"

lemma left_kin:
  "same_but_kin (left_state init c code s) (s\<lparr>ts_global := bt_remove (tk_tid (ts_task s c)) (ts_global s)\<rparr>)"
proof -
  let ?z = "set_inner c (\<lambda>i. i\<lparr>ti_status := Zombie, ti_exit_code := push_bit 8 (code AND 0xff)\<rparr>)
          (set_inner c (\<lambda>i. i\<lparr>ti_children := bt_empty\<rparr>) (adopt init (ti_children (inner_of c s)) s))"
  have g: "same_but_kin (t\<lparr>ts_global := g\<rparr>) (u\<lparr>ts_global := g\<rparr>)" if k: "same_but_kin t u"
    for t u :: "('v, 'h, 'w) tstate" and g
  proof -
    obtain f where f: "t = u\<lparr>ts_task := f\<rparr>" "\<forall>q. tk_tid (f q) = tk_tid (ts_task u q) \<and> tk_pid (f q) = tk_pid (ts_task u q)
          \<and> tk_fds (f q) = tk_fds (ts_task u q) \<and> tk_mmap (f q) = tk_mmap (ts_task u q)
          \<and> ti_fs_info (tk_inner (f q)) = ti_fs_info (inner_of q u)"
      using k unfolding same_but_kin_def by blast
    show ?thesis
      unfolding same_but_kin_def by (rule exI [of _ f]) (use f in \<open>simp add: inner_of_def\<close>)
  qed
  have "same_but_kin ?z s"
    by (rule same_but_kin_trans(2) [OF same_but_kin_set_inner same_but_kin_trans(2) [OF same_but_kin_set_inner adopt_kin]])
      simp_all
  from same_but_kin_trans(2) [OF same_but_kin_set_inner g [OF this]] show ?thesis
    unfolding left_state_def by simp
qed

lemma alive_set_inner:
  assumes "alive t s" "\<And>i. ti_parent (f i) = ti_parent i" "\<And>i. ti_children (f i) = ti_children i"
    "\<And>i. ti_fs_info (f i) = ti_fs_info i"
  shows "alive t (set_inner c f s)"
proof -
  have "stable (upd_inner c f :: (('a, 'b, 'c) tstate, unit) act)" by (rule stable_upd_inner; fact)
  then have "skel (set_inner c f s) = skel s"
    using stableD [of "upd_inner c f" s "Inr ()" "set_inner c f s"] by (simp add: upd_inner_def act_simps)
  then show ?thesis using skeletalD [OF alive_skeletal] assms(1) by blast
qed

lemma left_alive: "alive c s \<Longrightarrow> init \<in> set (ts_live s) \<Longrightarrow> alive c (left_state init c code s)"
proof -
  assume *: "alive c s" "init \<in> set (ts_live s)"
  let ?z = "set_inner c (\<lambda>i. i\<lparr>ti_status := Zombie, ti_exit_code := push_bit 8 (code AND 0xff)\<rparr>)
          (set_inner c (\<lambda>i. i\<lparr>ti_children := bt_empty\<rparr>) (adopt init (ti_children (inner_of c s)) s))"
  have "same_but_kin ?z s"
    by (rule same_but_kin_trans(2) [OF same_but_kin_set_inner same_but_kin_trans(2) [OF same_but_kin_set_inner adopt_kin]])
      simp_all
  note g = same_but_kinD(3) [OF this]
  have "alive c ?z" by (rule alive_set_inner [OF adopt_all [OF *]]) simp_all
  from remove_task_inv [OF this, of "tk_tid (ts_task s c)", unfolded g]
  have "alive c (?z\<lparr>ts_global := bt_remove (tk_tid (ts_task s c)) (ts_global s)\<rparr>)" .
  then show ?thesis unfolding left_state_def by (rule alive_set_inner) simp_all
qed

lemma exit_run:
  assumes inv: "task_inv s"
    and cur: "kn_current_tid (te_sched E) (ts_world s) = (Inr (Some (tk_tid (ts_task s c))), w)"
      "bt_get (ts_global s) (tk_tid (ts_task s c)) = Some c"
    and ok: "tk_pid (ts_task s c) \<noteq> 1" "ts_init s = Some init" "ti_clear_child_tid (inner_of c s) = 0"
  shows "\<exists>w'. snd (dom_do_exit E code s) = (reclaim E (left_state init c (ucast code) (s\<lparr>ts_world := w\<rparr>)))\<lparr>ts_world := w'\<rparr>"
    and "alive c (left_state init c (ucast code) (s\<lparr>ts_world := w\<rparr>))"
proof -
  let ?s = "s\<lparr>ts_world := w\<rparr>" and ?code = "ucast code :: i32"
  let ?l = "left_state init c ?code ?s"
  have "skel ?s = skel s" by (simp add: skel_def)
  moreover have "tree_inv s" using inv by (simp add: task_inv_def)
  ultimately have t: "tree_inv ?s" using skeletalD [OF tree_inv_skeletal(1)] by blast
  have live: "c \<in> set (ts_live s)" "init \<in> set (ts_live s)"
    using \<open>tree_inv s\<close> cur(2) ok(2) by (auto simp: tree_inv_def table_ok_def)
  show l: "alive c ?l" by (rule left_alive) (use t live in \<open>simp_all add: alive_def\<close>)
  have i: "inner_of q ?s = inner_of q s" for q by (simp add: inner_of_def)
  let ?z = "set_inner c (\<lambda>i. i\<lparr>ti_status := Zombie, ti_exit_code := push_bit 8 (?code AND 0xff)\<rparr>)
          (set_inner c (\<lambda>i. i\<lparr>ti_children := bt_empty\<rparr>) (adopt init (ti_children (inner_of c ?s)) ?s))"
  have "same_but_kin ?z ?s"
    by (rule same_but_kin_trans(2) [OF same_but_kin_set_inner same_but_kin_trans(2) [OF same_but_kin_set_inner adopt_kin]])
      simp_all
  note z = same_but_kinD(3) [OF this]
  have clear: "clear_tid E c ?z = (Inr (), ?z)"
    using ok(3) by (simp add: clear_tid_def act_simps inner_of_set_inner adopt_inner i)
  obtain r w' where e: "kn_exit_now (te_sched E) (ts_world (reclaim E ?l)) = (r, w')" by fastforce
  have "snd (do_exit E ?code s) = (reclaim E ?l)\<lparr>ts_world := w'\<rparr>"
    using ok clear e z
    by (simp add: do_exit_def Let_def current_run [OF cur] act_simps upd_inner_def remove_task_def left_state_def inner_of_def
        in_world_def split: sum.split)
  moreover have "reclaim E ((reclaim E ?l)\<lparr>ts_world := w'\<rparr>) = (reclaim E ?l)\<lparr>ts_world := w'\<rparr>"
  proof (rule settled_reclaim)
    have "skel ((reclaim E ?l)\<lparr>ts_world := w'\<rparr>) = skel (reclaim E ?l)" by (simp add: skel_def)
    moreover have "settled (reclaim E ?l)" using l reclaim_inv(2) by blast
    ultimately show "settled ((reclaim E ?l)\<lparr>ts_world := w'\<rparr>)" using skeletalD [OF tree_inv_skeletal(2)] by blast
  qed
  ultimately show "\<exists>w'. snd (dom_do_exit E code s) = (reclaim E ?l)\<lparr>ts_world := w'\<rparr>"
    by (auto simp: dom_do_exit_def scoped_def split: prod.split)
qed

section \<open>Waiting\<close>

lemma find_only:
  assumes "c \<in> set cs" "\<And>d. d \<in> set cs \<Longrightarrow> d = c" "P c"
  shows "find P cs = Some c"
proof (cases cs)
  case (Cons d ds)
  then have "d = c" using assms(2) [of d] by simp
  then show ?thesis using assms(3) Cons by simp
qed (use assms(1) in simp)

lemma of_nat_usize: "i < 2 ^ 64 - 1 \<Longrightarrow> j < 2 ^ 64 - 1 \<Longrightarrow> (of_nat i :: usize) = of_nat j \<Longrightarrow> i = j"
  "i < 2 ^ 64 - 1 \<Longrightarrow> (of_nat i :: usize) \<noteq> - 1"
proof -
  have u: "unat (of_nat n :: usize) = n" if "n < 2 ^ 64 - 1" for n
    using that by (simp add: unat_of_nat)
  show "i < 2 ^ 64 - 1 \<Longrightarrow> j < 2 ^ 64 - 1 \<Longrightarrow> (of_nat i :: usize) = of_nat j \<Longrightarrow> i = j"
    by (metis u)
  show "(of_nat i :: usize) \<noteq> - 1" if "i < 2 ^ 64 - 1"
  proof
    assume "(of_nat i :: usize) = - 1"
    then have "i = unat (- 1 :: usize)" using u [OF that] by simp
    then show False using that by (simp add: unsigned_minus_1_eq_mask mask_eq_exp_minus_1)
  qed
qed

lemma child_only:
  assumes "task_inv s" "p \<in> set (ts_live s)" "bt_get (ti_children (inner_of p s)) (tk_pid (ts_task s c)) = Some c"
    and "\<forall>i \<in> set (ts_tids s). i < 2 ^ 64 - 1" "ti_status (inner_of c s) = Terminated"
  shows "filter_exit_task p (of_nat (tk_pid (ts_task s c))) s = Ok (Some c)"
proof -
  let ?m = "ti_children (inner_of p s)" and ?pid = "\<lambda>d. tk_pid (ts_task s d)"
  have inv: "tree_inv s" using assms(1) by (simp add: task_inv_def)
  then have kids: "bt_wf ?m" "\<And>k d. bt_get ?m k = Some d \<Longrightarrow> d \<in> set (ts_live s) \<and> ?pid d = k"
    using assms(2) by (auto simp: tree_inv_def kids_ok_def)
  have small: "?pid d < 2 ^ 64 - 1" if "d \<in> set (ts_live s)" for d
    using that inv assms(4) by (auto simp: tree_inv_def ids_ok_def)
  define cs where "cs = filter (\<lambda>d. (of_nat (?pid d) :: usize) = of_nat (?pid c) \<or> (of_nat (?pid c) :: usize) = - 1) (bt_values ?m)"
  have c: "c \<in> set (ts_live s)" using kids(2) assms(3) by blast
  have "c \<in> set cs" using assms(3) kids(1) by (auto simp: cs_def in_bt_values)
  moreover have "d = c" if "d \<in> set cs" for d
  proof -
    obtain k where k: "bt_get ?m k = Some d" and e: "(of_nat (?pid d) :: usize) = of_nat (?pid c)"
      using \<open>d \<in> set cs\<close> kids(1) of_nat_usize(2) [OF small [OF c]] by (auto simp: cs_def in_bt_values)
    have "d \<in> set (ts_live s)" "?pid d = k" using kids(2) [OF k] by simp_all
    then have "k = ?pid c" using of_nat_usize(1) [OF small [of d] small [OF c] e] by simp
    then show ?thesis using k assms(3) by simp
  qed
  ultimately have "find (\<lambda>d. ti_status (inner_of d s) = Terminated) cs = Some c"
    by (rule find_only) (assumption, fact assms(5))
  moreover have "cs \<noteq> []" using \<open>c \<in> set cs\<close> by auto
  ultimately show ?thesis by (simp add: filter_exit_task_def cs_def)
qed

text \<open>Taking a child that has exited.\<close>

definition reaped_state :: "nat \<Rightarrow> nat \<Rightarrow> 'v \<Rightarrow> 'w \<Rightarrow> ('v, 'h, 'w) tstate \<Rightarrow> ('v, 'h, 'w) tstate" where
  "reaped_state p c v w s =
     (set_inner p (\<lambda>i. i\<lparr>ti_children := bt_remove (tk_pid (ts_task s c)) (ti_children i)\<rparr>)
        (s\<lparr>ts_obj := (ts_obj s)\<lparr>ob_space := (ob_space (ts_obj s))(tk_space (ts_task s p) := v)\<rparr>\<rparr>))\<lparr>ts_world := w\<rparr>"

lemma reaped_sel:
  "ts_live (reaped_state p c v w s) = ts_live s" "ts_global (reaped_state p c v w s) = ts_global s"
  "ts_init (reaped_state p c v w s) = ts_init s" "tk_pid (ts_task (reaped_state p c v w s) t) = tk_pid (ts_task s t)"
  "tk_tid (ts_task (reaped_state p c v w s) t) = tk_tid (ts_task s t)"
  "ob_space (ts_obj (reaped_state p c v w s)) = (ob_space (ts_obj s))(tk_space (ts_task s p) := v)"
  "ti_children (inner_of t (reaped_state p c v w s)) =
     (if t = p then bt_remove (tk_pid (ts_task s c)) (ti_children (inner_of t s)) else ti_children (inner_of t s))"
  by (simp_all add: reaped_state_def set_inner_def inner_of_def)

lemma reaped_unheld:
  assumes "tree_inv s" "bt_get (ti_children (inner_of p s)) (tk_pid (ts_task s c)) = Some c" "p \<in> set (ts_live s)"
    and "bt_get (ts_global s) (tk_tid (ts_task s c)) = None" "ts_init s \<noteq> Some c"
  shows "c \<notin> set (held_tasks (reaped_state p c v w s))"
proof -
  have "kids_ok s" and table: "table_ok s" using assms(1) by (simp_all add: tree_inv_def)
  then have links: "bt_wf (ti_children (inner_of t s))"
    "bt_get (ti_children (inner_of t s)) k = Some c \<Longrightarrow> tk_pid (ts_task s c) = k \<and> ti_parent (inner_of c s) = Some t"
    if "t \<in> set (ts_live s)" for t k
    using that by (auto simp: kids_ok_def)
  have kids: "k = tk_pid (ts_task s c) \<and> t = p"
    if "t \<in> set (ts_live s)" "bt_get (ti_children (inner_of t s)) k = Some c" for t k
    using links(2) [OF that] links(2) [OF assms(3,2)] by simp
  have "c \<notin> set (bt_values (ts_global s))"
    using table assms(4) by (auto simp: table_ok_def in_bt_values)
  moreover have "c \<notin> set (bt_values (ti_children (inner_of t (reaped_state p c v w s))))" if "t \<in> set (ts_live s)" for t
  proof
    let ?m = "ti_children (inner_of t s)" and ?m' = "ti_children (inner_of t (reaped_state p c v w s))"
    have "bt_wf ?m'" using links(1) [OF that] bt_wf_remove by (auto simp: reaped_sel)
    moreover assume "c \<in> set (bt_values ?m')"
    ultimately obtain k where k: "bt_get ?m' k = Some c" using in_bt_values by metis
    then have "bt_get ?m k = Some c" by (auto simp: reaped_sel bt_get_remove_fun split: if_splits)
    from kids [OF that this] k show False by (simp add: reaped_sel bt_get_remove_fun)
  qed
  ultimately show ?thesis
    using assms(5) by (auto simp: held_tasks_def reaped_sel split: option.splits)
qed

lemma filter_exit_world: "filter_exit_task p pid (s\<lparr>ts_world := w\<rparr>) = filter_exit_task p pid s"
  by (simp add: filter_exit_task_def inner_of_def Let_def)

lemma wait_run:
  fixes s :: "('v, 'h, 'w) tstate" and c :: nat
  defines "pid \<equiv> tk_pid (ts_task s c)" and "tid \<equiv> tk_tid (ts_task s c)"
  assumes inv: "task_inv s" and small: "\<forall>i \<in> set (ts_tids s). i < 2 ^ 64 - 1"
    and p: "bt_get (ts_global s) (tk_tid (ts_task s p)) = Some p"
    and child: "bt_get (ti_children (inner_of p s)) pid = Some c" "ti_status (inner_of c s) = Terminated"
      "bt_get (ts_global s) tid = None" "ts_init s \<noteq> Some c"
    and opts: "options AND NOT (WAIT_ALL (te_consts E)) = 0" "\<not> contains options (WNOWAIT (te_consts E))" "ptr \<noteq> 0"
    and kernel: "kn_current_tid (te_sched E) (ts_world s) = (Inr (Some (tk_tid (ts_task s p))), w1)"
      "kn_is_task_exit (te_sched E) tid w1 = (Inr True, w2)" "kn_remove_task (te_sched E) tid w2 = (Inr (), w3)"
    and written: "vm_write_bytes (so_vm (te_space E)) ptr (pod_bytes pod_u32 (ti_exit_code (inner_of c s)))
        (ob_space (ts_obj s) (tk_space (ts_task s p))) = (Inr (), v)"
  shows "do_wait4 E (of_nat pid) ptr options s = (Inr (Done pid), reclaim E (reaped_state p c v w3 s))"
proof -
  have t: "tree_inv s" using inv by (simp add: task_inv_def)
  then have pl: "p \<in> set (ts_live s)" using p by (auto simp: tree_inv_def table_ok_def)
  have i: "inner_of q (s\<lparr>ts_world := w\<rparr>) = inner_of q s" for q w by (simp add: inner_of_def)
  have f: "filter_exit_task p (of_nat pid) (s\<lparr>ts_world := w1\<rparr>) = Ok (Some c)"
    using child_only [OF inv pl child(1) [unfolded pid_def] small child(2)] by (simp add: filter_exit_world pid_def)
  let ?s1 = "s\<lparr>ts_world := w2\<rparr>"
  have "reap E p c ptr options ?s1 = (Inr pid, reaped_state p c v w3 s)"
  proof -
    have w: "write_val_to_user E p pod_u32 ptr (ti_exit_code (inner_of c ?s1)) ?s1
        = (Inr (), ?s1\<lparr>ts_obj := (ts_obj s)\<lparr>ob_space := (ob_space (ts_obj s))(tk_space (ts_task s p) := v)\<rparr>\<rparr>)"
      using written by (simp add: write_val_to_user_def write_bytes_to_user_def space_write_def in_space_def
          vm_unwrap_def act_simps i)
    have "c \<notin> set (held_tasks (reaped_state p c v w3 s))"
      by (rule reaped_unheld [OF t _ pl]) (use child in \<open>simp_all add: pid_def tid_def\<close>)
    moreover have "reaped_state p c v w3 s = set_inner p (\<lambda>i. i\<lparr>ti_children := bt_remove pid (ti_children i)\<rparr>)
        (?s1\<lparr>ts_obj := (ts_obj s)\<lparr>ob_space := (ob_space (ts_obj s))(tk_space (ts_task s p) := v)\<rparr>\<rparr>)\<lparr>ts_world := w3\<rparr>"
      by (simp add: reaped_state_def set_inner_def pid_def)
    ultimately show ?thesis
      using opts(2,3) kernel(3) w
      by (simp add: reap_def Let_def act_simps upd_inner_def in_world_def tid_def [symmetric] pid_def [symmetric])
        (simp add: set_inner_def act_simps)
  qed
  then show ?thesis
    using opts kernel(2) child(2) f
    by (simp add: do_wait4_def scoped_def wait_round_def Let_def current_run [OF kernel(1) p] act_simps in_world_def
        tid_def [symmetric] i)
qed

lemma left_inner:
  "ti_status (inner_of c (left_state init c code s)) = Terminated"
  "ti_exit_code (inner_of c (left_state init c code s)) = push_bit 8 (code AND 0xff)"
  "q \<noteq> c \<Longrightarrow> ti_children (inner_of q (left_state init c code s)) =
     ti_children (inner_of q (adopt init (ti_children (inner_of c s)) s))"
  "ti_children (inner_of c (left_state init c code s)) = bt_empty"
  "ti_parent (inner_of q (left_state init c code s)) =
     (if q \<in> snd ` set (ti_children (inner_of c s)) then Some init else ti_parent (inner_of q s))"
  by (simp_all add: left_state_def inner_of_set_inner adopt_parent)
    (simp_all add: inner_of_def set_inner_def adopt_parent [unfolded inner_of_def])

text \<open>A child of another task than the one that leaves, alone with its pid, stays where it is.\<close>

lemma left_children:
  assumes inv: "tree_inv s" and live: "c \<in> set (ts_live s)" "p \<in> set (ts_live s)" and "c \<noteq> p"
    and child: "bt_get (ti_children (inner_of p s)) k = Some d"
    and alone: "\<And>t. t \<in> set (ts_live s) \<Longrightarrow> tk_pid (ts_task s t) = k \<Longrightarrow> t = d"
  shows "bt_get (ti_children (inner_of p (left_state init c code s))) k = Some d"
proof -
  have kids: "bt_get (ti_children (inner_of t s)) j = Some q \<Longrightarrow>
      q \<in> set (ts_live s) \<and> tk_pid (ts_task s q) = j \<and> ti_parent (inner_of q s) = Some t" "bt_wf (ti_children (inner_of t s))"
    if "t \<in> set (ts_live s)" for t j q
    using that inv by (auto simp: tree_inv_def kids_ok_def)
  have "bt_get (ti_children (inner_of c s)) k = None"
  proof (rule ccontr)
    assume "bt_get (ti_children (inner_of c s)) k \<noteq> None"
    then obtain q where q: "bt_get (ti_children (inner_of c s)) k = Some q" by blast
    then have "q = d" using kids(1) [OF live(1) q] alone by blast
    then show False using kids(1) [OF live(1) q] kids(1) [OF live(2) child] \<open>c \<noteq> p\<close> by simp
  qed
  then have "map_of (rev (ti_children (inner_of c s))) k = None" by (auto simp: bt_get_def map_of_eq_None_iff)
  then show ?thesis
    using child \<open>c \<noteq> p\<close> adopt_inner(4) [of p init "ti_children (inner_of c s)" s]
    by (cases "p = init") (simp_all add: left_inner adopt_children)
qed

lemma left_task:
  "ts_live (left_state init c code s) = ts_live s" "ts_obj (left_state init c code s) = ts_obj s"
  "ts_tids (left_state init c code s) = ts_tids s" "ts_init (left_state init c code s) = ts_init s"
  "ts_global (left_state init c code s) = bt_remove (tk_tid (ts_task s c)) (ts_global s)"
  "tk_tid (ts_task (left_state init c code s) t) = tk_tid (ts_task s t)"
  "tk_pid (ts_task (left_state init c code s) t) = tk_pid (ts_task s t)"
  by (simp_all add: same_but_kinD [OF left_kin])

lemma adopt_space: "tk_space (ts_task (adopt init cs s) t) = tk_space (ts_task s t)"
  by (induction init cs s rule: adopt.induct) (auto simp: set_inner_def)

lemma left_space: "tk_space (ts_task (left_state init c code s) t) = tk_space (ts_task s t)"
  by (simp add: left_state_def set_inner_def adopt_space)

section \<open>Exit and wait\<close>

text \<open>A child \<open>c\<close> of \<open>p\<close>, not the initial process, with no other thread in its process and no
  address to clear; both are in the table.\<close>

definition lone_child :: "nat \<Rightarrow> nat \<Rightarrow> ('v, 'h, 'w) tstate \<Rightarrow> bool" where
  "lone_child p c s \<longleftrightarrow> c \<noteq> p \<and> bt_get (ts_global s) (tk_tid (ts_task s p)) = Some p
     \<and> bt_get (ts_global s) (tk_tid (ts_task s c)) = Some c
     \<and> bt_get (ti_children (inner_of p s)) (tk_tid (ts_task s c)) = Some c
     \<and> tk_pid (ts_task s c) = tk_tid (ts_task s c) \<and> tk_tid (ts_task s c) \<noteq> 1
     \<and> list_all (\<lambda>t. tk_pid (ts_task s t) = tk_tid (ts_task s c) \<longrightarrow> t = c) (ts_live s)
     \<and> ts_init s \<noteq> None \<and> ts_init s \<noteq> Some c \<and> ti_clear_child_tid (inner_of c s) = 0"

lemma exit_wait:
  fixes s :: "('v, 'h, 'w) tstate" and p c :: nat
  defines "tid \<equiv> tk_tid (ts_task s c)"
  assumes inv: "task_inv s" and small: "\<forall>i \<in> set (ts_tids s). i < 2 ^ 64 - 1"
    and child: "lone_child p c s"
    and exit: "kn_current_tid (te_sched E) (ts_world s) = (Inr (Some tid), w)"
    and wait: "kn_current_tid (te_sched E) w1 = (Inr (Some (tk_tid (ts_task s p))), w2)"
      "kn_is_task_exit (te_sched E) tid w2 = (Inr True, w3)" "kn_remove_task (te_sched E) tid w3 = (Inr (), w4)"
    and opts: "options AND NOT (WAIT_ALL (te_consts E)) = 0" "\<not> contains options (WNOWAIT (te_consts E))" "ptr \<noteq> 0"
    and written: "vm_write_bytes (so_vm (te_space E)) ptr (pod_bytes pod_u32 (push_bit 8 (ucast code AND 0xff)))
        (ob_space (ts_obj s) (tk_space (ts_task s p))) = (Inr (), v)"
  shows "\<exists>s2. do_wait4 E (of_nat tid) ptr options ((snd (dom_do_exit E code s))\<lparr>ts_world := w1\<rparr>) = (Inr (Done tid), s2)
    \<and> ob_space (ts_obj s2) (tk_space (ts_task s p)) = v \<and> c \<notin> set (ts_live s2) \<and> tid \<notin> set (ts_tids s2)
    \<and> bt_get (ts_global s2) tid = None \<and> bt_get (ti_children (inner_of p s2)) tid = None"
proof -
  let ?s = "s\<lparr>ts_world := w\<rparr>"
  obtain init where init: "ts_init s = Some init" using child by (auto simp: lone_child_def)
  define l where "l = left_state init c (ucast code) ?s"
  have c: "c \<noteq> p" "bt_get (ts_global s) (tk_tid (ts_task s p)) = Some p" "bt_get (ts_global s) tid = Some c"
    "bt_get (ti_children (inner_of p s)) tid = Some c" "tk_pid (ts_task s c) = tid" "tk_tid (ts_task s c) = tid" "tid \<noteq> 1"
    "ti_clear_child_tid (inner_of c s) = 0"
    using child by (simp_all only: lone_child_def tid_def simp_thms)
  have "init \<noteq> c" using child init by (simp only: lone_child_def option.inject simp_thms)
  have alone: "q = c" if "q \<in> set (ts_live s)" "tk_pid (ts_task s q) = tid" for q
    using that child c(5) by (simp add: lone_child_def list_all_iff)
  have t: "tree_inv s" using inv by (simp add: task_inv_def)
  then have live: "p \<in> set (ts_live s)" "c \<in> set (ts_live s)" using c by (auto simp: tree_inv_def table_ok_def)
  have i: "inner_of q ?s = inner_of q s" for q by (simp add: inner_of_def)
  have "skel ?s = skel s" by (simp add: skel_def)
  then have ts: "tree_inv ?s" using t skeletalD [OF tree_inv_skeletal(1)] by blast
  obtain w' where s1: "snd (dom_do_exit E code s) = (reclaim E l)\<lparr>ts_world := w'\<rparr>" and al: "alive c l"
    using exit_run [of s E c w init code, OF inv] exit c init unfolding l_def by auto
  define s1 where "s1 = (reclaim E l)\<lparr>ts_world := w1\<rparr>"
  have eq: "(snd (dom_do_exit E code s))\<lparr>ts_world := w1\<rparr> = s1" by (simp add: s1 s1_def)
  have s1_sel: "ts_task s1 = ts_task l" "ts_global s1 = ts_global l" "ts_obj s1 = ts_obj l" "ts_init s1 = ts_init l"
    "ts_live s1 = ts_live (drop_tasks l)" "ts_tids s1 = ts_tids (reclaim E l)" "inner_of q s1 = inner_of q l" for q
    by (simp_all add: s1_def inner_of_def)
  have "skel s1 = skel (reclaim E l)" by (simp add: skel_def s1_def)
  moreover have "task_inv (reclaim E l)" using al by (simp add: task_inv_def reclaim_inv aliveD)
  ultimately have inv1: "task_inv s1" by (rule skeletalD [OF task_inv_skeletal])
  have l_sel: "ts_global l = bt_remove tid (ts_global s)" "ts_obj l = ts_obj s" "ts_live l = ts_live s"
    "tk_tid (ts_task l q) = tk_tid (ts_task s q)" "tk_pid (ts_task l q) = tk_pid (ts_task s q)"
    "tk_space (ts_task l q) = tk_space (ts_task s q)" "ts_tids l = ts_tids s" "ts_init l = Some init" for q
    by (simp_all add: l_def left_task left_space init c(6))
  have kid: "bt_get (ti_children (inner_of p l)) tid = Some c"
    unfolding l_def
    by (rule left_children [OF ts _ _ c(1)]) (use c(4) live in \<open>simp_all add: i alone\<close>)
  have pt: "tk_tid (ts_task s p) \<noteq> tid" using c by auto
  have "{p, c} \<subseteq> set (ts_live (drop_tasks l))"
    by (rule drop_tasks_least) (use al live c kid pt in \<open>auto simp: l_sel\<close>)
  then have live1: "p \<in> set (ts_live s1)" "c \<in> set (ts_live s1)" by (simp_all add: s1_sel)
  let ?s2 = "reclaim E (reaped_state p c v w4 s1)"
  have run: "do_wait4 E (of_nat tid) ptr options s1 = (Inr (Done tid), ?s2)"
  proof -
    have pid: "tk_pid (ts_task s1 c) = tid" "tk_tid (ts_task s1 c) = tid" using c by (simp_all add: s1_sel l_sel)
    have code: "ti_exit_code (inner_of c s1) = push_bit 8 (ucast code AND 0xff)" "ti_status (inner_of c s1) = Terminated"
      by (simp_all add: s1_sel l_def left_inner)
    have "\<forall>i \<in> set (ts_tids s1). i < 2 ^ 64 - 1" using small by (auto simp: s1_sel reclaim_tids l_sel)
    then show ?thesis
      by (rule wait_run [OF inv1, of p c options E ptr w2 w3 w4 v, unfolded pid])
        (use c pt wait opts written kid \<open>init \<noteq> c\<close> code in \<open>simp_all add: s1_sel l_sel\<close>, simp_all add: s1_def)
  qed
  have t1: "tree_inv s1" using inv1 by (simp add: task_inv_def)
  have unheld: "c \<notin> set (held_tasks (reaped_state p c v w4 s1))"
    by (rule reaped_unheld [OF t1]) (use kid live1 c \<open>init \<noteq> c\<close> in \<open>simp_all add: s1_sel l_sel\<close>)
  then have gone: "c \<notin> set (ts_live ?s2)" using unheld_dropped by simp
  have "set (ts_live ?s2) \<subseteq> set (ts_live s)"
  proof -
    have "set (ts_live ?s2) \<subseteq> set (ts_live s1)" using drop_tasks_keeps(13) [of "reaped_state p c v w4 s1"] by (simp add: reaped_sel)
    also have "\<dots> \<subseteq> set (ts_live s)" using drop_tasks_keeps(13) [of l] by (simp add: s1_sel l_sel)
    finally show ?thesis .
  qed
  moreover have "tk_tid (ts_task s q) \<noteq> tid \<and> tk_pid (ts_task s q) \<noteq> tid" if "q \<in> set (ts_live s)" "q \<noteq> c" for q
    using that alone [of q] t live c(6) by (auto simp: tree_inv_def ids_ok_def inj_on_def)
  ultimately have "tid \<notin> set (ts_tids ?s2)"
    using gone by (auto simp: reclaim_tids reaped_sel s1_sel l_sel)
  moreover have "ob_space (ts_obj ?s2) (tk_space (ts_task s p)) = v" by (simp add: reaped_sel s1_sel l_sel)
  moreover have "bt_get (ts_global ?s2) tid = None" by (simp add: reaped_sel s1_sel l_sel)
  moreover have "bt_get (ti_children (inner_of p ?s2)) tid = None"
    using c by (simp add: reaped_sel s1_sel l_sel)
  ultimately show ?thesis using run gone unfolding eq by blast
qed

end
