(* ===== verification/TaskProps.thy ===== *)
theory TaskProps
  imports TaskExit
begin

text \<open>
  What the task domain promises: the invariant of its runs, that an exit followed by a wait hands
  over the status and leaves nothing of the task, that orphans go to the initial process, and that
  a file is closed exactly when its last holder goes. The witnesses run a small kernel and a family
  of four tasks.
\<close>

unbundle bit_operations_syntax

section \<open>A concrete kernel\<close>

text \<open>The world: the current thread, and the identities that were closed. Ids are picked in order.\<close>

type_synonym demo_world = "nat option \<times> u64 list"

definition demo_sched :: "(demo_world, unit) sched_ops" where
  "demo_sched = \<lparr> kn_current_tid = (\<lambda>w. (Ok (fst w), w)), kn_add_one_task = (\<lambda>_ _ _. ret 0x8000), kn_wake = (\<lambda>_. ret ()),
     kn_is_task_exit = (\<lambda>_. ret True), kn_remove_task = (\<lambda>_. ret ()), kn_exit_now = ret (), kn_yield_now = ret (),
     kn_wait_now = ret (), kn_set_priority = (\<lambda>_. ret ()), kn_get_priority = ret 20 \<rparr>"

definition demo_cpu :: "(demo_world, unit) cpu_ops" where
  "demo_cpu = \<lparr> kn_fs_base = ret 0, kn_gs_base = ret 0, kn_set_fs_base = (\<lambda>_. ret ()), kn_set_gs_base = (\<lambda>_. ret ()),
     kn_cpu_id = (\<lambda>_. 0), kn_vdso_map_user = (\<lambda>_. ret 0), kn_now = (\<lambda>_. 0), cx_new_user = (), cx_new_kernel = (),
     cx_set_fs_base = (\<lambda>_ c. c), cx_set_gs_base = (\<lambda>_ c. c) \<rparr>"

definition demo_shim_vfs :: "demo_world shim_vfs" where
  "demo_shim_vfs = \<lparr> sv_open = (\<lambda>_ _ _ _ _. fail EIO), sv_close = (\<lambda>f w. (Ok (), (fst w, snd w @ [f]))),
     sv_getattr = (\<lambda>_. ret (0, 0)), sv_read_at = (\<lambda>_ _ buf. ret (buf, 0)) \<rparr>"

definition demo_space :: "(usize \<Rightarrow> u8, unit) space_ops" where
  "demo_space = \<lparr> so_vm = flat_ops,
     so_clone = \<lparr> co_areas = (\<lambda>_. []), co_clone_with = (\<lambda>_ _ _. \<lparr> va_start = 0, va_end = 0, va_flags = 0, va_frames = [] \<rparr>),
       co_map_equal = (\<lambda>_ _ v. (Inr (), v)), co_trampoline_vaddr = 0 \<rparr>,
     so_read_atomic = (\<lambda>_ _. Some 0), so_root_paddr = (\<lambda>_. 0), so_tf_load = (\<lambda>_ _. ()), so_tf_store = (\<lambda>_ _ v. v),
     tf_new_user = (\<lambda>_ _ _. ()), tf_update_result = (\<lambda>_ _. ()), tf_update_k_sp = (\<lambda>_ _. ()),
     tf_update_user_sp = (\<lambda>_ _. ()), tf_update_tls = (\<lambda>_ _. ()) \<rparr>"

definition demo_env :: "(usize \<Rightarrow> u8, unit, demo_world, unit, unit) task_env" where
  "demo_env = \<lparr> te_sched = demo_sched, te_cpu = demo_cpu, te_vfs = demo_shim_vfs, te_space = demo_space,
     te_elf = \<lparr> ec_mm = sample_cfg, ec_parse = (\<lambda>_. None), ec_utf8 = (\<lambda>_. True), ELF_BASE_RELOCATE = 0x400000,
       ec_USER_STACK_SIZE = 0x50000, TRAP_CONTEXT_BASE = 0x7FFFE000, TRAMPOLINE = 0x7FFFF000, PERCPU_MIRROR_BASE = 0,
       ec_kernel_paddr = (\<lambda>a. Some a) \<rparr>,
     te_arch = \<lparr> ar_validate_interp_path = (\<lambda>_. True), ar_relocate_dyn = (\<lambda>_ _. Ok []), ar_relocate_plt = (\<lambda>_ _. Ok []),
       ar_map_extra_user_regions = ret () \<rparr>,
     te_stack = sample_stack, te_user = riscv64_user demo_space,
     te_sig = \<lparr> sg_new = (), sg_number_ok = (\<lambda>n. n < 65), sg_SIGCHLD = 17, sg_action_size = 32, sg_get_action = (\<lambda>_ _. []),
       sg_set_action = (\<lambda>_ _ h. h), sg_how = (\<lambda>_. None), sg_add = (\<lambda>a b. a OR b), sg_sub = (\<lambda>a b. a AND NOT b) \<rparr>,
     te_pods = \<lparr> pod_rlimit = \<lparr> pod_size = 0, pod_bytes = (\<lambda>_. []), pod_value = (\<lambda>_. \<lparr> rlim_cur = 0, rlim_max = 0 \<rparr>) \<rparr>,
       pod_sigstack = \<lparr> pod_size = 0, pod_bytes = (\<lambda>_. []), pod_value = (\<lambda>_. no_signal_stack) \<rparr>,
       pod_timespec = \<lparr> pod_size = 0, pod_bytes = (\<lambda>_. []), pod_value = (\<lambda>_. 0) \<rparr> \<rparr>,
     te_clone = \<lparr> CLONE_VM = 0x100, CLONE_FILES = 0x400, CLONE_PARENT = 0x8000, CLONE_THREAD = 0x10000,
       CLONE_SETTLS = 0x80000, CLONE_PARENT_SETTID = 0x100000, CLONE_CHILD_CLEARTID = 0x200000,
       CLONE_CHILD_SETTID = 0x1000000, CLONE_ALL = 0x1398500 \<rparr>,
     te_consts = \<lparr> WNOHANG = 1, WNOWAIT = 0x1000000, WAIT_ALL = 0x100000F, VFS_ROOT = 0, VFS_STDIN = 1, VFS_STDOUT = 2,
       EXEC_MODES = (0xFFF, 0x49), MAX_FD = 64, AT_SYSINFO = 32, FUTEX_WAKE = 1, RLIMIT_AS = 9, RLIMIT_STACK = 3,
       RLIMIT_NOFILE = 7, rlimit_of = (\<lambda>r. if r < 16 then Some (unat r) else None) \<rparr>,
     te_pick = (\<lambda>xs. find (\<lambda>i. i \<notin> set xs) [0..<8]), te_futex_op = (\<lambda>_. None), te_fcntl = (\<lambda>_. Some C_DUPFD),
     te_which = (\<lambda>_. Ok PRIO_PROCESS) \<rparr>"

lemma demo_env_sel [simp]:
  "te_sched demo_env = demo_sched" "te_vfs demo_env = demo_shim_vfs" "te_space demo_env = demo_space"
  "te_pick demo_env = (\<lambda>xs. find (\<lambda>i. i \<notin> set xs) [0..<8])" "MAX_FD (te_consts demo_env) = 64"
  "WAIT_ALL (te_consts demo_env) = 0x100000F" "WNOWAIT (te_consts demo_env) = 0x1000000"
  "VFS_ROOT (te_consts demo_env) = 0" "VFS_STDIN (te_consts demo_env) = 1" "VFS_STDOUT (te_consts demo_env) = 2"
  "ec_mm (te_elf demo_env) = sample_cfg" "te_cpu demo_env = demo_cpu"
  by (simp_all add: demo_env_def)

lemma demo_kernel_run [simp]:
  "kn_current_tid demo_sched w = (Ok (fst w), w)" "kn_add_one_task demo_sched t cx a w = (Ok 0x8000, w)"
  "kn_wake demo_sched t w = (Ok (), w)" "kn_is_task_exit demo_sched t w = (Ok True, w)"
  "kn_remove_task demo_sched t w = (Ok (), w)" "kn_exit_now demo_sched w = (Ok (), w)"
  "sv_open demo_shim_vfs p nm n fl md w = (Err EIO, w)" "sv_close demo_shim_vfs f w = (Ok (), (fst w, snd w @ [f]))"
  "so_vm demo_space = flat_ops"
  by (simp_all add: demo_sched_def demo_shim_vfs_def demo_space_def act_simps)

lemma demo_pick: "pick_law (te_pick demo_env)"
  by (auto simp: pick_law_def find_Some_iff)

text \<open>The initial process 2 (pid 1), its child 3 (pid 5), with the child 4 (pid 7), with the child
  5 (pid 9); task 3 has a file open as descriptor 0.\<close>

definition demo_shim :: "nat \<Rightarrow> shim_file" where
  "demo_shim n = \<lparr> shim_ref = n, shim_inode = of_nat n + 7 \<rparr>"

definition demo_member :: "nat \<Rightarrow> nat \<Rightarrow> nat option \<Rightarrow> (nat, nat) btree \<Rightarrow> task" where
  "demo_member n tid parent children =
     process_task n tid 0 ((process_inner demo_env [] tid \<lparr> fc_cwd = demo_shim 0, fc_root = demo_shim 0 \<rparr> (0, 0))
       \<lparr>ti_parent := parent, ti_children := children\<rparr>)"

definition demo_family :: "nat \<Rightarrow> (usize \<Rightarrow> u8, unit, demo_world) tstate" where
  "demo_family current =
     (boot demo_env (Some current, []))
       \<lparr>ts_task := (\<lambda>n. if n = 2 then demo_member 2 1 None [(5, 3)] else if n = 3 then demo_member 3 5 (Some 2) [(7, 4)]
          else if n = 4 then demo_member 4 7 (Some 3) [(9, 5)] else demo_member n 9 (Some 4) []),
        ts_live := [2, 3, 4, 5], ts_next := 6, ts_global := [(1, 2), (5, 3), (7, 4), (9, 5)], ts_init := Some 2,
        ts_tids := [1, 5, 7, 9], ts_shims := [demo_shim 0, demo_shim 1, demo_shim 2], ts_stdio := (demo_shim 0, demo_shim 1),
        ts_obj := (ts_obj (boot demo_env (Some current, [])))
          \<lparr>ob_fds := (\<lambda>n. if n = 3 then snd (fd_insert (demo_shim 2) (fd_new 64)) else fd_new 64)\<rparr>\<rparr>"

lemma demo_shim_sel [simp]: "demo_shim a = demo_shim b \<longleftrightarrow> a = b" "shim_ref (demo_shim a) = a" "shim_inode (demo_shim a) = of_nat a + 7"
  by (auto simp: demo_shim_def)

lemma demo_table:
  "slot_inv (snd (fd_insert f (fd_new 64)))" "slot_map (snd (fd_insert f (fd_new 64))) = [0 \<mapsto> f]"
proof -
  obtain i t where t: "fd_insert f (fd_new 64) = (Ok i, t)" "lowest_free (slot_map (fd_new 64)) i" "slot_map t = [i \<mapsto> f]" "slot_inv t"
    using fdt.insert_law [OF fd_new_spec(1) [of 64], of f] by auto
  moreover have "i = 0" using t(2) by (cases i) (auto simp: lowest_free_def)
  ultimately show "slot_inv (snd (fd_insert f (fd_new 64)))" "slot_map (snd (fd_insert f (fd_new 64))) = [0 \<mapsto> f]"
    by simp_all
qed

lemma demo_member_sel [simp]:
  "tk_tid (demo_member n t p cs) = t" "tk_pid (demo_member n t p cs) = t" "tk_fds (demo_member n t p cs) = n"
  "tk_mmap (demo_member n t p cs) = n" "tk_space (demo_member n t p cs) = n"
  "ti_parent (tk_inner (demo_member n t p cs)) = p" "ti_children (tk_inner (demo_member n t p cs)) = cs"
  "ti_fs_info (tk_inner (demo_member n t p cs)) = \<lparr> fc_cwd = demo_shim 0, fc_root = demo_shim 0 \<rparr>"
  "ti_clear_child_tid (tk_inner (demo_member n t p cs)) = 0" "ti_status (tk_inner (demo_member n t p cs)) = Ready"
  by (simp_all add: demo_member_def process_task_def process_inner_def)

lemma demo_family_sel [simp]:
  "ts_live (demo_family u) = [2, 3, 4, 5]" "ts_next (demo_family u) = 6"
  "ts_global (demo_family u) = [(1, 2), (5, 3), (7, 4), (9, 5)]" "ts_init (demo_family u) = Some 2"
  "ts_tids (demo_family u) = [1, 5, 7, 9]" "ts_shims (demo_family u) = [demo_shim 0, demo_shim 1, demo_shim 2]"
  "ts_stdio (demo_family u) = (demo_shim 0, demo_shim 1)" "ts_world (demo_family u) = (Some u, [])"
  "ts_task (demo_family u) n = (if n = 2 then demo_member 2 1 None [(5, 3)] else if n = 3 then demo_member 3 5 (Some 2) [(7, 4)]
          else if n = 4 then demo_member 4 7 (Some 3) [(9, 5)] else demo_member n 9 (Some 4) [])"
  "ob_fds (ts_obj (demo_family u)) n = (if n = 3 then snd (fd_insert (demo_shim 2) (fd_new 64)) else fd_new 64)"
  "ob_mmap (ts_obj (demo_family u)) n = mmap_new sample_cfg" "ob_space (ts_obj (demo_family u)) n = (\<lambda>_. 0)"
  by (simp_all add: demo_family_def boot_def Let_def flat_ops_def)

lemma demo_family_inv: "task_inv (demo_family u)"
proof -
  have sh: "set (task_shims (demo_family u) n) = (if n = 3 then {demo_shim 0, demo_shim 2} else {demo_shim 0})"
    if "n \<in> {2, 3, 4, 5}" for n
    using that by (auto simp: task_shims_def inner_of_def set_slot_iter demo_table mmap_new_def)
  have "table_ok (demo_family u)" by (auto simp: table_ok_def bt_wf_def split: if_splits)
  moreover have "kids_ok (demo_family u)" by (auto simp: kids_ok_def inner_of_def bt_wf_def split: if_splits)
  moreover have "ids_ok (demo_family u)" by (auto simp: ids_ok_def)
  moreover have "files_ok (demo_family u)" by (auto simp: files_ok_def held_shims_def sh demo_table)
  moreover have "settled (demo_family u)"
    by (auto simp: settled_def held_tasks_def held_shims_def sh bt_values_def inner_of_def)
  ultimately show ?thesis by (simp add: task_inv_def tree_inv_def)
qed

section \<open>The invariant of the runs\<close>

text \<open>C19: in every state that the domain reaches, tasks have distinct ids and exist exactly as long
  as somebody holds them; the global table and the children maps lead to existing tasks with the
  right id, and a child's parent link leads back; the ids taken are those of the tasks, and the
  files open in the VFS domain on behalf of the tasks are exactly those that some task uses.\<close>

theorem task_tree_invariant:
  assumes "pick_law (te_pick E)" "task_reach fuel E s"
  shows "inj_on (\<lambda>t. tk_tid (ts_task s t)) (set (ts_live s))
    \<and> set (ts_live s) = set (held_tasks s)
    \<and> (\<forall>i t. bt_get (ts_global s) i = Some t \<longrightarrow> t \<in> set (ts_live s) \<and> tk_tid (ts_task s t) = i)
    \<and> (\<forall>p \<in> set (ts_live s). \<forall>i c. bt_get (ti_children (inner_of p s)) i = Some c \<longrightarrow>
         c \<in> set (ts_live s) \<and> tk_pid (ts_task s c) = i \<and> ti_parent (inner_of c s) = Some p)
    \<and> set (ts_tids s) = (\<lambda>t. tk_tid (ts_task s t)) ` set (ts_live s) \<union> (\<lambda>t. tk_pid (ts_task s t)) ` set (ts_live s)
    \<and> set (ts_shims s) = set (held_shims s)"
proof -
  have inv: "tree_inv s" "settled s" using task_reach_inv [OF assms] by (simp_all add: task_inv_def)
  then have held: "set (held_tasks s) \<subseteq> set (ts_live s)"
    using in_held_tasks [OF inv(1)] by (auto simp: tree_inv_def table_ok_def kids_ok_def)
  have "set (ts_tids s) = (\<lambda>t. tk_tid (ts_task s t)) ` set (ts_live s) \<union> (\<lambda>t. tk_pid (ts_task s t)) ` set (ts_live s)"
    using inv by (fastforce simp: settled_def tree_inv_def ids_ok_def)
  with inv held show ?thesis
    by (simp add: tree_inv_def table_ok_def kids_ok_def ids_ok_def files_ok_def settled_def subset_antisym)
qed

text \<open>The start without an init program: the kernel thread is made, then the domain panics.\<close>

definition demo_started :: "(usize \<Rightarrow> u8, unit, demo_world) tstate" where
  "demo_started = snd (init_task 0 demo_env (boot demo_env (None, [])))"

lemma new_stdio_ok: "\<exists>fds. fst (new_stdio_fd_table E p) = Ok fds"
proof -
  obtain i1 t1 where 1: "fd_insert (fst p) (fd_new (MAX_FD (te_consts E))) = (Ok i1, t1)" "slot_inv t1"
    using fdt.insertE [OF fd_new_spec(1)] by metis
  obtain i2 t2 where 2: "fd_insert (snd p) t1 = (Ok i2, t2)" "slot_inv t2" using fdt.insertE [OF 1(2)] by metis
  obtain i3 t3 where "fd_insert (snd p) t2 = (Ok i3, t3)" using fdt.insertE [OF 2(2)] by metis
  with 1 2 show ?thesis by (simp add: new_stdio_fd_table_def act_simps)
qed

lemma demo_kthread:
  "\<exists>s. ktread_create demo_env nm (boot demo_env (None, [])) = (Ok (), s) \<and> ts_world s = (None, []) \<and> ts_live s = [2]
     \<and> ts_global s = [(0, 2)] \<and> ts_init s = None"
proof -
  let ?b = "boot demo_env (None, [])"
  obtain fds where fds: "fst (new_stdio_fd_table demo_env (ts_stdio ?b)) = Ok fds" using new_stdio_ok by blast
  have b: "ts_tids ?b = []" "ts_next ?b = 2" "ts_live ?b = []" "ts_global ?b = []" "ts_init ?b = None" "ts_world ?b = (None, [])"
    by (simp_all add: boot_def Let_def bt_empty_def)
  have p: "[0..<8] = 0 # [1..<8]" by (simp add: upt_conv_Cons)
  show ?thesis
    using fds by (simp add: ktread_create_def new_objects_def new_fs_context_def act_simps new_tid_def in_world_def fresh_def
        on_obj_def new_shim_def put_task_def add_task_def Let_def b p process_task_def)
qed

lemma demo_started_live: "ts_live demo_started = [2]"
proof -
  obtain s where s: "ktread_create demo_env [107, 116, 104, 114, 101, 97, 100, 95, 116, 101, 115, 116] (boot demo_env (None, [])) = (Ok (), s)"
    "ts_world s = (None, [])" "ts_live s = [2]" "ts_global s = [(0, 2)]" "ts_init s = None"
    using demo_kthread by blast
  have "s\<lparr>ts_world := (None, [])\<rparr> = s" using s(2) by simp
  then have "init_process 0 demo_env s = (panic, s)"
    using s by (simp add: init_process_def act_simps read_all_def read_all_inner_def current_task_def in_world_def)
  then have d: "demo_started = reclaim demo_env s"
    using s(1) by (simp add: demo_started_def init_task_def scoped_def act_simps)
  have "drop_tasks s = s"
    using s(3,4) by (simp add: drop_tasks_def sweep_def held_tasks_def bt_values_def)
  then show ?thesis unfolding d reclaim_sel using s(3) by simp
qed

theorem task_tree_invariant_witness:
  "ts_live demo_started = [2] \<and> set (ts_tids demo_started) = {tk_tid (ts_task demo_started 2), tk_pid (ts_task demo_started 2)}
   \<and> set (ts_shims demo_started) = set (held_shims demo_started)"
proof -
  have "task_reach 0 demo_env demo_started" unfolding demo_started_def by (rule task_reach.start)
  from task_tree_invariant [OF demo_pick this] show ?thesis unfolding demo_started_live by auto
qed

section \<open>Exit and wait\<close>

text \<open>C20: a child exits and its parent waits for it, with any changes of the kernel and the other
  domains in between. The wait returns the child's pid at once and writes the status \<open>(code & 0xff) << 8\<close>
  to the parent's memory (the assertion that nobody else holds the child does not fail);
  the child is gone afterwards, with its entries in the tables, and its id is free.\<close>

theorem exit_wait_roundtrip:
  assumes "task_inv s" "\<forall>i \<in> set (ts_tids s). i < 2 ^ 64 - 1" "lone_child p c s"
    and "kn_current_tid (te_sched E) (ts_world s) = (Inr (Some (tk_tid (ts_task s c))), w)"
    and "kn_current_tid (te_sched E) w1 = (Inr (Some (tk_tid (ts_task s p))), w2)"
      "kn_is_task_exit (te_sched E) (tk_tid (ts_task s c)) w2 = (Inr True, w3)"
      "kn_remove_task (te_sched E) (tk_tid (ts_task s c)) w3 = (Inr (), w4)"
    and "options AND NOT (WAIT_ALL (te_consts E)) = 0" "\<not> contains options (WNOWAIT (te_consts E))" "ptr \<noteq> 0"
    and "vm_write_bytes (so_vm (te_space E)) ptr (pod_bytes pod_u32 (push_bit 8 (ucast code AND 0xff)))
        (ob_space (ts_obj s) (tk_space (ts_task s p))) = (Inr (), v)"
  shows "\<exists>s2. do_wait4 E (of_nat (tk_tid (ts_task s c))) ptr options ((snd (dom_do_exit E code s))\<lparr>ts_world := w1\<rparr>)
        = (Inr (Done (tk_tid (ts_task s c))), s2)
    \<and> ob_space (ts_obj s2) (tk_space (ts_task s p)) = v \<and> c \<notin> set (ts_live s2) \<and> tk_tid (ts_task s c) \<notin> set (ts_tids s2)
    \<and> bt_get (ts_global s2) (tk_tid (ts_task s c)) = None
    \<and> bt_get (ti_children (inner_of p s2)) (tk_tid (ts_task s c)) = None"
  using exit_wait [OF assms] .

definition status_written :: "usize \<Rightarrow> u8" where
  "status_written = snd (vm_write_bytes flat_ops 0x100 (pod_bytes pod_u32 (push_bit 8 (3 AND 0xff))) (\<lambda>_. 0))"

lemma demo_lone_child: "lone_child 3 4 (demo_family u)"
  by (simp add: lone_child_def inner_of_def)

theorem exit_wait_roundtrip_witness:
  "\<exists>s2. do_wait4 demo_env 7 0x100 0 ((snd (dom_do_exit demo_env 3 (demo_family 7)))\<lparr>ts_world := (Some 5, [])\<rparr>) = (Inr (Done 7), s2)
    \<and> ob_space (ts_obj s2) 3 0x101 = 3 \<and> 4 \<notin> set (ts_live s2) \<and> 7 \<notin> set (ts_tids s2)"
proof -
  have "\<exists>s2. do_wait4 demo_env (of_nat (tk_tid (ts_task (demo_family 7) 4))) 0x100 0
        ((snd (dom_do_exit demo_env 3 (demo_family 7)))\<lparr>ts_world := (Some 5, [])\<rparr>)
        = (Inr (Done (tk_tid (ts_task (demo_family 7) 4))), s2)
    \<and> ob_space (ts_obj s2) (tk_space (ts_task (demo_family 7) 3)) = status_written \<and> 4 \<notin> set (ts_live s2)
    \<and> tk_tid (ts_task (demo_family 7) 4) \<notin> set (ts_tids s2) \<and> bt_get (ts_global s2) (tk_tid (ts_task (demo_family 7) 4)) = None
    \<and> bt_get (ti_children (inner_of 3 s2)) (tk_tid (ts_task (demo_family 7) 4)) = None"
    by (rule exit_wait_roundtrip [OF demo_family_inv _ demo_lone_child])
      (simp_all add: contains_def status_written_def flat_ops_def)
  then obtain s2 where s2: "do_wait4 demo_env 7 0x100 0 ((snd (dom_do_exit demo_env 3 (demo_family 7)))\<lparr>ts_world := (Some 5, [])\<rparr>)
      = (Inr (Done 7), s2)" "ob_space (ts_obj s2) 3 = status_written" "4 \<notin> set (ts_live s2)" "7 \<notin> set (ts_tids s2)"
    by auto
  moreover have "status_written 0x101 = 3"
    by (simp add: status_written_def flat_ops_def pod_u32_def to_ne_bytes_def)
  ultimately show ?thesis by metis
qed

text \<open>C21: the children of a task that exits become children of the initial process, in both
  directions, and go on living.\<close>

theorem exit_orphans:
  assumes "task_inv s" "lone_child p c s" "ts_init s = Some init"
    and "kn_current_tid (te_sched E) (ts_world s) = (Inr (Some (tk_tid (ts_task s c))), w)"
    and "bt_get (ti_children (inner_of c s)) i = Some d" "d \<noteq> c" "s1 = snd (dom_do_exit E code s)"
  shows "bt_get (ti_children (inner_of init s1)) i = Some d \<and> ti_parent (inner_of d s1) = Some init
    \<and> d \<in> set (ts_live s1)"
proof -
  let ?s = "s\<lparr>ts_world := w\<rparr>"
  define l where "l = left_state init c (ucast code) ?s"
  have c: "bt_get (ts_global s) (tk_tid (ts_task s c)) = Some c" "tk_pid (ts_task s c) \<noteq> 1"
    "ti_clear_child_tid (inner_of c s) = 0"
    using assms(2) by (simp_all only: lone_child_def simp_thms)
  have ic: "init \<noteq> c" using assms(2,3) by (simp only: lone_child_def option.inject simp_thms)
  obtain w' where s1: "s1 = (reclaim E l)\<lparr>ts_world := w'\<rparr>" and al: "alive c l"
    using exit_run [of s E c w init code, OF assms(1,4)] c assms(3,7) unfolding l_def by auto
  have i: "inner_of q ?s = inner_of q s" for q by (simp add: inner_of_def)
  have inv: "tree_inv s" using assms(1) by (simp add: task_inv_def)
  then have live: "c \<in> set (ts_live s)" "init \<in> set (ts_live s)" using c assms(3) by (auto simp: tree_inv_def table_ok_def)
  have wf: "bt_wf (ti_children (inner_of c s))" and d: "d \<in> set (ts_live s)"
    using inv live assms(5) by (auto simp: tree_inv_def kids_ok_def)
  have "map_of (rev (ti_children (inner_of c s))) i = Some d"
    using assms(5) map_of_rev_entries [OF wf, of i] by simp
  then have kid: "bt_get (ti_children (inner_of init l)) i = Some d"
    using ic by (simp add: l_def left_inner i adopt_children)
  have "d \<in> snd ` set (ti_children (inner_of c s))"
    using assms(5) by (force simp: bt_get_def dest: map_of_SomeD)
  then have parent: "ti_parent (inner_of d l) = Some init" by (simp add: l_def left_inner i)
  have "{init, d} \<subseteq> set (ts_live (drop_tasks l))"
    by (rule drop_tasks_least) (use al live d kid assms(3) in \<open>auto simp: l_def left_task\<close>)
  then show ?thesis using kid parent by (simp add: s1 inner_of_def)
qed

theorem exit_orphans_witness:
  "bt_get (ti_children (inner_of 2 (snd (dom_do_exit demo_env 3 (demo_family 7))))) 9 = Some 5
   \<and> ti_parent (inner_of 5 (snd (dom_do_exit demo_env 3 (demo_family 7)))) = Some 2
   \<and> 5 \<in> set (ts_live (snd (dom_do_exit demo_env 3 (demo_family 7))))"
  by (rule exit_orphans [OF demo_family_inv demo_lone_child _ _ _ _ refl, where init = 2])
    (simp_all add: inner_of_def)

section \<open>Closing\<close>

text \<open>The state in which a descriptor of \<open>t\<close> has been cleared and nothing has been dropped yet.\<close>

definition fd_cleared :: "nat \<Rightarrow> nat \<Rightarrow> ('v, 'h, 'w) tstate \<Rightarrow> ('v, 'h, 'w) tstate" where
  "fd_cleared t fd s = s\<lparr>ts_obj := (ts_obj s)\<lparr>ob_fds := (ob_fds (ts_obj s))
     (tk_fds (ts_task s t) := snd (fd_remove fd (ob_fds (ts_obj s) (tk_fds (ts_task s t)))))\<rparr>\<rparr>"

lemma fd_cleared_held:
  assumes "alive t s" "slot_map (ob_fds (ts_obj s) (tk_fds (ts_task s t))) fd = Some f"
  shows "set (held_shims s) \<subseteq> insert f (set (held_shims (fd_cleared t fd s)))"
    "held_tasks (fd_cleared t fd s) = held_tasks s"
proof -
  let ?t = "ob_fds (ts_obj s) (tk_fds (ts_task s t))" and ?s = "fd_cleared t fd s"
  have i: "inner_of q ?s = inner_of q s" for q by (simp add: fd_cleared_def inner_of_def)
  obtain u where u: "fd_remove fd ?t = (Ok (Some f), u)" "slot_map u = (slot_map ?t)(fd := None)"
    using fdt.removeE [OF tree_files(2) [OF assms(1)], of fd] assms(2) by metis
  have "ran (slot_map ?t) \<subseteq> insert f (ran (slot_map u))"
    using u(2) assms(2) by (auto simp: ran_def) (metis option.inject)
  then have "set (task_shims s q) \<subseteq> set (task_shims ?s q) \<union> {f}" for q
    using u(1) by (auto simp: task_shims_def set_slot_iter i) (auto simp: fd_cleared_def)
  then have "set (held_shims s) \<subseteq> set (held_shims ?s) \<union> {f}"
    by (rule held_shims_grow [rotated 2]) (simp_all add: fd_cleared_def)
  then show "set (held_shims s) \<subseteq> insert f (set (held_shims ?s))" by auto
  show "held_tasks ?s = held_tasks s" by (simp add: held_tasks_def i) (simp add: fd_cleared_def)
qed

lemma filter_only: "distinct xs \<Longrightarrow> x \<in> set xs \<Longrightarrow> filter (\<lambda>y. y = x) xs = [x]"
  by (induction xs) (auto simp: filter_empty_conv)

text \<open>C22: closing a descriptor answers the identity of its file, and the file is closed in the VFS
  domain exactly when no descriptor, directory or mapping of any task uses it any more; no other file
  is closed.\<close>

theorem remove_fd_closes_last:
  assumes "task_inv s"
    and "kn_current_tid (te_sched E) (ts_world s) = (Inr (Some i), w)" "bt_get (ts_global s) i = Some t"
    and "slot_map (ob_fds (ts_obj s) (tk_fds (ts_task s t))) fd = Some f"
    and "s1 = fd_cleared t fd (s\<lparr>ts_world := w\<rparr>)"
  shows "dom_remove_fd E fd s = (Ok (shim_inode f),
     if f \<in> set (held_shims s1) then s1
     else s1\<lparr>ts_shims := remove1 f (ts_shims s), ts_world := snd (sv_close (te_vfs E) (shim_inode f) w)\<rparr>)"
proof -
  let ?s = "s\<lparr>ts_world := w\<rparr>"
  have "skel ?s = skel s" by (simp add: skel_def)
  then have inv: "tree_inv ?s" "settled ?s"
    using skeletalD [OF task_inv_skeletal _ assms(1)] by (auto simp: task_inv_def)
  then have a: "alive t ?s" using assms(3) by (auto simp: alive_def tree_inv_def table_ok_def)
  have sel: "ts_live s1 = ts_live s" "ts_tids s1 = ts_tids s" "ts_shims s1 = ts_shims s" "ts_task s1 = ts_task s" "ts_world s1 = w"
    unfolding assms(5) by (simp_all add: fd_cleared_def)
  have held: "set (ts_shims s) \<subseteq> insert f (set (held_shims s1))" "held_tasks s1 = held_tasks ?s"
    using fd_cleared_held [OF a, of fd f] assms(4) inv(2) unfolding assms(5) by (auto simp: settled_def)
  obtain u where u: "fd_remove fd (ob_fds (ts_obj s) (tk_fds (ts_task s t))) = (Ok (Some f), u)"
  proof -
    have "slot_inv (ob_fds (ts_obj s) (tk_fds (ts_task s t)))" using tree_files(2) [OF a] by simp
    then show ?thesis using fdt.removeE [where i = fd] assms(4) that by metis
  qed
  have run: "dom_remove_fd E fd s = (Ok (shim_inode f), reclaim E s1)"
    unfolding assms(5)
    by (simp add: dom_remove_fd_def scoped_def current_run [OF assms(2,3)] task_remove_file_def in_fds_def act_simps u
        fd_cleared_def)
  have "sweep s1 = s1"
    unfolding sweep_def using inv(2) by (simp add: sel held(2) settled_def filter_id_conv subset_iff)
  then have "(sweep ^^ n) s1 = s1" for n by (induction n) auto
  then have d: "drop_tasks s1 = s1" by (simp add: drop_tasks_def)
  have t: "drop_tids s1 = s1"
    unfolding drop_tids_def using inv(2) by (simp add: sel settled_def filter_id_conv)
  have distinct: "distinct (ts_shims s)" using inv(1) by (simp add: tree_inv_def files_ok_def distinct_map)
  have f: "f \<in> set (ts_shims s)" using tree_files(3) [OF a] assms(4) by (auto simp: ran_def)
  have "reclaim E s1 = (if f \<in> set (held_shims s1) then s1
     else s1\<lparr>ts_shims := remove1 f (ts_shims s), ts_world := snd (sv_close (te_vfs E) (shim_inode f) w)\<rparr>)"
  proof (cases "f \<in> set (held_shims s1)")
    case True
    then have "filter (\<lambda>g. g \<in> set (held_shims s1)) (ts_shims s) = ts_shims s"
      "filter (\<lambda>g. g \<notin> set (held_shims s1)) (ts_shims s) = []"
      using held(1) by (auto simp: filter_id_conv filter_empty_conv)
    then show ?thesis using True by (simp add: reclaim_def d t drop_shims_def sel)
  next
    case False
    then have "filter (\<lambda>g. g \<in> set (held_shims s1)) (ts_shims s) = filter (\<lambda>g. g \<noteq> f) (ts_shims s)"
      "filter (\<lambda>g. g \<notin> set (held_shims s1)) (ts_shims s) = filter (\<lambda>g. g = f) (ts_shims s)"
      using held(1) by (auto intro!: filter_cong)
    moreover have "filter (\<lambda>g. g \<noteq> f) (ts_shims s) = remove1 f (ts_shims s)"
      using distinct by (simp add: distinct_remove1_removeAll removeAll_filter_not_eq eq_commute)
    moreover have "filter (\<lambda>g. g = f) (ts_shims s) = [f]"
      using filter_only [OF distinct f] .
    ultimately show ?thesis using False by (simp add: reclaim_def d t drop_shims_def sel close_shim_def)
  qed
  with run show ?thesis by simp
qed

text \<open>The file of task 3 has one holder: its inode 9 is closed.\<close>

theorem remove_fd_closes_last_witness:
  "fst (dom_remove_fd demo_env 0 (demo_family 5)) = Ok 9 \<and> ts_shims (snd (dom_remove_fd demo_env 0 (demo_family 5))) = [demo_shim 0, demo_shim 1]
   \<and> ts_world (snd (dom_remove_fd demo_env 0 (demo_family 5))) = (Some 5, [9])"
proof -
  have f: "slot_map (ob_fds (ts_obj (demo_family 5)) (tk_fds (ts_task (demo_family 5) 3))) 0 = Some (demo_shim 2)"
    by (simp add: demo_table)
  have "kn_current_tid (te_sched demo_env) (ts_world (demo_family 5)) = (Inr (Some 5), (Some 5, []))"
    "bt_get (ts_global (demo_family 5)) 5 = Some 3" by simp_all
  note run = remove_fd_closes_last [OF demo_family_inv this f refl]
  let ?s1 = "fd_cleared 3 0 (demo_family 5\<lparr>ts_world := (Some 5, [])\<rparr>)"
  obtain u where u: "fd_remove 0 (snd (fd_insert (demo_shim 2) (fd_new 64))) = (Ok (Some (demo_shim 2)), u)" "slot_map u = Map.empty"
    using fdt.removeE [OF demo_table(1), of 0 "demo_shim 2"] by (auto simp: demo_table)
  have "demo_shim 2 \<notin> set (held_shims ?s1)"
    by (simp add: held_shims_def task_shims_def fd_cleared_def set_slot_iter inner_of_def u mmap_new_def)
  with run show ?thesis by simp
qed

end
