(* ===== verification/SysTask.thy ===== *)
theory SysTask
  imports TaskProps
begin

text \<open>
  The system calls on the task domain (\<open>common/syscall/syscall/src\<close>: \<open>task\<close>, \<open>mm.rs\<close>,
  \<open>signal.rs\<close>, \<open>system.rs\<close>, \<open>time\<close>): what each checks before it calls the domain, and what it makes
  of the answer. They run on the model of the task domain itself. The clock, the generator of
  \<open>oorandom\<close> and the numbers of \<open>basic\<close> and \<open>pconst\<close> are fields of \<open>sys_kernel\<close>.
\<close>

unbundle bit_operations_syntax

section \<open>What the calls are given\<close>

datatype target = RISCV64 | X86_64

datatype clock_id = Monotonic | Realtime | ProcessCputimeId | OtherClock

record sys_numbers =
  P_ALL :: usize
  P_PID :: usize
  WUNTRACED :: u32
  WEXITED :: u32
  WCONTINUED :: u32
  SIG_STOP :: u8
  SIG_KILL :: u8
  SIG_ERR :: u8
  SIGSET_SIZE_IN_BYTE :: usize
  GRND_NONBLOCK :: usize
  GRND_RANDOM :: usize
  CLOCK_FREQ :: usize
  clock_id_of :: "usize \<Rightarrow> clock_id option"
  rusage_ok :: "usize \<Rightarrow> bool"                    \<comment> \<open>\<open>RusageFlag::try_from\<close> succeeds\<close>

text \<open>The bytes of a \<open>SigInfo\<close> are given by its three fields, of a \<open>Rusage\<close> by the default.\<close>

record ('w, 'r) sys_kernel =
  sk_num :: sys_numbers
  sk_target :: target
  sk_siginfo :: "i32 \<times> i32 \<times> i32 \<Rightarrow> u8 list"
  sk_rusage :: "u8 list"
  sk_timespec :: "(usize \<times> usize) pod"
  sk_timeval_now :: "('w, u8 list) act"
  sk_read_timer :: "('w, usize) act"
  sk_time_ns :: "('w, u64) act"
  sk_ticks :: "('w, u64) act"
  sk_now_clock :: "('w, usize) act"               \<comment> \<open>\<open>TimeSpec::now().to_clock()\<close>\<close>
  sk_to_clock :: "usize \<times> usize \<Rightarrow> usize"
  sk_rng_new :: "u64 \<times> u64 \<Rightarrow> 'r"               \<comment> \<open>high and low half of the seed\<close>
  sk_rng_u64 :: "'r \<Rightarrow> u64 \<times> 'r"

text \<open>The calls that hand a value to the caller write its bytes.\<close>

definition dom_write_val :: "('v, 'h, 'w, 'tf, 'cx) task_env \<Rightarrow> 'a pod \<Rightarrow> usize \<Rightarrow> 'a \<Rightarrow> (('v, 'h, 'w) tstate, unit) act" where
  "dom_write_val E p ptr v = dom_copy_to_user E ptr (pod_bytes p v)"

definition dom_read_val :: "('v, 'h, 'w, 'tf, 'cx) task_env \<Rightarrow> 'a pod \<Rightarrow> usize \<Rightarrow> (('v, 'h, 'w) tstate, 'a) act" where
  "dom_read_val E p ptr = bind (dom_copy_from_user E ptr (pod_size p)) (\<lambda>bs. ret (pod_value p bs))"

section \<open>Processes\<close>

definition sys_clone :: "('v, 'h, 'w, 'tf, 'cx) task_env \<Rightarrow> usize \<Rightarrow> usize \<Rightarrow> usize \<Rightarrow> usize \<Rightarrow> usize
    \<Rightarrow> (('v, 'h, 'w) tstate, nat) act" where
  "sys_clone E flag stack ptid tls ctid = dom_do_clone E flag stack ptid tls ctid"

definition sys_wait4 :: "('v, 'h, 'w, 'tf, 'cx) task_env \<Rightarrow> usize \<Rightarrow> usize \<Rightarrow> usize
    \<Rightarrow> (('v, 'h, 'w) tstate, nat progress) act" where
  "sys_wait4 E pid status options = do_wait4 E pid status (ucast options)"

definition waitid_options :: "('v, 'h, 'w, 'tf, 'cx) task_env \<Rightarrow> sys_numbers \<Rightarrow> u32" where
  "waitid_options E n = WNOHANG (te_consts E) OR WUNTRACED n OR WEXITED n OR WCONTINUED n OR WNOWAIT (te_consts E)"

definition sys_waitid :: "('v, 'h, 'w, 'tf, 'cx) task_env \<Rightarrow> ('w, 'r) sys_kernel \<Rightarrow> usize \<Rightarrow> usize \<Rightarrow> usize \<Rightarrow> usize
    \<Rightarrow> (('v, 'h, 'w) tstate, nat progress) act" where
  "sys_waitid E K which pid infop options =
     (let n = sk_num K; raw_options = ucast options :: u32 in
      if infop = 0 then fail EFAULT
      else if raw_options AND NOT (waitid_options E n) \<noteq> 0 then fail EINVAL
      else if raw_options AND WEXITED n = 0 then fail EINVAL
      else if which = P_ALL n \<or> which = P_PID n then
        bindp (do_wait4 E (if which = P_ALL n then - 1 else pid) 0 raw_options) (\<lambda>waited_pid.
        bind (dom_copy_to_user E infop (sk_siginfo K
          (if waited_pid = 0 then (0, 0, 0) else (ucast (sg_SIGCHLD (te_sig E)), 0, 1)))) (\<lambda>_. finish 0))
      else fail ENOSYS)"

definition sys_execve :: "nat \<Rightarrow> ('v, 'h, 'w, 'tf, 'cx) task_env \<Rightarrow> usize \<Rightarrow> usize \<Rightarrow> usize
    \<Rightarrow> (('v, 'h, 'w) tstate, nat) act" where
  "sys_execve fuel E filename_ptr argv_ptr envp_ptr = dom_do_execve fuel E filename_ptr argv_ptr envp_ptr"

definition sys_yield :: "('v, 'h, 'w, 'tf, 'cx) task_env \<Rightarrow> (('v, 'h, 'w) tstate, nat) act" where
  "sys_yield E = bind (in_world (kn_yield_now (te_sched E))) (\<lambda>_. ret 0)"

definition sys_set_tid_address :: "('v, 'h, 'w, 'tf, 'cx) task_env \<Rightarrow> usize \<Rightarrow> (('v, 'h, 'w) tstate, nat) act" where
  "sys_set_tid_address E tidptr = dom_set_tid_address E tidptr"

definition sys_umask :: "('v, 'h, 'w, 'tf, 'cx) task_env \<Rightarrow> usize \<Rightarrow> (('v, 'h, 'w) tstate, u32) act" where
  "sys_umask E m = dom_do_umask E (ucast m)"

definition sys_arch_prctl :: "('v, 'h, 'w, 'tf, 'cx) task_env \<Rightarrow> ('w, 'r) sys_kernel \<Rightarrow> usize \<Rightarrow> usize
    \<Rightarrow> (('v, 'h, 'w) tstate, nat) act" where
  "sys_arch_prctl E K code addr = (case sk_target K of
       RISCV64 \<Rightarrow> fail ENOSYS
     | X86_64 \<Rightarrow>
         if code = 0x1002 then bind (dom_set_fs_base E addr) (\<lambda>_. ret 0)
         else if code = 0x1001 then bind (dom_set_gs_base E addr) (\<lambda>_. ret 0)
         else if code = 0x1003 then
           if addr = 0 then fail EFAULT
           else bind (dom_get_fs_base E) (\<lambda>fs_base. bind (dom_copy_to_user E addr (to_ne_bytes fs_base)) (\<lambda>_. ret 0))
         else if code = 0x1004 then
           if addr = 0 then fail EFAULT
           else bind (dom_get_gs_base E) (\<lambda>gs_base. bind (dom_copy_to_user E addr (to_ne_bytes gs_base)) (\<lambda>_. ret 0))
         else fail EINVAL)"

text \<open>\<open>getuid\<close>, \<open>geteuid\<close>, \<open>getgid\<close>, \<open>getegid\<close>: there is one user.\<close>

definition sys_getuid :: "('s, nat) act" where "sys_getuid = ret 0"
definition sys_get_euid :: "('s, nat) act" where "sys_get_euid = ret 0"
definition sys_get_gid :: "('s, nat) act" where "sys_get_gid = ret 0"
definition sys_get_egid :: "('s, nat) act" where "sys_get_egid = ret 0"

definition sys_set_pgid :: "('v, 'h, 'w, 'tf, 'cx) task_env \<Rightarrow> usize \<Rightarrow> usize \<Rightarrow> (('v, 'h, 'w) tstate, nat) act" where
  "sys_set_pgid E pid pgid = do_set_pgid E (unat pid) (unat pgid)"

definition sys_get_pgid :: "('v, 'h, 'w, 'tf, 'cx) task_env \<Rightarrow> usize \<Rightarrow> (('v, 'h, 'w) tstate, nat) act" where
  "sys_get_pgid E pid = do_get_pgid E (unat pid)"

definition sys_get_pgrp :: "('v, 'h, 'w, 'tf, 'cx) task_env \<Rightarrow> (('v, 'h, 'w) tstate, nat) act" where
  "sys_get_pgrp E = dom_current_pgid E"

definition sys_get_sid :: "('v, 'h, 'w, 'tf, 'cx) task_env \<Rightarrow> usize \<Rightarrow> (('v, 'h, 'w) tstate, nat) act" where
  "sys_get_sid E pid = do_get_sid E (unat pid)"

definition sys_set_sid :: "('v, 'h, 'w, 'tf, 'cx) task_env \<Rightarrow> (('v, 'h, 'w) tstate, nat) act" where
  "sys_set_sid E = do_set_sid E"

definition sys_get_pid :: "('v, 'h, 'w, 'tf, 'cx) task_env \<Rightarrow> (('v, 'h, 'w) tstate, nat) act" where
  "sys_get_pid E = dom_current_pid E"

definition sys_get_ppid :: "('v, 'h, 'w, 'tf, 'cx) task_env \<Rightarrow> (('v, 'h, 'w) tstate, nat) act" where
  "sys_get_ppid E = dom_current_ppid E"

definition sys_get_tid :: "('v, 'h, 'w, 'tf, 'cx) task_env \<Rightarrow> (('v, 'h, 'w) tstate, nat) act" where
  "sys_get_tid E = bind (in_world (kn_current_tid (te_sched E))) (\<lambda>tid. lift (unwrap tid))"

definition sys_exit :: "('v, 'h, 'w, 'tf, 'cx) task_env \<Rightarrow> usize \<Rightarrow> (('v, 'h, 'w) tstate, nat) act" where
  "sys_exit E status = dom_do_exit E status"

definition sys_exit_group :: "('v, 'h, 'w, 'tf, 'cx) task_env \<Rightarrow> usize \<Rightarrow> (('v, 'h, 'w) tstate, nat) act" where
  "sys_exit_group E status = dom_do_exit E status"

definition sys_set_priority :: "('v, 'h, 'w, 'tf, 'cx) task_env \<Rightarrow> usize \<Rightarrow> usize \<Rightarrow> usize
    \<Rightarrow> (('v, 'h, 'w) tstate, nat) act" where
  "sys_set_priority E which who prio = bind (do_set_priority E (ucast which) (ucast who) (ucast prio)) (\<lambda>_. ret 0)"

definition sys_get_priority :: "('v, 'h, 'w, 'tf, 'cx) task_env \<Rightarrow> usize \<Rightarrow> usize \<Rightarrow> (('v, 'h, 'w) tstate, usize) act" where
  "sys_get_priority E which who = bind (do_get_priority E (ucast which) (ucast who)) (\<lambda>prio. ret (scast prio))"

definition sys_sigaltstack :: "('v, 'h, 'w, 'tf, 'cx) task_env \<Rightarrow> usize \<Rightarrow> usize \<Rightarrow> (('v, 'h, 'w) tstate, nat) act" where
  "sys_sigaltstack E uss uoss = do_signal_stack E uss uoss"

definition sys_futex :: "('v, 'h, 'w, 'tf, 'cx) task_env \<Rightarrow> usize \<Rightarrow> usize \<Rightarrow> usize \<Rightarrow> usize \<Rightarrow> usize \<Rightarrow> usize
    \<Rightarrow> (('v, 'h, 'w) tstate, nat progress) act" where
  "sys_futex E uaddr futex_op val val2 uaddr2 val3 =
     dom_do_futex E uaddr (ucast futex_op) (ucast val) val2 uaddr2 (ucast val3)"

section \<open>Limits and signals\<close>

definition rlimit_known :: "('v, 'h, 'w, 'tf, 'cx) task_env \<Rightarrow> usize \<Rightarrow> bool" where
  "rlimit_known E resource \<longleftrightarrow> rlimit_of (te_consts E) resource \<noteq> None"

definition sys_prlimit64 :: "('v, 'h, 'w, 'tf, 'cx) task_env \<Rightarrow> usize \<Rightarrow> usize \<Rightarrow> usize \<Rightarrow> usize
    \<Rightarrow> (('v, 'h, 'w) tstate, nat) act" where
  "sys_prlimit64 E pid resource new_limit old_limit =
     (if \<not> rlimit_known E resource then fail EINVAL
      else do_prlimit E (unat pid) resource new_limit old_limit)"

definition sys_getrlimit :: "('v, 'h, 'w, 'tf, 'cx) task_env \<Rightarrow> usize \<Rightarrow> usize \<Rightarrow> (('v, 'h, 'w) tstate, nat) act" where
  "sys_getrlimit E resource old_limit =
     (if \<not> rlimit_known E resource then fail EINVAL
      else if old_limit = 0 then fail EFAULT
      else do_prlimit E 0 resource 0 old_limit)"

definition sys_setrlimit :: "('v, 'h, 'w, 'tf, 'cx) task_env \<Rightarrow> usize \<Rightarrow> usize \<Rightarrow> (('v, 'h, 'w) tstate, nat) act" where
  "sys_setrlimit E resource new_limit =
     (if \<not> rlimit_known E resource then fail EINVAL
      else if new_limit = 0 then fail EFAULT
      else do_prlimit E 0 resource new_limit 0)"

definition sys_getrusage :: "('v, 'h, 'w, 'tf, 'cx) task_env \<Rightarrow> ('w, 'r) sys_kernel \<Rightarrow> usize \<Rightarrow> usize
    \<Rightarrow> (('v, 'h, 'w) tstate, nat) act" where
  "sys_getrusage E K who usage =
     (if \<not> rusage_ok (sk_num K) who then fail EINVAL
      else if usage = 0 then fail EFAULT
      else bind (dom_copy_to_user E usage (sk_rusage K)) (\<lambda>_. ret 0))"

definition sys_madvise :: "usize \<Rightarrow> usize \<Rightarrow> usize \<Rightarrow> ('s, nat) act" where
  "sys_madvise addr len advice = ret 0"

definition sys_sigaction :: "('v, 'h, 'w, 'tf, 'cx) task_env \<Rightarrow> ('w, 'r) sys_kernel \<Rightarrow> usize \<Rightarrow> usize \<Rightarrow> usize \<Rightarrow> usize
    \<Rightarrow> (('v, 'h, 'w) tstate, nat) act" where
  "sys_sigaction E K sig action old_action sig_set_size =
     (let signum = ucast sig :: u8; n = sk_num K in
      if \<not> sg_number_ok (te_sig E) signum then fail EINVAL
      else if signum = SIG_STOP n \<or> signum = SIG_KILL n \<or> signum = SIG_ERR n then fail EINVAL
      else if sig_set_size \<noteq> SIGSET_SIZE_IN_BYTE n then fail EINVAL
      else do_sigaction E signum action old_action)"

definition sys_sigprocmask :: "('v, 'h, 'w, 'tf, 'cx) task_env \<Rightarrow> usize \<Rightarrow> usize \<Rightarrow> usize
    \<Rightarrow> (('v, 'h, 'w) tstate, nat) act" where
  "sys_sigprocmask E how sset oldset =
     (if sg_how (te_sig E) how = None then fail EINVAL else do_sigprocmask E how sset oldset)"

section \<open>Memory\<close>

definition sys_brk :: "('v, 'h, 'w, 'tf, 'cx) task_env \<Rightarrow> usize \<Rightarrow> (('v, 'h, 'w) tstate, usize) act" where
  "sys_brk E addr =
     bind (dom_heap_info E) (\<lambda>(start, current).
     if addr = 0 then ret current
     else if addr < start \<or> addr < current then fail EINVAL
     else dom_do_brk E addr)"

definition sys_mmap :: "('v, 'h, 'w, 'tf, 'cx) task_env \<Rightarrow> usize \<Rightarrow> usize \<Rightarrow> usize \<Rightarrow> usize \<Rightarrow> usize \<Rightarrow> usize
    \<Rightarrow> (('v, 'h, 'w) tstate, usize) act" where
  "sys_mmap E addr len prot flags fd offset =
     (let c = ec_mm (te_elf E) in
      if offset mod FRAME_SIZE c \<noteq> 0 then fail EINVAL
      else let prot = from_bits_truncate (PROT_ALL c) (ucast prot) in
      if \<not> mmap_type_ok c (ucast (ucast flags AND MMAP_TYPE_MASK c)) then fail EINVAL
      else let flags = from_bits_truncate (MAP_ALL c) (ucast flags) in
      if contains flags (MAP_ANONYMOUS c) \<and> offset \<noteq> 0 then fail EINVAL
      else dom_do_mmap E addr len prot flags (unat fd) offset)"

definition sys_unmap :: "('v, 'h, 'w, 'tf, 'cx) task_env \<Rightarrow> usize \<Rightarrow> usize \<Rightarrow> (('v, 'h, 'w) tstate, usize) act" where
  "sys_unmap E addr len = dom_do_munmap E addr len"

definition sys_mprotect :: "('v, 'h, 'w, 'tf, 'cx) task_env \<Rightarrow> usize \<Rightarrow> usize \<Rightarrow> usize
    \<Rightarrow> (('v, 'h, 'w) tstate, usize) act" where
  "sys_mprotect E addr len prot = dom_do_mprotect E addr len (from_bits_truncate (PROT_ALL (ec_mm (te_elf E))) (ucast prot))"

section \<open>Time\<close>

definition timespec_of :: "sys_numbers \<Rightarrow> usize \<Rightarrow> usize \<times> usize" where
  "timespec_of n time = (time div CLOCK_FREQ n, (time mod CLOCK_FREQ n) * 1000000000 div CLOCK_FREQ n)"

definition sys_clock_gettime :: "('v, 'h, 'w, 'tf, 'cx) task_env \<Rightarrow> ('w, 'r) sys_kernel \<Rightarrow> usize \<Rightarrow> usize
    \<Rightarrow> (('v, 'h, 'w) tstate, nat) act" where
  "sys_clock_gettime E K clk_id tp =
     bind (lift (ok_or (clock_id_of (sk_num K) clk_id) EINVAL)) (\<lambda>id. case id of
       OtherClock \<Rightarrow> abort
     | _ \<Rightarrow> bind (in_world (sk_read_timer K)) (\<lambda>time.
            bind (dom_copy_to_user E tp (pod_bytes (sk_timespec K) (timespec_of (sk_num K) time))) (\<lambda>_. ret 0)))"

definition sys_get_time_of_day :: "('v, 'h, 'w, 'tf, 'cx) task_env \<Rightarrow> ('w, 'r) sys_kernel \<Rightarrow> usize
    \<Rightarrow> (('v, 'h, 'w) tstate, nat) act" where
  "sys_get_time_of_day E K tv =
     (if tv \<noteq> 0 then bind (in_world (sk_timeval_now K)) (\<lambda>time. bind (dom_copy_to_user E tv time) (\<lambda>_. ret 0))
      else ret 0)"

text \<open>The loop of \<open>nanosleep\<close>: \<open>Block\<close> is a caller that still sleeps after that many rounds.\<close>

fun nanosleep_loop :: "nat \<Rightarrow> ('v, 'h, 'w, 'tf, 'cx) task_env \<Rightarrow> ('w, 'r) sys_kernel \<Rightarrow> usize
    \<Rightarrow> (('v, 'h, 'w) tstate, unit progress) act" where
  "nanosleep_loop 0 E K deadline = ret Block"
| "nanosleep_loop (Suc fuel) E K deadline =
     bind (in_world (sk_now_clock K)) (\<lambda>now.
     if now \<ge> deadline then finish ()
     else bind (in_world (kn_yield_now (te_sched E))) (\<lambda>_. nanosleep_loop fuel E K deadline))"

definition sys_nanosleep :: "nat \<Rightarrow> ('v, 'h, 'w, 'tf, 'cx) task_env \<Rightarrow> ('w, 'r) sys_kernel \<Rightarrow> usize \<Rightarrow> usize
    \<Rightarrow> (('v, 'h, 'w) tstate, nat progress) act" where
  "sys_nanosleep fuel E K req rem =
     (if req = 0 then fail EFAULT
      else bind (dom_read_val E (sk_timespec K) req) (\<lambda>req_ts.
        if snd req_ts \<ge> 1000000000 then fail EINVAL
        else bind (in_world (sk_now_clock K)) (\<lambda>now.
          bindp (nanosleep_loop fuel E K (saturating_add now (sk_to_clock K req_ts))) (\<lambda>_.
          bind (if rem \<noteq> 0 then dom_write_val E (sk_timespec K) rem (0, 0) else ret ()) (\<lambda>_. finish 0)))))"

section \<open>The system\<close>

definition utsname_field :: "u8 list \<Rightarrow> u8 list" where
  "utsname_field s = s @ replicate (65 - length s) 0"

text \<open>The strings of \<open>system_info\<close>, the machine by target.\<close>

definition machine_name :: "target \<Rightarrow> u8 list" where
  "machine_name t = (case t of X86_64 \<Rightarrow> [120, 56, 54, 95, 54, 52] | RISCV64 \<Rightarrow> [114, 105, 115, 99, 118, 54, 52])"

definition system_info :: "target \<Rightarrow> u8 list" where
  "system_info t = concat (map utsname_field
     [[76, 105, 110, 117, 120], [65, 108, 105, 101, 110], [53, 46, 49], [53, 46, 49], machine_name t,
      [82, 117, 115, 116, 79, 83]])"

definition sys_uname :: "('v, 'h, 'w, 'tf, 'cx) task_env \<Rightarrow> ('w, 'r) sys_kernel \<Rightarrow> usize
    \<Rightarrow> (('v, 'h, 'w) tstate, nat) act" where
  "sys_uname E K utsname = bind (dom_copy_to_user E utsname (system_info (sk_target K))) (\<lambda>_. ret 0)"

text \<open>The random numbers. The state is that of the task domain with \<open>RANDOM_STATE\<close>, the counter of the
  system-call domain.\<close>

definition GOLDEN :: u64 where "GOLDEN = 0x9e3779b97f4a7c15"

definition validate_random_flags :: "sys_numbers \<Rightarrow> usize \<Rightarrow> bool" where
  "validate_random_flags n flags \<longleftrightarrow> flags AND NOT (GRND_NONBLOCK n OR GRND_RANDOM n) = 0"

definition random_length :: "sys_numbers \<Rightarrow> nat \<Rightarrow> usize \<Rightarrow> nat" where
  "random_length n len flags = (if flags AND GRND_RANDOM n \<noteq> 0 then min len 512 else len)"

definition splitmix64 :: "u64 \<Rightarrow> u64" where
  "splitmix64 v =
     (let v = v + GOLDEN;
          mixed = (v XOR drop_bit 30 v) * 0xbf58476d1ce4e5b9;
          mixed = (mixed XOR drop_bit 27 mixed) * 0x94d049bb133111eb
      in mixed XOR drop_bit 31 mixed)"

definition rotate_left :: "nat \<Rightarrow> u64 \<Rightarrow> u64" where
  "rotate_left n v = push_bit n v OR drop_bit (64 - n) v"

definition hardware_entropy :: "('w, 'r) sys_kernel \<Rightarrow> ('w, u64) act" where
  "hardware_entropy K =
     bind (sk_ticks K) (\<lambda>ticks. bind (sk_read_timer K) (\<lambda>timer.
     let mixed = ticks XOR rotate_left 17 timer in ret (mixed XOR rotate_left 31 mixed)))"

definition next_seed :: "('w, 'r) sys_kernel \<Rightarrow> (('v, 'h, 'w) tstate \<times> u64, u64) act" where
  "next_seed K =
     (let world = \<lambda>m. zoom fst (\<lambda>t s. (t, snd s)) (in_world m) in
      bind (world (sk_time_ns K)) (\<lambda>time_ns. bind (world (sk_ticks K)) (\<lambda>ticks. bind (world (sk_read_timer K)) (\<lambda>timer.
      bind get_state (\<lambda>s. let counter = snd s in
      bind (modify_state (\<lambda>s. (fst s, snd s + GOLDEN))) (\<lambda>_.
      let seed = counter XOR rotate_left 13 time_ns XOR rotate_left 7 ticks XOR rotate_left 29 timer in
      bind (case sk_target K of X86_64 \<Rightarrow> bind (world (hardware_entropy K)) (\<lambda>h. ret (seed XOR h))
              | RISCV64 \<Rightarrow> ret seed) (\<lambda>seed.
      ret (if seed = 0 then GOLDEN else seed))))))))"

definition seed_material :: "('w, 'r) sys_kernel \<Rightarrow> (('v, 'h, 'w) tstate \<times> u64, u64 \<times> u64) act" where
  "seed_material K = bind (next_seed K) (\<lambda>seed. ret (seed, splitmix64 (seed XOR GOLDEN)))"

text \<open>\<open>chunks_mut(8)\<close>: the last chunk takes the first bytes of its number.\<close>

function random_chunks :: "('w, 'r) sys_kernel \<Rightarrow> 'r \<Rightarrow> nat \<Rightarrow> u8 list" where
  "random_chunks K rng n =
     (if n = 0 then []
      else case sk_rng_u64 K rng of (v, rng') \<Rightarrow>
        take n (to_ne_bytes v) @ random_chunks K rng' (n - 8))"
  by pat_completeness auto
termination by (relation "measure (\<lambda>(_, _, n). n)") auto

definition sys_random :: "('v, 'h, 'w, 'tf, 'cx) task_env \<Rightarrow> ('w, 'r) sys_kernel \<Rightarrow> usize \<Rightarrow> nat \<Rightarrow> usize
    \<Rightarrow> (('v, 'h, 'w) tstate \<times> u64, nat) act" where
  "sys_random E K buf len flags =
     (if \<not> validate_random_flags (sk_num K) flags then fail EINVAL
      else if len = 0 then ret 0
      else bind (seed_material K) (\<lambda>seed.
        let random_buf = random_chunks K (sk_rng_new K seed) (random_length (sk_num K) len flags) in
        bind (zoom fst (\<lambda>t s. (t, snd s)) (dom_copy_to_user E buf random_buf)) (\<lambda>_. ret (length random_buf))))"

section \<open>The clock\<close>

lemma timespec_exact:
  assumes "0 < unat F" "unat F \<le> 18446744073" "CLOCK_FREQ n = F" "timespec_of n time = (sec, nsec)"
  shows "unat nsec < 10 ^ 9 \<and> unat sec * 10 ^ 9 + unat nsec = unat time * 10 ^ 9 div unat F"
proof -
  define f t where "f = unat F" and "t = unat time"
  have f: "0 < f" "f \<le> 18446744073" using assms by (simp_all add: f_def)
  have less: "t mod f < f" using f by simp
  then have "t mod f * 1000000000 \<le> 18446744073 * 1000000000" using f(2) by (intro mult_right_mono) linarith+
  then have room: "t mod f * 1000000000 < 18446744073709551616" by simp
  have n: "sec = time div F" "nsec = (time mod F) * 1000000000 div F" using assms(3,4) by (simp_all add: timespec_of_def)
  have "unat ((time mod F) * 1000000000) = t mod f * 10 ^ 9"
    using room by (simp add: unat_word_ariths unat_mod_distrib t_def f_def)
  then have nsec: "unat nsec = t mod f * 10 ^ 9 div f" by (simp add: n unat_div_distrib f_def)
  have "t * 10 ^ 9 = (t div f * f + t mod f) * 10 ^ 9" by simp
  also have "\<dots> = t div f * f * 10 ^ 9 + t mod f * 10 ^ 9" by (rule add_mult_distrib)
  also have "\<dots> = t mod f * 10 ^ 9 + t div f * 10 ^ 9 * f" by (simp only: ac_simps)
  finally have "t * 10 ^ 9 div f = t div f * 10 ^ 9 + t mod f * 10 ^ 9 div f" using f(1) by simp
  moreover have "t mod f * 10 ^ 9 div f < 10 ^ 9" using less f(1) by (simp add: div_less_iff_less_mult mult.commute)
  ultimately show ?thesis using nsec n by (simp add: unat_div_distrib t_def f_def)
qed

text \<open>The time that \<open>clock_gettime\<close> writes is the value of the timer in nanoseconds, rounded down,
  as seconds and a remainder below one second; with a clock of at most 18.4 GHz the product does not
  wrap around.\<close>

theorem clock_gettime_exact:
  assumes "0 < unat (CLOCK_FREQ (sk_num K))" "unat (CLOCK_FREQ (sk_num K)) \<le> 18446744073"
    and "sk_read_timer K (ts_world s) = (Ok time, w)"
    and "sys_clock_gettime E K clk_id tp s = (Ok r, s')"
  shows "\<exists>sec nsec. dom_copy_to_user E tp (pod_bytes (sk_timespec K) (sec, nsec)) (s\<lparr>ts_world := w\<rparr>) = (Ok (), s')
    \<and> unat nsec < 10 ^ 9 \<and> unat sec * 10 ^ 9 + unat nsec = unat time * 10 ^ 9 div unat (CLOCK_FREQ (sk_num K))"
proof -
  obtain sec nsec where ts: "timespec_of (sk_num K) time = (sec, nsec)" by fastforce
  have "dom_copy_to_user E tp (pod_bytes (sk_timespec K) (sec, nsec)) (s\<lparr>ts_world := w\<rparr>) = (Ok (), s')"
  proof (cases "clock_id_of (sk_num K) clk_id")
    case None
    then show ?thesis using assms(4) by (simp add: sys_clock_gettime_def act_simps)
  next
    case (Some i)
    have rd: "in_world (sk_read_timer K) s = (Ok time, s\<lparr>ts_world := w\<rparr>)" by (simp add: in_world_def act_simps assms(3))
    obtain x s2 where c: "dom_copy_to_user E tp (pod_bytes (sk_timespec K) (sec, nsec)) (s\<lparr>ts_world := w\<rparr>) = (x, s2)" by fastforce
    show ?thesis
      using assms(4) Some by (cases i; cases x) (simp_all add: sys_clock_gettime_def act_simps rd ts c)
  qed
  then show ?thesis using timespec_exact [OF assms(1,2) refl ts] by blast
qed

text \<open>
  A clock that the kernel reads without side effects and that, while it is below \<open>d\<close>, has moved on
  after any \<open>r\<close> yields of the processor, each of which succeeds. Nothing is said of it from \<open>d\<close> on.
\<close>

definition after_yields :: "('v, 'h, 'w, 'tf, 'cx) task_env \<Rightarrow> nat \<Rightarrow> 'w \<Rightarrow> 'w" where
  "after_yields E n = (\<lambda>w. snd (kn_yield_now (te_sched E) w)) ^^ n"

definition ticking :: "('v, 'h, 'w, 'tf, 'cx) task_env \<Rightarrow> ('w, 'r) sys_kernel \<Rightarrow> ('w \<Rightarrow> usize) \<Rightarrow> usize \<Rightarrow> nat \<Rightarrow> bool" where
  "ticking E K clk d r \<longleftrightarrow> (\<forall>w. sk_now_clock K w = (Ok (clk w), w))
     \<and> (\<forall>w. clk w < d \<longrightarrow> fst (kn_yield_now (te_sched E) w) = Ok () \<and> clk w < clk (after_yields E r w))"

lemma after_yields_simps [simp]:
  "after_yields E 0 w = w" "after_yields E (Suc n) w = after_yields E n (snd (kn_yield_now (te_sched E) w))"
  by (simp add: after_yields_def) (simp only: after_yields_def funpow_Suc_right o_apply)

lemma after_yields_add: "after_yields E (m + n) w = after_yields E m (after_yields E n w)"
  by (simp add: after_yields_def funpow_add)

text \<open>The clock reaches the deadline: every \<open>r\<close> yields it is at least a tick further.\<close>

lemma ticking_reaches:
  assumes "ticking E K clk d r"
  shows "\<exists>n \<le> r * (unat d - unat (clk w)). d \<le> clk (after_yields E n w)"
proof (rule ccontr)
  assume "\<not> ?thesis"
  then have below: "clk (after_yields E n w) < d" if "n \<le> r * (unat d - unat (clk w))" for n
    using that not_le by blast
  have "unat (clk w) + k \<le> unat (clk (after_yields E (r * k) w))" if "k \<le> unat d - unat (clk w)" for k
    using that
  proof (induction k)
    case (Suc k)
    have "r * k \<le> r * (unat d - unat (clk w))" using Suc.prems by (intro mult_le_mono2) simp
    then have "clk (after_yields E (r * k) w) < clk (after_yields E r (after_yields E (r * k) w))"
      using below assms unfolding ticking_def by blast
    then show ?case
      using Suc by (simp add: after_yields_add [symmetric] word_less_nat_alt)
  qed simp
  from this [of "unat d - unat (clk w)"] below [of "r * (unat d - unat (clk w))"]
    below [of 0] show False by (simp add: word_less_nat_alt)
qed

text \<open>The loop ends with the first of these yields after which the clock has reached the deadline.\<close>

lemma nanosleep_loop_rounds:
  assumes "ticking E K clk d r" "\<forall>j < n. clk (after_yields E j (ts_world s)) < d"
    and "d \<le> clk (after_yields E n (ts_world s))" "n < fuel"
  shows "nanosleep_loop fuel E K d s = (Ok (Done ()), s\<lparr>ts_world := after_yields E n (ts_world s)\<rparr>)"
  using assms(2-4)
proof (induction n arbitrary: fuel s)
  case 0
  then obtain f where "fuel = Suc f" by (cases fuel) auto
  then show ?case using 0 assms(1) by (simp add: ticking_def act_simps in_world_def)
next
  case (Suc n)
  obtain f where f: "fuel = Suc f" "n < f" using Suc.prems(3) by (cases fuel) auto
  have low: "clk (ts_world s) < d" using Suc.prems(1) by (metis after_yields_simps(1) zero_less_Suc)
  obtain w where w: "kn_yield_now (te_sched E) (ts_world s) = (Ok (), w)"
    using assms(1) low unfolding ticking_def by (metis prod.collapse)
  have "\<forall>j < n. clk (after_yields E j w) < d"
    using Suc.prems(1) w by (metis Suc_less_eq after_yields_simps(2) snd_conv)
  then show ?case
    using Suc.IH [of "s\<lparr>ts_world := w\<rparr>" f] Suc.prems(2) assms(1) low w f
    by (simp add: ticking_def act_simps in_world_def)
qed

text \<open>C28: A sleeper wakes up, and not too early: over a clock of 64 bits that is at least a tick
  further after every \<open>r\<close> yields until the deadline (the time of the call and the time asked for, or
  the end of the clock), \<open>nanosleep\<close> returns after at most \<open>r\<close> yields for each tick asked for. It
  returns with the first yield that brings the clock to the deadline; a remaining time, where the
  caller wants one, is then written as zero, and the call fails only if that fails.\<close>

theorem nanosleep_wakes:
  assumes "req \<noteq> 0" "dom_read_val E (sk_timespec K) req s0 = (Ok ts, s)" "snd ts < 1000000000"
    and "d = saturating_add (clk (ts_world s)) (sk_to_clock K ts)" "ticking E K clk d r"
    and "r * unat (sk_to_clock K ts) < fuel"
  shows "\<exists>n \<le> r * unat (sk_to_clock K ts).
      d \<le> clk (after_yields E n (ts_world s)) \<and> (\<forall>j < n. clk (after_yields E j (ts_world s)) < d)
    \<and> sys_nanosleep fuel E K req rem s0
        = (let t = s\<lparr>ts_world := after_yields E n (ts_world s)\<rparr> in
           if rem = 0 then (Ok (Done 0), t)
           else case dom_write_val E (sk_timespec K) rem (0, 0) t of
             (Inl e, t') \<Rightarrow> (Inl e, t') | (Inr _, t') \<Rightarrow> (Ok (Done 0), t'))"
proof -
  let ?w = "ts_world s" and ?ticks = "unat (sk_to_clock K ts)"
  have "unat d - unat (clk ?w) \<le> ?ticks"
    using unsigned_less [of d, where ?'a = nat]
    by (cases "unat (clk ?w) + ?ticks < 2 ^ 64") (simp_all add: assms(4) saturating_add_def unat_add_below)
  then have short: "r * (unat d - unat (clk ?w)) \<le> r * ?ticks" by (rule mult_le_mono2)
  obtain m where m: "m \<le> r * (unat d - unat (clk ?w))" "d \<le> clk (after_yields E m ?w)"
    using ticking_reaches [OF assms(5)] by blast
  define n where "n = (LEAST n. d \<le> clk (after_yields E n ?w))"
  have n: "d \<le> clk (after_yields E n ?w)" "n \<le> m" "\<forall>j < n. clk (after_yields E j ?w) < d"
    using m(2) not_less_Least by (auto simp: n_def not_le [symmetric] intro: LeastI Least_le)
  have loop: "nanosleep_loop fuel E K d s = (Ok (Done ()), s\<lparr>ts_world := after_yields E n ?w\<rparr>)"
    by (rule nanosleep_loop_rounds [OF assms(5) n(3,1)]) (use n(2) m(1) short assms(6) in linarith)
  have now: "in_world (sk_now_clock K) s = (Ok (clk ?w), s)"
    using assms(5) by (simp add: ticking_def in_world_def act_simps)
  have "n \<le> r * ?ticks" using n(2) m(1) short by linarith
  with n show ?thesis
    using assms(1-3) loop
    by (intro exI [of _ n])
      (auto simp: sys_nanosleep_def act_simps bindp_def now assms(4) [symmetric] not_le [symmetric] Let_def
        split: prod.split sum.split)
qed

definition demo_numbers :: sys_numbers where
  "demo_numbers = \<lparr> P_ALL = 0, P_PID = 1, WUNTRACED = 2, WEXITED = 4, WCONTINUED = 8, SIG_STOP = 19, SIG_KILL = 9,
     SIG_ERR = 0, SIGSET_SIZE_IN_BYTE = 8, GRND_NONBLOCK = 1, GRND_RANDOM = 2, CLOCK_FREQ = 10000000,
     clock_id_of = (\<lambda>c. if c = 0 then Some Realtime else if c = 1 then Some Monotonic else None), rusage_ok = (\<lambda>r. r = 0) \<rparr>"

text \<open>Two yields of the processor are a tick of the clock.\<close>

definition demo_kernel :: "(demo_world, unit) sys_kernel" where
  "demo_kernel = \<lparr> sk_num = demo_numbers, sk_target = RISCV64, sk_siginfo = (\<lambda>_. []), sk_rusage = [],
     sk_timespec = \<lparr> pod_size = 16, pod_bytes = (\<lambda>t. to_ne_bytes (fst t) @ to_ne_bytes (snd t)), pod_value = (\<lambda>_. (5, 0)) \<rparr>,
     sk_timeval_now = ret [], sk_read_timer = ret 25000000, sk_time_ns = ret 0, sk_ticks = ret 0,
     sk_now_clock = (\<lambda>w. (Ok (of_nat (min (length (snd w) div 2) (2 ^ 64 - 1))), w)), sk_to_clock = fst, sk_rng_new = (\<lambda>_. ()),
     sk_rng_u64 = (\<lambda>_. (7, ())) \<rparr>"

definition ticking_env :: "(usize \<Rightarrow> u8, unit, demo_world, unit, unit) task_env" where
  "ticking_env = demo_env\<lparr>te_sched := demo_sched\<lparr>kn_yield_now := (\<lambda>w. (Ok (), (fst w, snd w @ [0])))\<rparr>\<rparr>"

lemma demo_same_world [simp]: "(demo_family u)\<lparr>ts_world := (Some u, [])\<rparr> = demo_family u"
  by (rule tstate.equality) simp_all

lemma demo_current [simp]:
  "with_current demo_env f (demo_family 5) = f 3 (demo_family 5)"
  "with_current ticking_env f (demo_family 5) = f 3 (demo_family 5)"
  by (simp_all add: with_current_def current_task_def in_world_def act_simps find_task_def ticking_env_def bt_get_def)

lemma demo_user_write: "\<exists>s'. dom_copy_to_user demo_env p bs (demo_family 5) = (Ok (), s')"
  by (simp add: dom_copy_to_user_def write_bytes_to_user_def space_write_def in_space_def act_simps flat_ops_def vm_unwrap_def)

theorem clock_gettime_exact_witness:
  "\<exists>sec nsec s'. dom_copy_to_user demo_env 0x100 (pod_bytes (sk_timespec demo_kernel) (sec, nsec)) (demo_family 5) = (Ok (), s')
    \<and> unat nsec < 10 ^ 9 \<and> unat sec * 10 ^ 9 + unat nsec = 2500000000"
proof -
  have r: "sk_read_timer demo_kernel (ts_world (demo_family 5)) = (Ok 25000000, (Some 5, []))"
    by (simp add: demo_kernel_def act_simps)
  obtain s' where "sys_clock_gettime demo_env demo_kernel 1 0x100 (demo_family 5) = (Ok 0, s')"
    using demo_user_write [where p = "0x100" and bs = "pod_bytes (sk_timespec demo_kernel) (timespec_of (sk_num demo_kernel) 25000000)"] r
    by (auto simp: sys_clock_gettime_def act_simps in_world_def demo_kernel_def demo_numbers_def)
  from clock_gettime_exact [OF _ _ r this] show ?thesis by (fastforce simp: demo_kernel_def demo_numbers_def)
qed

definition demo_clock :: "demo_world \<Rightarrow> usize" where
  "demo_clock w = of_nat (min (length (snd w) div 2) (2 ^ 64 - 1))"

lemma demo_ticking: "ticking ticking_env demo_kernel demo_clock d 2"
proof -
  have yields: "after_yields ticking_env 2 w = (fst w, snd w @ [0, 0])" for w
    by (simp add: numeral_2_eq_2 ticking_env_def)
  have bound: "unat (of_nat (min k (2 ^ 64 - 1)) :: usize) = min k (2 ^ 64 - 1)" for k
    by (simp add: unat_of_nat)
  have "demo_clock w < demo_clock (after_yields ticking_env 2 w)" if "demo_clock w < d" for w
  proof -
    have "unat (demo_clock w) < unat d" using that by (simp add: word_less_nat_alt)
    then have "min (length (snd w) div 2) (2 ^ 64 - 1) < 2 ^ 64 - 1"
      unfolding demo_clock_def bound using unsigned_less [of d, where ?'a = nat] by simp
    then show ?thesis
      unfolding word_less_nat_alt yields demo_clock_def bound by simp
  qed
  moreover have "sk_now_clock demo_kernel w = (Ok (demo_clock w), w)" for w
    by (simp add: demo_kernel_def demo_clock_def)
  moreover have "fst (kn_yield_now (te_sched ticking_env) w) = Ok ()" for w by (simp add: ticking_env_def)
  ultimately show ?thesis unfolding ticking_def by blast
qed

theorem nanosleep_wakes_witness:
  "\<exists>n \<le> 10. 5 \<le> demo_clock (after_yields ticking_env n (Some 5, []))
    \<and> sys_nanosleep 11 ticking_env demo_kernel 0x100 0 (demo_family 5)
        = (Ok (Done 0), (demo_family 5)\<lparr>ts_world := after_yields ticking_env n (Some 5, [])\<rparr>)"
proof -
  have "te_space ticking_env = demo_space" by (simp add: ticking_env_def)
  then have "dom_read_val ticking_env (sk_timespec demo_kernel) 0x100 (demo_family 5) = (Ok (5, 0), demo_family 5)"
    by (simp add: dom_read_val_def dom_copy_from_user_def read_bytes_from_user_def space_read_def in_space_def act_simps
          flat_ops_def demo_kernel_def fun_upd_triv)
  from nanosleep_wakes [OF _ this _ _ demo_ticking, where fuel = 11 and rem = 0] show ?thesis
    by (fastforce simp: demo_kernel_def demo_clock_def saturating_add_def Let_def)
qed

end
