(* ===== verification/SysCall.thy ===== *)
theory SysCall
  imports SysFrame SysTask
begin

text \<open>
  The system-call domain as a whole (\<open>common/syscall/syscall/src\<close>: \<open>lib.rs\<close> and \<open>arch\<close>): its calls on the
  model of the task domain, with the VFS and the other domains as parameters, and the tables that
  lead from a raw number and six arguments to a handler. The state is that of the task domain with
  the counter of \<open>getrandom\<close>.
\<close>

unbundle bit_operations_syntax

section \<open>The system\<close>

text \<open>The other domains act on the world of the task domain. The record \<open>sy_env\<close> carries the VFS
  domain and the numbers; its task trait is not used: the task domain is \<open>sy_task\<close>.\<close>

record ('v, 'h, 'w, 'tf, 'cx, 'st, 'r) system =
  sy_task :: "('v, 'h, 'w, 'tf, 'cx) task_env"
  sy_kern :: "('w, 'r) sys_kernel"
  sy_env :: "('w, 'st) sys_env"
  sy_net :: "'w net_sys option"                 \<comment> \<open>\<open>net_stack_domain\<close>, or what \<open>get_domain\<close> finds\<close>
  sy_gpu :: "'w gpu_trait option"
  sy_inputs :: "'w input_trait list"
  sy_gui :: "('w, 'st) gui_env"
  sy_log :: "('w, unit) act"
  sy_epoll :: "epoll_event pod"
  sy_fuel :: nat
  sy_CLONE_VFORK :: u32

definition lift_data :: "'w data_trait \<Rightarrow> ('v, 'h, 'w) tstate data_trait" where
  "lift_data D = \<lparr>
     vd_read = (\<lambda>f b. in_world (vd_read D f b)), vd_write = (\<lambda>f b n. in_world (vd_write D f b n)),
     vd_read_at = (\<lambda>f off b. in_world (vd_read_at D f off b)), vd_write_at = (\<lambda>f off b n. in_world (vd_write_at D f off b n)),
     vd_ftruncate = (\<lambda>f n. in_world (vd_ftruncate D f n)), vd_fsync = (\<lambda>f. in_world (vd_fsync D f)),
     vd_lseek = (\<lambda>f p. in_world (vd_lseek D f p)), vd_readdir = (\<lambda>f b. in_world (vd_readdir D f b)) \<rparr>"

definition lift_file :: "('w, 'st) file_trait \<Rightarrow> (('v, 'h, 'w) tstate, 'st) file_trait" where
  "lift_file F = \<lparr>
     vd_open = (\<lambda>f b n md fl. in_world (vd_open F f b n md fl)), vd_close = (\<lambda>f. in_world (vd_close F f)),
     vd_getattr = (\<lambda>f. in_world (vd_getattr F f)), vd_statfs = (\<lambda>f. in_world (vd_statfs F f)),
     vd_get_path = (\<lambda>f b. in_world (vd_get_path F f b)), vd_is_dir = (\<lambda>f. in_world (vd_is_dir F f)),
     vd_poll = (\<lambda>f ev. in_world (vd_poll F f ev)), vd_ioctl = (\<lambda>f c p. in_world (vd_ioctl F f c p)),
     vd_do_fcntl = (\<lambda>f c p. in_world (vd_do_fcntl F f c p)) \<rparr>"

definition lift_paths :: "'w path_trait \<Rightarrow> ('v, 'h, 'w) tstate path_trait" where
  "lift_paths Q = \<lparr>
     vd_update_atime = (\<lambda>f a b. in_world (vd_update_atime Q f a b)), vd_update_mtime = (\<lambda>f a b. in_world (vd_update_mtime Q f a b)),
     vd_rename = (\<lambda>f g b n b' n' r c. in_world (vd_rename Q f g b n b' n' r c)), vd_unlink = (\<lambda>f b n c. in_world (vd_unlink Q f b n c)),
     vd_linkat = (\<lambda>f b n g b' n' c. in_world (vd_linkat Q f b n g b' n' c)),
     vd_symlinkat = (\<lambda>b n f b' n'. in_world (vd_symlinkat Q b n f b' n')),
     vd_readlinkat = (\<lambda>f b n b'. in_world (vd_readlinkat Q f b n b')), vd_do_pipe2 = (\<lambda>c. in_world (vd_do_pipe2 Q c)),
     vd_do_poll_create = (\<lambda>c. in_world (vd_do_poll_create Q c)),
     vd_do_poll_ctl = (\<lambda>f c n ev. in_world (vd_do_poll_ctl Q f c n ev)), vd_do_eventfd = (\<lambda>a b. in_world (vd_do_eventfd Q a b)) \<rparr>"

definition lift_net :: "'w net_trait \<Rightarrow> ('v, 'h, 'w) tstate net_trait" where
  "lift_net T = \<lparr>
     nd_socket = (\<lambda>d ty p. in_world (nd_socket T d ty p)), nd_socket_pair = (\<lambda>d ty. in_world (nd_socket_pair T d ty)),
     nd_bind = (\<lambda>i a. in_world (nd_bind T i a)), nd_listen = (\<lambda>i n. in_world (nd_listen T i n)),
     nd_accept = (\<lambda>i. in_world (nd_accept T i)), nd_connect = (\<lambda>i a. in_world (nd_connect T i a)),
     nd_recv_from = (\<lambda>i arg. in_world (nd_recv_from T i arg)), nd_sendto = (\<lambda>i b a. in_world (nd_sendto T i b a)),
     nd_shutdown = (\<lambda>i. in_world (nd_shutdown T i)), nd_remote_addr = (\<lambda>i. in_world (nd_remote_addr T i)),
     nd_local_addr = (\<lambda>i. in_world (nd_local_addr T i)), nd_do_socket = (\<lambda>i. in_world (nd_do_socket T i)),
     nd_socket_id = (\<lambda>f. in_world (nd_socket_id T f)) \<rparr>"

text \<open>The task domain as the trait object that the handlers call.\<close>

definition task_trait_of :: "('v, 'h, 'w, 'tf, 'cx, 'st, 'r) system \<Rightarrow> ('v, 'h, 'w) tstate task_trait" where
  "task_trait_of S = (let E = sy_task S in \<lparr>
     td_read_string = dom_read_string (sy_fuel S) E, td_copy_from_user = dom_copy_from_user E,
     td_copy_to_user = dom_copy_to_user E, td_read_u64 = dom_read_val E pod_usize, td_write_u64 = dom_write_val E pod_usize,
     td_read_epoll = dom_read_val E (sy_epoll S), td_read_timespec = dom_read_val E (sk_timespec (sy_kern S)),
     td_get_fd = dom_get_fd E, td_add_fd = dom_add_fd E, td_remove_fd = dom_remove_fd E, td_fs_info = dom_fs_info E,
     td_set_cwd = dom_set_cwd E, td_do_fcntl = dom_do_fcntl E, td_do_dup = dom_do_dup E, td_do_pipe2 = dom_do_pipe2 E \<rparr>)"

definition system_env :: "('v, 'h, 'w, 'tf, 'cx, 'st, 'r) system \<Rightarrow> (('v, 'h, 'w) tstate, 'st) sys_env" where
  "system_env S = (let B = sy_env S in \<lparr>
     se_task = task_trait_of S, se_data = lift_data (se_data B), se_file = lift_file (se_file B), se_paths = lift_paths (se_paths B),
     se_uninit = se_uninit B, se_utf8 = se_utf8 B, se_abi = se_abi B, se_now = in_world (se_now B), se_to_clock = se_to_clock B,
     se_yield = in_world (se_yield B), se_layout = se_layout B, se_consts = se_consts B, se_path_consts = se_path_consts B \<rparr>)"

definition system_net :: "'w net_sys \<Rightarrow> ('v, 'h, 'w) tstate net_sys" where
  "system_net V = \<lparr> nv_trait = lift_net (nv_trait V), nv_num = nv_num V \<rparr>"

definition system_gui :: "('v, 'h, 'w, 'tf, 'cx, 'st, 'r) system \<Rightarrow> (('v, 'h, 'w) tstate, 'st) gui_env" where
  "system_gui S = (let G = sy_gui S in \<lparr>
     gu_mmap_device = (\<lambda>r. dom_mmap_device (sy_task S) (fst r) (snd r)),
     gu_register_domain = (\<lambda>b t c. in_world (gu_register_domain G b t c)),
     gu_update_domain = (\<lambda>b c t. in_world (gu_update_domain G b c t)),
     gu_type_ok = gu_type_ok G, gu_size = gu_size G, gu_frame_size = gu_frame_size G \<rparr>)"

definition system_gpu :: "'w gpu_trait \<Rightarrow> ('v, 'h, 'w) tstate gpu_trait" where
  "system_gpu g = \<lparr> gp_flush = in_world (gp_flush g), gp_buffer_range = in_world (gp_buffer_range g) \<rparr>"

definition system_input :: "'w input_trait \<Rightarrow> ('v, 'h, 'w) tstate input_trait" where
  "system_input i = \<lparr> id_have_event = in_world (id_have_event i), id_event_block = in_world (id_event_block i) \<rparr>"

section \<open>The calls keep the invariant of the task domain\<close>

definition safe :: "('v, 'h, 'w, 'tf, 'cx) task_env \<Rightarrow> ('v, 'h, 'w) tstate \<Rightarrow> bool" where
  "safe E s \<longleftrightarrow> (pick_law (te_pick E) \<longrightarrow> task_inv s)"

lemma safeI: "(\<And>s. task_inv s \<Longrightarrow> tree_inv s \<Longrightarrow> pick_law (te_pick E) \<Longrightarrow> task_inv (snd (m s))) \<Longrightarrow> keeps (safe E) m"
  by (simp add: keeps_def safe_def task_inv_def)

lemma stable_safe: "stable m \<Longrightarrow> keeps (safe E) m"
  by (auto simp: keeps_def safe_def intro: stable_task_inv)

lemma world_safe [kept_intros]: "keeps (safe E) (in_world m)"
  by (intro stable_safe stable_intros)

lemma task_calls_safe [kept_intros]:
  "keeps (safe E) (dom_read_string n E p buf)" "keeps (safe E) (dom_copy_from_user E p m)" "keeps (safe E) (dom_copy_to_user E p buf)"
  "keeps (safe E) (dom_get_fd E fd)" "keeps (safe E) (dom_fs_info E)"
  by (intro stable_safe stable_intros)+

lemma value_calls_safe [kept_intros]: "keeps (safe E) (dom_read_val E pd p)" "keeps (safe E) (dom_write_val E pd p v)"
  unfolding dom_read_val_def dom_write_val_def by (intro kept_intros)+

lemma descriptor_calls_safe [kept_intros]:
  "keeps (safe E) (dom_add_fd E inode)" "keeps (safe E) (dom_remove_fd E fd)" "keeps (safe E) (dom_set_cwd E inode)"
  "keeps (safe E) (dom_do_fcntl E fd cmd)" "keeps (safe E) (dom_do_dup E fd new_fd)" "keeps (safe E) (dom_do_pipe2 E r w p)"
  by (rule safeI, erule descriptor_inv)+

lemma memory_calls_safe [kept_intros]:
  "keeps (safe E) (dom_do_mmap E a n p f fd off)" "keeps (safe E) (dom_do_munmap E a n)" "keeps (safe E) (dom_do_mprotect E a n p)"
  "keeps (safe E) (dom_do_brk E a)" "keeps (safe E) (dom_mmap_device E a n)"
  by (rule safeI, erule memory_inv)+

lemma process_calls_safe [kept_intros]:
  "keeps (safe E) (dom_do_clone E flags stack ptid tls ctid)" "keeps (safe E) (dom_do_exit E code)"
  "keeps (safe E) (do_wait4 E pid ptr options)" "keeps (safe E) (dom_do_execve fuel E p q r)"
  by (rule safeI, erule wait_exit_inv, assumption)+

interpretation sys: kept_calls "safe (sy_task S)" "system_env S" "system_net V" "system_gui S" for S V
  by unfold_locales
    (simp_all add: system_env_def system_net_def system_gui_def task_trait_of_def lift_data_def lift_file_def lift_paths_def
      lift_net_def Let_def kept_intros)

text \<open>The calls on the task domain itself.\<close>

lemma task_stable_safe [kept_intros]:
  "keeps (safe E) (do_set_pgid E n m)" "keeps (safe E) (do_get_pgid E n)" "keeps (safe E) (dom_current_pgid E)"
  "keeps (safe E) (do_get_sid E n)" "keeps (safe E) (do_set_sid E)" "keeps (safe E) (dom_current_pid E)"
  "keeps (safe E) (dom_current_ppid E)" "keeps (safe E) (dom_set_tid_address E p)" "keeps (safe E) (dom_do_umask E c)"
  "keeps (safe E) (dom_set_fs_base E p)" "keeps (safe E) (dom_get_fs_base E)" "keeps (safe E) (dom_set_gs_base E p)"
  "keeps (safe E) (dom_get_gs_base E)" "keeps (safe E) (do_set_priority E i j k)" "keeps (safe E) (do_get_priority E i j)"
  "keeps (safe E) (do_signal_stack E p q)" "keeps (safe E) (dom_do_futex E p c v p' p'' v')" "keeps (safe E) (do_prlimit E n p q r)"
  "keeps (safe E) (do_sigaction E sig p q)" "keeps (safe E) (do_sigprocmask E p q r)" "keeps (safe E) (dom_heap_info E)"
  by (intro stable_safe stable_intros)+

lemma process_sys_safe [kept_intros]:
  "keeps (safe E) (sys_clone E flag stack ptid tls ctid)" "keeps (safe E) (sys_wait4 E pid status options)"
  "keeps (safe E) (sys_waitid E K which pid infop options)" "keeps (safe E) (sys_execve fuel E p q r)"
  "keeps (safe E) (sys_yield E)" "keeps (safe E) (sys_set_tid_address E p)" "keeps (safe E) (sys_umask E p)"
  "keeps (safe E) (sys_exit E p)" "keeps (safe E) (sys_exit_group E p)" "keeps (safe E) (sys_get_tid E)"
  "keeps (safe E) (sys_futex E p q r p' q' r')" "keeps (safe E) (sys_sigaltstack E p q)"
  unfolding sys_clone_def sys_wait4_def sys_waitid_def sys_execve_def sys_yield_def sys_set_tid_address_def sys_umask_def
    sys_exit_def sys_exit_group_def sys_get_tid_def sys_futex_def sys_sigaltstack_def Let_def
  by (intro kept_intros)+

lemma prctl_safe [kept_intros]: "keeps (safe E) (sys_arch_prctl E K code addr)"
  unfolding sys_arch_prctl_def by (cases "sk_target K"; simp only: target.case) (intro kept_intros)+

lemma id_sys_safe [kept_intros]:
  "keeps (safe E) sys_getuid" "keeps (safe E) sys_get_euid" "keeps (safe E) sys_get_gid" "keeps (safe E) sys_get_egid"
  "keeps (safe E) (sys_set_pgid E p q)" "keeps (safe E) (sys_get_pgid E p)" "keeps (safe E) (sys_get_pgrp E)"
  "keeps (safe E) (sys_get_sid E p)" "keeps (safe E) (sys_set_sid E)" "keeps (safe E) (sys_get_pid E)"
  "keeps (safe E) (sys_get_ppid E)" "keeps (safe E) (sys_set_priority E p q r)" "keeps (safe E) (sys_get_priority E p q)"
  unfolding sys_getuid_def sys_get_euid_def sys_get_gid_def sys_get_egid_def sys_set_pgid_def sys_get_pgid_def
    sys_get_pgrp_def sys_get_sid_def sys_set_sid_def sys_get_pid_def sys_get_ppid_def sys_set_priority_def sys_get_priority_def
  by (intro kept_intros)+

lemma limit_sys_safe [kept_intros]:
  "keeps (safe E) (sys_prlimit64 E p q r r')" "keeps (safe E) (sys_getrlimit E p q)" "keeps (safe E) (sys_setrlimit E p q)"
  "keeps (safe E) (sys_getrusage E K p q)" "keeps (safe E) (sys_madvise p q r)" "keeps (safe E) (sys_sigaction E K p q r r')"
  "keeps (safe E) (sys_sigprocmask E p q r)" "keeps (safe E) (sys_brk E p)" "keeps (safe E) (sys_mmap E p q r p' q' r')"
  "keeps (safe E) (sys_unmap E p q)" "keeps (safe E) (sys_mprotect E p q r)" "keeps (safe E) (sys_uname E K p)"
  unfolding sys_prlimit64_def sys_getrlimit_def sys_setrlimit_def sys_getrusage_def sys_madvise_def sys_sigaction_def
    sys_sigprocmask_def sys_brk_def sys_mmap_def sys_unmap_def sys_mprotect_def sys_uname_def Let_def
  by (intro kept_intros)+

lemma nanosleep_loop_safe [kept_intros]: "keeps (safe E) (nanosleep_loop fuel E K deadline)"
proof (induction fuel)
  case (Suc fuel)
  show ?case unfolding nanosleep_loop.simps by (intro kept_intros Suc)
qed (simp add: keeps_basics)

lemma time_sys_safe [kept_intros]:
  fixes E :: "('v, 'h, 'w, 'tf, 'cx) task_env"
  shows "keeps (safe E) (sys_clock_gettime E K p q)" "keeps (safe E) (sys_get_time_of_day E K p)" "keeps (safe E) (sys_nanosleep fuel E K p q)"
proof -
  have [kept_intros]: "keeps (safe E) (case i of OtherClock \<Rightarrow> abort | _ \<Rightarrow> m)" if "keeps (safe E) m"
    for i and m :: "(('v, 'h, 'w) tstate, nat) act"
    using that by (auto split: clock_id.split)
  show "keeps (safe E) (sys_clock_gettime E K p q)" "keeps (safe E) (sys_get_time_of_day E K p)" "keeps (safe E) (sys_nanosleep fuel E K p q)"
    unfolding sys_clock_gettime_def sys_get_time_of_day_def sys_nanosleep_def by (intro kept_intros)+
qed

section \<open>The tables\<close>

text \<open>The numbers of \<open>basic::constants\<close> by name, grouped by the kind of call. \<open>a i\<close> is the argument
  \<open>args[i]\<close>; the answer is an \<open>isize\<close>.\<close>

type_synonym args = "nat \<Rightarrow> usize"

definition answer :: "('s, nat) act \<Rightarrow> ('s, usize progress) act" where
  "answer m = bind m (\<lambda>n. finish (of_nat n))"

definition answer_word :: "('s, usize) act \<Rightarrow> ('s, usize progress) act" where
  "answer_word m = bind m finish"

definition answer_later :: "('s, nat progress) act \<Rightarrow> ('s, usize progress) act" where
  "answer_later m = bindp m (\<lambda>n. finish (of_nat n))"

lemma answer_kept [kept_intros]:
  "keeps P m \<Longrightarrow> keeps P (answer m)" "keeps P m' \<Longrightarrow> keeps P (answer_word m')" "keeps P m'' \<Longrightarrow> keeps P (answer_later m'')"
  unfolding answer_def answer_word_def answer_later_def by (intro kept_intros; assumption)+

datatype fd_number =
    SYS_EVENTFD2 | SYS_EPOLL_CREATE1 | SYS_EPOLL_CTL | SYS_DUP | SYS_DUP3 | SYS_FCNTL | SYS_IOCTL | SYS_CLOSE | SYS_PIPE2
  | SYS_OPENAT | SYS_PSELECT6 | SYS_PPOLL | SYS_FCHDIR | SYS_CHDIR | SYS_GETCWD | SYS_MOUNT

primrec fd_dispatch :: "('v, 'h, 'w, 'tf, 'cx, 'st, 'r) system \<Rightarrow> fd_number \<Rightarrow> args \<Rightarrow> (('v, 'h, 'w) tstate, usize progress) act" where
  "fd_dispatch S SYS_EVENTFD2 a = answer (sys_eventfd2 (system_env S) (a 0) (a 1))"
| "fd_dispatch S SYS_EPOLL_CREATE1 a = answer (sys_poll_createl (system_env S) (a 0))"
| "fd_dispatch S SYS_EPOLL_CTL a = answer (sys_poll_ctl (system_env S) (unat (a 0)) (a 1) (unat (a 2)) (a 3))"
| "fd_dispatch S SYS_DUP a = answer (sys_dup (system_env S) (unat (a 0)))"
| "fd_dispatch S SYS_DUP3 a = answer (sys_dup3 (system_env S) (unat (a 0)) (unat (a 1)) (a 2))"
| "fd_dispatch S SYS_FCNTL a = answer_word (sys_fcntl (system_env S) (unat (a 0)) (a 1) (a 2))"
| "fd_dispatch S SYS_IOCTL a = answer (sys_ioctl (system_env S) (unat (a 0)) (a 1) (a 2))"
| "fd_dispatch S SYS_CLOSE a = answer (sys_close (system_env S) (unat (a 0)))"
| "fd_dispatch S SYS_PIPE2 a = answer (sys_pipe2 (system_env S) (a 0) (a 1))"
| "fd_dispatch S SYS_OPENAT a = answer (sys_openat (system_env S) (a 0) (a 1) (a 2) (a 3))"
| "fd_dispatch S SYS_PSELECT6 a = answer_later (sys_pselect6 (sy_fuel S) (system_env S)
     \<lparr> sa_nfds = unat (a 0), sa_readfds = a 1, sa_writefds = a 2, sa_exceptfds = a 3 \<rparr> (a 4))"
| "fd_dispatch S SYS_PPOLL a = answer_later (sys_ppoll (sy_fuel S) (system_env S) (a 0) (unat (a 1)) (a 2) (a 3))"
| "fd_dispatch S SYS_FCHDIR a = answer (sys_fchdir (system_env S) (unat (a 0)))"
| "fd_dispatch S SYS_CHDIR a = answer (sys_chdir (system_env S) (a 0))"
| "fd_dispatch S SYS_GETCWD a = answer_word (sys_getcwd (system_env S) (a 0) (unat (a 1)))"
| "fd_dispatch S SYS_MOUNT a = answer (sys_mount (a 0) (a 1) (a 2) (a 3) (a 4))"

datatype data_number =
    SYS_PREAD64 | SYS_PWRITE64 | SYS_FTRUNCATE | SYS_TRUNCATE | SYS_GETDENTS64 | SYS_LSEEK | SYS_READ | SYS_WRITE | SYS_READV
  | SYS_WRITEV | SYS_SENDFILE | SYS_FSTAT | SYS_FSYNC | SYS_FSTATFS

primrec data_dispatch :: "('v, 'h, 'w, 'tf, 'cx, 'st, 'r) system \<Rightarrow> data_number \<Rightarrow> args \<Rightarrow> (('v, 'h, 'w) tstate, usize progress) act" where
  "data_dispatch S SYS_PREAD64 a = answer_later (sys_pread64 (system_env S) (unat (a 0)) (a 1) (unat (a 2)) (a 3))"
| "data_dispatch S SYS_PWRITE64 a = answer_later (sys_pwrite64 (system_env S) (unat (a 0)) (a 1) (unat (a 2)) (a 3))"
| "data_dispatch S SYS_FTRUNCATE a = answer (sys_ftruncate (system_env S) (unat (a 0)) (a 1))"
| "data_dispatch S SYS_TRUNCATE a = answer (sys_truncate (system_env S) (a 0) (a 1))"
| "data_dispatch S SYS_GETDENTS64 a = answer_later (sys_getdents64 (system_env S) (unat (a 0)) (a 1) (unat (a 2)))"
| "data_dispatch S SYS_LSEEK a = answer_word (sys_lseek (system_env S) (unat (a 0)) (a 1) (a 2))"
| "data_dispatch S SYS_READ a = answer_later (sys_read (system_env S) (unat (a 0)) (a 1) (unat (a 2)))"
| "data_dispatch S SYS_WRITE a = answer_later (sys_write (system_env S) (unat (a 0)) (a 1) (unat (a 2)))"
| "data_dispatch S SYS_READV a = answer_later (sys_readv (system_env S) (unat (a 0)) (a 1) (unat (a 2)))"
| "data_dispatch S SYS_WRITEV a = answer_later (sys_writev (system_env S) (unat (a 0)) (a 1) (unat (a 2)))"
| "data_dispatch S SYS_SENDFILE a = answer_later (sys_sendfile (system_env S) (unat (a 0)) (unat (a 1)) (a 2) (unat (a 3)))"
| "data_dispatch S SYS_FSTAT a = answer (sys_fstat (system_env S) (unat (a 0)) (a 1))"
| "data_dispatch S SYS_FSYNC a = answer (sys_fsync (system_env S) (unat (a 0)))"
| "data_dispatch S SYS_FSTATFS a = answer (sys_fstatfs (system_env S) (unat (a 0)) (a 1))"

datatype path_number =
    SYS_MKDIRAT | SYS_UNLINKAT | SYS_LINKAT | SYS_SYMLINKAT | SYS_READLINKAT | SYS_RENAMEAT2 | SYS_STATFS | SYS_FACCESSAT
  | SYS_NEWFSTATAT | SYS_UTIMENSAT

primrec path_dispatch :: "('v, 'h, 'w, 'tf, 'cx, 'st, 'r) system \<Rightarrow> path_number \<Rightarrow> args \<Rightarrow> (('v, 'h, 'w) tstate, usize progress) act" where
  "path_dispatch S SYS_MKDIRAT a = answer (sys_mkdirat (system_env S) (a 0) (a 1) (a 2))"
| "path_dispatch S SYS_UNLINKAT a = answer (sys_unlinkat (system_env S) (a 0) (a 1) (a 2))"
| "path_dispatch S SYS_LINKAT a = answer (sys_linkat (system_env S) (a 0) (a 1) (a 2) (a 3) (a 4))"
| "path_dispatch S SYS_SYMLINKAT a = answer (sys_symlinkat (system_env S) (a 0) (a 1) (a 2))"
| "path_dispatch S SYS_READLINKAT a = answer (sys_readlinkat (system_env S) (a 0) (a 1) (a 2) (unat (a 3)))"
| "path_dispatch S SYS_RENAMEAT2 a = answer (sys_renameat2 (system_env S) (a 0) (a 1) (a 2) (a 3) (a 4))"
| "path_dispatch S SYS_STATFS a = answer (sys_statfs (system_env S) (a 0) (a 1))"
| "path_dispatch S SYS_FACCESSAT a = answer (sys_faccessat (system_env S) (a 0) (a 1) (a 2) (a 3))"
| "path_dispatch S SYS_NEWFSTATAT a = answer (sys_fstatat (system_env S) (a 0) (a 1) (a 2) (a 3))"
| "path_dispatch S SYS_UTIMENSAT a = answer (sys_utimensat (system_env S) (a 0) (a 1) (a 2) (a 3))"

datatype xattr_number =
    SYS_SETXATTR | SYS_LSETXATTR | SYS_FSETXATTR | SYS_GETXATTR | SYS_LGETXATTR | SYS_FGETXATTR | SYS_LISTXATTR
  | SYS_LLISTXATTR | SYS_FLISTXATTR | SYS_REMOVEXATTR | SYS_LREMOVEXATTR | SYS_FREMOVEXATTR

primrec xattr_dispatch :: "xattr_number \<Rightarrow> args \<Rightarrow> ('s, usize progress) act" where
  "xattr_dispatch SYS_SETXATTR a = answer (sys_setxattr (a 0) (a 1) (a 2) (a 3) (a 4))"
| "xattr_dispatch SYS_LSETXATTR a = answer (sys_lsetxattr (a 0) (a 1) (a 2) (a 3) (a 4))"
| "xattr_dispatch SYS_FSETXATTR a = answer (sys_fsetxattr (a 0) (a 1) (a 2) (a 3) (a 4))"
| "xattr_dispatch SYS_GETXATTR a = answer (sys_getxattr (a 0) (a 1) (a 2) (a 3))"
| "xattr_dispatch SYS_LGETXATTR a = answer (sys_lgetxattr (a 0) (a 1) (a 2) (a 3))"
| "xattr_dispatch SYS_FGETXATTR a = answer (sys_fgetxattr (a 0) (a 1) (a 2) (a 3))"
| "xattr_dispatch SYS_LISTXATTR a = answer (sys_listxattr (a 0) (a 1) (a 2))"
| "xattr_dispatch SYS_LLISTXATTR a = answer (sys_llistxattr (a 0) (a 1) (a 2))"
| "xattr_dispatch SYS_FLISTXATTR a = answer (sys_flistxattr (a 0) (a 1) (a 2))"
| "xattr_dispatch SYS_REMOVEXATTR a = answer (sys_removexattr (a 0) (a 1))"
| "xattr_dispatch SYS_LREMOVEXATTR a = answer (sys_lremovexattr (a 0) (a 1))"
| "xattr_dispatch SYS_FREMOVEXATTR a = answer (sys_fremovexattr (a 0) (a 1))"

datatype proc_number =
    SYS_EXIT | SYS_EXIT_GROUP | SYS_SET_TID_ADDRESS | SYS_FUTEX | SYS_SIGALTSTACK | SYS_RT_SIGACTION | SYS_RT_SIGPROCMASK
  | SYS_SETPRIORITY | SYS_GETPRIORITY | SYS_EXECVE | SYS_WAIT4 | SYS_WAITID | SYS_CLONE3 | SYS_UMASK

primrec proc_dispatch :: "('v, 'h, 'w, 'tf, 'cx, 'st, 'r) system \<Rightarrow> proc_number \<Rightarrow> args \<Rightarrow> (('v, 'h, 'w) tstate, usize progress) act" where
  "proc_dispatch S SYS_EXIT a = answer (sys_exit (sy_task S) (a 0))"
| "proc_dispatch S SYS_EXIT_GROUP a = answer (sys_exit_group (sy_task S) (a 0))"
| "proc_dispatch S SYS_SET_TID_ADDRESS a = answer (sys_set_tid_address (sy_task S) (a 0))"
| "proc_dispatch S SYS_FUTEX a = answer_later (sys_futex (sy_task S) (a 0) (a 1) (a 2) (a 3) (a 4) (a 5))"
| "proc_dispatch S SYS_SIGALTSTACK a = answer (sys_sigaltstack (sy_task S) (a 0) (a 1))"
| "proc_dispatch S SYS_RT_SIGACTION a = answer (sys_sigaction (sy_task S) (sy_kern S) (a 0) (a 1) (a 2) (a 3))"
| "proc_dispatch S SYS_RT_SIGPROCMASK a = answer (sys_sigprocmask (sy_task S) (a 0) (a 1) (a 2))"
| "proc_dispatch S SYS_SETPRIORITY a = answer (sys_set_priority (sy_task S) (a 0) (a 1) (a 2))"
| "proc_dispatch S SYS_GETPRIORITY a = answer_word (sys_get_priority (sy_task S) (a 0) (a 1))"
| "proc_dispatch S SYS_EXECVE a = answer (sys_execve (sy_fuel S) (sy_task S) (a 0) (a 1) (a 2))"
| "proc_dispatch S SYS_WAIT4 a = answer_later (sys_wait4 (sy_task S) (a 0) (a 1) (a 2))"
| "proc_dispatch S SYS_WAITID a = answer_later (sys_waitid (sy_task S) (sy_kern S) (a 0) (a 1) (a 2) (a 3))"
| "proc_dispatch S SYS_CLONE3 a = fail ENOSYS"
| "proc_dispatch S SYS_UMASK a = bind (sys_umask (sy_task S) (a 0)) (\<lambda>old. finish (ucast old))"

datatype id_number =
    SYS_SETPGID | SYS_GETPGID | SYS_SETSID | SYS_GETSID | SYS_GETPID | SYS_GETPPID | SYS_GETUID | SYS_GETEUID | SYS_GETGID
  | SYS_GETEGID | SYS_GETTID | SYS_GETRLIMIT | SYS_SETRLIMIT | SYS_GETRUSAGE | SYS_PRLIMIT64

primrec id_dispatch :: "('v, 'h, 'w, 'tf, 'cx, 'st, 'r) system \<Rightarrow> id_number \<Rightarrow> args \<Rightarrow> (('v, 'h, 'w) tstate, usize progress) act" where
  "id_dispatch S SYS_SETPGID a = answer (sys_set_pgid (sy_task S) (a 0) (a 1))"
| "id_dispatch S SYS_GETPGID a = answer (sys_get_pgid (sy_task S) (a 0))"
| "id_dispatch S SYS_SETSID a = answer (sys_set_sid (sy_task S))"
| "id_dispatch S SYS_GETSID a = answer (sys_get_sid (sy_task S) (a 0))"
| "id_dispatch S SYS_GETPID a = answer (sys_get_pid (sy_task S))"
| "id_dispatch S SYS_GETPPID a = answer (sys_get_ppid (sy_task S))"
| "id_dispatch S SYS_GETUID a = answer sys_getuid"
| "id_dispatch S SYS_GETEUID a = answer sys_get_euid"
| "id_dispatch S SYS_GETGID a = answer sys_get_gid"
| "id_dispatch S SYS_GETEGID a = answer sys_get_egid"
| "id_dispatch S SYS_GETTID a = answer (sys_get_tid (sy_task S))"
| "id_dispatch S SYS_GETRLIMIT a = answer (sys_getrlimit (sy_task S) (a 0) (a 1))"
| "id_dispatch S SYS_SETRLIMIT a = answer (sys_setrlimit (sy_task S) (a 0) (a 1))"
| "id_dispatch S SYS_GETRUSAGE a = answer (sys_getrusage (sy_task S) (sy_kern S) (a 0) (a 1))"
| "id_dispatch S SYS_PRLIMIT64 a = answer (sys_prlimit64 (sy_task S) (a 0) (a 1) (a 2) (a 3))"

datatype memory_number =
    SYS_BRK | SYS_MUNMAP | SYS_MMAP | SYS_MPROTECT | SYS_MADVISE | SYS_CLOCK_GETTIME | SYS_NANOSLEEP | SYS_SCHED_YIELD
  | SYS_UNAME | SYS_GETTIMEOFDAY

primrec memory_dispatch :: "('v, 'h, 'w, 'tf, 'cx, 'st, 'r) system \<Rightarrow> memory_number \<Rightarrow> args \<Rightarrow> (('v, 'h, 'w) tstate, usize progress) act" where
  "memory_dispatch S SYS_BRK a = answer_word (sys_brk (sy_task S) (a 0))"
| "memory_dispatch S SYS_MUNMAP a = answer_word (sys_unmap (sy_task S) (a 0) (a 1))"
| "memory_dispatch S SYS_MMAP a = answer_word (sys_mmap (sy_task S) (a 0) (a 1) (a 2) (a 3) (a 4) (a 5))"
| "memory_dispatch S SYS_MPROTECT a = answer_word (sys_mprotect (sy_task S) (a 0) (a 1) (a 2))"
| "memory_dispatch S SYS_MADVISE a = answer (sys_madvise (a 0) (a 1) (a 2))"
| "memory_dispatch S SYS_CLOCK_GETTIME a = answer (sys_clock_gettime (sy_task S) (sy_kern S) (a 0) (a 1))"
| "memory_dispatch S SYS_NANOSLEEP a = answer_later (sys_nanosleep (sy_fuel S) (sy_task S) (sy_kern S) (a 0) (a 1))"
| "memory_dispatch S SYS_SCHED_YIELD a = answer (sys_yield (sy_task S))"
| "memory_dispatch S SYS_UNAME a = answer (sys_uname (sy_task S) (sy_kern S) (a 0))"
| "memory_dispatch S SYS_GETTIMEOFDAY a = answer (sys_get_time_of_day (sy_task S) (sy_kern S) (a 0))"

datatype net_number =
    SYS_SOCKET | SYS_SOCKETPAIR | SYS_BIND | SYS_LISTEN | SYS_ACCEPT | SYS_CONNECT | SYS_GETSOCKNAME | SYS_GETPEERNAME
  | SYS_SENDTO | SYS_RECVFROM | SYS_SETSOCKOPT | SYS_GETSOCKOPT | SYS_SHUTDOWN

primrec net_dispatch :: "('v, 'h, 'w, 'tf, 'cx, 'st, 'r) system \<Rightarrow> ('v, 'h, 'w) tstate net_sys \<Rightarrow> net_number \<Rightarrow> args
    \<Rightarrow> (('v, 'h, 'w) tstate, usize progress) act" where
  "net_dispatch S V SYS_SOCKET a = answer (sys_socket (system_env S) V (a 0) (a 1) (a 2))"
| "net_dispatch S V SYS_SOCKETPAIR a = answer (sys_socket_pair (system_env S) V (a 0) (a 1) (a 2) (a 3))"
| "net_dispatch S V SYS_BIND a = answer (sys_bind (system_env S) V (unat (a 0)) (a 1))"
| "net_dispatch S V SYS_LISTEN a = answer (sys_listen (system_env S) V (unat (a 0)) (a 1))"
| "net_dispatch S V SYS_ACCEPT a = answer_later (sys_accept (sy_fuel S) (system_env S) V (unat (a 0)) (a 1) (a 2))"
| "net_dispatch S V SYS_CONNECT a = answer_later (sys_connect (sy_fuel S) (system_env S) V (unat (a 0)) (a 1))"
| "net_dispatch S V SYS_GETSOCKNAME a = answer (sys_getsockname (system_env S) V (unat (a 0)) (a 1) (a 2))"
| "net_dispatch S V SYS_GETPEERNAME a = answer (sys_getpeername (system_env S) V (unat (a 0)) (a 1) (a 2))"
| "net_dispatch S V SYS_SENDTO a = answer (sys_sendto (system_env S) V (unat (a 0)) (a 1) (unat (a 2)) (a 4))"
| "net_dispatch S V SYS_RECVFROM a = answer_later (sys_recvfrom (sy_fuel S) (system_env S) V (unat (a 0)) (a 1) (unat (a 2)) (a 4) (a 5))"
| "net_dispatch S V SYS_SETSOCKOPT a = answer (sys_set_socket_opt (system_env S) V (unat (a 0)) (a 1) (a 2))"
| "net_dispatch S V SYS_GETSOCKOPT a = answer (sys_get_socket_opt (system_env S) V (unat (a 0)) (a 1) (a 2) (a 3) (a 4))"
| "net_dispatch S V SYS_SHUTDOWN a = answer (sys_shutdown (system_env S) V (unat (a 0)) (a 1))"

text \<open>The numbers of the kernel's own calls, of \<open>clone\<close>, and those that only x86-64 has.\<close>

datatype private_number = SYS_LOAD_DOMAIN | SYS_REPLACE_DOMAIN | SYS_FRAMEBUFFER | SYS_FRAMEBUFFER_FLUSH | SYS_EVENT_GET

primrec private_dispatch :: "('v, 'h, 'w, 'tf, 'cx, 'st, 'r) system \<Rightarrow> private_number \<Rightarrow> args \<Rightarrow> (('v, 'h, 'w) tstate, usize progress) act" where
  "private_dispatch S SYS_LOAD_DOMAIN a = answer_later (sys_load_domain (system_env S) (system_gui S) (unat (a 0)) (ucast (a 1)) (a 2) (unat (a 3)))"
| "private_dispatch S SYS_REPLACE_DOMAIN a = answer (sys_replace_domain (system_env S) (system_gui S) (a 0) (unat (a 1)) (a 2) (unat (a 3)) (ucast (a 4)))"
| "private_dispatch S SYS_FRAMEBUFFER a = answer_word (sys_framebuffer (system_gui S) (map_option system_gpu (sy_gpu S)))"
| "private_dispatch S SYS_FRAMEBUFFER_FLUSH a = answer (sys_framebuffer_flush (map_option system_gpu (sy_gpu S)))"
| "private_dispatch S SYS_EVENT_GET a = answer_later (sys_event_get (system_env S) (map system_input (sy_inputs S)) (a 0) (unat (a 1)))"

datatype arch_number =
    SYS_CLONE | SYS_OPEN | SYS_ACCESS | SYS_STAT | SYS_LSTAT | SYS_MKDIR | SYS_RENAMEAT | SYS_PIPE | SYS_POLL | SYS_SELECT
  | SYS_ARCH_PRCTL | SYS_FORK | SYS_VFORK | SYS_GETPGRP

primrec x86_64_dispatch :: "('v, 'h, 'w, 'tf, 'cx, 'st, 'r) system \<Rightarrow> arch_number \<Rightarrow> args \<Rightarrow> (('v, 'h, 'w) tstate, usize progress) act" where
  "x86_64_dispatch S SYS_CLONE a = answer (sys_clone (sy_task S) (a 0) (a 1) (a 2) (a 4) (a 3))"
| "x86_64_dispatch S SYS_OPEN a = answer (sys_openat (system_env S) (AT_FDCWD (se_consts (sy_env S))) (a 0) (a 1) (a 2))"
| "x86_64_dispatch S SYS_ACCESS a = answer (sys_faccessat (system_env S) (AT_FDCWD (se_consts (sy_env S))) (a 0) (a 1) 0)"
| "x86_64_dispatch S SYS_STAT a = answer (sys_fstatat (system_env S) (AT_FDCWD (se_consts (sy_env S))) (a 0) (a 1) 0)"
| "x86_64_dispatch S SYS_LSTAT a = answer (sys_fstatat (system_env S) (AT_FDCWD (se_consts (sy_env S))) (a 0) (a 1)
     (ucast (AT_SYMLINK_NOFOLLOW (se_path_consts (sy_env S)))))"
| "x86_64_dispatch S SYS_MKDIR a = answer (sys_mkdirat (system_env S) (AT_FDCWD (se_consts (sy_env S))) (a 0) (a 1))"
| "x86_64_dispatch S SYS_RENAMEAT a = answer (sys_renameat2 (system_env S) (a 0) (a 1) (a 2) (a 3) 0)"
| "x86_64_dispatch S SYS_PIPE a = answer (sys_pipe2 (system_env S) (a 0) 0)"
| "x86_64_dispatch S SYS_POLL a = answer_later (sys_ppoll (sy_fuel S) (system_env S) (a 0) (unat (a 1)) (a 2)
     (PPOLL_FROM_POLL_SIGMASK (se_consts (sy_env S))))"
| "x86_64_dispatch S SYS_SELECT a = answer_later (sys_select (sy_fuel S) (system_env S) (unat (a 0)) (a 1) (a 2) (a 3) (a 4))"
| "x86_64_dispatch S SYS_ARCH_PRCTL a = answer (sys_arch_prctl (sy_task S) (sy_kern S) (a 0) (a 1))"
| "x86_64_dispatch S SYS_FORK a = answer (sys_clone (sy_task S) (ucast (sg_SIGCHLD (te_sig (sy_task S)))) 0 0 0 0)"
| "x86_64_dispatch S SYS_VFORK a = answer (sys_clone (sy_task S)
     (ucast (sy_CLONE_VFORK S OR CLONE_VM (te_clone (sy_task S))) OR ucast (sg_SIGCHLD (te_sig (sy_task S)))) 0 0 0 0)"
| "x86_64_dispatch S SYS_GETPGRP a = answer (sys_get_pgrp (sy_task S))"

section \<open>A system call\<close>

datatype call_number =
    TestNr | FdNr fd_number | DataNr data_number | PathNr path_number | XattrNr xattr_number | ProcNr proc_number
  | IdNr id_number | MemoryNr memory_number | NetNr net_number | RandomNr | PrivateNr private_number | ArchNr arch_number

text \<open>On riscv64 the only number of its own is \<open>clone\<close>.\<close>

definition riscv64_dispatch :: "('v, 'h, 'w, 'tf, 'cx, 'st, 'r) system \<Rightarrow> arch_number \<Rightarrow> args \<Rightarrow> (('v, 'h, 'w) tstate, usize progress) act" where
  "riscv64_dispatch S n a =
     (if n = SYS_CLONE then answer (sys_clone (sy_task S) (a 0) (a 1) (a 2) (a 3) (a 4)) else fail ENOSYS)"

definition on_tasks :: "(('v, 'h, 'w) tstate, 'a) act \<Rightarrow> (('v, 'h, 'w) tstate \<times> u64, 'a) act" where
  "on_tasks = zoom fst (\<lambda>t s. (t, snd s))"

text \<open>\<open>SysCallDomain::call\<close> and the dispatchers; \<open>decode\<close> tells which constant a raw number is.\<close>

definition sys_call :: "('v, 'h, 'w, 'tf, 'cx, 'st, 'r) system \<Rightarrow> (usize \<Rightarrow> call_number option) \<Rightarrow> usize \<Rightarrow> args
    \<Rightarrow> (('v, 'h, 'w) tstate \<times> u64, usize progress) act" where
  "sys_call S decode syscall_id a =
     bind (on_tasks (in_world (kn_current_tid (te_sched (sy_task S))))) (\<lambda>tid.
     case decode syscall_id of
       None \<Rightarrow> fail ENOSYS
     | Some nr \<Rightarrow> (case nr of
         TestNr \<Rightarrow> bind (on_tasks (in_world (sy_log S))) (\<lambda>_. finish 0)
       | FdNr n \<Rightarrow> on_tasks (fd_dispatch S n a)
       | DataNr n \<Rightarrow> on_tasks (data_dispatch S n a)
       | PathNr n \<Rightarrow> on_tasks (path_dispatch S n a)
       | XattrNr n \<Rightarrow> on_tasks (xattr_dispatch n a)
       | ProcNr n \<Rightarrow> on_tasks (proc_dispatch S n a)
       | IdNr n \<Rightarrow> on_tasks (id_dispatch S n a)
       | MemoryNr n \<Rightarrow> on_tasks (memory_dispatch S n a)
       | NetNr n \<Rightarrow> (case sy_net S of None \<Rightarrow> fail ENOSYS | Some V \<Rightarrow> on_tasks (net_dispatch S (system_net V) n a))
       | RandomNr \<Rightarrow> answer (sys_random (sy_task S) (sy_kern S) (a 0) (unat (a 1)) (a 2))
       | PrivateNr n \<Rightarrow> on_tasks (private_dispatch S n a)
       | ArchNr n \<Rightarrow> on_tasks (case sk_target (sy_kern S) of
             X86_64 \<Rightarrow> x86_64_dispatch S n a | RISCV64 \<Rightarrow> riscv64_dispatch S n a)))"

section \<open>Every system call keeps the invariant\<close>

lemma fail_calls_safe [kept_intros]:
  "keeps (safe E) (sys_mount p q r p' q')" "keeps (safe E) (sys_setxattr p q r p' q')" "keeps (safe E) (sys_lsetxattr p q r p' q')"
  "keeps (safe E) (sys_fsetxattr p q r p' q')" "keeps (safe E) (sys_getxattr p q r p')" "keeps (safe E) (sys_lgetxattr p q r p')"
  "keeps (safe E) (sys_fgetxattr p q r p')" "keeps (safe E) (sys_listxattr p q r)" "keeps (safe E) (sys_llistxattr p q r)"
  "keeps (safe E) (sys_flistxattr p q r)" "keeps (safe E) (sys_removexattr p q)" "keeps (safe E) (sys_lremovexattr p q)"
  "keeps (safe E) (sys_fremovexattr p q)"
  unfolding sys_mount_def sys_setxattr_def sys_lsetxattr_def sys_fsetxattr_def sys_getxattr_def sys_lgetxattr_def
    sys_fgetxattr_def sys_listxattr_def sys_llistxattr_def sys_flistxattr_def sys_removexattr_def sys_lremovexattr_def
    sys_fremovexattr_def
  by (intro kept_intros)+

lemma fd_dispatch_safe: "keeps (safe (sy_task S)) (fd_dispatch S n a)"
  by (cases n) (simp_all add: kept_intros sys.descriptor_calls sys.fcntl_call sys.select_calls sys.ppoll_call sys.attribute_calls)

lemma data_dispatch_safe: "keeps (safe (sy_task S)) (data_dispatch S n a)"
  by (cases n) (simp_all add: kept_intros sys.data_calls sys.vector_calls sys.sendfile_call sys.attribute_calls sys.name_calls)

lemma path_dispatch_safe: "keeps (safe (sy_task S)) (path_dispatch S n a)"
  by (cases n) (simp_all add: kept_intros sys.name_calls sys.attribute_calls)

lemma xattr_dispatch_safe: "keeps (safe E) (xattr_dispatch n a)"
  by (cases n) (simp_all add: kept_intros)

lemma proc_dispatch_safe: "keeps (safe (sy_task S)) (proc_dispatch S n a)"
  by (cases n) (simp_all add: kept_intros keeps_bind)

lemma id_dispatch_safe: "keeps (safe (sy_task S)) (id_dispatch S n a)"
  by (cases n) (simp_all add: kept_intros)

lemma memory_dispatch_safe: "keeps (safe (sy_task S)) (memory_dispatch S n a)"
  by (cases n) (simp_all add: kept_intros)

lemma net_dispatch_safe: "keeps (safe (sy_task S)) (net_dispatch S (system_net V) n a)"
  by (cases n) (simp_all add: kept_intros sys.socket_calls)

lemma private_dispatch_safe: "keeps (safe (sy_task S)) (private_dispatch S n a)"
proof -
  have "keeps (safe (sy_task S)) (gp_flush g)" "keeps (safe (sy_task S)) (gp_buffer_range g)"
    if "map_option system_gpu (sy_gpu S) = Some g" for g
    using that by (auto simp: system_gpu_def kept_intros)
  moreover have "keeps (safe (sy_task S)) (id_have_event i) \<and> keeps (safe (sy_task S)) (id_event_block i)"
    if "i \<in> set (map system_input (sy_inputs S))" for i
    using that by (auto simp: system_input_def kept_intros)
  ultimately show ?thesis
    by (cases n) (simp_all only: private_dispatch.simps; intro kept_intros sys.domain_calls sys.gpu_calls sys.event_call; blast)+
qed

lemma arch_dispatch_safe: "keeps (safe (sy_task S)) (x86_64_dispatch S n a)" "keeps (safe (sy_task S)) (riscv64_dispatch S n a)"
  by (cases n; simp add: kept_intros sys.descriptor_calls sys.name_calls sys.attribute_calls sys.select_calls sys.ppoll_call)
    (simp add: riscv64_dispatch_def kept_intros)

text \<open>The state with the random counter.\<close>

abbreviation safe_all :: "('v, 'h, 'w, 'tf, 'cx) task_env \<Rightarrow> ('v, 'h, 'w) tstate \<times> u64 \<Rightarrow> bool" where
  "safe_all E \<equiv> \<lambda>s. safe E (fst s)"

lemma on_tasks_safe [kept_intros]: "keeps (safe E) m \<Longrightarrow> keeps (safe_all E) (on_tasks m)"
  by (auto simp: on_tasks_def keeps_def act_simps split: prod.splits)

lemma random_safe: "keeps (safe_all E) (sys_random E K p n flags)"
proof -
  have z: "keeps (safe_all E) (zoom fst (\<lambda>t s. (t, snd s)) m)" if "keeps (safe E) m" for m
    using on_tasks_safe [OF that] by (simp add: on_tasks_def)
  have c: "keeps (safe_all E) (modify_state (\<lambda>s. (fst s, snd s + GOLDEN)))" by (simp add: keeps_def act_simps)
  have "keeps (safe_all E) (next_seed K)"
    unfolding next_seed_def Let_def by (intro kept_intros z c; cases "sk_target K"; simp only: target.case; intro kept_intros z c)
  then have "keeps (safe_all E) (seed_material K)" unfolding seed_material_def by (intro kept_intros)
  then show ?thesis unfolding sys_random_def Let_def by (intro kept_intros z)
qed

lemma sys_call_safe: "keeps (safe_all (sy_task S)) (sys_call S decode i a)"
proof -
  have dispatch: "keeps (safe_all (sy_task S)) (case nr of
         TestNr \<Rightarrow> bind (on_tasks (in_world (sy_log S))) (\<lambda>_. finish 0)
       | FdNr n \<Rightarrow> on_tasks (fd_dispatch S n a)
       | DataNr n \<Rightarrow> on_tasks (data_dispatch S n a)
       | PathNr n \<Rightarrow> on_tasks (path_dispatch S n a)
       | XattrNr n \<Rightarrow> on_tasks (xattr_dispatch n a)
       | ProcNr n \<Rightarrow> on_tasks (proc_dispatch S n a)
       | IdNr n \<Rightarrow> on_tasks (id_dispatch S n a)
       | MemoryNr n \<Rightarrow> on_tasks (memory_dispatch S n a)
       | NetNr n \<Rightarrow> (case sy_net S of None \<Rightarrow> fail ENOSYS | Some V \<Rightarrow> on_tasks (net_dispatch S (system_net V) n a))
       | RandomNr \<Rightarrow> answer (sys_random (sy_task S) (sy_kern S) (a 0) (unat (a 1)) (a 2))
       | PrivateNr n \<Rightarrow> on_tasks (private_dispatch S n a)
       | ArchNr n \<Rightarrow> on_tasks (case sk_target (sy_kern S) of
             X86_64 \<Rightarrow> x86_64_dispatch S n a | RISCV64 \<Rightarrow> riscv64_dispatch S n a))" for nr
    by (cases nr; cases "sk_target (sy_kern S)"; simp only: call_number.case target.case)
      (intro kept_intros fd_dispatch_safe data_dispatch_safe path_dispatch_safe xattr_dispatch_safe proc_dispatch_safe
        id_dispatch_safe memory_dispatch_safe net_dispatch_safe random_safe private_dispatch_safe arch_dispatch_safe)+
  show ?thesis unfolding sys_call_def by (intro kept_intros dispatch)
qed

text \<open>The runs of the system: the start of the task domain, then system calls in any order, with the
  traps of the tasks (\<open>run_call\<close>) and changes of the other domains between them.\<close>

inductive sys_reach :: "('v, 'h, 'w, 'tf, 'cx, 'st, 'r) system \<Rightarrow> (usize \<Rightarrow> call_number option) \<Rightarrow> ('v, 'h, 'w) tstate \<times> u64 \<Rightarrow> bool"
  for S decode where
  start: "sys_reach S decode (snd (init_task (sy_fuel S) (sy_task S) (boot (sy_task S) w)), seed)"
| call: "sys_reach S decode s \<Longrightarrow> sys_reach S decode (snd (sys_call S decode i a s))"
| trap: "sys_reach S decode (t, r) \<Longrightarrow> sys_reach S decode (run_call (sy_fuel S) (sy_task S) c t, r)"
| world: "sys_reach S decode (t, r) \<Longrightarrow> sys_reach S decode (t\<lparr>ts_world := w\<rparr>, r)"

text \<open>No system call breaks the task domain: in every state that the system reaches by system calls
  of any kind and with any arguments, traps and steps of the other domains, the invariant of the task
  domain holds.\<close>

theorem system_invariant:
  assumes "pick_law (te_pick (sy_task S))" "sys_reach S decode s"
  shows "task_inv (fst s)"
  using assms(2)
proof (induction rule: sys_reach.induct)
  case (start w seed)
  show ?case using task_reach_inv [OF assms(1) task_reach.start] by simp
next
  case (call s i a)
  then show ?case using keepsD [OF sys_call_safe [of S decode i a], of s] assms(1) by (simp add: safe_def)
next
  case (trap t r c)
  then show ?case using run_call_inv [OF assms(1)] by simp
next
  case (world t r w)
  have "skel (t\<lparr>ts_world := w\<rparr>) = skel t" by (simp add: skel_def)
  then have "task_inv (t\<lparr>ts_world := w\<rparr>)" by (rule skeletalD [OF task_inv_skeletal]) (use world.IH in simp)
  then show ?case by simp
qed

definition demo_system :: "(usize \<Rightarrow> u8, unit, demo_world, unit, unit, unit, unit) system" where
  "demo_system = \<lparr> sy_task = demo_env, sy_kern = demo_kernel, sy_env = quiet_env, sy_net = None, sy_gpu = None, sy_inputs = [],
     sy_gui = \<lparr> gu_mmap_device = (\<lambda>_. fail ENOSYS), gu_register_domain = (\<lambda>_ _ _. ret ()), gu_update_domain = (\<lambda>_ _ _. ret ()),
       gu_type_ok = (\<lambda>_. True), gu_size = (\<lambda>_. 0), gu_frame_size = 4096 \<rparr>,
     sy_log = ret (), sy_epoll = \<lparr> pod_size = 12, pod_bytes = (\<lambda>_. []), pod_value = (\<lambda>_. \<lparr> ee_events = 0, ee_data = 0 \<rparr>) \<rparr>,
     sy_fuel = 0, sy_CLONE_VFORK = 0x4000 \<rparr>"

definition demo_decode :: "usize \<Rightarrow> call_number option" where
  "demo_decode i = (if i = 172 then Some (IdNr SYS_GETPID) else if i = 57 then Some (FdNr SYS_CLOSE) else None)"

text \<open>The kernel thread runs, and closes a descriptor.\<close>

theorem system_invariant_witness:
  "task_inv (fst (snd (sys_call demo_system demo_decode 57 (\<lambda>_. 1) (demo_started\<lparr>ts_world := (Some 0, [])\<rparr>, 0))))"
proof -
  have d: "sy_task demo_system = demo_env" "sy_fuel demo_system = 0" by (simp_all add: demo_system_def)
  have "sys_reach demo_system demo_decode (demo_started, 0)"
    using sys_reach.start [of demo_system demo_decode "(None, [])" 0] by (simp add: d demo_started_def)
  from sys_reach.call [OF sys_reach.world [OF this]] system_invariant [of demo_system demo_decode] demo_pick
  show ?thesis by (simp add: d)
qed

end
