(* ===== verification/SysOpen.thy ===== *)
theory SysOpen
  imports SysFrame
begin

text \<open>
  Files that a path call opens for itself. The open files of the VFS domain are a set of ids; a call
  that opens a file, uses it and answers should leave the set as it found it. \<open>faccessat\<close> and \<open>fstatat\<close>
  do when they succeed, \<open>mkdirat\<close> and \<open>utimensat\<close> never do.
\<close>

text \<open>What the calls do to the set: opening adds a fresh id, closing removes one, the others keep it.\<close>

definition keeps_opens :: "('s \<Rightarrow> u64 set) \<Rightarrow> ('s, 'a) act \<Rightarrow> bool" where
  "keeps_opens opens m \<longleftrightarrow> (\<forall>X. keeps (\<lambda>s. opens s = X) m)"

definition opens_law :: "('s, 'st) sys_env \<Rightarrow> ('s \<Rightarrow> u64 set) \<Rightarrow> bool" where
  "opens_law E opens \<longleftrightarrow>
     (\<forall>f buf n md fl s i s'. vd_open (se_file E) f buf n md fl s = (Inr i, s') \<longrightarrow> i \<notin> opens s \<and> opens s' = insert i (opens s))
   \<and> (\<forall>i s s'. vd_close (se_file E) i s = (Inr (), s') \<longrightarrow> opens s' = opens s - {i})
   \<and> (\<forall>p buf. keeps_opens opens (td_read_string (se_task E) p buf)) \<and> (\<forall>p buf. keeps_opens opens (td_copy_to_user (se_task E) p buf))
   \<and> (\<forall>p. keeps_opens opens (td_read_timespec (se_task E) p)) \<and> (\<forall>fd. keeps_opens opens (td_get_fd (se_task E) fd))
   \<and> keeps_opens opens (td_fs_info (se_task E)) \<and> (\<forall>f. keeps_opens opens (vd_getattr (se_file E) f))
   \<and> (\<forall>f v w. keeps_opens opens (vd_update_atime (se_paths E) f v w)) \<and> (\<forall>f v w. keeps_opens opens (vd_update_mtime (se_paths E) f v w))
   \<and> keeps_opens opens (se_now E)"

lemma opens_lawD:
  assumes "opens_law E opens"
  shows "vd_open (se_file E) f buf n md fl s = (Inr i, s') \<Longrightarrow> i \<notin> opens s \<and> opens s' = insert i (opens s)"
    "vd_close (se_file E) i s = (Inr (), s') \<Longrightarrow> opens s' = opens s - {i}"
    "keeps (\<lambda>s. opens s = X) (td_read_string (se_task E) p buf)" "keeps (\<lambda>s. opens s = X) (td_copy_to_user (se_task E) p buf)"
    "keeps (\<lambda>s. opens s = X) (td_read_timespec (se_task E) p)" "keeps (\<lambda>s. opens s = X) (td_get_fd (se_task E) fd)"
    "keeps (\<lambda>s. opens s = X) (td_fs_info (se_task E))" "keeps (\<lambda>s. opens s = X) (vd_getattr (se_file E) f)"
    "keeps (\<lambda>s. opens s = X) (vd_update_atime (se_paths E) f v w)" "keeps (\<lambda>s. opens s = X) (vd_update_mtime (se_paths E) f v w)"
    "keeps (\<lambda>s. opens s = X) (se_now E)"
  using assms by (auto simp: opens_law_def keeps_opens_def)

lemma path_start_opens: "opens_law E opens \<Longrightarrow> path_start E d n p s = (Inr x, s') \<Longrightarrow> opens s' = opens s"
proof -
  assume law: "opens_law E opens" and run: "path_start E d n p s = (Inr x, s')"
  have "keeps (\<lambda>t. opens t = opens s) (path_start E d n p)"
    unfolding path_start_def read_path_def user_path_at_def by (intro kept_intros opens_lawD [OF law])
  from keepsD [OF this refl] run show ?thesis by simp
qed

text \<open>The calls that close what they open.\<close>

lemma faccessat_closes:
  assumes law: "opens_law E opens" and run: "sys_faccessat E d p md flags s = (Inr r, s')"
  shows "opens s' = opens s"
proof -
  obtain b n c s1 i s2 where
    1: "path_start E d 256 p s = (Inr (b, n, c), s1)" "vd_open (se_file E) c b n 0 0 s1 = (Inr i, s2)"
    and 2: "vd_close (se_file E) i s2 = (Inr (), s')"
    using run by (auto simp: sys_faccessat_def bind_Ok_iff act_basics split: if_splits)
  show ?thesis
    using path_start_opens [OF law 1(1)] opens_lawD(1) [OF law 1(2)] opens_lawD(2) [OF law 2] by simp
qed

lemma fstatat_closes:
  assumes law: "opens_law E opens" and run: "sys_fstatat E d p sb flags s = (Inr r, s')"
  shows "opens s' = opens s"
proof -
  obtain b n c s1 i s2 st s3 s4 where
    1: "path_start E d 256 p s = (Inr (b, n, c), s1)"
    and 2: "\<exists>fl. vd_open (se_file E) c b n 0 fl s1 = (Inr i, s2)"
    and 3: "vd_getattr (se_file E) i s2 = (Inr st, s3)"
    and 4: "td_copy_to_user (se_task E) sb (se_stat_bytes (se_layout E) st) s3 = (Inr (), s4)"
    and 5: "vd_close (se_file E) i s4 = (Inr (), s')"
    using run by (auto simp: sys_fstatat_def bind_Ok_iff act_basics Let_def split: if_splits) (metis (no_types))+
  have "opens s3 = opens s2" using keepsD [OF opens_lawD(8) [OF law, where X = "opens s2" and f = i], of s2] 3 by simp
  moreover have "opens s4 = opens s3" using keepsD [OF opens_lawD(4) [OF law, where X = "opens s3" and p = sb and buf = "se_stat_bytes (se_layout E) st"], of s3] 4 by simp
  ultimately show ?thesis
    using path_start_opens [OF law 1] 2 opens_lawD(1) [OF law] opens_lawD(2) [OF law 5] by fastforce
qed

text \<open>\<open>mkdirat\<close> and \<open>utimensat\<close> leave the file that they opened open: after a successful call the VFS
  domain holds one open file more, whose id nobody has.\<close>

theorem path_call_leaks:
  assumes "opens_law E opens" "m = sys_mkdirat E d p md \<or> m = sys_utimensat E d p tp fl" "m s = (Inr r, s')"
  shows "\<exists>i. i \<notin> opens s \<and> opens s' = insert i (opens s)"
  using assms(2)
proof
  assume "m = sys_mkdirat E d p md"
  then show ?thesis
    using assms(3) by (auto simp: sys_mkdirat_def bind_Ok_iff act_basics Let_def dest!: path_start_opens [OF assms(1)] opens_lawD(1) [OF assms(1)])
next
  assume "m = sys_utimensat E d p tp fl"
  then obtain b n c s1 i s2 rest where
    1: "path_start E d 256 p s = (Inr (b, n, c), s1)" "vd_open (se_file E) c b n 0 0 s1 = (Inr i, s2)"
    and 2: "rest s2 = (Inr r, s')" and rest: "rest = (if tp = 0 then
       bind (se_now E) (\<lambda>now.
       bind (vd_update_atime (se_paths E) i (fst now) (snd now)) (\<lambda>_.
       bind (vd_update_mtime (se_paths E) i (fst now) (snd now)) (\<lambda>_. ret 0)))
     else
       bind (td_read_timespec (se_task E) tp) (\<lambda>atime.
       bind (td_read_timespec (se_task E) (tp + TIMESPEC_SIZE (se_consts E))) (\<lambda>mtime.
       bind (se_now E) (\<lambda>now.
       bind (set_time (vd_update_atime (se_paths E)) i now atime) (\<lambda>_.
       bind (set_time (vd_update_mtime (se_paths E)) i now mtime) (\<lambda>_. ret 0))))))"
    using assms(3) by (simp only: sys_utimensat_def bind_Ok_iff split_paired_Ex prod.case) blast
  have "keeps (\<lambda>t. opens t = opens s2) rest"
    unfolding rest set_time_def by (intro kept_intros opens_lawD [OF assms(1)])
  from keepsD [OF this refl] 2 have "opens s' = opens s2" by simp
  then show ?thesis using path_start_opens [OF assms(1) 1(1)] opens_lawD(1) [OF assms(1) 1(2)] by metis
qed

text \<open>The open files as the state.\<close>

definition leaky_env :: "(u64 list, unit) sys_env" where
  "leaky_env = quiet_env\<lparr>
     se_task := quiet_task\<lparr> td_read_string := (\<lambda>_ buf s. (Ok (buf, 0), s)), td_fs_info := ret (0, 0),
       td_get_fd := (\<lambda>_. ret 0) \<rparr>,
     se_file := quiet_file\<lparr> vd_open := (\<lambda>_ _ _ _ _ s. case find (\<lambda>i. i \<notin> set s) [1, 2, 3, 4] of
         None \<Rightarrow> (Err ENOMEM, s) | Some i \<Rightarrow> (Ok i, i # s)),
       vd_close := (\<lambda>i s. (Ok (), filter (\<lambda>j. j \<noteq> i) s)) \<rparr>\<rparr>"

theorem path_call_leaks_witness:
  "\<exists>s'. sys_mkdirat leaky_env 3 0x100 0x1FF [1] = (Inr 0, s') \<and> set s' = {1, 2}"
proof -
  have law: "opens_law leaky_env set"
    by (auto simp: opens_law_def keeps_opens_def keeps_def leaky_env_def act_simps quiet_task_def quiet_file_def quiet_paths_def
        find_Some_iff split: option.splits)
  obtain s' where s': "sys_mkdirat leaky_env 3 0x100 0x1FF [1] = (Inr 0, s')" "set s' \<subseteq> {1, 2}"
    by (auto simp: leaky_env_def sys_mkdirat_def path_start_def read_path_def user_path_at_def user_str_def act_simps Let_def)
  with path_call_leaks [OF law disjI1 [OF refl] s'(1)] show ?thesis by auto
qed

end
