(* ===== verification/Sched.thy ===== *)
theory Sched
  imports Prelude "HOL-Library.Multiset"
begin

text \<open>
  The scheduler domains (\<open>common/fifo_scheduler\<close>, \<open>common/random_scheduler\<close>, with
  \<open>common_lib/common_scheduler\<close>): a list of runnable tasks, and which of them a processor gets. Both
  schedulers keep the list in storage that survives a replacement of the domain, so a run may change
  the scheduler at any time. The locale \<open>ready_queue\<close> is the contract of the trait \<open>Scheduler\<close>.
\<close>

unbundle bit_operations_syntax

section \<open>The two schedulers\<close>

text \<open>The fields of \<open>TaskSchedulingInfo\<close> that the schedulers use.\<close>

record sched_info =
  si_tid :: usize
  si_nice :: "8 word"
  si_cpus_allowed :: usize

text \<open>\<open>info.cpus_allowed & (1 << cpu_id) != 0\<close>; the shift wraps.\<close>

definition cpu_allowed :: "nat \<Rightarrow> sched_info \<Rightarrow> bool" where
  "cpu_allowed cpu_id info \<longleftrightarrow> si_cpus_allowed info AND push_bit (cpu_id mod 64) 1 \<noteq> 0"

definition sched_add :: "sched_info \<Rightarrow> sched_info list \<Rightarrow> sched_info list" where
  "sched_add task_meta tasks = tasks @ [task_meta]"

text \<open>\<open>VecDeque::remove\<close>.\<close>

definition take_task :: "nat option \<Rightarrow> sched_info list \<Rightarrow> sched_info option \<times> sched_info list" where
  "take_task res tasks = (case res of
       Some index \<Rightarrow> (if index < length tasks then (Some (tasks ! index), remove_nth index tasks) else (None, tasks))
     | None \<Rightarrow> (None, tasks))"

definition fifo_fetch :: "nat \<Rightarrow> sched_info list \<Rightarrow> sched_info option \<times> sched_info list" where
  "fifo_fetch cpu_id tasks = take_task (position (cpu_allowed cpu_id) tasks) tasks"

text \<open>The scan for the smallest nice value, the first of them.\<close>

fun random_scan :: "nat \<Rightarrow> sched_info list \<Rightarrow> nat \<Rightarrow> 8 word \<Rightarrow> nat option \<Rightarrow> nat option" where
  "random_scan cpu_id [] idx max_nice res = res"
| "random_scan cpu_id (info # tasks) idx max_nice res =
     (if cpu_allowed cpu_id info \<and> si_nice info <s max_nice
      then random_scan cpu_id tasks (Suc idx) (si_nice info) (Some idx)
      else random_scan cpu_id tasks (Suc idx) max_nice res)"

definition random_fetch :: "nat \<Rightarrow> sched_info list \<Rightarrow> sched_info option \<times> sched_info list" where
  "random_fetch cpu_id tasks = take_task (random_scan cpu_id tasks 0 127 None) tasks"

text \<open>The trait object: which scheduler is installed.\<close>

datatype scheduler = FiFoScheduler | RandomScheduler

definition sched_fetch :: "scheduler \<Rightarrow> nat \<Rightarrow> sched_info list \<Rightarrow> sched_info option \<times> sched_info list" where
  "sched_fetch k cpu_id = (case k of FiFoScheduler \<Rightarrow> fifo_fetch cpu_id | RandomScheduler \<Rightarrow> random_fetch cpu_id)"

text \<open>\<open>GlobalScheduler::fetch_task\<close>: without a task the caller's record comes back with the id
  \<open>usize::MAX\<close>.\<close>

definition global_fetch :: "scheduler \<Rightarrow> nat \<Rightarrow> sched_info \<Rightarrow> sched_info list \<Rightarrow> sched_info \<times> sched_info list" where
  "global_fetch k cpu_id info tasks = (case sched_fetch k cpu_id tasks of
       (Some task, tasks') \<Rightarrow> (task, tasks')
     | (None, tasks') \<Rightarrow> (info\<lparr>si_tid := -1\<rparr>, tasks'))"

lemma sched_fetch_cases:
  "sched_fetch FiFoScheduler = fifo_fetch"
  "sched_fetch RandomScheduler = random_fetch"
  by (rule ext, simp add: sched_fetch_def)+

section \<open>Scanning\<close>

lemma random_scan_res: "random_scan c tasks i m res = (case random_scan c tasks i m None of None \<Rightarrow> res | Some j \<Rightarrow> Some j)"
proof (induction tasks arbitrary: i m res)
  case (Cons t tasks)
  show ?case
    using Cons [of "Suc i" "si_nice t" "Some i"] Cons [of "Suc i" m res] by (auto split: option.split)
qed simp

lemma random_scan_shift: "random_scan c tasks i m None = map_option ((+) i) (random_scan c tasks 0 m None)"
proof (induction tasks arbitrary: i m)
  case (Cons t tasks)
  show ?case
    using random_scan_res [of c tasks "Suc i" "si_nice t" "Some i"] random_scan_res [of c tasks "Suc 0" "si_nice t" "Some 0"]
      Cons [of "Suc i"] Cons [of "Suc 0"]
    by (auto split: option.splits simp: option.map_comp comp_def)
qed simp

text \<open>The result of a scan: no task fits, or the first one with the smallest nice value.\<close>

definition best :: "nat \<Rightarrow> sched_info list \<Rightarrow> int \<Rightarrow> nat \<Rightarrow> bool" where
  "best c tasks m i \<longleftrightarrow> i < length tasks \<and> cpu_allowed c (tasks ! i) \<and> sint (si_nice (tasks ! i)) < m
     \<and> (\<forall>j < length tasks. cpu_allowed c (tasks ! j) \<longrightarrow>
          sint (si_nice (tasks ! i)) \<le> sint (si_nice (tasks ! j))
          \<and> (j < i \<longrightarrow> sint (si_nice (tasks ! i)) < sint (si_nice (tasks ! j))))"

lemma best_Cons:
  "best c (t # tasks) m (Suc i) \<longleftrightarrow> best c tasks m i
     \<and> (cpu_allowed c t \<longrightarrow> sint (si_nice (tasks ! i)) < sint (si_nice t))"
  by (auto simp: best_def All_less_Suc2)

lemma best_0: "best c (t # tasks) m 0 \<longleftrightarrow> cpu_allowed c t \<and> sint (si_nice t) < m
     \<and> (\<forall>u \<in> set tasks. cpu_allowed c u \<longrightarrow> sint (si_nice t) \<le> sint (si_nice u))"
  by (auto simp: best_def All_less_Suc2 all_set_conv_all_nth)

lemma best_mono: "best c tasks m i \<Longrightarrow> m \<le> m' \<Longrightarrow> best c tasks m' i"
  by (auto simp: best_def)

lemma random_scan_spec:
  "case random_scan c tasks 0 m None of
     None \<Rightarrow> (\<forall>t \<in> set tasks. cpu_allowed c t \<longrightarrow> sint m \<le> sint (si_nice t))
   | Some i \<Rightarrow> best c tasks (sint m) i"
proof (induction tasks arbitrary: m)
  case (Cons t tasks)
  have shift: "random_scan c tasks (Suc 0) m' None = map_option Suc (random_scan c tasks 0 m' None)" for m'
    using random_scan_shift [of c tasks "Suc 0" m'] by (cases "random_scan c tasks 0 m' None") simp_all
  show ?case
  proof (cases "cpu_allowed c t \<and> si_nice t <s m")
    case True
    have r: "random_scan c (t # tasks) 0 m None
        = (case random_scan c tasks 0 (si_nice t) None of None \<Rightarrow> Some 0 | Some i \<Rightarrow> Some (Suc i))"
      using True random_scan_res [of c tasks "Suc 0" "si_nice t" "Some 0"] shift [of "si_nice t"]
      by (cases "random_scan c tasks 0 (si_nice t) None") simp_all
    have less: "sint (si_nice t) < sint m" using True by (simp add: word_sless_alt)
    show ?thesis
    proof (cases "random_scan c tasks 0 (si_nice t) None")
      case None
      then show ?thesis using Cons [of "si_nice t"] True less unfolding r by (simp add: best_0)
    next
      case (Some i)
      then have b: "best c tasks (sint (si_nice t)) i" using Cons [of "si_nice t"] by simp
      then have "best c tasks (sint m) i" using less by (auto intro: best_mono)
      moreover have "sint (si_nice (tasks ! i)) < sint (si_nice t)" using b by (simp add: best_def)
      ultimately show ?thesis using Some unfolding r by (simp add: best_Cons)
    qed
  next
    case False
    have r: "random_scan c (t # tasks) 0 m None = map_option Suc (random_scan c tasks 0 m None)"
      using False shift [of m] by auto
    have out: "cpu_allowed c t \<Longrightarrow> sint m \<le> sint (si_nice t)" using False by (auto simp: word_sless_alt)
    show ?thesis
    proof (cases "random_scan c tasks 0 m None")
      case None
      then show ?thesis using Cons [of m] out unfolding r by simp
    next
      case (Some i)
      then have b: "best c tasks (sint m) i" using Cons [of m] by simp
      then have "sint (si_nice (tasks ! i)) < sint m" by (simp add: best_def)
      with b out Some show ?thesis unfolding r by (auto simp: best_Cons)
    qed
  qed
qed simp

section \<open>The contract of the ready queue\<close>

text \<open>Runs of a queue: tasks that become runnable, processors that ask for one.\<close>

datatype 'i queue_event = Add 'i | Fetch nat

fun queue_run :: "('i \<Rightarrow> 'q \<Rightarrow> 'q) \<Rightarrow> (nat \<Rightarrow> 'q \<Rightarrow> 'i option \<times> 'q) \<Rightarrow> 'i queue_event list \<Rightarrow> 'q \<Rightarrow> 'i list \<times> 'q" where
  "queue_run add fetch [] q = ([], q)"
| "queue_run add fetch (Add i # es) q = queue_run add fetch es (add i q)"
| "queue_run add fetch (Fetch c # es) q = (case fetch c q of (r, q') \<Rightarrow>
     case queue_run add fetch es q' of (out, q'') \<Rightarrow> ((case r of None \<Rightarrow> out | Some i \<Rightarrow> i # out), q''))"

fun added :: "'i queue_event list \<Rightarrow> 'i multiset" where
  "added [] = {#}"
| "added (Add i # es) = add_mset i (added es)"
| "added (Fetch c # es) = added es"

locale ready_queue =
  fixes bag :: "'q \<Rightarrow> 'i multiset" and may :: "nat \<Rightarrow> 'i \<Rightarrow> bool"
    and add :: "'i \<Rightarrow> 'q \<Rightarrow> 'q" and fetch :: "nat \<Rightarrow> 'q \<Rightarrow> 'i option \<times> 'q"
  assumes bag_add: "bag (add i q) = add_mset i (bag q)"
    and fetch_none: "fetch c q = (None, q') \<Longrightarrow> q' = q \<and> (\<forall>i \<in># bag q. \<not> may c i)"
    and fetch_some: "fetch c q = (Some i, q') \<Longrightarrow> may c i \<and> bag q = add_mset i (bag q')"
begin

lemma run_conserves: "queue_run add fetch es q = (out, q') \<Longrightarrow> mset out + bag q' = added es + bag q"
proof (induction es arbitrary: q out q')
  case (Cons e es)
  show ?case
  proof (cases e)
    case (Add i)
    then show ?thesis using Cons by (simp add: bag_add)
  next
    case (Fetch c)
    obtain r q1 where f: "fetch c q = (r, q1)" by fastforce
    obtain out1 q2 where run: "queue_run add fetch es q1 = (out1, q2)" by fastforce
    have "bag q = (case r of None \<Rightarrow> {#} | Some i \<Rightarrow> {#i#}) + bag q1"
      using f fetch_none fetch_some by (auto split: option.split)
    then show ?thesis using Cons.IH [OF run] Cons.prems f run Fetch by (auto split: option.splits)
  qed
qed simp

end

lemma mset_remove_nth: "i < length xs \<Longrightarrow> mset xs = add_mset (xs ! i) (mset (remove_nth i xs))"
  by (metis id_take_nth_drop mset_append mset.simps(2) remove_nth_def union_mset_add_mset_right)

definition favoured :: "nat \<Rightarrow> sched_info \<Rightarrow> bool" where
  "favoured c info \<longleftrightarrow> cpu_allowed c info \<and> sint (si_nice info) < 127"

lemma take_task_law:
  "take_task res q = (None, q') \<Longrightarrow> (\<And>i. res = Some i \<Longrightarrow> i < length q) \<Longrightarrow> q' = q \<and> res = None"
  "take_task res q = (Some t, q') \<Longrightarrow> \<exists>i. res = Some i \<and> i < length q \<and> t = q ! i \<and> q' = remove_nth i q"
  by (auto simp: take_task_def split: option.splits if_splits)

lemma random_fetch_law:
  "random_fetch c q = (None, q') \<Longrightarrow> q' = q \<and> (\<forall>i \<in># mset q. \<not> favoured c i)"
  "random_fetch c q = (Some t, q') \<Longrightarrow> \<exists>i. best c q 127 i \<and> t = q ! i \<and> q' = remove_nth i q"
proof -
  have m: "sint (127 :: 8 word) = 127" by simp
  have spec: "case random_scan c q 0 127 None of
     None \<Rightarrow> (\<forall>t \<in> set q. cpu_allowed c t \<longrightarrow> 127 \<le> sint (si_nice t))
   | Some i \<Rightarrow> best c q 127 i"
    using random_scan_spec [where c = c and tasks = q and m = 127] unfolding m .
  show "random_fetch c q = (None, q') \<Longrightarrow> q' = q \<and> (\<forall>i \<in># mset q. \<not> favoured c i)"
    using spec by (auto simp: random_fetch_def take_task_def favoured_def best_def not_less split: option.splits if_splits)
  show "random_fetch c q = (Some t, q') \<Longrightarrow> \<exists>i. best c q 127 i \<and> t = q ! i \<and> q' = remove_nth i q"
    using spec by (auto simp: random_fetch_def take_task_def split: option.splits if_splits)
qed

lemma fifo_fetch_law:
  "fifo_fetch c q = (None, q') \<Longrightarrow> q' = q \<and> (\<forall>i \<in># mset q. \<not> cpu_allowed c i)"
  "fifo_fetch c q = (Some t, q') \<Longrightarrow> \<exists>i. position (cpu_allowed c) q = Some i \<and> t = q ! i \<and> q' = remove_nth i q"
  by (auto simp: fifo_fetch_def take_task_def position_None_iff dest: position_less split: option.splits if_splits)

interpretation fifo: ready_queue mset cpu_allowed sched_add fifo_fetch
proof
  show "mset (sched_add i q) = add_mset i (mset q)" for i q by (simp add: sched_add_def)
  show "fifo_fetch c q = (None, q') \<Longrightarrow> q' = q \<and> (\<forall>i \<in># mset q. \<not> cpu_allowed c i)" for c q q'
    by (rule fifo_fetch_law(1))
  show "cpu_allowed c i \<and> mset q = add_mset i (mset q')" if "fifo_fetch c q = (Some i, q')" for c q i q'
    using fifo_fetch_law(2) [OF that] mset_remove_nth by (auto simp: position_Some_iff)
qed

interpretation random: ready_queue mset favoured sched_add random_fetch
proof
  show "mset (sched_add i q) = add_mset i (mset q)" for i q by (simp add: sched_add_def)
  show "random_fetch c q = (None, q') \<Longrightarrow> q' = q \<and> (\<forall>i \<in># mset q. \<not> favoured c i)" for c q q'
    by (rule random_fetch_law(1))
  show "favoured c i \<and> mset q = add_mset i (mset q')" if "random_fetch c q = (Some i, q')" for c q i q'
    using random_fetch_law(2) [OF that] mset_remove_nth by (auto simp: best_def favoured_def)
qed

section \<open>What the schedulers promise\<close>

text \<open>A history of the scheduler domain: which scheduler runs, and what happens until it is replaced.
  The list of tasks goes over to the next one.\<close>

fun sched_run :: "(scheduler \<times> sched_info queue_event list) list \<Rightarrow> sched_info list \<Rightarrow> sched_info list \<times> sched_info list" where
  "sched_run [] q = ([], q)"
| "sched_run ((k, es) # rs) q = (case queue_run sched_add (sched_fetch k) es q of (out, q1) \<Rightarrow>
     case sched_run rs q1 of (out', q2) \<Rightarrow> (out @ out', q2))"

text \<open>C24: over any history, replacements of the scheduler included, the tasks handed to processors
  and those still queued are together exactly those that were added: no task is lost or handed out
  twice.\<close>

theorem sched_conservation:
  "mset (fst (sched_run rs q)) + mset (snd (sched_run rs q)) = sum_list (map (\<lambda>(_, es). added es) rs) + mset q"
proof (induction rs arbitrary: q)
  case (Cons r rs)
  obtain k es where r: "r = (k, es)" by fastforce
  obtain out q1 where run: "queue_run sched_add (sched_fetch k) es q = (out, q1)" by fastforce
  have "mset out + mset q1 = added es + mset q"
    using run by (cases k) (auto simp: sched_fetch_cases intro: fifo.run_conserves random.run_conserves)
  then show ?case using Cons [of q1] run r by (auto simp: split_beta add_ac)
qed simp

fun asked :: "nat \<Rightarrow> 'i queue_event list \<Rightarrow> nat" where
  "asked c [] = 0"
| "asked c (Add i # es) = asked c es"
| "asked c (Fetch d # es) = (if d = c then Suc (asked c es) else asked c es)"

lemma nth_remove_nth: "j < length xs \<Longrightarrow> i < length xs \<Longrightarrow> remove_nth i xs ! (if j < i then j else j - 1) = xs ! j" if "j \<noteq> i"
  using that by (auto simp: remove_nth_def nth_append min_def)

text \<open>C25: the FIFO scheduler starves nobody: a task at position \<open>n\<close> of the queue has been handed out
  after \<open>n + 1\<close> requests of a processor it may run on, whatever else is added and whatever the other
  processors take.\<close>

theorem fifo_no_starvation:
  assumes "n < length q" "cpu_allowed c (q ! n)" "n < asked c es"
  shows "q ! n \<in> set (fst (queue_run sched_add (sched_fetch FiFoScheduler) es q))"
  using assms
proof (induction es arbitrary: q n)
  case (Cons e es)
  show ?case
  proof (cases e)
    case (Add i)
    have "sched_add i q ! n = q ! n" using Cons.prems(1) by (simp add: sched_add_def nth_append)
    then show ?thesis using Cons.IH [of n "sched_add i q"] Cons.prems Add by (simp add: sched_add_def)
  next
    case (Fetch d)
    obtain r q1 where f: "fifo_fetch d q = (r, q1)" by fastforce
    show ?thesis
    proof (cases r)
      case None
      then have "q1 = q" "d \<noteq> c" using fifo_fetch_law(1) [of d q q1] f Cons.prems(1,2) by auto
      then show ?thesis using Cons.IH [of n q] Cons.prems Fetch f None by (simp add: sched_fetch_cases split: prod.split)
    next
      case (Some t)
      then obtain p where p: "position (cpu_allowed d) q = Some p" "t = q ! p" "q1 = remove_nth p q"
        using fifo_fetch_law(2) [of d q t q1] f by auto
      then have pl: "p < length q" using position_less by blast
      show ?thesis
      proof (cases "p = n")
        case True
        then show ?thesis using p f Some Fetch by (simp add: sched_fetch_cases split: prod.split)
      next
        case False
        let ?n = "if n < p then n else n - 1"
        have "d = c \<Longrightarrow> p < n" using p(1) Cons.prems(2) False by (fastforce simp: position_Some_iff not_less_iff_gr_or_eq)
        moreover have "q1 ! ?n = q ! n" unfolding p(3) using False pl Cons.prems(1) by (intro nth_remove_nth) auto
        ultimately have "q ! n \<in> set (fst (queue_run sched_add (sched_fetch FiFoScheduler) es q1))"
          using Cons.IH [of ?n q1] Cons.prems False pl Fetch p(3) by (auto split: if_splits)
        then show ?thesis using f Some Fetch by (auto simp: sched_fetch_cases split: prod.split)
      qed
    qed
  qed
qed simp

definition demo_task :: "usize \<Rightarrow> 8 word \<Rightarrow> sched_info" where
  "demo_task tid nice = \<lparr> si_tid = tid, si_nice = nice, si_cpus_allowed = 1 \<rparr>"

theorem fifo_no_starvation_witness:
  "demo_task 5 0 \<in> set (fst (queue_run sched_add (sched_fetch FiFoScheduler) [Fetch 0, Add (demo_task 6 0), Fetch 1, Fetch 0]
      [demo_task 4 0, demo_task 5 0]))"
  using fifo_no_starvation [of 1 "[demo_task 4 0, demo_task 5 0]" 0 "[Fetch 0, Add (demo_task 6 0), Fetch 1, Fetch 0]"]
  by (simp add: demo_task_def cpu_allowed_def)

text \<open>The priority scheduler hands out, among the tasks that may run, the first of those with the
  smallest nice value; when none fits, the caller gets the id \<open>usize::MAX\<close>.\<close>

lemma random_fetch_best:
  "global_fetch RandomScheduler c info q = (t, q') \<Longrightarrow>
     (\<exists>i. best c q 127 i \<and> t = q ! i \<and> q' = remove_nth i q)
     \<or> (\<forall>u \<in> set q. \<not> favoured c u) \<and> q' = q \<and> si_tid t = -1"
  using random_fetch_law [of c q]
  by (auto simp: global_fetch_def sched_fetch_def split: prod.splits option.splits)

end
