(* ===== verification/Pipe.thy ===== *)
theory Pipe
  imports Externals
begin

text \<open>
  \<open>common/vfs/vfs/src/pipe.rs\<close>: the ring buffer of a pipe (\<open>PipeInodeData\<close>), the inode's
  blocking reads and writes, polling, and the two \<open>PipeFile\<close> handles that keep its ends open.
  The abstract contract of a bounded byte queue is the locale \<open>byte_queue\<close>; the ring buffer
  is shown to be one, and the facts about whole runs of a pipe rest on it.

  \<open>PIPE_BUF\<close> is the argument \<open>N\<close>. A \<open>Weak<PipeFile>\<close> is the key of the handle; \<open>upgrade\<close>
  succeeds exactly while the handle is in \<open>pipe_files\<close>, the live \<open>PipeFile\<close>s.
\<close>

section \<open>The ring buffer\<close>

record pipe_data =
  pd_buf :: "u8 list"
  pd_head :: nat
  pd_tail :: nat
  read_wait :: "nat option"
  write_wait :: "nat option"

definition pd_is_empty :: "pipe_data \<Rightarrow> bool" where
  "pd_is_empty d \<longleftrightarrow> pd_head d = pd_tail d"

definition pd_is_full :: "nat \<Rightarrow> pipe_data \<Rightarrow> bool" where
  "pd_is_full N d \<longleftrightarrow> (pd_tail d + 1) mod N = pd_head d"

definition available_read :: "nat \<Rightarrow> pipe_data \<Rightarrow> nat" where
  "available_read N d =
     (if pd_head d \<le> pd_tail d then pd_tail d - pd_head d else N - pd_head d + pd_tail d)"

definition available_write :: "nat \<Rightarrow> pipe_data \<Rightarrow> nat" where
  "available_write N d =
     (if pd_head d \<le> pd_tail d then N - pd_tail d + pd_head d - 1
      else pd_head d - pd_tail d - 1)"

text \<open>\<open>PipeInodeData::write\<close>: the \<open>while\<close> loop, by recursion on the bytes that are left.\<close>

fun pd_write :: "nat \<Rightarrow> u8 list \<Rightarrow> pipe_data \<Rightarrow> nat \<times> pipe_data" where
  "pd_write N [] d = (0, d)"
| "pd_write N (b # bs) d =
     (if pd_is_full N d then (0, d)
      else let (n, d') = pd_write N bs
                 (d\<lparr>pd_buf := (pd_buf d)[pd_tail d := b], pd_tail := (pd_tail d + 1) mod N\<rparr>)
           in (Suc n, d'))"

text \<open>\<open>PipeInodeData::read\<close> into a buffer of length \<open>n\<close>: the bytes it stores from its start on.\<close>

fun pd_read :: "nat \<Rightarrow> nat \<Rightarrow> pipe_data \<Rightarrow> u8 list \<times> pipe_data" where
  "pd_read N 0 d = ([], d)"
| "pd_read N (Suc n) d =
     (if pd_is_empty d then ([], d)
      else let (bs, d') = pd_read N n (d\<lparr>pd_head := (pd_head d + 1) mod N\<rparr>)
           in (pd_buf d ! pd_head d # bs, d'))"

definition pipe_data_new :: "nat \<Rightarrow> pipe_data" where
  "pipe_data_new N = \<lparr> pd_buf = replicate N 0, pd_head = 0, pd_tail = 0,
                       read_wait = None, write_wait = None \<rparr>"

section \<open>A pipe and its open ends\<close>

text \<open>\<open>pipe_files\<close>: the open flags of the live \<open>PipeFile\<close>s, by handle.\<close>

record pipe =
  pipe_inode :: pipe_data
  pipe_files :: "(nat, usize) btree"

definition upgrade :: "pipe \<Rightarrow> nat option \<Rightarrow> bool" where
  "upgrade p w = (case w of None \<Rightarrow> False | Some h \<Rightarrow> bt_get (pipe_files p) h \<noteq> None)"

definition is_write_wait :: "pipe \<Rightarrow> bool" where
  "is_write_wait p = upgrade p (write_wait (pipe_inode p))"

definition is_read_wait :: "pipe \<Rightarrow> bool" where
  "is_read_wait p = upgrade p (read_wait (pipe_inode p))"

definition set_reader :: "nat \<Rightarrow> pipe \<Rightarrow> pipe" where
  "set_reader h p = p\<lparr>pipe_inode := (pipe_inode p)\<lparr>read_wait := Some h\<rparr>\<rparr>"

definition set_sender :: "nat \<Rightarrow> pipe \<Rightarrow> pipe" where
  "set_sender h p = p\<lparr>pipe_inode := (pipe_inode p)\<lparr>write_wait := Some h\<rparr>\<rparr>"

text \<open>
  One turn of the loops of \<open>read_at\<close> and \<open>write_at\<close>: \<open>Block\<close> is the branch that yields the
  processor and starts the loop over (the state is as it was, \<open>count\<close> is still 0).
\<close>

definition pipe_read_at :: "nat \<Rightarrow> u8 list \<Rightarrow> pipe \<Rightarrow> (u8 list \<times> nat) progress \<times> pipe" where
  "pipe_read_at N user_buf p =
     (let available = available_read N (pipe_inode p) in
      if available = 0 then
        (if \<not> is_write_wait p then (Done (user_buf, 0), p) else (Block, p))
      else
        let m = min available (length user_buf);
            (bs, d) = pd_read N m (pipe_inode p)
        in (Done (splice 0 bs user_buf, length bs), p\<lparr>pipe_inode := d\<rparr>))"

definition pipe_write_at :: "nat \<Rightarrow> u8 list \<Rightarrow> pipe \<Rightarrow> nat progress \<times> pipe" where
  "pipe_write_at N user_buf p =
     (let available = available_write N (pipe_inode p) in
      if available = 0 then
        (if \<not> is_read_wait p then (Done 0, p) else (Block, p))
      else
        let m = min available (length user_buf);
            (n, d) = pd_write N (take m user_buf) (pipe_inode p)
        in (Done n, p\<lparr>pipe_inode := d\<rparr>))"

definition pipe_poll :: "abi \<Rightarrow> nat \<Rightarrow> 16 word \<Rightarrow> pipe \<Rightarrow> 16 word" where
  "pipe_poll A N event p =
     (let res = 0;
          res = (if contains event (VP_IN A) \<and> 0 < available_read N (pipe_inode p)
                 then res OR VP_IN A else res);
          res = (if contains event (VP_OUT A) \<and> 0 < available_write N (pipe_inode p)
                 then res OR VP_OUT A else res);
          is_reader = is_read_wait p;
          is_sender = is_write_wait p;
          res = (if is_reader \<and> \<not> is_sender then res OR VP_HUP A else res)
      in if \<not> is_reader \<and> is_sender then res OR VP_ERR A else res)"

text \<open>The \<open>File\<close> operations of \<open>PipeFile\<close>. The offset of \<open>read_at\<close> and \<open>write_at\<close> is ignored.\<close>

definition pf_read :: "nat \<Rightarrow> u8 list \<Rightarrow> pipe \<Rightarrow> (u8 list \<times> nat) progress \<times> pipe" where
  "pf_read N buf p = (if buf = [] then (Done (buf, 0), p) else pipe_read_at N buf p)"

definition pf_write :: "nat \<Rightarrow> u8 list \<Rightarrow> pipe \<Rightarrow> nat progress \<times> pipe" where
  "pf_write N buf p = (if buf = [] then (Done 0, p) else pipe_write_at N buf p)"

definition pf_set_open_flag :: "nat \<Rightarrow> usize \<Rightarrow> pipe \<Rightarrow> pipe" where
  "pf_set_open_flag h flag p = p\<lparr>pipe_files := bt_insert h flag (pipe_files p)\<rparr>"

definition pf_get_open_flag :: "nat \<Rightarrow> pipe \<Rightarrow> usize option" where
  "pf_get_open_flag h p = bt_get (pipe_files p) h"

definition pf_is_readable :: "abi \<Rightarrow> usize \<Rightarrow> bool" where
  "pf_is_readable A open_flag = contains open_flag (O_RDONLY A OR O_RDWR A)"

definition pf_is_writable :: "abi \<Rightarrow> usize \<Rightarrow> bool" where
  "pf_is_writable A open_flag = contains open_flag (O_WRONLY A OR O_RDWR A)"

definition pf_poll :: "abi \<Rightarrow> nat \<Rightarrow> u32 \<Rightarrow> pipe \<Rightarrow> u32" where
  "pf_poll A N event p =
     from_bits_truncate (EPOLL_ALL A)
       (ucast (pipe_poll A N (from_bits_truncate (VP_ALL A) (ucast event)) p))"

text \<open>The last reference to a handle goes away (its own \<open>drop\<close> changes nothing).\<close>

definition pf_drop :: "nat \<Rightarrow> pipe \<Rightarrow> pipe" where
  "pf_drop h p = p\<lparr>pipe_files := bt_remove h (pipe_files p)\<rparr>"

text \<open>The handles 0 (reader) and 1 (sender) of a new pipe.\<close>

definition make_pipe_file :: "abi \<Rightarrow> nat \<Rightarrow> (nat \<times> nat) \<times> pipe" where
  "make_pipe_file A N =
     ((0, 1),
      set_sender 1 (set_reader 0
        \<lparr> pipe_inode = pipe_data_new N,
          pipe_files = bt_insert 1 (O_WRONLY A) (bt_insert 0 (O_RDONLY A) bt_empty) \<rparr>))"


section \<open>A bounded byte queue\<close>

datatype 'b queue_op = Put "'b list" | Get nat

text \<open>Running operations: the bytes accepted, the bytes delivered, and the queue at the end.\<close>

fun queue_run :: "('b list \<Rightarrow> 'q \<Rightarrow> nat \<times> 'q) \<Rightarrow> (nat \<Rightarrow> 'q \<Rightarrow> 'b list \<times> 'q)
    \<Rightarrow> 'b queue_op list \<Rightarrow> 'q \<Rightarrow> 'b list \<times> 'b list \<times> 'q" where
  "queue_run put get [] q = ([], [], q)"
| "queue_run put get (Put bs # ops) q =
     (let (n, q') = put bs q; (w, r, q'') = queue_run put get ops q' in (take n bs @ w, r, q''))"
| "queue_run put get (Get n # ops) q =
     (let (bs, q') = get n q; (w, r, q'') = queue_run put get ops q' in (w, bs @ r, q''))"

locale byte_queue =
  fixes inv :: "'q \<Rightarrow> bool"
    and content :: "'q \<Rightarrow> 'b list"
    and cap :: nat
    and put :: "'b list \<Rightarrow> 'q \<Rightarrow> nat \<times> 'q"
    and get :: "nat \<Rightarrow> 'q \<Rightarrow> 'b list \<times> 'q"
  assumes bounded: "inv q \<Longrightarrow> length (content q) \<le> cap"
    and put_law: "inv q \<Longrightarrow> put bs q = (n, q') \<Longrightarrow>
      inv q' \<and> n = min (length bs) (cap - length (content q)) \<and> content q' = content q @ take n bs"
    and get_law: "inv q \<Longrightarrow> get n q = (bs, q') \<Longrightarrow>
      inv q' \<and> bs = take n (content q) \<and> content q' = drop n (content q)"
begin

lemma run_law:
  "inv q \<Longrightarrow> queue_run put get ops q = (w, r, q') \<Longrightarrow>
     inv q' \<and> content q @ w = r @ content q'"
proof (induction ops arbitrary: q w r q')
  case (Cons op ops)
  show ?case
  proof (cases op)
    case (Put bs)
    obtain n q1 where 1: "put bs q = (n, q1)" by fastforce
    obtain w2 r2 q2 where 2: "queue_run put get ops q1 = (w2, r2, q2)" by (cases "queue_run put get ops q1")
    from Cons.IH [OF _ 2] put_law [OF Cons.prems(1) 1] Cons.prems(2) Put 1 2
    show ?thesis by fastforce
  next
    case (Get n)
    obtain bs q1 where 1: "get n q = (bs, q1)" by fastforce
    obtain w2 r2 q2 where 2: "queue_run put get ops q1 = (w2, r2, q2)" by (cases "queue_run put get ops q1")
    have [simp]: "w = w2" "r = bs @ r2" "q' = q2" using Cons.prems(2) Get 1 2 by simp_all
    from get_law [OF Cons.prems(1) 1] have g: "inv q1" "content q = bs @ content q1" by simp_all
    from Cons.IH [OF g(1) 2] g(2) show ?thesis by simp
  qed
qed simp

text \<open>What has been delivered is a prefix of what was accepted, and at most \<open>cap\<close> bytes are under way.\<close>

lemma run_fifo:
  assumes "inv q" "content q = []" "queue_run put get ops q = (w, r, q')"
  shows "w = r @ content q'" "length r \<le> length w" "length w \<le> length r + cap"
proof -
  from run_law [OF assms(1,3)] have "inv q'" and *: "w = r @ content q'" using assms(2) by simp_all
  then show "w = r @ content q'" by simp
  from * show "length r \<le> length w" by simp
  from * bounded [OF \<open>inv q'\<close>] show "length w \<le> length r + cap" by simp
qed

end


section \<open>The ring buffer is one, of capacity \<open>PIPE_BUF - 1\<close>\<close>

definition ring_inv :: "nat \<Rightarrow> pipe_data \<Rightarrow> bool" where
  "ring_inv N d \<longleftrightarrow> length (pd_buf d) = N \<and> pd_head d < N \<and> pd_tail d < N"

definition ring_content :: "nat \<Rightarrow> pipe_data \<Rightarrow> u8 list" where
  "ring_content N d = map (\<lambda>i. pd_buf d ! ((pd_head d + i) mod N)) [0..<available_read N d]"

lemma mod_add_once: "a < N \<Longrightarrow> b < N \<Longrightarrow> (a + b) mod N = (if a + b < N then a + b else a + b - N)" for N :: nat
  by (simp add: mod_if)

lemma available_read_less: "ring_inv N d \<Longrightarrow> available_read N d < N"
  by (auto simp: ring_inv_def available_read_def)

lemma tail_head: "ring_inv N d \<Longrightarrow> pd_tail d = (pd_head d + available_read N d) mod N"
  by (auto simp: ring_inv_def available_read_def)

lemma available_read_unique:
  "ring_inv N d \<Longrightarrow> k < N \<Longrightarrow> pd_tail d = (pd_head d + k) mod N \<Longrightarrow> available_read N d = k"
  by (auto simp: ring_inv_def available_read_def mod_add_once split: if_splits)

lemma available_sum: "ring_inv N d \<Longrightarrow> available_read N d + available_write N d = N - 1"
  by (auto simp: ring_inv_def available_read_def available_write_def)

lemma length_ring_content [simp]: "length (ring_content N d) = available_read N d"
  by (simp add: ring_content_def)

lemma is_empty_available: "ring_inv N d \<Longrightarrow> pd_is_empty d \<longleftrightarrow> available_read N d = 0"
  by (auto simp: pd_is_empty_def available_read_def ring_inv_def)

lemma Suc_mod_once: "a < N \<Longrightarrow> Suc a mod N = (if Suc a = N then 0 else Suc a)" for N :: nat
  by simp

lemma is_full_available: "ring_inv N d \<Longrightarrow> pd_is_full N d \<longleftrightarrow> available_write N d = 0"
  by (auto simp: pd_is_full_def available_write_def ring_inv_def Suc_mod_once)

definition ring_push :: "nat \<Rightarrow> u8 \<Rightarrow> pipe_data \<Rightarrow> pipe_data" where
  "ring_push N b d = d\<lparr>pd_buf := (pd_buf d)[pd_tail d := b], pd_tail := (pd_tail d + 1) mod N\<rparr>"

definition ring_pop :: "nat \<Rightarrow> pipe_data \<Rightarrow> pipe_data" where
  "ring_pop N d = d\<lparr>pd_head := (pd_head d + 1) mod N\<rparr>"

lemma ring_push_spec:
  assumes inv: "ring_inv N d" and "\<not> pd_is_full N d"
  shows "ring_inv N (ring_push N b d) \<and> ring_content N (ring_push N b d) = ring_content N d @ [b]"
proof -
  let ?d = "ring_push N b d" and ?k = "available_read N d"
  have less: "Suc ?k < N"
    using assms available_sum [OF inv] is_full_available [OF inv] available_read_less [OF inv] by linarith
  have inv': "ring_inv N ?d"
    using inv by (auto simp: ring_inv_def ring_push_def)
  have av: "available_read N ?d = Suc ?k"
  proof (rule available_read_unique [OF inv' less])
    show "pd_tail ?d = (pd_head ?d + Suc ?k) mod N"
      using tail_head [OF inv] by (simp add: ring_push_def mod_Suc_eq)
  qed
  have off: "pd_tail d \<noteq> (pd_head d + i) mod N" if "i < ?k" for i
  proof
    assume "pd_tail d = (pd_head d + i) mod N"
    with available_read_unique [OF inv, of i] that less show False by simp
  qed
  have "ring_content N ?d = map (\<lambda>i. pd_buf ?d ! ((pd_head d + i) mod N)) [0..<?k] @ [pd_buf ?d ! pd_tail d]"
    unfolding ring_content_def av using tail_head [OF inv] by (simp add: ring_push_def)
  also have "\<dots> = ring_content N d @ [b]"
    using off inv by (auto simp: ring_content_def ring_push_def ring_inv_def)
  finally show ?thesis using inv' by simp
qed

lemma ring_pop_spec:
  assumes inv: "ring_inv N d" and "\<not> pd_is_empty d"
  shows "ring_inv N (ring_pop N d)
       \<and> ring_content N d = pd_buf d ! pd_head d # ring_content N (ring_pop N d)"
proof -
  let ?d = "ring_pop N d" and ?k = "available_read N d"
  obtain k where k: "?k = Suc k"
    using assms is_empty_available [OF inv] by (cases ?k) auto
  have inv': "ring_inv N ?d"
    using inv by (auto simp: ring_inv_def ring_pop_def)
  have av: "available_read N ?d = k"
  proof (rule available_read_unique [OF inv'])
    show "k < N" using k available_read_less [OF inv] by simp
    show "pd_tail ?d = (pd_head ?d + k) mod N"
      using tail_head [OF inv] k by (simp add: ring_pop_def mod_add_left_eq)
  qed
  have "ring_content N d = pd_buf d ! (pd_head d mod N)
        # map (\<lambda>i. pd_buf d ! ((pd_head d + Suc i) mod N)) [0..<k]"
    unfolding ring_content_def k by (simp add: map_upt_Suc del: upt_Suc)
  also have "pd_head d mod N = pd_head d" using inv by (simp add: ring_inv_def)
  also have "map (\<lambda>i. pd_buf d ! ((pd_head d + Suc i) mod N)) [0..<k] = ring_content N ?d"
    unfolding ring_content_def av by (simp add: ring_pop_def mod_add_left_eq)
  finally show ?thesis using inv' by simp
qed

lemma pd_write_spec:
  "ring_inv N d \<Longrightarrow> pd_write N bs d = (n, d') \<Longrightarrow>
     ring_inv N d' \<and> n = min (length bs) (N - 1 - length (ring_content N d))
     \<and> ring_content N d' = ring_content N d @ take n bs"
proof (induction bs arbitrary: d n)
  case (Cons b bs)
  show ?case
  proof (cases "pd_is_full N d")
    case True
    with Cons.prems available_sum [of N d] show ?thesis by (auto simp: is_full_available)
  next
    case False
    obtain m where m: "pd_write N bs (ring_push N b d) = (m, d')" "n = Suc m"
      using Cons.prems False by (auto simp: ring_push_def split: prod.splits)
    have "available_read N d < N - 1"
      using Cons.prems(1) False available_sum [of N d] is_full_available [of N d] available_read_less [of N d]
      by linarith
    moreover have "length (ring_content N (ring_push N b d)) = Suc (length (ring_content N d))"
      using ring_push_spec [OF Cons.prems(1) False, of b] by (metis length_append_singleton)
    ultimately show ?thesis
      using Cons.IH [OF _ m(1)] ring_push_spec [OF Cons.prems(1) False, of b] m(2) by auto
  qed
qed simp

lemma pd_read_spec:
  "ring_inv N d \<Longrightarrow> pd_read N n d = (bs, d') \<Longrightarrow>
     ring_inv N d' \<and> bs = take n (ring_content N d) \<and> ring_content N d' = drop n (ring_content N d)"
proof (induction n arbitrary: d bs)
  case (Suc n)
  show ?case
  proof (cases "pd_is_empty d")
    case True
    with Suc.prems have "ring_content N d = []"
      using is_empty_available [of N d] by (metis length_0_conv length_ring_content)
    with Suc.prems True show ?thesis by auto
  next
    case False
    obtain cs where cs: "pd_read N n (ring_pop N d) = (cs, d')" "bs = pd_buf d ! pd_head d # cs"
      using Suc.prems False by (auto simp: ring_pop_def split: prod.splits)
    with Suc.IH [OF _ cs(1)] ring_pop_spec [OF Suc.prems(1) False] show ?thesis by auto
  qed
qed simp

lemma ring_new [simp]:
  "0 < N \<Longrightarrow> ring_inv N (pipe_data_new N)" "ring_content N (pipe_data_new N) = []"
  by (simp_all add: ring_inv_def pipe_data_new_def ring_content_def available_read_def)

interpretation ring: byte_queue "ring_inv N" "ring_content N" "N - 1" "pd_write N" "pd_read N" for N
proof
  show "length (ring_content N q) \<le> N - 1" if "ring_inv N q" for q
    using available_read_less [OF that] by simp
qed (use pd_write_spec pd_read_spec in blast)+


section \<open>Reads and writes of a pipe in use\<close>

abbreviation pipe_content :: "nat \<Rightarrow> pipe \<Rightarrow> u8 list" where
  "pipe_content N p \<equiv> ring_content N (pipe_inode p)"

lemma content_Nil_iff: "ring_inv N d \<Longrightarrow> ring_content N d = [] \<longleftrightarrow> available_read N d = 0"
  using length_ring_content [of N d] by (metis length_0_conv)

lemma pd_write_frame:
  "pd_write N bs d = (n, d') \<Longrightarrow> read_wait d' = read_wait d \<and> write_wait d' = write_wait d"
  by (induction N bs d arbitrary: n rule: pd_write.induct)
    (fastforce split: if_splits prod.splits)+

lemma pd_read_frame:
  "pd_read N m d = (bs, d') \<Longrightarrow> read_wait d' = read_wait d \<and> write_wait d' = write_wait d"
  by (induction N m d arbitrary: bs rule: pd_read.induct)
    (fastforce split: if_splits prod.splits)+

lemma pf_read_cases:
  assumes inv: "ring_inv N (pipe_inode p)" and "buf \<noteq> []"
  shows "pf_read N buf p =
    (if pipe_content N p = [] then (if is_write_wait p then Block else Done (buf, 0), p)
     else let bs = take (length buf) (pipe_content N p)
          in (Done (splice 0 bs buf, length bs),
              p\<lparr>pipe_inode := snd (pd_read N (length bs) (pipe_inode p))\<rparr>))"
proof (cases "pipe_content N p = []")
  case True
  with assms show ?thesis
    by (auto simp: pf_read_def pipe_read_at_def content_Nil_iff)
next
  case False
  let ?m = "min (available_read N (pipe_inode p)) (length buf)"
  obtain bs d where r: "pd_read N ?m (pipe_inode p) = (bs, d)" by fastforce
  have "bs = take (length buf) (pipe_content N p)"
    using pd_read_spec [OF inv r] by (metis length_ring_content min.commute take_all_iff take_take order_refl)
  moreover have "length (take (length buf) (pipe_content N p)) = ?m"
    by (simp add: min.commute)
  ultimately show ?thesis
    using False assms r by (simp add: pf_read_def pipe_read_at_def content_Nil_iff Let_def)
qed

lemma pf_write_cases:
  assumes inv: "ring_inv N (pipe_inode p)" and "buf \<noteq> []"
  shows "\<exists>d. pf_write N buf p =
    (if length (pipe_content N p) = N - 1 then (if is_read_wait p then Block else Done 0, p)
     else (Done (min (length buf) (N - 1 - length (pipe_content N p))), p\<lparr>pipe_inode := d\<rparr>))
    \<and> (length (pipe_content N p) < N - 1 \<longrightarrow> ring_inv N d
        \<and> ring_content N d = pipe_content N p @ take (N - 1 - length (pipe_content N p)) buf
        \<and> read_wait d = read_wait (pipe_inode p) \<and> write_wait d = write_wait (pipe_inode p))"
proof -
  have sum: "available_write N (pipe_inode p) = N - 1 - length (pipe_content N p)"
    "length (pipe_content N p) \<le> N - 1"
    using available_sum [OF inv] available_read_less [OF inv] by auto
  let ?m = "min (available_write N (pipe_inode p)) (length buf)"
  obtain n d where w: "pd_write N (take ?m buf) (pipe_inode p) = (n, d)" by fastforce
  from pd_write_spec [OF inv w] have spec: "ring_inv N d" "n = ?m"
    "ring_content N d = pipe_content N p @ take n (take ?m buf)"
    using sum by auto
  have "take n (take ?m buf) = take (N - 1 - length (pipe_content N p)) buf"
    using spec(2) sum(1) by (simp add: min_def)
  with spec w sum assms pd_write_frame [OF w] show ?thesis
    by (intro exI [of _ d]) (auto simp: pf_write_def pipe_write_at_def Let_def min.commute)
qed

lemma pf_write_fits:
  assumes inv: "ring_inv N (pipe_inode p)" and "buf \<noteq> []" and fits: "length (pipe_content N p) + length buf < N"
  shows "\<exists>d. pf_write N buf p = (Done (length buf), p\<lparr>pipe_inode := d\<rparr>) \<and> ring_inv N d
    \<and> ring_content N d = pipe_content N p @ buf
    \<and> read_wait d = read_wait (pipe_inode p) \<and> write_wait d = write_wait (pipe_inode p)"
proof -
  have room: "length (pipe_content N p) < N - 1" and "length buf \<le> N - 1 - length (pipe_content N p)"
    using fits \<open>buf \<noteq> []\<close> by (cases buf; simp)+
  then have m: "min (length buf) (N - 1 - length (pipe_content N p)) = length buf"
    "take (N - 1 - length (pipe_content N p)) buf = buf" by simp_all
  from room have "length (pipe_content N p) \<noteq> N - 1" by simp
  with pf_write_cases [OF inv \<open>buf \<noteq> []\<close>] room show ?thesis unfolding m by metis
qed

text \<open>
  Every state a pipe reaches by interleaved reads, writes, flag changes and closed ends,
  with the bytes the writes reported as written and those the reads reported as read.
\<close>

inductive pipe_run :: "abi \<Rightarrow> nat \<Rightarrow> pipe \<Rightarrow> u8 list \<Rightarrow> u8 list \<Rightarrow> bool" for A N where
  pipe_start: "make_pipe_file A N = (hs, p) \<Longrightarrow> pipe_run A N p [] []"
| pipe_read: "pipe_run A N p w r \<Longrightarrow> pf_read N buf p = (Done (buf', n), p') \<Longrightarrow>
    pipe_run A N p' w (r @ take n buf')"
| pipe_read_block: "pipe_run A N p w r \<Longrightarrow> pf_read N buf p = (Block, p') \<Longrightarrow> pipe_run A N p' w r"
| pipe_write: "pipe_run A N p w r \<Longrightarrow> pf_write N buf p = (Done n, p') \<Longrightarrow>
    pipe_run A N p' (w @ take n buf) r"
| pipe_write_block: "pipe_run A N p w r \<Longrightarrow> pf_write N buf p = (Block, p') \<Longrightarrow> pipe_run A N p' w r"
| pipe_flag: "pipe_run A N p w r \<Longrightarrow> bt_get (pipe_files p) h \<noteq> None \<Longrightarrow>
    pipe_run A N (pf_set_open_flag h f p) w r"
| pipe_drop: "pipe_run A N p w r \<Longrightarrow> pipe_run A N (pf_drop h p) w r"

definition pipe_ok :: "nat \<Rightarrow> pipe \<Rightarrow> u8 list \<Rightarrow> u8 list \<Rightarrow> bool" where
  "pipe_ok N p w r \<longleftrightarrow> ring_inv N (pipe_inode p) \<and> w = r @ pipe_content N p
     \<and> read_wait (pipe_inode p) = Some 0 \<and> write_wait (pipe_inode p) = Some 1"

lemma pipe_ok_read:
  assumes ok: "pipe_ok N p w r" and rd: "pf_read N buf p = (res, p')"
  shows "case res of Block \<Rightarrow> pipe_ok N p' w r | Done (buf', n) \<Rightarrow> pipe_ok N p' w (r @ take n buf')"
proof (cases "buf = []")
  case True
  with assms show ?thesis by (auto simp: pf_read_def)
next
  case False
  from ok have inv: "ring_inv N (pipe_inode p)" by (simp add: pipe_ok_def)
  note c = pf_read_cases [OF inv False]
  show ?thesis
  proof (cases "pipe_content N p = []")
    case True
    with c rd ok show ?thesis by (auto split: if_splits)
  next
    case ne: False
    let ?bs = "take (length buf) (pipe_content N p)"
    obtain cs d where r: "pd_read N (length ?bs) (pipe_inode p) = (cs, d)" by fastforce
    from c ne rd r have res: "res = Done (splice 0 ?bs buf, length ?bs)" "p' = p\<lparr>pipe_inode := d\<rparr>"
      by (simp_all add: Let_def)
    have "take (length ?bs) (splice 0 ?bs buf) = ?bs" by (rule take_splice_0)
    moreover have "ring_content N d = drop (length buf) (pipe_content N p)" "ring_inv N d"
      using pd_read_spec [OF inv r] by (auto simp: min_def)
    moreover have "read_wait d = Some 0" "write_wait d = Some 1"
      using pd_read_frame [OF r] ok by (simp_all add: pipe_ok_def)
    ultimately show ?thesis using ok res by (simp add: pipe_ok_def)
  qed
qed

lemma pipe_ok_write:
  assumes ok: "pipe_ok N p w r" and wr: "pf_write N buf p = (res, p')"
  shows "case res of Block \<Rightarrow> pipe_ok N p' w r | Done n \<Rightarrow> pipe_ok N p' (w @ take n buf) r"
proof (cases "buf = []")
  case True
  with assms show ?thesis by (auto simp: pf_write_def)
next
  case False
  from ok have inv: "ring_inv N (pipe_inode p)" by (simp add: pipe_ok_def)
  have le: "length (pipe_content N p) \<le> N - 1" using available_read_less [OF inv] by simp
  from pf_write_cases [OF inv False] wr ok le show ?thesis
    by (auto simp: pipe_ok_def min_def split: if_splits)
qed

lemma pipe_run_ok: "pipe_run A N p w r \<Longrightarrow> 0 < N \<Longrightarrow> pipe_ok N p w r"
proof (induction rule: pipe_run.induct)
  case (pipe_start hs p)
  moreover have "ring_inv N (d\<lparr>read_wait := x, write_wait := y\<rparr>) = ring_inv N d"
    "ring_content N (d\<lparr>read_wait := x, write_wait := y\<rparr>) = ring_content N d" for d x y
    by (simp_all add: ring_inv_def ring_content_def available_read_def)
  ultimately show ?case
    by (auto simp: make_pipe_file_def pipe_ok_def set_reader_def set_sender_def)
next
  case (pipe_read p w r buf buf' n p')
  then show ?case using pipe_ok_read by fastforce
next
  case (pipe_read_block p w r buf p')
  then show ?case using pipe_ok_read by fastforce
next
  case (pipe_write p w r buf n p')
  then show ?case using pipe_ok_write by fastforce
next
  case (pipe_write_block p w r buf p')
  then show ?case using pipe_ok_write by fastforce
qed (simp_all add: pipe_ok_def pf_set_open_flag_def pf_drop_def)


section \<open>Properties\<close>

text \<open>C6: The ring buffer of a pipe is a bounded FIFO of PIPE_BUF - 1 bytes: whatever sequence of
  buffer reads and writes runs on a new pipe, the bytes delivered followed by the bytes still in
  the buffer are exactly the bytes accepted, in order, and at most PIPE_BUF - 1 are under way.\<close>

theorem pipe_ring_fifo:
  assumes "0 < N" and "queue_run (pd_write N) (pd_read N) ops (pipe_data_new N) = (w, r, d)"
  shows "w = r @ ring_content N d \<and> length w \<le> length r + (N - 1)
    \<and> available_read N d + available_write N d = N - 1"
proof -
  have inv: "ring_inv N (pipe_data_new N)" "ring_content N (pipe_data_new N) = []"
    using assms(1) by simp_all
  note f = ring.run_fifo [OF inv assms(2)]
  have "ring_inv N d" using ring.run_law [OF inv(1) assms(2)] by simp
  with f available_sum show ?thesis by blast
qed

theorem pipe_ring_fifo_witness:
  "\<exists>r d. queue_run (pd_write 4) (pd_read 4) [Put [1, 2, 3, 4], Get 2, Put [5, 6], Get 3]
        (pipe_data_new 4) = ([1, 2, 3, 5, 6], r, d) \<and> [1, 2, 3, 5, 6] = r @ ring_content 4 d"
proof -
  let ?ops = "[Put [1, 2, 3, 4], Get 2, Put [5, 6], Get 3] :: u8 queue_op list"
  have w: "fst (queue_run (pd_write 4) (pd_read 4) ?ops (pipe_data_new 4)) = [1, 2, 3, 5, 6]"
    by code_simp
  obtain r d where e: "queue_run (pd_write 4) (pd_read 4) ?ops (pipe_data_new 4) = ([1, 2, 3, 5, 6], r, d)"
    using w by (metis prod.collapse)
  with pipe_ring_fifo [OF _ e] show ?thesis by auto
qed

text \<open>C7: In every run of a pipe (reads, writes, blocked attempts, flag changes and closed ends
  in any order) the bytes the reads returned are a prefix of the bytes the writes accepted, and
  the rest is in the buffer. A read that reports 0 bytes for a non-empty buffer is an end of file:
  no sender is open and every accepted byte has been read; a read that blocks has an open sender
  and an empty pipe, and it returns as soon as the sender is closed.\<close>

theorem pipe_run_eof:
  assumes run: "pipe_run A N p w r" and "0 < N" and "buf \<noteq> []"
  shows "w = r @ pipe_content N p
    \<and> (\<forall>buf' p'. pf_read N buf p = (Done (buf', 0), p') \<longrightarrow> bt_get (pipe_files p) 1 = None \<and> w = r)
    \<and> (\<forall>p'. pf_read N buf p = (Block, p') \<longrightarrow> bt_get (pipe_files p) 1 \<noteq> None \<and> w = r
          \<and> pf_read N buf (pf_drop 1 p') = (Done (buf, 0), pf_drop 1 p'))"
proof -
  from pipe_run_ok [OF run \<open>0 < N\<close>] have inv: "ring_inv N (pipe_inode p)"
    and w: "w = r @ pipe_content N p" and ww: "write_wait (pipe_inode p) = Some 1"
    by (simp_all add: pipe_ok_def)
  note rd = pf_read_cases [OF inv \<open>buf \<noteq> []\<close>]
  have dropped: "pf_read N buf (pf_drop 1 p) = (Done (buf, 0), pf_drop 1 p)" if "pipe_content N p = []"
    using pf_read_cases [of N "pf_drop 1 p" buf] inv ww that \<open>buf \<noteq> []\<close>
    by (simp add: pf_drop_def is_write_wait_def upgrade_def)
  show ?thesis
    using rd w ww dropped \<open>buf \<noteq> []\<close> content_Nil_iff [OF inv]
    by (auto simp: is_write_wait_def upgrade_def Let_def split: if_splits)
qed

theorem pipe_run_eof_witness:
  "pf_read 4 [0] (snd (make_pipe_file linux_abi 4)) = (Block, snd (make_pipe_file linux_abi 4))
   \<and> pf_read 4 [0] (pf_drop 1 (snd (make_pipe_file linux_abi 4)))
       = (Done ([0], 0), pf_drop 1 (snd (make_pipe_file linux_abi 4)))"
proof -
  let ?p = "snd (make_pipe_file linux_abi 4)"
  have run: "pipe_run linux_abi 4 ?p [] []" by (rule pipe_start [of _ _ "(0, 1)"]) (simp add: make_pipe_file_def)
  have blk: "pf_read 4 [0] ?p = (Block, ?p)"
    by (simp add: make_pipe_file_def pf_read_def pipe_read_at_def set_reader_def set_sender_def
        pipe_data_new_def available_read_def is_write_wait_def upgrade_def)
  with pipe_run_eof [OF run, of "[0]"] show ?thesis by simp
qed

text \<open>A write to a pipe with room never blocks and reports the number of bytes stored, the
  smaller of the buffer and the room: a short write loses the tail of the buffer only, which the
  return value shows. A write to a full pipe stores nothing; it reports 0 (no error, no signal)
  when no reader is open and blocks otherwise.\<close>

theorem pipe_write_outcome:
  assumes run: "pipe_run A N p w r" and "0 < N" and "buf \<noteq> []"
  shows "(case pf_write N buf p of
      (Done n, p') \<Rightarrow> n = min (length buf) (available_write N (pipe_inode p))
          \<and> pipe_content N p' = pipe_content N p @ take n buf
          \<and> (n = 0 \<longrightarrow> available_write N (pipe_inode p) = 0 \<and> bt_get (pipe_files p) 0 = None)
    | (Block, p') \<Rightarrow> p' = p \<and> available_write N (pipe_inode p) = 0 \<and> bt_get (pipe_files p) 0 \<noteq> None)"
proof -
  from pipe_run_ok [OF run \<open>0 < N\<close>] have inv: "ring_inv N (pipe_inode p)"
    and rw: "read_wait (pipe_inode p) = Some 0" by (simp_all add: pipe_ok_def)
  have sum: "available_write N (pipe_inode p) = N - 1 - length (pipe_content N p)"
    using available_sum [OF inv] by simp
  have le: "length (pipe_content N p) \<le> N - 1" using available_read_less [OF inv] by simp
  obtain d where d: "pf_write N buf p =
      (if length (pipe_content N p) = N - 1 then (if is_read_wait p then Block else Done 0, p)
       else (Done (min (length buf) (available_write N (pipe_inode p))), p\<lparr>pipe_inode := d\<rparr>))"
    "length (pipe_content N p) < N - 1 \<Longrightarrow>
       ring_content N d = pipe_content N p @ take (available_write N (pipe_inode p)) buf"
    using pf_write_cases [OF inv \<open>buf \<noteq> []\<close>] unfolding sum by blast
  show ?thesis
  proof (cases "length (pipe_content N p) = N - 1")
    case True
    with d(1) sum rw show ?thesis by (auto simp: is_read_wait_def upgrade_def)
  next
    case False
    with le have "length (pipe_content N p) < N - 1" by simp
    with d sum \<open>buf \<noteq> []\<close> show ?thesis by (auto simp: min_def)
  qed
qed

theorem pipe_write_outcome_witness:
  "fst (pf_write 4 [7, 8, 9, 10, 11] (snd (make_pipe_file linux_abi 4))) = Done 3"
proof -
  let ?p = "snd (make_pipe_file linux_abi 4)"
  have run: "pipe_run linux_abi 4 ?p [] []" by (rule pipe_start [of _ _ "(0, 1)"]) (simp add: make_pipe_file_def)
  have "available_write 4 (pipe_inode ?p) = 3"
    by (simp add: make_pipe_file_def set_reader_def set_sender_def pipe_data_new_def available_write_def)
  moreover obtain x p' where "pf_write 4 [7, 8, 9, 10, 11] ?p = (x, p')" by fastforce
  ultimately show ?thesis
    using pipe_write_outcome [OF run, of "[7, 8, 9, 10, 11]"] by (cases x) simp_all
qed

text \<open>Polling a pipe tells the truth: with distinct event bits, the input bit is reported
  exactly when it was asked for and there are bytes to read, the output bit exactly when it was
  asked for and there is room, hang-up exactly when only the reader's end is open and error
  exactly when only the sender's is, whether asked for or not.\<close>

theorem pipe_poll_truth:
  assumes "VP_IN A = 1" "VP_OUT A = 4" "VP_ERR A = 8" "VP_HUP A = 0x10"
    and "ring_inv N (pipe_inode p)"
  shows "(contains (pipe_poll A N ev p) (VP_IN A) \<longleftrightarrow> contains ev (VP_IN A) \<and> pipe_content N p \<noteq> [])
    \<and> (contains (pipe_poll A N ev p) (VP_OUT A) \<longleftrightarrow>
         contains ev (VP_OUT A) \<and> length (pipe_content N p) < N - 1)
    \<and> (contains (pipe_poll A N ev p) (VP_HUP A) \<longleftrightarrow> is_read_wait p \<and> \<not> is_write_wait p)
    \<and> (contains (pipe_poll A N ev p) (VP_ERR A) \<longleftrightarrow> \<not> is_read_wait p \<and> is_write_wait p)"
proof -
  have bits: "\<not> contains (0::16 word) 1" "\<not> contains (0::16 word) 4" "\<not> contains (0::16 word) 8"
    "\<not> contains (0::16 word) 0x10"
    by (simp_all add: contains_def)
  have "0 < available_read N (pipe_inode p) \<longleftrightarrow> pipe_content N p \<noteq> []"
    using content_Nil_iff [OF assms(5)] by auto
  moreover have "0 < available_write N (pipe_inode p) \<longleftrightarrow> length (pipe_content N p) < N - 1"
    using available_sum [OF assms(5)] available_read_less [OF assms(5)] by auto
  ultimately show ?thesis
    unfolding pipe_poll_def Let_def assms(1-4)
    by (auto simp: contains_def bit.conj_disj_distrib bit.conj_disj_distrib2)
qed

theorem pipe_poll_truth_witness:
  "contains (pipe_poll linux_abi 4 5 (pf_drop 1 (snd (make_pipe_file linux_abi 4)))) 0x10
   \<and> \<not> contains (pipe_poll linux_abi 4 5 (pf_drop 1 (snd (make_pipe_file linux_abi 4)))) 1"
proof -
  let ?p = "pf_drop 1 (snd (make_pipe_file linux_abi 4))"
  have "ring_inv 4 (pipe_inode ?p)" "pipe_content 4 ?p = []" "is_read_wait ?p" "\<not> is_write_wait ?p"
    by (simp_all add: make_pipe_file_def set_reader_def set_sender_def pf_drop_def ring_inv_def
        pipe_data_new_def ring_content_def available_read_def is_read_wait_def is_write_wait_def upgrade_def)
  with pipe_poll_truth [of linux_abi 4 ?p 5] show ?thesis by (simp add: linux_abi_def)
qed

end
