(* ===== verification/EventFd.thy ===== *)
theory EventFd
  imports Externals
begin

text \<open>
  \<open>common/vfs/vfs/src/eventfd.rs\<close>: the 64-bit event counter behind \<open>eventfd\<close>, with its
  semaphore and non-blocking modes and the queue of the tasks that sleep on it; and
  \<open>common/vfs/vfs/src/epoll.rs\<close>: the interest list of an epoll instance.

  A read or write is modelled up to the point where the task goes to sleep: \<open>Block\<close> is the
  branch that queued its tid and called \<open>wait_now\<close>; when it is woken it runs the loop again,
  that is, the same operation on the state of that moment.
\<close>

section \<open>The event counter\<close>

record eventfd =
  efd_count :: u64
  efd_flags :: u32
  efd_id :: u32

record eventfd_inode =
  efd :: eventfd
  efd_queue :: "nat list"

definition eventfd_new :: "u64 \<Rightarrow> u32 \<Rightarrow> u32 \<Rightarrow> eventfd" where
  "eventfd_new count flags i = \<lparr> efd_count = count, efd_flags = flags, efd_id = i \<rparr>"

definition eventfd_inode_new :: "eventfd \<Rightarrow> eventfd_inode" where
  "eventfd_inode_new e = \<lparr> efd = e, efd_queue = [] \<rparr>"

text \<open>\<open>eventfd\<close>: the state is the next \<open>EVENTFD_ID\<close>.\<close>

definition eventfd_create :: "abi \<Rightarrow> u32 \<Rightarrow> u32 \<Rightarrow> (u32, eventfd_inode) act" where
  "eventfd_create A init_val flags =
     bind get_state (\<lambda>id.
     bind (modify_state (\<lambda>id. id + 1)) (\<lambda>_.
     ret (eventfd_inode_new (eventfd_new (ucast init_val) (from_bits_truncate (EFD_ALL A) flags) id))))"

text \<open>Queueing the current task and going to sleep.\<close>

definition eventfd_sleep :: "kernel \<Rightarrow> (eventfd_inode, 'a progress) act" where
  "eventfd_sleep K =
     bind (lift (k_current_tid K)) (\<lambda>t.
     bind (lift (unwrap t)) (\<lambda>tid.
     bind (modify_state (\<lambda>s. s\<lparr>efd_queue := efd_queue s @ [tid]\<rparr>)) (\<lambda>_.
     bind (lift (k_wait_now K)) (\<lambda>_. ret Block))))"

definition eventfd_read :: "abi \<Rightarrow> kernel \<Rightarrow> u8 list
    \<Rightarrow> (eventfd_inode, (u8 list \<times> nat) progress) act" where
  "eventfd_read A K buf =
     (if length buf < 8 then fail EINVAL
      else bind get_state (\<lambda>s.
        if efd_count (efd s) = 0 then
          (if contains (efd_flags (efd s)) (EFD_NONBLOCK A) then fail EAGAIN else eventfd_sleep K)
        else if contains (efd_flags (efd s)) (EFD_SEMAPHORE A) then
          bind (modify_state (\<lambda>s. s\<lparr>efd := (efd s)\<lparr>efd_count := efd_count (efd s) - 1\<rparr>\<rparr>)) (\<lambda>_.
          ret (Done (splice 0 (to_ne_bytes 1) buf, 8)))
        else
          bind (modify_state (\<lambda>s. s\<lparr>efd := (efd s)\<lparr>efd_count := 0\<rparr>\<rparr>)) (\<lambda>_.
          ret (Done (splice 0 (to_ne_bytes (efd_count (efd s))) buf, 8)))))"

text \<open>The loop that pops the queue and wakes each task; the first failing call ends it.\<close>

fun eventfd_wake_all :: "kernel \<Rightarrow> nat list \<Rightarrow> unit res \<times> nat list" where
  "eventfd_wake_all K [] = (Ok (), [])"
| "eventfd_wake_all K (tid # q) =
     (case k_wake_up K tid of Inl e \<Rightarrow> (Inl e, q) | Inr _ \<Rightarrow> eventfd_wake_all K q)"

definition eventfd_write :: "abi \<Rightarrow> kernel \<Rightarrow> u8 list \<Rightarrow> (eventfd_inode, nat progress) act" where
  "eventfd_write A K buf =
     (if length buf < 8 then fail EINVAL
      else let val = from_ne_bytes (take 8 buf) in
        if val = - 1 then fail EINVAL
        else bind get_state (\<lambda>s.
          if \<not> val < - 1 - efd_count (efd s) then
            (if contains (efd_flags (efd s)) (EFD_NONBLOCK A) then fail EAGAIN else eventfd_sleep K)
          else
            bind (modify_state (\<lambda>s. s\<lparr>efd := (efd s)\<lparr>efd_count := efd_count (efd s) + val\<rparr>\<rparr>)) (\<lambda>_.
            let (r, q) = eventfd_wake_all K (efd_queue s) in
            bind (modify_state (\<lambda>s. s\<lparr>efd_queue := q\<rparr>)) (\<lambda>_.
            bind (lift r) (\<lambda>_. ret (Done 8))))))"

definition eventfd_poll :: "abi \<Rightarrow> u32 \<Rightarrow> eventfd_inode \<Rightarrow> u32" where
  "eventfd_poll A event s =
     (let events = 0;
          events = (if efd_count (efd s) \<noteq> 0 \<and> contains event (EPOLLIN A)
                    then events OR EPOLLIN A else events)
      in if efd_count (efd s) \<noteq> - 1 \<and> contains event (EPOLLOUT A)
         then events OR EPOLLOUT A else events)"

section \<open>The interest list of an epoll instance\<close>

datatype epoll_ctl_op = EpollCtlAdd | EpollCtlDel | EpollCtlMod

record 'e epoll_file =
  ep_flags :: usize
  interest :: "(nat, 'e) btree"

definition epoll_new :: "usize \<Rightarrow> 'e epoll_file" where
  "epoll_new flags = \<lparr> ep_flags = flags, interest = bt_empty \<rparr>"

definition epoll_ctl :: "epoll_ctl_op \<Rightarrow> nat \<Rightarrow> 'e \<Rightarrow> 'e epoll_file \<Rightarrow> 'e epoll_file" where
  "epoll_ctl op fd events f = (case op of
       EpollCtlAdd \<Rightarrow> f\<lparr>interest := bt_insert fd events (interest f)\<rparr>
     | EpollCtlDel \<Rightarrow> f\<lparr>interest := bt_remove fd (interest f)\<rparr>
     | EpollCtlMod \<Rightarrow> f\<lparr>interest := bt_insert fd events (interest f)\<rparr>)"

section \<open>The outcome of each operation\<close>

lemma eventfd_sleep_run:
  "eventfd_sleep K s = (case k_current_tid K of
       Inl e \<Rightarrow> (Inl e, s)
     | Inr None \<Rightarrow> (panic, s)
     | Inr (Some tid) \<Rightarrow> (case k_wait_now K of Inl e \<Rightarrow> Inl e | Inr _ \<Rightarrow> Inr Block,
                           s\<lparr>efd_queue := efd_queue s @ [tid]\<rparr>))"
  by (auto simp: eventfd_sleep_def act_simps split: sum.splits option.splits)

lemma wake_all_ok: "(\<And>t. k_wake_up K t = Ok ()) \<Longrightarrow> eventfd_wake_all K q = (Ok (), [])"
  by (induction q) simp_all

lemma unat_max [simp]: "unat (- 1 :: u64) = 2 ^ 64 - 1"
  by (simp add: unsigned_minus_1_eq_mask mask_eq_exp_minus_1)

lemma room_iff: "val < - 1 - c \<longleftrightarrow> unat c + unat val < 2 ^ 64 - 1" for c val :: u64
proof -
  have "unat (- 1 - c) = 2 ^ 64 - 1 - unat c" by (simp add: unat_sub)
  moreover have "unat c < 2 ^ 64" using unsigned_less [of c] by simp
  ultimately show ?thesis by (auto simp: word_less_nat_alt)
qed

lemma unat_add_room: "val < - 1 - c \<Longrightarrow> unat (c + val) = unat c + unat val" for c val :: u64
  by (subst unat_add_lem [symmetric]) (simp add: room_iff)

lemma unat_pred: "c \<noteq> 0 \<Longrightarrow> unat (c - 1) = unat c - 1" for c :: u64
  by (simp add: unat_minus_one)

lemma take_splice_bytes: "8 \<le> length buf \<Longrightarrow> take 8 (splice 0 (to_ne_bytes v) buf) = to_ne_bytes v"
  by (simp add: splice_def)

text \<open>The branches of a read and of a write, as equations on the state.\<close>

lemma eventfd_read_run:
  "eventfd_read A K buf s =
    (if length buf < 8 then (Err EINVAL, s)
     else if efd_count (efd s) = 0 then
       (if contains (efd_flags (efd s)) (EFD_NONBLOCK A) then (Err EAGAIN, s) else eventfd_sleep K s)
     else let semaphore = contains (efd_flags (efd s)) (EFD_SEMAPHORE A) in
       (Ok (Done (splice 0 (to_ne_bytes (if semaphore then 1 else efd_count (efd s))) buf, 8)),
        s\<lparr>efd := (efd s)\<lparr>efd_count := (if semaphore then efd_count (efd s) - 1 else 0)\<rparr>\<rparr>))"
  by (simp add: eventfd_read_def act_simps Let_def)

lemma eventfd_write_run:
  "eventfd_write A K buf s =
    (let val = from_ne_bytes (take 8 buf) in
     if length buf < 8 \<or> val = - 1 then (Err EINVAL, s)
     else if \<not> val < - 1 - efd_count (efd s) then
       (if contains (efd_flags (efd s)) (EFD_NONBLOCK A) then (Err EAGAIN, s) else eventfd_sleep K s)
     else let (r, q) = eventfd_wake_all K (efd_queue s) in
       (case r of Inl e \<Rightarrow> Inl e | Inr _ \<Rightarrow> Ok (Done 8),
        s\<lparr>efd := (efd s)\<lparr>efd_count := efd_count (efd s) + val\<rparr>, efd_queue := q\<rparr>))"
  by (auto simp: eventfd_write_def act_simps Let_def split: prod.splits sum.splits)

section \<open>Runs\<close>

text \<open>
  The states an event counter reaches when tasks read and write it in any order, with the sum
  of the values the writes added (the initial value included) and of those the reads returned.
  An attempt that fails or goes to sleep adds nothing, when every wake-up call works.
\<close>

inductive eventfd_run :: "abi \<Rightarrow> eventfd_inode \<Rightarrow> nat \<Rightarrow> nat \<Rightarrow> bool" for A where
  efd_start: "eventfd_create A v fl i = (Ok s, i') \<Longrightarrow> eventfd_run A s (unat v) 0"
| efd_read: "eventfd_run A s w r \<Longrightarrow> eventfd_read A K buf s = (Ok (Done (buf', n)), s') \<Longrightarrow>
    eventfd_run A s' w (r + unat (from_ne_bytes (take n buf')))"
| efd_read_other: "eventfd_run A s w r \<Longrightarrow> eventfd_read A K buf s = (x, s') \<Longrightarrow>
    (\<And>y. x \<noteq> Ok (Done y)) \<Longrightarrow> eventfd_run A s' w r"
| efd_write: "eventfd_run A s w r \<Longrightarrow> eventfd_write A K buf s = (Ok (Done n), s') \<Longrightarrow>
    eventfd_run A s' (w + unat (from_ne_bytes (take n buf))) r"
| efd_write_other: "eventfd_run A s w r \<Longrightarrow> eventfd_write A K buf s = (x, s') \<Longrightarrow>
    (\<And>t. k_wake_up K t = Ok ()) \<Longrightarrow> (\<And>y. x \<noteq> Ok (Done y)) \<Longrightarrow> eventfd_run A s' w r"

lemma eventfd_sleep_frame: "eventfd_sleep K s = (x, s') \<Longrightarrow> efd s' = efd s"
  by (auto simp: eventfd_sleep_run split: sum.splits option.splits)

lemma eventfd_sleep_not_done [simp]: "eventfd_sleep K s \<noteq> (Ok (Done y), s')"
  by (auto simp: eventfd_sleep_run split: sum.splits option.splits)

lemma eventfd_run_sum:
  "eventfd_run A s w r \<Longrightarrow> w = r + unat (efd_count (efd s)) \<and> efd_count (efd s) \<noteq> - 1"
proof (induction rule: eventfd_run.induct)
  case (efd_start v fl i s i')
  have "unat v < 2 ^ 32" using unsigned_less [of v] by simp
  then have "unat (ucast v :: u64) \<noteq> 2 ^ 64 - 1" by (simp add: unat_ucast_32_64)
  then have "(ucast v :: u64) \<noteq> - 1" by (metis unat_max)
  with efd_start show ?case
    by (auto simp: eventfd_create_def act_simps eventfd_inode_new_def eventfd_new_def unat_ucast_32_64)
next
  case (efd_read s w r K buf buf' n s')
  then show ?case
    by (auto simp: eventfd_read_run Let_def take_splice_bytes unat_pred unat_gt_0 Suc_leI split: if_splits)
next
  case (efd_read_other s w r K buf x s')
  then show ?case
    using eventfd_sleep_frame [of K s x s'] by (auto simp: eventfd_read_run Let_def split: if_splits)
next
  case (efd_write s w r K buf n s')
  let ?val = "from_ne_bytes (take 8 buf)"
  from efd_write.hyps have room: "?val < - 1 - efd_count (efd s)" and n: "n = 8"
    and c: "efd_count (efd s') = efd_count (efd s) + ?val"
    by (auto simp: eventfd_write_run Let_def split: if_splits prod.splits sum.splits)
  have "efd_count (efd s') \<noteq> - 1"
    using room unat_add_room [OF room] unat_max unfolding c room_iff by (metis nat_neq_iff)
  with efd_write.IH n unat_add_room [OF room] show ?case by (simp add: c)
next
  case (efd_write_other s w r K buf x s')
  then show ?case
    using eventfd_sleep_frame [of K s x s']
    by (auto simp: eventfd_write_run Let_def wake_all_ok split: if_splits)
qed


section \<open>Properties\<close>

text \<open>C8: In every interleaving of reads and writes of an event counter, the values written (with
  the initial one) sum up to the values read plus the counter: no event is lost or counted twice,
  the addition never wraps, and the counter never reaches u64::MAX.\<close>

theorem eventfd_conservation:
  assumes "eventfd_run A s w r"
  shows "w = r + unat (efd_count (efd s)) \<and> unat (efd_count (efd s)) < 2 ^ 64 - 1"
proof -
  from eventfd_run_sum [OF assms] have "w = r + unat (efd_count (efd s))" "efd_count (efd s) \<noteq> - 1"
    by simp_all
  moreover have "unat (efd_count (efd s)) < 2 ^ 64" using unsigned_less [of "efd_count (efd s)"] by simp
  moreover have "unat (efd_count (efd s)) \<noteq> 2 ^ 64 - 1"
    using \<open>efd_count (efd s) \<noteq> - 1\<close> by (metis unat_max word_unat_eq_iff)
  ultimately show ?thesis by linarith
qed

text \<open>The counter with a value, used by the witnesses.\<close>

definition sample_eventfd :: "u64 \<Rightarrow> u32 \<Rightarrow> nat list \<Rightarrow> eventfd_inode" where
  "sample_eventfd c flags q = \<lparr> efd = eventfd_new c flags 0, efd_queue = q \<rparr>"

theorem eventfd_conservation_witness:
  "\<exists>s. eventfd_run linux_abi s (5 + 7) 12 \<and> (5 + 7::nat) = 12 + unat (efd_count (efd s))"
proof -
  let ?w = "to_ne_bytes 7" and ?b = "replicate 8 (0::u8)"
  have 0: "eventfd_run linux_abi (sample_eventfd 5 0 []) (unat (5::u32)) 0"
    by (rule efd_start [of _ _ 0 0 _ 1])
      (simp add: eventfd_create_def act_simps eventfd_inode_new_def eventfd_new_def sample_eventfd_def
        from_bits_truncate_def)
  have 1: "eventfd_run linux_abi (sample_eventfd 12 0 []) (unat (5::u32) + unat (from_ne_bytes (take 8 ?w))) 0"
    by (rule efd_write [OF 0, of "kernel_of 3"])
      (simp add: eventfd_write_run sample_eventfd_def eventfd_new_def)
  have 2: "eventfd_run linux_abi (sample_eventfd 0 0 []) (unat (5::u32) + unat (from_ne_bytes (take 8 ?w)))
      (0 + unat (from_ne_bytes (take 8 (splice 0 (to_ne_bytes 12) ?b))))"
    by (rule efd_read [OF 1, where K = "kernel_of 3" and buf = ?b])
      (simp add: eventfd_read_run sample_eventfd_def eventfd_new_def contains_def linux_abi_def)
  have "eventfd_run linux_abi (sample_eventfd 0 0 []) (5 + 7) 12"
    using 2 by (subst (asm) take_splice_bytes) simp_all
  with eventfd_conservation [OF this] show ?thesis by metis
qed

text \<open>What a write adds, the next read returns: after a successful write of v to a counter c
  (with c + v not 0) a read of at least 8 bytes succeeds without blocking; in the default mode it
  returns c + v in the first 8 bytes and resets the counter, in semaphore mode it returns 1 and
  leaves c + v - 1. The rest of the buffer is not touched.\<close>

theorem eventfd_write_then_read:
  assumes wr: "eventfd_write A K wbuf s = (Ok (Done n), s')"
    and "efd_count (efd s) + from_ne_bytes (take 8 wbuf) \<noteq> 0" and "8 \<le> length rbuf"
  shows "let total = efd_count (efd s) + from_ne_bytes (take 8 wbuf);
             semaphore = contains (efd_flags (efd s)) (EFD_SEMAPHORE A) in
    \<exists>buf s''. eventfd_read A K' rbuf s' = (Ok (Done (buf, 8)), s'')
      \<and> from_ne_bytes (take 8 buf) = (if semaphore then 1 else total)
      \<and> drop 8 buf = drop 8 rbuf
      \<and> efd_count (efd s'') = (if semaphore then total - 1 else 0)"
proof -
  from wr have "efd_count (efd s') = efd_count (efd s) + from_ne_bytes (take 8 wbuf)"
    "efd_flags (efd s') = efd_flags (efd s)"
    by (auto simp: eventfd_write_run Let_def split: if_splits prod.splits sum.splits)
  with assms(2,3) show ?thesis
    by (simp add: eventfd_read_run Let_def take_splice_bytes) (simp add: splice_def)
qed

theorem eventfd_write_then_read_witness:
  "\<exists>buf s''. eventfd_read linux_abi (kernel_of 4) (replicate 10 7) (sample_eventfd 12 0 [])
       = (Ok (Done (buf, 8)), s'') \<and> from_ne_bytes (take 8 buf) = 12 \<and> drop 8 buf = replicate 2 7"
proof -
  have "eventfd_write linux_abi (kernel_of 3) (to_ne_bytes 7) (sample_eventfd 5 0 [])
      = (Ok (Done 8), sample_eventfd 12 0 [])"
    by (simp add: eventfd_write_run sample_eventfd_def eventfd_new_def)
  from eventfd_write_then_read [OF this, of "replicate 10 7" "kernel_of 4"] show ?thesis
    by (auto simp: sample_eventfd_def eventfd_new_def contains_def)
qed

text \<open>A successful write wakes every task that sleeps on the counter and empties the queue; a
  read, whatever its outcome, wakes nobody: it only ever adds the reader itself to the queue. So a
  writer that went to sleep on a full counter is still asleep after the read that made room.\<close>

theorem eventfd_wakeups:
  shows "(\<forall>n s'. eventfd_write A K buf s = (Ok (Done n), s') \<longrightarrow>
       efd_queue s' = [] \<and> (\<forall>t \<in> set (efd_queue s). k_wake_up K t = Ok ()))
    \<and> (\<forall>x s'. eventfd_read A K buf s = (x, s') \<longrightarrow>
       efd_queue s' = efd_queue s \<or> (\<exists>tid. k_current_tid K = Ok (Some tid) \<and> efd_queue s' = efd_queue s @ [tid]))"
proof -
  have wake: "eventfd_wake_all K q = (Inr u, q') \<Longrightarrow> q' = [] \<and> (\<forall>t \<in> set q. k_wake_up K t = Ok ())" for q u q'
    by (induction q) (auto split: sum.splits)
  show ?thesis
    by (auto simp: eventfd_write_run eventfd_read_run eventfd_sleep_run Let_def dest: wake
        split: if_splits prod.splits sum.splits option.splits)
qed

theorem eventfd_wakeups_witness:
  "\<exists>blocked after. eventfd_write linux_abi (kernel_of 3) (to_ne_bytes 9) (sample_eventfd (- 2) 0 []) = (Ok Block, blocked)
     \<and> efd_queue blocked = [3]
     \<and> snd (eventfd_read linux_abi (kernel_of 4) (replicate 8 0) blocked) = after
     \<and> efd_count (efd after) = 0 \<and> efd_queue after = [3]"
proof -
  have b: "eventfd_write linux_abi (kernel_of 3) (to_ne_bytes 9) (sample_eventfd (- 2) 0 [])
      = (Ok Block, sample_eventfd (- 2) 0 [3])"
    by (simp add: eventfd_write_run sample_eventfd_def eventfd_new_def eventfd_sleep_run kernel_of_def
        linux_abi_def contains_def)
  have r: "eventfd_read linux_abi (kernel_of 4) (replicate 8 0) (sample_eventfd (- 2) 0 [3])
      = (Ok (Done (splice 0 (to_ne_bytes (- 2)) (replicate 8 0), 8)), sample_eventfd 0 0 [3])"
    by (simp add: eventfd_read_run sample_eventfd_def eventfd_new_def linux_abi_def contains_def)
  have "efd_queue (sample_eventfd 0 0 [3]) = [3]"
    using eventfd_wakeups [of linux_abi "kernel_of 4" "replicate 8 0" "sample_eventfd (- 2) 0 [3]"] r
    by (simp add: sample_eventfd_def)
  with b r show ?thesis by (simp add: sample_eventfd_def eventfd_new_def)
qed

text \<open>Polling an event counter: the input bit is reported exactly when it was asked for and a
  read would not wait. The output bit is reported whenever it was asked for, in every reachable
  state: also when the counter is at u64::MAX - 1 and every write of a non-zero value has to wait.\<close>

theorem eventfd_poll_truth:
  assumes "EPOLLIN A = 1" and "EPOLLOUT A = 4" and "eventfd_run A s w r"
  shows "(contains (eventfd_poll A ev s) (EPOLLIN A) \<longleftrightarrow> contains ev (EPOLLIN A) \<and> efd_count (efd s) \<noteq> 0)
    \<and> (contains (eventfd_poll A ev s) (EPOLLOUT A) \<longleftrightarrow> contains ev (EPOLLOUT A))
    \<and> (efd_count (efd s) = - 2 \<and> 8 \<le> length buf \<and> from_ne_bytes (take 8 buf) \<noteq> 0
        \<and> contains (efd_flags (efd s)) (EFD_NONBLOCK A) \<longrightarrow>
       fst (eventfd_write A K buf s) = (if from_ne_bytes (take 8 buf) = - 1 then Err EINVAL else Err EAGAIN))"
proof -
  have "efd_count (efd s) \<noteq> - 1" using eventfd_run_sum [OF assms(3)] by simp
  moreover have "\<not> v < 1" if "v \<noteq> 0" for v :: u64
    using that by (simp add: word_less_nat_alt unat_gt_0)
  ultimately show ?thesis
    unfolding eventfd_poll_def Let_def assms(1,2)
    by (auto simp: contains_def bit.conj_disj_distrib bit.conj_disj_distrib2 eventfd_write_run Let_def)
qed

theorem eventfd_poll_truth_witness:
  "\<exists>s. eventfd_run linux_abi s 5 0 \<and> contains (eventfd_poll linux_abi 5 s) 4"
proof -
  have 0: "eventfd_run linux_abi (sample_eventfd 5 0 []) (unat (5::u32)) 0"
    by (rule efd_start [of _ _ 0 0 _ 1])
      (simp add: eventfd_create_def act_simps eventfd_inode_new_def eventfd_new_def sample_eventfd_def
        from_bits_truncate_def)
  with eventfd_poll_truth [OF _ _ 0, of 5] show ?thesis
    by (intro exI [of _ "sample_eventfd 5 0 []"]) (simp add: linux_abi_def contains_def)
qed

text \<open>The interest list of an epoll instance is a map of descriptors: adding or modifying
  sets the descriptor's event, deleting removes it, and no other descriptor's event changes.
  Adding a descriptor twice and modifying or deleting an unknown one succeed.\<close>

theorem epoll_ctl_map:
  "bt_get (interest (epoll_ctl op fd e f)) fd' =
     (if fd' = fd then (if op = EpollCtlDel then None else Some e) else bt_get (interest f) fd')"
  by (cases op) (simp_all add: epoll_ctl_def)

end
