(* ===== verification/Vfs.thy ===== *)
theory Vfs
  imports Pipe EventFd KFile
begin

text \<open>
  \<open>common/vfs/vfs/src/lib.rs\<close>: the VFS domain. It gives out inode ids for open files
  (\<open>VFS_MAP\<close>), keeps the ids of the kernel files in the storage that survives a reload of the
  domain (\<open>VFS_MAP_SHADOW\<close>, together with the id counter and the files' metadata), and dispatches
  every operation to the file behind the id.

  Path walking and the inode layer (\<open>vfscore\<close>) are the fields of \<open>venv\<close>. A file's object lives
  in its entry of \<open>vfs_map\<close>; the metadata of a kernel file is the storage entry \<open>kfile_<id>\<close> it
  shares, and the two ends of a pipe share an entry of \<open>vfs_pipes\<close>.
\<close>

datatype node_type = SymLink | Fifo | Socket | OtherNode nat

datatype fcntl_cmd = F_DUPFD_CLOEXEC | F_GETFD | F_SETFD | F_GETFL | F_SETFL | F_OTHER

datatype file_time = AccessTime u64 u64 | ModifiedTime u64 u64

record ('d, 'i, 'st, 'p, 'x, 'n) venv =
  v_abi :: abi
  v_pipe_buf :: nat
  v_kernel :: kernel
  v_fs :: "('d, 'i, 'st, 'x) fs_ops"
  v_dirent :: dirent64_ops
  v_net :: "'n net_ops"
  v_ident :: "'i \<Rightarrow> (u64 \<times> nat \<times> u8 list) option"
  v_shim_dentry :: "nat \<Rightarrow> u64 \<Rightarrow> u8 list \<Rightarrow> 'd"
  v_root :: 'd
  v_utf8 :: "u8 list \<Rightarrow> bool"
  p_join :: "'d \<Rightarrow> 'd \<Rightarrow> u8 list \<Rightarrow> ('x, 'p) act"
  p_open :: "'p \<Rightarrow> u32 option \<Rightarrow> ('x, 'd) act"
  p_open2 :: "'p \<Rightarrow> u32 option \<Rightarrow> usize \<Rightarrow> ('x, 'd) act"
  p_unlink :: "'p \<Rightarrow> ('x, unit) act"
  p_rmdir :: "'p \<Rightarrow> ('x, unit) act"
  p_rename_to :: "'p \<Rightarrow> 'd \<times> 'd \<Rightarrow> 'p \<Rightarrow> u32 \<Rightarrow> ('x, unit) act"
  p_link :: "'p \<Rightarrow> 'd \<Rightarrow> ('x, unit) act"
  p_symlink :: "'p \<Rightarrow> u8 list \<Rightarrow> ('x, unit) act"
  d_path :: "'d \<Rightarrow> u8 list"
  i_type :: "'i \<Rightarrow> node_type"
  i_readlink :: "'i \<Rightarrow> u8 list \<Rightarrow> ('x, u8 list \<times> nat) act"
  i_stat_fs :: "'i \<Rightarrow> ('x, vfs_fs_stat) act"
  i_update_time :: "'i \<Rightarrow> file_time \<Rightarrow> u64 \<times> u64 \<Rightarrow> ('x, unit) act"
  v_now :: "u64 \<times> u64"
  MODE_ALL :: u32
  RENAME_ALL :: u32
  AT_REMOVEDIR :: u32
  UNLINK_ALL :: u32
  AT_EMPTY_PATH :: u32
  AT_SYMLINK_FOLLOW :: u32
  LINK_ALL :: u32
  v_fcntl :: "u32 \<Rightarrow> fcntl_cmd option"
  v_epoll_op :: "u32 \<Rightarrow> epoll_ctl_op option"

datatype 'd vfile =
    KernelF 'd
  | PipeF nat nat
  | EventF eventfd_inode
  | EpollF "epoll_event epoll_file"
  | SocketF socket_file

record ('d, 'x, 'n) vfs =
  vfs_map :: "(u64, 'd vfile) btree"
  vfs_shadow :: "(u64, unit) btree"
  vfs_metas :: "(u64, kmeta) btree"
  inode_id :: u64
  vfs_pipes :: "(nat, pipe) btree"
  vfs_next_pipe :: nat
  eventfd_id :: u32
  vfs_x :: 'x
  vfs_n :: 'n

section \<open>Operations on the object behind a file\<close>

definition in_x :: "('x, 'a) act \<Rightarrow> (('d, 'x, 'n) vfs, 'a) act" where
  "in_x m = zoom vfs_x (\<lambda>x s. s\<lparr>vfs_x := x\<rparr>) m"

definition with_meta :: "u64 \<Rightarrow> ('x kstate, 'a) act \<Rightarrow> (('d, 'x, 'n) vfs, 'a) act" where
  "with_meta fid m = (\<lambda>s. case bt_get (vfs_metas s) fid of
       None \<Rightarrow> (panic, s)
     | Some km \<Rightarrow> (case m \<lparr>k_meta = km, k_fs = vfs_x s\<rparr> of
         (r, k) \<Rightarrow> (r, s\<lparr>vfs_metas := bt_insert fid (k_meta k) (vfs_metas s), vfs_x := k_fs k\<rparr>)))"

definition with_pipe :: "nat \<Rightarrow> (pipe \<Rightarrow> 'a \<times> pipe) \<Rightarrow> (('d, 'x, 'n) vfs, 'a) act" where
  "with_pipe p f = (\<lambda>s. case bt_get (vfs_pipes s) p of
       None \<Rightarrow> (panic, s)
     | Some q \<Rightarrow> (case f q of (r, q') \<Rightarrow> (Ok r, s\<lparr>vfs_pipes := bt_insert p q' (vfs_pipes s)\<rparr>)))"

definition with_event :: "u64 \<Rightarrow> eventfd_inode \<Rightarrow> (eventfd_inode, 'a) act \<Rightarrow> (('d, 'x, 'n) vfs, 'a) act" where
  "with_event fid e m = (\<lambda>s. case m e of
     (r, e') \<Rightarrow> (r, s\<lparr>vfs_map := bt_insert fid (EventF e') (vfs_map s)\<rparr>))"

definition with_socket :: "u64 \<Rightarrow> socket_file \<Rightarrow> ('n sstate, 'a) act \<Rightarrow> (('d, 'x, 'n) vfs, 'a) act" where
  "with_socket fid so m = (\<lambda>s. case m \<lparr>s_file = so, s_net = vfs_n s\<rparr> of
     (r, t) \<Rightarrow> (r, s\<lparr>vfs_map := bt_insert fid (SocketF (s_file t)) (vfs_map s), vfs_n := s_net t\<rparr>))"

definition finished :: "(('d, 'x, 'n) vfs, 'a) act \<Rightarrow> (('d, 'x, 'n) vfs, 'a progress) act" where
  "finished m = bind m (\<lambda>r. ret (Done r))"

text \<open>
  The methods of the trait \<open>File\<close>, by the file's type; a type that does not define one has the
  trait's default, \<open>todo!()\<close> and \<open>panic!\<close> bodies are \<open>abort\<close>.
\<close>

definition file_read :: "('d, 'i, 'st, 'p, 'x, 'n) venv \<Rightarrow> u64 \<Rightarrow> 'd vfile \<Rightarrow> u8 list
    \<Rightarrow> (('d, 'x, 'n) vfs, (u8 list \<times> nat) progress) act" where
  "file_read E fid f buf = (case f of
       KernelF d \<Rightarrow> finished (with_meta fid (kf_read (v_abi E) (v_fs E) d buf))
     | PipeF p h \<Rightarrow> with_pipe p (pf_read (v_pipe_buf E) buf)
     | EventF e \<Rightarrow> with_event fid e (eventfd_read (v_abi E) (v_kernel E) buf)
     | EpollF e \<Rightarrow> abort
     | SocketF so \<Rightarrow> finished (with_socket fid so (so_read (v_abi E) (v_net E) buf)))"

definition file_write :: "('d, 'i, 'st, 'p, 'x, 'n) venv \<Rightarrow> u64 \<Rightarrow> 'd vfile \<Rightarrow> u8 list
    \<Rightarrow> (('d, 'x, 'n) vfs, nat progress) act" where
  "file_write E fid f buf = (case f of
       KernelF d \<Rightarrow> finished (with_meta fid (kf_write (v_abi E) (v_fs E) d buf))
     | PipeF p h \<Rightarrow> with_pipe p (pf_write (v_pipe_buf E) buf)
     | EventF e \<Rightarrow> with_event fid e (eventfd_write (v_abi E) (v_kernel E) buf)
     | EpollF e \<Rightarrow> abort
     | SocketF so \<Rightarrow> finished (with_socket fid so (so_write (v_abi E) (v_net E) buf)))"

definition file_read_at :: "('d, 'i, 'st, 'p, 'x, 'n) venv \<Rightarrow> u64 \<Rightarrow> 'd vfile \<Rightarrow> u64 \<Rightarrow> u8 list
    \<Rightarrow> (('d, 'x, 'n) vfs, (u8 list \<times> nat) progress) act" where
  "file_read_at E fid f off buf = (case f of
       KernelF d \<Rightarrow> finished (with_meta fid (kf_read_at (v_abi E) (v_fs E) d off buf))
     | PipeF p h \<Rightarrow> with_pipe p (pf_read (v_pipe_buf E) buf)
     | EventF e \<Rightarrow> with_event fid e (eventfd_read (v_abi E) (v_kernel E) buf)
     | EpollF e \<Rightarrow> fail ENOSYS
     | SocketF so \<Rightarrow> finished (with_socket fid so (so_read_at (v_abi E) (v_net E) off buf)))"

definition file_write_at :: "('d, 'i, 'st, 'p, 'x, 'n) venv \<Rightarrow> u64 \<Rightarrow> 'd vfile \<Rightarrow> u64 \<Rightarrow> u8 list
    \<Rightarrow> (('d, 'x, 'n) vfs, nat progress) act" where
  "file_write_at E fid f off buf = (case f of
       KernelF d \<Rightarrow> finished (with_meta fid (kf_write_at (v_abi E) (v_fs E) d off buf))
     | PipeF p h \<Rightarrow> with_pipe p (pf_write (v_pipe_buf E) buf)
     | EventF e \<Rightarrow> with_event fid e (eventfd_write (v_abi E) (v_kernel E) buf)
     | EpollF e \<Rightarrow> fail ENOSYS
     | SocketF so \<Rightarrow> finished (with_socket fid so (so_write_at (v_abi E) (v_net E) off buf)))"

definition file_flush :: "('d, 'i, 'st, 'p, 'x, 'n) venv \<Rightarrow> u64 \<Rightarrow> 'd vfile \<Rightarrow> (('d, 'x, 'n) vfs, unit) act" where
  "file_flush E fid f = (case f of
       KernelF d \<Rightarrow> with_meta fid (kf_flush (v_abi E) (v_fs E) d)
     | _ \<Rightarrow> ret ())"

definition file_fsync :: "('d, 'i, 'st, 'p, 'x, 'n) venv \<Rightarrow> u64 \<Rightarrow> 'd vfile \<Rightarrow> (('d, 'x, 'n) vfs, unit) act" where
  "file_fsync E fid f = (case f of
       KernelF d \<Rightarrow> with_meta fid (kf_fsync (v_abi E) (v_fs E) d)
     | _ \<Rightarrow> ret ())"

definition file_seek :: "('d, 'i, 'st, 'p, 'x, 'n) venv \<Rightarrow> u64 \<Rightarrow> 'd vfile \<Rightarrow> seek_from
    \<Rightarrow> (('d, 'x, 'n) vfs, u64) act" where
  "file_seek E fid f pos = (case f of
       KernelF d \<Rightarrow> with_meta fid (kf_seek (v_fs E) d pos)
     | PipeF p h \<Rightarrow> fail ESPIPE
     | EventF e \<Rightarrow> fail ENOSYS
     | EpollF e \<Rightarrow> fail ENOSYS
     | SocketF so \<Rightarrow> with_socket fid so (so_seek (st_size (v_fs E)) pos))"

definition file_get_attr :: "('d, 'i, 'st, 'p, 'x, 'n) venv \<Rightarrow> u64 \<Rightarrow> 'd vfile \<Rightarrow> (('d, 'x, 'n) vfs, 'st) act" where
  "file_get_attr E fid f = (case f of
       KernelF d \<Rightarrow> with_meta fid (kf_get_attr (v_fs E) d)
     | PipeF p h \<Rightarrow> fail ENOSYS
     | EventF e \<Rightarrow> fail ENOSYS
     | EpollF e \<Rightarrow> abort
     | SocketF so \<Rightarrow> fail ENOSYS)"

definition file_ioctl :: "('d, 'i, 'st, 'p, 'x, 'n) venv \<Rightarrow> u64 \<Rightarrow> 'd vfile \<Rightarrow> u32 \<Rightarrow> usize
    \<Rightarrow> (('d, 'x, 'n) vfs, nat) act" where
  "file_ioctl E fid f cmd arg = (case f of
       KernelF d \<Rightarrow> with_meta fid (kf_ioctl (v_fs E) d cmd arg)
     | _ \<Rightarrow> fail ENOSYS)"

definition file_set_open_flag :: "u64 \<Rightarrow> 'd vfile \<Rightarrow> usize \<Rightarrow> (('d, 'x, 'n) vfs, unit) act" where
  "file_set_open_flag fid f flag = (case f of
       KernelF d \<Rightarrow> with_meta fid (kf_set_open_flag flag)
     | PipeF p h \<Rightarrow> with_pipe p (\<lambda>q. ((), pf_set_open_flag h flag q))
     | SocketF so \<Rightarrow> modify_state (\<lambda>s. s\<lparr>vfs_map := bt_insert fid (SocketF (so\<lparr>so_open_flag := flag\<rparr>)) (vfs_map s)\<rparr>)
     | _ \<Rightarrow> ret ())"

definition file_get_open_flag :: "('d, 'i, 'st, 'p, 'x, 'n) venv \<Rightarrow> u64 \<Rightarrow> 'd vfile
    \<Rightarrow> (('d, 'x, 'n) vfs, usize) act" where
  "file_get_open_flag E fid f = (case f of
       KernelF d \<Rightarrow> with_meta fid (bind get_state (\<lambda>s. ret (kf_get_open_flag s)))
     | PipeF p h \<Rightarrow> bind (with_pipe p (\<lambda>q. (pf_get_open_flag h q, q))) (\<lambda>r. lift (unwrap r))
     | SocketF so \<Rightarrow> ret (so_open_flag so)
     | _ \<Rightarrow> ret (O_RDONLY (v_abi E)))"

definition file_dentry :: "'d vfile \<Rightarrow> (('d, 'x, 'n) vfs, 'd) act" where
  "file_dentry f = (case f of KernelF d \<Rightarrow> ret d | _ \<Rightarrow> abort)"

definition file_readdir :: "('d, 'i, 'st, 'p, 'x, 'n) venv \<Rightarrow> u64 \<Rightarrow> 'd vfile \<Rightarrow> u8 list
    \<Rightarrow> (('d, 'x, 'n) vfs, (u8 list \<times> nat) option) act" where
  "file_readdir E fid f buf = (case f of
       KernelF d \<Rightarrow> with_meta fid (kf_readdir (v_fs E) (v_dirent E) d buf)
     | _ \<Rightarrow> fail ENOSYS)"

definition file_truncate :: "('d, 'i, 'st, 'p, 'x, 'n) venv \<Rightarrow> u64 \<Rightarrow> 'd vfile \<Rightarrow> u64
    \<Rightarrow> (('d, 'x, 'n) vfs, unit) act" where
  "file_truncate E fid f len = (case f of
       KernelF d \<Rightarrow> with_meta fid (kf_truncate (v_abi E) (v_fs E) d len)
     | _ \<Rightarrow> fail ENOSYS)"

definition file_poll :: "('d, 'i, 'st, 'p, 'x, 'n) venv \<Rightarrow> u64 \<Rightarrow> 'd vfile \<Rightarrow> u32
    \<Rightarrow> (('d, 'x, 'n) vfs, u32) act" where
  "file_poll E fid f event = (case f of
       KernelF d \<Rightarrow> with_meta fid (kf_poll (v_abi E) (v_fs E) d event)
     | PipeF p h \<Rightarrow> with_pipe p (\<lambda>q. (pf_poll (v_abi E) (v_pipe_buf E) event q, q))
     | EventF e \<Rightarrow> ret (eventfd_poll (v_abi E) event e)
     | EpollF e \<Rightarrow> fail ENOSYS
     | SocketF so \<Rightarrow> with_socket fid so (so_poll (v_net E) event))"


section \<open>The table of open files\<close>

definition get_file :: "u64 \<Rightarrow> ('d, 'x, 'n) vfs \<Rightarrow> 'd vfile option" where
  "get_file inode s = bt_get (vfs_map s) inode"

text \<open>\<open>get_file(inode).unwrap()\<close> and \<open>get_file(inode).ok_or(EINVAL)?\<close>.\<close>

definition file_of :: "u64 \<Rightarrow> (('d, 'x, 'n) vfs, 'd vfile) act" where
  "file_of inode = bind get_state (\<lambda>s. lift (unwrap (get_file inode s)))"

definition file_or_einval :: "u64 \<Rightarrow> (('d, 'x, 'n) vfs, 'd vfile) act" where
  "file_or_einval inode = bind get_state (\<lambda>s. lift (ok_or (get_file inode s) EINVAL))"

text \<open>\<open>INODE_ID.fetch_add(1)\<close>.\<close>

definition next_inode_id :: "(('d, 'x, 'n) vfs, u64) act" where
  "next_inode_id = bind get_state (\<lambda>s.
     bind (modify_state (\<lambda>s. s\<lparr>inode_id := inode_id s + 1\<rparr>)) (\<lambda>_. ret (inode_id s)))"

text \<open>\<open>KernelFile::new\<close>: the metadata that is in the storage under the file's key, or a new one.\<close>

definition kernel_file_new :: "('d, 'i, 'st, 'p, 'x, 'n) venv \<Rightarrow> 'd \<Rightarrow> usize \<Rightarrow> u64
    \<Rightarrow> (('d, 'x, 'n) vfs, 'd vfile) act" where
  "kernel_file_new E d open_flag fid =
     bind get_state (\<lambda>s. case bt_get (vfs_metas s) fid of
       Some km \<Rightarrow> ret (KernelF d)
     | None \<Rightarrow>
         bind (in_x (kf_new_pos (v_abi E) (v_fs E) d open_flag)) (\<lambda>p.
         bind (must (in_x (d_inode (v_fs E) d))) (\<lambda>i.
         bind (lift (unwrap (v_ident E i))) (\<lambda>(real_inode_id, fs_domain, ident).
         bind (modify_state (\<lambda>s. s\<lparr>vfs_metas :=
                bt_insert fid (kmeta_new p open_flag real_inode_id fs_domain ident) (vfs_metas s)\<rparr>)) (\<lambda>_.
         ret (KernelF d))))))"

definition insert_dentry :: "('d, 'i, 'st, 'p, 'x, 'n) venv \<Rightarrow> 'd \<Rightarrow> usize \<Rightarrow> (('d, 'x, 'n) vfs, u64) act" where
  "insert_dentry E d open_flags =
     bind next_inode_id (\<lambda>fid.
     bind (kernel_file_new E d open_flags fid) (\<lambda>f.
     bind (modify_state (\<lambda>s. s\<lparr>vfs_map := bt_insert fid f (vfs_map s)\<rparr>)) (\<lambda>_.
     bind (modify_state (\<lambda>s. s\<lparr>vfs_shadow := bt_insert fid () (vfs_shadow s)\<rparr>)) (\<lambda>_.
     ret fid))))"

definition insert_special_file :: "'d vfile \<Rightarrow> (('d, 'x, 'n) vfs, u64) act" where
  "insert_special_file f =
     bind next_inode_id (\<lambda>fid.
     bind (modify_state (\<lambda>s. s\<lparr>vfs_map := bt_insert fid f (vfs_map s)\<rparr>)) (\<lambda>_. ret fid))"

text \<open>What dropping the last reference to a file does.\<close>

definition file_drop :: "('d, 'i, 'st, 'p, 'x, 'n) venv \<Rightarrow> u64 \<Rightarrow> 'd vfile \<Rightarrow> (('d, 'x, 'n) vfs, unit) act" where
  "file_drop E fid f = (case f of
       KernelF d \<Rightarrow>
         bind get_state (\<lambda>s.
         bind (modify_state (\<lambda>s. s\<lparr>vfs_metas := bt_remove fid (vfs_metas s)\<rparr>)) (\<lambda>_.
         assert_that (bt_get (vfs_metas s) fid \<noteq> None)))
     | PipeF p h \<Rightarrow> with_pipe p (\<lambda>q. ((), pf_drop h q))
     | SocketF so \<Rightarrow>
         bind get_state (\<lambda>s. case so_drop (v_net E) \<lparr>s_file = so, s_net = vfs_n s\<rparr> of
           (r, t) \<Rightarrow> bind (modify_state (\<lambda>s. s\<lparr>vfs_n := s_net t\<rparr>)) (\<lambda>_. lift r))
     | _ \<Rightarrow> ret ())"

definition remove_file :: "('d, 'i, 'st, 'p, 'x, 'n) venv \<Rightarrow> u64 \<Rightarrow> (('d, 'x, 'n) vfs, unit) act" where
  "remove_file E inode =
     (if inode < 4 then ret ()
      else
        bind get_state (\<lambda>s.
        bind (modify_state (\<lambda>s. s\<lparr>vfs_map := bt_remove inode (vfs_map s)\<rparr>)) (\<lambda>_.
        bind (case get_file inode s of None \<Rightarrow> ret () | Some f \<Rightarrow> file_drop E inode f) (\<lambda>_.
        modify_state (\<lambda>s. s\<lparr>vfs_shadow := bt_remove inode (vfs_shadow s)\<rparr>)))))"

section \<open>The operations of the domain\<close>

definition vfs_poll :: "('d, 'i, 'st, 'p, 'x, 'n) venv \<Rightarrow> u64 \<Rightarrow> 16 word \<Rightarrow> (('d, 'x, 'n) vfs, 16 word) act" where
  "vfs_poll E inode events =
     bind (file_of inode) (\<lambda>f.
     bind (file_poll E inode f (from_bits_truncate (EPOLL_ALL (v_abi E)) (ucast events))) (\<lambda>res.
     ret (from_bits_truncate (VP_ALL (v_abi E)) (ucast res))))"

definition vfs_ioctl :: "('d, 'i, 'st, 'p, 'x, 'n) venv \<Rightarrow> u64 \<Rightarrow> u32 \<Rightarrow> usize \<Rightarrow> (('d, 'x, 'n) vfs, nat) act" where
  "vfs_ioctl E inode cmd arg = bind (file_of inode) (\<lambda>f. file_ioctl E inode f cmd arg)"

text \<open>\<open>core::str::from_utf8(&path.as_slice()[..path_len]).unwrap()\<close>.\<close>

definition path_str :: "('d, 'i, 'st, 'p, 'x, 'n) venv \<Rightarrow> u8 list \<Rightarrow> nat \<Rightarrow> u8 list res" where
  "path_str E path path_len =
     (if path_len \<le> length path \<and> v_utf8 E (take path_len path) then Ok (take path_len path) else panic)"

definition vfs_open :: "('d, 'i, 'st, 'p, 'x, 'n) venv \<Rightarrow> u64 \<Rightarrow> u8 list \<Rightarrow> nat \<Rightarrow> u32 \<Rightarrow> usize
    \<Rightarrow> (('d, 'x, 'n) vfs, u64) act" where
  "vfs_open E root path path_len mode open_flags =
     bind (file_or_einval root) (\<lambda>start.
     bind (lift (path_str E path path_len)) (\<lambda>path_name.
     let open_flags = from_bits_truncate (O_ALL (v_abi E)) open_flags;
         mode = (if contains open_flags (O_CREAT (v_abi E))
                 then Some (from_bits_truncate (MODE_ALL E) mode) else None) in
     bind (file_dentry start) (\<lambda>d.
     bind (in_x (p_join E (v_root E) d path_name)) (\<lambda>p.
     bind (in_x (p_open2 E p mode open_flags)) (\<lambda>dentry.
     insert_dentry E dentry open_flags)))))"

definition vfs_close :: "('d, 'i, 'st, 'p, 'x, 'n) venv \<Rightarrow> u64 \<Rightarrow> (('d, 'x, 'n) vfs, unit) act" where
  "vfs_close E inode = remove_file E inode"

definition vfs_getattr :: "('d, 'i, 'st, 'p, 'x, 'n) venv \<Rightarrow> u64 \<Rightarrow> (('d, 'x, 'n) vfs, 'st) act" where
  "vfs_getattr E inode = bind (file_of inode) (file_get_attr E inode)"

text \<open>\<open>file.inode().get_super_block()?.stat_fs()?\<close>: only kernel files and pipes have an inode.\<close>

definition vfs_statfs :: "('d, 'i, 'st, 'p, 'x, 'n) venv \<Rightarrow> u64 \<Rightarrow> (('d, 'x, 'n) vfs, vfs_fs_stat) act" where
  "vfs_statfs E inode =
     bind (file_or_einval inode) (\<lambda>f. case f of
       KernelF d \<Rightarrow> bind (must (in_x (d_inode (v_fs E) d))) (\<lambda>i. in_x (i_stat_fs E i))
     | PipeF p h \<Rightarrow> fail ENOSYS
     | _ \<Rightarrow> abort)"

definition vfs_read_at :: "('d, 'i, 'st, 'p, 'x, 'n) venv \<Rightarrow> u64 \<Rightarrow> u64 \<Rightarrow> u8 list
    \<Rightarrow> (('d, 'x, 'n) vfs, (u8 list \<times> nat) progress) act" where
  "vfs_read_at E inode offset buf = bind (file_of inode) (\<lambda>f. file_read_at E inode f offset buf)"

definition vfs_read :: "('d, 'i, 'st, 'p, 'x, 'n) venv \<Rightarrow> u64 \<Rightarrow> u8 list
    \<Rightarrow> (('d, 'x, 'n) vfs, (u8 list \<times> nat) progress) act" where
  "vfs_read E inode buf = bind (file_of inode) (\<lambda>f. file_read E inode f buf)"

definition vfs_write_at :: "('d, 'i, 'st, 'p, 'x, 'n) venv \<Rightarrow> u64 \<Rightarrow> u64 \<Rightarrow> u8 list \<Rightarrow> nat
    \<Rightarrow> (('d, 'x, 'n) vfs, nat progress) act" where
  "vfs_write_at E inode offset buf w = bind (file_of inode) (\<lambda>f. file_write_at E inode f offset buf)"

definition vfs_write :: "('d, 'i, 'st, 'p, 'x, 'n) venv \<Rightarrow> u64 \<Rightarrow> u8 list \<Rightarrow> nat
    \<Rightarrow> (('d, 'x, 'n) vfs, nat progress) act" where
  "vfs_write E inode buf w_len =
     bind (file_of inode) (\<lambda>f.
     if length buf \<noteq> w_len then
       (if length buf < w_len then abort else file_write E inode f (take w_len buf))
     else file_write E inode f buf)"

definition vfs_flush :: "('d, 'i, 'st, 'p, 'x, 'n) venv \<Rightarrow> u64 \<Rightarrow> (('d, 'x, 'n) vfs, unit) act" where
  "vfs_flush E inode = bind (file_of inode) (file_flush E inode)"

definition vfs_fsync :: "('d, 'i, 'st, 'p, 'x, 'n) venv \<Rightarrow> u64 \<Rightarrow> (('d, 'x, 'n) vfs, unit) act" where
  "vfs_fsync E inode = bind (file_of inode) (file_fsync E inode)"

definition vfs_lseek :: "('d, 'i, 'st, 'p, 'x, 'n) venv \<Rightarrow> u64 \<Rightarrow> seek_from \<Rightarrow> (('d, 'x, 'n) vfs, u64) act" where
  "vfs_lseek E inode pos = bind (file_of inode) (\<lambda>f. file_seek E inode f pos)"

definition vfs_inode_type :: "('d, 'i, 'st, 'p, 'x, 'n) venv \<Rightarrow> u64 \<Rightarrow> (('d, 'x, 'n) vfs, node_type) act" where
  "vfs_inode_type E inode =
     bind (file_of inode) (\<lambda>f. case f of
       KernelF d \<Rightarrow> bind (must (in_x (d_inode (v_fs E) d))) (\<lambda>i. ret (i_type E i))
     | PipeF p h \<Rightarrow> ret Fifo
     | _ \<Rightarrow> abort)"

definition vfs_readdir :: "('d, 'i, 'st, 'p, 'x, 'n) venv \<Rightarrow> u64 \<Rightarrow> u8 list
    \<Rightarrow> (('d, 'x, 'n) vfs, (u8 list \<times> nat) option) act" where
  "vfs_readdir E inode buf = bind (file_of inode) (\<lambda>f. file_readdir E inode f buf)"

definition vfs_get_path :: "('d, 'i, 'st, 'p, 'x, 'n) venv \<Rightarrow> u64 \<Rightarrow> u8 list
    \<Rightarrow> (('d, 'x, 'n) vfs, u8 list \<times> nat) act" where
  "vfs_get_path E inode buf =
     bind (file_of inode) (\<lambda>f.
     bind (file_dentry f) (\<lambda>d.
     let path = d_path E d; copy_len = min (length path) (length buf) in
     ret (splice 0 (take copy_len path) buf, copy_len)))"

definition vfs_ftruncate :: "('d, 'i, 'st, 'p, 'x, 'n) venv \<Rightarrow> u64 \<Rightarrow> u64 \<Rightarrow> (('d, 'x, 'n) vfs, unit) act" where
  "vfs_ftruncate E inode len = bind (file_of inode) (\<lambda>f. file_truncate E inode f len)"

definition vfs_update_atime :: "('d, 'i, 'st, 'p, 'x, 'n) venv \<Rightarrow> u64 \<Rightarrow> u64 \<Rightarrow> u64
    \<Rightarrow> (('d, 'x, 'n) vfs, unit) act" where
  "vfs_update_atime E inode sec nano =
     bind (file_of inode) (\<lambda>f. bind (file_dentry f) (\<lambda>d.
     bind (in_x (d_inode (v_fs E) d)) (\<lambda>i. in_x (i_update_time E i (AccessTime sec nano) (v_now E)))))"

definition vfs_update_mtime :: "('d, 'i, 'st, 'p, 'x, 'n) venv \<Rightarrow> u64 \<Rightarrow> u64 \<Rightarrow> u64
    \<Rightarrow> (('d, 'x, 'n) vfs, unit) act" where
  "vfs_update_mtime E inode sec nano =
     bind (file_of inode) (\<lambda>f. bind (file_dentry f) (\<lambda>d.
     bind (in_x (d_inode (v_fs E) d)) (\<lambda>i. in_x (i_update_time E i (ModifiedTime sec nano) (v_now E)))))"

definition syscontext_for_vfs :: "u64 \<times> u64 \<Rightarrow> (('d, 'x, 'n) vfs, 'd \<times> 'd) act" where
  "syscontext_for_vfs fs_info =
     bind (file_of (fst fs_info)) (\<lambda>cwd. bind (file_dentry cwd) (\<lambda>cwd.
     bind (file_of (snd fs_info)) (\<lambda>root. bind (file_dentry root) (\<lambda>root. ret (cwd, root)))))"

definition vfs_rename :: "('d, 'i, 'st, 'p, 'x, 'n) venv \<Rightarrow> u64 \<Rightarrow> u64 \<Rightarrow> u8 list \<Rightarrow> nat \<Rightarrow> u8 list \<Rightarrow> nat
    \<Rightarrow> u64 \<times> u64 \<Rightarrow> u32 \<Rightarrow> (('d, 'x, 'n) vfs, unit) act" where
  "vfs_rename E old_inode new_inode old_path old_len new_path new_len fs_info flag =
     bind (file_of old_inode) (\<lambda>old_file.
     bind (file_of new_inode) (\<lambda>new_file.
     bind (file_dentry old_file) (\<lambda>old_dentry.
     bind (file_dentry new_file) (\<lambda>new_dentry.
     bind (lift (path_str E old_path old_len)) (\<lambda>old_path.
     bind (lift (path_str E new_path new_len)) (\<lambda>new_path.
     bind (in_x (p_join E (v_root E) old_dentry old_path)) (\<lambda>old_path.
     bind (in_x (p_join E (v_root E) new_dentry new_path)) (\<lambda>new_path.
     bind (syscontext_for_vfs fs_info) (\<lambda>context.
     in_x (p_rename_to E old_path context new_path (from_bits_truncate (RENAME_ALL E) flag)))))))))))"

definition vfs_unlink :: "('d, 'i, 'st, 'p, 'x, 'n) venv \<Rightarrow> u64 \<Rightarrow> u8 list \<Rightarrow> nat \<Rightarrow> u32
    \<Rightarrow> (('d, 'x, 'n) vfs, unit) act" where
  "vfs_unlink E inode path path_len flag =
     bind (file_of inode) (\<lambda>f.
     bind (file_dentry f) (\<lambda>d.
     bind (lift (path_str E path path_len)) (\<lambda>path.
     bind (in_x (p_join E (v_root E) d path)) (\<lambda>p.
     if contains (from_bits_truncate (UNLINK_ALL E) flag) (AT_REMOVEDIR E)
     then in_x (p_rmdir E p) else in_x (p_unlink E p)))))"

definition vfs_linkat :: "('d, 'i, 'st, 'p, 'x, 'n) venv \<Rightarrow> u64 \<Rightarrow> u8 list \<Rightarrow> nat \<Rightarrow> u64 \<Rightarrow> u8 list \<Rightarrow> nat
    \<Rightarrow> u32 \<Rightarrow> (('d, 'x, 'n) vfs, unit) act" where
  "vfs_linkat E old_root old_path old_len new_root new_path new_len flags =
     (if flags AND LINK_ALL E \<noteq> flags then fail EINVAL
      else if contains flags (AT_EMPTY_PATH E) then fail ENOSYS
      else
        bind (file_or_einval old_root) (\<lambda>old_start.
        bind (file_or_einval new_root) (\<lambda>new_start.
        bind (lift (path_str E old_path old_len)) (\<lambda>old_name.
        bind (lift (path_str E new_path new_len)) (\<lambda>new_name.
        bind (file_dentry old_start) (\<lambda>old_d.
        bind (in_x (p_join E (v_root E) old_d old_name)) (\<lambda>old_path.
        bind (if contains flags (AT_SYMLINK_FOLLOW E) then in_x (p_open E old_path None)
              else in_x (p_open2 E old_path None (O_NOFOLLOW (v_abi E)))) (\<lambda>old_dt.
        bind (file_dentry new_start) (\<lambda>new_d.
        bind (in_x (p_join E (v_root E) new_d new_name)) (\<lambda>new_path.
        in_x (p_link E new_path old_dt)))))))))))"

definition vfs_symlinkat :: "('d, 'i, 'st, 'p, 'x, 'n) venv \<Rightarrow> u8 list \<Rightarrow> nat \<Rightarrow> u64 \<Rightarrow> u8 list \<Rightarrow> nat
    \<Rightarrow> (('d, 'x, 'n) vfs, unit) act" where
  "vfs_symlinkat E target target_len new_root new_path new_len =
     bind (file_or_einval new_root) (\<lambda>new_start.
     bind (lift (path_str E target target_len)) (\<lambda>target.
     bind (lift (path_str E new_path new_len)) (\<lambda>new_name.
     bind (file_dentry new_start) (\<lambda>new_d.
     bind (in_x (p_join E (v_root E) new_d new_name)) (\<lambda>new_path.
     in_x (p_symlink E new_path target))))))"

definition vfs_readlinkat :: "('d, 'i, 'st, 'p, 'x, 'n) venv \<Rightarrow> u64 \<Rightarrow> u8 list \<Rightarrow> nat \<Rightarrow> u8 list
    \<Rightarrow> (('d, 'x, 'n) vfs, u8 list \<times> nat) act" where
  "vfs_readlinkat E root path path_len buf =
     bind (file_or_einval root) (\<lambda>start.
     bind (lift (path_str E path path_len)) (\<lambda>path.
     bind (file_dentry start) (\<lambda>d.
     bind (in_x (p_join E (v_root E) d path)) (\<lambda>p.
     bind (in_x (p_open2 E p None (O_NOFOLLOW (v_abi E)))) (\<lambda>dentry.
     bind (in_x (d_inode (v_fs E) dentry)) (\<lambda>inode.
     if i_type E inode \<noteq> SymLink then fail EINVAL else in_x (i_readlink E inode buf)))))))"

definition do_fcntl :: "('d, 'i, 'st, 'p, 'x, 'n) venv \<Rightarrow> u64 \<Rightarrow> usize \<Rightarrow> usize \<Rightarrow> (('d, 'x, 'n) vfs, u64) act" where
  "do_fcntl E inode cmd args =
     bind (lift (unwrap (v_fcntl E (ucast cmd)))) (\<lambda>cmd.
     bind (file_of inode) (\<lambda>f. case cmd of
       F_DUPFD_CLOEXEC \<Rightarrow>
         bind (file_get_open_flag E inode f) (\<lambda>flag.
         bind (file_set_open_flag inode f (flag OR O_CLOEXEC (v_abi E))) (\<lambda>_. ret 0))
     | F_GETFD \<Rightarrow>
         bind (file_get_open_flag E inode f) (\<lambda>flag.
         ret (if contains flag (O_CLOEXEC (v_abi E)) then 1 else 0))
     | F_SETFD \<Rightarrow>
         bind (file_get_open_flag E inode f) (\<lambda>flag.
         bind (if args AND 1 = 0
               then file_set_open_flag inode f (flag AND NOT (O_CLOEXEC (v_abi E)))
               else file_set_open_flag inode f (flag OR O_CLOEXEC (v_abi E))) (\<lambda>_. ret 0))
     | F_GETFL \<Rightarrow> file_get_open_flag E inode f
     | F_SETFL \<Rightarrow>
         bind (file_set_open_flag inode f (from_bits_truncate (O_ALL (v_abi E)) args)) (\<lambda>_. ret 0)
     | F_OTHER \<Rightarrow> fail EINVAL))"

definition do_pipe2 :: "('d, 'i, 'st, 'p, 'x, 'n) venv \<Rightarrow> usize \<Rightarrow> (('d, 'x, 'n) vfs, u64 \<times> u64) act" where
  "do_pipe2 E flags =
     bind get_state (\<lambda>s.
     let ((reader, writer), q) = make_pipe_file (v_abi E) (v_pipe_buf E); p = vfs_next_pipe s in
     bind (modify_state (\<lambda>s. s\<lparr>vfs_pipes := bt_insert p q (vfs_pipes s), vfs_next_pipe := p + 1\<rparr>)) (\<lambda>_.
     bind (insert_special_file (PipeF p reader)) (\<lambda>r.
     bind (insert_special_file (PipeF p writer)) (\<lambda>w. ret (r, w)))))"

definition do_socket :: "('d, 'i, 'st, 'p, 'x, 'n) venv \<Rightarrow> nat \<Rightarrow> (('d, 'x, 'n) vfs, u64) act" where
  "do_socket E socket = insert_special_file (SocketF (socket_file_new socket (O_RDWR (v_abi E))))"

definition socket_id :: "u64 \<Rightarrow> (('d, 'x, 'n) vfs, nat) act" where
  "socket_id inode = bind (file_of inode) (\<lambda>f. case f of SocketF so \<Rightarrow> ret (so_id so) | _ \<Rightarrow> abort)"

definition do_poll_create :: "('d, 'i, 'st, 'p, 'x, 'n) venv \<Rightarrow> usize \<Rightarrow> (('d, 'x, 'n) vfs, u64) act" where
  "do_poll_create E flags = insert_special_file (EpollF (epoll_new (from_bits_truncate (O_ALL (v_abi E)) flags)))"

definition do_poll_ctl :: "('d, 'i, 'st, 'p, 'x, 'n) venv \<Rightarrow> u64 \<Rightarrow> u32 \<Rightarrow> nat \<Rightarrow> epoll_event
    \<Rightarrow> (('d, 'x, 'n) vfs, unit) act" where
  "do_poll_ctl E inode op fd event =
     bind (file_of inode) (\<lambda>f.
     bind (lift (unwrap (v_epoll_op E op))) (\<lambda>op. case f of
       EpollF e \<Rightarrow> modify_state (\<lambda>s. s\<lparr>vfs_map := bt_insert inode (EpollF (epoll_ctl op fd event e)) (vfs_map s)\<rparr>)
     | _ \<Rightarrow> abort))"

definition do_eventfd :: "('d, 'i, 'st, 'p, 'x, 'n) venv \<Rightarrow> u32 \<Rightarrow> u32 \<Rightarrow> (('d, 'x, 'n) vfs, u64) act" where
  "do_eventfd E init_val flags =
     bind (zoom eventfd_id (\<lambda>i s. s\<lparr>eventfd_id := i\<rparr>) (eventfd_create (v_abi E) init_val flags)) (\<lambda>e.
     insert_special_file (EventF e))"

section \<open>Recovery after a reload of the domain\<close>

text \<open>
  The recovery of the open files in \<open>init_filesystem_after\<close> (\<open>tree.rs\<close>): the volatile table is rebuilt
  from the shadow map and the metadata. A reload loses everything that is not in the storage.
\<close>

definition vfs_reload :: "('d, 'x, 'n) vfs \<Rightarrow> ('d, 'x, 'n) vfs" where
  "vfs_reload s = s\<lparr>vfs_map := bt_empty, vfs_pipes := bt_empty, vfs_next_pipe := 0, eventfd_id := 0\<rparr>"

fun recover_files :: "('d, 'i, 'st, 'p, 'x, 'n) venv \<Rightarrow> (u64 \<times> unit) list \<Rightarrow> (('d, 'x, 'n) vfs, unit) act" where
  "recover_files E [] = ret ()"
| "recover_files E ((fid, u) # es) =
     bind get_state (\<lambda>s.
     bind (lift (unwrap (bt_get (vfs_metas s) fid))) (\<lambda>km.
     bind (assert_that (v_utf8 E (km_fs_domain_ident km))) (\<lambda>_.
     let dentry = v_shim_dentry E (km_fs_domain km) (km_real_inode_id km) (km_fs_domain_ident km) in
     bind (modify_state (\<lambda>s. s\<lparr>vfs_map := bt_insert fid (KernelF dentry) (vfs_map s)\<rparr>)) (\<lambda>_.
     recover_files E es))))"

definition recover_kernel_files :: "('d, 'i, 'st, 'p, 'x, 'n) venv \<Rightarrow> (('d, 'x, 'n) vfs, unit) act" where
  "recover_kernel_files E = bind get_state (\<lambda>s. recover_files E (vfs_shadow s))"


section \<open>The invariant of the tables\<close>

text \<open>
  The shadow map and the metadata hold exactly the ids of the kernel files, every id in use is
  below the counter, and the ends of a pipe in the table are live handles of a sound pipe, each
  under one id.
\<close>

definition pipe_sound :: "nat \<Rightarrow> pipe \<Rightarrow> bool" where
  "pipe_sound N q \<longleftrightarrow> ring_inv N (pipe_inode q) \<and> read_wait (pipe_inode q) = Some 0
     \<and> write_wait (pipe_inode q) = Some 1"

definition is_kernel :: "'d vfile option \<Rightarrow> bool" where
  "is_kernel f = (case f of Some (KernelF d) \<Rightarrow> True | _ \<Rightarrow> False)"

lemma is_kernel_simps [simp]:
  "\<not> is_kernel None" "is_kernel (Some (KernelF d))" "\<not> is_kernel (Some (PipeF p h))"
  "\<not> is_kernel (Some (EventF e))" "\<not> is_kernel (Some (EpollF ep))" "\<not> is_kernel (Some (SocketF so))"
  by (simp_all add: is_kernel_def)

definition kernel_inv :: "(u64 \<Rightarrow> 'd vfile option) \<Rightarrow> (u64 \<Rightarrow> unit option) \<Rightarrow> (u64 \<Rightarrow> kmeta option) \<Rightarrow> bool" where
  "kernel_inv M sh me \<longleftrightarrow> (\<forall>i. (sh i \<noteq> None) = is_kernel (M i) \<and> (me i \<noteq> None) = is_kernel (M i))"

definition ids_inv :: "(u64 \<Rightarrow> 'd vfile option) \<Rightarrow> u64 \<Rightarrow> bool" where
  "ids_inv M n \<longleftrightarrow> (\<forall>i. M i \<noteq> None \<longrightarrow> i < n)"

definition ends_inv :: "(u64 \<Rightarrow> 'd vfile option) \<Rightarrow> (nat \<Rightarrow> pipe option) \<Rightarrow> bool" where
  "ends_inv M P \<longleftrightarrow>
     (\<forall>i p h. M i = Some (PipeF p h) \<longrightarrow> (\<exists>q. P p = Some q \<and> bt_get (pipe_files q) h \<noteq> None))
     \<and> (\<forall>i j p h. M i = Some (PipeF p h) \<and> M j = Some (PipeF p h) \<longrightarrow> i = j)"

definition pipes_inv :: "nat \<Rightarrow> (nat \<Rightarrow> pipe option) \<Rightarrow> nat \<Rightarrow> bool" where
  "pipes_inv N P np \<longleftrightarrow> (\<forall>p q. P p = Some q \<longrightarrow> pipe_sound N q \<and> p < np)"

definition vfs_inv :: "nat \<Rightarrow> ('d, 'x, 'n) vfs \<Rightarrow> bool" where
  "vfs_inv N s \<longleftrightarrow> bt_wf (vfs_shadow s)
     \<and> kernel_inv (bt_get (vfs_map s)) (bt_get (vfs_shadow s)) (bt_get (vfs_metas s))
     \<and> ids_inv (bt_get (vfs_map s)) (inode_id s)
     \<and> ends_inv (bt_get (vfs_map s)) (bt_get (vfs_pipes s))
     \<and> pipes_inv N (bt_get (vfs_pipes s)) (vfs_next_pipe s)"

text \<open>Replacing the object of a file that is neither a kernel file nor a pipe end.\<close>

definition plain_file :: "'d vfile \<Rightarrow> bool" where
  "plain_file f = (case f of KernelF d \<Rightarrow> False | PipeF p h \<Rightarrow> False | _ \<Rightarrow> True)"

lemma plain_file_simps [simp]:
  "\<not> plain_file (KernelF d)" "\<not> plain_file (PipeF p h)" "plain_file (EventF e)"
  "plain_file (EpollF ep)" "plain_file (SocketF so)"
  by (simp_all add: plain_file_def)

lemma plain_not_kernel [simp]: "plain_file g \<Longrightarrow> \<not> is_kernel (Some g)"
  by (cases g) simp_all

lemma kernel_inv_special:
  "kernel_inv M sh me \<Longrightarrow> \<not> is_kernel (Some g) \<Longrightarrow> \<not> is_kernel (M i) \<Longrightarrow> kernel_inv (M(i := Some g)) sh me"
  unfolding kernel_inv_def by (metis fun_upd_apply)

lemma kernel_inv_drop: "kernel_inv M sh me \<Longrightarrow> \<not> is_kernel (M i) \<Longrightarrow> kernel_inv (M(i := None)) sh me"
  unfolding kernel_inv_def by (metis fun_upd_apply is_kernel_simps(1))

lemma kernel_inv_remove:
  "kernel_inv M sh me \<Longrightarrow> kernel_inv (M(i := None)) (sh(i := None)) (me(i := None))"
  by (simp add: kernel_inv_def)

lemma kernel_inv_insert:
  "kernel_inv M sh me \<Longrightarrow> kernel_inv (M(i := Some (KernelF d))) (sh(i := Some ())) (me(i := Some km))"
  by (simp add: kernel_inv_def)

lemma kernel_inv_metas: "kernel_inv M sh me \<Longrightarrow> me i \<noteq> None \<Longrightarrow> kernel_inv M sh (me(i := Some km))"
  unfolding kernel_inv_def by (metis fun_upd_apply option.distinct(1))

lemma ids_inv_less: "ids_inv M n \<Longrightarrow> M n = None"
  by (auto simp: ids_inv_def)

lemma ids_inv_upd: "ids_inv M n \<Longrightarrow> i < n \<Longrightarrow> ids_inv (M(i := f)) n"
  by (simp add: ids_inv_def)

lemma ids_inv_remove: "ids_inv M n \<Longrightarrow> ids_inv (M(i := None)) n"
  by (simp add: ids_inv_def)

lemma unat_Suc_less: "n < - 1 \<Longrightarrow> unat (n + 1) = unat n + 1" for n :: u64
  using unat_max by (subst unat_add_lem [THEN iffD1]) (simp_all add: word_less_nat_alt)

lemma ids_inv_Suc: "ids_inv M n \<Longrightarrow> n < - 1 \<Longrightarrow> ids_inv M (n + 1)"
  unfolding ids_inv_def word_less_nat_alt [of _ "n + 1"]
  by (simp add: unat_Suc_less) (metis less_SucI word_less_nat_alt)

lemma ends_inv_plain:
  "ends_inv M P \<Longrightarrow> plain_file g \<or> (\<exists>d. g = KernelF d) \<Longrightarrow> ends_inv (M(i := Some g)) P"
  by (cases g) (auto simp: ends_inv_def)

lemma ends_inv_remove: "ends_inv M P \<Longrightarrow> ends_inv (M(i := None)) P"
  by (simp add: ends_inv_def)

lemma ends_inv_pipe:
  assumes "ends_inv M P" "P p = Some q" "\<And>h. bt_get (pipe_files q) h \<noteq> None \<Longrightarrow> bt_get (pipe_files q') h \<noteq> None"
  shows "ends_inv M (P(p := Some q'))"
proof -
  have "\<exists>q. (P(p := Some q')) r = Some q \<and> bt_get (pipe_files q) h \<noteq> None" if "M i = Some (PipeF r h)" for i r h
  proof -
    have 1: "\<exists>q. P r = Some q \<and> bt_get (pipe_files q) h \<noteq> None"
      using assms(1) that unfolding ends_inv_def by blast
    show ?thesis
    proof (cases "r = p")
      case True
      with 1 assms(2) have "bt_get (pipe_files q) h \<noteq> None" by simp
      from assms(3) [OF this] show ?thesis by (simp add: True)
    qed (use 1 in simp)
  qed
  with assms(1) show ?thesis by (simp add: ends_inv_def)
qed

lemma ends_inv_drop:
  assumes "ends_inv M P" "M i = Some (PipeF p h)" "P p = Some q"
  shows "ends_inv (M(i := None)) (P(p := Some (pf_drop h q)))"
  using assms unfolding ends_inv_def pf_drop_def by (auto, metis option.inject)

lemma pipes_inv_upd: "pipes_inv N P np \<Longrightarrow> P p = Some q \<Longrightarrow> pipe_sound N q' \<Longrightarrow> pipes_inv N (P(p := Some q')) np"
  by (auto simp: pipes_inv_def)

lemmas vfs_inv_rules = bt_wf_insert bt_wf_remove bt_get_insert_fun bt_get_remove_fun

lemma vfs_inv_frame:
  assumes "vfs_inv N s" and "vfs_shadow s' = vfs_shadow s" and "vfs_map s' = vfs_map s"
    and "vfs_metas s' = vfs_metas s" and "inode_id s' = inode_id s"
    and "vfs_pipes s' = vfs_pipes s" "vfs_next_pipe s' = vfs_next_pipe s"
  shows "vfs_inv N s'"
  using assms by (simp add: vfs_inv_def)

lemma in_x_run [act_simps]: "in_x m s = (case m (vfs_x s) of (r, x) \<Rightarrow> (r, s\<lparr>vfs_x := x\<rparr>))"
  by (simp add: in_x_def act_simps)

text \<open>Operations on other state than the tables keep the invariant, and so does any computation
  on a kernel file's metadata.\<close>

definition vfs_ready :: "nat \<Rightarrow> ('d, 'x, 'n) vfs \<Rightarrow> bool" where
  "vfs_ready N s \<longleftrightarrow> vfs_inv N s \<and> inode_id s < - 2"

lemma ready_inv: "vfs_ready N s \<Longrightarrow> vfs_inv N s"
  by (simp add: vfs_ready_def)

lemma in_x_keeps [intro]: "keeps (vfs_ready N) (in_x m)" "keeps (vfs_inv N) (in_x m)"
proof -
  have "vfs_inv N (snd (in_x m s))" "inode_id (snd (in_x m s)) = inode_id s" if "vfs_inv N s" for s
    using that by (auto simp: act_simps split: prod.splits intro: vfs_inv_frame)
  then show "keeps (vfs_ready N) (in_x m)" "keeps (vfs_inv N) (in_x m)"
    unfolding keeps_def vfs_ready_def by metis+
qed

lemma with_meta_inv: "vfs_inv N s \<Longrightarrow> vfs_inv N (snd (with_meta fid m s))"
  by (cases "bt_get (vfs_metas s) fid")
    (simp_all add: with_meta_def vfs_inv_def kernel_inv_metas bt_get_insert_fun split: prod.splits)

lemma with_meta_keeps [intro]: "keeps (vfs_inv N) (with_meta fid m)"
  by (rule keepsI) (rule with_meta_inv)

lemma vfs_inv_replace:
  assumes "vfs_inv N s" and "get_file i s = Some f" and "plain_file f" and "plain_file g"
  shows "vfs_inv N (s\<lparr>vfs_map := bt_insert i g (vfs_map s), vfs_n := n\<rparr>)"
proof -
  have "i < inode_id s" using assms(1,2) by (auto simp: vfs_inv_def ids_inv_def get_file_def)
  moreover have "\<not> is_kernel (bt_get (vfs_map s) i)" using assms(2,3) by (simp add: get_file_def)
  ultimately show ?thesis
    using assms(1,4) by (simp add: vfs_inv_def bt_get_insert_fun kernel_inv_special ids_inv_upd ends_inv_plain)
qed

lemma pipe_files_step:
  assumes "pf_read N buf q = (x, q')"
  shows "pipe_files q' = pipe_files q"
  using assms by (auto simp: pf_read_def pipe_read_at_def Let_def split: if_splits prod.splits)

lemma pipe_files_step':
  assumes "pf_write N buf q = (x, q')"
  shows "pipe_files q' = pipe_files q"
  using assms by (auto simp: pf_write_def pipe_write_at_def Let_def split: if_splits prod.splits)

lemma pipe_sound_read:
  assumes "pipe_sound N q" shows "pipe_sound N (snd (pf_read N buf q))"
proof (cases "pf_read N buf q")
  case (Pair x q')
  have "pipe_ok N q (pipe_content N q) []" using assms by (simp add: pipe_sound_def pipe_ok_def)
  from pipe_ok_read [OF this Pair] Pair show ?thesis
    by (auto simp: pipe_sound_def pipe_ok_def split: progress.splits)
qed

lemma pipe_sound_write:
  assumes "pipe_sound N q" shows "pipe_sound N (snd (pf_write N buf q))"
proof (cases "pf_write N buf q")
  case (Pair x q')
  have "pipe_ok N q (pipe_content N q) []" using assms by (simp add: pipe_sound_def pipe_ok_def)
  from pipe_ok_write [OF this Pair] Pair show ?thesis
    by (auto simp: pipe_sound_def pipe_ok_def split: progress.splits)
qed

lemma with_pipe_inv:
  assumes inv: "vfs_inv N s" and "\<And>q. pipe_sound N q \<Longrightarrow> pipe_sound N (snd (g q))"
    and "\<And>q h. bt_get (pipe_files q) h \<noteq> None \<Longrightarrow> bt_get (pipe_files (snd (g q))) h \<noteq> None"
  shows "vfs_inv N (snd (with_pipe p g s))"
proof (cases "bt_get (vfs_pipes s) p")
  case None
  then show ?thesis using inv by (simp add: with_pipe_def)
next
  case (Some q)
  obtain r q' where g: "g q = (r, q')" by fastforce
  have "pipe_sound N q'" using assms(2) [of q] inv Some g by (auto simp: vfs_inv_def pipes_inv_def)
  moreover have "ends_inv (bt_get (vfs_map s)) ((bt_get (vfs_pipes s))(p := Some q'))"
    by (rule ends_inv_pipe [of _ _ p q]) (use inv Some g assms(3) [of q] in \<open>auto simp: vfs_inv_def\<close>)
  ultimately show ?thesis
    using inv Some g by (simp add: vfs_inv_def with_pipe_def bt_get_insert_fun pipes_inv_upd)
qed


section \<open>Every operation keeps it\<close>

lemma snd_finished [simp]: "snd (finished m s) = snd (m s)"
  by (auto simp: finished_def act_simps split: prod.splits sum.splits)

lemma snd_bind_ret [simp]: "snd (bind m (\<lambda>x. ret (g x)) s) = snd (m s)"
  by (auto simp: act_simps split: prod.splits sum.splits)

lemma snd_bind_lift [simp]: "snd (bind m (\<lambda>x. lift (g x)) s) = snd (m s)"
  by (auto simp: act_simps split: prod.splits sum.splits)

lemma with_event_inv:
  assumes "vfs_inv N s" and "get_file i s = Some (EventF e)"
  shows "vfs_inv N (snd (with_event i e m s))"
  using vfs_inv_replace [OF assms, of "EventF (snd (m e))" "vfs_n s"]
  by (simp add: with_event_def split_beta)

lemma with_socket_inv:
  assumes "vfs_inv N s" and "get_file i s = Some (SocketF so)"
  shows "vfs_inv N (snd (with_socket i so m s))"
proof (cases "m \<lparr>s_file = so, s_net = vfs_n s\<rparr>")
  case (Pair r t)
  then show ?thesis
    using vfs_inv_replace [OF assms, of "SocketF (s_file t)" "s_net t"] by (simp add: with_socket_def)
qed

lemma pf_read_inv: "vfs_inv N s \<Longrightarrow> vfs_inv N (snd (with_pipe p (pf_read N buf) s))"
  by (rule with_pipe_inv) (simp_all add: pipe_sound_read pipe_files_step [OF prod.collapse [symmetric]])

lemma pf_write_inv: "vfs_inv N s \<Longrightarrow> vfs_inv N (snd (with_pipe p (pf_write N buf) s))"
  by (rule with_pipe_inv) (simp_all add: pipe_sound_write pipe_files_step' [OF prod.collapse [symmetric]])

lemma pf_id_inv: "vfs_inv N s \<Longrightarrow> vfs_inv N (snd (with_pipe p (\<lambda>q. (g q, q)) s))"
  by (rule with_pipe_inv) simp_all

lemma pf_set_flag_inv: "vfs_inv N s \<Longrightarrow> vfs_inv N (snd (with_pipe p (\<lambda>q. ((), pf_set_open_flag h flag q)) s))"
  by (rule with_pipe_inv) (simp_all add: pf_set_open_flag_def pipe_sound_def)

lemmas object_inv = with_meta_inv with_event_inv with_socket_inv pf_read_inv pf_write_inv pf_id_inv pf_set_flag_inv

lemma file_ops_inv:
  assumes inv: "vfs_inv (v_pipe_buf E) s" and f: "get_file i s = Some f"
  shows "vfs_inv (v_pipe_buf E) (snd (file_read E i f buf s))"
    and "vfs_inv (v_pipe_buf E) (snd (file_write E i f buf s))"
    and "vfs_inv (v_pipe_buf E) (snd (file_read_at E i f off buf s))"
    and "vfs_inv (v_pipe_buf E) (snd (file_write_at E i f off buf s))"
    and "vfs_inv (v_pipe_buf E) (snd (file_flush E i f s))"
    and "vfs_inv (v_pipe_buf E) (snd (file_fsync E i f s))"
    and "vfs_inv (v_pipe_buf E) (snd (file_seek E i f pos s))"
    and "vfs_inv (v_pipe_buf E) (snd (file_get_attr E i f s))"
    and "vfs_inv (v_pipe_buf E) (snd (file_ioctl E i f cmd arg s))"
    and "vfs_inv (v_pipe_buf E) (snd (file_set_open_flag i f flag s))"
    and "vfs_inv (v_pipe_buf E) (snd (file_get_open_flag E i f s))"
    and "vfs_inv (v_pipe_buf E) (snd (file_readdir E i f buf s))"
    and "vfs_inv (v_pipe_buf E) (snd (file_truncate E i f len s))"
    and "vfs_inv (v_pipe_buf E) (snd (file_poll E i f ev s))"
proof -
  note defs = file_read_def file_write_def file_read_at_def file_write_at_def file_flush_def
    file_fsync_def file_seek_def file_get_attr_def file_ioctl_def file_readdir_def file_truncate_def
    file_poll_def file_get_open_flag_def
  have "vfs_inv (v_pipe_buf E) (snd (file_set_open_flag i f flag s))"
  proof (cases f)
    case (SocketF so)
    with f have "get_file i s = Some (SocketF so)" by simp
    from vfs_inv_replace [OF inv this, of "SocketF (so\<lparr>so_open_flag := flag\<rparr>)" "vfs_n s"] SocketF
    show ?thesis by (simp add: file_set_open_flag_def act_simps)
  qed (use inv in \<open>simp_all add: file_set_open_flag_def act_simps object_inv\<close>)
  then show "vfs_inv (v_pipe_buf E) (snd (file_set_open_flag i f flag s))" .
qed (use inv f in \<open>cases f; simp add: file_read_def file_write_def file_read_at_def file_write_at_def
    file_flush_def file_fsync_def file_seek_def file_get_attr_def file_ioctl_def file_readdir_def
    file_truncate_def file_poll_def file_get_open_flag_def act_simps(1-3) object_inv\<close>)+

lemma file_of_run: "bind (file_of i) g s = (case get_file i s of None \<Rightarrow> (panic, s) | Some f \<Rightarrow> g f s)"
  by (simp add: file_of_def act_simps split: option.splits)

lemma file_or_einval_run:
  "bind (file_or_einval i) g s = (case get_file i s of None \<Rightarrow> (Err EINVAL, s) | Some f \<Rightarrow> g f s)"
  by (simp add: file_or_einval_def act_simps split: option.splits)

lemma file_of_inv:
  "vfs_inv N s \<Longrightarrow> (\<And>f. get_file i s = Some f \<Longrightarrow> vfs_inv N (snd (g f s))) \<Longrightarrow>
     vfs_inv N (snd (bind (file_of i) g s))"
  by (simp add: file_of_run split: option.splits)


lemma keeps_lookups [intro]:
  "keeps P (file_of i)" "keeps P (file_or_einval i)" "keeps P (file_dentry f)"
  by (auto simp: file_of_def file_or_einval_def file_dentry_def keeps_def act_simps split: vfile.splits)

lemma keeps_in_x_inv: "keeps (vfs_inv N) (in_x m)"
  by (rule in_x_keeps)

lemmas path_keeps = keeps_bind keeps_basics keeps_lookups keeps_in_x_inv keeps_must

lemma syscontext_keeps [intro]: "keeps P (syscontext_for_vfs fs_info)"
  unfolding syscontext_for_vfs_def by (intro path_keeps)

lemma path_ops_keep:
  "keeps (vfs_inv N) (vfs_statfs E inode)"
  "keeps (vfs_inv N) (vfs_inode_type E inode)"
  "keeps (vfs_inv N) (vfs_get_path E inode buf)"
  "keeps (vfs_inv N) (vfs_update_atime E inode sec nano)"
  "keeps (vfs_inv N) (vfs_update_mtime E inode sec nano)"
  "keeps (vfs_inv N) (vfs_rename E old_inode new_inode old_path old_len new_path new_len fs_info flag)"
  "keeps (vfs_inv N) (vfs_unlink E inode path path_len flag)"
  "keeps (vfs_inv N) (vfs_linkat E old_root old_path old_len new_root new_path new_len flags)"
  "keeps (vfs_inv N) (vfs_symlinkat E target target_len new_root new_path new_len)"
  "keeps (vfs_inv N) (vfs_readlinkat E root path path_len buf)"
  "keeps (vfs_inv N) (socket_id inode)"
proof -
  show "keeps (vfs_inv N) (vfs_statfs E inode)"
    unfolding vfs_statfs_def by (auto intro!: path_keeps split: vfile.splits)
  show "keeps (vfs_inv N) (vfs_inode_type E inode)"
    unfolding vfs_inode_type_def by (auto intro!: path_keeps split: vfile.splits)
  show "keeps (vfs_inv N) (vfs_get_path E inode buf)"
    unfolding vfs_get_path_def Let_def by (intro path_keeps)
  show "keeps (vfs_inv N) (vfs_update_atime E inode sec nano)"
    unfolding vfs_update_atime_def by (intro path_keeps)
  show "keeps (vfs_inv N) (vfs_update_mtime E inode sec nano)"
    unfolding vfs_update_mtime_def by (intro path_keeps)
  show "keeps (vfs_inv N) (vfs_rename E old_inode new_inode old_path old_len new_path new_len fs_info flag)"
    unfolding vfs_rename_def by (intro path_keeps syscontext_keeps)
  show "keeps (vfs_inv N) (vfs_unlink E inode path path_len flag)"
    unfolding vfs_unlink_def by (auto intro!: path_keeps)
  show "keeps (vfs_inv N) (vfs_linkat E old_root old_path old_len new_root new_path new_len flags)"
    unfolding vfs_linkat_def by (auto intro!: path_keeps)
  show "keeps (vfs_inv N) (vfs_symlinkat E target target_len new_root new_path new_len)"
    unfolding vfs_symlinkat_def by (intro path_keeps)
  show "keeps (vfs_inv N) (vfs_readlinkat E root path path_len buf)"
    unfolding vfs_readlinkat_def by (auto intro!: path_keeps)
  show "keeps (vfs_inv N) (socket_id inode)"
    unfolding socket_id_def by (auto intro!: path_keeps split: vfile.splits)
qed

lemma data_ops_inv:
  assumes "vfs_inv (v_pipe_buf E) s"
  shows "vfs_inv (v_pipe_buf E) (snd (vfs_poll E inode ev s))"
    and "vfs_inv (v_pipe_buf E) (snd (vfs_ioctl E inode cmd arg s))"
    and "vfs_inv (v_pipe_buf E) (snd (vfs_getattr E inode s))"
    and "vfs_inv (v_pipe_buf E) (snd (vfs_read_at E inode off buf s))"
    and "vfs_inv (v_pipe_buf E) (snd (vfs_read E inode buf s))"
    and "vfs_inv (v_pipe_buf E) (snd (vfs_write_at E inode off buf w s))"
    and "vfs_inv (v_pipe_buf E) (snd (vfs_write E inode buf w s))"
    and "vfs_inv (v_pipe_buf E) (snd (vfs_flush E inode s))"
    and "vfs_inv (v_pipe_buf E) (snd (vfs_fsync E inode s))"
    and "vfs_inv (v_pipe_buf E) (snd (vfs_lseek E inode pos s))"
    and "vfs_inv (v_pipe_buf E) (snd (vfs_readdir E inode buf s))"
    and "vfs_inv (v_pipe_buf E) (snd (vfs_ftruncate E inode len s))"
proof -
  note * = file_of_inv [OF assms] and f = file_ops_inv [OF assms]
  show "vfs_inv (v_pipe_buf E) (snd (vfs_write E inode buf w s))"
    unfolding vfs_write_def using f by (intro *) (auto simp: assms act_simps)
qed (simp_all add: vfs_poll_def vfs_ioctl_def vfs_getattr_def vfs_read_at_def vfs_read_def vfs_write_at_def
    vfs_flush_def vfs_fsync_def vfs_lseek_def vfs_readdir_def vfs_ftruncate_def
    file_of_inv [OF assms] file_ops_inv [OF assms])

lemma get_open_flag_map: "get_file j (snd (file_get_open_flag E i f s)) = get_file j s"
  by (cases f) (auto simp: file_get_open_flag_def with_meta_def with_pipe_def get_file_def act_simps
      split: option.splits prod.splits)

lemma fcntl_bind_inv:
  assumes "vfs_inv (v_pipe_buf E) s" and "get_file i s = Some f"
    and "\<And>flag s'. vfs_inv (v_pipe_buf E) s' \<Longrightarrow> get_file i s' = Some f \<Longrightarrow>
           vfs_inv (v_pipe_buf E) (snd (g flag s'))"
  shows "vfs_inv (v_pipe_buf E) (snd (bind (file_get_open_flag E i f) g s))"
proof (cases "file_get_open_flag E i f s")
  case (Pair r s')
  then have "vfs_inv (v_pipe_buf E) s'" "get_file i s' = Some f"
    using file_ops_inv(11) [OF assms(1,2)] get_open_flag_map [of i E i f s] assms(2) by simp_all
  with Pair assms(3) show ?thesis by (cases r) (simp_all add: bind_def)
qed

lemma do_fcntl_inv:
  assumes "vfs_inv (v_pipe_buf E) s"
  shows "vfs_inv (v_pipe_buf E) (snd (do_fcntl E inode cmd args s))"
proof -
  have "vfs_inv (v_pipe_buf E) (snd (bind (file_of inode) (\<lambda>f. case c of
       F_DUPFD_CLOEXEC \<Rightarrow>
         bind (file_get_open_flag E inode f) (\<lambda>flag.
         bind (file_set_open_flag inode f (flag OR O_CLOEXEC (v_abi E))) (\<lambda>_. ret 0))
     | F_GETFD \<Rightarrow>
         bind (file_get_open_flag E inode f) (\<lambda>flag.
         ret (if contains flag (O_CLOEXEC (v_abi E)) then 1 else 0))
     | F_SETFD \<Rightarrow>
         bind (file_get_open_flag E inode f) (\<lambda>flag.
         bind (if args AND 1 = 0
               then file_set_open_flag inode f (flag AND NOT (O_CLOEXEC (v_abi E)))
               else file_set_open_flag inode f (flag OR O_CLOEXEC (v_abi E))) (\<lambda>_. ret 0))
     | F_GETFL \<Rightarrow> file_get_open_flag E inode f
     | F_SETFL \<Rightarrow>
         bind (file_set_open_flag inode f (from_bits_truncate (O_ALL (v_abi E)) args)) (\<lambda>_. ret 0)
     | F_OTHER \<Rightarrow> fail EINVAL) s))" for c
    by (rule file_of_inv [OF assms], cases c)
      (simp_all add: fcntl_bind_inv [OF assms] file_ops_inv [OF assms] file_ops_inv(10) act_simps(1,2) assms)
  then show ?thesis
    by (cases "v_fcntl E (ucast cmd)") (simp_all add: do_fcntl_def act_simps(4) bind_run [of "lift _"] assms)
qed


section \<open>Creating and closing files\<close>

lemma next_inode_id_run [act_simps]: "next_inode_id s = (Ok (inode_id s), s\<lparr>inode_id := inode_id s + 1\<rparr>)"
  by (simp add: next_inode_id_def act_simps)

lemma insert_special_run:
  "insert_special_file f s = (Ok (inode_id s),
     s\<lparr>inode_id := inode_id s + 1, vfs_map := bt_insert (inode_id s) f (vfs_map s)\<rparr>)"
  by (simp add: insert_special_file_def act_simps)

lemma less_max_Suc: "n < - 1 \<Longrightarrow> n < n + 1" for n :: u64
  by (simp add: word_less_nat_alt unat_Suc_less)

lemma inv_next_free:
  assumes "vfs_inv N s"
  shows "bt_get (vfs_map s) (inode_id s) = None" "bt_get (vfs_shadow s) (inode_id s) = None"
    "bt_get (vfs_metas s) (inode_id s) = None"
proof -
  show m: "bt_get (vfs_map s) (inode_id s) = None"
    using assms ids_inv_less unfolding vfs_inv_def by blast
  then show "bt_get (vfs_shadow s) (inode_id s) = None" "bt_get (vfs_metas s) (inode_id s) = None"
    using assms unfolding vfs_inv_def kernel_inv_def by (metis is_kernel_simps(1))+
qed

lemma ids_inv_next: "ids_inv M n \<Longrightarrow> n < - 1 \<Longrightarrow> ids_inv (M(n := f)) (n + 1)"
  using ids_inv_Suc [of M n] less_max_Suc [of n] ids_inv_upd [of M "n + 1" n f] by blast

lemma below_max: "n < - 2 \<Longrightarrow> n < - 1" for n :: u64
proof -
  have "- 2 < (- 1 :: u64)" by simp
  then show "n < - 2 \<Longrightarrow> n < - 1" by (rule order_less_trans [rotated])
qed

lemma inv_bump: "vfs_inv N s \<Longrightarrow> inode_id s < - 1 \<Longrightarrow> vfs_inv N (s\<lparr>inode_id := inode_id s + 1, vfs_x := x\<rparr>)"
  by (simp add: vfs_inv_def ids_inv_Suc)

lemma inv_insert_special:
  assumes "vfs_inv N s" and "inode_id s < - 1" and "plain_file f"
  shows "vfs_inv N (snd (insert_special_file f s))"
proof -
  note n = inv_next_free(1) [OF assms(1)]
  show ?thesis
    using assms
    by (simp add: insert_special_run vfs_inv_def bt_get_insert_fun kernel_inv_special n ids_inv_next ends_inv_plain)
qed

text \<open>Opening a dentry either fails, having used up an id only, or adds a kernel file with the
  open flags under a fresh id.\<close>

lemma insert_dentry_cases:
  assumes "vfs_inv N s"
  shows "(\<exists>e x. insert_dentry E d fl s = (Inl e, s\<lparr>inode_id := inode_id s + 1, vfs_x := x\<rparr>))
    \<or> (\<exists>km x. km_open_flag km = fl \<and> insert_dentry E d fl s = (Ok (inode_id s),
         s\<lparr>inode_id := inode_id s + 1, vfs_x := x,
           vfs_metas := bt_insert (inode_id s) km (vfs_metas s),
           vfs_map := bt_insert (inode_id s) (KernelF d) (vfs_map s),
           vfs_shadow := bt_insert (inode_id s) () (vfs_shadow s)\<rparr>))"
proof -
  note n = inv_next_free(3) [OF assms]
  obtain r1 x1 where 1: "kf_new_pos (v_abi E) (v_fs E) d fl (vfs_x s) = (r1, x1)" by fastforce
  obtain r2 x2 where 2: "d_inode (v_fs E) d x1 = (r2, x2)" by fastforce
  show ?thesis
  proof (cases r1)
    case (Inl e)
    then show ?thesis using 1 n by (auto simp: insert_dentry_def kernel_file_new_def act_simps)
  next
    case (Inr p)
    show ?thesis
    proof (cases r2)
      case (Inl e)
      then show ?thesis using 1 2 n Inr by (auto simp: insert_dentry_def kernel_file_new_def act_simps)
    next
      case (Inr i)
      show ?thesis
      proof (cases "v_ident E i")
        case None
        then show ?thesis
          using 1 2 n \<open>r1 = Inr p\<close> Inr by (auto simp: insert_dentry_def kernel_file_new_def act_simps)
      next
        case (Some t)
        obtain ino fs ident where t: "t = (ino, fs, ident)" by (cases t)
        show ?thesis
          using 1 2 n \<open>r1 = Inr p\<close> Inr Some t
          by (intro disjI2 exI [of _ "kmeta_new p fl ino fs ident"] exI [of _ x2])
            (simp add: insert_dentry_def kernel_file_new_def act_simps kmeta_new_def)
      qed
    qed
  qed
qed

lemma inv_insert_dentry:
  assumes "vfs_inv N s" and "inode_id s < - 1"
  shows "vfs_inv N (snd (insert_dentry E d fl s))"
  using insert_dentry_cases [OF assms(1), of E d fl]
proof
  assume "\<exists>e x. insert_dentry E d fl s = (Inl e, s\<lparr>inode_id := inode_id s + 1, vfs_x := x\<rparr>)"
  then show ?thesis using inv_bump [OF assms] by auto
next
  assume "\<exists>km x. km_open_flag km = fl \<and> insert_dentry E d fl s = (Ok (inode_id s),
         s\<lparr>inode_id := inode_id s + 1, vfs_x := x,
           vfs_metas := bt_insert (inode_id s) km (vfs_metas s),
           vfs_map := bt_insert (inode_id s) (KernelF d) (vfs_map s),
           vfs_shadow := bt_insert (inode_id s) () (vfs_shadow s)\<rparr>)"
  then show ?thesis
    using assms
    by (auto simp: vfs_inv_def bt_get_insert_fun kernel_inv_insert ids_inv_next ends_inv_plain bt_wf_insert)
qed

lemma vfs_open_inv:
  assumes "vfs_inv N s" and "inode_id s < - 2"
  shows "vfs_inv N (snd (vfs_open E root path path_len mode flags s))"
proof -
  have ins: "leads (vfs_ready N) (vfs_inv N) (insert_dentry E d fl)" for d fl
    by (intro leadsI inv_insert_dentry) (auto simp: vfs_ready_def intro: below_max)
  have "leads (vfs_ready N) (vfs_inv N) (vfs_open E root path path_len mode flags)"
    unfolding vfs_open_def Let_def
    by (intro leads_bind ins ready_inv in_x_keeps keeps_lookups keeps_basics)
  then show ?thesis using assms by (auto simp: leads_def vfs_ready_def)
qed

lemma do_poll_ctl_inv:
  assumes "vfs_inv N s"
  shows "vfs_inv N (snd (do_poll_ctl E inode op fd event s))"
  unfolding do_poll_ctl_def
proof (rule file_of_inv [OF assms])
  fix f assume f: "get_file inode s = Some f"
  show "vfs_inv N (snd (bind (lift (unwrap (v_epoll_op E op))) (\<lambda>op. case f of
       EpollF e \<Rightarrow> modify_state (\<lambda>s. s\<lparr>vfs_map := bt_insert inode (EpollF (epoll_ctl op fd event e)) (vfs_map s)\<rparr>)
     | _ \<Rightarrow> abort) s))"
    using assms vfs_inv_replace [OF assms f, of "EpollF e" "vfs_n s" for e]
    by (cases "v_epoll_op E op"; cases f) (simp_all add: act_simps)
qed

lemma make_pipe_sound: "0 < N \<Longrightarrow> pipe_sound N (snd (make_pipe_file A N))"
  using pipe_run_ok [OF pipe_start, of A N "fst (make_pipe_file A N)" "snd (make_pipe_file A N)"]
  by (simp add: pipe_sound_def pipe_ok_def)

lemma do_pipe2_run:
  "do_pipe2 E flags s =
    (let i = inode_id s; p = vfs_next_pipe s in
     (Ok (i, i + 1),
      s\<lparr>vfs_pipes := bt_insert p (snd (make_pipe_file (v_abi E) (v_pipe_buf E))) (vfs_pipes s),
        vfs_next_pipe := p + 1, inode_id := i + 2,
        vfs_map := bt_insert (i + 1) (PipeF p 1) (bt_insert i (PipeF p 0) (vfs_map s))\<rparr>))"
  by (simp add: do_pipe2_def insert_special_run act_simps make_pipe_file_def Let_def add.assoc)


lemma do_pipe2_inv:
  assumes inv: "vfs_inv (v_pipe_buf E) s" and i: "inode_id s < - 2" and N: "0 < v_pipe_buf E"
  shows "vfs_inv (v_pipe_buf E) (snd (do_pipe2 E flags s))"
proof -
  let ?i = "inode_id s" and ?p = "vfs_next_pipe s" and ?M = "bt_get (vfs_map s)"
  let ?q = "snd (make_pipe_file (v_abi E) (v_pipe_buf E))"
  let ?M' = "?M(?i := Some (PipeF ?p 0), ?i + 1 := Some (PipeF ?p 1))"
  have ne: "?i \<noteq> ?i + 1" using less_max_Suc [OF below_max [OF i]] by auto
  have bump: "?i + 1 < - 1"
    using i below_max [OF i] unat_max by (simp add: word_less_nat_alt unat_Suc_less unat_sub)
  have ids: "ids_inv ?M' (?i + 2)"
  proof -
    have "ids_inv ?M ?i" using inv by (simp add: vfs_inv_def)
    then have "ids_inv ?M' (?i + 1 + 1)" by (intro ids_inv_next below_max [OF i] bump)
    then show ?thesis by (simp add: add.assoc)
  qed
  have free: "?M ?i = None" "?M (?i + 1) = None"
    using inv_next_free(1) [OF inv] ids_inv_less [OF ids_inv_Suc [OF _ below_max [OF i]]] inv
    by (auto simp: vfs_inv_def)
  have ker: "kernel_inv ?M' (bt_get (vfs_shadow s)) (bt_get (vfs_metas s))"
    using inv free ne by (simp add: vfs_inv_def kernel_inv_special)
  have old: "\<exists>q. bt_get (vfs_pipes s) r = Some q \<and> bt_get (pipe_files q) h \<noteq> None \<and> r \<noteq> ?p"
    if "?M j = Some (PipeF r h)" for j r h
    using inv that by (fastforce simp: vfs_inv_def ends_inv_def pipes_inv_def)
  have uniq: "j = k" if "?M j = Some (PipeF r h)" "?M k = Some (PipeF r h)" for j k r h
    using inv that unfolding vfs_inv_def ends_inv_def by blast
  have live: "bt_get (pipe_files ?q) 0 \<noteq> None" "bt_get (pipe_files ?q) 1 \<noteq> None"
    by (simp_all add: make_pipe_file_def set_reader_def set_sender_def)
  have ends: "ends_inv ?M' ((bt_get (vfs_pipes s))(?p := Some ?q))"
    unfolding ends_inv_def
  proof (intro conjI allI impI)
    fix j r h assume "?M' j = Some (PipeF r h)"
    then consider "r = ?p" "h = 0 \<or> h = 1" | "?M j = Some (PipeF r h)" by (auto split: if_splits)
    then show "\<exists>q. ((bt_get (vfs_pipes s))(?p := Some ?q)) r = Some q \<and> bt_get (pipe_files q) h \<noteq> None"
      by cases (use live old [of j r h] in auto)
  next
    fix j k r h assume "?M' j = Some (PipeF r h) \<and> ?M' k = Some (PipeF r h)"
    then show "j = k" using old uniq ne by (auto split: if_splits)
  qed
  have pipes: "pipes_inv (v_pipe_buf E) ((bt_get (vfs_pipes s))(?p := Some ?q)) (?p + 1)"
    using inv make_pipe_sound [OF N] by (fastforce simp: vfs_inv_def pipes_inv_def)
  show ?thesis
    using inv ids ker ends pipes
    by (simp add: do_pipe2_run Let_def vfs_inv_def bt_get_insert_fun)
qed

lemma remove_file_inv:
  assumes inv: "vfs_inv N s"
  shows "vfs_inv N (snd (remove_file E i s))"
proof (cases "i < 4")
  case True
  then show ?thesis using inv by (simp add: remove_file_def act_simps)
next
  case False
  show ?thesis
  proof (cases "get_file i s")
    case None
    then have "bt_get (vfs_shadow s) i = None" "bt_get (vfs_metas s) i = None"
      using inv unfolding vfs_inv_def kernel_inv_def get_file_def by (metis is_kernel_simps(1))+
    then have e: "(bt_get (vfs_shadow s))(i := None) = bt_get (vfs_shadow s)"
      "(bt_get (vfs_map s))(i := None) = bt_get (vfs_map s)"
      using None by (auto simp: get_file_def)
    then show ?thesis
      using False None inv
      by (simp add: remove_file_def act_simps vfs_inv_def bt_get_remove_fun e bt_wf_remove)
  next
    case (Some f)
    then have M: "bt_get (vfs_map s) i = Some f" by (simp add: get_file_def)
    have sh: "bt_get (vfs_shadow s) i = None" if "\<not> is_kernel (Some f)"
      using inv that M unfolding vfs_inv_def kernel_inv_def by metis
    then have e: "(bt_get (vfs_shadow s))(i := None) = bt_get (vfs_shadow s)" if "\<not> is_kernel (Some f)"
      using that by auto
    note rules = vfs_inv_def bt_get_remove_fun bt_get_insert_fun bt_wf_remove kernel_inv_remove
      kernel_inv_drop ids_inv_remove ends_inv_remove M
    show ?thesis
    proof (cases f)
      case (KernelF d)
      have "bt_get (vfs_metas s) i \<noteq> None"
        using inv M KernelF unfolding vfs_inv_def kernel_inv_def by (metis is_kernel_simps(2))
      then show ?thesis
        using False Some inv KernelF
        by (simp add: remove_file_def file_drop_def act_simps rules)
    next
      case (PipeF p h)
      obtain q where q: "bt_get (vfs_pipes s) p = Some q"
        using inv M PipeF unfolding vfs_inv_def ends_inv_def by blast
      have "pipe_sound N (pf_drop h q)"
        using inv q by (auto simp: vfs_inv_def pipes_inv_def pipe_sound_def pf_drop_def)
      then show ?thesis
        using False Some inv PipeF q e M ends_inv_drop [of "bt_get (vfs_map s)" "bt_get (vfs_pipes s)" i p h q]
        by (simp add: remove_file_def file_drop_def with_pipe_def act_simps rules pipes_inv_upd)
    next
      case (EventF ev)
      then show ?thesis
        using False Some inv e by (simp add: remove_file_def file_drop_def act_simps rules)
    next
      case (EpollF ep)
      then show ?thesis
        using False Some inv e by (simp add: remove_file_def file_drop_def act_simps rules)
    next
      case (SocketF so)
      then show ?thesis
        using False Some inv e
        by (simp add: remove_file_def file_drop_def act_simps rules split: prod.splits sum.splits)
    qed
  qed
qed


lemma lookup_OkD:
  "file_of i s = (Inr x, s') \<Longrightarrow> s' = s \<and> get_file i s = Some x"
  "file_or_einval i s = (Inr x, s') \<Longrightarrow> s' = s \<and> get_file i s = Some x"
  "file_dentry f s = (Inr d, s') \<Longrightarrow> s' = s \<and> f = KernelF d"
  "in_x m s = (r, s') \<Longrightarrow> \<exists>x. s' = s\<lparr>vfs_x := x\<rparr>"
  by (auto simp: file_of_def file_or_einval_def file_dentry_def act_simps
      split: option.splits vfile.splits prod.splits sum.splits)
    (auto simp: ok_or_def unwrap_def split: option.splits)

lemma vfs_open_Ok:
  assumes "vfs_open E root path path_len mode flags s = (Ok fid, s')"
  obtains d x where "insert_dentry E d (from_bits_truncate (O_ALL (v_abi E)) flags) (s\<lparr>vfs_x := x\<rparr>) = (Ok fid, s')"
proof -
  from assms obtain start s1 pn s2 d s3 p s4 de s5 pm where
    1: "file_or_einval root s = (Inr start, s1)" "lift (path_str E path path_len) s1 = (Inr pn, s2)"
      "file_dentry start s2 = (Inr d, s3)"
    and 2: "in_x (p_join E (v_root E) d pn) s3 = (Inr p, s4)" "in_x pm s4 = (Inr de, s5)"
    and 3: "insert_dentry E de (from_bits_truncate (O_ALL (v_abi E)) flags) s5 = (Ok fid, s')"
    unfolding vfs_open_def Let_def bind_Ok_iff by blast
  from 1 have "s3 = s" by (auto dest!: lookup_OkD simp: act_simps)
  then obtain x where "s5 = s\<lparr>vfs_x := x\<rparr>"
    using lookup_OkD(4) [OF 2(1)] lookup_OkD(4) [OF 2(2)] by auto
  with 3 show ?thesis using that by blast
qed

lemma file_of_Some: "get_file i s = Some f \<Longrightarrow> file_of i s = (Ok f, s)"
  by (simp add: file_of_def act_simps)

text \<open>The open flags of a kernel file or pipe end.\<close>

definition open_flag_of :: "u64 \<Rightarrow> ('d, 'x, 'n) vfs \<Rightarrow> usize option" where
  "open_flag_of i s = (case get_file i s of
       Some (KernelF d) \<Rightarrow> map_option km_open_flag (bt_get (vfs_metas s) i)
     | Some (PipeF p h) \<Rightarrow> (case bt_get (vfs_pipes s) p of None \<Rightarrow> None | Some q \<Rightarrow> bt_get (pipe_files q) h)
     | _ \<Rightarrow> None)"

lemma get_open_flag_spec:
  assumes "get_file i s = Some f" and "open_flag_of i s = Some fl"
  shows "\<exists>s'. file_get_open_flag E i f s = (Ok fl, s') \<and> get_file i s' = Some f \<and> open_flag_of i s' = Some fl"
  using assms
  by (cases f) (auto simp: open_flag_of_def file_get_open_flag_def with_meta_def with_pipe_def
      kf_get_open_flag_def pf_get_open_flag_def get_file_def act_simps split: option.splits)

lemma set_open_flag_spec:
  assumes "get_file i s = Some f" and "open_flag_of i s = Some fl0"
  shows "\<exists>s'. file_set_open_flag i f fl s = (Ok (), s') \<and> get_file i s' = Some f \<and> open_flag_of i s' = Some fl"
  using assms
  by (cases f) (auto simp: open_flag_of_def file_set_open_flag_def with_meta_def with_pipe_def
      kf_set_open_flag_def pf_set_open_flag_def get_file_def act_simps split: option.splits)

lemma open_flag_of_inv:
  assumes "vfs_inv N s" and "get_file i s = Some f" and "is_kernel (Some f) \<or> (\<exists>p h. f = PipeF p h)"
  shows "\<exists>fl. open_flag_of i s = Some fl"
proof (cases f)
  case (KernelF d)
  then have "bt_get (vfs_metas s) i \<noteq> None"
    using assms(1,2) unfolding vfs_inv_def kernel_inv_def get_file_def by (metis is_kernel_simps(2))
  with KernelF assms(2) show ?thesis by (auto simp: open_flag_of_def)
next
  case (PipeF p h)
  then have "\<exists>q. bt_get (vfs_pipes s) p = Some q \<and> bt_get (pipe_files q) h \<noteq> None"
    using assms(1,2) unfolding vfs_inv_def ends_inv_def get_file_def by blast
  with PipeF assms(2) show ?thesis by (auto simp: open_flag_of_def)
qed (use assms in simp_all)

lemma contains_clear: "c \<noteq> 0 \<Longrightarrow> \<not> contains (f AND NOT c) c"
  by (simp add: contains_def and.assoc)

section \<open>Recovery\<close>

lemma recover_files_spec:
  "(\<And>i u. (i, u) \<in> set es \<Longrightarrow> \<exists>km. bt_get (vfs_metas s) i = Some km \<and> v_utf8 E (km_fs_domain_ident km)) \<Longrightarrow>
   \<exists>m. recover_files E es s = (Ok (), s\<lparr>vfs_map := m\<rparr>)
     \<and> (\<forall>i. bt_get m i = (if i \<in> fst ` set es then
            map_option (\<lambda>km. KernelF (v_shim_dentry E (km_fs_domain km) (km_real_inode_id km) (km_fs_domain_ident km)))
              (bt_get (vfs_metas s) i)
          else bt_get (vfs_map s) i))"
proof (induction es arbitrary: s)
  case Nil
  then show ?case by (intro exI [of _ "vfs_map s"]) (simp add: act_simps)
next
  case (Cons e es)
  obtain i u where e: "e = (i, u)" by (cases e)
  obtain km where km: "bt_get (vfs_metas s) i = Some km" "v_utf8 E (km_fs_domain_ident km)"
    using Cons.prems [of i u] e by auto
  let ?f = "KernelF (v_shim_dentry E (km_fs_domain km) (km_real_inode_id km) (km_fs_domain_ident km))"
  let ?s = "s\<lparr>vfs_map := bt_insert i ?f (vfs_map s)\<rparr>"
  have step: "recover_files E (e # es) s = recover_files E es ?s"
    using km by (simp add: e act_simps Let_def)
  have "\<exists>m. recover_files E es ?s = (Ok (), ?s\<lparr>vfs_map := m\<rparr>)
     \<and> (\<forall>j. bt_get m j = (if j \<in> fst ` set es then
            map_option (\<lambda>km. KernelF (v_shim_dentry E (km_fs_domain km) (km_real_inode_id km) (km_fs_domain_ident km)))
              (bt_get (vfs_metas ?s) j)
          else bt_get (vfs_map ?s) j))"
    by (rule Cons.IH) (use Cons.prems in auto)
  then obtain m where m: "recover_files E es ?s = (Ok (), ?s\<lparr>vfs_map := m\<rparr>)"
    "\<And>j. bt_get m j = (if j \<in> fst ` set es then
            map_option (\<lambda>km. KernelF (v_shim_dentry E (km_fs_domain km) (km_real_inode_id km) (km_fs_domain_ident km)))
              (bt_get (vfs_metas s) j)
          else bt_get (vfs_map ?s) j)" by auto
  show ?case
    by (intro exI [of _ m]) (use step m km e in auto)
qed

text \<open>A small domain for the witnesses: one file system with one file in memory, no sockets, and
  the root directory open under id 0.\<close>

definition sample_venv :: "(unit, unit, u64, unit, u8 list, unit) venv" where
  "sample_venv = \<lparr> v_abi = linux_abi, v_pipe_buf = 4, v_kernel = kernel_of 1, v_fs = mem_fs,
     v_dirent = sample_dirents,
     v_net = \<lparr> n_read_at = (\<lambda>_ _ _. fail ENOSYS), n_write_at = (\<lambda>_ _ _. fail ENOSYS),
               n_poll = (\<lambda>_ _. fail ENOSYS), n_remove_socket = (\<lambda>_. ret ()) \<rparr>,
     v_ident = (\<lambda>_. Some (7, 0, [])), v_shim_dentry = (\<lambda>_ _ _. ()), v_root = (), v_utf8 = (\<lambda>_. True),
     p_join = (\<lambda>_ _ _. ret ()), p_open = (\<lambda>_ _. ret ()), p_open2 = (\<lambda>_ _ _. ret ()),
     p_unlink = (\<lambda>_. ret ()), p_rmdir = (\<lambda>_. ret ()), p_rename_to = (\<lambda>_ _ _ _. ret ()),
     p_link = (\<lambda>_ _. ret ()), p_symlink = (\<lambda>_ _. ret ()), d_path = (\<lambda>_. [47]),
     i_type = (\<lambda>_. OtherNode 0), i_readlink = (\<lambda>_ b. fail ENOSYS), i_stat_fs = (\<lambda>_. ret sample_fs_stat),
     i_update_time = (\<lambda>_ _ _. ret ()), v_now = (0, 0), MODE_ALL = - 1, RENAME_ALL = 7,
     AT_REMOVEDIR = 0x200, UNLINK_ALL = 0x200, AT_EMPTY_PATH = 0x1000, AT_SYMLINK_FOLLOW = 0x400,
     LINK_ALL = 0x1400,
     v_fcntl = (\<lambda>c. if c = 1 then Some F_GETFD else if c = 2 then Some F_SETFD
                    else if c = 3 then Some F_GETFL else if c = 4 then Some F_SETFL else None),
     v_epoll_op = (\<lambda>_. None) \<rparr>"

definition sample_vfs :: "(unit, u8 list, unit) vfs" where
  "sample_vfs = \<lparr> vfs_map = [(0, KernelF ())], vfs_shadow = [(0, ())],
     vfs_metas = [(0, kmeta_new 0 2 7 0 [])], inode_id = 4, vfs_pipes = [], vfs_next_pipe = 0,
     eventfd_id = 0, vfs_x = [1, 2, 3], vfs_n = () \<rparr>"

lemma sample_venv_simps [simp]:
  "v_pipe_buf sample_venv = 4" "v_abi sample_venv = linux_abi" "v_utf8 sample_venv = (\<lambda>_. True)"
  "v_fs sample_venv = mem_fs" "v_kernel sample_venv = kernel_of 1"
  "v_fcntl sample_venv = (\<lambda>c. if c = 1 then Some F_GETFD else if c = 2 then Some F_SETFD
                    else if c = 3 then Some F_GETFL else if c = 4 then Some F_SETFL else None)"
  by (simp_all add: sample_venv_def)

lemma sample_vfs_inv: "vfs_inv 4 sample_vfs"
  by (auto simp: vfs_inv_def sample_vfs_def kernel_inv_def ids_inv_def ends_inv_def pipes_inv_def bt_wf_def)

lemma sample_vfs_id [simp]: "inode_id sample_vfs = 4"
  by (simp add: sample_vfs_def)

section \<open>Properties\<close>

text \<open>C3: The tables of the VFS domain stay consistent under every operation, whether it succeeds,
  fails or panics: the shadow map and the stored metadata name exactly the open kernel files, all
  ids in use are below the id counter, and every pipe end in the table is a live handle, under one
  id only, of a sound ring buffer. (The id counter must not be about to wrap.)\<close>

theorem vfs_tables_invariant:
  assumes "vfs_inv (v_pipe_buf E) s" and "inode_id s < - 2" and "0 < v_pipe_buf E"
  shows "vfs_inv (v_pipe_buf E) (snd (vfs_open E root path path_len mode flags s))
    \<and> vfs_inv (v_pipe_buf E) (snd (vfs_close E i s))
    \<and> vfs_inv (v_pipe_buf E) (snd (do_pipe2 E flags s))
    \<and> vfs_inv (v_pipe_buf E) (snd (do_socket E sid s))
    \<and> vfs_inv (v_pipe_buf E) (snd (do_poll_create E flags s))
    \<and> vfs_inv (v_pipe_buf E) (snd (do_eventfd E v efl s))
    \<and> vfs_inv (v_pipe_buf E) (snd (do_poll_ctl E i op fd event s))
    \<and> vfs_inv (v_pipe_buf E) (snd (do_fcntl E i cmd args s))
    \<and> vfs_inv (v_pipe_buf E) (snd (vfs_read E i buf s))
    \<and> vfs_inv (v_pipe_buf E) (snd (vfs_write E i buf w s))
    \<and> vfs_inv (v_pipe_buf E) (snd (vfs_read_at E i off buf s))
    \<and> vfs_inv (v_pipe_buf E) (snd (vfs_write_at E i off buf w s))
    \<and> vfs_inv (v_pipe_buf E) (snd (vfs_lseek E i pos s))
    \<and> vfs_inv (v_pipe_buf E) (snd (vfs_readdir E i buf s))
    \<and> vfs_inv (v_pipe_buf E) (snd (vfs_ftruncate E i len s))
    \<and> vfs_inv (v_pipe_buf E) (snd (vfs_rename E i j path path_len path2 len2 fs_info flag s))
    \<and> vfs_inv (v_pipe_buf E) (snd (vfs_unlink E i path path_len flag s))
    \<and> vfs_inv (v_pipe_buf E) (snd (vfs_linkat E i path path_len j path2 len2 flag s))"
proof -
  note i1 = below_max [OF assms(2)]
  have ev: "vfs_inv (v_pipe_buf E) (snd (do_eventfd E v efl s))"
  proof -
    obtain e k where "eventfd_create (v_abi E) v efl (eventfd_id s) = (Ok e, k)"
      by (simp add: eventfd_create_def act_simps)
    moreover have "vfs_inv (v_pipe_buf E) (s\<lparr>eventfd_id := k\<rparr>)" by (rule vfs_inv_frame [OF assms(1)]) simp_all
    ultimately show ?thesis
      using inv_insert_special [of "v_pipe_buf E" "s\<lparr>eventfd_id := k\<rparr>" "EventF e"] i1
      by (simp add: do_eventfd_def act_simps)
  qed
  show ?thesis
    unfolding vfs_close_def do_socket_def do_poll_create_def
    by (intro conjI ev vfs_open_inv remove_file_inv do_pipe2_inv inv_insert_special do_poll_ctl_inv
        do_fcntl_inv data_ops_inv path_ops_keep [THEN keepsD] assms i1) simp_all
qed


theorem vfs_tables_invariant_witness:
  "vfs_inv 4 (snd (do_pipe2 sample_venv 0 sample_vfs))
   \<and> vfs_inv 4 (snd (vfs_open sample_venv 0 [] 0 0 0 sample_vfs))"
  using vfs_tables_invariant [of sample_venv sample_vfs 0 "[]" 0 0 0] sample_vfs_inv by simp

text \<open>A successful open returns an id that was not in use, under which there is now a kernel file
  with exactly the requested open flags (the unknown bits masked off), recorded for recovery; no
  other open file is touched. An open below an id that is not open fails with EINVAL.\<close>

theorem vfs_open_fresh:
  assumes inv: "vfs_inv N s"
  shows "(get_file root s = None \<longrightarrow> vfs_open E root path path_len mode flags s = (Err EINVAL, s))
    \<and> (\<forall>fid s'. vfs_open E root path path_len mode flags s = (Ok fid, s') \<longrightarrow>
        get_file fid s = None \<and> (\<exists>d. get_file fid s' = Some (KernelF d))
        \<and> map_option km_open_flag (bt_get (vfs_metas s') fid)
            = Some (from_bits_truncate (O_ALL (v_abi E)) flags)
        \<and> bt_get (vfs_shadow s') fid \<noteq> None
        \<and> (\<forall>j. j \<noteq> fid \<longrightarrow> get_file j s' = get_file j s \<and> bt_get (vfs_metas s') j = bt_get (vfs_metas s) j))"
proof (rule conjI; intro allI impI)
  assume "get_file root s = None"
  then show "vfs_open E root path path_len mode flags s = (Err EINVAL, s)"
    by (simp add: vfs_open_def file_or_einval_run)
next
  fix fid s'
  let ?fl = "from_bits_truncate (O_ALL (v_abi E)) flags"
  assume "vfs_open E root path path_len mode flags s = (Ok fid, s')"
  then obtain d x where ins: "insert_dentry E d ?fl (s\<lparr>vfs_x := x\<rparr>) = (Ok fid, s')"
    by (rule vfs_open_Ok)
  have inv': "vfs_inv N (s\<lparr>vfs_x := x\<rparr>)" by (rule vfs_inv_frame [OF inv]) simp_all
  have free: "get_file (inode_id s) s = None"
    using inv_next_free(1) [OF inv] by (simp add: get_file_def)
  from insert_dentry_cases [OF inv', of E d ?fl] ins free
  show "get_file fid s = None \<and> (\<exists>d. get_file fid s' = Some (KernelF d))
      \<and> map_option km_open_flag (bt_get (vfs_metas s') fid) = Some ?fl
      \<and> bt_get (vfs_shadow s') fid \<noteq> None
      \<and> (\<forall>j. j \<noteq> fid \<longrightarrow> get_file j s' = get_file j s \<and> bt_get (vfs_metas s') j = bt_get (vfs_metas s) j)"
    by (auto simp: get_file_def)
qed

theorem vfs_open_fresh_witness:
  "\<exists>s'. vfs_open sample_venv 0 [] 0 0 0x80002 sample_vfs = (Ok 4, s')
     \<and> get_file 4 sample_vfs = None \<and> map_option km_open_flag (bt_get (vfs_metas s') 4) = Some 0x80002"
proof -
  obtain r s' where e: "vfs_open sample_venv 0 [] 0 0 0x80002 sample_vfs = (r, s')" by fastforce
  have "fst (vfs_open sample_venv 0 [] 0 0 0x80002 sample_vfs) = Ok 4" by code_simp
  with e have "vfs_open sample_venv 0 [] 0 0 0x80002 sample_vfs = (Ok 4, s')" by simp
  with vfs_open_fresh [OF sample_vfs_inv, of 0 sample_venv "[]" 0 0 "0x80002"] show ?thesis
    by (auto simp: from_bits_truncate_def)
qed

text \<open>Closing removes exactly the closed id from the table of open files, for every kind of file
  and whatever its destructor does; the ids 0 to 3 (the root directory and the standard streams) are
  never removed.\<close>

theorem vfs_close_spec:
  "get_file j (snd (vfs_close E i s)) = (if 4 \<le> i \<and> j = i then None else get_file j s)"
proof (cases "i < 4")
  case True
  then show ?thesis by (auto simp: vfs_close_def remove_file_def act_simps)
next
  case False
  have drop: "get_file j (snd (file_drop E i f t)) = get_file j t" for f t
    by (cases f) (auto simp: file_drop_def with_pipe_def get_file_def act_simps
        split: option.splits prod.splits)
  show ?thesis
  proof (cases "get_file i s")
    case None
    with False show ?thesis
      by (auto simp: vfs_close_def remove_file_def act_simps get_file_def)
  next
    case (Some f)
    let ?t = "s\<lparr>vfs_map := bt_remove i (vfs_map s)\<rparr>"
    obtain r t' where t': "file_drop E i f ?t = (r, t')" by fastforce
    then have "get_file j t' = get_file j ?t" using drop [of f ?t] by simp
    with False Some t' show ?thesis
      by (auto simp: vfs_close_def remove_file_def act_simps get_file_def split: sum.splits)
  qed
qed

text \<open>The descriptor flags of a kernel file or pipe end round-trip through fcntl: after F_SETFL
  the next F_GETFL returns the flags set, masked to the known bits; after F_SETFD the next F_GETFD
  returns the close-on-exec bit that was set.\<close>

theorem fcntl_roundtrip:
  assumes inv: "vfs_inv N s" and f: "get_file i s = Some f" and "is_kernel (Some f) \<or> (\<exists>p h. f = PipeF p h)"
    and "v_fcntl E (ucast setfl) = Some F_SETFL" and "v_fcntl E (ucast getfl) = Some F_GETFL"
    and "v_fcntl E (ucast setfd) = Some F_SETFD" and "v_fcntl E (ucast getfd) = Some F_GETFD"
    and "O_CLOEXEC (v_abi E) \<noteq> 0"
  shows "(\<exists>s' s''. do_fcntl E i setfl args s = (Ok 0, s')
       \<and> do_fcntl E i getfl x s' = (Ok (from_bits_truncate (O_ALL (v_abi E)) args), s''))
    \<and> (\<exists>s' s''. do_fcntl E i setfd args s = (Ok 0, s')
       \<and> do_fcntl E i getfd x s' = (Ok (if args AND 1 = 0 then 0 else 1), s''))"
proof -
  obtain fl where fl: "open_flag_of i s = Some fl" using open_flag_of_inv [OF assms(1-3)] by blast
  note run = do_fcntl_def file_of_Some act_simps(4)
  have A: "\<exists>s' s''. do_fcntl E i setfl args s = (Ok 0, s')
       \<and> do_fcntl E i getfl x s' = (Ok (from_bits_truncate (O_ALL (v_abi E)) args), s'')"
  proof -
    let ?fl = "from_bits_truncate (O_ALL (v_abi E)) args"
    obtain s' where s': "file_set_open_flag i f ?fl s = (Ok (), s')" "get_file i s' = Some f"
        "open_flag_of i s' = Some ?fl"
      using set_open_flag_spec [OF f fl] by blast
    obtain s'' where "file_get_open_flag E i f s' = (Ok ?fl, s'')"
      using get_open_flag_spec [OF s'(2,3)] by blast
    with s' f assms(4,5) show ?thesis by (simp add: run bind_run ret_def)
  qed
  have B: "\<exists>s' s''. do_fcntl E i setfd args s = (Ok 0, s')
       \<and> do_fcntl E i getfd x s' = (Ok (if args AND 1 = 0 then 0 else 1), s'')"
  proof -
    obtain t where t: "file_get_open_flag E i f s = (Ok fl, t)" "get_file i t = Some f" "open_flag_of i t = Some fl"
      using get_open_flag_spec [OF f fl] by blast
    let ?fl = "if args AND 1 = 0 then fl AND NOT (O_CLOEXEC (v_abi E)) else fl OR O_CLOEXEC (v_abi E)"
    obtain s' where s': "file_set_open_flag i f ?fl t = (Ok (), s')" "get_file i s' = Some f"
        "open_flag_of i s' = Some ?fl"
      using set_open_flag_spec [OF t(2,3)] by blast
    obtain s'' where "file_get_open_flag E i f s' = (Ok ?fl, s'')"
      using get_open_flag_spec [OF s'(2,3)] by blast
    with t s' f assms(6,7) contains_clear [OF assms(8)] show ?thesis
      by (cases "args AND 1 = 0") (simp_all add: run bind_run ret_def)
  qed
  from A B show ?thesis by blast
qed

theorem fcntl_roundtrip_witness:
  "\<exists>s' s''. do_fcntl sample_venv 0 4 0x402 sample_vfs = (Ok 0, s') \<and> do_fcntl sample_venv 0 3 0 s' = (Ok 0x402, s'')"
  using fcntl_roundtrip [OF sample_vfs_inv, of 0 "KernelF ()" sample_venv 4 3 2 1 "0x402" 0]
  by (simp add: sample_vfs_def get_file_def from_bits_truncate_def)


text \<open>C5: A pipe used through its two ids: bytes written to the writing end (fewer than PIPE_BUF of
  them) are read back unchanged from the reading end, and once the writing end is closed a read of
  the drained pipe reports end of file instead of blocking.\<close>

theorem vfs_pipe_transfer:
  assumes inv: "vfs_inv (v_pipe_buf E) s" and ids: "4 \<le> inode_id s" "inode_id s < - 2"
    and bs: "bs \<noteq> []" "length bs < v_pipe_buf E" and buf: "length buf = length bs"
  shows "\<exists>r w s1 s2 s3 s4. do_pipe2 E fl s = (Ok (r, w), s1)
    \<and> vfs_write E w bs (length bs) s1 = (Ok (Done (length bs)), s2)
    \<and> vfs_read E r buf s2 = (Ok (Done (bs, length bs)), s3)
    \<and> vfs_close E w s3 = (Ok (), s4)
    \<and> fst (vfs_read E r buf s4) = Ok (Done (buf, 0))"
proof -
  let ?N = "v_pipe_buf E" and ?i = "inode_id s" and ?p = "vfs_next_pipe s"
  let ?q = "snd (make_pipe_file (v_abi E) ?N)"
  have N: "0 < ?N" using bs(2) by simp
  have ne: "?i \<noteq> ?i + 1" and w4: "\<not> ?i + 1 < 4"
    using less_max_Suc [OF below_max [OF ids(2)]] ids(1) by auto
  let ?s1 = "snd (do_pipe2 E fl s)"
  have s1: "do_pipe2 E fl s = (Ok (?i, ?i + 1), ?s1)" "get_file ?i ?s1 = Some (PipeF ?p 0)"
    "get_file (?i + 1) ?s1 = Some (PipeF ?p 1)" "bt_get (vfs_pipes ?s1) ?p = Some ?q"
    using ne by (simp_all add: do_pipe2_run Let_def get_file_def)
  have q: "ring_inv ?N (pipe_inode ?q)" "pipe_content ?N ?q = []" "write_wait (pipe_inode ?q) = Some 1"
    using make_pipe_sound [OF N, of "v_abi E"]
    by (simp_all add: pipe_sound_def)
      (simp add: make_pipe_file_def set_reader_def set_sender_def pipe_data_new_def ring_content_def
        available_read_def)
  obtain d where w: "pf_write ?N bs ?q = (Done (length bs), ?q\<lparr>pipe_inode := d\<rparr>)"
    and d: "ring_inv ?N d" "ring_content ?N d = bs" "write_wait d = Some 1"
    using pf_write_fits [OF q(1) bs(1)] q(2,3) bs(2) by auto
  let ?q1 = "?q\<lparr>pipe_inode := d\<rparr>"
  obtain cs d' where r: "pd_read ?N (length bs) d = (cs, d')" by fastforce
  have d': "ring_inv ?N d'" "ring_content ?N d' = []" "write_wait d' = Some 1"
    using pd_read_spec [OF d(1) r] pd_read_frame [OF r] d by auto
  have "buf \<noteq> []" using bs(1) buf by auto
  have sp: "splice 0 bs buf = bs" using buf by (simp add: splice_def)
  have rd: "pf_read ?N buf ?q1 = (Done (bs, length bs), ?q1\<lparr>pipe_inode := d'\<rparr>)"
    using pf_read_cases [of ?N ?q1 buf] d bs(1) buf r sp \<open>buf \<noteq> []\<close> by (simp add: Let_def)
  let ?q2 = "?q1\<lparr>pipe_inode := d'\<rparr>"
  have eof: "fst (pf_read ?N buf (pf_drop 1 ?q2)) = Done (buf, 0)"
    using pf_read_cases [of ?N "pf_drop 1 ?q2" buf] d' \<open>buf \<noteq> []\<close>
    by (simp add: pf_drop_def is_write_wait_def upgrade_def)
  let ?s2 = "?s1\<lparr>vfs_pipes := bt_insert ?p ?q1 (vfs_pipes ?s1)\<rparr>"
  let ?s3 = "?s2\<lparr>vfs_pipes := bt_insert ?p ?q2 (vfs_pipes ?s2)\<rparr>"
  let ?s4 = "?s3\<lparr>vfs_map := bt_remove (?i + 1) (vfs_map ?s3),
                vfs_pipes := bt_insert ?p (pf_drop 1 ?q2) (vfs_pipes ?s3),
                vfs_shadow := bt_remove (?i + 1) (vfs_shadow ?s3)\<rparr>"
  have 2: "vfs_write E (?i + 1) bs (length bs) ?s1 = (Ok (Done (length bs)), ?s2)"
    using s1(3,4) w by (simp add: vfs_write_def file_of_run file_write_def with_pipe_def)
  have 3: "vfs_read E ?i buf ?s2 = (Ok (Done (bs, length bs)), ?s3)"
    using s1(2) rd by (simp add: vfs_read_def file_of_run file_read_def with_pipe_def get_file_def)
  have 4: "vfs_close E (?i + 1) ?s3 = (Ok (), ?s4)"
    using s1(3) w4
    by (simp add: vfs_close_def remove_file_def file_drop_def with_pipe_def act_simps get_file_def)
  have 5: "fst (vfs_read E ?i buf ?s4) = Ok (Done (buf, 0))"
    using s1(2) ne eof
    by (simp add: vfs_read_def file_of_run file_read_def with_pipe_def get_file_def split_beta)
  from s1(1) 2 3 4 5 show ?thesis by blast
qed

theorem vfs_pipe_transfer_witness:
  "\<exists>r w s1 s2 s3. do_pipe2 sample_venv 0 sample_vfs = (Ok (r, w), s1)
    \<and> vfs_write sample_venv w [65, 66] (length [65, 66 :: u8]) s1 = (Ok (Done (length [65, 66 :: u8])), s2)
    \<and> vfs_read sample_venv r [0, 0] s2 = (Ok (Done ([65, 66], length [65, 66 :: u8])), s3)"
  using vfs_pipe_transfer [of sample_venv sample_vfs "[65, 66]" "[0, 0]" 0] sample_vfs_inv
  by simp blast

text \<open>C4: Recovery of the domain after a reload: from any consistent state, rebuilding the table from
  the stored data succeeds and gives back every kernel file under its id, on the dentry its metadata
  names and with its position and open flags; the id counter goes on, and the tables are consistent
  again. Pipes, event counters, epoll instances and sockets are not recovered: their ids are unknown
  afterwards.\<close>

theorem vfs_recovery:
  assumes inv: "vfs_inv N s"
    and utf8: "\<And>i km. bt_get (vfs_metas s) i = Some km \<Longrightarrow> v_utf8 E (km_fs_domain_ident km)"
  shows "\<exists>s'. recover_kernel_files E (vfs_reload s) = (Ok (), s')
    \<and> vfs_metas s' = vfs_metas s \<and> vfs_shadow s' = vfs_shadow s \<and> inode_id s' = inode_id s
    \<and> (\<forall>i. get_file i s' = map_option (\<lambda>km. KernelF (v_shim_dentry E (km_fs_domain km)
            (km_real_inode_id km) (km_fs_domain_ident km))) (bt_get (vfs_metas s) i))
    \<and> (\<forall>i. get_file i s' \<noteq> None \<longleftrightarrow> is_kernel (get_file i s))
    \<and> vfs_inv N s'"
proof -
  let ?r = "vfs_reload s"
  let ?f = "\<lambda>km. KernelF (v_shim_dentry E (km_fs_domain km) (km_real_inode_id km) (km_fs_domain_ident km))"
  have sh: "i \<in> fst ` set (vfs_shadow s) \<longleftrightarrow> is_kernel (get_file i s)"
    and me: "bt_get (vfs_metas s) i \<noteq> None \<longleftrightarrow> is_kernel (get_file i s)" for i
    using inv bt_keys_get [of "vfs_shadow s" i]
    by (auto simp: vfs_inv_def kernel_inv_def bt_keys_def get_file_def)
  have "\<exists>m. recover_files E (vfs_shadow s) ?r = (Ok (), ?r\<lparr>vfs_map := m\<rparr>)
     \<and> (\<forall>i. bt_get m i = (if i \<in> fst ` set (vfs_shadow s) then map_option ?f (bt_get (vfs_metas ?r) i)
          else bt_get (vfs_map ?r) i))"
  proof (rule recover_files_spec)
    fix i u assume "(i, u) \<in> set (vfs_shadow s)"
    then have "i \<in> fst ` set (vfs_shadow s)" by force
    then show "\<exists>km. bt_get (vfs_metas ?r) i = Some km \<and> v_utf8 E (km_fs_domain_ident km)"
      using sh [of i] me [of i] utf8 by (auto simp: vfs_reload_def)
  qed
  then obtain m where m: "recover_files E (vfs_shadow s) ?r = (Ok (), ?r\<lparr>vfs_map := m\<rparr>)"
    and get: "\<And>i. bt_get m i = map_option ?f (bt_get (vfs_metas s) i)"
    using sh me by (fastforce simp: vfs_reload_def)
  have ker: "is_kernel (bt_get m i) \<longleftrightarrow> is_kernel (get_file i s)" for i
    using me [of i] by (cases "bt_get (vfs_metas s) i") (simp_all add: get)
  have below: "i < inode_id s" if "bt_get m i \<noteq> None" for i
  proof -
    have "is_kernel (get_file i s)" using that me [of i] by (auto simp: get)
    then show ?thesis using inv by (cases "get_file i s") (auto simp: vfs_inv_def ids_inv_def get_file_def)
  qed
  have "vfs_inv N (?r\<lparr>vfs_map := m\<rparr>)"
    using inv ker below
    by (auto simp: vfs_inv_def vfs_reload_def kernel_inv_def ids_inv_def ends_inv_def pipes_inv_def
        get get_file_def)
  with m get me show ?thesis
    by (intro exI [of _ "?r\<lparr>vfs_map := m\<rparr>"])
      (auto simp: recover_kernel_files_def act_simps vfs_reload_def get_file_def)
qed

theorem vfs_recovery_witness:
  "\<exists>s'. recover_kernel_files sample_venv (vfs_reload (snd (do_pipe2 sample_venv 0 sample_vfs))) = (Ok (), s')
     \<and> get_file 0 s' = Some (KernelF ()) \<and> get_file 4 s' = None \<and> inode_id s' = 6"
proof -
  let ?s = "snd (do_pipe2 sample_venv 0 sample_vfs)"
  have "vfs_inv 4 ?s" using do_pipe2_inv [of sample_venv sample_vfs 0] sample_vfs_inv by simp
  from vfs_recovery [OF this, of sample_venv] obtain s' where
    "recover_kernel_files sample_venv (vfs_reload ?s) = (Ok (), s')" "inode_id s' = inode_id ?s"
    "\<forall>i. get_file i s' = map_option (\<lambda>km. KernelF (v_shim_dentry sample_venv (km_fs_domain km)
        (km_real_inode_id km) (km_fs_domain_ident km))) (bt_get (vfs_metas ?s) i)" by auto
  moreover have "vfs_metas ?s = [(0, kmeta_new 0 2 7 0 [])]" "inode_id ?s = 6"
    by (simp_all add: do_pipe2_run Let_def sample_vfs_def)
  ultimately show ?thesis by (auto intro: exI [of _ s'])
qed

end
