(* ===== verification/ProcFs.thy ===== *)
theory ProcFs
  imports KFile
begin

text \<open>
  The files whose content is a text made by the kernel: \<open>fs/procfs\<close> with the four files of \<open>/proc\<close>, and
  \<open>fs/domainfs\<close>, the directories and files about the domains that are loaded. Both file systems are
  domains of \<open>GenericFs\<close>; the crates \<open>dynfs\<close> and \<open>custom_fs\<close> that hold their trees are parameters.
\<close>

section \<open>The files of /proc\<close>

definition bytes_of :: "string \<Rightarrow> u8 list" where
  "bytes_of s = map of_char s"

text \<open>Text in the source that begins with a line break, line by line.\<close>

definition text_lines :: "string list \<Rightarrow> u8 list" where
  "text_lines ls = 10 # concat (map (\<lambda>l. bytes_of l @ [10]) ls)"

definition meminfo :: "u8 list" where
  "meminfo = text_lines [
     ''MemTotal:         944564 kB'',
     ''MemFree:          835248 kB'',
     ''MemAvailable:     873464 kB'',
     ''Buffers:            6848 kB'',
     ''Cached:            36684 kB'',
     ''SwapCached:            0 kB'',
     ''Active:            19032 kB'',
     ''Inactive:          32676 kB'',
     ''Active(anon):        128 kB'',
     ''Inactive(anon):     8260 kB'',
     ''Active(file):      18904 kB'',
     ''Inactive(file):    24416 kB'',
     ''Unevictable:           0 kB'',
     ''Mlocked:               0 kB'',
     ''SwapTotal:             0 kB'',
     ''SwapFree:              0 kB'',
     ''Dirty:                 0 kB'',
     ''Writeback:             0 kB'',
     ''AnonPages:          8172 kB'',
     ''Mapped:            16376 kB'',
     ''Shmem:               216 kB'',
     ''KReclaimable:       9960 kB'',
     ''Slab:              17868 kB'',
     ''SReclaimable:       9960 kB'',
     ''SUnreclaim:         7908 kB'',
     ''KernelStack:        1072 kB'',
     ''PageTables:          600 kB'',
     ''NFS_Unstable:          0 kB'',
     ''Bounce:                0 kB'',
     ''WritebackTmp:          0 kB'',
     ''CommitLimit:      472280 kB'',
     ''Committed_AS:      64684 kB'',
     ''VmallocTotal:   67108863 kB'',
     ''VmallocUsed:       15740 kB'',
     ''VmallocChunk:          0 kB'',
     ''Percpu:              496 kB'',
     ''HugePages_Total:       0'',
     ''HugePages_Free:        0'',
     ''HugePages_Rsvd:        0'',
     ''HugePages_Surp:        0'',
     ''Hugepagesize:       2048 kB'',
     ''Hugetlb:               0 kB'']"

definition mount_info :: "u8 list" where
  "mount_info = text_lines ['' rootfs / rootfs rw 0 0'', '' devfs /dev devfs rw 0 0'', '' fat32 / fat rw 0 0'']"

definition interrupts_info :: "u8 list" where
  "interrupts_info = []"

text \<open>\<open>SystemSupportFS\<close>: names, and whether the file system requires a device.\<close>

definition system_fs_list :: "(string \<times> bool) list" where
  "system_fs_list = [(''procfs'', False), (''sysfs'', False), (''devfs'', False), (''tmpfs'', False), (''ramfs'', False),
     (''pipefs'', False), (''fat32'', True)]"

definition fs_serialize :: "(string \<times> bool) list \<Rightarrow> u8 list" where
  "fs_serialize list = concat (map (\<lambda>(name, requires_dev).
     bytes_of (if \<not> requires_dev then ''nodev '' else ''      '') @ bytes_of name @ [10]) list)"

text \<open>\<open>read_at\<close> of the four files, with their content. The subtraction wraps around when the offset is
  beyond the end; the slice of the content panics when it is too long.\<close>

definition proc_read_at :: "u8 list \<Rightarrow> u64 \<Rightarrow> u8 list \<Rightarrow> ('x, u8 list \<times> nat) act" where
  "proc_read_at info offset buf =
     (let min_len = min (length buf) (unat (of_nat (length info) - offset)) in
      if min_len \<le> length info then ret (splice 0 (take min_len info) buf, min_len) else abort)"

datatype proc_file = MemInfo | InterruptRecord | MountInfo | SystemSupportFS

definition proc_text :: "proc_file \<Rightarrow> u8 list" where
  "proc_text f = (case f of MemInfo \<Rightarrow> meminfo | InterruptRecord \<Rightarrow> interrupts_info | MountInfo \<Rightarrow> mount_info
     | SystemSupportFS \<Rightarrow> fs_serialize system_fs_list)"

definition meminfo_read_at :: "u64 \<Rightarrow> u8 list \<Rightarrow> ('x, u8 list \<times> nat) act" where
  "meminfo_read_at offset buf = proc_read_at meminfo offset buf"

definition interrupts_read_at :: "u64 \<Rightarrow> u8 list \<Rightarrow> ('x, u8 list \<times> nat) act" where
  "interrupts_read_at offset buf = proc_read_at interrupts_info offset buf"

text \<open>Errors of \<open>vfscore\<close> that have no name of their own in \<open>errno\<close>.\<close>

abbreviation NoEntry :: errno where "NoEntry \<equiv> Eother 20"
abbreviation PermissionDenied :: errno where "PermissionDenied \<equiv> Eother 21"

definition interrupts_write_at :: "u64 \<Rightarrow> u8 list \<Rightarrow> ('x, nat) act" where
  "interrupts_write_at offset buf = fail PermissionDenied"

definition mounts_read_at :: "u64 \<Rightarrow> u8 list \<Rightarrow> ('x, u8 list \<times> nat) act" where
  "mounts_read_at offset buf = proc_read_at mount_info offset buf"

definition filesystems_read_at :: "u64 \<Rightarrow> u8 list \<Rightarrow> ('x, u8 list \<times> nat) act" where
  "filesystems_read_at offset buf = proc_read_at (fs_serialize system_fs_list) offset buf"

text \<open>The size in \<open>get_attr\<close>, the other fields being the default.\<close>

definition proc_size :: "proc_file \<Rightarrow> u64" where
  "proc_size f = of_nat (length (proc_text f))"

text \<open>\<open>mount_func\<close>: the entries it adds by hand to the root, a tree of \<open>dynfs\<close>; a failure is a panic.\<close>

record ('i, 'x) dyn_ops =
  dy_add_file :: "'i \<Rightarrow> string \<Rightarrow> proc_file \<Rightarrow> string \<Rightarrow> ('x, unit) act"
  dy_add_dir :: "'i \<Rightarrow> string \<Rightarrow> string \<Rightarrow> ('x, unit) act"

definition proc_mount_func :: "('i, 'x) dyn_ops \<Rightarrow> ('d \<Rightarrow> ('x, 'i) act) \<Rightarrow> 'd \<Rightarrow> ('x, unit) act" where
  "proc_mount_func Y inode root_dt =
     bind (must (inode root_dt)) (\<lambda>root_inode.
     bind (must (dy_add_file Y root_inode ''meminfo'' MemInfo ''r--r--r--'')) (\<lambda>_.
     bind (must (dy_add_file Y root_inode ''interrupts'' InterruptRecord ''r--r--r--'')) (\<lambda>_.
     bind (must (dy_add_file Y root_inode ''mounts'' MountInfo ''r--r--r--'')) (\<lambda>_.
     bind (must (dy_add_file Y root_inode ''filesystems'' SystemSupportFS ''r--r--r--'')) (\<lambda>_.
     must (dy_add_dir Y root_inode ''self'' ''r-xr-xr-x''))))))"

section \<open>The tree of domainfs\<close>

text \<open>\<open>CustomRootInode\<close>: named children in the order they were inserted, and the magic number once it is set.\<close>

record 'i custom_root =
  cr_children :: "(u8 list \<times> 'i) list"
  cr_magic :: "128 word option"

definition cr_new :: "'i custom_root" where
  "cr_new = \<lparr> cr_children = [], cr_magic = None \<rparr>"

definition cr_insert_inode :: "u8 list \<Rightarrow> 'i \<Rightarrow> 'i custom_root \<Rightarrow> 'i custom_root" where
  "cr_insert_inode name inode r =
     (if \<not> list_ex (\<lambda>x. fst x = name) (cr_children r) then r\<lparr>cr_children := cr_children r @ [(name, inode)]\<rparr> else r)"

definition cr_set_magic :: "128 word \<Rightarrow> 'i custom_root \<Rightarrow> 'i custom_root" where
  "cr_set_magic magic r = (case cr_magic r of None \<Rightarrow> r\<lparr>cr_magic := Some magic\<rparr> | Some _ \<Rightarrow> r)"

definition cr_readdir :: "('i \<Rightarrow> u8) \<Rightarrow> 'i custom_root \<Rightarrow> nat \<Rightarrow> dirent option res" where
  "cr_readdir inode_type r start_index =
     (if start_index \<ge> length (cr_children r) then Ok None
      else case cr_children r ! start_index of (name, inode) \<Rightarrow>
        Ok (Some \<lparr> dn_name = name, dn_ino = 0, dn_ty = inode_type inode \<rparr>))"

definition cr_lookup :: "'i custom_root \<Rightarrow> u8 list \<Rightarrow> 'i res" where
  "cr_lookup r name = (case find (\<lambda>(f_name, _). f_name = name) (cr_children r) of
       Some (_, inode) \<Rightarrow> Ok inode | None \<Rightarrow> Err NoEntry)"

definition cr_super_magic :: "'i custom_root \<Rightarrow> 128 word res" where
  "cr_super_magic r = ok_or (cr_magic r) ENOSYS"

section \<open>The domains\<close>

datatype domain_type =
    FsDomain | BlkDeviceDomain | CacheBlkDeviceDomain | RtcDomain | GpuDomain | InputDomain | VfsDomain | UartDomain
  | PLICDomain | TaskDomain | SysCallDomain | ShadowBlockDomain | BufUartDomain | NetDeviceDomain | BufInputDomain
  | EmptyDeviceDomain | LocalAPICDomain | IoAPICDomain | DevFsDomain | SchedulerDomain | LogDomain | NetDomain

datatype arch = Riscv64 | X86_64

definition domain_type_from_str :: "arch \<Rightarrow> u8 list \<Rightarrow> domain_type option" where
  "domain_type_from_str a name =
     (if name = bytes_of ''FsDomain'' then Some FsDomain
      else if name = bytes_of ''BlkDeviceDomain'' then Some BlkDeviceDomain
      else if name = bytes_of ''CacheBlkDeviceDomain'' then Some CacheBlkDeviceDomain
      else if name = bytes_of ''RtcDomain'' then Some RtcDomain
      else if name = bytes_of ''GpuDomain'' then Some GpuDomain
      else if name = bytes_of ''InputDomain'' then Some InputDomain
      else if name = bytes_of ''VfsDomain'' then Some VfsDomain
      else if name = bytes_of ''UartDomain'' then Some UartDomain
      else if name = bytes_of ''PLICDomain'' \<and> a = Riscv64 then Some PLICDomain
      else if name = bytes_of ''TaskDomain'' then Some TaskDomain
      else if name = bytes_of ''SysCallDomain'' then Some SysCallDomain
      else if name = bytes_of ''ShadowBlockDomain'' then Some ShadowBlockDomain
      else if name = bytes_of ''BufUartDomain'' then Some BufUartDomain
      else if name = bytes_of ''NetDeviceDomain'' then Some NetDeviceDomain
      else if name = bytes_of ''BufInputDomain'' then Some BufInputDomain
      else if name = bytes_of ''EmptyDeviceDomain'' then Some EmptyDeviceDomain
      else if name = bytes_of ''LocalAPICDomain'' \<and> a = X86_64 then Some LocalAPICDomain
      else if name = bytes_of ''IoAPICDomain'' \<and> a = X86_64 then Some IoAPICDomain
      else if name = bytes_of ''DevFsDomain'' then Some DevFsDomain
      else if name = bytes_of ''SchedulerDomain'' then Some SchedulerDomain
      else if name = bytes_of ''LogDomain'' then Some LogDomain
      else if name = bytes_of ''NetDomain'' then Some NetDomain
      else None)"

text \<open>\<open>DomainInfoSet\<close>: the types with the files registered for them and the domains with what is known of
  them, both in the order of their keys; and how the kernel prints them.\<close>

record ('f, 'n) domain_infos =
  di_types :: "(domain_type \<times> 'f) list"
  di_domains :: "(u64 \<times> 'n) list"

record ('f, 'n) info_print =
  pr_type :: "domain_type \<Rightarrow> u8 list"
  pr_files :: "'f \<Rightarrow> u8 list"
  pr_info :: "'n \<Rightarrow> u8 list"
  pr_name :: "'n \<Rightarrow> u8 list"
  pr_file_type :: u8

text \<open>The set is an option in the listings: it is filled when the domain is initialised.\<close>

definition readdir_from_ty :: "('f, 'n) info_print \<Rightarrow> ('f, 'n) domain_infos option \<Rightarrow> nat \<Rightarrow> dirent option res" where
  "readdir_from_ty N domain_info start_index = (case domain_info of
       Some info \<Rightarrow> Ok (if start_index < length (di_types info)
         then Some \<lparr> dn_name = pr_type N (fst (di_types info ! start_index)), dn_ino = 0, dn_ty = pr_file_type N \<rparr> else None)
     | None \<Rightarrow> Ok None)"

definition readdir_from_domain_list :: "('f, 'n) info_print \<Rightarrow> ('f, 'n) domain_infos option \<Rightarrow> nat \<Rightarrow> dirent option res" where
  "readdir_from_domain_list N domain_info start_index = (case domain_info of
       Some info \<Rightarrow> Ok (if start_index < length (di_domains info)
         then Some \<lparr> dn_name = pr_name N (snd (di_domains info ! start_index)), dn_ino = 0, dn_ty = pr_file_type N \<rparr> else None)
     | None \<Rightarrow> Ok None)"

datatype info_file = InfoType domain_type | InfoDomain "u8 list"

definition types_lookup :: "arch \<Rightarrow> ('f, 'n) domain_infos option \<Rightarrow> u8 list \<Rightarrow> info_file res" where
  "types_lookup a domain_info name = (case domain_info of
       Some info \<Rightarrow> (case domain_type_from_str a name of
           None \<Rightarrow> Err NoEntry
         | Some ty \<Rightarrow> (case map_of (di_types info) ty of None \<Rightarrow> Err NoEntry | Some _ \<Rightarrow> Ok (InfoType ty)))
     | None \<Rightarrow> Err NoEntry)"

definition domains_lookup :: "('f, 'n) info_print \<Rightarrow> ('f, 'n) domain_infos option \<Rightarrow> u8 list \<Rightarrow> info_file res" where
  "domains_lookup N domain_info name = (case domain_info of
       Some info \<Rightarrow> (case find (\<lambda>(n, i). pr_name N i = name) (di_domains info) of
           None \<Rightarrow> Err NoEntry
         | Some _ \<Rightarrow> Ok (InfoDomain name))
     | None \<Rightarrow> Err NoEntry)"

definition domain_ty_data :: "('f, 'n) info_print \<Rightarrow> ('f, 'n) domain_infos option \<Rightarrow> domain_type \<Rightarrow> u8 list res" where
  "domain_ty_data N domain_info ty = (case domain_info of
       None \<Rightarrow> panic
     | Some info \<Rightarrow> (case map_of (di_types info) ty of
         None \<Rightarrow> panic
       | Some infos \<Rightarrow> Ok (bytes_of ''type: '' @ pr_type N ty @ [10] @ bytes_of ''file: '' @ pr_files N infos)))"

definition domain_data :: "('f, 'n) info_print \<Rightarrow> ('f, 'n) domain_infos option \<Rightarrow> u8 list \<Rightarrow> u8 list res" where
  "domain_data N domain_info name = (case domain_info of
       None \<Rightarrow> panic
     | Some info \<Rightarrow> (case find (\<lambda>(n, i). pr_name N i = name) (di_domains info) of
         None \<Rightarrow> panic
       | Some (n, i) \<Rightarrow> Ok (bytes_of ''DomainName: '' @ name @ [10] @ bytes_of ''Information: '' @ pr_info N i)))"

definition info_data :: "('f, 'n) info_print \<Rightarrow> ('f, 'n) domain_infos option \<Rightarrow> info_file \<Rightarrow> u8 list res" where
  "info_data N domain_info f = (case f of InfoType ty \<Rightarrow> domain_ty_data N domain_info ty | InfoDomain name \<Rightarrow> domain_data N domain_info name)"

definition info_read_at :: "('f, 'n) info_print \<Rightarrow> ('f, 'n) domain_infos option \<Rightarrow> info_file \<Rightarrow> u64 \<Rightarrow> u8 list \<Rightarrow> (u8 list \<times> nat) res" where
  "info_read_at N domain_info f offset buf = (case info_data N domain_info f of
       Inl e \<Rightarrow> Inl e
     | Inr data \<Rightarrow>
         if unat offset \<ge> length data then Ok (buf, 0)
         else let copy_start = min (unat offset) (length data); copy_end = min (copy_start + length buf) (length data);
                  copied = copy_end - copy_start in
           Ok (splice 0 (slice copy_start copied data) buf, copied))"

definition info_size :: "('f, 'n) info_print \<Rightarrow> ('f, 'n) domain_infos option \<Rightarrow> info_file \<Rightarrow> u64 res" where
  "info_size N domain_info f = (case info_data N domain_info f of Inl e \<Rightarrow> Inl e | Inr data \<Rightarrow> Ok (of_nat (length data)))"

text \<open>The root of the file system.\<close>

datatype domain_dir = DomainTyInfoDir | DomainFileInfoDir

definition domain_fs_root :: "domain_dir custom_root" where
  "domain_fs_root = cr_insert_inode (bytes_of ''domains'') DomainFileInfoDir
     (cr_insert_inode (bytes_of ''domain-type'') DomainTyInfoDir cr_new)"

section \<open>Listing and looking up\<close>

lemma lookup_listed:
  assumes "readdir_from_domain_list N (Some info) k = Ok (Some e)"
  shows "domains_lookup N (Some info) (dn_name e) = Ok (InfoDomain (dn_name e))"
    and "\<exists>data. info_data N (Some info) (InfoDomain (dn_name e)) = Ok data"
proof -
  have "k < length (di_domains info)" "pr_name N (snd (di_domains info ! k)) = dn_name e"
    using assms unfolding readdir_from_domain_list_def by (cases "k < length (di_domains info)"; fastforce)+
  then have "case di_domains info ! k of (n, i) \<Rightarrow> pr_name N i = dn_name e" "di_domains info ! k \<in> set (di_domains info)"
    by (simp_all add: case_prod_beta)
  then have "\<exists>x. x \<in> set (di_domains info) \<and> (case x of (n, i) \<Rightarrow> pr_name N i = dn_name e)"
    by (intro exI [of _ "di_domains info ! k"] conjI)
  then have "find (\<lambda>(n, i). pr_name N i = dn_name e) (di_domains info) \<noteq> None"
    by (simp only: find_None_iff not_not)
  then obtain x where "find (\<lambda>(n, i). pr_name N i = dn_name e) (di_domains info) = Some x" unfolding not_None_eq ..
  then show "domains_lookup N (Some info) (dn_name e) = Ok (InfoDomain (dn_name e))"
    "\<exists>data. info_data N (Some info) (InfoDomain (dn_name e)) = Ok data"
    by (simp_all add: domains_lookup_def info_data_def domain_data_def split_beta)
qed

section \<open>Reading a file to its end\<close>

text \<open>A program that reads with a buffer of \<open>k\<close> bytes until a read gives nothing.\<close>

fun cat_file :: "nat \<Rightarrow> abi \<Rightarrow> ('d, 'i, 'st, 'x) fs_ops \<Rightarrow> 'd \<Rightarrow> nat \<Rightarrow> ('x kstate, u8 list) act" where
  "cat_file 0 A F d k = abort"
| "cat_file (Suc fuel) A F d k = bind (kf_read A F d (replicate k 0)) (\<lambda>(buf, n).
     if n = 0 then ret [] else bind (cat_file fuel A F d k) (\<lambda>more. ret (take n buf @ more)))"

text \<open>The beginning of the text, over and over.\<close>

fun heads :: "nat \<Rightarrow> u8 list \<Rightarrow> nat \<Rightarrow> u8 list" where
  "heads 0 info n = []"
| "heads (Suc k) info n = (if n = 0 then [] else take (min (Suc k) n) info @ heads (Suc k) info (n - min (Suc k) n))"

text \<open>An inode whose reads give, at offset \<open>p\<close>, as many bytes as fit of those that \<open>view\<close> names.\<close>

definition reads_as :: "('i \<Rightarrow> u64 \<Rightarrow> u8 list \<Rightarrow> ('x, u8 list \<times> nat) act) \<Rightarrow> 'i \<Rightarrow> nat \<Rightarrow> (nat \<Rightarrow> u8 list) \<Rightarrow> bool" where
  "reads_as read_at i len view \<longleftrightarrow> (\<forall>off buf x. unat off \<le> len \<longrightarrow>
     (\<exists>b. read_at i off buf x = (Ok (b, min (length buf) (len - unat off)), x)
        \<and> take (min (length buf) (len - unat off)) b = take (min (length buf) (len - unat off)) (view (unat off))))"

fun chunks :: "nat \<Rightarrow> nat \<Rightarrow> nat \<Rightarrow> nat \<Rightarrow> (nat \<Rightarrow> u8 list) \<Rightarrow> u8 list" where
  "chunks 0 k len p view = []"
| "chunks (Suc fuel) k len p view =
     (if len \<le> p then [] else take (min k (len - p)) (view p) @ chunks fuel k len (p + min k (len - p)) view)"

lemma cat_chunks:
  assumes "reads_as (i_read_at F) i len view" "\<And>x. d_inode F d x = (Ok i, x)" "0 < k" "len < 2 ^ 64"
    and "contains (km_open_flag (k_meta s)) (O_RDONLY A)" "unat (km_pos (k_meta s)) \<le> len" "len - unat (km_pos (k_meta s)) < fuel"
  shows "\<exists>t. cat_file fuel A F d k s = (Ok (chunks fuel k len (unat (km_pos (k_meta s))) view), t)"
  using assms(5-)
proof (induction fuel arbitrary: s)
  case (Suc fuel)
  let ?p = "unat (km_pos (k_meta s))" let ?n = "min k (len - ?p)"
  obtain b where b: "i_read_at F i (km_pos (k_meta s)) (replicate k 0) (k_fs s) = (Ok (b, ?n), k_fs s)"
    "take ?n b = take ?n (view ?p)"
    using spec [OF spec [OF spec [OF assms(1) [unfolded reads_as_def], of "km_pos (k_meta s)"], of "replicate k 0"], of "k_fs s"]
      Suc.prems(2) by auto
  let ?s = "s\<lparr>k_meta := (k_meta s)\<lparr>km_pos := km_pos (k_meta s) + of_nat ?n\<rparr>\<rparr>"
  have r: "kf_read A F d (replicate k 0) s = (Ok (b, ?n), ?s)"
    using b(1) assms(2,3) Suc.prems(1) by (simp add: kf_defs act_simps Let_def)
  show ?case
  proof (cases "?n = 0")
    case True
    then have "len \<le> ?p" using assms(3) by auto
    then show ?thesis using r True by (simp add: act_simps)
  next
    case False
    have pos: "unat (km_pos (k_meta ?s)) = ?p + ?n"
      using Suc.prems(2) assms(4) by (simp add: unat_word_ariths unat_of_nat min_def)
    have "?p + ?n \<le> len" "len - (?p + ?n) < fuel" using Suc.prems False by auto
    then obtain t where "cat_file fuel A F d k ?s = (Ok (chunks fuel k len (?p + ?n) view), t)"
      using Suc.IH [of ?s] Suc.prems(1) unfolding pos by auto
    then show ?thesis using r b(2) False by (auto simp: act_simps)
  qed
qed simp


lemma chunks_drop: "len = length data \<Longrightarrow> 0 < k \<Longrightarrow> len - p < fuel \<Longrightarrow> chunks fuel k len p (\<lambda>p. drop p data) = drop p data"
proof (induction fuel arbitrary: p)
  case (Suc fuel)
  have "take n (drop p data) @ drop (p + n) data = drop p data" for n by (metis append_take_drop_id drop_drop add.commute)
  then show ?case using Suc.IH [of "p + min k (len - p)"] Suc.prems by auto
qed simp

lemma chunks_heads: "0 < k \<Longrightarrow> len - p < fuel \<Longrightarrow> chunks fuel k len p (\<lambda>p. info) = heads k info (len - p)"
proof (induction fuel arbitrary: p)
  case (Suc fuel)
  obtain j where k: "k = Suc j" using Suc.prems by (cases k) auto
  show ?case
  proof (cases "len \<le> p")
    case False
    then have "len - (p + min k (len - p)) < fuel" "len - (p + min k (len - p)) = len - p - min k (len - p)"
      using Suc.prems by auto
    with Suc.IH [of "p + min k (len - p)"] False k show ?thesis by simp
  qed (simp add: k)
qed simp

lemma proc_reads: "length info < 2 ^ 64 \<Longrightarrow> reads_as (\<lambda>i. proc_read_at info) i (length info) (\<lambda>p. info)"
  by (auto simp: reads_as_def proc_read_at_def act_simps Let_def unat_sub word_le_nat_alt unat_of_nat splice_def)

lemma info_reads:
  "info_data N infos f = Ok data \<Longrightarrow> reads_as (\<lambda>i off buf. lift (info_read_at N infos f off buf)) i (length data) (\<lambda>p. drop p data)"
  by (auto simp: reads_as_def info_read_at_def act_simps Let_def slice_def splice_def min_def)

text \<open>C34: reading a text file of the kernel to its end. A program that reads a file of domainfs with a
  buffer of any size gets exactly its text. Over a file of \<open>/proc\<close> it makes the same number of reads of the
  same sizes, but every one of them delivers the beginning of the text again: the offset counts for the
  length and not for the bytes. Both readings end.\<close>

theorem text_files_read:
  fixes F G :: "('d, 'i, 'st, 'x) fs_ops"
  assumes k: "0 < k" and s: "contains (km_open_flag (k_meta s)) (O_RDONLY A)" "km_pos (k_meta s) = 0"
    and F: "\<And>x. d_inode F d x = (Ok i, x)" "i_read_at F i = (\<lambda>off buf. lift (info_read_at N infos f off buf))"
      "info_data N infos f = Ok data" "length data < 2 ^ 64"
    and G: "\<And>x. d_inode G d x = (Ok i, x)" "i_read_at G i = proc_read_at (proc_text g)" "length (proc_text g) < 2 ^ 64"
  shows "\<exists>t u. cat_file (Suc (length data)) A F d k s = (Ok data, t)
    \<and> cat_file (Suc (length (proc_text g))) A G d k s = (Ok (heads k (proc_text g) (length (proc_text g))), u)"
proof -
  have "reads_as (i_read_at F) i (length data) (\<lambda>p. drop p data)"
    using info_reads [OF F(3), of i] by (simp add: reads_as_def F(2))
  from cat_chunks [OF this F(1) k F(4) s(1)] s(2)
  obtain t where "cat_file (Suc (length data)) A F d k s = (Ok data, t)"
    by (fastforce simp: chunks_drop [OF refl k] simp del: chunks.simps cat_file.simps)
  moreover have "reads_as (i_read_at G) i (length (proc_text g)) (\<lambda>p. proc_text g)"
    using proc_reads [OF G(3), of i] by (simp add: reads_as_def G(2))
  from cat_chunks [OF this G(1) k G(3) s(1)] s(2)
  obtain u where "cat_file (Suc (length (proc_text g))) A G d k s = (Ok (heads k (proc_text g) (length (proc_text g))), u)"
    by (fastforce simp: chunks_heads [OF k] simp del: chunks.simps cat_file.simps)
  ultimately show ?thesis by blast
qed

text \<open>The mount table, read in pieces of 60 bytes, is not the mount table.\<close>

definition text_fs :: "(u64 \<Rightarrow> u8 list \<Rightarrow> (unit, u8 list \<times> nat) act) \<Rightarrow> (unit, unit, u64, unit) fs_ops" where
  "text_fs read_at = \<lparr> d_inode = ret, i_read_at = (\<lambda>i. read_at), i_write_at = (\<lambda>i off bs. fail ENOSYS),
     i_flush = (\<lambda>i. ret ()), i_fsync = (\<lambda>i. ret ()), i_get_attr = (\<lambda>i. ret 0), i_ioctl = (\<lambda>i c a. fail ENOSYS),
     i_truncate = (\<lambda>i n. ret ()), i_poll = (\<lambda>i e. ret e), i_readdir = (\<lambda>i n. fail ENOTDIR), st_size = (\<lambda>a. a) \<rparr>"

definition one_info :: "(unit, u8 list) domain_infos" where
  "one_info = \<lparr> di_types = [], di_domains = [(1, [97])] \<rparr>"

definition one_print :: "(unit, u8 list) info_print" where
  "one_print = \<lparr> pr_type = (\<lambda>t. []), pr_files = (\<lambda>f. []), pr_info = (\<lambda>n. [98]), pr_name = (\<lambda>n. n), pr_file_type = 8 \<rparr>"

theorem text_files_read_witness:
  "\<exists>t u. cat_file 29 linux_abi (text_fs (\<lambda>off buf. lift (info_read_at one_print (Some one_info) (InfoDomain [97]) off buf))) () 60
       \<lparr> k_meta = kmeta_new 0 0 0 0 [], k_fs = () \<rparr> = (Ok (bytes_of ''DomainName: '' @ 97 # 10 # bytes_of ''Information: '' @ [98]), t)
   \<and> cat_file 71 linux_abi (text_fs (proc_read_at (proc_text MountInfo))) () 60 \<lparr> k_meta = kmeta_new 0 0 0 0 [], k_fs = () \<rparr>
       = (Ok (take 60 mount_info @ take 10 mount_info), u)"
proof -
  let ?s = "\<lparr> k_meta = kmeta_new 0 0 0 0 [], k_fs = () \<rparr>"
  let ?F = "text_fs (\<lambda>off buf. lift (info_read_at one_print (Some one_info) (InfoDomain [97]) off buf))"
    and ?G = "text_fs (proc_read_at (proc_text MountInfo))"
    and ?d = "bytes_of ''DomainName: '' @ 97 # 10 # bytes_of ''Information: '' @ [98]"
  have d: "info_data one_print (Some one_info) (InfoDomain [97]) = Ok ?d"
    by (simp add: info_data_def domain_data_def one_info_def one_print_def)
  have l: "length ?d = 28" "length (proc_text MountInfo) = 70"
    by (simp_all add: bytes_of_def proc_text_def mount_info_def text_lines_def)
  have h: "heads 60 m 70 = take 60 m @ take 10 m" for m 
  proof -
    have "heads (Suc 59) m 70 = take 60 m @ heads (Suc 59) m 10" by (subst heads.simps) simp
    moreover have "heads (Suc 59) m 10 = take 10 m @ heads (Suc 59) m 0" by (subst heads.simps) simp
    moreover have "heads (Suc 59) m 0 = []" by (subst heads.simps) simp
    ultimately show ?thesis by simp
  qed
  have n: "Suc (length ?d) = 29" "Suc (length (proc_text MountInfo)) = 71" "length ?d < 2 ^ 64" "length (proc_text MountInfo) < 2 ^ 64"
    unfolding l by simp_all
  have s: "contains (km_open_flag (k_meta ?s)) (O_RDONLY linux_abi)" "km_pos (k_meta ?s) = 0"
    by (simp_all add: contains_def kmeta_new_def)
  have F: "d_inode ?F () x = (Ok (), x)" "d_inode ?G () x = (Ok (), x)"
      "i_read_at ?F () = (\<lambda>off buf. lift (info_read_at one_print (Some one_info) (InfoDomain [97]) off buf))"
      "i_read_at ?G () = proc_read_at (proc_text MountInfo)" for x
    by (simp_all add: text_fs_def act_simps)
  from text_files_read [OF _ s F(1,3) d n(3) F(2,4) n(4), of 60] show ?thesis
    unfolding n(1,2) l(2) h by (simp add: proc_text_def del: cat_file.simps)
qed

end
