(* ===== verification/GenericFs.thy ===== *)
theory GenericFs
  imports KFile
begin

text \<open>
  The file system domains (\<open>common_lib/generic\<close>): \<open>GenericFsDomain\<close> makes a domain of a file system of
  the crate \<open>vfscore\<close>. Dentries and inodes stay inside; the callers hold numbers, which the domain hands
  out in ascending order and looks up in a table. The file system is the record \<open>gfs_env\<close> of operations
  on a state \<open>'x\<close>; it extends the operations that the files of the VFS domain use.
\<close>

section \<open>The file system behind the domain\<close>

type_synonym node_type = u8
type_synonym node_perm = "16 word"
type_synonym time_spec = "u64 \<times> u64"

record ('d, 'i, 'st, 'at, 'x) gfs_env =
  ge_ops :: "('d, 'i, 'st, 'x) fs_ops"
  ge_utf8 :: "u8 list \<Rightarrow> bool"
  \<comment> \<open>dentries\<close>
  ge_name :: "'d \<Rightarrow> ('x, u8 list) act"
  ge_path :: "'d \<Rightarrow> ('x, u8 list) act"
  ge_parent :: "'d \<Rightarrow> ('x, 'd option) act"
  ge_set_parent :: "'d \<Rightarrow> 'd \<Rightarrow> ('x, unit) act"
  ge_find :: "'d \<Rightarrow> u8 list \<Rightarrow> ('x, 'd option) act"
  ge_insert :: "'d \<Rightarrow> u8 list \<Rightarrow> 'i \<Rightarrow> ('x, 'd) act"
  ge_remove :: "'d \<Rightarrow> u8 list \<Rightarrow> ('x, unit) act"
  ge_to_mount_point :: "'d \<Rightarrow> 'd \<Rightarrow> ('x, unit) act"
  ge_mount_point :: "'d \<Rightarrow> ('x, 'd option) act"
  ge_clear_mount_point :: "'d \<Rightarrow> ('x, unit) act"
  \<comment> \<open>inodes\<close>
  ge_create :: "'i \<Rightarrow> u8 list \<Rightarrow> node_type \<Rightarrow> node_perm \<Rightarrow> u64 option \<Rightarrow> ('x, 'i) act"
  ge_link :: "'i \<Rightarrow> u8 list \<Rightarrow> 'i \<Rightarrow> ('x, 'i) act"
  ge_unlink :: "'i \<Rightarrow> u8 list \<Rightarrow> ('x, unit) act"
  ge_symlink :: "'i \<Rightarrow> u8 list \<Rightarrow> u8 list \<Rightarrow> ('x, 'i) act"
  ge_lookup :: "'i \<Rightarrow> u8 list \<Rightarrow> ('x, 'i) act"
  ge_rmdir :: "'i \<Rightarrow> u8 list \<Rightarrow> ('x, unit) act"
  ge_readlink :: "'i \<Rightarrow> u8 list \<Rightarrow> ('x, u8 list \<times> nat) act"
  ge_set_attr :: "'i \<Rightarrow> 'at \<Rightarrow> ('x, unit) act"
  ge_rename_to :: "'i \<Rightarrow> u8 list \<Rightarrow> 'i \<Rightarrow> u8 list \<Rightarrow> u32 \<Rightarrow> ('x, unit) act"
  ge_update_time :: "'i \<Rightarrow> u8 \<Rightarrow> time_spec \<Rightarrow> ('x, unit) act"
  ge_node_perm :: "'i \<Rightarrow> ('x, node_perm) act"
  ge_inode_type :: "'i \<Rightarrow> ('x, node_type) act"
  \<comment> \<open>the super block of an inode and the file system\<close>
  ge_sync_fs :: "'i \<Rightarrow> bool \<Rightarrow> ('x, unit) act"
  ge_stat_fs :: "'i \<Rightarrow> ('x, vfs_fs_stat) act"
  ge_super_type :: "'i \<Rightarrow> ('x, u8) act"
  ge_magic :: "'i \<Rightarrow> ('x, 128 word) act"
  ge_kill_sb :: "'i \<Rightarrow> ('x, unit) act"
  ge_i_mount :: "u8 list \<Rightarrow> 'i option \<Rightarrow> ('x, 'd) act"
  ge_fs_flag :: u32
  ge_fs_name :: "u8 list"
  \<comment> \<open>\<open>mount_func\<close> and \<open>init_func\<close>, the identity when there is none\<close>
  ge_mount_func :: "'d \<Rightarrow> ('x, unit) act"
  ge_init_func :: "('x, unit) act"
  \<comment> \<open>other domains: \<open>get_domain\<close> finds a file system domain, the shims made of its numbers\<close>
  ge_fs_domain :: "u8 list \<Rightarrow> bool"
  ge_shim_dentry :: "u8 list \<Rightarrow> u64 \<Rightarrow> 'd"
  ge_shim_inode :: "u8 list \<Rightarrow> u64 \<Rightarrow> 'i"
  ge_shim_of :: "'d \<Rightarrow> (u8 list \<times> u64) option"      \<comment> \<open>\<open>downcast_arc::<RootShimDentry>\<close>\<close>

section \<open>The state of the domain\<close>

record ('d, 'x) gfs =
  gf_map :: "(u64, 'd) btree"                    \<comment> \<open>\<open>dentry_map\<close>\<close>
  gf_next :: u64                                 \<comment> \<open>\<open>inode_index\<close>\<close>
  gf_parents :: "(u64, 'd) btree"                \<comment> \<open>\<open>parent_dentry_map\<close>\<close>
  gf_magic :: "128 word option"
  gf_root :: "'d option"                         \<comment> \<open>the static \<open>ROOT_DENTRY\<close>\<close>
  gf_x :: 'x

definition in_gx :: "('x, 'a) act \<Rightarrow> (('d, 'x) gfs, 'a) act" where
  "in_gx = zoom gf_x (\<lambda>x s. s\<lparr>gf_x := x\<rparr>)"

definition gfs_new :: "'x \<Rightarrow> ('d, 'x) gfs" where
  "gfs_new x = \<lparr> gf_map = bt_empty, gf_next = 0, gf_parents = bt_empty, gf_magic = None, gf_root = None, gf_x = x \<rparr>"

text \<open>\<open>dentry_map.lock().index(&inode)\<close>, which panics for an unknown number, and its inode.\<close>

definition dentry_at :: "u64 \<Rightarrow> (('d, 'x) gfs, 'd) act" where
  "dentry_at ino = bind get_state (\<lambda>s. lift (unwrap (bt_get (gf_map s) ino)))"

definition on_inode :: "('d, 'i, 'st, 'at, 'x) gfs_env \<Rightarrow> u64 \<Rightarrow> ('i \<Rightarrow> ('x, 'a) act) \<Rightarrow> (('d, 'x) gfs, 'a) act" where
  "on_inode E ino f = bind (dentry_at ino) (\<lambda>d. bind (in_gx (d_inode (ge_ops E) d)) (\<lambda>i. in_gx (f i)))"

text \<open>\<open>inode_index.fetch_add(1)\<close>, and a dentry under the new number.\<close>

definition fresh_ino :: "(('d, 'x) gfs, u64) act" where
  "fresh_ino = bind get_state (\<lambda>s. bind (modify_state (\<lambda>s. s\<lparr>gf_next := gf_next s + 1\<rparr>)) (\<lambda>_. ret (gf_next s)))"

definition put_dentry :: "u64 \<Rightarrow> 'd \<Rightarrow> (('d, 'x) gfs, unit) act" where
  "put_dentry ino d = modify_state (\<lambda>s. s\<lparr>gf_map := bt_insert ino d (gf_map s)\<rparr>)"

text \<open>\<open>str::from_utf8(name).unwrap()\<close>.\<close>

definition utf8 :: "('d, 'i, 'st, 'at, 'x) gfs_env \<Rightarrow> u8 list \<Rightarrow> (('d, 'x) gfs, unit) act" where
  "utf8 E name = assert_that (ge_utf8 E name)"

text \<open>Copying a string into a buffer as far as it fits.\<close>

definition copy_out :: "u8 list \<Rightarrow> u8 list \<Rightarrow> u8 list \<times> nat" where
  "copy_out name buf = (let copy_len = min (length name) (length buf) in (splice 0 (take copy_len name) buf, copy_len))"

section \<open>The domain and its dentries\<close>

definition gfs_init :: "('d, 'i, 'st, 'at, 'x) gfs_env \<Rightarrow> (('d, 'x) gfs, unit) act" where
  "gfs_init E = in_gx (ge_init_func E)"

text \<open>\<open>CStr::from_bytes_until_nul(ident).unwrap().to_str().unwrap()\<close>.\<close>

definition c_str :: "('d, 'i, 'st, 'at, 'x) gfs_env \<Rightarrow> u8 list \<Rightarrow> u8 list res" where
  "c_str E ident = (let name = takeWhile (\<lambda>b. b \<noteq> 0) ident in
     if 0 \<in> set ident \<and> ge_utf8 E name then Ok name else panic)"

definition gfs_mount :: "('d, 'i, 'st, 'at, 'x) gfs_env \<Rightarrow> u8 list \<Rightarrow> (u8 list \<times> u64) option \<Rightarrow> (('d, 'x) gfs, u64) act" where
  "gfs_mount E mount_point dev_inode =
     bind (utf8 E mount_point) (\<lambda>_.
     bind (case dev_inode of
         None \<Rightarrow> ret None
       | Some (domain_ident, mount_inode_id) \<Rightarrow>
           bind (lift (c_str E domain_ident)) (\<lambda>fs_domain_name.
           bind (assert_that (ge_fs_domain E fs_domain_name)) (\<lambda>_.
           ret (Some (ge_shim_inode E fs_domain_name mount_inode_id))))) (\<lambda>dev_inode.
     bind (in_gx (ge_i_mount E mount_point dev_inode)) (\<lambda>root.
     bind (in_gx (ge_mount_func E root)) (\<lambda>_.
     bind (in_gx (d_inode (ge_ops E) root)) (\<lambda>i.
     bind (in_gx (ge_magic E i)) (\<lambda>magic.
     bind (modify_state (\<lambda>s. s\<lparr>gf_magic := (case gf_magic s of None \<Rightarrow> Some magic | m \<Rightarrow> m)\<rparr>)) (\<lambda>_.
     bind fresh_ino (\<lambda>inode_id.
     bind (put_dentry inode_id root) (\<lambda>_.
     bind (modify_state (\<lambda>s. s\<lparr>gf_root := (case gf_root s of None \<Rightarrow> Some root | r \<Rightarrow> r)\<rparr>)) (\<lambda>_.
     bind (assert_that (inode_id = 0)) (\<lambda>_. ret inode_id)))))))))))"

definition gfs_root_inode_id :: "(('d, 'x) gfs, u64) act" where
  "gfs_root_inode_id = ret 0"

definition gfs_root_dentry :: "(('d, 'x) gfs, 'd) act" where
  "gfs_root_dentry = bind get_state (\<lambda>s. lift (unwrap (gf_root s)))"

definition gfs_drop_inode :: "u64 \<Rightarrow> (('d, 'x) gfs, unit) act" where
  "gfs_drop_inode ino = (if ino \<noteq> 0 then modify_state (\<lambda>s. s\<lparr>gf_map := bt_remove ino (gf_map s)\<rparr>) else ret ())"

definition gfs_dentry_name :: "('d, 'i, 'st, 'at, 'x) gfs_env \<Rightarrow> u64 \<Rightarrow> u8 list \<Rightarrow> (('d, 'x) gfs, u8 list \<times> nat) act" where
  "gfs_dentry_name E ino buf = bind (dentry_at ino) (\<lambda>d. bind (in_gx (ge_name E d)) (\<lambda>name. ret (copy_out name buf)))"

definition gfs_dentry_path :: "('d, 'i, 'st, 'at, 'x) gfs_env \<Rightarrow> u64 \<Rightarrow> u8 list \<Rightarrow> (('d, 'x) gfs, u8 list \<times> nat) act" where
  "gfs_dentry_path E ino buf = bind (dentry_at ino) (\<lambda>d. bind (in_gx (ge_path E d)) (\<lambda>path. ret (copy_out path buf)))"

definition gfs_dentry_set_parent :: "('d, 'i, 'st, 'at, 'x) gfs_env \<Rightarrow> u64 \<Rightarrow> u8 list \<Rightarrow> u64 \<Rightarrow> (('d, 'x) gfs, unit) act" where
  "gfs_dentry_set_parent E ino domain_ident parent =
     bind (dentry_at ino) (\<lambda>d. bind (utf8 E domain_ident) (\<lambda>_. bind (assert_that (ge_fs_domain E domain_ident)) (\<lambda>_.
     let parent_shim_dentry = ge_shim_dentry E domain_ident parent in
     bind (modify_state (\<lambda>s. s\<lparr>gf_parents := bt_insert parent parent_shim_dentry (gf_parents s)\<rparr>)) (\<lambda>_.
     in_gx (ge_set_parent E d parent_shim_dentry)))))"

definition gfs_dentry_parent :: "('d, 'i, 'st, 'at, 'x) gfs_env \<Rightarrow> u64 \<Rightarrow> (('d, 'x) gfs, u64 option) act" where
  "gfs_dentry_parent E ino =
     bind (dentry_at ino) (\<lambda>d. bind (in_gx (ge_parent E d)) (\<lambda>p. case p of
       None \<Rightarrow> ret None
     | Some parent \<Rightarrow> bind fresh_ino (\<lambda>new. bind (put_dentry new parent) (\<lambda>_. ret (Some new)))))"

definition gfs_dentry_to_mount_point :: "('d, 'i, 'st, 'at, 'x) gfs_env \<Rightarrow> u64 \<Rightarrow> u8 list \<Rightarrow> u64 \<Rightarrow> (('d, 'x) gfs, unit) act" where
  "gfs_dentry_to_mount_point E ino domain_ident mount_inode_id =
     bind (dentry_at ino) (\<lambda>d. bind (utf8 E domain_ident) (\<lambda>_. bind (assert_that (ge_fs_domain E domain_ident)) (\<lambda>_.
     in_gx (ge_to_mount_point E d (ge_shim_dentry E domain_ident mount_inode_id)))))"

definition gfs_dentry_mount_point :: "('d, 'i, 'st, 'at, 'x) gfs_env \<Rightarrow> u64 \<Rightarrow> u8 list
    \<Rightarrow> (('d, 'x) gfs, (u8 list \<times> u64) option) act" where
  "gfs_dentry_mount_point E ino domain_ident =
     bind (dentry_at ino) (\<lambda>d. bind (in_gx (ge_mount_point E d)) (\<lambda>mp. case mp of
       None \<Rightarrow> ret None
     | Some mount_point \<Rightarrow> bind (lift (unwrap (ge_shim_of E mount_point))) (\<lambda>(fs_domain_ident, inode_id).
         ret (Some (fst (copy_out fs_domain_ident domain_ident), inode_id)))))"

definition gfs_dentry_clear_mount_point :: "('d, 'i, 'st, 'at, 'x) gfs_env \<Rightarrow> u64 \<Rightarrow> (('d, 'x) gfs, unit) act" where
  "gfs_dentry_clear_mount_point E ino = bind (dentry_at ino) (\<lambda>d. in_gx (ge_clear_mount_point E d))"

definition gfs_dentry_find :: "('d, 'i, 'st, 'at, 'x) gfs_env \<Rightarrow> u64 \<Rightarrow> u8 list \<Rightarrow> (('d, 'x) gfs, u64 option) act" where
  "gfs_dentry_find E ino name =
     bind (dentry_at ino) (\<lambda>d. bind (utf8 E name) (\<lambda>_. bind (in_gx (ge_find E d name)) (\<lambda>sub. case sub of
       None \<Rightarrow> ret None
     | Some sub_dentry \<Rightarrow> bind fresh_ino (\<lambda>new. bind (put_dentry new sub_dentry) (\<lambda>_. ret (Some new))))))"

definition gfs_dentry_remove :: "('d, 'i, 'st, 'at, 'x) gfs_env \<Rightarrow> u64 \<Rightarrow> u8 list \<Rightarrow> (('d, 'x) gfs, unit) act" where
  "gfs_dentry_remove E ino name = bind (dentry_at ino) (\<lambda>d. bind (utf8 E name) (\<lambda>_. in_gx (ge_remove E d name)))"

section \<open>Files\<close>

definition gfs_read_at :: "('d, 'i, 'st, 'at, 'x) gfs_env \<Rightarrow> u64 \<Rightarrow> u64 \<Rightarrow> u8 list \<Rightarrow> (('d, 'x) gfs, u8 list \<times> nat) act" where
  "gfs_read_at E ino offset buf = on_inode E ino (\<lambda>i. i_read_at (ge_ops E) i offset buf)"

definition gfs_write_at :: "('d, 'i, 'st, 'at, 'x) gfs_env \<Rightarrow> u64 \<Rightarrow> u64 \<Rightarrow> u8 list \<Rightarrow> (('d, 'x) gfs, nat) act" where
  "gfs_write_at E ino offset buf = on_inode E ino (\<lambda>i. i_write_at (ge_ops E) i offset buf)"

text \<open>\<open>DirEntryWrapper\<close>: the name is an array of fixed size, with the length beside it.\<close>

record dir_entry_wrapper =
  dw_name :: "u8 list"
  dw_name_len :: nat
  dw_ty :: u8
  dw_ino :: u64

definition gfs_readdir :: "('d, 'i, 'st, 'at, 'x) gfs_env \<Rightarrow> u64 \<Rightarrow> nat \<Rightarrow> dir_entry_wrapper \<Rightarrow> (('d, 'x) gfs, dir_entry_wrapper) act" where
  "gfs_readdir E ino start_index entry =
     bind (on_inode E ino (\<lambda>i. i_readdir (ge_ops E) i start_index)) (\<lambda>vfs_entry. case vfs_entry of
       None \<Rightarrow> ret (entry\<lparr>dw_name_len := 0\<rparr>)
     | Some e \<Rightarrow> ret (entry\<lparr>dw_name := fst (copy_out (dn_name e) (dw_name entry)), dw_name_len := length (dn_name e),
         dw_ty := dn_ty e, dw_ino := dn_ino e\<rparr>))"

definition gfs_poll :: "('d, 'i, 'st, 'at, 'x) gfs_env \<Rightarrow> u64 \<Rightarrow> 16 word \<Rightarrow> (('d, 'x) gfs, 16 word) act" where
  "gfs_poll E ino ev = on_inode E ino (\<lambda>i. i_poll (ge_ops E) i ev)"

definition gfs_ioctl :: "('d, 'i, 'st, 'at, 'x) gfs_env \<Rightarrow> u64 \<Rightarrow> u32 \<Rightarrow> usize \<Rightarrow> (('d, 'x) gfs, nat) act" where
  "gfs_ioctl E ino cmd arg = on_inode E ino (\<lambda>i. i_ioctl (ge_ops E) i cmd arg)"

definition gfs_flush :: "('d, 'i, 'st, 'at, 'x) gfs_env \<Rightarrow> u64 \<Rightarrow> (('d, 'x) gfs, unit) act" where
  "gfs_flush E ino = on_inode E ino (i_flush (ge_ops E))"

definition gfs_fsync :: "('d, 'i, 'st, 'at, 'x) gfs_env \<Rightarrow> u64 \<Rightarrow> (('d, 'x) gfs, unit) act" where
  "gfs_fsync E ino = on_inode E ino (i_fsync (ge_ops E))"

section \<open>Directories\<close>

text \<open>A new inode under a name: its number is taken before the dentry is inserted.\<close>

definition enter_child :: "('d, 'i, 'st, 'at, 'x) gfs_env \<Rightarrow> 'd \<Rightarrow> u8 list \<Rightarrow> 'i \<Rightarrow> (('d, 'x) gfs, u64) act" where
  "enter_child E parent name inode =
     bind fresh_ino (\<lambda>new. bind (in_gx (ge_insert E parent name inode)) (\<lambda>d. bind (put_dentry new d) (\<lambda>_. ret new)))"

definition gfs_rmdir :: "('d, 'i, 'st, 'at, 'x) gfs_env \<Rightarrow> u64 \<Rightarrow> u8 list \<Rightarrow> (('d, 'x) gfs, unit) act" where
  "gfs_rmdir E parent name =
     bind (dentry_at parent) (\<lambda>d. bind (utf8 E name) (\<lambda>_. bind (in_gx (d_inode (ge_ops E) d)) (\<lambda>i.
     bind (in_gx (ge_rmdir E i name)) (\<lambda>_. in_gx (ge_remove E d name)))))"

definition gfs_node_permission :: "('d, 'i, 'st, 'at, 'x) gfs_env \<Rightarrow> u64 \<Rightarrow> (('d, 'x) gfs, node_perm) act" where
  "gfs_node_permission E ino = on_inode E ino (ge_node_perm E)"

definition gfs_create :: "('d, 'i, 'st, 'at, 'x) gfs_env \<Rightarrow> u64 \<Rightarrow> u8 list \<Rightarrow> node_type \<Rightarrow> node_perm \<Rightarrow> u64 option
    \<Rightarrow> (('d, 'x) gfs, u64) act" where
  "gfs_create E parent name ty perm rdev =
     bind (dentry_at parent) (\<lambda>d. bind (in_gx (d_inode (ge_ops E) d)) (\<lambda>i. bind (utf8 E name) (\<lambda>_.
     bind (in_gx (ge_create E i name ty perm rdev)) (\<lambda>inode. enter_child E d name inode))))"

definition gfs_link :: "('d, 'i, 'st, 'at, 'x) gfs_env \<Rightarrow> u64 \<Rightarrow> u8 list \<Rightarrow> u64 \<Rightarrow> (('d, 'x) gfs, u64) act" where
  "gfs_link E parent name src =
     bind (dentry_at parent) (\<lambda>d. bind (utf8 E name) (\<lambda>_. bind (dentry_at src) (\<lambda>src_dentry.
     bind (in_gx (d_inode (ge_ops E) src_dentry)) (\<lambda>src. bind (in_gx (d_inode (ge_ops E) d)) (\<lambda>i.
     bind (in_gx (ge_link E i name src)) (\<lambda>inode. enter_child E d name inode))))))"

definition gfs_unlink :: "('d, 'i, 'st, 'at, 'x) gfs_env \<Rightarrow> u64 \<Rightarrow> u8 list \<Rightarrow> (('d, 'x) gfs, unit) act" where
  "gfs_unlink E parent name =
     bind (dentry_at parent) (\<lambda>d. bind (utf8 E name) (\<lambda>_. bind (in_gx (d_inode (ge_ops E) d)) (\<lambda>i.
     bind (in_gx (ge_unlink E i name)) (\<lambda>_. in_gx (ge_remove E d name)))))"

definition gfs_symlink :: "('d, 'i, 'st, 'at, 'x) gfs_env \<Rightarrow> u64 \<Rightarrow> u8 list \<Rightarrow> u8 list \<Rightarrow> (('d, 'x) gfs, u64) act" where
  "gfs_symlink E parent name link =
     bind (dentry_at parent) (\<lambda>d. bind (utf8 E name) (\<lambda>_. bind (utf8 E link) (\<lambda>_.
     bind (in_gx (d_inode (ge_ops E) d)) (\<lambda>i. bind (in_gx (ge_symlink E i name link)) (\<lambda>inode.
     enter_child E d name inode)))))"

text \<open>A dentry that is found or made: every lookup hands out a number of its own.\<close>

definition gfs_lookup :: "('d, 'i, 'st, 'at, 'x) gfs_env \<Rightarrow> u64 \<Rightarrow> u8 list \<Rightarrow> (('d, 'x) gfs, u64) act" where
  "gfs_lookup E parent name =
     bind (dentry_at parent) (\<lambda>d. bind (utf8 E name) (\<lambda>_.
     bind (in_gx (ge_find E d name)) (\<lambda>found.
     bind (case found of
         Some dt \<Rightarrow> ret dt
       | None \<Rightarrow> bind (in_gx (d_inode (ge_ops E) d)) (\<lambda>i. bind (in_gx (ge_lookup E i name)) (\<lambda>inode.
           in_gx (ge_insert E d name inode)))) (\<lambda>dentry.
     bind fresh_ino (\<lambda>new. bind (put_dentry new dentry) (\<lambda>_. ret new))))))"

definition gfs_readlink :: "('d, 'i, 'st, 'at, 'x) gfs_env \<Rightarrow> u64 \<Rightarrow> u8 list \<Rightarrow> (('d, 'x) gfs, u8 list \<times> nat) act" where
  "gfs_readlink E ino buf = on_inode E ino (\<lambda>i. ge_readlink E i buf)"

definition gfs_set_attr :: "('d, 'i, 'st, 'at, 'x) gfs_env \<Rightarrow> u64 \<Rightarrow> 'at \<Rightarrow> (('d, 'x) gfs, unit) act" where
  "gfs_set_attr E ino attr = on_inode E ino (\<lambda>i. ge_set_attr E i attr)"

definition gfs_get_attr :: "('d, 'i, 'st, 'at, 'x) gfs_env \<Rightarrow> u64 \<Rightarrow> (('d, 'x) gfs, 'st) act" where
  "gfs_get_attr E ino = on_inode E ino (i_get_attr (ge_ops E))"

definition gfs_inode_type :: "('d, 'i, 'st, 'at, 'x) gfs_env \<Rightarrow> u64 \<Rightarrow> (('d, 'x) gfs, node_type) act" where
  "gfs_inode_type E ino = on_inode E ino (ge_inode_type E)"

definition gfs_truncate :: "('d, 'i, 'st, 'at, 'x) gfs_env \<Rightarrow> u64 \<Rightarrow> u64 \<Rightarrow> (('d, 'x) gfs, unit) act" where
  "gfs_truncate E ino len = on_inode E ino (\<lambda>i. i_truncate (ge_ops E) i len)"

definition gfs_rename :: "('d, 'i, 'st, 'at, 'x) gfs_env \<Rightarrow> u64 \<Rightarrow> u8 list \<Rightarrow> u64 \<Rightarrow> u8 list \<Rightarrow> u32 \<Rightarrow> (('d, 'x) gfs, unit) act" where
  "gfs_rename E old_parent old_name new_parent new_name flags =
     bind (dentry_at old_parent) (\<lambda>old_dt. bind (utf8 E old_name) (\<lambda>_. bind (dentry_at new_parent) (\<lambda>new_dt.
     bind (utf8 E new_name) (\<lambda>_. bind (in_gx (d_inode (ge_ops E) old_dt)) (\<lambda>old_i.
     bind (in_gx (d_inode (ge_ops E) new_dt)) (\<lambda>new_i. in_gx (ge_rename_to E old_i old_name new_i new_name flags)))))))"

definition gfs_update_time :: "('d, 'i, 'st, 'at, 'x) gfs_env \<Rightarrow> u64 \<Rightarrow> u8 \<Rightarrow> time_spec \<Rightarrow> (('d, 'x) gfs, unit) act" where
  "gfs_update_time E ino time now = on_inode E ino (\<lambda>i. ge_update_time E i time now)"

section \<open>The file system as a whole\<close>

definition gfs_sync_fs :: "('d, 'i, 'st, 'at, 'x) gfs_env \<Rightarrow> bool \<Rightarrow> (('d, 'x) gfs, unit) act" where
  "gfs_sync_fs E wait = on_inode E 0 (\<lambda>i. ge_sync_fs E i wait)"

definition gfs_stat_fs :: "('d, 'i, 'st, 'at, 'x) gfs_env \<Rightarrow> (('d, 'x) gfs, vfs_fs_stat) act" where
  "gfs_stat_fs E = on_inode E 0 (ge_stat_fs E)"

definition gfs_super_type :: "('d, 'i, 'st, 'at, 'x) gfs_env \<Rightarrow> (('d, 'x) gfs, u8) act" where
  "gfs_super_type E = on_inode E 0 (ge_super_type E)"

definition gfs_kill_sb :: "('d, 'i, 'st, 'at, 'x) gfs_env \<Rightarrow> (('d, 'x) gfs, unit) act" where
  "gfs_kill_sb E = on_inode E 0 (ge_kill_sb E)"

definition gfs_fs_flag :: "('d, 'i, 'st, 'at, 'x) gfs_env \<Rightarrow> (('d, 'x) gfs, u32) act" where
  "gfs_fs_flag E = ret (ge_fs_flag E)"

definition gfs_fs_name :: "('d, 'i, 'st, 'at, 'x) gfs_env \<Rightarrow> u8 list \<Rightarrow> (('d, 'x) gfs, u8 list \<times> nat) act" where
  "gfs_fs_name E name = ret (copy_out (ge_fs_name E) name)"

definition gfs_fs_magic :: "(('d, 'x) gfs, 128 word) act" where
  "gfs_fs_magic = bind get_state (\<lambda>s. lift (unwrap (gf_magic s)))"

section \<open>Numbers and dentries\<close>

text \<open>What a call may do to the table: nothing, hand out the next number with or without a dentry, or drop a
  number other than that of the root.\<close>

definition gfs_moves :: "('d, 'x) gfs \<Rightarrow> ('d, 'x) gfs \<Rightarrow> bool" where
  "gfs_moves s t \<longleftrightarrow>
     gf_next t = gf_next s \<and> (gf_map t = gf_map s \<or> (\<exists>i. i \<noteq> 0 \<and> gf_map t = bt_remove i (gf_map s)))
     \<or> gf_next t = gf_next s + 1 \<and> (gf_map t = gf_map s \<or> (\<exists>d. gf_map t = bt_insert (gf_next s) d (gf_map s)))"

definition tame :: "(('d, 'x) gfs, 'a) act \<Rightarrow> bool" where
  "tame m \<longleftrightarrow> (\<forall>s. gfs_moves s (snd (m s)))"

definition quiet :: "(('d, 'x) gfs, 'a) act \<Rightarrow> bool" where
  "quiet m \<longleftrightarrow> (\<forall>s. gf_map (snd (m s)) = gf_map s \<and> gf_next (snd (m s)) = gf_next s)"

named_theorems gfs_intros \<open>what the calls of a file system domain do to its table\<close>

lemma quiet_basics [gfs_intros]:
  "quiet (ret x)" "quiet (lift r)" "quiet (assert_that b)" "quiet get_state" "quiet (in_gx n)" "quiet (dentry_at ino)" "quiet (utf8 E name)"
  by (simp_all add: quiet_def in_gx_def dentry_at_def utf8_def act_simps split: prod.split)

lemma quiet_bind [gfs_intros]:
  assumes "quiet m" and "\<And>x. quiet (f x)"
  shows "quiet (bind m f)"
  unfolding quiet_def
proof
  fix s
  show "gf_map (snd (bind m f s)) = gf_map s \<and> gf_next (snd (bind m f s)) = gf_next s"
    using assms by (cases "m s"; cases "fst (m s)") (simp_all add: quiet_def bind_def, metis snd_conv, metis snd_conv)
qed

lemma quiet_modify [gfs_intros]:
  "(\<And>s. gf_map (g s) = gf_map s \<and> gf_next (g s) = gf_next s) \<Longrightarrow> quiet (modify_state g)"
  by (simp add: quiet_def act_simps)

lemma quiet_cases [gfs_intros]:
  "quiet m \<Longrightarrow> (\<And>x. quiet (f x)) \<Longrightarrow> quiet (case r of None \<Rightarrow> m | Some x \<Rightarrow> f x)"
  "(\<And>x y. quiet (g x y)) \<Longrightarrow> quiet (case p of (x, y) \<Rightarrow> g x y)"
  by (auto split: option.split prod.split)

lemma quiet_on_inode [gfs_intros]: "quiet (on_inode E ino f)"
  unfolding on_inode_def by (intro gfs_intros)

lemma tame_quiet: "quiet m \<Longrightarrow> tame m"
  by (simp add: quiet_def tame_def gfs_moves_def)

lemma tame_bind:
  assumes "quiet m" and "\<And>x. tame (f x)"
  shows "tame (bind m f)"
  unfolding tame_def
proof
  fix s
  obtain r t where m: "m s = (r, t)" by fastforce
  then have t: "gf_map t = gf_map s" "gf_next t = gf_next s" using spec [OF assms(1) [unfolded quiet_def], of s] by simp_all
  show "gfs_moves s (snd (bind m f s))"
  proof (cases r)
    case (Inl e)
    then show ?thesis using m t by (simp add: bind_def gfs_moves_def)
  next
    case (Inr x)
    have "gfs_moves t (snd (f x t))" using assms(2) by (simp add: tame_def)
    then show ?thesis using m t Inr by (simp add: bind_def gfs_moves_def)
  qed
qed

lemma tame_fresh:
  fixes m :: "u64 \<Rightarrow> (('d, 'x) gfs, 'd) act"
  assumes "\<And>n. quiet (m n)" and "\<And>n d. quiet (h n d)"
  shows "tame (bind fresh_ino (\<lambda>n. bind (m n) (\<lambda>d. bind (put_dentry n d) (\<lambda>_. h n d))))"
  unfolding tame_def
proof
  fix s :: "('d, 'x) gfs"
  let ?s = "s\<lparr>gf_next := gf_next s + 1\<rparr>"
  obtain r t where m: "m (gf_next s) ?s = (r, t)" by fastforce
  then have t: "gf_map t = gf_map s" "gf_next t = gf_next s + 1"
    using spec [OF assms(1) [unfolded quiet_def], of "gf_next s" ?s] by simp_all
  show "gfs_moves s (snd (bind fresh_ino (\<lambda>n. bind (m n) (\<lambda>d. bind (put_dentry n d) (\<lambda>_. h n d))) s))"
  proof (cases r)
    case (Inl e)
    then show ?thesis using m t by (simp add: fresh_ino_def act_simps gfs_moves_def)
  next
    case (Inr d)
    have "quiet (h (gf_next s) d)" by (rule assms(2))
    then show ?thesis using m t Inr by (auto simp: fresh_ino_def put_dentry_def act_simps quiet_def gfs_moves_def)
  qed
qed

lemma tame_fresh_dentry:
  assumes "\<And>n. quiet (h n)"
  shows "tame (bind fresh_ino (\<lambda>n. bind (put_dentry n d) (\<lambda>_. h n)))"
  using tame_fresh [where m = "\<lambda>n. ret d" and h = "\<lambda>n _. h n"] assms by (simp add: gfs_intros)

lemma tame_cases:
  "tame m \<Longrightarrow> (\<And>x. tame (f x)) \<Longrightarrow> tame (case r of None \<Rightarrow> m | Some x \<Rightarrow> f x)"
  by (auto split: option.split)

lemmas tame_intros = gfs_intros tame_fresh tame_fresh_dentry tame_cases

text \<open>One call of the domain, and runs of them.\<close>

inductive gfs_call :: "('d, 'i, 'st, 'at, 'x) gfs_env \<Rightarrow> (('d, 'x) gfs \<Rightarrow> ('d, 'x) gfs) \<Rightarrow> bool" for E where
  "gfs_call E (\<lambda>s. snd (gfs_init E s))"
| "gfs_call E (\<lambda>s. snd (gfs_mount E a b s))"
| "gfs_call E (\<lambda>s. snd (gfs_root_inode_id s))"
| "gfs_call E (\<lambda>s. snd (gfs_root_dentry s))"
| "gfs_call E (\<lambda>s. snd (gfs_drop_inode a s))"
| "gfs_call E (\<lambda>s. snd (gfs_dentry_name E a b s))"
| "gfs_call E (\<lambda>s. snd (gfs_dentry_path E a b s))"
| "gfs_call E (\<lambda>s. snd (gfs_dentry_set_parent E a b c s))"
| "gfs_call E (\<lambda>s. snd (gfs_dentry_parent E a s))"
| "gfs_call E (\<lambda>s. snd (gfs_dentry_to_mount_point E a b c s))"
| "gfs_call E (\<lambda>s. snd (gfs_dentry_mount_point E a b s))"
| "gfs_call E (\<lambda>s. snd (gfs_dentry_clear_mount_point E a s))"
| "gfs_call E (\<lambda>s. snd (gfs_dentry_find E a b s))"
| "gfs_call E (\<lambda>s. snd (gfs_dentry_remove E a b s))"
| "gfs_call E (\<lambda>s. snd (gfs_read_at E a b c s))"
| "gfs_call E (\<lambda>s. snd (gfs_write_at E a b c s))"
| "gfs_call E (\<lambda>s. snd (gfs_readdir E a b c s))"
| "gfs_call E (\<lambda>s. snd (gfs_poll E a b s))"
| "gfs_call E (\<lambda>s. snd (gfs_ioctl E a b c s))"
| "gfs_call E (\<lambda>s. snd (gfs_flush E a s))"
| "gfs_call E (\<lambda>s. snd (gfs_fsync E a s))"
| "gfs_call E (\<lambda>s. snd (gfs_rmdir E a b s))"
| "gfs_call E (\<lambda>s. snd (gfs_node_permission E a s))"
| "gfs_call E (\<lambda>s. snd (gfs_create E a b c d e s))"
| "gfs_call E (\<lambda>s. snd (gfs_link E a b c s))"
| "gfs_call E (\<lambda>s. snd (gfs_unlink E a b s))"
| "gfs_call E (\<lambda>s. snd (gfs_symlink E a b c s))"
| "gfs_call E (\<lambda>s. snd (gfs_lookup E a b s))"
| "gfs_call E (\<lambda>s. snd (gfs_readlink E a b s))"
| "gfs_call E (\<lambda>s. snd (gfs_set_attr E a b s))"
| "gfs_call E (\<lambda>s. snd (gfs_get_attr E a s))"
| "gfs_call E (\<lambda>s. snd (gfs_inode_type E a s))"
| "gfs_call E (\<lambda>s. snd (gfs_truncate E a b s))"
| "gfs_call E (\<lambda>s. snd (gfs_rename E a b c d e s))"
| "gfs_call E (\<lambda>s. snd (gfs_update_time E a b c s))"
| "gfs_call E (\<lambda>s. snd (gfs_sync_fs E a s))"
| "gfs_call E (\<lambda>s. snd (gfs_stat_fs E s))"
| "gfs_call E (\<lambda>s. snd (gfs_super_type E s))"
| "gfs_call E (\<lambda>s. snd (gfs_kill_sb E s))"
| "gfs_call E (\<lambda>s. snd (gfs_fs_flag E s))"
| "gfs_call E (\<lambda>s. snd (gfs_fs_name E a s))"
| "gfs_call E (\<lambda>s. snd (gfs_fs_magic s))"

inductive gfs_runs :: "('d, 'i, 'st, 'at, 'x) gfs_env \<Rightarrow> nat \<Rightarrow> ('d, 'x) gfs \<Rightarrow> ('d, 'x) gfs \<Rightarrow> bool" for E where
  gfs_idle: "gfs_runs E 0 s s"
| gfs_next: "gfs_runs E n s t \<Longrightarrow> gfs_call E f \<Longrightarrow> gfs_runs E (Suc n) s (f t)"

lemma quiet_calls [gfs_intros]:
  "quiet (gfs_init E)"
  "quiet (gfs_root_inode_id)"
  "quiet (gfs_root_dentry)"
  "quiet (gfs_dentry_name E a4 b4)"
  "quiet (gfs_dentry_path E a5 b5)"
  "quiet (gfs_dentry_set_parent E a6 b6 c6)"
  "quiet (gfs_dentry_to_mount_point E a7 b7 c7)"
  "quiet (gfs_dentry_mount_point E a8 b8)"
  "quiet (gfs_dentry_clear_mount_point E a9)"
  "quiet (gfs_dentry_remove E a10 b10)"
  "quiet (gfs_read_at E a11 b11 c11)"
  "quiet (gfs_write_at E a12 b12 c12)"
  "quiet (gfs_readdir E a13 b13 c13)"
  "quiet (gfs_poll E a14 b14)"
  "quiet (gfs_ioctl E a15 b15 c15)"
  "quiet (gfs_flush E a16)"
  "quiet (gfs_fsync E a17)"
  "quiet (gfs_rmdir E a18 b18)"
  "quiet (gfs_node_permission E a19)"
  "quiet (gfs_unlink E a20 b20)"
  "quiet (gfs_readlink E a21 b21)"
  "quiet (gfs_set_attr E a22 b22)"
  "quiet (gfs_get_attr E a23)"
  "quiet (gfs_inode_type E a24)"
  "quiet (gfs_truncate E a25 b25)"
  "quiet (gfs_rename E a26 b26 c26 d26 e26)"
  "quiet (gfs_update_time E a27 b27 c27)"
  "quiet (gfs_sync_fs E a28)"
  "quiet (gfs_stat_fs E)"
  "quiet (gfs_super_type E)"
  "quiet (gfs_kill_sb E)"
  "quiet (gfs_fs_flag E)"
  "quiet (gfs_fs_name E a33)"
  "quiet (gfs_fs_magic)"
  unfolding gfs_init_def gfs_root_inode_id_def gfs_root_dentry_def gfs_dentry_name_def gfs_dentry_path_def gfs_dentry_set_parent_def gfs_dentry_to_mount_point_def gfs_dentry_mount_point_def gfs_dentry_clear_mount_point_def gfs_dentry_remove_def gfs_read_at_def gfs_write_at_def gfs_readdir_def gfs_poll_def gfs_ioctl_def gfs_flush_def gfs_fsync_def gfs_rmdir_def gfs_node_permission_def gfs_unlink_def gfs_readlink_def gfs_set_attr_def gfs_get_attr_def gfs_inode_type_def gfs_truncate_def gfs_rename_def gfs_update_time_def gfs_sync_fs_def gfs_stat_fs_def gfs_super_type_def gfs_kill_sb_def gfs_fs_flag_def gfs_fs_name_def gfs_fs_magic_def Let_def
  by (intro gfs_intros; simp)+

lemma tame_drop: "tame (gfs_drop_inode a)"
  by (auto simp: tame_def gfs_drop_inode_def gfs_moves_def act_simps)

lemma tame_children: "tame (enter_child E d name i)" "tame (gfs_dentry_parent E a)" "tame (gfs_dentry_find E a b)"
  "tame (gfs_lookup E a b)" "tame (gfs_mount E mp dev)"
proof -
  show "tame (enter_child E d name i)" unfolding enter_child_def by (intro tame_intros)
  show "tame (gfs_dentry_parent E a)" "tame (gfs_dentry_find E a b)" "tame (gfs_lookup E a b)"
    unfolding gfs_dentry_parent_def gfs_dentry_find_def gfs_lookup_def
    by (intro tame_bind tame_intros tame_quiet [OF quiet_basics(1)])+
  show "tame (gfs_mount E mp dev)"
    unfolding gfs_mount_def by (intro tame_bind tame_intros; simp)+
qed

lemma tame_makers: "tame (gfs_create E a b c d e)" "tame (gfs_link E a b a')" "tame (gfs_symlink E a b b')"
  unfolding gfs_create_def gfs_link_def gfs_symlink_def by (intro tame_bind gfs_intros tame_children)+

lemma tameD: "tame m \<Longrightarrow> gfs_moves s (snd (m s))"
  by (simp add: tame_def)

lemma call_moves: "gfs_call E f \<Longrightarrow> gfs_moves s (f s)"
  by (induction rule: gfs_call.induct; rule tameD) (rule tame_children tame_makers tame_drop | rule tame_quiet, rule quiet_calls)+

text \<open>Every number in the table was handed out.\<close>

definition gfs_typed :: "('d, 'x) gfs \<Rightarrow> bool" where
  "gfs_typed s \<longleftrightarrow> (\<forall>i d. bt_get (gf_map s) i = Some d \<longrightarrow> i < gf_next s)"

lemma next_number: "unat (n :: u64) + 1 < 2 ^ 64 \<Longrightarrow> unat (n + 1) = unat n + 1"
  by (simp add: unat_word_ariths)

lemma moves_step:
  assumes "gfs_moves s t" "gfs_typed s" "unat (gf_next s) + 1 < 2 ^ 64"
  shows "gfs_typed t \<and> unat (gf_next s) \<le> unat (gf_next t) \<and> unat (gf_next t) \<le> unat (gf_next s) + 1
    \<and> (i < gf_next s \<longrightarrow> bt_get (gf_map t) i = bt_get (gf_map s) i \<or> i \<noteq> 0 \<and> bt_get (gf_map t) i = None)"
proof -
  have up: "gf_next s < gf_next s + 1" using next_number [OF assms(3)] by (simp add: word_less_nat_alt)
  consider (drop) "gf_next t = gf_next s" "gf_map t = gf_map s \<or> (\<exists>i. i \<noteq> 0 \<and> gf_map t = bt_remove i (gf_map s))"
    | (add) "gf_next t = gf_next s + 1" "gf_map t = gf_map s \<or> (\<exists>d. gf_map t = bt_insert (gf_next s) d (gf_map s))"
    using assms(1) by (auto simp: gfs_moves_def)
  then show ?thesis
  proof cases
    case drop
    then show ?thesis using assms(2) by (auto simp: gfs_typed_def split: if_splits)
  next
    case add
    have "i < gf_next s + 1" if "bt_get (gf_map s) i = Some d" for i d
      using that assms(2) up by (auto simp: gfs_typed_def dest: less_trans)
    then show ?thesis using add up next_number [OF assms(3)] by (auto simp: gfs_typed_def split: if_splits)
  qed
qed

lemma runs_stable:
  assumes "gfs_runs E k s t" "gfs_typed s" "unat (gf_next s) + k < 2 ^ 64"
  shows "gfs_typed t \<and> unat (gf_next s) \<le> unat (gf_next t) \<and> unat (gf_next t) \<le> unat (gf_next s) + k
    \<and> (i < gf_next s \<longrightarrow> bt_get (gf_map t) i = bt_get (gf_map s) i \<or> i \<noteq> 0 \<and> bt_get (gf_map t) i = None)"
  using assms
proof (induction rule: gfs_runs.induct)
  case (gfs_next n s t f)
  then have IH: "gfs_typed t" "unat (gf_next s) \<le> unat (gf_next t)" "unat (gf_next t) \<le> unat (gf_next s) + n"
      "i < gf_next s \<longrightarrow> bt_get (gf_map t) i = bt_get (gf_map s) i \<or> i \<noteq> 0 \<and> bt_get (gf_map t) i = None"
    by simp_all
  have "unat (gf_next t) + 1 < 2 ^ 64" using IH(3) gfs_next.prems(2) by simp
  note step = moves_step [OF call_moves [OF gfs_next.hyps(2)] IH(1) this, of i]
  have "i < gf_next s \<Longrightarrow> i < gf_next t" using IH(2) by (simp add: word_less_nat_alt)
  then show ?case using step IH by auto
qed simp

text \<open>C32: a number of a file system domain means one dentry for ever. Over any run of calls of the domain
  (fewer than \<open>2 ^ 64\<close>, so that the counter does not wrap around) the table is well typed: it holds only
  numbers that were handed out. Whatever calls follow, a number that was handed out still stands for the
  same dentry or for none, and once it was dropped it never stands for another; the number of the root is
  never dropped.\<close>

theorem gfs_numbers_typed:
  assumes "gfs_runs E n (gfs_new x) s" "gfs_runs E k s t" "n + k < 2 ^ 64"
  shows "(bt_get (gf_map s) i = Some d \<longrightarrow> i < gf_next s)
    \<and> (i < gf_next s \<longrightarrow> bt_get (gf_map t) i = bt_get (gf_map s) i \<or> i \<noteq> 0 \<and> bt_get (gf_map t) i = None)"
proof -
  have "gfs_typed (gfs_new x)" by (simp add: gfs_typed_def gfs_new_def)
  from runs_stable [OF assms(1) this] assms(3) have s: "gfs_typed s" "unat (gf_next s) \<le> n"
    by (simp_all add: gfs_new_def)
  then show ?thesis using runs_stable [OF assms(2) s(1), of i] assms(3) by (simp add: gfs_typed_def)
qed

text \<open>A file system with one file, whose path is given, and the number of times it was looked up.\<close>

definition one_file :: "u8 list \<Rightarrow> (unit, unit, u64, unit, u8 list) gfs_env" where
  "one_file p = \<lparr> ge_ops = mem_fs, ge_utf8 = (\<lambda>s. True), ge_name = (\<lambda>d. ret p), ge_path = (\<lambda>d. ret p), ge_parent = (\<lambda>d. ret None),
     ge_set_parent = (\<lambda>d e. ret ()), ge_find = (\<lambda>d n. ret (Some ())), ge_insert = (\<lambda>d n i. ret ()), ge_remove = (\<lambda>d n. ret ()),
     ge_to_mount_point = (\<lambda>d e. ret ()), ge_mount_point = (\<lambda>d. ret None), ge_clear_mount_point = (\<lambda>d. ret ()),
     ge_create = (\<lambda>i n t q r. ret ()), ge_link = (\<lambda>i n j. ret ()), ge_unlink = (\<lambda>i n. ret ()), ge_symlink = (\<lambda>i n l. ret ()),
     ge_lookup = (\<lambda>i n. ret ()), ge_rmdir = (\<lambda>i n. ret ()), ge_readlink = (\<lambda>i b. ret (b, 0)), ge_set_attr = (\<lambda>i a. ret ()),
     ge_rename_to = (\<lambda>i n j m f. ret ()), ge_update_time = (\<lambda>i t u. ret ()), ge_node_perm = (\<lambda>i. ret 0), ge_inode_type = (\<lambda>i. ret 0),
     ge_sync_fs = (\<lambda>i w. ret ()), ge_stat_fs = (\<lambda>i. ret sample_fs_stat), ge_super_type = (\<lambda>i. ret 0), ge_magic = (\<lambda>i. ret 7),
     ge_kill_sb = (\<lambda>i. ret ()), ge_i_mount = (\<lambda>m i. ret ()), ge_fs_flag = 0, ge_fs_name = p,
     ge_mount_func = (\<lambda>d. ret ()), ge_init_func = ret (), ge_fs_domain = (\<lambda>n. True), ge_shim_dentry = (\<lambda>n i. ()),
     ge_shim_inode = (\<lambda>n i. ()), ge_shim_of = (\<lambda>d. None) \<rparr>"

theorem gfs_numbers_typed_witness:
  "bt_get (gf_map (snd (gfs_drop_inode 1 (snd (gfs_lookup (one_file []) 0 [97] (snd (gfs_mount (one_file []) [47] None (gfs_new [5])))))))) (0 :: u64) = Some ()"
proof -
  let ?E = "one_file []"
  let ?s = "snd (gfs_mount ?E [47] None (gfs_new [5]))"
  let ?t = "snd (gfs_drop_inode 1 (snd (gfs_lookup ?E 0 [97] ?s)))"
  have s: "gfs_runs ?E (Suc 0) (gfs_new [5]) ?s" by (rule gfs_runs.intros gfs_call.intros)+
  have t: "gfs_runs ?E (Suc (Suc 0)) ?s ?t"
    by (rule gfs_runs.intros(2) [where f = "\<lambda>s. snd (gfs_drop_inode 1 s)"]
        gfs_runs.intros(2) [where f = "\<lambda>s. snd (gfs_lookup ?E 0 [97] s)"] gfs_runs.intros(1) gfs_call.intros)+
  have m: "gf_next ?s = 1 \<and> bt_get (gf_map ?s) 0 = Some ()"
    by (simp add: gfs_mount_def utf8_def one_file_def in_gx_def gfs_new_def fresh_ino_def put_dentry_def mem_fs_def act_simps bt_empty_def)
  from gfs_numbers_typed [OF s t, of 0 "()"] m show ?thesis by simp
qed

end
