(* ===== verification/Shim.thy ===== *)
theory Shim
  imports GenericFs
begin

text \<open>
  The shims of \<open>common_lib/vfs_common/src/shim.rs\<close>, on the side of the VFS domain: inodes and dentries that
  are numbers of a file system domain. Every call goes through the trait \<open>FsDomain\<close>, the record
  \<open>fs_domain\<close>; \<open>generic_domain\<close> is the domain of \<open>GenericFs\<close> behind that trait. \<open>shim_ops\<close> makes of the
  shims the inode layer that the open files work on, so the three components can be put together.
\<close>

section \<open>The trait\<close>

record ('st, 'at, 'w) fs_domain =
  fd_read_at :: "u64 \<Rightarrow> u64 \<Rightarrow> u8 list \<Rightarrow> ('w, u8 list \<times> nat) act"
  fd_write_at :: "u64 \<Rightarrow> u64 \<Rightarrow> u8 list \<Rightarrow> ('w, nat) act"
  fd_readdir :: "u64 \<Rightarrow> nat \<Rightarrow> dir_entry_wrapper \<Rightarrow> ('w, dir_entry_wrapper) act"
  fd_poll :: "u64 \<Rightarrow> 16 word \<Rightarrow> ('w, 16 word) act"
  fd_ioctl :: "u64 \<Rightarrow> u32 \<Rightarrow> usize \<Rightarrow> ('w, nat) act"
  fd_flush :: "u64 \<Rightarrow> ('w, unit) act"
  fd_fsync :: "u64 \<Rightarrow> ('w, unit) act"
  fd_truncate :: "u64 \<Rightarrow> u64 \<Rightarrow> ('w, unit) act"
  fd_get_attr :: "u64 \<Rightarrow> ('w, 'st) act"
  fd_set_attr :: "u64 \<Rightarrow> 'at \<Rightarrow> ('w, unit) act"
  fd_node_permission :: "u64 \<Rightarrow> ('w, node_perm) act"
  fd_inode_type :: "u64 \<Rightarrow> ('w, node_type) act"
  fd_create :: "u64 \<Rightarrow> u8 list \<Rightarrow> node_type \<Rightarrow> node_perm \<Rightarrow> u64 option \<Rightarrow> ('w, u64) act"
  fd_link :: "u64 \<Rightarrow> u8 list \<Rightarrow> u64 \<Rightarrow> ('w, u64) act"
  fd_unlink :: "u64 \<Rightarrow> u8 list \<Rightarrow> ('w, unit) act"
  fd_symlink :: "u64 \<Rightarrow> u8 list \<Rightarrow> u8 list \<Rightarrow> ('w, u64) act"
  fd_lookup :: "u64 \<Rightarrow> u8 list \<Rightarrow> ('w, u64) act"
  fd_rmdir :: "u64 \<Rightarrow> u8 list \<Rightarrow> ('w, unit) act"
  fd_readlink :: "u64 \<Rightarrow> u8 list \<Rightarrow> ('w, u8 list \<times> nat) act"
  fd_rename :: "u64 \<Rightarrow> u8 list \<Rightarrow> u64 \<Rightarrow> u8 list \<Rightarrow> u32 \<Rightarrow> ('w, unit) act"
  fd_update_time :: "u64 \<Rightarrow> u8 \<Rightarrow> time_spec \<Rightarrow> ('w, unit) act"
  fd_drop_inode :: "u64 \<Rightarrow> ('w, unit) act"
  fd_dentry_name :: "u64 \<Rightarrow> u8 list \<Rightarrow> ('w, u8 list \<times> nat) act"
  fd_dentry_path :: "u64 \<Rightarrow> u8 list \<Rightarrow> ('w, u8 list \<times> nat) act"
  fd_dentry_parent :: "u64 \<Rightarrow> ('w, u64 option) act"
  fd_dentry_set_parent :: "u64 \<Rightarrow> u8 list \<Rightarrow> u64 \<Rightarrow> ('w, unit) act"
  fd_dentry_find :: "u64 \<Rightarrow> u8 list \<Rightarrow> ('w, u64 option) act"
  fd_dentry_remove :: "u64 \<Rightarrow> u8 list \<Rightarrow> ('w, unit) act"
  fd_dentry_to_mount_point :: "u64 \<Rightarrow> u8 list \<Rightarrow> u64 \<Rightarrow> ('w, unit) act"
  fd_dentry_mount_point :: "u64 \<Rightarrow> u8 list \<Rightarrow> ('w, (u8 list \<times> u64) option) act"
  fd_dentry_clear_mount_point :: "u64 \<Rightarrow> ('w, unit) act"
  fd_sync_fs :: "bool \<Rightarrow> ('w, unit) act"
  fd_stat_fs :: "('w, vfs_fs_stat) act"
  fd_super_type :: "('w, u8) act"
  fd_kill_sb :: "('w, unit) act"
  fd_fs_flag :: "('w, u32) act"
  fd_fs_name :: "u8 list \<Rightarrow> ('w, u8 list \<times> nat) act"
  fd_fs_magic :: "('w, 128 word) act"

definition generic_domain :: "('d, 'i, 'st, 'at, 'x) gfs_env \<Rightarrow> ('st, 'at, ('d, 'x) gfs) fs_domain" where
  "generic_domain E = \<lparr>
     fd_read_at = gfs_read_at E, fd_write_at = gfs_write_at E, fd_readdir = gfs_readdir E, fd_poll = gfs_poll E,
     fd_ioctl = gfs_ioctl E, fd_flush = gfs_flush E, fd_fsync = gfs_fsync E, fd_truncate = gfs_truncate E,
     fd_get_attr = gfs_get_attr E, fd_set_attr = gfs_set_attr E, fd_node_permission = gfs_node_permission E,
     fd_inode_type = gfs_inode_type E, fd_create = gfs_create E, fd_link = gfs_link E, fd_unlink = gfs_unlink E,
     fd_symlink = gfs_symlink E, fd_lookup = gfs_lookup E, fd_rmdir = gfs_rmdir E, fd_readlink = gfs_readlink E,
     fd_rename = gfs_rename E, fd_update_time = gfs_update_time E, fd_drop_inode = gfs_drop_inode,
     fd_dentry_name = gfs_dentry_name E, fd_dentry_path = gfs_dentry_path E, fd_dentry_parent = gfs_dentry_parent E,
     fd_dentry_set_parent = gfs_dentry_set_parent E, fd_dentry_find = gfs_dentry_find E, fd_dentry_remove = gfs_dentry_remove E,
     fd_dentry_to_mount_point = gfs_dentry_to_mount_point E, fd_dentry_mount_point = gfs_dentry_mount_point E,
     fd_dentry_clear_mount_point = gfs_dentry_clear_mount_point E, fd_sync_fs = gfs_sync_fs E, fd_stat_fs = gfs_stat_fs E,
     fd_super_type = gfs_super_type E, fd_kill_sb = gfs_kill_sb E, fd_fs_flag = gfs_fs_flag E, fd_fs_name = gfs_fs_name E,
     fd_fs_magic = gfs_fs_magic \<rparr>"

text \<open>What the shims are given besides: the table of domains, the test of \<open>str::from_utf8\<close>, and the
  contents of fresh buffers.\<close>

record ('st, 'at, 'w) shim_env =
  he_domain :: "u8 list \<Rightarrow> ('st, 'at, 'w) fs_domain option"
  he_utf8 :: "u8 list \<Rightarrow> bool"
  he_uninit :: "nat \<Rightarrow> u8 list"
  he_entry :: dir_entry_wrapper

text \<open>\<open>str::from_utf8(&buf.as_slice()[..l]).unwrap().to_string()\<close>.\<close>

definition shim_string :: "('st, 'at, 'w) shim_env \<Rightarrow> u8 list \<times> nat \<Rightarrow> u8 list res" where
  "shim_string H r = (case r of (buf, l) \<Rightarrow> (case slice_to l buf of
       Inl e \<Rightarrow> Inl e | Inr name \<Rightarrow> if he_utf8 H name then Ok name else panic))"

section \<open>Inodes\<close>

text \<open>\<open>FsShimInode\<close>: its number, the identifier that names its domain, and whether it has a super block
  that is alive.\<close>

record shim_inode =
  hi_ino :: u64
  hi_ident :: "u8 list"
  hi_sb :: bool

definition clone_with_inode :: "shim_inode \<Rightarrow> u64 \<Rightarrow> shim_inode" where
  "clone_with_inode i ino = i\<lparr>hi_ino := ino\<rparr>"

definition shim_readdir :: "('st, 'at, 'w) shim_env \<Rightarrow> ('st, 'at, 'w) fs_domain \<Rightarrow> u64 \<Rightarrow> nat \<Rightarrow> ('w, dirent option) act" where
  "shim_readdir H D ino start_index =
     bind (fd_readdir D ino start_index (he_entry H)) (\<lambda>dir_entry.
     if dw_name_len dir_entry = 0 then ret None
     else bind (lift (shim_string H (dw_name dir_entry, dw_name_len dir_entry))) (\<lambda>name.
       ret (Some \<lparr> dn_name = name, dn_ino = dw_ino dir_entry, dn_ty = dw_ty dir_entry \<rparr>)))"

definition shim_create :: "('st, 'at, 'w) fs_domain \<Rightarrow> shim_inode \<Rightarrow> u8 list \<Rightarrow> node_type \<Rightarrow> node_perm \<Rightarrow> u64 option
    \<Rightarrow> ('w, shim_inode) act" where
  "shim_create D i name ty perm rdev =
     bind (fd_create D (hi_ino i) name ty perm rdev) (\<lambda>inode_id. ret (clone_with_inode i inode_id))"

text \<open>\<open>src\<close> is \<open>None\<close> when it is not a shim.\<close>

definition shim_link :: "('st, 'at, 'w) fs_domain \<Rightarrow> shim_inode \<Rightarrow> u8 list \<Rightarrow> shim_inode option \<Rightarrow> ('w, shim_inode) act" where
  "shim_link D i name src =
     bind (lift (ok_or src EINVAL)) (\<lambda>src.
     bind (fd_link D (hi_ino i) name (hi_ino src)) (\<lambda>inode_id. ret (clone_with_inode i inode_id)))"

definition shim_unlink :: "('st, 'at, 'w) fs_domain \<Rightarrow> shim_inode \<Rightarrow> u8 list \<Rightarrow> ('w, unit) act" where
  "shim_unlink D i name = fd_unlink D (hi_ino i) name"

definition shim_symlink :: "('st, 'at, 'w) fs_domain \<Rightarrow> shim_inode \<Rightarrow> u8 list \<Rightarrow> u8 list \<Rightarrow> ('w, shim_inode) act" where
  "shim_symlink D i name sy_name =
     bind (fd_symlink D (hi_ino i) name sy_name) (\<lambda>inode_id. ret (clone_with_inode i inode_id))"

definition shim_lookup :: "('st, 'at, 'w) fs_domain \<Rightarrow> shim_inode \<Rightarrow> u8 list \<Rightarrow> ('w, shim_inode) act" where
  "shim_lookup D i name = bind (fd_lookup D (hi_ino i) name) (\<lambda>inode_id. ret (clone_with_inode i inode_id))"

definition shim_rmdir :: "('st, 'at, 'w) fs_domain \<Rightarrow> shim_inode \<Rightarrow> u8 list \<Rightarrow> ('w, unit) act" where
  "shim_rmdir D i name = fd_rmdir D (hi_ino i) name"

definition shim_readlink :: "('st, 'at, 'w) fs_domain \<Rightarrow> shim_inode \<Rightarrow> u8 list \<Rightarrow> ('w, u8 list \<times> nat) act" where
  "shim_readlink D i buf = fd_readlink D (hi_ino i) buf"

definition shim_set_attr :: "('st, 'at, 'w) fs_domain \<Rightarrow> shim_inode \<Rightarrow> 'at \<Rightarrow> ('w, unit) act" where
  "shim_set_attr D i attr = fd_set_attr D (hi_ino i) attr"

definition shim_rename_to :: "('st, 'at, 'w) fs_domain \<Rightarrow> shim_inode \<Rightarrow> u8 list \<Rightarrow> shim_inode option \<Rightarrow> u8 list \<Rightarrow> u32
    \<Rightarrow> ('w, unit) act" where
  "shim_rename_to D i old_name new_parent new_name flag =
     bind (lift (ok_or new_parent EINVAL)) (\<lambda>new_parent. fd_rename D (hi_ino i) old_name (hi_ino new_parent) new_name flag)"

definition shim_update_time :: "('st, 'at, 'w) fs_domain \<Rightarrow> shim_inode \<Rightarrow> u8 \<Rightarrow> time_spec \<Rightarrow> ('w, unit) act" where
  "shim_update_time D i time now = fd_update_time D (hi_ino i) time now"

definition shim_node_perm :: "('st, 'at, 'w) fs_domain \<Rightarrow> shim_inode \<Rightarrow> ('w, node_perm) act" where
  "shim_node_perm D i = must (fd_node_permission D (hi_ino i))"

definition shim_inode_type :: "('st, 'at, 'w) fs_domain \<Rightarrow> shim_inode \<Rightarrow> ('w, node_type) act" where
  "shim_inode_type D i = must (fd_inode_type D (hi_ino i))"

text \<open>\<open>Drop for FsShimInode\<close>.\<close>

definition shim_drop :: "('st, 'at, 'w) fs_domain \<Rightarrow> shim_inode \<Rightarrow> ('w, unit) act" where
  "shim_drop D i = must (fd_drop_inode D (hi_ino i))"

text \<open>The file operations, as the inode layer of the open files: dentry and inode are the number.\<close>

definition shim_ops :: "('st, 'at, 'w) shim_env \<Rightarrow> ('st, 'at, 'w) fs_domain \<Rightarrow> ('st \<Rightarrow> u64) \<Rightarrow> (u64, u64, 'st, 'w) fs_ops" where
  "shim_ops H D file_size = \<lparr>
     d_inode = ret, i_read_at = fd_read_at D, i_write_at = fd_write_at D, i_flush = fd_flush D, i_fsync = fd_fsync D,
     i_get_attr = fd_get_attr D, i_ioctl = fd_ioctl D, i_truncate = fd_truncate D, i_poll = fd_poll D,
     i_readdir = shim_readdir H D, st_size = file_size \<rparr>"

section \<open>Super block and file system\<close>

definition shim_sync_fs :: "('st, 'at, 'w) fs_domain \<Rightarrow> bool \<Rightarrow> ('w, unit) act" where
  "shim_sync_fs D wait = fd_sync_fs D wait"

definition shim_stat_fs :: "('st, 'at, 'w) fs_domain \<Rightarrow> ('w, vfs_fs_stat) act" where
  "shim_stat_fs D = fd_stat_fs D"

definition shim_super_type :: "('st, 'at, 'w) fs_domain \<Rightarrow> ('w, u8) act" where
  "shim_super_type D = must (fd_super_type D)"

definition shim_kill_sb :: "('st, 'at, 'w) fs_domain \<Rightarrow> ('w, unit) act" where
  "shim_kill_sb D = fd_kill_sb D"

definition shim_fs_flag :: "('st, 'at, 'w) fs_domain \<Rightarrow> ('w, u32) act" where
  "shim_fs_flag D = must (fd_fs_flag D)"

definition shim_fs_name :: "('st, 'at, 'w) shim_env \<Rightarrow> ('st, 'at, 'w) fs_domain \<Rightarrow> ('w, u8 list) act" where
  "shim_fs_name H D = bind (must (fd_fs_name D (he_uninit H 32))) (\<lambda>r. lift (shim_string H r))"

section \<open>Dentries\<close>

text \<open>\<open>RootShimDentry\<close>: the caches of name and path (empty when not filled), of parent, mount point and
  children. Dentries are shared; they live in a store and are named by their position. \<open>hm_saved\<close> is the
  static \<open>STATE_SAVE\<close>.\<close>

record shim_dentry =
  sd_inode :: shim_inode
  sd_name :: "u8 list"
  sd_path :: "u8 list"
  sd_parent :: "nat option"
  sd_mount :: "nat option"
  sd_children :: "u8 list \<Rightarrow> nat option"

record 'w shims =
  hm_dentries :: "shim_dentry list"
  hm_saved :: "nat list"
  hm_world :: 'w

definition in_domain :: "('w, 'a) act \<Rightarrow> ('w shims, 'a) act" where
  "in_domain = zoom hm_world (\<lambda>w s. s\<lparr>hm_world := w\<rparr>)"

definition the_dentry :: "nat \<Rightarrow> ('w shims, shim_dentry) act" where
  "the_dentry this = bind get_state (\<lambda>s. if this < length (hm_dentries s) then ret (hm_dentries s ! this) else abort)"

definition upd_dentry :: "nat \<Rightarrow> (shim_dentry \<Rightarrow> shim_dentry) \<Rightarrow> ('w shims, unit) act" where
  "upd_dentry this f = modify_state (\<lambda>s. s\<lparr>hm_dentries := (hm_dentries s)[this := f (hm_dentries s ! this)]\<rparr>)"

text \<open>\<open>insert_dentry_to_state\<close>.\<close>

definition insert_dentry_to_state :: "nat \<Rightarrow> ('w shims, unit) act" where
  "insert_dentry_to_state d = modify_state (\<lambda>s. s\<lparr>hm_saved := hm_saved s @ [d]\<rparr>)"

definition alloc_dentry :: "shim_inode \<Rightarrow> ('w shims, nat) act" where
  "alloc_dentry i = bind get_state (\<lambda>s. bind (modify_state (\<lambda>s. s\<lparr>hm_dentries := hm_dentries s @
     [\<lparr> sd_inode = i, sd_name = [], sd_path = [], sd_parent = None, sd_mount = None, sd_children = (\<lambda>_. None) \<rparr>]\<rparr>))
     (\<lambda>_. ret (length (hm_dentries s))))"

text \<open>A call on the domain of a shim, and one whose \<open>Result\<close> is unwrapped.\<close>

definition call_domain :: "('st, 'at, 'w) shim_env \<Rightarrow> shim_inode \<Rightarrow> (('st, 'at, 'w) fs_domain \<Rightarrow> ('w, 'a) act) \<Rightarrow> ('w shims, 'a) act" where
  "call_domain H i f = (case he_domain H (hi_ident i) of None \<Rightarrow> abort | Some D \<Rightarrow> must (in_domain (f D)))"

definition rsd_new :: "('st, 'at, 'w) shim_env \<Rightarrow> u8 list \<Rightarrow> u64 \<Rightarrow> ('w shims, nat) act" where
  "rsd_new H fs_domain_ident inode_id =
     (let i = \<lparr> hi_ino = inode_id, hi_ident = fs_domain_ident, hi_sb = True \<rparr> in
      bind (call_domain H i fd_fs_magic) (\<lambda>magic. alloc_dentry i))"

definition rsd_from :: "shim_inode option \<Rightarrow> ('w shims, nat) act" where
  "rsd_from inode = bind (lift (unwrap inode)) (\<lambda>i. if hi_sb i then alloc_dentry i else abort)"

definition rsd_name :: "('st, 'at, 'w) shim_env \<Rightarrow> nat \<Rightarrow> ('w shims, u8 list) act" where
  "rsd_name H this = bind (the_dentry this) (\<lambda>d.
     if sd_name d \<noteq> [] then ret (sd_name d)
     else bind (call_domain H (sd_inode d) (\<lambda>D. fd_dentry_name D (hi_ino (sd_inode d)) (he_uninit H 32))) (\<lambda>r.
       bind (lift (shim_string H r)) (\<lambda>name.
       bind (upd_dentry this (\<lambda>d. d\<lparr>sd_name := name\<rparr>)) (\<lambda>_. ret name))))"

definition rsd_path :: "('st, 'at, 'w) shim_env \<Rightarrow> nat \<Rightarrow> ('w shims, u8 list) act" where
  "rsd_path H this = bind (the_dentry this) (\<lambda>d.
     if sd_path d \<noteq> [] then ret (sd_path d)
     else bind (call_domain H (sd_inode d) (\<lambda>D. fd_dentry_path D (hi_ino (sd_inode d)) (he_uninit H 64))) (\<lambda>r.
       bind (lift (shim_string H r)) (\<lambda>path.
       bind (upd_dentry this (\<lambda>d. d\<lparr>sd_path := path\<rparr>)) (\<lambda>_. ret path))))"

definition rsd_to_mount_point :: "('st, 'at, 'w) shim_env \<Rightarrow> nat \<Rightarrow> nat \<Rightarrow> ('w shims, unit) act" where
  "rsd_to_mount_point H this sub_fs_root = bind (the_dentry sub_fs_root) (\<lambda>dentry. bind (the_dentry this) (\<lambda>d.
     bind (call_domain H (sd_inode d) (\<lambda>D. fd_dentry_to_mount_point D (hi_ino (sd_inode d))
       (hi_ident (sd_inode dentry)) (hi_ino (sd_inode dentry)))) (\<lambda>_.
     insert_dentry_to_state sub_fs_root)))"

definition rsd_mount_point :: "('st, 'at, 'w) shim_env \<Rightarrow> nat \<Rightarrow> ('w shims, nat option) act" where
  "rsd_mount_point H this = bind (the_dentry this) (\<lambda>d. case sd_mount d of
       Some mount_point \<Rightarrow> ret (Some mount_point)
     | None \<Rightarrow>
         bind (call_domain H (sd_inode d) (\<lambda>D. fd_dentry_mount_point D (hi_ino (sd_inode d)) (replicate 32 0))) (\<lambda>r. case r of
           None \<Rightarrow> ret None
         | Some (mount_point, inode_id) \<Rightarrow>
             let ident = takeWhile (\<lambda>b. b \<noteq> 0) mount_point in
             bind (assert_that (0 \<in> set mount_point \<and> he_utf8 H ident)) (\<lambda>_.
             bind (assert_that (he_domain H ident \<noteq> None)) (\<lambda>_.
             bind (rsd_new H ident inode_id) (\<lambda>root_dentry.
             bind (upd_dentry this (\<lambda>d. d\<lparr>sd_mount := Some root_dentry\<rparr>)) (\<lambda>_. ret (Some root_dentry)))))))"

definition rsd_clear_mount_point :: "('st, 'at, 'w) shim_env \<Rightarrow> nat \<Rightarrow> ('w shims, unit) act" where
  "rsd_clear_mount_point H this = bind (the_dentry this) (\<lambda>d.
     bind (call_domain H (sd_inode d) (\<lambda>D. fd_dentry_clear_mount_point D (hi_ino (sd_inode d)))) (\<lambda>_.
     upd_dentry this (\<lambda>d. d\<lparr>sd_mount := None\<rparr>)))"

definition rsd_find :: "('st, 'at, 'w) shim_env \<Rightarrow> nat \<Rightarrow> u8 list \<Rightarrow> ('w shims, nat option) act" where
  "rsd_find H this path = bind (the_dentry this) (\<lambda>d. case sd_children d path of
       Some dentry \<Rightarrow> ret (Some dentry)
     | None \<Rightarrow>
         bind (call_domain H (sd_inode d) (\<lambda>D. fd_dentry_find D (hi_ino (sd_inode d)) path)) (\<lambda>r. case r of
           None \<Rightarrow> ret None
         | Some inode_id \<Rightarrow> bind (rsd_new H (hi_ident (sd_inode d)) inode_id) (\<lambda>this. ret (Some this))))"

definition rsd_insert :: "nat \<Rightarrow> u8 list \<Rightarrow> shim_inode option \<Rightarrow> ('w shims, nat) act" where
  "rsd_insert this name child = bind (the_dentry this) (\<lambda>_. bind (rsd_from child) (\<lambda>new.
     bind (upd_dentry this (\<lambda>d. d\<lparr>sd_children := (sd_children d)(name \<mapsto> new)\<rparr>)) (\<lambda>_. ret new)))"

text \<open>The caller is told that there was no such child.\<close>

definition rsd_remove :: "('st, 'at, 'w) shim_env \<Rightarrow> nat \<Rightarrow> u8 list \<Rightarrow> ('w shims, nat option) act" where
  "rsd_remove H this name = bind (the_dentry this) (\<lambda>d.
     bind (call_domain H (sd_inode d) (\<lambda>D. fd_dentry_remove D (hi_ino (sd_inode d)) name)) (\<lambda>_.
     bind (upd_dentry this (\<lambda>d. d\<lparr>sd_children := (sd_children d)(name := None)\<rparr>)) (\<lambda>_. ret None)))"

definition rsd_parent :: "('st, 'at, 'w) shim_env \<Rightarrow> nat \<Rightarrow> ('w shims, nat option) act" where
  "rsd_parent H this = bind (the_dentry this) (\<lambda>d. case sd_parent d of
       Some parent \<Rightarrow> ret (Some parent)
     | None \<Rightarrow>
         bind (call_domain H (sd_inode d) (\<lambda>D. fd_dentry_parent D (hi_ino (sd_inode d)))) (\<lambda>r. case r of
           None \<Rightarrow> ret None
         | Some inode_id \<Rightarrow> bind (rsd_new H (hi_ident (sd_inode d)) inode_id) (\<lambda>dentry. ret (Some dentry))))"

definition rsd_set_parent :: "('st, 'at, 'w) shim_env \<Rightarrow> nat \<Rightarrow> nat \<Rightarrow> ('w shims, unit) act" where
  "rsd_set_parent H this parent = bind (the_dentry parent) (\<lambda>p. bind (the_dentry this) (\<lambda>d.
     bind (call_domain H (sd_inode d) (\<lambda>D. fd_dentry_set_parent D (hi_ino (sd_inode d)) (hi_ident (sd_inode p)) (hi_ino (sd_inode p)))) (\<lambda>_.
     bind (upd_dentry this (\<lambda>d. d\<lparr>sd_parent := Some parent\<rparr>)) (\<lambda>_.
     insert_dentry_to_state parent))))"

section \<open>Open files over the shims over a file system domain\<close>

lemma in_gx_run [act_simps]: "in_gx m s = (case m (gf_x s) of (r, x) \<Rightarrow> (r, s\<lparr>gf_x := x\<rparr>))"
  by (simp add: in_gx_def act_simps)

lemma dentry_at_run [act_simps]: "dentry_at ino s = (unwrap (bt_get (gf_map s) ino), s)"
  by (simp add: dentry_at_def act_simps)

lemma in_domain_run [act_simps]: "in_domain m s = (case m (hm_world s) of (r, w) \<Rightarrow> (r, s\<lparr>hm_world := w\<rparr>))"
  by (simp add: in_domain_def act_simps)

lemma on_inode_run:
  "bt_get (gf_map s) ino = Some d \<Longrightarrow> on_inode E ino f s =
     (case bind (d_inode (ge_ops E) d) f (gf_x s) of (r, x) \<Rightarrow> (r, s\<lparr>gf_x := x\<rparr>))"
  by (cases "d_inode (ge_ops E) d (gf_x s)"; cases "fst (d_inode (ge_ops E) d (gf_x s))")
    (auto simp: on_inode_def act_simps unwrap_def split: prod.split)

text \<open>The state of a file with shim and domain put around it, and computations that do the same with and
  without them.\<close>

definition outer :: "('d, 'x) gfs \<Rightarrow> 'x kstate \<Rightarrow> ('d, 'x) gfs kstate" where
  "outer g t = \<lparr> k_meta = k_meta t, k_fs = g\<lparr>gf_x := k_fs t\<rparr> \<rparr>"

definition same_below :: "('d, 'x) gfs \<Rightarrow> (('d, 'x) gfs kstate, 'a) act \<Rightarrow> ('x kstate, 'a) act \<Rightarrow> bool" where
  "same_below g m m' \<longleftrightarrow> (\<forall>t. m (outer g t) = (case m' t of (r, t') \<Rightarrow> (r, outer g t')))"

lemma same_belowD: "same_below g m m' \<Longrightarrow> m (outer g t) = (case m' t of (r, t') \<Rightarrow> (r, outer g t'))"
  by (simp add: same_below_def)

lemma outer_fields [simp]: "k_meta (outer g t) = k_meta t" "k_fs (outer g t) = g\<lparr>gf_x := k_fs t\<rparr>"
  by (simp_all add: outer_def)

named_theorems below \<open>computations over the domain that do what they do without it\<close>

lemma same_basics [below]:
  "same_below g (ret x) (ret x)" "same_below g (fail e) (fail e)" "same_below g (lift r) (lift r)" "same_below g (set_pos p) (set_pos p)"
  by (simp_all add: same_below_def act_simps outer_def)

lemma same_bind [below]:
  assumes "same_below g m m'" and "\<And>x. same_below g (f x) (f' x)"
  shows "same_below g (bind m f) (bind m' f')"
  unfolding same_below_def
proof
  fix t
  obtain r t' where m: "m' t = (r, t')" by fastforce
  then have "m (outer g t) = (r, outer g t')" using same_belowD [OF assms(1), of t] by simp
  then show "bind m f (outer g t) = (case bind m' f' t of (r, t') \<Rightarrow> (r, outer g t'))"
    using m same_belowD [OF assms(2)] by (cases r) (simp_all add: bind_def)
qed

lemma same_state [below]:
  "(\<And>t. same_below g (f (outer g t)) (f' t)) \<Longrightarrow> same_below g (bind get_state f) (bind get_state f')"
  by (simp add: same_below_def bind_def act_basics)

lemma same_if [below]:
  "same_below g m m' \<Longrightarrow> same_below g n n' \<Longrightarrow> same_below g (if b then m else n) (if b then m' else n')"
  by simp

lemma same_pair [below]:
  "(\<And>x y. same_below g (f x y) (f' x y)) \<Longrightarrow> same_below g (case p of (x, y) \<Rightarrow> f x y) (case p of (x, y) \<Rightarrow> f' x y)"
  by (simp split: prod.split)

lemma same_inode:
  fixes E :: "('d, 'i, 'st, 'at, 'x) gfs_env"
  assumes "bt_get (gf_map g) ino = Some d"
  shows "same_below g (bind (in_fs (ret ino)) (\<lambda>i. in_fs (on_inode E i f))) (bind (in_fs (d_inode (ge_ops E) d)) (\<lambda>i. in_fs (f i)))"
  unfolding same_below_def
proof
  fix t :: "'x kstate"
  have "bt_get (gf_map (g\<lparr>gf_x := k_fs t\<rparr>)) ino = Some d" using assms by simp
  note run = on_inode_run [OF this, where E = E and f = f]
  obtain r x where "d_inode (ge_ops E) d (k_fs t) = (r, x)" by fastforce
  then show "bind (in_fs (ret ino)) (\<lambda>i. in_fs (on_inode E i f)) (outer g t)
      = (case bind (in_fs (d_inode (ge_ops E) d)) (\<lambda>i. in_fs (f i)) t of (r, t') \<Rightarrow> (r, outer g t'))"
    by (cases r) (simp_all add: act_simps run outer_def split: prod.split)
qed

lemmas shim_defs = shim_ops_def generic_domain_def gfs_read_at_def gfs_write_at_def gfs_get_attr_def gfs_truncate_def
  gfs_flush_def gfs_fsync_def gfs_poll_def

lemma same_file_ops [below]:
  fixes E :: "('d, 'i, 'st, 'at, 'x) gfs_env"
  assumes "bt_get (gf_map g) ino = Some d"
  shows "same_below g (kf_read_at A (shim_ops H (generic_domain E) z) ino off buf) (kf_read_at A (ge_ops E) d off buf)"
    "same_below g (kf_write_at A (shim_ops H (generic_domain E) z) ino off bs) (kf_write_at A (ge_ops E) d off bs)"
    "same_below g (kf_get_attr (shim_ops H (generic_domain E) z) ino) (kf_get_attr (ge_ops E) d)"
    "same_below g (kf_truncate A (shim_ops H (generic_domain E) z) ino len) (kf_truncate A (ge_ops E) d len)"
    "same_below g (kf_flush A (shim_ops H (generic_domain E) z) ino) (kf_flush A (ge_ops E) d)"
    "same_below g (kf_fsync A (shim_ops H (generic_domain E) z) ino) (kf_fsync A (ge_ops E) d)"
  unfolding kf_read_at_def kf_write_at_def kf_get_attr_def kf_truncate_def kf_flush_def kf_fsync_def shim_defs
    fs_ops.simps fs_domain.simps Let_def
  by (rule same_if same_state same_basics same_inode [OF assms] | simp only: outer_fields)+

text \<open>C31: neither the shim nor the domain changes what an open file does: reading, writing, seeking,
  truncating, flushing and polling a kernel file whose inode is a shim of a number of the domain give the
  result and the position of the same call on the file system itself, under the dentry that the number
  stands for, and change nothing in the table of the domain.\<close>

theorem kfile_over_shim:
  assumes "bt_get (gf_map g) ino = Some d"
  shows "let S = shim_ops H (generic_domain E) (st_size (ge_ops E)); F = ge_ops E in
    same_below g (kf_read A S ino buf) (kf_read A F d buf) \<and> same_below g (kf_write A S ino bs) (kf_write A F d bs)
    \<and> same_below g (kf_seek S ino p) (kf_seek F d p) \<and> same_below g (kf_truncate A S ino len) (kf_truncate A F d len)
    \<and> same_below g (kf_flush A S ino) (kf_flush A F d) \<and> same_below g (kf_fsync A S ino) (kf_fsync A F d)
    \<and> same_below g (kf_poll A S ino ev) (kf_poll A F d ev)"
proof -
  let ?S = "shim_ops H (generic_domain E) (st_size (ge_ops E))"
  note ops = same_file_ops [OF assms]
  have "same_below g (kf_read A ?S ino buf) (kf_read A (ge_ops E) d buf)"
    unfolding kf_read_def by (rule below ops assms | simp only: outer_fields)+
  moreover have "same_below g (kf_write A ?S ino bs) (kf_write A (ge_ops E) d bs)"
    unfolding kf_write_def by (rule below ops assms | simp only: outer_fields)+
  moreover have "same_below g (kf_seek ?S ino p) (kf_seek (ge_ops E) d p)"
    unfolding kf_seek_def by (rule below ops assms | simp only: outer_fields shim_ops_def fs_ops.simps)+
  moreover have "same_below g (kf_poll A ?S ino ev) (kf_poll A (ge_ops E) d ev)"
    unfolding kf_poll_def shim_defs fs_ops.simps fs_domain.simps bind_assoc [symmetric]
    by (rule same_bind, rule same_inode [OF assms], rule same_basics)
  ultimately show ?thesis unfolding Let_def by (intro conjI ops)
qed

text \<open>A world to put the pieces together in: one file whose path is \<open>p\<close>, under the number 0.\<close>

definition one_domain :: "u8 list \<Rightarrow> (u64, unit, (unit, u8 list) gfs) shim_env" where
  "one_domain p = \<lparr> he_domain = (\<lambda>ident. if ident = [114] then Some (generic_domain (one_file p)) else None),
     he_utf8 = (\<lambda>s. True), he_uninit = (\<lambda>n. replicate n 0),
     he_entry = \<lparr> dw_name = replicate 4 0, dw_name_len = 0, dw_ty = 0, dw_ino = 0 \<rparr> \<rparr>"

definition one_table :: "u8 list \<Rightarrow> (unit, u8 list) gfs" where
  "one_table x = (gfs_new x)\<lparr>gf_map := bt_insert 0 () bt_empty, gf_next := 1\<rparr>"

lemma one_table_get: "bt_get (gf_map (one_table x)) 0 = Some ()"
  by (simp add: one_table_def)

lemma one_file_ops: "ge_ops (one_file p) = mem_fs" "st_size mem_fs = (\<lambda>a. a)"
  by (simp_all add: one_file_def mem_fs_def)

theorem kfile_over_shim_witness:
  "fst (kf_read linux_abi (shim_ops (one_domain []) (generic_domain (one_file [])) (\<lambda>a. a)) 0 [0, 0]
     (outer (one_table []) (sample_kstate 2 1 [1, 2, 3, 4]))) = Ok ([2, 3], 2)"
proof -
  have "same_below (one_table []) (kf_read linux_abi (shim_ops (one_domain []) (generic_domain (one_file [])) (\<lambda>a. a)) 0 [0, 0])
      (kf_read linux_abi mem_fs () [0, 0])"
    using kfile_over_shim [OF one_table_get, where E = "one_file []" and A = linux_abi and H = "one_domain []"]
    unfolding one_file_ops by (simp only: Let_def)
  moreover have "fst (kf_read linux_abi mem_fs () [0, 0] (sample_kstate 2 1 [1, 2, 3, 4])) = Ok ([2, 3], 2)"
    by (simp add: kf_read_def kf_read_at_def act_simps mem_fs_def sample_kstate_def kmeta_new_def splice_def contains_def)
  ultimately show ?thesis by (auto simp: same_belowD split: prod.split)
qed

section \<open>Names that cross the domains\<close>

lemma take_copy_out: "fst (copy_out name buf) = splice 0 (take (length buf) name) buf" "snd (copy_out name buf) = min (length name) (length buf)"
  by (simp_all add: copy_out_def Let_def min_def)

lemma shim_string_copy_out:
  "shim_string H (copy_out name buf) = (if he_utf8 H (take (length buf) name) then Ok (take (length buf) name) else panic)"
  by (simp add: shim_string_def copy_out_def Let_def slice_to_def splice_def min_def split: if_splits)

text \<open>A dentry of the store whose number stands for a dentry of a file system behind \<open>GenericFs\<close>.\<close>

definition shim_of :: "('st, 'at, ('d, 'x) gfs) shim_env \<Rightarrow> ('d, 'i, 'st, 'at, 'x) gfs_env \<Rightarrow> ('d, 'x) gfs shims \<Rightarrow> nat \<Rightarrow> 'd \<Rightarrow> bool" where
  "shim_of H E s this d \<longleftrightarrow> this < length (hm_dentries s)
     \<and> he_domain H (hi_ident (sd_inode (hm_dentries s ! this))) = Some (generic_domain E)
     \<and> bt_get (gf_map (hm_world s)) (hi_ino (sd_inode (hm_dentries s ! this))) = Some d"


text \<open>The VFS domain sees at most 64 bytes of the path of a dentry and 32 of its name. The shim asks
  the domain once, with a buffer of that size: it answers the path cut at 64 bytes (the name at 32), whatever
  the real one is, and panics when the cut falls inside a character. A path that was answered is kept: later
  calls answer the same bytes whatever has happened in the file system since.\<close>

theorem shim_path_cut:
  fixes s :: "('d, 'x) gfs shims"
  assumes d: "shim_of H E s this d" and u: "\<And>n. length (he_uninit H n) = n"
    and p: "ge_path E d (gf_x (hm_world s)) = (Ok p, x)" "sd_path (hm_dentries s ! this) = []"
    and n: "ge_name E d (gf_x (hm_world s)) = (Ok nm, y)" "sd_name (hm_dentries s ! this) = []"
  shows "fst (rsd_path H this s) = (if he_utf8 H (take 64 p) then Ok (take 64 p) else panic)
    \<and> fst (rsd_name H this s) = (if he_utf8 H (take 32 nm) then Ok (take 32 nm) else panic)
    \<and> (he_utf8 H (take 64 p) \<and> p \<noteq> [] \<longrightarrow>
        fst (rsd_path H this ((snd (rsd_path H this s))\<lparr>hm_world := w\<rparr>)) = Ok (take 64 p))"
proof -
  have path: "gfs_dentry_path E (hi_ino (sd_inode (hm_dentries s ! this))) (he_uninit H 64) (hm_world s)
      = (Ok (copy_out p (he_uninit H 64)), (hm_world s)\<lparr>gf_x := x\<rparr>)"
    and name: "gfs_dentry_name E (hi_ino (sd_inode (hm_dentries s ! this))) (he_uninit H 32) (hm_world s)
      = (Ok (copy_out nm (he_uninit H 32)), (hm_world s)\<lparr>gf_x := y\<rparr>)"
    using d p(1) n(1) by (simp_all add: gfs_dentry_path_def gfs_dentry_name_def shim_of_def act_simps)
  have ops: "fd_dentry_path (generic_domain E) = gfs_dentry_path E" "fd_dentry_name (generic_domain E) = gfs_dentry_name E"
    by (simp_all add: generic_domain_def)
  have at: "this < length (hm_dentries s)" "he_domain H (hi_ident (sd_inode (hm_dentries s ! this))) = Some (generic_domain E)"
    using d by (simp_all add: shim_of_def)
  show ?thesis
    using at p(2) n(2) path name
    by (simp add: rsd_path_def rsd_name_def the_dentry_def upd_dentry_def call_domain_def ops shim_string_copy_out u act_simps)
qed

definition one_shim :: "(unit, u8 list) gfs shims" where
  "one_shim = \<lparr> hm_dentries = [\<lparr> sd_inode = \<lparr> hi_ino = 0, hi_ident = [114], hi_sb = True \<rparr>, sd_name = [], sd_path = [],
     sd_parent = None, sd_mount = None, sd_children = (\<lambda>_. None) \<rparr>], hm_saved = [], hm_world = one_table [] \<rparr>"

theorem shim_path_cut_witness:
  "fst (rsd_path (one_domain (replicate 70 97)) 0 one_shim) = Ok (replicate 64 97)
   \<and> fst (rsd_name (one_domain (replicate 70 97)) 0 one_shim) = Ok (replicate 32 97)"
proof -
  let ?p = "replicate 70 (97 :: u8)"
  have "shim_of (one_domain ?p) (one_file ?p) one_shim 0 ()"
    by (simp add: shim_of_def one_domain_def one_shim_def one_table_get)
  from shim_path_cut [OF this, of ?p "[]" ?p "[]"] show ?thesis
    by (simp add: one_domain_def one_shim_def one_file_def act_simps one_table_def gfs_new_def)
qed

text \<open>Directory entries cross the domains only when their name fits. The shim answers exactly the entry
  of the file system when its name is not empty, not longer than the array of \<open>DirEntryWrapper\<close> and UTF-8;
  an entry with an empty name looks like the end of the directory; a longer name is a panic of the VFS domain.\<close>

theorem shim_readdir_outcome:
  assumes d: "bt_get (gf_map g) ino = Some d" and i: "d_inode (ge_ops E) d (gf_x g) = (Ok i, x)"
    and e: "i_readdir (ge_ops E) i k x = (Ok e, y)"
  shows "fst (shim_readdir H (generic_domain E) ino k g) = (case e of
      None \<Rightarrow> Ok None
    | Some f \<Rightarrow> if dn_name f = [] then Ok None
        else if length (dn_name f) \<le> length (dw_name (he_entry H)) \<and> he_utf8 H (dn_name f) then Ok (Some f) else panic)"
proof -
  have ops: "fd_readdir (generic_domain E) = gfs_readdir E" by (simp add: generic_domain_def)
  show ?thesis
    using i e by (cases e) (auto simp: shim_readdir_def ops gfs_readdir_def on_inode_run [OF d] act_simps
      shim_string_def slice_to_def copy_out_def splice_def min_def Let_def)
qed


theorem shim_readdir_outcome_witness:
  "fst (shim_readdir (one_domain []) (generic_domain ((one_file [])\<lparr>ge_ops := sample_dir [\<lparr> dn_name = [97, 98, 99, 100, 101], dn_ino = 3, dn_ty = 8 \<rparr>]\<rparr>))
     0 0 (one_table [])) = panic"
  using shim_readdir_outcome [OF one_table_get, where E = "(one_file [])\<lparr>ge_ops := sample_dir [\<lparr> dn_name = [97, 98, 99, 100, 101], dn_ino = 3, dn_ty = 8 \<rparr>]\<rparr>"
      and i = "()" and k = 0 and H = "one_domain []"]
  by (simp add: sample_dir_def mem_fs_def one_domain_def act_simps)

end
