(* ===== verification/DevFs.thy ===== *)
theory DevFs
  imports Shim BufDev
begin

text \<open>
  The device file system (\<open>fs/devfs\<close>): the files behind the device numbers, each a file of a device domain
  (\<open>block.rs\<close>, \<open>uart.rs\<close>, \<open>rtc.rs\<close>, \<open>gpu.rs\<close>, \<open>input.rs\<close>, \<open>empty_device.rs\<close>), and the domain that finds
  them (\<open>lib.rs\<close>, \<open>impl.rs\<close>). The device domains are the record \<open>dev_ops\<close> of their methods, by the name of
  the domain; the buffered UART of \<open>BufDev\<close> is put in for one of them below.
\<close>

section \<open>The device domains and the task domain\<close>

datatype tty_cmd =
    TCGETS | TCGETA | TCSETS | TCSETSW | TCSETSF | TIOCGPGRP | TIOCSPGRP | TIOCGWINSZ | TIOCSWINSZ | RTC_RD_TIME | TTY_OTHER

record ('tm, 'w) dev_ops =
  do_blk_read :: "u8 list \<Rightarrow> u64 \<Rightarrow> u8 list \<Rightarrow> ('w, u8 list) act"
  do_blk_write :: "u8 list \<Rightarrow> u64 \<Rightarrow> u8 list \<Rightarrow> ('w, nat) act"
  do_blk_capacity :: "u8 list \<Rightarrow> ('w, u64) act"
  do_getc :: "u8 list \<Rightarrow> ('w, u8 option progress) act"
  do_putc :: "u8 list \<Rightarrow> u8 \<Rightarrow> ('w, unit) act"
  do_put_bytes :: "u8 list \<Rightarrow> u8 list \<Rightarrow> ('w, nat) act"
  do_have_data :: "u8 list \<Rightarrow> ('w, bool) act"
  do_have_space :: "u8 list \<Rightarrow> ('w, bool) act"
  do_read_time :: "u8 list \<Rightarrow> ('w, 'tm) act"
  do_fill :: "u8 list \<Rightarrow> u32 \<Rightarrow> u8 list \<Rightarrow> ('w, nat) act"
  do_gpu_flush :: "u8 list \<Rightarrow> ('w, unit) act"
  do_event_block :: "u8 list \<Rightarrow> ('w, u64 progress) act"
  do_have_event :: "u8 list \<Rightarrow> ('w, bool) act"
  do_empty_read :: "u8 list \<Rightarrow> u8 list \<Rightarrow> ('w, u8 list) act"
  \<comment> \<open>the task domain\<close>
  do_copy_to_user :: "usize \<Rightarrow> u8 list \<Rightarrow> ('w, unit) act"
  do_copy_from_user :: "usize \<Rightarrow> nat \<Rightarrow> ('w, u8 list) act"
  do_read_u32 :: "usize \<Rightarrow> ('w, u32) act"
  do_write_u32 :: "usize \<Rightarrow> u32 \<Rightarrow> ('w, unit) act"
  do_current_pgid :: "('w, usize) act"
  \<comment> \<open>\<open>TeletypeCommand::try_from\<close>, the ECHO bit of a \<open>Termios\<close>, the texts and bytes of an \<open>RtcTime\<close>\<close>
  do_command :: "u32 \<Rightarrow> tty_cmd option"
  do_echo :: "u8 list \<Rightarrow> bool"
  do_time_text :: "'tm \<Rightarrow> u8 list"
  do_time_bytes :: "'tm \<Rightarrow> u8 list"

text \<open>What \<open>get_attr\<close> sets of a \<open>VfsFileStat\<close>; the other fields are 0.\<close>

record dev_stat =
  ds_rdev :: u64
  ds_size :: u64
  ds_blksize :: u32

definition rdev_stat :: "u64 \<Rightarrow> dev_stat" where
  "rdev_stat rdev = \<lparr> ds_rdev = rdev, ds_size = 0, ds_blksize = 0 \<rparr>"

section \<open>Block device\<close>

definition blk_read_at :: "('tm, 'w) dev_ops \<Rightarrow> u8 list \<Rightarrow> u64 \<Rightarrow> u8 list \<Rightarrow> ('w, u8 list \<times> nat) act" where
  "blk_read_at D n offset buf = bind (map_err EIO (do_blk_read D n offset buf)) (\<lambda>buf'. ret (buf', length buf))"

definition blk_write_at :: "('tm, 'w) dev_ops \<Rightarrow> u8 list \<Rightarrow> u64 \<Rightarrow> u8 list \<Rightarrow> ('w, nat) act" where
  "blk_write_at D n offset buf = bind (map_err EIO (do_blk_write D n offset buf)) (\<lambda>_. ret (length buf))"

definition blk_poll :: "16 word \<Rightarrow> ('w, 16 word) act" where
  "blk_poll event = abort"

definition blk_ioctl :: "u32 \<Rightarrow> usize \<Rightarrow> ('w, nat) act" where
  "blk_ioctl cmd arg = abort"

definition blk_flush :: "('w, unit) act" where
  "blk_flush = ret ()"

definition blk_fsync :: "('w, unit) act" where
  "blk_fsync = ret ()"

definition blk_get_attr :: "('tm, 'w) dev_ops \<Rightarrow> u8 list \<Rightarrow> u64 \<Rightarrow> ('w, dev_stat) act" where
  "blk_get_attr D n device_id =
     bind (must (do_blk_capacity D n)) (\<lambda>c. ret \<lparr> ds_rdev = device_id, ds_size = c, ds_blksize = 512 \<rparr>)"

section \<open>Terminal\<close>

text \<open>\<open>IoData\<close>, the window size and the modes being the bytes of their structs.\<close>

record io_data =
  io_foreground_pgid :: u32
  io_winsize :: "u8 list"
  io_termios :: "u8 list"

text \<open>The loop of \<open>read_at\<close>; \<open>acc\<close> are the characters in the buffer, \<open>room\<close> its length. A device may answer
  that it has no character; before the first one the loop then asks again, at most \<open>fuel\<close> times.\<close>

fun uart_loop :: "nat \<Rightarrow> ('tm, 'w) dev_ops \<Rightarrow> u8 list \<Rightarrow> bool \<Rightarrow> nat \<Rightarrow> u8 list \<Rightarrow> ('w, u8 list progress) act" where
  "uart_loop 0 D n echo_enabled room acc = ret Block"
| "uart_loop (Suc fuel) D n echo_enabled room acc =
     bind (if acc = [] then ret True else must (do_have_data D n)) (\<lambda>more.
     if \<not> more then finish acc
     else bindp (must (do_getc D n)) (\<lambda>ch. case ch of
       None \<Rightarrow> if acc \<noteq> [] then finish acc else uart_loop fuel D n echo_enabled room acc
     | Some ch \<Rightarrow>
         let is_newline = (ch = 13 \<or> ch = 10); out = (if ch = 13 then 10 else ch) in
         bind (if echo_enabled then must (do_putc D n out) else ret ()) (\<lambda>_.
         if is_newline \<or> length acc + 1 \<ge> room then finish (acc @ [out])
         else uart_loop fuel D n echo_enabled room (acc @ [out]))))"

definition uart_read_at :: "nat \<Rightarrow> ('tm, 'w) dev_ops \<Rightarrow> u8 list \<Rightarrow> io_data \<Rightarrow> u64 \<Rightarrow> u8 list \<Rightarrow> ('w, (u8 list \<times> nat) progress) act" where
  "uart_read_at fuel D n io offset buf =
     (if buf = [] then finish (buf, 0)
      else bindp (uart_loop fuel D n (do_echo D (io_termios io)) (length buf) []) (\<lambda>acc. finish (splice 0 acc buf, length acc)))"

definition uart_write_at :: "('tm, 'w) dev_ops \<Rightarrow> u8 list \<Rightarrow> u64 \<Rightarrow> u8 list \<Rightarrow> ('w, nat) act" where
  "uart_write_at D n offset buf = bind (must (do_put_bytes D n buf)) (\<lambda>_. ret (length buf))"

definition uart_poll :: "abi \<Rightarrow> ('tm, 'w) dev_ops \<Rightarrow> u8 list \<Rightarrow> 16 word \<Rightarrow> ('w, 16 word) act" where
  "uart_poll A D n event =
     bind (if contains event (VP_IN A) then must (do_have_data D n) else ret False) (\<lambda>has_in.
     bind (if contains event (VP_OUT A) then must (do_have_space D n) else ret False) (\<lambda>has_out.
     ret ((if has_in then VP_IN A else 0) OR (if has_out then VP_OUT A else 0))))"

text \<open>The file keeps its \<open>io\<close>; the result is the new one.\<close>

definition uart_ioctl :: "('tm, 'w) dev_ops \<Rightarrow> io_data \<Rightarrow> u32 \<Rightarrow> usize \<Rightarrow> ('w, nat \<times> io_data) act" where
  "uart_ioctl D io cmd arg =
     bind (lift (unwrap (do_command D cmd))) (\<lambda>cmd.
     if cmd = TCGETS \<or> cmd = TCGETA then bind (must (do_copy_to_user D arg (io_termios io))) (\<lambda>_. ret (0, io))
     else if cmd = TCSETS \<or> cmd = TCSETSW \<or> cmd = TCSETSF then
       bind (must (do_copy_from_user D arg (length (io_termios io)))) (\<lambda>buf. ret (0, io\<lparr>io_termios := buf\<rparr>))
     else if cmd = TIOCGPGRP then
       bind (if io_foreground_pgid io = 0
             then bind (attempt (do_current_pgid D)) (\<lambda>r. ret (case r of Inl _ \<Rightarrow> 0 | Inr pgid \<Rightarrow> ucast pgid))
             else ret (io_foreground_pgid io)) (\<lambda>pgid.
       bind (must (do_write_u32 D arg pgid)) (\<lambda>_. ret (0, io\<lparr>io_foreground_pgid := pgid\<rparr>)))
     else if cmd = TIOCSPGRP then bind (must (do_read_u32 D arg)) (\<lambda>word. ret (0, io\<lparr>io_foreground_pgid := word\<rparr>))
     else if cmd = TIOCGWINSZ then bind (must (do_copy_to_user D arg (io_winsize io))) (\<lambda>_. ret (0, io))
     else if cmd = TIOCSWINSZ then
       bind (must (do_copy_from_user D arg (length (io_winsize io)))) (\<lambda>buf. ret (0, io\<lparr>io_winsize := buf\<rparr>))
     else abort)"

section \<open>Clock, display, input and the empty device\<close>

definition rtc_read_at :: "('tm, 'w) dev_ops \<Rightarrow> u8 list \<Rightarrow> u64 \<Rightarrow> u8 list \<Rightarrow> ('w, u8 list \<times> nat) act" where
  "rtc_read_at D n offset buf =
     bind (must (do_read_time D n)) (\<lambda>time. ret (copy_out (do_time_text D time) buf))"

definition rtc_write_at :: "u64 \<Rightarrow> u8 list \<Rightarrow> ('w, nat) act" where
  "rtc_write_at offset buf = abort"

definition rtc_ioctl :: "('tm, 'w) dev_ops \<Rightarrow> u8 list \<Rightarrow> u32 \<Rightarrow> usize \<Rightarrow> ('w, nat) act" where
  "rtc_ioctl D n cmd arg =
     bind (lift (ok_or (do_command D cmd) EINVAL)) (\<lambda>cmd.
     if cmd = RTC_RD_TIME then
       bind (must (do_read_time D n)) (\<lambda>time. bind (must (do_copy_to_user D arg (do_time_bytes D time))) (\<lambda>_. ret 0))
     else fail EINVAL)"

definition gpu_read_at :: "u64 \<Rightarrow> u8 list \<Rightarrow> ('w, u8 list \<times> nat) act" where
  "gpu_read_at offset buf = fail EINVAL"

definition gpu_write_at :: "('tm, 'w) dev_ops \<Rightarrow> u8 list \<Rightarrow> u64 \<Rightarrow> u8 list \<Rightarrow> ('w, nat) act" where
  "gpu_write_at D n offset buf = must (do_fill D n (ucast offset) buf)"

definition gpu_flush :: "('tm, 'w) dev_ops \<Rightarrow> u8 list \<Rightarrow> ('w, unit) act" where
  "gpu_flush D n = must (do_gpu_flush D n)"

definition gpu_fsync :: "('tm, 'w) dev_ops \<Rightarrow> u8 list \<Rightarrow> ('w, unit) act" where
  "gpu_fsync D n = gpu_flush D n"

definition to_be_bytes :: "u64 \<Rightarrow> u8 list" where
  "to_be_bytes v = rev (to_ne_bytes v)"

definition input_read_at :: "('tm, 'w) dev_ops \<Rightarrow> u8 list \<Rightarrow> u64 \<Rightarrow> u8 list \<Rightarrow> ('w, (u8 list \<times> nat) progress) act" where
  "input_read_at D n offset buf =
     (if length buf \<noteq> 8 then fail EINVAL
      else bindp (must (do_event_block D n)) (\<lambda>event. finish (to_be_bytes event, 1)))"

definition input_write_at :: "u64 \<Rightarrow> u8 list \<Rightarrow> ('w, nat) act" where
  "input_write_at offset buf = fail EINVAL"

definition input_poll :: "abi \<Rightarrow> ('tm, 'w) dev_ops \<Rightarrow> u8 list \<Rightarrow> 16 word \<Rightarrow> ('w, 16 word) act" where
  "input_poll A D n event =
     bind (if contains event (VP_IN A) then must (do_have_event D n) else ret False) (\<lambda>has_in.
     ret (if has_in then VP_IN A else 0))"

definition empty_read_at :: "('tm, 'w) dev_ops \<Rightarrow> u8 list \<Rightarrow> u64 \<Rightarrow> u8 list \<Rightarrow> ('w, u8 list \<times> nat) act" where
  "empty_read_at D n offset buf = bind (do_empty_read D n buf) (\<lambda>shared_buf. ret (shared_buf, length shared_buf))"

definition empty_write_at :: "u64 \<Rightarrow> u8 list \<Rightarrow> ('w, nat) act" where
  "empty_write_at offset buf = ret (length buf)"

section \<open>The domain\<close>

datatype dev_kind = BLKDevice | UARTDevice | RTCDevice | GPUDevice | INPUTDevice | EmptyDevice

text \<open>A device file: its number, its kind and domain, and the state of a terminal.\<close>

record dev_file =
  dv_rdev :: u64
  dv_kind :: dev_kind
  dv_domain :: "u8 list"
  dv_io :: io_data

text \<open>The statics: \<open>DEV_MAP\<close>, \<open>DEV_INODE_MAP\<close> (files are shared; they are named by their position in
  \<open>ds_files\<close>) and whether \<open>TASK_DOMAIN\<close> is set; and \<open>get_domain\<close>, which knows the kind of a domain.\<close>

record devs =
  dm_names :: "(u64, u8 list) btree"
  dm_inodes :: "(u64, nat) btree"
  dm_files :: "dev_file list"
  dm_task :: bool

definition devs_new :: devs where
  "devs_new = \<lparr> dm_names = bt_empty, dm_inodes = bt_empty, dm_files = [], dm_task = False \<rparr>"

text \<open>\<open>get_domain\<close> answers nothing, a device domain, or a domain of another kind.\<close>

definition rdev2device :: "(u8 list \<Rightarrow> dev_kind option option) \<Rightarrow> io_data \<Rightarrow> u64 \<Rightarrow> (devs, nat option) act" where
  "rdev2device get_domain io rdev = bind get_state (\<lambda>s. case bt_get (dm_inodes s) rdev of
       Some inode \<Rightarrow> ret (Some inode)
     | None \<Rightarrow> (case bt_get (dm_names s) rdev of
         None \<Rightarrow> ret None
       | Some device_domain_name \<Rightarrow> (case get_domain device_domain_name of
           None \<Rightarrow> ret None
         | Some None \<Rightarrow> ret None
         | Some (Some kind) \<Rightarrow>
             bind (assert_that (kind = UARTDevice \<or> kind = RTCDevice \<longrightarrow> dm_task s)) (\<lambda>_.
             bind (modify_state (\<lambda>s. s\<lparr>
               dm_files := dm_files s @ [\<lparr> dv_rdev = rdev, dv_kind = kind, dv_domain = device_domain_name, dv_io = io \<rparr>],
               dm_inodes := bt_insert rdev (length (dm_files s)) (dm_inodes s)\<rparr>)) (\<lambda>_.
             ret (Some (length (dm_files s))))))))"

definition devfs_register :: "(u8 list \<Rightarrow> bool) \<Rightarrow> u64 \<Rightarrow> u8 list \<Rightarrow> (devs, unit) act" where
  "devfs_register valid rdev device_domain_name =
     bind (assert_that (valid device_domain_name)) (\<lambda>_.
     modify_state (\<lambda>s. s\<lparr>dm_names := bt_insert rdev device_domain_name (dm_names s)\<rparr>))"

text \<open>\<open>init\<close> remembers the task domain; the other methods of the trait are those of the file system domain.\<close>

definition devfs_init :: "bool \<Rightarrow> ('d, 'i, 'st, 'at, 'x) gfs_env \<Rightarrow> (devs \<times> ('d, 'x) gfs, unit) act" where
  "devfs_init task_found E =
     bind (assert_that task_found) (\<lambda>_.
     bind (modify_state (\<lambda>(v, g). (v\<lparr>dm_task := True\<rparr>, g))) (\<lambda>_.
     zoom snd (\<lambda>g (v, _). (v, g)) (gfs_init E)))"

definition devfs_domain :: "('d, 'i, 'st, 'at, 'x) gfs_env \<Rightarrow> ('st, 'at, ('d, 'x) gfs) fs_domain" where
  "devfs_domain E = generic_domain E"

section \<open>A device number names one file\<close>

lemma device_sticky:
  assumes "bt_get (dm_inodes s) rdev = Some i"
  shows "rdev2device get_domain io rdev s = (Ok (Some i), s)"
    and "bt_get (dm_inodes (snd (devfs_register valid rdev' name s))) rdev = Some i"
    and "bt_get (dm_inodes (snd (rdev2device get_domain io rdev' s))) rdev = Some i"
  using assms by (auto simp: rdev2device_def devfs_register_def act_simps split: option.splits)


section \<open>A terminal over the buffered UART\<close>

text \<open>The device domain of a terminal is the one of \<open>BufDev\<close>.\<close>

definition over_buf_uart :: "'w wait_ops \<Rightarrow> 'w uart_ops \<Rightarrow> ('tm, 'w buf_uart) dev_ops \<Rightarrow> ('tm, 'w buf_uart) dev_ops" where
  "over_buf_uart K U D = D\<lparr> do_getc := (\<lambda>n. bu_getc K), do_putc := (\<lambda>n. bu_putc U), do_put_bytes := (\<lambda>n. bu_put_bytes U),
     do_have_data := (\<lambda>n. bu_have_data_to_get), do_have_space := (\<lambda>n. bu_have_space_to_put) \<rparr>"

text \<open>The characters that one read of \<open>n\<close> bytes takes, as they came in, and how the reader sees them.\<close>

definition typed_line :: "nat \<Rightarrow> u8 list \<Rightarrow> u8 list" where
  "typed_line n cs = take n (take (Suc (length (takeWhile (\<lambda>c. c \<noteq> 13 \<and> c \<noteq> 10) cs))) cs)"

definition cr_to_nl :: "u8 \<Rightarrow> u8" where
  "cr_to_nl c = (if c = 13 then 10 else c)"

lemma typed_line_Cons:
  "0 < n \<Longrightarrow> typed_line n (c # cs) = c # (if c = 13 \<or> c = 10 then [] else typed_line (n - 1) cs)"
  by (cases n) (auto simp: typed_line_def)

definition echo_law :: "'w uart_ops \<Rightarrow> ('w \<Rightarrow> u8 list) \<Rightarrow> bool" where
  "echo_law U shown \<longleftrightarrow> (\<forall>c w. \<exists>w'. ut_putc U c w = (Ok (), w') \<and> shown w' = shown w @ [c])"

text \<open>One step of the loop that takes a character.\<close>

lemma uart_step:
  assumes "echo_law U shown" "bu_rx s = c # cs"
  obtains w where "shown w = shown (bu_world s) @ (if echo then [cr_to_nl c] else [])"
    "uart_loop (Suc fuel) (over_buf_uart K U D) n echo room acc s =
       (if (c = 13 \<or> c = 10) \<or> length acc + 1 \<ge> room then finish (acc @ [cr_to_nl c])
        else uart_loop fuel (over_buf_uart K U D) n echo room (acc @ [cr_to_nl c])) (s\<lparr>bu_rx := cs, bu_world := w\<rparr>)"
proof (cases echo)
  case False
  show ?thesis
    by (rule that [of "bu_world s"]) (use False assms(2) in \<open>simp_all add: over_buf_uart_def bu_have_data_to_get_def
      bu_getc_def bindp_def act_simps cr_to_nl_def Let_def\<close>)
next
  case True
  obtain w where w: "ut_putc U (cr_to_nl c) (bu_world s) = (Ok (), w)" "shown w = shown (bu_world s) @ [cr_to_nl c]"
    using assms(1) unfolding echo_law_def by blast
  show ?thesis
    by (rule that [of w]) (use True assms(2) w in \<open>auto simp: over_buf_uart_def bu_have_data_to_get_def
      bu_getc_def bu_putc_def bindp_def act_simps cr_to_nl_def [symmetric] Let_def\<close>)
qed

lemma uart_loop_line:
  assumes "echo_law U shown" "bu_rx s = cs" "cs \<noteq> [] \<or> acc \<noteq> []" "length acc < room" "room - length acc \<le> fuel" "0 < fuel"
  shows "\<exists>t. uart_loop fuel (over_buf_uart K U D) n echo room acc s
      = (Ok (Done (acc @ map cr_to_nl (typed_line (room - length acc) cs))), t)
    \<and> bu_rx t = drop (length (typed_line (room - length acc) cs)) cs \<and> bu_wait t = bu_wait s
    \<and> shown (bu_world t) = shown (bu_world s) @ (if echo then map cr_to_nl (typed_line (room - length acc) cs) else [])"
  using assms(2-)
proof (induction fuel arbitrary: s cs acc)
  case (Suc fuel)
  show ?case
  proof (cases cs)
    case Nil
    then show ?thesis using Suc.prems by (simp add: over_buf_uart_def bu_have_data_to_get_def act_simps typed_line_def)
  next
    case (Cons c ds)
    obtain w where w: "shown w = shown (bu_world s) @ (if echo then [cr_to_nl c] else [])"
      "uart_loop (Suc fuel) (over_buf_uart K U D) n echo room acc s =
         (if (c = 13 \<or> c = 10) \<or> length acc + 1 \<ge> room then finish (acc @ [cr_to_nl c])
          else uart_loop fuel (over_buf_uart K U D) n echo room (acc @ [cr_to_nl c])) (s\<lparr>bu_rx := ds, bu_world := w\<rparr>)"
      using uart_step [OF assms(1)] Suc.prems(1) Cons by blast
    have line: "typed_line (room - length acc) cs = c # (if c = 13 \<or> c = 10 then [] else typed_line (room - Suc (length acc)) ds)"
      using Suc.prems(3) unfolding Cons by (simp add: typed_line_Cons)
    show ?thesis
    proof (cases "(c = 13 \<or> c = 10) \<or> length acc + 1 \<ge> room")
      case True
      then have "typed_line (room - length acc) cs = [c]" unfolding line by (auto simp: typed_line_def)
      then show ?thesis using w True Cons by (cases echo) (simp_all add: act_simps del: uart_loop.simps)
    next
      case False
      then have "\<exists>t. uart_loop fuel (over_buf_uart K U D) n echo room (acc @ [cr_to_nl c]) (s\<lparr>bu_rx := ds, bu_world := w\<rparr>)
          = (Ok (Done ((acc @ [cr_to_nl c]) @ map cr_to_nl (typed_line (room - length (acc @ [cr_to_nl c])) ds))), t)
        \<and> bu_rx t = drop (length (typed_line (room - length (acc @ [cr_to_nl c])) ds)) ds
        \<and> bu_wait t = bu_wait (s\<lparr>bu_rx := ds, bu_world := w\<rparr>)
        \<and> shown (bu_world t) = shown (bu_world (s\<lparr>bu_rx := ds, bu_world := w\<rparr>))
            @ (if echo then map cr_to_nl (typed_line (room - length (acc @ [cr_to_nl c])) ds) else [])"
        using Suc.prems by (intro Suc.IH) auto
      then show ?thesis using w False line Cons by (cases echo) (simp_all del: uart_loop.simps)
    qed
  qed
qed simp

text \<open>C33: reading a terminal is reading lines. Over the buffered UART a read with a buffer of \<open>n\<close> bytes
  takes, of the characters that have arrived, those up to the first end of line, at most \<open>n\<close>; it delivers them in order with
  carriage returns turned into line feeds, shows exactly them on the terminal when echo is on, and leaves the rest for the
  next read. It does not wait when there is a character; when there is none the task is queued once and sleeps.\<close>

theorem uart_reads_lines:
  assumes "echo_law U shown" "buf \<noteq> []" "length buf \<le> fuel"
    and line: "ln = typed_line (length buf) (bu_rx s)"
  shows "(bu_rx s \<noteq> [] \<longrightarrow> (\<exists>t. uart_read_at fuel (over_buf_uart K U D) n io off buf s
        = (Ok (Done (splice 0 (map cr_to_nl ln) buf, length ln)), t)
      \<and> bu_rx s = ln @ bu_rx t \<and> bu_wait t = bu_wait s
      \<and> shown (bu_world t) = shown (bu_world s) @ (if do_echo D (io_termios io) then map cr_to_nl ln else [])))
    \<and> (bu_rx s = [] \<and> wk_current_tid K (bu_world s) = (Ok (Some tid), w) \<and> wk_wait K w = (Ok (), w') \<longrightarrow>
      uart_read_at fuel (over_buf_uart K U D) n io off buf s
        = (Ok Block, s\<lparr>bu_wait := (if tid \<in> set (bu_wait s) then bu_wait s else bu_wait s @ [tid]), bu_world := w'\<rparr>))"
proof -
  have f: "0 < fuel" "0 < length buf" using assms(2,3) by (cases buf; auto)+
  have d: "do_echo (over_buf_uart K U D) = do_echo D" by (simp add: over_buf_uart_def)
  have "bu_rx s = ln @ drop (length ln) (bu_rx s)" by (simp add: line typed_line_def min_def)
  moreover have "\<exists>t. uart_loop fuel (over_buf_uart K U D) n (do_echo D (io_termios io)) (length buf) [] s
        = (Ok (Done (map cr_to_nl ln)), t) \<and> bu_rx t = drop (length ln) (bu_rx s) \<and> bu_wait t = bu_wait s
      \<and> shown (bu_world t) = shown (bu_world s) @ (if do_echo D (io_termios io) then map cr_to_nl ln else [])" if "bu_rx s \<noteq> []"
    using uart_loop_line [OF assms(1) refl, of s "[]" "length buf" fuel K D n "do_echo D (io_termios io)"] that f assms(3)
    by (simp only: line list.size diff_zero append_Nil simp_thms)
  moreover have "uart_loop fuel (over_buf_uart K U D) n (do_echo D (io_termios io)) (length buf) [] s
        = (Ok Block, s\<lparr>bu_wait := (if tid \<in> set (bu_wait s) then bu_wait s else bu_wait s @ [tid]), bu_world := w'\<rparr>)"
    if "bu_rx s = [] \<and> wk_current_tid K (bu_world s) = (Ok (Some tid), w) \<and> wk_wait K w = (Ok (), w')"
    using that f(1) by (cases fuel) (simp_all add: over_buf_uart_def bu_getc_def bindp_def act_simps)
  ultimately show ?thesis
    using assms(2) by (auto simp: uart_read_at_def bindp_def act_simps d simp del: uart_loop.simps(2))
qed


text \<open>A UART that records what it shows, and an empty device system around it.\<close>

definition show_uart :: "u8 list uart_ops" where
  "show_uart = \<lparr> ut_getc = ret None, ut_putc = (\<lambda>c w. (Ok (), w @ [c])), ut_put_bytes = (\<lambda>bs w. (Ok (length bs), w @ bs)),
     ut_enable_receive_interrupt = ret () \<rparr>"

definition show_wait :: "u8 list wait_ops" where
  "show_wait = \<lparr> wk_current_tid = ret (Some 1), wk_wake = (\<lambda>t. ret ()), wk_wait = ret () \<rparr>"

definition no_devices :: "(unit, 'w) dev_ops" where
  "no_devices = \<lparr> do_blk_read = (\<lambda>n k b. ret b), do_blk_write = (\<lambda>n k b. ret 0), do_blk_capacity = (\<lambda>n. ret 0),
     do_getc = (\<lambda>n. ret Block), do_putc = (\<lambda>n c. ret ()), do_put_bytes = (\<lambda>n b. ret 0), do_have_data = (\<lambda>n. ret False),
     do_have_space = (\<lambda>n. ret True), do_read_time = (\<lambda>n. ret ()), do_fill = (\<lambda>n k b. ret 0), do_gpu_flush = (\<lambda>n. ret ()),
     do_event_block = (\<lambda>n. ret Block), do_have_event = (\<lambda>n. ret False), do_empty_read = (\<lambda>n b. ret b),
     do_copy_to_user = (\<lambda>a b. ret ()), do_copy_from_user = (\<lambda>a n. ret (replicate n 0)), do_read_u32 = (\<lambda>a. ret 0),
     do_write_u32 = (\<lambda>a v. ret ()), do_current_pgid = ret 1, do_command = (\<lambda>c. None), do_echo = (\<lambda>t. True),
     do_time_text = (\<lambda>t. []), do_time_bytes = (\<lambda>t. []) \<rparr>"

theorem uart_reads_lines_witness:
  "\<exists>t. uart_read_at 4 (over_buf_uart show_wait show_uart no_devices) [] \<lparr> io_foreground_pgid = 0, io_winsize = [], io_termios = [] \<rparr> 0
      (replicate 4 0) \<lparr> bu_rx = [104, 105, 13, 120], bu_wait = [], bu_world = [] \<rparr> = (Ok (Done ([104, 105, 10, 0], 3)), t)
    \<and> bu_rx t = [120] \<and> bu_world t = [104, 105, 10]"
proof -
  have "echo_law show_uart (\<lambda>w. w)" by (simp add: echo_law_def show_uart_def)
  from uart_reads_lines [OF this, of "replicate 4 0" 4 "[104, 105, 13]" "\<lparr> bu_rx = [104, 105, 13, 120], bu_wait = [], bu_world = [] \<rparr>"
      show_wait no_devices "[]" "\<lparr> io_foreground_pgid = 0, io_winsize = [], io_termios = [] \<rparr>" 0 1 "[]" "[]"]
  show ?thesis
    by (auto simp: typed_line_def no_devices_def cr_to_nl_def splice_def simp del: uart_loop.simps)
qed

end
