(* ===== verification/VfsInit.thy ===== *)
theory VfsInit
  imports Vfs ProcFs DevFs
begin

text \<open>
  Starting the VFS domain (\<open>common/vfs/vfs/src/tree.rs\<close>, \<open>ramfs/mod.rs\<close>, \<open>procfs/mod.rs\<close>, \<open>devfs/mod.rs\<close>,
  \<open>initrd.rs\<close>, and \<open>common_lib/vfs_common/src/id.rs\<close>): the file system domains are mounted, the root is
  filled, every device gets a number and a node in \<open>/dev\<close>, and the first files are opened.
\<close>

section \<open>What the start-up calls\<close>

datatype vnode = NodeDir | NodeFile | NodeChar | NodeBlock

record cpio_entry =
  ce_name :: "u8 list"
  ce_mode :: u32
  ce_file :: "u8 list"

record ('d, 'i, 'p, 'x) boot_env =
  b_get_domain :: "u8 list \<Rightarrow> ('x, domain_type option) act"
  b_create_domain :: "u8 list \<Rightarrow> ('x, domain_type \<times> u8 list) act"   \<comment> \<open>with the buffer of 32 bytes for the name\<close>
  b_mount :: "u8 list \<Rightarrow> u8 list \<Rightarrow> (u8 list \<times> u64) option \<Rightarrow> ('x, u64) act"
  b_root_inode_id :: "u8 list \<Rightarrow> ('x, u64) act"
  b_shim :: "u8 list \<Rightarrow> u64 \<Rightarrow> ('x, 'd) act"              \<comment> \<open>\<open>RootShimDentry::new\<close>\<close>
  b_shim_of :: "'d \<Rightarrow> (u8 list \<times> u64) option"           \<comment> \<open>\<open>downcast_arc::<RootShimDentry>\<close>\<close>
  b_register :: "u64 \<Rightarrow> u8 list \<Rightarrow> ('x, unit) act"       \<comment> \<open>of the domain \<open>devfs\<close>\<close>
  b_alloc_device_id :: "vnode \<Rightarrow> ('x, u64) act"
  b_create :: "'i \<Rightarrow> u8 list \<Rightarrow> vnode \<Rightarrow> string \<Rightarrow> u64 option \<Rightarrow> ('x, 'i) act"
  b_find :: "'d \<Rightarrow> u8 list \<Rightarrow> ('x, 'd option) act"
  b_path_mount :: "'p \<Rightarrow> 'd \<Rightarrow> ('x, unit) act"
  b_print_fs_tree :: "'d \<Rightarrow> ('x, unit) act"
  b_entries :: "u8 list \<Rightarrow> cpio_entry list option"       \<comment> \<open>\<open>gzip\<close> and \<open>cpio_reader\<close>\<close>
  b_symbolic_link :: "u32 \<Rightarrow> bool"
  b_regular_file :: "u32 \<Rightarrow> bool"
  \<comment> \<open>\<open>VFS_ROOT_ID\<close>, \<open>VFS_STDIN_ID\<close>, \<open>VFS_STDOUT_ID\<close>, \<open>VFS_STDERR_ID\<close>\<close>
  b_root_id :: u64
  b_stdin_id :: u64
  b_stdout_id :: u64
  b_stderr_id :: u64

section \<open>Device numbers\<close>

definition vnode_to_u32 :: "vnode \<Rightarrow> u32" where
  "vnode_to_u32 t = (case t of NodeChar \<Rightarrow> 2 | NodeBlock \<Rightarrow> 3 | _ \<Rightarrow> 0)"

text \<open>\<open>DeviceIdManager::alloc\<close>; \<open>DeviceId::new\<close> makes one number of the major and the minor one.\<close>

definition device_id_alloc :: "(u32 \<Rightarrow> u32 \<Rightarrow> u64) \<Rightarrow> vnode \<Rightarrow> ((u32, u32) btree, u64) act" where
  "device_id_alloc device_id inode_type =
     bind (assert_that (inode_type = NodeChar \<or> inode_type = NodeBlock)) (\<lambda>_. bind get_state (\<lambda>m.
     let n = (case bt_get m (vnode_to_u32 inode_type) of None \<Rightarrow> 0 | Some n \<Rightarrow> n) + 1 in
     bind (modify_state (bt_insert (vnode_to_u32 inode_type) n)) (\<lambda>_. ret (device_id (vnode_to_u32 inode_type) n))))"

section \<open>The device nodes\<close>

text \<open>A number for a device, registered under the name of its domain, and a node with that number.\<close>

definition add_device :: "('d, 'i, 'p, 'x) boot_env \<Rightarrow> 'i \<Rightarrow> u8 list \<Rightarrow> vnode \<Rightarrow> u8 list \<Rightarrow> ('x, unit) act" where
  "add_device B root node ty domain_name =
     bind (b_alloc_device_id B ty) (\<lambda>dev_id.
     bind (must (b_register B dev_id domain_name)) (\<lambda>_.
     bind (must (b_create B root node ty ''rw-rw----'' (Some dev_id))) (\<lambda>_. ret ())))"

text \<open>The first of the names whose domain is of one of the kinds.\<close>

fun find_domain_of :: "('d, 'i, 'p, 'x) boot_env \<Rightarrow> domain_type list \<Rightarrow> u8 list list \<Rightarrow> ('x, u8 list option) act" where
  "find_domain_of B kinds [] = ret None"
| "find_domain_of B kinds (name # names) =
     bind (b_get_domain B name) (\<lambda>d. case d of
       Some k \<Rightarrow> if k \<in> set kinds then ret (Some name) else find_domain_of B kinds names
     | None \<Rightarrow> find_domain_of B kinds names)"

definition find_domain_name :: "('d, 'i, 'p, 'x) boot_env \<Rightarrow> u8 list list \<Rightarrow> ('x, u8 list option) act" where
  "find_domain_name B candidates = find_domain_of B [GpuDomain, BufInputDomain] candidates"

definition find_rtc_domain_name :: "('d, 'i, 'p, 'x) boot_env \<Rightarrow> u8 list list \<Rightarrow> ('x, u8 list option) act" where
  "find_rtc_domain_name B candidates = find_domain_of B [RtcDomain] candidates"

definition add_found :: "('d, 'i, 'p, 'x) boot_env \<Rightarrow> 'i \<Rightarrow> u8 list \<Rightarrow> u8 list option \<Rightarrow> ('x, unit) act" where
  "add_found B root node found = (case found of None \<Rightarrow> ret () | Some name \<Rightarrow> add_device B root node NodeChar name)"

definition scan_system_devices :: "('d, 'i, 'p, 'x) boot_env \<Rightarrow> ('d \<Rightarrow> ('x, 'i) act) \<Rightarrow> 'd \<Rightarrow> ('x, unit) act" where
  "scan_system_devices B inode root_dt =
     bind (must (inode root_dt)) (\<lambda>root.
     bind (b_get_domain B (bytes_of ''buf_uart'')) (\<lambda>uart.
     bind (find_domain_name B [bytes_of ''gpu'', bytes_of ''gpu-1'', bytes_of ''virtio_gpu-1'', bytes_of ''virtio_gpu'']) (\<lambda>gpu.
     bind (find_domain_name B [bytes_of ''mouse'', bytes_of ''buf_input-2'', bytes_of ''buf_input-1'']) (\<lambda>mouse.
     bind (find_domain_name B [bytes_of ''keyboard'', bytes_of ''buf_input-1'', bytes_of ''buf_input-2'']) (\<lambda>keyboard.
     bind (b_get_domain B (bytes_of ''cache_blk-1'')) (\<lambda>blk.
     bind (find_rtc_domain_name B [bytes_of ''rtc'', bytes_of ''goldfish'']) (\<lambda>rtc.
     bind (if uart \<noteq> None then add_device B root (bytes_of ''tty'') NodeChar (bytes_of ''buf_uart'') else abort) (\<lambda>_.
     bind (add_found B root (bytes_of ''gpu'') gpu) (\<lambda>_.
     bind (add_found B root (bytes_of ''mouse'') mouse) (\<lambda>_.
     bind (add_found B root (bytes_of ''keyboard'') keyboard) (\<lambda>_.
     bind (if blk \<noteq> None then add_device B root (bytes_of ''sda'') NodeBlock (bytes_of ''cache_blk-1'') else abort) (\<lambda>_.
     add_found B root (bytes_of ''rtc'') rtc))))))))))))"

definition init_devfs :: "('d, 'i, 'p, 'x) boot_env \<Rightarrow> ('d \<Rightarrow> ('x, 'i) act) \<Rightarrow> 'd \<Rightarrow> ('x, unit) act" where
  "init_devfs B inode root_dt =
     bind (must (inode root_dt)) (\<lambda>root_inode.
     bind (b_alloc_device_id B NodeChar) (\<lambda>null_device_id.
     bind (b_alloc_device_id B NodeChar) (\<lambda>random_device_id.
     bind (must (b_register B null_device_id (bytes_of ''null''))) (\<lambda>_.
     bind (must (b_register B random_device_id (bytes_of ''random''))) (\<lambda>_.
     bind (must (b_create B root_inode (bytes_of ''null'') NodeChar ''rw-rw-rw-'' (Some null_device_id))) (\<lambda>_.
     bind (must (b_create B root_inode (bytes_of ''zero'') NodeChar ''rw-rw-rw-'' (Some null_device_id))) (\<lambda>_.
     bind (must (b_create B root_inode (bytes_of ''random'') NodeChar ''rw-rw-rw-'' (Some random_device_id))) (\<lambda>_.
     bind (must (b_create B root_inode (bytes_of ''urandom'') NodeChar ''rw-rw-rw-'' (Some random_device_id))) (\<lambda>_.
     bind (must (b_create B root_inode (bytes_of ''shm'') NodeDir ''rwxrwxrwx'' None)) (\<lambda>_.
     bind (must (b_create B root_inode (bytes_of ''misc'') NodeDir ''rwxrwxrwx'' None)) (\<lambda>_.
     scan_system_devices B inode root_dt)))))))))))"

section \<open>The root\<close>

definition utc_data :: "u8 list" where
  "utc_data = [84, 90, 105, 102, 50, 0, 0, 0, 0, 0, 0, 0, 0, 0, 0, 0, 0, 0, 0, 0, 0, 0, 0, 1, 0, 0, 0, 1, 0, 0, 0, 0, 0, 0,
     0, 0, 0, 0, 0, 1, 0, 0, 0, 4, 0, 0, 0, 0, 0, 0, 85, 84, 67, 0, 0, 0, 84, 90, 105, 102, 50, 0, 0, 0, 0, 0, 0,
     0, 0, 0, 0, 0, 0, 0, 0, 0, 0, 0, 0, 1, 0, 0, 0, 1, 0, 0, 0, 0, 0, 0, 0, 0, 0, 0, 0, 1, 0, 0, 0, 4, 0, 0, 0, 0,
     0, 0, 85, 84, 67, 0, 0, 0, 10, 85, 84, 67, 48, 10]"

definition rtc_time_data :: "u8 list" where
  "rtc_time_data = concat (map (\<lambda>(k, tabs, v). 10 # bytes_of k @ replicate tabs 9 @ bytes_of v)
    [(''rtc_time'', 1, '': 03:01:50''),
     (''rtc_date'', 1, '': 2023-07-11''),
     (''alrm_time'', 1, '': 13:03:24''),
     (''alrm_date'', 1, '': 2023-07-11''),
     (''alarm_IRQ'', 1, '': no''),
     (''alrm_pending'', 1, '': no''),
     (''update IRQ enabled'', 1, '': no''),
     (''periodic IRQ enabled'', 1, '': no''),
     (''periodic IRQ frequency'', 1, '': 1024''),
     (''max user IRQ frequency'', 1, '': 64''),
     (''24hr'', 2, '': yes''),
     (''periodic_IRQ'', 1, '': no''),
     (''update_IRQ'', 1, '': no''),
     (''HPET_emulated'', 1, '': no''),
     (''BCD'', 2, '': yes''),
     (''DST_enable'', 1, '': no''),
     (''periodic_freq'', 1, '': 1024''),
     (''batt_status'', 1, '': okay'')])"

definition init_ramfs :: "('d, 'i, 'p, 'x) boot_env \<Rightarrow> ('d, 'i, 'st, 'x) fs_ops \<Rightarrow> 'd \<Rightarrow> ('x, unit) act" where
  "init_ramfs B F root_dt =
     bind (d_inode F root_dt) (\<lambda>root_inode.
     bind (b_create B root_inode (bytes_of ''root'') NodeDir ''rwxr-xr-x'' None) (\<lambda>root.
     bind (b_create B root_inode (bytes_of ''var'') NodeDir ''rwxr-xr-x'' None) (\<lambda>var.
     bind (b_create B var (bytes_of ''log'') NodeDir ''rwxrwxr-x'' None) (\<lambda>_.
     bind (b_create B var (bytes_of ''tmp'') NodeDir ''rwxrwxrwx'' None) (\<lambda>_.
     bind (b_create B var (bytes_of ''run'') NodeDir ''rwxrwxrwx'' None) (\<lambda>_.
     bind (b_create B root_inode (bytes_of ''etc'') NodeDir ''rwxr-xr-x'' None) (\<lambda>etc.
     bind (b_create B etc (bytes_of ''passwd'') NodeFile ''rw-r--r--'' None) (\<lambda>passwd.
     bind (b_create B etc (bytes_of ''localtime'') NodeFile ''rw-r--r--'' None) (\<lambda>localtime.
     bind (b_create B etc (bytes_of ''adjtime'') NodeFile ''rw-r--r--'' None) (\<lambda>adjtime.
     bind (i_write_at F passwd 0 (bytes_of ''root:x:0:0:root:/root:/bin/bash'' @ [10])) (\<lambda>_.
     bind (i_write_at F localtime 0 utc_data) (\<lambda>_.
     bind (i_write_at F adjtime 0 rtc_time_data) (\<lambda>_.
     bind (b_create B root_inode (bytes_of ''dev'') NodeDir ''rwxr-xr-x'' None) (\<lambda>_.
     bind (b_create B root_inode (bytes_of ''proc'') NodeDir ''rwxr-xr-x'' None) (\<lambda>_.
     bind (b_create B root_inode (bytes_of ''sys'') NodeDir ''rwxr-xr-x'' None) (\<lambda>_.
     bind (b_create B root_inode (bytes_of ''tmp'') NodeDir ''rwxrwxrwx'' None) (\<lambda>_.
     bind (b_create B root_inode (bytes_of ''tests'') NodeDir ''rwxr-xr-x'' None) (\<lambda>_.
     bind (b_create B root_inode (bytes_of ''domain'') NodeDir ''rwxr-xr-x'' None) (\<lambda>_.
     bind (b_create B root (bytes_of ''.bashrc'') NodeFile ''rwxrwxrwx'' None) (\<lambda>_. ret ()))))))))))))))))))))"

section \<open>The initial ramdisk\<close>

definition join_then :: "('d, 'i, 'st, 'p, 'x, 'n) venv \<Rightarrow> 'd \<Rightarrow> u8 list \<Rightarrow> ('p \<Rightarrow> ('x, 'a) act) \<Rightarrow> ('x, 'a) act" where
  "join_then E root path f = bind (p_join E root root path) f"

definition is_cmd_path :: "u8 list \<Rightarrow> bool" where
  "is_cmd_path name = list_ex (\<lambda>p. take (length p) name = p)
     [bytes_of ''bin/'', bytes_of ''sbin/'', bytes_of ''usr/bin/'', bytes_of ''usr/sbin/'']"

fun unpack_entries :: "('d, 'i, 'p, 'x) boot_env \<Rightarrow> ('d, 'i, 'st, 'p, 'x, 'n) venv \<Rightarrow> 'd \<Rightarrow> cpio_entry list \<Rightarrow> ('x, unit) act" where
  "unpack_entries B E root [] = ret ()"
| "unpack_entries B E root (entry # es) =
     bind (if \<not> is_cmd_path (ce_name entry) then ret ()
           else if b_symbolic_link B (ce_mode entry) then
             bind (assert_that (v_utf8 E (ce_file entry))) (\<lambda>_. join_then E root (ce_name entry) (\<lambda>p. p_symlink E p (ce_file entry)))
           else if b_regular_file B (ce_mode entry) then
             bind (join_then E root (ce_name entry) (\<lambda>p. p_open E p (Some (ce_mode entry AND MODE_ALL E)))) (\<lambda>f.
             bind (d_inode (v_fs E) f) (\<lambda>i. bind (i_write_at (v_fs E) i 0 (ce_file entry)) (\<lambda>_. ret ())))
           else ret ()) (\<lambda>_. unpack_entries B E root es)"

definition parse_initrd_data :: "('d, 'i, 'p, 'x) boot_env \<Rightarrow> ('d, 'i, 'st, 'p, 'x, 'n) venv \<Rightarrow> 'd \<Rightarrow> u8 list \<Rightarrow> ('x, unit) act" where
  "parse_initrd_data B E root initrd = bind (lift (unwrap (b_entries B initrd))) (unpack_entries B E root)"

text \<open>\<open>ENOENT\<close> of \<open>AlienError\<close> is the \<open>NoEntry\<close> of \<open>vfscore\<close>.\<close>

definition populate_initrd :: "('d, 'i, 'p, 'x) boot_env \<Rightarrow> ('d, 'i, 'st, 'p, 'x, 'n) venv \<Rightarrow> 'd \<Rightarrow> u8 list \<Rightarrow> ('x, unit) act" where
  "populate_initrd B E root initrd =
     (let make = (\<lambda>dt name. bind (d_inode (v_fs E) dt) (\<lambda>i. b_create B i name NodeDir ''rwxr-xr-x'' None)) in
     bind (make root (bytes_of ''bin'')) (\<lambda>_.
     bind (make root (bytes_of ''sbin'')) (\<lambda>_.
     bind (make root (bytes_of ''usr'')) (\<lambda>_.
     bind (b_find B root (bytes_of ''usr'')) (\<lambda>usr. bind (lift (ok_or usr NoEntry)) (\<lambda>usr.
     bind (make usr (bytes_of ''bin'')) (\<lambda>_.
     bind (make usr (bytes_of ''sbin'')) (\<lambda>_.
     parse_initrd_data B E root initrd))))))))"

section \<open>Mounting\<close>

text \<open>The name in the buffer that \<open>create_domain\<close> filled: up to the first 0, which must be there.\<close>

definition ident_of :: "('d, 'i, 'st, 'p, 'x, 'n) venv \<Rightarrow> u8 list \<Rightarrow> u8 list res" where
  "ident_of E buf = (let name = takeWhile (\<lambda>b. b \<noteq> 0) buf in if 0 \<in> set buf \<and> v_utf8 E name then Ok name else panic)"

definition common_load_or_create_fs :: "('d, 'i, 'p, 'x) boot_env \<Rightarrow> ('d, 'i, 'st, 'p, 'x, 'n) venv
    \<Rightarrow> bool \<Rightarrow> u8 list \<Rightarrow> u8 list \<Rightarrow> bool \<Rightarrow> ('x, 'd) act" where
  "common_load_or_create_fs B E create_it name mp is_init_done =
     bind (if create_it then
             bind (must (b_create_domain B name)) (\<lambda>(dom, buf). bind (lift (ident_of E buf)) (\<lambda>ident. ret (dom, ident)))
           else bind (b_get_domain B name) (\<lambda>d. bind (lift (unwrap d)) (\<lambda>dom. ret (dom, name)))) (\<lambda>(fs_domain, fs_ident).
     if fs_domain = FsDomain then
       bind (must (if \<not> is_init_done then b_mount B fs_ident mp None else b_root_inode_id B fs_ident)) (\<lambda>root_inode_id.
       b_shim B fs_ident root_inode_id)
     else abort)"

definition init_procfs :: "('d, 'i, 'p, 'x) boot_env \<Rightarrow> ('d, 'i, 'st, 'p, 'x, 'n) venv \<Rightarrow> 'd \<Rightarrow> ('x, unit) act" where
  "init_procfs B E root_dt =
     bind (must (b_create_domain B (bytes_of ''ramfs''))) (\<lambda>(ramfs_domain, buf).
     bind (lift (ident_of E buf)) (\<lambda>name.
     bind (if ramfs_domain = FsDomain then
             bind (must (b_mount B name (bytes_of ''/proc/self'') None)) (\<lambda>root_inode_id. b_shim B name root_inode_id)
           else abort) (\<lambda>ramfs_root.
     bind (must (join_then E root_dt (bytes_of ''self'') (\<lambda>p. b_path_mount B p ramfs_root))) (\<lambda>_.
     must (join_then E root_dt (bytes_of ''self/exe'') (\<lambda>p. p_symlink E p (bytes_of ''/bin/busybox'')))))))"

text \<open>The file systems up to the ramdisk; the result is the root.\<close>

definition mount_file_systems :: "('d, 'i, 'p, 'x) boot_env \<Rightarrow> ('d, 'i, 'st, 'p, 'x, 'n) venv \<Rightarrow> u8 list \<Rightarrow> ('x, 'd) act" where
  "mount_file_systems B E initrd =
     (let load = (\<lambda>create_it name mp. common_load_or_create_fs B E create_it (bytes_of name) (bytes_of mp) False);
          attach = (\<lambda>root path d. join_then E root (bytes_of path) (\<lambda>p. b_path_mount B p d)) in
     bind (load False ''ramfs-1'' ''/'') (\<lambda>ramfs_root.
     bind (init_ramfs B (v_fs E) ramfs_root) (\<lambda>_.
     bind (load False ''procfs'' ''/proc'') (\<lambda>procfs_root.
     bind (init_procfs B E procfs_root) (\<lambda>_.
     bind (b_get_domain B (bytes_of ''devfs'')) (\<lambda>devfs_domain.
     bind (assert_that (devfs_domain = Some DevFsDomain)) (\<lambda>_.
     bind (must (b_mount B (bytes_of ''devfs'') (bytes_of ''/dev'') None)) (\<lambda>root_inode_id.
     bind (b_shim B (bytes_of ''devfs'') root_inode_id) (\<lambda>devfs_root.
     bind (init_devfs B (d_inode (v_fs E)) devfs_root) (\<lambda>_.
     bind (load False ''sysfs'' ''/sys'') (\<lambda>sysfs_root.
     bind (load True ''ramfs'' ''/tmp'') (\<lambda>tmpfs_root.
     bind (load False ''pipefs'' ''/pipe'') (\<lambda>pipefs_root.
     bind (load True ''ramfs'' ''/dev/shm'') (\<lambda>shm_ramfs_root.
     bind (load False ''domainfs'' ''/domain'') (\<lambda>domain_fs_root.
     bind (attach ramfs_root ''proc'' procfs_root) (\<lambda>_.
     bind (attach ramfs_root ''sys'' sysfs_root) (\<lambda>_.
     bind (attach ramfs_root ''dev'' devfs_root) (\<lambda>_.
     bind (attach ramfs_root ''tmp'' tmpfs_root) (\<lambda>_.
     bind (attach ramfs_root ''dev/shm'' shm_ramfs_root) (\<lambda>_.
     bind (attach ramfs_root ''domain'' domain_fs_root) (\<lambda>_.
     bind (populate_initrd B E ramfs_root initrd) (\<lambda>_. ret ramfs_root))))))))))))))))))))))"

section \<open>The first files\<close>

text \<open>The statics \<open>STDIN\<close>, \<open>STDOUT\<close>, \<open>STDERR\<close>: the terminal, opened when they are first used.\<close>

definition std_file :: "('d, 'i, 'st, 'p, 'x, 'n) venv \<Rightarrow> 'd \<Rightarrow> usize \<Rightarrow> u64 \<Rightarrow> (('d, 'x, 'n) vfs, 'd vfile) act" where
  "std_file E root open_flag fid =
     bind (must (in_x (p_join E root root (bytes_of ''dev/tty'')))) (\<lambda>path.
     bind (must (in_x (p_open E path None))) (\<lambda>dentry. kernel_file_new E dentry open_flag fid))"

definition map_put :: "u64 \<Rightarrow> 'd vfile \<Rightarrow> (('d, 'x, 'n) vfs, unit) act" where
  "map_put fid f = modify_state (\<lambda>s. s\<lparr>vfs_map := bt_insert fid f (vfs_map s)\<rparr>)"

definition shadow_put :: "u64 \<Rightarrow> (('d, 'x, 'n) vfs, unit) act" where
  "shadow_put fid = modify_state (\<lambda>s. s\<lparr>vfs_shadow := bt_insert fid () (vfs_shadow s)\<rparr>)"

definition first_files :: "('d, 'i, 'p, 'x) boot_env \<Rightarrow> ('d, 'i, 'st, 'p, 'x, 'n) venv \<Rightarrow> 'd \<Rightarrow> (('d, 'x, 'n) vfs, unit) act" where
  "first_files B E ramfs_root =
     bind (kernel_file_new E ramfs_root (O_RDWR (v_abi E)) (b_root_id B)) (\<lambda>f. bind (map_put (b_root_id B) f) (\<lambda>_.
     bind (std_file E ramfs_root (O_RDONLY (v_abi E)) (b_stdin_id B)) (\<lambda>f. bind (map_put (b_stdin_id B) f) (\<lambda>_.
     bind (std_file E ramfs_root (O_WRONLY (v_abi E)) (b_stdout_id B)) (\<lambda>f. bind (map_put (b_stdout_id B) f) (\<lambda>_.
     bind (std_file E ramfs_root (O_WRONLY (v_abi E)) (b_stderr_id B)) (\<lambda>f. bind (map_put (b_stderr_id B) f) (\<lambda>_.
     bind (shadow_put (b_root_id B)) (\<lambda>_. bind (shadow_put (b_stdin_id B)) (\<lambda>_.
     bind (shadow_put (b_stdout_id B)) (\<lambda>_. shadow_put (b_stderr_id B))))))))))))"

text \<open>\<open>/tests\<close>: every failure leaves it out.\<close>

definition mount_fatfs :: "('d, 'i, 'p, 'x) boot_env \<Rightarrow> ('d, 'i, 'st, 'p, 'x, 'n) venv \<Rightarrow> 'd \<Rightarrow> (('d, 'x, 'n) vfs, unit) act" where
  "mount_fatfs B E ramfs_root =
     bind (in_x (b_get_domain B (bytes_of ''fatfs-1''))) (\<lambda>d.
     if d \<noteq> Some FsDomain then ret ()
     else bind (attempt (in_x (join_then E ramfs_root (bytes_of ''/dev/sda'') (\<lambda>p. p_open E p None)))) (\<lambda>r. case r of
       Inl _ \<Rightarrow> ret ()
     | Inr blk_inode \<Rightarrow>
         bind (insert_dentry E blk_inode (O_RDWR (v_abi E))) (\<lambda>_.
         case b_shim_of B blk_inode of
           None \<Rightarrow> ret ()
         | Some (domain_ident, mount_inode_id) \<Rightarrow>
             bind (assert_that (v_utf8 E domain_ident)) (\<lambda>_.
             let ident = fst (copy_out domain_ident (replicate 32 0)) in
             bind (attempt (in_x (b_mount B (bytes_of ''fatfs-1'') (bytes_of ''/tests'') (Some (ident, mount_inode_id))))) (\<lambda>r.
             case r of
               Inl _ \<Rightarrow> ret ()
             | Inr root_inode_id \<Rightarrow>
                 bind (in_x (b_shim B (bytes_of ''fatfs-1'') root_inode_id)) (\<lambda>shim_inode.
                 bind (attempt (in_x (join_then E ramfs_root (bytes_of ''tests'') (\<lambda>p. b_path_mount B p shim_inode)))) (\<lambda>_.
                 ret ())))))))"

definition init_filesystem_before :: "('d, 'i, 'p, 'x) boot_env \<Rightarrow> ('d, 'i, 'st, 'p, 'x, 'n) venv \<Rightarrow> u8 list
    \<Rightarrow> (('d, 'x, 'n) vfs, 'd) act" where
  "init_filesystem_before B E initrd =
     bind (in_x (mount_file_systems B E initrd)) (\<lambda>ramfs_root.
     bind (first_files B E ramfs_root) (\<lambda>_.
     bind (mount_fatfs B E ramfs_root) (\<lambda>_. ret ramfs_root)))"

text \<open>After a reload the root and the pipe file system are looked up again, and the open files recovered.\<close>

definition init_filesystem_after :: "('d, 'i, 'p, 'x) boot_env \<Rightarrow> ('d, 'i, 'st, 'p, 'x, 'n) venv
    \<Rightarrow> (('d, 'x, 'n) vfs, 'd) act" where
  "init_filesystem_after B E =
     bind (in_x (common_load_or_create_fs B E False (bytes_of ''ramfs-1'') (bytes_of ''/'') True)) (\<lambda>ramfs_root.
     bind (in_x (common_load_or_create_fs B E False (bytes_of ''pipefs'') [] True)) (\<lambda>pipefs_root.
     bind (recover_kernel_files E) (\<lambda>_. ret ramfs_root)))"

definition init_filesystem :: "('d, 'i, 'p, 'x) boot_env \<Rightarrow> ('d, 'i, 'st, 'p, 'x, 'n) venv \<Rightarrow> u8 list \<Rightarrow> bool
    \<Rightarrow> (('d, 'x, 'n) vfs, unit) act" where
  "init_filesystem B E initrd is_init_done =
     bind (if is_init_done then init_filesystem_after B E else init_filesystem_before B E initrd) (\<lambda>ramfs_root.
     in_x (must (b_print_fs_tree B ramfs_root)))"

text \<open>
  The call \<open>init\<close> of the domain, on its statics: \<open>VFS_INIT\<close>, which is kept in the storage of the kernel and
  so tells a reload from the first start, and \<open>NET_STACK_DOMAIN\<close>, which is set once.
\<close>

record ('d, 'x, 'n) vfs_domain =
  vd_init :: bool
  vd_net :: bool
  vd_tables :: "('d, 'x, 'n) vfs"

definition in_tables :: "(('d, 'x, 'n) vfs, 'a) act \<Rightarrow> (('d, 'x, 'n) vfs_domain, 'a) act" where
  "in_tables m = zoom vd_tables (\<lambda>v s. s\<lparr>vd_tables := v\<rparr>) m"

definition vfs_init :: "('d, 'i, 'p, 'x) boot_env \<Rightarrow> ('d, 'i, 'st, 'p, 'x, 'n) venv \<Rightarrow> u8 list
    \<Rightarrow> (('d, 'x, 'n) vfs_domain, unit) act" where
  "vfs_init B E initrd =
     bind get_state (\<lambda>s.
     bind (in_tables (must (init_filesystem B E initrd (vd_init s)))) (\<lambda>_.
     bind (in_tables (in_x (b_get_domain B (bytes_of ''net_stack'')))) (\<lambda>d.
     bind (if d = Some NetDomain then modify_state (\<lambda>s. s\<lparr>vd_net := True\<rparr>) else ret ()) (\<lambda>_.
     modify_state (\<lambda>s. s\<lparr>vd_init := True\<rparr>)))))"

section \<open>The first boot makes consistent tables\<close>

text \<open>The tables when the domain is loaded for the first time.\<close>

definition vfs_fresh :: "('d, 'x, 'n) vfs \<Rightarrow> bool" where
  "vfs_fresh s \<longleftrightarrow> vfs_map s = bt_empty \<and> vfs_shadow s = bt_empty \<and> vfs_metas s = bt_empty \<and> inode_id s = 4
     \<and> vfs_pipes s = bt_empty"

lemma kernel_file_new_Ok:
  assumes "kernel_file_new E d fl fid s = (Inr f, t)" "bt_get (vfs_metas s) fid = None"
  shows "\<exists>d' km x. f = KernelF d' \<and> d' = d \<and> t = s\<lparr>vfs_x := x, vfs_metas := bt_insert fid km (vfs_metas s)\<rparr>"
  using assms by (auto simp: kernel_file_new_def act_simps split: prod.splits sum.splits) (intro exI, rule refl)

lemma std_file_Ok:
  assumes "std_file E root fl fid s = (Inr f, t)" "bt_get (vfs_metas s) fid = None"
  shows "\<exists>d km x. f = KernelF d \<and> True \<and> t = s\<lparr>vfs_x := x, vfs_metas := bt_insert fid km (vfs_metas s)\<rparr>"
proof -
  obtain d x where "kernel_file_new E d fl fid (s\<lparr>vfs_x := x\<rparr>) = (Inr f, t)"
    using assms(1) by (auto simp: std_file_def act_simps split: prod.splits sum.splits)
  from kernel_file_new_Ok [OF this] assms(2) show ?thesis by auto
qed

text \<open>Kernel files under the ids of \<open>G\<close>, of which those in \<open>M\<close> are in the shadow map already.\<close>

definition boot_maps :: "(u64 \<Rightarrow> 'd option) \<Rightarrow> u64 set \<Rightarrow> ('d, 'x, 'n) vfs \<Rightarrow> bool" where
  "boot_maps G M s \<longleftrightarrow> (\<forall>i. bt_get (vfs_map s) i = map_option KernelF (G i)) \<and> (\<forall>i. bt_get (vfs_metas s) i \<noteq> None \<longleftrightarrow> G i \<noteq> None)
     \<and> (\<forall>i. bt_get (vfs_shadow s) i \<noteq> None \<longleftrightarrow> i \<in> M) \<and> bt_wf (vfs_shadow s) \<and> inode_id s = 4 \<and> vfs_pipes s = bt_empty"

lemma fresh_maps: "vfs_fresh s \<Longrightarrow> boot_maps (\<lambda>_. None) {} s"
  by (simp add: vfs_fresh_def boot_maps_def bt_empty_def)

lemma file_step:
  assumes "bind m (\<lambda>f. bind (map_put fid f) g) s = (Inr u, t)" "boot_maps G M s" "G fid = None"
    and "\<And>f s'. m s = (Inr f, s') \<Longrightarrow> (\<exists>d km x. f = KernelF d \<and> P d \<and> s' = s\<lparr>vfs_x := x, vfs_metas := bt_insert fid km (vfs_metas s)\<rparr>)"
  obtains d s' where "P d" "g () s' = (Inr u, t)" "boot_maps (G(fid \<mapsto> d)) M s'"
proof -
  obtain f s1 where 1: "m s = (Inr f, s1)" "bind (map_put fid f) g s1 = (Inr u, t)"
    using assms(1) by (auto simp: bind_Ok_iff)
  obtain d km x where f: "f = KernelF d" "P d" "s1 = s\<lparr>vfs_x := x, vfs_metas := bt_insert fid km (vfs_metas s)\<rparr>"
    using assms(4) [OF 1(1)] by blast
  show ?thesis
    by (rule that [of d "s1\<lparr>vfs_map := bt_insert fid (KernelF d) (vfs_map s1)\<rparr>"])
      (use f 1(2) assms(2) in \<open>simp_all add: map_put_def boot_maps_def act_simps\<close>)
qed

lemma maps_metas: "boot_maps G M s \<Longrightarrow> G fid = None \<Longrightarrow> bt_get (vfs_metas s) fid = None"
  unfolding boot_maps_def by metis

lemma root_step:
  assumes "bind (kernel_file_new E root fl fid) (\<lambda>f. bind (map_put fid f) g) s = (Inr u, t)" "boot_maps G M s" "G fid = None"
  obtains s' where "g () s' = (Inr u, t)" "boot_maps (G(fid \<mapsto> root)) M s'"
  by (rule file_step [OF assms, of "\<lambda>d. d = root"])
    (use kernel_file_new_Ok [OF _ maps_metas [OF assms(2,3)]] that in blast)+

lemma std_step:
  assumes "bind (std_file E root fl fid) (\<lambda>f. bind (map_put fid f) g) s = (Inr u, t)" "boot_maps G M s" "G fid = None"
  obtains d s' where "g () s' = (Inr u, t)" "boot_maps (G(fid \<mapsto> d)) M s'"
  by (rule file_step [OF assms, of "\<lambda>d. True"])
    (use std_file_Ok [OF _ maps_metas [OF assms(2,3)]] that in blast)+

lemma shadow_step:
  "boot_maps G M s \<Longrightarrow> boot_maps G (insert fid M) (s\<lparr>vfs_shadow := bt_insert fid () (vfs_shadow s)\<rparr>)"
  by (simp add: boot_maps_def bt_wf_insert)

lemma maps_inv: "boot_maps G M s \<Longrightarrow> M = dom G \<Longrightarrow> \<forall>i\<in>M. i < 4 \<Longrightarrow> vfs_inv N s"
  by (auto simp: boot_maps_def vfs_inv_def kernel_inv_def ids_inv_def ends_inv_def pipes_inv_def is_kernel_def bt_empty_def
      split: option.splits)

definition std_ids :: "('d, 'i, 'p, 'x) boot_env \<Rightarrow> u64 list" where
  "std_ids B = [b_root_id B, b_stdin_id B, b_stdout_id B, b_stderr_id B]"

lemma first_files_Ok:
  assumes s: "vfs_fresh s" and B: "distinct (std_ids B)" "\<forall>i\<in>set (std_ids B). i < 4"
    and run: "first_files B E root s = (Inr u, t)"
  obtains G where "boot_maps G (dom G) t" "dom G = set (std_ids B)" "G (b_root_id B) = Some root"
proof -
  have d: "b_root_id B \<noteq> b_stdin_id B" "b_root_id B \<noteq> b_stdout_id B" "b_root_id B \<noteq> b_stderr_id B"
    "b_stdin_id B \<noteq> b_stdout_id B" "b_stdin_id B \<noteq> b_stderr_id B" "b_stdout_id B \<noteq> b_stderr_id B"
    using B(1) by (auto simp: std_ids_def)
  obtain s1 where 1: "bind (std_file E root (O_RDONLY (v_abi E)) (b_stdin_id B)) (\<lambda>f. bind (map_put (b_stdin_id B) f) (\<lambda>_.
     bind (std_file E root (O_WRONLY (v_abi E)) (b_stdout_id B)) (\<lambda>f. bind (map_put (b_stdout_id B) f) (\<lambda>_.
     bind (std_file E root (O_WRONLY (v_abi E)) (b_stderr_id B)) (\<lambda>f. bind (map_put (b_stderr_id B) f) (\<lambda>_.
     bind (shadow_put (b_root_id B)) (\<lambda>_. bind (shadow_put (b_stdin_id B)) (\<lambda>_.
     bind (shadow_put (b_stdout_id B)) (\<lambda>_. shadow_put (b_stderr_id B)))))))))) s1 = (Inr u, t)"
    "boot_maps [b_root_id B \<mapsto> root] {} s1"
    by (rule root_step [OF run [unfolded first_files_def] fresh_maps [OF s]]) (use that in auto)
  obtain i s2 where 2: "bind (std_file E root (O_WRONLY (v_abi E)) (b_stdout_id B)) (\<lambda>f. bind (map_put (b_stdout_id B) f) (\<lambda>_.
     bind (std_file E root (O_WRONLY (v_abi E)) (b_stderr_id B)) (\<lambda>f. bind (map_put (b_stderr_id B) f) (\<lambda>_.
     bind (shadow_put (b_root_id B)) (\<lambda>_. bind (shadow_put (b_stdin_id B)) (\<lambda>_.
     bind (shadow_put (b_stdout_id B)) (\<lambda>_. shadow_put (b_stderr_id B)))))))) s2 = (Inr u, t)"
    "boot_maps [b_root_id B \<mapsto> root, b_stdin_id B \<mapsto> i] {} s2"
    by (rule std_step [OF 1]) (use d that in auto)
  obtain j s3 where 3: "bind (std_file E root (O_WRONLY (v_abi E)) (b_stderr_id B)) (\<lambda>f. bind (map_put (b_stderr_id B) f) (\<lambda>_.
     bind (shadow_put (b_root_id B)) (\<lambda>_. bind (shadow_put (b_stdin_id B)) (\<lambda>_.
     bind (shadow_put (b_stdout_id B)) (\<lambda>_. shadow_put (b_stderr_id B)))))) s3 = (Inr u, t)"
    "boot_maps [b_root_id B \<mapsto> root, b_stdin_id B \<mapsto> i, b_stdout_id B \<mapsto> j] {} s3"
    by (rule std_step [OF 2]) (use d that in auto)
  obtain k s4 where 4: "bind (shadow_put (b_root_id B)) (\<lambda>_. bind (shadow_put (b_stdin_id B)) (\<lambda>_.
     bind (shadow_put (b_stdout_id B)) (\<lambda>_. shadow_put (b_stderr_id B)))) s4 = (Inr u, t)"
    "boot_maps [b_root_id B \<mapsto> root, b_stdin_id B \<mapsto> i, b_stdout_id B \<mapsto> j, b_stderr_id B \<mapsto> k] {} s4"
    by (rule std_step [OF 3]) (use d that in auto)
  let ?G = "[b_root_id B \<mapsto> root, b_stdin_id B \<mapsto> i, b_stdout_id B \<mapsto> j, b_stderr_id B \<mapsto> k]"
  have "boot_maps ?G {b_stderr_id B, b_stdout_id B, b_stdin_id B, b_root_id B} t"
    using 4(1) shadow_step [OF shadow_step [OF shadow_step [OF shadow_step [OF 4(2)]]], of "b_stderr_id B" "b_stdout_id B" "b_stdin_id B" "b_root_id B"]
    by (simp add: shadow_put_def act_simps)
  moreover have "dom ?G = set (std_ids B)" by (auto simp: std_ids_def)
  moreover have "{b_stderr_id B, b_stdout_id B, b_stdin_id B, b_root_id B} = set (std_ids B)" by (auto simp: std_ids_def)
  ultimately show ?thesis using d that [of ?G] by simp
qed


text \<open>After the first files at most one more is opened.\<close>

definition booted :: "nat \<Rightarrow> 'd \<Rightarrow> u64 \<Rightarrow> u64 set \<Rightarrow> ('d, 'x, 'n) vfs \<Rightarrow> bool" where
  "booted N root fid ids s \<longleftrightarrow> vfs_inv N s \<and> get_file fid s = Some (KernelF root) \<and> (\<forall>i\<in>ids. is_kernel (get_file i s))
     \<and> (\<forall>i. get_file i s \<noteq> None \<longrightarrow> i \<in> ids \<or> i = 4) \<and> inode_id s \<le> 5"

lemma booted_in_x:
  fixes root :: 'd
  shows "keeps (\<lambda>s. booted N root fid ids s \<and> Q (inode_id s)) (in_x m :: (('d, 'x, 'n) vfs, 'a) act)"
proof (rule keepsI)
  fix s :: "('d, 'x, 'n) vfs"
  assume s: "booted N root fid ids s \<and> Q (inode_id s)"
  then have "vfs_inv N (snd (in_x m s))" by (intro keepsD [OF in_x_keeps(2)]) (simp add: booted_def)
  with s show "booted N root fid ids (snd (in_x m s)) \<and> Q (inode_id (snd (in_x m s)))"
    by (auto simp: booted_def get_file_def act_simps split: prod.splits)
qed

lemma booted_keeps: "keeps (booted N root fid ids) (in_x m)"
  using booted_in_x [of N root fid ids "\<lambda>_. True" m] by simp

lemmas booted_binds = keeps_bind [OF booted_keeps] keeps_bind [OF keeps_attempt [OF booted_keeps]]

lemma booted_insert:
  assumes "booted N root fid ids s" "inode_id s = 4" "\<forall>i\<in>ids. i < 4" "fid \<in> ids"
  shows "booted N root fid ids (snd (insert_dentry E d fl s))"
proof -
  have inv: "vfs_inv N s" and "4 \<notin> ids" "fid \<noteq> 4" using assms by (auto simp: booted_def)
  then have "vfs_inv N (snd (insert_dentry E d fl s))" by (intro inv_insert_dentry) (simp_all add: assms(2))
  then show ?thesis
    using insert_dentry_cases [OF inv, of E d fl] assms(1,2) \<open>4 \<notin> ids\<close> \<open>fid \<noteq> 4\<close>
    by (elim disjE exE conjE) (auto simp: booted_def get_file_def)
qed

lemma fatfs_booted:
  fixes root :: 'd and E :: "('d, 'i, 'st, 'p, 'x, 'n) venv"
  assumes "\<forall>i\<in>ids. i < 4" "fid \<in> ids"
  shows "leads (\<lambda>s. booted N root fid ids s \<and> inode_id s = 4) (booted N root fid ids) (mount_fatfs B E rt)"
proof -
  have rest: "keeps (booted N root fid ids) (case b_shim_of B blk of None \<Rightarrow> ret () | Some (domain_ident, mount_inode_id) \<Rightarrow>
             bind (assert_that (v_utf8 E domain_ident)) (\<lambda>_.
             let ident = fst (copy_out domain_ident (replicate 32 0)) in
             bind (attempt (in_x (b_mount B (bytes_of ''fatfs-1'') (bytes_of ''/tests'') (Some (ident, mount_inode_id))))) (\<lambda>r.
             case r of Inl _ \<Rightarrow> ret ()
             | Inr root_inode_id \<Rightarrow>
                 bind (in_x (b_shim B (bytes_of ''fatfs-1'') root_inode_id)) (\<lambda>shim_inode.
                 bind (attempt (in_x (join_then E rt (bytes_of ''tests'') (\<lambda>p. b_path_mount B p shim_inode)))) (\<lambda>_. ret ())))))" for blk
    unfolding Let_def
    by (cases "b_shim_of B blk") (auto intro!: booted_binds keeps_bind [of _ "assert_that b" for b] keeps_basics split: sum.split)
  have ins: "leads (\<lambda>s. booted N root fid ids s \<and> inode_id s = 4) (booted N root fid ids) (bind (insert_dentry E blk fl) (\<lambda>_. m))"
    if m: "keeps (booted N root fid ids) m" for blk fl and m :: "(('d, 'x, 'n) vfs, unit) act"
  proof (rule leadsI)
    fix s :: "('d, 'x, 'n) vfs" assume "booted N root fid ids s \<and> inode_id s = 4"
    then have "booted N root fid ids (snd (insert_dentry E blk fl s))" using assms by (intro booted_insert) auto
    with m show "booted N root fid ids (snd (bind (insert_dentry E blk fl) (\<lambda>_. m) s))"
      by (cases "insert_dentry E blk fl s"; cases "fst (insert_dentry E blk fl s)") (auto simp: bind_def dest: keepsD)
  qed
  show ?thesis
    unfolding mount_fatfs_def
    apply (rule leads_bind [OF booted_in_x], blast)
    apply (split if_split, intro conjI impI)
     apply (rule leadsI, simp add: act_simps)
    apply (rule leads_bind [OF keeps_attempt [OF booted_in_x]], blast)
    apply (split sum.split, intro conjI allI impI)
     apply (rule leadsI, simp add: act_simps)
    apply (rule ins, rule rest)
    done
qed

lemma init_filesystem_booted:
  assumes "vfs_fresh s" "distinct (std_ids B)" "\<forall>i\<in>set (std_ids B). i < 4"
    and "init_filesystem B E initrd False s = (Ok (), t)"
  shows "vfs_inv N t \<and> (\<forall>i\<in>set (std_ids B). is_kernel (get_file i t))
    \<and> (\<forall>i. get_file i t \<noteq> None \<longrightarrow> i \<in> set (std_ids B) \<or> i = 4) \<and> inode_id t \<le> 5
    \<and> (\<exists>root x'. mount_file_systems B E initrd (vfs_x s) = (Ok root, x') \<and> get_file (b_root_id B) t = Some (KernelF root))"
proof -
  obtain rt t1 where before: "init_filesystem_before B E initrd s = (Ok rt, t1)"
    and pr: "in_x (must (b_print_fs_tree B rt)) t1 = (Ok (), t)"
    using assms(4) unfolding init_filesystem_def if_False bind_Ok_iff by blast
  obtain root x s1 where m: "mount_file_systems B E initrd (vfs_x s) = (Ok root, x)"
    and ff: "first_files B E root (s\<lparr>vfs_x := x\<rparr>) = (Ok (), s1)" and fat: "mount_fatfs B E root s1 = (Ok (), t1)"
    using before by (auto simp: init_filesystem_before_def act_basics bind_Ok_iff in_x_run split: prod.splits)
  have "vfs_fresh (s\<lparr>vfs_x := x\<rparr>)" using assms(1) by (simp add: vfs_fresh_def)
  from first_files_Ok [OF this assms(2,3) ff] obtain G where G: "boot_maps G (dom G) s1" "dom G = set (std_ids B)" "G (b_root_id B) = Some root" .
  have "vfs_inv N s1" using maps_inv [OF G(1) refl] G(2) assms(3) by simp
  moreover have dG: "\<forall>i\<in>set (std_ids B). \<exists>d. G i = Some d" using G(2) by blast
  ultimately have "booted N root (b_root_id B) (set (std_ids B)) s1 \<and> inode_id s1 = 4"
    using G dG by (fastforce simp: booted_def boot_maps_def get_file_def)
  with leadsD [OF fatfs_booted [OF assms(3), of "b_root_id B" N root B E root], of s1]
  have "booted N root (b_root_id B) (set (std_ids B)) t1"
    using fat by (simp add: std_ids_def)
  with keepsD [OF booted_in_x [where Q = "\<lambda>_. True"], of N root "b_root_id B" "set (std_ids B)" t1 "must (b_print_fs_tree B rt)"] pr
  have "booted N root (b_root_id B) (set (std_ids B)) t" by simp
  with m show ?thesis by (auto simp: booted_def)
qed

lemma vfs_init_Ok:
  assumes "vfs_init B E initrd s = (Ok (), t)"
  shows "\<exists>u x. init_filesystem B E initrd (vd_init s) (vd_tables s) = (Ok (), u) \<and> vd_tables t = u\<lparr>vfs_x := x\<rparr> \<and> vd_init t"
  using assms
  by (auto simp: vfs_init_def in_tables_def act_basics bind_Ok_iff in_x_run must_def zoom_def split: prod.splits sum.splits if_splits)

text \<open>C29: the first boot establishes the invariant of the tables. When the VFS domain is initialised for the
  first time and the call returns, whatever the file systems do, the tables are consistent: exactly the root
  and the three standard files are open, as kernel files under their fixed ids, with at most the block device
  of \<open>/tests\<close> under the next id; the root is the mounted root file system, and the domain is marked, so that a
  later call recovers the open files instead.\<close>

theorem vfs_boot_invariant:
  assumes "\<not> vd_init s" "vfs_fresh (vd_tables s)" "distinct (std_ids B)" "\<forall>i\<in>set (std_ids B). i < 4"
    and "vfs_init B E initrd s = (Ok (), t)"
  shows "vd_init t \<and> vfs_inv N (vd_tables t) \<and> (\<forall>i\<in>set (std_ids B). is_kernel (get_file i (vd_tables t)))
    \<and> (\<forall>i. get_file i (vd_tables t) \<noteq> None \<longrightarrow> i \<in> set (std_ids B) \<or> i = 4) \<and> inode_id (vd_tables t) \<le> 5
    \<and> (\<exists>root x'. mount_file_systems B E initrd (vfs_x (vd_tables s)) = (Ok root, x')
         \<and> get_file (b_root_id B) (vd_tables t) = Some (KernelF root))"
proof -
  obtain u x where u: "init_filesystem B E initrd False (vd_tables s) = (Ok (), u)" "vd_tables t = u\<lparr>vfs_x := x\<rparr>" "vd_init t"
    using vfs_init_Ok [OF assms(5)] assms(1) by auto
  have "vfs_inv N (snd (in_x (\<lambda>_. (Ok (), x)) u))" if "vfs_inv N u"
    by (rule keepsD [OF in_x_keeps(2)]) (rule that)
  with init_filesystem_booted [OF assms(2-4) u(1), of N] u(2,3) show ?thesis
    by (simp add: get_file_def act_simps)
qed


text \<open>A machine without devices of its own: one domain of every name, every call succeeds.\<close>

definition plain_boot :: "(unit, unit, unit, u8 list) boot_env" where
  "plain_boot = \<lparr> b_get_domain = (\<lambda>n. ret (Some (if n = bytes_of ''devfs'' then DevFsDomain else FsDomain))),
     b_create_domain = (\<lambda>n. ret (FsDomain, [97, 0])), b_mount = (\<lambda>n m d. ret 0), b_root_inode_id = (\<lambda>n. ret 0),
     b_shim = (\<lambda>n i. ret ()), b_shim_of = (\<lambda>d. Some ([97], 0)), b_register = (\<lambda>i n. ret ()), b_alloc_device_id = (\<lambda>t. ret 0),
     b_create = (\<lambda>i n t p r. ret ()), b_find = (\<lambda>d n. ret (Some ())), b_path_mount = (\<lambda>p d. ret ()),
     b_print_fs_tree = (\<lambda>d. ret ()), b_entries = (\<lambda>b. Some []),
     b_symbolic_link = (\<lambda>m. False), b_regular_file = (\<lambda>m. True), b_root_id = 0, b_stdin_id = 1, b_stdout_id = 2, b_stderr_id = 3 \<rparr>"

definition fresh_vfs :: "(unit, u8 list, unit) vfs" where
  "fresh_vfs = \<lparr> vfs_map = bt_empty, vfs_shadow = bt_empty, vfs_metas = bt_empty, inode_id = 4, vfs_pipes = bt_empty,
     vfs_next_pipe = 0, eventfd_id = 0, vfs_x = [], vfs_n = () \<rparr>"

lemma plain_find: "find_domain_of plain_boot ks ns = ret None" if "set ks \<inter> {FsDomain, DevFsDomain} = {}"
  by (rule ext, induction ns) (use that in \<open>auto simp: plain_boot_def act_simps\<close>)

lemma plain_scan: "scan_system_devices plain_boot ret () = ret ()"
  unfolding scan_system_devices_def find_domain_name_def find_rtc_domain_name_def
  by (rule ext) (simp add: plain_find act_simps add_found_def, simp add: plain_boot_def add_device_def act_simps)

lemma plain_devfs: "init_devfs plain_boot ret () = ret ()"
  by (rule ext) (simp add: init_devfs_def plain_scan act_simps, simp add: plain_boot_def act_simps)

lemma plain_load: "common_load_or_create_fs plain_boot sample_venv c n mp False = ret ()" if "n \<noteq> bytes_of ''devfs''"
  using that by (intro ext) (simp add: common_load_or_create_fs_def ident_of_def plain_boot_def act_simps)

lemma plain_names: "bytes_of ''ramfs-1'' \<noteq> bytes_of ''devfs''" "bytes_of ''procfs'' \<noteq> bytes_of ''devfs''"
  "bytes_of ''sysfs'' \<noteq> bytes_of ''devfs''" "bytes_of ''ramfs'' \<noteq> bytes_of ''devfs''" "bytes_of ''pipefs'' \<noteq> bytes_of ''devfs''"
  "bytes_of ''domainfs'' \<noteq> bytes_of ''devfs''" "bytes_of ''fatfs-1'' \<noteq> bytes_of ''devfs''"
  by (simp_all add: bytes_of_def)

lemma plain_ramfs: "\<exists>y. init_ramfs plain_boot mem_fs () x = (Ok (), y)"
  by (simp add: init_ramfs_def plain_boot_def mem_fs_def act_simps)

lemma plain_calls: "b_get_domain plain_boot (bytes_of ''devfs'') = ret (Some DevFsDomain)" "b_mount plain_boot n m d = ret 0"
  "b_shim plain_boot n i = ret ()" "b_path_mount plain_boot p u = ret ()" "d_inode mem_fs = ret"
  by (auto simp: plain_boot_def mem_fs_def)

lemma plain_procfs: "init_procfs plain_boot sample_venv () = ret ()"
  by (rule ext) (simp add: init_procfs_def ident_of_def join_then_def plain_boot_def sample_venv_def act_simps)

lemma plain_initrd: "populate_initrd plain_boot sample_venv () [] = ret ()"
  by (rule ext) (simp add: populate_initrd_def parse_initrd_data_def plain_boot_def mem_fs_def Let_def act_simps)

lemma plain_attach: "join_then sample_venv () path ret = ret ()"
  by (rule ext) (simp add: join_then_def sample_venv_def act_simps)

lemma plain_mount: "\<exists>x'. mount_file_systems plain_boot sample_venv [] x = (Ok (), x')"
proof -
  obtain y where y: "init_ramfs plain_boot mem_fs () x = (Ok (), y)" using plain_ramfs by blast
  show ?thesis
    by (simp add: y mount_file_systems_def Let_def plain_load plain_names plain_procfs plain_initrd plain_attach plain_calls plain_devfs act_simps)
qed

lemma plain_file_new:
  "\<not> contains fl 0x400 \<Longrightarrow> bt_get (vfs_metas s) fid = None \<Longrightarrow> kernel_file_new sample_venv () fl fid s
     = (Ok (KernelF ()), s\<lparr>vfs_metas := bt_insert fid (kmeta_new 0 fl 7 0 []) (vfs_metas s)\<rparr>)"
  by (simp add: kernel_file_new_def kf_new_pos_def act_simps sample_venv_def mem_fs_def)

lemma plain_std: "\<not> contains fl 0x400 \<Longrightarrow> bt_get (vfs_metas s) fid = None \<Longrightarrow> std_file sample_venv () fl fid s
     = (Ok (KernelF ()), s\<lparr>vfs_metas := bt_insert fid (kmeta_new 0 fl 7 0 []) (vfs_metas s)\<rparr>)"
  using plain_file_new [of fl s fid] by (simp add: std_file_def act_simps) (simp add: sample_venv_def act_simps)

lemma plain_files:
  assumes "vfs_metas s = bt_empty"
  shows "\<exists>t. first_files plain_boot sample_venv () s = (Ok (), t) \<and> inode_id t = inode_id s \<and> bt_get (vfs_metas t) 4 = None"
proof -
  have c: "\<not> contains (0 :: usize) 0x400" "\<not> contains (1 :: usize) 0x400" "\<not> contains (2 :: usize) 0x400"
    by (simp_all add: contains_def)
  have i: "b_root_id plain_boot = 0" "b_stdin_id plain_boot = 1" "b_stdout_id plain_boot = 2" "b_stderr_id plain_boot = 3"
    by (simp_all add: plain_boot_def)
  show ?thesis
    using assms by (simp add: first_files_def i plain_file_new plain_std c map_put_def shadow_put_def act_simps bt_empty_def)
qed

lemma plain_fatfs:
  assumes "bt_get (vfs_metas s) (inode_id s) = None"
  shows "\<exists>t. mount_fatfs plain_boot sample_venv () s = (Ok (), t)"
proof -
  have c: "\<not> contains (2 :: usize) 0x400" by (simp add: contains_def)
  have "b_get_domain plain_boot (bytes_of ''fatfs-1'') = ret (Some FsDomain)" using plain_names(7) by (simp add: plain_boot_def)
  moreover have "join_then sample_venv () p (\<lambda>p. p_open sample_venv p None) = ret ()" for p
    by (rule ext) (simp add: join_then_def sample_venv_def act_simps)
  moreover have "b_shim_of plain_boot () = Some ([97], 0)" by (simp add: plain_boot_def)
  ultimately show ?thesis
    using assms c by (simp add: mount_fatfs_def insert_dentry_def next_inode_id_def plain_file_new plain_attach plain_calls Let_def act_simps)
qed

lemma plain_init: "\<exists>t. init_filesystem plain_boot sample_venv [] False fresh_vfs = (Ok (), t)"
proof -
  obtain x where x: "mount_file_systems plain_boot sample_venv [] [] = (Ok (), x)" using plain_mount by blast
  obtain t where t: "first_files plain_boot sample_venv () (fresh_vfs\<lparr>vfs_x := x\<rparr>) = (Ok (), t)" "inode_id t = 4" "bt_get (vfs_metas t) 4 = None"
    using plain_files [of "fresh_vfs\<lparr>vfs_x := x\<rparr>"] by (auto simp: fresh_vfs_def)
  obtain u where "mount_fatfs plain_boot sample_venv () t = (Ok (), u)" using plain_fatfs [of t] t by auto
  moreover have "vfs_x fresh_vfs = []" by (simp add: fresh_vfs_def)
  ultimately show ?thesis using x t(1)
    by (simp add: init_filesystem_def init_filesystem_before_def act_simps)
      (simp add: plain_boot_def act_simps)
qed

definition fresh_domain :: "(unit, u8 list, unit) vfs_domain" where
  "fresh_domain = \<lparr> vd_init = False, vd_net = False, vd_tables = fresh_vfs \<rparr>"

lemma plain_domain: "\<exists>t. vfs_init plain_boot sample_venv [] fresh_domain = (Ok (), t)"
proof -
  obtain u where "init_filesystem plain_boot sample_venv [] False fresh_vfs = (Ok (), u)" using plain_init by blast
  moreover have "b_get_domain plain_boot (bytes_of ''net_stack'') = ret (Some FsDomain)" by (simp add: plain_boot_def bytes_of_def)
  ultimately show ?thesis
    by (simp add: vfs_init_def in_tables_def fresh_domain_def must_def zoom_def act_simps)
qed

theorem vfs_boot_invariant_witness:
  "\<exists>t. vfs_init plain_boot sample_venv [] fresh_domain = (Ok (), t) \<and> is_kernel (get_file 3 (vd_tables t)) \<and> vfs_inv 4 (vd_tables t)"
proof -
  obtain t where t: "vfs_init plain_boot sample_venv [] fresh_domain = (Ok (), t)" using plain_domain by blast
  have "\<not> vd_init fresh_domain" "vfs_fresh (vd_tables fresh_domain)" "distinct (std_ids plain_boot)"
    "\<forall>i\<in>set (std_ids plain_boot). i < 4" "3 \<in> set (std_ids plain_boot)"
    by (simp_all add: fresh_domain_def vfs_fresh_def fresh_vfs_def std_ids_def plain_boot_def)
  with vfs_boot_invariant [OF this(1-4) t, of 4] t show ?thesis by blast
qed

section \<open>Every device is found under its node\<close>

text \<open>The start-up of \<open>/dev\<close> over a world with a manager of device numbers, the tables of the device file
  system, and the nodes made so far; domains are there or not.\<close>

definition boot_law :: "('d, 'i, 'p, 'x) boot_env \<Rightarrow> (u32 \<Rightarrow> u32 \<Rightarrow> u64) \<Rightarrow> (u8 list \<Rightarrow> domain_type option) \<Rightarrow> ('x \<Rightarrow> (u32, u32) btree)
    \<Rightarrow> ('x \<Rightarrow> devs) \<Rightarrow> ('x \<Rightarrow> (u8 list \<times> u64 option) list) \<Rightarrow> bool" where
  "boot_law B device_id domains ids devs nodes \<longleftrightarrow>
     (\<forall>n x. b_get_domain B n x = (Ok (domains n), x))
   \<and> (\<forall>t x. \<exists>x'. b_alloc_device_id B t x = (fst (device_id_alloc device_id t (ids x)), x')
        \<and> ids x' = snd (device_id_alloc device_id t (ids x)) \<and> devs x' = devs x \<and> nodes x' = nodes x)
   \<and> (\<forall>i n x. \<exists>x'. b_register B i n x = (Ok (), x') \<and> ids x' = ids x \<and> devs x' = snd (devfs_register (\<lambda>_. True) i n (devs x)) \<and> nodes x' = nodes x)
   \<and> (\<forall>p n t m r x. \<exists>i x'. b_create B p n t m r x = (Ok i, x') \<and> ids x' = ids x \<and> devs x' = devs x \<and> nodes x' = nodes x @ [(n, r)])"

text \<open>What is behind the nodes: the domain that their number was registered for.\<close>

definition dev_tree :: "('x \<Rightarrow> devs) \<Rightarrow> ('x \<Rightarrow> (u8 list \<times> u64 option) list) \<Rightarrow> 'x \<Rightarrow> (u8 list \<times> u8 list option) list" where
  "dev_tree devs nodes x = map (\<lambda>(n, r). (n, Option.bind r (bt_get (dm_names (devs x))))) (nodes x)"

text \<open>The numbers in use were handed out, at most \<open>m\<close> of each kind.\<close>

definition id_count :: "(u32, u32) btree \<Rightarrow> u32 \<Rightarrow> u32" where
  "id_count ids t = (case bt_get ids t of None \<Rightarrow> 0 | Some n \<Rightarrow> n)"

definition dev_inv :: "(u32 \<Rightarrow> u32 \<Rightarrow> u64) \<Rightarrow> ('x \<Rightarrow> (u32, u32) btree) \<Rightarrow> ('x \<Rightarrow> devs) \<Rightarrow> ('x \<Rightarrow> (u8 list \<times> u64 option) list) \<Rightarrow> nat \<Rightarrow> 'x \<Rightarrow> bool" where
  "dev_inv device_id ids devs nodes m x \<longleftrightarrow>
     (\<forall>i. bt_get (dm_names (devs x)) i \<noteq> None \<longrightarrow> (\<exists>t n. i = device_id t n \<and> n \<le> id_count (ids x) t))
   \<and> (\<forall>n i. (n, Some i) \<in> set (nodes x) \<longrightarrow> bt_get (dm_names (devs x)) i \<noteq> None)
   \<and> (\<forall>t. unat (id_count (ids x) t) \<le> m)"

lemma id_count_insert: "id_count (bt_insert t n ids) u = (if u = t then n else id_count ids u)"
  by (simp add: id_count_def)

lemma device_id_alloc_run:
  "t = NodeChar \<or> t = NodeBlock \<Longrightarrow> device_id_alloc device_id t ids =
     (Ok (device_id (vnode_to_u32 t) (id_count ids (vnode_to_u32 t) + 1)), bt_insert (vnode_to_u32 t) (id_count ids (vnode_to_u32 t) + 1) ids)"
  by (simp add: device_id_alloc_def id_count_def act_simps Let_def)

lemma boot_alloc:
  assumes "boot_law B device_id domains ids devs nodes" and t: "t = NodeChar \<or> t = NodeBlock"
  obtains x' where "b_alloc_device_id B t x = (Ok (device_id (vnode_to_u32 t) (id_count (ids x) (vnode_to_u32 t) + 1)), x')"
    "ids x' = bt_insert (vnode_to_u32 t) (id_count (ids x) (vnode_to_u32 t) + 1) (ids x)" "devs x' = devs x" "nodes x' = nodes x"
  using assms(1) [unfolded boot_law_def, THEN conjunct2, THEN conjunct1, THEN spec [where x = t], THEN spec [where x = x]]
  unfolding device_id_alloc_run [OF t] by (auto intro: that)

lemma add_device_tree:
  assumes B: "boot_law B device_id domains ids devs nodes" and inj: "\<forall>a b c d. device_id a b = device_id c d \<longrightarrow> a = c \<and> b = d"
    and x: "dev_inv device_id ids devs nodes m x" "m < 100" and t: "t = NodeChar \<or> t = NodeBlock"
  shows "\<exists>x'. add_device B root node t name x = (Ok (), x') \<and> dev_inv device_id ids devs nodes (Suc m) x'
    \<and> dev_tree devs nodes x' = dev_tree devs nodes x @ [(node, Some name)]"
proof -
  let ?t = "vnode_to_u32 t" let ?n = "id_count (ids x) ?t + 1" let ?i = "device_id ?t ?n"
  obtain x1 where 1: "b_alloc_device_id B t x = (Ok ?i, x1)" "ids x1 = bt_insert ?t ?n (ids x)" "devs x1 = devs x" "nodes x1 = nodes x"
    by (rule boot_alloc [OF B t])
  obtain x2 where 2: "b_register B ?i name x1 = (Ok (), x2)" "ids x2 = ids x1" "devs x2 = snd (devfs_register (\<lambda>_. True) ?i name (devs x1))"
    "nodes x2 = nodes x1"
    using B unfolding boot_law_def by blast
  obtain j x3 where 3: "b_create B root node t ''rw-rw----'' (Some ?i) x2 = (Ok j, x3)" "ids x3 = ids x2" "devs x3 = devs x2"
    "nodes x3 = nodes x2 @ [(node, Some ?i)]"
    using B unfolding boot_law_def by blast
  have names: "dm_names (devs x3) = bt_insert ?i name (dm_names (devs x))"
    by (simp add: 1 2 3 devfs_register_def act_simps)
  have n: "unat ?n = unat (id_count (ids x) ?t) + 1"
  proof -
    have "unat (id_count (ids x) ?t) \<le> m" using x(1) by (simp add: dev_inv_def)
    with x(2) show ?thesis by (simp add: unat_word_ariths)
  qed
  have fresh: "bt_get (dm_names (devs x)) ?i = None"
  proof (rule ccontr)
    assume "bt_get (dm_names (devs x)) ?i \<noteq> None"
    then obtain u k where "?i = device_id u k" "k \<le> id_count (ids x) u" using x(1) unfolding dev_inv_def by blast
    with inj have "?t = u \<and> ?n = k" by blast
    with \<open>k \<le> id_count (ids x) u\<close> have "?n \<le> id_count (ids x) ?t" by auto
    with n show False by (simp add: word_le_nat_alt)
  qed
  have old: "i \<noteq> ?i" if "(nd, Some i) \<in> set (nodes x)" for nd i
  proof -
    have "bt_get (dm_names (devs x)) i \<noteq> None" using that x(1) unfolding dev_inv_def by blast
    with fresh show ?thesis by auto
  qed
  have "dev_tree devs nodes x3 = dev_tree devs nodes x @ [(node, Some name)]"
  proof -
    have "map (\<lambda>(n, r). (n, Option.bind r (bt_get (bt_insert ?i name (dm_names (devs x)))))) (nodes x)
        = map (\<lambda>(n, r). (n, Option.bind r (bt_get (dm_names (devs x))))) (nodes x)"
    proof (rule map_cong [OF refl])
      fix e assume e: "e \<in> set (nodes x)"
      obtain nd r where "e = (nd, r)" by fastforce
      with e old show "(case e of (n, r) \<Rightarrow> (n, Option.bind r (bt_get (bt_insert ?i name (dm_names (devs x))))))
          = (case e of (n, r) \<Rightarrow> (n, Option.bind r (bt_get (dm_names (devs x)))))"
        by (cases r) auto
    qed
    then show ?thesis unfolding dev_tree_def names 3(4) 2(4) 1(4) by simp
  qed
  moreover have "dev_inv device_id ids devs nodes (Suc m) x3"
  proof -
    have le: "n \<le> id_count (ids x3) u" if "n \<le> id_count (ids x) u" for n u
    proof (cases "u = ?t")
      case True
      then have "unat n \<le> unat ?n" using that n by (simp add: word_le_nat_alt)
      then show ?thesis using True unfolding 3(2) 2(2) 1(2) id_count_insert by (simp add: word_le_nat_alt)
    qed (use that in \<open>simp add: 3(2) 2(2) 1(2) id_count_insert\<close>)
    have "\<exists>t n. i = device_id t n \<and> n \<le> id_count (ids x3) t" if "bt_get (dm_names (devs x3)) i \<noteq> None" for i
    proof (cases "i = ?i")
      case True
      then show ?thesis by (intro exI conjI, assumption) (simp add: 3(2) 2(2) 1(2) id_count_insert)
    next
      case False
      with that have "bt_get (dm_names (devs x)) i \<noteq> None" by (simp add: names)
      with x(1) obtain t n where "i = device_id t n" "n \<le> id_count (ids x) t" unfolding dev_inv_def by blast
      with le show ?thesis by blast
    qed
    moreover have "bt_get (dm_names (devs x3)) i \<noteq> None" if "(nd, Some i) \<in> set (nodes x3)" for nd i
      using that x(1) by (auto simp: 3(4) 2(4) 1(4) names dev_inv_def)
    moreover have "unat (id_count (ids x3) u) \<le> Suc m" for u
    proof -
      have "unat (id_count (ids x) v) \<le> m" for v using x(1) by (simp add: dev_inv_def)
      from this [of ?t] this [of u] n show ?thesis by (simp add: 3(2) 2(2) 1(2) id_count_insert)
    qed
    ultimately show ?thesis unfolding dev_inv_def by blast
  qed
  ultimately show ?thesis using 1(1) 2(1) 3(1) by (simp add: add_device_def act_simps)
qed


lemma dev_inv_mono: "dev_inv device_id ids devs nodes m x \<Longrightarrow> dev_inv device_id ids devs nodes (Suc m) x"
  by (auto simp: dev_inv_def le_SucI)

definition node_of :: "u8 list \<Rightarrow> u8 list option \<Rightarrow> (u8 list \<times> u8 list option) list" where
  "node_of node found = (case found of None \<Rightarrow> [] | Some name \<Rightarrow> [(node, Some name)])"

lemma add_found_tree:
  assumes "boot_law B device_id domains ids devs nodes" "\<forall>a b c d. device_id a b = device_id c d \<longrightarrow> a = c \<and> b = d"
    and "dev_inv device_id ids devs nodes m x" "m < 100"
  shows "\<exists>x'. add_found B root node found x = (Ok (), x') \<and> dev_inv device_id ids devs nodes (Suc m) x'
    \<and> dev_tree devs nodes x' = dev_tree devs nodes x @ node_of node found"
proof (cases found)
  case None
  then show ?thesis using dev_inv_mono [OF assms(3)] by (simp add: add_found_def node_of_def act_simps)
next
  case (Some name)
  then show ?thesis using add_device_tree [OF assms, of NodeChar root node name] by (simp add: add_found_def node_of_def)
qed

definition first_domain :: "(u8 list \<Rightarrow> domain_type option) \<Rightarrow> domain_type list \<Rightarrow> string list \<Rightarrow> u8 list option" where
  "first_domain domains kinds names = find (\<lambda>n. \<exists>k\<in>set kinds. domains n = Some k) (map bytes_of names)"

lemma find_domain_run:
  assumes "boot_law B device_id domains ids devs nodes"
  shows "find_domain_of B kinds (map bytes_of names) x = (Ok (first_domain domains kinds names), x)"
proof (induction names)
  case (Cons n ns)
  have "b_get_domain B (bytes_of n) x = (Ok (domains (bytes_of n)), x)" using assms by (simp add: boot_law_def)
  with Cons show ?case by (auto simp: first_domain_def act_simps split: option.split)
qed (simp add: first_domain_def act_simps)

definition scanned :: "(u8 list \<Rightarrow> domain_type option) \<Rightarrow> (u8 list \<times> u8 list option) list" where
  "scanned domains =
     [(bytes_of ''tty'', Some (bytes_of ''buf_uart''))]
     @ node_of (bytes_of ''gpu'') (first_domain domains [GpuDomain, BufInputDomain] [''gpu'', ''gpu-1'', ''virtio_gpu-1'', ''virtio_gpu''])
     @ node_of (bytes_of ''mouse'') (first_domain domains [GpuDomain, BufInputDomain] [''mouse'', ''buf_input-2'', ''buf_input-1''])
     @ node_of (bytes_of ''keyboard'') (first_domain domains [GpuDomain, BufInputDomain] [''keyboard'', ''buf_input-1'', ''buf_input-2''])
     @ [(bytes_of ''sda'', Some (bytes_of ''cache_blk-1''))]
     @ node_of (bytes_of ''rtc'') (first_domain domains [RtcDomain] [''rtc'', ''goldfish''])"

lemma scan_tree:
  assumes B: "boot_law B device_id domains ids devs nodes" and inj: "\<forall>a b c d. device_id a b = device_id c d \<longrightarrow> a = c \<and> b = d"
    and x: "dev_inv device_id ids devs nodes m x" "m < 90" and i: "\<And>x. inode root_dt x = (Ok root, x)"
    and d: "domains (bytes_of ''buf_uart'') \<noteq> None" "domains (bytes_of ''cache_blk-1'') \<noteq> None"
  shows "\<exists>x'. scan_system_devices B inode root_dt x = (Ok (), x') \<and> dev_tree devs nodes x' = dev_tree devs nodes x @ scanned domains"
proof -
  note add = add_device_tree [OF B inj] and found = add_found_tree [OF B inj]
  let ?gpu = "first_domain domains [GpuDomain, BufInputDomain] [''gpu'', ''gpu-1'', ''virtio_gpu-1'', ''virtio_gpu'']"
    and ?mouse = "first_domain domains [GpuDomain, BufInputDomain] [''mouse'', ''buf_input-2'', ''buf_input-1'']"
    and ?keyboard = "first_domain domains [GpuDomain, BufInputDomain] [''keyboard'', ''buf_input-1'', ''buf_input-2'']"
    and ?rtc = "first_domain domains [RtcDomain] [''rtc'', ''goldfish'']"
  have get: "b_get_domain B n x = (Ok (domains n), x)" for n x using B by (simp add: boot_law_def)
  have find: "find_domain_of B ks (map bytes_of ns) x = (Ok (first_domain domains ks ns), x)" for ks ns x
    by (rule find_domain_run [OF B])
  obtain x1 where 1: "add_device B root (bytes_of ''tty'') NodeChar (bytes_of ''buf_uart'') x = (Ok (), x1)"
    "dev_inv device_id ids devs nodes (Suc m) x1" "dev_tree devs nodes x1 = dev_tree devs nodes x @ [(bytes_of ''tty'', Some (bytes_of ''buf_uart''))]"
    using add [OF x(1), of NodeChar root "bytes_of ''tty''" "bytes_of ''buf_uart''"] x(2) by auto
  obtain x2 where 2: "add_found B root (bytes_of ''gpu'') ?gpu x1 = (Ok (), x2)" "dev_inv device_id ids devs nodes (Suc (Suc m)) x2"
    "dev_tree devs nodes x2 = dev_tree devs nodes x1 @ node_of (bytes_of ''gpu'') ?gpu"
    using found [OF 1(2), of root "bytes_of ''gpu''" ?gpu] x(2) by auto
  obtain x3 where 3: "add_found B root (bytes_of ''mouse'') ?mouse x2 = (Ok (), x3)" "dev_inv device_id ids devs nodes (Suc (Suc (Suc m))) x3"
    "dev_tree devs nodes x3 = dev_tree devs nodes x2 @ node_of (bytes_of ''mouse'') ?mouse"
    using found [OF 2(2), of root "bytes_of ''mouse''" ?mouse] x(2) by auto
  obtain x4 where 4: "add_found B root (bytes_of ''keyboard'') ?keyboard x3 = (Ok (), x4)" "dev_inv device_id ids devs nodes (Suc (Suc (Suc (Suc m)))) x4"
    "dev_tree devs nodes x4 = dev_tree devs nodes x3 @ node_of (bytes_of ''keyboard'') ?keyboard"
    using found [OF 3(2), of root "bytes_of ''keyboard''" ?keyboard] x(2) by auto
  obtain x5 where 5: "add_device B root (bytes_of ''sda'') NodeBlock (bytes_of ''cache_blk-1'') x4 = (Ok (), x5)"
    "dev_inv device_id ids devs nodes (Suc (Suc (Suc (Suc (Suc m))))) x5"
    "dev_tree devs nodes x5 = dev_tree devs nodes x4 @ [(bytes_of ''sda'', Some (bytes_of ''cache_blk-1''))]"
    using add [OF 4(2), of NodeBlock root "bytes_of ''sda''" "bytes_of ''cache_blk-1''"] x(2) by auto
  obtain x6 where 6: "add_found B root (bytes_of ''rtc'') ?rtc x5 = (Ok (), x6)"
    "dev_tree devs nodes x6 = dev_tree devs nodes x5 @ node_of (bytes_of ''rtc'') ?rtc"
    using found [OF 5(2), of root "bytes_of ''rtc''" ?rtc] x(2) by auto
  have fgpu: "find_domain_name B [bytes_of ''gpu'', bytes_of ''gpu-1'', bytes_of ''virtio_gpu-1'', bytes_of ''virtio_gpu''] x = (Ok ?gpu, x)" for x
    using find [of _ "[''gpu'', ''gpu-1'', ''virtio_gpu-1'', ''virtio_gpu'']"] by (simp only: find_domain_name_def list.map)
  have fmouse: "find_domain_name B [bytes_of ''mouse'', bytes_of ''buf_input-2'', bytes_of ''buf_input-1''] x = (Ok ?mouse, x)" for x
    using find [of _ "[''mouse'', ''buf_input-2'', ''buf_input-1'']"] by (simp only: find_domain_name_def list.map)
  have fkeyboard: "find_domain_name B [bytes_of ''keyboard'', bytes_of ''buf_input-1'', bytes_of ''buf_input-2''] x = (Ok ?keyboard, x)" for x
    using find [of _ "[''keyboard'', ''buf_input-1'', ''buf_input-2'']"] by (simp only: find_domain_name_def list.map)
  have frtc: "find_rtc_domain_name B [bytes_of ''rtc'', bytes_of ''goldfish''] x = (Ok ?rtc, x)" for x
    using find [of _ "[''rtc'', ''goldfish'']"] by (simp only: find_rtc_domain_name_def list.map)
  have "scan_system_devices B inode root_dt x = (Ok (), x6)"
    using d by (simp add: scan_system_devices_def act_simps i get fgpu fmouse fkeyboard frtc 1(1) 2(1) 3(1) 4(1) 5(1) 6(1))
  then show ?thesis unfolding scanned_def by (simp add: 1(3) 2(3) 3(3) 4(3) 5(3) 6(2))
qed


lemma boot_register:
  assumes "boot_law B device_id domains ids devs nodes"
  obtains x' where "b_register B i n x = (Ok (), x')" "ids x' = ids x" "dm_names (devs x') = bt_insert i n (dm_names (devs x))"
    "nodes x' = nodes x"
proof -
  obtain x' where "b_register B i n x = (Ok (), x')" "ids x' = ids x" "devs x' = snd (devfs_register (\<lambda>_. True) i n (devs x))"
    "nodes x' = nodes x"
    using assms unfolding boot_law_def by blast
  then show ?thesis by (intro that [of x']) (simp_all add: devfs_register_def act_simps)
qed

lemma boot_create:
  assumes "boot_law B device_id domains ids devs nodes"
  obtains j x' where "b_create B p n t m r x = (Ok j, x')" "ids x' = ids x" "devs x' = devs x" "nodes x' = nodes x @ [(n, r)]"
  using assms unfolding boot_law_def by blast

text \<open>C30: after the start-up every node of \<open>/dev\<close> leads to its device. From an empty table, when the
  console and the block device are there, the nodes are exactly these, in this order, and the number of each
  is registered for the domain that serves it: the null and random devices under two names each, the console,
  the first display, mouse, keyboard and clock that exist under one of their names, and the block cache; no device takes over the
  number of another.\<close>

theorem boot_devices:
  assumes B: "boot_law B device_id domains ids devs nodes"
    and inj: "\<forall>a b c d. device_id a b = device_id c d \<longrightarrow> a = c \<and> b = d"
    and x: "ids x = bt_empty" "dm_names (devs x) = bt_empty" "nodes x = []" and i: "\<And>x. inode root_dt x = (Ok root, x)"
    and d: "domains (bytes_of ''buf_uart'') \<noteq> None" "domains (bytes_of ''cache_blk-1'') \<noteq> None"
  shows "\<exists>x'. init_devfs B inode root_dt x = (Ok (), x') \<and> dev_tree devs nodes x' =
     [(bytes_of ''null'', Some (bytes_of ''null'')), (bytes_of ''zero'', Some (bytes_of ''null'')),
      (bytes_of ''random'', Some (bytes_of ''random'')), (bytes_of ''urandom'', Some (bytes_of ''random'')),
      (bytes_of ''shm'', None), (bytes_of ''misc'', None)] @ scanned domains"
proof -
  let ?n = "device_id 2 1" let ?r = "device_id 2 2"
  have ne: "?n \<noteq> ?r"
  proof
    assume "?n = ?r"
    with inj have "(1 :: u32) = 2" by blast
    then show False by simp
  qed
  obtain x1 where 1: "b_alloc_device_id B NodeChar x = (Ok ?n, x1)" "ids x1 = bt_insert 2 1 (ids x)" "devs x1 = devs x" "nodes x1 = nodes x"
    using boot_alloc [OF B, of NodeChar x] x(1) by (auto simp: vnode_to_u32_def id_count_def bt_empty_def)
  obtain x2 where 2: "b_alloc_device_id B NodeChar x1 = (Ok ?r, x2)" "ids x2 = bt_insert 2 2 (ids x1)" "devs x2 = devs x1" "nodes x2 = nodes x1"
    using boot_alloc [OF B, of NodeChar x1] by (auto simp: vnode_to_u32_def id_count_def 1(2))
  obtain x3 where 3: "b_register B ?n (bytes_of ''null'') x2 = (Ok (), x3)" "ids x3 = ids x2"
    "dm_names (devs x3) = bt_insert ?n (bytes_of ''null'') (dm_names (devs x2))" "nodes x3 = nodes x2" by (rule boot_register [OF B])
  obtain x4 where 4: "b_register B ?r (bytes_of ''random'') x3 = (Ok (), x4)" "ids x4 = ids x3"
    "dm_names (devs x4) = bt_insert ?r (bytes_of ''random'') (dm_names (devs x3))" "nodes x4 = nodes x3" by (rule boot_register [OF B])
  obtain j5 x5 where 5: "b_create B root (bytes_of ''null'') NodeChar ''rw-rw-rw-'' (Some ?n) x4 = (Ok j5, x5)" "ids x5 = ids x4"
    "devs x5 = devs x4" "nodes x5 = nodes x4 @ [(bytes_of ''null'', Some ?n)]" by (rule boot_create [OF B])
  obtain j6 x6 where 6: "b_create B root (bytes_of ''zero'') NodeChar ''rw-rw-rw-'' (Some ?n) x5 = (Ok j6, x6)" "ids x6 = ids x5"
    "devs x6 = devs x5" "nodes x6 = nodes x5 @ [(bytes_of ''zero'', Some ?n)]" by (rule boot_create [OF B])
  obtain j7 x7 where 7: "b_create B root (bytes_of ''random'') NodeChar ''rw-rw-rw-'' (Some ?r) x6 = (Ok j7, x7)" "ids x7 = ids x6"
    "devs x7 = devs x6" "nodes x7 = nodes x6 @ [(bytes_of ''random'', Some ?r)]" by (rule boot_create [OF B])
  obtain j8 x8 where 8: "b_create B root (bytes_of ''urandom'') NodeChar ''rw-rw-rw-'' (Some ?r) x7 = (Ok j8, x8)" "ids x8 = ids x7"
    "devs x8 = devs x7" "nodes x8 = nodes x7 @ [(bytes_of ''urandom'', Some ?r)]" by (rule boot_create [OF B])
  obtain j9 x9 where 9: "b_create B root (bytes_of ''shm'') NodeDir ''rwxrwxrwx'' None x8 = (Ok j9, x9)" "ids x9 = ids x8"
    "devs x9 = devs x8" "nodes x9 = nodes x8 @ [(bytes_of ''shm'', None)]" by (rule boot_create [OF B])
  obtain j10 y where 10: "b_create B root (bytes_of ''misc'') NodeDir ''rwxrwxrwx'' None x9 = (Ok j10, y)" "ids y = ids x9"
    "devs y = devs x9" "nodes y = nodes x9 @ [(bytes_of ''misc'', None)]" by (rule boot_create [OF B])
  have names: "dm_names (devs y) = bt_insert ?r (bytes_of ''random'') (bt_insert ?n (bytes_of ''null'') bt_empty)"
    by (simp add: 10(3) 9(3) 8(3) 7(3) 6(3) 5(3) 4(3) 3(3) 2(3) 1(3) x(2))
  have count: "id_count (ids y) t = (if t = 2 then 2 else 0)" for t
    by (simp add: 10(2) 9(2) 8(2) 7(2) 6(2) 5(2) 4(2) 3(2) 2(2) 1(2) x(1) id_count_def bt_empty_def)
  have nodes: "nodes y = [(bytes_of ''null'', Some ?n), (bytes_of ''zero'', Some ?n), (bytes_of ''random'', Some ?r),
      (bytes_of ''urandom'', Some ?r), (bytes_of ''shm'', None), (bytes_of ''misc'', None)]"
    by (simp add: 10(4) 9(4) 8(4) 7(4) 6(4) 5(4) 4(4) 3(4) 2(4) 1(4) x(3))
  have "dev_inv device_id ids devs nodes 2 y"
    unfolding dev_inv_def
  proof (intro conjI allI impI)
    fix k assume "bt_get (dm_names (devs y)) k \<noteq> None"
    then have "k = device_id 2 1 \<or> k = device_id 2 2" by (auto simp: names bt_empty_def split: if_splits)
    then show "\<exists>t n. k = device_id t n \<and> n \<le> id_count (ids y) t"
      by (elim disjE) (intro exI conjI, assumption, simp add: count)+
  qed (auto simp: names nodes count)
  from scan_tree [OF B inj this, of inode root_dt root] i d obtain x' where s: "scan_system_devices B inode root_dt y = (Ok (), x')"
    "dev_tree devs nodes x' = dev_tree devs nodes y @ scanned domains" by auto
  have "dev_tree devs nodes y =
     [(bytes_of ''null'', Some (bytes_of ''null'')), (bytes_of ''zero'', Some (bytes_of ''null'')),
      (bytes_of ''random'', Some (bytes_of ''random'')), (bytes_of ''urandom'', Some (bytes_of ''random'')),
      (bytes_of ''shm'', None), (bytes_of ''misc'', None)]"
    unfolding dev_tree_def nodes names using ne by simp
  moreover have "init_devfs B inode root_dt x = (Ok (), x')"
    by (simp add: init_devfs_def act_simps i 1(1) 2(1) 3(1) 4(1) 5(1) 6(1) 7(1) 8(1) 9(1) 10(1) s(1))
  ultimately show ?thesis using s(2) by simp
qed


text \<open>A machine with a console, a block device and one input device.\<close>

definition small_boot :: "(unit, unit, unit, (u32, u32) btree \<times> devs \<times> (u8 list \<times> u64 option) list) boot_env" where
  "small_boot = \<lparr> b_get_domain = (\<lambda>n. ret (if n = bytes_of ''buf_uart'' then Some BufUartDomain
       else if n = bytes_of ''cache_blk-1'' then Some CacheBlkDeviceDomain else if n = bytes_of ''buf_input-1'' then Some BufInputDomain else None)),
     b_create_domain = (\<lambda>n. ret (FsDomain, [97, 0])), b_mount = (\<lambda>n m d. ret 0), b_root_inode_id = (\<lambda>n. ret 0),
     b_shim = (\<lambda>n i. ret ()), b_shim_of = (\<lambda>d. None),
     b_register = (\<lambda>i n (m, v, ns). (Ok (), m, snd (devfs_register (\<lambda>_. True) i n v), ns)),
     b_alloc_device_id = (\<lambda>t (m, v, ns). (fst (device_id_alloc word_cat t m), snd (device_id_alloc word_cat t m), v, ns)),
     b_create = (\<lambda>i n t p r (m, v, ns). (Ok (), m, v, ns @ [(n, r)])), b_find = (\<lambda>d n. ret None), b_path_mount = (\<lambda>p d. ret ()),
     b_print_fs_tree = (\<lambda>d. ret ()), b_entries = (\<lambda>b. None), b_symbolic_link = (\<lambda>m. False), b_regular_file = (\<lambda>m. True),
     b_root_id = 0, b_stdin_id = 1, b_stdout_id = 2, b_stderr_id = 3 \<rparr>"

definition small_domains :: "u8 list \<Rightarrow> domain_type option" where
  "small_domains n = (if n = bytes_of ''buf_uart'' then Some BufUartDomain
       else if n = bytes_of ''cache_blk-1'' then Some CacheBlkDeviceDomain else if n = bytes_of ''buf_input-1'' then Some BufInputDomain else None)"

lemma small_law: "boot_law small_boot word_cat small_domains fst (\<lambda>x. fst (snd x)) (\<lambda>x. snd (snd x))"
  by (simp add: boot_law_def small_boot_def small_domains_def act_simps)

theorem boot_devices_witness:
  "\<exists>x'. init_devfs small_boot ret () (bt_empty, devs_new, []) = (Ok (), x')
    \<and> last (dev_tree (\<lambda>x. fst (snd x)) (\<lambda>x. snd (snd x)) x') = last (scanned small_domains)"
proof -
  have inj: "\<forall>a b c d. (word_cat (a :: u32) (b :: u32) :: u64) = word_cat c d \<longrightarrow> a = c \<and> b = d"
  proof (intro allI impI)
    fix a b c d :: u32
    assume "(word_cat a b :: u64) = word_cat c d"
    then have "(word_split (word_cat a b :: u64) :: u32 \<times> u32) = word_split (word_cat c d :: u64)" by simp
    moreover have "(word_split (word_cat p q :: u64) :: u32 \<times> u32) = (p, q)" for p q :: u32
      by (rule word_split_cat_alt [OF refl]) (simp add: word_size)
    ultimately show "a = c \<and> b = d" by simp
  qed
  have d: "small_domains (bytes_of ''buf_uart'') \<noteq> None" "small_domains (bytes_of ''cache_blk-1'') \<noteq> None"
    by (simp_all add: small_domains_def)
  have s: "scanned small_domains \<noteq> []" by (simp add: scanned_def)
  from boot_devices [OF small_law inj, of "(bt_empty, devs_new, [])" ret "()" "()"] d s show ?thesis
    by (auto simp: devs_new_def act_simps)
qed


section \<open>The second version of the domain\<close>

text \<open>
  \<open>common/vfs2\<close> is the domain that can take the place of \<open>common/vfs\<close> while the system runs. Its code is the
  same but for what follows and for messages: a write to an unknown file is an error instead of a panic, and
  a file is truncated through its path.
\<close>

definition vfs2_write :: "('d, 'i, 'st, 'p, 'x, 'n) venv \<Rightarrow> u64 \<Rightarrow> u8 list \<Rightarrow> nat
    \<Rightarrow> (('d, 'x, 'n) vfs, nat progress) act" where
  "vfs2_write E inode buf w_len =
     bind get_state (\<lambda>s. bind (lift (ok_or (get_file inode s) EINVAL)) (\<lambda>f.
     if length buf \<noteq> w_len then
       (if length buf < w_len then abort else file_write E inode f (take w_len buf))
     else file_write E inode f buf))"

text \<open>\<open>path_truncate\<close> is \<open>VfsPath::new(system_root_fs(), dt).truncate(len)\<close>.\<close>

definition kf2_truncate :: "abi \<Rightarrow> ('d \<Rightarrow> u64 \<Rightarrow> ('x, unit) act) \<Rightarrow> 'd \<Rightarrow> u64 \<Rightarrow> ('x kstate, unit) act" where
  "kf2_truncate A path_truncate d len =
     bind get_state (\<lambda>s.
     let open_flag = km_open_flag (k_meta s) in
     if \<not> contains open_flag (O_WRONLY A) \<and> \<not> contains open_flag (O_RDWR A) then fail EINVAL
     else in_fs (path_truncate d len))"

lemma vfs2_write_agrees: "vfs2_write E inode buf w_len s =
    (case vfs_write E inode buf w_len s of (r, t) \<Rightarrow> if get_file inode s = None then (Err EINVAL, s) else (r, t))"
  by (cases "get_file inode s") (simp_all add: vfs2_write_def vfs_write_def file_of_def act_simps)

lemma kf2_truncate_agrees:
  "(\<And>x. path_truncate d len x = bind (d_inode F d) (\<lambda>inode. i_truncate F inode len) x) \<Longrightarrow>
     kf2_truncate A path_truncate d len = kf_truncate A F d len"
  by (rule ext) (simp add: kf2_truncate_def kf_truncate_def act_simps Let_def split: prod.split sum.split)

end
