(* ===== verification/Drivers.thy ===== *)
theory Drivers
  imports ProcFs DevFs
begin

text \<open>
  Device drivers with code of their own: the devices without hardware (\<open>drivers/null\<close>, \<open>drivers/hpet\<close>,
  \<open>drivers/random\<close>) and the serial ports (\<open>drivers/uart8250\<close>, down to its registers, and
  \<open>drivers/uart16550\<close>, over the crate \<open>safe_uart_16550\<close>).
\<close>

section \<open>Devices without hardware\<close>

definition null_read :: "u8 list \<Rightarrow> ('w, u8 list) act" where
  "null_read data = ret (replicate (length data) 0)"

definition null_write :: "u8 list \<Rightarrow> ('w, nat) act" where
  "null_write data = ret (length data)"

definition hpet_read :: "u8 list \<Rightarrow> ('w, u8 list) act" where
  "hpet_read data = ret (replicate (length data) 0)"

definition hpet_write :: "u8 list \<Rightarrow> ('w, nat) act" where
  "hpet_write data = ret (length data)"

text \<open>The bytes count down from the time in milliseconds.\<close>

definition random_read :: "('w, u64) act \<Rightarrow> u8 list \<Rightarrow> ('w, u8 list) act" where
  "random_read read_time_ms data = bind read_time_ms (\<lambda>current_time.
     ret (map (\<lambda>i. ucast (current_time - of_nat i)) [0..<length data]))"

definition random_write :: "u8 list \<Rightarrow> ('w, nat) act" where
  "random_write data = ret (length data)"

section \<open>The 8250\<close>

text \<open>\<open>SafeIORegion\<close>, 32-bit accesses at an offset; the registers are \<open>width\<close> bytes apart. Failing accesses panic.\<close>

record 'w region_ops =
  rg_read :: "nat \<Rightarrow> ('w, u32) act"
  rg_write :: "nat \<Rightarrow> u32 \<Rightarrow> ('w, unit) act"

definition u8250_enable_receive_interrupt :: "'w region_ops \<Rightarrow> nat \<Rightarrow> ('w, unit) act" where
  "u8250_enable_receive_interrupt R width =
     bind (must (rg_read R width)) (\<lambda>ier. must (rg_write R width (ucast ((ucast ier :: u8) OR 1))))"

definition u8250_disable_receive_interrupt :: "'w region_ops \<Rightarrow> nat \<Rightarrow> ('w, unit) act" where
  "u8250_disable_receive_interrupt R width =
     bind (must (rg_read R width)) (\<lambda>ier. must (rg_write R width (ucast ((ucast ier :: u8) AND NOT 1))))"

text \<open>The transmitter is polled until it is empty, at most \<open>fuel\<close> times; \<open>False\<close> when it is still busy.\<close>

fun u8250_loop_putc :: "nat \<Rightarrow> 'w region_ops \<Rightarrow> nat \<Rightarrow> u8 \<Rightarrow> ('w, bool) act" where
  "u8250_loop_putc 0 R width ch = ret False"
| "u8250_loop_putc (Suc fuel) R width ch =
     bind (must (rg_read R (width * 5))) (\<lambda>lsr.
     if lsr AND 0x20 \<noteq> 0 then bind (must (rg_write R 0 (ucast ch))) (\<lambda>_. ret True)
     else u8250_loop_putc fuel R width ch)"

definition u8250_putc :: "nat \<Rightarrow> 'w region_ops \<Rightarrow> nat \<Rightarrow> u8 \<Rightarrow> ('w, bool) act" where
  "u8250_putc fuel R width ch =
     bind (if ch = 10 then u8250_loop_putc fuel R width 13 else ret True) (\<lambda>sent.
     if sent then u8250_loop_putc fuel R width ch else ret False)"

definition u8250_getc :: "'w region_ops \<Rightarrow> nat \<Rightarrow> ('w, u8 option) act" where
  "u8250_getc R width =
     bind (must (rg_read R (width * 5))) (\<lambda>lsr.
     if (ucast lsr :: u8) AND 1 \<noteq> 0 then bind (must (rg_read R 0)) (\<lambda>c. ret (Some (ucast c))) else ret None)"

definition u8250_have_data_to_get :: "'w region_ops \<Rightarrow> nat \<Rightarrow> ('w, bool) act" where
  "u8250_have_data_to_get R width = bind (must (rg_read R (width * 5))) (\<lambda>lsr. ret (lsr AND 1 \<noteq> 0))"

text \<open>\<open>Uart8250Domain::put_bytes\<close>: the count of all bytes, or \<open>None\<close> while the transmitter is busy.\<close>

fun u8250_put_bytes :: "nat \<Rightarrow> 'w region_ops \<Rightarrow> nat \<Rightarrow> u8 list \<Rightarrow> ('w, nat option) act" where
  "u8250_put_bytes fuel R width [] = ret (Some 0)"
| "u8250_put_bytes fuel R width (c # cs) =
     bind (u8250_putc fuel R width c) (\<lambda>sent.
     if sent then bind (u8250_put_bytes fuel R width cs) (\<lambda>n. ret (map_option Suc n)) else ret None)"

definition u8250_init :: "'w region_ops \<Rightarrow> ('w, unit) act" where
  "u8250_init R = must (u8250_enable_receive_interrupt R 4)"

section \<open>The 16550\<close>

datatype uart_error = InvalidAddressRange | UnsupportedTransport | IoRegionAccessFailed

record 'w u16_ops =
  us_new :: "nat \<times> nat \<Rightarrow> ('w, uart_error + unit) act"     \<comment> \<open>\<open>new_pio\<close> or \<open>new_mmio\<close>, by target\<close>
  us_init :: "('w, unit) act"
  us_putc :: "u8 \<Rightarrow> ('w, unit) act"
  us_getc_nonblocking :: "('w, u8 option) act"
  us_put_bytes :: "u8 list \<Rightarrow> ('w, nat) act"
  us_have_data_to_get :: "('w, uart_error + bool) act"
  us_enable_receive_interrupt :: "('w, uart_error + unit) act"
  us_disable_receive_interrupt :: "('w, uart_error + unit) act"

definition map_uart_error :: "uart_error \<Rightarrow> errno" where
  "map_uart_error e = (case e of InvalidAddressRange \<Rightarrow> EINVAL | UnsupportedTransport \<Rightarrow> EINVAL | IoRegionAccessFailed \<Rightarrow> EIO)"

definition uart_try :: "('w, uart_error + 'a) act \<Rightarrow> ('w, 'a) act" where
  "uart_try m = bind m (\<lambda>r. case r of Inl e \<Rightarrow> fail (map_uart_error e) | Inr x \<Rightarrow> ret x)"

text \<open>The first component of the state says whether the port was initialised; before, a use is a panic.\<close>

definition u16_port :: "('w, 'a) act \<Rightarrow> (bool \<times> 'w, 'a) act" where
  "u16_port m = bind get_state (\<lambda>s. if fst s then zoom snd (\<lambda>w (b, _). (b, w)) m else abort)"

definition u16_enable_receive_interrupt :: "'w u16_ops \<Rightarrow> (bool \<times> 'w, unit) act" where
  "u16_enable_receive_interrupt U = u16_port (uart_try (us_enable_receive_interrupt U))"

definition u16_disable_receive_interrupt :: "'w u16_ops \<Rightarrow> (bool \<times> 'w, unit) act" where
  "u16_disable_receive_interrupt U = u16_port (uart_try (us_disable_receive_interrupt U))"

definition u16_init :: "'w u16_ops \<Rightarrow> nat \<times> nat \<Rightarrow> (bool \<times> 'w, unit) act" where
  "u16_init U region =
     bind (zoom snd (\<lambda>w (b, _). (b, w)) (bind (uart_try (us_new U region)) (\<lambda>_. us_init U))) (\<lambda>_.
     bind (modify_state (\<lambda>(_, w). (True, w))) (\<lambda>_. u16_enable_receive_interrupt U))"

definition u16_putc :: "'w u16_ops \<Rightarrow> u8 \<Rightarrow> (bool \<times> 'w, unit) act" where
  "u16_putc U ch = u16_port (bind (if ch = 10 then us_putc U 13 else ret ()) (\<lambda>_. us_putc U ch))"

definition u16_getc :: "'w u16_ops \<Rightarrow> (bool \<times> 'w, u8 option) act" where
  "u16_getc U = u16_port (us_getc_nonblocking U)"

definition u16_put_bytes :: "'w u16_ops \<Rightarrow> u8 list \<Rightarrow> (bool \<times> 'w, nat) act" where
  "u16_put_bytes U buf = u16_port (us_put_bytes U buf)"

definition u16_have_data_to_get :: "'w u16_ops \<Rightarrow> (bool \<times> 'w, bool) act" where
  "u16_have_data_to_get U = u16_port (uart_try (us_have_data_to_get U))"

section \<open>What the 8250 sends\<close>

definition crlf :: "u8 list \<Rightarrow> u8 list" where
  "crlf cs = concat (map (\<lambda>c. if c = 10 then [13, 10] else [c]) cs)"

text \<open>A transmitter that is busy for at most \<open>n\<close> polls: \<open>wait w\<close> is the number of polls left. Writing a
  character when it is empty sends it.\<close>

definition transmitter :: "'w region_ops \<Rightarrow> nat \<Rightarrow> nat \<Rightarrow> ('w \<Rightarrow> nat) \<Rightarrow> ('w \<Rightarrow> u8 list) \<Rightarrow> bool" where
  "transmitter R width n wait sent \<longleftrightarrow>
     (\<forall>w. wait w \<le> n)
   \<and> (\<forall>w. \<exists>lsr w'. rg_read R (width * 5) w = (Ok lsr, w') \<and> sent w' = sent w \<and> (lsr AND 0x20 \<noteq> 0 \<longleftrightarrow> wait w = 0) \<and> wait w' = wait w - 1)
   \<and> (\<forall>c w. wait w = 0 \<longrightarrow> (\<exists>w'. rg_write R 0 (ucast c) w = (Ok (), w') \<and> sent w' = sent w @ [c]))"

lemma loop_putc_sends:
  assumes T: "transmitter R width n wait sent" and "wait w < fuel"
  shows "\<exists>w'. u8250_loop_putc fuel R width c w = (Ok True, w') \<and> sent w' = sent w @ [c]"
  using assms(2)
proof (induction fuel arbitrary: w)
  case (Suc fuel)
  obtain lsr w1 where r: "rg_read R (width * 5) w = (Ok lsr, w1)" "sent w1 = sent w" "lsr AND 0x20 \<noteq> 0 \<longleftrightarrow> wait w = 0" "wait w1 = wait w - 1"
    using T unfolding transmitter_def by blast
  show ?case
  proof (cases "wait w = 0")
    case True
    then have "wait w1 = 0" using r(4) by simp
    then obtain w2 where "rg_write R 0 (ucast c) w1 = (Ok (), w2)" "sent w2 = sent w1 @ [c]"
      using T unfolding transmitter_def by blast
    then show ?thesis using r True by (simp add: act_simps)
  next
    case False
    then obtain w2 where "u8250_loop_putc fuel R width c w1 = (Ok True, w2)" "sent w2 = sent w1 @ [c]"
      using Suc.IH [of w1] Suc.prems r(4) False by fastforce
    then show ?thesis using r False by (simp add: act_simps)
  qed
qed simp

lemma putc_sends:
  assumes T: "transmitter R width n wait sent" and f: "n < fuel"
  shows "\<exists>w'. u8250_putc fuel R width c w = (Ok True, w') \<and> sent w' = sent w @ crlf [c]"
proof -
  have lt: "wait w < fuel" for w using T f unfolding transmitter_def by (meson le_less_trans)
  show ?thesis
  proof (cases "c = 10")
    case True
    obtain w1 where 1: "u8250_loop_putc fuel R width 13 w = (Ok True, w1)" "sent w1 = sent w @ [13]"
      using loop_putc_sends [OF T lt] by blast
    obtain w2 where 2: "u8250_loop_putc fuel R width 10 w1 = (Ok True, w2)" "sent w2 = sent w1 @ [10]"
      using loop_putc_sends [OF T lt] by blast
    show ?thesis using True 1 2 by (simp add: u8250_putc_def crlf_def act_simps)
  next
    case False
    then show ?thesis using loop_putc_sends [OF T lt [of w], of c] by (simp add: u8250_putc_def crlf_def act_simps)
  qed
qed

text \<open>The serial port sends everything it is given, with a carriage return before every line feed, and answers the
  number of bytes. When the transmitter is never busy for more than \<open>n\<close> polls no byte is lost, and polling
  \<open>n + 1\<close> times for each character is enough.\<close>

theorem u8250_sends_all:
  assumes "transmitter R width n wait sent" "n < fuel"
  shows "\<exists>w'. u8250_put_bytes fuel R width bs w = (Ok (Some (length bs)), w') \<and> sent w' = sent w @ crlf bs"
proof (induction bs arbitrary: w)
  case Nil
  show ?case by (simp add: crlf_def act_simps)
next
  case (Cons c cs)
  obtain w1 where 1: "u8250_putc fuel R width c w = (Ok True, w1)" "sent w1 = sent w @ crlf [c]"
    using putc_sends [OF assms] by blast
  obtain w2 where "u8250_put_bytes fuel R width cs w1 = (Ok (Some (length cs)), w2)" "sent w2 = sent w1 @ crlf cs"
    using Cons by blast
  then show ?case using 1 by (simp add: crlf_def act_simps)
qed

text \<open>A port that is busy for two polls after each character.\<close>

definition slow_port :: "(nat \<times> u8 list) region_ops" where
  "slow_port = \<lparr> rg_read = (\<lambda>off (b, bs). (Ok (if min b 2 = 0 then 0x20 else 0), min b 2 - 1, bs)),
     rg_write = (\<lambda>off v (b, bs). (Ok (), 2, bs @ [ucast v])) \<rparr>"

theorem u8250_sends_all_witness:
  "\<exists>b. u8250_put_bytes 3 slow_port 4 [104, 10] (0, []) = (Ok (Some 2), b, [104, 13, 10])"
proof -
  have "transmitter slow_port 4 2 (\<lambda>w. min (fst w) 2) snd"
    by (auto simp: transmitter_def slow_port_def ucast_up_ucast_id is_up)
  from u8250_sends_all [OF this, of 3 "[104, 10]" "(0, [])"] show ?thesis by (auto simp: crlf_def)
qed

section \<open>The null device has no end\<close>

text \<open>Reading \<open>/dev/null\<close> never comes to an end. Over an inode that is the null device (or the one of
  the clock, or the source of random bytes) every read of a non-empty buffer is answered in full, so that a
  program that reads the file to its end (\<open>cat_file\<close>, which aborts when its number of reads is used up) never
  ends, whatever number of reads it makes; the null device gives zeros, as \<open>/dev/zero\<close> does.\<close>

theorem null_has_no_end:
  assumes "\<And>x. d_inode F d x = (Ok i, x)" "0 < k" "contains (km_open_flag (k_meta s)) (O_RDONLY A)"
    and "i_read_at F i = empty_read_at D n" "\<And>buf. do_empty_read D n buf = null_read buf \<or> do_empty_read D n buf = hpet_read buf
      \<or> (\<exists>c. do_empty_read D n buf = random_read (ret c) buf)"
  shows "fst (cat_file fuel A F d k s) = panic
    \<and> (do_empty_read D n = null_read \<longrightarrow> fst (kf_read A F d (replicate k 1) s) = Ok (replicate k 0, k))"
proof -
  have full: "\<exists>b. empty_read_at D n off (replicate k c) x = (Ok (b, k), x) \<and> (do_empty_read D n = null_read \<longrightarrow> b = replicate k 0)" for off c x
  proof (cases "do_empty_read D n = null_read")
    case True
    then show ?thesis by (simp add: empty_read_at_def null_read_def act_simps)
  next
    case False
    then show ?thesis
      using assms(5) [of "replicate k c"] by (auto simp: empty_read_at_def null_read_def hpet_read_def random_read_def act_simps)
  qed
  have rd: "\<exists>b t. kf_read A F d (replicate k c) s = (Ok (b, k), t) \<and> k_meta t = (k_meta s)\<lparr>km_pos := km_pos (k_meta s) + of_nat k\<rparr>
      \<and> (do_empty_read D n = null_read \<longrightarrow> b = replicate k 0)" if "contains (km_open_flag (k_meta s)) (O_RDONLY A)" for s c
    using full [of "km_pos (k_meta s)" c "k_fs s"] assms(1,2,4) that by (auto simp: kf_read_def kf_read_at_def act_simps Let_def)
  have "fst (cat_file fuel A F d k s) = panic" using assms(3)
  proof (induction fuel arbitrary: s)
    case 0
    show ?case by (simp add: act_simps)
  next
    case (Suc fuel)
    obtain b t where t: "kf_read A F d (replicate k 0) s = (Ok (b, k), t)"
      "k_meta t = (k_meta s)\<lparr>km_pos := km_pos (k_meta s) + of_nat k\<rparr>" using rd [OF Suc.prems] by blast
    then have "fst (cat_file fuel A F d k t) = panic" using Suc by simp
    then obtain u where "cat_file fuel A F d k t = (panic, u)" by (cases "cat_file fuel A F d k t") simp
    then show ?case using t(1) assms(2) by (simp add: act_simps)
  qed
  moreover have "do_empty_read D n = null_read \<longrightarrow> fst (kf_read A F d (replicate k 1) s) = Ok (replicate k 0, k)"
    using rd [OF assms(3), of 1] by auto
  ultimately show ?thesis by blast
qed

theorem null_has_no_end_witness:
  "fst (cat_file 1000 linux_abi (text_fs (empty_read_at (no_devices\<lparr>do_empty_read := (\<lambda>n. null_read)\<rparr>) [])) () 512
     \<lparr> k_meta = kmeta_new 0 0 0 0 [], k_fs = () \<rparr>) = panic"
  using null_has_no_end [of "text_fs (empty_read_at (no_devices\<lparr>do_empty_read := (\<lambda>n. null_read)\<rparr>) [])" "()" "()" 512
      "\<lparr> k_meta = kmeta_new 0 0 0 0 [], k_fs = () \<rparr>" linux_abi "no_devices\<lparr>do_empty_read := (\<lambda>n. null_read)\<rparr>" "[]" 1000]
  by (simp add: text_fs_def act_simps contains_def kmeta_new_def del: cat_file.simps)

end
