(* ===== verification/Block.thy ===== *)
theory Block
  imports Externals
begin

text \<open>
  The block device stack: \<open>drivers/mem_block\<close> (a memory region as a disk), \<open>drivers/shadow_blk\<close>
  (the proxy that restarts a crashed driver) and \<open>drivers/cache_blk\<close> (the page cache that serves
  byte ranges). The locale \<open>block_device\<close> is what a client of the trait \<open>BlkDeviceDomain\<close> relies
  on; the memory disk and the proxy over it satisfy it, and the cache is proved inside it to be
  the flat array of bytes of the disk.

  The LRU map of the cache is the crate \<open>lru\<close>, a parameter: \<open>lru_ops\<close> holds the four methods the
  cache calls and \<open>lru_law\<close> what their documentation promises. \<open>FRAME_SIZE\<close> is the argument \<open>FS\<close>,
  the content of an uninitialised buffer the argument \<open>uninit\<close>.
\<close>

section \<open>The memory disk\<close>

record mem_block =
  mb_data :: "u8 list"

definition mb_new :: mem_block where
  "mb_new = \<lparr> mb_data = [] \<rparr>"

text \<open>\<open>init\<close>: the region becomes the given memory.\<close>

definition mb_init :: "u8 list option \<Rightarrow> (mem_block, unit) act" where
  "mb_init region = bind (lift (unwrap region)) (\<lambda>r. modify_state (\<lambda>s. s\<lparr>mb_data := r\<rparr>))"

definition mb_read_blocks :: "u64 \<Rightarrow> u8 list \<Rightarrow> (mem_block, u8 list \<times> nat) act" where
  "mb_read_blocks block data =
     (if length data mod 512 \<noteq> 0 then fail EINVAL
      else bind get_state (\<lambda>s.
        let io_region = mb_data s;
            start = unat (block * 512);
            stop = start + length data;
            copy_start = min (length io_region) start;
            copy_end = min (length io_region) stop
        in ret (splice 0 (slice copy_start (copy_end - copy_start) io_region) data,
                copy_end - copy_start)))"

definition mb_write_blocks :: "u64 \<Rightarrow> u8 list \<Rightarrow> (mem_block, nat) act" where
  "mb_write_blocks block data =
     (if length data mod 512 \<noteq> 0 then fail EINVAL
      else bind get_state (\<lambda>s.
        let io_region = mb_data s;
            start = unat (block * 512);
            stop = start + length data;
            copy_start = min (length io_region) start;
            copy_end = min (length io_region) stop
        in bind (modify_state (\<lambda>s. s\<lparr>mb_data :=
                splice copy_start (take (copy_end - copy_start) data) io_region\<rparr>)) (\<lambda>_.
           ret (copy_end - copy_start))))"

definition mb_read_block :: "u32 \<Rightarrow> u8 list \<Rightarrow> (mem_block, u8 list) act" where
  "mb_read_block block data = bind (mb_read_blocks (ucast block) data) (\<lambda>(data, _). ret data)"

definition mb_write_block :: "u32 \<Rightarrow> u8 list \<Rightarrow> (mem_block, nat) act" where
  "mb_write_block block data = mb_write_blocks (ucast block) data"

definition mb_get_capacity :: "(mem_block, u64) act" where
  "mb_get_capacity = bind get_state (\<lambda>s. ret (of_nat (length (mb_data s)) div 512))"

section \<open>The trait of block devices\<close>

record 'd blk_ops =
  b_read_block :: "u32 \<Rightarrow> u8 list \<Rightarrow> ('d, u8 list) act"
  b_write_block :: "u32 \<Rightarrow> u8 list \<Rightarrow> ('d, nat) act"
  b_get_capacity :: "('d, u64) act"
  b_flush :: "('d, unit) act"

definition mem_ops :: "mem_block blk_ops" where
  "mem_ops = \<lparr> b_read_block = mb_read_block, b_write_block = mb_write_block,
     b_get_capacity = mb_get_capacity, b_flush = ret () \<rparr>"

section \<open>The proxy\<close>

text \<open>
  \<open>ShadowBlockDomainImpl\<close> over a driver with the operations \<open>B\<close>. \<open>sb_name\<close> and \<open>sb_blk\<close> are the
  two \<open>Once\<close> cells (the driver itself is shared, its state is \<open>sb_dev\<close>); \<open>checkout\<close> is
  \<open>basic::checkout_shared_data\<close>, after which the driver has been restarted.
\<close>

record 'd shadow_blk =
  sb_name :: "string option"
  sb_blk :: bool
  sb_dev :: 'd

definition sb_new :: "'d \<Rightarrow> 'd shadow_blk" where
  "sb_new d = \<lparr> sb_name = None, sb_blk = False, sb_dev = d \<rparr>"

text \<open>The domain found under the name: \<open>None\<close> no such domain, \<open>Some False\<close> one of another type.\<close>

definition sb_init :: "(string \<Rightarrow> bool option) \<Rightarrow> string \<Rightarrow> ('d shadow_blk, unit) act" where
  "sb_init get_domain blk_domain =
     bind (lift (unwrap (get_domain blk_domain))) (\<lambda>is_blk.
     bind (assert_that is_blk) (\<lambda>_.
     bind (modify_state (\<lambda>s. s\<lparr>sb_name := (case sb_name s of None \<Rightarrow> Some blk_domain | n \<Rightarrow> n)\<rparr>)) (\<lambda>_.
     modify_state (\<lambda>s. s\<lparr>sb_blk := True\<rparr>))))"

definition on_dev :: "('d, 'a) act \<Rightarrow> ('d shadow_blk, 'a) act" where
  "on_dev m = bind get_state (\<lambda>s. bind (assert_that (sb_blk s)) (\<lambda>_.
     zoom sb_dev (\<lambda>d s. s\<lparr>sb_dev := d\<rparr>) m))"

definition sb_read_block :: "'d blk_ops \<Rightarrow> ('d, unit) act \<Rightarrow> u8 list \<Rightarrow> u32 \<Rightarrow> u8 list
    \<Rightarrow> ('d shadow_blk, u8 list) act" where
  "sb_read_block B checkout uninit block data =
     bind (attempt (on_dev (b_read_block B block data))) (\<lambda>res. case res of
       Inr r \<Rightarrow> ret r
     | Inl DOMAINCRASH \<Rightarrow>
         bind (must (on_dev checkout)) (\<lambda>_. on_dev (b_read_block B block uninit))
     | Inl e \<Rightarrow> fail e)"

definition sb_write_block :: "'d blk_ops \<Rightarrow> u32 \<Rightarrow> u8 list \<Rightarrow> ('d shadow_blk, nat) act" where
  "sb_write_block B block data = on_dev (b_write_block B block data)"

definition sb_get_capacity :: "'d blk_ops \<Rightarrow> ('d shadow_blk, u64) act" where
  "sb_get_capacity B = on_dev (b_get_capacity B)"

definition sb_flush :: "'d blk_ops \<Rightarrow> ('d shadow_blk, unit) act" where
  "sb_flush B = on_dev (b_flush B)"

definition shadow_ops :: "'d blk_ops \<Rightarrow> ('d, unit) act \<Rightarrow> u8 list \<Rightarrow> 'd shadow_blk blk_ops" where
  "shadow_ops B checkout uninit = \<lparr> b_read_block = sb_read_block B checkout uninit,
     b_write_block = sb_write_block B, b_get_capacity = sb_get_capacity B, b_flush = sb_flush B \<rparr>"

section \<open>The page cache\<close>

type_synonym page_cache = "u8 list list"

text \<open>\<open>PageCache::copy_to\<close>: \<open>n\<close> bytes from block \<open>index\<close>, byte \<open>start_offset\<close> on.\<close>

function copy_to_loop :: "page_cache \<Rightarrow> nat \<Rightarrow> nat \<Rightarrow> nat \<Rightarrow> u8 list res" where
  "copy_to_loop pages index start_offset n =
     (if n = 0 then Ok []
      else let copy_len = min (512 - start_offset) n in
        if index < length pages \<and> start_offset + copy_len \<le> length (pages ! index) then
          (case copy_to_loop pages (index + 1) 0 (n - copy_len) of
             Inl e \<Rightarrow> Inl e
           | Inr bs \<Rightarrow> Ok (slice start_offset copy_len (pages ! index) @ bs))
        else panic)"
  by pat_completeness auto
termination
  by (relation "measures [\<lambda>(pages, index, start_offset, n). n, \<lambda>(pages, index, start_offset, n). start_offset]") auto

definition copy_to :: "page_cache \<Rightarrow> nat \<Rightarrow> nat \<Rightarrow> u8 list res" where
  "copy_to pages offset n = copy_to_loop pages (offset div 512) (offset mod 512) n"

text \<open>\<open>PageCache::copy_from\<close>.\<close>

function copy_from_loop :: "page_cache \<Rightarrow> nat \<Rightarrow> nat \<Rightarrow> u8 list \<Rightarrow> page_cache res" where
  "copy_from_loop pages index start_offset buf =
     (if buf = [] then Ok pages
      else let copy_len = min (512 - start_offset) (length buf) in
        if index < length pages \<and> start_offset + copy_len \<le> length (pages ! index) then
          copy_from_loop (pages[index := splice start_offset (take copy_len buf) (pages ! index)])
            (index + 1) 0 (drop copy_len buf)
        else panic)"
  by pat_completeness auto
termination
  by (relation "measures [\<lambda>(pages, index, start_offset, buf). length buf,
        \<lambda>(pages, index, start_offset, buf). start_offset]")
    (auto simp flip: length_greater_0_conv)

definition copy_from :: "page_cache \<Rightarrow> nat \<Rightarrow> u8 list \<Rightarrow> page_cache res" where
  "copy_from pages offset buf = copy_from_loop pages (offset div 512) (offset mod 512) buf"

text \<open>The methods of \<open>LruCache<usize, PageCache>\<close>; \<open>lru_modify\<close> is a write through \<open>get_mut\<close>.\<close>

record 'l lru_ops =
  lru_contains :: "nat \<Rightarrow> 'l \<Rightarrow> bool"
  lru_push :: "nat \<Rightarrow> page_cache \<Rightarrow> 'l \<Rightarrow> (nat \<times> page_cache) option \<times> 'l"
  lru_get :: "nat \<Rightarrow> 'l \<Rightarrow> page_cache option \<times> 'l"
  lru_modify :: "nat \<Rightarrow> page_cache \<Rightarrow> 'l \<Rightarrow> 'l"

record ('l, 'd) cache_blk =
  cb_cache :: 'l
  cb_dirty :: "nat list"
  cb_blk :: 'd

definition on_blk :: "('d, 'a) act \<Rightarrow> (('l, 'd) cache_blk, 'a) act" where
  "on_blk m = zoom cb_blk (\<lambda>d s. s\<lparr>cb_blk := d\<rparr>) m"

text \<open>The loop of \<open>check\<close> that reads the blocks of a page, and the one that writes one back.\<close>

fun read_blocks :: "'d blk_ops \<Rightarrow> u8 list \<Rightarrow> nat list \<Rightarrow> (('l, 'd) cache_blk, page_cache) act" where
  "read_blocks B uninit [] = ret []"
| "read_blocks B uninit (i # is) =
     bind (must (on_blk (b_read_block B (of_nat i) uninit))) (\<lambda>b.
     bind (read_blocks B uninit is) (\<lambda>bs. ret (b # bs)))"

fun write_back :: "'d blk_ops \<Rightarrow> nat \<Rightarrow> nat list \<Rightarrow> page_cache \<Rightarrow> (('l, 'd) cache_blk, unit) act" where
  "write_back B page [] bs = ret ()"
| "write_back B page (i # is) [] = abort"
| "write_back B page (i # is) (b # bs) =
     bind (must (on_blk (b_write_block B (of_nat i) b))) (\<lambda>_.
     bind (modify_state (\<lambda>s. s\<lparr>cb_dirty := filter (\<lambda>x. x \<noteq> page) (cb_dirty s)\<rparr>)) (\<lambda>_.
     write_back B page is bs))"

definition page_blocks :: "nat \<Rightarrow> nat \<Rightarrow> nat list" where
  "page_blocks FS page_id = (let start_block = page_id * FS div 512 in [start_block..<start_block + FS div 512])"

definition cache_check :: "nat \<Rightarrow> 'l lru_ops \<Rightarrow> 'd blk_ops \<Rightarrow> u8 list \<Rightarrow> nat
    \<Rightarrow> (('l, 'd) cache_blk, unit) act" where
  "cache_check FS L B uninit page_id =
     bind get_state (\<lambda>s.
     if lru_contains L page_id (cb_cache s) then ret ()
     else
       bind (read_blocks B uninit (page_blocks FS page_id)) (\<lambda>pages.
       bind get_state (\<lambda>s.
       let (old, cache) = lru_push L page_id pages (cb_cache s) in
       bind (modify_state (\<lambda>s. s\<lparr>cb_cache := cache\<rparr>)) (\<lambda>_.
       case old of
         None \<Rightarrow> ret ()
       | Some (page, old_cache) \<Rightarrow> write_back B page (page_blocks FS page) old_cache))))"

text \<open>The loops of \<open>read\<close> and \<open>write\<close>, over what is left to copy (\<open>FS = 0\<close> does not compile).\<close>

function cache_read_loop :: "nat \<Rightarrow> 'l lru_ops \<Rightarrow> 'd blk_ops \<Rightarrow> u8 list \<Rightarrow> nat \<Rightarrow> nat \<Rightarrow> nat
    \<Rightarrow> (('l, 'd) cache_blk, u8 list) act" where
  "cache_read_loop FS L B uninit page_id offset n =
     (if FS = 0 then abort
      else if n = 0 then ret []
      else
        bind (cache_check FS L B uninit page_id) (\<lambda>_.
        bind get_state (\<lambda>s.
        let (page, cache) = lru_get L page_id (cb_cache s);
            copy_len = min (FS - offset) n in
        bind (modify_state (\<lambda>s. s\<lparr>cb_cache := cache\<rparr>)) (\<lambda>_.
        bind (lift (unwrap page)) (\<lambda>page.
        bind (lift (copy_to page offset copy_len)) (\<lambda>bs.
        bind (cache_read_loop FS L B uninit (page_id + 1) 0 (n - min (FS - offset) n)) (\<lambda>rest.
        ret (bs @ rest))))))))"
  by pat_completeness auto
termination
  by (relation "measures [\<lambda>(FS, L, B, uninit, page_id, offset, n). n,
        \<lambda>(FS, L, B, uninit, page_id, offset, n). offset]") auto

definition cache_read :: "nat \<Rightarrow> 'l lru_ops \<Rightarrow> 'd blk_ops \<Rightarrow> u8 list \<Rightarrow> u64 \<Rightarrow> u8 list
    \<Rightarrow> (('l, 'd) cache_blk, u8 list) act" where
  "cache_read FS L B uninit offset buf =
     cache_read_loop FS L B uninit (unat offset div FS) (unat offset mod FS) (length buf)"

function cache_write_loop :: "nat \<Rightarrow> 'l lru_ops \<Rightarrow> 'd blk_ops \<Rightarrow> u8 list \<Rightarrow> nat \<Rightarrow> nat \<Rightarrow> u8 list
    \<Rightarrow> (('l, 'd) cache_blk, unit) act" where
  "cache_write_loop FS L B uninit page_id offset buf =
     (if FS = 0 then abort
      else if buf = [] then ret ()
      else
        bind (cache_check FS L B uninit page_id) (\<lambda>_.
        bind get_state (\<lambda>s.
        let (page, cache) = lru_get L page_id (cb_cache s);
            copy_len = min (FS - offset) (length buf) in
        bind (modify_state (\<lambda>s. s\<lparr>cb_cache := cache\<rparr>)) (\<lambda>_.
        bind (lift (unwrap page)) (\<lambda>page.
        bind (lift (copy_from page offset (take copy_len buf))) (\<lambda>page.
        bind (modify_state (\<lambda>s. s\<lparr>cb_cache := lru_modify L page_id page (cb_cache s)\<rparr>)) (\<lambda>_.
        cache_write_loop FS L B uninit (page_id + 1) ((offset + min (FS - offset) (length buf)) mod FS)
          (drop (min (FS - offset) (length buf)) buf))))))))"
  by pat_completeness auto
termination
  by (relation "measures [\<lambda>(FS, L, B, uninit, page_id, offset, buf). length buf,
        \<lambda>(FS, L, B, uninit, page_id, offset, buf). if offset < FS then 0 else 1]")
    (auto simp flip: length_greater_0_conv)

definition cache_write :: "nat \<Rightarrow> 'l lru_ops \<Rightarrow> 'd blk_ops \<Rightarrow> u8 list \<Rightarrow> u64 \<Rightarrow> u8 list
    \<Rightarrow> (('l, 'd) cache_blk, nat) act" where
  "cache_write FS L B uninit offset buf =
     bind (cache_write_loop FS L B uninit (unat offset div FS) (unat offset mod FS) buf) (\<lambda>_.
     ret (length buf))"

definition cache_get_capacity :: "'d blk_ops \<Rightarrow> (('l, 'd) cache_blk, u64) act" where
  "cache_get_capacity B = on_blk (b_get_capacity B)"

definition cache_flush :: "(('l, 'd) cache_blk, unit) act" where
  "cache_flush = ret ()"

declare copy_to_loop.simps [simp del] copy_from_loop.simps [simp del]
  cache_read_loop.simps [simp del] cache_write_loop.simps [simp del]


section \<open>What a client relies on\<close>

text \<open>
  A disk of blocks of 512 bytes: in a good state, reading a block inside the disk into a buffer
  of one block returns the block and changes no content, writing one replaces it.
\<close>

locale block_device =
  fixes B :: "'d blk_ops"
    and content :: "'d \<Rightarrow> u8 list"
    and ok :: "'d \<Rightarrow> bool"
  assumes read_law: "ok d \<Longrightarrow> (unat i + 1) * 512 \<le> length (content d) \<Longrightarrow> length buf = 512 \<Longrightarrow>
      \<exists>d'. b_read_block B i buf d = (Ok (slice (unat i * 512) 512 (content d)), d')
        \<and> content d' = content d \<and> ok d'"
    and write_law: "ok d \<Longrightarrow> (unat i + 1) * 512 \<le> length (content d) \<Longrightarrow> length buf = 512 \<Longrightarrow>
      \<exists>d'. b_write_block B i buf d = (Ok 512, d')
        \<and> content d' = splice (unat i * 512) buf (content d) \<and> ok d'"
begin

text \<open>A block read back after a write is the block written, and no other block changes.\<close>

lemma read_after_write:
  assumes "ok d" "(unat i + 1) * 512 \<le> length (content d)" "(unat j + 1) * 512 \<le> length (content d)"
    and "length buf = 512" "length buf' = 512"
  shows "\<exists>d' d''. b_write_block B i buf d = (Ok 512, d')
    \<and> b_read_block B j buf' d' = (Ok (if j = i then buf else slice (unat j * 512) 512 (content d)), d'')"
proof -
  obtain d' where d': "b_write_block B i buf d = (Ok 512, d')" "content d' = splice (unat i * 512) buf (content d)" "ok d'"
    using write_law [OF assms(1,2,4)] by blast
  have len: "length (content d') = length (content d)" using assms d' by simp
  obtain d'' where "b_read_block B j buf' d' = (Ok (slice (unat j * 512) 512 (content d')), d'')"
    using read_law [OF d'(3), of j buf'] assms len by auto
  moreover have "slice (unat j * 512) 512 (content d') = (if j = i then buf else slice (unat j * 512) 512 (content d))"
  proof (cases "j = i")
    case True
    then show ?thesis
      using slice_splice_same [of "unat i * 512" buf "content d"] assms d'(2) by simp
  next
    case False
    then have "unat j \<noteq> unat i" by (metis word_unat_eq_iff)
    then have "unat j * 512 + 512 \<le> unat i * 512 \<or> unat i * 512 + 512 \<le> unat j * 512" by linarith
    with assms have "slice (unat j * 512) 512 (splice (unat i * 512) buf (content d)) = slice (unat j * 512) 512 (content d)"
      by (intro slice_splice_disjoint) simp_all
    then show ?thesis using False d'(2) by simp
  qed
  ultimately have "b_read_block B j buf' d' = (Ok (if j = i then buf else slice (unat j * 512) 512 (content d)), d'')"
    by (simp only:)
  with d'(1) show ?thesis by blast
qed

end

section \<open>The memory disk and the proxy satisfy it\<close>

lemma block_offset: "unat (ucast i * 512 :: u64) = unat i * 512" for i :: u32
proof -
  have "unat i < 2 ^ 32" using unsigned_less [of i] by simp
  then have "unat (ucast i :: u64) * unat (512 :: u64) < 2 ^ LENGTH(64)"
    by (simp add: unat_ucast_32_64)
  then have "unat (ucast i * 512 :: u64) = unat (ucast i :: u64) * unat (512 :: u64)"
    by (rule unat_mult_lem [THEN iffD1])
  then show ?thesis by (simp add: unat_ucast_32_64)
qed

interpretation mem: block_device mem_ops mb_data "\<lambda>_. True"
proof
  fix d :: mem_block and i :: u32 and buf :: "u8 list"
  assume *: "(unat i + 1) * 512 \<le> length (mb_data d)" "length buf = 512"
  then have m: "min (length (mb_data d)) (unat i * 512) = unat i * 512"
    "min (length (mb_data d)) (unat i * 512 + 512) = unat i * 512 + 512" by simp_all
  show "\<exists>d'. b_read_block mem_ops i buf d = (Ok (slice (unat i * 512) 512 (mb_data d)), d')
      \<and> mb_data d' = mb_data d \<and> True"
    using * m by (simp add: mem_ops_def mb_read_block_def mb_read_blocks_def act_simps block_offset Let_def)
      (simp add: splice_def)
  show "\<exists>d'. b_write_block mem_ops i buf d = (Ok 512, d')
      \<and> mb_data d' = splice (unat i * 512) buf (mb_data d) \<and> True"
    using * m by (simp add: mem_ops_def mb_write_block_def mb_write_blocks_def act_simps block_offset Let_def)
qed

context block_device begin

text \<open>The proxy over a device is one, once it has been initialised.\<close>

lemma shadow_read:
  assumes "sb_blk s" "ok (sb_dev s)" "(unat i + 1) * 512 \<le> length (content (sb_dev s))" "length buf = 512"
  shows "\<exists>s'. sb_read_block B checkout uninit i buf s
      = (Ok (slice (unat i * 512) 512 (content (sb_dev s))), s')
    \<and> content (sb_dev s') = content (sb_dev s) \<and> sb_blk s' \<and> ok (sb_dev s')"
proof -
  obtain d' where "b_read_block B i buf (sb_dev s) = (Ok (slice (unat i * 512) 512 (content (sb_dev s))), d')"
    "content d' = content (sb_dev s)" "ok d'" using read_law [OF assms(2-4)] by blast
  with assms(1) show ?thesis
    by (intro exI [of _ "s\<lparr>sb_dev := d'\<rparr>"]) (simp add: sb_read_block_def on_dev_def act_simps)
qed

lemma shadow_write:
  assumes "sb_blk s" "ok (sb_dev s)" "(unat i + 1) * 512 \<le> length (content (sb_dev s))" "length buf = 512"
  shows "\<exists>s'. sb_write_block B i buf s = (Ok 512, s')
    \<and> content (sb_dev s') = splice (unat i * 512) buf (content (sb_dev s)) \<and> sb_blk s' \<and> ok (sb_dev s')"
proof -
  obtain d' where "b_write_block B i buf (sb_dev s) = (Ok 512, d')"
    "content d' = splice (unat i * 512) buf (content (sb_dev s))" "ok d'" using write_law [OF assms(2-4)] by blast
  with assms(1) show ?thesis
    by (intro exI [of _ "s\<lparr>sb_dev := d'\<rparr>"]) (simp add: sb_write_block_def on_dev_def act_simps)
qed

lemma shadow_device: "block_device (shadow_ops B checkout uninit) (\<lambda>s. content (sb_dev s)) (\<lambda>s. sb_blk s \<and> ok (sb_dev s))"
proof
  fix d :: "'d shadow_blk" and i :: u32 and buf :: "u8 list"
  assume "sb_blk d \<and> ok (sb_dev d)" "(unat i + 1) * 512 \<le> length (content (sb_dev d))" "length buf = 512"
  then show "\<exists>d'. b_read_block (shadow_ops B checkout uninit) i buf d = (Ok (slice (unat i * 512) 512 (content (sb_dev d))), d')
        \<and> content (sb_dev d') = content (sb_dev d) \<and> sb_blk d' \<and> ok (sb_dev d')"
    and "\<exists>d'. b_write_block (shadow_ops B checkout uninit) i buf d = (Ok 512, d')
        \<and> content (sb_dev d') = splice (unat i * 512) buf (content (sb_dev d)) \<and> sb_blk d' \<and> ok (sb_dev d')"
    using shadow_read [of d i buf checkout uninit] shadow_write [of d i buf] by (auto simp: shadow_ops_def)
qed

text \<open>A read during which the driver crashes, when the restarted driver is good and has the same
  content, still returns the block of the disk.\<close>

lemma shadow_read_crash:
  assumes "sb_blk s" and crash: "b_read_block B i buf (sb_dev s) = (Err DOMAINCRASH, d1)"
    and restart: "checkout d1 = (Ok (), d2)" "ok d2" and "(unat i + 1) * 512 \<le> length (content d2)"
    and "length uninit = 512"
  shows "\<exists>s'. sb_read_block B checkout uninit i buf s = (Ok (slice (unat i * 512) 512 (content d2)), s')
    \<and> content (sb_dev s') = content d2 \<and> sb_blk s' \<and> ok (sb_dev s')"
proof -
  obtain d' where "b_read_block B i uninit d2 = (Ok (slice (unat i * 512) 512 (content d2)), d')"
    "content d' = content d2" "ok d'" using read_law [OF restart(2) assms(5,6)] by blast
  with assms(1) crash restart(1) show ?thesis
    by (intro exI [of _ "s\<lparr>sb_dev := d'\<rparr>"]) (simp add: sb_read_block_def on_dev_def act_simps)
qed

end

interpretation shadow: block_device "shadow_ops mem_ops checkout uninit" "\<lambda>s. mb_data (sb_dev s)" sb_blk
  for checkout uninit
proof
  fix d :: "mem_block shadow_blk" and i :: u32 and buf :: "u8 list"
  assume "sb_blk d" "(unat i + 1) * 512 \<le> length (mb_data (sb_dev d))" "length buf = 512"
  then show "\<exists>d'. b_read_block (shadow_ops mem_ops checkout uninit) i buf d
        = (Ok (slice (unat i * 512) 512 (mb_data (sb_dev d))), d')
      \<and> mb_data (sb_dev d') = mb_data (sb_dev d) \<and> sb_blk d'"
    and "\<exists>d'. b_write_block (shadow_ops mem_ops checkout uninit) i buf d = (Ok 512, d')
      \<and> mb_data (sb_dev d') = splice (unat i * 512) buf (mb_data (sb_dev d)) \<and> sb_blk d'"
    using mem.shadow_read [of d i buf checkout uninit] mem.shadow_write [of d i buf]
    by (auto simp: shadow_ops_def)
qed

section \<open>A page is an array of bytes\<close>

lemma copy_to_spec:
  "uniform 512 pages \<Longrightarrow> so < 512 \<Longrightarrow> idx * 512 + so + n \<le> length pages * 512 \<Longrightarrow>
     copy_to_loop pages idx so n = Ok (slice (idx * 512 + so) n (concat pages))"
proof (induction pages idx so n rule: copy_to_loop.induct)
  case (1 pages idx so n)
  show ?case
  proof (cases "n = 0")
    case True
    then show ?thesis by (simp add: copy_to_loop.simps slice_def)
  next
    case False
    let ?l = "min (512 - so) n"
    have idx: "idx < length pages" using "1.prems" False by simp
    then have len: "length (pages ! idx) = 512" using "1.prems"(1) by (rule uniform_nth [rotated])
    have rest: "copy_to_loop pages (idx + 1) 0 (n - ?l) = Ok (slice ((idx + 1) * 512 + 0) (n - ?l) (concat pages))"
    proof (cases "n \<le> 512 - so")
      case True
      then show ?thesis by (simp add: copy_to_loop.simps slice_def)
    next
      case False
      then show ?thesis using "1.IH" [OF \<open>n \<noteq> 0\<close> refl] "1.prems" idx len by auto
    qed
    have "slice (idx * 512 + so) n (concat pages)
        = slice (idx * 512 + so) ?l (concat pages) @ slice (idx * 512 + so + ?l) (n - ?l) (concat pages)"
      using slice_add [of "idx * 512 + so" ?l "n - ?l"] by simp
    also have "slice (idx * 512 + so) ?l (concat pages) = slice so ?l (pages ! idx)"
      by (rule slice_concat [OF "1.prems"(1) idx]) (use "1.prems"(2) in auto)
    also have "slice (idx * 512 + so + ?l) (n - ?l) (concat pages)
        = slice ((idx + 1) * 512 + 0) (n - ?l) (concat pages)"
      using "1.prems"(2) by (cases "n \<le> 512 - so") (auto simp: slice_def min_def add.commute)
    finally show ?thesis
      using False idx len rest "1.prems"(2)
      by (subst copy_to_loop.simps) (auto simp: Let_def min_def)
  qed
qed

lemma copy_from_spec:
  "uniform 512 pages \<Longrightarrow> so < 512 \<Longrightarrow> idx * 512 + so + length buf \<le> length pages * 512 \<Longrightarrow>
     \<exists>pages'. copy_from_loop pages idx so buf = Ok pages' \<and> uniform 512 pages' \<and> length pages' = length pages
       \<and> concat pages' = splice (idx * 512 + so) buf (concat pages)"
proof (induction pages idx so buf rule: copy_from_loop.induct)
  case (1 pages idx so buf)
  show ?case
  proof (cases "buf = []")
    case True
    then show ?thesis using "1.prems" by (simp add: copy_from_loop.simps)
  next
    case False
    then have ne: "0 < length buf" by simp
    let ?l = "min (512 - so) (length buf)"
    let ?p = "pages[idx := splice so (take ?l buf) (pages ! idx)]"
    have idx: "idx < length pages" using "1.prems" ne by linarith
    then have len: "length (pages ! idx) = 512" using "1.prems"(1) by (rule uniform_nth [rotated])
    have fits: "so + ?l \<le> 512" "length (take ?l buf) = ?l" using "1.prems"(2) by auto
    have p: "uniform 512 ?p" "length ?p = length pages"
      using uniform_update [OF "1.prems"(1)] len fits by simp_all
    have cp: "concat ?p = splice (idx * 512 + so) (take ?l buf) (concat pages)"
      by (rule concat_update [OF "1.prems"(1) idx]) (use fits in simp)
    have total: "length (concat pages) = length pages * 512"
      using "1.prems"(1) by (rule length_concat_uniform)
    have step: "copy_from_loop pages idx so buf = copy_from_loop ?p (idx + 1) 0 (drop ?l buf)"
      using False idx len fits by (subst copy_from_loop.simps) (simp add: Let_def)
    show ?thesis
    proof (cases "length buf \<le> 512 - so")
      case True
      then have "drop ?l buf = []" "take ?l buf = buf" by simp_all
      then show ?thesis using step p cp by (simp add: copy_from_loop.simps [of "pages[idx := splice so buf (pages ! idx)]" "Suc idx" 0 "[]"])
    next
      case big: False
      then have l: "?l = 512 - so" by simp
      have "(idx + 1) * 512 + 0 + length (drop ?l buf) \<le> length ?p * 512"
        using "1.prems"(2,3) big p(2) by (simp add: l)
      then obtain pages' where p': "copy_from_loop ?p (idx + 1) 0 (drop ?l buf) = Ok pages'" "uniform 512 pages'"
          "length pages' = length ?p" "concat pages' = splice ((idx + 1) * 512 + 0) (drop ?l buf) (concat ?p)"
        using "1.IH" [OF False refl _ p(1)] idx len fits by auto
      have "splice (idx * 512 + so) buf (concat pages)
          = splice (idx * 512 + so) (take ?l buf @ drop ?l buf) (concat pages)" by simp
      also have "\<dots> = splice ((idx + 1) * 512 + 0) (drop ?l buf) (concat ?p)"
        unfolding cp using "1.prems"(2,3) total fits(2) big
        by (subst splice_append) (simp_all add: l add.commute)
      finally show ?thesis using step p' p(2) by simp
    qed
  qed
qed


section \<open>The cache over a disk is the flat array of the disk's bytes\<close>

text \<open>What the documentation of the crate \<open>lru\<close> promises: \<open>m\<close> is the map the cache holds.\<close>

definition lru_law :: "'l lru_ops \<Rightarrow> ('l \<Rightarrow> nat \<Rightarrow> page_cache option) \<Rightarrow> bool" where
  "lru_law L m \<longleftrightarrow>
     (\<forall>k c. lru_contains L k c \<longleftrightarrow> m c k \<noteq> None)
   \<and> (\<forall>k c. \<exists>c'. lru_get L k c = (m c k, c') \<and> m c' = m c)
   \<and> (\<forall>k p c. m c k = None \<longrightarrow>
        (\<exists>c'. lru_push L k p c = (None, c') \<and> m c' = (m c)(k := Some p))
      \<or> (\<exists>j old c'. m c j = Some old \<and> lru_push L k p c = (Some (j, old), c')
            \<and> m c' = (m c)(j := None, k := Some p)))
   \<and> (\<forall>k p c. m c k \<noteq> None \<longrightarrow> m (lru_modify L k p c) = (m c)(k := Some p))"

definition page_view :: "nat \<Rightarrow> (nat \<Rightarrow> page_cache option) \<Rightarrow> u8 list \<Rightarrow> nat \<Rightarrow> u8 list" where
  "page_view FS M disk k = (case M k of Some pages \<Rightarrow> concat pages | None \<Rightarrow> slice (k * FS) FS disk)"

text \<open>The bytes a client of the cache sees.\<close>

definition cache_view :: "nat \<Rightarrow> (nat \<Rightarrow> page_cache option) \<Rightarrow> u8 list \<Rightarrow> u8 list" where
  "cache_view FS M disk = concat (map (page_view FS M disk) [0..<length disk div FS])"

definition pages_ok :: "nat \<Rightarrow> (nat \<Rightarrow> page_cache option) \<Rightarrow> u8 list \<Rightarrow> bool" where
  "pages_ok FS M disk \<longleftrightarrow> 0 < FS \<and> 512 dvd FS \<and> FS dvd length disk \<and> length disk \<le> 512 * 2 ^ 32
     \<and> (\<forall>k pages. M k = Some pages \<longrightarrow> uniform 512 pages \<and> length pages * 512 = FS \<and> (k + 1) * FS \<le> length disk)"

lemma pages_okD:
  assumes "pages_ok FS M disk" and "M k = Some pages"
  shows "uniform 512 pages" "length pages * 512 = FS" "(k + 1) * FS \<le> length disk" "length (concat pages) = FS"
proof -
  show 1: "uniform 512 pages" "length pages * 512 = FS" "(k + 1) * FS \<le> length disk"
    using assms unfolding pages_ok_def by blast+
  show "length (concat pages) = FS" using length_concat_uniform [OF 1(1)] 1(2) by simp
qed

lemma page_view_length:
  "pages_ok FS M disk \<Longrightarrow> (k + 1) * FS \<le> length disk \<Longrightarrow> length (page_view FS M disk k) = FS"
  by (auto simp: page_view_def dest: pages_okD(4) split: option.splits)

lemma in_disk: "0 < FS \<Longrightarrow> FS dvd n \<Longrightarrow> k < n div FS \<longleftrightarrow> (k + 1) * FS \<le> n" for FS n k :: nat
  by (auto elim!: dvdE) (metis Suc_leI mult_le_mono1 plus_nat.simps(2) mult.commute mult_Suc_right, metis Suc_le_eq mult_Suc mult.commute mult_le_cancel2)

lemma cache_view_uniform:
  "pages_ok FS M disk \<Longrightarrow> uniform FS (map (page_view FS M disk) [0..<length disk div FS])"
  unfolding uniform_def using page_view_length in_disk by (auto simp: pages_ok_def)

lemma slice_cache_view:
  assumes "pages_ok FS M disk" and "(k + 1) * FS \<le> length disk" and "j + n \<le> FS"
  shows "slice (k * FS + j) n (cache_view FS M disk) = slice j n (page_view FS M disk k)"
proof -
  have k: "k < length disk div FS" using assms in_disk by (auto simp: pages_ok_def)
  then show ?thesis
    using slice_concat [OF cache_view_uniform [OF assms(1)], of k j n] assms(3)
    by (simp add: cache_view_def)
qed

lemma cache_view_update:
  assumes "pages_ok FS M disk" and "(k + 1) * FS \<le> length disk" and "j + length c \<le> FS"
    and "concat pages = splice j c (page_view FS M disk k)"
  shows "cache_view FS (M(k := Some pages)) disk = splice (k * FS + j) c (cache_view FS M disk)"
proof -
  let ?vs = "map (page_view FS M disk) [0..<length disk div FS]"
  have k: "k < length disk div FS" using assms in_disk by (auto simp: pages_ok_def)
  have "map (page_view FS (M(k := Some pages)) disk) [0..<length disk div FS] = ?vs[k := splice j c (?vs ! k)]"
    by (rule nth_equalityI) (use k assms(4) in \<open>auto simp: page_view_def nth_list_update\<close>)
  then show ?thesis
    using concat_update [OF cache_view_uniform [OF assms(1)], of k j c] k assms(3)
    by (simp add: cache_view_def)
qed

lemma cache_view_empty: "FS dvd length disk \<Longrightarrow> cache_view FS (\<lambda>_. None) disk = disk"
  using concat_slices [of 0 "length disk div FS" FS disk]
  by (simp add: cache_view_def page_view_def [abs_def] slice_def)

text \<open>Loading a page, and writing one back: the bytes a client sees stay the same.\<close>

lemma cache_view_load:
  assumes "concat pages = slice (k * FS) FS disk" and "M k = None"
  shows "cache_view FS (M(k := Some pages)) disk = cache_view FS M disk"
proof -
  have "page_view FS (M(k := Some pages)) disk = page_view FS M disk"
    by (rule ext) (use assms in \<open>simp add: page_view_def\<close>)
  then show ?thesis by (simp add: cache_view_def)
qed

lemma cache_view_evict:
  assumes ok: "pages_ok FS M disk" and "M j = Some old"
    and disk': "disk' = splice (j * FS) (concat old) disk"
  shows "cache_view FS (M(j := None)) disk' = cache_view FS M disk"
proof -
  note old = pages_okD(4,3) [OF ok assms(2)]
  then have len: "length disk' = length disk" by (simp add: disk')
  have "page_view FS (M(j := None)) disk' k = page_view FS M disk k" if "k < length disk div FS" for k
  proof (cases "k = j")
    case True
    then show ?thesis
      using assms(2) old slice_splice_same [of "j * FS" "concat old" disk]
      by (simp add: page_view_def disk')
  next
    case False
    have "(k + 1) * FS \<le> length disk" using that ok in_disk by (auto simp: pages_ok_def)
    moreover have "k * FS + FS \<le> j * FS \<or> j * FS + FS \<le> k * FS"
      using False by (cases "k < j") (metis Suc_leI mult_Suc mult_le_mono1 add.commute, metis Suc_leI mult_Suc mult_le_mono1 add.commute nat_neq_iff)
    ultimately have "slice (k * FS) FS disk' = slice (k * FS) FS disk"
      unfolding disk' using old by (intro slice_splice_disjoint) auto
    then show ?thesis using False by (simp add: page_view_def split: option.split)
  qed
  then have "map (page_view FS (M(j := None)) disk') [0..<length disk div FS]
      = map (page_view FS M disk) [0..<length disk div FS]"
    by (intro map_cong) simp_all
  then show ?thesis unfolding cache_view_def len by (rule arg_cong [where f = concat])
qed


lemma page_blocks_eq:
  "512 dvd FS \<Longrightarrow> page_blocks FS k = [k * (FS div 512)..<k * (FS div 512) + FS div 512]"
  by (simp add: page_blocks_def div_mult_swap Let_def)

lemma on_blk_run [act_simps]: "on_blk m s = (case m (cb_blk s) of (r, d) \<Rightarrow> (r, s\<lparr>cb_blk := d\<rparr>))"
  by (simp add: on_blk_def act_simps)

context block_device begin

lemma read_blocks_spec:
  assumes "length uninit = 512"
  shows "ok (cb_blk s) \<Longrightarrow> \<forall>i \<in> set is. (i + 1) * 512 \<le> length (content (cb_blk s)) \<and> i < 2 ^ 32 \<Longrightarrow>
    \<exists>d. read_blocks B uninit is s = (Ok (map (\<lambda>i. slice (i * 512) 512 (content (cb_blk s))) is), s\<lparr>cb_blk := d\<rparr>)
      \<and> ok d \<and> content d = content (cb_blk s)"
proof (induction "is" arbitrary: s)
  case Nil
  then show ?case by (intro exI [of _ "cb_blk s"]) (simp add: act_simps)
next
  case (Cons i "is")
  have i: "unat (of_nat i :: u32) = i" using Cons.prems(2) by (simp add: unat_of_nat)
  obtain d where d: "b_read_block B (of_nat i) uninit (cb_blk s) = (Ok (slice (i * 512) 512 (content (cb_blk s))), d)"
    "content d = content (cb_blk s)" "ok d"
    using read_law [of "cb_blk s" "of_nat i" uninit] Cons.prems assms i by auto
  obtain d' where "read_blocks B uninit is (s\<lparr>cb_blk := d\<rparr>)
      = (Ok (map (\<lambda>i. slice (i * 512) 512 (content (cb_blk s))) is), s\<lparr>cb_blk := d'\<rparr>)"
    "ok d'" "content d' = content (cb_blk s)"
    using Cons.IH [of "s\<lparr>cb_blk := d\<rparr>"] Cons.prems(2) d by auto
  with d show ?case by (intro exI [of _ d']) (simp add: act_simps)
qed

lemma write_back_spec:
  "ok (cb_blk s) \<Longrightarrow> uniform 512 bs \<Longrightarrow> (a + length bs) * 512 \<le> length (content (cb_blk s)) \<Longrightarrow>
   a + length bs \<le> 2 ^ 32 \<Longrightarrow>
    \<exists>d dirty. write_back B page [a..<a + length bs] bs s = (Ok (), s\<lparr>cb_blk := d, cb_dirty := dirty\<rparr>)
      \<and> ok d \<and> content d = splice (a * 512) (concat bs) (content (cb_blk s))"
proof (induction bs arbitrary: a s)
  case Nil
  then show ?case by (intro exI [of _ "cb_blk s"] exI [of _ "cb_dirty s"]) (simp add: act_simps)
next
  case (Cons b bs)
  have a: "unat (of_nat a :: u32) = a" using Cons.prems(4) by (simp add: unat_of_nat)
  have b: "length b = 512" "uniform 512 bs" using Cons.prems(2) by simp_all
  obtain d where d: "b_write_block B (of_nat a) b (cb_blk s) = (Ok 512, d)"
    "content d = splice (a * 512) b (content (cb_blk s))" "ok d"
    using write_law [of "cb_blk s" "of_nat a" b] Cons.prems a b by auto
  have len: "length (content d) = length (content (cb_blk s))" using d(2) b Cons.prems(3) by simp
  let ?s = "s\<lparr>cb_blk := d, cb_dirty := filter (\<lambda>x. x \<noteq> page) (cb_dirty s)\<rparr>"
  have "\<exists>e dirty. write_back B page [Suc a..<Suc a + length bs] bs ?s = (Ok (), ?s\<lparr>cb_blk := e, cb_dirty := dirty\<rparr>)
      \<and> ok e \<and> content e = splice (Suc a * 512) (concat bs) (content (cb_blk ?s))"
    by (rule Cons.IH) (use Cons.prems d b len in auto)
  then obtain e dirty where e: "write_back B page [Suc a..<Suc a + length bs] bs ?s
      = (Ok (), s\<lparr>cb_blk := e, cb_dirty := dirty\<rparr>)" "ok e"
    "content e = splice (Suc a * 512) (concat bs) (content d)" by auto
  have "splice (a * 512) (b @ concat bs) (content (cb_blk s)) = content e"
    using Cons.prems(3) b length_concat_uniform [OF b(2)] e(3) d(2) by (subst splice_append) (simp_all add: add.commute)
  moreover have "[a..<a + length (b # bs)] = a # [Suc a..<Suc a + length bs]"
    by (simp add: upt_conv_Cons del: upt_Suc)
  ultimately show ?case
    using d(1) e(1,2) by (intro exI [of _ e] exI [of _ dirty]) (simp add: act_simps del: upt_Suc)
qed

text \<open>The state of a cache in use, and the bytes its clients see.\<close>

definition cache_inv :: "nat \<Rightarrow> ('l \<Rightarrow> nat \<Rightarrow> page_cache option) \<Rightarrow> ('l, 'd) cache_blk \<Rightarrow> bool" where
  "cache_inv FS m s \<longleftrightarrow> ok (cb_blk s) \<and> pages_ok FS (m (cb_cache s)) (content (cb_blk s))"

definition view :: "nat \<Rightarrow> ('l \<Rightarrow> nat \<Rightarrow> page_cache option) \<Rightarrow> ('l, 'd) cache_blk \<Rightarrow> u8 list" where
  "view FS m s = cache_view FS (m (cb_cache s)) (content (cb_blk s))"

lemma cache_check_spec:
  assumes law: "lru_law L m" and un: "length uninit = 512" and inv: "cache_inv FS m s"
    and page: "(k + 1) * FS \<le> length (content (cb_blk s))"
  shows "\<exists>s'. cache_check FS L B uninit k s = (Ok (), s') \<and> cache_inv FS m s' \<and> view FS m s' = view FS m s
    \<and> m (cb_cache s') k \<noteq> None \<and> length (content (cb_blk s')) = length (content (cb_blk s))"
proof (cases "m (cb_cache s) k")
  case (Some pages)
  then have "lru_contains L k (cb_cache s)" using law unfolding lru_law_def by blast
  with Some inv show ?thesis by (simp add: cache_check_def act_simps)
next
  case None
  let ?c = "content (cb_blk s)" and ?M = "m (cb_cache s)" and ?n = "FS div 512"
  have ok: "ok (cb_blk s)" and pok: "pages_ok FS ?M ?c" using inv by (simp_all add: cache_inv_def)
  then have FS: "0 < FS" "512 dvd FS" "FS dvd length ?c" "length ?c \<le> 512 * 2 ^ 32"
    by (simp_all add: pages_ok_def)
  have n: "?n * 512 = FS" using FS(2) by simp
  have blocks: "(j + 1) * 512 \<le> length ?c \<and> j < 2 ^ 32"
    if "(l + 1) * FS \<le> length ?c" "j \<in> set (page_blocks FS l)" for j l
  proof -
    have "j + 1 \<le> (l + 1) * ?n" using that(2) by (auto simp: page_blocks_eq [OF FS(2)])
    then have "(j + 1) * 512 \<le> (l + 1) * ?n * 512" by (rule mult_le_mono1)
    also have "\<dots> = (l + 1) * FS" using n by (metis mult.assoc)
    finally show ?thesis using that(1) FS(4) by auto
  qed
  have nc: "\<not> lru_contains L k (cb_cache s)" using law None unfolding lru_law_def by blast
  let ?pages = "map (\<lambda>i. slice (i * 512) 512 ?c) (page_blocks FS k)"
  obtain d where rd: "read_blocks B uninit (page_blocks FS k) s = (Ok ?pages, s\<lparr>cb_blk := d\<rparr>)"
    and d: "ok d" "content d = ?c"
    using read_blocks_spec [OF un ok, of "page_blocks FS k"] blocks [OF page] by blast
  have kn: "k * ?n * 512 = k * FS" using n by (metis mult.assoc)
  have cp: "concat ?pages = slice (k * FS) FS ?c"
    unfolding page_blocks_eq [OF FS(2)]
    by (subst concat_slices) (simp_all only: kn n diff_add_inverse le_add1)
  have up: "uniform 512 ?pages" "length ?pages * 512 = FS"
  proof -
    have "length (slice (i * 512) 512 ?c) = 512" if "i \<in> set (page_blocks FS k)" for i
      by (rule length_slice) (use blocks [OF page that] in simp)
    then show "uniform 512 ?pages" by (simp add: uniform_def)
    show "length ?pages * 512 = FS" using n by (simp add: page_blocks_eq [OF FS(2)])
  qed
  have pok': "pages_ok FS (?M(k := Some ?pages)) ?c"
    using pok up page unfolding pages_ok_def by simp
  have v': "cache_view FS (?M(k := Some ?pages)) ?c = cache_view FS ?M ?c"
    by (rule cache_view_load [where M = ?M, OF cp None])
  from law None consider
    c' where "lru_push L k ?pages (cb_cache s) = (None, c')" "m c' = ?M(k := Some ?pages)"
  | j old c' where "?M j = Some old" "lru_push L k ?pages (cb_cache s) = (Some (j, old), c')"
      "m c' = ?M(j := None, k := Some ?pages)"
    unfolding lru_law_def by blast
  then show ?thesis
  proof cases
    case (1 c')
    let ?s = "s\<lparr>cb_blk := d, cb_cache := c'\<rparr>"
    have "cache_check FS L B uninit k s = (Ok (), ?s)"
      using nc rd 1(1) by (simp add: cache_check_def act_simps)
    then show ?thesis
      using 1(2) d pok' v' by (intro exI [of _ ?s]) (simp add: cache_inv_def view_def)
  next
    case (2 j old c')
    note old = pages_okD [OF pok 2(1)]
    have jk: "j \<noteq> k" using 2(1) None by auto
    have lo: "length old = ?n" using old(2) by auto
    have jn: "j * ?n * 512 = j * FS" using n by (metis mult.assoc)
    have fit: "(j * ?n + length old) * 512 \<le> length ?c"
      unfolding add_mult_distrib jn lo n using old(3) by simp
    have b32: "j * ?n + length old \<le> 2 ^ 32" using fit FS(4) by simp
    let ?t = "s\<lparr>cb_blk := d, cb_cache := c'\<rparr>"
    obtain e dirty where wb: "write_back B j (page_blocks FS j) old ?t = (Ok (), ?t\<lparr>cb_blk := e, cb_dirty := dirty\<rparr>)"
      and e: "ok e" "content e = splice (j * FS) (concat old) ?c"
      using write_back_spec [of ?t old "j * ?n" j] d old(1) fit b32 jn
      by (auto simp: page_blocks_eq [OF FS(2)] lo)
    let ?s = "?t\<lparr>cb_blk := e, cb_dirty := dirty\<rparr>"
    have run: "cache_check FS L B uninit k s = (Ok (), ?s)"
      using nc rd 2(2) wb by (simp add: cache_check_def act_simps)
    have len: "length (content e) = length ?c" using e(2) old(3,4) by simp
    have swap: "?M(j := None, k := Some ?pages) = (?M(k := Some ?pages))(j := None)"
      using jk by (rule fun_upd_twist)
    have "cache_view FS (m c') (content e) = cache_view FS ?M ?c"
      unfolding 2(3) swap
      using cache_view_evict [OF pok', of j old "content e"] 2(1) jk e(2) v' by simp
    moreover have "pages_ok FS (m c') (content e)"
      unfolding 2(3) swap using pok' len by (simp add: pages_ok_def)
    ultimately show ?thesis
      using run e(1) len 2(3) by (intro exI [of _ ?s]) (simp add: cache_inv_def view_def)
  qed
qed

text \<open>Reading and writing through the cache.\<close>

lemma cache_read_spec:
  assumes law: "lru_law L m" and un: "length uninit = 512"
  shows "cache_inv FS m s \<Longrightarrow> off < FS \<Longrightarrow> k * FS + off + n \<le> length (content (cb_blk s)) \<Longrightarrow>
    \<exists>s'. cache_read_loop FS L B uninit k off n s = (Ok (slice (k * FS + off) n (view FS m s)), s')
      \<and> cache_inv FS m s' \<and> view FS m s' = view FS m s"
proof (induction n arbitrary: k off s rule: less_induct)
  case (less n)
  from less.prems(1) have FS: "0 < FS" "FS dvd length (content (cb_blk s))"
    by (simp_all add: cache_inv_def pages_ok_def)
  show ?case
  proof (cases "n = 0")
    case True
    with FS less.prems show ?thesis by (simp add: cache_read_loop.simps act_simps slice_def)
  next
    case False
    let ?l = "min (FS - off) n"
    have "k * FS + off < length (content (cb_blk s))" using less.prems(3) False by simp
    then have "k * FS < length (content (cb_blk s))" by simp
    then have page: "(k + 1) * FS \<le> length (content (cb_blk s))"
      using FS by (auto elim!: dvdE) (metis Suc_leI mult.commute mult_Suc mult_le_mono2 mult_less_cancel2)
    obtain s1 where c: "cache_check FS L B uninit k s = (Ok (), s1)" and inv1: "cache_inv FS m s1"
      and v1: "view FS m s1 = view FS m s" and mk: "m (cb_cache s1) k \<noteq> None"
      and len1: "length (content (cb_blk s1)) = length (content (cb_blk s))"
      using cache_check_spec [OF law un less.prems(1) page] by blast
    obtain pages where pages: "m (cb_cache s1) k = Some pages" using mk by blast
    obtain c' where g: "lru_get L k (cb_cache s1) = (Some pages, c')" "m c' = m (cb_cache s1)"
      using law pages unfolding lru_law_def by metis
    let ?s2 = "s1\<lparr>cb_cache := c'\<rparr>"
    have inv2: "cache_inv FS m ?s2" and v2: "view FS m ?s2 = view FS m s"
      using inv1 v1 g(2) by (simp_all add: cache_inv_def view_def)
    have pok: "pages_ok FS (m (cb_cache s1)) (content (cb_blk s1))" using inv1 by (simp add: cache_inv_def)
    note p = pages_okD [OF pok pages]
    have ct: "copy_to pages off ?l = Ok (slice off ?l (concat pages))"
      unfolding copy_to_def using copy_to_spec [OF p(1), of "off mod 512" "off div 512" ?l] less.prems(2) p(2)
      by simp
    have sl: "slice (k * FS + off) ?l (view FS m s) = slice off ?l (concat pages)"
      unfolding v1 [symmetric] unfolding view_def
      by (subst slice_cache_view [OF pok]) (use page len1 less.prems(2) pages in \<open>simp_all add: page_view_def\<close>)
    have rest: "\<exists>s'. cache_read_loop FS L B uninit (k + 1) 0 (n - ?l) ?s2
        = (Ok (slice ((k + 1) * FS + 0) (n - ?l) (view FS m ?s2)), s')
      \<and> cache_inv FS m s' \<and> view FS m s' = view FS m ?s2"
    proof (cases "n \<le> FS - off")
      case True
      then show ?thesis
        using FS inv2 by (simp add: cache_read_loop.simps act_simps slice_def)
    next
      case False
      show ?thesis
        by (rule less.IH) (use False less.prems inv2 FS len1 in auto)
    qed
    then obtain s' where r: "cache_read_loop FS L B uninit (k + 1) 0 (n - ?l) ?s2
        = (Ok (slice ((k + 1) * FS) (n - ?l) (view FS m s)), s')" "cache_inv FS m s'" "view FS m s' = view FS m s"
      using v2 by auto
    have split: "slice (k * FS + off) n (view FS m s)
        = slice off ?l (concat pages) @ slice ((k + 1) * FS) (n - ?l) (view FS m s)"
    proof -
      have "slice (k * FS + off) (?l + (n - ?l)) (view FS m s)
          = slice (k * FS + off) ?l (view FS m s) @ slice (k * FS + off + ?l) (n - ?l) (view FS m s)"
        by (rule slice_add)
      moreover have "slice (k * FS + off + ?l) (n - ?l) (view FS m s) = slice ((k + 1) * FS) (n - ?l) (view FS m s)"
        using less.prems(2) by (cases "n \<le> FS - off") (auto simp: slice_def min_def add.commute)
      ultimately show ?thesis using sl by simp
    qed
    have "cache_read_loop FS L B uninit k off n s = (Ok (slice (k * FS + off) n (view FS m s)), s')"
      using FS(1) False c g(1) ct r(1)
      by (subst cache_read_loop.simps) (simp add: act_simps split Let_def)
    with r(2,3) show ?thesis by blast
  qed
qed

lemma cache_write_spec:
  assumes law: "lru_law L m" and un: "length uninit = 512"
  shows "cache_inv FS m s \<Longrightarrow> off < FS \<Longrightarrow> k * FS + off + length buf \<le> length (content (cb_blk s)) \<Longrightarrow>
    \<exists>s'. cache_write_loop FS L B uninit k off buf s = (Ok (), s')
      \<and> cache_inv FS m s' \<and> view FS m s' = splice (k * FS + off) buf (view FS m s)
      \<and> length (content (cb_blk s')) = length (content (cb_blk s))"
proof (induction "length buf" arbitrary: k off buf s rule: less_induct)
  case less
  from less.prems(1) have FS: "0 < FS" "FS dvd length (content (cb_blk s))"
    by (simp_all add: cache_inv_def pages_ok_def)
  show ?case
  proof (cases "buf = []")
    case True
    with FS less.prems show ?thesis by (simp add: cache_write_loop.simps act_simps)
  next
    case False
    then have ne: "0 < length buf" by simp
    let ?l = "min (FS - off) (length buf)"
    have "k * FS < length (content (cb_blk s))" using less.prems(3) ne by linarith
    then have page: "(k + 1) * FS \<le> length (content (cb_blk s))"
      using FS by (auto elim!: dvdE) (metis Suc_leI mult.commute mult_Suc mult_le_mono2 mult_less_cancel2)
    obtain s1 where c: "cache_check FS L B uninit k s = (Ok (), s1)" and inv1: "cache_inv FS m s1"
      and v1: "view FS m s1 = view FS m s" and mk: "m (cb_cache s1) k \<noteq> None"
      and len1: "length (content (cb_blk s1)) = length (content (cb_blk s))"
      using cache_check_spec [OF law un less.prems(1) page] by blast
    obtain pages where pages: "m (cb_cache s1) k = Some pages" using mk by blast
    obtain c' where g: "lru_get L k (cb_cache s1) = (Some pages, c')" "m c' = m (cb_cache s1)"
      using law pages unfolding lru_law_def by metis
    have pok: "pages_ok FS (m (cb_cache s1)) (content (cb_blk s1))" using inv1 by (simp add: cache_inv_def)
    note p = pages_okD [OF pok pages]
    have fits: "off + ?l \<le> FS" using less.prems(2) by simp
    obtain pages' where cf: "copy_from pages off (take ?l buf) = Ok pages'" and p': "uniform 512 pages'"
      "length pages' = length pages" "concat pages' = splice off (take ?l buf) (concat pages)"
      unfolding copy_from_def
      using copy_from_spec [OF p(1), of "off mod 512" "off div 512" "take ?l buf"] fits p(2) by auto
    let ?c2 = "lru_modify L k pages' c'"
    let ?s2 = "s1\<lparr>cb_cache := ?c2\<rparr>"
    have m2: "m ?c2 = (m (cb_cache s1))(k := Some pages')"
      using law pages g(2) unfolding lru_law_def by (metis option.distinct(1))
    have inv2: "cache_inv FS m ?s2"
      using inv1 p' p(2,3) by (auto simp: cache_inv_def m2 pages_ok_def)
    have v2: "view FS m ?s2 = splice (k * FS + off) (take ?l buf) (view FS m s)"
      unfolding v1 [symmetric] unfolding view_def
      using cache_view_update [OF pok p(3), of off "take ?l buf" pages'] fits p'(3) pages
      by (simp add: m2 page_view_def)
    have lv: "length (view FS m s) = length (content (cb_blk s))"
    proof -
      have "pages_ok FS (m (cb_cache s)) (content (cb_blk s))" using less.prems(1) by (simp add: cache_inv_def)
      from length_concat_uniform [OF cache_view_uniform [OF this]] show ?thesis
        using FS(2) by (simp add: view_def cache_view_def)
    qed
    have rest: "\<exists>s'. cache_write_loop FS L B uninit (k + 1) ((off + ?l) mod FS) (drop ?l buf) ?s2 = (Ok (), s')
        \<and> cache_inv FS m s' \<and> view FS m s' = splice (k * FS + off + ?l) (drop ?l buf) (view FS m ?s2)
        \<and> length (content (cb_blk s')) = length (content (cb_blk ?s2))"
    proof (cases "length buf \<le> FS - off")
      case True
      then show ?thesis
        using FS inv2 by (simp add: cache_write_loop.simps act_simps)
    next
      case big: False
      then have l: "?l = FS - off" "(off + ?l) mod FS = 0" using less.prems(2) by simp_all
      have "\<exists>s'. cache_write_loop FS L B uninit (k + 1) 0 (drop ?l buf) ?s2 = (Ok (), s')
          \<and> cache_inv FS m s' \<and> view FS m s' = splice ((k + 1) * FS + 0) (drop ?l buf) (view FS m ?s2)
          \<and> length (content (cb_blk s')) = length (content (cb_blk ?s2))"
        by (rule less.hyps) (use big less.prems inv2 FS len1 ne in auto)
      moreover have "(k + 1) * FS + 0 = k * FS + off + ?l" using l less.prems(2) by simp
      ultimately show ?thesis unfolding l(2) by metis
    qed
    then obtain s' where r: "cache_write_loop FS L B uninit (k + 1) ((off + ?l) mod FS) (drop ?l buf) ?s2 = (Ok (), s')"
      "cache_inv FS m s'" "view FS m s' = splice (k * FS + off + ?l) (drop ?l buf) (view FS m ?s2)"
      "length (content (cb_blk s')) = length (content (cb_blk ?s2))" by blast
    have "splice (k * FS + off) (take ?l buf @ drop ?l buf) (view FS m s) = view FS m s'"
      unfolding r(3) v2 by (subst splice_append) (use less.prems(3) lv in \<open>simp_all add: min_def\<close>)
    moreover have "cache_write_loop FS L B uninit k off buf s = (Ok (), s')"
      using FS(1) False c g(1) cf r(1)
      by (subst cache_write_loop.simps) (simp add: act_simps Let_def)
    ultimately show ?thesis using r(2,4) len1 by simp
  qed
qed

text \<open>The cache over any such device is the flat array of the bytes that a client sees.\<close>

lemma flat_array:
  assumes "lru_law L m" "length uninit = 512" "ok (cb_blk s)" "pages_ok FS (m (cb_cache s)) (content (cb_blk s))"
    and "unat off + length buf \<le> length (content (cb_blk s))" "length rbuf = length buf"
  shows "\<exists>s' s''. cache_write FS L B uninit off buf s = (Ok (length buf), s') \<and> view FS m s' = splice (unat off) buf (view FS m s)
      \<and> cache_read FS L B uninit off rbuf s' = (Ok buf, s'') \<and> view FS m s'' = view FS m s'"
proof -
  have FS: "0 < FS" using assms(4) by (simp add: pages_ok_def)
  let ?k = "unat off div FS" and ?o = "unat off mod FS"
  have off: "?k * FS + ?o = unat off" by simp
  have inv: "cache_inv FS m s" using assms(3,4) by (simp add: cache_inv_def)
  have o: "?o < FS" using FS by simp
  obtain s' where w: "cache_write_loop FS L B uninit ?k ?o buf s = (Ok (), s')"
    "cache_inv FS m s'" "view FS m s' = splice (unat off) buf (view FS m s)" "length (content (cb_blk s')) = length (content (cb_blk s))"
    using cache_write_spec [OF assms(1,2) inv o, of ?k buf] assms(5) unfolding off by blast
  obtain s'' where r: "cache_read_loop FS L B uninit ?k ?o (length buf) s'
      = (Ok (slice (unat off) (length buf) (view FS m s')), s'')" "view FS m s'' = view FS m s'"
    using cache_read_spec [OF assms(1,2) w(2) o, of ?k "length buf"] assms(5) w(4) unfolding off by auto
  have "length (view FS m s) = length (content (cb_blk s))"
    using length_concat_uniform [OF cache_view_uniform [OF assms(4)]] assms(4) by (auto simp: view_def cache_view_def pages_ok_def)
  then have "slice (unat off) (length buf) (view FS m s') = buf"
    using assms(5) by (simp add: w(3) slice_splice_same)
  with w r assms(6) show ?thesis by (simp add: cache_write_def cache_read_def act_simps)
qed

end


section \<open>A cache of one page, for the witnesses\<close>

definition one_map :: "(nat \<times> page_cache) option \<Rightarrow> nat \<Rightarrow> page_cache option" where
  "one_map c = (case c of None \<Rightarrow> (\<lambda>_. None) | Some (j, p) \<Rightarrow> (\<lambda>_. None)(j := Some p))"

definition one_lru :: "((nat \<times> page_cache) option) lru_ops" where
  "one_lru = \<lparr> lru_contains = (\<lambda>k c. one_map c k \<noteq> None), lru_push = (\<lambda>k p c. (c, Some (k, p))),
     lru_get = (\<lambda>k c. (one_map c k, c)), lru_modify = (\<lambda>k p c. Some (k, p)) \<rparr>"

lemma one_lru_law: "lru_law one_lru one_map"
proof -
  have "one_map c k = None \<Longrightarrow> c = None \<or> (\<exists>j old. c = Some (j, old) \<and> j \<noteq> k)" for c k
    by (auto simp: one_map_def split: option.splits if_splits)
  then show ?thesis
    unfolding lru_law_def by (auto simp: one_lru_def one_map_def fun_eq_iff split: option.splits)
qed

definition sample_cache :: "u8 list \<Rightarrow> ((nat \<times> page_cache) option, mem_block shadow_blk) cache_blk" where
  "sample_cache disk = \<lparr> cb_cache = None, cb_dirty = [],
     cb_blk = \<lparr> sb_name = None, sb_blk = True, sb_dev = \<lparr> mb_data = disk \<rparr> \<rparr> \<rparr>"

lemma sample_cache_ok:
  "length disk = 1024 \<Longrightarrow> pages_ok 512 (one_map (cb_cache (sample_cache disk))) (mb_data (sb_dev (cb_blk (sample_cache disk))))"
  by (simp add: pages_ok_def sample_cache_def one_map_def)

section \<open>Properties\<close>

text \<open>C10: The block cache over the driver proxy over the memory disk is the flat array of the disk's
  bytes: a write of any byte range inside the disk replaces exactly that range of the bytes a client
  sees, whatever pages the LRU cache holds or evicts on the way, a read of the same range returns
  the bytes written, and reading changes nothing a client can see.\<close>

theorem cache_flat_array:
  assumes "lru_law L m" and "length uninit = 512" and "sb_blk (cb_blk s)"
    and "pages_ok FS (m (cb_cache s)) (mb_data (sb_dev (cb_blk s)))"
    and "unat off + length buf \<le> length (mb_data (sb_dev (cb_blk s)))" and "length rbuf = length buf"
  shows "let B = shadow_ops mem_ops checkout uninit;
             bytes = (\<lambda>s. cache_view FS (m (cb_cache s)) (mb_data (sb_dev (cb_blk s)))) in
    \<exists>s' s''. cache_write FS L B uninit off buf s = (Ok (length buf), s')
      \<and> bytes s' = splice (unat off) buf (bytes s)
      \<and> cache_read FS L B uninit off rbuf s' = (Ok buf, s'') \<and> bytes s'' = bytes s'"
  using shadow.flat_array [OF assms, of checkout] by (simp add: Let_def shadow.view_def)

theorem cache_flat_array_witness:
  "\<exists>s' s''. cache_write 512 one_lru (shadow_ops mem_ops (ret ()) (replicate 512 0)) (replicate 512 0) 510
        [1, 2, 3, 4] (sample_cache (replicate 1024 0)) = (Ok (length [1, 2, 3, 4 :: u8]), s')
    \<and> cache_read 512 one_lru (shadow_ops mem_ops (ret ()) (replicate 512 0)) (replicate 512 0) 510
        [9, 9, 9, 9] s' = (Ok [1, 2, 3, 4], s'')"
  using cache_flat_array [OF one_lru_law, of "replicate 512 0" "sample_cache (replicate 1024 0)" 512 510
      "[1, 2, 3, 4]" "[9, 9, 9, 9]" "ret ()"] sample_cache_ok [of "replicate 1024 0"]
  by (simp add: Let_def sample_cache_def) blast

text \<open>The cache does not write through, and its flush does not write back: a write inside a page
  that is already cached succeeds without touching the driver, and the flush that follows reports
  success with the driver's bytes still the old ones. The data reaches the disk only when the LRU
  map evicts the page.\<close>

theorem cache_flush_not_durable:
  assumes law: "lru_law L m" and page: "m (cb_cache s) (unat off div FS) = Some pages"
    and pages: "uniform 512 pages" "length pages * 512 = FS"
    and inside: "unat off mod FS + length buf \<le> FS" and "buf \<noteq> []"
  shows "\<exists>s'. cache_write FS L B uninit off buf s = (Ok (length buf), s')
    \<and> cache_flush s' = (Ok (), s') \<and> cb_blk s' = cb_blk s
    \<and> (\<exists>pages'. m (cb_cache s') (unat off div FS) = Some pages'
         \<and> concat pages' = splice (unat off mod FS) buf (concat pages))"
proof -
  let ?k = "unat off div FS" and ?o = "unat off mod FS"
  have FS: "0 < FS" "?o < FS" using inside \<open>buf \<noteq> []\<close> by (cases "FS = 0"; simp)+
  have hit: "lru_contains L ?k (cb_cache s)" using law page unfolding lru_law_def by blast
  obtain c' where g: "lru_get L ?k (cb_cache s) = (Some pages, c')" "m c' = m (cb_cache s)"
    using law page unfolding lru_law_def by metis
  obtain pages' where cf: "copy_from pages ?o buf = Ok pages'" "concat pages' = splice ?o buf (concat pages)"
    unfolding copy_from_def using copy_from_spec [OF pages(1), of "?o mod 512" "?o div 512" buf] inside pages(2) by auto
  let ?s = "s\<lparr>cb_cache := lru_modify L ?k pages' c'\<rparr>"
  have m2: "m (lru_modify L ?k pages' c') ?k = Some pages'"
    using law page g(2) unfolding lru_law_def by (metis fun_upd_same option.distinct(1))
  have l: "min (FS - ?o) (length buf) = length buf" using inside by simp
  have "cache_write_loop FS L B uninit ?k ?o buf s = (Ok (), ?s)"
    using FS \<open>buf \<noteq> []\<close> hit g(1) cf(1)
    by (subst cache_write_loop.simps)
      (simp add: act_simps Let_def l cache_check_def cache_write_loop.simps [of FS L B uninit _ _ "[]"])
  with m2 cf(2) show ?thesis
    by (intro exI [of _ ?s]) (simp add: cache_write_def cache_flush_def act_simps)
qed

theorem cache_flush_not_durable_witness:
  "\<exists>s'. cache_write 512 one_lru mem_ops (replicate 512 0) 0 [7]
      \<lparr> cb_cache = Some (0, [replicate 512 0]), cb_dirty = [], cb_blk = \<lparr> mb_data = replicate 512 0 \<rparr> \<rparr>
      = (Ok (length [7 :: u8]), s')
    \<and> cache_flush s' = (Ok (), s') \<and> mb_data (cb_blk s') = replicate 512 0"
  using cache_flush_not_durable [OF one_lru_law, of
      "\<lparr> cb_cache = Some (0, [replicate 512 0]), cb_dirty = [], cb_blk = \<lparr> mb_data = replicate 512 0 \<rparr> \<rparr>" 0 512
      "[replicate 512 0]" "[7]" mem_ops "replicate 512 0"]
  by (auto simp: one_map_def)

text \<open>The driver proxy hides one crash of the driver: a block read that crashes the driver is
  repeated after the driver has been restarted, with a fresh buffer, and returns the block of the
  restarted disk; any other error of the driver is passed on unchanged, with no restart. Writes are
  not repeated: a crash during a write is reported.\<close>

theorem shadow_read_restart:
  assumes "sb_blk s" and "length uninit = 512"
  shows "(\<forall>d1 d2. b_read_block B i buf (sb_dev s) = (Err DOMAINCRASH, d1) \<and> checkout d1 = (Ok (), d2)
          \<and> b_read_block B i uninit d2 = mb_read_block i uninit d2
          \<and> (unat i + 1) * 512 \<le> length (mb_data d2) \<longrightarrow>
        (\<exists>s'. sb_read_block B checkout uninit i buf s = (Ok (slice (unat i * 512) 512 (mb_data d2)), s')
           \<and> mb_data (sb_dev s') = mb_data d2))
    \<and> (\<forall>e d1. e \<noteq> DOMAINCRASH \<and> b_read_block B i buf (sb_dev s) = (Err e, d1) \<longrightarrow>
        sb_read_block B checkout uninit i buf s = (Err e, s\<lparr>sb_dev := d1\<rparr>))
    \<and> (\<forall>d1. b_write_block B i buf (sb_dev s) = (Err DOMAINCRASH, d1) \<longrightarrow>
        sb_write_block B i buf s = (Err DOMAINCRASH, s\<lparr>sb_dev := d1\<rparr>))"
proof (intro conjI allI impI; (elim conjE)?)
  fix d1 d2
  assume *: "b_read_block B i buf (sb_dev s) = (Err DOMAINCRASH, d1)" "checkout d1 = (Ok (), d2)"
    "b_read_block B i uninit d2 = mb_read_block i uninit d2" "(unat i + 1) * 512 \<le> length (mb_data d2)"
  obtain d' where "mb_read_block i uninit d2 = (Ok (slice (unat i * 512) 512 (mb_data d2)), d')" "mb_data d' = mb_data d2"
    using mem.read_law [of i d2 uninit] *(4) assms(2) by (auto simp: mem_ops_def)
  with * assms(1) show "\<exists>s'. sb_read_block B checkout uninit i buf s = (Ok (slice (unat i * 512) 512 (mb_data d2)), s')
           \<and> mb_data (sb_dev s') = mb_data d2"
    by (simp add: sb_read_block_def on_dev_def act_simps)
next
  fix e d1 assume "e \<noteq> DOMAINCRASH" "b_read_block B i buf (sb_dev s) = (Err e, d1)"
  with assms(1) show "sb_read_block B checkout uninit i buf s = (Err e, s\<lparr>sb_dev := d1\<rparr>)"
    by (cases e) (simp_all add: sb_read_block_def on_dev_def act_simps)
next
  fix d1 assume "b_write_block B i buf (sb_dev s) = (Err DOMAINCRASH, d1)"
  with assms(1) show "sb_write_block B i buf s = (Err DOMAINCRASH, s\<lparr>sb_dev := d1\<rparr>)"
    by (simp add: sb_write_block_def on_dev_def act_simps)
qed

text \<open>A memory disk whose driver is down while its first byte is 0; restarting it sets the byte.\<close>

definition crashing_ops :: "mem_block blk_ops" where
  "crashing_ops = mem_ops\<lparr>b_read_block := (\<lambda>i buf d. if hd (mb_data d) = 0 then (Err DOMAINCRASH, d)
      else mb_read_block i buf d)\<rparr>"

theorem shadow_read_restart_witness:
  "\<exists>s'. sb_read_block crashing_ops (modify_state (\<lambda>d. d\<lparr>mb_data := (mb_data d)[0 := 1]\<rparr>)) (replicate 512 0) 0
        (replicate 512 9) \<lparr> sb_name = None, sb_blk = True, sb_dev = \<lparr> mb_data = replicate 512 0 \<rparr> \<rparr>
      = (Ok ((replicate 512 0)[0 := 1]), s')"
  using shadow_read_restart [of "\<lparr> sb_name = None, sb_blk = True, sb_dev = \<lparr> mb_data = replicate 512 0 \<rparr> \<rparr>"
      "replicate 512 0" crashing_ops 0 "replicate 512 9" "modify_state (\<lambda>d. d\<lparr>mb_data := (mb_data d)[0 := 1]\<rparr>)"]
  by (auto simp: crashing_ops_def act_simps slice_def hd_conv_nth)

end
