(* ===== verification/Virtio.thy ===== *)
theory Virtio
  imports Block NetStack BufDev
begin

text \<open>
  The drivers of devices that the kernel finds on a bus: the choice of the transport
  (\<open>common_lib/virtio_common\<close>), the block, network, display and input domains over it (\<open>drivers/virtio_blk\<close>,
  \<open>virtio_net\<close>, \<open>virtio_gpu\<close>, \<open>virtio_input\<close>), the SD card of the VisionFive board (\<open>drivers/vf2_sd\<close>) and the
  clocks (\<open>drivers/goldfish\<close>, \<open>cmos_rtc\<close>). The devices themselves are the crates \<open>virtio_drivers\<close>,
  \<open>visionfive2-sd\<close>, \<open>rtc\<close> and \<open>x86_rtc\<close>: records of operations on a device \<open>'k\<close>, whose errors, of which the
  domains keep nothing, are any \<open>errno\<close>.
\<close>

section \<open>Transports\<close>

datatype ('m, 'l, 'n) virtio_transport = Mmio 'm | PciLegacy 'l | PciModern 'n

record 't transport_ops =
  tp_device_type :: "('t, nat) act"
  tp_read_device_features :: "('t, u64) act"
  tp_write_driver_features :: "u64 \<Rightarrow> ('t, unit) act"
  tp_max_queue_size :: "16 word \<Rightarrow> ('t, u32) act"
  tp_notify :: "16 word \<Rightarrow> ('t, unit) act"
  tp_get_status :: "('t, u32) act"
  tp_set_status :: "u32 \<Rightarrow> ('t, unit) act"
  tp_set_guest_page_size :: "u32 \<Rightarrow> ('t, unit) act"
  tp_requires_legacy_layout :: "'t \<Rightarrow> bool"
  tp_queue_set :: "16 word \<Rightarrow> u32 \<Rightarrow> usize \<Rightarrow> usize \<Rightarrow> usize \<Rightarrow> ('t, unit) act"
  tp_queue_unset :: "16 word \<Rightarrow> ('t, unit) act"
  tp_queue_used :: "16 word \<Rightarrow> ('t, bool) act"
  tp_ack_interrupt :: "('t, bool) act"

text \<open>\<open>match self\<close> over the three kinds.\<close>

definition inner :: "('m, 'a) act \<Rightarrow> ('l, 'a) act \<Rightarrow> ('n, 'a) act \<Rightarrow> (('m, 'l, 'n) virtio_transport, 'a) act" where
  "inner m l n = (\<lambda>t. case t of
       Mmio i \<Rightarrow> (case m i of (r, i') \<Rightarrow> (r, Mmio i'))
     | PciLegacy i \<Rightarrow> (case l i of (r, i') \<Rightarrow> (r, PciLegacy i'))
     | PciModern i \<Rightarrow> (case n i of (r, i') \<Rightarrow> (r, PciModern i')))"

definition virtio_ops :: "'m transport_ops \<Rightarrow> 'l transport_ops \<Rightarrow> 'n transport_ops \<Rightarrow> ('m, 'l, 'n) virtio_transport transport_ops" where
  "virtio_ops M L N = \<lparr>
     tp_device_type = inner (tp_device_type M) (tp_device_type L) (tp_device_type N),
     tp_read_device_features = inner (tp_read_device_features M) (tp_read_device_features L) (tp_read_device_features N),
     tp_write_driver_features = (\<lambda>f. inner (tp_write_driver_features M f) (tp_write_driver_features L f) (tp_write_driver_features N f)),
     tp_max_queue_size = (\<lambda>q. inner (tp_max_queue_size M q) (tp_max_queue_size L q) (tp_max_queue_size N q)),
     tp_notify = (\<lambda>q. inner (tp_notify M q) (tp_notify L q) (tp_notify N q)),
     tp_get_status = inner (tp_get_status M) (tp_get_status L) (tp_get_status N),
     tp_set_status = (\<lambda>st. inner (tp_set_status M st) (tp_set_status L st) (tp_set_status N st)),
     tp_set_guest_page_size = (\<lambda>z. inner (tp_set_guest_page_size M z) (tp_set_guest_page_size L z) (tp_set_guest_page_size N z)),
     tp_requires_legacy_layout = (\<lambda>t. case t of Mmio i \<Rightarrow> tp_requires_legacy_layout M i
       | PciLegacy i \<Rightarrow> tp_requires_legacy_layout L i | PciModern i \<Rightarrow> tp_requires_legacy_layout N i),
     tp_queue_set = (\<lambda>q z a b c. inner (tp_queue_set M q z a b c) (tp_queue_set L q z a b c) (tp_queue_set N q z a b c)),
     tp_queue_unset = (\<lambda>q. inner (tp_queue_unset M q) (tp_queue_unset L q) (tp_queue_unset N q)),
     tp_queue_used = (\<lambda>q. inner (tp_queue_used M q) (tp_queue_used L q) (tp_queue_used N q)),
     tp_ack_interrupt = inner (tp_ack_interrupt M) (tp_ack_interrupt L) (tp_ack_interrupt N) \<rparr>"

type_synonym io_range = "usize \<times> usize"

record pci_info =
  pi_legacy_io :: "io_range option"
  pi_modern_common :: "io_range option"
  pi_modern_notify :: "io_range option"
  pi_notify_off_multiplier :: "u32 option"
  pi_modern_isr :: "io_range option"
  pi_modern_device :: "io_range option"

datatype virtio_init_info = InfoMmio io_range | InfoPci pci_info

text \<open>The constructors of the transports, on register regions.\<close>

record ('m, 'l, 'n, 'w) transport_new =
  tn_mmio :: "io_range \<Rightarrow> ('w, 'm) act"
  tn_legacy :: "io_range \<Rightarrow> nat \<Rightarrow> ('w, 'l) act"
  tn_modern :: "io_range \<Rightarrow> io_range \<Rightarrow> io_range \<Rightarrow> io_range \<Rightarrow> u32 \<Rightarrow> nat \<Rightarrow> ('w, 'n) act"

definition transport_from_init_info :: "('m, 'l, 'n, 'w) transport_new \<Rightarrow> virtio_init_info \<Rightarrow> nat
    \<Rightarrow> ('w, ('m, 'l, 'n) virtio_transport) act" where
  "transport_from_init_info T init_info dev_type = (case init_info of
       InfoMmio region \<Rightarrow> bind (must (tn_mmio T region)) (\<lambda>t. ret (Mmio t))
     | InfoPci p \<Rightarrow> (case (pi_modern_common p, pi_modern_notify p, pi_notify_off_multiplier p, pi_modern_isr p, pi_modern_device p) of
         (Some common, Some notify, Some notify_mul, Some isr, Some device_cfg) \<Rightarrow>
           bind (must (tn_modern T common notify isr device_cfg notify_mul dev_type)) (\<lambda>t. ret (PciModern t))
       | _ \<Rightarrow> (case pi_legacy_io p of
           Some io_range \<Rightarrow> bind (must (tn_legacy T io_range dev_type)) (\<lambda>t. ret (PciLegacy t))
         | None \<Rightarrow> abort)))"

section \<open>A device behind a \<open>Once\<close>\<close>

definition get_must :: "('k, 'a) act \<Rightarrow> ('k option, 'a) act" where
  "get_must m = (\<lambda>s. case s of None \<Rightarrow> (panic, None) | Some k \<Rightarrow> (case m k of (r, k') \<Rightarrow> (r, Some k')))"

text \<open>\<open>to_alien_err\<close>: every error of a device is \<open>DOMAINCRASH\<close>.\<close>

definition to_alien_err :: "('s, 'a) act \<Rightarrow> ('s, 'a) act" where
  "to_alien_err m = map_err DOMAINCRASH m"

text \<open>\<open>init\<close>: the transport, a driver over it (\<open>expect\<close>), and \<open>call_once\<close>.\<close>

definition set_once :: "'k \<Rightarrow> ('k option \<times> 'w, unit) act" where
  "set_once k = modify_state (\<lambda>(s, w). (case s of None \<Rightarrow> Some k | Some k' \<Rightarrow> Some k', w))"

definition virtio_init :: "('m, 'l, 'n, 'w) transport_new \<Rightarrow> (('m, 'l, 'n) virtio_transport \<Rightarrow> ('w, 'k) act) \<Rightarrow> nat
    \<Rightarrow> virtio_init_info \<Rightarrow> ('k option \<times> 'w, unit) act" where
  "virtio_init T new dev_type init_info =
     bind (zoom snd (\<lambda>w (s, _). (s, w)) (bind (transport_from_init_info T init_info dev_type) (\<lambda>t. must (new t)))) set_once"

section \<open>Block devices\<close>

text \<open>The driver of the crate; \<open>vk_crash_trick\<close> is the feature \<open>crash\<close> with its trick, constantly \<open>False\<close>
  without the feature.\<close>

record 'k vblk_ops =
  vk_read_blocks :: "nat \<Rightarrow> u8 list \<Rightarrow> ('k, u8 list) act"
  vk_write_blocks :: "nat \<Rightarrow> u8 list \<Rightarrow> ('k, unit) act"
  vk_capacity :: "('k, u64) act"
  vk_flush :: "('k, unit) act"
  vk_ack_interrupt :: "('k, bool) act"
  vk_crash_trick :: "('k, bool) act"

definition vb_handle_irq :: "'k vblk_ops \<Rightarrow> ('k option, unit) act" where
  "vb_handle_irq K = get_must (bind (to_alien_err (vk_ack_interrupt K)) (\<lambda>_. ret ()))"

definition vb_read_block :: "'k vblk_ops \<Rightarrow> u32 \<Rightarrow> u8 list \<Rightarrow> ('k option, u8 list) act" where
  "vb_read_block K block data = get_must
     (bind (vk_crash_trick K) (\<lambda>crash. bind (assert_that (\<not> crash)) (\<lambda>_. to_alien_err (vk_read_blocks K (unat block) data))))"

definition vb_write_block :: "'k vblk_ops \<Rightarrow> u32 \<Rightarrow> u8 list \<Rightarrow> ('k option, nat) act" where
  "vb_write_block K block data = get_must (bind (to_alien_err (vk_write_blocks K (unat block) data)) (\<lambda>_. ret (length data)))"

definition vb_get_capacity :: "'k vblk_ops \<Rightarrow> ('k option, u64) act" where
  "vb_get_capacity K = get_must (to_alien_err (vk_capacity K))"

definition vb_flush :: "'k vblk_ops \<Rightarrow> ('k option, unit) act" where
  "vb_flush K = get_must (to_alien_err (vk_flush K))"

definition vblk :: "'k vblk_ops \<Rightarrow> 'k option blk_ops" where
  "vblk K = \<lparr> b_read_block = vb_read_block K, b_write_block = vb_write_block K, b_get_capacity = vb_get_capacity K,
     b_flush = vb_flush K \<rparr>"

text \<open>The SD card: a driver that is there from the beginning, over an empty region, and is replaced by \<open>init\<close>.\<close>

record 'k sd_ops =
  sd_new :: "io_range \<Rightarrow> 'k"
  sd_setup :: "('k, unit) act"
  sd_read :: "nat \<Rightarrow> u8 list \<Rightarrow> ('k, u8 list) act"
  sd_write :: "nat \<Rightarrow> u8 list \<Rightarrow> ('k, unit) act"

definition sd_empty :: "'k sd_ops \<Rightarrow> 'k" where
  "sd_empty S = sd_new S (0, 0)"

definition sd_init :: "'k sd_ops \<Rightarrow> virtio_init_info \<Rightarrow> ('k, unit) act" where
  "sd_init S device_info = (case device_info of
       InfoPci _ \<Rightarrow> abort
     | InfoMmio region \<Rightarrow> (\<lambda>s. case bind (sd_setup S) (\<lambda>_. sd_read S 0 (replicate 512 0)) (sd_new S region) of
           (Inl e, _) \<Rightarrow> (Inl e, s)
         | (Inr _, sd) \<Rightarrow> (Ok (), sd)))"

definition sd_read_block :: "'k sd_ops \<Rightarrow> u32 \<Rightarrow> u8 list \<Rightarrow> ('k, u8 list) act" where
  "sd_read_block S block data = sd_read S (unat block) data"

definition sd_write_block :: "'k sd_ops \<Rightarrow> u32 \<Rightarrow> u8 list \<Rightarrow> ('k, nat) act" where
  "sd_write_block S block data = bind (sd_write S (unat block) data) (\<lambda>_. ret (length data))"

definition sd_get_capacity :: "('k, u64) act" where
  "sd_get_capacity = ret (32 * 1024 * 1024 * 1024 div 512)"

definition sd_blk :: "'k sd_ops \<Rightarrow> 'k blk_ops" where
  "sd_blk S = \<lparr> b_read_block = sd_read_block S, b_write_block = sd_write_block S, b_get_capacity = sd_get_capacity, b_flush = ret () \<rparr>"

text \<open>Its waiting loops, over the timer of the kernel and for at most \<open>fuel\<close> rounds.\<close>

fun sleep_ms_loop :: "nat \<Rightarrow> usize \<Rightarrow> ('w, usize) act \<Rightarrow> usize \<Rightarrow> usize \<Rightarrow> ('w, unit progress) act" where
  "sleep_ms_loop 0 freq read_timer ms start = ret Block"
| "sleep_ms_loop (Suc fuel) freq read_timer ms start =
     bind read_timer (\<lambda>now. if now - start < ms * freq div 1000 then sleep_ms_loop fuel freq read_timer ms start else ret (Done ()))"

definition sleep_ms :: "nat \<Rightarrow> usize \<Rightarrow> ('w, usize) act \<Rightarrow> usize \<Rightarrow> ('w, unit progress) act" where
  "sleep_ms fuel freq read_timer ms = bind read_timer (sleep_ms_loop fuel freq read_timer ms)"

fun sleep_ms_until_loop :: "nat \<Rightarrow> usize \<Rightarrow> ('w, usize) act \<Rightarrow> ('w, bool) act \<Rightarrow> usize \<Rightarrow> usize \<Rightarrow> ('w, unit progress) act" where
  "sleep_ms_until_loop 0 freq read_timer f ms start = ret Block"
| "sleep_ms_until_loop (Suc fuel) freq read_timer f ms start =
     bind read_timer (\<lambda>now.
     if now - start < ms * freq div 1000 then
       bind f (\<lambda>ready. if ready then ret (Done ()) else sleep_ms_until_loop fuel freq read_timer f ms start)
     else ret (Done ()))"

definition sleep_ms_until :: "nat \<Rightarrow> usize \<Rightarrow> ('w, usize) act \<Rightarrow> ('w, bool) act \<Rightarrow> usize \<Rightarrow> ('w, unit progress) act" where
  "sleep_ms_until fuel freq read_timer f ms = bind read_timer (sleep_ms_until_loop fuel freq read_timer f ms)"

section \<open>Network cards\<close>

record 'k vnet_ops =
  vn_mac_address_of :: "('k, u8 list) act"
  vn_can_send :: "('k, bool) act"
  vn_can_recv :: "('k, nat option) act"
  vn_send :: "u8 list \<Rightarrow> ('k, unit) act"
  vn_receive_into :: "u8 list \<Rightarrow> ('k, u8 list \<times> nat) act"
  vn_ack_interrupt :: "('k, bool) act"

definition vn_handle_irq :: "'k vnet_ops \<Rightarrow> ('k option, unit) act" where
  "vn_handle_irq V = get_must (bind (to_alien_err (vn_ack_interrupt V)) (\<lambda>_. ret ()))"

definition vn_mac_address :: "'k vnet_ops \<Rightarrow> ('k option, u8 list) act" where
  "vn_mac_address V = get_must (to_alien_err (vn_mac_address_of V))"

definition vn_can_transmit :: "'k vnet_ops \<Rightarrow> ('k option, bool) act" where
  "vn_can_transmit V = get_must (to_alien_err (vn_can_send V))"

definition vn_can_receive :: "'k vnet_ops \<Rightarrow> ('k option, bool) act" where
  "vn_can_receive V = get_must (bind (to_alien_err (vn_can_recv V)) (\<lambda>r. ret (r \<noteq> None)))"

definition vn_rx_queue_size :: "('k option, nat) act" where
  "vn_rx_queue_size = ret 128"

definition vn_tx_queue_size :: "('k option, nat) act" where
  "vn_tx_queue_size = ret 128"

definition vn_transmit :: "'k vnet_ops \<Rightarrow> u8 list \<Rightarrow> ('k option, unit) act" where
  "vn_transmit V tx_buf = get_must (to_alien_err (vn_send V tx_buf))"

definition vn_receive :: "'k vnet_ops \<Rightarrow> u8 list \<Rightarrow> ('k option, u8 list \<times> nat) act" where
  "vn_receive V rx_buf = get_must (to_alien_err (vn_receive_into V rx_buf))"

text \<open>The card of the network stack, in a world that holds the domain.\<close>

definition virtio_nic :: "'k vnet_ops \<Rightarrow> ('k option \<times> 'x) nic_ops" where
  "virtio_nic V = \<lparr> nic_handle_irq = zoom fst (\<lambda>q s. (q, snd s)) (vn_handle_irq V),
     nic_can_receive = zoom fst (\<lambda>q s. (q, snd s)) (vn_can_receive V),
     nic_receive = (\<lambda>buf. zoom fst (\<lambda>q s. (q, snd s)) (vn_receive V buf)) \<rparr>"

section \<open>Display and input\<close>

record 'k vgpu_ops =
  vg_resolution :: "('k, u32 \<times> u32) act"
  vg_setup_framebuffer :: "('k, usize \<times> usize) act"      \<comment> \<open>address and length\<close>
  vg_move_cursor :: "u32 \<Rightarrow> u32 \<Rightarrow> ('k, unit) act"
  vg_flush_device :: "('k, unit) act"
  vg_ack_interrupt :: "('k, bool) act"

record ('k, 'w) vgpu =
  vg_range :: "io_range option"
  vg_gpu :: "'k option"
  vg_world :: 'w

definition vg_new :: "'w \<Rightarrow> ('k, 'w) vgpu" where
  "vg_new w = \<lparr> vg_range = None, vg_gpu = None, vg_world = w \<rparr>"

definition in_gpu :: "('k, 'a) act \<Rightarrow> (('k, 'w) vgpu, 'a) act" where
  "in_gpu m = zoom vg_gpu (\<lambda>g s. s\<lparr>vg_gpu := g\<rparr>) (get_must m)"

definition vg_handle_irq :: "'k vgpu_ops \<Rightarrow> (('k, 'w) vgpu, unit) act" where
  "vg_handle_irq G = in_gpu (bind (must (vg_ack_interrupt G)) (\<lambda>_. ret ()))"

text \<open>The picture is set up before the driver is stored; a second \<open>init\<close> leaves what is there.\<close>

definition vg_init :: "('m, 'l, 'n, 'w) transport_new \<Rightarrow> (('m, 'l, 'n) virtio_transport \<Rightarrow> ('w, 'k) act) \<Rightarrow> 'k vgpu_ops \<Rightarrow> nat
    \<Rightarrow> virtio_init_info \<Rightarrow> (('k, 'w) vgpu, unit) act" where
  "vg_init T new G dev_type init_info =
     bind (zoom vg_world (\<lambda>w s. s\<lparr>vg_world := w\<rparr>) (bind (transport_from_init_info T init_info dev_type) (\<lambda>t. must (new t)))) (\<lambda>gpu.
     case bind (must (vg_resolution G)) (\<lambda>_. bind (must (vg_setup_framebuffer G)) (\<lambda>fb.
            bind (must (vg_move_cursor G 50 50)) (\<lambda>_. bind (must (vg_flush_device G)) (\<lambda>_. ret fb)))) gpu of
       (Inl e, _) \<Rightarrow> lift (Inl e)
     | (Inr (ptr, len), gpu') \<Rightarrow> modify_state (\<lambda>s. s\<lparr>
           vg_range := (case vg_range s of None \<Rightarrow> Some (ptr, ptr + len) | r \<Rightarrow> r),
           vg_gpu := (case vg_gpu s of None \<Rightarrow> Some gpu' | g \<Rightarrow> g)\<rparr>))"

definition vg_flush :: "'k vgpu_ops \<Rightarrow> (('k, 'w) vgpu, unit) act" where
  "vg_flush G = in_gpu (must (vg_flush_device G))"

definition vg_fill :: "u32 \<Rightarrow> u8 list \<Rightarrow> (('k, 'w) vgpu, nat) act" where
  "vg_fill offset buf = abort"

definition vg_buffer_range :: "(('k, 'w) vgpu, io_range) act" where
  "vg_buffer_range = bind get_state (\<lambda>s. lift (unwrap (vg_range s)))"

text \<open>An input event: type, code and value.\<close>

type_synonym raw_event = "16 word \<times> 16 word \<times> u32"

record 'k vinput_ops =
  vi_pop_pending_event :: "('k, raw_event option) act"
  vi_ack_interrupt :: "('k, bool) act"

definition pack_event :: "raw_event \<Rightarrow> u64" where
  "pack_event e = (case e of (event_type, code, value) \<Rightarrow>
     or (or (push_bit 48 (ucast event_type)) (push_bit 32 (ucast code))) (ucast value))"

definition vi_handle_irq :: "'k vinput_ops \<Rightarrow> ('k option, unit) act" where
  "vi_handle_irq I = get_must (bind (must (vi_ack_interrupt I)) (\<lambda>_. ret ()))"

definition vi_event_nonblock :: "'k vinput_ops \<Rightarrow> ('k option, u64 option) act" where
  "vi_event_nonblock I = get_must (map_err EINVAL (bind (vi_pop_pending_event I) (\<lambda>v. ret (map_option pack_event v))))"

section \<open>Clocks\<close>

record date_time =
  dt_year :: usize
  dt_month :: usize
  dt_day :: usize
  dt_hour :: usize
  dt_minutes :: usize
  dt_seconds :: usize

text \<open>The fields of \<open>RtcTime\<close> that are set; the rest is the default.\<close>

record rtc_time =
  rt_year :: u32
  rt_mon :: u32
  rt_mday :: u32
  rt_hour :: u32
  rt_min :: u32
  rt_sec :: u32

definition rtc_time_of :: "date_time \<Rightarrow> rtc_time" where
  "rtc_time_of date = \<lparr> rt_year = ucast (dt_year date), rt_mon = ucast (dt_month date), rt_mday = ucast (dt_day date),
     rt_hour = ucast (dt_hour date), rt_min = ucast (dt_minutes date), rt_sec = ucast (dt_seconds date) \<rparr>"

text \<open>\<open>date_of\<close> is \<open>DateTime::new\<close> of the crate \<open>timestamp\<close>.\<close>

definition goldfish_init :: "(io_range \<Rightarrow> 'k) \<Rightarrow> io_range \<Rightarrow> ('k option, unit) act" where
  "goldfish_init new address_range = modify_state (\<lambda>s. case s of None \<Rightarrow> Some (new address_range) | Some k \<Rightarrow> Some k)"

definition goldfish_read_time :: "(usize \<Rightarrow> date_time) \<Rightarrow> ('k, u64) act \<Rightarrow> ('k option, rtc_time) act" where
  "goldfish_read_time date_of read_time =
     bind (get_must read_time) (\<lambda>time_stamp_nanos. ret (rtc_time_of (date_of (time_stamp_nanos div 1000000000))))"

definition cmos_read_time :: "(usize \<Rightarrow> date_time) \<Rightarrow> ('w, u64) act \<Rightarrow> ('w, rtc_time) act" where
  "cmos_read_time date_of get_unix_timestamp = bind get_unix_timestamp (\<lambda>unix_secs. ret (rtc_time_of (date_of unix_secs)))"

section \<open>A disk behind the proxy and the cache\<close>

lemma get_must_run [act_simps]: "get_must m (Some k) = (case m k of (r, k') \<Rightarrow> (r, Some k'))" "get_must m None = (panic, None)"
  by (simp_all add: get_must_def)

lemma to_alien_err_run [act_simps]:
  "to_alien_err m s = (case m s of (Inl (Errno _), s') \<Rightarrow> (Err DOMAINCRASH, s') | (Inl Panic, s') \<Rightarrow> (panic, s') | (Inr x, s') \<Rightarrow> (Ok x, s'))"
  by (simp add: to_alien_err_def map_err_run)

text \<open>The documented behaviour of the driver on blocks inside the disk.\<close>

definition virtio_disk :: "'k vblk_ops \<Rightarrow> ('k \<Rightarrow> u8 list) \<Rightarrow> bool" where
  "virtio_disk K disk \<longleftrightarrow>
     (\<forall>k. \<exists>k'. vk_crash_trick K k = (Ok False, k') \<and> disk k' = disk k)
   \<and> (\<forall>k b data. length data = 512 \<and> (b + 1) * 512 \<le> length (disk k) \<longrightarrow>
        (\<exists>k'. vk_read_blocks K b data k = (Ok (slice (b * 512) 512 (disk k)), k') \<and> disk k' = disk k))
   \<and> (\<forall>k b data. length data = 512 \<and> (b + 1) * 512 \<le> length (disk k) \<longrightarrow>
        (\<exists>k'. vk_write_blocks K b data k = (Ok (), k') \<and> disk k' = splice (b * 512) data (disk k)))"

definition disk_of :: "('k \<Rightarrow> u8 list) \<Rightarrow> 'k option \<Rightarrow> u8 list" where
  "disk_of disk s = (case s of None \<Rightarrow> [] | Some k \<Rightarrow> disk k)"

lemma virtio_block_device:
  assumes "virtio_disk K disk"
  shows "block_device (vblk K) (disk_of disk) (\<lambda>s. s \<noteq> None)"
proof
  fix s :: "'a option" and i :: u32 and buf :: "u8 list"
  assume s: "s \<noteq> None" and i: "(unat i + 1) * 512 \<le> length (disk_of disk s)" "length buf = 512"
  then obtain k where k: "s = Some k" "disk_of disk s = disk k" by (auto simp: disk_of_def)
  obtain k1 where c: "vk_crash_trick K k = (Ok False, k1)" "disk k1 = disk k" using assms unfolding virtio_disk_def by blast
  have len: "length buf = 512 \<and> (unat i + 1) * 512 \<le> length (disk k1)" using i k c(2) by simp
  obtain k2 where "vk_read_blocks K (unat i) buf k1 = (Ok (slice (unat i * 512) 512 (disk k1)), k2)" "disk k2 = disk k1"
    using assms len unfolding virtio_disk_def by blast
  then show "\<exists>d'. b_read_block (vblk K) i buf s = (Ok (slice (unat i * 512) 512 (disk_of disk s)), d')
      \<and> disk_of disk d' = disk_of disk s \<and> d' \<noteq> None"
    using c k by (simp add: vblk_def vb_read_block_def act_simps) (simp add: disk_of_def)
  obtain k3 where "vk_write_blocks K (unat i) buf k = (Ok (), k3)" "disk k3 = splice (unat i * 512) buf (disk k)"
    using assms len c(2) unfolding virtio_disk_def by metis
  then show "\<exists>d'. b_write_block (vblk K) i buf s = (Ok 512, d')
      \<and> disk_of disk d' = splice (unat i * 512) buf (disk_of disk s) \<and> d' \<noteq> None"
    using k i(2) by (simp add: vblk_def vb_write_block_def act_simps) (simp add: disk_of_def)
qed

text \<open>So the cache over the proxy over a virtio disk is the flat array of its bytes.\<close>

theorem virtio_flat_array:
  assumes "virtio_disk K disk" "lru_law L m" "length uninit = 512" "sb_blk (cb_blk s)" "sb_dev (cb_blk s) = Some k"
    and "pages_ok FS (m (cb_cache s)) (disk k)" "unat off + length buf \<le> length (disk k)" "length rbuf = length buf"
  shows "let B = shadow_ops (vblk K) checkout uninit;
             bytes = (\<lambda>s. cache_view FS (m (cb_cache s)) (disk_of disk (sb_dev (cb_blk s)))) in
    \<exists>s' s''. cache_write FS L B uninit off buf s = (Ok (length buf), s')
      \<and> bytes s' = splice (unat off) buf (bytes s)
      \<and> cache_read FS L B uninit off rbuf s' = (Ok buf, s'') \<and> bytes s'' = bytes s'"
proof -
  note proxy = block_device.shadow_device [OF virtio_block_device [OF assms(1)], of checkout uninit]
  show ?thesis
    using block_device.flat_array [OF proxy assms(2,3), of s FS off buf rbuf] assms(4-8)
    by (simp add: Let_def block_device.view_def [OF proxy]) (simp add: disk_of_def)
qed


text \<open>A disk of one block that answers \<open>EINVAL\<close> for every other, and \<open>EIO\<close> to all else once a write has failed.\<close>

definition one_block :: "(bool \<times> u8 list) vblk_ops" where
  "one_block = \<lparr> vk_read_blocks = (\<lambda>b data d. if b = 0 then (Ok (snd d), d) else (Err EINVAL, d)),
     vk_write_blocks = (\<lambda>b data d. if b = 0 then (Ok (), (fst d, data)) else (Err EINVAL, (True, snd d))),
     vk_capacity = (\<lambda>d. if fst d then (Err EIO, d) else (Ok 1, d)),
     vk_flush = (\<lambda>d. if fst d then (Err EIO, d) else (Ok (), d)),
     vk_ack_interrupt = ret True, vk_crash_trick = ret False \<rparr>"

lemma one_block_calls: "vk_crash_trick one_block d = (Ok False, d)"
  "b \<noteq> 0 \<Longrightarrow> vk_read_blocks one_block b data d = (Err EINVAL, d)"
  "b \<noteq> 0 \<Longrightarrow> vk_write_blocks one_block b data d = (Err EINVAL, (True, snd d))"
  "vk_flush one_block (True, x) = (Err EIO, (True, x))" "vk_capacity one_block (True, x) = (Err EIO, (True, x))"
  by (simp_all add: one_block_def act_simps)


section \<open>An interrupt of a card takes every packet\<close>

text \<open>The documented behaviour of a card whose received packets are \<open>rx\<close>: acknowledging an interrupt and asking
  leave them, receiving takes the first.\<close>

definition rx_law :: "'k vnet_ops \<Rightarrow> ('k \<Rightarrow> u8 list list) \<Rightarrow> bool" where
  "rx_law V rx \<longleftrightarrow>
     (\<forall>k. \<exists>b k'. vn_ack_interrupt V k = (Ok b, k') \<and> rx k' = rx k)
   \<and> (\<forall>k. \<exists>t k'. vn_can_recv V k = (Ok t, k') \<and> (t = None \<longleftrightarrow> rx k = []) \<and> rx k' = rx k)
   \<and> (\<forall>k buf p ps. rx k = p # ps \<and> length p \<le> length buf \<longrightarrow>
        (\<exists>k'. vn_receive_into V buf k = (Ok (splice 0 p buf, length p), k') \<and> rx k' = ps))"

text \<open>The stack may send while it analyses a packet, and takes none off the card.\<close>

definition analyses :: "('k option \<times> 'x, 'c) stack_env \<Rightarrow> ('k \<Rightarrow> u8 list list) \<Rightarrow> ('x \<Rightarrow> u8 list list) \<Rightarrow> bool" where
  "analyses E rx seen \<longleftrightarrow> (\<forall>bs k x. \<exists>k' x'. sv_analysis (st_server E) bs (Some k, x) = (Ok (), (Some k', x'))
     \<and> rx k' = rx k \<and> seen x' = seen x @ [bs])"

lemma virtio_receives:
  assumes V: "rx_law V rx" and E: "st_nic E = virtio_nic V" "analyses E rx seen"
  shows "nt_world s = (Some k, x) \<Longrightarrow> rx k = ps \<Longrightarrow> \<forall>p \<in> set ps. length p \<le> length buf \<Longrightarrow> length ps < fuel \<Longrightarrow>
    \<exists>k' x'. receive_loop fuel E buf s = (Ok (Done ()), s\<lparr>nt_world := (Some k', x')\<rparr>) \<and> rx k' = [] \<and> seen x' = seen x @ ps"
proof (induction fuel arbitrary: s k x ps buf)
  case (Suc fuel)
  obtain t k1 where c: "vn_can_recv V k = (Ok t, k1)" "t = None \<longleftrightarrow> ps = []" "rx k1 = ps"
    using V Suc.prems(2) unfolding rx_law_def by blast
  have can: "nic_can_receive (virtio_nic V) (Some k, x) = (Ok (ps \<noteq> []), (Some k1, x))"
    using c(1,2) by (cases t) (simp_all add: virtio_nic_def vn_can_receive_def act_simps)
  show ?case
  proof (cases ps)
    case Nil
    then show ?thesis
      using Suc.prems(1) can c(3) by (intro exI [of _ k1] exI [of _ x]) (simp add: E(1) in_server_run act_simps)
  next
    case (Cons p qs)
    then have len: "length p \<le> length buf" using Suc.prems(3) by simp
    obtain k2 where r: "vn_receive_into V buf k1 = (Ok (splice 0 p buf, length p), k2)" "rx k2 = qs"
      using V c(3) Cons len unfolding rx_law_def by blast
    have rec: "nic_receive (virtio_nic V) buf (Some k1, x) = (Ok (splice 0 p buf, length p), (Some k2, x))"
      using r(1) by (simp add: virtio_nic_def vn_receive_def act_simps)
    obtain k3 x3 where an: "sv_analysis (st_server E) p (Some k2, x) = (Ok (), (Some k3, x3))" "rx k3 = qs" "seen x3 = seen x @ [p]"
      using E(2) r(2) unfolding analyses_def by blast
    have buf: "take (length p) (splice 0 p buf) = p" "length (splice 0 p buf) = length buf" using len by (simp_all add: splice_def)
    obtain k' x' where "receive_loop fuel E (splice 0 p buf) (s\<lparr>nt_world := (Some k3, x3)\<rparr>)
        = (Ok (Done ()), s\<lparr>nt_world := (Some k', x')\<rparr>)" "rx k' = []" "seen x' = seen x3 @ qs"
      using Suc.IH [of "s\<lparr>nt_world := (Some k3, x3)\<rparr>" k3 x3 qs "splice 0 p buf"] Suc.prems(3,4) Cons an buf(2) by auto
    then show ?thesis
      using Suc.prems(1) can rec an Cons len buf
      by (intro exI [of _ k'] exI [of _ x']) (simp add: E(1) in_server_run act_simps)
  qed
qed simp

text \<open>C38: the interrupt handler of the network stack over a virtio card ends and takes every packet. It
  hands the packets that had arrived to the stack in order, each once and unchanged, and leaves none on the
  card, after one round more than there are packets; the table of sockets is not touched by the handler
  itself. (Over the loopback card it never ends, \<open>loopback_irq_diverges\<close>.)\<close>

theorem virtio_irq_receives:
  assumes "rx_law V rx" "st_nic E = virtio_nic V" "analyses E rx seen"
    and "nt_world s = (Some k, x)" "\<forall>p \<in> set (rx k). length p \<le> length (st_uninit E 1600)" "length (rx k) < fuel"
  shows "\<exists>k' x'. ns_handle_irq fuel E s = (Ok (Done ()), s\<lparr>nt_world := (Some k', x')\<rparr>) \<and> rx k' = [] \<and> seen x' = seen x @ rx k"
proof -
  obtain b k1 where a: "vn_ack_interrupt V k = (Ok b, k1)" "rx k1 = rx k" using assms(1) unfolding rx_law_def by blast
  have "nic_handle_irq (virtio_nic V) (Some k, x) = (Ok (), (Some k1, x))"
    using a(1) by (simp add: virtio_nic_def vn_handle_irq_def act_simps)
  then show ?thesis
    using virtio_receives [OF assms(1-3), of "s\<lparr>nt_world := (Some k1, x)\<rparr>" k1 x "rx k" "st_uninit E 1600" fuel] a(2) assms(4-6)
    by (simp add: ns_handle_irq_def assms(2) in_server_run act_simps)
qed

text \<open>A card with a list of packets, and a stack that notes what it is given.\<close>

definition list_card :: "u8 list list vnet_ops" where
  "list_card = \<lparr> vn_mac_address_of = ret [], vn_can_send = ret True,
     vn_can_recv = (\<lambda>q. (Ok (if q = [] then None else Some 0), q)), vn_send = (\<lambda>_. ret ()),
     vn_receive_into = (\<lambda>buf q. case q of p # ps \<Rightarrow> (Ok (splice 0 p buf, length p), ps) | [] \<Rightarrow> (Err EAGAIN, [])),
     vn_ack_interrupt = ret True \<rparr>"

lemma list_card_law: "rx_law list_card (\<lambda>q. q)"
  by (auto simp: rx_law_def list_card_def act_simps)

definition noting_conn :: "(u8 list list option \<times> u8 list list, unit) conn_ops" where
  "noting_conn = \<lparr> cn_recv_from = (\<lambda>_ w. (Inl EmptyData, w)),
     cn_sendto = (\<lambda>_ bs _ w. (Inr (length bs), w)), cn_bind = (\<lambda>_ _ w. (Inr (), w)), cn_listen = (\<lambda>_ w. (Inr (), w)),
     cn_accept = (\<lambda>_ w. (Inl Blocking, w)), cn_connect = (\<lambda>_ _ w. (Inr (), w)), cn_close = (\<lambda>_ w. (Inr (), w)),
     cn_get_local = (\<lambda>_ w. (Inr (0, 0), w)), cn_get_remote = (\<lambda>_ w. (Inr (0, 0), w)), cn_readable = (\<lambda>_ w. (Inr False, w)),
     cn_is_closed = (\<lambda>_ w. (Inr False, w)), cn_protocol = (\<lambda>_ w. (Inr TCP, w)), cn_server_refs = (\<lambda>_ _. 1) \<rparr>"

definition noting_stack :: "(u8 list list option \<times> u8 list list, unit) stack_env" where
  "noting_stack = \<lparr> st_conn = noting_conn,
     st_server = \<lparr> sv_blank_tcp = (\<lambda>w. ((), w)), sv_blank_udp = (\<lambda>w. ((), w)), sv_tcp_is_used = (\<lambda>_ _. False),
       sv_udp_is_used = (\<lambda>_ _. False), sv_get_tcp = (\<lambda>_ _. None), sv_get_udp = (\<lambda>_ _. None),
       sv_analysis = (\<lambda>bs (q, x). (Ok (), (q, x @ [bs]))) \<rparr>,
     st_nic = virtio_nic list_card, st_uninit = (\<lambda>n. replicate n 0), st_in = 1, st_out = 4, AF_INET = 2 \<rparr>"

lemma noting_analyses: "analyses noting_stack (\<lambda>q. q) (\<lambda>x. x)"
  by (simp add: analyses_def noting_stack_def)

theorem virtio_irq_receives_witness:
  "\<exists>k'. ns_handle_irq 3 noting_stack \<lparr> nt_map = [], nt_next = 0, nt_world = (Some [[1, 2], [3]], []) \<rparr>
     = (Ok (Done ()), \<lparr> nt_map = [], nt_next = 0, nt_world = (Some k', [[1, 2], [3]]) \<rparr>)"
  using virtio_irq_receives [OF list_card_law _ noting_analyses, of "\<lparr> nt_map = [], nt_next = 0, nt_world = (Some [[1, 2], [3]], []) \<rparr>"
      "[[1, 2], [3]]" "[]" 3]
  by (simp add: noting_stack_def)

section \<open>Input events\<close>

definition unpack_event :: "u64 \<Rightarrow> raw_event" where
  "unpack_event w = (ucast (drop_bit 48 w), ucast (drop_bit 32 w), ucast w)"

lemma no_bit: "\<not> bit c (16 + n)" "\<not> bit v (32 + n)" "\<not> bit v (48 + n)" for c :: "16 word" and v :: u32
  using bit_imp_le_length [of c "16 + n"] bit_imp_le_length [of v "32 + n"] bit_imp_le_length [of v "48 + n"] by auto

lemma unpack_pack [simp]: "unpack_event (pack_event e) = e"
proof (cases e)
  case (fields t c v)
  have "ucast (drop_bit 48 (pack_event e)) = t" "ucast (drop_bit 32 (pack_event e)) = c" "ucast (pack_event e) = v"
    unfolding fields pack_event_def prod.case by (auto intro!: bit_word_eqI simp: bit_simps no_bit)
  then show ?thesis by (simp add: unpack_event_def fields)
qed

text \<open>An initialised driver below the input domain.\<close>

definition over_virtio_input :: "'k vinput_ops \<Rightarrow> 'k input_ops" where
  "over_virtio_input I = \<lparr> ip_event_nonblock = zoom Some (\<lambda>s k. the s) (vi_event_nonblock I) \<rparr>"

definition pops :: "'k vinput_ops \<Rightarrow> ('k \<Rightarrow> raw_event list) \<Rightarrow> bool" where
  "pops I q \<longleftrightarrow> (\<forall>k. case q k of
       [] \<Rightarrow> \<exists>k'. vi_pop_pending_event I k = (Ok None, k') \<and> q k' = []
     | e # es \<Rightarrow> \<exists>k'. vi_pop_pending_event I k = (Ok (Some e), k') \<and> q k' = es)"

lemma pops_law:
  assumes "pops I q"
  shows "input_law (over_virtio_input I) (\<lambda>k. map pack_event (q k))"
  unfolding input_law_def
proof
  fix k
  show "case map pack_event (q k) of
        [] \<Rightarrow> \<exists>k'. ip_event_nonblock (over_virtio_input I) k = (Ok None, k') \<and> map pack_event (q k') = []
      | e # es \<Rightarrow> \<exists>k'. ip_event_nonblock (over_virtio_input I) k = (Ok (Some e), k') \<and> map pack_event (q k') = es"
    using spec [OF assms [unfolded pops_def], of k]
    by (cases "q k") (auto simp: over_virtio_input_def vi_event_nonblock_def act_simps)
qed

text \<open>C40: the events of a virtio device survive their packing. An interrupt moves all the pending events of
  the device into the empty queue of the input domain that has room for them; unpacked again they are the
  types, codes and values that the device reported, in order.\<close>

theorem input_events_roundtrip:
  assumes "pops I q" "bi_events s = []" "q (bi_world s) = es" "length es < fuel" "length es \<le> n" "0 < n"
  shows "\<exists>s'. bi_drain fuel n (over_virtio_input I) cnt s = (Ok (Done (cnt + length es)), s') \<and> map unpack_event (bi_events s') = es"
proof -
  obtain s' where "bi_drain fuel n (over_virtio_input I) cnt s = (Ok (Done (cnt + length (map pack_event es))), s')"
    "bi_events s' = drop (length (bi_events s) + length (map pack_event es) - n) (bi_events s @ map pack_event es)"
    using buf_input_ring [OF pops_law [OF assms(1)], of s "map pack_event es" fuel n cnt] assms(2-) by auto
  then show ?thesis using assms(2,5) by (simp add: comp_def)
qed

definition list_input :: "raw_event list vinput_ops" where
  "list_input = \<lparr> vi_pop_pending_event = (\<lambda>q. case q of [] \<Rightarrow> (Ok None, []) | e # es \<Rightarrow> (Ok (Some e), es)), vi_ack_interrupt = ret True \<rparr>"

lemma list_input_pops: "pops list_input (\<lambda>q. q)"
  by (auto simp: pops_def list_input_def split: list.split)

theorem input_events_roundtrip_witness:
  "\<exists>s'. bi_drain 9 4 (over_virtio_input list_input) 0 \<lparr> bi_events = [], bi_wait = [], bi_world = [(1, 30, 1), (0, 0, 0)] \<rparr> = (Ok (Done 2), s')
     \<and> map unpack_event (bi_events s') = [(1, 30, 1), (0, 0, 0)]"
  using input_events_roundtrip [OF list_input_pops, of "\<lparr> bi_events = [], bi_wait = [], bi_world = [(1, 30, 1), (0, 0, 0)] \<rparr>"
      "[(1, 30, 1), (0, 0, 0)]" 9 4 0] by (simp add: numeral_2_eq_2)

end
