(* ===== verification/Irq.thy ===== *)
theory Irq
  imports BTree
begin

text \<open>
  The interrupt controller domains (\<open>common/plic\<close>, \<open>common/io_apic\<close>): the device domains by interrupt,
  which are looked up by name on their first interrupt, the counts, and the text that lists them. The
  controllers of the crates \<open>raw_plic\<close> and \<open>x86_apic\<close>, the table of domains and the devices act on a
  world of type \<open>'w\<close>.
\<close>

section \<open>The kernel\<close>

record ('w, 'r, 'd) irq_kernel =
  ik_cpu_id :: "'w \<Rightarrow> nat"
  ik_get_domain :: "u8 list \<Rightarrow> 'w \<Rightarrow> 'r option"
  ik_device :: "'r \<Rightarrow> 'd res"                     \<comment> \<open>\<open>try_into\<close> a \<open>DeviceBase\<close>\<close>
  ik_handle :: "'d \<Rightarrow> ('w, unit) act"
  ik_utf8 :: "u8 list \<Rightarrow> bool"

datatype 'd device_domain = DevName "u8 list" | DevDomain 'd

section \<open>The list of the counts\<close>

text \<open>\<open>format!("{}: {}\r\n", irq, value)\<close>.\<close>

fun decimal :: "nat \<Rightarrow> u8 list" where
  "decimal n = (if n < 10 then [48 + of_nat n] else decimal (n div 10) @ [48 + of_nat (n mod 10)])"

declare decimal.simps [simp del]

definition info_line :: "nat \<times> nat \<Rightarrow> u8 list" where
  "info_line e = decimal (fst e) @ [58, 32] @ decimal (snd e) @ [13, 10]"

definition info_text :: "(nat, nat) btree \<Rightarrow> u8 list" where
  "info_text counts = concat (map info_line counts)"

definition irq_info :: "(nat, nat) btree \<Rightarrow> u8 list \<Rightarrow> u8 list" where
  "irq_info counts buf =
     (let res = info_text counts; copy_len = min (length buf) (length res) in splice 0 (take copy_len res) buf)"

section \<open>The PLIC\<close>

datatype plic_mode = Machine | Supervisor

datatype plic_type = Qemu | SiFive

record 'w plic_ops =
  pl_new :: "nat list \<Rightarrow> ('w, unit) act"
  pl_claim :: "nat \<Rightarrow> plic_mode \<Rightarrow> 'w \<Rightarrow> u32 \<times> 'w"
  pl_complete :: "nat \<Rightarrow> plic_mode \<Rightarrow> u32 \<Rightarrow> 'w \<Rightarrow> 'w"
  pl_set_threshold :: "nat \<Rightarrow> plic_mode \<Rightarrow> nat \<Rightarrow> 'w \<Rightarrow> 'w"
  pl_set_priority :: "u32 \<Rightarrow> nat \<Rightarrow> 'w \<Rightarrow> 'w"
  pl_enable :: "nat \<Rightarrow> plic_mode \<Rightarrow> u32 \<Rightarrow> 'w \<Rightarrow> 'w"
  CPU_NUM :: nat

record ('d, 'w) plic =
  pc_ready :: bool                               \<comment> \<open>the static \<open>PLIC\<close> is set\<close>
  pc_table :: "(nat, 'd device_domain) btree"
  pc_count :: "(nat, nat) btree"
  pc_world :: 'w

definition in_plic :: "('w, 'a) act \<Rightarrow> (('d, 'w) plic, 'a) act" where
  "in_plic = zoom pc_world (\<lambda>w s. s\<lparr>pc_world := w\<rparr>)"

definition hw_plic :: "('w \<Rightarrow> 'w) \<Rightarrow> (('d, 'w) plic, unit) act" where
  "hw_plic f = in_plic (modify_state f)"

definition plic_new :: "'w \<Rightarrow> ('d, 'w) plic" where
  "plic_new w = \<lparr> pc_ready = False, pc_table = bt_empty, pc_count = bt_empty, pc_world = w \<rparr>"

definition plic_init :: "'w plic_ops \<Rightarrow> plic_type \<Rightarrow> (('d, 'w) plic, unit) act" where
  "plic_init P ty =
     (let privileges = (case ty of Qemu \<Rightarrow> replicate (CPU_NUM P) 2 | SiFive \<Rightarrow> (replicate (CPU_NUM P) 2)[0 := 1]) in
      bind get_state (\<lambda>s. if pc_ready s then ret ()
        else bind (in_plic (pl_new P privileges)) (\<lambda>_. modify_state (\<lambda>s. s\<lparr>pc_ready := True\<rparr>))))"

text \<open>The device of a table entry, which is run; a name is replaced by its domain afterwards.\<close>

definition plic_serve :: "('w, 'r, 'd) irq_kernel \<Rightarrow> nat \<Rightarrow> 'd device_domain \<Rightarrow> (('d, 'w) plic, unit) act" where
  "plic_serve K irq d = (case d of
       DevName name \<Rightarrow>
         bind get_state (\<lambda>s. bind (lift (unwrap (ik_get_domain K name (pc_world s)))) (\<lambda>device_domain.
         bind (lift (ik_device K device_domain)) (\<lambda>device_domain.
         bind (in_plic (ik_handle K device_domain)) (\<lambda>_.
         modify_state (\<lambda>s. s\<lparr>pc_table := bt_insert irq (DevDomain device_domain) (pc_table s)\<rparr>)))))
     | DevDomain device \<Rightarrow> in_plic (ik_handle K device))"

definition plic_handle_irq :: "('w, 'r, 'd) irq_kernel \<Rightarrow> 'w plic_ops \<Rightarrow> (('d, 'w) plic, unit) act" where
  "plic_handle_irq K P =
     bind get_state (\<lambda>s. bind (assert_that (pc_ready s)) (\<lambda>_.
     let cpu_id = ik_cpu_id K (pc_world s) in
     bind (in_plic (\<lambda>w. case pl_claim P cpu_id Supervisor w of (i, w') \<Rightarrow> (Ok i, w'))) (\<lambda>claimed.
     let irq = unat claimed in
     bind get_state (\<lambda>s. bind (lift (unwrap (bt_get (pc_table s) irq))) (\<lambda>device_domain.
     bind (plic_serve K irq device_domain) (\<lambda>_.
     bind (hw_plic (pl_complete P cpu_id Supervisor (of_nat irq))) (\<lambda>_.
     bind get_state (\<lambda>s. bind (lift (unwrap (bt_get (pc_count s) irq))) (\<lambda>n.
     modify_state (\<lambda>s. s\<lparr>pc_count := bt_insert irq (n + 1) (pc_count s)\<rparr>))))))))))"

definition plic_register_irq :: "('w, 'r, 'd) irq_kernel \<Rightarrow> 'w plic_ops \<Rightarrow> nat \<Rightarrow> u8 list \<Rightarrow> (('d, 'w) plic, unit) act" where
  "plic_register_irq K P irq device_domain_name =
     bind get_state (\<lambda>s. let cpu_id = ik_cpu_id K (pc_world s) in
     bind (assert_that (pc_ready s)) (\<lambda>_.
     bind (hw_plic (pl_set_threshold P cpu_id Machine 1)) (\<lambda>_.
     bind (hw_plic (pl_set_threshold P cpu_id Supervisor 0)) (\<lambda>_.
     bind (hw_plic (pl_complete P cpu_id Supervisor (of_nat irq))) (\<lambda>_.
     bind (hw_plic (pl_set_priority P (of_nat irq) 1)) (\<lambda>_.
     bind (hw_plic (pl_enable P cpu_id Supervisor (of_nat irq))) (\<lambda>_.
     bind (assert_that (ik_utf8 K device_domain_name)) (\<lambda>_.
     modify_state (\<lambda>s. s\<lparr>pc_table := bt_insert irq (DevName device_domain_name) (pc_table s),
       pc_count := bt_insert irq 0 (pc_count s)\<rparr>)))))))))"

definition plic_irq_info :: "u8 list \<Rightarrow> (('d, 'w) plic, u8 list) act" where
  "plic_irq_info buf = bind get_state (\<lambda>s. ret (irq_info (pc_count s) buf))"

section \<open>The I/O APIC\<close>

text \<open>Calls on the hardware that may fail; the domain turns every failure into \<open>EINVAL\<close>.\<close>

record 'w ioapic_ops =
  io_new :: "usize \<Rightarrow> 'w \<Rightarrow> unit option \<times> 'w"
  io_configure :: "u8 \<Rightarrow> u8 \<Rightarrow> u8 \<Rightarrow> 'w \<Rightarrow> unit option \<times> 'w"
  io_enable :: "u8 \<Rightarrow> 'w \<Rightarrow> unit option \<times> 'w"
  io_disable :: "u8 \<Rightarrow> 'w \<Rightarrow> unit option \<times> 'w"
  io_max_entry :: "'w \<Rightarrow> u8 option \<times> 'w"

record ('d, 'w) ioapic =
  ia_apic :: bool                                \<comment> \<open>\<open>apic\<close> is \<open>Some\<close>; the registers are in the world\<close>
  ia_table :: "(nat, 'd device_domain list) btree"
  ia_count :: "(nat, nat) btree"
  ia_world :: 'w

definition hw_ioapic :: "('w \<Rightarrow> 'a option \<times> 'w) \<Rightarrow> (('d, 'w) ioapic, 'a) act" where
  "hw_ioapic m = zoom ia_world (\<lambda>w s. s\<lparr>ia_world := w\<rparr>) (\<lambda>w. case m w of (r, w') \<Rightarrow> (ok_or r EINVAL, w'))"

definition with_ioapic :: "('w \<Rightarrow> 'a option \<times> 'w) \<Rightarrow> (('d, 'w) ioapic, 'a) act" where
  "with_ioapic m = bind get_state (\<lambda>s. if ia_apic s then hw_ioapic m else fail EINVAL)"

definition ioapic_new :: "'w \<Rightarrow> ('d, 'w) ioapic" where
  "ioapic_new w = \<lparr> ia_apic = False, ia_table = bt_empty, ia_count = bt_empty, ia_world = w \<rparr>"

definition ioapic_init :: "'w ioapic_ops \<Rightarrow> usize \<Rightarrow> (('d, 'w) ioapic, unit) act" where
  "ioapic_init A base = bind get_state (\<lambda>s. if ia_apic s then ret ()
     else bind (hw_ioapic (io_new A base)) (\<lambda>_. modify_state (\<lambda>s. s\<lparr>ia_apic := True\<rparr>)))"

definition configure_irq :: "'w ioapic_ops \<Rightarrow> u8 \<Rightarrow> u8 \<Rightarrow> u8 \<Rightarrow> (('d, 'w) ioapic, unit) act" where
  "configure_irq A irq vector dest_cpu = with_ioapic (io_configure A irq vector dest_cpu)"

definition set_irq_enable :: "'w ioapic_ops \<Rightarrow> usize \<Rightarrow> bool \<Rightarrow> (('d, 'w) ioapic, unit) act" where
  "set_irq_enable A vector enabled =
     (if vector < 0xf0 then with_ioapic (if enabled then io_enable A (ucast vector) else io_disable A (ucast vector))
      else ret ())"

definition ioapic_max_entries :: "'w ioapic_ops \<Rightarrow> (('d, 'w) ioapic, u8) act" where
  "ioapic_max_entries A = bind get_state (\<lambda>s.
     if ia_apic s then bind (hw_ioapic (io_max_entry A)) (\<lambda>n. ret (n + 1)) else ret 0)"

text \<open>The devices of a line, one after the other; what they have become, when the loop ends early too.\<close>

fun ioapic_line :: "('w, 'r, 'd) irq_kernel \<Rightarrow> 'd device_domain list \<Rightarrow> 'w \<Rightarrow> (unit res \<times> 'd device_domain list) \<times> 'w" where
  "ioapic_line K [] w = ((Ok (), []), w)"
| "ioapic_line K (DevName name # ds) w = (case ik_get_domain K name w of
       None \<Rightarrow> (case ioapic_line K ds w of ((r, ds'), w') \<Rightarrow> ((r, DevName name # ds'), w'))
     | Some raw_domain \<Rightarrow> (case ik_device K raw_domain of
         Inl e \<Rightarrow> ((Inl e, DevName name # ds), w)
       | Inr typed_domain \<Rightarrow> (case ik_handle K typed_domain w of
           (Inl e, w') \<Rightarrow> ((Inl e, DevName name # ds), w')
         | (Inr _, w') \<Rightarrow> (case ioapic_line K ds w' of ((r, ds'), w'') \<Rightarrow> ((r, DevDomain typed_domain # ds'), w'')))))"
| "ioapic_line K (DevDomain device # ds) w = (case ik_handle K device w of
       (Inl e, w') \<Rightarrow> ((Inl e, DevDomain device # ds), w')
     | (Inr _, w') \<Rightarrow> (case ioapic_line K ds w' of ((r, ds'), w'') \<Rightarrow> ((r, DevDomain device # ds'), w'')))"

definition ioapic_handle_irq :: "('w, 'r, 'd) irq_kernel \<Rightarrow> nat \<Rightarrow> (('d, 'w) ioapic, unit) act" where
  "ioapic_handle_irq K irq = bind get_state (\<lambda>s. case bt_get (ia_table s) irq of
       None \<Rightarrow> ret ()
     | Some device_domains \<Rightarrow> (case ioapic_line K device_domains (ia_world s) of ((r, ds'), w) \<Rightarrow>
         bind (modify_state (\<lambda>s. s\<lparr>ia_table := bt_insert irq ds' (ia_table s), ia_world := w\<rparr>)) (\<lambda>_.
         bind (lift r) (\<lambda>_.
         modify_state (\<lambda>s. s\<lparr>ia_count := bt_insert irq
           ((case bt_get (ia_count s) irq of None \<Rightarrow> 0 | Some n \<Rightarrow> n) + 1) (ia_count s)\<rparr>)))))"

definition ioapic_register_irq :: "('w, 'r, 'd) irq_kernel \<Rightarrow> nat \<Rightarrow> u8 list \<Rightarrow> (('d, 'w) ioapic, unit) act" where
  "ioapic_register_irq K irq device_domain_name =
     bind (assert_that (ik_utf8 K device_domain_name)) (\<lambda>_. bind get_state (\<lambda>s.
     let entry = (case bt_get (ia_table s) irq of None \<Rightarrow> [] | Some ds \<Rightarrow> ds);
         duplicated = list_ex (\<lambda>domain. case domain of DevName existing \<Rightarrow> existing = device_domain_name | DevDomain _ \<Rightarrow> False) entry in
     modify_state (\<lambda>s. s\<lparr>
       ia_table := bt_insert irq (if duplicated then entry else entry @ [DevName device_domain_name]) (ia_table s),
       ia_count := bt_insert irq (case bt_get (ia_count s) irq of None \<Rightarrow> 0 | Some n \<Rightarrow> n) (ia_count s)\<rparr>)))"

definition ioapic_irq_info :: "u8 list \<Rightarrow> (('d, 'w) ioapic, u8 list) act" where
  "ioapic_irq_info buf = bind get_state (\<lambda>s. ret (irq_info (ia_count s) buf))"

section \<open>Reading the list back\<close>

fun read_decimal :: "nat \<Rightarrow> u8 list \<Rightarrow> nat \<times> u8 list" where
  "read_decimal n [] = (n, [])"
| "read_decimal n (b # bs) = (if 48 \<le> b \<and> b \<le> 57 then read_decimal (n * 10 + unat (b - 48)) bs else (n, b # bs))"

lemma read_decimal_length: "length (snd (read_decimal n bs)) \<le> length bs"
  by (induction n bs rule: read_decimal.induct) auto

function read_info :: "u8 list \<Rightarrow> (nat \<times> nat) list option" where
  "read_info bs = (if bs = [] then Some [] else case read_decimal 0 bs of (irq, bs1) \<Rightarrow>
     if take 2 bs1 \<noteq> [58, 32] then None else case read_decimal 0 (drop 2 bs1) of (n, bs2) \<Rightarrow>
     if take 2 bs2 \<noteq> [13, 10] then None else map_option ((#) (irq, n)) (read_info (drop 2 bs2)))"
  by pat_completeness auto
termination
proof (relation "measure length")
  fix bs irq bs1 x y n bs2 and x' y' :: "u8 list"
  assume a: "bs \<noteq> []" "(irq, bs1) = read_decimal 0 bs" "(n, bs2) = read_decimal 0 (drop 2 bs1)"
    "\<not> take 2 bs2 \<noteq> [13, 10]" "\<not> take 2 bs1 \<noteq> [58, 32]"
  have "length bs1 \<le> length bs" "length bs2 \<le> length (drop 2 bs1)"
    using read_decimal_length [of 0 bs] read_decimal_length [of 0 "drop 2 bs1"] a(2,3) by (metis snd_conv)+
  moreover have "bs2 \<noteq> []" using a(4) by auto
  ultimately show "(drop 2 bs2, bs) \<in> measure length" using a(1) by (cases bs2) auto
qed simp

declare read_info.simps [simp del]

lemma digit_byte: "n < 10 \<Longrightarrow> unat (of_nat n :: u8) = n" "n < 10 \<Longrightarrow> unat (48 + of_nat n :: u8) = 48 + n"
  by (simp_all add: unat_word_ariths unat_of_nat)

lemma read_decimal_digit:
  assumes n: "n < 10"
  shows "read_decimal m ((48 + of_nat n) # bs) = read_decimal (m * 10 + n) bs"
proof -
  have "(48 :: u8) \<le> 48 + of_nat n" "48 + of_nat n \<le> (57 :: u8)"
    using n unfolding word_le_nat_alt digit_byte(2) [OF n] by simp_all
  then have "read_decimal m ((48 + of_nat n) # bs) = read_decimal (m * 10 + unat (48 + of_nat n - 48 :: u8)) bs"
    by (simp only: read_decimal.simps simp_thms if_True)
  also have "unat (48 + of_nat n - 48 :: u8) = n" using digit_byte(1) [OF n] by simp
  finally show ?thesis .
qed

lemma read_decimal_append: "read_decimal m (decimal n @ bs) = read_decimal (m * 10 ^ length (decimal n) + n) bs"
proof (induction n arbitrary: m bs rule: decimal.induct)
  case (1 n)
  show ?case
  proof (cases "n < 10")
    case True
    with read_decimal_digit [OF True, of m bs] show ?thesis by (simp add: decimal.simps [of n] del: read_decimal.simps)
  next
    case False
    have "n mod 10 < 10" by simp
    from read_decimal_digit [OF this] False 1 [OF False]
    show ?thesis by (simp add: decimal.simps [of n] algebra_simps)
  qed
qed

lemma decimal_ends: "\<not> (48 \<le> b \<and> b \<le> 57) \<Longrightarrow> read_decimal 0 (decimal n @ b # bs) = (n, b # bs)"
  by (cases "48 \<le> b") (simp_all add: read_decimal_append)

lemma decimal_nonempty: "decimal n \<noteq> []"
  by (simp add: decimal.simps [of n])

lemma read_info_text: "read_info (info_text counts) = Some counts"
proof (induction counts)
  case Nil
  show ?case by (simp add: info_text_def read_info.simps)
next
  case (Cons e counts)
  have t: "info_text (e # counts) = decimal (fst e) @ 58 # 32 # decimal (snd e) @ 13 # 10 # info_text counts"
    by (simp add: info_text_def info_line_def)
  have d: "read_decimal 0 (decimal n @ 58 # bs) = (n, 58 # bs)" "read_decimal 0 (decimal n @ 13 # bs) = (n, 13 # bs)" for n bs
    by (simp_all add: decimal_ends)
  show ?case by (subst read_info.simps) (simp add: t d Cons decimal_nonempty)
qed

text \<open>The list of interrupts that the controller domains hand out can be read back: in a buffer that
  is large enough it determines the interrupts and their counts, and the rest of the buffer is left as it
  was. In a smaller one it is cut off.\<close>

theorem irq_info_roundtrip:
  "length (irq_info counts buf) = length buf
   \<and> (if length (info_text counts) \<le> length buf
      then read_info (take (length (info_text counts)) (irq_info counts buf)) = Some counts
        \<and> drop (length (info_text counts)) (irq_info counts buf) = drop (length (info_text counts)) buf
      else irq_info counts buf = take (length buf) (info_text counts))"
  by (auto simp: irq_info_def Let_def splice_def min_def read_info_text)

section \<open>An interrupt that is not completed\<close>

text \<open>The gateways of the controller: \<open>held w\<close> are the interrupts that were claimed and not completed. No
  such interrupt is claimed again; 0 stands for no interrupt. Devices leave the gateways alone.\<close>

definition gateways :: "('w, 'r, 'd) irq_kernel \<Rightarrow> 'w plic_ops \<Rightarrow> ('w \<Rightarrow> nat set) \<Rightarrow> bool" where
  "gateways K P held \<longleftrightarrow>
     (\<forall>c m w. unat (fst (pl_claim P c m w)) \<notin> held w
        \<and> held (snd (pl_claim P c m w)) = (if fst (pl_claim P c m w) = 0 then held w else insert (unat (fst (pl_claim P c m w))) (held w)))
     \<and> (\<forall>c m i w. held (pl_complete P c m i w) = held w - {unat i})
     \<and> (\<forall>c m n w. held (pl_set_threshold P c m n w) = held w)
     \<and> (\<forall>i n w. held (pl_set_priority P i n w) = held w)
     \<and> (\<forall>c m i w. held (pl_enable P c m i w) = held w)
     \<and> (\<forall>d w. held (snd (ik_handle K d w)) = held w)"

lemma gatewaysD:
  assumes "gateways K P held"
  shows "pl_claim P c m w = (i, w') \<Longrightarrow> unat i \<notin> held w \<and> held w' = (if i = 0 then held w else insert (unat i) (held w))"
    "held (pl_complete P c m j w) = held w - {unat j}"
    "held (pl_set_threshold P c m n w) = held w" "held (pl_set_priority P j n w) = held w" "held (pl_enable P c m j w) = held w"
    "ik_handle K d w = (r, w'') \<Longrightarrow> held w'' = held w"
proof -
  have "unat (fst (pl_claim P c m w)) \<notin> held w
      \<and> held (snd (pl_claim P c m w)) = (if fst (pl_claim P c m w) = 0 then held w else insert (unat (fst (pl_claim P c m w))) (held w))"
    using assms [unfolded gateways_def, THEN conjunct1, THEN spec [where x = c], THEN spec [where x = m], THEN spec [where x = w]] .
  then show "pl_claim P c m w = (i, w') \<Longrightarrow> unat i \<notin> held w \<and> held w' = (if i = 0 then held w else insert (unat i) (held w))"
    by simp
  have "held (snd (ik_handle K d w)) = held w" using assms by (simp add: gateways_def)
  then show "ik_handle K d w = (r, w'') \<Longrightarrow> held w'' = held w" by simp
qed (use assms in \<open>simp_all add: gateways_def\<close>)

lemma in_plic_run [act_simps]: "in_plic m s = (case m (pc_world s) of (r, w) \<Rightarrow> (r, s\<lparr>pc_world := w\<rparr>))"
  by (simp add: in_plic_def act_simps)

lemma hw_plic_run [act_simps]: "hw_plic f s = (Ok (), s\<lparr>pc_world := f (pc_world s)\<rparr>)"
  by (simp add: hw_plic_def act_simps)

text \<open>What stays as it is while interrupt \<open>i\<close> is held.\<close>

definition stuck :: "('w \<Rightarrow> nat set) \<Rightarrow> nat \<Rightarrow> nat option \<Rightarrow> ('d, 'w) plic \<Rightarrow> bool" where
  "stuck held i n s \<longleftrightarrow> i \<in> held (pc_world s) \<and> bt_get (pc_count s) i = n"

lemma serve_held:
  assumes "gateways K P held" "plic_serve K j d s = (r, s')"
  shows "held (pc_world s') = held (pc_world s)" "pc_count s' = pc_count s" "pc_ready s' = pc_ready s"
  using assms(2) gatewaysD(6) [OF assms(1)]
  by (auto simp: plic_serve_def act_simps split: device_domain.splits sum.splits prod.splits)

lemma handle_stuck:
  assumes "gateways K P held" "stuck held i n s" "i \<noteq> 0"
  shows "stuck held i n (snd (plic_handle_irq K P s))"
proof (cases "pc_ready s")
  case True
  obtain j w where c: "pl_claim P (ik_cpu_id K (pc_world s)) Supervisor (pc_world s) = (j, w)" by fastforce
  let ?s = "s\<lparr>pc_world := w\<rparr>"
  have j: "unat j \<noteq> i" using gatewaysD(1) [OF assms(1) c] assms(2) by (auto simp: stuck_def)
  have s: "stuck held i n ?s" using gatewaysD(1) [OF assms(1) c] assms(2) by (auto simp: stuck_def)
  show ?thesis
  proof (cases "bt_get (pc_table s) (unat j)")
    case None
    then show ?thesis using True c s by (simp add: plic_handle_irq_def act_simps Let_def)
  next
    case (Some d)
    obtain r s1 where v: "plic_serve K (unat j) d ?s = (r, s1)" by fastforce
    note served = serve_held [OF assms(1) v]
    have s1: "stuck held i n s1" using s served by (simp add: stuck_def)
    then show ?thesis using True c Some v j gatewaysD(2) [OF assms(1)]
      by (cases r; cases "bt_get (pc_count s1) (unat j)") (auto simp: plic_handle_irq_def act_simps Let_def stuck_def)
  qed
qed (use assms in \<open>simp add: plic_handle_irq_def act_simps\<close>)

text \<open>Any number of further interrupts, whatever their outcome.\<close>

definition interrupts :: "('w, 'r, 'd) irq_kernel \<Rightarrow> 'w plic_ops \<Rightarrow> nat \<Rightarrow> ('d, 'w) plic \<Rightarrow> ('d, 'w) plic" where
  "interrupts K P n = ((\<lambda>s. snd (plic_handle_irq K P s)) ^^ n)"

lemma interrupts_stuck: "gateways K P held \<Longrightarrow> stuck held i n s \<Longrightarrow> i \<noteq> 0 \<Longrightarrow> stuck held i n (interrupts K P k s)"
  by (induction k) (simp_all add: interrupts_def handle_stuck)

text \<open>C35: a device handler that fails once takes its interrupt out of service: the PLIC domain returns
  without completing the interrupt, so whatever interrupts follow, it stays held by the gateway, no claim
  ever answers it again and its count stands still; only registering it again completes it.\<close>

theorem plic_failed_irq_lost:
  assumes "gateways K P held" "pc_ready s" "bt_get (pc_table s) (unat i) = Some (DevDomain device)" "i \<noteq> 0"
    and "pl_claim P (ik_cpu_id K (pc_world s)) Supervisor (pc_world s) = (i, w)" "ik_handle K device w = (Err e, w')"
  shows "\<exists>s'. plic_handle_irq K P s = (Err e, s')
    \<and> (let t = interrupts K P k s' in unat i \<in> held (pc_world t) \<and> bt_get (pc_count t) (unat i) = bt_get (pc_count s) (unat i)
        \<and> fst (pl_claim P c m (pc_world t)) \<noteq> i
        \<and> (ik_utf8 K name \<longrightarrow> pc_ready t \<longrightarrow> unat i \<notin> held (pc_world (snd (plic_register_irq K P (unat i) name t)))))"
proof -
  let ?s = "s\<lparr>pc_world := w'\<rparr>"
  have run: "plic_handle_irq K P s = (Err e, ?s)"
    using assms(2-) by (simp add: plic_handle_irq_def plic_serve_def act_simps Let_def)
  have "unat i \<in> held w'"
    using gatewaysD(1) [OF assms(1,5)] gatewaysD(6) [OF assms(1,6)] assms(4) by simp
  then have "stuck held (unat i) (bt_get (pc_count s) (unat i)) ?s" by (simp add: stuck_def)
  moreover have "unat i \<noteq> 0" using assms(4) by (simp add: unat_eq_0)
  ultimately have t: "stuck held (unat i) (bt_get (pc_count s) (unat i)) (interrupts K P k ?s)"
    by (intro interrupts_stuck [OF assms(1)])
  let ?t = "interrupts K P k ?s"
  obtain j v where c: "pl_claim P c m (pc_world ?t) = (j, v)" by fastforce
  have "j \<noteq> i" using gatewaysD(1) [OF assms(1) c] t by (auto simp: stuck_def)
  moreover have "unat i \<notin> held (pc_world (snd (plic_register_irq K P (unat i) name ?t)))" if "ik_utf8 K name" "pc_ready ?t"
    using that gatewaysD(2-5) [OF assms(1)] by (simp add: plic_register_irq_def act_simps Let_def)
  ultimately show ?thesis using run t c by (auto simp: stuck_def Let_def)
qed

text \<open>A controller with one gateway that always has interrupt 5 pending, and a device that fails.\<close>

definition toy_gate :: "nat list plic_ops" where
  "toy_gate = \<lparr> pl_new = (\<lambda>p. ret ()), pl_claim = (\<lambda>c m w. if 5 \<in> set w then (0, w) else (5, 5 # w)),
     pl_complete = (\<lambda>c m i w. filter (\<lambda>j. j \<noteq> unat i) w), pl_set_threshold = (\<lambda>c m n w. w),
     pl_set_priority = (\<lambda>i n w. w), pl_enable = (\<lambda>c m i w. w), CPU_NUM = 1 \<rparr>"

definition toy_failing :: "(nat list, nat, nat) irq_kernel" where
  "toy_failing = \<lparr> ik_cpu_id = (\<lambda>w. 0), ik_get_domain = (\<lambda>n w. None), ik_device = Inr, ik_handle = (\<lambda>d. fail EIO),
     ik_utf8 = (\<lambda>n. True) \<rparr>"

definition toy_plic :: "(nat, nat list) plic" where
  "toy_plic = \<lparr> pc_ready = True, pc_table = [(5, DevDomain 7)], pc_count = [(5, 2)], pc_world = [] \<rparr>"

lemma toy_gateways: "gateways toy_failing toy_gate (\<lambda>w. set w - {0})"
  by (auto simp: gateways_def toy_gate_def toy_failing_def act_simps)

lemma plic_failed_irq_lost_witness:
  "\<exists>s'. plic_handle_irq toy_failing toy_gate toy_plic = (Err EIO, s')
    \<and> bt_get (pc_count (interrupts toy_failing toy_gate 4 s')) 5 = Some 2
    \<and> fst (pl_claim toy_gate 0 Supervisor (pc_world (interrupts toy_failing toy_gate 4 s'))) \<noteq> 5"
  using plic_failed_irq_lost [OF toy_gateways, where s = toy_plic and i = 5 and device = 7 and w = "[5]" and w' = "[5]"
      and k = 4 and c = 0 and m = Supervisor and e = EIO]
  by (auto simp: toy_plic_def toy_gate_def toy_failing_def act_simps Let_def)

section \<open>A shared line\<close>

text \<open>Devices that work, and a log of their runs; \<open>resolve\<close> is the device of a name.\<close>

definition line_works :: "('w, 'r, 'd) irq_kernel \<Rightarrow> ('w \<Rightarrow> 'd list) \<Rightarrow> (u8 list \<Rightarrow> 'd) \<Rightarrow> bool" where
  "line_works K log resolve \<longleftrightarrow>
     (\<forall>d w. fst (ik_handle K d w) = Ok () \<and> log (snd (ik_handle K d w)) = log w @ [d])
     \<and> (\<forall>n w. \<exists>r. ik_get_domain K n w = Some r \<and> ik_device K r = Inr (resolve n))"

fun dev_of :: "(u8 list \<Rightarrow> 'd) \<Rightarrow> 'd device_domain \<Rightarrow> 'd" where
  "dev_of resolve (DevName n) = resolve n"
| "dev_of resolve (DevDomain d) = d"

lemma line_worksD:
  assumes "line_works K log resolve"
  shows "\<exists>w'. ik_handle K d w = (Ok (), w') \<and> log w' = log w @ [d]"
    and "\<exists>r. ik_get_domain K n w = Some r \<and> ik_device K r = Inr (resolve n)"
  using assms by (simp_all add: line_works_def) (metis prod.collapse)

lemma ioapic_line_run:
  assumes "line_works K log resolve"
  shows "\<exists>w'. ioapic_line K ds w = ((Ok (), map (\<lambda>d. DevDomain (dev_of resolve d)) ds), w') \<and> log w' = log w @ map (dev_of resolve) ds"
proof (induction ds arbitrary: w)
  case (Cons d ds)
  obtain w' where h: "ik_handle K (dev_of resolve d) w = (Ok (), w')" "log w' = log w @ [dev_of resolve d]"
    using line_worksD(1) [OF assms] by blast
  obtain w'' where "ioapic_line K ds w' = ((Ok (), map (\<lambda>d. DevDomain (dev_of resolve d)) ds), w'')"
      "log w'' = log w' @ map (dev_of resolve) ds"
    using Cons by blast
  moreover obtain r where "\<And>n. d = DevName n \<Longrightarrow> ik_get_domain K n w = Some r \<and> ik_device K r = Inr (resolve n)"
    using line_worksD(2) [OF assms, of _ w] by (cases d) auto
  ultimately show ?case using h by (cases d) simp_all
qed simp

lemma concat_replicate_end: "concat (replicate (Suc k) xs) = concat (replicate k xs) @ xs"
  by (induction k) simp_all

definition line_of :: "('d, 'w) ioapic \<Rightarrow> nat \<Rightarrow> 'd device_domain list" where
  "line_of s irq = (case bt_get (ia_table s) irq of None \<Rightarrow> [] | Some ds \<Rightarrow> ds)"

definition count_of :: "('d, 'w) ioapic \<Rightarrow> nat \<Rightarrow> nat" where
  "count_of s irq = (case bt_get (ia_count s) irq of None \<Rightarrow> 0 | Some n \<Rightarrow> n)"

definition register_all :: "('w, 'r, 'd) irq_kernel \<Rightarrow> nat \<Rightarrow> u8 list list \<Rightarrow> ('d, 'w) ioapic \<Rightarrow> ('d, 'w) ioapic" where
  "register_all K irq ns s = fold (\<lambda>n s. snd (ioapic_register_irq K irq n s)) ns s"

definition raise_irq :: "('w, 'r, 'd) irq_kernel \<Rightarrow> nat \<Rightarrow> nat \<Rightarrow> ('d, 'w) ioapic \<Rightarrow> ('d, 'w) ioapic" where
  "raise_irq K irq k = ((\<lambda>s. snd (ioapic_handle_irq K irq s)) ^^ k)"

lemma register_all_run:
  assumes "\<forall>n \<in> set ns. ik_utf8 K n" "distinct ns" "\<forall>n \<in> set ns. DevName n \<notin> set (line_of s irq)"
  shows "line_of (register_all K irq ns s) irq = line_of s irq @ map DevName ns
    \<and> count_of (register_all K irq ns s) irq = count_of s irq \<and> ia_world (register_all K irq ns s) = ia_world s"
  using assms
proof (induction ns arbitrary: s)
  case (Cons n ns)
  let ?s = "snd (ioapic_register_irq K irq n s)"
  have "\<not> list_ex (\<lambda>d. case d of DevName n' \<Rightarrow> n' = n | DevDomain _ \<Rightarrow> False) (line_of s irq)"
    unfolding list_ex_iff
  proof
    assume "\<exists>d \<in> set (line_of s irq). case d of DevName n' \<Rightarrow> n' = n | DevDomain _ \<Rightarrow> False"
    then obtain d where d: "d \<in> set (line_of s irq)" "case d of DevName n' \<Rightarrow> n' = n | DevDomain _ \<Rightarrow> False" by blast
    have "d = DevName n" using d(2) by (cases d) simp_all
    with d(1) show False using Cons.prems(3) by simp
  qed
  then have run: "?s = s\<lparr>ia_table := bt_insert irq (line_of s irq @ [DevName n]) (ia_table s),
      ia_count := bt_insert irq (count_of s irq) (ia_count s)\<rparr>"
    using bspec [OF Cons.prems(1), of n] by (simp add: ioapic_register_irq_def act_simps Let_def line_of_def count_of_def)
  have step: "line_of ?s irq = line_of s irq @ [DevName n]" "count_of ?s irq = count_of s irq" "ia_world ?s = ia_world s"
    unfolding run by (simp_all add: line_of_def count_of_def)
  have out: "\<forall>m \<in> set ns. DevName m \<notin> set (line_of ?s irq)"
  proof
    fix m assume "m \<in> set ns"
    then show "DevName m \<notin> set (line_of ?s irq)" using step Cons.prems(2,3) by (cases "m = n") simp_all
  qed
  have "register_all K irq (n # ns) s = register_all K irq ns ?s" by (simp add: register_all_def)
  then show ?case using Cons.IH [OF _ _ out] Cons.prems(1,2) step by simp
qed (simp add: register_all_def)

lemma raise_once:
  assumes "line_works K log resolve" "line_of s irq \<noteq> []"
  shows "let t = snd (ioapic_handle_irq K irq s) in line_of t irq = map (\<lambda>d. DevDomain (dev_of resolve d)) (line_of s irq)
    \<and> log (ia_world t) = log (ia_world s) @ map (dev_of resolve) (line_of s irq) \<and> count_of t irq = count_of s irq + 1"
proof -
  obtain ds where ds: "bt_get (ia_table s) irq = Some ds" "line_of s irq = ds"
    using assms(2) by (simp add: line_of_def split: option.splits)
  obtain w' where "ioapic_line K ds (ia_world s) = ((Ok (), map (\<lambda>d. DevDomain (dev_of resolve d)) ds), w')"
      "log w' = log (ia_world s) @ map (dev_of resolve) ds"
    using ioapic_line_run [OF assms(1)] by blast
  then show ?thesis using ds by (simp add: ioapic_handle_irq_def line_of_def count_of_def act_simps Let_def)
qed

lemma raise_many:
  assumes "line_works K log resolve" "line_of s irq \<noteq> []"
  shows "log (ia_world (raise_irq K irq k s)) = log (ia_world s) @ concat (replicate k (map (dev_of resolve) (line_of s irq)))
    \<and> count_of (raise_irq K irq k s) irq = count_of s irq + k
    \<and> line_of (raise_irq K irq k s) irq = (if k = 0 then line_of s irq else map (\<lambda>d. DevDomain (dev_of resolve d)) (line_of s irq))"
proof (induction k)
  case (Suc k)
  let ?t = "raise_irq K irq k s"
  have l: "map (dev_of resolve) (line_of ?t irq) = map (dev_of resolve) (line_of s irq)" "line_of ?t irq \<noteq> []"
    using Suc assms(2) by (auto simp: comp_def)
  from raise_once [OF assms(1) l(2)] Suc l show ?case
    by (auto simp: raise_irq_def Let_def concat_replicate_end comp_def simp del: replicate_Suc)
qed (simp add: raise_irq_def)

text \<open>C36: a line of the I/O APIC serves the devices registered on it in the order of registration, each
  once per interrupt, and counts the interrupts. But the test for a duplicate only knows devices that were
  not run yet: registering the same names again after the first interrupt enters every device a second
  time, and the next interrupt runs each of them twice.\<close>

theorem ioapic_line_served:
  assumes "line_works K log resolve" "\<forall>n \<in> set ns. ik_utf8 K n" "distinct ns" "ns \<noteq> []"
    and "bt_get (ia_table s) irq = None" "bt_get (ia_count s) irq = None" "0 < k"
  shows "let t = raise_irq K irq k (register_all K irq ns s); u = raise_irq K irq 1 (register_all K irq ns t) in
    log (ia_world t) = log (ia_world s) @ concat (replicate k (map resolve ns)) \<and> bt_get (ia_count t) irq = Some k
    \<and> log (ia_world u) = log (ia_world t) @ map resolve ns @ map resolve ns"
proof -
  let ?r = "register_all K irq ns s"
  let ?t = "raise_irq K irq k ?r"
  have e: "line_of s irq = []" "count_of s irq = 0" using assms(5,6) by (simp_all add: line_of_def count_of_def)
  have r: "line_of ?r irq = map DevName ns" "count_of ?r irq = 0" "ia_world ?r = ia_world s"
    using register_all_run [OF assms(2,3), of s irq] e by simp_all
  have t: "log (ia_world ?t) = log (ia_world s) @ concat (replicate k (map resolve ns))" "count_of ?t irq = k"
      "line_of ?t irq = map (\<lambda>n. DevDomain (resolve n)) ns"
    using raise_many [OF assms(1), of ?r irq k] r assms(4,7) by (simp_all add: comp_def)
  have v: "line_of (register_all K irq ns ?t) irq = map (\<lambda>n. DevDomain (resolve n)) ns @ map DevName ns"
      "ia_world (register_all K irq ns ?t) = ia_world ?t"
    using register_all_run [OF assms(2,3), of ?t irq] t by auto
  have "bt_get (ia_count ?t) irq = Some k"
    using t(2) assms(7) by (simp add: count_of_def split: option.splits)
  then show ?thesis
    using t raise_many [OF assms(1), of "register_all K irq ns ?t" irq 1] v assms(4) by (simp add: Let_def comp_def)
qed

definition toy_line :: "(nat list, nat, nat) irq_kernel" where
  "toy_line = \<lparr> ik_cpu_id = (\<lambda>w. 0), ik_get_domain = (\<lambda>n w. Some (length n)), ik_device = Inr,
     ik_handle = (\<lambda>d w. (Ok (), w @ [d])), ik_utf8 = (\<lambda>n. True) \<rparr>"

lemma ioapic_line_served_witness:
  "ia_world (raise_irq toy_line 9 1 (register_all toy_line 9 [[1], [2, 2]]
     (raise_irq toy_line 9 2 (register_all toy_line 9 [[1], [2, 2]] (ioapic_new []))))) = [1, 2, 1, 2, 1, 2, 1, 2]"
proof -
  have "line_works toy_line (\<lambda>w. w) length" by (simp add: line_works_def toy_line_def)
  from ioapic_line_served [OF this, where ns = "[[1], [2, 2]]" and s = "ioapic_new []" and irq = 9 and k = 2]
  show ?thesis by (simp add: toy_line_def ioapic_new_def Let_def numeral_2_eq_2)
qed

end
