(* ===== verification/LocalApic.thy ===== *)
theory LocalApic
  imports Prelude
begin

text \<open>
  The domain of the local APIC (\<open>common/local_apic\<close>): it enables the interrupt controller of a processor,
  measures the frequency of its timer, sets the timer to a deadline and sends interrupts to other
  processors. The registers are the crate \<open>x86_apic\<close>: a context \<open>'c\<close> and the operations of \<open>apic_ops\<close>.
\<close>

record ('c, 'w) apic_ops =
  ap_new :: "usize \<Rightarrow> bool \<Rightarrow> ('w, 'c) act"
  ap_enable :: "('c \<times> 'w, unit) act"
  ap_configure_oneshot :: "('c \<times> 'w, unit) act"
  ap_set_timer_initial :: "u32 \<Rightarrow> ('c \<times> 'w, unit) act"
  ap_timer_current :: "('c \<times> 'w, u32) act"
  ap_end_of_interrupt :: "('c \<times> 'w, unit) act"
  ap_send_ipi :: "u32 \<Rightarrow> u8 \<Rightarrow> ('c \<times> 'w, unit) act"
  ap_send_ipi_self :: "u8 \<Rightarrow> ('c \<times> 'w, unit) act"
  ap_send_ipi_others :: "u8 \<Rightarrow> ('c \<times> 'w, unit) act"
  ap_read_error_status :: "('c \<times> 'w, u32) act"
  \<comment> \<open>the processor, and the clock of \<open>basic::time\<close>\<close>
  ap_has_x2apic :: bool
  ap_current_ticks :: "('w, u64) act"
  ap_ticks_to_nanos :: "u64 \<Rightarrow> u64"
  ap_busy_wait_ms :: "nat \<Rightarrow> ('w, unit) act"

record ('c, 'w) apic =
  la_apic :: "'c option"
  la_frequency :: u64                            \<comment> \<open>the static \<open>APIC_TIMER_FREQUENCY\<close>\<close>
  la_world :: 'w

definition apic_default :: "'w \<Rightarrow> ('c, 'w) apic" where
  "apic_default w = \<lparr> la_apic = None, la_frequency = 0, la_world = w \<rparr>"

definition raw_apic_id :: "('c, 'w) apic_ops \<Rightarrow> u8 \<Rightarrow> u32" where
  "raw_apic_id A cpu_id = (if ap_has_x2apic A then ucast cpu_id else push_bit 24 (ucast cpu_id))"

text \<open>Operations on a context that is not yet, or no longer, in the state.\<close>

definition on_ctx :: "('c \<times> 'w, 'a) act \<Rightarrow> ('c \<times> ('c, 'w) apic, 'a) act" where
  "on_ctx m = zoom (\<lambda>(c, s). (c, la_world s)) (\<lambda>(c, w) (_, s). (c, s\<lparr>la_world := w\<rparr>)) (map_err EINVAL m)"

definition in_clock :: "('w, 'a) act \<Rightarrow> (('c, 'w) apic, 'a) act" where
  "in_clock = zoom la_world (\<lambda>w s. s\<lparr>la_world := w\<rparr>)"

definition program_oneshot_timer :: "('c, 'w) apic_ops \<Rightarrow> ('c \<times> ('c, 'w) apic, unit) act" where
  "program_oneshot_timer A = on_ctx (ap_configure_oneshot A)"

definition calibrate_apic_timer :: "('c, 'w) apic_ops \<Rightarrow> ('c \<times> ('c, 'w) apic, u64) act" where
  "calibrate_apic_timer A =
     bind (program_oneshot_timer A) (\<lambda>_.
     bind (on_ctx (ap_set_timer_initial A (- 1))) (\<lambda>_.
     bind (zoom snd (\<lambda>s (c, _). (c, s)) (in_clock (ap_busy_wait_ms A 10))) (\<lambda>_.
     bind (on_ctx (ap_timer_current A)) (\<lambda>remaining.
     let elapsed = - 1 - remaining; frequency = max (ucast elapsed * 100) 1 in
     bind (modify_state (\<lambda>(c, s). (c, s\<lparr>la_frequency := frequency\<rparr>))) (\<lambda>_.
     bind (on_ctx (ap_set_timer_initial A 0)) (\<lambda>_. ret frequency))))))"

definition with_apic :: "('c \<times> ('c, 'w) apic, 'a) act \<Rightarrow> (('c, 'w) apic, 'a) act" where
  "with_apic f = (\<lambda>s. case la_apic s of
       None \<Rightarrow> (Err EINVAL, s)
     | Some ctx \<Rightarrow> (case f (ctx, s) of (r, ctx', s') \<Rightarrow> (r, s'\<lparr>la_apic := Some ctx'\<rparr>)))"

text \<open>A context that fails to initialise is dropped.\<close>

definition apic_init :: "('c, 'w) apic_ops \<Rightarrow> usize \<Rightarrow> (('c, 'w) apic, unit) act" where
  "apic_init A xapic_base = bind get_state (\<lambda>s.
     if la_apic s = None then
       bind (in_clock (map_err EINVAL (ap_new A xapic_base (ap_has_x2apic A)))) (\<lambda>local_apic.
       (\<lambda>s. case bind (on_ctx (ap_enable A)) (\<lambda>_. bind (calibrate_apic_timer A) (\<lambda>frequency. program_oneshot_timer A)) (local_apic, s) of
          (Inl e, _, s') \<Rightarrow> (Inl e, s')
        | (Inr _, c, s') \<Rightarrow> (Ok (), s'\<lparr>la_apic := Some c\<rparr>)))
     else ret ())"

text \<open>The counter for a deadline: 128-bit arithmetic, cut to 32 bits.\<close>

definition timer_ticks :: "u64 \<Rightarrow> u64 \<Rightarrow> u32" where
  "timer_ticks delta_ns frequency = max (of_nat (unat delta_ns * unat frequency div 1000000000)) 1"

definition apic_set_timer :: "('c, 'w) apic_ops \<Rightarrow> usize \<Rightarrow> (('c, 'w) apic, unit) act" where
  "apic_set_timer A next_deadline = bind get_state (\<lambda>s.
     let frequency = la_frequency s in
     bind (in_clock (ap_current_ticks A)) (\<lambda>current_tsc.
     let delta_tsc = (if current_tsc < next_deadline then next_deadline - current_tsc else 0) in
     if frequency = 0 then fail EINVAL
     else let delta_ns = (if delta_tsc = 0 then 1 else ap_ticks_to_nanos A delta_tsc); ticks = timer_ticks delta_ns frequency in
       with_apic (bind (on_ctx (ap_configure_oneshot A)) (\<lambda>_. on_ctx (ap_set_timer_initial A ticks)))))"

definition apic_eoi :: "('c, 'w) apic_ops \<Rightarrow> (('c, 'w) apic, unit) act" where
  "apic_eoi A = with_apic (on_ctx (ap_end_of_interrupt A))"

definition apic_send_ipi :: "('c, 'w) apic_ops \<Rightarrow> usize \<Rightarrow> u8 \<Rightarrow> (('c, 'w) apic, unit) act" where
  "apic_send_ipi A target_cpu vector = with_apic (on_ctx (ap_send_ipi A (raw_apic_id A (ucast target_cpu)) vector))"

definition apic_send_ipi_self :: "('c, 'w) apic_ops \<Rightarrow> u8 \<Rightarrow> (('c, 'w) apic, unit) act" where
  "apic_send_ipi_self A vector = with_apic (on_ctx (ap_send_ipi_self A vector))"

definition apic_send_ipi_all_excluding_self :: "('c, 'w) apic_ops \<Rightarrow> u8 \<Rightarrow> (('c, 'w) apic, unit) act" where
  "apic_send_ipi_all_excluding_self A vector = with_apic (on_ctx (ap_send_ipi_others A vector))"

definition apic_get_error_status :: "('c, 'w) apic_ops \<Rightarrow> (('c, 'w) apic, u32) act" where
  "apic_get_error_status A = with_apic (on_ctx (ap_read_error_status A))"

section \<open>The timer\<close>

lemma unat_timer_ticks:
  "unat (timer_ticks d f) = max (unat d * unat f div 1000000000 mod 2 ^ 32) 1"
  by (simp add: timer_ticks_def max_def word_le_nat_alt unat_of_nat)

text \<open>C37: the timer never fires after the deadline, and it fires at it only when the deadline is near. When
  the registers can be written the counter is set to at least 1 and at most the number of timer ticks up to
  the deadline (1 when it has passed). It is that number exactly when that number is below \<open>2 ^ 32\<close>: a
  later deadline is cut to its low 32 bits, so the interrupt may come at once.\<close>

theorem apic_timer_bounds:
  assumes "la_apic s = Some c" "la_frequency s \<noteq> 0" "ap_current_ticks A (la_world s) = (Ok now, w0)"
    and "ap_configure_oneshot A (c, w0) = (Ok (), c1, w1)" "\<And>t. ap_set_timer_initial A t (c1, w1) = (Ok (), after t)"
    and q: "q = unat (if now < deadline then ap_ticks_to_nanos A (deadline - now) else 1) * unat (la_frequency s) div 1000000000"
  shows "\<exists>t. apic_set_timer A deadline s = (Ok (), s\<lparr>la_apic := Some (fst (after t)), la_world := snd (after t)\<rparr>)
    \<and> 1 \<le> unat t \<and> unat t \<le> max 1 q \<and> (unat t = max 1 q \<longleftrightarrow> q < 2 ^ 32)"
proof -
  let ?d = "if now < deadline then ap_ticks_to_nanos A (deadline - now) else 1"
  let ?t = "timer_ticks ?d (la_frequency s)"
  have d: "(if (if now < deadline then deadline - now else 0) = 0 then 1
      else ap_ticks_to_nanos A (if now < deadline then deadline - now else 0)) = ?d" by auto
  have "apic_set_timer A deadline s = (Ok (), s\<lparr>la_apic := Some (fst (after ?t)), la_world := snd (after ?t)\<rparr>)"
    unfolding apic_set_timer_def Let_def d
    using assms(1-5) by (simp add: with_apic_def on_ctx_def in_clock_def act_simps split: prod.split)
  moreover have "q mod 2 ^ 32 \<le> q" "q mod 2 ^ 32 < 2 ^ 32" by simp_all
  then have "1 \<le> unat ?t" "unat ?t \<le> max 1 q" "unat ?t = max 1 q \<longleftrightarrow> q < 2 ^ 32"
    unfolding unat_timer_ticks q [symmetric] by (auto simp: max_def)
  ultimately show ?thesis by blast
qed

text \<open>A timer whose register is the world, on a clock that stands still, and a deadline 4.3 seconds away.\<close>

definition plain_apic :: "(unit, u32) apic_ops" where
  "plain_apic = \<lparr> ap_new = (\<lambda>b x. ret ()), ap_enable = ret (), ap_configure_oneshot = ret (),
     ap_set_timer_initial = (\<lambda>t (c, w). (Ok (), c, t)), ap_timer_current = (\<lambda>(c, w). (Ok w, c, w)), ap_end_of_interrupt = ret (),
     ap_send_ipi = (\<lambda>i v. ret ()), ap_send_ipi_self = (\<lambda>v. ret ()), ap_send_ipi_others = (\<lambda>v. ret ()), ap_read_error_status = ret 0,
     ap_has_x2apic = True, ap_current_ticks = ret 0, ap_ticks_to_nanos = (\<lambda>t. t), ap_busy_wait_ms = (\<lambda>n. ret ()) \<rparr>"

theorem apic_timer_bounds_witness:
  "\<exists>t. apic_set_timer plain_apic 4294967296 \<lparr> la_apic = Some (), la_frequency = 1000000000, la_world = 0 \<rparr>
      = (Ok (), \<lparr> la_apic = Some (), la_frequency = 1000000000, la_world = t \<rparr>)
    \<and> 1 \<le> unat t \<and> unat t < 4294967296"
  using apic_timer_bounds [of "\<lparr> la_apic = Some (), la_frequency = 1000000000, la_world = 0 \<rparr>" "()" plain_apic 0 0 "()" 0 "\<lambda>t. ((), t)"
      "2 ^ 32" 4294967296]
  by (fastforce simp: plain_apic_def act_simps)

end
