(* ===== verification/Spec2Isabelle.thy ===== *)
theory Spec2Isabelle
  imports SysCall SysOpen Sched FdTable Futex VfsInit Drivers Virtio Block Elf Irq LocalApic
begin

text \<open>
  The domains of AlienOS: the root theory.

  \<^bold>\<open>The program.\<close> A domain is an isolated component of the kernel, a Rust crate that is loaded, replaced and
  restarted while the system runs, and that other domains reach through a trait. The repository holds the
  domains and the libraries they share. A system call enters at the system-call domain (\<open>common/syscall\<close>),
  which reads its arguments, asks the task domain (\<open>common/task\<close>) for descriptors and user memory, and calls
  the VFS domain (\<open>common/vfs\<close>) for files or the network domain (\<open>common/net_stack\<close>) for sockets. The VFS
  domain keeps the open files. Behind a path there is a file system domain (\<open>fs/\<close>, all built on
  \<open>common_lib/generic\<close>), which the VFS domain sees through the shims of \<open>common_lib/vfs_common\<close>. A device file
  leads to a device domain (\<open>drivers/\<close>), whose interrupts arrive at the interrupt controller domains
  (\<open>common/plic\<close>, \<open>common/io_apic\<close>, \<open>common/local_apic\<close>). The scheduler domains (\<open>common/fifo_scheduler\<close>,
  \<open>common/random_scheduler\<close>) choose the next task.

  \<^bold>\<open>The form of the model.\<close> A handler is a computation \<open>('s, 'a) act\<close> on an explicit state: it returns the new state
  and \<open>Ok x\<close>, \<open>Err e\<close> or \<open>panic\<close> (\<open>Prelude\<close>). A \<open>?\<close> is \<open>bind\<close>, an \<open>unwrap\<close> or an index out of range is \<open>panic\<close>. Machine
  words of the source that are addresses, flags, offsets or ids of files are words of their width and wrap, as in
  the release build; indices, lengths, descriptors and task ids are naturals. A \<open>BTreeMap\<close> is the ordered list of
  its entries (\<open>BTree\<close>). An \<open>Arc\<close> or \<open>Weak\<close> whose sharing matters is the identity of an object in a store. An
  operation that waits for another task is modelled up to the point where the task sleeps or yields, with the
  value \<open>Block\<close>; it is resumed by running it again. Code that is not in the repository (the kernel, \<open>vfscore\<close>,
  \<open>ptable\<close>, \<open>lose_net_stack\<close>, \<open>virtio_drivers\<close> and other crates) is a record of operations that every definition
  takes as an argument; what a theorem needs of it is a named predicate of its hypotheses, and the witness after
  the theorem instantiates it.

  \<^bold>\<open>Theories and code.\<close>

  \<^item> \<open>Prelude\<close>, \<open>BTree\<close>, \<open>Externals\<close>: computations and their rules (\<open>act_simps\<close>), lists and buffers; ordered maps with
    the locale \<open>ordered_map\<close>; the constants of the external crates.
  \<^item> \<open>SlotVec\<close>, \<open>FdTable\<close>: \<open>SlotVec\<close> of \<open>task/utils.rs\<close> and \<open>FdManager\<close> of \<open>task/resource.rs\<close>, with the locale
    \<open>slot_table\<close>.
  \<^item> \<open>Futex\<close>: \<open>task/futex.rs\<close> and the call of \<open>task/syscall/futex.rs\<close>.
  \<^item> \<open>Mmap\<close>, \<open>MmapFiles\<close>: heap and mappings of a task (\<open>resource.rs\<close>, \<open>syscall/mmap.rs\<close>). \<open>UserStack\<close>: the initial stack.
    \<open>Elf\<close>: the program loader, relocation and address spaces (\<open>elf.rs\<close>, \<open>arch/\<close>).
  \<^item> \<open>TaskState\<close>, \<open>TaskCalls\<close>, \<open>TaskDom\<close>: the state of the task domain and every method of \<open>TaskDomainImpl\<close>. \<open>TaskTree\<close>,
    \<open>TaskInv\<close>, \<open>TaskMake\<close>, \<open>TaskSafe\<close>, \<open>TaskRuns\<close>: its invariant, that each call keeps it, and its runs. \<open>TaskExit\<close>,
    \<open>TaskProps\<close>: leaving, waiting, and the properties.
  \<^item> \<open>Pipe\<close>, \<open>EventFd\<close>, \<open>KFile\<close>, \<open>Vfs\<close>: pipes (locale \<open>byte_queue\<close>), event counters and interest lists, open kernel and
    socket files, and the VFS domain with its recovery after a reload. \<open>VfsInit\<close>: its start (\<open>tree.rs\<close>, \<open>initrd.rs\<close>,
    \<open>devfs\<close>, \<open>ramfs\<close>, \<open>procfs\<close> of \<open>common/vfs\<close>), and what \<open>common/vfs2\<close> does differently.
  \<^item> \<open>GenericFs\<close>, \<open>Shim\<close>: a file system domain, and the inodes and entries that stand for its numbers in the VFS domain.
    \<open>ProcFs\<close>, \<open>DevFs\<close>: the files of \<open>fs/procfs\<close>, \<open>fs/domainfs\<close>, \<open>fs/devfs\<close>.
  \<^item> \<open>Block\<close>: memory disk, proxy and page cache (locale \<open>block_device\<close>). \<open>BufDev\<close>: the buffered UART and input domains and
    their calls. \<open>Drivers\<close>: null, hpet, random and the UARTs. \<open>Virtio\<close>: the virtio, SD card and clock drivers.
  \<^item> \<open>NetStack\<close>: sockets and the loopback card. \<open>Sched\<close>: both schedulers (locale \<open>ready_queue\<close>). \<open>Irq\<close>, \<open>LocalApic\<close>: the
    interrupt controllers.
  \<^item> \<open>SysEnv\<close>, \<open>SysFs\<close>, \<open>SysPoll\<close>, \<open>SysOpen\<close>, \<open>SysNet\<close>, \<open>SysTask\<close>: the handlers of \<open>common/syscall\<close>. \<open>SysFrame\<close>: the locale
    \<open>kept_calls\<close>, what a handler may do to a state that it reaches through the traits only. \<open>SysCall\<close>: the tables of
    both targets and the entry point, over the model of the task domain.

  \<^bold>\<open>What is proved.\<close>

  \<^item> \<open>Invariants\<close> over runs: the task tree, thread ids and files of the task domain (\<open>task_tree_invariant\<close>), kept by every
    sequence of system calls of either target (\<open>system_invariant\<close>); the tables of the VFS domain
    (\<open>vfs_tables_invariant\<close>), established by its first start (\<open>vfs_boot_invariant\<close>); disjoint mappings below the bump
    pointer where the kernel chooses their place, and when a mapping placed by the caller breaks this; conservation of
    events and runnable tasks, and of futex waiters up to those that a failing wake or a requeue onto itself loses.
  \<^item> \<open>Refinement\<close>: the ring buffer is a bounded queue, the block cache the flat array of the disk, the initial stack what
    the program reads back, a stream socket a stream of bytes, a socket pair one FIFO queue, a terminal a source of
    lines, and an open file over a shim the file of the file system domain behind it.
  \<^item> \<open>Typing\<close> of the numbers of a file system domain: a number stands for one entry for ever.
  \<^item> \<open>Exact results\<close>: recovery of the open files, loading of a program, \<open>mprotect\<close>, the nodes of \<open>/dev\<close>, the service of
    an interrupt line; \<open>writev\<close> as one write, text files read to their end, the bytes of a directory that is read; exit and
    wait, input events from the device to the caller.
  \<^item> \<open>Progress\<close>: \<open>readdir\<close>, the drains of the buffered devices and the interrupt handler of the network stack
    end, \<open>select\<close> and \<open>nanosleep\<close> wake when they should, no task starves under the FIFO scheduler, a file is closed when its last holder goes.
  \<^item> \<open>Faults\<close> of the code, stated as theorems on the behaviour it has: among them requeueing a futex onto itself, an
    interrupt that is lost when a handler fails once, read errors that restart a driver, fixed mappings that
    overlap others, texts of \<open>/proc\<close> that begin again, a 32-bit timer count, paths that are cut, a null device without an end.

  \<^bold>\<open>Interfaces.\<close> A locale states what a client relies on, its lemmas are proved from that alone, and it is interpreted on
  the model's definitions in the theory of the provider: \<open>ordered_map\<close> on the ordered lists, \<open>slot_table\<close> on
  \<open>FdManager\<close>, \<open>byte_queue\<close> on the ring buffer, \<open>block_device\<close> on the memory disk and on the proxy over it (and, given the
  documented law of its device, on a virtio disk: \<open>virtio_block_device\<close>), \<open>ready_queue\<close> on both schedulers,
  \<open>kept_calls\<close> on the composed system.

  \<^bold>\<open>Bounds and fuel.\<close> Loops over data are recursive on the data or have a measure. Loops that poll (a clock, a file, a
  device register, a socket) take a bound on their rounds and answer \<open>Block\<close> when it is used up; where a theorem says
  that the code returns, it says which bound is enough (one more than the packets on the card, the polls of the
  transmitter, the reads of a file, the yields up to a deadline, one more than the characters or events of a device). Fixed limits of the code (the ring of a pipe, the buffers of the
  shims, the queue of input events, 2 ^ 64 inode numbers) are stated as they are.

  \<^bold>\<open>Not modelled.\<close> Console output and logging (\<open>common/logger\<close>, \<open>common/xlogger\<close>, what the printing of the file tree writes); the
  wrappers \<open>g*\<close> and \<open>domain/\<close>, which register and build domains; \<open>fs/ramfs\<close>, \<open>fs/fatfs\<close>, \<open>fs/pipefs\<close>, \<open>fs/sysfs\<close>, which only
  instantiate \<open>GenericFsDomain\<close> over external crates; the adapters of register regions and frames in
  \<open>virtio_common\<close>; \<open>drivers/cache_blk/frame.rs\<close>, which nothing uses; the rest of \<open>common/vfs2\<close>, whose text is that of
  \<open>common/vfs\<close>; \<open>drivers/sshadow_blk\<close>, a copy of \<open>shadow_blk\<close>. The unwinding of a panic at the border of a domain is
  generated by a macro of the crate \<open>interface\<close>: a panic is a result of the computation, what its caller sees of it is
  not modelled. When the last holder of an \<open>Arc\<close> goes is modelled in the task domain; elsewhere a \<open>drop\<close> is an operation of
  its own. Locks are not modelled: a handler is one step.
\<close>

end
